(* ===== verification/Guac_Prelude.thy ===== *)
theory Guac_Prelude
  imports Main "HOL-Library.Word"
begin

unbundle bit_operations_syntax

text \<open>
  Shared vocabulary of the development: bytes and C strings, the C integer types the code
  computes with, decimal printing and scanning as the C library does it, and the generic list
  lemmas the component theories use.

  A C \<open>char\<close> is a byte, an 8-bit word. A null-terminated string is the list of the bytes
  before its terminator. An \<open>int\<close> of the code is a HOL \<open>int\<close>; where an operation of the code
  can leave the 32-bit range the two's complement result is written out with \<open>s32\<close> (and \<open>s64\<close>
  for \<open>int64_t\<close>).
\<close>

named_theorems guac_emit \<open>what a socket action appends to the output\<close>

type_synonym byte = "8 word"

section \<open>C integers\<close>

definition s32 :: "int \<Rightarrow> int" where
  "s32 i = (i + 2147483648) mod 4294967296 - 2147483648"

definition s64 :: "int \<Rightarrow> int" where
  "s64 i = (i + 9223372036854775808) mod 18446744073709551616 - 9223372036854775808"

definition in_s32 :: "int \<Rightarrow> bool" where
  "in_s32 i \<longleftrightarrow> - 2147483648 \<le> i \<and> i < 2147483648"

definition in_s64 :: "int \<Rightarrow> bool" where
  "in_s64 i \<longleftrightarrow> - 9223372036854775808 \<le> i \<and> i < 9223372036854775808"

lemma s32_id [simp]: "- 2147483648 \<le> i \<Longrightarrow> i < 2147483648 \<Longrightarrow> s32 i = i"
  by (simp add: s32_def)

lemma s64_id [simp]:
  "- 9223372036854775808 \<le> i \<Longrightarrow> i < 9223372036854775808 \<Longrightarrow> s64 i = i"
  by (simp add: s64_def)

lemma s32_range: "in_s32 (s32 i)"
proof -
  have "0 \<le> (i + 2147483648) mod 4294967296" "(i + 2147483648) mod 4294967296 < 4294967296"
    by simp_all
  then show ?thesis unfolding in_s32_def s32_def by linarith
qed

text \<open>C's division and remainder truncate towards zero.\<close>

definition c_div :: "int \<Rightarrow> int \<Rightarrow> int" where
  "c_div a b = (if (a < 0) = (b < 0) then \<bar>a\<bar> div \<bar>b\<bar> else - (\<bar>a\<bar> div \<bar>b\<bar>))"

definition c_mod :: "int \<Rightarrow> int \<Rightarrow> int" where
  "c_mod a b = a - c_div a b * b"

lemma c_div_nonneg [simp]: "0 \<le> a \<Longrightarrow> 0 < b \<Longrightarrow> c_div a b = a div b"
  by (simp add: c_div_def)

lemma c_mod_nonneg [simp]: "0 \<le> a \<Longrightarrow> 0 < b \<Longrightarrow> c_mod a b = a mod b"
  by (simp add: c_mod_def minus_div_mult_eq_mod)

section \<open>Bytes\<close>

text \<open>A decidable property of every byte, checked on all 256 of them.\<close>

lemma byte_exhaust:
  assumes "list_all (\<lambda>n. P (of_nat n)) [0..<256]"
  shows "P (c :: byte)"
proof -
  have "unat c < 256" using unsigned_less[of c, where ?'a = nat] by simp
  moreover have "\<forall>n < 256. P (of_nat n)" using assms by (simp add: list_all_iff)
  ultimately have "P (of_nat (unat c))" by blast
  then show ?thesis by simp
qed

section \<open>C strings\<close>

text \<open>The bytes of a string literal of the source.\<close>

definition cstr :: "string \<Rightarrow> byte list" where
  "cstr s = map of_char s"

lemma cstr_simps [simp]:
  "cstr [] = []"
  "cstr (c # s) = of_char c # cstr s"
  "cstr (s @ t) = cstr s @ cstr t"
  by (simp_all add: cstr_def)

text \<open>The string at an offset of a memory block: up to the first null byte.\<close>

definition cstr_at :: "byte list \<Rightarrow> nat \<Rightarrow> byte list" where
  "cstr_at mem p = takeWhile (\<lambda>c. c \<noteq> 0) (drop p mem)"

lemma cstr_at_prefix:
  assumes "\<And>i. i < length s \<Longrightarrow> mem ! (p + i) = s ! i"
    and "0 \<notin> set s" and "mem ! (p + length s) = 0" and "p + length s < length mem"
  shows "cstr_at mem p = s"
proof -
  have eq: "drop p mem = s @ 0 # drop (p + length s + 1) mem"
    using assms by (intro nth_equalityI) (auto simp: nth_append nth_Cons' algebra_simps)
  have "takeWhile (\<lambda>c. c \<noteq> 0) (s @ 0 # drop (p + length s + 1) mem) = s"
    using assms(2) by (subst takeWhile_append2) auto
  then show ?thesis
    unfolding cstr_at_def eq .
qed

section \<open>Decimal numbers\<close>

text \<open>\<open>printf\<close> with \<open>%i\<close>, \<open>%d\<close> or \<open>PRIi64\<close>.\<close>

fun dec_nat :: "nat \<Rightarrow> byte list" where
  "dec_nat n = (if n < 10 then [48 + of_nat n] else dec_nat (n div 10) @ [48 + of_nat (n mod 10)])"

declare dec_nat.simps [simp del]

definition dec_int :: "int \<Rightarrow> byte list" where
  "dec_int i = (if i < 0 then 45 # dec_nat (nat (- i)) else dec_nat (nat i))"

definition is_digit :: "byte \<Rightarrow> bool" where
  "is_digit c \<longleftrightarrow> 48 \<le> c \<and> c \<le> 57"

definition digit_val :: "byte \<Rightarrow> int" where
  "digit_val c = uint c - 48"

definition is_space :: "byte \<Rightarrow> bool" where
  "is_space c \<longleftrightarrow> c = 32 \<or> (9 \<le> c \<and> c \<le> 13)"

text \<open>
  \<open>strtol (str, &end, 10)\<close>: leading white space, an optional sign, the longest run of digits.
  The result pairs the mathematical value with the unread rest; \<open>clamp64\<close> is the saturation of
  \<open>strtol\<close> to \<open>long\<close>, and \<open>atoi\<close> is the conversion of the saturated value to \<open>int\<close>.
\<close>

definition scan_digits :: "byte list \<Rightarrow> int" where
  "scan_digits ds = foldl (\<lambda>v c. v * 10 + digit_val c) 0 ds"

definition strtol10 :: "byte list \<Rightarrow> int \<times> byte list" where
  "strtol10 str =
     (let s = dropWhile is_space str;
          neg = (s \<noteq> [] \<and> hd s = 45);
          s' = (if s \<noteq> [] \<and> (hd s = 45 \<or> hd s = 43) then tl s else s);
          ds = takeWhile is_digit s'
      in if ds = [] then (0, str)
         else ((if neg then - scan_digits ds else scan_digits ds), dropWhile is_digit s'))"

definition clamp64 :: "int \<Rightarrow> int" where
  "clamp64 v = max (- 9223372036854775808) (min 9223372036854775807 v)"

definition atoi :: "byte list \<Rightarrow> int" where
  "atoi str = s32 (clamp64 (fst (strtol10 str)))"

lemma of_nat_digit:
  assumes "n < 10"
  shows "is_digit (48 + of_nat n)" and "digit_val (48 + of_nat n) = int n"
proof -
  have "n = 0 \<or> n = 1 \<or> n = 2 \<or> n = 3 \<or> n = 4 \<or> n = 5 \<or> n = 6 \<or> n = 7 \<or> n = 8 \<or> n = 9"
    using assms by arith
  then show "is_digit (48 + of_nat n)" and "digit_val (48 + of_nat n) = int n"
    by (auto simp: is_digit_def digit_val_def)
qed

lemma dec_nat_digits: "c \<in> set (dec_nat n) \<Longrightarrow> is_digit c"
proof (induction n rule: dec_nat.induct)
  case (1 n)
  then show ?case
    by (subst (asm) (2) dec_nat.simps) (auto simp: of_nat_digit split: if_splits)
qed

lemma dec_nat_nonempty [simp]: "dec_nat n \<noteq> []"
  by (subst dec_nat.simps) simp

lemma scan_digits_dec_nat: "scan_digits (dec_nat n) = int n"
proof (induction n rule: dec_nat.induct)
  case (1 n)
  show ?case
  proof (cases "n < 10")
    case True
    then show ?thesis
      by (subst dec_nat.simps) (simp add: scan_digits_def of_nat_digit)
  next
    case False
    then have "scan_digits (dec_nat n) = scan_digits (dec_nat (n div 10)) * 10 + int (n mod 10)"
      by (subst dec_nat.simps) (simp add: scan_digits_def of_nat_digit)
    also have "\<dots> = int n"
      using "1.IH"[OF False] by (simp add: zdiv_int zmod_int)
    finally show ?thesis .
  qed
qed

lemma digit_not_special: "is_digit c \<Longrightarrow> \<not> is_space c \<and> c \<noteq> 45 \<and> c \<noteq> 43 \<and> c \<noteq> 46 \<and> c \<noteq> 0 \<and> c \<noteq> 44 \<and> c \<noteq> 59"
  unfolding is_digit_def is_space_def by (auto simp: word_le_nat_alt)

lemma dec_nat_run [simp]:
  "takeWhile is_digit (dec_nat n) = dec_nat n"
  "dropWhile is_digit (dec_nat n) = []"
  by (auto simp: dec_nat_digits)

lemma strtol10_dec_int: "strtol10 (dec_int i) = (i, [])"
proof (cases "i < 0")
  case True
  then show ?thesis
    by (simp add: strtol10_def dec_int_def is_space_def scan_digits_dec_nat Let_def)
next
  case False
  have hd: "is_digit (hd (dec_nat (nat i)))"
    by (rule dec_nat_digits[of _ "nat i"]) simp
  have "dropWhile is_space (dec_nat (nat i)) = dec_nat (nat i)"
    using digit_not_special[OF hd] by (cases "dec_nat (nat i)") auto
  with False digit_not_special[OF hd] show ?thesis
    by (simp add: strtol10_def dec_int_def scan_digits_dec_nat Let_def)
qed

text \<open>Scanning undoes printing on the whole \<open>int\<close> range.\<close>

lemma atoi_dec_int: "in_s32 i \<Longrightarrow> atoi (dec_int i) = i"
  by (simp add: atoi_def strtol10_dec_int clamp64_def in_s32_def)

lemma dec_int_ascii: "c \<in> set (dec_int i) \<Longrightarrow> is_digit c \<or> c = 45"
  by (auto simp: dec_int_def dec_nat_digits split: if_splits)

section \<open>Memory blocks\<close>

text \<open>\<open>memcpy\<close> of a block of bytes to an offset.\<close>

definition mem_write :: "'a list \<Rightarrow> nat \<Rightarrow> 'a list \<Rightarrow> 'a list" where
  "mem_write mem p bs = take p mem @ bs @ drop (p + length bs) mem"

lemma length_mem_write [simp]:
  "p + length bs \<le> length mem \<Longrightarrow> length (mem_write mem p bs) = length mem"
  by (simp add: mem_write_def)

lemma take_mem_write_end:
  "p \<le> length mem \<Longrightarrow> take (p + length bs) (mem_write mem p bs) = take p mem @ bs"
  by (simp add: mem_write_def)

lemma nth_mem_write:
  assumes "p + length bs \<le> length mem" and "i < length mem"
  shows "mem_write mem p bs ! i =
    (if i < p then mem ! i else if i < p + length bs then bs ! (i - p) else mem ! i)"
  using assms by (auto simp: mem_write_def nth_append)

end
