(* ===== verification/Guac_Unicode.thy ===== *)
theory Guac_Unicode
  imports Guac_Prelude
begin

text \<open>
  The UTF-8 routines of libguac (\<open>src/libguac/unicode.c\<close>): the size of a character from its
  first byte, the number of characters of a string, and writing and reading one code point.
  The protocol counts the length of an element in characters, so the writer and the parser both
  rest on these functions.
\<close>

section \<open>Definitions\<close>

definition guac_utf8_charsize :: "byte \<Rightarrow> nat" where
  "guac_utf8_charsize c =
     (if c OR 0x7F = 0x7F then 1
      else if c OR 0x1F = 0xDF then 2
      else if c OR 0x0F = 0xEF then 3
      else if c OR 0x07 = 0xF7 then 4
      else 1)"

fun utf8_strlen_loop :: "byte list \<Rightarrow> nat \<Rightarrow> nat \<Rightarrow> nat" where
  "utf8_strlen_loop [] skip len = len"
| "utf8_strlen_loop (c # cs) skip len =
     (if skip > 0 then utf8_strlen_loop cs (skip - 1) len
      else utf8_strlen_loop cs (guac_utf8_charsize c - 1) (len + 1))"

definition guac_utf8_strlen :: "byte list \<Rightarrow> nat" where
  "guac_utf8_strlen str = utf8_strlen_loop str 0 0"

text \<open>
  \<open>utf8_write_trailing k\<close> stores the trailing bytes at offsets \<open>k, k - 1, \<dots>, 1\<close>, shifting the
  code point right by six bits after each, and returns what is left of the code point.
\<close>

primrec utf8_write_trailing :: "nat \<Rightarrow> int \<Rightarrow> byte list \<Rightarrow> int \<times> byte list" where
  "utf8_write_trailing 0 codepoint utf8 = (codepoint, utf8)"
| "utf8_write_trailing (Suc k) codepoint utf8 =
     utf8_write_trailing k (drop_bit 6 codepoint)
       (utf8[Suc k := word_of_int (0x80 OR (codepoint AND 0x3F))])"

definition guac_utf8_write :: "int \<Rightarrow> byte list \<Rightarrow> int \<Rightarrow> int \<times> byte list" where
  "guac_utf8_write codepoint utf8 len =
     (if len \<le> 0 then (0, utf8)
      else if codepoint > 0x1FFFFF then (1, utf8[0 := 63])
      else
        (let (mask, bytes) =
           (if codepoint \<le> 0x007F then (0x00, 1)
            else if codepoint \<le> 0x7FF then (0xC0, 2)
            else if codepoint \<le> 0xFFFF then (0xE0, 3)
            else (0xF0, 4 :: nat))
         in if int bytes > len then (0, utf8)
            else
              (let (cp, buf) = utf8_write_trailing (bytes - 1) codepoint utf8
               in (int bytes, buf[0 := word_of_int (mask OR cp)]))))"

primrec utf8_read_trailing :: "nat \<Rightarrow> byte list \<Rightarrow> int \<Rightarrow> int" where
  "utf8_read_trailing 0 utf8 result = result"
| "utf8_read_trailing (Suc k) utf8 result =
     utf8_read_trailing k (tl utf8) (push_bit 6 result OR (uint (hd utf8) AND 0x3F))"

text \<open>The second component is what the code stores through \<open>codepoint\<close>, if it stores anything.\<close>

definition guac_utf8_read :: "byte list \<Rightarrow> int \<Rightarrow> int \<times> int option" where
  "guac_utf8_read utf8 len =
     (if len \<le> 0 then (0, None)
      else
        (let initial = hd utf8 in
         if \<not> (initial OR 0x7F = 0x7F \<or> initial OR 0x1F = 0xDF
                \<or> initial OR 0x0F = 0xEF \<or> initial OR 0x07 = 0xF7)
         then (1, Some 0xFFFD)
         else
           (let (result, bytes) =
              (if initial OR 0x7F = 0x7F then (uint initial, 1)
               else if initial OR 0x1F = 0xDF then (uint (initial AND 0x1F), 2)
               else if initial OR 0x0F = 0xEF then (uint (initial AND 0x0F), 3)
               else (uint (initial AND 0x07), 4 :: nat))
            in if int bytes > len then (0, None)
               else (int bytes, Some (utf8_read_trailing (bytes - 1) (tl utf8) result)))))"

section \<open>Counting characters\<close>

lemma guac_utf8_charsize_range: "1 \<le> guac_utf8_charsize c \<and> guac_utf8_charsize c \<le> 4"
  by (simp add: guac_utf8_charsize_def)

lemma guac_utf8_charsize_pos [simp]: "0 < guac_utf8_charsize c"
  by (simp add: guac_utf8_charsize_def)

lemma utf8_strlen_loop_acc:
  "utf8_strlen_loop cs skip len = len + utf8_strlen_loop (drop skip cs) 0 0"
proof (induction cs arbitrary: skip len)
  case Nil
  then show ?case by simp
next
  case (Cons c cs)
  show ?case
  proof (cases skip)
    case 0
    then show ?thesis
      using Cons.IH[of "guac_utf8_charsize c - 1" "len + 1"] Cons.IH[of "guac_utf8_charsize c - 1" 1]
      by simp
  next
    case (Suc k)
    then show ?thesis using Cons.IH[of k len] by simp
  qed
qed

text \<open>One character is counted per jump of its size, also where the last one is cut short.\<close>

lemma guac_utf8_strlen_step:
  "guac_utf8_strlen (c # cs) = Suc (guac_utf8_strlen (drop (guac_utf8_charsize c) (c # cs)))"
proof -
  obtain k where k: "guac_utf8_charsize c = Suc k"
    using guac_utf8_charsize_pos[of c] by (cases "guac_utf8_charsize c") auto
  show ?thesis
    using utf8_strlen_loop_acc[of cs k 1] by (simp add: guac_utf8_strlen_def k)
qed

lemma guac_utf8_strlen_Nil [simp]: "guac_utf8_strlen [] = 0"
  by (simp add: guac_utf8_strlen_def)

text \<open>
  A string whose characters are all complete: jumping from character to character by their sizes
  ends exactly at the end of the string.
\<close>

function utf8_complete :: "byte list \<Rightarrow> bool" where
  "utf8_complete [] = True"
| "utf8_complete (c # cs) =
     (guac_utf8_charsize c \<le> length (c # cs) \<and> utf8_complete (drop (guac_utf8_charsize c) (c # cs)))"
  by pat_completeness auto
termination
  by (relation "measure length") (use guac_utf8_charsize_pos in \<open>auto simp: Suc_le_eq\<close>)

declare utf8_complete.simps(2) [simp del]

lemma utf8_complete_induct [consumes 1, case_names Nil char]:
  assumes "utf8_complete s"
    and "P []"
    and "\<And>c cs ch rest. c # cs = ch @ rest \<Longrightarrow> length ch = guac_utf8_charsize c \<Longrightarrow>
           utf8_complete rest \<Longrightarrow> P rest \<Longrightarrow> P (c # cs)"
  shows "P s"
  using assms(1)
proof (induction s rule: utf8_complete.induct)
  case 1
  show ?case by (rule assms(2))
next
  case (2 c cs)
  then have le: "guac_utf8_charsize c \<le> length (c # cs)"
    and rest: "utf8_complete (drop (guac_utf8_charsize c) (c # cs))"
    by (simp_all add: utf8_complete.simps(2))
  show ?case
    by (rule assms(3)[of c cs "take (guac_utf8_charsize c) (c # cs)"
          "drop (guac_utf8_charsize c) (c # cs)"])
      (use 2 le rest in auto)
qed

text \<open>The bit tests of the code as intervals of byte values.\<close>

lemma byte_or_mask:
  fixes c k :: byte
  assumes "k AND mask n = mask n"
  shows "c OR mask n = k \<longleftrightarrow> drop_bit n c = drop_bit n k"
proof
  assume "c OR mask n = k"
  then show "drop_bit n c = drop_bit n k"
    by (auto intro!: bit_word_eqI simp: bit_simps)
next
  assume eq: "drop_bit n c = drop_bit n k"
  show "c OR mask n = k"
  proof (rule bit_word_eqI)
    fix i
    assume i: "i < LENGTH(8)"
    show "bit (c OR mask n) i = bit k i"
    proof (cases "i < n")
      case True
      then have "bit (k AND mask n) i" unfolding assms using i by (simp add: bit_simps)
      with True i show ?thesis by (simp add: bit_simps)
    next
      case False
      then have "bit (drop_bit n c) (i - n) = bit (drop_bit n k) (i - n)" by (simp only: eq)
      with False i show ?thesis by (simp add: bit_simps)
    qed
  qed
qed

lemma byte_drop_bit: "drop_bit n c = (k :: byte) \<longleftrightarrow> unat c div 2 ^ n = unat k"
proof -
  have "unat (drop_bit n c) = unat c div 2 ^ n"
    using unsigned_less[of c, where ?'a = nat]
    by (simp only: unsigned_drop_bit_eq) (simp add: drop_bit_eq_div take_bit_nat_eq_self)
  then show ?thesis by (simp add: word_unat_eq_iff)
qed

lemma charsize_tests:
  fixes c :: byte
  shows "c OR 0x7F = 0x7F \<longleftrightarrow> unat c < 128"
    and "c OR 0x1F = 0xDF \<longleftrightarrow> 192 \<le> unat c \<and> unat c < 224"
    and "c OR 0x0F = 0xEF \<longleftrightarrow> 224 \<le> unat c \<and> unat c < 240"
    and "c OR 0x07 = 0xF7 \<longleftrightarrow> 240 \<le> unat c \<and> unat c < 248"
proof -
  have "c OR 0x7F = 0x7F \<longleftrightarrow> drop_bit 7 c = 0"
    using byte_or_mask[of "0x7F" 7 c] by (simp add: mask_eq_exp_minus_1)
  then show "c OR 0x7F = 0x7F \<longleftrightarrow> unat c < 128" unfolding byte_drop_bit by auto
  have "c OR 0x1F = 0xDF \<longleftrightarrow> drop_bit 5 c = 6"
    using byte_or_mask[of "0xDF" 5 c] by (simp add: mask_eq_exp_minus_1)
  then show "c OR 0x1F = 0xDF \<longleftrightarrow> 192 \<le> unat c \<and> unat c < 224" unfolding byte_drop_bit by auto
  have "c OR 0x0F = 0xEF \<longleftrightarrow> drop_bit 4 c = 14"
    using byte_or_mask[of "0xEF" 4 c] by (simp add: mask_eq_exp_minus_1)
  then show "c OR 0x0F = 0xEF \<longleftrightarrow> 224 \<le> unat c \<and> unat c < 240" unfolding byte_drop_bit by auto
  have "c OR 0x07 = 0xF7 \<longleftrightarrow> drop_bit 3 c = 30"
    using byte_or_mask[of "0xF7" 3 c] by (simp add: mask_eq_exp_minus_1)
  then show "c OR 0x07 = 0xF7 \<longleftrightarrow> 240 \<le> unat c \<and> unat c < 248" unfolding byte_drop_bit by auto
qed

lemma guac_utf8_charsize_eq:
  "guac_utf8_charsize c =
     (if unat c < 128 then 1 else if 192 \<le> unat c \<and> unat c < 224 then 2
      else if 224 \<le> unat c \<and> unat c < 240 then 3 else if 240 \<le> unat c \<and> unat c < 248 then 4 else 1)"
  unfolding guac_utf8_charsize_def charsize_tests by simp

lemma ascii_charsize: "c < 128 \<Longrightarrow> guac_utf8_charsize c = 1"
  by (simp add: guac_utf8_charsize_eq word_less_nat_alt)

section \<open>Writing and reading a code point\<close>

text \<open>The UTF-8 encoding as arithmetic, the reference for the bit operations of the code.\<close>

definition utf8_ref :: "int \<Rightarrow> byte list" where
  "utf8_ref cp =
     (if cp \<le> 0x7F then [word_of_int cp]
      else if cp \<le> 0x7FF then [word_of_int (192 + cp div 64), word_of_int (128 + cp mod 64)]
      else if cp \<le> 0xFFFF then
        [word_of_int (224 + cp div 4096), word_of_int (128 + cp div 64 mod 64),
         word_of_int (128 + cp mod 64)]
      else
        [word_of_int (240 + cp div 262144), word_of_int (128 + cp div 4096 mod 64),
         word_of_int (128 + cp div 64 mod 64), word_of_int (128 + cp mod 64)])"

lemma or_low_bits:
  fixes a q :: int
  assumes "0 \<le> a" and "a < 2 ^ n"
  shows "push_bit n q OR a = q * 2 ^ n + a"
proof -
  have a: "take_bit n a = a" using assms by (simp add: take_bit_int_eq_self)
  have "push_bit n q + take_bit n a = push_bit n q OR take_bit n a"
    by (rule disjunctive_add) (simp add: bit_simps)
  then show ?thesis by (simp add: a push_bit_eq_mult)
qed

lemma and_low_bits: "(x :: int) AND 63 = x mod 64" "x AND 31 = x mod 32"
  "x AND 15 = x mod 16" "x AND 7 = x mod 8"
  using take_bit_eq_mask[of 6 x] take_bit_eq_mask[of 5 x] take_bit_eq_mask[of 4 x]
    take_bit_eq_mask[of 3 x]
  by (simp_all add: mask_eq_exp_minus_1 take_bit_eq_mod)

lemma utf8_marks:
  fixes x :: int
  shows "0 \<le> x \<Longrightarrow> x < 64 \<Longrightarrow> 0x80 OR x = 128 + x"
    and "0 \<le> x \<Longrightarrow> x < 32 \<Longrightarrow> 0xC0 OR x = 192 + x"
    and "0 \<le> x \<Longrightarrow> x < 16 \<Longrightarrow> 0xE0 OR x = 224 + x"
    and "0 \<le> x \<Longrightarrow> x < 8 \<Longrightarrow> 0xF0 OR x = 240 + x"
  using or_low_bits[of x 7 1] or_low_bits[of x 6 3] or_low_bits[of x 5 7] or_low_bits[of x 4 15]
  by (simp_all add: push_bit_eq_mult)

lemma drop_bits: "drop_bit 6 (x :: int) = x div 64"
  by (simp add: drop_bit_eq_div)

lemma push_or_bits:
  fixes x r :: int
  assumes "0 \<le> x" and "x < 64"
  shows "push_bit 6 r OR x = r * 64 + x"
  using or_low_bits[of x 6 r] assms by simp

lemma uint_byte: "0 \<le> x \<Longrightarrow> x < 256 \<Longrightarrow> uint (word_of_int x :: byte) = x"
  by (simp add: uint_word_of_int)

lemma guac_utf8_write_ref:
  assumes "0 \<le> cp" and "cp \<le> 0x1FFFFF"
    and "int (length (utf8_ref cp)) \<le> len" and "len \<le> int (length buf)"
  shows "guac_utf8_write cp buf len = (int (length (utf8_ref cp)), mem_write buf 0 (utf8_ref cp))"
proof -
  consider "cp \<le> 0x7F" | "0x7F < cp" "cp \<le> 0x7FF" | "0x7FF < cp" "cp \<le> 0xFFFF" | "0xFFFF < cp"
    by linarith
  then show ?thesis
  proof cases
    case 1
    with assms obtain b bs where "buf = b # bs" by (cases buf) (auto simp: utf8_ref_def)
    with 1 assms show ?thesis by (simp add: guac_utf8_write_def utf8_ref_def mem_write_def)
  next
    case 2
    with assms have "2 \<le> length buf" by (simp add: utf8_ref_def)
    then obtain b0 b1 bs where "buf = b0 # b1 # bs"
      by (auto simp: Suc_le_length_iff numeral_eq_Suc)
    with 2 assms show ?thesis
      by (simp add: guac_utf8_write_def utf8_ref_def mem_write_def and_low_bits utf8_marks
          drop_bits)
  next
    case 3
    with assms have "3 \<le> length buf" by (simp add: utf8_ref_def)
    then obtain b0 b1 b2 bs where "buf = b0 # b1 # b2 # bs"
      by (auto simp: Suc_le_length_iff numeral_eq_Suc)
    with 3 assms show ?thesis
      by (simp add: guac_utf8_write_def utf8_ref_def mem_write_def and_low_bits utf8_marks
          drop_bits numeral_2_eq_2 numeral_3_eq_3 zdiv_zmult2_eq[symmetric])
  next
    case 4
    with assms have "4 \<le> length buf" by (simp add: utf8_ref_def)
    then obtain b0 b1 b2 b3 bs where "buf = b0 # b1 # b2 # b3 # bs"
      by (auto simp: Suc_le_length_iff numeral_eq_Suc)
    with 4 assms show ?thesis
      by (simp add: guac_utf8_write_def utf8_ref_def mem_write_def and_low_bits utf8_marks
          drop_bits numeral_2_eq_2 numeral_3_eq_3 zdiv_zmult2_eq[symmetric])
  qed
qed

lemma unat_byte: "0 \<le> x \<Longrightarrow> x < 256 \<Longrightarrow> unat (word_of_int x :: byte) = nat x"
  by (metis uint_byte nat_uint_eq)

lemma utf8_read_trailing_simps:
  "utf8_read_trailing (Suc 0) (a # s) r = push_bit 6 r OR (uint a AND 0x3F)"
  "utf8_read_trailing 2 (a # b # s) r = utf8_read_trailing 1 (b # s) (push_bit 6 r OR (uint a AND 0x3F))"
  "utf8_read_trailing 3 (a # b # s) r = utf8_read_trailing 2 (b # s) (push_bit 6 r OR (uint a AND 0x3F))"
  by (simp_all add: numeral_2_eq_2 numeral_3_eq_3)

lemma guac_utf8_read_lead:
  assumes "int n \<le> len" and "0 < n"
  shows "unat c < 128 \<Longrightarrow> n = 1 \<Longrightarrow> guac_utf8_read (c # s) len = (1, Some (uint c))"
    and "192 \<le> unat c \<Longrightarrow> unat c < 224 \<Longrightarrow> n = 2 \<Longrightarrow>
      guac_utf8_read (c # s) len = (2, Some (utf8_read_trailing 1 s (uint c mod 32)))"
    and "224 \<le> unat c \<Longrightarrow> unat c < 240 \<Longrightarrow> n = 3 \<Longrightarrow>
      guac_utf8_read (c # s) len = (3, Some (utf8_read_trailing 2 s (uint c mod 16)))"
    and "240 \<le> unat c \<Longrightarrow> unat c < 248 \<Longrightarrow> n = 4 \<Longrightarrow>
      guac_utf8_read (c # s) len = (4, Some (utf8_read_trailing 3 s (uint c mod 8)))"
  using assms
  by (auto simp: guac_utf8_read_def Let_def charsize_tests unsigned_and_eq and_low_bits)

lemma utf8_lead_mod:
  fixes q :: int
  shows "0 \<le> q \<Longrightarrow> q < 32 \<Longrightarrow> (192 + q) mod 32 = q"
    and "0 \<le> q \<Longrightarrow> q < 16 \<Longrightarrow> (224 + q) mod 16 = q"
    and "0 \<le> q \<Longrightarrow> q < 8 \<Longrightarrow> (240 + q) mod 8 = q"
    and "(128 + q mod 64) mod 64 = q mod 64"
proof -
  show "0 \<le> q \<Longrightarrow> q < 32 \<Longrightarrow> (192 + q) mod 32 = q"
    using mod_mult_self1[of q 6 32] by (simp add: add.commute)
  show "0 \<le> q \<Longrightarrow> q < 16 \<Longrightarrow> (224 + q) mod 16 = q"
    using mod_mult_self1[of q 14 16] by (simp add: add.commute)
  show "0 \<le> q \<Longrightarrow> q < 8 \<Longrightarrow> (240 + q) mod 8 = q"
    using mod_mult_self1[of q 30 8] by (simp add: add.commute)
  show "(128 + q mod 64) mod 64 = q mod 64"
    using mod_mult_self1[of "q mod 64" 2 64] by (simp add: add.commute)
qed

lemma utf8_regroup:
  fixes x :: int
  shows "x = 64 * (x div 64) + x mod 64"
    and "x div 64 = 64 * (x div 4096) + x div 64 mod 64"
    and "x div 4096 = 64 * (x div 262144) + x div 4096 mod 64"
proof -
  show "x = 64 * (x div 64) + x mod 64" by simp
  have "x div 4096 = x div 64 div 64" by (simp flip: zdiv_zmult2_eq)
  then show "x div 64 = 64 * (x div 4096) + x div 64 mod 64" by simp
  have "x div 262144 = x div 4096 div 64" by (simp flip: zdiv_zmult2_eq)
  then show "x div 4096 = 64 * (x div 262144) + x div 4096 mod 64" by simp
qed

lemma guac_utf8_read_ref:
  assumes "0 \<le> cp" and "cp \<le> 0x1FFFFF" and "int (length (utf8_ref cp)) \<le> len"
  shows "guac_utf8_read (utf8_ref cp @ rest) len = (int (length (utf8_ref cp)), Some cp)"
proof -
  consider "cp \<le> 0x7F" | "0x7F < cp" "cp \<le> 0x7FF" | "0x7FF < cp" "cp \<le> 0xFFFF" | "0xFFFF < cp"
    by linarith
  then show ?thesis
  proof cases
    case 1
    with assms show ?thesis
      using guac_utf8_read_lead(1)[of 1 len "word_of_int cp" rest]
      by (simp add: utf8_ref_def unat_byte uint_byte)
  next
    case 2
    then have "cp div 64 < 32" "0 \<le> cp div 64" by auto
    with 2 assms show ?thesis
      using guac_utf8_read_lead(2)[of 2 len "word_of_int (192 + cp div 64)"]
      by (simp add: utf8_ref_def unat_byte uint_byte utf8_read_trailing_simps and_low_bits
          push_or_bits utf8_lead_mod del: of_int_add)
  next
    case 3
    then have "cp div 4096 < 16" "0 \<le> cp div 4096" by auto
    with 3 assms show ?thesis
      using guac_utf8_read_lead(3)[of 3 len "word_of_int (224 + cp div 4096)"]
      by (simp add: utf8_ref_def unat_byte uint_byte utf8_read_trailing_simps and_low_bits
          push_or_bits utf8_lead_mod del: of_int_add)
        (use utf8_regroup[of cp] in linarith)
  next
    case 4
    with assms have "cp div 262144 < 8" "0 \<le> cp div 262144" by auto
    with 4 assms show ?thesis
      using guac_utf8_read_lead(4)[of 4 len "word_of_int (240 + cp div 262144)"]
      by (simp add: utf8_ref_def unat_byte uint_byte utf8_read_trailing_simps and_low_bits
          push_or_bits utf8_lead_mod del: of_int_add)
        (use utf8_regroup[of cp] in linarith)
  qed
qed

section \<open>Properties\<close>

text \<open>
  C12. UTF-8 round trip: for every code point up to \<open>0x1FFFFF\<close> and every buffer with room for it,
  \<open>guac_utf8_write\<close> stores between 1 and 4 bytes, changes nothing after them, and
  \<open>guac_utf8_read\<close> on the result consumes the same number of bytes and returns the code point.
\<close>

theorem utf8_write_then_read:
  assumes "0 \<le> cp" "cp \<le> 0x1FFFFF" "int (length (utf8_ref cp)) \<le> len" "len \<le> int (length buf)"
  shows "\<exists>n buf'. guac_utf8_write cp buf len = (n, buf') \<and> 1 \<le> n \<and> n \<le> 4
    \<and> length buf' = length buf \<and> drop (nat n) buf' = drop (nat n) buf
    \<and> guac_utf8_read buf' len = (n, Some cp)"
proof -
  let ?e = "utf8_ref cp"
  have "1 \<le> length ?e" "length ?e \<le> 4" by (simp_all add: utf8_ref_def)
  moreover have "guac_utf8_write cp buf len = (int (length ?e), mem_write buf 0 ?e)"
    by (rule guac_utf8_write_ref[OF assms])
  moreover have "guac_utf8_read (mem_write buf 0 ?e) len = (int (length ?e), Some cp)"
    using guac_utf8_read_ref[OF assms(1-3)] by (simp add: mem_write_def)
  ultimately show ?thesis using assms(3,4) by (simp add: mem_write_def)
qed

theorem utf8_write_then_read_witness:
  "\<exists>n buf'. guac_utf8_write 0x20AC [0, 0, 0, 9] 4 = (n, buf') \<and> drop (nat n) buf' = drop (nat n) [0, 0, 0, 9]
    \<and> guac_utf8_read buf' 4 = (n, Some 0x20AC)"
  using utf8_write_then_read[of "0x20AC" 4 "[0, 0, 0, 9]"] by (auto simp: utf8_ref_def)

end
