(* ===== verification/Guac_Pool.thy ===== *)
theory Guac_Pool
  imports Guac_Prelude
begin

text \<open>
  The integer pool of libguac (\<open>src/libguac/pool.c\<close>), from which layer, buffer, stream and
  object indices are drawn. The linked list from \<open>__head\<close> to \<open>__tail\<close> is the list \<open>ints\<close>: the
  pool is empty when it is \<open>[]\<close>, and head and tail coincide when it has one element. Each
  operation runs under the pool's lock, so it is one step. The counters are mathematical
  integers: overflowing them takes \<open>2 ^ 31\<close> live integers.

  The interface \<open>int_pool\<close> states what the clients of a pool rely on; it is interpreted on the
  code's operations.
\<close>

section \<open>Definitions\<close>

record guac_pool =
  min_size :: int
  active :: int
  next_value :: int
  ints :: "int list"

text \<open>\<open>guac_pool_alloc\<close>; the argument tells whether \<open>malloc\<close> succeeds.\<close>

definition guac_pool_alloc :: "bool \<Rightarrow> int \<Rightarrow> guac_pool option" where
  "guac_pool_alloc malloc_ok sz =
     (if \<not> malloc_ok then None
      else Some \<lparr>min_size = sz, active = 0, next_value = 0, ints = []\<rparr>)"

definition guac_pool_next_int :: "guac_pool \<Rightarrow> int \<times> guac_pool" where
  "guac_pool_next_int pool =
     (let pool = pool\<lparr>active := active pool + 1\<rparr> in
      if ints pool = [] \<or> next_value pool < min_size pool
      then (next_value pool, pool\<lparr>next_value := next_value pool + 1\<rparr>)
      else (hd (ints pool), pool\<lparr>ints := tl (ints pool)\<rparr>))"

definition guac_pool_free_int :: "int \<Rightarrow> guac_pool \<Rightarrow> guac_pool" where
  "guac_pool_free_int v pool =
     pool\<lparr>active := active pool - 1, ints := ints pool @ [v]\<rparr>"

section \<open>The interface its clients rely on\<close>

locale int_pool =
  fixes nxt :: "'p \<Rightarrow> int \<times> 'p"
    and rel :: "int \<Rightarrow> 'p \<Rightarrow> 'p"
    and in_use :: "'p \<Rightarrow> int set"
    and inv :: "'p \<Rightarrow> bool"
  assumes nxt_fresh: "inv p \<Longrightarrow> fst (nxt p) \<notin> in_use p"
    and nxt_nonneg: "inv p \<Longrightarrow> 0 \<le> fst (nxt p)"
    and nxt_in_use: "inv p \<Longrightarrow> in_use (snd (nxt p)) = insert (fst (nxt p)) (in_use p)"
    and nxt_inv: "inv p \<Longrightarrow> inv (snd (nxt p))"
    and rel_in_use: "inv p \<Longrightarrow> v \<in> in_use p \<Longrightarrow> in_use (rel v p) = in_use p - {v}"
    and rel_inv: "inv p \<Longrightarrow> v \<in> in_use p \<Longrightarrow> inv (rel v p)"
begin

text \<open>
  Any interleaving of allocations and releases: an event is an allocation (\<open>None\<close>) or the
  release of a value (\<open>Some v\<close>); releases of values that are not in use are not part of a run.
\<close>

inductive run :: "'p \<Rightarrow> int option list \<Rightarrow> 'p \<Rightarrow> bool" where
  run_Nil: "run p [] p"
| run_alloc: "run (snd (nxt p)) es q \<Longrightarrow> run p (None # es) q"
| run_release: "v \<in> in_use p \<Longrightarrow> run (rel v p) es q \<Longrightarrow> run p (Some v # es) q"

lemma run_inv: "run p es q \<Longrightarrow> inv p \<Longrightarrow> inv q"
  by (induction rule: run.induct) (auto intro: nxt_inv rel_inv)

lemma run_fresh: "run p es q \<Longrightarrow> inv p \<Longrightarrow> fst (nxt q) \<notin> in_use q"
  by (rule nxt_fresh) (rule run_inv)

lemma nxt_rel_cycle: "inv p \<Longrightarrow> in_use (rel (fst (nxt p)) (snd (nxt p))) = in_use p"
  using nxt_fresh[of p] by (simp add: rel_in_use nxt_in_use nxt_inv)

end

section \<open>The code's pool implements it\<close>

definition pool_in_use :: "guac_pool \<Rightarrow> int set" where
  "pool_in_use p = {0..<next_value p} - set (ints p)"

definition pool_inv :: "guac_pool \<Rightarrow> bool" where
  "pool_inv p \<longleftrightarrow>
     0 \<le> next_value p \<and> distinct (ints p) \<and> set (ints p) \<subseteq> {0..<next_value p} \<and>
     active p = next_value p - int (length (ints p))"

lemma pool_inv_alloc: "guac_pool_alloc True n = Some p \<Longrightarrow> pool_inv p \<and> pool_in_use p = {}"
  by (auto simp: guac_pool_alloc_def pool_inv_def pool_in_use_def)

lemma pool_inv_nonneg_ints: "pool_inv p \<Longrightarrow> v \<in> set (ints p) \<Longrightarrow> 0 \<le> v \<and> v < next_value p"
  by (auto simp: pool_inv_def)

text \<open>The two ways an integer is taken: a new one, or the head of the free list.\<close>

lemma guac_pool_next_int_cases:
  assumes "pool_inv p"
  obtains (new) "guac_pool_next_int p =
      (next_value p, p\<lparr>active := active p + 1, next_value := next_value p + 1\<rparr>)"
      "ints p = [] \<or> next_value p < min_size p"
  | (reuse) v vs where "ints p = v # vs" "\<not> next_value p < min_size p"
      "guac_pool_next_int p = (v, p\<lparr>active := active p + 1, ints := vs\<rparr>)"
proof (cases "ints p = [] \<or> next_value p < min_size p")
  case True
  then show ?thesis by (intro new) (simp_all add: guac_pool_next_int_def)
next
  case False
  then obtain v vs where "ints p = v # vs" by (cases "ints p") auto
  with False show ?thesis by (intro reuse) (simp_all add: guac_pool_next_int_def)
qed

lemma pool_next_law:
  assumes "pool_inv p"
  shows "fst (guac_pool_next_int p) \<notin> pool_in_use p \<and> 0 \<le> fst (guac_pool_next_int p)
    \<and> pool_in_use (snd (guac_pool_next_int p)) = insert (fst (guac_pool_next_int p)) (pool_in_use p)
    \<and> pool_inv (snd (guac_pool_next_int p))"
  using assms
proof (cases rule: guac_pool_next_int_cases)
  case new
  with assms have "{0..<next_value p + 1} = insert (next_value p) {0..<next_value p}"
    and "next_value p \<notin> set (ints p)"
    by (auto simp: pool_inv_def)
  with assms new show ?thesis by (auto simp: pool_inv_def pool_in_use_def)
next
  case (reuse v vs)
  with assms show ?thesis by (auto simp: pool_inv_def pool_in_use_def)
qed

interpretation gp: int_pool guac_pool_next_int guac_pool_free_int pool_in_use pool_inv
proof
  fix p v
  assume inv: "pool_inv p"
  show "fst (guac_pool_next_int p) \<notin> pool_in_use p" "0 \<le> fst (guac_pool_next_int p)"
    "pool_in_use (snd (guac_pool_next_int p)) = insert (fst (guac_pool_next_int p)) (pool_in_use p)"
    "pool_inv (snd (guac_pool_next_int p))"
    using pool_next_law[OF inv] by blast+
  assume v: "v \<in> pool_in_use p"
  show "pool_in_use (guac_pool_free_int v p) = pool_in_use p - {v}"
    by (auto simp: pool_in_use_def guac_pool_free_int_def)
  show "pool_inv (guac_pool_free_int v p)"
    using inv v by (auto simp: pool_inv_def pool_in_use_def guac_pool_free_int_def)
qed

text \<open>The pool's counter of active integers counts the integers in use.\<close>

lemma pool_active_card:
  assumes "pool_inv p"
  shows "active p = int (card (pool_in_use p))"
proof -
  have "card (pool_in_use p) = card {0..<next_value p} - card (set (ints p))"
    using assms unfolding pool_in_use_def by (intro card_Diff_subset) (auto simp: pool_inv_def)
  moreover have "card (set (ints p)) = length (ints p)"
    using assms by (simp add: pool_inv_def distinct_card)
  moreover have "card (set (ints p)) \<le> card {0..<next_value p}"
    using assms by (intro card_mono) (auto simp: pool_inv_def)
  ultimately show ?thesis using assms by (simp add: pool_inv_def)
qed

text \<open>
  A pool with no minimum size takes a new integer only when nothing is free, so its integers
  stay below the largest number of integers that were ever live at once.
\<close>

definition pool_compact :: "int \<Rightarrow> guac_pool \<Rightarrow> bool" where
  "pool_compact n p \<longleftrightarrow> pool_inv p \<and> min_size p = 0 \<and> next_value p \<le> n"

lemma pool_compact_next:
  assumes "pool_compact n p" and "active p < n"
  shows "fst (guac_pool_next_int p) < n" and "pool_compact n (snd (guac_pool_next_int p))"
proof -
  have inv: "pool_inv p" using assms(1) by (simp add: pool_compact_def)
  then have "fst (guac_pool_next_int p) < n \<and> pool_compact n (snd (guac_pool_next_int p))"
  proof (cases rule: guac_pool_next_int_cases)
    case new
    then have "ints p = []" using assms inv by (auto simp: pool_compact_def pool_inv_def)
    with new assms inv show ?thesis by (auto simp: pool_compact_def pool_inv_def)
  next
    case (reuse v vs)
    with assms inv show ?thesis by (auto simp: pool_compact_def pool_inv_def)
  qed
  then show "fst (guac_pool_next_int p) < n" and "pool_compact n (snd (guac_pool_next_int p))"
    by simp_all
qed

lemma pool_compact_free:
  "pool_compact n p \<Longrightarrow> v \<in> pool_in_use p \<Longrightarrow> pool_compact n (guac_pool_free_int v p)"
  using gp.rel_inv[of p v] by (simp add: pool_compact_def guac_pool_free_int_def)

section \<open>Properties\<close>

text \<open>
  C13. No index is handed out twice: after any interleaving of allocations and releases of live
  integers, starting from a newly allocated pool of any minimum size, the next integer is
  non-negative and is not one of those still in use, and \<open>active\<close> is exactly the number of
  integers in use.
\<close>

theorem pool_never_duplicates:
  assumes "guac_pool_alloc True n = Some p" and "gp.run p es q"
  shows "fst (guac_pool_next_int q) \<notin> pool_in_use q \<and> 0 \<le> fst (guac_pool_next_int q)
    \<and> active q = int (card (pool_in_use q))"
proof -
  have p: "pool_inv p" using pool_inv_alloc[OF assms(1)] by simp
  have q: "pool_inv q" using gp.run_inv[OF assms(2) p] .
  from gp.run_fresh[OF assms(2) p] gp.nxt_nonneg[OF q] pool_active_card[OF q] show ?thesis by simp
qed

theorem pool_never_duplicates_witness:
  "fst (guac_pool_next_int \<lparr>min_size = 0, active = 0, next_value = 1, ints = [0]\<rparr>) = 0
   \<and> fst (guac_pool_next_int \<lparr>min_size = 0, active = 0, next_value = 1, ints = [0]\<rparr>)
       \<notin> pool_in_use \<lparr>min_size = 0, active = 0, next_value = 1, ints = [0]\<rparr>"
proof -
  let ?p = "\<lparr>min_size = 0, active = 0, next_value = 0, ints = []\<rparr>"
  let ?q = "\<lparr>min_size = 0, active = 0, next_value = 1, ints = [0]\<rparr>"
  have alloc: "guac_pool_alloc True 0 = Some ?p" by (simp add: guac_pool_alloc_def)
  have "gp.run ?q [] ?q" by (rule gp.run_Nil)
  then have "gp.run ?p [None, Some 0] ?q"
    by (intro gp.run_alloc gp.run_release)
      (simp_all add: guac_pool_next_int_def guac_pool_free_int_def pool_in_use_def)
  from pool_never_duplicates[OF alloc this] show ?thesis
    by (simp add: guac_pool_next_int_def)
qed

end
