(* ===== verification/Guac_Client.thy ===== *)
theory Guac_Client
  imports Guac_Pool
begin

text \<open>
  The index allocation of clients and users (\<open>src/libguac/client.c\<close>, \<open>src/libguac/user.c\<close>):
  layers, off-screen buffers, output streams and objects. A layer is its \<open>index\<close>; a pointer to
  a stream or object is the number of its slot in the array it lives in, and the array holds the
  \<open>index\<close> field of each slot. Only the fields these functions touch are modelled: the handler
  pointers they clear are not, and \<open>malloc\<close> of the small \<open>guac_layer\<close> structure, whose result
  the code does not check, is taken to succeed.
\<close>

section \<open>Definitions\<close>

record guac_client_indices =
  buffer_pool :: guac_pool
  layer_pool :: guac_pool
  client_stream_pool :: guac_pool
  client_output_streams :: "int list"

record guac_user_indices =
  user_stream_pool :: guac_pool
  user_output_streams :: "int list"
  object_pool :: guac_pool
  objects :: "int list"

text \<open>The part of \<open>guac_client_alloc\<close> that sets up the pools and the stream array.\<close>

definition guac_client_alloc_indices :: guac_client_indices where
  "guac_client_alloc_indices =
     \<lparr>buffer_pool = the (guac_pool_alloc True 1024),
      layer_pool = the (guac_pool_alloc True 1024),
      client_stream_pool = the (guac_pool_alloc True 0),
      client_output_streams = replicate 64 (- 1)\<rparr>"

definition guac_client_alloc_layer :: "guac_client_indices \<Rightarrow> int \<times> guac_client_indices" where
  "guac_client_alloc_layer client =
     (let (v, pool) = guac_pool_next_int (layer_pool client)
      in (v + 1, client\<lparr>layer_pool := pool\<rparr>))"

definition guac_client_alloc_buffer :: "guac_client_indices \<Rightarrow> int \<times> guac_client_indices" where
  "guac_client_alloc_buffer client =
     (let (v, pool) = guac_pool_next_int (buffer_pool client)
      in (- v - 1, client\<lparr>buffer_pool := pool\<rparr>))"

definition guac_client_free_buffer :: "int \<Rightarrow> guac_client_indices \<Rightarrow> guac_client_indices" where
  "guac_client_free_buffer layer client =
     client\<lparr>buffer_pool := guac_pool_free_int (- layer - 1) (buffer_pool client)\<rparr>"

definition guac_client_free_layer :: "int \<Rightarrow> guac_client_indices \<Rightarrow> guac_client_indices" where
  "guac_client_free_layer layer client =
     client\<lparr>layer_pool := guac_pool_free_int layer (layer_pool client)\<rparr>"

definition guac_client_alloc_stream ::
    "guac_client_indices \<Rightarrow> int option \<times> guac_client_indices" where
  "guac_client_alloc_stream client =
     (if active (client_stream_pool client) = 64 then (None, client)
      else
        (let (stream_index, pool) = guac_pool_next_int (client_stream_pool client)
         in (Some stream_index,
             client\<lparr>client_stream_pool := pool,
               client_output_streams :=
                 (client_output_streams client)[nat stream_index := stream_index * 2 + 1]\<rparr>)))"

definition guac_client_free_stream :: "int \<Rightarrow> guac_client_indices \<Rightarrow> guac_client_indices" where
  "guac_client_free_stream stream client =
     client\<lparr>client_stream_pool :=
         guac_pool_free_int (c_div ((client_output_streams client) ! nat stream - 1) 2)
           (client_stream_pool client),
       client_output_streams := (client_output_streams client)[nat stream := - 1]\<rparr>"

definition guac_user_alloc_indices :: guac_user_indices where
  "guac_user_alloc_indices =
     \<lparr>user_stream_pool = the (guac_pool_alloc True 0),
      user_output_streams = replicate 64 (- 1),
      object_pool = the (guac_pool_alloc True 0),
      objects = replicate 64 (- 1)\<rparr>"

definition guac_user_alloc_stream ::
    "guac_user_indices \<Rightarrow> int option \<times> guac_user_indices" where
  "guac_user_alloc_stream user =
     (if active (user_stream_pool user) = 64 then (None, user)
      else
        (let (stream_index, pool) = guac_pool_next_int (user_stream_pool user)
         in (Some stream_index,
             user\<lparr>user_stream_pool := pool,
               user_output_streams :=
                 (user_output_streams user)[nat stream_index := stream_index * 2]\<rparr>)))"

definition guac_user_free_stream :: "int \<Rightarrow> guac_user_indices \<Rightarrow> guac_user_indices" where
  "guac_user_free_stream stream user =
     user\<lparr>user_stream_pool :=
         guac_pool_free_int (c_div ((user_output_streams user) ! nat stream) 2)
           (user_stream_pool user),
       user_output_streams := (user_output_streams user)[nat stream := - 1]\<rparr>"

definition guac_user_alloc_object ::
    "guac_user_indices \<Rightarrow> int option \<times> guac_user_indices" where
  "guac_user_alloc_object user =
     (if active (object_pool user) = 64 then (None, user)
      else
        (let (object_index, pool) = guac_pool_next_int (object_pool user)
         in (Some object_index,
             user\<lparr>object_pool := pool,
               objects := (objects user)[nat object_index := object_index]\<rparr>)))"

definition guac_user_free_object :: "int \<Rightarrow> guac_user_indices \<Rightarrow> guac_user_indices" where
  "guac_user_free_object obj user =
     user\<lparr>object_pool := guac_pool_free_int ((objects user) ! nat obj) (object_pool user),
       objects := (objects user)[nat obj := - 1]\<rparr>"

section \<open>Slot tables\<close>

text \<open>
  Streams and objects share one scheme: a compact pool of slots and an array in which a live slot
  \<open>i\<close> holds \<open>f i\<close> and every other slot holds the closed index \<open>- 1\<close>.
\<close>

definition slots_inv :: "(int \<Rightarrow> int) \<Rightarrow> guac_pool \<Rightarrow> int list \<Rightarrow> bool" where
  "slots_inv f pool arr \<longleftrightarrow>
     pool_compact 64 pool \<and> length arr = 64 \<and>
     (\<forall>i. 0 \<le> i \<and> i < 64 \<longrightarrow> arr ! nat i = (if i \<in> pool_in_use pool then f i else - 1))"

lemma slots_inv_init: "slots_inv f (the (guac_pool_alloc True 0)) (replicate 64 (- 1))"
  by (auto simp: slots_inv_def pool_compact_def pool_inv_def guac_pool_alloc_def pool_in_use_def)

lemma slots_inv_active_le: "slots_inv f pool arr \<Longrightarrow> active pool \<le> 64"
  by (auto simp: slots_inv_def pool_compact_def pool_inv_def)

lemma slots_inv_alloc:
  assumes "slots_inv f pool arr" and "active pool \<noteq> 64"
    and "guac_pool_next_int pool = (i, pool')"
  shows "0 \<le> i \<and> i < 64 \<and> i \<notin> pool_in_use pool \<and> pool_in_use pool' = insert i (pool_in_use pool)
    \<and> slots_inv f pool' (arr[nat i := f i])"
proof -
  have inv: "pool_inv pool" and compact: "pool_compact 64 pool"
    using assms(1) by (auto simp: slots_inv_def pool_compact_def)
  have "active pool < 64" using slots_inv_active_le[OF assms(1)] assms(2) by linarith
  note step = pool_compact_next[OF compact this] gp.nxt_fresh[OF inv] gp.nxt_nonneg[OF inv]
    gp.nxt_in_use[OF inv]
  show ?thesis
    using step assms(1,3) by (auto simp: slots_inv_def nth_list_update eq_nat_nat_iff)
qed

lemma slots_inv_free:
  assumes "slots_inv f pool arr" and "i \<in> pool_in_use pool"
  shows "slots_inv f (guac_pool_free_int i pool) (arr[nat i := - 1])"
proof -
  have inv: "pool_inv pool" and compact: "pool_compact 64 pool"
    using assms(1) by (auto simp: slots_inv_def pool_compact_def)
  have "0 \<le> i \<and> i < 64" using assms(2) compact by (auto simp: pool_in_use_def pool_compact_def)
  then show ?thesis
    using assms pool_compact_free[OF compact assms(2)] gp.rel_in_use[OF inv assms(2)]
    by (auto simp: slots_inv_def nth_list_update eq_nat_nat_iff)
qed

definition client_streams_inv :: "guac_client_indices \<Rightarrow> bool" where
  "client_streams_inv c \<longleftrightarrow>
     slots_inv (\<lambda>i. i * 2 + 1) (client_stream_pool c) (client_output_streams c)"

definition user_streams_inv :: "guac_user_indices \<Rightarrow> bool" where
  "user_streams_inv u \<longleftrightarrow>
     slots_inv (\<lambda>i. i * 2) (user_stream_pool u) (user_output_streams u) \<and>
     slots_inv (\<lambda>i. i) (object_pool u) (objects u)"

lemma client_free_stream_slot:
  assumes "client_streams_inv c" and "i \<in> pool_in_use (client_stream_pool c)"
  shows "c_div ((client_output_streams c) ! nat i - 1) 2 = i"
proof -
  have "0 \<le> i \<and> i < 64"
    using assms by (auto simp: client_streams_inv_def slots_inv_def pool_compact_def pool_in_use_def)
  then show ?thesis using assms by (auto simp: client_streams_inv_def slots_inv_def)
qed

lemma user_free_stream_slot:
  assumes "user_streams_inv u" and "i \<in> pool_in_use (user_stream_pool u)"
  shows "c_div ((user_output_streams u) ! nat i) 2 = i"
proof -
  have "0 \<le> i \<and> i < 64"
    using assms by (auto simp: user_streams_inv_def slots_inv_def pool_compact_def pool_in_use_def)
  then show ?thesis using assms by (auto simp: user_streams_inv_def slots_inv_def)
qed

section \<open>Runs\<close>

text \<open>Any sequence of stream allocations and releases of live streams by a client.\<close>

inductive client_reach :: "guac_client_indices \<Rightarrow> bool" where
  client_start: "client_reach guac_client_alloc_indices"
| client_alloc: "client_reach c \<Longrightarrow> client_reach (snd (guac_client_alloc_stream c))"
| client_free: "client_reach c \<Longrightarrow> i \<in> pool_in_use (client_stream_pool c) \<Longrightarrow>
    client_reach (guac_client_free_stream i c)"

lemma client_alloc_stream_inv:
  "client_streams_inv c \<Longrightarrow> client_streams_inv (snd (guac_client_alloc_stream c))"
  using slots_inv_alloc[of "\<lambda>i. i * 2 + 1" "client_stream_pool c" "client_output_streams c"]
  by (auto simp: client_streams_inv_def guac_client_alloc_stream_def split: prod.split)

lemma client_reach_inv: "client_reach c \<Longrightarrow> client_streams_inv c"
proof (induction rule: client_reach.induct)
  case client_start
  show ?case by (simp add: client_streams_inv_def guac_client_alloc_indices_def slots_inv_init)
next
  case (client_alloc c)
  show ?case by (rule client_alloc_stream_inv[OF client_alloc.IH])
next
  case (client_free c i)
  then show ?case
    using client_free_stream_slot[OF client_free.IH client_free.hyps(2)] slots_inv_free
    by (simp add: client_streams_inv_def guac_client_free_stream_def)
qed

section \<open>Properties\<close>

text \<open>
  Client streams: in every reachable state an allocation is refused exactly when 64 streams
  are live; otherwise the slot it returns lies inside the 64-element array, was not live before,
  and receives the odd index \<open>2 * slot + 1\<close>, different from the index of every live stream.
\<close>

theorem client_stream_alloc_safe:
  assumes "client_reach c"
  shows "(fst (guac_client_alloc_stream c) = None \<longleftrightarrow> card (pool_in_use (client_stream_pool c)) = 64)
    \<and> (\<forall>i. fst (guac_client_alloc_stream c) = Some i \<longrightarrow>
         0 \<le> i \<and> i < int (length (client_output_streams c)) \<and> i \<notin> pool_in_use (client_stream_pool c) \<and>
         client_output_streams (snd (guac_client_alloc_stream c)) ! nat i = 2 * i + 1 \<and>
         (\<forall>j \<in> pool_in_use (client_stream_pool c). client_output_streams c ! nat j \<noteq> 2 * i + 1))"
proof -
  let ?pool = "client_stream_pool c" and ?arr = "client_output_streams c"
  obtain i pool' where n: "guac_pool_next_int ?pool = (i, pool')" by fastforce
  have inv: "slots_inv (\<lambda>i. i * 2 + 1) ?pool ?arr" "pool_inv ?pool" "length ?arr = 64"
    using client_reach_inv[OF assms]
    by (auto simp: client_streams_inv_def slots_inv_def pool_compact_def)
  have act: "active ?pool = int (card (pool_in_use ?pool))" by (rule pool_active_card[OF inv(2)])
  have live: "?arr ! nat j = j * 2 + 1" if "j \<in> pool_in_use ?pool" for j
    using that inv(1) by (auto simp: slots_inv_def pool_compact_def pool_in_use_def)
  show ?thesis
  proof (cases "active ?pool = 64")
    case True
    with act show ?thesis by (simp add: guac_client_alloc_stream_def)
  next
    case False
    have "card (pool_in_use ?pool) \<noteq> 64" using False act by simp
    with slots_inv_alloc[OF inv(1) False n] False n inv(3) live show ?thesis
      by (auto simp: guac_client_alloc_stream_def)
  qed
qed

theorem client_stream_alloc_safe_witness:
  "fst (guac_client_alloc_stream guac_client_alloc_indices) = Some 0
   \<and> client_output_streams (snd (guac_client_alloc_stream guac_client_alloc_indices)) ! 0 = 1"
proof -
  have first: "fst (guac_client_alloc_stream guac_client_alloc_indices) = Some 0"
    by (simp add: guac_client_alloc_stream_def guac_client_alloc_indices_def guac_pool_alloc_def
        guac_pool_next_int_def)
  with client_stream_alloc_safe[OF client_start] show ?thesis by simp
qed

text \<open>Allocating a number of layers one after the other.\<close>

primrec alloc_layers :: "nat \<Rightarrow> guac_client_indices \<Rightarrow> int list \<times> guac_client_indices" where
  "alloc_layers 0 c = ([], c)"
| "alloc_layers (Suc n) c =
     (let (l, c) = guac_client_alloc_layer c; (ls, c) = alloc_layers n c in (l # ls, c))"

lemma alloc_layers_new:
  assumes "layer_pool c = \<lparr>min_size = 1024, active = k, next_value = k, ints = []\<rparr>"
  shows "set (fst (alloc_layers n c)) = {k + 1..k + int n}
    \<and> layer_pool (snd (alloc_layers n c))
        = \<lparr>min_size = 1024, active = k + int n, next_value = k + int n, ints = []\<rparr>"
  using assms
proof (induction n arbitrary: c k)
  case 0
  then show ?case by simp
next
  case (Suc n)
  let ?c = "c\<lparr>layer_pool := \<lparr>min_size = 1024, active = k + 1, next_value = k + 1, ints = []\<rparr>\<rparr>"
  have "guac_client_alloc_layer c = (k + 1, ?c)"
    using Suc.prems by (simp add: guac_client_alloc_layer_def guac_pool_next_int_def)
  then show ?case
    using Suc.IH[of ?c "k + 1"] by (auto split: prod.splits)
qed

lemma alloc_layers_client:
  "set (fst (alloc_layers n guac_client_alloc_indices)) = {1..int n}
   \<and> layer_pool (snd (alloc_layers n guac_client_alloc_indices))
       = \<lparr>min_size = 1024, active = int n, next_value = int n, ints = []\<rparr>"
  using alloc_layers_new[of guac_client_alloc_indices 0 n]
  by (simp add: guac_client_alloc_indices_def guac_pool_alloc_def)

text \<open>
  \<open>guac_client_free_layer\<close> gives back \<open>layer->index\<close> although \<open>guac_client_alloc_layer\<close> added
  one to the pool's integer, so layer indices can collide: allocate 1024 layers (indices 1 to
  1024, the initial pool), free layer \<open>k\<close>, and the next allocation returns \<open>k + 1\<close>, the index of
  a layer that is still live, for every \<open>k\<close> from 1 to 1023.
\<close>

theorem free_layer_collides:
  assumes "1 \<le> k" and "k < 1024"
  shows "k + 1 \<in> set (fst (alloc_layers 1024 guac_client_alloc_indices))
    \<and> fst (guac_client_alloc_layer
        (guac_client_free_layer k (snd (alloc_layers 1024 guac_client_alloc_indices)))) = k + 1"
  using assms alloc_layers_client[of 1024]
  by (simp add: guac_client_alloc_layer_def guac_client_free_layer_def guac_pool_free_int_def
      guac_pool_next_int_def)

theorem free_layer_collides_witness:
  "fst (guac_client_alloc_layer
     (guac_client_free_layer 1 (snd (alloc_layers 1024 guac_client_alloc_indices)))) = 2"
  using free_layer_collides[of 1] by simp

end
