(* ===== verification/Guac_Format.thy ===== *)
theory Guac_Format
  imports Guac_Unicode
begin

text \<open>
  What the code uses of \<open>snprintf\<close>: the conversions \<open>%i\<close> (\<open>dec_int\<close> of the prelude) and
  \<open>%.16g\<close>, and the truncation to the size of the destination. A finite \<open>double\<close> is its sign, an
  integer significand and a binary exponent; \<open>%.16g\<close> rounds its exact value to 16 significant
  decimal digits, ties to even, and chooses between the fixed and the exponent notation as the C
  standard says, in the C locale.
\<close>

section \<open>Definitions\<close>

datatype c_double =
  Finite bool nat int
| Infinite bool
| NaN bool

text \<open>The text left in a destination of \<open>size\<close> bytes: all but the last hold characters.\<close>

definition snprintf :: "nat \<Rightarrow> byte list \<Rightarrow> byte list" where
  "snprintf sz text = take (sz - 1) text"

text \<open>\<open>\<lfloor>log10 (a / b)\<rfloor>\<close> for positive \<open>a\<close> and \<open>b\<close>, from above 1 and from below 1.\<close>

function dec_exp_up :: "nat \<Rightarrow> nat \<Rightarrow> int" where
  "dec_exp_up a b = (if 0 < b \<and> 10 * b \<le> a then 1 + dec_exp_up a (10 * b) else 0)"
  by pat_completeness auto

termination
  by (relation "measure (\<lambda>(a, b). a - b)") auto

function dec_exp_down :: "nat \<Rightarrow> nat \<Rightarrow> int" where
  "dec_exp_down a b = (if 0 < a \<and> a < b then dec_exp_down (10 * a) b - 1 else 0)"
  by pat_completeness auto

termination
  by (relation "measure (\<lambda>(a, b). b - a)") auto

declare dec_exp_up.simps [simp del] dec_exp_down.simps [simp del]

definition dec_exp :: "nat \<Rightarrow> nat \<Rightarrow> int" where
  "dec_exp a b = (if b \<le> a then dec_exp_up a b else dec_exp_down a b)"

definition round_half_even :: "nat \<Rightarrow> nat \<Rightarrow> nat" where
  "round_half_even n m =
     (let q = n div m; r = n mod m
      in if 2 * r < m \<or> (2 * r = m \<and> even q) then q else q + 1)"

text \<open>The 16 digits and the decimal exponent of \<open>a / b > 0\<close>.\<close>

definition g16_digits :: "nat \<Rightarrow> nat \<Rightarrow> nat \<times> int" where
  "g16_digits a b =
     (let x = dec_exp a b;
          d = (if x \<le> 15 then round_half_even (a * 10 ^ nat (15 - x)) b
               else round_half_even a (b * 10 ^ nat (x - 15)))
      in if d = 10 ^ 16 then (10 ^ 15, x + 1) else (d, x))"

definition strip_zeros :: "byte list \<Rightarrow> byte list" where
  "strip_zeros ds = rev (dropWhile (\<lambda>c. c = 48) (rev ds))"

definition with_fraction :: "byte list \<Rightarrow> byte list \<Rightarrow> byte list" where
  "with_fraction whole frac =
     (let f = strip_zeros frac in if f = [] then whole else whole @ 46 # f)"

definition g16_text :: "nat \<Rightarrow> int \<Rightarrow> byte list" where
  "g16_text d x =
     (let ds = dec_nat d in
      if - 4 \<le> x \<and> x < 16 then
        (if 0 \<le> x then with_fraction (take (nat (x + 1)) ds) (drop (nat (x + 1)) ds)
         else with_fraction [48] (replicate (nat (- x - 1)) 48 @ ds))
      else with_fraction (take 1 ds) (drop 1 ds)
           @ 101 # (if x < 0 then 45 else 43) # (if \<bar>x\<bar> < 10 then [48] else []) @ dec_nat (nat \<bar>x\<bar>))"

definition printf_g16 :: "c_double \<Rightarrow> byte list" where
  "printf_g16 v =
     (case v of
        Finite neg m e \<Rightarrow>
          (if neg then [45] else []) @
          (if m = 0 then [48]
           else (case g16_digits (m * 2 ^ nat e) (2 ^ nat (- e)) of (d, x) \<Rightarrow> g16_text d x))
      | Infinite neg \<Rightarrow> (if neg then [45] else []) @ cstr ''inf''
      | NaN neg \<Rightarrow> (if neg then [45] else []) @ cstr ''nan'')"

section \<open>The text is printable ASCII\<close>

definition printable :: "byte \<Rightarrow> bool" where
  "printable c \<longleftrightarrow> 32 < c \<and> c < 128"

lemma digit_printable: "is_digit c \<Longrightarrow> printable c"
  by (auto simp: is_digit_def printable_def word_le_nat_alt word_less_nat_alt)

lemma dec_nat_printable: "c \<in> set (dec_nat n) \<Longrightarrow> printable c"
  by (rule digit_printable) (rule dec_nat_digits)

lemma dec_int_printable: "c \<in> set (dec_int i) \<Longrightarrow> printable c"
  using dec_nat_printable by (auto simp: dec_int_def printable_def split: if_splits)

lemma strip_zeros_all: "list_all P ds \<Longrightarrow> list_all P (strip_zeros ds)"
  by (auto simp: strip_zeros_def list_all_iff dest: set_dropWhileD)

lemma with_fraction_printable:
  "list_all printable w \<Longrightarrow> list_all printable f \<Longrightarrow> list_all printable (with_fraction w f)"
  using strip_zeros_all[of printable f]
  by (simp add: with_fraction_def Let_def) (simp add: printable_def)

lemma dec_nat_all: "list_all printable (dec_nat d)"
  "list_all printable (take k (dec_nat d))" "list_all printable (drop k (dec_nat d))"
  by (auto simp: list_all_iff dest: in_set_takeD in_set_dropD dec_nat_printable)

lemma printable_marks: "printable 48" "printable 45" "printable 43" "printable 101"
  by (simp_all add: printable_def)

lemma replicate_printable: "list_all printable (replicate k 48)"
  by (simp add: list_all_iff printable_marks)

lemma g16_text_printable: "list_all printable (g16_text d x)"
  unfolding g16_text_def Let_def
  by (simp add: with_fraction_printable dec_nat_all replicate_printable printable_marks)

lemma printf_g16_printable: "list_all printable (printf_g16 v)"
proof (cases v)
  case (Finite neg m e)
  then show ?thesis
    by (simp add: printf_g16_def g16_text_printable printable_marks split: prod.splits)
qed (simp_all add: printf_g16_def printable_def)

section \<open>Lengths\<close>

lemma length_dec_nat: "n < 10 ^ Suc k \<Longrightarrow> length (dec_nat n) \<le> Suc k"
proof (induction k arbitrary: n)
  case 0
  then show ?case by (simp add: dec_nat.simps)
next
  case (Suc k)
  have "n div 10 < 10 ^ Suc k" using Suc.prems by (simp add: less_mult_imp_div_less)
  then have "length (dec_nat (n div 10)) \<le> Suc k" by (rule Suc.IH)
  then show ?case by (subst dec_nat.simps) simp
qed

lemma s64_range: "in_s64 (s64 i)"
proof -
  have "0 \<le> (i + 9223372036854775808) mod 18446744073709551616"
    "(i + 9223372036854775808) mod 18446744073709551616 < 18446744073709551616"
    by simp_all
  then show ?thesis unfolding in_s64_def s64_def by linarith
qed

lemma length_dec_s64: "length (dec_int (s64 i)) \<le> 20"
proof -
  have "\<bar>s64 i\<bar> \<le> 9223372036854775808" using s64_range[of i] unfolding in_s64_def by linarith
  then have "nat \<bar>s64 i\<bar> < 10 ^ Suc 18" by simp
  then have "length (dec_nat (nat \<bar>s64 i\<bar>)) \<le> Suc 18" by (rule length_dec_nat)
  then show ?thesis by (auto simp: dec_int_def abs_if split: if_splits)
qed

text \<open>A decimal numeral always fits the 128 bytes the code gives it.\<close>

lemma snprintf_dec_s64 [simp]: "snprintf 128 (dec_int (s64 i)) = dec_int (s64 i)"
  using length_dec_s64[of i] by (simp add: snprintf_def)

lemma snprintf_printable: "c \<in> set (snprintf n (printf_g16 v)) \<Longrightarrow> printable c"
  using printf_g16_printable[of v] by (auto simp: snprintf_def list_all_iff dest: in_set_takeD)

section \<open>Character counts of ASCII text\<close>

lemma guac_utf8_strlen_ascii:
  assumes "\<And>c. c \<in> set s \<Longrightarrow> c < 128"
  shows "guac_utf8_strlen s = length s"
  using assms
proof (induction s)
  case (Cons c s)
  then show ?case by (simp add: guac_utf8_strlen_step ascii_charsize)
qed simp

end
