(* ===== verification/Guac_Instruction.thy ===== *)
theory Guac_Instruction
  imports Guac_Format
begin

text \<open>
  The wire format of the Guacamole protocol, as a specification: the send functions of
  \<open>src/libguac/protocol.c\<close> are shown to produce it and the parser of \<open>src/libguac/parser.c\<close> to read
  it.
\<close>

section \<open>The encoding of an instruction\<close>

definition element :: "byte list \<Rightarrow> byte list" where
  "element e = dec_nat (guac_utf8_strlen e) @ 46 # e"

fun encode_elements :: "byte list list \<Rightarrow> byte list" where
  "encode_elements [] = []"
| "encode_elements [e] = element e"
| "encode_elements (e # es) = element e @ 44 # encode_elements es"

definition encode_instruction :: "byte list list \<Rightarrow> byte list" where
  "encode_instruction es = encode_elements es @ [59]"

text \<open>The elements for an \<open>int64_t\<close> and for a \<open>double\<close>.\<close>

definition num :: "int \<Rightarrow> byte list" where
  "num i = dec_int (s64 i)"

definition dbl :: "c_double \<Rightarrow> byte list" where
  "dbl d = snprintf 128 (printf_g16 d)"

lemma encode_elements_Cons:
  "encode_elements (e # es) = element e @ concat (map (\<lambda>e. 44 # element e) es)"
proof (induction es arbitrary: e)
  case (Cons f es)
  then show ?case by simp
qed simp

lemma encode_instruction_Cons:
  "encode_instruction (e # es) = element e @ concat (map (\<lambda>e. 44 # element e) es) @ [59]"
  by (simp add: encode_instruction_def encode_elements_Cons)

text \<open>The literal heads of the source, e.g. \<open>3.ack,\<close>, are encoded elements.\<close>

lemma element_ascii: "list_all (\<lambda>c. c < 128) e \<Longrightarrow> element e = dec_nat (length e) @ 46 # e"
  by (simp add: element_def guac_utf8_strlen_ascii list_all_iff)

lemma dec_nat_literals:
  "dec_nat (Suc 0) = [49]" "dec_nat (Suc (Suc (Suc 0))) = [51]"
  "dec_nat (Suc (Suc (Suc (Suc 0)))) = [52]" "dec_nat (Suc (Suc (Suc (Suc (Suc 0))))) = [53]"
  "dec_nat (Suc (Suc (Suc (Suc (Suc (Suc 0)))))) = [54]"
  "dec_nat (Suc (Suc (Suc (Suc (Suc (Suc (Suc 0))))))) = [55]"
  "dec_nat (Suc (Suc (Suc (Suc (Suc (Suc (Suc (Suc 0)))))))) = [56]"
  "dec_nat (Suc (Suc (Suc (Suc (Suc (Suc (Suc (Suc (Suc 0))))))))) = [57]"
  "dec_nat (Suc (Suc (Suc (Suc (Suc (Suc (Suc (Suc (Suc (Suc 0)))))))))) = [49, 48]"
  by (simp_all add: dec_nat.simps)

end
