(* ===== verification/Guac_Socket.thy ===== *)
theory Guac_Socket
  imports Guac_Prelude
begin

text \<open>
  The generic socket of libguac (\<open>src/libguac/socket.c\<close>). A \<open>guac_socket\<close> carries
  implementation data (\<open>void* data\<close>, here the type parameter) and handlers that work on it; a
  missing handler is \<open>None\<close>, the C \<open>NULL\<close>.

  An action on a socket returns \<open>Some (result, socket)\<close>, or \<open>None\<close> when the code has no defined
  result: it waits or loops forever, or it writes outside an array. \<open>write_handler\<close> is given the
  bytes \<open>buf[0..count)\<close>; its documented results are a number of bytes written or \<open>- 1\<close>, and any
  other result would move the caller's pointer out of its buffer. \<open>now\<close> is what
  \<open>guac_timestamp_current ()\<close> returns.

  The interfaces \<open>socket_base\<close> and \<open>socket_output\<close> say what an implementation of the handlers
  promises; the actions of this theory, and of the protocol theory after it, are proved once
  against them.
\<close>

section \<open>Definitions\<close>

datatype guac_socket_state = GUAC_SOCKET_OPEN | GUAC_SOCKET_CLOSED

record 's guac_socket =
  sdata :: 's
  read_handler :: "('s \<Rightarrow> nat \<Rightarrow> (int \<times> byte list \<times> 's) option) option"
  write_handler :: "('s \<Rightarrow> byte list \<Rightarrow> (int \<times> 's) option) option"
  flush_handler :: "('s \<Rightarrow> (int \<times> 's) option) option"
  lock_handler :: "('s \<Rightarrow> 's option) option"
  unlock_handler :: "('s \<Rightarrow> 's option) option"
  select_handler :: "('s \<Rightarrow> int \<Rightarrow> (int \<times> 's) option) option"
  free_handler :: "('s \<Rightarrow> (int \<times> 's) option) option"
  socket_state :: guac_socket_state
  last_write_timestamp :: int
  ready :: nat
  ready_buf :: "int list"
  keep_alive_enabled :: bool
  now :: int

type_synonym 's action = "'s guac_socket \<Rightarrow> (int \<times> 's guac_socket) option"

text \<open>\<open>__guac_socket_BASE64_CHARACTERS\<close>\<close>

definition BASE64_CHARACTERS :: "byte list" where
  "BASE64_CHARACTERS = cstr ''ABCDEFGHIJKLMNOPQRSTUVWXYZabcdefghijklmnopqrstuvwxyz0123456789+/''"

text \<open>\<open>guac_socket_alloc\<close>; the contents of \<open>__ready_buf\<close> are whatever \<open>malloc\<close> returned.\<close>

definition guac_socket_alloc :: "bool \<Rightarrow> int \<Rightarrow> int list \<Rightarrow> 's \<Rightarrow> 's guac_socket option" where
  "guac_socket_alloc malloc_ok clock garbage null =
     (if \<not> malloc_ok then None
      else Some \<lparr>sdata = null, read_handler = None, write_handler = None, flush_handler = None,
                 lock_handler = None, unlock_handler = None, select_handler = None,
                 free_handler = None, socket_state = GUAC_SOCKET_OPEN,
                 last_write_timestamp = clock, ready = 0, ready_buf = garbage,
                 keep_alive_enabled = False, now = clock\<rparr>)"

text \<open>\<open>__guac_socket_write\<close>: one attempt to write.\<close>

definition socket_write_once :: "'s guac_socket \<Rightarrow> byte list \<Rightarrow> (int \<times> 's guac_socket) option" where
  "socket_write_once socket buf =
     (let socket = socket\<lparr>last_write_timestamp := now socket\<rparr> in
      case write_handler socket of
        Some h \<Rightarrow> map_option (\<lambda>(n, d). (n, socket\<lparr>sdata := d\<rparr>)) (h (sdata socket) buf)
      | None \<Rightarrow> Some (int (length buf), socket))"

partial_function (option) guac_socket_write ::
    "'s guac_socket \<Rightarrow> byte list \<Rightarrow> (int \<times> 's guac_socket) option" where
  "guac_socket_write socket buf =
     (if buf = [] then Some (0, socket)
      else Option.bind (socket_write_once socket buf) (\<lambda>(written, socket).
        if written = - 1 then Some (1, socket)
        else if written < 0 \<or> written > int (length buf) then None
        else guac_socket_write socket (drop (nat written) buf)))"

definition guac_socket_read ::
    "'s guac_socket \<Rightarrow> nat \<Rightarrow> (int \<times> byte list \<times> 's guac_socket) option" where
  "guac_socket_read socket count =
     (case read_handler socket of
        Some h \<Rightarrow> map_option (\<lambda>(n, bs, d). (n, bs, socket\<lparr>sdata := d\<rparr>)) (h (sdata socket) count)
      | None \<Rightarrow> Some (0, [], socket))"

definition guac_socket_select :: "'s guac_socket \<Rightarrow> int \<Rightarrow> (int \<times> 's guac_socket) option" where
  "guac_socket_select socket usec_timeout =
     (case select_handler socket of
        Some h \<Rightarrow> map_option (\<lambda>(n, d). (n, socket\<lparr>sdata := d\<rparr>)) (h (sdata socket) usec_timeout)
      | None \<Rightarrow> Some (1, socket))"

definition guac_socket_instruction_begin :: "'s guac_socket \<Rightarrow> 's guac_socket option" where
  "guac_socket_instruction_begin socket =
     (case lock_handler socket of
        Some h \<Rightarrow> map_option (\<lambda>d. socket\<lparr>sdata := d\<rparr>) (h (sdata socket))
      | None \<Rightarrow> Some socket)"

definition guac_socket_instruction_end :: "'s guac_socket \<Rightarrow> 's guac_socket option" where
  "guac_socket_instruction_end socket =
     (case unlock_handler socket of
        Some h \<Rightarrow> map_option (\<lambda>d. socket\<lparr>sdata := d\<rparr>) (h (sdata socket))
      | None \<Rightarrow> Some socket)"

definition guac_socket_flush :: "'s action" where
  "guac_socket_flush socket =
     (case flush_handler socket of
        Some h \<Rightarrow> map_option (\<lambda>(n, d). (n, socket\<lparr>sdata := d\<rparr>)) (h (sdata socket))
      | None \<Rightarrow> Some (0, socket))"

text \<open>
  \<open>guac_socket_free\<close> up to the release of the memory: flush, free handler, mark closed. The join
  of the keep-alive thread is the wait for a loop that stops once the socket is not open.
\<close>

definition guac_socket_free :: "'s guac_socket \<Rightarrow> 's guac_socket option" where
  "guac_socket_free socket =
     Option.bind (guac_socket_flush socket) (\<lambda>(_, socket).
       Option.bind
         (case free_handler socket of
            Some h \<Rightarrow> map_option (\<lambda>(_, d). socket\<lparr>sdata := d\<rparr>) (h (sdata socket))
          | None \<Rightarrow> Some socket)
         (\<lambda>socket. Some (socket\<lparr>socket_state := GUAC_SOCKET_CLOSED\<rparr>)))"

definition guac_socket_write_int :: "int \<Rightarrow> 's action" where
  "guac_socket_write_int i socket = guac_socket_write socket (dec_int i)"

definition guac_socket_write_string :: "byte list \<Rightarrow> 's action" where
  "guac_socket_write_string str socket =
     map_option (\<lambda>(r, socket). (if r \<noteq> 0 then 1 else 0, socket)) (guac_socket_write socket str)"

text \<open>The four characters for the integers \<open>a\<close>, \<open>b\<close>, \<open>c\<close>; \<open>b\<close> and \<open>c\<close> are negative when absent.\<close>

definition base64_quad :: "int \<Rightarrow> int \<Rightarrow> int \<Rightarrow> byte list" where
  "base64_quad a b c =
     (let ch = (\<lambda>i. BASE64_CHARACTERS ! nat i);
          o0 = ch (drop_bit 2 (a AND 0xFC))
      in if b \<ge> 0 then
           (let o1 = ch (push_bit 4 (a AND 0x03) OR drop_bit 4 (b AND 0xF0))
            in if c \<ge> 0 then
                 [o0, o1, ch (push_bit 2 (b AND 0x0F) OR drop_bit 6 (c AND 0xC0)), ch (c AND 0x3F)]
               else [o0, o1, ch (push_bit 2 (b AND 0x0F)), 61])
         else [o0, ch (push_bit 4 (a AND 0x03)), 61, 61])"

definition socket_write_base64_triplet :: "int \<Rightarrow> int \<Rightarrow> int \<Rightarrow> 's action" where
  "socket_write_base64_triplet a b c socket =
     Option.bind (guac_socket_write socket (base64_quad a b c)) (\<lambda>(r, socket).
       if r \<noteq> 0 then Some (- 1, socket)
       else if b < 0 then Some (1, socket)
       else if c < 0 then Some (2, socket)
       else Some (3, socket))"

text \<open>\<open>__ready_buf\<close> has three elements; storing at \<open>__ready = 3\<close> is outside it.\<close>

definition socket_write_base64_byte :: "int \<Rightarrow> 's action" where
  "socket_write_base64_byte buf socket =
     (if ready socket \<ge> 3 then None
      else
        (let socket = socket\<lparr>ready_buf := (ready_buf socket)[ready socket := buf],
                             ready := ready socket + 1\<rparr> in
         if ready socket = 3 then
           Option.bind
             (socket_write_base64_triplet (ready_buf socket ! 0) (ready_buf socket ! 1)
                (ready_buf socket ! 2) socket)
             (\<lambda>(retval, socket).
                if retval < 0 then Some (retval, socket) else Some (1, socket\<lparr>ready := 0\<rparr>))
         else Some (1, socket)))"

primrec guac_socket_write_base64 :: "byte list \<Rightarrow> 's action" where
  "guac_socket_write_base64 [] socket = Some (0, socket)"
| "guac_socket_write_base64 (c # cs) socket =
     Option.bind (socket_write_base64_byte (uint c) socket) (\<lambda>(retval, socket).
       if retval < 0 then Some (retval, socket) else guac_socket_write_base64 cs socket)"

partial_function (option) guac_socket_flush_base64 ::
    "'s guac_socket \<Rightarrow> (int \<times> 's guac_socket) option" where
  "guac_socket_flush_base64 socket =
     (if ready socket > 0 then
        Option.bind (socket_write_base64_byte (- 1) socket) (\<lambda>(retval, socket).
          if retval < 0 then Some (retval, socket) else guac_socket_flush_base64 socket)
      else Some (0, socket))"

text \<open>A chain \<open>a || b || \<dots>\<close> of C: stops at the first non-zero result, and is 0 or 1.\<close>

primrec c_any :: "('s guac_socket \<Rightarrow> (int \<times> 's guac_socket) option) list \<Rightarrow> 's action" where
  "c_any [] socket = Some (0, socket)"
| "c_any (a # as) socket =
     Option.bind (a socket) (\<lambda>(r, socket). if r \<noteq> 0 then Some (1, socket) else c_any as socket)"

lemma c_any_append:
  "c_any (as @ bs) sk =
     Option.bind (c_any as sk) (\<lambda>(r, sk). if r \<noteq> 0 then Some (1, sk) else c_any bs sk)"
  by (induction as arbitrary: sk) (auto intro!: Option.bind_cong split: prod.splits)

section \<open>What an implementation of the handlers promises\<close>

text \<open>
  Total handlers: a write returns, writing at least one byte or failing with \<open>- 1\<close>, and keeps
  the instruction lock as it is; locking a free lock and unlocking a held one succeed.
\<close>

locale socket_base =
  fixes wh :: "'s \<Rightarrow> byte list \<Rightarrow> (int \<times> 's) option"
    and fl :: "'s \<Rightarrow> (int \<times> 's) option"
    and lk :: "'s \<Rightarrow> 's option"
    and ulk :: "'s \<Rightarrow> 's option"
    and ok :: "'s \<Rightarrow> bool"
    and locked :: "'s \<Rightarrow> bool"
  assumes write_total: "ok d \<Longrightarrow> bs \<noteq> [] \<Longrightarrow>
      \<exists>n d'. wh d bs = Some (n, d') \<and> (n = - 1 \<or> (0 < n \<and> n \<le> int (length bs)))
        \<and> ok d' \<and> locked d' = locked d"
    and flush_total: "ok d \<Longrightarrow> \<exists>r d'. fl d = Some (r, d') \<and> ok d' \<and> locked d' = locked d"
    and lock_free: "ok d \<Longrightarrow> \<not> locked d \<Longrightarrow> \<exists>d'. lk d = Some d' \<and> ok d' \<and> locked d'"
    and unlock_held: "ok d \<Longrightarrow> locked d \<Longrightarrow> \<exists>d'. ulk d = Some d' \<and> ok d' \<and> \<not> locked d'"
begin

definition wired :: "'s guac_socket \<Rightarrow> bool" where
  "wired sk \<longleftrightarrow> write_handler sk = Some wh \<and> flush_handler sk = Some fl \<and> lock_handler sk = Some lk
     \<and> unlock_handler sk = Some ulk \<and> ok (sdata sk)"

text \<open>An action that returns whatever the writes do, and leaves the lock as it was.\<close>

definition safe :: "'s action \<Rightarrow> bool" where
  "safe act \<longleftrightarrow> (\<forall>sk. wired sk \<longrightarrow>
     (\<exists>r sk'. act sk = Some (r, sk') \<and> wired sk' \<and> locked (sdata sk') = locked (sdata sk)))"

lemma safeE:
  assumes "safe act" and "wired sk"
  obtains r sk' where "act sk = Some (r, sk')" "wired sk'" "locked (sdata sk') = locked (sdata sk)"
  using assms unfolding safe_def by blast

lemma safeI:
  assumes "\<And>sk. wired sk \<Longrightarrow>
    \<exists>r sk'. act sk = Some (r, sk') \<and> wired sk' \<and> locked (sdata sk') = locked (sdata sk)"
  shows "safe act"
  using assms unfolding safe_def by blast

lemma safe_write: "safe (\<lambda>sk. guac_socket_write sk bs)"
  unfolding safe_def
proof (induction bs rule: length_induct)
  case (1 bs)
  show ?case
  proof (intro allI impI)
    fix sk :: "'s guac_socket"
    assume w: "wired sk"
    show "\<exists>r sk'. guac_socket_write sk bs = Some (r, sk') \<and> wired sk'
        \<and> locked (sdata sk') = locked (sdata sk)"
    proof (cases "bs = []")
      case True
      with w show ?thesis by (simp add: guac_socket_write.simps)
    next
      case False
      let ?t = "sk\<lparr>last_write_timestamp := now sk\<rparr>"
      obtain n d' where h: "wh (sdata sk) bs = Some (n, d')" "n = - 1 \<or> (0 < n \<and> n \<le> int (length bs))"
        "ok d'" "locked d' = locked (sdata sk)"
        using write_total[of "sdata sk" bs] w False by (auto simp: wired_def)
      have once: "socket_write_once sk bs = Some (n, ?t\<lparr>sdata := d'\<rparr>)"
        using w h(1) by (simp add: socket_write_once_def wired_def)
      have w': "wired (?t\<lparr>sdata := d'\<rparr>)" using w h(3) by (simp add: wired_def)
      show ?thesis
      proof (cases "n = - 1")
        case True
        with once w' h(4) False show ?thesis by (subst guac_socket_write.simps) simp
      next
        case n: False
        with h(2) False have "length (drop (nat n) bs) < length bs" by (cases bs) auto
        with 1 w' h(4) have "\<exists>r sk'. guac_socket_write (?t\<lparr>sdata := d'\<rparr>) (drop (nat n) bs)
            = Some (r, sk') \<and> wired sk' \<and> locked (sdata sk') = locked (sdata sk)"
          by fastforce
        with once n h(2) False show ?thesis by (subst guac_socket_write.simps) simp
      qed
    qed
  qed
qed

lemma safe_write_string: "safe (guac_socket_write_string str)"
proof (rule safeI)
  fix sk :: "'s guac_socket"
  assume "wired sk"
  then obtain r sk' where "guac_socket_write sk str = Some (r, sk')" "wired sk'"
    "locked (sdata sk') = locked (sdata sk)"
    by (rule safeE[OF safe_write])
  then show "\<exists>r sk'. guac_socket_write_string str sk = Some (r, sk') \<and> wired sk'
      \<and> locked (sdata sk') = locked (sdata sk)"
    by (simp add: guac_socket_write_string_def)
qed

lemma safe_write_int: "safe (guac_socket_write_int i)"
  using safe_write[of "dec_int i"] by (simp add: safe_def guac_socket_write_int_def)

lemma safe_flush: "safe guac_socket_flush"
proof (rule safeI)
  fix sk :: "'s guac_socket"
  assume w: "wired sk"
  then obtain r d' where "fl (sdata sk) = Some (r, d')" "ok d'" "locked d' = locked (sdata sk)"
    using flush_total[of "sdata sk"] by (auto simp: wired_def)
  with w show "\<exists>r sk'. guac_socket_flush sk = Some (r, sk') \<and> wired sk'
      \<and> locked (sdata sk') = locked (sdata sk)"
    by (simp add: guac_socket_flush_def wired_def)
qed

lemma safe_c_any: "(\<And>a. a \<in> set as \<Longrightarrow> safe a) \<Longrightarrow> safe (c_any as)"
proof (induction as)
  case Nil
  then show ?case by (simp add: safe_def)
next
  case (Cons a as)
  then have a: "safe a" and as: "safe (c_any as)" by simp_all
  show ?case
  proof (rule safeI)
    fix sk :: "'s guac_socket"
    assume "wired sk"
    with a obtain r sk1 where 1: "a sk = Some (r, sk1)" "wired sk1"
      "locked (sdata sk1) = locked (sdata sk)"
      by (rule safeE)
    from as 1(2) obtain r' sk2 where 2: "c_any as sk1 = Some (r', sk2)" "wired sk2"
      "locked (sdata sk2) = locked (sdata sk1)"
      by (rule safeE)
    from 1 2 show "\<exists>r sk'. c_any (a # as) sk = Some (r, sk') \<and> wired sk'
        \<and> locked (sdata sk') = locked (sdata sk)"
      by simp
  qed
qed

lemma instruction_begin_ok:
  "wired sk \<Longrightarrow> \<not> locked (sdata sk) \<Longrightarrow>
   \<exists>d. guac_socket_instruction_begin sk = Some (sk\<lparr>sdata := d\<rparr>) \<and> ok d \<and> locked d
      \<and> lk (sdata sk) = Some d"
  using lock_free[of "sdata sk"] by (auto simp: wired_def guac_socket_instruction_begin_def)

lemma instruction_end_ok:
  "wired sk \<Longrightarrow> locked (sdata sk) \<Longrightarrow>
   \<exists>d. guac_socket_instruction_end sk = Some (sk\<lparr>sdata := d\<rparr>) \<and> ok d \<and> \<not> locked d
      \<and> ulk (sdata sk) = Some d"
  using unlock_held[of "sdata sk"] by (auto simp: wired_def guac_socket_instruction_end_def)

end

text \<open>
  A reliable output: every write takes at least one byte, and \<open>out\<close>, the bytes the socket has
  accepted so far, grows by exactly the bytes taken.
\<close>

locale socket_output = socket_base +
  fixes out :: "'a \<Rightarrow> byte list"
    and good :: "'a \<Rightarrow> bool"
  assumes write_out: "ok d \<Longrightarrow> good d \<Longrightarrow> bs \<noteq> [] \<Longrightarrow> wh d bs = Some (n, d') \<Longrightarrow>
      n \<noteq> - 1 \<and> good d' \<and> out d' = out d @ take (nat n) bs"
    and flush_out: "ok d \<Longrightarrow> good d \<Longrightarrow> fl d = Some (r, d') \<Longrightarrow> r = 0 \<and> good d' \<and> out d' = out d"
    and lock_out: "lk d = Some d' \<Longrightarrow> good d \<Longrightarrow> good d' \<and> out d' = out d"
    and unlock_out: "ulk d = Some d' \<Longrightarrow> good d \<Longrightarrow> good d' \<and> out d' = out d"
begin

text \<open>Between two instructions: no base64 data pending, nothing but complete instructions out.\<close>

definition quiet :: "'a guac_socket \<Rightarrow> bool" where
  "quiet sk \<longleftrightarrow> wired sk \<and> good (sdata sk) \<and> ready sk = 0 \<and> length (ready_buf sk) = 3"

definition emits :: "'a action \<Rightarrow> byte list \<Rightarrow> bool" where
  "emits act bs \<longleftrightarrow> (\<forall>sk. quiet sk \<longrightarrow>
     (\<exists>sk'. act sk = Some (0, sk') \<and> quiet sk' \<and> locked (sdata sk') = locked (sdata sk)
        \<and> out (sdata sk') = out (sdata sk) @ bs))"

lemma emitsE:
  assumes "emits act bs" and "quiet sk"
  obtains sk' where "act sk = Some (0, sk')" "quiet sk'"
    "locked (sdata sk') = locked (sdata sk)" "out (sdata sk') = out (sdata sk) @ bs"
  using assms unfolding emits_def by blast

lemma emitsI:
  assumes "\<And>sk. quiet sk \<Longrightarrow> \<exists>sk'. act sk = Some (0, sk') \<and> quiet sk'
    \<and> locked (sdata sk') = locked (sdata sk) \<and> out (sdata sk') = out (sdata sk) @ bs"
  shows "emits act bs"
  using assms unfolding emits_def by blast

lemma write_emits_raw:
  assumes "wired sk" and "good (sdata sk)"
  shows "\<exists>d t. guac_socket_write sk bs = Some (0, sk\<lparr>sdata := d, last_write_timestamp := t\<rparr>)
    \<and> ok d \<and> good d \<and> locked d = locked (sdata sk) \<and> out d = out (sdata sk) @ bs"
  using assms
proof (induction bs arbitrary: sk rule: length_induct)
  case (1 bs)
  note w = 1(2) and g = 1(3)
  show ?case
  proof (cases "bs = []")
    case True
    then show ?thesis
      using w g by (intro exI[of _ "sdata sk"] exI[of _ "last_write_timestamp sk"])
        (simp add: guac_socket_write.simps wired_def)
  next
    case False
    let ?t = "sk\<lparr>last_write_timestamp := now sk\<rparr>"
    obtain n d' where h: "wh (sdata sk) bs = Some (n, d')" "n = - 1 \<or> (0 < n \<and> n \<le> int (length bs))"
      "ok d'" "locked d' = locked (sdata sk)"
      using write_total[of "sdata sk" bs] w False by (auto simp: wired_def)
    have o: "n \<noteq> - 1" "good d'" "out d' = out (sdata sk) @ take (nat n) bs"
      using write_out[OF _ g False h(1)] w by (auto simp: wired_def)
    have once: "socket_write_once sk bs = Some (n, ?t\<lparr>sdata := d'\<rparr>)"
      using w h(1) by (simp add: socket_write_once_def wired_def)
    have w': "wired (?t\<lparr>sdata := d'\<rparr>)" using w h(3) by (simp add: wired_def)
    have "length (drop (nat n) bs) < length bs" using o(1) h(2) False by (cases bs) auto
    with 1(1) w' o(2) obtain d t where
      "guac_socket_write (?t\<lparr>sdata := d'\<rparr>) (drop (nat n) bs)
         = Some (0, ?t\<lparr>sdata := d'\<rparr>\<lparr>sdata := d, last_write_timestamp := t\<rparr>)"
      "ok d" "good d" "locked d = locked d'" "out d = out d' @ drop (nat n) bs"
      by fastforce
    with once o h False show ?thesis
      by (intro exI[of _ d] exI[of _ t]) (subst guac_socket_write.simps, simp)
  qed
qed

lemma emits_write: "emits (\<lambda>sk. guac_socket_write sk bs) bs"
proof (rule emitsI)
  fix sk :: "'a guac_socket"
  assume q: "quiet sk"
  then obtain d t where "guac_socket_write sk bs = Some (0, sk\<lparr>sdata := d, last_write_timestamp := t\<rparr>)"
    "ok d" "good d" "locked d = locked (sdata sk)" "out d = out (sdata sk) @ bs"
    using write_emits_raw[of sk bs] by (auto simp: quiet_def)
  with q show "\<exists>sk'. guac_socket_write sk bs = Some (0, sk') \<and> quiet sk'
      \<and> locked (sdata sk') = locked (sdata sk) \<and> out (sdata sk') = out (sdata sk) @ bs"
    by (simp add: quiet_def wired_def)
qed

lemma emits_write_string: "emits (guac_socket_write_string bs) bs"
proof (rule emitsI)
  fix sk :: "'a guac_socket"
  assume "quiet sk"
  then obtain sk' where "guac_socket_write sk bs = Some (0, sk')" "quiet sk'"
    "locked (sdata sk') = locked (sdata sk)" "out (sdata sk') = out (sdata sk) @ bs"
    by (rule emitsE[OF emits_write])
  then show "\<exists>sk'. guac_socket_write_string bs sk = Some (0, sk') \<and> quiet sk'
      \<and> locked (sdata sk') = locked (sdata sk) \<and> out (sdata sk') = out (sdata sk) @ bs"
    by (simp add: guac_socket_write_string_def)
qed

lemma emits_write_int: "emits (guac_socket_write_int i) (dec_int i)"
  using emits_write[of "dec_int i"] by (simp add: emits_def guac_socket_write_int_def)

lemma emits_flush: "emits guac_socket_flush []"
proof (rule emitsI)
  fix sk :: "'a guac_socket"
  assume q: "quiet sk"
  then obtain r d' where f: "fl (sdata sk) = Some (r, d')" "ok d'" "locked d' = locked (sdata sk)"
    using flush_total[of "sdata sk"] by (auto simp: quiet_def wired_def)
  moreover from f q have "r = 0 \<and> good d' \<and> out d' = out (sdata sk)"
    by (intro flush_out[of "sdata sk"]) (auto simp: quiet_def wired_def)
  ultimately show "\<exists>sk'. guac_socket_flush sk = Some (0, sk') \<and> quiet sk'
      \<and> locked (sdata sk') = locked (sdata sk) \<and> out (sdata sk') = out (sdata sk) @ []"
    using q by (simp add: guac_socket_flush_def quiet_def wired_def)
qed

lemma emits_c_any_Nil: "emits (c_any []) []"
  by (simp add: emits_def)

lemma emits_c_any_Cons:
  assumes "emits a x" and "emits (c_any as) y"
  shows "emits (c_any (a # as)) (x @ y)"
proof (rule emitsI)
  fix sk :: "'a guac_socket"
  assume q: "quiet sk"
  with assms(1) obtain sk1 where 1: "a sk = Some (0, sk1)" "quiet sk1"
    "locked (sdata sk1) = locked (sdata sk)" "out (sdata sk1) = out (sdata sk) @ x"
    by (rule emitsE)
  from assms(2) 1(2) obtain sk2 where "c_any as sk1 = Some (0, sk2)" "quiet sk2"
    "locked (sdata sk2) = locked (sdata sk1)" "out (sdata sk2) = out (sdata sk1) @ y"
    by (rule emitsE)
  with 1 show "\<exists>sk'. c_any (a # as) sk = Some (0, sk') \<and> quiet sk'
      \<and> locked (sdata sk') = locked (sdata sk) \<and> out (sdata sk') = out (sdata sk) @ x @ y"
    by simp
qed

lemma emits_eq: "emits a x \<Longrightarrow> x = y \<Longrightarrow> emits a y"
  by simp

lemmas emits_rules = emits_c_any_Nil emits_c_any_Cons emits_write_string emits_write_int

end

section \<open>Base64 output\<close>

text \<open>The base64 encoding of a whole block, by groups of three bytes.\<close>

fun base64_ref :: "byte list \<Rightarrow> byte list" where
  "base64_ref [] = []"
| "base64_ref [a] = base64_quad (uint a) (- 1) (- 1)"
| "base64_ref [a, b] = base64_quad (uint a) (uint b) (- 1)"
| "base64_ref (a # b # c # r) = base64_quad (uint a) (uint b) (uint c) @ base64_ref r"

lemma length_base64_quad [simp]: "length (base64_quad a b c) = 4"
  by (simp add: base64_quad_def Let_def)

lemma length_base64_ref: "length (base64_ref bs) = (length bs + 2) div 3 * 4"
proof (induction bs rule: base64_ref.induct)
  case (4 a b c r)
  have "(length (a # b # c # r) + 2) div 3 = 1 + (length r + 2) div 3"
    using div_add_self1[of 3 "length r + 2"] by (simp add: algebra_simps)
  with 4 show ?case by simp
qed simp_all

text \<open>Storing a byte while fewer than two are pending writes nothing.\<close>

lemma base64_byte_store:
  "ready sk < 2 \<Longrightarrow> socket_write_base64_byte v sk
     = Some (1, sk\<lparr>ready_buf := (ready_buf sk)[ready sk := v], ready := ready sk + 1\<rparr>)"
  by (simp add: socket_write_base64_byte_def)

context socket_output
begin

text \<open>The third byte of a group writes its four characters and empties the buffer.\<close>

lemma base64_byte_third:
  assumes "wired sk" "good (sdata sk)" "ready sk = 2" "ready_buf sk = [a, b, z]"
  shows "\<exists>sk'. socket_write_base64_byte v sk = Some (1, sk') \<and> quiet sk'
    \<and> locked (sdata sk') = locked (sdata sk)
    \<and> out (sdata sk') = out (sdata sk) @ base64_quad a b v"
proof -
  let ?sk = "sk\<lparr>ready_buf := [a, b, v], ready := 3\<rparr>"
  have "wired ?sk" "good (sdata ?sk)" using assms by (simp_all add: wired_def)
  then obtain d t where w: "guac_socket_write ?sk (base64_quad a b v)
      = Some (0, ?sk\<lparr>sdata := d, last_write_timestamp := t\<rparr>)"
    "ok d" "good d" "locked d = locked (sdata sk)" "out d = out (sdata sk) @ base64_quad a b v"
    using write_emits_raw[of ?sk "base64_quad a b v"] by auto
  have "socket_write_base64_byte v sk
      = Some (1, ?sk\<lparr>sdata := d, last_write_timestamp := t\<rparr>\<lparr>ready := 0\<rparr>)"
    using assms w(1)
    by (simp add: socket_write_base64_byte_def socket_write_base64_triplet_def numeral_2_eq_2
        numeral_3_eq_3 Let_def)
  with w assms show ?thesis by (simp add: quiet_def wired_def)
qed

lemma quiet_ready_bufE:
  assumes "quiet sk"
  obtains x y z where "ready_buf sk = [x, y, z]" "ready sk = 0" "wired sk" "good (sdata sk)"
  using assms by (auto simp: quiet_def numeral_3_eq_3 length_Suc_conv)

lemma base64_group:
  assumes "quiet sk"
  shows "\<exists>sk'. guac_socket_write_base64 (a # b # c # r) sk = guac_socket_write_base64 r sk'
    \<and> quiet sk' \<and> locked (sdata sk') = locked (sdata sk)
    \<and> out (sdata sk') = out (sdata sk) @ base64_quad (uint a) (uint b) (uint c)"
proof -
  obtain x y z where q: "ready_buf sk = [x, y, z]" "ready sk = 0" "wired sk" "good (sdata sk)"
    using assms by (rule quiet_ready_bufE)
  let ?sk = "sk\<lparr>ready_buf := [uint a, uint b, z], ready := 2\<rparr>"
  have "wired ?sk" "good (sdata ?sk)" using q by (simp_all add: wired_def)
  then obtain sk' where "socket_write_base64_byte (uint c) ?sk = Some (1, sk')" "quiet sk'"
    "locked (sdata sk') = locked (sdata sk)"
    "out (sdata sk') = out (sdata sk) @ base64_quad (uint a) (uint b) (uint c)"
    using base64_byte_third[of ?sk "uint a" "uint b" z "uint c"] by auto
  with q show ?thesis
    by (intro exI[of _ sk']) (simp add: base64_byte_store numeral_2_eq_2)
qed

text \<open>Encoding a block and flushing the pending bytes writes exactly its base64 encoding.\<close>

lemma emits_base64: "emits (c_any [guac_socket_write_base64 bs, guac_socket_flush_base64]) (base64_ref bs)"
proof (rule emitsI)
  fix sk :: "'a guac_socket"
  assume "quiet sk"
  then show "\<exists>sk'. c_any [guac_socket_write_base64 bs, guac_socket_flush_base64] sk = Some (0, sk')
      \<and> quiet sk' \<and> locked (sdata sk') = locked (sdata sk)
      \<and> out (sdata sk') = out (sdata sk) @ base64_ref bs"
  proof (induction bs arbitrary: sk rule: base64_ref.induct)
    case 1
    then show ?case by (simp add: guac_socket_flush_base64.simps quiet_def)
  next
    case (2 a)
    then obtain x y z where q: "ready_buf sk = [x, y, z]" "ready sk = 0" "wired sk" "good (sdata sk)"
      by (rule quiet_ready_bufE)
    let ?sk = "sk\<lparr>ready_buf := [uint a, - 1, z], ready := 2\<rparr>"
    have "wired ?sk" "good (sdata ?sk)" using q by (simp_all add: wired_def)
    then obtain sk' where t: "socket_write_base64_byte (- 1) ?sk = Some (1, sk')" "quiet sk'"
      "locked (sdata sk') = locked (sdata sk)"
      "out (sdata sk') = out (sdata sk) @ base64_quad (uint a) (- 1) (- 1)"
      using base64_byte_third[of ?sk "uint a" "- 1" z "- 1"] by auto
    have "ready sk' = 0" using t(2) by (simp add: quiet_def)
    with q t show ?case
      by (simp add: base64_byte_store guac_socket_flush_base64.simps numeral_2_eq_2)
  next
    case (3 a b)
    then obtain x y z where q: "ready_buf sk = [x, y, z]" "ready sk = 0" "wired sk" "good (sdata sk)"
      by (rule quiet_ready_bufE)
    let ?sk = "sk\<lparr>ready_buf := [uint a, uint b, z], ready := 2\<rparr>"
    have "wired ?sk" "good (sdata ?sk)" using q by (simp_all add: wired_def)
    then obtain sk' where t: "socket_write_base64_byte (- 1) ?sk = Some (1, sk')" "quiet sk'"
      "locked (sdata sk') = locked (sdata sk)"
      "out (sdata sk') = out (sdata sk) @ base64_quad (uint a) (uint b) (- 1)"
      using base64_byte_third[of ?sk "uint a" "uint b" z "- 1"] by auto
    have "ready sk' = 0" using t(2) by (simp add: quiet_def)
    with q t show ?case
      by (simp add: base64_byte_store guac_socket_flush_base64.simps numeral_2_eq_2)
  next
    case (4 a b c r)
    obtain sk' where g: "guac_socket_write_base64 (a # b # c # r) sk = guac_socket_write_base64 r sk'"
      "quiet sk'" "locked (sdata sk') = locked (sdata sk)"
      "out (sdata sk') = out (sdata sk) @ base64_quad (uint a) (uint b) (uint c)"
      using base64_group[OF 4(2)] by blast
    obtain sk'' where "c_any [guac_socket_write_base64 r, guac_socket_flush_base64] sk' = Some (0, sk'')"
      "quiet sk''" "locked (sdata sk'') = locked (sdata sk')"
      "out (sdata sk'') = out (sdata sk') @ base64_ref r"
      using 4(1)[OF g(2)] by blast
    with g show ?case
      by (intro exI[of _ sk'']) (simp only: c_any.simps base64_ref.simps append_assoc simp_thms)
  qed
qed

end

end
