(* ===== verification/Guac_Socket_Fd.thy ===== *)
theory Guac_Socket_Fd
  imports Guac_Socket
begin

text \<open>
  The socket over a file descriptor (\<open>src/libguac/socket-fd.c\<close>): output is collected in a
  buffer of 8192 bytes and written to the descriptor when the buffer is full or flushed.

  The kernel's side of the descriptor is part of the state: \<open>wire\<close> holds the bytes \<open>write ()\<close>
  has accepted and \<open>incoming\<close> those still to be read. Each coming system call takes its result
  from a script of integers: a negative number is the error result, any other number bounds how
  many bytes the call transfers, and a call after the end of the script transfers as much as it
  can. So every finite behaviour of the kernel, short and failing calls included, is one script.
  The two mutexes are booleans; locking a held mutex never returns and unlocking a free one is
  undefined, both \<open>None\<close>. One call handles fewer than \<open>2 ^ 31\<close> bytes, so its \<open>int\<close> result is exact.
\<close>

section \<open>Definitions\<close>

record guac_socket_fd_data =
  fd :: int
  written :: nat
  out_buf :: "byte list"
  socket_lock :: bool
  buffer_lock :: bool
  wire :: "byte list"
  write_script :: "int list"
  incoming :: "byte list"
  read_script :: "int list"
  select_script :: "int list"
  fd_open :: bool

abbreviation GUAC_SOCKET_OUTPUT_BUFFER_SIZE :: nat where
  "GUAC_SOCKET_OUTPUT_BUFFER_SIZE \<equiv> 8192"

text \<open>The system calls \<open>write (fd, buf, count)\<close> and \<open>read (fd, buf, count)\<close>.\<close>

definition sys_write :: "guac_socket_fd_data \<Rightarrow> byte list \<Rightarrow> int \<times> guac_socket_fd_data" where
  "sys_write d buf =
     (case write_script d of
        [] \<Rightarrow> (int (length buf), d\<lparr>wire := wire d @ buf\<rparr>)
      | r # rs \<Rightarrow>
          if r < 0 then (r, d\<lparr>write_script := rs\<rparr>)
          else (let n = min (nat r) (length buf)
                in (int n, d\<lparr>write_script := rs, wire := wire d @ take n buf\<rparr>)))"

definition sys_read ::
    "guac_socket_fd_data \<Rightarrow> nat \<Rightarrow> int \<times> byte list \<times> guac_socket_fd_data" where
  "sys_read d count =
     (case read_script d of
        [] \<Rightarrow> (let n = min count (length (incoming d))
               in (int n, take n (incoming d), d\<lparr>incoming := drop n (incoming d)\<rparr>))
      | r # rs \<Rightarrow>
          if r < 0 then (r, [], d\<lparr>read_script := rs\<rparr>)
          else (let n = min (nat r) (min count (length (incoming d)))
                in (int n, take n (incoming d),
                    d\<lparr>read_script := rs, incoming := drop n (incoming d)\<rparr>)))"

text \<open>The loop of \<open>guac_socket_fd_write\<close> over what is left of the buffer.\<close>

function guac_socket_fd_write ::
    "guac_socket_fd_data \<Rightarrow> byte list \<Rightarrow> int \<times> guac_socket_fd_data" where
  "guac_socket_fd_write data buffer =
     (if buffer = [] then (0, data)
      else (case sys_write data buffer of (retval, data) \<Rightarrow>
        if retval < 0 then (retval, data)
        else guac_socket_fd_write data (drop (nat retval) buffer)))"
  by pat_completeness auto

termination
  by (relation "measure (\<lambda>(d, b). length (write_script d) + length b)")
    (auto simp: sys_write_def Let_def split: list.splits if_splits)

declare guac_socket_fd_write.simps [simp del]

definition guac_socket_fd_read_handler ::
    "guac_socket_fd_data \<Rightarrow> nat \<Rightarrow> (int \<times> byte list \<times> guac_socket_fd_data) option" where
  "guac_socket_fd_read_handler data count = Some (sys_read data count)"

definition guac_socket_fd_flush :: "guac_socket_fd_data \<Rightarrow> int \<times> guac_socket_fd_data" where
  "guac_socket_fd_flush data =
     (if written data > 0 then
        (case guac_socket_fd_write data (take (written data) (out_buf data)) of (r, data) \<Rightarrow>
           if r \<noteq> 0 then (1, data) else (0, data\<lparr>written := 0\<rparr>))
      else (0, data))"

definition guac_socket_fd_flush_handler ::
    "guac_socket_fd_data \<Rightarrow> (int \<times> guac_socket_fd_data) option" where
  "guac_socket_fd_flush_handler data =
     (if buffer_lock data then None
      else (case guac_socket_fd_flush (data\<lparr>buffer_lock := True\<rparr>) of (retval, data) \<Rightarrow>
        Some (retval, data\<lparr>buffer_lock := False\<rparr>)))"

lemma fd_flush_written: "guac_socket_fd_flush d = (0, d') \<Longrightarrow> written d' = 0"
  by (auto simp: guac_socket_fd_flush_def split: prod.splits if_splits)

text \<open>
  The loop of \<open>guac_socket_fd_write_buffered\<close>; \<open>original_count\<close> is what it returns at the end and
  \<open>current\<close> what is left to append.
\<close>

function fd_write_buffered ::
    "nat \<Rightarrow> guac_socket_fd_data \<Rightarrow> byte list \<Rightarrow> int \<times> guac_socket_fd_data" where
  "fd_write_buffered original_count data current =
     (if current = [] then (int original_count, data)
      else
        (let remaining = GUAC_SOCKET_OUTPUT_BUFFER_SIZE - written data in
         if remaining = 0 then
           (case guac_socket_fd_flush data of (r, data) \<Rightarrow>
              if r \<noteq> 0 then (- 1, data) else fd_write_buffered original_count data current)
         else
           (let chunk_size = min (length current) remaining
            in fd_write_buffered original_count
                 (data\<lparr>out_buf := mem_write (out_buf data) (written data) (take chunk_size current),
                       written := written data + chunk_size\<rparr>)
                 (drop chunk_size current))))"
  by pat_completeness auto

termination
proof (relation "measure (\<lambda>(n, d, b). 2 * length b + (if written d = 0 then 0 else 1))")
  show "wf (measure (\<lambda>(n :: nat, d, b :: byte list).
      2 * length b + (if written (d :: guac_socket_fd_data) = 0 then 0 else 1)))" by simp
qed (auto dest: fd_flush_written sym simp: min_def simp flip: length_greater_0_conv
      split: if_splits)

declare fd_write_buffered.simps [simp del]

definition guac_socket_fd_write_buffered ::
    "guac_socket_fd_data \<Rightarrow> byte list \<Rightarrow> int \<times> guac_socket_fd_data" where
  "guac_socket_fd_write_buffered data buf = fd_write_buffered (length buf) data buf"

definition guac_socket_fd_write_handler ::
    "guac_socket_fd_data \<Rightarrow> byte list \<Rightarrow> (int \<times> guac_socket_fd_data) option" where
  "guac_socket_fd_write_handler data buf =
     (if buffer_lock data then None
      else (case guac_socket_fd_write_buffered (data\<lparr>buffer_lock := True\<rparr>) buf of (retval, data) \<Rightarrow>
        Some (retval, data\<lparr>buffer_lock := False\<rparr>)))"

text \<open>\<open>guac_wait_for_fd\<close> is a poll whose coming results are scripted too; without a script, data is ready.\<close>

definition guac_socket_fd_select_handler ::
    "guac_socket_fd_data \<Rightarrow> int \<Rightarrow> (int \<times> guac_socket_fd_data) option" where
  "guac_socket_fd_select_handler data usec_timeout =
     (case select_script data of
        [] \<Rightarrow> Some (1, data)
      | r # rs \<Rightarrow> Some (r, data\<lparr>select_script := rs\<rparr>))"

definition guac_socket_fd_free_handler ::
    "guac_socket_fd_data \<Rightarrow> (int \<times> guac_socket_fd_data) option" where
  "guac_socket_fd_free_handler data = Some (0, data\<lparr>fd_open := False\<rparr>)"

definition guac_socket_fd_lock_handler :: "guac_socket_fd_data \<Rightarrow> guac_socket_fd_data option" where
  "guac_socket_fd_lock_handler data =
     (if socket_lock data then None else Some (data\<lparr>socket_lock := True\<rparr>))"

definition guac_socket_fd_unlock_handler :: "guac_socket_fd_data \<Rightarrow> guac_socket_fd_data option" where
  "guac_socket_fd_unlock_handler data =
     (if socket_lock data then Some (data\<lparr>socket_lock := False\<rparr>) else None)"

text \<open>
  \<open>guac_socket_open\<close>; \<open>data\<close> stands for the memory \<open>malloc\<close> returned for the data, with the
  kernel's state of the descriptor in it. Neither allocation is checked, so both are assumed.
\<close>

definition guac_socket_open ::
    "int \<Rightarrow> int \<Rightarrow> int list \<Rightarrow> guac_socket_fd_data \<Rightarrow> guac_socket_fd_data guac_socket" where
  "guac_socket_open new_fd clock garbage data =
     (let socket = the (guac_socket_alloc True clock garbage data);
          data = data\<lparr>fd := new_fd, written := 0, socket_lock := False, buffer_lock := False\<rparr>
      in socket\<lparr>sdata := data,
                read_handler := Some guac_socket_fd_read_handler,
                write_handler := Some guac_socket_fd_write_handler,
                select_handler := Some guac_socket_fd_select_handler,
                lock_handler := Some guac_socket_fd_lock_handler,
                unlock_handler := Some guac_socket_fd_unlock_handler,
                flush_handler := Some guac_socket_fd_flush_handler,
                free_handler := Some guac_socket_fd_free_handler\<rparr>)"

section \<open>What the kernel receives\<close>

text \<open>Everything a client has written: on the wire or still in the buffer.\<close>

definition fd_out :: "guac_socket_fd_data \<Rightarrow> byte list" where
  "fd_out d = wire d @ take (written d) (out_buf d)"

definition fd_ok :: "guac_socket_fd_data \<Rightarrow> bool" where
  "fd_ok d \<longleftrightarrow> written d \<le> GUAC_SOCKET_OUTPUT_BUFFER_SIZE
     \<and> length (out_buf d) = GUAC_SOCKET_OUTPUT_BUFFER_SIZE \<and> \<not> buffer_lock d"

text \<open>A kernel that may transfer less than asked but reports no error.\<close>

definition fd_reliable :: "guac_socket_fd_data \<Rightarrow> bool" where
  "fd_reliable d \<longleftrightarrow> (\<forall>r \<in> set (write_script d). 0 \<le> r)"

text \<open>Writing changes only the kernel's side.\<close>

lemma sys_write_frame:
  assumes "sys_write d b = (r, d')"
  shows "written d' = written d \<and> out_buf d' = out_buf d \<and> socket_lock d' = socket_lock d
    \<and> buffer_lock d' = buffer_lock d \<and> incoming d' = incoming d"
  using assms by (auto simp: sys_write_def Let_def split: list.splits if_splits)

lemma fd_write_frame:
  assumes "guac_socket_fd_write d b = (r, d')"
  shows "written d' = written d \<and> out_buf d' = out_buf d \<and> socket_lock d' = socket_lock d
    \<and> buffer_lock d' = buffer_lock d \<and> incoming d' = incoming d \<and> r \<le> 0"
  using assms
proof (induction d b arbitrary: r d' rule: guac_socket_fd_write.induct)
  case (1 d b)
  show ?case
  proof (cases "b = []")
    case True
    with 1(2) show ?thesis by (simp add: guac_socket_fd_write.simps)
  next
    case False
    obtain n d1 where s: "sys_write d b = (n, d1)" by fastforce
    with 1(2) False have "(if n < 0 then (n, d1)
        else guac_socket_fd_write d1 (drop (nat n) b)) = (r, d')"
      by (subst (asm) guac_socket_fd_write.simps) simp
    with 1(1)[OF False s[symmetric]] sys_write_frame[OF s] show ?thesis
      by (auto split: if_splits)
  qed
qed

lemma sys_write_reliable:
  assumes "fd_reliable d" and "sys_write d b = (r, d')"
  shows "0 \<le> r \<and> fd_reliable d' \<and> wire d' = wire d @ take (nat r) b"
  using assms by (auto simp: sys_write_def fd_reliable_def Let_def split: list.splits if_splits)

lemma fd_write_reliable:
  assumes "fd_reliable d" and "guac_socket_fd_write d b = (r, d')"
  shows "r = 0 \<and> fd_reliable d' \<and> wire d' = wire d @ b"
  using assms
proof (induction d b arbitrary: r d' rule: guac_socket_fd_write.induct)
  case (1 d b)
  show ?case
  proof (cases "b = []")
    case True
    with 1(2,3) show ?thesis by (simp add: guac_socket_fd_write.simps)
  next
    case False
    obtain n d1 where s: "sys_write d b = (n, d1)" by fastforce
    note k = sys_write_reliable[OF 1(2) s]
    with 1(3) False s have "guac_socket_fd_write d1 (drop (nat n) b) = (r, d')"
      by (subst (asm) guac_socket_fd_write.simps) simp
    with 1(1)[OF False s[symmetric]] k show ?thesis by auto
  qed
qed

text \<open>What the operations that do not take the buffer lock keep of the data.\<close>

definition fd_keeps :: "guac_socket_fd_data \<Rightarrow> guac_socket_fd_data \<Rightarrow> bool" where
  "fd_keeps d d' \<longleftrightarrow> (written d \<le> GUAC_SOCKET_OUTPUT_BUFFER_SIZE
       \<and> length (out_buf d) = GUAC_SOCKET_OUTPUT_BUFFER_SIZE
       \<longrightarrow> written d' \<le> GUAC_SOCKET_OUTPUT_BUFFER_SIZE
         \<and> length (out_buf d') = GUAC_SOCKET_OUTPUT_BUFFER_SIZE)
     \<and> socket_lock d' = socket_lock d \<and> buffer_lock d' = buffer_lock d"

lemma fd_keeps_trans: "fd_keeps a b \<Longrightarrow> fd_keeps b c \<Longrightarrow> fd_keeps a c"
  by (auto simp: fd_keeps_def)

lemma fd_flush_keeps:
  assumes "guac_socket_fd_flush d = (r, d')"
  shows "fd_keeps d d' \<and> (r = 0 \<or> r = 1)"
proof -
  obtain r1 d1 where w: "guac_socket_fd_write d (take (written d) (out_buf d)) = (r1, d1)"
    by fastforce
  show ?thesis
    using assms w fd_write_frame[OF w]
    by (auto simp: guac_socket_fd_flush_def fd_keeps_def split: if_splits)
qed

lemma fd_flush_reliable:
  assumes "fd_reliable d" and "guac_socket_fd_flush d = (r, d')"
  shows "r = 0 \<and> fd_reliable d' \<and> wire d' = fd_out d \<and> fd_out d' = fd_out d"
proof -
  obtain r1 d1 where w: "guac_socket_fd_write d (take (written d) (out_buf d)) = (r1, d1)"
    by fastforce
  show ?thesis
    using assms w fd_write_reliable[OF assms(1) w]
    by (auto simp: guac_socket_fd_flush_def fd_out_def fd_reliable_def split: if_splits)
qed

text \<open>Appending a chunk that fits.\<close>

lemma fd_append_chunk:
  assumes "written d + length c \<le> GUAC_SOCKET_OUTPUT_BUFFER_SIZE"
    and "length (out_buf d) = GUAC_SOCKET_OUTPUT_BUFFER_SIZE"
  defines "d' \<equiv> d\<lparr>out_buf := mem_write (out_buf d) (written d) c, written := written d + length c\<rparr>"
  shows "fd_keeps d d'" and "fd_out d' = fd_out d @ c"
  using assms take_mem_write_end[of "written d" "out_buf d" c]
  by (simp_all add: fd_keeps_def fd_out_def)

text \<open>One round of the append loop.\<close>

lemma fd_write_buffered_full:
  "current \<noteq> [] \<Longrightarrow> GUAC_SOCKET_OUTPUT_BUFFER_SIZE \<le> written d \<Longrightarrow>
   guac_socket_fd_flush d = (r, d') \<Longrightarrow> fd_write_buffered n d current =
     (if r \<noteq> 0 then (- 1, d') else fd_write_buffered n d' current)"
  by (subst fd_write_buffered.simps) (simp add: Let_def)

lemma fd_write_buffered_chunk:
  assumes "current \<noteq> []" and "written d < GUAC_SOCKET_OUTPUT_BUFFER_SIZE"
  defines "c \<equiv> take (GUAC_SOCKET_OUTPUT_BUFFER_SIZE - written d) current"
  shows "fd_write_buffered n d current = fd_write_buffered n
     (d\<lparr>out_buf := mem_write (out_buf d) (written d) c, written := written d + length c\<rparr>)
     (drop (length c) current)"
proof -
  have "min (length current) (GUAC_SOCKET_OUTPUT_BUFFER_SIZE - written d) = length c"
    by (simp add: c_def)
  moreover have "take (length c) current = c" by (simp add: c_def min_def)
  ultimately show ?thesis
    using assms(1,2) by (subst fd_write_buffered.simps) (simp add: Let_def)
qed

lemma append_round_decreases:
  "0 < c \<Longrightarrow> c \<le> l \<Longrightarrow>
   2 * (l - c) + (if P then 0 else 1) < 2 * l + (if Q then 0 else 1 :: nat)"
  by (simp, arith)

lemma fd_write_buffered_keeps:
  assumes "fd_write_buffered n d b = (r, d')"
    and "written d \<le> GUAC_SOCKET_OUTPUT_BUFFER_SIZE"
    and "length (out_buf d) = GUAC_SOCKET_OUTPUT_BUFFER_SIZE"
  shows "fd_keeps d d' \<and> (r = - 1 \<or> r = int n)
    \<and> (fd_reliable d \<longrightarrow> r = int n \<and> fd_reliable d' \<and> fd_out d' = fd_out d @ b)"
  using assms
proof (induction "2 * length b + (if written d = 0 then 0 else 1)" arbitrary: d b r d'
    rule: less_induct)
  case less
  consider "b = []" | "b \<noteq> []" "written d = GUAC_SOCKET_OUTPUT_BUFFER_SIZE"
    | "b \<noteq> []" "written d < GUAC_SOCKET_OUTPUT_BUFFER_SIZE"
    using less(3) by linarith
  then show ?case
  proof cases
    case 1
    with less(2) show ?thesis by (simp add: fd_write_buffered.simps fd_keeps_def)
  next
    case 2
    obtain r1 d1 where f: "guac_socket_fd_flush d = (r1, d1)" by fastforce
    note k = fd_flush_keeps[OF f] and g = fd_flush_reliable[OF _ f]
    show ?thesis
    proof (cases "r1 = 0")
      case True
      then have z: "written d1 = 0" using f fd_flush_written by blast
      have "fd_write_buffered n d1 b = (r, d')"
        using less(2) 2 f True by (simp add: fd_write_buffered_full)
      with less(1)[of b d1 r d'] 2 z k less(3,4) have
        "fd_keeps d1 d' \<and> (r = - 1 \<or> r = int n)
          \<and> (fd_reliable d1 \<longrightarrow> r = int n \<and> fd_reliable d' \<and> fd_out d' = fd_out d1 @ b)"
        by (simp add: fd_keeps_def)
      with k g show ?thesis by (auto intro: fd_keeps_trans)
    next
      case False
      with less(2) 2 f have "r = - 1" "d' = d1" by (simp_all add: fd_write_buffered_full)
      with k g False show ?thesis by auto
    qed
  next
    case 3
    let ?c = "take (GUAC_SOCKET_OUTPUT_BUFFER_SIZE - written d) b"
    let ?d = "d\<lparr>out_buf := mem_write (out_buf d) (written d) ?c, written := written d + length ?c\<rparr>"
    have fits: "written d + length ?c \<le> GUAC_SOCKET_OUTPUT_BUFFER_SIZE" using 3 by simp
    note a = fd_append_chunk[OF fits less(4)]
    have pos: "0 < length ?c" using 3 by simp
    have run: "fd_write_buffered n ?d (drop (length ?c) b) = (r, d')"
      using less(2) fd_write_buffered_chunk[OF 3, of n] by simp
    have "2 * length (drop (length ?c) b) + (if written ?d = 0 then 0 else 1)
        < 2 * length b + (if written d = 0 then 0 else 1)"
      unfolding length_drop by (rule append_round_decreases[OF pos]) simp
    from less(1)[OF this run] fits less(4) a have
      "fd_keeps ?d d' \<and> (r = - 1 \<or> r = int n) \<and> (fd_reliable ?d \<longrightarrow>
         r = int n \<and> fd_reliable d' \<and> fd_out d' = fd_out ?d @ drop (length ?c) b)"
      by (simp add: fd_keeps_def)
    moreover have "?c @ drop (length ?c) b = b" by (simp add: min_def)
    moreover have "fd_reliable ?d = fd_reliable d" by (simp add: fd_reliable_def)
    ultimately show ?thesis
      using a fd_keeps_trans[OF a(1)] by (metis append_assoc)
  qed
qed

lemma fd_write_handler_law:
  assumes "fd_ok d"
  shows "\<exists>n d'. guac_socket_fd_write_handler d bs = Some (n, d') \<and> (n = - 1 \<or> n = int (length bs))
    \<and> fd_ok d' \<and> socket_lock d' = socket_lock d
    \<and> (fd_reliable d \<longrightarrow> n = int (length bs) \<and> fd_reliable d' \<and> fd_out d' = fd_out d @ bs)"
proof -
  let ?d = "d\<lparr>buffer_lock := True\<rparr>"
  obtain n d1 where w: "fd_write_buffered (length bs) ?d bs = (n, d1)" by fastforce
  note k = fd_write_buffered_keeps[OF w]
  have "guac_socket_fd_write_handler d bs = Some (n, d1\<lparr>buffer_lock := False\<rparr>)"
    using assms w by (simp add: guac_socket_fd_write_handler_def guac_socket_fd_write_buffered_def
        fd_ok_def)
  then show ?thesis
    using k assms by (simp add: fd_ok_def fd_keeps_def fd_reliable_def fd_out_def)
qed

lemma fd_flush_handler_law:
  assumes "fd_ok d"
  shows "\<exists>r d'. guac_socket_fd_flush_handler d = Some (r, d') \<and> fd_ok d'
    \<and> socket_lock d' = socket_lock d
    \<and> (fd_reliable d \<longrightarrow> r = 0 \<and> fd_reliable d' \<and> fd_out d' = fd_out d \<and> wire d' = fd_out d)"
proof -
  let ?d = "d\<lparr>buffer_lock := True\<rparr>"
  obtain r d1 where f: "guac_socket_fd_flush ?d = (r, d1)" by fastforce
  note k = fd_flush_keeps[OF f] fd_flush_reliable[OF _ f]
  have "guac_socket_fd_flush_handler d = Some (r, d1\<lparr>buffer_lock := False\<rparr>)"
    using assms f by (simp add: guac_socket_fd_flush_handler_def fd_ok_def)
  then show ?thesis
    using k assms by (auto simp: fd_ok_def fd_keeps_def fd_reliable_def fd_out_def)
qed

interpretation fds: socket_output guac_socket_fd_write_handler guac_socket_fd_flush_handler
  guac_socket_fd_lock_handler guac_socket_fd_unlock_handler fd_ok socket_lock fd_out fd_reliable
proof
  fix d :: guac_socket_fd_data and bs :: "byte list"
  assume "fd_ok d" "bs \<noteq> []"
  then show "\<exists>n d'. guac_socket_fd_write_handler d bs = Some (n, d')
      \<and> (n = - 1 \<or> 0 < n \<and> n \<le> int (length bs)) \<and> fd_ok d' \<and> socket_lock d' = socket_lock d"
    using fd_write_handler_law[of d bs] by auto
next
  fix d :: guac_socket_fd_data
  assume "fd_ok d"
  then show "\<exists>r d'. guac_socket_fd_flush_handler d = Some (r, d') \<and> fd_ok d'
      \<and> socket_lock d' = socket_lock d"
    using fd_flush_handler_law[of d] by auto
next
  fix d d' :: guac_socket_fd_data and bs :: "byte list" and n
  assume "fd_ok d" "fd_reliable d" "guac_socket_fd_write_handler d bs = Some (n, d')"
  then show "n \<noteq> - 1 \<and> fd_reliable d' \<and> fd_out d' = fd_out d @ take (nat n) bs"
    using fd_write_handler_law[of d bs] by auto
next
  fix d d' :: guac_socket_fd_data and r
  assume "fd_ok d" "fd_reliable d" "guac_socket_fd_flush_handler d = Some (r, d')"
  then show "r = 0 \<and> fd_reliable d' \<and> fd_out d' = fd_out d"
    using fd_flush_handler_law[of d] by auto
qed (auto simp: guac_socket_fd_lock_handler_def guac_socket_fd_unlock_handler_def fd_ok_def
      fd_reliable_def fd_out_def split: if_splits)

section \<open>Properties\<close>

text \<open>A newly opened socket, on memory of the right sizes and a descriptor that accepted nothing yet.\<close>

lemma fd_open_quiet:
  assumes "length (out_buf k) = GUAC_SOCKET_OUTPUT_BUFFER_SIZE" "length g = 3"
    and "fd_reliable k" "wire k = []"
  shows "fds.quiet (guac_socket_open f t g k)"
    and "fd_out (sdata (guac_socket_open f t g k)) = []"
    and "\<not> socket_lock (sdata (guac_socket_open f t g k))"
  using assms by (auto simp: guac_socket_open_def guac_socket_alloc_def fds.quiet_def fds.wired_def
      fd_ok_def fd_reliable_def fd_out_def Let_def)

lemma fd_emits_writes:
  "fds.emits (c_any (map (\<lambda>bs sk. guac_socket_write sk bs) bss)) (concat bss)"
  by (induction bss)
    (simp_all add: fds.emits_c_any_Nil fds.emits_c_any_Cons fds.emits_write del: c_any.simps)

lemma fd_flush_wire:
  assumes "fds.quiet sk"
  shows "\<exists>sk'. guac_socket_flush sk = Some (0, sk') \<and> fds.quiet sk'
    \<and> wire (sdata sk') = fd_out (sdata sk) \<and> socket_lock (sdata sk') = socket_lock (sdata sk)"
proof -
  have "fd_ok (sdata sk)" "fd_reliable (sdata sk)" "flush_handler sk = Some guac_socket_fd_flush_handler"
    using assms by (simp_all add: fds.quiet_def fds.wired_def)
  with fd_flush_handler_law[of "sdata sk"] assms show ?thesis
    by (auto simp: guac_socket_flush_def fds.quiet_def fds.wired_def)
qed

text \<open>
  C11. Output arrives complete and in order: whatever buffers are written to a newly opened file
  descriptor socket, whatever their sizes and however few bytes each \<open>write ()\<close> of the kernel
  takes (as long as none fails), after a flush every call has succeeded and the descriptor has
  received exactly the concatenation of the buffers.
\<close>

theorem fd_delivers_in_order:
  assumes "length (out_buf k) = GUAC_SOCKET_OUTPUT_BUFFER_SIZE" "length g = 3"
    and "fd_reliable k" "wire k = []"
  shows "\<exists>sk'. c_any (map (\<lambda>bs sk. guac_socket_write sk bs) bss @ [guac_socket_flush])
      (guac_socket_open f t g k) = Some (0, sk') \<and> wire (sdata sk') = concat bss"
proof -
  note o = fd_open_quiet[OF assms, of f t]
  obtain sk1 where s: "c_any (map (\<lambda>bs sk. guac_socket_write sk bs) bss) (guac_socket_open f t g k)
      = Some (0, sk1)" "fds.quiet sk1" "fd_out (sdata sk1) = concat bss"
    using fds.emitsE[OF fd_emits_writes o(1)] o(2) by (metis append_Nil)
  obtain sk2 where "guac_socket_flush sk1 = Some (0, sk2)" "wire (sdata sk2) = concat bss"
    using fd_flush_wire[OF s(2)] s(3) by auto
  with s(1) show ?thesis by (simp add: c_any_append)
qed

theorem fd_delivers_in_order_witness:
  "\<exists>sk'. c_any (map (\<lambda>bs sk. guac_socket_write sk bs) [[1, 2, 3], [4]] @ [guac_socket_flush])
      (guac_socket_open 5 0 [0, 0, 0] \<lparr>fd = 0, written = 0, out_buf = replicate 8192 0,
         socket_lock = False, buffer_lock = False, wire = [], write_script = [1, 0, 2],
         incoming = [], read_script = [], select_script = [], fd_open = True\<rparr>) = Some (0, sk')
    \<and> wire (sdata sk') = [1, 2, 3, 4]"
  using fd_delivers_in_order[of "\<lparr>fd = 0, written = 0, out_buf = replicate 8192 0,
         socket_lock = False, buffer_lock = False, wire = [], write_script = [1, 0, 2],
         incoming = [], read_script = [], select_script = [], fd_open = True\<rparr>" "[0, 0, 0]"
         "[[1, 2, 3], [4]]" 5 0]
  by (simp add: fd_reliable_def)

text \<open>
  A flush that fails half way keeps the whole buffer, so the flush after it sends the bytes
  that had already been accepted a second time: for any buffered data and any point where the
  kernel fails after accepting a prefix of it, the descriptor receives that prefix twice.
\<close>

theorem fd_failed_flush_resends:
  assumes "0 < written d" "written d \<le> length (out_buf d)"
    and "write_script d = [int n, - 1]" and "n < written d"
  shows "\<exists>d1 d2. guac_socket_fd_flush d = (1, d1) \<and> wire d1 = wire d @ take n (out_buf d)
    \<and> guac_socket_fd_flush d1 = (0, d2)
    \<and> wire d2 = wire d @ take n (out_buf d) @ take (written d) (out_buf d)"
proof -
  let ?b = "take (written d) (out_buf d)"
  have b: "?b \<noteq> []" "drop n ?b \<noteq> []" using assms by auto
  have 1: "guac_socket_fd_flush d = (1, d\<lparr>write_script := [], wire := wire d @ take n (out_buf d)\<rparr>)"
    using assms b
    by (simp add: guac_socket_fd_flush_def guac_socket_fd_write.simps[of _ ?b]
        guac_socket_fd_write.simps[of _ "drop n ?b"] sys_write_def min_def)
  have "guac_socket_fd_write e ?b = (0, e\<lparr>wire := wire e @ ?b\<rparr>)" if "write_script e = []" for e
    using that b by (simp add: guac_socket_fd_write.simps sys_write_def)
  then have "\<exists>d2. guac_socket_fd_flush (d\<lparr>write_script := [], wire := wire d @ take n (out_buf d)\<rparr>)
      = (0, d2) \<and> wire d2 = wire d @ take n (out_buf d) @ ?b"
    using assms(1) by (simp add: guac_socket_fd_flush_def)
  with 1 show ?thesis by auto
qed

theorem fd_failed_flush_resends_witness:
  "\<exists>d1 d2. guac_socket_fd_flush \<lparr>fd = 3, written = 2,
      out_buf = [65, 66, 0], socket_lock = False, buffer_lock = False, wire = [],
      write_script = [1, - 1], incoming = [], read_script = [], select_script = [],
      fd_open = True\<rparr> = (1, d1) \<and> wire d1 = [65]
    \<and> guac_socket_fd_flush d1 = (0, d2) \<and> wire d2 = [65, 65, 66]"
  using fd_failed_flush_resends[of "\<lparr>fd = 3, written = 2,
      out_buf = [65, 66, 0], socket_lock = False, buffer_lock = False, wire = [],
      write_script = [1, - 1], incoming = [], read_script = [], select_script = [],
      fd_open = True\<rparr>" 1]
  by simp

end
