(* ===== verification/Guac_Parser.thy ===== *)
theory Guac_Parser
  imports Guac_Instruction Guac_Socket_Fd
begin

text \<open>
  The instruction parser (\<open>src/libguac/parser.c\<close>). Pointers into the buffer being parsed are
  offsets into the memory block \<open>mem\<close> that holds it; \<open>guac_parser_append\<close> overwrites the
  terminator of each element there with a null byte, so the elements it records can be read as C
  strings. \<open>guac_parser_read\<close> parses from its own buffer of 32768 bytes, fills it from a socket
  and shifts its contents back when the end is reached. \<open>argv\<close> is \<open>__elementv + 1\<close> and is not
  stored apart. The length accumulator is a 32-bit \<open>int\<close>, with wrap-around written out.

  The main result is that what the send functions write, this parser reads, however the bytes
  arrive.
\<close>

section \<open>Definitions\<close>

datatype guac_parse_state =
  GUAC_PARSE_LENGTH | GUAC_PARSE_CONTENT | GUAC_PARSE_COMPLETE | GUAC_PARSE_ERROR

record guac_parser =
  pstate :: guac_parse_state
  opcode :: "nat option"
  argc :: int
  elementc :: nat
  elementv :: "nat list"
  element_length :: int
  unparsed_start :: nat
  unparsed_end :: nat
  instructionbuf :: "byte list"

abbreviation GUAC_INSTRUCTION_MAX_LENGTH :: int where
  "GUAC_INSTRUCTION_MAX_LENGTH \<equiv> 8192"

abbreviation GUAC_INSTRUCTION_MAX_ELEMENTS :: nat where
  "GUAC_INSTRUCTION_MAX_ELEMENTS \<equiv> 128"

abbreviation INSTRUCTIONBUF_SIZE :: nat where
  "INSTRUCTIONBUF_SIZE \<equiv> 32768"

definition guac_parser_reset :: "guac_parser \<Rightarrow> guac_parser" where
  "guac_parser_reset parser =
     parser\<lparr>opcode := None, argc := 0, pstate := GUAC_PARSE_LENGTH, elementc := 0,
            element_length := 0\<rparr>"

text \<open>\<open>guac_parser_alloc\<close>; \<open>block\<close> is the memory \<open>malloc\<close> returned, if it did.\<close>

definition guac_parser_alloc :: "guac_parser option \<Rightarrow> guac_parser option" where
  "guac_parser_alloc block =
     (case block of
        None \<Rightarrow> None
      | Some parser \<Rightarrow> Some (guac_parser_reset (parser\<lparr>unparsed_start := 0, unparsed_end := 0\<rparr>)))"

datatype length_outcome = Length_Exhausted | Length_Period | Length_Invalid

text \<open>
  The first loop of \<open>guac_parser_append\<close>: \<open>p\<close> is the next character, \<open>n\<close> the number of characters
  left, \<open>v\<close> is \<open>parsed_length\<close>. The result has the position after the last character taken.
\<close>

fun parse_length_loop :: "byte list \<Rightarrow> nat \<Rightarrow> nat \<Rightarrow> int \<Rightarrow> length_outcome \<times> int \<times> nat" where
  "parse_length_loop mem p 0 v = (Length_Exhausted, v, p)"
| "parse_length_loop mem p (Suc n) v =
     (let c = mem ! p in
      if is_digit c then parse_length_loop mem (p + 1) n (s32 (s32 (v * 10) + digit_val c))
      else if c = 46 then (Length_Period, v, p + 1)
      else (Length_Invalid, v, p + 1))"

datatype content_outcome = Content_Stop | Content_Semicolon | Content_Comma | Content_Invalid

text \<open>The second loop, over the characters of an element's content; \<open>v\<close> is \<open>__element_length\<close>.\<close>

function parse_content_loop ::
    "byte list \<Rightarrow> nat \<Rightarrow> nat \<Rightarrow> int \<Rightarrow> content_outcome \<times> int \<times> nat \<times> byte list" where
  "parse_content_loop mem p n v =
     (if 0 < n \<and> v \<ge> 0 then
        (let c = mem ! p; char_length = guac_utf8_charsize c in
         if char_length > n then (Content_Stop, v, p, mem)
         else if v = 0 then
           (if c = 59 then (Content_Semicolon, v, p + char_length, mem[p := 0])
            else if c = 44 then (Content_Comma, v, p + char_length, mem[p := 0])
            else (Content_Invalid, v, p + char_length, mem[p := 0]))
         else parse_content_loop mem (p + char_length) (n - char_length) (v - 1))
      else (Content_Stop, v, p, mem))"
  by pat_completeness auto

termination
  by (relation "measure (\<lambda>(mem, p, n, v). n)") auto

declare parse_content_loop.simps [simp del]

text \<open>The second half of \<open>guac_parser_append\<close>: \<open>p\<close> is \<open>char_buffer\<close> and \<open>n\<close> what is left after it.\<close>

definition append_content ::
    "guac_parser \<Rightarrow> byte list \<Rightarrow> nat \<Rightarrow> nat \<Rightarrow> nat \<Rightarrow> int \<times> guac_parser \<times> byte list" where
  "append_content parser mem buffer p n =
     (case parse_content_loop mem p n (element_length parser) of
        (Content_Stop, v, p', mem') \<Rightarrow>
          (int (p' - buffer), parser\<lparr>element_length := v\<rparr>, mem')
      | (Content_Semicolon, v, p', mem') \<Rightarrow>
          (int (p' - buffer),
           parser\<lparr>element_length := v, pstate := GUAC_PARSE_COMPLETE,
                  opcode := Some (elementv parser ! 0), argc := int (elementc parser) - 1\<rparr>, mem')
      | (Content_Comma, v, p', mem') \<Rightarrow>
          (int (p' - buffer), parser\<lparr>element_length := v, pstate := GUAC_PARSE_LENGTH\<rparr>, mem')
      | (Content_Invalid, v, p', mem') \<Rightarrow>
          (0, parser\<lparr>element_length := v, pstate := GUAC_PARSE_ERROR\<rparr>, mem'))"

text \<open>\<open>guac_parser_append\<close> on the \<open>len\<close> bytes at offset \<open>buffer\<close> of \<open>mem\<close>.\<close>

definition guac_parser_append ::
    "guac_parser \<Rightarrow> byte list \<Rightarrow> nat \<Rightarrow> int \<Rightarrow> int \<times> guac_parser \<times> byte list" where
  "guac_parser_append parser mem buffer len =
     (if elementc parser = GUAC_INSTRUCTION_MAX_ELEMENTS \<and> pstate parser \<noteq> GUAC_PARSE_COMPLETE
      then (0, parser\<lparr>pstate := GUAC_PARSE_ERROR\<rparr>, mem)
      else if pstate parser = GUAC_PARSE_LENGTH then
        (case parse_length_loop mem buffer (nat len) (element_length parser) of
           (Length_Invalid, v, p) \<Rightarrow> (0, parser\<lparr>pstate := GUAC_PARSE_ERROR\<rparr>, mem)
         | (Length_Exhausted, v, p) \<Rightarrow>
             if v > GUAC_INSTRUCTION_MAX_LENGTH then (0, parser\<lparr>pstate := GUAC_PARSE_ERROR\<rparr>, mem)
             else (int (p - buffer), parser\<lparr>element_length := v\<rparr>, mem)
         | (Length_Period, v, p) \<Rightarrow>
             (let parser = parser\<lparr>elementv := (elementv parser)[elementc parser := p],
                                  elementc := elementc parser + 1,
                                  pstate := GUAC_PARSE_CONTENT\<rparr> in
              if v > GUAC_INSTRUCTION_MAX_LENGTH then (0, parser\<lparr>pstate := GUAC_PARSE_ERROR\<rparr>, mem)
              else append_content (parser\<lparr>element_length := v\<rparr>) mem buffer p
                     (nat len - (p - buffer))))
      else if pstate parser = GUAC_PARSE_CONTENT then
        append_content parser mem buffer buffer (nat len)
      else (0, parser, mem))"

text \<open>
  The shift of \<open>guac_parser_read\<close>: the bytes from \<open>instr_start\<close> on move to the start of the buffer
  and the recorded elements with them. The pointer of an element that was recorded before \<open>instr_start\<close>
  would then lie before the buffer, which is undefined.
\<close>

definition elements_from :: "nat \<Rightarrow> guac_parser \<Rightarrow> bool" where
  "elements_from instr_start parser =
     list_all (\<lambda>p. instr_start \<le> p) (take (elementc parser) (elementv parser))"

definition parser_shifted :: "nat \<Rightarrow> nat \<Rightarrow> guac_parser \<Rightarrow> guac_parser" where
  "parser_shifted instr_start u_end parser =
     parser\<lparr>instructionbuf := mem_write (instructionbuf parser) 0
              (take (u_end - instr_start) (drop instr_start (instructionbuf parser))),
            elementv := map (\<lambda>p. p - instr_start) (take (elementc parser) (elementv parser))
              @ drop (elementc parser) (elementv parser)\<rparr>"

definition parser_shift_back :: "nat \<Rightarrow> nat \<Rightarrow> guac_parser \<Rightarrow> guac_parser option" where
  "parser_shift_back instr_start u_end parser =
     (if elements_from instr_start parser then Some (parser_shifted instr_start u_end parser) else None)"

text \<open>
  The loop of \<open>guac_parser_read\<close>, with its local pointers as arguments. It returns the result, the
  parser and the socket; the pointers are stored in the parser only on success. The result is
  \<open>None\<close> when the socket has none, or claims to have read more than was asked for, or when the shift is
  undefined.
\<close>

partial_function (option) parser_read_loop ::
    "int \<Rightarrow> nat \<Rightarrow> nat \<Rightarrow> nat \<Rightarrow> guac_parser \<Rightarrow> 's guac_socket \<Rightarrow>
     (int \<times> guac_parser \<times> 's guac_socket) option" where
  "parser_read_loop usec_timeout instr_start u_start u_end parser socket =
     (if pstate parser = GUAC_PARSE_ERROR then Some (- 1, parser, socket)
      else if pstate parser = GUAC_PARSE_COMPLETE then
        Some (0, parser\<lparr>unparsed_start := u_start, unparsed_end := u_end\<rparr>, socket)
      else
        (case guac_parser_append parser (instructionbuf parser) u_start (int u_end - int u_start) of
           (parsed, parser, mem) \<Rightarrow>
             (let parser = parser\<lparr>instructionbuf := mem\<rparr> in
              if parsed = 0 \<and> pstate parser \<noteq> GUAC_PARSE_ERROR then
                if u_end = INSTRUCTIONBUF_SIZE \<and> instr_start = 0 then Some (- 1, parser, socket)
                else
                  (let full = (u_end = INSTRUCTIONBUF_SIZE) in
                   Option.bind (if full then parser_shift_back instr_start u_end parser else Some parser) (\<lambda>parser.
                   let offset = (if full then instr_start else 0);
                       u_end = u_end - offset;
                       u_start = u_start - offset;
                       instr_start = instr_start - offset
                   in
                   Option.bind (guac_socket_select socket usec_timeout) (\<lambda>(retval, socket).
                     if retval \<le> 0 then Some (- 1, parser, socket)
                     else Option.bind (guac_socket_read socket (INSTRUCTIONBUF_SIZE - u_end))
                       (\<lambda>(retval, bytes, socket).
                          if retval < 0 then Some (- 1, parser, socket)
                          else if retval = 0 then Some (- 1, parser, socket)
                          else if retval \<noteq> int (length bytes) \<or> length bytes > INSTRUCTIONBUF_SIZE - u_end
                          then None
                          else parser_read_loop usec_timeout instr_start u_start (u_end + nat retval)
                                 (parser\<lparr>instructionbuf := mem_write (instructionbuf parser) u_end bytes\<rparr>)
                                 socket))))
              else
                parser_read_loop usec_timeout instr_start (u_start + nat parsed) u_end parser socket)))"

definition guac_parser_read ::
    "guac_parser \<Rightarrow> 's guac_socket \<Rightarrow> int \<Rightarrow> (int \<times> guac_parser \<times> 's guac_socket) option" where
  "guac_parser_read parser socket usec_timeout =
     parser_read_loop usec_timeout (unparsed_start parser) (unparsed_start parser)
       (unparsed_end parser)
       (if pstate parser = GUAC_PARSE_COMPLETE then guac_parser_reset parser else parser) socket"

definition parser_string :: "guac_parser \<Rightarrow> nat \<Rightarrow> byte list" where
  "parser_string parser p = cstr_at (instructionbuf parser) p"

definition guac_parser_expect ::
    "guac_parser \<Rightarrow> 's guac_socket \<Rightarrow> int \<Rightarrow> byte list \<Rightarrow> (int \<times> guac_parser \<times> 's guac_socket) option" where
  "guac_parser_expect parser socket usec_timeout expected =
     Option.bind (guac_parser_read parser socket usec_timeout) (\<lambda>(r, parser, socket).
       if r \<noteq> 0 then Some (- 1, parser, socket)
       else (case opcode parser of
               None \<Rightarrow> None
             | Some p \<Rightarrow>
                 if parser_string parser p \<noteq> expected then Some (- 1, parser, socket)
                 else Some (if pstate parser \<noteq> GUAC_PARSE_COMPLETE then 1 else 0, parser, socket)))"

definition guac_parser_length :: "guac_parser \<Rightarrow> int" where
  "guac_parser_length parser = int (unparsed_end parser) - int (unparsed_start parser)"

text \<open>\<open>guac_parser_shift\<close>; the bytes copied out, their number is the result.\<close>

definition guac_parser_shift :: "guac_parser \<Rightarrow> int \<Rightarrow> (int \<times> byte list \<times> guac_parser)" where
  "guac_parser_shift parser len =
     (let copy_start = int (unparsed_start parser);
          copy_end = (if int (unparsed_end parser) - copy_start > len then copy_start + len
                      else int (unparsed_end parser));
          n = copy_end - copy_start
      in (n, take (nat n) (drop (unparsed_start parser) (instructionbuf parser)),
          parser\<lparr>unparsed_start := nat copy_end\<rparr>))"

section \<open>Windows of a stream\<close>

text \<open>The \<open>n\<close> bytes at \<open>p\<close> are the next \<open>n\<close> bytes of the stream \<open>s\<close>.\<close>

definition window :: "byte list \<Rightarrow> nat \<Rightarrow> nat \<Rightarrow> byte list \<Rightarrow> bool" where
  "window mem p n s \<longleftrightarrow> p + n \<le> length mem \<and> n \<le> length s \<and> (\<forall>i < n. mem ! (p + i) = s ! i)"

lemma window_0 [simp]: "window mem p 0 s \<longleftrightarrow> p \<le> length mem"
  by (simp add: window_def)

lemma window_Suc: "window mem p (Suc n) (c # s) \<longleftrightarrow>
    p < length mem \<and> mem ! p = c \<and> window mem (p + 1) n s"
  unfolding window_def by (auto simp: All_less_Suc2)

lemma window_nth: "window mem p n s \<Longrightarrow> i < n \<Longrightarrow> mem ! (p + i) = s ! i"
  by (simp add: window_def)

lemma window_drop: "window mem p n s \<Longrightarrow> k \<le> n \<Longrightarrow> window mem (p + k) (n - k) (drop k s)"
  by (auto simp: window_def) (metis add.assoc less_diff_conv add.commute)

lemma window_cong:
  assumes "window mem p n s" and "length mem' = length mem"
    and "\<And>i. p \<le> i \<Longrightarrow> i < p + n \<Longrightarrow> mem' ! i = mem ! i"
  shows "window mem' p n s"
  using assms by (auto simp: window_def)

lemma window_extend:
  assumes "window mem p n s" "p + n + length bs \<le> length mem" "s = take n s @ bs @ r"
  shows "window (mem_write mem (p + n) bs) p (n + length bs) s"
proof -
  have l: "n \<le> length s" using assms(1) by (simp add: window_def)
  have "n + length bs \<le> length s" using arg_cong[OF assms(3), of length] l by simp
  moreover have "mem_write mem (p + n) bs ! (p + i) = s ! i" if "i < n + length bs" for i
  proof (cases "i < n")
    case True
    then show ?thesis using assms(1,2) by (simp add: window_def nth_mem_write)
  next
    case False
    then have "s ! i = bs ! (i - n)"
      using that l by (subst assms(3)) (auto simp: nth_append)
    then show ?thesis using False that assms(2) by (simp add: nth_mem_write)
  qed
  ultimately show ?thesis using assms(2) by (simp add: window_def)
qed

section \<open>The two loops on well-formed input\<close>

abbreviation digits_val :: "int \<Rightarrow> byte list \<Rightarrow> int" where
  "digits_val v ds \<equiv> foldl (\<lambda>v c. v * 10 + digit_val c) v ds"

lemma digit_val_range: "is_digit c \<Longrightarrow> 0 \<le> digit_val c \<and> digit_val c \<le> 9"
  unfolding is_digit_def digit_val_def word_le_def by simp

lemma digits_val_mono: "list_all is_digit ds \<Longrightarrow> 0 \<le> v \<Longrightarrow> v \<le> digits_val v ds"
proof (induction ds arbitrary: v)
  case (Cons c ds)
  then have c: "0 \<le> digit_val c" using digit_val_range by simp
  with Cons.prems Cons.IH[of "v * 10 + digit_val c"] have "v * 10 + digit_val c \<le> digits_val v (c # ds)"
    by simp
  with c Cons.prems(2) show ?case by linarith
qed simp

lemma parse_length_digits:
  assumes "list_all is_digit ds" "0 \<le> v" "digits_val v ds \<le> GUAC_INSTRUCTION_MAX_LENGTH"
    and "window mem p n (ds @ 46 # r)"
  shows "parse_length_loop mem p n v =
    (if n \<le> length ds then (Length_Exhausted, digits_val v (take n ds), p + n)
     else (Length_Period, digits_val v ds, p + length ds + 1))"
  using assms
proof (induction ds arbitrary: v p n)
  case Nil
  then show ?case
    by (cases n) (auto simp: window_Suc is_digit_def word_le_nat_alt)
next
  case (Cons c ds)
  show ?case
  proof (cases n)
    case (Suc m)
    have c: "0 \<le> digit_val c" "digit_val c \<le> 9" using Cons.prems(1) digit_val_range by simp_all
    have v': "v * 10 + digit_val c \<le> GUAC_INSTRUCTION_MAX_LENGTH"
      using digits_val_mono[of ds "v * 10 + digit_val c"] Cons.prems c by simp
    then have "s32 (s32 (v * 10) + digit_val c) = v * 10 + digit_val c"
      using c Cons.prems(2) by simp
    moreover have "parse_length_loop mem (p + 1) m (v * 10 + digit_val c) =
      (if m \<le> length ds then (Length_Exhausted, digits_val (v * 10 + digit_val c) (take m ds), p + 1 + m)
       else (Length_Period, digits_val (v * 10 + digit_val c) ds, p + 1 + length ds + 1))"
      using Cons.prems c Suc by (intro Cons.IH) (auto simp: window_Suc)
    ultimately show ?thesis
      using Cons.prems Suc by (simp add: window_Suc)
  qed simp
qed

lemma terminator_charsize: "t \<in> {44, 59} \<Longrightarrow> guac_utf8_charsize t = 1"
  using ascii_charsize[of t] by auto

text \<open>Content that is all there up to its terminator.\<close>

lemma parse_content_all:
  assumes "utf8_complete e" "t \<in> {44, 59}"
    and "window mem p n (e @ t # r)" "length e < n"
  shows "parse_content_loop mem p n (int (guac_utf8_strlen e)) =
    (if t = 59 then Content_Semicolon else Content_Comma, 0, p + length e + 1, mem[p + length e := 0])"
  using assms
proof (induction e arbitrary: p n rule: utf8_complete_induct)
  case Nil
  then obtain m where "n = Suc m" by (cases n) auto
  with Nil show ?case
    by (auto simp: parse_content_loop.simps window_Suc terminator_charsize Let_def)
next
  case (char c cs ch rest)
  let ?k = "guac_utf8_charsize c"
  have k: "length ch = ?k" "drop ?k (c # cs) = rest" using char.hyps by auto
  have l: "length (c # cs) = ?k + length rest" using char.hyps(1) k(1) by (metis length_append)
  have sl: "guac_utf8_strlen (c # cs) = Suc (guac_utf8_strlen rest)"
    using guac_utf8_strlen_step[of c cs] k(2) by simp
  have "drop ?k ((c # cs) @ t # r) = rest @ t # r" using k(2) l by (simp only: drop_append) simp
  then have w: "window mem (p + ?k) (n - ?k) (rest @ t # r)"
    using window_drop[OF char.prems(2), of ?k] char.prems(3) l by simp
  have c: "mem ! p = c" "?k \<le> n" "0 < n"
    using char.prems l by (auto simp: window_def intro: nth_Cons_0)
  have "parse_content_loop mem p n (int (guac_utf8_strlen (c # cs)))
      = parse_content_loop mem (p + ?k) (n - ?k) (int (guac_utf8_strlen rest))"
    using c by (subst parse_content_loop.simps) (simp add: sl Let_def)
  also have "\<dots> = (if t = 59 then Content_Semicolon else Content_Comma, 0, p + ?k + length rest + 1,
      mem[p + ?k + length rest := 0])"
    using char.prems l w by (intro char.IH) auto
  finally show ?case using l by (simp add: add.assoc)
qed

text \<open>Content of which only a part has arrived: whole characters are taken.\<close>

lemma parse_content_part:
  assumes "utf8_complete e" "window mem p n (e @ r)" "n \<le> length e"
  shows "\<exists>a b. e = a @ b \<and> length a \<le> n \<and> utf8_complete b
    \<and> parse_content_loop mem p n (int (guac_utf8_strlen e))
        = (Content_Stop, int (guac_utf8_strlen b), p + length a, mem)"
  using assms
proof (induction e arbitrary: p n rule: utf8_complete_induct)
  case Nil
  then show ?case by (simp add: parse_content_loop.simps)
next
  case (char c cs ch rest)
  let ?k = "guac_utf8_charsize c"
  have k: "length ch = ?k" "drop ?k (c # cs) = rest" using char.hyps by auto
  have l: "length (c # cs) = ?k + length rest" using char.hyps(1) k(1) by (metis length_append)
  have sl: "guac_utf8_strlen (c # cs) = Suc (guac_utf8_strlen rest)"
    using guac_utf8_strlen_step[of c cs] k(2) by simp
  have uc: "utf8_complete (c # cs)"
    unfolding utf8_complete.simps(2) k(2) using l char.hyps(3) by simp
  show ?case
  proof (cases "?k \<le> n")
    case True
    have n: "0 < n" using True guac_utf8_charsize_pos[of c] by linarith
    have c: "mem ! p = c" using char.prems n by (auto simp: window_def)
    have "drop ?k ((c # cs) @ r) = rest @ r" using k(2) l by (simp only: drop_append) simp
    then have "window mem (p + ?k) (n - ?k) (rest @ r)"
      using window_drop[OF char.prems(1) True] by simp
    moreover have "n - ?k \<le> length rest" using char.prems(2) l by linarith
    ultimately obtain a b where
      ab: "rest = a @ b" "length a \<le> n - ?k" "utf8_complete b"
      "parse_content_loop mem (p + ?k) (n - ?k) (int (guac_utf8_strlen rest))
        = (Content_Stop, int (guac_utf8_strlen b), p + ?k + length a, mem)"
      using char.IH by blast
    have "parse_content_loop mem p n (int (guac_utf8_strlen (c # cs)))
        = parse_content_loop mem (p + ?k) (n - ?k) (int (guac_utf8_strlen rest))"
      using c True n by (subst parse_content_loop.simps) (simp add: sl Let_def)
    with ab k(1) True guac_utf8_charsize_pos[of c] show ?thesis
      unfolding char.hyps(1) by (intro exI[of _ "ch @ a"] exI[of _ b]) auto
  next
    case False
    then have "parse_content_loop mem p n (int (guac_utf8_strlen (c # cs)))
        = (Content_Stop, int (guac_utf8_strlen (c # cs)), p, mem)"
      using char.prems(1) by (cases n) (auto simp: parse_content_loop.simps window_Suc Let_def)
    then show ?thesis using uc by (intro exI[of _ "[]"] exI[of _ "c # cs"]) simp
  qed
qed

section \<open>An instruction being parsed\<close>

text \<open>What follows an element: the rest of the instruction.\<close>

fun rest_of :: "byte list list \<Rightarrow> byte list" where
  "rest_of [] = [59]"
| "rest_of (e # es) = 44 # encode_instruction (e # es)"

lemma encode_instruction_rest: "encode_instruction (e # es) = element e @ rest_of es"
  by (cases es) (simp_all add: encode_instruction_def)

text \<open>The element \<open>e\<close> is a C string at \<open>off\<close>, entirely before \<open>u\<close>.\<close>

definition stored :: "byte list \<Rightarrow> nat \<Rightarrow> byte list \<Rightarrow> nat \<Rightarrow> bool" where
  "stored mem off e u \<longleftrightarrow> off + length e < u \<and> u \<le> length mem
     \<and> (\<forall>i < length e. mem ! (off + i) = e ! i) \<and> mem ! (off + length e) = 0"

lemma stored_mono:
  assumes "stored mem off e u" "u \<le> u'" "u' \<le> length mem'" "\<And>i. i < u \<Longrightarrow> mem' ! i = mem ! i"
  shows "stored mem' off e u'"
  using assms unfolding stored_def by auto

lemma stored_string: "stored mem off e u \<Longrightarrow> 0 \<notin> set e \<Longrightarrow> cstr_at mem off = e"
  by (intro cstr_at_prefix) (auto simp: stored_def)

text \<open>
  The parser has read the instruction \<open>es\<close> up to \<open>u\<close>, with the elements \<open>fin\<close> complete; \<open>rem\<close> is
  what has yet to come, and nothing of it lies before \<open>s\<close>. Either the length of the next element is being read (\<open>ds\<close> are its digits
  still missing) or its content (\<open>a\<close> has been read, \<open>b\<close> has not).
\<close>

definition in_length ::
    "byte list list \<Rightarrow> byte list \<Rightarrow> byte list list \<Rightarrow> guac_parser \<Rightarrow> nat \<Rightarrow> byte list \<Rightarrow> bool" where
  "in_length fin e later parser u rem \<longleftrightarrow>
     pstate parser = GUAC_PARSE_LENGTH \<and> elementc parser = length fin \<and> 0 \<le> element_length parser
     \<and> (\<exists>ds. list_all is_digit ds \<and> digits_val (element_length parser) ds = int (guac_utf8_strlen e)
          \<and> rem = ds @ 46 # e @ rest_of later)"

definition in_content ::
    "nat \<Rightarrow> byte list list \<Rightarrow> byte list \<Rightarrow> byte list list \<Rightarrow> guac_parser \<Rightarrow> byte list \<Rightarrow> nat
     \<Rightarrow> byte list \<Rightarrow> bool" where
  "in_content s fin e later parser mem u rem \<longleftrightarrow>
     pstate parser = GUAC_PARSE_CONTENT \<and> elementc parser = length fin + 1
     \<and> s \<le> elementv parser ! length fin
     \<and> (\<exists>a b. e = a @ b \<and> utf8_complete b \<and> element_length parser = int (guac_utf8_strlen b)
          \<and> rem = b @ rest_of later \<and> elementv parser ! length fin + length a = u
          \<and> (\<forall>i < length a. mem ! (elementv parser ! length fin + i) = a ! i))"

definition before :: "nat \<Rightarrow> byte list list \<Rightarrow> guac_parser \<Rightarrow> byte list \<Rightarrow> nat \<Rightarrow> bool" where
  "before s fin parser mem u \<longleftrightarrow> length (elementv parser) = GUAC_INSTRUCTION_MAX_ELEMENTS
     \<and> s \<le> u \<and> u \<le> length mem
     \<and> (\<forall>j < length fin. s \<le> elementv parser ! j \<and> stored mem (elementv parser ! j) (fin ! j) u)"

definition parsing ::
    "nat \<Rightarrow> byte list list \<Rightarrow> guac_parser \<Rightarrow> byte list \<Rightarrow> nat \<Rightarrow> byte list \<Rightarrow> bool" where
  "parsing s es parser mem u rem \<longleftrightarrow> (\<exists>fin e later. es = fin @ e # later \<and> before s fin parser mem u
     \<and> (in_length fin e later parser u rem \<or> in_content s fin e later parser mem u rem))"

definition parsed :: "nat \<Rightarrow> byte list list \<Rightarrow> guac_parser \<Rightarrow> byte list \<Rightarrow> nat \<Rightarrow> bool" where
  "parsed s es parser mem u \<longleftrightarrow> pstate parser = GUAC_PARSE_COMPLETE \<and> elementc parser = length es
     \<and> argc parser = int (length es) - 1 \<and> opcode parser = Some (elementv parser ! 0)
     \<and> before s es parser mem u"

definition acceptable :: "byte list list \<Rightarrow> bool" where
  "acceptable es \<longleftrightarrow> es \<noteq> [] \<and> length es < GUAC_INSTRUCTION_MAX_ELEMENTS
     \<and> (\<forall>e \<in> set es. utf8_complete e \<and> int (guac_utf8_strlen e) \<le> GUAC_INSTRUCTION_MAX_LENGTH)"

text \<open>What one call of \<open>guac_parser_append\<close> does, having taken \<open>m\<close> of \<open>n\<close> bytes at \<open>u\<close>.\<close>

definition advanced ::
    "nat \<Rightarrow> byte list list \<Rightarrow> byte list \<Rightarrow> nat \<Rightarrow> nat \<Rightarrow> byte list \<Rightarrow> nat \<Rightarrow> guac_parser
     \<Rightarrow> byte list \<Rightarrow> bool" where
  "advanced s es mem u n rem m parser' mem' \<longleftrightarrow>
     m \<le> n \<and> m \<le> length rem \<and> length mem' = length mem
     \<and> (\<forall>i. i < u \<or> u + m \<le> i \<longrightarrow> mem' ! i = mem ! i)
     \<and> (m = 0 \<longrightarrow> n < length rem)
     \<and> (parsing s es parser' mem' (u + m) (drop m rem)
        \<or> (parsed s es parser' mem' (u + m) \<and> m = length rem))"

lemma before_mono:
  assumes "before s fin parser mem u" "u \<le> u'" "u' \<le> length mem'" "\<And>i. i < u \<Longrightarrow> mem' ! i = mem ! i"
    and "length (elementv parser') = length (elementv parser)"
    and "\<And>j. j < length fin \<Longrightarrow> elementv parser' ! j = elementv parser ! j"
  shows "before s fin parser' mem' u'"
  using assms stored_mono[of mem _ _ u u' mem'] unfolding before_def by simp

lemma before_snoc:
  "before s fin parser mem u \<Longrightarrow> s \<le> elementv parser ! length fin \<Longrightarrow> stored mem (elementv parser ! length fin) e u \<Longrightarrow>
   before s (fin @ [e]) parser mem u"
  by (auto simp: before_def nth_append less_Suc_eq)

text \<open>The content phase, to its end or as far as the bytes go.\<close>

lemma append_content_part:
  assumes "es = fin @ e # later" "before s fin parser mem p"
    and "in_content s fin e later parser mem p rem"
    and "window mem p n (rem @ nxt)" "n < length rem" "n \<le> length rem - length (rest_of later)"
  shows "\<exists>m parser'. append_content parser mem buffer p n = (int (p + m - buffer), parser', mem)
    \<and> advanced s es mem p n rem m parser' mem"
proof -
  obtain a b where c: "pstate parser = GUAC_PARSE_CONTENT" "elementc parser = length fin + 1"
    "e = a @ b" "utf8_complete b" "element_length parser = int (guac_utf8_strlen b)"
    "rem = b @ rest_of later" "elementv parser ! length fin + length a = p"
    "\<forall>i < length a. mem ! (elementv parser ! length fin + i) = a ! i"
    "s \<le> elementv parser ! length fin"
    using assms(3) by (auto simp: in_content_def)
  have w: "window mem p n (b @ rest_of later @ nxt)" "n \<le> length b" using assms c(6) by simp_all
  obtain x y where xy: "b = x @ y" "length x \<le> n" "utf8_complete y"
    "parse_content_loop mem p n (int (guac_utf8_strlen b))
      = (Content_Stop, int (guac_utf8_strlen y), p + length x, mem)"
    using parse_content_part[OF c(4) w] by blast
  let ?q = "parser\<lparr>element_length := int (guac_utf8_strlen y)\<rparr>"
  have "mem ! (elementv parser ! length fin + i) = (a @ x) ! i" if "i < length (a @ x)" for i
  proof (cases "i < length a")
    case False
    then have j: "i - length a < length x" "elementv parser ! length fin + i = p + (i - length a)"
      using that c(7) by auto
    then have "mem ! (p + (i - length a)) = x ! (i - length a)"
      using window_nth[OF w(1), of "i - length a"] xy(1,2) by (simp add: nth_append)
    then show ?thesis using False j(2) by (simp add: nth_append)
  qed (simp add: c(8) nth_append)
  then have "in_content s fin e later ?q mem (p + length x) (drop (length x) rem)"
    unfolding in_content_def using c xy by (intro conjI exI[of _ "a @ x"] exI[of _ y]) auto
  moreover have "before s fin ?q mem (p + length x)"
    using assms(2) w xy(2) by (elim before_mono) (auto simp: window_def)
  ultimately have "parsing s es ?q mem (p + length x) (drop (length x) rem)"
    using assms(1) unfolding parsing_def by blast
  then have "advanced s es mem p n rem (length x) ?q mem"
    using xy assms(5) c(6) by (auto simp: advanced_def)
  moreover have "append_content parser mem buffer p n = (int (p + length x - buffer), ?q, mem)"
    using xy(4) c(5) by (simp add: append_content_def)
  ultimately show ?thesis by blast
qed

lemma append_content_all:
  assumes "es = fin @ e # later" "before s fin parser mem p"
    and "in_content s fin e later parser mem p rem"
    and "window mem p n (rem @ nxt)" "length rem - length (rest_of later) < n"
  shows "\<exists>m parser' mem'. append_content parser mem buffer p n = (int (p + m - buffer), parser', mem')
    \<and> advanced s es mem p n rem m parser' mem' \<and> 0 < m"
proof -
  obtain a b where c: "pstate parser = GUAC_PARSE_CONTENT" "elementc parser = length fin + 1"
    "e = a @ b" "utf8_complete b" "element_length parser = int (guac_utf8_strlen b)"
    "rem = b @ rest_of later" "elementv parser ! length fin + length a = p"
    "\<forall>i < length a. mem ! (elementv parser ! length fin + i) = a ! i"
    "s \<le> elementv parser ! length fin"
    using assms(3) by (auto simp: in_content_def)
  obtain t r where t: "rest_of later = t # r" "t \<in> {44, 59}" "t = 59 \<longleftrightarrow> later = []"
    by (cases later) auto
  have w: "window mem p n (b @ t # (r @ nxt))" "length b < n" using assms c(6) t(1) by simp_all
  let ?mem = "mem[p + length b := 0]"
  have run: "parse_content_loop mem p n (element_length parser) =
    (if t = 59 then Content_Semicolon else Content_Comma, 0, p + length b + 1, ?mem)"
    unfolding c(5) by (rule parse_content_all[OF c(4) t(2) w])
  have len: "p + length b + 1 \<le> length ?mem" using w by (simp add: window_def)
  have old: "?mem ! i = mem ! i" if "i < p + length b \<or> p + length b < i" for i
    using that by auto
  have "mem ! (elementv parser ! length fin + i) = e ! i" if "i < length e" for i
  proof (cases "i < length a")
    case True
    then show ?thesis using c(3,8) by (simp add: nth_append)
  next
    case False
    then have j: "i - length a < length b" "elementv parser ! length fin + i = p + (i - length a)"
      using that c(3,7) by auto
    then have "mem ! (p + (i - length a)) = b ! (i - length a)"
      using window_nth[OF w(1), of "i - length a"] w(2) by (simp add: nth_append)
    then show ?thesis using False j(2) c(3) by (simp add: nth_append)
  qed
  then have st: "stored ?mem (elementv parser ! length fin) e (p + length b + 1)"
    unfolding stored_def using c(3,7) len old by (auto simp: add.assoc)
  have bf: "before s (fin @ [e]) q ?mem (p + length b + 1)"
    if "elementv q = elementv parser" for q :: guac_parser
    by (rule before_snoc) (use that st assms(2) c(9) len old in \<open>auto elim!: before_mono\<close>)
  have keep: "\<forall>i. i < p \<or> p + (length b + 1) \<le> i \<longrightarrow> ?mem ! i = mem ! i" using old by auto
  show ?thesis
  proof (cases later)
    case Nil
    let ?q = "parser\<lparr>element_length := 0, pstate := GUAC_PARSE_COMPLETE,
      opcode := Some (elementv parser ! 0), argc := int (elementc parser) - 1\<rparr>"
    have "parsed s es ?q ?mem (p + (length b + 1))"
      using bf[of ?q] c(2) assms(1) Nil by (simp add: parsed_def)
    then have "advanced s es mem p n rem (length b + 1) ?q ?mem"
      using keep w(2) c(6) Nil by (simp add: advanced_def)
    moreover have "append_content parser mem buffer p n = (int (p + (length b + 1) - buffer), ?q, ?mem)"
      using run t(3) Nil by (simp add: append_content_def)
    ultimately show ?thesis by (intro exI[of _ "length b + 1"] exI conjI) auto
  next
    case (Cons f fs)
    let ?q = "parser\<lparr>element_length := 0, pstate := GUAC_PARSE_LENGTH\<rparr>"
    have "in_length (fin @ [e]) f fs ?q (p + (length b + 1)) (drop (length b + 1) rem)"
      unfolding in_length_def using c(2,6) Cons
      by (intro conjI exI[of _ "dec_nat (guac_utf8_strlen f)"])
        (auto simp: encode_instruction_rest element_def list_all_iff dec_nat_digits
          scan_digits_dec_nat[unfolded scan_digits_def])
    moreover have "es = (fin @ [e]) @ f # fs" using assms(1) Cons by simp
    ultimately have "parsing s es ?q ?mem (p + (length b + 1)) (drop (length b + 1) rem)"
      unfolding parsing_def using bf[of ?q] by (intro exI[of _ "fin @ [e]"] exI[of _ f] exI[of _ fs]) simp
    then have "advanced s es mem p n rem (length b + 1) ?q ?mem"
      using keep w(2) c(6) Cons by (simp add: advanced_def)
    moreover have "append_content parser mem buffer p n = (int (p + (length b + 1) - buffer), ?q, ?mem)"
      using run t(3) Cons by (simp add: append_content_def)
    ultimately show ?thesis by (intro exI[of _ "length b + 1"] exI conjI) auto
  qed
qed

lemma append_content_step:
  assumes "es = fin @ e # later" "before s fin parser mem p"
    and "in_content s fin e later parser mem p rem" "window mem p n (rem @ nxt)"
  shows "\<exists>m parser' mem'. append_content parser mem buffer p n = (int (p + m - buffer), parser', mem')
    \<and> advanced s es mem p n rem m parser' mem'"
proof (cases "length rem - length (rest_of later) < n")
  case True
  then show ?thesis using append_content_all[OF assms True] by blast
next
  case False
  obtain t r where "rest_of later = t # r" by (cases later) auto
  moreover have "length (rest_of later) \<le> length rem" using assms(3) by (auto simp: in_content_def)
  ultimately have "n < length rem" using False by (cases rem) auto
  then show ?thesis using append_content_part[OF assms] False by fastforce
qed

lemma advanced_later:
  assumes "advanced s es mem (u + d) (n - d) (drop d rem) m parser' mem'" "d \<le> n" "0 < d" "d \<le> length rem"
  shows "advanced s es mem u n rem (d + m) parser' mem'"
  using assms unfolding advanced_def by (auto simp: ac_simps)

text \<open>The central step: whatever part of the instruction is there, it is taken correctly.\<close>

lemma append_step:
  assumes "parsing s es parser mem u rem" "acceptable es" "window mem u n (rem @ nxt)"
  shows "\<exists>m parser' mem'. guac_parser_append parser mem u (int n) = (int m, parser', mem')
    \<and> advanced s es mem u n rem m parser' mem'"
proof -
  obtain fin e later where es: "es = fin @ e # later" "before s fin parser mem u"
    and "in_length fin e later parser u rem \<or> in_content s fin e later parser mem u rem"
    using assms(1) by (auto simp: parsing_def)
  then consider (len) "in_length fin e later parser u rem" | (con) "in_content s fin e later parser mem u rem"
    by blast
  then show ?thesis
  proof cases
    case con
    then have "guac_parser_append parser mem u (int n) = append_content parser mem u u n"
      using assms(2) es(1) by (auto simp: guac_parser_append_def in_content_def acceptable_def)
    then show ?thesis using append_content_step[OF es con assms(3), of u] by auto
  next
    case len
    then obtain ds where l: "pstate parser = GUAC_PARSE_LENGTH" "elementc parser = length fin"
      "0 \<le> element_length parser" "list_all is_digit ds"
      "digits_val (element_length parser) ds = int (guac_utf8_strlen e)"
      "rem = ds @ 46 # e @ rest_of later"
      by (auto simp: in_length_def)
    have e: "utf8_complete e" "int (guac_utf8_strlen e) \<le> GUAC_INSTRUCTION_MAX_LENGTH"
      "elementc parser < GUAC_INSTRUCTION_MAX_ELEMENTS"
      using assms(2) es(1) l(2) by (auto simp: acceptable_def)
    have w: "window mem u n (ds @ 46 # e @ rest_of later @ nxt)" using assms(3) l(6) by simp
    have run: "parse_length_loop mem u n (element_length parser) =
      (if n \<le> length ds then (Length_Exhausted, digits_val (element_length parser) (take n ds), u + n)
       else (Length_Period, int (guac_utf8_strlen e), u + length ds + 1))"
      using parse_length_digits[OF l(4,3) _ w] l(5) e(2) by simp
    show ?thesis
    proof (cases "n \<le> length ds")
      case True
      let ?v = "digits_val (element_length parser) (take n ds)"
      let ?q = "parser\<lparr>element_length := ?v\<rparr>"
      have v: "digits_val ?v (drop n ds) = int (guac_utf8_strlen e)"
        using l(5) by (metis append_take_drop_id foldl_append)
      have d: "list_all is_digit (take n ds)" "list_all is_digit (drop n ds)"
        using l(4) by (auto simp: list_all_iff dest: in_set_takeD in_set_dropD)
      have "0 \<le> ?v" using digits_val_mono[OF d(1) l(3)] l(3) by linarith
      moreover have "?v \<le> GUAC_INSTRUCTION_MAX_LENGTH"
        using digits_val_mono[OF d(2) calculation] v e(2) by linarith
      ultimately have "guac_parser_append parser mem u (int n) = (int n, ?q, mem)"
        "in_length fin e later ?q (u + n) (drop n rem)"
        using True run l e(3) v d(2) by (auto simp: guac_parser_append_def in_length_def)
      moreover have "before s fin ?q mem (u + n)"
        using es(2) w by (elim before_mono) (auto simp: window_def)
      ultimately show ?thesis
        using True es(1) l(6) by (intro exI[of _ n] exI[of _ ?q] exI[of _ mem])
          (auto simp: advanced_def parsing_def)
    next
      case False
      let ?d = "length ds + 1"
      let ?p = "parser\<lparr>elementv := (elementv parser)[length fin := u + ?d], elementc := length fin + 1,
        pstate := GUAC_PARSE_CONTENT, element_length := int (guac_utf8_strlen e)\<rparr>"
      have "before s fin ?p mem (u + ?d)"
        using es(2) w False by (elim before_mono) (auto simp: window_def)
      moreover have "in_content s fin e later ?p mem (u + ?d) (drop ?d rem)"
        using es(2) l e by (auto simp: in_content_def before_def intro!: exI[of _ "[]"] exI[of _ e])
      moreover have "window mem (u + ?d) (n - ?d) (drop ?d rem @ nxt)"
        using window_drop[OF assms(3), of ?d] False l(6) by simp
      ultimately obtain m q mem' where
        m: "append_content ?p mem u (u + ?d) (n - ?d) = (int (u + ?d + m - u), q, mem')"
        "advanced s es mem (u + ?d) (n - ?d) (drop ?d rem) m q mem'"
        using append_content_step[OF es(1), of s ?p mem "u + ?d" "drop ?d rem" "n - ?d" nxt u] by blast
      have "guac_parser_append parser mem u (int n) = append_content ?p mem u (u + ?d) (n - ?d)"
        using False run l e by (simp add: guac_parser_append_def Let_def)
      moreover have "advanced s es mem u n rem (?d + m) q mem'"
        using m(2) False l(6) by (intro advanced_later) auto
      ultimately show ?thesis
        using m(1) by (intro exI[of _ "?d + m"] exI[of _ q] exI[of _ mem']) simp
    qed
  qed
qed

section \<open>Reading from a socket\<close>

text \<open>Shifting the buffer back moves everything from \<open>s\<close> on by \<open>s\<close>.\<close>

lemma shift_back_nth:
  assumes "length (instructionbuf parser) = INSTRUCTIONBUF_SIZE" "u_end \<le> INSTRUCTIONBUF_SIZE"
    and "s + i < u_end"
  shows "instructionbuf (parser_shifted s u_end parser) ! i = instructionbuf parser ! (s + i)"
  using assms by (auto simp: parser_shifted_def nth_mem_write)

lemma shift_back_length:
  "length (instructionbuf parser) = INSTRUCTIONBUF_SIZE \<Longrightarrow> u_end \<le> INSTRUCTIONBUF_SIZE \<Longrightarrow>
   length (instructionbuf (parser_shifted s u_end parser)) = INSTRUCTIONBUF_SIZE"
  by (simp add: parser_shifted_def)

lemma shift_back_elementv:
  "j < elementc parser \<Longrightarrow> elementc parser \<le> length (elementv parser) \<Longrightarrow>
   elementv (parser_shifted s u_end parser) ! j = elementv parser ! j - s"
  by (simp add: parser_shifted_def nth_append)

lemma shift_back_fields [simp]:
  "pstate (parser_shifted s u_end parser) = pstate parser"
  "elementc (parser_shifted s u_end parser) = elementc parser"
  "element_length (parser_shifted s u_end parser) = element_length parser"
  "length (elementv (parser_shifted s u_end parser)) = length (elementv parser)"
  by (simp_all add: parser_shifted_def)

lemma parsing_shift_back:
  assumes "parsing s es parser (instructionbuf parser) u rem" "acceptable es"
    and b: "length (instructionbuf parser) = INSTRUCTIONBUF_SIZE" "u_end \<le> INSTRUCTIONBUF_SIZE" "u \<le> u_end"
  defines "q \<equiv> parser_shifted s u_end parser"
  shows "parsing 0 es q (instructionbuf q) (u - s) rem"
proof -
  obtain fin e later where es: "es = fin @ e # later" "before s fin parser (instructionbuf parser) u"
    and ph: "in_length fin e later parser u rem
      \<or> in_content s fin e later parser (instructionbuf parser) u rem"
    using assms(1) by (auto simp: parsing_def)
  have ec: "elementc parser \<le> length (elementv parser)" "length fin \<le> elementc parser"
    using es ph assms(2) by (auto simp: in_length_def in_content_def before_def acceptable_def)
  have ev: "elementv q ! j = elementv parser ! j - s" if "j < elementc parser" for j
    using shift_back_elementv[OF that ec(1)] by (simp add: q_def)
  have nth: "instructionbuf q ! i = instructionbuf parser ! (s + i)" if "s + i < u" for i
    using shift_back_nth[OF b(1,2)] that b(3) by (simp add: q_def)
  have "stored (instructionbuf q) (elementv q ! j) (fin ! j) (u - s)" if "j < length fin" for j
  proof -
    have "s \<le> elementv parser ! j" "stored (instructionbuf parser) (elementv parser ! j) (fin ! j) u"
      using es(2) that by (auto simp: before_def)
    then show ?thesis
      using ev[of j] that ec(2) nth b shift_back_length[OF b(1,2), of s]
      unfolding stored_def q_def[symmetric] by auto
  qed
  then have "before 0 fin q (instructionbuf q) (u - s)"
    using es(2) b shift_back_length[OF b(1,2), of s] by (simp add: before_def q_def)
  moreover have "in_length fin e later q (u - s) rem" if "in_length fin e later parser u rem"
    using that by (simp add: in_length_def q_def)
  moreover have "in_content 0 fin e later q (instructionbuf q) (u - s) rem"
    if c: "in_content s fin e later parser (instructionbuf parser) u rem"
  proof -
    obtain x y where x: "e = x @ y" "utf8_complete y" "element_length parser = int (guac_utf8_strlen y)"
      "rem = y @ rest_of later" "elementv parser ! length fin + length x = u"
      "\<forall>i < length x. instructionbuf parser ! (elementv parser ! length fin + i) = x ! i"
      "s \<le> elementv parser ! length fin" "elementc parser = length fin + 1"
      using c by (auto simp: in_content_def)
    have "instructionbuf q ! (elementv q ! length fin + i) = x ! i" if "i < length x" for i
      using that x ev[of "length fin"] nth[of "elementv q ! length fin + i"] by simp
    then show ?thesis
      using c x ev[of "length fin"] unfolding in_content_def
      by (intro conjI exI[of _ x] exI[of _ y]) (auto simp: q_def)
  qed
  ultimately show ?thesis using es(1) ph unfolding parsing_def by blast
qed

lemma parsing_cong:
  assumes "parsing s es parser mem u rem" "length mem' = length mem" "\<And>i. i < u \<Longrightarrow> mem' ! i = mem ! i"
  shows "parsing s es (parser\<lparr>instructionbuf := b\<rparr>) mem' u rem"
proof -
  obtain fin e later where es: "es = fin @ e # later" "before s fin parser mem u"
    and ph: "in_length fin e later parser u rem \<or> in_content s fin e later parser mem u rem"
    using assms(1) by (auto simp: parsing_def)
  have "before s fin (parser\<lparr>instructionbuf := b\<rparr>) mem' u"
    by (rule before_mono[OF es(2)]) (use es(2) assms(2,3) in \<open>auto simp: before_def\<close>)
  moreover have "in_length fin e later (parser\<lparr>instructionbuf := b\<rparr>) u rem
      \<or> in_content s fin e later (parser\<lparr>instructionbuf := b\<rparr>) mem' u rem"
    using ph assms(3) by (auto simp: in_length_def in_content_def)
  ultimately show ?thesis using es(1) unfolding parsing_def by blast
qed

lemma parsing_le: "parsing s es parser mem u rem \<Longrightarrow> s \<le> u"
  by (auto simp: parsing_def before_def)

lemma parsing_state:
  "parsing s es parser mem u rem \<Longrightarrow> pstate parser \<noteq> GUAC_PARSE_ERROR \<and> pstate parser \<noteq> GUAC_PARSE_COMPLETE"
  by (auto simp: parsing_def in_length_def in_content_def)

lemma elements_from_iff:
  "elementc parser \<le> length (elementv parser) \<Longrightarrow>
   elements_from s parser \<longleftrightarrow> (\<forall>j < elementc parser. s \<le> elementv parser ! j)"
  by (auto simp: elements_from_def list_all_length)

lemma elements_from_simps [simp]:
  "elements_from 0 parser" "elements_from s (parser\<lparr>instructionbuf := b\<rparr>) = elements_from s parser"
  "elements_from s (parser\<lparr>pstate := st\<rparr>) = elements_from s parser"
  by (simp_all add: elements_from_def list_all_iff)

lemma parsing_elements:
  assumes "parsing s es parser mem u rem"
  shows "elements_from s parser"
proof -
  obtain fin e later where es: "before s fin parser mem u"
    and ph: "in_length fin e later parser u rem \<or> in_content s fin e later parser mem u rem"
    using assms by (auto simp: parsing_def)
  have "s \<le> elementv parser ! j" if "j < elementc parser" for j
    using that es ph by (cases "j < length fin") (auto simp: before_def in_length_def in_content_def less_Suc_eq)
  then show ?thesis by (simp add: elements_from_def list_all_length)
qed

text \<open>
  What a reader relies on: while data is pending, waiting succeeds and a read returns at least one
  and at most \<open>count\<close> of the pending bytes, in order.
\<close>

locale socket_input =
  fixes rh :: "'s \<Rightarrow> nat \<Rightarrow> (int \<times> byte list \<times> 's) option"
    and sh :: "'s \<Rightarrow> int \<Rightarrow> (int \<times> 's) option"
    and pending :: "'s \<Rightarrow> byte list"
    and live :: "'s \<Rightarrow> bool"
  assumes read_some: "live d \<Longrightarrow> pending d \<noteq> [] \<Longrightarrow> 0 < count \<Longrightarrow>
      \<exists>bs d'. rh d count = Some (int (length bs), bs, d') \<and> bs \<noteq> [] \<and> length bs \<le> count
        \<and> pending d = bs @ pending d' \<and> live d'"
    and select_ready: "live d \<Longrightarrow> \<exists>r d'. sh d t = Some (r, d') \<and> 0 < r \<and> live d' \<and> pending d' = pending d"
begin

definition listening :: "'s guac_socket \<Rightarrow> bool" where
  "listening sk \<longleftrightarrow> read_handler sk = Some rh \<and> select_handler sk = Some sh \<and> live (sdata sk)"

lemma select_then_read:
  assumes "listening sk" "pending (sdata sk) \<noteq> []" "0 < count"
  shows "\<exists>r sk1 bs sk2. guac_socket_select sk t = Some (r, sk1) \<and> 0 < r
    \<and> guac_socket_read sk1 count = Some (int (length bs), bs, sk2) \<and> bs \<noteq> [] \<and> length bs \<le> count
    \<and> listening sk2 \<and> pending (sdata sk) = bs @ pending (sdata sk2)"
proof -
  obtain r d1 where s: "sh (sdata sk) t = Some (r, d1)" "0 < r" "live d1"
    "pending d1 = pending (sdata sk)"
    using select_ready[of "sdata sk" t] assms(1) by (auto simp: listening_def)
  then obtain bs d2 where "rh d1 count = Some (int (length bs), bs, d2)" "bs \<noteq> []"
    "length bs \<le> count" "pending d1 = bs @ pending d2" "live d2"
    using read_some[of d1 count] assms by auto
  with s assms(1) show ?thesis
    by (intro exI[of _ r] exI[of _ "sk\<lparr>sdata := d1\<rparr>"] exI[of _ bs] exI[of _ "sk\<lparr>sdata := d2\<rparr>"])
      (simp add: listening_def guac_socket_select_def guac_socket_read_def)
qed

text \<open>The unread bytes of the buffer and of the socket together are the stream \<open>st\<close>.\<close>

definition feeds :: "guac_parser \<Rightarrow> nat \<Rightarrow> nat \<Rightarrow> 's guac_socket \<Rightarrow> byte list \<Rightarrow> bool" where
  "feeds parser u u_end sk st \<longleftrightarrow> listening sk \<and> u \<le> u_end \<and> u_end \<le> INSTRUCTIONBUF_SIZE
     \<and> length (instructionbuf parser) = INSTRUCTIONBUF_SIZE
     \<and> window (instructionbuf parser) u (u_end - u) st
     \<and> drop (u_end - u) st = pending (sdata sk)"

definition reading ::
    "byte list list \<Rightarrow> nat \<Rightarrow> nat \<Rightarrow> nat \<Rightarrow> guac_parser \<Rightarrow> 's guac_socket \<Rightarrow> byte list \<Rightarrow> byte list \<Rightarrow> bool" where
  "reading es s u u_end parser sk rem nxt \<longleftrightarrow> parsing s es parser (instructionbuf parser) u rem
     \<and> feeds parser u u_end sk (rem @ nxt) \<and> u - s + length rem \<le> INSTRUCTIONBUF_SIZE"

lemma reading_shift:
  assumes "reading es s u u_end parser sk rem nxt" "acceptable es"
  shows "reading es 0 (u - s) (u_end - s) (parser_shifted s u_end parser) sk rem nxt"
proof -
  have p: "parsing s es parser (instructionbuf parser) u rem" and f: "feeds parser u u_end sk (rem @ nxt)"
    and l: "u - s + length rem \<le> INSTRUCTIONBUF_SIZE"
    using assms(1) by (simp_all add: reading_def)
  have b: "length (instructionbuf parser) = INSTRUCTIONBUF_SIZE" "u_end \<le> INSTRUCTIONBUF_SIZE" "u \<le> u_end"
    using f by (simp_all add: feeds_def)
  have su: "s \<le> u" using p by (rule parsing_le)
  have w: "window (instructionbuf parser) u (u_end - u) (rem @ nxt)" using f by (simp add: feeds_def)
  have "window (instructionbuf (parser_shifted s u_end parser)) (u - s) (u_end - u) (rem @ nxt)"
    unfolding window_def
  proof (intro conjI allI impI)
    fix i
    assume i: "i < u_end - u"
    have "instructionbuf (parser_shifted s u_end parser) ! (u - s + i) = instructionbuf parser ! (s + (u - s + i))"
      using i su b(3) by (intro shift_back_nth[OF b(1,2)]) linarith
    then show "instructionbuf (parser_shifted s u_end parser) ! (u - s + i) = (rem @ nxt) ! i"
      using window_nth[OF w i] su by simp
  qed (use w b shift_back_length[OF b(1,2), of s] in \<open>auto simp: window_def\<close>)
  then have "feeds (parser_shifted s u_end parser) (u - s) (u_end - s) sk (rem @ nxt)"
    using f su b shift_back_length[OF b(1,2), of s] by (auto simp: feeds_def)
  with parsing_shift_back[OF p assms(2) b] l show ?thesis by (simp add: reading_def)
qed

lemma reading_more:
  assumes "reading es s u u_end parser sk rem nxt" "pending (sdata sk) = bs @ pending (sdata sk')"
    and "listening sk'" "length bs \<le> INSTRUCTIONBUF_SIZE - u_end"
  shows "reading es s u (u_end + length bs)
    (parser\<lparr>instructionbuf := mem_write (instructionbuf parser) u_end bs\<rparr>) sk' rem nxt"
proof -
  have p: "parsing s es parser (instructionbuf parser) u rem" and f: "feeds parser u u_end sk (rem @ nxt)"
    using assms(1) by (simp_all add: reading_def)
  have b: "length (instructionbuf parser) = INSTRUCTIONBUF_SIZE" "u_end \<le> INSTRUCTIONBUF_SIZE" "u \<le> u_end"
    and d: "drop (u_end - u) (rem @ nxt) = bs @ pending (sdata sk')"
    and w: "window (instructionbuf parser) u (u_end - u) (rem @ nxt)"
    using f assms(2) by (simp_all add: feeds_def)
  have split: "rem @ nxt = take (u_end - u) (rem @ nxt) @ bs @ pending (sdata sk')"
    using append_take_drop_id[of "u_end - u" "rem @ nxt"] unfolding d by (rule sym)
  have "window (mem_write (instructionbuf parser) (u + (u_end - u)) bs) u (u_end - u + length bs) (rem @ nxt)"
    using b assms(4) by (intro window_extend[OF w _ split]) simp
  moreover have "drop (u_end + length bs - u) (rem @ nxt) = pending (sdata sk')"
  proof -
    have "drop (length bs) (drop (u_end - u) (rem @ nxt)) = pending (sdata sk')" unfolding d by simp
    moreover have "length bs + (u_end - u) = u_end + length bs - u" using b(3) by simp
    ultimately show ?thesis by (simp only: drop_drop)
  qed
  ultimately have "feeds (parser\<lparr>instructionbuf := mem_write (instructionbuf parser) u_end bs\<rparr>) u
      (u_end + length bs) sk' (rem @ nxt)"
    using b assms(3,4) by (simp add: feeds_def)
  moreover have "parsing s es (parser\<lparr>instructionbuf := mem_write (instructionbuf parser) u_end bs\<rparr>)
      (mem_write (instructionbuf parser) u_end bs) u rem"
    using b assms(4) by (intro parsing_cong[OF p]) (auto simp: nth_mem_write)
  ultimately show ?thesis using assms(1) by (simp add: reading_def)
qed

text \<open>Too little data for another step: the loop makes room if it must and reads more.\<close>

lemma read_loop_refill:
  assumes "reading es s u u_end q sk rem nxt" "acceptable es" "u_end - u < length rem"
    and "guac_parser_append parser (instructionbuf parser) u (int u_end - int u) = (0, q', mem)"
    and "q = q'\<lparr>instructionbuf := mem\<rparr>"
    and "pstate parser \<noteq> GUAC_PARSE_ERROR" "pstate parser \<noteq> GUAC_PARSE_COMPLETE"
  shows "\<exists>s' u' e' q' sk'. parser_read_loop t s u u_end parser sk = parser_read_loop t s' u' e' q' sk'
    \<and> reading es s' u' e' q' sk' rem nxt \<and> length (pending (sdata sk')) < length (pending (sdata sk))"
proof -
  let ?full = "u_end = INSTRUCTIONBUF_SIZE"
  let ?o = "if ?full then s else 0"
  let ?q = "if ?full then parser_shifted s u_end q else q"
  have f: "feeds q u u_end sk (rem @ nxt)" and l: "u - s + length rem \<le> INSTRUCTIONBUF_SIZE"
    and p: "parsing s es q (instructionbuf q) u rem"
    using assms(1) by (simp_all add: reading_def)
  have b: "u \<le> u_end" "u_end \<le> INSTRUCTIONBUF_SIZE" "listening sk"
    "drop (u_end - u) (rem @ nxt) = pending (sdata sk)"
    using f by (simp_all only: feeds_def)
  have su: "s \<le> u" using p by (rule parsing_le)
  have room: "\<not> (?full \<and> s = 0)" using l b(1) assms(3) by auto
  have r: "reading es (s - ?o) (u - ?o) (u_end - ?o) ?q sk rem nxt"
    using reading_shift[OF assms(1,2)] assms(1) by (cases ?full) auto
  have pend: "pending (sdata sk) \<noteq> []" using assms(3) by (simp flip: b(4))
  have "0 < INSTRUCTIONBUF_SIZE - (u_end - ?o)" using room b su by auto
  from select_then_read[OF b(3) pend this, of t] obtain k sk1 bs sk2 where
    io: "guac_socket_select sk t = Some (k, sk1)" "0 < k"
      "guac_socket_read sk1 (INSTRUCTIONBUF_SIZE - (u_end - ?o)) = Some (int (length bs), bs, sk2)"
      "bs \<noteq> []" "length bs \<le> INSTRUCTIONBUF_SIZE - (u_end - ?o)" "listening sk2"
      "pending (sdata sk) = bs @ pending (sdata sk2)"
    by blast
  have "pstate q' \<noteq> GUAC_PARSE_ERROR" "elements_from s q'"
    using parsing_state[OF p] parsing_elements[OF p] assms(5) by simp_all
  then have "parser_read_loop t s u u_end parser sk = parser_read_loop t (s - ?o) (u - ?o)
      (u_end - ?o + length bs)
      (?q\<lparr>instructionbuf := mem_write (instructionbuf ?q) (u_end - ?o) bs\<rparr>) sk2"
    using assms(4-7) io room
    by (subst parser_read_loop.simps, cases ?full) (simp_all add: Let_def parser_shift_back_def)
  moreover have "reading es (s - ?o) (u - ?o) (u_end - ?o + length bs)
      (?q\<lparr>instructionbuf := mem_write (instructionbuf ?q) (u_end - ?o) bs\<rparr>) sk2 rem nxt"
    by (rule reading_more[OF r io(7,6,5)])
  moreover have "length (pending (sdata sk2)) < length (pending (sdata sk))"
    using io(4,7) by simp
  ultimately show ?thesis by blast
qed

lemma read_loop_complete:
  assumes "reading es s u u_end parser sk rem nxt" "acceptable es"
  shows "\<exists>q sk'. parser_read_loop t s u u_end parser sk = Some (0, q, sk')
    \<and> (\<exists>s'. parsed s' es q (instructionbuf q) (unparsed_start q))
    \<and> feeds q (unparsed_start q) (unparsed_end q) sk' nxt"
  using assms(1)
proof (induction "length rem + length (pending (sdata sk))" arbitrary: s u u_end parser sk rem
    rule: less_induct)
  case less
  have p: "parsing s es parser (instructionbuf parser) u rem" and f: "feeds parser u u_end sk (rem @ nxt)"
    and l: "u - s + length rem \<le> INSTRUCTIONBUF_SIZE"
    using less.prems by (simp_all add: reading_def)
  have b: "u \<le> u_end" "window (instructionbuf parser) u (u_end - u) (rem @ nxt)"
    "drop (u_end - u) (rem @ nxt) = pending (sdata sk)"
    using f by (simp_all only: feeds_def)
  note st = parsing_state[OF p]
  obtain m q' mem where a: "guac_parser_append parser (instructionbuf parser) u (int u_end - int u) = (int m, q', mem)"
    and adv: "advanced s es (instructionbuf parser) u (u_end - u) rem m q' mem"
    using append_step[OF p assms(2) b(2)] b(1) by auto
  let ?q = "q'\<lparr>instructionbuf := mem\<rparr>"
  have m: "m \<le> u_end - u" "m \<le> length rem" "length mem = length (instructionbuf parser)"
    "\<forall>i. i < u \<or> u + m \<le> i \<longrightarrow> mem ! i = instructionbuf parser ! i" "m = 0 \<longrightarrow> u_end - u < length rem"
    using adv by (simp_all add: advanced_def)
  have "window mem (u + m) (u_end - u - m) (drop m (rem @ nxt))"
    using m by (intro window_cong[OF window_drop[OF b(2) m(1)]]) auto
  moreover have "drop (u_end - u - m) (drop m (rem @ nxt)) = pending (sdata sk)"
    using b(3) m(1) by (simp only: drop_drop le_add_diff_inverse2)
  ultimately have fq: "feeds ?q (u + m) u_end sk (drop m rem @ nxt)"
    using f m b(1) by (auto simp: feeds_def)
  consider (fin) "parsed s es q' mem (u + m)" "m = length rem" | (more) "parsing s es q' mem (u + m) (drop m rem)"
    using adv by (auto simp: advanced_def)
  then show ?case
  proof cases
    case fin
    then have "0 < m" "pstate ?q = GUAC_PARSE_COMPLETE" using m(5) by (auto simp: parsed_def)
    then have "parser_read_loop t s u u_end parser sk
        = Some (0, ?q\<lparr>unparsed_start := u + m, unparsed_end := u_end\<rparr>, sk)"
      using a st by (subst parser_read_loop.simps) (simp add: parser_read_loop.simps[of _ _ "u + m"])
    moreover have "parsed s es (?q\<lparr>unparsed_start := u + m, unparsed_end := u_end\<rparr>) mem (u + m)"
      using fin(1) by (simp add: parsed_def before_def)
    ultimately show ?thesis using fq fin(2) by (auto simp: feeds_def)
  next
    case more
    have pq: "parsing s es ?q mem (u + m) (drop m rem)" by (rule parsing_cong[OF more]) simp_all
    with fq l m(2) parsing_le[OF p] have r: "reading es s (u + m) u_end ?q sk (drop m rem) nxt"
      by (simp add: reading_def)
    show ?thesis
    proof (cases "m = 0")
      case True
      obtain s' u' e' q2 sk' where "parser_read_loop t s u u_end parser sk = parser_read_loop t s' u' e' q2 sk'"
        "reading es s' u' e' q2 sk' rem nxt" "length (pending (sdata sk')) < length (pending (sdata sk))"
        using read_loop_refill[of es s u u_end ?q sk rem nxt parser q' mem t] r assms(2) True m(5) a st
        by auto
      with less.hyps[of rem sk' s' u' e' q2] show ?thesis by simp
    next
      case False
      then have "parser_read_loop t s u u_end parser sk = parser_read_loop t s (u + m) u_end ?q sk"
        using a st by (subst parser_read_loop.simps) simp
      moreover have "length (drop m rem) < length rem" using False m(2) by simp
      ultimately show ?thesis using less.hyps[of "drop m rem" sk s "u + m" u_end ?q] r by simp
    qed
  qed
qed

text \<open>A parser between two instructions, with \<open>st\<close> still to be read.\<close>

definition awaiting :: "guac_parser \<Rightarrow> 's guac_socket \<Rightarrow> byte list \<Rightarrow> bool" where
  "awaiting parser sk st \<longleftrightarrow> feeds parser (unparsed_start parser) (unparsed_end parser) sk st
     \<and> length (elementv parser) = GUAC_INSTRUCTION_MAX_ELEMENTS
     \<and> (pstate parser = GUAC_PARSE_COMPLETE \<or> parser = guac_parser_reset parser)"

lemma read_complete:
  assumes "awaiting parser sk (encode_instruction es @ nxt)" "acceptable es"
    and "length (encode_instruction es) \<le> INSTRUCTIONBUF_SIZE"
  shows "\<exists>q sk'. guac_parser_read parser sk t = Some (0, q, sk')
    \<and> (\<exists>s'. parsed s' es q (instructionbuf q) (unparsed_start q)) \<and> awaiting q sk' nxt"
proof -
  let ?p = "guac_parser_reset parser"
  let ?u = "unparsed_start parser"
  obtain e later where es: "es = e # later" using assms(2) by (cases es) (auto simp: acceptable_def)
  have f: "feeds parser ?u (unparsed_end parser) sk (encode_instruction es @ nxt)"
    using assms(1) by (simp add: awaiting_def)
  then have "before ?u [] ?p (instructionbuf ?p) ?u"
    using assms(1) by (simp add: before_def awaiting_def guac_parser_reset_def feeds_def window_def)
  moreover have "in_length [] e later ?p ?u (encode_instruction es)"
    unfolding in_length_def es
    by (intro conjI exI[of _ "dec_nat (guac_utf8_strlen e)"])
      (auto simp: guac_parser_reset_def encode_instruction_rest element_def list_all_iff dec_nat_digits
        scan_digits_dec_nat[unfolded scan_digits_def])
  ultimately have "parsing ?u es ?p (instructionbuf ?p) ?u (encode_instruction es)"
    unfolding parsing_def es by - (rule exI[of _ "[]"], rule exI[of _ e], rule exI[of _ later], simp)
  moreover have "feeds ?p ?u (unparsed_end parser) sk (encode_instruction es @ nxt)"
    using f by (simp add: feeds_def guac_parser_reset_def)
  ultimately have "reading es ?u ?u (unparsed_end parser) ?p sk (encode_instruction es) nxt"
    using assms(3) by (simp add: reading_def)
  then obtain q sk' where q: "parser_read_loop t ?u ?u (unparsed_end parser) ?p sk = Some (0, q, sk')"
    "\<exists>s'. parsed s' es q (instructionbuf q) (unparsed_start q)"
    "feeds q (unparsed_start q) (unparsed_end q) sk' nxt"
    using read_loop_complete[OF _ assms(2)] by blast
  moreover have "guac_parser_read parser sk t = parser_read_loop t ?u ?u (unparsed_end parser) ?p sk"
    using assms(1) by (auto simp: guac_parser_read_def awaiting_def)
  ultimately show ?thesis by (auto simp: awaiting_def parsed_def before_def)
qed

end

section \<open>Whole sequences of instructions\<close>

text \<open>The opcode and the arguments of a complete instruction, read as C strings.\<close>

definition parser_elements :: "guac_parser \<Rightarrow> byte list list" where
  "parser_elements parser = map (parser_string parser) (take (elementc parser) (elementv parser))"

lemma parsed_elements:
  assumes "parsed s es q (instructionbuf q) u" "\<forall>e \<in> set es. 0 \<notin> set e" "length es \<le> GUAC_INSTRUCTION_MAX_ELEMENTS"
  shows "parser_elements q = es"
proof (rule nth_equalityI)
  have n: "elementc q = length es" "length (elementv q) = GUAC_INSTRUCTION_MAX_ELEMENTS"
    using assms(1) by (simp_all add: parsed_def before_def)
  then show l: "length (parser_elements q) = length es" using assms(3) by (simp add: parser_elements_def)
  fix i
  assume "i < length (parser_elements q)"
  then have i: "i < length es" using l by simp
  then have "stored (instructionbuf q) (elementv q ! i) (es ! i) u"
    using assms(1) by (simp add: parsed_def before_def)
  moreover have "0 \<notin> set (es ! i)" using assms(2) i by simp
  ultimately show "parser_elements q ! i = es ! i"
    using i n assms(3) by (simp add: parser_elements_def parser_string_def stored_string)
qed

text \<open>Reading \<open>n\<close> instructions one after the other, as a server loop does.\<close>

primrec read_instructions ::
    "nat \<Rightarrow> guac_parser \<Rightarrow> 's guac_socket \<Rightarrow> int \<Rightarrow> (byte list list list \<times> guac_parser \<times> 's guac_socket) option" where
  "read_instructions 0 parser sk t = Some ([], parser, sk)"
| "read_instructions (Suc n) parser sk t =
     Option.bind (guac_parser_read parser sk t) (\<lambda>(r, parser, sk).
       if r \<noteq> 0 then None
       else map_option (\<lambda>(iss, parser', sk'). (parser_elements parser # iss, parser', sk'))
              (read_instructions n parser sk t))"

text \<open>An instruction whose encoding the parser accepts and whose elements are C strings.\<close>

definition sendable :: "byte list list \<Rightarrow> bool" where
  "sendable es \<longleftrightarrow> acceptable es \<and> length (encode_instruction es) \<le> INSTRUCTIONBUF_SIZE
     \<and> (\<forall>e \<in> set es. 0 \<notin> set e)"

lemma ascii_sendable:
  assumes "es \<noteq> []" "length es \<le> 100" "list_all (\<lambda>e. length e \<le> 100 \<and> list_all (\<lambda>c. 0 < c \<and> c < 128) e) es"
  shows "sendable es"
proof -
  have uc: "utf8_complete e" if "list_all (\<lambda>c. 0 < c \<and> c < 128) e" for e
    using that by (induction e) (simp_all add: utf8_complete.simps(2) ascii_charsize)
  have el: "length (element e) \<le> 104" if "e \<in> set es" for e
  proof -
    have e: "length e \<le> 100" "guac_utf8_strlen e = length e"
      using that assms(3) by (auto simp: list_all_iff intro!: guac_utf8_strlen_ascii)
    have "length (dec_nat (length e)) \<le> Suc 2" using e(1) by (intro length_dec_nat) simp
    with e show ?thesis by (simp add: element_def)
  qed
  have "length (encode_elements es) \<le> 105 * length es" if "\<And>e. e \<in> set es \<Longrightarrow> length (element e) \<le> 104" for es
    using that
  proof (induction es rule: encode_elements.induct)
    case (3 e f es)
    then have "length (encode_elements (f # es)) \<le> 105 * length (f # es)" "length (element e) \<le> 104" by auto
    then show ?case by simp
  qed auto
  from this[of es] el have "length (encode_elements es) \<le> 105 * length es" by blast
  then have "length (encode_instruction es) \<le> INSTRUCTIONBUF_SIZE"
    using assms(2) by (simp add: encode_instruction_def)
  moreover have "\<forall>e \<in> set es. utf8_complete e \<and> guac_utf8_strlen e \<le> 100 \<and> 0 \<notin> set e"
    using assms(3) uc by (fastforce simp: list_all_iff guac_utf8_strlen_ascii)
  ultimately show ?thesis using assms(1,2) by (force simp: sendable_def acceptable_def)
qed

context socket_input
begin

lemma read_next:
  assumes "awaiting parser sk (encode_instruction es @ nxt)" "sendable es"
  shows "\<exists>q sk'. guac_parser_read parser sk t = Some (0, q, sk') \<and> parser_elements q = es \<and> awaiting q sk' nxt"
proof -
  have ok: "acceptable es" "length (encode_instruction es) \<le> INSTRUCTIONBUF_SIZE" "\<forall>e \<in> set es. 0 \<notin> set e"
    using assms(2) by (simp_all add: sendable_def)
  from read_complete[OF assms(1) ok(1,2), of t] obtain q sk' s where
    1: "guac_parser_read parser sk t = Some (0, q, sk')" "parsed s es q (instructionbuf q) (unparsed_start q)" "awaiting q sk' nxt"
    by blast
  have "parser_elements q = es" using parsed_elements[OF 1(2) ok(3)] ok(1) by (simp add: acceptable_def)
  with 1(1,3) show ?thesis by blast
qed

lemma read_instructions_all:
  assumes "awaiting parser sk (concat (map encode_instruction iss) @ nxt)" "list_all sendable iss"
  shows "\<exists>q sk'. read_instructions (length iss) parser sk t = Some (iss, q, sk') \<and> awaiting q sk' nxt"
  using assms
proof (induction iss arbitrary: parser sk)
  case (Cons es iss)
  then obtain q1 sk1 where 1: "guac_parser_read parser sk t = Some (0, q1, sk1)" "parser_elements q1 = es"
    "awaiting q1 sk1 (concat (map encode_instruction iss) @ nxt)"
    using read_next[of parser sk es "concat (map encode_instruction iss) @ nxt" t] by auto
  moreover obtain q2 sk2 where "read_instructions (length iss) q1 sk1 t = Some (iss, q2, sk2)" "awaiting q2 sk2 nxt"
    using Cons.IH[OF 1(3)] Cons.prems(2) by auto
  ultimately show ?case by simp
qed simp

end

section \<open>On a file descriptor\<close>

text \<open>A kernel that reports neither errors nor the end of the stream before the data is read.\<close>

definition fd_readable :: "guac_socket_fd_data \<Rightarrow> bool" where
  "fd_readable d \<longleftrightarrow> (\<forall>r \<in> set (read_script d). 0 < r) \<and> (\<forall>r \<in> set (select_script d). 0 < r)"

interpretation fdi: socket_input guac_socket_fd_read_handler guac_socket_fd_select_handler incoming fd_readable
proof
  fix d :: guac_socket_fd_data and count :: nat
  assume r: "fd_readable d" "incoming d \<noteq> []" "0 < count"
  define n where "n = (case read_script d of [] \<Rightarrow> min count (length (incoming d))
    | r # rs \<Rightarrow> min (nat r) (min count (length (incoming d))))"
  have "0 < n" "n \<le> count" "n \<le> length (incoming d)"
    using r by (auto simp: n_def fd_readable_def split: list.splits)
  moreover have "\<exists>d'. guac_socket_fd_read_handler d count = Some (int n, take n (incoming d), d')
      \<and> incoming d' = drop n (incoming d) \<and> fd_readable d'"
    using r by (auto simp: guac_socket_fd_read_handler_def sys_read_def n_def Let_def fd_readable_def
        split: list.splits)
  ultimately show "\<exists>bs d'. guac_socket_fd_read_handler d count = Some (int (length bs), bs, d')
      \<and> bs \<noteq> [] \<and> length bs \<le> count \<and> incoming d = bs @ incoming d' \<and> fd_readable d'"
    using r(2) by (intro exI[of _ "take n (incoming d)"]) auto
next
  fix d :: guac_socket_fd_data and t :: int
  assume "fd_readable d"
  then show "\<exists>r d'. guac_socket_fd_select_handler d t = Some (r, d') \<and> 0 < r \<and> fd_readable d'
      \<and> incoming d' = incoming d"
    by (auto simp: guac_socket_fd_select_handler_def fd_readable_def split: list.splits)
qed

text \<open>A socket input that comes to an end.\<close>

locale socket_file = socket_input +
  assumes read_eof: "live d \<Longrightarrow> pending d = [] \<Longrightarrow> 0 < cnt \<Longrightarrow> \<exists>d'. rh d cnt = Some (0, [], d')"
begin

lemma read_at_end:
  assumes "awaiting parser sk []"
  shows "\<exists>q sk'. guac_parser_read parser sk t = Some (- 1, q, sk')"
proof -
  define u where "u = unparsed_start parser"
  let ?p = "guac_parser_reset parser"
  have f: "listening sk" "unparsed_end parser = u" "u \<le> INSTRUCTIONBUF_SIZE" "pending (sdata sk) = []"
    using assms by (auto simp: awaiting_def feeds_def window_def u_def)
  obtain r d1 where s: "sh (sdata sk) t = Some (r, d1)" "0 < r" "live d1" "pending d1 = []"
    using select_ready[of "sdata sk" t] f by (auto simp: listening_def)
  then have sel: "guac_socket_select sk t = Some (r, sk\<lparr>sdata := d1\<rparr>)"
    using f(1) by (simp add: listening_def guac_socket_select_def)
  have rd: "\<exists>sk2. guac_socket_read (sk\<lparr>sdata := d1\<rparr>) n = Some (0, [], sk2)" if "0 < n" for n
    using read_eof[OF s(3,4) that] f(1) by (auto simp: listening_def guac_socket_read_def)
  have start: "guac_parser_read parser sk t = parser_read_loop t u u u ?p sk"
    using assms f(2) by (auto simp: guac_parser_read_def awaiting_def u_def)
  have ap: "guac_parser_append ?p (instructionbuf ?p) u (int u - int u) =
      (0, ?p\<lparr>element_length := 0\<rparr>, instructionbuf ?p)"
    by (simp add: guac_parser_append_def guac_parser_reset_def)
  have st: "pstate ?p = GUAC_PARSE_LENGTH" "pstate (?p\<lparr>element_length := 0\<rparr>) = GUAC_PARSE_LENGTH"
    by (simp_all add: guac_parser_reset_def)
  show ?thesis
  proof (cases "u = INSTRUCTIONBUF_SIZE")
    case True
    obtain sk2 where "guac_socket_read (sk\<lparr>sdata := d1\<rparr>) INSTRUCTIONBUF_SIZE = Some (0, [], sk2)" using rd[of INSTRUCTIONBUF_SIZE] by auto
    then show ?thesis unfolding start
      by (subst parser_read_loop.simps) (use True ap st sel s(2) in \<open>simp add: Let_def parser_shift_back_def elements_from_def guac_parser_reset_def\<close>)
  next
    case False
    then have "0 < INSTRUCTIONBUF_SIZE - u" using f(3) by simp
    from rd[OF this] obtain sk2 where "guac_socket_read (sk\<lparr>sdata := d1\<rparr>) (INSTRUCTIONBUF_SIZE - u) = Some (0, [], sk2)" by auto
    then show ?thesis unfolding start
      by (subst parser_read_loop.simps) (use False ap st sel s(2) in \<open>simp add: Let_def\<close>)
  qed
qed

end

interpretation fdf: socket_file guac_socket_fd_read_handler guac_socket_fd_select_handler incoming fd_readable
  by unfold_locales
    (auto simp: guac_socket_fd_read_handler_def sys_read_def Let_def fd_readable_def split: list.splits)

lemma fd_open_awaiting:
  assumes "guac_parser_alloc (Some block) = Some parser"
    and "length (instructionbuf block) = INSTRUCTIONBUF_SIZE" "length (elementv block) = GUAC_INSTRUCTION_MAX_ELEMENTS"
    and "fd_readable d"
  shows "fdi.awaiting parser (guac_socket_open f clock g d) (incoming d)"
proof -
  let ?sk = "guac_socket_open f clock g d"
  have "fdi.listening ?sk" "incoming (sdata ?sk) = incoming d"
    using assms(4) by (auto simp: guac_socket_open_def guac_socket_alloc_def fdi.listening_def
        fd_readable_def Let_def)
  then show ?thesis
    using assms(1-3) by (auto simp: fdi.awaiting_def fdi.feeds_def guac_parser_alloc_def guac_parser_reset_def)
qed

section \<open>Arbitrary input\<close>

text \<open>What the loops do on any bytes at all: they stay inside the bytes they were given.\<close>

lemma parse_length_bounds:
  "parse_length_loop mem p n v = (out, v', p') \<Longrightarrow> p \<le> p' \<and> p' \<le> p + n"
  by (induction mem p n v rule: parse_length_loop.induct) (auto simp: Let_def split: if_splits)

lemma parse_content_bounds:
  "parse_content_loop mem p n v = (out, v', p', mem') \<Longrightarrow>
     p \<le> p' \<and> p' \<le> p + n \<and> length mem' = length mem \<and> (\<forall>i. i < p \<or> p + n \<le> i \<longrightarrow> mem' ! i = mem ! i)"
proof (induction mem p n v rule: parse_content_loop.induct)
  case (1 mem p n v)
  let ?k = "guac_utf8_charsize (mem ! p)"
  show ?case
  proof (cases "0 < n \<and> 0 \<le> v \<and> ?k \<le> n")
    case False
    then show ?thesis using 1(2) by (subst (asm) parse_content_loop.simps) (auto simp: Let_def split: if_splits)
  next
    case True
    show ?thesis
    proof (cases "v = 0")
      case True2: True
      then show ?thesis using 1(2) True
        by (subst (asm) parse_content_loop.simps) (auto simp: Let_def nth_list_update split: if_splits)
    next
      case False
      then have run: "parse_content_loop mem (p + ?k) (n - ?k) (v - 1) = (out, v', p', mem')"
        using 1(2) True by (subst (asm) parse_content_loop.simps) (auto simp: Let_def)
      have "p + ?k \<le> p' \<and> p' \<le> p + ?k + (n - ?k) \<and> length mem' = length mem
          \<and> (\<forall>i. i < p + ?k \<or> p + ?k + (n - ?k) \<le> i \<longrightarrow> mem' ! i = mem ! i)"
        using True False by (intro 1(1)[OF _ refl refl _ _ run]) auto
      then show ?thesis using True by auto
    qed
  qed
qed

text \<open>Recorded elements point into the block, or just past its last byte.\<close>

definition elements_within :: "nat \<Rightarrow> guac_parser \<Rightarrow> bool" where
  "elements_within n parser \<longleftrightarrow> length (elementv parser) = GUAC_INSTRUCTION_MAX_ELEMENTS
     \<and> elementc parser \<le> GUAC_INSTRUCTION_MAX_ELEMENTS
     \<and> (\<forall>j < elementc parser. elementv parser ! j \<le> n)"

lemma append_content_bounds:
  assumes "append_content parser mem b p n = (r, q, mem')" "b \<le> p"
  shows "0 \<le> r \<and> r \<le> int (p + n - b) \<and> length mem' = length mem
    \<and> (\<forall>i. i < b \<or> p + n \<le> i \<longrightarrow> mem' ! i = mem ! i)
    \<and> elementv q = elementv parser \<and> elementc q = elementc parser \<and> instructionbuf q = instructionbuf parser"
proof -
  obtain x v p' m where l: "parse_content_loop mem p n (element_length parser) = (x, v, p', m)"
    by (metis prod_cases4)
  show ?thesis
    using assms parse_content_bounds[OF l] l by (cases x) (auto simp: append_content_def)
qed

lemma append_bounds:
  assumes "guac_parser_append parser mem b (int n) = (r, q, mem')" "b + n \<le> length mem"
    and "elements_within (length mem) parser"
  shows "0 \<le> r \<and> r \<le> int n \<and> length mem' = length mem
    \<and> (\<forall>i. i < b \<or> b + n \<le> i \<longrightarrow> mem' ! i = mem ! i)
    \<and> elements_within (length mem) q \<and> instructionbuf q = instructionbuf parser"
proof (cases "elementc parser = GUAC_INSTRUCTION_MAX_ELEMENTS \<and> pstate parser \<noteq> GUAC_PARSE_COMPLETE")
  case True
  then show ?thesis using assms by (auto simp: guac_parser_append_def elements_within_def)
next
  case room: False
  show ?thesis
  proof (cases "pstate parser")
    case GUAC_PARSE_LENGTH
    then have c: "elementc parser < GUAC_INSTRUCTION_MAX_ELEMENTS"
      using room assms(3) by (auto simp: elements_within_def)
    obtain x v p where l: "parse_length_loop mem b n (element_length parser) = (x, v, p)"
      by (metis prod_cases3)
    note pb = parse_length_bounds[OF l]
    let ?p = "parser\<lparr>elementv := (elementv parser)[elementc parser := p],
      elementc := elementc parser + 1, pstate := GUAC_PARSE_CONTENT, element_length := v\<rparr>"
    have ew: "elements_within (length mem) ?p"
      using assms(2,3) c pb by (auto simp: elements_within_def nth_list_update)
    show ?thesis
    proof (cases "x = Length_Period \<and> v \<le> GUAC_INSTRUCTION_MAX_LENGTH")
      case True
      then have "append_content ?p mem b p (n - (p - b)) = (r, q, mem')"
        using assms(1) room GUAC_PARSE_LENGTH l c by (simp add: guac_parser_append_def Let_def)
      from append_content_bounds[OF this] pb ew show ?thesis by (auto simp: elements_within_def)
    next
      case False
      then show ?thesis
        using assms room GUAC_PARSE_LENGTH l c pb ew
        by (cases x) (auto simp: guac_parser_append_def Let_def elements_within_def split: if_splits)
    qed
  next
    case GUAC_PARSE_CONTENT
    then have "append_content parser mem b b n = (r, q, mem')"
      using assms(1) room by (simp add: guac_parser_append_def)
    from append_content_bounds[OF this] assms(3) show ?thesis by (auto simp: elements_within_def)
  qed (use assms room in \<open>auto simp: guac_parser_append_def\<close>)
qed

text \<open>Elements are recorded at or behind the bytes that are parsed.\<close>

lemma append_elements_from:
  assumes "guac_parser_append parser mem b n = (r, q, mem')" "elements_from s parser" "s \<le> b"
    and "elementc parser \<le> length (elementv parser)"
  shows "elements_from s q"
proof -
  have kept: "elementv q = elementv parser \<and> elementc q = elementc parser"
    if "append_content parser mem b' p m = (r, q, mem')" for parser b' p m
    using that by (auto simp: append_content_def split: prod.splits content_outcome.splits)
  show ?thesis
  proof (cases "pstate parser = GUAC_PARSE_LENGTH \<and> elementc parser \<noteq> GUAC_INSTRUCTION_MAX_ELEMENTS")
    case True
    obtain x v p where l: "parse_length_loop mem b (nat n) (element_length parser) = (x, v, p)"
      by (metis prod_cases3)
    have "s \<le> p" using parse_length_bounds[OF l] assms(3) by simp
    then have "elements_from s (parser\<lparr>elementv := (elementv parser)[elementc parser := p],
        elementc := elementc parser + 1\<rparr>)"
      using assms(2,4)
      by (cases "elementc parser < length (elementv parser)")
        (auto simp: elements_from_def take_Suc_conv_app_nth list_all_iff list_update_beyond)
    then show ?thesis
      using assms(1,2) True l
      by (auto simp: guac_parser_append_def Let_def elements_from_def split: length_outcome.splits if_splits
          dest!: kept)
  next
    case False
    then show ?thesis
      using assms(1,2) by (auto simp: guac_parser_append_def elements_from_def split: if_splits dest!: kept)
  qed
qed

text \<open>The state between two rounds of the read loop, on any data.\<close>

definition parser_bounds :: "nat \<Rightarrow> nat \<Rightarrow> nat \<Rightarrow> guac_parser \<Rightarrow> bool" where
  "parser_bounds s u u_end parser \<longleftrightarrow> s \<le> u \<and> u \<le> u_end \<and> u_end \<le> INSTRUCTIONBUF_SIZE
     \<and> length (instructionbuf parser) = INSTRUCTIONBUF_SIZE \<and> elements_within INSTRUCTIONBUF_SIZE parser
     \<and> elements_from s parser"

lemma bounds_append:
  assumes "parser_bounds s u u_end parser"
    and "guac_parser_append parser (instructionbuf parser) u (int u_end - int u) = (r, q, mem)"
  shows "0 \<le> r \<and> r \<le> int (u_end - u) \<and> parser_bounds s (u + nat r) u_end (q\<lparr>instructionbuf := mem\<rparr>)"
proof -
  have b: "s \<le> u" "u \<le> u_end" "u_end \<le> INSTRUCTIONBUF_SIZE"
    "length (instructionbuf parser) = INSTRUCTIONBUF_SIZE" "elements_within INSTRUCTIONBUF_SIZE parser"
    using assms(1) by (simp_all add: parser_bounds_def)
  have "int u_end - int u = int (u_end - u)" using b(2) by simp
  then have "guac_parser_append parser (instructionbuf parser) u (int (u_end - u)) = (r, q, mem)"
    using assms(2) by (simp only:)
  from append_bounds[OF this] b have a: "0 \<le> r" "r \<le> int (u_end - u)"
    "length mem = INSTRUCTIONBUF_SIZE" "elements_within INSTRUCTIONBUF_SIZE q"
    by simp_all
  moreover have "u + nat r \<le> u_end" using a(1,2) b(2) by linarith
  moreover have "elements_within INSTRUCTIONBUF_SIZE (q\<lparr>instructionbuf := mem\<rparr>)"
    using a(4) by (simp add: elements_within_def)
  moreover have "elements_from s q"
    using assms(1) by (intro append_elements_from[OF assms(2)]) (auto simp: parser_bounds_def elements_within_def)
  ultimately show ?thesis using b(1,3) by (simp add: parser_bounds_def)
qed

lemma bounds_shift:
  assumes "parser_bounds s u u_end parser"
  shows "parser_bounds 0 (u - s) (u_end - s) (parser_shifted s u_end parser)"
proof -
  have "elementv (parser_shifted s u_end parser) ! j \<le> INSTRUCTIONBUF_SIZE" if "j < elementc parser" for j
  proof -
    have "elementv (parser_shifted s u_end parser) ! j = elementv parser ! j - s"
      using shift_back_elementv[OF that] assms by (simp add: parser_bounds_def elements_within_def)
    moreover have "elementv parser ! j \<le> INSTRUCTIONBUF_SIZE"
      using that assms by (simp add: parser_bounds_def elements_within_def)
    ultimately show ?thesis by simp
  qed
  then show ?thesis
    using assms shift_back_length[of parser u_end s] by (auto simp: parser_bounds_def elements_within_def)
qed

lemma bounds_fill:
  "parser_bounds s u u_end parser \<Longrightarrow> length bs \<le> INSTRUCTIONBUF_SIZE - u_end \<Longrightarrow>
   parser_bounds s u (u_end + length bs) (parser\<lparr>instructionbuf := mem_write (instructionbuf parser) u_end bs\<rparr>)"
  by (auto simp: parser_bounds_def elements_within_def)

definition fd_wired :: "guac_socket_fd_data guac_socket \<Rightarrow> bool" where
  "fd_wired sk \<longleftrightarrow> read_handler sk = Some guac_socket_fd_read_handler
     \<and> select_handler sk = Some guac_socket_fd_select_handler"

lemma fd_select_any:
  "fd_wired sk \<Longrightarrow> \<exists>r sk'. guac_socket_select sk t = Some (r, sk') \<and> fd_wired sk'
     \<and> incoming (sdata sk') = incoming (sdata sk)"
  by (auto simp: fd_wired_def guac_socket_select_def guac_socket_fd_select_handler_def split: list.splits)

lemma fd_read_any:
  assumes "fd_wired sk"
  shows "\<exists>r bs sk'. guac_socket_read sk n = Some (r, bs, sk') \<and> fd_wired sk'
    \<and> (0 < r \<longrightarrow> r = int (length bs) \<and> length bs \<le> n \<and> incoming (sdata sk) = bs @ incoming (sdata sk'))"
  using assms
  by (auto simp: fd_wired_def guac_socket_read_def guac_socket_fd_read_handler_def sys_read_def Let_def
      split: list.splits)

text \<open>
  Every round consumes bytes of the buffer or of the descriptor, or is the last. In a round of the
  second kind bytes move from the descriptor to the buffer, so they count twice while they are in
  the descriptor.
\<close>

lemma read_loop_terminates:
  assumes "parser_bounds s u u_end parser" "fd_wired sk"
  shows "\<exists>r q sk'. parser_read_loop t s u u_end parser sk = Some (r, q, sk')
    \<and> (r = 0 \<and> pstate q = GUAC_PARSE_COMPLETE \<and> parser_bounds 0 (unparsed_start q) (unparsed_end q) q
       \<or> r = - 1)"
  using assms
proof (induction "2 * length (incoming (sdata sk)) + (u_end - u)" arbitrary: s u u_end parser sk
    rule: less_induct)
  case less
  show ?case
  proof (cases "pstate parser = GUAC_PARSE_ERROR \<or> pstate parser = GUAC_PARSE_COMPLETE")
    case True
    then show ?thesis
      using less.prems(1)
      by (subst parser_read_loop.simps) (auto simp: parser_bounds_def elements_within_def)
  next
    case go: False
    obtain r q mem where a: "guac_parser_append parser (instructionbuf parser) u (int u_end - int u) = (r, q, mem)"
      by (metis prod_cases3)
    note b = bounds_append[OF less.prems(1) a]
    let ?q = "q\<lparr>instructionbuf := mem\<rparr>"
    consider (err) "r = 0" "pstate q = GUAC_PARSE_ERROR" | (step) "0 < r" | (fill) "r = 0" "pstate q \<noteq> GUAC_PARSE_ERROR"
      using b by fastforce
    then show ?thesis
    proof cases
      case err
      then show ?thesis using a go
        by (subst parser_read_loop.simps) (simp add: parser_read_loop.simps[of _ _ _ _ ?q])
    next
      case step
      then have "parser_read_loop t s u u_end parser sk = parser_read_loop t s (u + nat r) u_end ?q sk"
        using a go by (subst parser_read_loop.simps) simp
      moreover have "u_end - (u + nat r) < u_end - u" using step b by linarith
      ultimately show ?thesis using less.hyps[of sk u_end "u + nat r" s ?q] b less.prems(2) by simp
    next
      case fill
      let ?full = "u_end = INSTRUCTIONBUF_SIZE"
      let ?o = "if ?full then s else 0"
      let ?p = "if ?full then parser_shifted s u_end ?q else ?q"
      have ef: "elements_from s q" using b by (simp add: parser_bounds_def)
      have pb: "parser_bounds (s - ?o) (u - ?o) (u_end - ?o) ?p"
        using bounds_shift[of s u u_end ?q] b fill by auto
      obtain k sk1 where s1: "guac_socket_select sk t = Some (k, sk1)" "fd_wired sk1"
        "incoming (sdata sk1) = incoming (sdata sk)"
        using fd_select_any[OF less.prems(2)] by blast
      obtain r2 bs sk2 where s2: "guac_socket_read sk1 (INSTRUCTIONBUF_SIZE - (u_end - ?o)) = Some (r2, bs, sk2)"
        "fd_wired sk2" "0 < r2 \<longrightarrow> r2 = int (length bs) \<and> length bs \<le> INSTRUCTIONBUF_SIZE - (u_end - ?o)
          \<and> incoming (sdata sk1) = bs @ incoming (sdata sk2)"
        using fd_read_any[OF s1(2)] by blast
      let ?p2 = "?p\<lparr>instructionbuf := mem_write (instructionbuf ?p) (u_end - ?o) bs\<rparr>"
      show ?thesis
      proof (cases "\<not> (?full \<and> s = 0) \<and> 0 < k \<and> 0 < r2")
        case True
        then have "parser_read_loop t s u u_end parser sk
            = parser_read_loop t (s - ?o) (u - ?o) (u_end - ?o + length bs) ?p2 sk2"
          using a go fill s1 s2 ef
          by (subst parser_read_loop.simps, cases ?full) (simp_all add: Let_def parser_shift_back_def)
        moreover have fb: "parser_bounds (s - ?o) (u - ?o) (u_end - ?o + length bs) ?p2"
          using True s2(3) by (intro bounds_fill[OF pb]) blast
        moreover have lt: "2 * length (incoming (sdata sk2)) + (u_end - ?o + length bs - (u - ?o))
            < 2 * length (incoming (sdata sk)) + (u_end - u)"
        proof -
          have "incoming (sdata sk) = bs @ incoming (sdata sk2)" "0 < length bs"
            using True s1(3) s2(3) by auto
          then have "length (incoming (sdata sk)) = length bs + length (incoming (sdata sk2))" "0 < length bs"
            by simp_all
          moreover have "?o \<le> u" "u \<le> u_end" using less.prems(1) by (simp_all add: parser_bounds_def)
          ultimately show ?thesis by linarith
        qed
        ultimately show ?thesis using less.hyps[OF lt fb s2(2)] by simp
      next
        case False
        then show ?thesis
          using a go fill s1 s2(1) ef
          by (subst parser_read_loop.simps, cases ?full) (auto simp: Let_def parser_shift_back_def)
      qed
    qed
  qed
qed

text \<open>The accumulated length is the decimal number modulo \<open>2 ^ 32\<close>, read as a signed number.\<close>

lemma s32_mod: "s32 x mod 4294967296 = x mod 4294967296"
proof -
  have "((x + 2147483648) mod 4294967296 - 2147483648) mod 4294967296 = (x + 2147483648 - 2147483648) mod 4294967296"
    by (rule mod_diff_left_eq)
  then show ?thesis by (simp add: s32_def)
qed

lemma s32_eqI: "x mod 4294967296 = y mod 4294967296 \<Longrightarrow> s32 x = s32 y"
  unfolding s32_def using mod_add_cong[of x 4294967296 y 2147483648 2147483648] by simp

lemma s32_fold: "s32 (s32 (s32 v * 10) + d) = s32 (v * 10 + d)"
proof (rule s32_eqI)
  have "s32 (s32 v * 10) mod 4294967296 = (v * 10) mod 4294967296"
    unfolding s32_mod by (rule mod_mult_cong[OF s32_mod refl])
  then show "(s32 (s32 v * 10) + d) mod 4294967296 = (v * 10 + d) mod 4294967296"
    by (rule mod_add_cong[OF _ refl])
qed

lemma parse_length_any:
  assumes "list_all is_digit ds" "\<not> is_digit c" "window mem p n (ds @ c # r)" "length ds < n"
  shows "parse_length_loop mem p n (s32 v) =
    (if c = 46 then Length_Period else Length_Invalid, s32 (digits_val v ds), p + length ds + 1)"
  using assms
proof (induction ds arbitrary: v p n)
  case Nil
  then show ?case by (cases n) (auto simp: window_Suc)
next
  case (Cons d ds)
  then obtain m where n: "n = Suc m" by (cases n) auto
  have "parse_length_loop mem (p + 1) m (s32 (v * 10 + digit_val d)) =
      (if c = 46 then Length_Period else Length_Invalid, s32 (digits_val (v * 10 + digit_val d) ds),
       p + 1 + length ds + 1)"
    using Cons.prems n by (intro Cons.IH) (auto simp: window_Suc)
  with Cons.prems n show ?case by (simp add: window_Suc s32_fold)
qed

lemma window_take: "window mem p n s \<Longrightarrow> take n (drop p mem) = take n s"
  by (rule nth_equalityI) (auto simp: window_def)

section \<open>Properties\<close>

text \<open>
  C2. The parser reads what was encoded, however the bytes arrive: if a file descriptor delivers
  the encodings of any sequence of instructions (fewer than 128 elements each, every element valid
  UTF-8 of at most 8192 characters without null bytes, at most 32768 bytes per instruction)
  followed by anything else, in pieces of any sizes, then reading as many instructions as were
  sent, with a newly allocated parser, returns exactly their elements. What follows is still
  available: in the parser's buffer and then on the descriptor.
\<close>

theorem parser_reads_stream:
  assumes "guac_parser_alloc (Some block) = Some parser"
    and "length (instructionbuf block) = INSTRUCTIONBUF_SIZE" "length (elementv block) = GUAC_INSTRUCTION_MAX_ELEMENTS"
    and "fd_readable d" "incoming d = concat (map encode_instruction iss) @ nxt" "list_all sendable iss"
  shows "\<exists>q sk'. read_instructions (length iss) parser (guac_socket_open f clock g d) t = Some (iss, q, sk')
    \<and> take (nat (guac_parser_length q)) (drop (unparsed_start q) (instructionbuf q)) @ incoming (sdata sk') = nxt"
proof -
  let ?sk = "guac_socket_open f clock g d"
  have "fdi.awaiting parser ?sk (concat (map encode_instruction iss) @ nxt)"
    using fd_open_awaiting[OF assms(1-4)] assms(5) by simp
  from fdi.read_instructions_all[OF this assms(6), of t] obtain q sk' where
    q: "read_instructions (length iss) parser ?sk t = Some (iss, q, sk')" "fdi.awaiting q sk' nxt"
    by blast
  let ?n = "unparsed_end q - unparsed_start q"
  have w: "window (instructionbuf q) (unparsed_start q) ?n nxt" "drop ?n nxt = incoming (sdata sk')"
    "nat (guac_parser_length q) = ?n"
    using q(2) by (auto simp: fdi.awaiting_def fdi.feeds_def guac_parser_length_def)
  have "take (nat (guac_parser_length q)) (drop (unparsed_start q) (instructionbuf q)) @ incoming (sdata sk') = nxt"
    unfolding w(3) window_take[OF w(1)] w(2)[symmetric] by (rule append_take_drop_id)
  with q(1) show ?thesis by blast
qed

theorem parser_reads_stream_witness:
  "\<exists>q sk'. read_instructions 1
       (guac_parser_reset \<lparr>pstate = GUAC_PARSE_ERROR, opcode = None, argc = 7, elementc = 3,
         elementv = replicate 128 0, element_length = 5, unparsed_start = 0, unparsed_end = 0,
         instructionbuf = replicate 32768 0\<rparr>)
       (guac_socket_open 5 0 [0, 0, 0] \<lparr>fd = 0, written = 0, out_buf = [],
         socket_lock = False, buffer_lock = False, wire = [], write_script = [],
         incoming = encode_instruction [[97, 98], []] @ [51], read_script = [1, 2], select_script = [],
         fd_open = True\<rparr>) 1000 = Some ([[[97, 98], []]], q, sk')
    \<and> take (nat (guac_parser_length q)) (drop (unparsed_start q) (instructionbuf q)) @ incoming (sdata sk') = [51]"
proof -
  let ?b = "\<lparr>pstate = GUAC_PARSE_ERROR, opcode = None, argc = 7, elementc = 3,
    elementv = replicate 128 0, element_length = 5, unparsed_start = 0, unparsed_end = 0,
    instructionbuf = replicate 32768 0\<rparr>"
  let ?d = "\<lparr>fd = 0, written = 0, out_buf = [], socket_lock = False, buffer_lock = False, wire = [],
    write_script = [], incoming = encode_instruction [[97, 98], []] @ [51], read_script = [1, 2],
    select_script = [], fd_open = True\<rparr>"
  have "utf8_complete [97, 98]" by (simp add: utf8_complete.simps(2) ascii_charsize)
  then have "list_all sendable [[[97, 98], []]]"
    by (simp add: sendable_def acceptable_def encode_instruction_def element_def guac_utf8_strlen_step
        ascii_charsize dec_nat.simps)
  then show ?thesis
    using parser_reads_stream[of ?b "guac_parser_reset ?b" ?d "[[[97, 98], []]]" "[51]" 5 0 "[0, 0, 0]" 1000]
    by (simp add: guac_parser_alloc_def fd_readable_def)
qed

text \<open>
  C3. Parsing is safe on arbitrary bytes: one call of \<open>guac_parser_append\<close> on any \<open>n\<close> bytes of a
  block returns a number of bytes between 0 and \<open>n\<close>, changes no byte outside those it was given,
  and every element it has recorded points into the block; at most 128 elements are recorded.
\<close>

theorem parser_append_in_bounds:
  assumes "b + n \<le> length mem" "elements_within (length mem) parser"
  shows "case guac_parser_append parser mem b (int n) of (r, q, mem') \<Rightarrow>
    0 \<le> r \<and> r \<le> int n \<and> length mem' = length mem
    \<and> (\<forall>i. i < b \<or> b + n \<le> i \<longrightarrow> mem' ! i = mem ! i)
    \<and> elements_within (length mem) q"
proof -
  obtain r q mem' where a: "guac_parser_append parser mem b (int n) = (r, q, mem')"
    by (metis prod_cases3)
  with append_bounds[OF a assms] show ?thesis by simp
qed

theorem parser_append_in_bounds_witness:
  "elements_within 3 (guac_parser_reset \<lparr>pstate = GUAC_PARSE_ERROR, opcode = None, argc = 0,
     elementc = 0, elementv = replicate 128 0, element_length = 0, unparsed_start = 0,
     unparsed_end = 0, instructionbuf = []\<rparr>)
   \<and> (case guac_parser_append (guac_parser_reset \<lparr>pstate = GUAC_PARSE_ERROR, opcode = None, argc = 0,
     elementc = 0, elementv = replicate 128 0, element_length = 0, unparsed_start = 0,
     unparsed_end = 0, instructionbuf = []\<rparr>) [49, 46, 33] 0 3 of (r, q, mem') \<Rightarrow> 0 \<le> r \<and> r \<le> 3)"
proof -
  let ?p = "guac_parser_reset \<lparr>pstate = GUAC_PARSE_ERROR, opcode = None, argc = 0,
     elementc = 0, elementv = replicate 128 0, element_length = 0, unparsed_start = 0,
     unparsed_end = 0, instructionbuf = []\<rparr>"
  have ew: "elements_within n ?p" for n by (simp add: elements_within_def guac_parser_reset_def)
  show ?thesis
    using parser_append_in_bounds[OF _ ew, of 0 3 "[49, 46, 33]"] ew by (auto split: prod.splits)
qed

text \<open>
  C4. \<open>guac_parser_read\<close> always returns, on any descriptor, when it is called on a new parser or after a call
  that succeeded: whatever bytes the descriptor delivers, in whatever pieces, with errors or an early end at
  any point, the loop ends, with a complete instruction or with \<open>- 1\<close>, and no element is ever moved out of
  the buffer; on success the unread bytes are a region of the buffer again, ready for the next call.
\<close>

theorem parser_read_returns:
  assumes "parser_bounds 0 (unparsed_start parser) (unparsed_end parser) parser" "fd_wired sk"
    and "pstate parser = GUAC_PARSE_COMPLETE \<or> elementc parser = 0"
  shows "\<exists>r q sk'. guac_parser_read parser sk t = Some (r, q, sk')
    \<and> (r = 0 \<and> pstate q = GUAC_PARSE_COMPLETE \<and> parser_bounds 0 (unparsed_start q) (unparsed_end q) q
       \<or> r = - 1)"
proof -
  let ?p = "if pstate parser = GUAC_PARSE_COMPLETE then guac_parser_reset parser else parser"
  have "parser_bounds (unparsed_start parser) (unparsed_start parser) (unparsed_end parser) ?p"
    using assms(1,3) by (auto simp: parser_bounds_def elements_within_def guac_parser_reset_def elements_from_def)
  from read_loop_terminates[OF this assms(2)] show ?thesis by (simp add: guac_parser_read_def)
qed

theorem parser_read_returns_witness:
  "\<exists>r q sk'. guac_parser_read \<lparr>pstate = GUAC_PARSE_LENGTH, opcode = None, argc = 0,
     elementc = 0, elementv = replicate 128 0, element_length = 0, unparsed_start = 0,
     unparsed_end = 0, instructionbuf = replicate 32768 0\<rparr>
       (guac_socket_open 5 0 [0, 0, 0] \<lparr>fd = 0, written = 0, out_buf = [],
         socket_lock = False, buffer_lock = False, wire = [], write_script = [], incoming = [49, 49],
         read_script = [1, - 1], select_script = [], fd_open = True\<rparr>) 1000 = Some (r, q, sk')
    \<and> (r = 0 \<or> r = - 1)"
  using parser_read_returns[of "\<lparr>pstate = GUAC_PARSE_LENGTH, opcode = None, argc = 0,
     elementc = 0, elementv = replicate 128 0, element_length = 0, unparsed_start = 0,
     unparsed_end = 0, instructionbuf = replicate 32768 0\<rparr>"
     "guac_socket_open 5 0 [0, 0, 0] \<lparr>fd = 0, written = 0, out_buf = [],
         socket_lock = False, buffer_lock = False, wire = [], write_script = [], incoming = [49, 49],
         read_script = [1, - 1], select_script = [], fd_open = True\<rparr>" 1000]
  by (auto simp: parser_bounds_def elements_within_def fd_wired_def guac_socket_open_def
      guac_socket_alloc_def Let_def)

text \<open>
  The length prefix of an element is read modulo \<open>2 ^ 32\<close>. For any run of digits denoting
  \<open>N\<close>, the parser goes on with the element exactly as if its length were \<open>N\<close> reduced to a signed 32-bit
  number, and refuses it exactly when that reduced number exceeds 8192 or the run is not ended by a
  dot. So every length from 8193 to \<open>2 ^ 31 - 1\<close> is refused, but the prefix 4294967297 is taken for 1.
\<close>

theorem parser_length_prefix:
  assumes "pstate parser = GUAC_PARSE_LENGTH" "element_length parser = 0"
    and "elementc parser < GUAC_INSTRUCTION_MAX_ELEMENTS"
    and "list_all is_digit ds" "\<not> is_digit c" "window mem u n (ds @ c # r)" "length ds < n"
  shows "guac_parser_append parser mem u (int n) =
    (if c \<noteq> 46 then (0, parser\<lparr>pstate := GUAC_PARSE_ERROR\<rparr>, mem)
     else
       (let parser = parser\<lparr>elementv := (elementv parser)[elementc parser := u + length ds + 1],
                            elementc := elementc parser + 1, pstate := GUAC_PARSE_CONTENT\<rparr> in
        if s32 (scan_digits ds) > GUAC_INSTRUCTION_MAX_LENGTH
        then (0, parser\<lparr>pstate := GUAC_PARSE_ERROR\<rparr>, mem)
        else append_content (parser\<lparr>element_length := s32 (scan_digits ds)\<rparr>) mem u
               (u + length ds + 1) (n - (length ds + 1))))"
proof -
  have "parse_length_loop mem u n 0 =
      (if c = 46 then Length_Period else Length_Invalid, s32 (scan_digits ds), u + length ds + 1)"
    using parse_length_any[OF assms(4-7), of 0] by (simp add: scan_digits_def)
  then show ?thesis using assms(1-3) by (simp add: guac_parser_append_def Let_def)
qed

theorem parser_length_prefix_witness:
  "guac_parser_append (guac_parser_reset \<lparr>pstate = GUAC_PARSE_ERROR, opcode = None, argc = 0,
     elementc = 0, elementv = replicate 128 0, element_length = 0, unparsed_start = 0,
     unparsed_end = 0, instructionbuf = []\<rparr>) (cstr ''4294967297.x;'') 0 13
   = (13, \<lparr>pstate = GUAC_PARSE_COMPLETE, opcode = Some 11, argc = 0, elementc = 1,
      elementv = (replicate 128 0)[0 := 11], element_length = 0, unparsed_start = 0,
      unparsed_end = 0, instructionbuf = []\<rparr>, cstr ''4294967297.x'' @ [0])"
proof -
  let ?p = "guac_parser_reset \<lparr>pstate = GUAC_PARSE_ERROR, opcode = None, argc = 0,
     elementc = 0, elementv = replicate 128 0, element_length = 0, unparsed_start = 0,
     unparsed_end = 0, instructionbuf = []\<rparr>"
  let ?m = "cstr ''4294967297.x;''"
  have n: "s32 (scan_digits (cstr ''4294967297'')) = 1"
    by (simp add: scan_digits_def digit_val_def s32_def)
  have d: "list_all is_digit (cstr ''4294967297'')" "\<not> is_digit (46 :: byte)"
    by (simp_all add: is_digit_def)
  have l: "length (cstr ''4294967297'') = 10" by simp
  have w: "window ?m 0 13 (cstr ''4294967297'' @ 46 # cstr ''x;'')"
    by (simp add: window_def)
  have c: "parse_content_loop ?m 11 2 1 = (Content_Semicolon, 0, 13, cstr ''4294967297.x'' @ [0])"
    by (subst parse_content_loop.simps, subst parse_content_loop.simps)
      (simp add: ascii_charsize Let_def)
  have p: "pstate ?p = GUAC_PARSE_LENGTH" "element_length ?p = 0" "elementc ?p = 0"
    by (simp_all add: guac_parser_reset_def)
  have "guac_parser_append ?p ?m 0 (int 13) = append_content (?p\<lparr>elementv := (elementv ?p)[0 := 11],
      elementc := 1, pstate := GUAC_PARSE_CONTENT, element_length := 1\<rparr>) ?m 0 11 2"
    using parser_length_prefix[OF p(1,2) _ d w] by (simp add: p n l Let_def del: cstr_simps)
  also have "\<dots> = (13, \<lparr>pstate = GUAC_PARSE_COMPLETE, opcode = Some 11, argc = 0, elementc = 1,
      elementv = (replicate 128 0)[0 := 11], element_length = 0, unparsed_start = 0,
      unparsed_end = 0, instructionbuf = []\<rparr>, cstr ''4294967297.x'' @ [0])"
    by (simp add: append_content_def c guac_parser_reset_def del: cstr_simps)
  finally show ?thesis by simp
qed

text \<open>
  Bytes that were read but not parsed can be taken out: \<open>guac_parser_shift\<close> into a buffer of
  \<open>len\<close> bytes hands out exactly the next bytes, as many as there are or fit, in order and without
  losing any, and what is left is available to the next call.
\<close>

theorem parser_shift_drains:
  assumes "parser_bounds 0 (unparsed_start parser) (unparsed_end parser) parser" "0 \<le> len"
  shows "case guac_parser_shift parser len of (n, out, q) \<Rightarrow>
    n = min len (guac_parser_length parser) \<and> int (length out) = n
    \<and> out @ take (nat (guac_parser_length q)) (drop (unparsed_start q) (instructionbuf q))
      = take (nat (guac_parser_length parser)) (drop (unparsed_start parser) (instructionbuf parser))
    \<and> parser_bounds 0 (unparsed_start q) (unparsed_end q) q"
proof -
  let ?u = "unparsed_start parser" and ?e = "unparsed_end parser" and ?b = "instructionbuf parser"
  define n where "n = min (nat len) (?e - ?u)"
  have b: "?u \<le> ?e" "?e \<le> length ?b" using assms(1) by (simp_all add: parser_bounds_def)
  have n: "n \<le> ?e - ?u" "int n = min len (guac_parser_length parser)"
    using assms(2) b by (auto simp: n_def guac_parser_length_def)
  have s: "guac_parser_shift parser len = (int n, take n (drop ?u ?b), parser\<lparr>unparsed_start := ?u + n\<rparr>)"
  proof (cases "int ?e - int ?u > len")
    case True
    then have "int n = len" "nat len = n" using assms(2) by (auto simp: n_def)
    then show ?thesis using True by (auto simp: guac_parser_shift_def Let_def nat_add_distrib)
  next
    case False
    then have "n = ?e - ?u" by (auto simp: n_def)
    moreover have "nat (int ?e - int ?u) = ?e - ?u" by simp
    ultimately show ?thesis using False b(1) by (auto simp: guac_parser_shift_def Let_def)
  qed
  have "n + (?e - (?u + n)) = ?e - ?u" using n(1) by simp
  then have "take n (drop ?u ?b) @ take (?e - (?u + n)) (drop (?u + n) ?b) = take (?e - ?u) (drop ?u ?b)"
    using take_add[of n "?e - (?u + n)" "drop ?u ?b"] by (simp only: drop_drop add.commute)
  moreover have "nat (guac_parser_length parser) = ?e - ?u"
    "nat (guac_parser_length (parser\<lparr>unparsed_start := ?u + n\<rparr>)) = ?e - (?u + n)"
    by (auto simp: guac_parser_length_def)
  moreover have "parser_bounds 0 (?u + n) ?e (parser\<lparr>unparsed_start := ?u + n\<rparr>)"
    using assms(1) n(1) by (auto simp: parser_bounds_def elements_within_def)
  moreover have "length (take n (drop ?u ?b)) = n" using n(1) b(2) by simp
  ultimately show ?thesis using s n(2) by simp
qed

theorem parser_shift_drains_witness:
  "parser_bounds 0 2 5 \<lparr>pstate = GUAC_PARSE_COMPLETE, opcode = None, argc = 0,
     elementc = 0, elementv = replicate 128 0, element_length = 0, unparsed_start = 2,
     unparsed_end = 5, instructionbuf = replicate 32768 7\<rparr>
   \<and> (case guac_parser_shift \<lparr>pstate = GUAC_PARSE_COMPLETE, opcode = None, argc = 0,
     elementc = 0, elementv = replicate 128 0, element_length = 0, unparsed_start = 2,
     unparsed_end = 5, instructionbuf = replicate 32768 7\<rparr> 2 of (n, out, q) \<Rightarrow> n = 2 \<and> length out = 2)"
proof -
  let ?p = "\<lparr>pstate = GUAC_PARSE_COMPLETE, opcode = None, argc = 0,
     elementc = 0, elementv = replicate 128 0, element_length = 0, unparsed_start = 2,
     unparsed_end = 5, instructionbuf = replicate 32768 7\<rparr>"
  have "parser_bounds 0 2 5 ?p" by (simp add: parser_bounds_def elements_within_def)
  with parser_shift_drains[of ?p 2] show ?thesis
    by (auto simp: guac_parser_length_def split: prod.splits)
qed

end
