(* ===== verification/Guac_Base64.thy ===== *)
theory Guac_Base64
  imports Guac_Socket Guac_Unicode
begin

text \<open>
  The base64 decoder applied to received blobs (\<open>src/libguac/protocol.c\<close>), and its agreement with
  the encoder of the socket: the bit operations of both are reduced to arithmetic on the 6-bit
  indices of the alphabet.
\<close>

section \<open>Definitions\<close>

definition base64_value :: "byte \<Rightarrow> int" where
  "base64_value c =
     (if 65 \<le> c \<and> c \<le> 90 then uint c - 65
      else if 97 \<le> c \<and> c \<le> 122 then uint c - 97 + 26
      else if 48 \<le> c \<and> c \<le> 57 then uint c - 48 + 52
      else if c = 43 then 62
      else if c = 47 then 63
      else 0)"

text \<open>
  The loop of \<open>guac_protocol_decode_base64\<close>. The output pointer never passes the input pointer,
  so the bytes written are the result list and the rest of the buffer is still the input. \<open>val\<close>
  is a 32-bit \<open>int\<close> whose upper bits are shifted out.
\<close>

fun decode_base64_loop :: "byte list \<Rightarrow> int \<Rightarrow> int \<Rightarrow> byte list" where
  "decode_base64_loop [] bits_read val = []"
| "decode_base64_loop (current # input) bits_read val =
     (if current = 0 \<or> current = 61 then []
      else
        (let val = s32 (push_bit 6 val) OR base64_value current;
             bits_read = bits_read + 6
         in if bits_read \<ge> 8
            then word_of_int (drop_bit (nat (bits_read mod 8)) val AND 0xFF)
                 # decode_base64_loop input (bits_read - 8) val
            else decode_base64_loop input bits_read val))"

text \<open>The decoded bytes; the C function returns their number and leaves them at the start of the buffer.\<close>

definition guac_protocol_decode_base64 :: "byte list \<Rightarrow> int \<times> byte list" where
  "guac_protocol_decode_base64 base64 =
     (let out = decode_base64_loop base64 0 0 in (int (length out), mem_write base64 0 out))"

section \<open>The alphabet\<close>

abbreviation b64 :: "int \<Rightarrow> byte" where
  "b64 i \<equiv> BASE64_CHARACTERS ! nat i"

lemma base64_alphabet:
  "map base64_value BASE64_CHARACTERS = map int [0..<64]"
  "list_all (\<lambda>c. c < 128 \<and> c \<noteq> 0 \<and> c \<noteq> 61) BASE64_CHARACTERS"
  by (simp_all add: BASE64_CHARACTERS_def base64_value_def upt_rec)

lemma length_BASE64_CHARACTERS: "length BASE64_CHARACTERS = 64"
  using arg_cong[OF base64_alphabet(1), of length] by simp

lemma base64_index:
  assumes "0 \<le> i" and "i < 64"
  shows "base64_value (b64 i) = i" "b64 i < 128" "b64 i \<noteq> 0" "b64 i \<noteq> 61"
proof -
  have n: "nat i < length BASE64_CHARACTERS" using assms length_BASE64_CHARACTERS by simp
  show "b64 i < 128" "b64 i \<noteq> 0" "b64 i \<noteq> 61"
    using base64_alphabet(2) nth_mem[OF n] by (simp_all add: list_all_iff)
  have "base64_value (b64 i) = map int [0..<64] ! nat i"
    using n base64_alphabet(1) by (metis nth_map)
  then show "base64_value (b64 i) = i" using assms by simp
qed

section \<open>The encoder as arithmetic\<close>

lemma and_3: "x AND 3 = x mod 4" for x :: int
  using take_bit_eq_mask[of 2 x] by (simp add: take_bit_eq_mod mask_eq_exp_minus_1)

lemma and_high_bits: "drop_bit 2 (x AND 0xFC) = x div 4 mod 64" "drop_bit 4 (x AND 0xF0) = x div 16 mod 16"
  "drop_bit 6 (x AND 0xC0) = x div 64 mod 4" for x :: int
proof -
  have "drop_bit 2 (x AND 0xFC) = drop_bit 2 x AND 63" "drop_bit 4 (x AND 0xF0) = drop_bit 4 x AND 15"
    "drop_bit 6 (x AND 0xC0) = drop_bit 6 x AND 3"
    by simp_all
  moreover have e: "drop_bit 2 x = x div 4" "drop_bit 4 x = x div 16" "drop_bit 6 x = x div 64"
    by (simp_all add: drop_bit_eq_div)
  ultimately show "drop_bit 2 (x AND 0xFC) = x div 4 mod 64" "drop_bit 4 (x AND 0xF0) = x div 16 mod 16"
    "drop_bit 6 (x AND 0xC0) = x div 64 mod 4"
    unfolding and_low_bits and_3 e by blast+
qed

text \<open>The indices the three bytes of a group fall into.\<close>

lemma div_bound:
  fixes a :: int
  assumes "0 \<le> a" "a < k * n" "0 < n"
  shows "0 \<le> a div n" "a div n < k"
proof -
  have "a div n * n + a mod n = a" "0 \<le> a mod n" using assms by simp_all
  then have "a div n * n < k * n" using assms(2) by linarith
  then show "a div n < k" using assms(3) by simp
  show "0 \<le> a div n" using assms by (simp add: pos_imp_zdiv_nonneg_iff)
qed

lemma base64_indices:
  fixes a b :: int
  assumes "0 \<le> a" "a < 256" "0 \<le> b" "b < 256"
  shows "0 \<le> a div 4" "a div 4 < 64" "0 \<le> a div 16" "a div 16 < 16" "0 \<le> a div 64" "a div 64 < 4"
    "0 \<le> a mod 4 * 16" "a mod 4 * 16 < 64" "0 \<le> a mod 16 * 4" "a mod 16 * 4 < 64"
    "0 \<le> a mod 64" "a mod 64 < 64"
    "0 \<le> a mod 4 * 16 + b div 16" "a mod 4 * 16 + b div 16 < 64"
    "0 \<le> a mod 16 * 4 + b div 64" "a mod 16 * 4 + b div 64 < 64"
proof -
  show "0 \<le> a div 4" "a div 4 < 64" "0 \<le> a div 16" "a div 16 < 16" "0 \<le> a div 64" "a div 64 < 4"
    using div_bound[of a 64 4] div_bound[of a 16 16] div_bound[of a 4 64] assms by simp_all
  have m: "0 \<le> a mod 4" "a mod 4 < 4" "0 \<le> a mod 16" "a mod 16 < 16" by simp_all
  then show "0 \<le> a mod 4 * 16" "a mod 4 * 16 < 64" "0 \<le> a mod 16 * 4" "a mod 16 * 4 < 64"
    "0 \<le> a mod 64" "a mod 64 < 64"
    by simp_all
  have "0 \<le> b div 16" "b div 16 < 16" "0 \<le> b div 64" "b div 64 < 4"
    using div_bound[of b 16 16] div_bound[of b 4 64] assms by simp_all
  with m show "0 \<le> a mod 4 * 16 + b div 16" "a mod 4 * 16 + b div 16 < 64"
    "0 \<le> a mod 16 * 4 + b div 64" "a mod 16 * 4 + b div 64 < 64"
    by linarith+
qed

lemma base64_masks:
  fixes a b :: int
  assumes "0 \<le> a" "a < 256"
  shows "drop_bit 2 (a AND 0xFC) = a div 4" "push_bit 4 (a AND 0x03) = a mod 4 * 16"
    "push_bit 2 (a AND 0x0F) = a mod 16 * 4" "a AND 0x3F = a mod 64"
    "b mod 4 * 16 OR drop_bit 4 (a AND 0xF0) = b mod 4 * 16 + a div 16"
    "b mod 16 * 4 OR drop_bit 6 (a AND 0xC0) = b mod 16 * 4 + a div 64"
proof -
  note i = base64_indices[OF assms assms]
  show "drop_bit 2 (a AND 0xFC) = a div 4"
    unfolding and_high_bits using i(1,2) by (rule mod_pos_pos_trivial)
  show "push_bit 4 (a AND 0x03) = a mod 4 * 16" "push_bit 2 (a AND 0x0F) = a mod 16 * 4"
    "a AND 0x3F = a mod 64"
    by (simp_all add: and_3 and_low_bits push_bit_eq_mult)
  have "a div 16 mod 16 = a div 16" using i(3,4) by (rule mod_pos_pos_trivial)
  then show "b mod 4 * 16 OR drop_bit 4 (a AND 0xF0) = b mod 4 * 16 + a div 16"
    unfolding and_high_bits using or_low_bits[of "a div 16" 4 "b mod 4"] i(3,4)
    by (simp add: push_bit_eq_mult)
  have "a div 64 mod 4 = a div 64" using i(5,6) by (rule mod_pos_pos_trivial)
  then show "b mod 16 * 4 OR drop_bit 6 (a AND 0xC0) = b mod 16 * 4 + a div 64"
    unfolding and_high_bits using or_low_bits[of "a div 64" 2 "b mod 16"] i(5,6)
    by (simp add: push_bit_eq_mult)
qed

lemma base64_quad_1:
  assumes "0 \<le> a" "a < 256"
  shows "base64_quad a (- 1) z = [b64 (a div 4), b64 (a mod 4 * 16), 61, 61]"
  by (simp add: base64_quad_def Let_def base64_masks[OF assms] del: drop_bit_and push_bit_and)

lemma base64_quad_2:
  assumes "0 \<le> a" "a < 256" "0 \<le> b" "b < 256"
  shows "base64_quad a b (- 1)
    = [b64 (a div 4), b64 (a mod 4 * 16 + b div 16), b64 (b mod 16 * 4), 61]"
  using assms(3)
  by (simp add: base64_quad_def Let_def base64_masks[OF assms(1,2)] base64_masks[OF assms(3,4)]
      del: drop_bit_and push_bit_and)

lemma base64_quad_3:
  assumes "0 \<le> a" "a < 256" "0 \<le> b" "b < 256" "0 \<le> c" "c < 256"
  shows "base64_quad a b c = [b64 (a div 4), b64 (a mod 4 * 16 + b div 16),
    b64 (b mod 16 * 4 + c div 64), b64 (c mod 64)]"
  using assms(3,5)
  by (simp add: base64_quad_def Let_def base64_masks[OF assms(1,2)] base64_masks[OF assms(3,4)]
      base64_masks[OF assms(5,6)] del: drop_bit_and push_bit_and)

lemma uint_byte_range: "0 \<le> uint (c :: byte)" "uint c < 256"
  using uint_lt2p[of c] by simp_all

lemmas byte_quads = base64_quad_1[OF uint_byte_range] base64_quad_2[OF uint_byte_range uint_byte_range]
  base64_quad_3[OF uint_byte_range uint_byte_range uint_byte_range]

lemmas byte_indices = base64_indices[OF uint_byte_range uint_byte_range]

lemma base64_ref_ascii: "list_all (\<lambda>x. x < 128 \<and> x \<noteq> 0) (base64_ref bs)"
  by (induction bs rule: base64_ref.induct)
    (simp_all add: byte_quads base64_index byte_indices)

section \<open>Decoding\<close>

text \<open>One character shifts six bits in; only the low twelve bits matter to what is written.\<close>

lemma decode_shift:
  assumes "0 \<le> i" "i < 64"
  shows "(s32 (push_bit 6 v) OR i) mod 4096 = v mod 64 * 64 + i"
proof -
  let ?w = "(v + 33554432) mod 67108864 - 33554432"
  have "s32 (push_bit 6 v) = ?w * 64"
  proof -
    have "(v * 64 + 2147483648) mod 4294967296 = (v + 33554432) mod 67108864 * 64"
      using mult_mod_right[of 64 "v + 33554432" 67108864] by (simp add: algebra_simps)
    then show ?thesis by (simp add: s32_def push_bit_eq_mult algebra_simps)
  qed
  then have "s32 (push_bit 6 v) OR i = ?w * 64 + i"
    using or_low_bits[of i 6 ?w] assms by (simp add: push_bit_eq_mult)
  moreover have "?w mod 64 = v mod 64"
  proof -
    have "(v + 33554432) mod 67108864 mod 64 = (v + 33554432) mod 64"
      by (rule mod_mod_cancel) simp
    also have "\<dots> = v mod 64" using mod_mult_self2[of v 64 524288] by simp
    finally show ?thesis
      using mod_diff_cong[of "(v + 33554432) mod 67108864" 64 v 33554432 0] by simp
  qed
  moreover have "(?w * 64 + i) mod 4096 = ?w mod 64 * 64 + i"
  proof -
    have "(w * 64 + i) mod 4096 = w mod 64 * 64 + i" for w
      using assms zmod_zmult2_eq[of 64 "w * 64 + i" 64] by simp
    then show ?thesis .
  qed
  ultimately show ?thesis by simp
qed

definition shift_in :: "int \<Rightarrow> int \<Rightarrow> int" where
  "shift_in v i = s32 (push_bit 6 v) OR i"

lemma shift_in_low: "0 \<le> i \<Longrightarrow> i < 64 \<Longrightarrow> shift_in v i mod 64 = i"
  using mod_mod_cancel[of 64 4096 "shift_in v i"] decode_shift[of i v] by (simp add: shift_in_def)

lemma decode_b64:
  assumes "0 \<le> i" "i < 64"
  shows "decode_base64_loop (b64 i # r) 0 v = decode_base64_loop r 6 (shift_in v i)"
    and "decode_base64_loop (b64 i # r) 6 v
      = word_of_int (shift_in v i div 16 mod 256) # decode_base64_loop r 4 (shift_in v i)"
    and "decode_base64_loop (b64 i # r) 4 v
      = word_of_int (shift_in v i div 4 mod 256) # decode_base64_loop r 2 (shift_in v i)"
    and "decode_base64_loop (b64 i # r) 2 v
      = word_of_int (shift_in v i mod 256) # decode_base64_loop r 0 (shift_in v i)"
proof -
  have "x AND 255 = x mod 256" for x :: int
    using take_bit_eq_mask[of 8 x] by (simp add: take_bit_eq_mod mask_eq_exp_minus_1)
  with base64_index[OF assms]
  show "decode_base64_loop (b64 i # r) 0 v = decode_base64_loop r 6 (shift_in v i)"
    and "decode_base64_loop (b64 i # r) 6 v
      = word_of_int (shift_in v i div 16 mod 256) # decode_base64_loop r 4 (shift_in v i)"
    and "decode_base64_loop (b64 i # r) 4 v
      = word_of_int (shift_in v i div 4 mod 256) # decode_base64_loop r 2 (shift_in v i)"
    and "decode_base64_loop (b64 i # r) 2 v
      = word_of_int (shift_in v i mod 256) # decode_base64_loop r 0 (shift_in v i)"
    by (simp_all add: shift_in_def Let_def drop_bit_eq_div)
qed

lemma decode_padding: "decode_base64_loop (61 # r) k v = []"
  by simp

declare decode_base64_loop.simps(2) [simp del]

text \<open>The three bytes of a group come back out of the shifted bits.\<close>

lemma div_mod_low: "(w :: int) div 16 mod 256 = w mod 4096 div 16"
  "w div 4 mod 256 = w mod 1024 div 4"
proof -
  have d: "(n * y + r) div n = y" if "0 \<le> r" "r < n" for r y n :: int
    using that by simp
  have e: "(16 * 256 :: int) = 4096" "(4 * 256 :: int) = 1024" by simp_all
  have "w mod 4096 = 16 * (w div 16 mod 256) + w mod 16"
    using zmod_zmult2_eq[of 256 w 16, OF zero_le_numeral] unfolding e .
  with d[of "w mod 16" 16 "w div 16 mod 256"] show "w div 16 mod 256 = w mod 4096 div 16"
    by (simp only: pos_mod_bound pos_mod_sign zero_less_numeral)
  have "w mod 1024 = 4 * (w div 4 mod 256) + w mod 4"
    using zmod_zmult2_eq[of 256 w 4, OF zero_le_numeral] unfolding e .
  with d[of "w mod 4" 4 "w div 4 mod 256"] show "w div 4 mod 256 = w mod 1024 div 4"
    by (simp only: pos_mod_bound pos_mod_sign zero_less_numeral)
qed

lemma decode_first:
  assumes "v mod 64 = a div 4" "0 \<le> a" "a < 256" "0 \<le> x" "x < 16"
  shows "shift_in v (a mod 4 * 16 + x) div 16 mod 256 = a"
proof -
  have i: "0 \<le> a mod 4 * 16 + x" "a mod 4 * 16 + x < 64"
    using assms(4,5) pos_mod_bound[of 4 a] pos_mod_sign[of 4 a] by linarith+
  have "a div 4 * 64 + (a mod 4 * 16 + x) = x + a * 16"
    using div_mult_mod_eq[of a 4] by linarith
  then have "shift_in v (a mod 4 * 16 + x) mod 4096 = x + a * 16"
    using decode_shift[OF i, of v] assms(1) by (simp add: shift_in_def)
  then show ?thesis using assms(4,5) by (simp add: div_mod_low)
qed

lemma decode_second:
  assumes "v mod 64 = m * 16 + b div 16" "0 \<le> b" "b < 256" "0 \<le> x" "x < 4"
  shows "shift_in v (b mod 16 * 4 + x) div 4 mod 256 = b"
proof -
  have i: "0 \<le> b mod 16 * 4 + x" "b mod 16 * 4 + x < 64"
    using assms(4,5) pos_mod_bound[of 16 b] pos_mod_sign[of 16 b] by linarith+
  have "(m * 16 + b div 16) * 64 + (b mod 16 * 4 + x) = x + b * 4 + m * 1024"
    using div_mult_mod_eq[of b 16] unfolding distrib_right by linarith
  then have "shift_in v (b mod 16 * 4 + x) mod 4096 = x + b * 4 + m * 1024"
    using decode_shift[OF i, of v] assms(1) by (simp add: shift_in_def)
  then have "shift_in v (b mod 16 * 4 + x) mod 1024 = (x + b * 4 + m * 1024) mod 1024"
    using mod_mod_cancel[of 1024 4096 "shift_in v (b mod 16 * 4 + x)"] by simp
  also have "\<dots> = x + b * 4" using assms by simp
  finally show ?thesis using assms(4,5) by (simp add: div_mod_low)
qed

lemma decode_third:
  assumes "v mod 64 = m * 4 + c div 64" "0 \<le> c" "c < 256"
  shows "shift_in v (c mod 64) mod 256 = c"
proof -
  have i: "0 \<le> c mod 64" "c mod 64 < 64" by simp_all
  have "(m * 4 + c div 64) * 64 + c mod 64 = c + m * 256"
    using div_mult_mod_eq[of c 64] unfolding distrib_right by linarith
  then have "shift_in v (c mod 64) mod 4096 = c + m * 256"
    using decode_shift[OF i, of v] assms(1) by (simp add: shift_in_def)
  then have "shift_in v (c mod 64) mod 256 = (c + m * 256) mod 256"
    using mod_mod_cancel[of 256 4096 "shift_in v (c mod 64)"] by simp
  also have "\<dots> = c" using assms by simp
  finally show ?thesis .
qed

lemmas decode_chars = decode_b64[OF byte_indices(1,2)] decode_b64[OF byte_indices(7,8)]
  decode_b64[OF byte_indices(9,10)] decode_b64[OF byte_indices(11,12)]
  decode_b64[OF byte_indices(13,14)] decode_b64[OF byte_indices(15,16)]

text \<open>Whatever bits are left over from earlier groups, and whatever follows the text.\<close>

lemma decode_base64_ref: "decode_base64_loop (base64_ref bs) 0 v = bs"
proof (induction bs arbitrary: v rule: base64_ref.induct)
  case (2 a)
  let ?v = "shift_in v (uint a div 4)"
  have "?v mod 64 = uint a div 4" by (simp add: shift_in_low byte_indices)
  then have 1: "shift_in ?v (uint a mod 4 * 16) div 16 mod 256 = uint a"
    using decode_first[OF _ uint_byte_range, of ?v a 0] by simp
  show ?case
    by (simp only: base64_ref.simps byte_quads decode_chars decode_padding 1 word_of_int_uint)
next
  case (3 a b)
  let ?v = "shift_in v (uint a div 4)"
  let ?w = "shift_in ?v (uint a mod 4 * 16 + uint b div 16)"
  have "?v mod 64 = uint a div 4" "?w mod 64 = uint a mod 4 * 16 + uint b div 16"
    by (simp_all add: shift_in_low byte_indices)
  then have 1: "?w div 16 mod 256 = uint a"
    and 2: "shift_in ?w (uint b mod 16 * 4 + 0) div 4 mod 256 = uint b"
    using decode_first[OF _ uint_byte_range byte_indices(3,4), of ?v a b]
      decode_second[OF _ uint_byte_range order_refl zero_less_numeral, of ?w "uint a mod 4" b]
    by blast+
  note 2 = 2[unfolded add_0_right]
  show ?case
    by (simp only: base64_ref.simps byte_quads decode_chars decode_padding 1 2 word_of_int_uint)
next
  case (4 a b c r)
  let ?v = "shift_in v (uint a div 4)"
  let ?w = "shift_in ?v (uint a mod 4 * 16 + uint b div 16)"
  let ?x = "shift_in ?w (uint b mod 16 * 4 + uint c div 64)"
  have "?v mod 64 = uint a div 4" "?w mod 64 = uint a mod 4 * 16 + uint b div 16"
    "?x mod 64 = uint b mod 16 * 4 + uint c div 64"
    by (simp_all add: shift_in_low byte_indices)
  then have 1: "?w div 16 mod 256 = uint a" and 2: "?x div 4 mod 256 = uint b"
    and 3: "shift_in ?x (uint c mod 64) mod 256 = uint c"
    using decode_first[OF _ uint_byte_range byte_indices(3,4), of ?v a b]
      decode_second[OF _ uint_byte_range byte_indices(5,6), of ?w "uint a mod 4" b c]
      decode_third[OF _ uint_byte_range, of ?x "uint b mod 16" c] by blast+
  show ?case
    by (simp only: base64_ref.simps byte_quads append_Cons append_Nil decode_chars 1 2 3 4
        word_of_int_uint)
qed simp

section \<open>Properties\<close>

text \<open>
  C10. Decoding inverts encoding: \<open>guac_protocol_decode_base64\<close>, applied to the text the socket
  writes for any block of bytes, returns the length of the block and leaves exactly the block at
  the start of the buffer, without changing its size.
\<close>

theorem base64_decode_encode:
  "fst (guac_protocol_decode_base64 (base64_ref bs)) = int (length bs)
   \<and> take (length bs) (snd (guac_protocol_decode_base64 (base64_ref bs))) = bs
   \<and> length (snd (guac_protocol_decode_base64 (base64_ref bs))) = length (base64_ref bs)"
proof -
  have "length bs \<le> length (base64_ref bs)"
    by (induction bs rule: base64_ref.induct) simp_all
  then show ?thesis
    using take_mem_write_end[of 0 "base64_ref bs" bs]
    by (simp add: guac_protocol_decode_base64_def decode_base64_ref)
qed

end
