(* ===== verification/Guac_Protocol.thy ===== *)
theory Guac_Protocol
  imports Guac_Instruction Guac_Socket_Fd Guac_Base64
begin

text \<open>
  The output half of the Guacamole protocol (\<open>src/libguac/protocol.c\<close>): an instruction is a list
  of elements, each written as its length in characters, a dot and its content, the elements
  separated by commas and the instruction ended by a semicolon. Every \<open>guac_protocol_send_\<close>
  function is one definition, with the calls of its \<open>||\<close> chain in the order of the source; a
  layer, stream or object argument stands for its \<open>index\<close>, the only field the functions read.

  Against the socket interface it is shown once for each that it appends exactly the encoding of
  one instruction, and that the instruction lock is free again when it returns, failed writes
  included.
\<close>

section \<open>Definitions\<close>

abbreviation write_string :: "byte list \<Rightarrow> 's action" where
  "write_string \<equiv> guac_socket_write_string"

text \<open>\<open>__guac_socket_write_length_string\<close>, \<open>_int\<close> and \<open>_double\<close>\<close>

definition write_length_string :: "byte list \<Rightarrow> 's action" where
  "write_length_string str = c_any
    [guac_socket_write_int (int (guac_utf8_strlen str)), write_string (cstr ''.''), write_string str]"

definition write_length_int :: "int \<Rightarrow> 's action" where
  "write_length_int i = write_length_string (snprintf 128 (dec_int (s64 i)))"

definition write_length_double :: "c_double \<Rightarrow> 's action" where
  "write_length_double d = write_length_string (snprintf 128 (printf_g16 d))"

text \<open>
  The frame shared by the functions: take the socket's instruction lock, run the body and release
  the lock whatever the body returned.
\<close>

definition in_instruction :: "'s action \<Rightarrow> 's action" where
  "in_instruction body socket =
     Option.bind (guac_socket_instruction_begin socket) (\<lambda>socket.
       Option.bind (body socket) (\<lambda>(ret_val, socket).
         map_option (\<lambda>socket. (ret_val, socket)) (guac_socket_instruction_end socket)))"

definition guac_instruction :: "'s action list \<Rightarrow> 's action" where
  "guac_instruction calls = in_instruction (c_any calls)"

text \<open>The loops of \<open>__guac_protocol_send_args\<close> and \<open>__guac_protocol_send_connect\<close>.\<close>

primrec send_arg_list :: "byte list list \<Rightarrow> 's action" where
  "send_arg_list [] socket = write_string (cstr '';'') socket"
| "send_arg_list (arg # args) socket =
     Option.bind (write_string (cstr '','') socket) (\<lambda>(r, socket).
       if r \<noteq> 0 then Some (- 1, socket)
       else Option.bind (write_length_string arg socket) (\<lambda>(r, socket).
         if r \<noteq> 0 then Some (- 1, socket) else send_arg_list args socket))"

definition protocol_send_args :: "byte list list \<Rightarrow> 's action" where
  "protocol_send_args args socket =
     Option.bind (write_string (cstr ''4.args'') socket) (\<lambda>(r, socket).
       if r \<noteq> 0 then Some (- 1, socket)
       else Option.bind
         (c_any [write_string (cstr '',''), write_length_string (cstr ''VERSION_1_1_0'')] socket)
         (\<lambda>(r, socket). if r \<noteq> 0 then Some (- 1, socket) else send_arg_list args socket))"

definition guac_protocol_send_args :: "byte list list \<Rightarrow> 's action" where
  "guac_protocol_send_args args = in_instruction (protocol_send_args args)"

definition protocol_send_connect :: "byte list list \<Rightarrow> 's action" where
  "protocol_send_connect args socket =
     Option.bind (write_string (cstr ''7.connect'') socket) (\<lambda>(r, socket).
       if r \<noteq> 0 then Some (- 1, socket) else send_arg_list args socket)"

definition guac_protocol_send_connect :: "byte list list \<Rightarrow> 's action" where
  "guac_protocol_send_connect args = in_instruction (protocol_send_connect args)"

definition guac_protocol_send_blob :: "int \<Rightarrow> byte list \<Rightarrow> 's action" where
  "guac_protocol_send_blob stream data =
     (let base64_length = s32 (c_div (s32 (int (length data) + 2)) 3 * 4) in
      guac_instruction
        [write_string (cstr ''4.blob,''), write_length_int stream, write_string (cstr '',''),
         guac_socket_write_int base64_length, write_string (cstr ''.''),
         guac_socket_write_base64 data, guac_socket_flush_base64, write_string (cstr '';'')])"

abbreviation GUAC_PROTOCOL_BLOB_MAX_LENGTH :: nat where
  "GUAC_PROTOCOL_BLOB_MAX_LENGTH \<equiv> 6048"

text \<open>The loop of \<open>guac_protocol_send_blobs\<close> over what is left of the data; \<open>ret_val\<close> is the last result.\<close>

function send_blobs_loop :: "int \<Rightarrow> byte list \<Rightarrow> int \<Rightarrow> 's action" where
  "send_blobs_loop stream data ret_val socket =
     (if data \<noteq> [] \<and> ret_val = 0 then
        (let blob_size = min (length data) GUAC_PROTOCOL_BLOB_MAX_LENGTH in
         Option.bind (guac_protocol_send_blob stream (take blob_size data) socket) (\<lambda>(ret_val, socket).
           send_blobs_loop stream (drop blob_size data) ret_val socket))
      else Some (ret_val, socket))"
  by pat_completeness auto

termination
  by (relation "measure (\<lambda>(_, data, _, _). length data)") (auto simp: min_def)

declare send_blobs_loop.simps [simp del]

definition guac_protocol_send_blobs :: "int \<Rightarrow> byte list \<Rightarrow> 's action" where
  "guac_protocol_send_blobs stream data socket = send_blobs_loop stream data 0 socket"

text \<open>\<open>vguac_protocol_send_log\<close> after \<open>vsnprintf\<close>; \<open>formatted\<close> is the text the format produces.\<close>

definition guac_protocol_send_log :: "byte list \<Rightarrow> 's action" where
  "guac_protocol_send_log formatted = guac_instruction
    [write_string (cstr ''3.log,''), write_length_string (snprintf 4096 formatted),
     write_string (cstr '';'')]"

definition guac_protocol_send_ack ::
    "int \<Rightarrow> byte list \<Rightarrow> int \<Rightarrow> 's action" where
  "guac_protocol_send_ack stream error status = guac_instruction
    [write_string (cstr ''3.ack,''), write_length_int stream, write_string (cstr '',''),
     write_length_string error, write_string (cstr '',''), write_length_int status,
     write_string (cstr '';'')]"

definition guac_protocol_send_argv ::
    "int \<Rightarrow> byte list \<Rightarrow> byte list \<Rightarrow> 's action" where
  "guac_protocol_send_argv stream mimetype name = guac_instruction
    [write_string (cstr ''4.argv,''), write_length_int stream, write_string (cstr '',''),
     write_length_string mimetype, write_string (cstr '',''), write_length_string name,
     write_string (cstr '';'')]"

definition guac_protocol_send_arc ::
    "int \<Rightarrow> int \<Rightarrow> int \<Rightarrow> int \<Rightarrow> c_double \<Rightarrow> c_double \<Rightarrow> bool \<Rightarrow> 's action" where
  "guac_protocol_send_arc layer x y radius startAngle endAngle negative = guac_instruction
    [write_string (cstr ''3.arc,''), write_length_int layer, write_string (cstr '',''),
     write_length_int x, write_string (cstr '',''), write_length_int y,
     write_string (cstr '',''), write_length_int radius, write_string (cstr '',''),
     write_length_double startAngle, write_string (cstr '',''), write_length_double endAngle,
     write_string (cstr '',''), write_string (if negative then cstr ''1.1'' else cstr ''1.0''),
     write_string (cstr '';'')]"

definition guac_protocol_send_audio :: "int \<Rightarrow> byte list \<Rightarrow> 's action" where
  "guac_protocol_send_audio stream mimetype = guac_instruction
    [write_string (cstr ''5.audio,''), write_length_int stream, write_string (cstr '',''),
     write_length_string mimetype, write_string (cstr '';'')]"

definition guac_protocol_send_body ::
    "int \<Rightarrow> int \<Rightarrow> byte list \<Rightarrow> byte list \<Rightarrow> 's action" where
  "guac_protocol_send_body object stream mimetype name = guac_instruction
    [write_string (cstr ''4.body,''), write_length_int object, write_string (cstr '',''),
     write_length_int stream, write_string (cstr '',''), write_length_string mimetype,
     write_string (cstr '',''), write_length_string name, write_string (cstr '';'')]"

definition guac_protocol_send_cfill ::
    "int \<Rightarrow> int \<Rightarrow> int \<Rightarrow> int \<Rightarrow> int \<Rightarrow> int \<Rightarrow> 's action" where
  "guac_protocol_send_cfill mode layer r g b a = guac_instruction
    [write_string (cstr ''5.cfill,''), write_length_int mode, write_string (cstr '',''),
     write_length_int layer, write_string (cstr '',''), write_length_int r,
     write_string (cstr '',''), write_length_int g, write_string (cstr '',''),
     write_length_int b, write_string (cstr '',''), write_length_int a, write_string (cstr '';'')]"

definition guac_protocol_send_close :: "int \<Rightarrow> 's action" where
  "guac_protocol_send_close layer = guac_instruction
    [write_string (cstr ''5.close,''), write_length_int layer, write_string (cstr '';'')]"

definition guac_protocol_send_clip :: "int \<Rightarrow> 's action" where
  "guac_protocol_send_clip layer = guac_instruction
    [write_string (cstr ''4.clip,''), write_length_int layer, write_string (cstr '';'')]"

definition guac_protocol_send_clipboard ::
    "int \<Rightarrow> byte list \<Rightarrow> 's action" where
  "guac_protocol_send_clipboard stream mimetype = guac_instruction
    [write_string (cstr ''9.clipboard,''), write_length_int stream, write_string (cstr '',''),
     write_length_string mimetype, write_string (cstr '';'')]"

definition guac_protocol_send_copy ::
    "int \<Rightarrow> int \<Rightarrow> int \<Rightarrow> int \<Rightarrow> int \<Rightarrow> int \<Rightarrow> int \<Rightarrow> int \<Rightarrow> int \<Rightarrow> 's action" where
  "guac_protocol_send_copy srcl srcx srcy w h mode dstl dstx dsty = guac_instruction
    [write_string (cstr ''4.copy,''), write_length_int srcl, write_string (cstr '',''),
     write_length_int srcx, write_string (cstr '',''), write_length_int srcy,
     write_string (cstr '',''), write_length_int w, write_string (cstr '',''),
     write_length_int h, write_string (cstr '',''), write_length_int mode,
     write_string (cstr '',''), write_length_int dstl, write_string (cstr '',''),
     write_length_int dstx, write_string (cstr '',''), write_length_int dsty,
     write_string (cstr '';'')]"

definition guac_protocol_send_cstroke ::
    "int \<Rightarrow> int \<Rightarrow> int \<Rightarrow> int \<Rightarrow> int \<Rightarrow> int \<Rightarrow> int \<Rightarrow> int \<Rightarrow> int \<Rightarrow> 's action" where
  "guac_protocol_send_cstroke mode layer cap join thickness r g b a = guac_instruction
    [write_string (cstr ''7.cstroke,''), write_length_int mode, write_string (cstr '',''),
     write_length_int layer, write_string (cstr '',''), write_length_int cap,
     write_string (cstr '',''), write_length_int join, write_string (cstr '',''),
     write_length_int thickness, write_string (cstr '',''), write_length_int r,
     write_string (cstr '',''), write_length_int g, write_string (cstr '',''),
     write_length_int b, write_string (cstr '',''), write_length_int a, write_string (cstr '';'')]"

definition guac_protocol_send_cursor ::
    "int \<Rightarrow> int \<Rightarrow> int \<Rightarrow> int \<Rightarrow> int \<Rightarrow> int \<Rightarrow> int \<Rightarrow> 's action" where
  "guac_protocol_send_cursor x y srcl srcx srcy w h = guac_instruction
    [write_string (cstr ''6.cursor,''), write_length_int x, write_string (cstr '',''),
     write_length_int y, write_string (cstr '',''), write_length_int srcl,
     write_string (cstr '',''), write_length_int srcx, write_string (cstr '',''),
     write_length_int srcy, write_string (cstr '',''), write_length_int w,
     write_string (cstr '',''), write_length_int h, write_string (cstr '';'')]"

definition guac_protocol_send_curve ::
    "int \<Rightarrow> int \<Rightarrow> int \<Rightarrow> int \<Rightarrow> int \<Rightarrow> int \<Rightarrow> int \<Rightarrow> 's action" where
  "guac_protocol_send_curve layer cp1x cp1y cp2x cp2y x y = guac_instruction
    [write_string (cstr ''5.curve,''), write_length_int layer, write_string (cstr '',''),
     write_length_int cp1x, write_string (cstr '',''), write_length_int cp1y,
     write_string (cstr '',''), write_length_int cp2x, write_string (cstr '',''),
     write_length_int cp2y, write_string (cstr '',''), write_length_int x,
     write_string (cstr '',''), write_length_int y, write_string (cstr '';'')]"

definition guac_protocol_send_disconnect :: "'s action" where
  "guac_protocol_send_disconnect = guac_instruction
    [write_string (cstr ''10.disconnect;'')]"

definition guac_protocol_send_dispose :: "int \<Rightarrow> 's action" where
  "guac_protocol_send_dispose layer = guac_instruction
    [write_string (cstr ''7.dispose,''), write_length_int layer, write_string (cstr '';'')]"

definition guac_protocol_send_distort ::
    "int \<Rightarrow> c_double \<Rightarrow> c_double \<Rightarrow> c_double \<Rightarrow> c_double \<Rightarrow> c_double \<Rightarrow> c_double \<Rightarrow> 's action" where
  "guac_protocol_send_distort layer a b c d e f = guac_instruction
    [write_string (cstr ''7.distort,''), write_length_int layer, write_string (cstr '',''),
     write_length_double a, write_string (cstr '',''), write_length_double b,
     write_string (cstr '',''), write_length_double c, write_string (cstr '',''),
     write_length_double d, write_string (cstr '',''), write_length_double e,
     write_string (cstr '',''), write_length_double f, write_string (cstr '';'')]"

definition guac_protocol_send_end :: "int \<Rightarrow> 's action" where
  "guac_protocol_send_end stream = guac_instruction
    [write_string (cstr ''3.end,''), write_length_int stream, write_string (cstr '';'')]"

definition guac_protocol_send_error :: "byte list \<Rightarrow> int \<Rightarrow> 's action" where
  "guac_protocol_send_error error status = guac_instruction
    [write_string (cstr ''5.error,''), write_length_string error, write_string (cstr '',''),
     write_length_int status, write_string (cstr '';'')]"

definition guac_protocol_send_file ::
    "int \<Rightarrow> byte list \<Rightarrow> byte list \<Rightarrow> 's action" where
  "guac_protocol_send_file stream mimetype name = guac_instruction
    [write_string (cstr ''4.file,''), write_length_int stream, write_string (cstr '',''),
     write_length_string mimetype, write_string (cstr '',''), write_length_string name,
     write_string (cstr '';'')]"

definition guac_protocol_send_filesystem ::
    "int \<Rightarrow> byte list \<Rightarrow> 's action" where
  "guac_protocol_send_filesystem object name = guac_instruction
    [write_string (cstr ''10.filesystem,''), write_length_int object, write_string (cstr '',''),
     write_length_string name, write_string (cstr '';'')]"

definition guac_protocol_send_identity :: "int \<Rightarrow> 's action" where
  "guac_protocol_send_identity layer = guac_instruction
    [write_string (cstr ''8.identity,''), write_length_int layer, write_string (cstr '';'')]"

definition guac_protocol_send_key ::
    "int \<Rightarrow> bool \<Rightarrow> int \<Rightarrow> 's action" where
  "guac_protocol_send_key keysym pressed timestamp = guac_instruction
    [write_string (cstr ''3.key,''), write_length_int keysym,
     write_string (if pressed then cstr '',1.1,'' else cstr '',1.0,''),
     write_length_int timestamp, write_string (cstr '';'')]"

definition guac_protocol_send_lfill ::
    "int \<Rightarrow> int \<Rightarrow> int \<Rightarrow> 's action" where
  "guac_protocol_send_lfill mode layer srcl = guac_instruction
    [write_string (cstr ''5.lfill,''), write_length_int mode, write_string (cstr '',''),
     write_length_int layer, write_string (cstr '',''), write_length_int srcl,
     write_string (cstr '';'')]"

definition guac_protocol_send_line ::
    "int \<Rightarrow> int \<Rightarrow> int \<Rightarrow> 's action" where
  "guac_protocol_send_line layer x y = guac_instruction
    [write_string (cstr ''4.line,''), write_length_int layer, write_string (cstr '',''),
     write_length_int x, write_string (cstr '',''), write_length_int y, write_string (cstr '';'')]"

definition guac_protocol_send_lstroke ::
    "int \<Rightarrow> int \<Rightarrow> int \<Rightarrow> int \<Rightarrow> int \<Rightarrow> int \<Rightarrow> 's action" where
  "guac_protocol_send_lstroke mode layer cap join thickness srcl = guac_instruction
    [write_string (cstr ''7.lstroke,''), write_length_int mode, write_string (cstr '',''),
     write_length_int layer, write_string (cstr '',''), write_length_int cap,
     write_string (cstr '',''), write_length_int join, write_string (cstr '',''),
     write_length_int thickness, write_string (cstr '',''), write_length_int srcl,
     write_string (cstr '';'')]"

definition guac_protocol_send_mouse ::
    "int \<Rightarrow> int \<Rightarrow> int \<Rightarrow> int \<Rightarrow> 's action" where
  "guac_protocol_send_mouse x y button_mask timestamp = guac_instruction
    [write_string (cstr ''5.mouse,''), write_length_int x, write_string (cstr '',''),
     write_length_int y, write_string (cstr '',''), write_length_int button_mask,
     write_string (cstr '',''), write_length_int timestamp, write_string (cstr '';'')]"

definition guac_protocol_send_move ::
    "int \<Rightarrow> int \<Rightarrow> int \<Rightarrow> int \<Rightarrow> int \<Rightarrow> 's action" where
  "guac_protocol_send_move layer parent x y z = guac_instruction
    [write_string (cstr ''4.move,''), write_length_int layer, write_string (cstr '',''),
     write_length_int parent, write_string (cstr '',''), write_length_int x,
     write_string (cstr '',''), write_length_int y, write_string (cstr '',''),
     write_length_int z, write_string (cstr '';'')]"

definition guac_protocol_send_name :: "byte list \<Rightarrow> 's action" where
  "guac_protocol_send_name name = guac_instruction
    [write_string (cstr ''4.name,''), write_length_string name, write_string (cstr '';'')]"

definition guac_protocol_send_nest :: "int \<Rightarrow> byte list \<Rightarrow> 's action" where
  "guac_protocol_send_nest index data = guac_instruction
    [write_string (cstr ''4.nest,''), write_length_int index, write_string (cstr '',''),
     write_length_string data, write_string (cstr '';'')]"

definition guac_protocol_send_nop :: "'s action" where
  "guac_protocol_send_nop = guac_instruction
    [write_string (cstr ''3.nop;'')]"

definition guac_protocol_send_pipe ::
    "int \<Rightarrow> byte list \<Rightarrow> byte list \<Rightarrow> 's action" where
  "guac_protocol_send_pipe stream mimetype name = guac_instruction
    [write_string (cstr ''4.pipe,''), write_length_int stream, write_string (cstr '',''),
     write_length_string mimetype, write_string (cstr '',''), write_length_string name,
     write_string (cstr '';'')]"

definition guac_protocol_send_img ::
    "int \<Rightarrow> int \<Rightarrow> int \<Rightarrow> byte list \<Rightarrow> int \<Rightarrow> int \<Rightarrow> 's action" where
  "guac_protocol_send_img stream mode layer mimetype x y = guac_instruction
    [write_string (cstr ''3.img,''), write_length_int stream, write_string (cstr '',''),
     write_length_int mode, write_string (cstr '',''), write_length_int layer,
     write_string (cstr '',''), write_length_string mimetype, write_string (cstr '',''),
     write_length_int x, write_string (cstr '',''), write_length_int y, write_string (cstr '';'')]"

definition guac_protocol_send_pop :: "int \<Rightarrow> 's action" where
  "guac_protocol_send_pop layer = guac_instruction
    [write_string (cstr ''3.pop,''), write_length_int layer, write_string (cstr '';'')]"

definition guac_protocol_send_push :: "int \<Rightarrow> 's action" where
  "guac_protocol_send_push layer = guac_instruction
    [write_string (cstr ''4.push,''), write_length_int layer, write_string (cstr '';'')]"

definition guac_protocol_send_ready :: "byte list \<Rightarrow> 's action" where
  "guac_protocol_send_ready ident = guac_instruction
    [write_string (cstr ''5.ready,''), write_length_string ident, write_string (cstr '';'')]"

definition guac_protocol_send_rect ::
    "int \<Rightarrow> int \<Rightarrow> int \<Rightarrow> int \<Rightarrow> int \<Rightarrow> 's action" where
  "guac_protocol_send_rect layer x y width height = guac_instruction
    [write_string (cstr ''4.rect,''), write_length_int layer, write_string (cstr '',''),
     write_length_int x, write_string (cstr '',''), write_length_int y,
     write_string (cstr '',''), write_length_int width, write_string (cstr '',''),
     write_length_int height, write_string (cstr '';'')]"

definition guac_protocol_send_reset :: "int \<Rightarrow> 's action" where
  "guac_protocol_send_reset layer = guac_instruction
    [write_string (cstr ''5.reset,''), write_length_int layer, write_string (cstr '';'')]"

definition guac_protocol_send_set ::
    "int \<Rightarrow> byte list \<Rightarrow> byte list \<Rightarrow> 's action" where
  "guac_protocol_send_set layer name val = guac_instruction
    [write_string (cstr ''3.set,''), write_length_int layer, write_string (cstr '',''),
     write_length_string name, write_string (cstr '',''), write_length_string val,
     write_string (cstr '';'')]"

definition guac_protocol_send_select :: "byte list \<Rightarrow> 's action" where
  "guac_protocol_send_select protocol = guac_instruction
    [write_string (cstr ''6.select,''), write_length_string protocol, write_string (cstr '';'')]"

definition guac_protocol_send_shade :: "int \<Rightarrow> int \<Rightarrow> 's action" where
  "guac_protocol_send_shade layer a = guac_instruction
    [write_string (cstr ''5.shade,''), write_length_int layer, write_string (cstr '',''),
     write_length_int a, write_string (cstr '';'')]"

definition guac_protocol_send_size ::
    "int \<Rightarrow> int \<Rightarrow> int \<Rightarrow> 's action" where
  "guac_protocol_send_size layer w h = guac_instruction
    [write_string (cstr ''4.size,''), write_length_int layer, write_string (cstr '',''),
     write_length_int w, write_string (cstr '',''), write_length_int h, write_string (cstr '';'')]"

definition guac_protocol_send_start ::
    "int \<Rightarrow> int \<Rightarrow> int \<Rightarrow> 's action" where
  "guac_protocol_send_start layer x y = guac_instruction
    [write_string (cstr ''5.start,''), write_length_int layer, write_string (cstr '',''),
     write_length_int x, write_string (cstr '',''), write_length_int y, write_string (cstr '';'')]"

definition guac_protocol_send_sync :: "int \<Rightarrow> 's action" where
  "guac_protocol_send_sync timestamp = guac_instruction
    [write_string (cstr ''4.sync,''), write_length_int timestamp, write_string (cstr '';'')]"

definition guac_protocol_send_transfer ::
    "int \<Rightarrow> int \<Rightarrow> int \<Rightarrow> int \<Rightarrow> int \<Rightarrow> int \<Rightarrow> int \<Rightarrow> int \<Rightarrow> int \<Rightarrow> 's action" where
  "guac_protocol_send_transfer srcl srcx srcy w h fn dstl dstx dsty = guac_instruction
    [write_string (cstr ''8.transfer,''), write_length_int srcl, write_string (cstr '',''),
     write_length_int srcx, write_string (cstr '',''), write_length_int srcy,
     write_string (cstr '',''), write_length_int w, write_string (cstr '',''),
     write_length_int h, write_string (cstr '',''), write_length_int fn,
     write_string (cstr '',''), write_length_int dstl, write_string (cstr '',''),
     write_length_int dstx, write_string (cstr '',''), write_length_int dsty,
     write_string (cstr '';'')]"

definition guac_protocol_send_transform ::
    "int \<Rightarrow> c_double \<Rightarrow> c_double \<Rightarrow> c_double \<Rightarrow> c_double \<Rightarrow> c_double \<Rightarrow> c_double \<Rightarrow> 's action" where
  "guac_protocol_send_transform layer a b c d e f = guac_instruction
    [write_string (cstr ''9.transform,''), write_length_int layer, write_string (cstr '',''),
     write_length_double a, write_string (cstr '',''), write_length_double b,
     write_string (cstr '',''), write_length_double c, write_string (cstr '',''),
     write_length_double d, write_string (cstr '',''), write_length_double e,
     write_string (cstr '',''), write_length_double f, write_string (cstr '';'')]"

definition guac_protocol_send_undefine :: "int \<Rightarrow> 's action" where
  "guac_protocol_send_undefine object = guac_instruction
    [write_string (cstr ''8.undefine,''), write_length_int object, write_string (cstr '';'')]"

definition guac_protocol_send_video ::
    "int \<Rightarrow> int \<Rightarrow> byte list \<Rightarrow> 's action" where
  "guac_protocol_send_video stream layer mimetype = guac_instruction
    [write_string (cstr ''5.video,''), write_length_int stream, write_string (cstr '',''),
     write_length_int layer, write_string (cstr '',''), write_length_string mimetype,
     write_string (cstr '';'')]"

section \<open>What is sent\<close>

text \<open>Actions that leave the bytes waiting to be encoded as base64 as they are.\<close>

definition steady :: "'s action \<Rightarrow> bool" where
  "steady act \<longleftrightarrow> (\<forall>sk r sk'. act sk = Some (r, sk') \<longrightarrow> ready sk' = ready sk \<and> ready_buf sk' = ready_buf sk)"

lemma write_keeps_ready:
  assumes "guac_socket_write sk bs = Some x"
  shows "ready (snd x) = ready sk \<and> ready_buf (snd x) = ready_buf sk"
proof (rule guac_socket_write.raw_induct[OF _ assms])
  fix f sk bs x
  assume 1: "\<And>sk bs x. f sk bs = Some x \<Longrightarrow> ready (snd x) = ready sk \<and> ready_buf (snd x) = ready_buf sk"
    "(if bs = [] then Some (0, sk)
      else Option.bind (socket_write_once sk bs) (\<lambda>(written, sk).
        if written = - 1 then Some (1, sk)
        else if written < 0 \<or> written > int (length bs) then None
        else f sk (drop (nat written) bs))) = Some x"
  show "ready (snd x) = ready sk \<and> ready_buf (snd x) = ready_buf sk"
  proof (cases "bs = []")
    case True
    with 1(2) show ?thesis by auto
  next
    case False
    with 1(2) obtain n sk1 where o: "socket_write_once sk bs = Some (n, sk1)"
      "(if n = - 1 then Some (1, sk1) else if n < 0 \<or> n > int (length bs) then None
        else f sk1 (drop (nat n) bs)) = Some x"
      by (auto simp: Option.bind_eq_Some_conv)
    have "ready sk1 = ready sk \<and> ready_buf sk1 = ready_buf sk"
      using o(1) by (auto simp: socket_write_once_def Let_def split: option.splits)
    with o(2) 1(1) show ?thesis by (fastforce split: if_splits)
  qed
qed

lemma steady_write: "steady (\<lambda>sk. guac_socket_write sk bs)"
  using write_keeps_ready by (fastforce simp: steady_def)

lemma steady_write_string: "steady (write_string str)"
  using steady_write[of str] by (auto simp: steady_def guac_socket_write_string_def)

lemma steady_write_int: "steady (guac_socket_write_int i)"
  using steady_write[of "dec_int i"] by (simp add: steady_def guac_socket_write_int_def)

lemma steady_c_any: "(\<And>a. a \<in> set as \<Longrightarrow> steady a) \<Longrightarrow> steady (c_any as)"
proof (induction as)
  case (Cons a as)
  then have "steady a" "steady (c_any as)" by simp_all
  then show ?case by (fastforce simp: steady_def Option.bind_eq_Some_conv split: if_splits)
qed (simp add: steady_def)

lemma steady_length_string: "steady (write_length_string str)"
  unfolding write_length_string_def
  by (rule steady_c_any) (auto simp: steady_write_int steady_write_string)

lemma steady_length_int: "steady (write_length_int i)"
  by (simp add: write_length_int_def steady_length_string)

lemmas steady_calls = steady_write_string steady_write_int steady_length_string steady_length_int

context socket_base
begin

text \<open>From an unlocked socket an action returns to an unlocked socket, whatever the writes do.\<close>

definition releases :: "'s action \<Rightarrow> bool" where
  "releases act \<longleftrightarrow> (\<forall>sk. wired sk \<and> \<not> locked (sdata sk) \<longrightarrow>
     (\<exists>r sk'. act sk = Some (r, sk') \<and> wired sk' \<and> \<not> locked (sdata sk')))"

lemma releases_in_instruction:
  assumes "safe body"
  shows "releases (in_instruction body)"
  unfolding releases_def
proof (intro allI impI, elim conjE)
  fix sk :: "'s guac_socket"
  assume w: "wired sk" and l: "\<not> locked (sdata sk)"
  obtain d where b: "guac_socket_instruction_begin sk = Some (sk\<lparr>sdata := d\<rparr>)" "ok d" "locked d"
    using instruction_begin_ok[OF w l] by blast
  have "wired (sk\<lparr>sdata := d\<rparr>)" using w b(2) by (simp add: wired_def)
  then obtain r sk1 where e: "body (sk\<lparr>sdata := d\<rparr>) = Some (r, sk1)" "wired sk1"
    "locked (sdata sk1) = locked (sdata (sk\<lparr>sdata := d\<rparr>))"
    by (rule safeE[OF assms])
  obtain d' where f: "guac_socket_instruction_end sk1 = Some (sk1\<lparr>sdata := d'\<rparr>)" "ok d'" "\<not> locked d'"
    using instruction_end_ok[OF e(2)] e(3) b(3) by auto
  from b e f show "\<exists>r sk'. in_instruction body sk = Some (r, sk') \<and> wired sk' \<and> \<not> locked (sdata sk')"
    by (simp add: in_instruction_def wired_def)
qed

lemma safe_length_string: "safe (write_length_string str)"
  unfolding write_length_string_def
  by (rule safe_c_any) (auto simp: safe_write_int safe_write_string)

lemma safe_length_int: "safe (write_length_int i)"
  by (simp add: write_length_int_def safe_length_string)

lemma safe_length_double: "safe (write_length_double d)"
  by (simp add: write_length_double_def safe_length_string)

lemmas safe_calls = safe_write_string safe_length_string safe_length_int safe_length_double

lemma releases_instruction: "(\<And>a. a \<in> set calls \<Longrightarrow> safe a) \<Longrightarrow> releases (guac_instruction calls)"
  unfolding guac_instruction_def by (intro releases_in_instruction safe_c_any)

text \<open>Two steps with an early return of \<open>- 1\<close> between them.\<close>

lemma safe_bind:
  assumes "safe a" "safe b"
  shows "safe (\<lambda>sk. Option.bind (a sk) (\<lambda>(r, sk). if r \<noteq> 0 then Some (- 1, sk) else b sk))"
proof (rule safeI)
  fix sk :: "'s guac_socket"
  assume "wired sk"
  then obtain r sk1 where 1: "a sk = Some (r, sk1)" "wired sk1" "locked (sdata sk1) = locked (sdata sk)"
    by (rule safeE[OF assms(1)])
  from 1(2) obtain r' sk2 where "b sk1 = Some (r', sk2)" "wired sk2"
    "locked (sdata sk2) = locked (sdata sk1)"
    by (rule safeE[OF assms(2)])
  with 1 show "\<exists>r sk'. Option.bind (a sk) (\<lambda>(r, sk). if r \<noteq> 0 then Some (- 1, sk) else b sk)
      = Some (r, sk') \<and> wired sk' \<and> locked (sdata sk') = locked (sdata sk)"
    by simp
qed

lemma safe_arg_list: "safe (send_arg_list args)"
proof (induction args)
  case Nil
  then show ?case using safe_write_string by (simp add: safe_def)
next
  case (Cons arg args)
  have "safe (\<lambda>sk. Option.bind (write_string (cstr '','') sk) (\<lambda>(r, sk). if r \<noteq> 0 then Some (- 1, sk)
      else Option.bind (write_length_string arg sk) (\<lambda>(r, sk). if r \<noteq> 0 then Some (- 1, sk)
      else send_arg_list args sk)))"
    by (intro safe_bind safe_calls Cons)
  then show ?case by (simp add: safe_def)
qed

lemma releases_args: "releases (guac_protocol_send_args args)" "releases (guac_protocol_send_connect args)"
proof -
  have "safe (\<lambda>sk. protocol_send_args args sk)" "safe (\<lambda>sk. protocol_send_connect args sk)"
    unfolding protocol_send_args_def protocol_send_connect_def
    by (intro safe_bind safe_arg_list safe_calls safe_c_any; auto simp: safe_calls)+
  then show "releases (guac_protocol_send_args args)" "releases (guac_protocol_send_connect args)"
    by (simp_all add: guac_protocol_send_args_def guac_protocol_send_connect_def
        releases_in_instruction)
qed

text \<open>
  Base64 output, whatever the writes do: an action that starts with the first condition on the number of bytes
  waiting and returns 0 ends with the second one. A failed write leaves all three bytes waiting.
\<close>

definition base64_from :: "(nat \<Rightarrow> bool) \<Rightarrow> (nat \<Rightarrow> bool) \<Rightarrow> 's action \<Rightarrow> bool" where
  "base64_from P Q act \<longleftrightarrow> (\<forall>sk. wired sk \<and> length (ready_buf sk) = 3 \<and> P (ready sk) \<longrightarrow>
     (\<exists>r sk'. act sk = Some (r, sk') \<and> wired sk' \<and> length (ready_buf sk') = 3
        \<and> locked (sdata sk') = locked (sdata sk) \<and> (r = 0 \<longrightarrow> Q (ready sk'))))"

lemma base64_fromE:
  assumes "base64_from P Q act" "wired sk" "length (ready_buf sk) = 3" "P (ready sk)"
  obtains r sk' where "act sk = Some (r, sk')" "wired sk'" "length (ready_buf sk') = 3"
    "locked (sdata sk') = locked (sdata sk)" "r = 0 \<longrightarrow> Q (ready sk')"
  using assms unfolding base64_from_def by blast

lemma base64_from_safe:
  assumes "safe act" "steady act"
  shows "base64_from P P act"
  unfolding base64_from_def
proof (intro allI impI, elim conjE)
  fix sk :: "'s guac_socket"
  assume sk: "wired sk" "length (ready_buf sk) = 3" "P (ready sk)"
  obtain r sk' where a: "act sk = Some (r, sk')" "wired sk'" "locked (sdata sk') = locked (sdata sk)"
    by (rule safeE[OF assms(1) sk(1)])
  with sk assms(2) show "\<exists>r sk'. act sk = Some (r, sk') \<and> wired sk' \<and> length (ready_buf sk') = 3
      \<and> locked (sdata sk') = locked (sdata sk) \<and> (r = 0 \<longrightarrow> P (ready sk'))"
    unfolding steady_def by auto
qed

lemma base64_from_c_any:
  assumes "base64_from P Q a" "base64_from Q R (c_any as)"
  shows "base64_from P R (c_any (a # as))"
  unfolding base64_from_def
proof (intro allI impI, elim conjE)
  fix sk :: "'s guac_socket"
  assume sk: "wired sk" "length (ready_buf sk) = 3" "P (ready sk)"
  obtain r sk1 where 1: "a sk = Some (r, sk1)" "wired sk1" "length (ready_buf sk1) = 3"
    "locked (sdata sk1) = locked (sdata sk)" "r = 0 \<longrightarrow> Q (ready sk1)"
    by (rule base64_fromE[OF assms(1) sk])
  show "\<exists>r sk'. c_any (a # as) sk = Some (r, sk') \<and> wired sk' \<and> length (ready_buf sk') = 3
      \<and> locked (sdata sk') = locked (sdata sk) \<and> (r = 0 \<longrightarrow> R (ready sk'))"
  proof (cases "r = 0")
    case True
    have "Q (ready sk1)" using 1(5) True by simp
    from base64_fromE[OF assms(2) 1(2,3) this] obtain r2 sk2 where "c_any as sk1 = Some (r2, sk2)" "wired sk2" "length (ready_buf sk2) = 3"
      "locked (sdata sk2) = locked (sdata sk1)" "r2 = 0 \<longrightarrow> R (ready sk2)"
      by metis
    with 1 True show ?thesis by simp
  qed (use 1 in simp)
qed

lemma base64_byte_any:
  assumes "wired sk" "length (ready_buf sk) = 3" "ready sk < 3"
  shows "\<exists>r sk'. socket_write_base64_byte v sk = Some (r, sk') \<and> wired sk' \<and> length (ready_buf sk') = 3
    \<and> locked (sdata sk') = locked (sdata sk) \<and> (r < 0 \<or> ready sk' = Suc (ready sk) mod 3)"
proof -
  let ?s = "sk\<lparr>ready_buf := (ready_buf sk)[ready sk := v], ready := ready sk + 1\<rparr>"
  have w: "wired ?s" using assms(1) by (simp add: wired_def)
  show ?thesis
  proof (cases "ready sk = 2")
    case False
    with assms w show ?thesis by (simp add: socket_write_base64_byte_def)
  next
    case True
    let ?bs = "base64_quad (ready_buf ?s ! 0) (ready_buf ?s ! 1) (ready_buf ?s ! 2)"
    obtain r sk1 where 1: "guac_socket_write ?s ?bs = Some (r, sk1)" "wired sk1" "locked (sdata sk1) = locked (sdata ?s)"
      by (rule safeE[OF safe_write w])
    have st: "ready sk1 = ready ?s" "ready_buf sk1 = ready_buf ?s"
      using steady_write[of ?bs] 1(1) unfolding steady_def by blast+
    have "wired (sk1\<lparr>ready := 0\<rparr>)" using 1(2) by (simp add: wired_def)
    then show ?thesis
      using assms(2) 1 st True
      by (auto simp: socket_write_base64_byte_def socket_write_base64_triplet_def)
  qed
qed

lemma base64_write_any: "base64_from (\<lambda>n. n < 3) (\<lambda>n. n < 3) (guac_socket_write_base64 bs)"
proof (induction bs)
  case Nil
  show ?case by (simp add: base64_from_def)
next
  case (Cons c cs)
  show ?case
    unfolding base64_from_def
  proof (intro allI impI, elim conjE)
    fix sk :: "'s guac_socket"
    assume sk: "wired sk" "length (ready_buf sk) = 3" "ready sk < 3"
    obtain r sk1 where 1: "socket_write_base64_byte (uint c) sk = Some (r, sk1)" "wired sk1"
      "length (ready_buf sk1) = 3" "locked (sdata sk1) = locked (sdata sk)" "r < 0 \<or> ready sk1 = Suc (ready sk) mod 3"
      using base64_byte_any[OF sk] by blast
    show "\<exists>r sk'. guac_socket_write_base64 (c # cs) sk = Some (r, sk') \<and> wired sk' \<and> length (ready_buf sk') = 3
        \<and> locked (sdata sk') = locked (sdata sk) \<and> (r = 0 \<longrightarrow> ready sk' < 3)"
    proof (cases "r < 0")
      case False
      then have "ready sk1 < 3" using 1(5) by simp
      from base64_fromE[OF Cons 1(2,3) this] obtain r2 sk2 where
        "guac_socket_write_base64 cs sk1 = Some (r2, sk2)" "wired sk2" "length (ready_buf sk2) = 3"
        "locked (sdata sk2) = locked (sdata sk1)" "r2 = 0 \<longrightarrow> ready sk2 < 3"
        by metis
      with 1 False show ?thesis by simp
    qed (use 1 in simp)
  qed
qed

lemma base64_flush_any: "base64_from (\<lambda>n. n < 3) (\<lambda>n. n = 0) guac_socket_flush_base64"
proof -
  have "\<exists>r sk'. guac_socket_flush_base64 sk = Some (r, sk') \<and> wired sk' \<and> length (ready_buf sk') = 3
      \<and> locked (sdata sk') = locked (sdata sk) \<and> (r = 0 \<longrightarrow> ready sk' = 0)"
    if "wired sk" "length (ready_buf sk) = 3" "ready sk < 3" for sk :: "'s guac_socket"
    using that
  proof (induction "3 - ready sk" arbitrary: sk rule: less_induct)
    case less
    show ?case
    proof (cases "ready sk = 0")
      case True
      with less.prems show ?thesis by (subst guac_socket_flush_base64.simps) simp
    next
      case False
      obtain r sk1 where 1: "socket_write_base64_byte (- 1) sk = Some (r, sk1)" "wired sk1"
        "length (ready_buf sk1) = 3" "locked (sdata sk1) = locked (sdata sk)" "r < 0 \<or> ready sk1 = Suc (ready sk) mod 3"
        using base64_byte_any[OF less.prems] by blast
      consider "r < 0" | "\<not> r < 0" "ready sk1 = 0" | "\<not> r < 0" "3 - ready sk1 < 3 - ready sk" "ready sk1 < 3"
        using 1(5) less.prems(3) False by (cases "r < 0"; cases "ready sk = 1"; cases "ready sk = 2") auto
      then show ?thesis
      proof cases
        case 1: 1
        with \<open>socket_write_base64_byte (- 1) sk = Some (r, sk1)\<close> \<open>wired sk1\<close> \<open>length (ready_buf sk1) = 3\<close>
          \<open>locked (sdata sk1) = locked (sdata sk)\<close> False
        show ?thesis by (subst guac_socket_flush_base64.simps) simp
      next
        case 2
        with 1 False show ?thesis
          by (subst guac_socket_flush_base64.simps) (simp add: guac_socket_flush_base64.simps[of sk1])
      next
        case 3
        obtain r2 sk2 where "guac_socket_flush_base64 sk1 = Some (r2, sk2)" "wired sk2" "length (ready_buf sk2) = 3"
          "locked (sdata sk2) = locked (sdata sk1)" "r2 = 0 \<longrightarrow> ready sk2 = 0"
          using less.hyps[OF 3(2) 1(2,3) 3(3)] by blast
        with 1 3(1) False show ?thesis by (subst guac_socket_flush_base64.simps) simp
      qed
    qed
  qed
  then show ?thesis by (simp add: base64_from_def)
qed

text \<open>Sending on a socket on which no base64 data is left over from an earlier failure.\<close>

definition releases_base64 :: "'s action \<Rightarrow> bool" where
  "releases_base64 act \<longleftrightarrow> (\<forall>sk. wired sk \<and> \<not> locked (sdata sk) \<and> length (ready_buf sk) = 3 \<and> ready sk = 0 \<longrightarrow>
     (\<exists>r sk'. act sk = Some (r, sk') \<and> wired sk' \<and> \<not> locked (sdata sk') \<and> length (ready_buf sk') = 3
        \<and> (r = 0 \<longrightarrow> ready sk' = 0)))"

lemma releases_base64_instruction:
  assumes "base64_from (\<lambda>n. n = 0) (\<lambda>n. n = 0) body"
  shows "releases_base64 (in_instruction body)"
  unfolding releases_base64_def
proof (intro allI impI, elim conjE)
  fix sk :: "'s guac_socket"
  assume w: "wired sk" and l: "\<not> locked (sdata sk)" and b: "length (ready_buf sk) = 3" "ready sk = 0"
  obtain d where 1: "guac_socket_instruction_begin sk = Some (sk\<lparr>sdata := d\<rparr>)" "ok d" "locked d"
    using instruction_begin_ok[OF w l] by blast
  have "wired (sk\<lparr>sdata := d\<rparr>)" "length (ready_buf (sk\<lparr>sdata := d\<rparr>)) = 3" "ready (sk\<lparr>sdata := d\<rparr>) = 0"
    using w b 1(2) by (simp_all add: wired_def)
  from base64_fromE[OF assms this] obtain r sk1 where 2: "body (sk\<lparr>sdata := d\<rparr>) = Some (r, sk1)" "wired sk1"
    "length (ready_buf sk1) = 3" "locked (sdata sk1) = locked (sdata (sk\<lparr>sdata := d\<rparr>))" "r = 0 \<longrightarrow> ready sk1 = 0"
    by metis
  obtain d' where "guac_socket_instruction_end sk1 = Some (sk1\<lparr>sdata := d'\<rparr>)" "ok d'" "\<not> locked d'"
    using instruction_end_ok[OF 2(2)] 2(4) 1(3) by auto
  with 1 2 show "\<exists>r sk'. in_instruction body sk = Some (r, sk') \<and> wired sk' \<and> \<not> locked (sdata sk')
      \<and> length (ready_buf sk') = 3 \<and> (r = 0 \<longrightarrow> ready sk' = 0)"
    by (simp add: in_instruction_def wired_def)
qed

lemma releases_blob: "releases_base64 (guac_protocol_send_blob stream data)"
  unfolding guac_protocol_send_blob_def Let_def guac_instruction_def
proof (rule releases_base64_instruction)
  have fin: "base64_from (\<lambda>n. n = 0) (\<lambda>n. n = 0) (c_any [])" by (simp add: base64_from_def)
  have room: "base64_from (\<lambda>n. n = 0) (\<lambda>n. n < 3) (guac_socket_write_base64 data)"
    using base64_write_any[of data] unfolding base64_from_def by fastforce
  show "base64_from (\<lambda>n. n = 0) (\<lambda>n. n = 0) (c_any
      [write_string (cstr ''4.blob,''), write_length_int stream, write_string (cstr '',''),
       guac_socket_write_int (s32 (c_div (s32 (int (length data) + 2)) 3 * 4)), write_string (cstr ''.''),
       guac_socket_write_base64 data, guac_socket_flush_base64, write_string (cstr '';'')])"
    by (intro base64_from_c_any[OF base64_from_safe] base64_from_c_any[OF room] base64_from_c_any[OF base64_flush_any]
        fin safe_calls safe_write_int steady_calls)
qed

lemma releases_blobs: "releases_base64 (guac_protocol_send_blobs stream data)"
proof -
  have "\<exists>r sk'. send_blobs_loop stream data ret_val sk = Some (r, sk') \<and> wired sk' \<and> \<not> locked (sdata sk')
      \<and> length (ready_buf sk') = 3 \<and> (r = 0 \<longrightarrow> ready sk' = 0)"
    if "wired sk" "\<not> locked (sdata sk)" "length (ready_buf sk) = 3" "ret_val = 0 \<longrightarrow> ready sk = 0"
    for ret_val and sk :: "'s guac_socket"
    using that
  proof (induction "length data" arbitrary: data ret_val sk rule: less_induct)
    case less
    show ?case
    proof (cases "data \<noteq> [] \<and> ret_val = 0")
      case False
      with less.prems show ?thesis by (subst send_blobs_loop.simps) auto
    next
      case True
      let ?n = "min (length data) GUAC_PROTOCOL_BLOB_MAX_LENGTH"
      obtain r sk1 where 1: "guac_protocol_send_blob stream (take ?n data) sk = Some (r, sk1)" "wired sk1"
        "\<not> locked (sdata sk1)" "length (ready_buf sk1) = 3" "r = 0 \<longrightarrow> ready sk1 = 0"
        using releases_blob[of stream "take ?n data"] less.prems True unfolding releases_base64_def by blast
      have "length (drop ?n data) < length data" using True by (cases data) auto
      from less.hyps[OF this 1(2-5)] 1(1) True show ?thesis by (subst send_blobs_loop.simps) (simp add: Let_def)
    qed
  qed
  then show ?thesis by (simp add: releases_base64_def guac_protocol_send_blobs_def)
qed

end

context socket_output
begin

lemma emits_c_any_single: "emits a x \<Longrightarrow> emits (c_any [a]) x"
  using emits_c_any_Cons[OF _ emits_c_any_Nil, of a x] by simp

lemma emits_length_string: "emits (write_length_string str) (element str)"
  unfolding write_length_string_def
  by (rule emits_eq, (rule emits_rules)+) (simp add: element_def dec_int_def)

lemma emits_length_int: "emits (write_length_int i) (element (num i))"
  using emits_length_string[of "num i"] by (simp add: write_length_int_def num_def)

lemma emits_length_double: "emits (write_length_double d) (element (dbl d))"
  using emits_length_string[of "dbl d"] by (simp add: write_length_double_def dbl_def)

text \<open>A whole instruction: from an unlocked socket back to an unlocked socket.\<close>

definition sends :: "'a action \<Rightarrow> byte list \<Rightarrow> bool" where
  "sends act bs \<longleftrightarrow> (\<forall>sk. quiet sk \<and> \<not> locked (sdata sk) \<longrightarrow>
     (\<exists>sk'. act sk = Some (0, sk') \<and> quiet sk' \<and> \<not> locked (sdata sk')
        \<and> out (sdata sk') = out (sdata sk) @ bs))"

lemma sendsE:
  assumes "sends act bs" "quiet sk" "\<not> locked (sdata sk)"
  obtains sk' where "act sk = Some (0, sk')" "quiet sk'" "\<not> locked (sdata sk')"
    "out (sdata sk') = out (sdata sk) @ bs"
  using assms unfolding sends_def by blast

lemma sends_in_instruction:
  assumes "emits body bs"
  shows "sends (in_instruction body) bs"
  unfolding sends_def
proof (intro allI impI, elim conjE)
  fix sk :: "'a guac_socket"
  assume q: "quiet sk" and l: "\<not> locked (sdata sk)"
  obtain d where b: "guac_socket_instruction_begin sk = Some (sk\<lparr>sdata := d\<rparr>)" "ok d" "locked d"
    "lk (sdata sk) = Some d"
    using q l instruction_begin_ok[of sk] by (auto simp: quiet_def)
  have d: "good d" "out d = out (sdata sk)"
    using q lock_out[OF b(4)] by (simp_all add: quiet_def)
  have "quiet (sk\<lparr>sdata := d\<rparr>)" using q b(2) d(1) by (simp add: quiet_def wired_def)
  with assms obtain sk1 where e: "body (sk\<lparr>sdata := d\<rparr>) = Some (0, sk1)" "quiet sk1"
    "locked (sdata sk1)" "out (sdata sk1) = out (sdata sk) @ bs"
    using b(3) d(2) by (rule_tac emitsE[OF assms]) auto
  obtain d' where f: "guac_socket_instruction_end sk1 = Some (sk1\<lparr>sdata := d'\<rparr>)" "ok d'" "\<not> locked d'"
    "ulk (sdata sk1) = Some d'"
    using e(2,3) instruction_end_ok[of sk1] by (auto simp: quiet_def)
  have "good d'" "out d' = out (sdata sk1)"
    using e(2) unlock_out[OF f(4)] by (simp_all add: quiet_def)
  with b e f show "\<exists>sk'. in_instruction body sk = Some (0, sk') \<and> quiet sk'
      \<and> \<not> locked (sdata sk') \<and> out (sdata sk') = out (sdata sk) @ bs"
    by (simp add: in_instruction_def quiet_def wired_def)
qed

lemma sends_instruction:
  assumes "emits (c_any calls) bs" and "bs = encode_instruction es"
  shows "sends (guac_instruction calls) (encode_instruction es)"
  using sends_in_instruction[OF assms(1)] assms(2) by (simp add: guac_instruction_def)

lemmas call_rules = emits_c_any_Nil emits_c_any_Cons emits_write_string emits_write_int
  emits_length_string emits_length_int emits_length_double

lemma sends_drawing:
  shows "sends (guac_protocol_send_arc layer x y radius startAngle endAngle negative)
      (encode_instruction [cstr ''arc'', num layer, num x, num y, num radius, dbl startAngle, dbl endAngle, cstr (if negative then ''1'' else ''0'')])"
    and "sends (guac_protocol_send_cfill mode layer r g b a)
      (encode_instruction [cstr ''cfill'', num mode, num layer, num r, num g, num b, num a])"
    and "sends (guac_protocol_send_clip layer)
      (encode_instruction [cstr ''clip'', num layer])"
    and "sends (guac_protocol_send_close layer)
      (encode_instruction [cstr ''close'', num layer])"
    and "sends (guac_protocol_send_copy srcl srcx srcy w h mode dstl dstx dsty)
      (encode_instruction [cstr ''copy'', num srcl, num srcx, num srcy, num w, num h, num mode, num dstl, num dstx, num dsty])"
    and "sends (guac_protocol_send_cstroke mode layer cap join thickness r g b a)
      (encode_instruction [cstr ''cstroke'', num mode, num layer, num cap, num join, num thickness, num r, num g, num b, num a])"
    and "sends (guac_protocol_send_cursor x y srcl srcx srcy w h)
      (encode_instruction [cstr ''cursor'', num x, num y, num srcl, num srcx, num srcy, num w, num h])"
    and "sends (guac_protocol_send_curve layer cp1x cp1y cp2x cp2y x y)
      (encode_instruction [cstr ''curve'', num layer, num cp1x, num cp1y, num cp2x, num cp2y, num x, num y])"
    and "sends (guac_protocol_send_dispose layer)
      (encode_instruction [cstr ''dispose'', num layer])"
    and "sends (guac_protocol_send_distort layer m0 m1 m2 m3 m4 m5)
      (encode_instruction [cstr ''distort'', num layer, dbl m0, dbl m1, dbl m2, dbl m3, dbl m4, dbl m5])"
    and "sends (guac_protocol_send_identity layer)
      (encode_instruction [cstr ''identity'', num layer])"
    and "sends (guac_protocol_send_lfill mode layer srcl)
      (encode_instruction [cstr ''lfill'', num mode, num layer, num srcl])"
    and "sends (guac_protocol_send_line layer x y)
      (encode_instruction [cstr ''line'', num layer, num x, num y])"
    and "sends (guac_protocol_send_lstroke mode layer cap join thickness srcl)
      (encode_instruction [cstr ''lstroke'', num mode, num layer, num cap, num join, num thickness, num srcl])"
    and "sends (guac_protocol_send_move layer parent x y z)
      (encode_instruction [cstr ''move'', num layer, num parent, num x, num y, num z])"
    and "sends (guac_protocol_send_pop layer)
      (encode_instruction [cstr ''pop'', num layer])"
    and "sends (guac_protocol_send_push layer)
      (encode_instruction [cstr ''push'', num layer])"
    and "sends (guac_protocol_send_rect layer x y width height)
      (encode_instruction [cstr ''rect'', num layer, num x, num y, num width, num height])"
    and "sends (guac_protocol_send_reset layer)
      (encode_instruction [cstr ''reset'', num layer])"
    and "sends (guac_protocol_send_set layer name val)
      (encode_instruction [cstr ''set'', num layer, name, val])"
    and "sends (guac_protocol_send_shade layer a)
      (encode_instruction [cstr ''shade'', num layer, num a])"
    and "sends (guac_protocol_send_size layer w h)
      (encode_instruction [cstr ''size'', num layer, num w, num h])"
    and "sends (guac_protocol_send_start layer x y)
      (encode_instruction [cstr ''start'', num layer, num x, num y])"
    and "sends (guac_protocol_send_transfer srcl srcx srcy w h fn dstl dstx dsty)
      (encode_instruction [cstr ''transfer'', num srcl, num srcx, num srcy, num w, num h, num fn, num dstl, num dstx, num dsty])"
    and "sends (guac_protocol_send_transform layer m0 m1 m2 m3 m4 m5)
      (encode_instruction [cstr ''transform'', num layer, dbl m0, dbl m1, dbl m2, dbl m3, dbl m4, dbl m5])"
  unfolding guac_protocol_send_arc_def
    guac_protocol_send_cfill_def
    guac_protocol_send_clip_def
    guac_protocol_send_close_def
    guac_protocol_send_copy_def
    guac_protocol_send_cstroke_def
    guac_protocol_send_cursor_def
    guac_protocol_send_curve_def
    guac_protocol_send_dispose_def
    guac_protocol_send_distort_def
    guac_protocol_send_identity_def
    guac_protocol_send_lfill_def
    guac_protocol_send_line_def
    guac_protocol_send_lstroke_def
    guac_protocol_send_move_def
    guac_protocol_send_pop_def
    guac_protocol_send_push_def
    guac_protocol_send_rect_def
    guac_protocol_send_reset_def
    guac_protocol_send_set_def
    guac_protocol_send_shade_def
    guac_protocol_send_size_def
    guac_protocol_send_start_def
    guac_protocol_send_transfer_def
    guac_protocol_send_transform_def
  by ((rule sends_instruction, (rule call_rules)+,
      simp add: encode_instruction_Cons element_ascii dec_nat_literals)+)

lemma sends_streams:
  shows "sends (guac_protocol_send_ack stream error status)
      (encode_instruction [cstr ''ack'', num stream, error, num status])"
    and "sends (guac_protocol_send_argv stream mimetype name)
      (encode_instruction [cstr ''argv'', num stream, mimetype, name])"
    and "sends (guac_protocol_send_audio stream mimetype)
      (encode_instruction [cstr ''audio'', num stream, mimetype])"
    and "sends (guac_protocol_send_body object stream mimetype name)
      (encode_instruction [cstr ''body'', num object, num stream, mimetype, name])"
    and "sends (guac_protocol_send_clipboard stream mimetype)
      (encode_instruction [cstr ''clipboard'', num stream, mimetype])"
    and "sends (guac_protocol_send_end stream)
      (encode_instruction [cstr ''end'', num stream])"
    and "sends (guac_protocol_send_file stream mimetype name)
      (encode_instruction [cstr ''file'', num stream, mimetype, name])"
    and "sends (guac_protocol_send_filesystem object name)
      (encode_instruction [cstr ''filesystem'', num object, name])"
    and "sends (guac_protocol_send_img stream mode layer mimetype x y)
      (encode_instruction [cstr ''img'', num stream, num mode, num layer, mimetype, num x, num y])"
    and "sends (guac_protocol_send_pipe stream mimetype name)
      (encode_instruction [cstr ''pipe'', num stream, mimetype, name])"
    and "sends (guac_protocol_send_undefine object)
      (encode_instruction [cstr ''undefine'', num object])"
    and "sends (guac_protocol_send_video stream layer mimetype)
      (encode_instruction [cstr ''video'', num stream, num layer, mimetype])"
  unfolding guac_protocol_send_ack_def
    guac_protocol_send_argv_def
    guac_protocol_send_audio_def
    guac_protocol_send_body_def
    guac_protocol_send_clipboard_def
    guac_protocol_send_end_def
    guac_protocol_send_file_def
    guac_protocol_send_filesystem_def
    guac_protocol_send_img_def
    guac_protocol_send_pipe_def
    guac_protocol_send_undefine_def
    guac_protocol_send_video_def
  by ((rule sends_instruction, (rule call_rules)+,
      simp add: encode_instruction_Cons element_ascii dec_nat_literals)+)

lemma sends_control:
  shows "sends (guac_protocol_send_disconnect)
      (encode_instruction [cstr ''disconnect''])"
    and "sends (guac_protocol_send_error error status)
      (encode_instruction [cstr ''error'', error, num status])"
    and "sends (guac_protocol_send_key keysym pressed timestamp)
      (encode_instruction [cstr ''key'', num keysym, cstr (if pressed then ''1'' else ''0''), num timestamp])"
    and "sends (guac_protocol_send_mouse x y button_mask timestamp)
      (encode_instruction [cstr ''mouse'', num x, num y, num button_mask, num timestamp])"
    and "sends (guac_protocol_send_name name)
      (encode_instruction [cstr ''name'', name])"
    and "sends (guac_protocol_send_nest index data)
      (encode_instruction [cstr ''nest'', num index, data])"
    and "sends (guac_protocol_send_nop)
      (encode_instruction [cstr ''nop''])"
    and "sends (guac_protocol_send_ready ident)
      (encode_instruction [cstr ''ready'', ident])"
    and "sends (guac_protocol_send_select protocol)
      (encode_instruction [cstr ''select'', protocol])"
    and "sends (guac_protocol_send_sync timestamp)
      (encode_instruction [cstr ''sync'', num timestamp])"
  unfolding guac_protocol_send_disconnect_def
    guac_protocol_send_error_def
    guac_protocol_send_key_def
    guac_protocol_send_mouse_def
    guac_protocol_send_name_def
    guac_protocol_send_nest_def
    guac_protocol_send_nop_def
    guac_protocol_send_ready_def
    guac_protocol_send_select_def
    guac_protocol_send_sync_def
  by ((rule sends_instruction, (rule call_rules)+,
      simp add: encode_instruction_Cons element_ascii dec_nat_literals)+)

lemma sends_log:
  "sends (guac_protocol_send_log formatted) (encode_instruction [cstr ''log'', snprintf 4096 formatted])"
  unfolding guac_protocol_send_log_def
  by (rule sends_instruction, (rule call_rules)+)
    (simp add: encode_instruction_Cons element_ascii dec_nat_literals)

lemma emits_bind:
  assumes "emits a x" "emits b y"
  shows "emits (\<lambda>sk. Option.bind (a sk) (\<lambda>(r, sk). if r \<noteq> 0 then Some (- 1, sk) else b sk)) (x @ y)"
proof (rule emitsI)
  fix sk :: "'a guac_socket"
  assume "quiet sk"
  then obtain sk1 where 1: "a sk = Some (0, sk1)" "quiet sk1"
    "locked (sdata sk1) = locked (sdata sk)" "out (sdata sk1) = out (sdata sk) @ x"
    by (rule emitsE[OF assms(1)])
  from 1(2) obtain sk2 where "b sk1 = Some (0, sk2)" "quiet sk2"
    "locked (sdata sk2) = locked (sdata sk1)" "out (sdata sk2) = out (sdata sk1) @ y"
    by (rule emitsE[OF assms(2)])
  with 1 show "\<exists>sk'. Option.bind (a sk) (\<lambda>(r, sk). if r \<noteq> 0 then Some (- 1, sk) else b sk)
      = Some (0, sk') \<and> quiet sk' \<and> locked (sdata sk') = locked (sdata sk)
      \<and> out (sdata sk') = out (sdata sk) @ x @ y"
    by simp
qed

lemma emits_arg_list: "emits (send_arg_list args) (concat (map (\<lambda>e. 44 # element e) args) @ [59])"
proof (induction args)
  case Nil
  then show ?case using emits_write_string[of "cstr '';''"] by (simp add: emits_def)
next
  case (Cons arg args)
  have "emits (\<lambda>sk. Option.bind (write_string (cstr '','') sk) (\<lambda>(r, sk). if r \<noteq> 0 then Some (- 1, sk)
      else Option.bind (write_length_string arg sk) (\<lambda>(r, sk). if r \<noteq> 0 then Some (- 1, sk)
      else send_arg_list args sk)))
      (cstr '','' @ element arg @ concat (map (\<lambda>e. 44 # element e) args) @ [59])"
    by (intro emits_bind emits_write_string emits_length_string Cons)
  then show ?case by (simp add: emits_def)
qed

lemma sends_args:
  shows "sends (guac_protocol_send_args args)
      (encode_instruction (cstr ''args'' # cstr ''VERSION_1_1_0'' # args))"
    and "sends (guac_protocol_send_connect args) (encode_instruction (cstr ''connect'' # args))"
proof -
  have "emits (\<lambda>sk. protocol_send_args args sk) (cstr ''4.args'' @ (cstr '','' @ element (cstr ''VERSION_1_1_0''))
      @ concat (map (\<lambda>e. 44 # element e) args) @ [59])"
    unfolding protocol_send_args_def
    by (intro emits_bind emits_arg_list emits_write_string emits_c_any_Cons emits_c_any_single
        emits_length_string)
  from sends_in_instruction[OF this] show "sends (guac_protocol_send_args args)
      (encode_instruction (cstr ''args'' # cstr ''VERSION_1_1_0'' # args))"
    by (simp add: guac_protocol_send_args_def encode_instruction_Cons element_ascii[of "cstr ''args''", simplified]
        dec_nat_literals)
  have "emits (\<lambda>sk. protocol_send_connect args sk) (cstr ''7.connect''
      @ concat (map (\<lambda>e. 44 # element e) args) @ [59])"
    unfolding protocol_send_connect_def
    by (intro emits_bind emits_arg_list emits_write_string)
  from sends_in_instruction[OF this] show
    "sends (guac_protocol_send_connect args) (encode_instruction (cstr ''connect'' # args))"
    by (simp add: guac_protocol_send_connect_def encode_instruction_Cons element_ascii
        dec_nat_literals)
qed

lemma emits_c_any_append:
  assumes "emits (c_any as) x" "emits (c_any bs) y"
  shows "emits (c_any (as @ bs)) (x @ y)"
proof (rule emitsI)
  fix sk :: "'a guac_socket"
  assume "quiet sk"
  then obtain sk1 where 1: "c_any as sk = Some (0, sk1)" "quiet sk1"
    "locked (sdata sk1) = locked (sdata sk)" "out (sdata sk1) = out (sdata sk) @ x"
    by (rule emitsE[OF assms(1)])
  from 1(2) obtain sk2 where "c_any bs sk1 = Some (0, sk2)" "quiet sk2"
    "locked (sdata sk2) = locked (sdata sk1)" "out (sdata sk2) = out (sdata sk1) @ y"
    by (rule emitsE[OF assms(2)])
  with 1 show "\<exists>sk'. c_any (as @ bs) sk = Some (0, sk') \<and> quiet sk'
      \<and> locked (sdata sk') = locked (sdata sk) \<and> out (sdata sk') = out (sdata sk) @ x @ y"
    by (simp add: c_any_append)
qed

lemma emits_base64_then:
  assumes "emits (c_any rest) y"
  shows "emits (c_any (guac_socket_write_base64 bs # guac_socket_flush_base64 # rest)) (base64_ref bs @ y)"
  using emits_c_any_append[OF emits_base64 assms, of bs] by simp

text \<open>The length announced for a blob is the number of characters of its base64 text.\<close>

lemma sends_blob:
  assumes "length data < 1000000000"
  shows "sends (guac_protocol_send_blob stream data)
    (encode_instruction [cstr ''blob'', num stream, base64_ref data])"
proof -
  have d: "(int (length data) + 2) div 3 < 333333335"
    using assms by (intro div_bound) simp_all
  have "s32 (int (length data) + 2) = int (length data) + 2" using assms by simp
  moreover have "s32 ((int (length data) + 2) div 3 * 4) = (int (length data) + 2) div 3 * 4"
    using d by (intro s32_id) (simp_all add: pos_imp_zdiv_nonneg_iff)
  moreover have "(int (length data) + 2) div 3 * 4 = int (length (base64_ref data))"
    by (simp add: length_base64_ref zdiv_int add.commute)
  ultimately have l: "s32 (c_div (s32 (int (length data) + 2)) 3 * 4) = int (length (base64_ref data))"
    by simp
  have u: "guac_utf8_strlen (base64_ref data) = length (base64_ref data)"
    using base64_ref_ascii[of data] by (intro guac_utf8_strlen_ascii) (simp add: list_all_iff)
  have e: "element (base64_ref data) = dec_int (int (length (base64_ref data))) @ 46 # base64_ref data"
    by (simp add: element_def u dec_int_def)
  show ?thesis
    unfolding guac_protocol_send_blob_def Let_def l
    by (rule sends_instruction, (rule emits_base64_then call_rules)+)
      (simp add: encode_instruction_Cons e element_ascii[of "cstr ''blob''", simplified]
        dec_nat_literals)
qed

end

section \<open>Data of any size\<close>

text \<open>The chunks a block of data is sent in.\<close>

function blob_chunks :: "byte list \<Rightarrow> byte list list" where
  "blob_chunks data =
     (if data = [] then []
      else take GUAC_PROTOCOL_BLOB_MAX_LENGTH data # blob_chunks (drop GUAC_PROTOCOL_BLOB_MAX_LENGTH data))"
  by pat_completeness auto

termination
  by (relation "measure length") auto

declare blob_chunks.simps [simp del]

lemma blob_chunks_concat: "concat (blob_chunks data) = data"
proof (induction data rule: blob_chunks.induct)
  case (1 data)
  then show ?case by (subst blob_chunks.simps) simp
qed

lemma blob_chunks_length:
  "c \<in> set (blob_chunks data) \<Longrightarrow> 0 < length c \<and> length c \<le> GUAC_PROTOCOL_BLOB_MAX_LENGTH"
proof (induction data rule: blob_chunks.induct)
  case (1 data)
  then show ?case by (subst (asm) (2) blob_chunks.simps) (auto split: if_splits)
qed

definition blob_instruction :: "int \<Rightarrow> byte list \<Rightarrow> byte list" where
  "blob_instruction stream c = encode_instruction [cstr ''blob'', num stream, base64_ref c]"

lemma fd_sends_blobs:
  "fds.sends (guac_protocol_send_blobs stream data)
     (concat (map (blob_instruction stream) (blob_chunks data)))"
proof (induction data rule: blob_chunks.induct)
  case (1 data)
  show ?case
  proof (cases "data = []")
    case True
    then show ?thesis
      by (simp add: fds.sends_def guac_protocol_send_blobs_def send_blobs_loop.simps blob_chunks.simps)
  next
    case False
    let ?c = "take GUAC_PROTOCOL_BLOB_MAX_LENGTH data"
    let ?r = "drop GUAC_PROTOCOL_BLOB_MAX_LENGTH data"
    let ?n = "min (length data) GUAC_PROTOCOL_BLOB_MAX_LENGTH"
    have cut: "take ?n data = ?c" "drop ?n data = ?r" by (simp_all add: min_def)
    have blob: "fds.sends (guac_protocol_send_blob stream ?c) (blob_instruction stream ?c)"
      unfolding blob_instruction_def by (rule fds.sends_blob) simp
    show ?thesis
      unfolding fds.sends_def
    proof (intro allI impI, elim conjE)
      fix sk :: "guac_socket_fd_data guac_socket"
      assume "fds.quiet sk" "\<not> socket_lock (sdata sk)"
      then obtain sk1 where s1: "guac_protocol_send_blob stream ?c sk = Some (0, sk1)" "fds.quiet sk1"
        "\<not> socket_lock (sdata sk1)" "fd_out (sdata sk1) = fd_out (sdata sk) @ blob_instruction stream ?c"
        by (rule fds.sendsE[OF blob])
      from s1(2,3) obtain sk2 where s2: "guac_protocol_send_blobs stream ?r sk1 = Some (0, sk2)"
        "fds.quiet sk2" "\<not> socket_lock (sdata sk2)"
        "fd_out (sdata sk2) = fd_out (sdata sk1) @ concat (map (blob_instruction stream) (blob_chunks ?r))"
        by (rule fds.sendsE[OF 1[OF False]])
      have "guac_protocol_send_blobs stream data sk = guac_protocol_send_blobs stream ?r sk1"
        using False s1(1) unfolding guac_protocol_send_blobs_def
        by (subst send_blobs_loop.simps) (simp add: Let_def cut)
      with s1 s2 False show "\<exists>sk'. guac_protocol_send_blobs stream data sk = Some (0, sk')
          \<and> fds.quiet sk' \<and> \<not> socket_lock (sdata sk')
          \<and> fd_out (sdata sk') = fd_out (sdata sk)
              @ concat (map (blob_instruction stream) (blob_chunks data))"
        by (subst blob_chunks.simps) simp
    qed
  qed
qed

section \<open>Properties\<close>

text \<open>
  C9. Data of any size is sent as a sequence of \<open>blob\<close> instructions: each is well-formed, carries
  between 1 and 6048 bytes, announces the length of its base64 text, and the blobs decode, one
  after the other, to exactly the data.
\<close>

theorem protocol_blobs_carry_data:
  "fds.sends (guac_protocol_send_blobs stream data)
     (concat (map (blob_instruction stream) (blob_chunks data)))
   \<and> list_all (\<lambda>c. 0 < length c \<and> length c \<le> GUAC_PROTOCOL_BLOB_MAX_LENGTH) (blob_chunks data)
   \<and> concat (map (\<lambda>c. let (n, buf) = guac_protocol_decode_base64 (base64_ref c) in take (nat n) buf)
       (blob_chunks data)) = data"
proof -
  have "(let (n, buf) = guac_protocol_decode_base64 (base64_ref c) in take (nat n) buf) = c" for c
    using take_mem_write_end[of 0 "base64_ref c" c]
    by (simp add: guac_protocol_decode_base64_def decode_base64_ref Let_def)
  then show ?thesis
    using fd_sends_blobs[of stream data] blob_chunks_length[of _ data]
    by (simp add: blob_chunks_concat list_all_iff)
qed

text \<open>
  C5. Each drawing instruction of the protocol, sent on a file descriptor socket whose kernel does
  not fail, appends to the output exactly the encoding of one instruction: its opcode and then its
  arguments in the order of the protocol, every element preceded by its length in characters. The
  instruction lock is free before and after.
\<close>

theorem protocol_drawing_encoded:
  "fds.sends (guac_protocol_send_arc layer x y radius startAngle endAngle negative)
      (encode_instruction [cstr ''arc'', num layer, num x, num y, num radius, dbl startAngle, dbl endAngle, cstr (if negative then ''1'' else ''0'')])
   \<and> fds.sends (guac_protocol_send_cfill mode layer r g b a)
      (encode_instruction [cstr ''cfill'', num mode, num layer, num r, num g, num b, num a])
   \<and> fds.sends (guac_protocol_send_clip layer)
      (encode_instruction [cstr ''clip'', num layer])
   \<and> fds.sends (guac_protocol_send_close layer)
      (encode_instruction [cstr ''close'', num layer])
   \<and> fds.sends (guac_protocol_send_copy srcl srcx srcy w h mode dstl dstx dsty)
      (encode_instruction [cstr ''copy'', num srcl, num srcx, num srcy, num w, num h, num mode, num dstl, num dstx, num dsty])
   \<and> fds.sends (guac_protocol_send_cstroke mode layer cap join thickness r g b a)
      (encode_instruction [cstr ''cstroke'', num mode, num layer, num cap, num join, num thickness, num r, num g, num b, num a])
   \<and> fds.sends (guac_protocol_send_cursor x y srcl srcx srcy w h)
      (encode_instruction [cstr ''cursor'', num x, num y, num srcl, num srcx, num srcy, num w, num h])
   \<and> fds.sends (guac_protocol_send_curve layer cp1x cp1y cp2x cp2y x y)
      (encode_instruction [cstr ''curve'', num layer, num cp1x, num cp1y, num cp2x, num cp2y, num x, num y])
   \<and> fds.sends (guac_protocol_send_dispose layer)
      (encode_instruction [cstr ''dispose'', num layer])
   \<and> fds.sends (guac_protocol_send_distort layer m0 m1 m2 m3 m4 m5)
      (encode_instruction [cstr ''distort'', num layer, dbl m0, dbl m1, dbl m2, dbl m3, dbl m4, dbl m5])
   \<and> fds.sends (guac_protocol_send_identity layer)
      (encode_instruction [cstr ''identity'', num layer])
   \<and> fds.sends (guac_protocol_send_lfill mode layer srcl)
      (encode_instruction [cstr ''lfill'', num mode, num layer, num srcl])
   \<and> fds.sends (guac_protocol_send_line layer x y)
      (encode_instruction [cstr ''line'', num layer, num x, num y])
   \<and> fds.sends (guac_protocol_send_lstroke mode layer cap join thickness srcl)
      (encode_instruction [cstr ''lstroke'', num mode, num layer, num cap, num join, num thickness, num srcl])
   \<and> fds.sends (guac_protocol_send_move layer parent x y z)
      (encode_instruction [cstr ''move'', num layer, num parent, num x, num y, num z])
   \<and> fds.sends (guac_protocol_send_pop layer)
      (encode_instruction [cstr ''pop'', num layer])
   \<and> fds.sends (guac_protocol_send_push layer)
      (encode_instruction [cstr ''push'', num layer])
   \<and> fds.sends (guac_protocol_send_rect layer x y width height)
      (encode_instruction [cstr ''rect'', num layer, num x, num y, num width, num height])
   \<and> fds.sends (guac_protocol_send_reset layer)
      (encode_instruction [cstr ''reset'', num layer])
   \<and> fds.sends (guac_protocol_send_set layer name val)
      (encode_instruction [cstr ''set'', num layer, name, val])
   \<and> fds.sends (guac_protocol_send_shade layer a)
      (encode_instruction [cstr ''shade'', num layer, num a])
   \<and> fds.sends (guac_protocol_send_size layer w h)
      (encode_instruction [cstr ''size'', num layer, num w, num h])
   \<and> fds.sends (guac_protocol_send_start layer x y)
      (encode_instruction [cstr ''start'', num layer, num x, num y])
   \<and> fds.sends (guac_protocol_send_transfer srcl srcx srcy w h fn dstl dstx dsty)
      (encode_instruction [cstr ''transfer'', num srcl, num srcx, num srcy, num w, num h, num fn, num dstl, num dstx, num dsty])
   \<and> fds.sends (guac_protocol_send_transform layer m0 m1 m2 m3 m4 m5)
      (encode_instruction [cstr ''transform'', num layer, dbl m0, dbl m1, dbl m2, dbl m3, dbl m4, dbl m5])"
  by (intro conjI fds.sends_drawing)

text \<open>
  C6. The same for the instructions that open, acknowledge and end streams and objects.
\<close>

theorem protocol_streams_encoded:
  "fds.sends (guac_protocol_send_ack stream error status)
      (encode_instruction [cstr ''ack'', num stream, error, num status])
   \<and> fds.sends (guac_protocol_send_argv stream mimetype name)
      (encode_instruction [cstr ''argv'', num stream, mimetype, name])
   \<and> fds.sends (guac_protocol_send_audio stream mimetype)
      (encode_instruction [cstr ''audio'', num stream, mimetype])
   \<and> fds.sends (guac_protocol_send_body object stream mimetype name)
      (encode_instruction [cstr ''body'', num object, num stream, mimetype, name])
   \<and> fds.sends (guac_protocol_send_clipboard stream mimetype)
      (encode_instruction [cstr ''clipboard'', num stream, mimetype])
   \<and> fds.sends (guac_protocol_send_end stream)
      (encode_instruction [cstr ''end'', num stream])
   \<and> fds.sends (guac_protocol_send_file stream mimetype name)
      (encode_instruction [cstr ''file'', num stream, mimetype, name])
   \<and> fds.sends (guac_protocol_send_filesystem object name)
      (encode_instruction [cstr ''filesystem'', num object, name])
   \<and> fds.sends (guac_protocol_send_img stream mode layer mimetype x y)
      (encode_instruction [cstr ''img'', num stream, num mode, num layer, mimetype, num x, num y])
   \<and> fds.sends (guac_protocol_send_pipe stream mimetype name)
      (encode_instruction [cstr ''pipe'', num stream, mimetype, name])
   \<and> fds.sends (guac_protocol_send_undefine object)
      (encode_instruction [cstr ''undefine'', num object])
   \<and> fds.sends (guac_protocol_send_video stream layer mimetype)
      (encode_instruction [cstr ''video'', num stream, num layer, mimetype])"
  by (intro conjI fds.sends_streams)

text \<open>
  C7. The same for the control instructions: handshake, input, synchronization, logging, the
  argument lists of any length of \<open>args\<close> and \<open>connect\<close>.
\<close>

theorem protocol_control_encoded:
  "fds.sends (guac_protocol_send_disconnect)
      (encode_instruction [cstr ''disconnect''])
   \<and> fds.sends (guac_protocol_send_error error status)
      (encode_instruction [cstr ''error'', error, num status])
   \<and> fds.sends (guac_protocol_send_key keysym pressed timestamp)
      (encode_instruction [cstr ''key'', num keysym, cstr (if pressed then ''1'' else ''0''), num timestamp])
   \<and> fds.sends (guac_protocol_send_mouse x y button_mask timestamp)
      (encode_instruction [cstr ''mouse'', num x, num y, num button_mask, num timestamp])
   \<and> fds.sends (guac_protocol_send_name name)
      (encode_instruction [cstr ''name'', name])
   \<and> fds.sends (guac_protocol_send_nest index data)
      (encode_instruction [cstr ''nest'', num index, data])
   \<and> fds.sends (guac_protocol_send_nop)
      (encode_instruction [cstr ''nop''])
   \<and> fds.sends (guac_protocol_send_ready ident)
      (encode_instruction [cstr ''ready'', ident])
   \<and> fds.sends (guac_protocol_send_select protocol)
      (encode_instruction [cstr ''select'', protocol])
   \<and> fds.sends (guac_protocol_send_sync timestamp)
      (encode_instruction [cstr ''sync'', num timestamp])
   \<and> fds.sends (guac_protocol_send_log formatted)
      (encode_instruction [cstr ''log'', snprintf 4096 formatted])
   \<and> fds.sends (guac_protocol_send_args args)
      (encode_instruction (cstr ''args'' # cstr ''VERSION_1_1_0'' # args))
   \<and> fds.sends (guac_protocol_send_connect args)
      (encode_instruction (cstr ''connect'' # args))"
  by (intro conjI fds.sends_control fds.sends_log fds.sends_args)

lemma fd_releases_instruction:
  "list_all fds.safe calls \<Longrightarrow> fds.releases (guac_instruction calls)"
  by (rule fds.releases_instruction) (simp add: list_all_iff)

text \<open>
  C8. No send function leaves the socket locked: on any file descriptor socket whose lock is free,
  whatever the kernel answers to the writes (short writes and errors at any point included), every
  send function returns, and the instruction lock is free again. The two functions that send blobs do so when no
  base64 data is waiting in the socket, as on a new socket and after each of them has returned 0; after a failed
  write three bytes are left waiting, and the next one is stored outside of the array.
\<close>

theorem protocol_sends_release_lock:
  "fds.releases (guac_protocol_send_ack stream error status)
   \<and> fds.releases (guac_protocol_send_arc layer x y radius startAngle endAngle negative)
   \<and> fds.releases (guac_protocol_send_argv stream mimetype name)
   \<and> fds.releases (guac_protocol_send_audio stream mimetype)
   \<and> fds.releases (guac_protocol_send_body object stream mimetype name)
   \<and> fds.releases (guac_protocol_send_cfill mode layer r g b a)
   \<and> fds.releases (guac_protocol_send_clip layer)
   \<and> fds.releases (guac_protocol_send_clipboard stream mimetype)
   \<and> fds.releases (guac_protocol_send_close layer)
   \<and> fds.releases (guac_protocol_send_copy srcl srcx srcy w h mode dstl dstx dsty)
   \<and> fds.releases (guac_protocol_send_cstroke mode layer cap join thickness r g b a)
   \<and> fds.releases (guac_protocol_send_cursor x y srcl srcx srcy w h)
   \<and> fds.releases (guac_protocol_send_curve layer cp1x cp1y cp2x cp2y x y)
   \<and> fds.releases (guac_protocol_send_disconnect)
   \<and> fds.releases (guac_protocol_send_dispose layer)
   \<and> fds.releases (guac_protocol_send_distort layer m0 m1 m2 m3 m4 m5)
   \<and> fds.releases (guac_protocol_send_end stream)
   \<and> fds.releases (guac_protocol_send_error error status)
   \<and> fds.releases (guac_protocol_send_file stream mimetype name)
   \<and> fds.releases (guac_protocol_send_filesystem object name)
   \<and> fds.releases (guac_protocol_send_identity layer)
   \<and> fds.releases (guac_protocol_send_img stream mode layer mimetype x y)
   \<and> fds.releases (guac_protocol_send_key keysym pressed timestamp)
   \<and> fds.releases (guac_protocol_send_lfill mode layer srcl)
   \<and> fds.releases (guac_protocol_send_line layer x y)
   \<and> fds.releases (guac_protocol_send_lstroke mode layer cap join thickness srcl)
   \<and> fds.releases (guac_protocol_send_mouse x y button_mask timestamp)
   \<and> fds.releases (guac_protocol_send_move layer parent x y z)
   \<and> fds.releases (guac_protocol_send_name name)
   \<and> fds.releases (guac_protocol_send_nest index data)
   \<and> fds.releases (guac_protocol_send_nop)
   \<and> fds.releases (guac_protocol_send_pipe stream mimetype name)
   \<and> fds.releases (guac_protocol_send_pop layer)
   \<and> fds.releases (guac_protocol_send_push layer)
   \<and> fds.releases (guac_protocol_send_ready ident)
   \<and> fds.releases (guac_protocol_send_rect layer x y width height)
   \<and> fds.releases (guac_protocol_send_reset layer)
   \<and> fds.releases (guac_protocol_send_select protocol)
   \<and> fds.releases (guac_protocol_send_set layer name val)
   \<and> fds.releases (guac_protocol_send_shade layer a)
   \<and> fds.releases (guac_protocol_send_size layer w h)
   \<and> fds.releases (guac_protocol_send_start layer x y)
   \<and> fds.releases (guac_protocol_send_sync timestamp)
   \<and> fds.releases (guac_protocol_send_transfer srcl srcx srcy w h fn dstl dstx dsty)
   \<and> fds.releases (guac_protocol_send_transform layer m0 m1 m2 m3 m4 m5)
   \<and> fds.releases (guac_protocol_send_undefine object)
   \<and> fds.releases (guac_protocol_send_video stream layer mimetype)
   \<and> fds.releases (guac_protocol_send_log formatted)
   \<and> fds.releases (guac_protocol_send_args args)
   \<and> fds.releases (guac_protocol_send_connect args)
   \<and> fds.releases_base64 (guac_protocol_send_blob stream data)
   \<and> fds.releases_base64 (guac_protocol_send_blobs stream data)"
  unfolding guac_protocol_send_ack_def
    guac_protocol_send_arc_def
    guac_protocol_send_argv_def
    guac_protocol_send_audio_def
    guac_protocol_send_body_def
    guac_protocol_send_cfill_def
    guac_protocol_send_clip_def
    guac_protocol_send_clipboard_def
    guac_protocol_send_close_def
    guac_protocol_send_copy_def
    guac_protocol_send_cstroke_def
    guac_protocol_send_cursor_def
    guac_protocol_send_curve_def
    guac_protocol_send_disconnect_def
    guac_protocol_send_dispose_def
    guac_protocol_send_distort_def
    guac_protocol_send_end_def
    guac_protocol_send_error_def
    guac_protocol_send_file_def
    guac_protocol_send_filesystem_def
    guac_protocol_send_identity_def
    guac_protocol_send_img_def
    guac_protocol_send_key_def
    guac_protocol_send_lfill_def
    guac_protocol_send_line_def
    guac_protocol_send_lstroke_def
    guac_protocol_send_mouse_def
    guac_protocol_send_move_def
    guac_protocol_send_name_def
    guac_protocol_send_nest_def
    guac_protocol_send_nop_def
    guac_protocol_send_pipe_def
    guac_protocol_send_pop_def
    guac_protocol_send_push_def
    guac_protocol_send_ready_def
    guac_protocol_send_rect_def
    guac_protocol_send_reset_def
    guac_protocol_send_select_def
    guac_protocol_send_set_def
    guac_protocol_send_shade_def
    guac_protocol_send_size_def
    guac_protocol_send_start_def
    guac_protocol_send_sync_def
    guac_protocol_send_transfer_def
    guac_protocol_send_transform_def
    guac_protocol_send_undefine_def
    guac_protocol_send_video_def
    guac_protocol_send_log_def
  by (intro conjI fds.releases_args fds.releases_blob fds.releases_blobs; rule fd_releases_instruction; simp add: fds.safe_calls)

end
