(* ===== verification/Guacenc_Buffer.thy ===== *)
theory Guacenc_Buffer
  imports Guac_Prelude
begin

text \<open>
  Image buffers, layers, the cursor and image streams of the video encoder
  (\<open>src/guacenc/buffer.c\<close>, \<open>layer.c\<close>, \<open>cursor.c\<close>, \<open>image-stream.c\<close>, and the operator table of
  \<open>display.c\<close>).

  Cairo is not part of the sources, so an image is not given pixels: a surface is its size and the
  sequence of drawing calls made on its context, from zeroed memory on, each with its arguments. A
  surface used as a source stands for its contents at that moment; the code paints or fills in the
  same breath. A surface that cairo cannot create is a nil surface: it is not \<open>drawable\<close>, and the calls made on
  it have no effect. The results of library functions are arguments, collected in \<open>guacenc_libs\<close>:
  the row sizes cairo and libavutil choose, whether cairo can create a surface of a size, whether memory for
  an image of so many bytes is granted, the bytes cairo has drawn for a surface, the contents of
  newly allocated image memory, the image decoders (libpng, libjpeg, libwebp), which turn bytes
  into a surface or fail, and the order in which \<open>qsort\<close> leaves two elements that compare equal, at each time. The image memory, the surface and the context of a buffer are allocated
  and freed together, so one option stands for the three pointers.

  The results of coming allocations are a script of booleans; after its end they succeed. An overflow of
  \<open>int\<close>, and a null pointer that the code passes on for the memory of an image, are undefined.
\<close>

section \<open>Cairo\<close>

datatype cairo_operator =
  CAIRO_OPERATOR_SOURCE | CAIRO_OPERATOR_OVER | CAIRO_OPERATOR_IN | CAIRO_OPERATOR_OUT
| CAIRO_OPERATOR_ATOP | CAIRO_OPERATOR_DEST_OVER | CAIRO_OPERATOR_DEST_IN | CAIRO_OPERATOR_DEST_OUT
| CAIRO_OPERATOR_DEST_ATOP | CAIRO_OPERATOR_XOR | CAIRO_OPERATOR_ADD

text \<open>Colours and opacities are in units of 1/255.\<close>

datatype cairo_surface =
    Cairo_Surface (drawable: bool) (surface_width: int) (surface_height: int) (calls: "cairo_call list")
  and cairo_call =
    Set_Operator cairo_operator
  | Set_Source_Surface cairo_surface int int
  | Set_Source_RGBA int int int int
  | Rectangle int int int int
  | Fill
  | Paint
  | Paint_With_Alpha int
  | Reset_Clip
  | Clip

definition draw :: "cairo_call list \<Rightarrow> cairo_surface \<Rightarrow> cairo_surface" where
  "draw cs s = Cairo_Surface (drawable s) (surface_width s) (surface_height s) (calls s @ cs)"

lemma draw_simps [simp]:
  "drawable (draw cs s) = drawable s" "surface_width (draw cs s) = surface_width s" "surface_height (draw cs s) = surface_height s"
  "calls (draw cs s) = calls s @ cs"
  by (simp_all add: draw_def)

record guacenc_libs =
  stride_for_width :: "int \<Rightarrow> int"
  surface_created :: "int \<Rightarrow> int \<Rightarrow> int \<Rightarrow> bool"
  image_granted :: "int \<Rightarrow> bool"
  png_decode :: "byte list \<Rightarrow> cairo_surface option"
  jpeg_decode :: "byte list \<Rightarrow> cairo_surface option"
  webp_decode :: "(byte list \<Rightarrow> cairo_surface option) option"
  linesize_for :: "int \<Rightarrow> int"
  image_data :: "cairo_surface \<Rightarrow> byte list"
  new_memory :: "int \<Rightarrow> byte list"
  sort_tie :: "int \<Rightarrow> nat option \<Rightarrow> nat option \<Rightarrow> bool"

text \<open>The value of an expression of type \<open>int\<close>, if it does not overflow.\<close>

definition c_int :: "int \<Rightarrow> int option" where
  "c_int v = (if in_s32 v then Some v else None)"

lemma c_int_Some: "in_s32 v \<Longrightarrow> c_int v = Some v" "c_int v = Some w \<Longrightarrow> w = v \<and> in_s32 v"
  by (auto simp: c_int_def split: if_splits)

text \<open>\<open>guacenc_display_cairo_operator\<close>; the masks are the values of \<open>guac_composite_mode\<close>.\<close>

definition guacenc_display_cairo_operator :: "int \<Rightarrow> cairo_operator" where
  "guacenc_display_cairo_operator msk =
     (if msk = 0xC then CAIRO_OPERATOR_SOURCE
      else if msk = 0xE then CAIRO_OPERATOR_OVER
      else if msk = 0x4 then CAIRO_OPERATOR_IN
      else if msk = 0x8 then CAIRO_OPERATOR_OUT
      else if msk = 0x6 then CAIRO_OPERATOR_ATOP
      else if msk = 0xB then CAIRO_OPERATOR_DEST_OVER
      else if msk = 0x1 then CAIRO_OPERATOR_DEST_IN
      else if msk = 0x2 then CAIRO_OPERATOR_DEST_OUT
      else if msk = 0x9 then CAIRO_OPERATOR_DEST_ATOP
      else if msk = 0xA then CAIRO_OPERATOR_XOR
      else if msk = 0xF then CAIRO_OPERATOR_ADD
      else CAIRO_OPERATOR_OVER)"

section \<open>Buffers\<close>

record guacenc_buffer =
  autosize :: bool
  bwidth :: int
  bheight :: int
  bstride :: int
  surface :: "cairo_surface option"

text \<open>The next allocation of the script.\<close>

definition next_alloc :: "bool list \<Rightarrow> bool \<times> bool list" where
  "next_alloc script = (case script of [] \<Rightarrow> (True, []) | b # bs \<Rightarrow> (b, bs))"

definition guacenc_buffer_alloc :: "bool list \<Rightarrow> guacenc_buffer option \<times> bool list" where
  "guacenc_buffer_alloc script =
     (case next_alloc script of (ok, script) \<Rightarrow>
        (if ok then Some \<lparr>autosize = False, bwidth = 0, bheight = 0, bstride = 0, surface = None\<rparr>
         else None, script))"

definition guacenc_buffer_free_image :: "guacenc_buffer \<Rightarrow> guacenc_buffer" where
  "guacenc_buffer_free_image buffer = buffer\<lparr>surface := None\<rparr>"

text \<open>A new image; the memory is allocated without a check, and cairo may refuse the size.\<close>

definition new_image :: "guacenc_libs \<Rightarrow> int \<Rightarrow> int \<Rightarrow> (int \<times> cairo_surface) option" where
  "new_image libs w h =
     (let stride = stride_for_width libs w in
      Option.bind (c_int (stride * h)) (\<lambda>n.
        if image_granted libs n then Some (stride, Cairo_Surface (surface_created libs w h stride) w h []) else None))"

definition guacenc_buffer_resize ::
    "guacenc_libs \<Rightarrow> guacenc_buffer \<Rightarrow> int \<Rightarrow> int \<Rightarrow> (int \<times> guacenc_buffer) option" where
  "guacenc_buffer_resize libs buffer w h =
     (if bwidth buffer = w \<and> bheight buffer = h then Some (0, buffer)
      else if w = 0 \<or> h = 0 then
        Some (0, (guacenc_buffer_free_image buffer)\<lparr>bwidth := w, bheight := h, bstride := 0\<rparr>)
      else
        Option.bind (new_image libs w h) (\<lambda>(stride, new).
          let new = (case surface buffer of
                       None \<Rightarrow> new
                     | Some old \<Rightarrow>
                         draw [Set_Operator CAIRO_OPERATOR_SOURCE, Set_Source_Surface old 0 0,
                               Set_Operator CAIRO_OPERATOR_OVER, Paint] new);
              buffer = buffer\<lparr>bwidth := w, bheight := h, bstride := stride\<rparr>
          in Some (0, (guacenc_buffer_free_image buffer)\<lparr>surface := Some new\<rparr>)))"

definition guacenc_buffer_fit ::
    "guacenc_libs \<Rightarrow> guacenc_buffer \<Rightarrow> int \<Rightarrow> int \<Rightarrow> (int \<times> guacenc_buffer) option" where
  "guacenc_buffer_fit libs buffer x y =
     Option.bind (c_int (x + 1)) (\<lambda>x1. Option.bind (c_int (y + 1)) (\<lambda>y1.
       let new_width = (if bwidth buffer < x1 then x1 else bwidth buffer);
           new_height = (if bheight buffer < y1 then y1 else bheight buffer)
       in if new_width \<noteq> bwidth buffer \<or> new_height \<noteq> bheight buffer
          then guacenc_buffer_resize libs buffer new_width new_height
          else Some (0, buffer)))"

text \<open>\<open>guacenc_buffer_copy\<close>; \<open>None\<close> is also a failed assertion.\<close>

definition guacenc_buffer_copy ::
    "guacenc_libs \<Rightarrow> guacenc_buffer \<Rightarrow> guacenc_buffer \<Rightarrow> (int \<times> guacenc_buffer) option" where
  "guacenc_buffer_copy libs dst src =
     Option.bind (guacenc_buffer_resize libs dst (bwidth src) (bheight src)) (\<lambda>(r, dst).
        if r \<noteq> 0 then Some (1, dst)
        else
          (case surface src of
             None \<Rightarrow> Some (0, dst)
           | Some s \<Rightarrow>
               (case surface dst of
                  None \<Rightarrow> None
                | Some d \<Rightarrow>
                    Some (0, dst\<lparr>surface := Some (draw
                      [Reset_Clip, Set_Operator CAIRO_OPERATOR_SOURCE, Set_Source_Surface s 0 0, Paint,
                       Set_Operator CAIRO_OPERATOR_OVER] d)\<rparr>))))"

section \<open>Layers and the cursor\<close>

record guacenc_layer =
  lbuffer :: guacenc_buffer
  opacity :: int
  parent_index :: int
  lx :: int
  ly :: int
  lz :: int
  frame :: guacenc_buffer

abbreviation GUACENC_LAYER_NO_PARENT :: int where
  "GUACENC_LAYER_NO_PARENT \<equiv> - 1"

definition guacenc_layer_alloc :: "bool list \<Rightarrow> guacenc_layer option \<times> bool list" where
  "guacenc_layer_alloc script =
     (case next_alloc script of (ok, script) \<Rightarrow>
        if \<not> ok then (None, script)
        else
          (case guacenc_buffer_alloc script of
             (None, script) \<Rightarrow> (None, script)
           | (Some buffer, script) \<Rightarrow>
               (case guacenc_buffer_alloc script of
                  (None, script) \<Rightarrow> (None, script)
                | (Some frm, script) \<Rightarrow>
                    (Some \<lparr>lbuffer = buffer, opacity = 0xFF, parent_index = 0, lx = 0, ly = 0, lz = 0,
                           frame = frm\<rparr>, script))))"

record guacenc_cursor =
  cx :: int
  cy :: int
  hotspot_x :: int
  hotspot_y :: int
  cbuffer :: guacenc_buffer

text \<open>\<open>guacenc_cursor_alloc\<close>; the hotspot is whatever \<open>malloc\<close> left there.\<close>

definition guacenc_cursor_alloc :: "int \<times> int \<Rightarrow> bool list \<Rightarrow> guacenc_cursor option \<times> bool list" where
  "guacenc_cursor_alloc garbage script =
     (case next_alloc script of (ok, script) \<Rightarrow>
        if \<not> ok then (None, script)
        else
          (case guacenc_buffer_alloc script of
             (None, script) \<Rightarrow> (None, script)
           | (Some buffer, script) \<Rightarrow>
               (Some \<lparr>cx = - 1, cy = - 1, hotspot_x = fst garbage, hotspot_y = snd garbage,
                      cbuffer = buffer\<rparr>, script)))"

section \<open>Image streams\<close>

datatype guacenc_decoder = Png_Decoder | Jpeg_Decoder | Webp_Decoder

record guacenc_image_stream =
  sindex :: int
  smask :: int
  sx :: int
  sy :: int
  decoder :: "guacenc_decoder option"
  slength :: int
  smax_length :: int
  sbuffer :: "byte list"

abbreviation GUACENC_IMAGE_STREAM_INITIAL_LENGTH :: int where
  "GUACENC_IMAGE_STREAM_INITIAL_LENGTH \<equiv> 4096"

definition guacenc_decoder_map :: "guacenc_libs \<Rightarrow> (byte list \<times> guacenc_decoder) list" where
  "guacenc_decoder_map libs =
     [(cstr ''image/png'', Png_Decoder), (cstr ''image/jpeg'', Jpeg_Decoder)]
     @ (if webp_decode libs \<noteq> None then [(cstr ''image/webp'', Webp_Decoder)] else [])"

definition guacenc_get_decoder :: "guacenc_libs \<Rightarrow> byte list \<Rightarrow> guacenc_decoder option" where
  "guacenc_get_decoder libs mimetype = map_of (guacenc_decoder_map libs) mimetype"

definition run_decoder :: "guacenc_libs \<Rightarrow> guacenc_decoder \<Rightarrow> byte list \<Rightarrow> cairo_surface option" where
  "run_decoder libs d data =
     (case d of
        Png_Decoder \<Rightarrow> png_decode libs data
      | Jpeg_Decoder \<Rightarrow> jpeg_decode libs data
      | Webp_Decoder \<Rightarrow> (case webp_decode libs of None \<Rightarrow> None | Some f \<Rightarrow> f data))"

text \<open>
  The memory of the image buffer starts out as whatever \<open>malloc\<close> returned, here zeros. That \<open>malloc\<close> is not
  checked: if it fails, the outer result is \<open>None\<close>.
\<close>

definition guacenc_image_stream_alloc ::
    "guacenc_libs \<Rightarrow> int \<Rightarrow> int \<Rightarrow> byte list \<Rightarrow> int \<Rightarrow> int \<Rightarrow> bool list \<Rightarrow>
     (guacenc_image_stream option \<times> bool list) option" where
  "guacenc_image_stream_alloc libs msk index mimetype x y script =
     (case next_alloc script of (ok, script) \<Rightarrow>
        if \<not> ok then Some (None, script)
        else
          (case next_alloc script of (ok, script) \<Rightarrow>
             if \<not> ok then None
             else Some (Some \<lparr>sindex = index, smask = msk, sx = x, sy = y,
                         decoder = guacenc_get_decoder libs mimetype, slength = 0,
                         smax_length = GUACENC_IMAGE_STREAM_INITIAL_LENGTH,
                         sbuffer = replicate (nat GUACENC_IMAGE_STREAM_INITIAL_LENGTH) 0\<rparr>, script)))"

text \<open>\<open>guacenc_image_stream_receive\<close> of the first \<open>len\<close> bytes of \<open>data\<close>; \<open>ok\<close> is the result of \<open>realloc\<close>.\<close>

definition guacenc_image_stream_receive ::
    "guacenc_image_stream \<Rightarrow> byte list \<Rightarrow> int \<Rightarrow> bool list \<Rightarrow> int \<times> guacenc_image_stream \<times> bool list" where
  "guacenc_image_stream_receive stream data len script =
     (let append = (\<lambda>stream.
            stream\<lparr>sbuffer := mem_write (sbuffer stream) (nat (slength stream)) (take (nat len) data),
                   slength := s32 (slength stream + len)\<rparr>)
      in if smax_length stream - slength stream < len then
           (let new_max_length = s32 (smax_length stream * 2 + len) in
            case next_alloc script of (ok, script) \<Rightarrow>
              if \<not> ok then (1, stream, script)
              else (0, append (stream\<lparr>sbuffer := sbuffer stream
                                        @ replicate (nat new_max_length - length (sbuffer stream)) 0,
                                      smax_length := new_max_length\<rparr>), script))
         else (0, append stream, script))"

definition guacenc_image_stream_end ::
    "guacenc_libs \<Rightarrow> guacenc_image_stream \<Rightarrow> guacenc_buffer \<Rightarrow> (int \<times> guacenc_buffer) option" where
  "guacenc_image_stream_end libs stream buffer =
     (case decoder stream of
        None \<Rightarrow> Some (0, buffer)
      | Some d \<Rightarrow>
          (case run_decoder libs d (take (nat (slength stream)) (sbuffer stream)) of
             None \<Rightarrow> Some (1, buffer)
           | Some s \<Rightarrow>
               (let w = surface_width s; h = surface_height s in
                Option.bind
                  (if autosize buffer
                   then Option.bind (c_int (sx stream + w)) (\<lambda>x. Option.bind (c_int (sy stream + h)) (\<lambda>y.
                     map_option snd (guacenc_buffer_fit libs buffer x y)))
                   else Some buffer)
                  (\<lambda>buffer. Some (0,
                     case surface buffer of
                       None \<Rightarrow> buffer
                     | Some b \<Rightarrow>
                         buffer\<lparr>surface := Some (draw
                            [Set_Operator (guacenc_display_cairo_operator (smask stream)),
                             Set_Source_Surface s (sx stream) (sy stream),
                             Rectangle (sx stream) (sy stream) w h, Fill] b)\<rparr>)))))"


section \<open>Sizes of buffers\<close>

text \<open>
  Sizes up to 16383 are within the limits of cairo, and an image of that size takes less than \<open>2 ^ 31\<close> bytes.
  The rows of cairo are long enough for their pixels, with some bytes more at most.
\<close>

abbreviation IMAGE_LIMIT :: int where
  "IMAGE_LIMIT \<equiv> 16383"

definition libs_ok :: "guacenc_libs \<Rightarrow> bool" where
  "libs_ok libs \<longleftrightarrow> (\<forall>w h. 0 < w \<longrightarrow> w \<le> IMAGE_LIMIT \<longrightarrow> 0 < h \<longrightarrow> h \<le> IMAGE_LIMIT \<longrightarrow>
     4 * w \<le> stride_for_width libs w \<and> stride_for_width libs w \<le> 4 * w + 64
     \<and> image_granted libs (stride_for_width libs w * h) \<and> surface_created libs w h (stride_for_width libs w))"

definition size_ok :: "int \<Rightarrow> bool" where
  "size_ok n \<longleftrightarrow> 0 \<le> n \<and> n \<le> IMAGE_LIMIT"

text \<open>
  A buffer has an image exactly when it has an area, and the image has the size of the buffer and can be
  drawn on.
\<close>

definition buffer_ok :: "guacenc_buffer \<Rightarrow> bool" where
  "buffer_ok b \<longleftrightarrow> size_ok (bwidth b) \<and> size_ok (bheight b) \<and>
     (case surface b of
        None \<Rightarrow> bwidth b = 0 \<or> bheight b = 0
      | Some s \<Rightarrow> bwidth b \<noteq> 0 \<and> bheight b \<noteq> 0 \<and> surface_width s = bwidth b \<and> surface_height s = bheight b
          \<and> drawable s)"

lemma buffer_ok_alloc: "guacenc_buffer_alloc script = (Some b, script') \<Longrightarrow> buffer_ok b"
  by (auto simp: guacenc_buffer_alloc_def buffer_ok_def size_ok_def split: prod.splits if_splits)

lemma buffer_ok_None: "buffer_ok b \<Longrightarrow> surface b = None \<longleftrightarrow> bwidth b = 0 \<or> bheight b = 0"
  by (auto simp: buffer_ok_def split: option.splits)

lemma buffer_ok_draw [intro]: "buffer_ok b \<Longrightarrow> surface b = Some s \<Longrightarrow> buffer_ok (b\<lparr>surface := Some (draw cs s)\<rparr>)"
  by (simp add: buffer_ok_def)

lemma new_image_ok:
  assumes "libs_ok libs" "size_ok w" "size_ok h" "w \<noteq> 0" "h \<noteq> 0"
  shows "new_image libs w h = Some (stride_for_width libs w, Cairo_Surface True w h [])"
proof -
  have b: "0 < w" "w \<le> IMAGE_LIMIT" "0 < h" "h \<le> IMAGE_LIMIT" using assms(2-5) by (auto simp: size_ok_def)
  note l = assms(1)[unfolded libs_ok_def, rule_format, OF b]
  have "stride_for_width libs w * h \<le> (4 * IMAGE_LIMIT + 64) * IMAGE_LIMIT"
    using b l by (intro mult_mono) auto
  moreover have "0 \<le> stride_for_width libs w * h" using b l by simp
  ultimately have "in_s32 (stride_for_width libs w * h)" by (simp add: in_s32_def)
  with l show ?thesis by (simp add: new_image_def c_int_Some)
qed

lemma resize_result:
  assumes "libs_ok libs" "buffer_ok b" "size_ok w" "size_ok h"
  shows "\<exists>b'. guacenc_buffer_resize libs b w h = Some (0, b') \<and> buffer_ok b' \<and> bwidth b' = w \<and> bheight b' = h
    \<and> autosize b' = autosize b"
proof (cases "(bwidth b = w \<and> bheight b = h) \<or> w = 0 \<or> h = 0")
  case True
  with assms show ?thesis
    by (auto simp: guacenc_buffer_resize_def guacenc_buffer_free_image_def buffer_ok_def)
next
  case False
  then have n: "new_image libs w h = Some (stride_for_width libs w, Cairo_Surface True w h [])"
    using assms by (intro new_image_ok) auto
  with False assms(3,4) show ?thesis
    by (auto simp: guacenc_buffer_resize_def guacenc_buffer_free_image_def buffer_ok_def Let_def split: option.splits)
qed

lemma fit_result:
  assumes "libs_ok libs" "buffer_ok b" "- IMAGE_LIMIT \<le> x" "x < IMAGE_LIMIT" "- IMAGE_LIMIT \<le> y" "y < IMAGE_LIMIT"
  shows "\<exists>b'. guacenc_buffer_fit libs b x y = Some (0, b') \<and> buffer_ok b'
    \<and> bwidth b' = max (bwidth b) (x + 1) \<and> bheight b' = max (bheight b) (y + 1) \<and> autosize b' = autosize b"
proof -
  have s: "size_ok (max (bwidth b) (x + 1))" "size_ok (max (bheight b) (y + 1))"
    using assms by (auto simp: buffer_ok_def size_ok_def max_def)
  have c: "c_int (x + 1) = Some (x + 1)" "c_int (y + 1) = Some (y + 1)"
    using assms(3-6) by (simp_all add: c_int_def in_s32_def)
  have m: "(if bwidth b < x + 1 then x + 1 else bwidth b) = max (bwidth b) (x + 1)"
    "(if bheight b < y + 1 then y + 1 else bheight b) = max (bheight b) (y + 1)" by auto
  show ?thesis
  proof (cases "max (bwidth b) (x + 1) \<noteq> bwidth b \<or> max (bheight b) (y + 1) \<noteq> bheight b")
    case True
    then have "guacenc_buffer_fit libs b x y = guacenc_buffer_resize libs b (max (bwidth b) (x + 1)) (max (bheight b) (y + 1))"
      unfolding guacenc_buffer_fit_def by (simp only: c m Let_def Option.bind.simps if_True)
    with resize_result[OF assms(1,2) s] show ?thesis by simp
  next
    case False
    then have "guacenc_buffer_fit libs b x y = Some (0, b)"
      unfolding guacenc_buffer_fit_def by (simp only: c m Let_def Option.bind.simps if_False)
    with False assms(2) show ?thesis by simp
  qed
qed

lemma copy_result:
  assumes "libs_ok libs" "buffer_ok dst" "buffer_ok src"
  shows "\<exists>d. guacenc_buffer_copy libs dst src = Some (0, d) \<and> buffer_ok d \<and> autosize d = autosize dst
    \<and> bwidth d = bwidth src \<and> bheight d = bheight src
    \<and> (surface d = None \<longleftrightarrow> surface src = None)
    \<and> (\<forall>s. surface src = Some s \<longrightarrow> (\<exists>t. surface d = Some t \<and>
         drop (length (calls t) - 4) (calls t)
         = [Set_Operator CAIRO_OPERATOR_SOURCE, Set_Source_Surface s 0 0, Paint, Set_Operator CAIRO_OPERATOR_OVER]))"
proof -
  obtain d where d: "guacenc_buffer_resize libs dst (bwidth src) (bheight src) = Some (0, d)"
    and ok: "buffer_ok d" "bwidth d = bwidth src" "bheight d = bheight src" "autosize d = autosize dst"
    using resize_result[OF assms(1,2), of "bwidth src" "bheight src"] assms(3) by (auto simp: buffer_ok_def)
  show ?thesis
  proof (cases "surface src")
    case None
    then have "surface d = None" using ok assms(3) by (simp add: buffer_ok_None)
    with None d ok show ?thesis by (simp add: guacenc_buffer_copy_def)
  next
    case (Some s)
    then obtain t where "surface d = Some t" using ok assms(3) by (metis buffer_ok_None not_None_eq)
    with Some d ok show ?thesis by (auto simp: guacenc_buffer_copy_def buffer_ok_def)
  qed
qed

text \<open>Decoders whose images are no larger than a screen.\<close>

definition decodes_small :: "guacenc_libs \<Rightarrow> bool" where
  "decodes_small libs \<longleftrightarrow> (\<forall>d data s. run_decoder libs d data = Some s \<longrightarrow>
     0 \<le> surface_width s \<and> surface_width s \<le> 8191 \<and> 0 \<le> surface_height s \<and> surface_height s \<le> 8191)"

definition small :: "int \<Rightarrow> bool" where
  "small n \<longleftrightarrow> - 8191 \<le> n \<and> n \<le> 8191"

lemma image_stream_end_result:
  assumes "libs_ok libs" "decodes_small libs" "buffer_ok b" "small (sx st)" "small (sy st)"
  shows "\<exists>r b'. guacenc_image_stream_end libs st b = Some (r, b') \<and> buffer_ok b' \<and> autosize b' = autosize b"
proof (cases "decoder st")
  case None
  with assms show ?thesis by (simp add: guacenc_image_stream_end_def)
next
  case d: (Some d)
  show ?thesis
  proof (cases "run_decoder libs d (take (nat (slength st)) (sbuffer st))")
    case None
    with d assms show ?thesis by (simp add: guacenc_image_stream_end_def)
  next
    case (Some s)
    have w: "0 \<le> surface_width s" "surface_width s \<le> 8191" "0 \<le> surface_height s" "surface_height s \<le> 8191"
      using assms(2) Some unfolding decodes_small_def by blast+
    have c: "c_int (sx st + surface_width s) = Some (sx st + surface_width s)"
      "c_int (sy st + surface_height s) = Some (sy st + surface_height s)"
      using w assms(4,5) by (simp_all add: small_def c_int_def in_s32_def)
    obtain b1 where "guacenc_buffer_fit libs b (sx st + surface_width s) (sy st + surface_height s) = Some (0, b1)"
      "buffer_ok b1" "autosize b1 = autosize b"
      using fit_result[OF assms(1,3), of "sx st + surface_width s" "sy st + surface_height s"] w assms(4,5)
      by (auto simp: small_def)
    then have "\<exists>b2. (if autosize b
        then Option.bind (c_int (sx st + surface_width s)) (\<lambda>x. Option.bind (c_int (sy st + surface_height s)) (\<lambda>y.
          map_option snd (guacenc_buffer_fit libs b x y)))
        else Some b) = Some b2 \<and> buffer_ok b2 \<and> autosize b2 = autosize b"
      using c assms(3) by simp
    then obtain b2 where "(if autosize b
        then Option.bind (c_int (sx st + surface_width s)) (\<lambda>x. Option.bind (c_int (sy st + surface_height s)) (\<lambda>y.
          map_option snd (guacenc_buffer_fit libs b x y)))
        else Some b) = Some b2" "buffer_ok b2" "autosize b2 = autosize b" by blast
    with d Some show ?thesis
      by (auto simp: guacenc_image_stream_end_def Let_def split: option.split)
  qed
qed

text \<open>The multiplication of the height can overflow.\<close>

lemma resize_overflows:
  assumes "bwidth b \<noteq> w \<or> bheight b \<noteq> h" "w \<noteq> 0" "h \<noteq> 0" "\<not> in_s32 (stride_for_width libs w * h)"
  shows "guacenc_buffer_resize libs b w h = None"
  using assms by (auto simp: guacenc_buffer_resize_def new_image_def c_int_def)

text \<open>Libraries that grant everything within the limits, with rows of cairo without padding.\<close>

definition example_libs :: guacenc_libs where
  "example_libs = \<lparr>stride_for_width = \<lambda>w. 4 * w, surface_created = \<lambda>w h n. 0 < w \<and> w \<le> 32767 \<and> 0 < h \<and> h \<le> 32767,
     image_granted = \<lambda>n. 0 \<le> n, png_decode = \<lambda>_. None, jpeg_decode = \<lambda>_. None, webp_decode = None,
     linesize_for = \<lambda>w. 4 * w, image_data = \<lambda>_. [], new_memory = \<lambda>n. replicate (nat n) 0, sort_tie = \<lambda>_ _ _. True\<rparr>"

lemma example_libs_ok: "libs_ok example_libs" "decodes_small example_libs"
  by (auto simp: libs_ok_def decodes_small_def example_libs_def run_decoder_def split: guacenc_decoder.splits)

section \<open>Bytes of an image stream\<close>

definition stream_holds :: "guacenc_image_stream \<Rightarrow> byte list \<Rightarrow> bool" where
  "stream_holds st data =
     (slength st = int (length data) \<and> length data \<le> length (sbuffer st)
      \<and> smax_length st = int (length (sbuffer st)) \<and> take (length data) (sbuffer st) = data)"

text \<open>Receiving a sequence of blocks; the results of all calls are kept.\<close>

primrec receive_all ::
    "byte list list \<Rightarrow> guacenc_image_stream \<Rightarrow> bool list \<Rightarrow> int list \<times> guacenc_image_stream \<times> bool list" where
  "receive_all [] st script = ([], st, script)"
| "receive_all (c # cs) st script =
     (case guacenc_image_stream_receive st c (int (length c)) script of (r, st, script) \<Rightarrow>
      case receive_all cs st script of (rs, st, script) \<Rightarrow> (r # rs, st, script))"

definition accepted :: "int list \<Rightarrow> byte list list \<Rightarrow> byte list" where
  "accepted rs cs = concat (map snd (filter (\<lambda>(r, c). r = 0) (zip rs cs)))"

lemma accepted_simps [simp]:
  "accepted [] cs = []" "accepted (r # rs) (c # cs) = (if r = 0 then c else []) @ accepted rs cs"
  by (simp_all add: accepted_def)

lemma receive_step:
  assumes "stream_holds st data" "3 * (length data + length c) < 2 ^ 31"
    and "guacenc_image_stream_receive st c (int (length c)) script = (r, st', script')"
  shows "r \<in> {0, 1} \<and> (r = 0 \<longrightarrow> stream_holds st' (data @ c)) \<and> (r \<noteq> 0 \<longrightarrow> stream_holds st' data \<and> False \<in> set script)"
proof -
  define k where "k = length (sbuffer st)"
  have st: "slength st = int (length data)" "length data \<le> k" "smax_length st = int k"
    "take (length data) (sbuffer st) = data"
    using assms(1) by (auto simp: stream_holds_def k_def)
  have len: "s32 (slength st + int (length c)) = int (length (data @ c))"
    using assms(2) st(1) by (simp add: s32_id in_s32_def)
  have keep: "take (length data + length c) (mem_write b (length data) c) = data @ c"
    "length (mem_write b (length data) c) = length b"
    if "length data + length c \<le> length b" "take (length data) b = data" for b
    using that by (simp_all add: mem_write_def min_def)
  show ?thesis
  proof (cases "int k - int (length data) < int (length c)")
    case False
    then show ?thesis using assms(3) st len keep[of "sbuffer st"]
      by (auto simp: guacenc_image_stream_receive_def stream_holds_def k_def[symmetric])
  next
    case True
    then have new: "s32 (int k * 2 + int (length c)) = int (2 * k + length c)"
      using assms(2) st(2) by (simp add: s32_id in_s32_def)
    let ?b = "sbuffer st @ replicate (2 * k + length c - k) 0"
    have b: "length data + length c \<le> length ?b" "take (length data) ?b = data"
      using st(2,4) by (simp_all add: k_def)
    show ?thesis
    proof (cases "fst (next_alloc script)")
      case f: False
      then have "False \<in> set script" by (auto simp: next_alloc_def split: list.splits)
      with f show ?thesis using assms(1,3) True st new
        by (auto simp: guacenc_image_stream_receive_def Let_def split: prod.splits)
    next
      case True2: True
      have eq: "nat (int (2 * k + length c)) - length (sbuffer st) = 2 * k + length c - k" by (simp add: k_def)
      from True2 show ?thesis using assms(3) True st len new eq keep[OF b] b
        by (auto simp: guacenc_image_stream_receive_def stream_holds_def Let_def k_def[symmetric]
            split: prod.splits)
    qed
  qed
qed

lemma receive_all_holds:
  assumes "stream_holds st data" "3 * (length data + length (concat cs)) < 2 ^ 31"
    and "receive_all cs st script = (rs, st', script')"
  shows "stream_holds st' (data @ accepted rs cs) \<and> length rs = length cs \<and> set rs \<subseteq> {0, 1}"
  using assms
proof (induction cs arbitrary: st data script rs)
  case (Cons c cs)
  obtain r st1 sc1 where 1: "guacenc_image_stream_receive st c (int (length c)) script = (r, st1, sc1)"
    by (metis prod_cases3)
  obtain rs2 where 2: "receive_all cs st1 sc1 = (rs2, st', script')" "rs = r # rs2"
    using Cons.prems(3) 1 by (auto split: prod.splits)
  have step: "r \<in> {0, 1} \<and> (r = 0 \<longrightarrow> stream_holds st1 (data @ c)) \<and> (r \<noteq> 0 \<longrightarrow> stream_holds st1 data)"
    using receive_step[OF Cons.prems(1) _ 1] Cons.prems(2) by simp
  show ?case
  proof (cases "r = 0")
    case True
    with step Cons.IH[OF _ _ 2(1), of "data @ c"] Cons.prems(2) 2(2) show ?thesis by simp
  next
    case False
    with step Cons.IH[OF _ _ 2(1), of data] Cons.prems(2) 2(2) show ?thesis by simp
  qed
qed simp

section \<open>Properties\<close>

text \<open>
  C25. Buffers keep their shape for sizes up to 16383: when memory is granted, resizing succeeds with exactly the
  requested size; fitting a point never shrinks a buffer and grows it no further than one past the point; the image
  stays as large as the buffer says and usable, with an image exactly when there is an area; and copying
  never trips its assertion, gives the destination the size of the source and paints the source
  over all of it. Beyond these sizes the number of bytes of the image can overflow.
\<close>

theorem buffer_shapes:
  assumes "libs_ok libs" "buffer_ok b" "buffer_ok src" "size_ok w" "size_ok h"
    and "- IMAGE_LIMIT \<le> x" "x < IMAGE_LIMIT" "- IMAGE_LIMIT \<le> y" "y < IMAGE_LIMIT"
  shows "(\<exists>d. guacenc_buffer_resize libs b w h = Some (0, d) \<and> buffer_ok d \<and> bwidth d = w \<and> bheight d = h)
    \<and> (\<exists>d. guacenc_buffer_fit libs b x y = Some (0, d) \<and> buffer_ok d
         \<and> bwidth d = max (bwidth b) (x + 1) \<and> bheight d = max (bheight b) (y + 1))
    \<and> (\<exists>d. guacenc_buffer_copy libs b src = Some (0, d) \<and> buffer_ok d
         \<and> bwidth d = bwidth src \<and> bheight d = bheight src
         \<and> (\<forall>s. surface src = Some s \<longrightarrow> (\<exists>t. surface d = Some t \<and>
              drop (length (calls t) - 4) (calls t)
              = [Set_Operator CAIRO_OPERATOR_SOURCE, Set_Source_Surface s 0 0, Paint,
                 Set_Operator CAIRO_OPERATOR_OVER])))"
  using resize_result[OF assms(1,2,4,5)] fit_result[OF assms(1,2,6-9)] copy_result[OF assms(1-3)] by metis

theorem buffer_shapes_witness:
  "\<exists>b src d. buffer_ok b \<and> buffer_ok src \<and> surface src \<noteq> None
     \<and> guacenc_buffer_fit example_libs b 7 3 = Some (0, d) \<and> bwidth d = 8 \<and> bheight d = 4
     \<and> (\<exists>d. guacenc_buffer_copy example_libs b src = Some (0, d) \<and> bwidth d = 2 \<and> surface d \<noteq> None)"
proof -
  let ?b = "\<lparr>autosize = True, bwidth = 0, bheight = 0, bstride = 0, surface = None\<rparr>"
  let ?src = "\<lparr>autosize = True, bwidth = 2, bheight = 1, bstride = 8, surface = Some (Cairo_Surface True 2 1 [])\<rparr>"
  have ok: "buffer_ok ?b" "buffer_ok ?src" "size_ok 0" by (simp_all add: buffer_ok_def size_ok_def)
  note shapes = buffer_shapes[OF example_libs_ok(1) ok(1,2,3,3), of 7 3]
  from shapes obtain d where 1: "guacenc_buffer_fit example_libs ?b 7 3 = Some (0, d)" "bwidth d = 8" "bheight d = 4"
    by auto
  from shapes obtain e where "guacenc_buffer_copy example_libs ?b ?src = Some (0, e)" "bwidth e = bwidth ?src"
    "surface e \<noteq> None"
    by force
  then have "\<exists>d. guacenc_buffer_copy example_libs ?b ?src = Some (0, d) \<and> bwidth d = 2 \<and> surface d \<noteq> None" by auto
  with ok 1 show ?thesis
    by (intro exI[of _ ?b] exI[of _ ?src] exI[of _ d]) auto
qed

text \<open>
  C26. An image stream collects its data: after any sequence of blocks, some of which may have been
  refused because memory could not be enlarged, the stream holds exactly the accepted blocks one
  after the other, inside its memory, as long as the total is below 2/3 GiB.
\<close>

theorem image_stream_collects:
  assumes "guacenc_image_stream_alloc libs msk index mimetype x y script = Some (Some st, script1)"
    and "3 * length (concat cs) < 2 ^ 31" "receive_all cs st script1 = (rs, st', script2)"
  shows "take (nat (slength st')) (sbuffer st') = accepted rs cs
    \<and> slength st' = int (length (accepted rs cs)) \<and> slength st' \<le> smax_length st'
    \<and> smax_length st' = int (length (sbuffer st')) \<and> length rs = length cs \<and> set rs \<subseteq> {0, 1}"
proof -
  have "stream_holds st []"
    using assms(1) by (auto simp: guacenc_image_stream_alloc_def stream_holds_def split: prod.splits if_splits)
  from receive_all_holds[OF this _ assms(3)] assms(2) show ?thesis by (auto simp: stream_holds_def)
qed

theorem image_stream_collects_witness:
  "\<exists>st st'. guacenc_image_stream_alloc example_libs 0xC 0 (cstr ''image/png'') 0 0 [] = Some (Some st, [])
     \<and> receive_all [[1, 2], [3]] st [] = ([0, 0], st', []) \<and> take (nat (slength st')) (sbuffer st') = [1, 2, 3]"
proof -
  obtain st where st: "guacenc_image_stream_alloc example_libs 0xC 0 (cstr ''image/png'') 0 0 [] = Some (Some st, [])"
    "slength st = 0" "smax_length st = 4096"
    by (simp add: guacenc_image_stream_alloc_def next_alloc_def)
  obtain st' where r: "receive_all [[1, 2], [3]] st [] = ([0, 0], st', [])"
    by (simp add: guacenc_image_stream_receive_def st(2,3) Let_def s32_id in_s32_def)
  from image_stream_collects[OF st(1) _ r] st(1) r show ?thesis by auto
qed

end
