(* ===== verification/Guacenc_Video.thy ===== *)
theory Guacenc_Video
  imports Guacenc_Buffer
begin

text \<open>
  The video under construction (\<open>src/guacenc/video.c\<close>, \<open>ffmpeg-compat.c\<close>): the timeline, which
  turns timestamps into a number of frames, and the conversion of the flattened display into a
  frame with black margins.

  libavcodec, libswscale and the C library's files are not part of the sources. The encoder is a
  script: each coming \<open>avcodec_send_frame\<close> finds the encoder finished, fails, or makes a list of
  packets available, and after the end of the script every frame is queued without output. The
  frames handed to the encoder are kept in \<open>encoded\<close>, and \<open>voutput\<close> holds the bytes written to the
  file; \<open>fwrite_script\<close> says how many bytes the coming \<open>fwrite\<close> calls write, all of them after its
  end. \<open>av_script\<close> has the results of the coming allocations of frames and scaling contexts. The picture in the frame to be encoded is the image that was scaled into it.
\<close>

section \<open>Definitions\<close>

text \<open>An \<open>AVFrame\<close> in RGB32, the input of the scaler.\<close>

record av_frame =
  fwidth :: int
  fheight :: int
  linesize :: int
  fdata :: "byte list"

datatype picture = Unset | Scaled av_frame

datatype encoder_result = Encoder_Eof | Encoder_Error | Encoder_Packets "byte list list"

record guacenc_video =
  vwidth :: int
  vheight :: int
  bitrate :: int
  next_frame :: picture
  next_pts :: int
  last_timestamp :: int
  encoder_script :: "encoder_result list"
  encoded :: "(int \<times> picture) option list"
  voutput :: "byte list"
  fwrite_script :: "nat list"
  av_script :: "bool list"

abbreviation GUACENC_VIDEO_FRAMERATE :: int where
  "GUACENC_VIDEO_FRAMERATE \<equiv> 25"

text \<open>
  \<open>guacenc_video_alloc\<close>: the codec, its context, opening it, the frame, its data, the output file, its
  stream and the video structure are obtained in this order, and the first failure ends it.
\<close>

primrec all_available :: "nat \<Rightarrow> bool list \<Rightarrow> bool \<times> bool list" where
  "all_available 0 script = (True, script)"
| "all_available (Suc n) script =
     (case next_alloc script of (ok, script) \<Rightarrow> if ok then all_available n script else (False, script))"

definition guacenc_video_alloc ::
    "int \<Rightarrow> int \<Rightarrow> int \<Rightarrow> encoder_result list \<Rightarrow> nat list \<Rightarrow> bool list \<Rightarrow> guacenc_video option" where
  "guacenc_video_alloc w h rate encoder writes script =
     (case all_available 8 script of (ok, script) \<Rightarrow>
        if \<not> ok then None
        else Some \<lparr>vwidth = w, vheight = h, bitrate = rate, next_frame = Unset, next_pts = 0,
                   last_timestamp = 0, encoder_script = encoder, encoded = [], voutput = [],
                   fwrite_script = writes, av_script = script\<rparr>)"

definition guacenc_write_packet :: "guacenc_video \<Rightarrow> byte list \<Rightarrow> int \<times> guacenc_video" where
  "guacenc_write_packet video data =
     (case fwrite_script video of
        [] \<Rightarrow> (if data = [] then - 1 else 0, video\<lparr>voutput := voutput video @ data\<rparr>)
      | n # ns \<Rightarrow>
          (let n = min n (length data)
           in (if n = 0 then - 1 else 0, video\<lparr>voutput := voutput video @ take n data, fwrite_script := ns\<rparr>)))"

text \<open>The loop over the available packets; the result of \<open>guacenc_write_packet\<close> is ignored.\<close>

primrec receive_packets :: "byte list list \<Rightarrow> guacenc_video \<Rightarrow> guacenc_video" where
  "receive_packets [] video = video"
| "receive_packets (p # ps) video = receive_packets ps (snd (guacenc_write_packet video p))"

definition guacenc_avcodec_encode_video ::
    "guacenc_video \<Rightarrow> (int \<times> picture) option \<Rightarrow> int \<times> guacenc_video" where
  "guacenc_avcodec_encode_video video frm =
     (case encoder_script video of
        [] \<Rightarrow> (0, video\<lparr>encoded := encoded video @ [frm]\<rparr>)
      | r # rs \<Rightarrow>
          (let video = video\<lparr>encoder_script := rs\<rparr> in
           case r of
             Encoder_Eof \<Rightarrow> (0, video)
           | Encoder_Error \<Rightarrow> (- 1, video)
           | Encoder_Packets ps \<Rightarrow>
               (if ps = [] then 0 else 1, receive_packets ps (video\<lparr>encoded := encoded video @ [frm]\<rparr>))))"

text \<open>\<open>guacenc_video_write_frame\<close>; the frame is the picture, its \<open>pts\<close> is set here.\<close>

definition guacenc_video_write_frame :: "guacenc_video \<Rightarrow> picture option \<Rightarrow> int \<times> guacenc_video" where
  "guacenc_video_write_frame video frm =
     (case guacenc_avcodec_encode_video video (map_option (\<lambda>p. (next_pts video, p)) frm) of
        (got_data, video) \<Rightarrow>
          if got_data < 0 then (- 1, video)
          else (got_data, video\<lparr>next_pts := s64 (next_pts video + 1)\<rparr>))"

definition guacenc_video_flush_frame :: "guacenc_video \<Rightarrow> int \<times> guacenc_video" where
  "guacenc_video_flush_frame video =
     (case guacenc_video_write_frame video (Some (next_frame video)) of (r, video) \<Rightarrow>
        (if r < 0 then 1 else 0, video))"

text \<open>
  The \<open>do ... while (--elapsed != 0)\<close> loop of \<open>guacenc_video_advance_timeline\<close>, by the number of its
  rounds: \<open>elapsed\<close> if it is positive; a negative one would count down through the wrap-around.
\<close>

primrec flush_frames :: "nat \<Rightarrow> guacenc_video \<Rightarrow> int \<times> guacenc_video" where
  "flush_frames 0 video = (0, video)"
| "flush_frames (Suc n) video =
     (case guacenc_video_flush_frame video of (r, video) \<Rightarrow>
        if r \<noteq> 0 then (1, video) else flush_frames n video)"

definition guacenc_video_advance_timeline :: "guacenc_video \<Rightarrow> int \<Rightarrow> int \<times> guacenc_video" where
  "guacenc_video_advance_timeline video timestamp =
     (if last_timestamp video \<noteq> 0 then
        (let elapsed = s32 (c_div (s64 (s64 (timestamp - last_timestamp video) * GUACENC_VIDEO_FRAMERATE)) 1000)
         in if elapsed = 0 then (0, video)
            else
              (let next_timestamp = s64 (last_timestamp video
                     + c_div (s32 (elapsed * 1000)) GUACENC_VIDEO_FRAMERATE)
               in case flush_frames (nat (elapsed mod 2 ^ 32)) video of (r, video) \<Rightarrow>
                    if r \<noteq> 0 then (1, video) else (0, video\<lparr>last_timestamp := next_timestamp\<rparr>)))
      else (0, video\<lparr>last_timestamp := timestamp\<rparr>))"

text \<open>
  The copying loops of \<open>guacenc_video_frame_convert\<close>: \<open>dst\<close> and \<open>src\<close> are offsets into the two memory
  blocks.
\<close>

primrec fill_rows :: "nat \<Rightarrow> nat \<Rightarrow> nat \<Rightarrow> nat \<Rightarrow> byte list \<Rightarrow> byte list" where
  "fill_rows 0 bytes dst_stride dst mem = mem"
| "fill_rows (Suc n) bytes dst_stride dst mem =
     fill_rows n bytes dst_stride (dst + dst_stride) (mem_write mem dst (replicate bytes 0))"

primrec copy_rows ::
    "nat \<Rightarrow> nat \<Rightarrow> nat \<Rightarrow> nat \<Rightarrow> nat \<Rightarrow> nat \<Rightarrow> byte list \<Rightarrow> nat \<Rightarrow> nat \<Rightarrow> byte list \<Rightarrow> byte list" where
  "copy_rows 0 left_size data_size right_size dst_stride src_stride src_mem src dst mem = mem"
| "copy_rows (Suc n) left_size data_size right_size dst_stride src_stride src_mem src dst mem =
     (let mem = mem_write mem dst (replicate left_size 0);
          mem = mem_write mem (dst + left_size) (take data_size (drop src src_mem));
          mem = mem_write mem (dst + left_size + data_size) (replicate right_size 0)
      in copy_rows n left_size data_size right_size dst_stride src_stride src_mem (src + src_stride)
           (dst + dst_stride) mem)"

text \<open>
  \<open>guacenc_video_frame_convert\<close> of a buffer whose surface is \<open>s\<close>. The outer \<open>None\<close> is a failed assertion
  or a size that overflows, the inner one a failed allocation.
\<close>

definition guacenc_video_frame_convert ::
    "guacenc_libs \<Rightarrow> guacenc_buffer \<Rightarrow> cairo_surface \<Rightarrow> int \<Rightarrow> int \<Rightarrow> bool list \<Rightarrow>
     (av_frame option \<times> bool list) option" where
  "guacenc_video_frame_convert libs buffer s lsize psize script =
     (case all_available 2 script of (ok, script) \<Rightarrow>
        if \<not> ok then Some (None, script)
        else
          (let fw = s32 (s32 (bwidth buffer + psize) + psize);
               fh = s32 (s32 (bheight buffer + lsize) + lsize);
               stride = linesize_for libs fw;
               row_size = s32 (fw * 4); left_size = s32 (psize * 4); data_size = s32 (bwidth buffer * 4);
               mem = new_memory libs (stride * fh)
           in if \<not> (bwidth buffer \<le> fw \<and> bheight buffer \<le> fh) then None
              else if row_size < 0 \<or> left_size < 0 \<or> data_size < 0 then None
              else
                (let mem = fill_rows (nat lsize) (nat row_size) (nat stride) 0 mem;
                     dst = nat lsize * nat stride;
                     mem = copy_rows (nat (bheight buffer)) (nat left_size) (nat data_size) (nat left_size)
                             (nat stride) (nat (bstride buffer)) (image_data libs s) 0 dst mem;
                     dst = dst + nat (bheight buffer) * nat stride;
                     mem = fill_rows (nat lsize) (nat row_size) (nat stride) dst mem
                 in Some (Some \<lparr>fwidth = fw, fheight = fh, linesize = stride, fdata = mem\<rparr>, script))))"

text \<open>
  The margins of \<open>guacenc_video_prepare_frame\<close>: letterboxes and pillarboxes, for an image of \<open>bw\<close> by
  \<open>bh\<close> pixels on a frame of \<open>dw\<close> by \<open>dh\<close>. \<open>None\<close> is a division by zero or a failed assertion.
\<close>

definition frame_margins :: "int \<Rightarrow> int \<Rightarrow> int \<Rightarrow> int \<Rightarrow> (int \<times> int) option" where
  "frame_margins bw bh dw dh =
     (if bw = 0 \<or> bh = 0 then None
      else
        (let scaled_width = c_div (s32 (bw * dh)) bh;
             scaled_height = c_div (s32 (bh * dw)) bw
         in if scaled_width \<le> dw then
              if dh = 0 then None
              else Some (0, c_div (c_div (s32 (s32 (dw - scaled_width) * bh)) dh) 2)
            else if \<not> scaled_height \<le> dh then None
            else if dw = 0 then None
            else Some (c_div (c_div (s32 (s32 (dh - scaled_height) * bw)) dw) 2, 0)))"

definition guacenc_video_prepare_frame ::
    "guacenc_libs \<Rightarrow> guacenc_video \<Rightarrow> guacenc_buffer option \<Rightarrow> guacenc_video option" where
  "guacenc_video_prepare_frame libs video buffer =
     (case buffer of
        None \<Rightarrow> Some video
      | Some b \<Rightarrow>
          (case surface b of
             None \<Rightarrow> Some video
           | Some s \<Rightarrow>
               (case frame_margins (bwidth b) (bheight b) (vwidth video) (vheight video) of
                  None \<Rightarrow> None
                | Some (lsize, psize) \<Rightarrow>
                    (case guacenc_video_frame_convert libs b s lsize psize (av_script video) of
                       None \<Rightarrow> None
                     | Some (None, script) \<Rightarrow> Some (video\<lparr>av_script := script\<rparr>)
                     | Some (Some src, script) \<Rightarrow>
                         (case next_alloc script of (sws, script) \<Rightarrow>
                            if \<not> sws then Some (video\<lparr>av_script := script\<rparr>)
                            else Some (video\<lparr>av_script := script, next_frame := Scaled src\<rparr>))))))"

text \<open>The final loop of \<open>guacenc_video_free\<close>, which flushes the encoder.\<close>

lemma receive_packets_script [simp]:
  "encoder_script (receive_packets ps v) = encoder_script v"
  by (induction ps arbitrary: v)
    (auto simp: guacenc_write_packet_def Let_def split: list.splits)

lemma write_frame_consumes:
  "guacenc_video_write_frame v frm = (r, v') \<Longrightarrow> 0 < r \<Longrightarrow>
    length (encoder_script v') < length (encoder_script v)"
  by (auto simp: guacenc_video_write_frame_def guacenc_avcodec_encode_video_def Let_def
      split: list.splits encoder_result.splits prod.splits if_splits)

function drain_frames :: "guacenc_video \<Rightarrow> guacenc_video" where
  "drain_frames video =
     (case guacenc_video_write_frame video None of (retval, video) \<Rightarrow>
        if retval > 0 then drain_frames video else video)"
  by pat_completeness auto
termination
  by (relation "measure (\<lambda>v. length (encoder_script v))") (auto dest: sym write_frame_consumes)

declare drain_frames.simps [simp del]

definition guacenc_video_free :: "guacenc_video \<Rightarrow> int \<times> guacenc_video" where
  "guacenc_video_free video = (0, drain_frames (snd (guacenc_video_flush_frame video)))"

section \<open>The timeline\<close>

text \<open>An encoder that accepts every frame.\<close>

definition encoder_accepts :: "guacenc_video \<Rightarrow> bool" where
  "encoder_accepts v = list_all (\<lambda>r. \<exists>ps. r = Encoder_Packets ps) (encoder_script v)"

text \<open>
  What the display does at each \<open>sync\<close>: the timeline is advanced to the timestamp, then the picture of
  the display becomes the next frame.
\<close>

primrec run_syncs :: "(int \<times> picture) list \<Rightarrow> guacenc_video \<Rightarrow> int \<times> guacenc_video" where
  "run_syncs [] v = (0, v)"
| "run_syncs (x # xs) v =
     (case guacenc_video_advance_timeline v (fst x) of (r, v) \<Rightarrow>
        if r \<noteq> 0 then (r, v) else run_syncs xs (v\<lparr>next_frame := snd x\<rparr>))"

lemma run_syncs_append:
  "run_syncs (xs @ ys) v = (case run_syncs xs v of (r, v) \<Rightarrow> if r \<noteq> 0 then (r, v) else run_syncs ys v)"
  by (induction xs arbitrary: v) (auto split: prod.splits)

text \<open>The picture of the last sync before a point in time.\<close>

definition picture_before :: "(int \<times> picture) list \<Rightarrow> int \<Rightarrow> picture" where
  "picture_before xs t = snd (last (takeWhile (\<lambda>x. fst x < t) xs))"

lemma receive_packets_frame [simp]:
  "next_pts (receive_packets ps v) = next_pts v" "last_timestamp (receive_packets ps v) = last_timestamp v"
  "next_frame (receive_packets ps v) = next_frame v" "encoded (receive_packets ps v) = encoded v"
  by (induction ps arbitrary: v; auto simp: guacenc_write_packet_def Let_def split: list.splits)+

lemma flush_frame_accepted:
  assumes "encoder_accepts v" "0 \<le> next_pts v" "next_pts v < 2 ^ 63 - 1"
  shows "\<exists>v'. guacenc_video_flush_frame v = (0, v') \<and> encoder_accepts v' \<and> next_pts v' = next_pts v + 1
    \<and> last_timestamp v' = last_timestamp v \<and> next_frame v' = next_frame v
    \<and> encoded v' = encoded v @ [Some (next_pts v, next_frame v)]"
  using assms
  by (cases "encoder_script v")
    (auto simp: guacenc_video_flush_frame_def guacenc_video_write_frame_def guacenc_avcodec_encode_video_def
      encoder_accepts_def Let_def s64_id in_s64_def)

lemma flush_frames_accepted:
  assumes "encoder_accepts v" "0 \<le> next_pts v" "next_pts v + int n < 2 ^ 63"
  shows "\<exists>v'. flush_frames n v = (0, v') \<and> encoder_accepts v' \<and> next_pts v' = next_pts v + int n
    \<and> last_timestamp v' = last_timestamp v \<and> next_frame v' = next_frame v
    \<and> encoded v' = encoded v @ map (\<lambda>k. Some (next_pts v + int k, next_frame v)) [0..<n]"
  using assms
proof (induction n arbitrary: v)
  case (Suc n)
  from flush_frame_accepted[OF Suc.prems(1,2)] Suc.prems(3) obtain v1 where
    1: "guacenc_video_flush_frame v = (0, v1)" "encoder_accepts v1" "next_pts v1 = next_pts v + 1"
    "last_timestamp v1 = last_timestamp v" "next_frame v1 = next_frame v"
    "encoded v1 = encoded v @ [Some (next_pts v, next_frame v)]"
    by auto
  from Suc.IH[OF 1(2)] 1(3) Suc.prems obtain v2 where
    2: "flush_frames n v1 = (0, v2)" "encoder_accepts v2" "next_pts v2 = next_pts v1 + int n"
    "last_timestamp v2 = last_timestamp v1" "next_frame v2 = next_frame v1"
    "encoded v2 = encoded v1 @ map (\<lambda>k. Some (next_pts v1 + int k, next_frame v1)) [0..<n]"
    by auto
  have "map (\<lambda>k. Some (next_pts v + int k, next_frame v)) [0..<Suc n] =
      Some (next_pts v, next_frame v) # map (\<lambda>k. Some (next_pts v + 1 + int k, next_frame v)) [0..<n]"
    unfolding upt_conv_Cons[OF zero_less_Suc] map_Suc_upt[symmetric] by (simp add: comp_def algebra_simps)
  with 1 2 show ?case by simp
qed simp


lemma elapsed_frames:
  assumes "0 \<le> d" "d < 85899320"
  shows "s32 (c_div (s64 (s64 d * 25)) 1000) = d div 40" "0 \<le> d div 40" "d div 40 \<le> 2147482"
proof -
  have "d * 25 div 1000 = d * 25 div (40 * 25)" by simp
  also have "\<dots> = d div 40" by (subst div_mult_mult2) simp_all
  finally have eq: "d * 25 div 1000 = d div 40" .
  show b: "0 \<le> d div 40" "d div 40 \<le> 2147482" using assms by simp_all
  have "s64 (s64 d * 25) = d * 25" using assms by (simp add: s64_id in_s64_def)
  then have "c_div (s64 (s64 d * 25)) 1000 = d div 40" using assms eq by (simp add: c_div_nonneg)
  then show "s32 (c_div (s64 (s64 d * 25)) 1000) = d div 40" using b by (simp add: s32_id in_s32_def)
qed

lemma advance_accepted:
  assumes "encoder_accepts v" "last_timestamp v \<noteq> 0" "0 \<le> next_pts v" "0 \<le> last_timestamp v"
    "last_timestamp v \<le> t" "t - last_timestamp v < 85899320" "t < 2 ^ 62" "next_pts v < 2 ^ 62"
  defines "m \<equiv> (t - last_timestamp v) div 40"
  shows "\<exists>v'. guacenc_video_advance_timeline v t = (0, v') \<and> encoder_accepts v'
    \<and> last_timestamp v' = last_timestamp v + 40 * m \<and> next_pts v' = next_pts v + m
    \<and> next_frame v' = next_frame v
    \<and> encoded v' = encoded v @ map (\<lambda>k. Some (next_pts v + int k, next_frame v)) [0..<nat m]"
proof -
  have m: "s32 (c_div (s64 (s64 (t - last_timestamp v) * 25)) 1000) = m" "0 \<le> m" "m \<le> 2147482"
    unfolding m_def using assms(5,6) by (intro elapsed_frames; simp)+
  show ?thesis
  proof (cases "m = 0")
    case True
    then show ?thesis using assms(1,2) m by (simp add: guacenc_video_advance_timeline_def)
  next
    case False
    have "m * 40 \<le> t - last_timestamp v" unfolding m_def by simp
    then have "s64 (last_timestamp v + c_div (s32 (m * 1000)) 25) = last_timestamp v + 40 * m"
      using m assms(4,7) by (simp add: s32_id in_s32_def s64_id in_s64_def c_div_nonneg)
    moreover obtain v' where "flush_frames (nat m) v = (0, v')" "encoder_accepts v'" "next_pts v' = next_pts v + m"
      "next_frame v' = next_frame v"
      "encoded v' = encoded v @ map (\<lambda>k. Some (next_pts v + int k, next_frame v)) [0..<nat m]"
      using flush_frames_accepted[OF assms(1,3), of "nat m"] m assms(8) by auto
    moreover have "m mod 2 ^ 32 = m" using m by simp
    ultimately show ?thesis
      using assms(2) m False by (auto simp: guacenc_video_advance_timeline_def Let_def encoder_accepts_def)
  qed
qed

text \<open>
  Timestamps that do not decrease, the first positive, with gaps of at most 23 hours.
\<close>

definition steady :: "(int \<times> picture) list \<Rightarrow> bool" where
  "steady xs = (xs \<noteq> [] \<and> 0 < fst (hd xs) \<and> fst (last xs) < 2 ^ 62
     \<and> successively (\<lambda>x y. fst x \<le> fst y \<and> fst y - fst x \<le> 82800000) xs)"

lemma steady_snoc:
  "xs \<noteq> [] \<Longrightarrow> steady (xs @ [x]) \<Longrightarrow> steady xs \<and> fst (last xs) \<le> fst x \<and> fst x - fst (last xs) \<le> 82800000"
  by (auto simp: steady_def successively_append_iff)

lemma steady_mono: "steady xs \<Longrightarrow> x \<in> set xs \<Longrightarrow> fst (hd xs) \<le> fst x \<and> fst x \<le> fst (last xs)"
proof (induction xs arbitrary: x rule: rev_induct)
  case (snoc y ys)
  show ?case
  proof (cases "ys = []")
    case False
    from steady_snoc[OF False snoc.prems(1)] have ys: "steady ys" "fst (last ys) \<le> fst y" by simp_all
    have "fst (hd ys) \<le> fst (last ys)" using snoc.IH[OF ys(1), of "last ys"] False by simp
    moreover have "x = y \<or> fst (hd ys) \<le> fst x \<and> fst x \<le> fst (last ys)"
      using snoc.IH[OF ys(1), of x] snoc.prems(2) by auto
    ultimately show ?thesis using ys(2) False by auto
  qed (use snoc.prems in simp)
qed (simp add: steady_def)

lemma picture_before_snoc:
  "t \<le> fst y \<Longrightarrow> picture_before (xs @ [y]) t = picture_before xs t"
  unfolding picture_before_def by (cases "\<forall>x \<in> set xs. fst x < t") (auto simp: takeWhile_append takeWhile_eq_all_conv[THEN iffD2])

lemma picture_before_last:
  assumes "steady xs" "fst (last xs) < t"
  shows "picture_before xs t = snd (last xs)"
proof -
  have "takeWhile (\<lambda>x. fst x < t) xs = xs"
    using steady_mono[OF assms(1)] assms(2) by (subst takeWhile_eq_all_conv) force
  then show ?thesis unfolding picture_before_def by (rule arg_cong)
qed

definition timeline :: "(int \<times> picture) list \<Rightarrow> guacenc_video \<Rightarrow> bool" where
  "timeline xs v =
     (let t0 = fst (hd xs); n = (fst (last xs) - t0) div 40
      in encoder_accepts v \<and> next_pts v = n \<and> last_timestamp v = t0 + 40 * n
         \<and> next_frame v = snd (last xs)
         \<and> encoded v = map (\<lambda>k. Some (int k, picture_before xs (t0 + 40 * (int k + 1)))) [0..<nat n])"

lemma timeline_step:
  assumes "xs \<noteq> []" "steady (xs @ [x])" "timeline xs v"
  shows "\<exists>v'. guacenc_video_advance_timeline v (fst x) = (0, v') \<and> timeline (xs @ [x]) (v'\<lparr>next_frame := snd x\<rparr>)"
proof -
  define t0 where "t0 = fst (hd xs)"
  define n where "n = (fst (last xs) - t0) div 40"
  define n' where "n' = (fst x - t0) div 40"
  from steady_snoc[OF assms(1,2)] have s: "steady xs" "fst (last xs) \<le> fst x" "fst x - fst (last xs) \<le> 82800000"
    by simp_all
  have t0: "0 < t0" "t0 \<le> fst (last xs)" "fst x < 2 ^ 62"
    using s(1) steady_mono[OF s(1), of "last xs"] assms(1,2) by (auto simp: t0_def steady_def)
  have v: "encoder_accepts v" "next_pts v = n" "last_timestamp v = t0 + 40 * n" "next_frame v = snd (last xs)"
    "encoded v = map (\<lambda>k. Some (int k, picture_before xs (t0 + 40 * (int k + 1)))) [0..<nat n]"
    using assms(3) by (auto simp: timeline_def Let_def t0_def n_def)
  have n: "0 \<le> n" "40 * n \<le> fst (last xs) - t0" "fst (last xs) - t0 < 40 * n + 40"
    using t0 by (auto simp: n_def)
  have n': "n \<le> n'" "40 * n' \<le> fst x - t0" using s(2) by (auto simp: n_def n'_def zdiv_mono1)
  have m: "(fst x - last_timestamp v) div 40 = n' - n"
    using div_mult_self1[of 40 "fst x - t0 - 40 * n" n] by (simp add: v(3) n'_def algebra_simps)
  from advance_accepted[OF v(1), of "fst x"] v(2,3) n t0 s obtain v' where
    a: "guacenc_video_advance_timeline v (fst x) = (0, v')" "encoder_accepts v'"
    "last_timestamp v' = t0 + 40 * n'" "next_pts v' = n'" "next_frame v' = next_frame v"
    "encoded v' = encoded v @ map (\<lambda>k. Some (n + int k, next_frame v)) [0..<nat (n' - n)]"
    unfolding m by auto
  define tk where "tk = (\<lambda>k. t0 + 40 * (int k + 1))"
  have split: "[0..<nat n'] = [0..<nat n] @ map (\<lambda>k. k + nat n) [0..<nat (n' - n)]"
    using n(1) n'(1) upt_add_eq_append[of 0 "nat n" "nat n' - nat n"]
    by (simp add: map_add_upt nat_diff_distrib)
  have old: "picture_before (xs @ [x]) (tk k) = picture_before xs (tk k)" if "int k < n'" for k
  proof (rule picture_before_snoc)
    show "tk k \<le> fst x" using that n'(2) unfolding tk_def distrib_left by linarith
  qed
  have new: "picture_before xs (tk k) = next_frame v" if "n \<le> int k" for k
  proof -
    have "fst (last xs) < tk k" using that n unfolding tk_def distrib_left by linarith
    then show ?thesis unfolding v(4) by (rule picture_before_last[OF s(1)])
  qed
  have "map (\<lambda>k. Some (int k, picture_before (xs @ [x]) (tk k))) [0..<nat n'] = encoded v'"
    unfolding split a(6) v(5)[folded tk_def] map_append using n(1) n'(1)
    by (auto simp: old new) (simp add: tk_def)
  with a show ?thesis using assms(1) unfolding tk_def by (auto simp: timeline_def Let_def t0_def n'_def encoder_accepts_def)
qed

lemma timeline_all:
  assumes "steady xs" "encoder_accepts v" "last_timestamp v = 0" "next_pts v = 0" "encoded v = []"
  shows "\<exists>v'. run_syncs xs v = (0, v') \<and> timeline xs v'"
  using assms(1)
proof (induction xs rule: rev_induct)
  case (snoc x xs)
  show ?case
  proof (cases "xs = []")
    case True
    then show ?thesis using assms
      by (auto simp: timeline_def guacenc_video_advance_timeline_def encoder_accepts_def)
  next
    case False
    from snoc.IH steady_snoc[OF False snoc.prems] obtain v1 where 1: "run_syncs xs v = (0, v1)" "timeline xs v1" by auto
    from timeline_step[OF False snoc.prems 1(2)] obtain v2 where
      "guacenc_video_advance_timeline v1 (fst x) = (0, v2)" "timeline (xs @ [x]) (v2\<lparr>next_frame := snd x\<rparr>)" by auto
    with 1 show ?thesis by (simp add: run_syncs_append)
  qed
qed (simp add: steady_def)

section \<open>Margins and rows\<close>

lemma fill_rows_length:
  assumes "dst + n * stride \<le> length mem" "bytes \<le> stride"
  shows "length (fill_rows n bytes stride dst mem) = length mem"
  using assms
proof (induction n arbitrary: dst mem)
  case (Suc n)
  have "dst + bytes \<le> length mem" using Suc.prems by simp
  with Suc show ?case by simp
qed simp

text \<open>The first \<open>w\<close> bytes of row \<open>i\<close> of a memory block.\<close>

definition row :: "nat \<Rightarrow> nat \<Rightarrow> byte list \<Rightarrow> nat \<Rightarrow> byte list" where
  "row stride w mem i = take w (drop (i * stride) mem)"

lemma row_mem_write:
  assumes "j * stride + off + length bs \<le> length mem" "off + length bs \<le> stride" "w \<le> stride"
    "(i + 1) * stride \<le> length mem"
  shows "row stride w (mem_write mem (j * stride + off) bs) i =
    (if i = j then take w (mem_write (row stride stride mem i) off bs) else row stride w mem i)"
proof (rule nth_equalityI)
  have len: "length (mem_write mem (j * stride + off) bs) = length mem" using assms(1) by simp
  have r: "length (row stride v m i) = v" if "v \<le> stride" "length m = length mem" for v m
    using that assms(4) by (simp add: row_def)
  show "length (row stride w (mem_write mem (j * stride + off) bs) i) =
      length (if i = j then take w (mem_write (row stride stride mem i) off bs) else row stride w mem i)"
    using r[of w mem] r[of w, OF assms(3) len] r[of stride mem] assms(2,3) by (cases "i = j") simp_all
  fix k assume "k < length (row stride w (mem_write mem (j * stride + off) bs) i)"
  then have k: "k < w" using r len assms(3) by simp
  have ik: "i * stride + k < length mem" using k assms(3,4) by simp
  have lhs: "row stride w (mem_write mem (j * stride + off) bs) i ! k = mem_write mem (j * stride + off) bs ! (i * stride + k)"
    using k ik len by (simp add: row_def)
  show "row stride w (mem_write mem (j * stride + off) bs) i ! k =
      (if i = j then take w (mem_write (row stride stride mem i) off bs) else row stride w mem i) ! k"
  proof (cases "i = j")
    case True
    have "mem_write (row stride stride mem i) off bs ! k =
      (if k < off then row stride stride mem i ! k else if k < off + length bs then bs ! (k - off) else row stride stride mem i ! k)"
      using k assms(2,3) r by (intro nth_mem_write) simp_all
    moreover have "row stride stride mem i ! k = mem ! (i * stride + k)"
      using k ik assms(3) by (simp add: row_def)
    ultimately show ?thesis
      unfolding lhs nth_mem_write[OF assms(1) ik] using True k by simp
  next
    case False
    have "i * stride + k < j * stride \<or> j * stride + off + length bs \<le> i * stride + k"
    proof (cases "i < j")
      case True
      then have "(i + 1) * stride \<le> j * stride" by (intro mult_le_mono1) simp
      then show ?thesis using k assms(3) by simp
    next
      case False
      then have "(j + 1) * stride \<le> i * stride" using \<open>i \<noteq> j\<close> by (intro mult_le_mono1) simp
      then show ?thesis using assms(2) by simp
    qed
    then show ?thesis
      unfolding lhs nth_mem_write[OF assms(1) ik] using False k ik by (auto simp: row_def)
  qed
qed

lemma row_fill_rows:
  assumes "(j + n) * stride \<le> length mem" "bytes \<le> stride" "(i + 1) * stride \<le> length mem"
  shows "row stride bytes (fill_rows n bytes stride (j * stride) mem) i =
    (if j \<le> i \<and> i < j + n then replicate bytes 0 else row stride bytes mem i)"
  using assms
proof (induction n arbitrary: j mem)
  case (Suc n)
  let ?mem = "mem_write mem (j * stride + 0) (replicate bytes 0)"
  have j: "j * stride + 0 + length (replicate bytes (0 :: byte)) \<le> length mem" 
    using Suc.prems(1,2) by (simp add: distrib_right)
  have r: "row stride bytes ?mem i =
      (if i = j then take bytes (mem_write (row stride stride mem i) 0 (replicate bytes 0)) else row stride bytes mem i)"
    using Suc.prems(2,3) j by (intro row_mem_write) simp_all
  have "(Suc j + n) * stride \<le> length ?mem" "(i + 1) * stride \<le> length ?mem" using Suc.prems j by simp_all
  from Suc.IH[OF this(1) Suc.prems(2) this(2)]
  have "row stride bytes (fill_rows n bytes stride (Suc j * stride) ?mem) i =
      (if Suc j \<le> i \<and> i < Suc j + n then replicate bytes 0 else row stride bytes ?mem i)" .
  with r show ?case by (auto simp: add.commute mem_write_def)
qed auto

lemma row_take: "w \<le> stride \<Longrightarrow> row stride w mem i = take w (row stride stride mem i)"
  by (simp add: row_def min_def)

lemma full_row_mem_write:
  assumes "j * stride + off + length bs \<le> length mem" "off + length bs \<le> stride" "(i + 1) * stride \<le> length mem"
  shows "row stride stride (mem_write mem (j * stride + off) bs) i =
    (if i = j then mem_write (row stride stride mem i) off bs else row stride stride mem i)"
  using row_mem_write[OF assms(1,2) order_refl assms(3)] assms by (auto simp: row_def)

definition copy_row :: "nat \<Rightarrow> nat \<Rightarrow> byte list \<Rightarrow> byte list \<Rightarrow> byte list" where
  "copy_row l r d mem = mem_write (mem_write (mem_write mem 0 (replicate l 0)) l d) (l + length d) (replicate r 0)"

lemma copy_row_eq:
  "l + length d + r \<le> length mem \<Longrightarrow> take (l + length d + r) (copy_row l r d mem) = replicate l 0 @ d @ replicate r 0"
  by (simp add: copy_row_def mem_write_def)

lemma row_copy_rows:
  assumes "(j + n) * stride \<le> length mem" "l + d + r \<le> stride" "(i + 1) * stride \<le> length mem"
    "src + n * sstride \<le> length sm" "d \<le> sstride"
  shows "row stride (l + d + r) (copy_rows n l d r stride sstride sm src (j * stride) mem) i =
      (if j \<le> i \<and> i < j + n then replicate l 0 @ take d (drop (src + (i - j) * sstride) sm) @ replicate r 0
       else row stride (l + d + r) mem i)
    \<and> length (copy_rows n l d r stride sstride sm src (j * stride) mem) = length mem"
  using assms
proof (induction n arbitrary: j mem src)
  case (Suc n)
  let ?d = "take d (drop src sm)"
  let ?m1 = "mem_write mem (j * stride + 0) (replicate l 0)"
  let ?m2 = "mem_write ?m1 (j * stride + l) ?d"
  let ?m3 = "mem_write ?m2 (j * stride + (l + d)) (replicate r 0)"
  have d: "length ?d = d" using Suc.prems(4,5) by simp
  have room: "j * stride + stride \<le> length mem" using Suc.prems(1) by (simp add: distrib_right)
  have len: "length ?m1 = length mem" "length ?m2 = length mem" "length ?m3 = length mem"
    using room Suc.prems(2) d by simp_all
  have rows: "row stride stride ?m3 i =
      (if i = j then copy_row l r ?d (row stride stride mem i) else row stride stride mem i)"
  proof -
    have "row stride stride ?m1 i = (if i = j then mem_write (row stride stride mem i) 0 (replicate l 0)
        else row stride stride mem i)"
      by (rule full_row_mem_write) (use room Suc.prems(2,3) in simp_all)
    moreover have "row stride stride ?m2 i = (if i = j then mem_write (row stride stride ?m1 i) l ?d
        else row stride stride ?m1 i)"
      by (rule full_row_mem_write) (use room Suc.prems(2,3) d len in simp_all)
    moreover have "row stride stride ?m3 i = (if i = j then mem_write (row stride stride ?m2 i) (l + d) (replicate r 0)
        else row stride stride ?m2 i)"
      by (rule full_row_mem_write) (use room Suc.prems(2,3) d len in simp_all)
    ultimately show ?thesis unfolding copy_row_def d by (metis (no_types))
  qed
  have full: "length (row stride stride mem i) = stride" using Suc.prems(3) by (simp add: row_def)
  define m3 where "m3 = ?m3"
  have row3: "row stride (l + d + r) m3 i =
      (if i = j then replicate l 0 @ ?d @ replicate r 0 else row stride (l + d + r) mem i)"
    unfolding m3_def row_take[OF Suc.prems(2)] rows
    using copy_row_eq[of l ?d r "row stride stride mem i"] full Suc.prems(2) d by auto
  have unf: "copy_rows (Suc n) l d r stride sstride sm src (j * stride) mem =
      copy_rows n l d r stride sstride sm (src + sstride) (Suc j * stride) m3"
    unfolding m3_def by (simp add: Let_def ac_simps)
  have len3: "length m3 = length mem" unfolding m3_def by (rule len(3))
  then have "(Suc j + n) * stride \<le> length m3" "(i + 1) * stride \<le> length m3"
    "src + sstride + n * sstride \<le> length sm"
    using Suc.prems by simp_all
  note IH = Suc.IH[OF this(1) Suc.prems(2) this(2,3) Suc.prems(5)]
  have next_row: "src + sstride + (i - Suc j) * sstride = src + (i - j) * sstride" if "Suc j \<le> i"
    using that by (metis Suc_diff_Suc Suc_le_lessD mult_Suc add.assoc)
  consider "i = j" | "Suc j \<le> i" | "i < j" by linarith
  then show ?case unfolding unf by cases (use IH row3 next_row len3 in \<open>auto simp: add.assoc\<close>)
qed auto

text \<open>The pixels of a converted frame, row by row.\<close>

definition frame_row :: "av_frame \<Rightarrow> nat \<Rightarrow> byte list" where
  "frame_row f i = row (nat (linesize f)) (nat (4 * fwidth f)) (fdata f) i"

definition source_row :: "guacenc_libs \<Rightarrow> guacenc_buffer \<Rightarrow> cairo_surface \<Rightarrow> nat \<Rightarrow> byte list" where
  "source_row libs b s i = take (nat (4 * bwidth b)) (drop (i * nat (bstride b)) (image_data libs s))"


text \<open>
  What libavutil and cairo promise: rows have room for their pixels, memory has the size asked for.
\<close>

definition memory_libs :: "guacenc_libs \<Rightarrow> bool" where
  "memory_libs libs = ((\<forall>w > 0. 4 * w \<le> linesize_for libs w) \<and> (\<forall>n \<ge> 0. length (new_memory libs n) = nat n))"

definition image_ok :: "guacenc_libs \<Rightarrow> guacenc_buffer \<Rightarrow> cairo_surface \<Rightarrow> bool" where
  "image_ok libs b s = (4 * bwidth b \<le> bstride b \<and> length (image_data libs s) = nat (bstride b) * nat (bheight b))"

lemma convert_sizes:
  assumes "0 < bwidth b" "0 < bheight b" "0 \<le> lsize" "0 \<le> psize"
    and "4 * (bwidth b + 2 * psize) < 2 ^ 31" "bheight b + 2 * lsize < 2 ^ 31"
  shows "s32 (s32 (bwidth b + psize) + psize) = bwidth b + 2 * psize"
    "s32 (s32 (bheight b + lsize) + lsize) = bheight b + 2 * lsize"
    "s32 ((bwidth b + 2 * psize) * 4) = 4 * (bwidth b + 2 * psize)"
    "s32 (psize * 4) = 4 * psize" "s32 (bwidth b * 4) = 4 * bwidth b"
  using assms by (simp_all add: s32_id in_s32_def)

lemma frame_convert_rows:
  assumes b: "0 < bwidth b" "0 < bheight b" "0 \<le> lsize" "0 \<le> psize"
      "4 * (bwidth b + 2 * psize) < 2 ^ 31" "bheight b + 2 * lsize < 2 ^ 31"
    and libs: "memory_libs libs" "image_ok libs b s" and av: "all_available 2 script = (True, script')"
  shows "\<exists>f. guacenc_video_frame_convert libs b s lsize psize script = Some (Some f, script')
    \<and> fwidth f = bwidth b + 2 * psize \<and> fheight f = bheight b + 2 * lsize
    \<and> length (fdata f) = nat (fheight f) * nat (linesize f)
    \<and> (\<forall>i < nat (fheight f). frame_row f i =
         (if nat lsize \<le> i \<and> i < nat (lsize + bheight b)
          then replicate (nat (4 * psize)) 0 @ source_row libs b s (i - nat lsize) @ replicate (nat (4 * psize)) 0
          else replicate (nat (4 * fwidth f)) 0))"
proof -
  define fw where "fw = bwidth b + 2 * psize"
  define stride where "stride = nat (linesize_for libs fw)"
  define w where "w = nat (4 * fw)"
  define m0 where "m0 = new_memory libs (linesize_for libs fw * (bheight b + 2 * lsize))"
  define L where "L = nat lsize"
  define H where "H = nat (bheight b)"
  define m1 where "m1 = fill_rows L w stride (0 * stride) m0"
  define m2 where "m2 = copy_rows H (nat (4 * psize)) (nat (4 * bwidth b)) (nat (4 * psize)) stride
    (nat (bstride b)) (image_data libs s) 0 (L * stride) m1"
  define m3 where "m3 = fill_rows L w stride ((L + H) * stride) m2"
  have fw: "0 < fw" using b by (simp add: fw_def)
  have line: "4 * fw \<le> linesize_for libs fw" using libs(1) fw by (auto simp: memory_libs_def)
  have H: "int H = bheight b" "int L = lsize" using b by (simp_all add: H_def L_def)
  have w: "w \<le> stride" "w = nat (4 * psize) + nat (4 * bwidth b) + nat (4 * psize)"
    using line b fw by (simp_all add: w_def stride_def fw_def)
  have "length m0 = nat (linesize_for libs fw * (bheight b + 2 * lsize))"
    using libs(1) mult_nonneg_nonneg[of "linesize_for libs fw" "bheight b + 2 * lsize"] b line fw
    unfolding m0_def memory_libs_def by force
  also have "\<dots> = stride * (L + H + L)"
    using b line fw by (simp add: nat_mult_distrib stride_def L_def H_def nat_add_distrib)
  finally have m0: "length m0 = (L + H + L) * stride" by simp
  have m1: "length m1 = (L + H + L) * stride"
    unfolding m1_def using m0 w(1) by (subst fill_rows_length) simp_all
  have src: "0 + H * nat (bstride b) \<le> length (image_data libs s)" "nat (4 * bwidth b) \<le> nat (bstride b)"
    using libs(2) by (auto simp: image_ok_def H_def nat_mono)
  have row_in: "(i + 1) * stride \<le> (L + H + L) * stride" if "i < L + H + L" for i
    using that by (intro mult_le_mono1) simp
  have copied: "row stride w m2 i = (if L \<le> i \<and> i < L + H
        then replicate (nat (4 * psize)) 0 @ source_row libs b s (i - L) @ replicate (nat (4 * psize)) 0
        else row stride w m1 i) \<and> length m2 = length m1" if "i < L + H + L" for i
    unfolding m2_def w(2) source_row_def
    using row_copy_rows[of L H stride m1 "nat (4 * psize)" "nat (4 * bwidth b)" "nat (4 * psize)" i 0
        "nat (bstride b)" "image_data libs s"] src w row_in[OF that] m1 by (simp add: distrib_right)
  have m2: "length m2 = (L + H + L) * stride" using copied[of 0] m1 b by (simp add: H_def)
  have m3: "length m3 = (L + H + L) * stride"
    unfolding m3_def using m2 w(1) by (subst fill_rows_length) (simp_all add: distrib_right)
  have rows: "row stride w m3 i = (if L \<le> i \<and> i < L + H
        then replicate (nat (4 * psize)) 0 @ source_row libs b s (i - L) @ replicate (nat (4 * psize)) 0
        else replicate w 0)" if "i < L + H + L" for i
    unfolding m3_def
    using row_fill_rows[of "L + H" L stride m2 w i] copied[OF that] row_fill_rows[of 0 L stride m0 w i]
      row_in[OF that] m0 m1 m2 w(1) that unfolding m1_def by (auto simp: distrib_right)
  have "guacenc_video_frame_convert libs b s lsize psize script =
      Some (Some \<lparr>fwidth = fw, fheight = bheight b + 2 * lsize, linesize = linesize_for libs fw, fdata = m3\<rparr>, script')"
    unfolding guacenc_video_frame_convert_def av Let_def convert_sizes[OF b] m3_def m2_def m1_def m0_def
    using b by (simp add: w_def fw_def stride_def L_def H_def distrib_right)
  moreover have h: "nat (bheight b + 2 * lsize) = L + H + L" "nat (lsize + bheight b) = L + H"
    using b by (simp_all add: L_def H_def nat_add_distrib flip: mult_2)
  have "frame_row \<lparr>fwidth = fw, fheight = bheight b + 2 * lsize, linesize = linesize_for libs fw, fdata = m3\<rparr> i =
      (if L \<le> i \<and> i < nat (lsize + bheight b)
       then replicate (nat (4 * psize)) 0 @ source_row libs b s (i - L) @ replicate (nat (4 * psize)) 0
       else replicate (nat (4 * fw)) 0)" if "i < nat (bheight b + 2 * lsize)" for i
    using rows[of i] that unfolding frame_row_def h w_def stride_def by simp
  moreover have "length m3 = nat (bheight b + 2 * lsize) * nat (linesize_for libs fw)"
    unfolding m3 h stride_def by simp
  ultimately show ?thesis unfolding fw_def L_def by simp
qed


lemma s32_pos: "0 < x \<Longrightarrow> x < 2 ^ 31 \<Longrightarrow> s32 x = x"
  by (simp add: s32_id in_s32_def)

lemma padded_small:
  fixes bw bh fw fh :: int
  assumes "bw \<le> B" "bh \<le> C" "fw \<le> FW" "fh \<le> FH" "B < 2 ^ 28" "C < 2 ^ 28"
    and "fh = bh \<and> FW < C + bh \<or> fw = bw \<and> FH < B + bw"
  shows "4 * fw < 2 ^ 31" "fh < 2 ^ 31"
  using assms by auto

lemma int_div_bounds: "0 < b \<Longrightarrow> x div b * b \<le> x \<and> x < x div b * b + b" for x b :: int
  using div_mult_mod_eq[of x b] pos_mod_sign[of b x] pos_mod_bound[of b x] by linarith

text \<open>Padding an image of \<open>a\<close> by \<open>b\<close> on both sides so that it fills a frame of \<open>c\<close> by \<open>e\<close>.\<close>

lemma margin_arith:
  fixes a b c e :: int
  assumes "0 < a" "0 < b" "0 < c" "0 < e" "a * e div b \<le> c"
  defines "m \<equiv> (c - a * e div b) * b div e div 2"
  shows "0 \<le> m" "(c - a * e div b) * b \<le> c * b" "c * b - 2 * e < (a + 2 * m) * e" "(a + 2 * m) * e < (c + 1) * b"
proof -
  define q where "q = a * e div b"
  define p where "p = (c - q) * b div e"
  have q: "q * b \<le> a * e" "a * e < q * b + b" "0 \<le> q"
    using int_div_bounds[OF assms(2), of "a * e"] assms(1,2,4) by (simp_all add: q_def pos_imp_zdiv_nonneg_iff)
  have p: "p * e \<le> (c - q) * b" "(c - q) * b < p * e + e" "0 \<le> p"
    using int_div_bounds[OF assms(4), of "(c - q) * b"] assms(2,4,5)
    by (simp_all add: p_def q_def pos_imp_zdiv_nonneg_iff)
  have m: "m = p div 2" by (simp add: m_def p_def q_def)
  then have m2: "2 * m \<le> p" "p \<le> 2 * m + 1" by simp_all
  show "0 \<le> m" using p(3) m by simp
  show "(c - a * e div b) * b \<le> c * b" using q(3) assms(2) by (fold q_def) (intro mult_right_mono, simp_all)
  have "2 * m * e \<le> p * e" "p * e \<le> (2 * m + 1) * e" using m2 assms(4) by (simp_all add: mult_right_mono)
  then show "c * b - 2 * e < (a + 2 * m) * e" "(a + 2 * m) * e < (c + 1) * b"
    using p q unfolding distrib_right left_diff_distrib mult.assoc by linarith+
qed

lemma frame_margins_fit:
  assumes "0 < bw" "0 < bh" "0 < dw" "0 < dh" "bw * dh < 2 ^ 31" "bh * dw < 2 ^ 31"
  shows "\<exists>l p. frame_margins bw bh dw dh = Some (l, p) \<and> 0 \<le> l \<and> 0 \<le> p
    \<and> (l = 0 \<and> dw * bh - 2 * dh < (bw + 2 * p) * dh \<and> (bw + 2 * p) * dh < (dw + 1) * bh
       \<or> p = 0 \<and> dh * bw - 2 * dw < (bh + 2 * l) * dw \<and> (bh + 2 * l) * dw < (dh + 1) * bw)"
proof -
  have pos: "0 < bw * dh" "0 < bh * dw" using assms by simp_all
  have s: "s32 (bw * dh) = bw * dh" by (rule s32_pos[OF pos(1) assms(5)])
  have s': "s32 (bh * dw) = bh * dw" by (rule s32_pos[OF pos(2) assms(6)])
  have divs: "c_div (bw * dh) bh = bw * dh div bh" "c_div (bh * dw) bw = bh * dw div bw"
    "0 \<le> bw * dh div bh" "0 \<le> bh * dw div bw"
    using assms pos by (simp_all add: pos_imp_zdiv_nonneg_iff)
  have small: "dw \<le> dw * bh" "dh \<le> dh * bw" using assms by simp_all
  then have lim: "dw < 2 ^ 31" "dh < 2 ^ 31" using assms(5,6) by (simp_all add: mult.commute)
  show ?thesis
  proof (cases "bw * dh div bh \<le> dw")
    case True
    note m = margin_arith[OF assms(1,2,3,4) True]
    have "s32 (dw - bw * dh div bh) = dw - bw * dh div bh" using True divs(3) lim by (simp add: s32_id in_s32_def)
    moreover have "0 \<le> (dw - bw * dh div bh) * bh" using True assms by simp
    moreover have "s32 ((dw - bw * dh div bh) * bh) = (dw - bw * dh div bh) * bh"
      using calculation(2) m(2) assms(6) by (simp add: s32_id in_s32_def mult.commute)
    moreover have "0 \<le> (dw - bw * dh div bh) * bh div dh" using calculation(2) assms(4) by (simp add: pos_imp_zdiv_nonneg_iff)
    ultimately have "frame_margins bw bh dw dh = Some (0, (dw - bw * dh div bh) * bh div dh div 2)"
      using True assms s s' divs by (simp add: frame_margins_def)
    then show ?thesis using m(1,3,4) by (simp add: mult.commute)
  next
    case False
    have "dw * bh < bw * dh"
    proof -
      have "(dw + 1) * bh \<le> (bw * dh div bh) * bh" using False assms(2) by (intro mult_right_mono) simp_all
      also have "\<dots> \<le> bw * dh" using assms(2) by (metis div_mult_mod_eq less_imp_le pos_mod_sign le_add_same_cancel1)
      finally show ?thesis using assms(2) by (simp add: distrib_right)
    qed
    then have "bh * dw \<le> bw * dh" by (simp add: mult.commute)
    then have le: "bh * dw div bw \<le> dh" using zdiv_mono1[OF _ assms(1), of "bh * dw" "bw * dh"] assms(1) by simp
    note m = margin_arith[OF assms(2,1,4,3) le]
    have "s32 (dh - bh * dw div bw) = dh - bh * dw div bw" using le divs(4) lim by (simp add: s32_id in_s32_def)
    moreover have "0 \<le> (dh - bh * dw div bw) * bw" using le assms by simp
    moreover have "s32 ((dh - bh * dw div bw) * bw) = (dh - bh * dw div bw) * bw"
      using calculation(2) m(2) assms(5) by (simp add: s32_id in_s32_def mult.commute)
    moreover have "0 \<le> (dh - bh * dw div bw) * bw div dw" using calculation(2) assms(3) by (simp add: pos_imp_zdiv_nonneg_iff)
    ultimately have "frame_margins bw bh dw dh = Some ((dh - bh * dw div bw) * bw div dw div 2, 0)"
      using False le assms s s' divs by (simp add: frame_margins_def)
    then show ?thesis using m(1,3,4) by (simp add: mult.commute)
  qed
qed

section \<open>Properties\<close>

text \<open>
  C17. The video does not drift. Take any display updates with timestamps that do not decrease, the
  first positive and no two consecutive ones more than 23 hours apart, and an encoder that accepts
  every frame. Then all frames are flushed: 25 per second of recording, numbered from 0 without
  gaps, the number of frames being exactly the elapsed time divided by 40 ms however finely the
  updates are spaced; and frame \<open>k\<close> shows the display as of the last update before the end of its
  40 ms, duplicating pictures where nothing changed.
\<close>

theorem video_does_not_drift:
  assumes "guacenc_video_alloc w h rate encoder writes script = Some v" "encoder_accepts v" "steady xs"
  shows "\<exists>v'. run_syncs xs v = (0, v')
    \<and> next_pts v' = (fst (last xs) - fst (hd xs)) div 40
    \<and> last_timestamp v' = fst (hd xs) + 40 * next_pts v'
    \<and> last_timestamp v' \<le> fst (last xs) \<and> fst (last xs) < last_timestamp v' + 40
    \<and> encoded v' = map (\<lambda>k. Some (int k, picture_before xs (fst (hd xs) + 40 * (int k + 1))))
        [0..<nat (next_pts v')]"
proof -
  have "last_timestamp v = 0" "next_pts v = 0" "encoded v = []"
    using assms(1) by (auto simp: guacenc_video_alloc_def split: prod.splits if_splits)
  from timeline_all[OF assms(3,2) this] obtain v' where v: "run_syncs xs v = (0, v')" "timeline xs v'" by auto
  let ?d = "fst (last xs) - fst (hd xs)"
  have "40 * (?d div 40) \<le> ?d" "?d < 40 * (?d div 40) + 40" by simp_all
  with v show ?thesis unfolding timeline_def Let_def by (intro exI[of _ v']) auto
qed

theorem video_does_not_drift_witness:
  "\<exists>v v'. guacenc_video_alloc 640 480 1000 [Encoder_Packets [[1]]] [] [] = Some v
     \<and> run_syncs [(1000, Unset), (1030, Unset), (1100, Unset)] v = (0, v')
     \<and> next_pts v' = 2 \<and> last_timestamp v' = 1080 \<and> length (encoded v') = 2"
proof -
  obtain v where v: "guacenc_video_alloc 640 480 1000 [Encoder_Packets [[1]]] [] [] = Some v"
    "encoder_script v = [Encoder_Packets [[1]]]"
    by (simp add: guacenc_video_alloc_def next_alloc_def numeral_eq_Suc)
  have "encoder_accepts v" by (simp add: encoder_accepts_def v(2))
  from video_does_not_drift[OF v(1) this, of "[(1000, Unset), (1030, Unset), (1100, Unset)]"] obtain v' where
    r: "run_syncs [(1000, Unset), (1030, Unset), (1100, Unset)] v = (0, v')"
    and n: "next_pts v' = (1100 - 1000) div 40" "last_timestamp v' = 1000 + 40 * next_pts v'"
    and e: "length (encoded v') = nat (next_pts v')"
    by (auto simp: steady_def simp del: run_syncs.simps)
  from n e have "next_pts v' = 2" "last_timestamp v' = 1080" "length (encoded v') = 2" by simp_all
  with v(1) r show ?thesis by blast
qed

text \<open>
  Frames keep the aspect ratio and lose no pixels: for every image and video of positive sizes
  (products of the sizes below \<open>2 ^ 28\<close>), preparing a frame never fails its assertions; margins are
  added on two opposite sides only, such that the padded image has the proportions of the video up
  to two pixels; the padded image consists row by row of black margins around the unchanged rows of
  the source, written inside the memory of the frame.
\<close>

theorem frame_prepared_with_margins:
  assumes "surface b = Some s" "0 < bwidth b" "0 < bheight b" "0 < vwidth v" "0 < vheight v"
    and "bwidth b * vheight v < 2 ^ 28" "bheight b * vwidth v < 2 ^ 28"
    and "memory_libs libs" "image_ok libs b s" "list_all (\<lambda>ok. ok) (av_script v)"
  shows "\<exists>l p f v'. guacenc_video_prepare_frame libs v (Some b) = Some v' \<and> next_frame v' = Scaled f
    \<and> 0 \<le> l \<and> 0 \<le> p \<and> fwidth f = bwidth b + 2 * p \<and> fheight f = bheight b + 2 * l
    \<and> (l = 0 \<and> vwidth v * bheight b - 2 * vheight v < fwidth f * vheight v
         \<and> fwidth f * vheight v < (vwidth v + 1) * bheight b
       \<or> p = 0 \<and> vheight v * bwidth b - 2 * vwidth v < fheight f * vwidth v
         \<and> fheight f * vwidth v < (vheight v + 1) * bwidth b)
    \<and> length (fdata f) = nat (fheight f) * nat (linesize f)
    \<and> (\<forall>i < nat (fheight f). frame_row f i =
         (if nat l \<le> i \<and> i < nat (l + bheight b)
          then replicate (nat (4 * p)) 0 @ source_row libs b s (i - nat l) @ replicate (nat (4 * p)) 0
          else replicate (nat (4 * fwidth f)) 0))"
proof -
  obtain l p where m: "frame_margins (bwidth b) (bheight b) (vwidth v) (vheight v) = Some (l, p)" "0 \<le> l" "0 \<le> p"
    "l = 0 \<and> vwidth v * bheight b - 2 * vheight v < (bwidth b + 2 * p) * vheight v
         \<and> (bwidth b + 2 * p) * vheight v < (vwidth v + 1) * bheight b
     \<or> p = 0 \<and> vheight v * bwidth b - 2 * vwidth v < (bheight b + 2 * l) * vwidth v
         \<and> (bheight b + 2 * l) * vwidth v < (vheight v + 1) * bwidth b"
    using frame_margins_fit[OF assms(2,3,4,5)] assms(6,7) by force
  have grow: "x \<le> x * y" if "0 \<le> x" "0 < y" for x y :: int
    using mult_left_mono[of 1 y x] that by simp
  have g: "bwidth b \<le> bwidth b * vheight v" "bheight b \<le> bheight b * vwidth v"
    "bwidth b + 2 * p \<le> (bwidth b + 2 * p) * vheight v" "bheight b + 2 * l \<le> (bheight b + 2 * l) * vwidth v"
    using assms(2-5) m(2,3) by (intro grow; simp)+
  have e: "(vwidth v + 1) * bheight b = bheight b * vwidth v + bheight b"
    "(vheight v + 1) * bwidth b = bwidth b * vheight v + bwidth b" by (simp_all add: algebra_simps)
  have pad: "bheight b + 2 * l = bheight b \<and> (bwidth b + 2 * p) * vheight v < bheight b * vwidth v + bheight b
    \<or> bwidth b + 2 * p = bwidth b \<and> (bheight b + 2 * l) * vwidth v < bwidth b * vheight v + bwidth b"
    using m(4) unfolding e by auto
  note lim = padded_small[OF g assms(6,7) pad]
  have ok: "next_alloc xs = (True, tl xs) \<and> list_all (\<lambda>ok. ok) (tl xs)" if "list_all (\<lambda>ok. ok) xs" for xs
    using that by (cases xs) (simp_all add: next_alloc_def)
  define sc where "sc = tl (tl (av_script v))"
  have av: "all_available 2 (av_script v) = (True, sc)" "next_alloc sc = (True, tl sc)"
    using ok[OF assms(10)] ok[of "tl (av_script v)"] ok[of sc] by (simp_all add: sc_def numeral_2_eq_2)
  from frame_convert_rows[OF assms(2,3) m(2,3) lim assms(8,9) av(1)] obtain f where
    f: "guacenc_video_frame_convert libs b s l p (av_script v) = Some (Some f, sc)"
    "fwidth f = bwidth b + 2 * p" "fheight f = bheight b + 2 * l"
    "length (fdata f) = nat (fheight f) * nat (linesize f)"
    "\<forall>i < nat (fheight f). frame_row f i =
         (if nat l \<le> i \<and> i < nat (l + bheight b)
          then replicate (nat (4 * p)) 0 @ source_row libs b s (i - nat l) @ replicate (nat (4 * p)) 0
          else replicate (nat (4 * fwidth f)) 0)"
    by auto
  have "guacenc_video_prepare_frame libs v (Some b) = Some (v\<lparr>av_script := tl sc, next_frame := Scaled f\<rparr>)"
    using assms(1) m(1) f(1) av(2) by (simp add: guacenc_video_prepare_frame_def)
  with m f show ?thesis
    by (intro exI[of _ l] exI[of _ p] exI[of _ f] exI[of _ "v\<lparr>av_script := tl sc, next_frame := Scaled f\<rparr>"]) simp
qed


theorem frame_prepared_with_margins_witness:
  "\<exists>libs v b s f v'. surface b = Some s \<and> bwidth b = 2 \<and> bheight b = 1 \<and> image_ok libs b s \<and> memory_libs libs
     \<and> guacenc_video_prepare_frame libs v (Some b) = Some v' \<and> next_frame v' = Scaled f
     \<and> length (fdata f) = nat (fheight f) * nat (linesize f)"
proof -
  let ?libs = "example_libs\<lparr>image_data := \<lambda>_. [1, 2, 3, 4, 5, 6, 7, 8]\<rparr>"
  let ?v = "\<lparr>vwidth = 4, vheight = 4, bitrate = 1, next_frame = Unset, next_pts = 0, last_timestamp = 0,
    encoder_script = [], encoded = [], voutput = [], fwrite_script = [], av_script = []\<rparr>"
  let ?s = "Cairo_Surface True 2 1 []"
  let ?b = "\<lparr>autosize = False, bwidth = 2, bheight = 1, bstride = 8, surface = Some ?s\<rparr>"
  have libs: "memory_libs ?libs" "image_ok ?libs ?b ?s" by (simp_all add: memory_libs_def image_ok_def example_libs_def)
  then obtain v' f where "guacenc_video_prepare_frame ?libs ?v (Some ?b) = Some v'" "next_frame v' = Scaled f"
    "length (fdata f) = nat (fheight f) * nat (linesize f)"
    using frame_prepared_with_margins[of ?b ?s ?v ?libs] by auto
  moreover have "surface ?b = Some ?s" "bwidth ?b = 2" "bheight ?b = 1" by simp_all
  ultimately show ?thesis using libs by blast
qed

end
