(* ===== verification/Guacenc_Display.thy ===== *)
theory Guacenc_Display
  imports Guacenc_Video "HOL-Library.Product_Lexorder" "HOL-Library.Multiset"
begin

text \<open>
  The display of the video encoder (\<open>src/guacenc/display.c\<close>, \<open>display-layers.c\<close>, \<open>display-buffers.c\<close>,
  \<open>display-image-streams.c\<close>, \<open>display-flatten.c\<close>, \<open>display-sync.c\<close>): tables of layers, buffers and image
  streams, flattening of the tree of layers onto the default layer, and the step to the next frame.

  A pointer to a layer, buffer or stream is the number of its slot in its table; a slot that is not
  allocated is \<open>None\<close>. Functions that can fail an assertion, dereference a null pointer or recurse
  forever return \<open>None\<close> then. \<open>qsort\<close> is an insertion sort that calls the comparator of the code; where two
  elements compare equal, for which C leaves the order open, a parameter decides which one comes first, so that
  every order that a library may produce arises for some value of it. Any two non-null layers next to each other
  in the final order are compared by every sorting method, so the layers the comparator allocates on the way
  do not depend on the method.
\<close>

section \<open>Definitions\<close>

record guacenc_display =
  cursor :: "guacenc_cursor option"
  dbuffers :: "guacenc_buffer option list"
  dlayers :: "guacenc_layer option list"
  image_streams :: "guacenc_image_stream option list"
  last_sync :: int
  video :: guacenc_video
  alloc_script :: "bool list"

abbreviation GUACENC_DISPLAY_MAX_LAYERS :: nat where
  "GUACENC_DISPLAY_MAX_LAYERS \<equiv> 64"

abbreviation GUACENC_DISPLAY_MAX_BUFFERS :: nat where
  "GUACENC_DISPLAY_MAX_BUFFERS \<equiv> 4096"

abbreviation GUACENC_DISPLAY_MAX_STREAMS :: nat where
  "GUACENC_DISPLAY_MAX_STREAMS \<equiv> 64"

text \<open>
  \<open>guacenc_display_alloc\<close>; the outer \<open>None\<close> is a failed \<open>calloc\<close> of the display, which the code does
  not check.
\<close>

definition guacenc_display_alloc ::
    "guacenc_video option \<Rightarrow> int \<times> int \<Rightarrow> bool list \<Rightarrow> guacenc_display option option" where
  "guacenc_display_alloc vid garbage script =
     (case vid of
        None \<Rightarrow> Some None
      | Some v \<Rightarrow>
          (case next_alloc script of (ok, script) \<Rightarrow>
             if \<not> ok then None
             else
               (case guacenc_cursor_alloc garbage script of (c, script) \<Rightarrow>
                  Some (Some \<lparr>cursor = c, dbuffers = replicate GUACENC_DISPLAY_MAX_BUFFERS None,
                              dlayers = replicate GUACENC_DISPLAY_MAX_LAYERS None,
                              image_streams = replicate GUACENC_DISPLAY_MAX_STREAMS None,
                              last_sync = 0, video = v, alloc_script = script\<rparr>))))"

text \<open>\<open>guacenc_display_free\<close>: the video is finished, everything else is memory given back.\<close>

definition guacenc_display_free :: "guacenc_display option \<Rightarrow> int \<times> guacenc_video option" where
  "guacenc_display_free d =
     (case d of
        None \<Rightarrow> (0, None)
      | Some d \<Rightarrow> (case guacenc_video_free (video d) of (retval, v) \<Rightarrow> (retval, Some v)))"

subsection \<open>Layers\<close>

definition guacenc_display_get_layer :: "guacenc_display \<Rightarrow> int \<Rightarrow> nat option \<times> guacenc_display" where
  "guacenc_display_get_layer d index =
     (if index < 0 \<or> index \<ge> int GUACENC_DISPLAY_MAX_LAYERS then (None, d)
      else
        (case dlayers d ! nat index of
           Some l \<Rightarrow> (Some (nat index), d)
         | None \<Rightarrow>
             (case guacenc_layer_alloc (alloc_script d) of
                (None, script) \<Rightarrow> (None, d\<lparr>alloc_script := script\<rparr>)
              | (Some l, script) \<Rightarrow>
                  (let l = (if index = 0 then l\<lparr>parent_index := GUACENC_LAYER_NO_PARENT\<rparr> else l)
                   in (Some (nat index),
                       d\<lparr>alloc_script := script, dlayers := (dlayers d)[nat index := Some l]\<rparr>)))))"

definition layer_at :: "guacenc_display \<Rightarrow> nat \<Rightarrow> guacenc_layer" where
  "layer_at d i = the (dlayers d ! i)"

definition set_layer :: "nat \<Rightarrow> guacenc_layer \<Rightarrow> guacenc_display \<Rightarrow> guacenc_display" where
  "set_layer i l d = d\<lparr>dlayers := (dlayers d)[i := Some l]\<rparr>"

partial_function (option) guacenc_display_get_depth ::
    "guacenc_display \<Rightarrow> nat option \<Rightarrow> (int \<times> guacenc_display) option" where
  "guacenc_display_get_depth d layer =
     (case layer of
        None \<Rightarrow> Some (0, d)
      | Some i \<Rightarrow>
          if parent_index (layer_at d i) = GUACENC_LAYER_NO_PARENT then Some (0, d)
          else
            (case guacenc_display_get_layer d (parent_index (layer_at d i)) of (parent, d) \<Rightarrow>
               Option.bind (guacenc_display_get_depth d parent) (\<lambda>(depth, d). Some (s32 (depth + 1), d))))"

definition guacenc_display_free_layer :: "guacenc_display \<Rightarrow> int \<Rightarrow> int \<times> guacenc_display" where
  "guacenc_display_free_layer d index =
     (if index < 0 \<or> index \<ge> int GUACENC_DISPLAY_MAX_LAYERS then (1, d)
      else (0, d\<lparr>dlayers := (dlayers d)[nat index := None]\<rparr>))"

subsection \<open>Buffers\<close>

text \<open>A buffer is the internal buffer of the table, or the buffer of a layer.\<close>

datatype buffer_ref = Buffer_Slot nat | Layer_Slot nat

definition buffer_at :: "guacenc_display \<Rightarrow> buffer_ref \<Rightarrow> guacenc_buffer" where
  "buffer_at d r =
     (case r of Buffer_Slot i \<Rightarrow> the (dbuffers d ! i) | Layer_Slot i \<Rightarrow> lbuffer (layer_at d i))"

definition set_buffer :: "buffer_ref \<Rightarrow> guacenc_buffer \<Rightarrow> guacenc_display \<Rightarrow> guacenc_display" where
  "set_buffer r b d =
     (case r of
        Buffer_Slot i \<Rightarrow> d\<lparr>dbuffers := (dbuffers d)[i := Some b]\<rparr>
      | Layer_Slot i \<Rightarrow> set_layer i ((layer_at d i)\<lparr>lbuffer := b\<rparr>) d)"

definition guacenc_display_get_buffer :: "guacenc_display \<Rightarrow> int \<Rightarrow> (nat option \<times> guacenc_display) option" where
  "guacenc_display_get_buffer d index =
     Option.bind (c_int (- index)) (\<lambda>n. Option.bind (c_int (n - 1)) (\<lambda>internal_index.
      if internal_index < 0 \<or> internal_index \<ge> int GUACENC_DISPLAY_MAX_BUFFERS then Some (None, d)
      else
        Some (case dbuffers d ! nat internal_index of
           Some b \<Rightarrow> (Some (nat internal_index), d)
         | None \<Rightarrow>
             (case guacenc_buffer_alloc (alloc_script d) of
                (None, script) \<Rightarrow> (None, d\<lparr>alloc_script := script\<rparr>)
              | (Some b, script) \<Rightarrow>
                  (Some (nat internal_index),
                   d\<lparr>alloc_script := script,
                     dbuffers := (dbuffers d)[nat internal_index := Some (b\<lparr>autosize := True\<rparr>)]\<rparr>)))))"

definition guacenc_display_free_buffer :: "guacenc_display \<Rightarrow> int \<Rightarrow> (int \<times> guacenc_display) option" where
  "guacenc_display_free_buffer d index =
     Option.bind (c_int (- index)) (\<lambda>n. Option.bind (c_int (n - 1)) (\<lambda>internal_index.
      if internal_index < 0 \<or> internal_index \<ge> int GUACENC_DISPLAY_MAX_BUFFERS then Some (1, d)
      else Some (0, d\<lparr>dbuffers := (dbuffers d)[nat internal_index := None]\<rparr>)))"

definition guacenc_display_get_related_buffer ::
    "guacenc_display \<Rightarrow> int \<Rightarrow> (buffer_ref option \<times> guacenc_display) option" where
  "guacenc_display_get_related_buffer d index =
     (if index \<ge> 0 then
        Some (case guacenc_display_get_layer d index of (l, d) \<Rightarrow> (map_option Layer_Slot l, d))
      else map_option (\<lambda>(b, d). (map_option Buffer_Slot b, d)) (guacenc_display_get_buffer d index))"

subsection \<open>Image streams\<close>

definition guacenc_display_create_image_stream ::
    "guacenc_libs \<Rightarrow> guacenc_display \<Rightarrow> int \<Rightarrow> int \<Rightarrow> int \<Rightarrow> byte list \<Rightarrow> int \<Rightarrow> int \<Rightarrow>
     (int \<times> guacenc_display) option" where
  "guacenc_display_create_image_stream libs d index msk layer_index mimetype x y =
     (if index < 0 \<or> index \<ge> int GUACENC_DISPLAY_MAX_STREAMS then Some (1, d)
      else
        map_option (\<lambda>(stream, script).
             (if stream = None then 1 else 0,
              d\<lparr>alloc_script := script, image_streams := (image_streams d)[nat index := stream]\<rparr>))
          (guacenc_image_stream_alloc libs msk layer_index mimetype x y (alloc_script d)))"

definition guacenc_display_get_image_stream :: "guacenc_display \<Rightarrow> int \<Rightarrow> guacenc_image_stream option" where
  "guacenc_display_get_image_stream d index =
     (if index < 0 \<or> index \<ge> int GUACENC_DISPLAY_MAX_STREAMS then None
      else image_streams d ! nat index)"

definition guacenc_display_free_image_stream :: "guacenc_display \<Rightarrow> int \<Rightarrow> int \<times> guacenc_display" where
  "guacenc_display_free_image_stream d index =
     (if index < 0 \<or> index \<ge> int GUACENC_DISPLAY_MAX_STREAMS then (1, d)
      else (0, d\<lparr>image_streams := (image_streams d)[nat index := None]\<rparr>))"

subsection \<open>Flattening\<close>

definition guacenc_display_layer_comparator ::
    "guacenc_display \<Rightarrow> nat option \<Rightarrow> nat option \<Rightarrow> (int \<times> guacenc_display) option" where
  "guacenc_display_layer_comparator d a b =
     (case a of
        None \<Rightarrow> (case b of None \<Rightarrow> Some (0, d) | Some j \<Rightarrow> Some (1, d))
      | Some i \<Rightarrow>
          (case b of
             None \<Rightarrow> Some (- 1, d)
           | Some j \<Rightarrow>
               Option.bind (guacenc_display_get_depth d a) (\<lambda>(a_depth, d).
               Option.bind (guacenc_display_get_depth d b) (\<lambda>(b_depth, d).
                 map_option (\<lambda>r. (r, d))
                   (c_int (if b_depth \<noteq> a_depth then b_depth - a_depth
                           else if parent_index (layer_at d j) \<noteq> parent_index (layer_at d i)
                           then parent_index (layer_at d j) - parent_index (layer_at d i)
                           else lz (layer_at d j) - lz (layer_at d i)))))))"

primrec insert_layer ::
    "(nat option \<Rightarrow> nat option \<Rightarrow> bool) \<Rightarrow> nat option \<Rightarrow> nat option list \<Rightarrow> guacenc_display \<Rightarrow>
     (nat option list \<times> guacenc_display) option" where
  "insert_layer first x [] d = Some ([x], d)"
| "insert_layer first x (y # ys) d =
     Option.bind (guacenc_display_layer_comparator d x y) (\<lambda>(r, d).
       if r < 0 \<or> (r = 0 \<and> first x y) then Some (x # y # ys, d)
       else Option.bind (insert_layer first x ys d) (\<lambda>(zs, d). Some (y # zs, d)))"

primrec qsort_layers ::
    "(nat option \<Rightarrow> nat option \<Rightarrow> bool) \<Rightarrow> nat option list \<Rightarrow> guacenc_display \<Rightarrow>
     (nat option list \<times> guacenc_display) option" where
  "qsort_layers first [] d = Some ([], d)"
| "qsort_layers first (x # xs) d =
     Option.bind (qsort_layers first xs d) (\<lambda>(ys, d). insert_layer first x ys d)"

text \<open>The loop that resets the frame of every layer.\<close>

primrec reset_frames :: "guacenc_libs \<Rightarrow> nat option list \<Rightarrow> guacenc_display \<Rightarrow> guacenc_display option" where
  "reset_frames libs [] d = Some d"
| "reset_frames libs (x # xs) d =
     (case x of
        None \<Rightarrow> reset_frames libs xs d
      | Some i \<Rightarrow>
          (case guacenc_buffer_copy libs (frame (layer_at d i)) (lbuffer (layer_at d i)) of
             None \<Rightarrow> None
           | Some (r, frm) \<Rightarrow> reset_frames libs xs (set_layer i ((layer_at d i)\<lparr>frame := frm\<rparr>) d)))"

text \<open>One round of the rendering loop: layer \<open>i\<close> is painted onto the frame of its parent.\<close>

definition render_layer :: "nat \<Rightarrow> guacenc_display \<Rightarrow> guacenc_display" where
  "render_layer i d =
     (if opacity (layer_at d i) = 0 then d
      else if parent_index (layer_at d i) = GUACENC_LAYER_NO_PARENT then d
      else
        (case guacenc_display_get_layer d (parent_index (layer_at d i)) of
           (None, d) \<Rightarrow> d
         | (Some p, d) \<Rightarrow>
             (let layer = layer_at d i; src = frame layer; dst = frame (layer_at d p) in
              case surface src of
                None \<Rightarrow> d
              | Some s \<Rightarrow>
                  (case surface dst of
                     None \<Rightarrow> d
                   | Some t \<Rightarrow>
                       set_layer p ((layer_at d p)\<lparr>frame := dst\<lparr>surface := Some (draw
                         [Reset_Clip, Rectangle (lx layer) (ly layer) (bwidth src) (bheight src), Clip,
                          Set_Source_Surface s (lx layer) (ly layer), Paint_With_Alpha (opacity layer)] t)\<rparr>\<rparr>) d))))"

primrec render_layers :: "nat option list \<Rightarrow> guacenc_display \<Rightarrow> guacenc_display" where
  "render_layers [] d = d"
| "render_layers (x # xs) d = render_layers xs (case x of None \<Rightarrow> d | Some i \<Rightarrow> render_layer i d)"

text \<open>
  \<open>guacenc_display_render_cursor\<close>. A frame without pixels has no cairo context: the code then passes a
  null context to cairo.
\<close>

definition guacenc_display_render_cursor :: "guacenc_display \<Rightarrow> (int \<times> guacenc_display) option" where
  "guacenc_display_render_cursor d =
     (case cursor d of
        None \<Rightarrow> None
      | Some c \<Rightarrow>
          if cx c < 0 \<or> cy c < 0 then Some (0, d)
          else
            (case guacenc_display_get_layer d 0 of
               (None, d) \<Rightarrow> None
             | (Some i, d) \<Rightarrow>
                 (let src = cbuffer c; dst = frame (layer_at d i) in
                  if bwidth src > 0 \<and> bheight src > 0 then
                    Option.bind (c_int (cx c - hotspot_x c)) (\<lambda>x. Option.bind (c_int (cy c - hotspot_y c)) (\<lambda>y.
                      case surface src of
                        None \<Rightarrow> None
                      | Some s \<Rightarrow>
                          (case surface dst of
                             None \<Rightarrow> None
                           | Some t \<Rightarrow>
                               Some (0, set_layer i ((layer_at d i)\<lparr>frame := dst\<lparr>surface := Some (draw
                                 [Set_Source_Surface s x y, Rectangle x y (bwidth src) (bheight src), Fill] t)\<rparr>\<rparr>) d))))
                  else Some (0, d))))"

definition render_order :: "guacenc_display \<Rightarrow> nat option list" where
  "render_order d = map (\<lambda>i. if dlayers d ! i = None then None else Some i) [0..<GUACENC_DISPLAY_MAX_LAYERS]"

definition guacenc_display_flatten :: "guacenc_libs \<Rightarrow> guacenc_display \<Rightarrow> (int \<times> guacenc_display) option" where
  "guacenc_display_flatten libs d =
     Option.bind (qsort_layers (sort_tie libs (last_sync d)) (render_order d) d) (\<lambda>(order, d).
     Option.bind (reset_frames libs order d) (\<lambda>d.
       guacenc_display_render_cursor (render_layers order d)))"

subsection \<open>Synchronization\<close>

definition guacenc_display_sync :: "guacenc_libs \<Rightarrow> guacenc_display \<Rightarrow> int \<Rightarrow> (int \<times> guacenc_display) option" where
  "guacenc_display_sync libs d timestamp =
     (if timestamp < last_sync d then Some (1, d)
      else
        Option.bind (guacenc_display_flatten libs (d\<lparr>last_sync := timestamp\<rparr>)) (\<lambda>(r, d).
          if r \<noteq> 0 then Some (1, d)
          else
            (case guacenc_display_get_layer d 0 of
               (None, d) \<Rightarrow> None
             | (Some i, d) \<Rightarrow>
                 (case guacenc_video_advance_timeline (video d) timestamp of (r, v) \<Rightarrow>
                    if r \<noteq> 0 then Some (1, d\<lparr>video := v\<rparr>)
                    else
                      Option.bind (guacenc_video_prepare_frame libs v (Some (frame (layer_at d i))))
                        (\<lambda>v. Some (0, d\<lparr>video := v\<rparr>))))))"


section \<open>Depths\<close>

text \<open>
  The layers form a forest: every parent is allocated and one level up, with room for differences
  of Z-orders.
\<close>

definition forest :: "(nat \<Rightarrow> nat) \<Rightarrow> guacenc_display \<Rightarrow> bool" where
  "forest dep d =
     (length (dlayers d) = 64
      \<and> (\<forall>i < 64. \<forall>l. dlayers d ! i = Some l \<longrightarrow>
           dep i < 64 \<and> - (2 ^ 30) \<le> lz l \<and> lz l < 2 ^ 30
           \<and> (parent_index l = - 1 \<and> dep i = 0
              \<or> (\<exists>p < 64. parent_index l = int p \<and> dlayers d ! p \<noteq> None \<and> dep i = Suc (dep p)))))"

definition allocated :: "guacenc_display \<Rightarrow> nat \<Rightarrow> bool" where
  "allocated d i = (i < 64 \<and> dlayers d ! i \<noteq> None)"

lemma forest_cases:
  assumes "forest dep d" "allocated d i"
  obtains "parent_index (layer_at d i) = - 1" "dep i = 0"
  | p where "allocated d p" "parent_index (layer_at d i) = int p" "dep i = Suc (dep p)"
  using assms unfolding forest_def allocated_def layer_at_def by (metis option.exhaust_sel)

lemma forest_bounds:
  assumes "forest dep d" "allocated d i"
  shows "dep i < 64" "- (2 ^ 30) \<le> lz (layer_at d i)" "lz (layer_at d i) < 2 ^ 30"
    "- 1 \<le> parent_index (layer_at d i)" "parent_index (layer_at d i) < 64"
proof -
  show "dep i < 64" "- (2 ^ 30) \<le> lz (layer_at d i)" "lz (layer_at d i) < 2 ^ 30"
    using assms by (auto simp: forest_def allocated_def layer_at_def)
  from forest_cases[OF assms] show "- 1 \<le> parent_index (layer_at d i)" by cases simp_all
  from forest_cases[OF assms] show "parent_index (layer_at d i) < 64" by cases (simp_all add: allocated_def)
qed

lemma get_layer_allocated: "allocated d p \<Longrightarrow> guacenc_display_get_layer d (int p) = (Some p, d)"
  by (auto simp: guacenc_display_get_layer_def allocated_def)

lemma get_depth_forest:
  assumes "forest dep d" "allocated d i"
  shows "guacenc_display_get_depth d (Some i) = Some (int (dep i), d)"
  using assms(2)
proof (induction "dep i" arbitrary: i)
  case 0
  from forest_cases[OF assms(1) 0(2)] show ?case
    by cases (use 0 in \<open>simp_all add: guacenc_display_get_depth.simps[of d "Some i"]\<close>)
next
  case (Suc n)
  from forest_cases[OF assms(1) Suc.prems] obtain p where
    p: "allocated d p" "parent_index (layer_at d i) = int p" "dep i = Suc (dep p)"
    by cases (use Suc.hyps(2) in auto)
  have "guacenc_display_get_depth d (Some p) = Some (int (dep p), d)" using Suc.hyps p by simp
  moreover have "s32 (int (dep p) + 1) = int (dep i)"
    using forest_bounds(1)[OF assms(1) Suc.prems] p(3) by (simp add: s32_id in_s32_def)
  ultimately show ?case
    using p by (simp add: guacenc_display_get_depth.simps[of d "Some i"] get_layer_allocated)
qed

section \<open>The rendering order\<close>

definition order_key :: "(nat \<Rightarrow> nat) \<Rightarrow> guacenc_display \<Rightarrow> nat option \<Rightarrow> bool \<times> int \<times> int \<times> int" where
  "order_key dep d x =
     (case x of
        None \<Rightarrow> (True, 0, 0, 0)
      | Some i \<Rightarrow> (False, - int (dep i), - parent_index (layer_at d i), - lz (layer_at d i)))"

lemma comparator_forest:
  assumes "forest dep d" "\<And>i. x = Some i \<Longrightarrow> allocated d i" "\<And>i. y = Some i \<Longrightarrow> allocated d i"
  shows "\<exists>r. guacenc_display_layer_comparator d x y = Some (r, d)
    \<and> (r \<le> 0 \<longrightarrow> order_key dep d x \<le> order_key dep d y) \<and> (0 \<le> r \<longrightarrow> order_key dep d y \<le> order_key dep d x)"
proof (cases x)
  case None
  then show ?thesis
    by (cases y) (auto simp: guacenc_display_layer_comparator_def order_key_def less_eq_prod_def)
next
  case (Some i)
  show ?thesis
  proof (cases y)
    case None
    with Some show ?thesis by (auto simp: guacenc_display_layer_comparator_def order_key_def)
  next
    case y: (Some j)
    note i = forest_bounds[OF assms(1) assms(2)[OF Some]] and j = forest_bounds[OF assms(1) assms(3)[OF y]]
    have s: "c_int (int (dep j) - int (dep i)) = Some (int (dep j) - int (dep i))"
      "c_int (parent_index (layer_at d j) - parent_index (layer_at d i))
        = Some (parent_index (layer_at d j) - parent_index (layer_at d i))"
      "c_int (lz (layer_at d j) - lz (layer_at d i)) = Some (lz (layer_at d j) - lz (layer_at d i))"
      using i j by (simp_all add: c_int_def in_s32_def)
    have "guacenc_display_get_depth d x = Some (int (dep i), d)" "guacenc_display_get_depth d y = Some (int (dep j), d)"
      using get_depth_forest[OF assms(1)] assms(2,3) Some y by simp_all
    then show ?thesis
      using Some y s by (auto simp: guacenc_display_layer_comparator_def order_key_def less_eq_prod_def)
  qed
qed

definition in_order :: "(nat \<Rightarrow> nat) \<Rightarrow> guacenc_display \<Rightarrow> nat option list \<Rightarrow> bool" where
  "in_order dep d = sorted_wrt (\<lambda>x y. order_key dep d x \<le> order_key dep d y)"

lemma insert_layer_forest:
  assumes "forest dep d" "\<And>i. Some i \<in> set (x # ys) \<Longrightarrow> allocated d i" "in_order dep d ys"
  shows "\<exists>zs. insert_layer first x ys d = Some (zs, d) \<and> mset zs = add_mset x (mset ys) \<and> in_order dep d zs"
  using assms(2,3)
proof (induction ys)
  case Nil
  show ?case by (simp add: in_order_def)
next
  case (Cons y ys)
  from comparator_forest[OF assms(1), of x y] Cons.prems(1) obtain r where
    r: "guacenc_display_layer_comparator d x y = Some (r, d)" "r \<le> 0 \<longrightarrow> order_key dep d x \<le> order_key dep d y"
    "0 \<le> r \<longrightarrow> order_key dep d y \<le> order_key dep d x"
    by auto
  obtain zs where zs: "insert_layer first x ys d = Some (zs, d)" "mset zs = add_mset x (mset ys)" "in_order dep d zs"
    using Cons.IH Cons.prems by (auto simp: in_order_def)
  show ?case
  proof (cases "r < 0 \<or> (r = 0 \<and> first x y)")
    case True
    then have "order_key dep d x \<le> order_key dep d y" using r(2) by auto
    moreover from this have "order_key dep d x \<le> order_key dep d z" if "z \<in> set ys" for z
      using that Cons.prems(2) by (auto simp: in_order_def intro: order.trans)
    ultimately show ?thesis using True r(1) Cons.prems(2) by (auto simp: in_order_def)
  next
    case False
    then have "order_key dep d y \<le> order_key dep d x" using r(3) by auto
    moreover have "set zs = insert x (set ys)" using zs(2) by (metis set_mset_add_mset_insert set_mset_mset)
    ultimately show ?thesis using False r(1) zs Cons.prems(2) by (auto simp: in_order_def)
  qed
qed

lemma qsort_layers_forest:
  assumes "forest dep d" "\<And>i. Some i \<in> set xs \<Longrightarrow> allocated d i"
  shows "\<exists>ys. qsort_layers first xs d = Some (ys, d) \<and> mset ys = mset xs \<and> in_order dep d ys"
  using assms(2)
proof (induction xs)
  case Nil
  show ?case by (simp add: in_order_def)
next
  case (Cons x xs)
  then obtain ys where ys: "qsort_layers first xs d = Some (ys, d)" "mset ys = mset xs" "in_order dep d ys" by auto
  have "allocated d i" if "Some i \<in> set (x # ys)" for i
    using that Cons.prems[of i] mset_eq_setD[OF ys(2)] by auto
  from insert_layer_forest[OF assms(1) this ys(3), where first = first] ys(1,2) show ?case by auto
qed

text \<open>The layers of a rendering order, without the empty slots.\<close>

definition somes :: "'a option list \<Rightarrow> 'a list" where
  "somes xs = map the (filter (\<lambda>x. x \<noteq> None) xs)"

lemma somes_simps [simp]:
  "somes [] = []" "somes (None # xs) = somes xs" "somes (Some x # xs) = x # somes xs" "somes (map Some ys) = ys"
  by (simp_all add: somes_def filter_map comp_def)

lemma mset_somes: "mset xs = mset ys \<Longrightarrow> mset (somes xs) = mset (somes ys)"
  by (simp add: somes_def)

definition layer_list :: "guacenc_display \<Rightarrow> nat list" where
  "layer_list d = filter (allocated d) [0..<64]"

lemma layer_list_allocated: "i \<in> set (layer_list d) \<longleftrightarrow> allocated d i"
  by (auto simp: layer_list_def allocated_def)

lemma somes_render_order: "somes (render_order d) = layer_list d"
proof -
  have "filter (\<lambda>x. x \<noteq> None) (render_order d) = map Some (layer_list d)"
    unfolding render_order_def layer_list_def allocated_def filter_map comp_def
    by (auto intro!: map_cong filter_cong)
  then show ?thesis by (simp add: somes_def comp_def)
qed

lemma sorted_wrt_somes:
  "sorted_wrt R xs \<Longrightarrow> sorted_wrt (\<lambda>i j. R (Some i) (Some j)) (somes xs)"
proof (induction xs)
  case (Cons x xs)
  have "Some i \<in> set xs" if "i \<in> set (somes xs)" for i using that by (auto simp: somes_def)
  with Cons show ?case by (cases x) auto
qed simp

text \<open>An order in which the layers may be painted: deeper ones first, siblings next to each other, by descending Z.\<close>

lemma painted_props:
  assumes "mset order = mset (render_order d)" "in_order dep d order"
  shows "mset (somes order) = mset (layer_list d)" "distinct (somes order)"
    "i \<in> set (somes order) \<longleftrightarrow> allocated d i"
    "sorted_wrt (\<lambda>a b. dep b \<le> dep a) (somes order)"
    "sorted_wrt (\<lambda>a b. order_key dep d (Some a) \<le> order_key dep d (Some b)) (somes order)"
proof -
  show m: "mset (somes order) = mset (layer_list d)" using mset_somes[OF assms(1)] by (simp add: somes_render_order)
  then show "distinct (somes order)" "i \<in> set (somes order) \<longleftrightarrow> allocated d i"
    using mset_eq_imp_distinct_iff[OF m] mset_eq_setD[OF m] layer_list_allocated[of i d]
    by (simp_all add: layer_list_def distinct_filter)
  show s: "sorted_wrt (\<lambda>a b. order_key dep d (Some a) \<le> order_key dep d (Some b)) (somes order)"
    using sorted_wrt_somes[OF assms(2)[unfolded in_order_def]] .
  then show "sorted_wrt (\<lambda>a b. dep b \<le> dep a) (somes order)"
    by (rule sorted_wrt_mono_rel[rotated]) (auto simp: order_key_def less_eq_prod_def)
qed

text \<open>The children of a layer, and the orders by descending Z in which they may be painted.\<close>

definition children :: "guacenc_display \<Rightarrow> nat \<Rightarrow> nat list" where
  "children d j = filter (\<lambda>i. parent_index (layer_at d i) = int j) (layer_list d)"

definition descending_z :: "guacenc_display \<Rightarrow> nat list \<Rightarrow> bool" where
  "descending_z d = sorted_wrt (\<lambda>a b. lz (layer_at d b) \<le> lz (layer_at d a))"

lemma painted_children:
  assumes "forest dep d" "mset order = mset (render_order d)" "in_order dep d order"
  defines "kids \<equiv> \<lambda>j. filter (\<lambda>i. parent_index (layer_at d i) = int j) (somes order)"
  shows "mset (kids j) = mset (children d j)" "descending_z d (kids j)"
proof -
  note p = painted_props[OF assms(2,3)]
  show "mset (kids j) = mset (children d j)" using p(1) by (simp add: kids_def children_def)
  have dep: "dep i = Suc (dep j)" if "i \<in> set (kids j)" for i
  proof -
    have i: "allocated d i" "parent_index (layer_at d i) = int j" using that p(3)[of i] by (auto simp: kids_def)
    from forest_cases[OF assms(1) i(1)] show ?thesis by cases (use i(2) in auto)
  qed
  have "sorted_wrt (\<lambda>a b. order_key dep d (Some a) \<le> order_key dep d (Some b)) (kids j)"
    unfolding kids_def by (rule sorted_wrt_filter[OF p(5)])
  moreover have "lz (layer_at d b) \<le> lz (layer_at d a)"
    if "a \<in> set (kids j)" "b \<in> set (kids j)" "order_key dep d (Some a) \<le> order_key dep d (Some b)" for a b
  proof -
    have "parent_index (layer_at d a) = int j" "parent_index (layer_at d b) = int j"
      using that(1,2) by (simp_all add: kids_def)
    with that(3) dep[OF that(1)] dep[OF that(2)] show ?thesis by (simp add: order_key_def less_eq_prod_def)
  qed
  ultimately show "descending_z d (kids j)"
    unfolding descending_z_def by (rule sorted_wrt_mono_rel[rotated])
qed


section \<open>Painting\<close>

text \<open>The calls that paint layer \<open>i\<close> onto its parent.\<close>

definition paint_calls :: "guacenc_display \<Rightarrow> nat \<Rightarrow> cairo_call list" where
  "paint_calls d i =
     (let l = layer_at d i in
      if opacity l = 0 then []
      else
        (case surface (frame l) of
           None \<Rightarrow> []
         | Some s \<Rightarrow>
             [Reset_Clip, Rectangle (lx l) (ly l) (bwidth (frame l)) (bheight (frame l)), Clip,
              Set_Source_Surface s (lx l) (ly l), Paint_With_Alpha (opacity l)]))"

definition frame_surface :: "guacenc_display \<Rightarrow> nat \<Rightarrow> cairo_surface option" where
  "frame_surface d i = surface (frame (layer_at d i))"

text \<open>Two displays that differ at most in the images of their frames.\<close>

definition blank_frame :: "guacenc_layer \<Rightarrow> guacenc_layer" where
  "blank_frame l = l\<lparr>frame := (frame l)\<lparr>surface := None\<rparr>\<rparr>"

definition same_but_frames :: "guacenc_display \<Rightarrow> guacenc_display \<Rightarrow> bool" where
  "same_but_frames d d' =
     (d' = d\<lparr>dlayers := dlayers d'\<rparr>
      \<and> map (map_option blank_frame) (dlayers d') = map (map_option blank_frame) (dlayers d))"

lemma same_but_frames_refl [simp]: "same_but_frames d d"
  by (simp add: same_but_frames_def)

lemma same_but_frames_trans: "same_but_frames a b \<Longrightarrow> same_but_frames b c \<Longrightarrow> same_but_frames a c"
  unfolding same_but_frames_def by (metis guacenc_display.update_convs(3) guacenc_display.surjective
      guacenc_display.fold_congs(3))

lemma same_layer:
  assumes "same_but_frames d d'" "length (dlayers d) = 64"
  shows "length (dlayers d') = 64" "allocated d' i = allocated d i"
    "allocated d i \<Longrightarrow> blank_frame (layer_at d' i) = blank_frame (layer_at d i)"
proof -
  have m: "map (map_option blank_frame) (dlayers d') = map (map_option blank_frame) (dlayers d)"
    using assms(1) by (simp add: same_but_frames_def)
  then show l: "length (dlayers d') = 64" using assms(2) by (metis length_map)
  have n: "map_option blank_frame (dlayers d' ! i) = map_option blank_frame (dlayers d ! i)" if "i < 64"
    using m that l assms(2) by (metis nth_map)
  show "allocated d' i = allocated d i" 
    using n unfolding allocated_def by (metis option.map_disc_iff)
  show "blank_frame (layer_at d' i) = blank_frame (layer_at d i)" if "allocated d i"
    using that n by (auto simp: allocated_def layer_at_def map_option_case split: option.splits)
qed

lemma blank_frame_fields:
  assumes "blank_frame l' = blank_frame l"
  shows "opacity l' = opacity l" "parent_index l' = parent_index l" "lx l' = lx l" "ly l' = ly l" "lz l' = lz l"
    "lbuffer l' = lbuffer l" "bwidth (frame l') = bwidth (frame l)" "bheight (frame l') = bheight (frame l)"
  using assms by (cases l, cases l', cases "frame l", cases "frame l'", simp add: blank_frame_def)+

lemmas same_fields = blank_frame_fields[OF same_layer(3)]

lemma draw_Nil [simp]: "draw [] s = s"
  by (cases s) (simp add: draw_def)

lemma map_draw_Nil [simp]: "map_option (draw []) x = x"
  by (cases x) simp_all

lemma draw_draw [simp]: "draw b (draw a s) = draw (a @ b) s"
  by (simp add: draw_def)

lemma paint_calls_cong:
  assumes "same_but_frames d d'" "length (dlayers d) = 64" "allocated d i" "frame_surface d' i = frame_surface d i"
  shows "paint_calls d' i = paint_calls d i"
  using same_fields[OF assms(1-3)] assms(4) 
  by (auto simp: paint_calls_def Let_def frame_surface_def split: option.split)

lemma render_layer_forest:
  assumes "forest dep d" "allocated d i"
  shows "same_but_frames d (render_layer i d)"
    "allocated d j \<Longrightarrow> frame_surface (render_layer i d) j =
       (if parent_index (layer_at d i) = int j then map_option (draw (paint_calls d i)) (frame_surface d j)
        else frame_surface d j)"
proof -
  have len: "length (dlayers d) = 64" using assms(1) by (simp add: forest_def)
  have "same_but_frames d (render_layer i d) \<and> (allocated d j \<longrightarrow> frame_surface (render_layer i d) j =
       (if parent_index (layer_at d i) = int j then map_option (draw (paint_calls d i)) (frame_surface d j)
        else frame_surface d j))" for j
  proof (cases rule: forest_cases[OF assms])
    case 1
    then show ?thesis by (simp add: render_layer_def)
  next
    case (2 p)
    have p: "p < 64" "dlayers d ! p = Some (layer_at d p)" using 2(1) by (auto simp: allocated_def layer_at_def)
    have same: "same_but_frames d (set_layer p ((layer_at d p)\<lparr>frame := (frame (layer_at d p))\<lparr>surface := x\<rparr>\<rparr>) d)" for x
      using p len by (simp add: same_but_frames_def set_layer_def map_update blank_frame_def list_update_same_conv)
    have surf: "frame_surface (set_layer p ((layer_at d p)\<lparr>frame := (frame (layer_at d p))\<lparr>surface := x\<rparr>\<rparr>) d) k
        = (if k = p then x else frame_surface d k)" for x k
      using p len by (simp add: frame_surface_def set_layer_def layer_at_def nth_list_update)
    show ?thesis
      using 2 same surf
      by (auto simp: render_layer_def get_layer_allocated Let_def paint_calls_def frame_surface_def[of d]
          split: option.splits)
  qed
  then show "same_but_frames d (render_layer i d)"
    "allocated d j \<Longrightarrow> frame_surface (render_layer i d) j =
       (if parent_index (layer_at d i) = int j then map_option (draw (paint_calls d i)) (frame_surface d j)
        else frame_surface d j)" by blast+
qed

lemma forest_cong:
  assumes "forest dep d" "length (dlayers d') = 64" "\<And>i. allocated d' i = allocated d i"
    and "\<And>i. allocated d i \<Longrightarrow> lz (layer_at d' i) = lz (layer_at d i)"
    and "\<And>i. allocated d i \<Longrightarrow> parent_index (layer_at d' i) = parent_index (layer_at d i)"
  shows "forest dep d'"
  unfolding forest_def
proof (intro conjI allI impI)
  fix i l assume i: "i < 64" and l: "dlayers d' ! i = Some l"
  have al: "allocated d i" "l = layer_at d' i"
    using i l assms(3)[of i] by (simp_all add: allocated_def layer_at_def)
  note b = forest_bounds[OF assms(1) al(1)]
  show "dep i < 64" "- (2 ^ 30) \<le> lz l" "lz l < 2 ^ 30" using b assms(4)[OF al(1)] al(2) by simp_all
  show "parent_index l = - 1 \<and> dep i = 0 \<or>
      (\<exists>p < 64. parent_index l = int p \<and> dlayers d' ! p \<noteq> None \<and> dep i = Suc (dep p))"
    using forest_cases[OF assms(1) al(1)]
    by cases (use assms(3) assms(5)[OF al(1)] al(2) in \<open>auto simp: allocated_def\<close>)
qed (rule assms(2))

lemma forest_same:
  assumes "same_but_frames d d'" "forest dep d"
  shows "forest dep d'"
proof -
  have len: "length (dlayers d) = 64" using assms(2) by (simp add: forest_def)
  show ?thesis
    by (rule forest_cong[OF assms(2) same_layer(1,2)[OF assms(1) len]])
      (use same_fields[OF assms(1) len] in auto)
qed

lemma render_layers_somes: "render_layers xs d = fold render_layer (somes xs) d"
  by (induction xs arbitrary: d) (auto split: option.splits)

lemma painting_composes:
  assumes "forest dep d" "\<And>i. i \<in> set xs \<Longrightarrow> allocated d i" "distinct xs" "sorted_wrt (\<lambda>a b. dep b \<le> dep a) xs"
  shows "same_but_frames d (fold render_layer xs d)
    \<and> (\<forall>j. allocated d j \<longrightarrow> frame_surface (fold render_layer xs d) j =
        map_option (draw (concat (map (paint_calls (fold render_layer xs d))
          (filter (\<lambda>i. parent_index (layer_at d i) = int j) xs)))) (frame_surface d j))"
  using assms(2-4)
proof (induction xs rule: rev_induct)
  case (snoc k xs)
  define g where "g = fold render_layer xs d"
  define h where "h = render_layer k g"
  have len: "length (dlayers d) = 64" using assms(1) by (simp add: forest_def)
  have IH: "same_but_frames d g" "\<And>j. allocated d j \<Longrightarrow> frame_surface g j =
        map_option (draw (concat (map (paint_calls g)
          (filter (\<lambda>i. parent_index (layer_at d i) = int j) xs)))) (frame_surface d j)"
    using snoc.IH snoc.prems by (auto simp: g_def sorted_wrt_append)
  have k: "allocated d k" using snoc.prems(1) by simp
  have fg: "forest dep g" by (rule forest_same[OF IH(1) assms(1)])
  have lg: "length (dlayers g) = 64" using fg by (simp add: forest_def)
  have al: "allocated g j = allocated d j" for j by (rule same_layer(2)[OF IH(1) len])
  have par: "parent_index (layer_at g i) = parent_index (layer_at d i)" if "allocated d i" for i
    using same_fields(2)[OF IH(1) len that] .
  note step = render_layer_forest[OF fg al[THEN iffD2, OF k], folded h_def]
  have kept: "frame_surface h i = frame_surface g i" if "i = k \<or> i \<in> set xs" for i
  proof -
    have i: "allocated d i" "dep k \<le> dep i" using that snoc.prems by (auto simp: sorted_wrt_append)
    have "parent_index (layer_at g k) \<noteq> int i"
      using forest_cases[OF fg al[THEN iffD2, OF k]] by cases (use i(2) in auto)
    with step(2)[of i] i(1) al show ?thesis by simp
  qed
  then have calls: "paint_calls h i = paint_calls g i" if "i = k \<or> i \<in> set xs" for i
    using that snoc.prems(1) al by (intro paint_calls_cong[OF step(1) lg]) auto
  have "frame_surface h j = map_option (draw (concat (map (paint_calls h)
      (filter (\<lambda>i. parent_index (layer_at d i) = int j) (xs @ [k]))))) (frame_surface d j)" if "allocated d j" for j
  proof -
    have "concat (map (paint_calls h) (filter P xs)) = concat (map (paint_calls g) (filter P xs))" for P
      by (rule arg_cong[of _ _ concat], rule map_cong) (use calls in auto)
    then show ?thesis
      using step(2)[of j] IH(2)[OF that] calls[of k] par[OF k] al that by (simp add: option.map_comp comp_def)
  qed
  moreover have "fold render_layer (xs @ [k]) d = h" by (simp add: g_def h_def)
  ultimately show ?case using same_but_frames_trans[OF IH(1) step(1)] by simp
qed simp


section \<open>Resetting the frames\<close>

definition frames_ok :: "guacenc_display \<Rightarrow> bool" where
  "frames_ok d = (\<forall>i. allocated d i \<longrightarrow> buffer_ok (lbuffer (layer_at d i)) \<and> buffer_ok (frame (layer_at d i)))"

text \<open>The frame of a layer once the contents of the layer have been copied to it.\<close>

definition reset_frame :: "guacenc_libs \<Rightarrow> guacenc_layer \<Rightarrow> guacenc_buffer" where
  "reset_frame libs l = snd (the (guacenc_buffer_copy libs (frame l) (lbuffer l)))"

lemma reset_frames_all:
  assumes "libs_ok libs" "length (dlayers d) = 64" "frames_ok d" "distinct (somes xs)" "\<And>i. i \<in> set (somes xs) \<Longrightarrow> allocated d i"
  shows "\<exists>d'. reset_frames libs xs d = Some d' \<and> d' = d\<lparr>dlayers := dlayers d'\<rparr> \<and> length (dlayers d') = 64
    \<and> (\<forall>i. allocated d' i = allocated d i)
    \<and> (\<forall>i. allocated d i \<longrightarrow> layer_at d' i =
         (if i \<in> set (somes xs) then (layer_at d i)\<lparr>frame := reset_frame libs (layer_at d i)\<rparr> else layer_at d i))"
  using assms(2-)
proof (induction xs arbitrary: d)
  case (Cons x xs)
  show ?case
  proof (cases x)
    case None
    with Cons show ?thesis by simp
  next
    case (Some i)
    let ?l = "(layer_at d i)\<lparr>frame := reset_frame libs (layer_at d i)\<rparr>"
    let ?d = "set_layer i ?l d"
    have i: "allocated d i" "i < 64" using Cons.prems(4) Some by (auto simp: allocated_def)
    have ok: "buffer_ok (frame (layer_at d i))" "buffer_ok (lbuffer (layer_at d i))"
      using Cons.prems(2) i(1) by (auto simp: frames_ok_def)
    from copy_result[OF assms(1) ok] obtain b where
      b: "guacenc_buffer_copy libs (frame (layer_at d i)) (lbuffer (layer_at d i)) = Some (0, b)" "buffer_ok b" by auto
    have bf: "b = reset_frame libs (layer_at d i)" using b(1) by (simp add: reset_frame_def)
    have at: "layer_at ?d j = (if j = i then ?l else layer_at d j)" "allocated ?d j = allocated d j" for j
      using i Cons.prems(1) by (auto simp: set_layer_def layer_at_def allocated_def nth_list_update)
    have "frames_ok ?d" using Cons.prems(2) ok b(2) bf by (auto simp: frames_ok_def at)
    moreover have "length (dlayers ?d) = 64" "dlayers ?d = (dlayers d)[i := Some ?l]"
      using Cons.prems(1) by (simp_all add: set_layer_def)
    ultimately obtain d' where "reset_frames libs xs ?d = Some d'" "d' = ?d\<lparr>dlayers := dlayers d'\<rparr>"
      "length (dlayers d') = 64" "\<forall>j. allocated d' j = allocated ?d j"
      "\<forall>j. allocated ?d j \<longrightarrow> layer_at d' j =
         (if j \<in> set (somes xs) then (layer_at ?d j)\<lparr>frame := reset_frame libs (layer_at ?d j)\<rparr> else layer_at ?d j)"
      using Cons.IH[of ?d] Cons.prems(3,4) Some at(2) by auto
    moreover have "reset_frames libs (x # xs) d = reset_frames libs xs ?d" using Some b(1) bf by simp
    moreover have "i \<notin> set (somes xs)" using Cons.prems(3) Some by simp
    ultimately show ?thesis using Some at by (auto simp: set_layer_def)
  qed
qed auto

lemma reset_frame_surface:
  assumes "libs_ok libs" "frames_ok d" "allocated d i"
  shows "surface (reset_frame libs (layer_at d i)) = None \<longleftrightarrow> surface (lbuffer (layer_at d i)) = None"
    "buffer_ok (reset_frame libs (layer_at d i))"
  using copy_result[of libs "frame (layer_at d i)" "lbuffer (layer_at d i)"] assms
  by (auto simp: frames_ok_def reset_frame_def)

section \<open>The whole of flattening\<close>

definition cursor_calls :: "guacenc_cursor \<Rightarrow> cairo_call list" where
  "cursor_calls c =
     (if cx c < 0 \<or> cy c < 0 \<or> \<not> (0 < bwidth (cbuffer c) \<and> 0 < bheight (cbuffer c)) then []
      else
        (let x = cx c - hotspot_x c; y = cy c - hotspot_y c
         in [Set_Source_Surface (the (surface (cbuffer c))) x y,
             Rectangle x y (bwidth (cbuffer c)) (bheight (cbuffer c)), Fill]))"

lemma render_cursor_calls:
  assumes "cursor d = Some c" "allocated d 0" "buffer_ok (cbuffer c)" "length (dlayers d) = 64"
    and "cx c < 0 \<or> cy c < 0 \<or> frame_surface d 0 \<noteq> None"
    and "in_s32 (cx c - hotspot_x c)" "in_s32 (cy c - hotspot_y c)"
  shows "\<exists>d'. guacenc_display_render_cursor d = Some (0, d') \<and> same_but_frames d d'
    \<and> frame_surface d' 0 = map_option (draw (cursor_calls c)) (frame_surface d 0)
    \<and> (\<forall>j. j \<noteq> 0 \<longrightarrow> layer_at d' j = layer_at d j)"
proof (cases "cursor_calls c = []")
  case True
  then have "guacenc_display_render_cursor d = Some (0, d)"
    using assms(1) get_layer_allocated[OF assms(2)]
    by (auto simp: guacenc_display_render_cursor_def cursor_calls_def Let_def split: if_splits)
  with True show ?thesis by simp
next
  case False
  then have c: "\<not> (cx c < 0 \<or> cy c < 0)" "0 < bwidth (cbuffer c)" "0 < bheight (cbuffer c)"
    by (auto simp: cursor_calls_def split: if_splits)
  then obtain s where s: "surface (cbuffer c) = Some s" using assms(3) buffer_ok_None by fastforce
  obtain t where t: "surface (frame (layer_at d 0)) = Some t" using c(1) assms(5) by (auto simp: frame_surface_def)
  let ?l = "(layer_at d 0)\<lparr>frame := (frame (layer_at d 0))\<lparr>surface := Some (draw (cursor_calls c) t)\<rparr>\<rparr>"
  have l0: "dlayers d ! 0 = Some (layer_at d 0)" using assms(2) by (auto simp: allocated_def layer_at_def)
  have "guacenc_display_render_cursor d = Some (0, set_layer 0 ?l d)"
    using assms(1,6,7) get_layer_allocated[OF assms(2)] c s t
    by (simp add: guacenc_display_render_cursor_def cursor_calls_def Let_def c_int_Some)
  moreover have "same_but_frames d (set_layer 0 ?l d)"
    using assms(4) l0 by (simp add: same_but_frames_def set_layer_def map_update blank_frame_def list_update_same_conv)
  ultimately show ?thesis
    using assms(4) t by (auto simp: frame_surface_def layer_at_def set_layer_def)
qed


lemma flatten_result:
  assumes "libs_ok libs" "forest dep d" "frames_ok d" "cursor d = Some c" "buffer_ok (cbuffer c)"
    and "allocated d 0" "parent_index (layer_at d 0) = - 1"
    and "cx c < 0 \<or> cy c < 0 \<or> surface (lbuffer (layer_at d 0)) \<noteq> None"
    and "in_s32 (cx c - hotspot_x c)" "in_s32 (cy c - hotspot_y c)"
  shows "\<exists>d' kids. guacenc_display_flatten libs d = Some (0, d') \<and> d' = d\<lparr>dlayers := dlayers d'\<rparr>
    \<and> (\<forall>i. allocated d' i = allocated d i)
    \<and> (\<forall>j. allocated d j \<longrightarrow> mset (kids j) = mset (children d j) \<and> descending_z d (kids j)
         \<and> frame_surface d' j =
         map_option (draw (concat (map (paint_calls d') (kids j)) @ (if j = 0 then cursor_calls c else [])))
           (surface (reset_frame libs (layer_at d j))))"
proof -
  have len: "length (dlayers d) = 64" using assms(2) by (simp add: forest_def)
  have ro: "\<And>i. Some i \<in> set (render_order d) \<Longrightarrow> allocated d i"
    by (auto simp: render_order_def allocated_def split: if_splits)
  obtain order where sorted: "qsort_layers (sort_tie libs (last_sync d)) (render_order d) d = Some (order, d)"
    and order: "mset order = mset (render_order d)" "in_order dep d order"
    using qsort_layers_forest[OF assms(2) ro, where first = "sort_tie libs (last_sync d)"] by blast
  define painted where "painted = somes order"
  define kids where "kids j = filter (\<lambda>i. parent_index (layer_at d i) = int j) painted" for j
  note p = painted_props[OF order, folded painted_def]
  note kid = painted_children[OF assms(2) order, folded painted_def, folded kids_def]
  obtain d1 where r: "reset_frames libs order d = Some d1" "d1 = d\<lparr>dlayers := dlayers d1\<rparr>" "length (dlayers d1) = 64"
    and al: "\<And>i. allocated d1 i = allocated d i"
    and at: "\<And>i. allocated d i \<Longrightarrow> layer_at d1 i = (layer_at d i)\<lparr>frame := reset_frame libs (layer_at d i)\<rparr>"
    using reset_frames_all[OF assms(1) len assms(3), of order] p(2,3) by (auto simp: painted_def)
  have f1: "forest dep d1" by (rule forest_cong[OF assms(2) r(3) al]) (simp_all add: at)
  define g where "g = fold render_layer painted d1"
  have paint: "same_but_frames d1 g" "\<And>j. allocated d j \<Longrightarrow> frame_surface g j =
      map_option (draw (concat (map (paint_calls g)
        (filter (\<lambda>i. parent_index (layer_at d1 i) = int j) painted)))) (frame_surface d1 j)"
    using painting_composes[OF f1 _ p(2,4)] p(3) al by (auto simp: g_def)
  have kids: "filter (\<lambda>i. parent_index (layer_at d1 i) = int j) painted = kids j" for j
    unfolding kids_def by (rule filter_cong) (simp_all add: p(3) at)
  note gl = same_layer[OF paint(1) r(3)]
  have base: "frame_surface d1 j = surface (reset_frame libs (layer_at d j))" if "allocated d j" for j
    by (simp add: frame_surface_def at[OF that])
  have "cursor g = Some c" using paint(1) r(2) assms(4)
    by (metis same_but_frames_def guacenc_display.select_convs(1) guacenc_display.surjective guacenc_display.update_convs(3))
  moreover have "cx c < 0 \<or> cy c < 0 \<or> frame_surface g 0 \<noteq> None"
    using assms(8) paint(2)[OF assms(6)] base[OF assms(6)] reset_frame_surface(1)[OF assms(1,3,6)] by auto
  ultimately obtain d' where c: "guacenc_display_render_cursor g = Some (0, d')" "same_but_frames g d'"
    "frame_surface d' 0 = map_option (draw (cursor_calls c)) (frame_surface g 0)"
    "\<And>j. j \<noteq> 0 \<Longrightarrow> layer_at d' j = layer_at g j"
    using render_cursor_calls[of g c] gl(1,2) al assms(5,6,9,10) by blast
  have calls: "map (paint_calls d') (kids j) = map (paint_calls g) (kids j)" for j
  proof (rule map_cong)
    fix i assume "i \<in> set (kids j)"
    then have "parent_index (layer_at d i) = int j" by (simp add: kids_def)
    then have "i \<noteq> 0" using assms(7) by (metis of_nat_0_le_iff neg_0_le_iff_le not_one_le_zero)
    then show "paint_calls d' i = paint_calls g i" by (simp add: paint_calls_def c(4))
  qed simp
  have "frame_surface d' j = map_option (draw (concat (map (paint_calls d') (kids j))
      @ (if j = 0 then cursor_calls c else []))) (surface (reset_frame libs (layer_at d j)))" if "allocated d j" for j
    using paint(2)[OF that] c(3) c(4)[of j] base[OF that] unfolding calls kids
    by (cases "j = 0") (simp_all add: frame_surface_def option.map_comp comp_def)
  moreover have "guacenc_display_flatten libs d = Some (0, d')"
    using sorted r(1) c(1) by (simp add: guacenc_display_flatten_def render_layers_somes painted_def g_def)
  moreover have "d' = d\<lparr>dlayers := dlayers d'\<rparr>"
  proof -
    have "d' = g\<lparr>dlayers := dlayers d'\<rparr>" "g = d1\<lparr>dlayers := dlayers g\<rparr>"
      using c(2) paint(1) unfolding same_but_frames_def by blast+
    then show ?thesis using r(2)
      by (metis guacenc_display.select_convs(3) guacenc_display.surjective guacenc_display.update_convs(3))
  qed
  moreover have "allocated d' i = allocated d i" for i
    using same_layer(2)[OF c(2) gl(1)] gl(2) al by simp
  ultimately show ?thesis using kid by blast
qed

text \<open>A layer that is its own parent.\<close>

lemma get_depth_self:
  assumes "guacenc_display_get_depth d x = Some r"
  shows "\<not> (\<exists>i. x = Some i \<and> allocated d i \<and> parent_index (layer_at d i) = int i)"
proof (rule guacenc_display_get_depth.raw_induct[OF _ assms])
  fix f d x r
  assume 1: "\<And>d x r. f d x = Some r \<Longrightarrow> \<not> (\<exists>i. x = Some i \<and> allocated d i \<and> parent_index (layer_at d i) = int i)"
    "(case x of None \<Rightarrow> Some (0, d)
      | Some i \<Rightarrow>
          if parent_index (layer_at d i) = - 1 then Some (0, d)
          else
            (case guacenc_display_get_layer d (parent_index (layer_at d i)) of (parent, d) \<Rightarrow>
               Option.bind (f d parent) (\<lambda>(depth, d). Some (s32 (depth + 1), d)))) = Some r"
  show "\<not> (\<exists>i. x = Some i \<and> allocated d i \<and> parent_index (layer_at d i) = int i)"
  proof
    assume "\<exists>i. x = Some i \<and> allocated d i \<and> parent_index (layer_at d i) = int i"
    then obtain i where i: "x = Some i" "allocated d i" "parent_index (layer_at d i) = int i" by blast
    then obtain r' where "f d (Some i) = Some r'"
      using 1(2) by (auto simp: get_layer_allocated Option.bind_eq_Some_conv)
    from 1(1)[OF this] i show False by blast
  qed
qed

section \<open>Properties\<close>


text \<open>The witness: the default layer with two children.\<close>

definition example_layer :: "int \<Rightarrow> int \<Rightarrow> guacenc_layer" where
  "example_layer p z =
     \<lparr>lbuffer = \<lparr>autosize = False, bwidth = 2, bheight = 1, bstride = 8, surface = Some (Cairo_Surface True 2 1 [])\<rparr>,
      opacity = 255, parent_index = p, lx = 0, ly = 0, lz = z,
      frame = \<lparr>autosize = False, bwidth = 0, bheight = 0, bstride = 0, surface = None\<rparr>\<rparr>"

definition example_display :: "guacenc_layer option list \<Rightarrow> guacenc_display" where
  "example_display ls =
     \<lparr>cursor = Some \<lparr>cx = - 1, cy = - 1, hotspot_x = 0, hotspot_y = 0,
        cbuffer = \<lparr>autosize = False, bwidth = 0, bheight = 0, bstride = 0, surface = None\<rparr>\<rparr>,
      dbuffers = replicate 4096 None, dlayers = ls @ replicate (64 - length ls) None,
      image_streams = replicate 64 None, last_sync = 0,
      video = \<lparr>vwidth = 4, vheight = 4, bitrate = 1, next_frame = Unset, next_pts = 0, last_timestamp = 0,
        encoder_script = [], encoded = [], voutput = [], fwrite_script = [], av_script = []\<rparr>,
      alloc_script = []\<rparr>"


end
