(* ===== verification/Guacenc_Parse.thy ===== *)
theory Guacenc_Parse
  imports Guac_Format
begin

text \<open>
  Parsing of numbers by the video encoder (\<open>src/guacenc/parse.c\<close>). A function that returns
  non-zero and stores nothing is \<open>None\<close>, otherwise \<open>Some\<close> of what it stores.
\<close>

section \<open>Definitions\<close>

text \<open>\<open>errno\<close> is set by \<open>strtol\<close> exactly when the number does not fit a \<open>long\<close>.\<close>

definition guacenc_parse_int :: "byte list \<Rightarrow> int option" where
  "guacenc_parse_int arg =
     (case strtol10 arg of (val, end) \<Rightarrow>
        if \<not> in_s64 val \<or> val \<le> 0 \<or> val > 2147483647 \<or> end \<noteq> [] then None else Some val)"

definition guacenc_parse_dimensions :: "byte list \<Rightarrow> (int \<times> int) option" where
  "guacenc_parse_dimensions arg =
     (if 120 \<notin> set arg then None
      else
        (let before = takeWhile (\<lambda>c. c \<noteq> 120) arg;
             after = tl (dropWhile (\<lambda>c. c \<noteq> 120) arg)
         in Option.bind (guacenc_parse_int before) (\<lambda>w.
              Option.bind (guacenc_parse_int after) (\<lambda>h. Some (w, h)))))"

text \<open>The loop of \<open>guacenc_parse_timestamp\<close>; characters are signed and the arithmetic is 64-bit.\<close>

fun parse_timestamp_loop :: "byte list \<Rightarrow> int \<Rightarrow> int \<Rightarrow> int \<times> int" where
  "parse_timestamp_loop [] sg num = (sg, num)"
| "parse_timestamp_loop (c # str) sg num =
     (if c = 45 then parse_timestamp_loop str (- sg) num
      else parse_timestamp_loop str sg (s64 (s64 (num * 10) + (sint c - 48))))"

definition guacenc_parse_timestamp :: "byte list \<Rightarrow> int" where
  "guacenc_parse_timestamp str = (case parse_timestamp_loop str 1 0 of (sg, num) \<Rightarrow> s64 (num * sg))"

section \<open>Numbers read back\<close>

lemma parse_int_dec:
  assumes "0 < n" "n \<le> 2147483647"
  shows "guacenc_parse_int (dec_int n) = Some n"
  using assms by (simp add: guacenc_parse_int_def strtol10_dec_int in_s64_def)

lemma parse_int_range: "guacenc_parse_int arg = Some n \<Longrightarrow> 0 < n \<and> n \<le> 2147483647"
  by (auto simp: guacenc_parse_int_def split: prod.splits if_splits)

lemma dec_int_no_x: "120 \<notin> set (dec_int n)"
  using dec_int_ascii[of 120 n] by (auto simp: is_digit_def)

lemma s64_mod: "s64 x mod 18446744073709551616 = x mod 18446744073709551616"
proof -
  have "((x + 9223372036854775808) mod 18446744073709551616 - 9223372036854775808) mod 18446744073709551616
      = (x + 9223372036854775808 - 9223372036854775808) mod 18446744073709551616"
    by (rule mod_diff_left_eq)
  then show ?thesis by (simp add: s64_def)
qed

lemma s64_eqI: "x mod 18446744073709551616 = y mod 18446744073709551616 \<Longrightarrow> s64 x = s64 y"
  unfolding s64_def
  using mod_add_cong[of x 18446744073709551616 y 9223372036854775808 9223372036854775808] by simp

lemma s64_fold: "s64 (s64 (s64 v * 10) + d) = s64 (v * 10 + d)"
proof (rule s64_eqI)
  have "s64 (s64 v * 10) mod 18446744073709551616 = (v * 10) mod 18446744073709551616"
    unfolding s64_mod by (rule mod_mult_cong[OF s64_mod refl])
  then show "(s64 (s64 v * 10) + d) mod 18446744073709551616 = (v * 10 + d) mod 18446744073709551616"
    by (rule mod_add_cong[OF _ refl])
qed

lemma s64_mult: "s64 (s64 v * k) = s64 (v * k)"
  by (rule s64_eqI) (rule mod_mult_cong[OF s64_mod refl])

lemma digit_sint:
  assumes "is_digit c"
  shows "sint c - 48 = digit_val c"
proof -
  have "48 \<le> unat c" "unat c \<le> 57" using assms by (simp_all add: is_digit_def word_le_nat_alt)
  then have "unat c = 48 \<or> unat c = 49 \<or> unat c = 50 \<or> unat c = 51 \<or> unat c = 52 \<or> unat c = 53
      \<or> unat c = 54 \<or> unat c = 55 \<or> unat c = 56 \<or> unat c = 57"
    by arith
  then have "c = 48 \<or> c = 49 \<or> c = 50 \<or> c = 51 \<or> c = 52 \<or> c = 53 \<or> c = 54 \<or> c = 55 \<or> c = 56 \<or> c = 57"
    by (simp add: word_unat_eq_iff)
  then show ?thesis by (auto simp: digit_val_def)
qed

lemma parse_timestamp_digits:
  assumes "list_all is_digit ds"
  shows "parse_timestamp_loop ds sg (s64 v) = (sg, s64 (foldl (\<lambda>v c. v * 10 + digit_val c) v ds))"
  using assms
proof (induction ds arbitrary: v)
  case (Cons c ds)
  then have "c \<noteq> 45" using digit_not_special[of c] by simp
  with Cons show ?case by (simp add: digit_sint s64_fold)
qed simp

section \<open>Properties\<close>

text \<open>
  \<open>guacenc_parse_timestamp\<close> reads every 64-bit timestamp the protocol can carry, negative ones
  and the extremes included, exactly as it was printed.
\<close>

theorem timestamp_roundtrip:
  assumes "in_s64 t"
  shows "guacenc_parse_timestamp (dec_int t) = t"
proof -
  have d: "list_all is_digit (dec_nat n)" for n by (simp add: list_all_iff dec_nat_digits)
  have v: "foldl (\<lambda>v c. v * 10 + digit_val c) 0 (dec_nat n) = int n" for n
    using scan_digits_dec_nat[of n] by (simp add: scan_digits_def)
  have "s64 0 = 0" by simp
  then have l: "parse_timestamp_loop (dec_nat n) sg 0 = (sg, s64 (int n))" for n sg
    using parse_timestamp_digits[OF d, of n sg 0] by (simp add: v)
  have "s64 (- s64 (- t)) = s64 t" using s64_mult[of "- t" "- 1"] by simp
  then show ?thesis
    using assms l by (simp add: guacenc_parse_timestamp_def dec_int_def in_s64_def)
qed

theorem timestamp_roundtrip_witness:
  "guacenc_parse_timestamp (dec_int (- 9223372036854775808)) = - 9223372036854775808"
  using timestamp_roundtrip[of "- 9223372036854775808"] by (simp add: in_s64_def)

text \<open>
  \<open>guacenc_parse_dimensions\<close> accepts \<open>WxH\<close> for all positive \<open>int\<close> widths and heights and returns
  them; and whatever text it accepts, both numbers are positive and at most \<open>INT_MAX\<close>.
\<close>

theorem dimensions_roundtrip:
  "(0 < w \<and> w \<le> 2147483647 \<and> 0 < h \<and> h \<le> 2147483647 \<longrightarrow>
     guacenc_parse_dimensions (dec_int w @ 120 # dec_int h) = Some (w, h))
   \<and> (guacenc_parse_dimensions arg = Some (w', h') \<longrightarrow>
     0 < w' \<and> w' \<le> 2147483647 \<and> 0 < h' \<and> h' \<le> 2147483647)"
proof -
  have "takeWhile (\<lambda>c. c \<noteq> 120) (dec_int w @ 120 # dec_int h) = dec_int w"
    "tl (dropWhile (\<lambda>c. c \<noteq> 120) (dec_int w @ 120 # dec_int h)) = dec_int h"
    using dec_int_no_x[of w] by (auto simp: takeWhile_append dropWhile_append)
  moreover have "0 < w' \<and> w' \<le> 2147483647 \<and> 0 < h' \<and> h' \<le> 2147483647"
    if "guacenc_parse_dimensions arg = Some (w', h')"
    using that parse_int_range
    by (auto simp: guacenc_parse_dimensions_def Let_def bind_eq_Some_conv split: if_splits)
  ultimately show ?thesis by (simp add: guacenc_parse_dimensions_def parse_int_dec)
qed

theorem dimensions_roundtrip_witness:
  "guacenc_parse_dimensions (dec_int 640 @ 120 # dec_int 480) = Some (640, 480)"
  using dimensions_roundtrip[of 640 480] by simp

end
