(* ===== verification/Guacenc_Instructions.thy ===== *)
theory Guacenc_Instructions
  imports Guacenc_Display Guacenc_Parse Guac_Base64 Guac_Parser "HOL-Library.Multiset"
begin

text \<open>
  The instruction handlers of the video encoder (\<open>src/guacenc/instruction-*.c\<close>), their dispatch by opcode
  (\<open>instructions.c\<close>) and the loop that reads a recording (\<open>guacenc_read_instructions\<close> of \<open>encode.c\<close>).

  A handler gets the display and the arguments as C strings without their terminators; the number of
  arguments is the length of the list. It returns the result of the C function and the display, or
  \<open>None\<close> where the code has no defined result (see the display).
\<close>

section \<open>Definitions\<close>

definition guacenc_handle_blob :: "guacenc_display \<Rightarrow> byte list list \<Rightarrow> (int \<times> guacenc_display) option" where
  "guacenc_handle_blob d argv =
     (if length argv < 2 then Some (1, d)
      else
        (let index = atoi (argv ! 0) in
         case guac_protocol_decode_base64 (argv ! 1) of (len, data) \<Rightarrow>
           (case guacenc_display_get_image_stream d index of
              None \<Rightarrow> Some (1, d)
            | Some stream \<Rightarrow>
                (case guacenc_image_stream_receive stream data len (alloc_script d) of (r, stream, script) \<Rightarrow>
                   Some (r, d\<lparr>alloc_script := script,
                              image_streams := (image_streams d)[nat index := Some stream]\<rparr>)))))"

definition guacenc_handle_img ::
    "guacenc_libs \<Rightarrow> guacenc_display \<Rightarrow> byte list list \<Rightarrow> (int \<times> guacenc_display) option" where
  "guacenc_handle_img libs d argv =
     (if length argv < 6 then Some (1, d)
      else guacenc_display_create_image_stream libs d (atoi (argv ! 0)) (atoi (argv ! 1)) (atoi (argv ! 2))
             (argv ! 3) (atoi (argv ! 4)) (atoi (argv ! 5)))"

definition guacenc_handle_end ::
    "guacenc_libs \<Rightarrow> guacenc_display \<Rightarrow> byte list list \<Rightarrow> (int \<times> guacenc_display) option" where
  "guacenc_handle_end libs d argv =
     (if length argv < 1 then Some (1, d)
      else
        (case guacenc_display_get_image_stream d (atoi (argv ! 0)) of
           None \<Rightarrow> Some (1, d)
         | Some stream \<Rightarrow>
             Option.bind (guacenc_display_get_related_buffer d (sindex stream)) (\<lambda>(ref, d).
               case ref of
                 None \<Rightarrow> Some (1, d)
               | Some ref \<Rightarrow>
                   map_option (\<lambda>(r, b). (r, set_buffer ref b d))
                     (guacenc_image_stream_end libs stream (buffer_at d ref)))))"

definition guacenc_handle_mouse ::
    "guacenc_libs \<Rightarrow> guacenc_display \<Rightarrow> byte list list \<Rightarrow> (int \<times> guacenc_display) option" where
  "guacenc_handle_mouse libs d argv =
     (if length argv < 2 then Some (1, d)
      else
        (case cursor d of
           None \<Rightarrow> None
         | Some c \<Rightarrow>
             (let d = d\<lparr>cursor := Some (c\<lparr>cx := atoi (argv ! 0), cy := atoi (argv ! 1)\<rparr>)\<rparr>
              in if length argv < 4 then Some (0, d)
                 else guacenc_display_sync libs d (guacenc_parse_timestamp (argv ! 3)))))"

definition guacenc_handle_sync ::
    "guacenc_libs \<Rightarrow> guacenc_display \<Rightarrow> byte list list \<Rightarrow> (int \<times> guacenc_display) option" where
  "guacenc_handle_sync libs d argv =
     (if length argv < 1 then Some (1, d)
      else guacenc_display_sync libs d (guacenc_parse_timestamp (argv ! 0)))"

definition guacenc_handle_cursor ::
    "guacenc_libs \<Rightarrow> guacenc_display \<Rightarrow> byte list list \<Rightarrow> (int \<times> guacenc_display) option" where
  "guacenc_handle_cursor libs d argv =
     (if length argv < 7 then Some (1, d)
      else
        Option.bind (guacenc_display_get_related_buffer d (atoi (argv ! 2))) (\<lambda>(ref, d).
          case ref of
            None \<Rightarrow> Some (1, d)
          | Some ref \<Rightarrow>
              (case cursor d of
                 None \<Rightarrow> None
               | Some c \<Rightarrow>
                   Option.bind (guacenc_buffer_resize libs (cbuffer c) (atoi (argv ! 5)) (atoi (argv ! 6))) (\<lambda>(r, dst).
                     let dst = (case surface (buffer_at d ref) of
                                  None \<Rightarrow> dst
                                | Some s \<Rightarrow>
                                    (case surface dst of
                                       None \<Rightarrow> dst
                                     | Some t \<Rightarrow>
                                         dst\<lparr>surface := Some (draw [Set_Operator CAIRO_OPERATOR_SOURCE,
                                           Set_Source_Surface s (atoi (argv ! 3)) (atoi (argv ! 4)), Paint] t)\<rparr>))
                     in Some (0, d\<lparr>cursor := Some (c\<lparr>hotspot_x := atoi (argv ! 0), hotspot_y := atoi (argv ! 1),
                                                     cbuffer := dst\<rparr>)\<rparr>)))))"

text \<open>The drawing of \<open>guacenc_handle_copy\<close>, once both buffers are known and the destination has been grown.\<close>

definition copy_rect ::
    "guacenc_libs \<Rightarrow> buffer_ref \<Rightarrow> int \<Rightarrow> int \<Rightarrow> int \<Rightarrow> int \<Rightarrow> int \<Rightarrow> buffer_ref \<Rightarrow> int \<Rightarrow> int \<Rightarrow> guacenc_display \<Rightarrow>
     guacenc_display option" where
  "copy_rect libs src srcx srcy w h msk dst dx dy d =
     (case surface (buffer_at d src) of
        None \<Rightarrow> Some d
      | Some s \<Rightarrow>
          (case surface (buffer_at d dst) of
             None \<Rightarrow> Some d
           | Some t \<Rightarrow>
               Option.bind
                 (if src = dst
                  then Option.bind (c_int (- srcx)) (\<lambda>x. Option.bind (c_int (- srcy)) (\<lambda>y.
                    Some (draw [Set_Operator CAIRO_OPERATOR_SOURCE, Set_Source_Surface s x y, Paint]
                            (Cairo_Surface (surface_created libs w h (stride_for_width libs w)) w h []), 0, 0)))
                  else Some (s, srcx, srcy))
                 (\<lambda>(image, srcx, srcy).
                    Option.bind (c_int (dx - srcx)) (\<lambda>x. Option.bind (c_int (dy - srcy)) (\<lambda>y.
                      Some (set_buffer dst ((buffer_at d dst)\<lparr>surface := Some (draw
                        [Set_Operator (guacenc_display_cairo_operator msk),
                         Set_Source_Surface image x y, Rectangle dx dy w h, Fill] t)\<rparr>) d))))))"

text \<open>A buffer that resizes itself grows to fit an operation on a rectangle.\<close>

definition fit_rect :: "guacenc_libs \<Rightarrow> guacenc_buffer \<Rightarrow> int \<Rightarrow> int \<Rightarrow> int \<Rightarrow> int \<Rightarrow> guacenc_buffer option" where
  "fit_rect libs b x y w h =
     (if autosize b
      then Option.bind (c_int (x + w)) (\<lambda>x. Option.bind (c_int (y + h)) (\<lambda>y.
        map_option snd (guacenc_buffer_fit libs b x y)))
      else Some b)"

definition guacenc_handle_copy ::
    "guacenc_libs \<Rightarrow> guacenc_display \<Rightarrow> byte list list \<Rightarrow> (int \<times> guacenc_display) option" where
  "guacenc_handle_copy libs d argv =
     (if length argv < 9 then Some (1, d)
      else
        (let w = atoi (argv ! 3); h = atoi (argv ! 4); dx = atoi (argv ! 7); dy = atoi (argv ! 8) in
         Option.bind (guacenc_display_get_related_buffer d (atoi (argv ! 0))) (\<lambda>(src, d).
           case src of
             None \<Rightarrow> Some (1, d)
           | Some src \<Rightarrow>
               Option.bind (guacenc_display_get_related_buffer d (atoi (argv ! 6))) (\<lambda>(dst, d).
                 case dst of
                   None \<Rightarrow> Some (1, d)
                 | Some dst \<Rightarrow>
                     Option.bind (fit_rect libs (buffer_at d dst) dx dy w h) (\<lambda>b.
                       map_option (Pair 0)
                         (copy_rect libs src (atoi (argv ! 1)) (atoi (argv ! 2)) w h (atoi (argv ! 5)) dst dx dy
                            (set_buffer dst b d)))))))"

definition guacenc_handle_transfer :: "guacenc_display \<Rightarrow> byte list list \<Rightarrow> (int \<times> guacenc_display) option" where
  "guacenc_handle_transfer d argv = (if length argv < 9 then Some (1, d) else Some (0, d))"

definition guacenc_handle_size ::
    "guacenc_libs \<Rightarrow> guacenc_display \<Rightarrow> byte list list \<Rightarrow> (int \<times> guacenc_display) option" where
  "guacenc_handle_size libs d argv =
     (if length argv < 3 then Some (1, d)
      else
        Option.bind (guacenc_display_get_related_buffer d (atoi (argv ! 0))) (\<lambda>(ref, d).
          case ref of
            None \<Rightarrow> Some (1, d)
          | Some ref \<Rightarrow>
              map_option (\<lambda>(r, b). (r, set_buffer ref b d))
                (guacenc_buffer_resize libs (buffer_at d ref) (atoi (argv ! 1)) (atoi (argv ! 2)))))"

definition guacenc_handle_rect ::
    "guacenc_libs \<Rightarrow> guacenc_display \<Rightarrow> byte list list \<Rightarrow> (int \<times> guacenc_display) option" where
  "guacenc_handle_rect libs d argv =
     (if length argv < 5 then Some (1, d)
      else
        (let x = atoi (argv ! 1); y = atoi (argv ! 2); w = atoi (argv ! 3); h = atoi (argv ! 4) in
         Option.bind (guacenc_display_get_related_buffer d (atoi (argv ! 0))) (\<lambda>(ref, d).
           case ref of
             None \<Rightarrow> Some (1, d)
           | Some ref \<Rightarrow>
               map_option (\<lambda>b. (0, set_buffer ref (b\<lparr>surface := map_option (draw [Rectangle x y w h]) (surface b)\<rparr>) d))
                 (fit_rect libs (buffer_at d ref) x y w h))))"

definition guacenc_handle_cfill :: "guacenc_display \<Rightarrow> byte list list \<Rightarrow> (int \<times> guacenc_display) option" where
  "guacenc_handle_cfill d argv =
     (if length argv < 6 then Some (1, d)
      else
        Option.bind (guacenc_display_get_related_buffer d (atoi (argv ! 1))) (\<lambda>(ref, d).
          case ref of
            None \<Rightarrow> Some (1, d)
          | Some ref \<Rightarrow>
              (let b = buffer_at d ref;
                   b = b\<lparr>surface := map_option (draw [Set_Operator (guacenc_display_cairo_operator (atoi (argv ! 0))),
                          Set_Source_RGBA (atoi (argv ! 2)) (atoi (argv ! 3)) (atoi (argv ! 4)) (atoi (argv ! 5)),
                          Fill]) (surface b)\<rparr>
               in Some (0, set_buffer ref b d))))"

definition guacenc_handle_move :: "guacenc_display \<Rightarrow> byte list list \<Rightarrow> (int \<times> guacenc_display) option" where
  "guacenc_handle_move d argv =
     (if length argv < 5 then Some (1, d)
      else
        (case guacenc_display_get_layer d (atoi (argv ! 0)) of
           (None, d) \<Rightarrow> Some (1, d)
         | (Some i, d) \<Rightarrow>
             (case guacenc_display_get_layer d (atoi (argv ! 1)) of
                (None, d) \<Rightarrow> Some (1, d)
              | (Some p, d) \<Rightarrow>
                  Some (0, set_layer i ((layer_at d i)\<lparr>parent_index := atoi (argv ! 1), lx := atoi (argv ! 2),
                                                       ly := atoi (argv ! 3), lz := atoi (argv ! 4)\<rparr>) d))))"

definition guacenc_handle_shade :: "guacenc_display \<Rightarrow> byte list list \<Rightarrow> (int \<times> guacenc_display) option" where
  "guacenc_handle_shade d argv =
     (if length argv < 2 then Some (1, d)
      else
        (case guacenc_display_get_layer d (atoi (argv ! 0)) of
           (None, d) \<Rightarrow> Some (1, d)
         | (Some i, d) \<Rightarrow> Some (0, set_layer i ((layer_at d i)\<lparr>opacity := atoi (argv ! 1)\<rparr>) d)))"

definition guacenc_handle_dispose :: "guacenc_display \<Rightarrow> byte list list \<Rightarrow> (int \<times> guacenc_display) option" where
  "guacenc_handle_dispose d argv =
     (if length argv < 1 then Some (1, d)
      else
        (let index = atoi (argv ! 0)
         in if index \<ge> 0 then Some (guacenc_display_free_layer d index)
            else guacenc_display_free_buffer d index))"

type_synonym instruction_handler = "guacenc_display \<Rightarrow> byte list list \<Rightarrow> (int \<times> guacenc_display) option"

definition guacenc_instruction_handler_map :: "guacenc_libs \<Rightarrow> (byte list \<times> instruction_handler) list" where
  "guacenc_instruction_handler_map libs =
     [(cstr ''blob'', guacenc_handle_blob),
      (cstr ''img'', guacenc_handle_img libs),
      (cstr ''end'', guacenc_handle_end libs),
      (cstr ''mouse'', guacenc_handle_mouse libs),
      (cstr ''sync'', guacenc_handle_sync libs),
      (cstr ''cursor'', guacenc_handle_cursor libs),
      (cstr ''copy'', guacenc_handle_copy libs),
      (cstr ''transfer'', guacenc_handle_transfer),
      (cstr ''size'', guacenc_handle_size libs),
      (cstr ''rect'', guacenc_handle_rect libs),
      (cstr ''cfill'', guacenc_handle_cfill),
      (cstr ''move'', guacenc_handle_move),
      (cstr ''shade'', guacenc_handle_shade),
      (cstr ''dispose'', guacenc_handle_dispose)]"

definition guacenc_handle_instruction ::
    "guacenc_libs \<Rightarrow> guacenc_display \<Rightarrow> byte list \<Rightarrow> byte list list \<Rightarrow> (int \<times> guacenc_display) option" where
  "guacenc_handle_instruction libs d name argv =
     (case map_of (guacenc_instruction_handler_map libs) name of
        None \<Rightarrow> Some (0, d)
      | Some handler \<Rightarrow> handler d argv)"

text \<open>
  The loop of \<open>guacenc_read_instructions\<close>; failures of handlers are only logged. It returns the display,
  the parser and the socket when reading fails, be it at the end of the file.
\<close>

partial_function (option) read_instructions_loop ::
    "guacenc_libs \<Rightarrow> guac_parser \<Rightarrow> 's guac_socket \<Rightarrow> guacenc_display \<Rightarrow>
     (guacenc_display \<times> guac_parser \<times> 's guac_socket) option" where
  "read_instructions_loop libs parser socket d =
     Option.bind (guac_parser_read parser socket (- 1)) (\<lambda>(r, parser, socket).
       if r \<noteq> 0 then Some (d, parser, socket)
       else
         Option.bind (guacenc_handle_instruction libs d (hd (parser_elements parser)) (tl (parser_elements parser)))
           (\<lambda>(r, d). read_instructions_loop libs parser socket d))"


section \<open>The invariant of the display\<close>

definition layer_ok :: "guacenc_layer \<Rightarrow> bool" where
  "layer_ok l = (buffer_ok (lbuffer l) \<and> \<not> autosize (lbuffer l) \<and> buffer_ok (frame l)
     \<and> - 1 \<le> parent_index l \<and> parent_index l < int GUACENC_DISPLAY_MAX_LAYERS)"

definition slot_ok :: "guacenc_buffer \<Rightarrow> bool" where
  "slot_ok b = (buffer_ok b \<and> autosize b)"

definition stream_ok :: "guacenc_image_stream \<Rightarrow> bool" where
  "stream_ok st = (small (sindex st) \<and> small (sx st) \<and> small (sy st))"

text \<open>Memory is granted from now on.\<close>

definition granted :: "bool list \<Rightarrow> bool" where
  "granted script = list_all id script"

definition display_ok :: "guacenc_display \<Rightarrow> bool" where
  "display_ok d =
     (length (dlayers d) = GUACENC_DISPLAY_MAX_LAYERS \<and> list_all (pred_option layer_ok) (dlayers d)
      \<and> length (dbuffers d) = GUACENC_DISPLAY_MAX_BUFFERS \<and> list_all (pred_option slot_ok) (dbuffers d)
      \<and> length (image_streams d) = GUACENC_DISPLAY_MAX_STREAMS \<and> list_all (pred_option stream_ok) (image_streams d)
      \<and> (\<exists>c. cursor d = Some c \<and> buffer_ok (cbuffer c)) \<and> granted (alloc_script d))"

lemma next_alloc_granted: "granted script \<Longrightarrow> next_alloc script = (True, tl script) \<and> granted (tl script)"
  by (cases script) (auto simp: granted_def next_alloc_def)

text \<open>What every step of a handler keeps: the invariant and allocated layers.\<close>

definition keeps :: "guacenc_display \<Rightarrow> guacenc_display \<Rightarrow> bool" where
  "keeps d d' = (display_ok d' \<and> (\<forall>i. allocated d i \<longrightarrow> allocated d' i))"

lemma keeps_refl: "display_ok d \<Longrightarrow> keeps d d"
  by (simp add: keeps_def)

lemma keeps_trans: "keeps a b \<Longrightarrow> keeps b c \<Longrightarrow> keeps a c"
  by (auto simp: keeps_def)

lemma keeps_ok: "keeps d d' \<Longrightarrow> display_ok d'"
  by (simp add: keeps_def)

lemma list_all_update: "list_all P xs \<Longrightarrow> P x \<Longrightarrow> list_all P (xs[i := x])"
  by (auto simp: list_all_iff dest!: set_update_subset_insert[THEN subsetD])

lemma update_allocated [intro]: "xs ! j = Some y \<Longrightarrow> \<exists>z. xs[i := Some x] ! j = Some z"
  by (cases "i = j"; cases "i < length xs") (auto simp: list_update_beyond)

lemma layer_at_ok: "display_ok d \<Longrightarrow> allocated d i \<Longrightarrow> layer_ok (layer_at d i)"
  by (auto simp: display_ok_def allocated_def layer_at_def list_all_length pred_option_def elim!: allE[of _ i])

lemma set_layer_keeps:
  assumes "display_ok d" "layer_ok l"
  shows "keeps d (set_layer i l d)"
  using assms by (auto simp: keeps_def display_ok_def set_layer_def allocated_def intro!: list_all_update)

lemma alloc_granted:
  assumes "granted script"
  shows "\<exists>b script'. guacenc_buffer_alloc script = (Some b, script') \<and> granted script' \<and> buffer_ok b \<and> \<not> autosize b"
    and "\<exists>l script'. guacenc_layer_alloc script = (Some l, script') \<and> granted script' \<and> layer_ok l"
  using next_alloc_granted[OF assms] next_alloc_granted[of "tl script"] next_alloc_granted[of "tl (tl script)"]
  by (auto simp: guacenc_layer_alloc_def guacenc_buffer_alloc_def layer_ok_def buffer_ok_def size_ok_def)

lemma get_layer_keeps:
  assumes "display_ok d" "guacenc_display_get_layer d index = (r, d')"
  shows "keeps d d' \<and> (\<forall>i. r = Some i \<longrightarrow> allocated d' i \<and> int i = index)"
proof (cases "0 \<le> index \<and> index < 64 \<and> dlayers d ! nat index = None")
  case False
  with assms show ?thesis
    by (auto simp: guacenc_display_get_layer_def allocated_def keeps_refl split: if_splits option.splits)
next
  case True
  obtain k script where a: "guacenc_layer_alloc (alloc_script d) = (Some k, script)" "granted script" "layer_ok k"
    using alloc_granted(2)[of "alloc_script d"] assms(1) by (auto simp: display_ok_def)
  have "layer_ok (if index = 0 then k\<lparr>parent_index := - 1\<rparr> else k)" using a(3) by (auto simp: layer_ok_def)
  moreover have "length (dlayers d) = 64" using assms(1) by (simp add: display_ok_def)
  ultimately show ?thesis using True a assms
    by (auto simp: guacenc_display_get_layer_def keeps_def display_ok_def allocated_def nth_list_update Let_def
        intro!: list_all_update)
qed

lemma get_buffer_keeps:
  assumes "display_ok d" "small index"
  shows "\<exists>r d'. guacenc_display_get_buffer d index = Some (r, d') \<and> keeps d d'
    \<and> (\<forall>i. r = Some i \<longrightarrow> i < 4096 \<and> dbuffers d' ! i \<noteq> None)"
proof -
  have c: "c_int (- index) = Some (- index)" "c_int (- index - 1) = Some (- index - 1)"
    using assms(2) by (simp_all add: small_def c_int_def in_s32_def)
  obtain b script where a: "guacenc_buffer_alloc (alloc_script d) = (Some b, script)" "granted script" "buffer_ok b"
    using alloc_granted(1)[of "alloc_script d"] assms(1) by (auto simp: display_ok_def)
  have "slot_ok (b\<lparr>autosize := True\<rparr>)" using a(3)
    by (auto simp: slot_ok_def buffer_ok_def split: option.splits)
  with assms a c show ?thesis
    by (auto simp: guacenc_display_get_buffer_def keeps_def display_ok_def allocated_def nth_list_update
        intro!: list_all_update split: option.split)
qed

text \<open>A reference to a buffer that exists.\<close>

definition valid_ref :: "guacenc_display \<Rightarrow> buffer_ref \<Rightarrow> bool" where
  "valid_ref d ref =
     (case ref of Buffer_Slot i \<Rightarrow> i < 4096 \<and> dbuffers d ! i \<noteq> None | Layer_Slot i \<Rightarrow> allocated d i)"

lemma get_related_buffer_keeps:
  assumes "display_ok d" "small index"
  shows "\<exists>r d'. guacenc_display_get_related_buffer d index = Some (r, d') \<and> keeps d d'
    \<and> (\<forall>ref. r = Some ref \<longrightarrow> valid_ref d' ref)"
proof (cases "0 \<le> index")
  case True
  obtain l d' where g: "guacenc_display_get_layer d index = (l, d')" by fastforce
  from get_layer_keeps[OF assms(1) g] g True show ?thesis
    by (auto simp: guacenc_display_get_related_buffer_def valid_ref_def)
next
  case False
  with get_buffer_keeps[OF assms] show ?thesis
    by (auto simp: guacenc_display_get_related_buffer_def valid_ref_def)
qed

lemma buffer_at_ok: "display_ok d \<Longrightarrow> valid_ref d ref \<Longrightarrow> buffer_ok (buffer_at d ref)"
  using layer_at_ok[of d]
  by (auto simp: valid_ref_def buffer_at_def layer_ok_def display_ok_def list_all_length pred_option_def slot_ok_def
      split: buffer_ref.splits)

lemma set_buffer_keeps:
  assumes "display_ok d" "valid_ref d ref" "buffer_ok b" "autosize b = autosize (buffer_at d ref)"
  shows "keeps d (set_buffer ref b d)" "valid_ref d ref' \<Longrightarrow> valid_ref (set_buffer ref b d) ref'"
proof -
  have "keeps d (set_buffer ref b d)"
  proof (cases ref)
    case (Buffer_Slot i)
    have "autosize (the (dbuffers d ! i))"
      using assms(1,2) Buffer_Slot by (auto simp: valid_ref_def display_ok_def list_all_length pred_option_def slot_ok_def)
    then have "slot_ok b" using assms(3,4) Buffer_Slot by (simp add: slot_ok_def buffer_at_def)
    then show ?thesis using assms(1) Buffer_Slot
      by (auto simp: set_buffer_def keeps_def display_ok_def allocated_def intro!: list_all_update)
  next
    case (Layer_Slot i)
    then have "layer_ok ((layer_at d i)\<lparr>lbuffer := b\<rparr>)"
      using layer_at_ok[OF assms(1), of i] assms(2-4) by (simp add: layer_ok_def valid_ref_def buffer_at_def)
    from set_layer_keeps[OF assms(1) this] show ?thesis by (simp add: set_buffer_def Layer_Slot)
  qed
  moreover have "dbuffers (set_buffer ref b d) ! i \<noteq> None" if "i < 4096" "dbuffers d ! i \<noteq> None" for i
    using that assms(1) by (auto simp: set_buffer_def set_layer_def split: buffer_ref.splits)
  ultimately show "keeps d (set_buffer ref b d)" "valid_ref d ref' \<Longrightarrow> valid_ref (set_buffer ref b d) ref'"
    by (auto simp: valid_ref_def keeps_def split: buffer_ref.splits)
qed


section \<open>Flattening and synchronizing keep it\<close>

lemma get_depth_keeps:
  assumes "guacenc_display_get_depth d x = Some r"
  shows "display_ok d \<longrightarrow> keeps d (snd r)"
proof (rule guacenc_display_get_depth.raw_induct[OF _ assms])
  fix f d x r
  assume IH: "\<And>d x r. f d x = Some r \<Longrightarrow> display_ok d \<longrightarrow> keeps d (snd r)"
    and body: "(case x of None \<Rightarrow> Some (0, d)
      | Some i \<Rightarrow>
          if parent_index (layer_at d i) = - 1 then Some (0, d)
          else
            (case guacenc_display_get_layer d (parent_index (layer_at d i)) of (parent, d) \<Rightarrow>
               Option.bind (f d parent) (\<lambda>(depth, d). Some (s32 (depth + 1), d)))) = Some r"
  show "display_ok d \<longrightarrow> keeps d (snd r)"
  proof
    assume ok: "display_ok d"
    show "keeps d (snd r)"
    proof (cases "x = None \<or> parent_index (layer_at d (the x)) = - 1")
      case True
      with body ok show ?thesis by (auto simp: keeps_refl split: option.splits if_splits)
    next
      case False
      obtain p d1 where 1: "guacenc_display_get_layer d (parent_index (layer_at d (the x))) = (p, d1)" by fastforce
      with body False obtain r1 where "f d1 p = Some r1" "snd r = snd r1"
        by (auto simp: Option.bind_eq_Some_conv split: option.splits)
      with IH get_layer_keeps[OF ok 1] show ?thesis by (metis keeps_trans keeps_ok)
    qed
  qed
qed

lemma comparator_keeps:
  assumes "display_ok d" "guacenc_display_layer_comparator d a b = Some (r, d')"
  shows "keeps d d'"
proof (cases "a = None \<or> b = None")
  case True
  with assms show ?thesis
    by (auto simp: guacenc_display_layer_comparator_def keeps_refl split: option.splits)
next
  case False
  then obtain u d1 v where 1: "guacenc_display_get_depth d a = Some (u, d1)" "guacenc_display_get_depth d1 b = Some (v, d')"
    using assms(2) by (auto simp: guacenc_display_layer_comparator_def Option.bind_eq_Some_conv split: option.splits)
  have "keeps d d1" using get_depth_keeps[OF 1(1)] assms(1) by simp
  moreover from this have "keeps d1 d'" using get_depth_keeps[OF 1(2)] by (simp add: keeps_ok)
  ultimately show ?thesis by (rule keeps_trans)
qed

lemma insert_layer_keeps:
  assumes "display_ok d" "insert_layer first x ys d = Some (zs, d')"
  shows "keeps d d' \<and> set zs = insert x (set ys)"
  using assms
proof (induction ys arbitrary: d zs)
  case (Cons y ys)
  from Cons.prems(2) obtain r d1 where 1: "guacenc_display_layer_comparator d x y = Some (r, d1)"
    by (auto simp: Option.bind_eq_Some_conv)
  have k: "keeps d d1" by (rule comparator_keeps[OF Cons.prems(1) 1])
  show ?case
  proof (cases "r < 0 \<or> (r = 0 \<and> first x y)")
    case True
    with Cons.prems(2) 1 k show ?thesis by auto
  next
    case False
    with Cons.prems(2) 1 obtain ws where "insert_layer first x ys d1 = Some (ws, d')" "zs = y # ws"
      by (auto simp: Option.bind_eq_Some_conv)
    with Cons.IH[OF keeps_ok[OF k]] keeps_trans[OF k] show ?thesis by auto
  qed
qed (simp add: keeps_refl)

lemma qsort_layers_keeps:
  assumes "display_ok d" "qsort_layers first xs d = Some (ys, d')"
  shows "keeps d d' \<and> set ys = set xs"
  using assms(2)
proof (induction xs arbitrary: ys d')
  case (Cons x xs)
  then obtain zs d1 where 1: "qsort_layers first xs d = Some (zs, d1)" "insert_layer first x zs d1 = Some (ys, d')"
    by (auto simp: Option.bind_eq_Some_conv)
  with Cons.IH[OF 1(1)] insert_layer_keeps[OF _ 1(2)] show ?case by (auto intro: keeps_trans keeps_ok)
qed (simp add: keeps_refl assms(1))

lemma layer_ok_frame: "layer_ok l \<Longrightarrow> buffer_ok b \<Longrightarrow> layer_ok (l\<lparr>frame := b\<rparr>)"
  by (simp add: layer_ok_def)

lemma reset_frames_keeps:
  assumes "libs_ok libs" "display_ok d" "\<And>i. Some i \<in> set xs \<Longrightarrow> allocated d i"
  shows "\<exists>d'. reset_frames libs xs d = Some d' \<and> keeps d d'"
  using assms(2,3)
proof (induction xs arbitrary: d)
  case (Cons x xs)
  show ?case
  proof (cases x)
    case None
    with Cons show ?thesis by simp
  next
    case (Some i)
    have ok: "layer_ok (layer_at d i)" using layer_at_ok[OF Cons.prems(1)] Cons.prems(2) Some by simp
    then obtain b where b: "guacenc_buffer_copy libs (frame (layer_at d i)) (lbuffer (layer_at d i)) = Some (0, b)" "buffer_ok b"
      using copy_result[OF assms(1), of "frame (layer_at d i)" "lbuffer (layer_at d i)"] by (auto simp: layer_ok_def)
    have k: "keeps d (set_layer i ((layer_at d i)\<lparr>frame := b\<rparr>) d)"
      by (rule set_layer_keeps[OF Cons.prems(1) layer_ok_frame[OF ok b(2)]])
    have "\<exists>d'. reset_frames libs xs (set_layer i ((layer_at d i)\<lparr>frame := b\<rparr>) d) = Some d'
        \<and> keeps (set_layer i ((layer_at d i)\<lparr>frame := b\<rparr>) d) d'"
      by (rule Cons.IH[OF keeps_ok[OF k]]) (use Cons.prems(2) k in \<open>auto simp: keeps_def\<close>)
    with k Some b(1) show ?thesis by (auto intro: keeps_trans)
  qed
qed (simp add: keeps_refl)

lemma render_layer_keeps:
  assumes "display_ok d" "allocated d i"
  shows "keeps d (render_layer i d)"
proof -
  obtain p d1 where g: "guacenc_display_get_layer d (parent_index (layer_at d i)) = (p, d1)" by fastforce
  have k: "keeps d d1" "\<And>j. p = Some j \<Longrightarrow> allocated d1 j" using get_layer_keeps[OF assms(1) g] by auto
  have "keeps d1 (set_layer j ((layer_at d1 j)\<lparr>frame := (frame (layer_at d1 j))\<lparr>surface := Some (draw cs t)\<rparr>\<rparr>) d1)"
    if "p = Some j" "surface (frame (layer_at d1 j)) = Some t" for j cs t
    using layer_at_ok[OF keeps_ok[OF k(1)] k(2)[OF that(1)]] that(2)
    by (intro set_layer_keeps[OF keeps_ok[OF k(1)]] layer_ok_frame) (auto simp: layer_ok_def)
  then show ?thesis using k(1) g
    by (auto simp: render_layer_def Let_def keeps_refl[OF assms(1)] intro: keeps_trans split: option.splits)
qed

lemma render_layers_keeps:
  assumes "display_ok d" "\<And>i. Some i \<in> set xs \<Longrightarrow> allocated d i"
  shows "keeps d (render_layers xs d)"
  using assms
proof (induction xs arbitrary: d)
  case (Cons x xs)
  show ?case
  proof (cases x)
    case None
    with Cons show ?thesis by simp
  next
    case (Some i)
    have k: "keeps d (render_layer i d)" using Cons.prems Some by (intro render_layer_keeps) auto
    have "keeps (render_layer i d) (render_layers xs (render_layer i d))"
      by (rule Cons.IH[OF keeps_ok[OF k]]) (use Cons.prems(2) k in \<open>auto simp: keeps_def\<close>)
    with k Some show ?thesis by (auto intro: keeps_trans)
  qed
qed (simp add: keeps_refl)

lemma render_cursor_keeps:
  assumes "display_ok d" "guacenc_display_render_cursor d = Some (r, d')"
  shows "keeps d d' \<and> r = 0"
proof -
  obtain p d1 where g: "guacenc_display_get_layer d 0 = (p, d1)" by fastforce
  have k: "keeps d d1" "\<And>j. p = Some j \<Longrightarrow> allocated d1 j" using get_layer_keeps[OF assms(1) g] by auto
  have draw: "keeps d (set_layer j ((layer_at d1 j)\<lparr>frame := (frame (layer_at d1 j))\<lparr>surface := Some (draw cs t)\<rparr>\<rparr>) d1)"
    if "p = Some j" "surface (frame (layer_at d1 j)) = Some t" for j cs t
    using layer_at_ok[OF keeps_ok[OF k(1)] k(2)[OF that(1)]] that(2)
    by (intro keeps_trans[OF k(1)] set_layer_keeps[OF keeps_ok[OF k(1)]] layer_ok_frame) (auto simp: layer_ok_def)
  obtain c where c: "cursor d = Some c" using assms(1) by (auto simp: display_ok_def)
  show ?thesis
  proof (cases "(cx c < 0 \<or> cy c < 0) \<or> \<not> (0 < bwidth (cbuffer c) \<and> 0 < bheight (cbuffer c))")
    case True
    with assms(2) c g k(1) keeps_refl[OF assms(1)] show ?thesis
      by (auto simp: guacenc_display_render_cursor_def Let_def split: option.splits if_splits)
  next
    case False
    with assms(2) c g obtain j s t x y where
      "p = Some j" "surface (frame (layer_at d1 j)) = Some t" "r = 0"
      "d' = set_layer j ((layer_at d1 j)\<lparr>frame := (frame (layer_at d1 j))\<lparr>surface := Some (draw
        [Set_Source_Surface s x y, Rectangle x y (bwidth (cbuffer c)) (bheight (cbuffer c)), Fill] t)\<rparr>\<rparr>) d1"
      by (cases p; cases "surface (cbuffer c)"; cases "surface (frame (layer_at d1 (the p)))")
        (auto simp: guacenc_display_render_cursor_def Let_def Option.bind_eq_Some_conv)
    with draw show ?thesis by simp
  qed
qed

lemma flatten_keeps:
  assumes "libs_ok libs" "display_ok d" "guacenc_display_flatten libs d = Some (r, d')"
  shows "keeps d d' \<and> r = 0"
proof -
  from assms(3) obtain order d1 d2 where
    1: "qsort_layers (sort_tie libs (last_sync d)) (render_order d) d = Some (order, d1)" "reset_frames libs order d1 = Some d2"
    "guacenc_display_render_cursor (render_layers order d2) = Some (r, d')"
    by (auto simp: guacenc_display_flatten_def Option.bind_eq_Some_conv)
  have k1: "keeps d d1" "set order = set (render_order d)" using qsort_layers_keeps[OF assms(2) 1(1)] by auto
  have a1: "allocated d1 i" if "Some i \<in> set order" for i
  proof -
    have "allocated d i" using that k1(2) by (auto simp: render_order_def allocated_def split: if_splits)
    then show ?thesis using k1(1) by (simp add: keeps_def)
  qed
  have k2: "keeps d1 d2" 
    using reset_frames_keeps[OF assms(1) keeps_ok[OF k1(1)], of order] a1 1(2) by auto
  have a2: "allocated d2 i" if "Some i \<in> set order" for i using a1[OF that] k2 by (simp add: keeps_def)
  have k3: "keeps d2 (render_layers order d2)" by (rule render_layers_keeps[OF keeps_ok[OF k2] a2])
  from render_cursor_keeps[OF keeps_ok[OF k3] 1(3)] k1(1) k2 k3 show ?thesis by (blast intro: keeps_trans)
qed

lemma sync_keeps:
  assumes "libs_ok libs" "display_ok d" "guacenc_display_sync libs d timestamp = Some (r, d')"
  shows "keeps d d'"
proof (cases "timestamp < last_sync d")
  case True
  with assms show ?thesis by (simp add: guacenc_display_sync_def keeps_refl)
next
  case False
  have ok: "keeps d (d\<lparr>last_sync := timestamp\<rparr>)"
    using assms(2) by (simp add: keeps_def display_ok_def allocated_def)
  from False assms(3) obtain r1 d1 where f: "guacenc_display_flatten libs (d\<lparr>last_sync := timestamp\<rparr>) = Some (r1, d1)"
    by (auto simp: guacenc_display_sync_def Option.bind_eq_Some_conv)
  have k1: "keeps d d1" "r1 = 0" using flatten_keeps[OF assms(1) keeps_ok[OF ok] f] ok by (auto intro: keeps_trans)
  obtain p d2 where g: "guacenc_display_get_layer d1 0 = (p, d2)" by fastforce
  have k2: "keeps d d2" using get_layer_keeps[OF keeps_ok[OF k1(1)] g] k1(1) by (blast intro: keeps_trans)
  have vid: "keeps d (d2\<lparr>video := v\<rparr>)" for v using k2 by (simp add: keeps_def display_ok_def allocated_def)
  with False assms(3) f g k1(2) show ?thesis
    by (auto simp: guacenc_display_sync_def Option.bind_eq_Some_conv split: option.splits prod.splits if_splits)
qed


section \<open>The handlers keep it\<close>

text \<open>
  Instructions with coordinates, sizes and indices of at most 8191, and no negative sizes; what other arguments
  contain does not matter.
\<close>

abbreviation small_args :: "byte list list \<Rightarrow> bool" where
  "small_args \<equiv> list_all (\<lambda>a. small (atoi a))"

abbreviation sizes :: "byte list list \<Rightarrow> bool" where
  "sizes \<equiv> list_all (\<lambda>a. 0 \<le> atoi a)"

definition modest :: "byte list \<Rightarrow> byte list list \<Rightarrow> bool" where
  "modest name argv \<longleftrightarrow>
     (name \<in> set [cstr ''img'', cstr ''cursor'', cstr ''copy'', cstr ''size'', cstr ''rect'', cstr ''cfill'',
        cstr ''dispose''] \<longrightarrow> small_args argv)
     \<and> (name = cstr ''size'' \<longrightarrow> sizes (drop 1 argv)) \<and> (name = cstr ''cursor'' \<longrightarrow> sizes (drop 5 argv))"

lemma small_arg: "small_args argv \<Longrightarrow> i < length argv \<Longrightarrow> small (atoi (argv ! i))"
  by (simp add: list_all_length)

lemma size_arg:
  assumes "small_args argv" "sizes (drop k argv)" "k \<le> i" "i < length argv"
  shows "size_ok (atoi (argv ! i))"
proof -
  have "0 \<le> atoi (drop k argv ! (i - k))"
    using assms(2)[unfolded list_all_length, rule_format, of "i - k"] assms(3,4) by simp
  with small_arg[OF assms(1,4)] assms(3,4) show ?thesis by (simp add: size_ok_def small_def)
qed

lemma small_sum: "small x \<Longrightarrow> small y \<Longrightarrow> c_int (x + y) = Some (x + y) \<and> - IMAGE_LIMIT \<le> x + y \<and> x + y < IMAGE_LIMIT"
  "small x \<Longrightarrow> small y \<Longrightarrow> c_int (x - y) = Some (x - y)" "small x \<Longrightarrow> c_int (- x) = Some (- x)" "small 0"
  by (auto simp: small_def c_int_def in_s32_def)

text \<open>A handler that always returns on some arguments, and keeps the invariant.\<close>

definition total_handler :: "(byte list list \<Rightarrow> bool) \<Rightarrow> instruction_handler \<Rightarrow> bool" where
  "total_handler P h = (\<forall>d argv. display_ok d \<longrightarrow> P argv \<longrightarrow> (\<exists>r d'. h d argv = Some (r, d') \<and> display_ok d'))"

lemma total_handlerI:
  assumes "\<And>d argv. display_ok d \<Longrightarrow> P argv \<Longrightarrow> \<exists>r d'. h d argv = Some (r, d') \<and> keeps d d'"
  shows "total_handler P h"
  unfolding total_handler_def using assms keeps_ok by metis

lemma stream_at_ok:
  "display_ok d \<Longrightarrow> guacenc_display_get_image_stream d index = Some st \<Longrightarrow> stream_ok st"
  by (auto simp: guacenc_display_get_image_stream_def display_ok_def list_all_length pred_option_def
      elim!: allE[of _ "nat index"] split: if_splits)

lemma receive_granted:
  assumes "guacenc_image_stream_receive st data len script = (r, st', script')" "granted script" "stream_ok st"
  shows "granted script' \<and> stream_ok st'"
  using assms next_alloc_granted[OF assms(2)]
  by (auto simp: guacenc_image_stream_receive_def stream_ok_def Let_def split: if_splits prod.splits)

lemma blob_total: "total_handler (\<lambda>_. True) guacenc_handle_blob"
proof (rule total_handlerI)
  fix d argv assume d: "display_ok d"
  show "\<exists>r d'. guacenc_handle_blob d argv = Some (r, d') \<and> keeps d d'"
  proof (cases "length argv < 2 \<or> guacenc_display_get_image_stream d (atoi (argv ! 0)) = None")
    case True
    with keeps_refl[OF d] show ?thesis by (auto simp: guacenc_handle_blob_def Let_def split: prod.splits)
  next
    case False
    then obtain st where st: "guacenc_display_get_image_stream d (atoi (argv ! 0)) = Some st" by blast
    obtain len data where b: "guac_protocol_decode_base64 (argv ! 1) = (len, data)" by fastforce
    obtain r st' script where r: "guacenc_image_stream_receive st data len (alloc_script d) = (r, st', script)"
      by (metis prod_cases3)
    have ok: "granted script" "stream_ok st'"
      using receive_granted[OF r] stream_at_ok[OF d st] d by (simp_all add: display_ok_def)
    have "keeps d (d\<lparr>alloc_script := script, image_streams := (image_streams d)[nat (atoi (argv ! 0)) := Some st']\<rparr>)"
      using d ok by (auto simp: keeps_def display_ok_def allocated_def intro!: list_all_update)
    with False st b r show ?thesis by (simp add: guacenc_handle_blob_def Let_def)
  qed
qed

lemma img_total: "total_handler small_args (guacenc_handle_img libs)"
proof (rule total_handlerI)
  fix d argv assume d: "display_ok d" and s: "small_args argv"
  show "\<exists>r d'. guacenc_handle_img libs d argv = Some (r, d') \<and> keeps d d'"
  proof (cases "length argv < 6 \<or> atoi (argv ! 0) < 0 \<or> int GUACENC_DISPLAY_MAX_STREAMS \<le> atoi (argv ! 0)")
    case True
    with keeps_refl[OF d] show ?thesis
      by (auto simp: guacenc_handle_img_def guacenc_display_create_image_stream_def)
  next
    case False
    have "granted (alloc_script d)" using d by (simp add: display_ok_def)
    note n = next_alloc_granted[OF this] next_alloc_granted[of "tl (alloc_script d)"]
    obtain st script where a: "guacenc_image_stream_alloc libs (atoi (argv ! 1)) (atoi (argv ! 2)) (argv ! 3)
        (atoi (argv ! 4)) (atoi (argv ! 5)) (alloc_script d) = Some (Some st, script)" "granted script" "stream_ok st"
      using n small_arg[OF s, of 2] small_arg[OF s, of 4] small_arg[OF s, of 5] False
      by (auto simp: guacenc_image_stream_alloc_def stream_ok_def)
    have "keeps d (d\<lparr>alloc_script := script, image_streams := (image_streams d)[nat (atoi (argv ! 0)) := Some st]\<rparr>)"
      using d a by (auto simp: keeps_def display_ok_def allocated_def intro!: list_all_update)
    with False a(1) show ?thesis
      by (simp add: guacenc_handle_img_def guacenc_display_create_image_stream_def)
  qed
qed

lemma transfer_total: "total_handler (\<lambda>_. True) guacenc_handle_transfer"
  unfolding total_handler_def by (auto simp: guacenc_handle_transfer_def)

lemma dispose_total: "total_handler small_args guacenc_handle_dispose"
  unfolding total_handler_def
proof (intro allI impI)
  fix d argv assume d: "display_ok d" and s: "small_args argv"
  have c: "c_int (- x) = Some (- x)" "c_int (- x - 1) = Some (- x - 1)" if "small x" for x
    using that by (simp_all add: small_def c_int_def in_s32_def)
  show "\<exists>r d'. guacenc_handle_dispose d argv = Some (r, d') \<and> display_ok d'"
    using d c[OF small_arg[OF s, of 0]]
    by (auto simp: guacenc_handle_dispose_def guacenc_display_free_layer_def guacenc_display_free_buffer_def
        display_ok_def Let_def intro!: list_all_update)
qed

text \<open>Handlers that look up one buffer and replace it.\<close>

lemma buffer_handler:
  fixes f :: "guacenc_buffer \<Rightarrow> (int \<times> guacenc_buffer) option"
  assumes "display_ok d" "small index"
    and "\<And>b. buffer_ok b \<Longrightarrow> \<exists>r b'. f b = Some (r, b') \<and> buffer_ok b' \<and> autosize b' = autosize b"
  shows "\<exists>r d'. Option.bind (guacenc_display_get_related_buffer d index) (\<lambda>(ref, d).
        case ref of
          None \<Rightarrow> Some (1, d)
        | Some ref \<Rightarrow> map_option (\<lambda>(r, b). (r, set_buffer ref b d)) (f (buffer_at d ref))) = Some (r, d')
    \<and> keeps d d'"
proof -
  obtain x d1 where g: "guacenc_display_get_related_buffer d index = Some (x, d1)"
    and k: "keeps d d1" "\<And>ref. x = Some ref \<Longrightarrow> valid_ref d1 ref"
    using get_related_buffer_keeps[OF assms(1,2)] by auto
  show ?thesis
  proof (cases x)
    case None
    with g k(1) show ?thesis by simp
  next
    case (Some ref)
    obtain r b where f: "f (buffer_at d1 ref) = Some (r, b)" "buffer_ok b" "autosize b = autosize (buffer_at d1 ref)"
      using assms(3)[OF buffer_at_ok[OF keeps_ok[OF k(1)] k(2)[OF Some]]] by blast
    have "keeps d1 (set_buffer ref b d1)"
      by (rule set_buffer_keeps(1)[OF keeps_ok[OF k(1)] k(2)[OF Some] f(2,3)])
    from keeps_trans[OF k(1) this] g Some f(1) show ?thesis by simp
  qed
qed

lemma buffer_ok_map_draw: "buffer_ok b \<Longrightarrow> buffer_ok (b\<lparr>surface := map_option (draw cs) (surface b)\<rparr>)"
  by (cases "surface b") (simp_all add: buffer_ok_def)

lemma size_total:
  assumes "libs_ok libs"
  shows "total_handler (\<lambda>argv. small_args argv \<and> sizes (drop 1 argv)) (guacenc_handle_size libs)"
proof (rule total_handlerI, elim conjE)
  fix d argv assume d: "display_ok d" and a: "small_args argv" "sizes (drop 1 argv)"
  show "\<exists>r d'. guacenc_handle_size libs d argv = Some (r, d') \<and> keeps d d'"
  proof (cases "length argv < 3")
    case True
    with keeps_refl[OF d] show ?thesis by (simp add: guacenc_handle_size_def)
  next
    case False
    have "\<exists>r b'. guacenc_buffer_resize libs b (atoi (argv ! 1)) (atoi (argv ! 2)) = Some (r, b') \<and> buffer_ok b'
        \<and> autosize b' = autosize b" if "buffer_ok b" for b
      using resize_result[OF assms that size_arg[OF a, of 1] size_arg[OF a, of 2]] False by force
    moreover have "small (atoi (argv ! 0))" using small_arg[OF a(1), of 0] False by fastforce
    ultimately show ?thesis
      using False buffer_handler[OF d, of "atoi (argv ! 0)" "\<lambda>b. guacenc_buffer_resize libs b (atoi (argv ! 1)) (atoi (argv ! 2))"]
      by (simp add: guacenc_handle_size_def)
  qed
qed

lemma cfill_total: "total_handler small_args guacenc_handle_cfill"
proof (rule total_handlerI)
  fix d argv assume d: "display_ok d" and a: "small_args argv"
  let ?cs = "[Set_Operator (guacenc_display_cairo_operator (atoi (argv ! 0))),
    Set_Source_RGBA (atoi (argv ! 2)) (atoi (argv ! 3)) (atoi (argv ! 4)) (atoi (argv ! 5)), Fill]"
  show "\<exists>r d'. guacenc_handle_cfill d argv = Some (r, d') \<and> keeps d d'"
  proof (cases "length argv < 6")
    case True
    with keeps_refl[OF d] show ?thesis by (simp add: guacenc_handle_cfill_def)
  next
    case False
    have "\<exists>r b'. Some (0, b\<lparr>surface := map_option (draw ?cs) (surface b)\<rparr>) = Some (r, b') \<and> buffer_ok b'
        \<and> autosize b' = autosize b" if "buffer_ok b" for b
      using buffer_ok_map_draw[OF that] by simp
    moreover have "small (atoi (argv ! 1))" using small_arg[OF a, of 1] False by simp
    ultimately show ?thesis
      using False buffer_handler[OF d, of "atoi (argv ! 1)" "\<lambda>b. Some (0, b\<lparr>surface := map_option (draw ?cs) (surface b)\<rparr>)"]
      by (simp add: guacenc_handle_cfill_def Let_def cong: option.case_cong)
  qed
qed

lemma fit_rect_result:
  assumes "libs_ok libs" "buffer_ok b" "small x" "small y" "small w" "small h"
  shows "\<exists>b'. fit_rect libs b x y w h = Some b' \<and> buffer_ok b' \<and> autosize b' = autosize b"
  using fit_result[OF assms(1,2), of "x + w" "y + h"] small_sum(1)[OF assms(3,5)] small_sum(1)[OF assms(4,6)] assms(2)
  by (auto simp: fit_rect_def)

lemma rect_total:
  assumes "libs_ok libs"
  shows "total_handler small_args (guacenc_handle_rect libs)"
proof (rule total_handlerI)
  fix d argv assume d: "display_ok d" and a: "small_args argv"
  define x y w h where "x = atoi (argv ! 1)" "y = atoi (argv ! 2)" "w = atoi (argv ! 3)" "h = atoi (argv ! 4)"
  show "\<exists>r d'. guacenc_handle_rect libs d argv = Some (r, d') \<and> keeps d d'"
  proof (cases "length argv < 5")
    case True
    with keeps_refl[OF d] show ?thesis by (simp add: guacenc_handle_rect_def)
  next
    case False
    then have "argv \<noteq> []" by auto
    with False have s: "small x" "small y" "small w" "small h" "small (atoi (argv ! 0))"
      using small_arg[OF a] by (simp_all add: x_y_w_h_def)
    let ?f = "\<lambda>b. map_option (\<lambda>b. (0 :: int, b\<lparr>surface := map_option (draw [Rectangle x y w h]) (surface b)\<rparr>))
      (fit_rect libs b x y w h)"
    have "\<exists>r b'. ?f b = Some (r, b') \<and> buffer_ok b' \<and> autosize b' = autosize b" if "buffer_ok b" for b
      using fit_rect_result[OF assms that s(1-4)] buffer_ok_map_draw by fastforce
    from buffer_handler[OF d s(5), of ?f, OF this] False show ?thesis
      by (simp add: guacenc_handle_rect_def Let_def x_y_w_h_def option.map_comp comp_def cong: option.case_cong)
  qed
qed

lemma end_total:
  assumes "libs_ok libs" "decodes_small libs"
  shows "total_handler (\<lambda>_. True) (guacenc_handle_end libs)"
proof (rule total_handlerI)
  fix d argv assume d: "display_ok d"
  show "\<exists>r d'. guacenc_handle_end libs d argv = Some (r, d') \<and> keeps d d'"
  proof (cases "length argv < 1 \<or> guacenc_display_get_image_stream d (atoi (argv ! 0)) = None")
    case True
    with keeps_refl[OF d] show ?thesis by (auto simp: guacenc_handle_end_def)
  next
    case False
    then obtain st where st: "guacenc_display_get_image_stream d (atoi (argv ! 0)) = Some st" by blast
    have s: "small (sindex st)" "small (sx st)" "small (sy st)"
      using stream_at_ok[OF d st] by (simp_all add: stream_ok_def)
    from buffer_handler[OF d s(1), of "guacenc_image_stream_end libs st", OF image_stream_end_result[OF assms _ s(2,3)]]
      False st show ?thesis by (simp add: guacenc_handle_end_def)
  qed
qed

lemma layer_handler:
  assumes "display_ok d" "guacenc_display_get_layer d index = (Some i, d1)" "\<And>l. layer_ok l \<Longrightarrow> layer_ok (f l)"
  shows "keeps d (set_layer i (f (layer_at d1 i)) d1)"
proof -
  have k: "keeps d d1" "allocated d1 i" using get_layer_keeps[OF assms(1,2)] by auto
  have "keeps d1 (set_layer i (f (layer_at d1 i)) d1)"
    by (intro set_layer_keeps keeps_ok[OF k(1)] assms(3) layer_at_ok[OF keeps_ok[OF k(1)] k(2)])
  with k(1) show ?thesis by (rule keeps_trans)
qed

lemma shade_total: "total_handler (\<lambda>_. True) guacenc_handle_shade"
proof (rule total_handlerI)
  fix d argv assume d: "display_ok d"
  obtain x d1 where g: "guacenc_display_get_layer d (atoi (argv ! 0)) = (x, d1)" by fastforce
  have "keeps d d1" using get_layer_keeps[OF d g] by simp
  moreover have "keeps d (set_layer i ((layer_at d1 i)\<lparr>opacity := v\<rparr>) d1)" if "x = Some i" for i v
    using layer_handler[OF d g[unfolded that], of "\<lambda>l. l\<lparr>opacity := v\<rparr>"] by (simp add: layer_ok_def)
  ultimately show "\<exists>r d'. guacenc_handle_shade d argv = Some (r, d') \<and> keeps d d'"
    using keeps_refl[OF d] g by (auto simp: guacenc_handle_shade_def split: option.split)
qed

lemma move_total: "total_handler (\<lambda>_. True) guacenc_handle_move"
proof (rule total_handlerI)
  fix d argv assume d: "display_ok d"
  define par where "par = atoi (argv ! 1)"
  obtain x d1 where g: "guacenc_display_get_layer d (atoi (argv ! 0)) = (x, d1)" by fastforce
  obtain p d2 where g2: "guacenc_display_get_layer d1 par = (p, d2)" by fastforce
  have k1: "keeps d d1" "\<And>i. x = Some i \<Longrightarrow> allocated d1 i" using get_layer_keeps[OF d g] by auto
  have k2: "keeps d1 d2" "\<And>q. p = Some q \<Longrightarrow> int q = par \<and> q < 64"
    using get_layer_keeps[OF keeps_ok[OF k1(1)] g2] by (auto simp: allocated_def)
  have "keeps d2 (set_layer i ((layer_at d2 i)\<lparr>parent_index := par, lx := a, ly := b, lz := c\<rparr>) d2)"
    if "x = Some i" "p = Some q" for i q a b c
  proof (rule set_layer_keeps[OF keeps_ok[OF k2(1)]])
    have "allocated d2 i" using k1(2)[OF that(1)] k2(1) by (simp add: keeps_def)
    from layer_at_ok[OF keeps_ok[OF k2(1)] this] k2(2)[OF that(2)]
    show "layer_ok ((layer_at d2 i)\<lparr>parent_index := par, lx := a, ly := b, lz := c\<rparr>)" by (auto simp: layer_ok_def)
  qed
  with k1 k2 show "\<exists>r d'. guacenc_handle_move d argv = Some (r, d') \<and> keeps d d'"
    using g g2 keeps_refl[OF d] keeps_trans[OF k1(1)] keeps_trans[OF keeps_trans[OF k1(1) k2(1)]]
    by (auto simp: guacenc_handle_move_def par_def split: option.split)
qed

lemma cursor_total:
  assumes "libs_ok libs"
  shows "total_handler (\<lambda>argv. small_args argv \<and> sizes (drop 5 argv)) (guacenc_handle_cursor libs)"
proof (rule total_handlerI, elim conjE)
  fix d argv assume d: "display_ok d" and a: "small_args argv" "sizes (drop 5 argv)"
  show "\<exists>r d'. guacenc_handle_cursor libs d argv = Some (r, d') \<and> keeps d d'"
  proof (cases "length argv < 7")
    case True
    with keeps_refl[OF d] show ?thesis by (simp add: guacenc_handle_cursor_def)
  next
    case False
    obtain x d1 where g: "guacenc_display_get_related_buffer d (atoi (argv ! 2)) = Some (x, d1)" "keeps d d1"
      using get_related_buffer_keeps[OF d small_arg[OF a(1), of 2]] False by auto
    obtain c where c: "cursor d1 = Some c" "buffer_ok (cbuffer c)" using keeps_ok[OF g(2)] by (auto simp: display_ok_def)
    obtain dst where r: "guacenc_buffer_resize libs (cbuffer c) (atoi (argv ! 5)) (atoi (argv ! 6)) = Some (0, dst)"
      "buffer_ok dst"
      using resize_result[OF assms c(2) size_arg[OF a, of 5] size_arg[OF a, of 6]] False by auto
    have "keeps d1 (d1\<lparr>cursor := Some (c\<lparr>hotspot_x := u, hotspot_y := v, cbuffer := b\<rparr>)\<rparr>)" if "buffer_ok b" for u v b
      using keeps_ok[OF g(2)] that by (simp add: keeps_def display_ok_def allocated_def)
    then have k: "keeps d (d1\<lparr>cursor := Some (c\<lparr>hotspot_x := u, hotspot_y := v, cbuffer := b\<rparr>)\<rparr>)"
      if "buffer_ok b" for u v b
      using that keeps_trans[OF g(2)] by blast
    show ?thesis
    proof (cases x)
      case None
      with g False show ?thesis by (simp add: guacenc_handle_cursor_def)
    next
      case (Some ref)
      with False g(1) c(1) r k show ?thesis
        by (auto simp: guacenc_handle_cursor_def Let_def split: option.split)
    qed
  qed
qed

lemma copy_rect_keeps:
  assumes "display_ok d" "valid_ref d dst" "small srcx" "small srcy" "small dx" "small dy"
  shows "\<exists>d'. copy_rect libs src srcx srcy w h msk dst dx dy d = Some d' \<and> keeps d d'"
proof -
  have "keeps d (set_buffer dst ((buffer_at d dst)\<lparr>surface := Some (draw cs t)\<rparr>) d)"
    if "surface (buffer_at d dst) = Some t" for cs t
    using set_buffer_keeps(1)[OF assms(1,2)] buffer_ok_draw[OF buffer_at_ok[OF assms(1,2)] that] by simp
  then show ?thesis
    using keeps_refl[OF assms(1)] small_sum(2)[OF assms(5,3)] small_sum(2)[OF assms(6,4)]
      small_sum(2)[OF assms(5) small_sum(4)] small_sum(2)[OF assms(6) small_sum(4)]
      small_sum(3)[OF assms(3)] small_sum(3)[OF assms(4)]
    by (auto simp: copy_rect_def split: option.split)
qed

lemma copy_total:
  assumes "libs_ok libs"
  shows "total_handler small_args (guacenc_handle_copy libs)"
proof (rule total_handlerI)
  fix d argv assume d: "display_ok d" and a: "small_args argv"
  define w h dx dy where "w = atoi (argv ! 3)" "h = atoi (argv ! 4)" "dx = atoi (argv ! 7)" "dy = atoi (argv ! 8)"
  show "\<exists>r d'. guacenc_handle_copy libs d argv = Some (r, d') \<and> keeps d d'"
  proof (cases "length argv < 9")
    case True
    with keeps_refl[OF d] show ?thesis by (simp add: guacenc_handle_copy_def)
  next
    case False
    then have "argv \<noteq> []" by auto
    with False have s: "small (atoi (argv ! 0))" "small (atoi (argv ! 6))" "small (atoi (argv ! 1))" "small (atoi (argv ! 2))"
      and sm: "small w" "small h" "small dx" "small dy"
      using small_arg[OF a] by (simp_all add: w_h_dx_dy_def)
    obtain x d1 where g1: "guacenc_display_get_related_buffer d (atoi (argv ! 0)) = Some (x, d1)" "keeps d d1"
      using get_related_buffer_keeps[OF d s(1)] by auto
    obtain y d2 where g2: "guacenc_display_get_related_buffer d1 (atoi (argv ! 6)) = Some (y, d2)" "keeps d1 d2"
      "\<And>r. y = Some r \<Longrightarrow> valid_ref d2 r"
      using get_related_buffer_keeps[OF keeps_ok[OF g1(2)] s(2)] by auto
    note ok2 = keeps_ok[OF g2(2)] and k2 = keeps_trans[OF g1(2) g2(2)]
    show ?thesis
    proof (cases "x = None \<or> y = None")
      case True
      with g1 g2 k2 False show ?thesis by (auto simp: guacenc_handle_copy_def Let_def split: option.split)
    next
      case xy: False
      then obtain u v where uv: "x = Some u" "y = Some v" by (cases x; cases y) auto
      obtain b where b: "fit_rect libs (buffer_at d2 v) dx dy w h = Some b" "buffer_ok b"
        "autosize b = autosize (buffer_at d2 v)"
        using fit_rect_result[OF assms buffer_at_ok[OF ok2 g2(3)[OF uv(2)]] sm(3,4,1,2)] by blast
      have k3: "keeps d2 (set_buffer v b d2)" "valid_ref (set_buffer v b d2) v"
        using set_buffer_keeps[OF ok2 g2(3)[OF uv(2)] b(2,3)] g2(3)[OF uv(2)] by auto
      obtain d' where "copy_rect libs u (atoi (argv ! 1)) (atoi (argv ! 2)) w h (atoi (argv ! 5)) v dx dy (set_buffer v b d2)
          = Some d'" "keeps (set_buffer v b d2) d'"
        using copy_rect_keeps[OF keeps_ok[OF k3(1)] k3(2) s(3,4) sm(3,4)] by blast
      with g1(1) g2(1) uv b(1) False keeps_trans[OF keeps_trans[OF k2 k3(1)]] show ?thesis
        by (simp add: guacenc_handle_copy_def Let_def w_h_dx_dy_def)
    qed
  qed
qed

lemma total_handler_mono: "total_handler P h \<Longrightarrow> (\<And>argv. Q argv \<Longrightarrow> P argv) \<Longrightarrow> total_handler Q h"
  by (auto simp: total_handler_def)

lemma modest_handlers:
  assumes "libs_ok libs" "decodes_small libs"
  shows "total_handler (modest (cstr ''blob'')) guacenc_handle_blob"
    "total_handler (modest (cstr ''img'')) (guacenc_handle_img libs)"
    "total_handler (modest (cstr ''end'')) (guacenc_handle_end libs)"
    "total_handler (modest (cstr ''cursor'')) (guacenc_handle_cursor libs)"
    "total_handler (modest (cstr ''copy'')) (guacenc_handle_copy libs)"
    "total_handler (modest (cstr ''transfer'')) guacenc_handle_transfer"
    "total_handler (modest (cstr ''size'')) (guacenc_handle_size libs)"
    "total_handler (modest (cstr ''rect'')) (guacenc_handle_rect libs)"
    "total_handler (modest (cstr ''cfill'')) guacenc_handle_cfill"
    "total_handler (modest (cstr ''move'')) guacenc_handle_move"
    "total_handler (modest (cstr ''shade'')) guacenc_handle_shade"
    "total_handler (modest (cstr ''dispose'')) guacenc_handle_dispose"
  by (rule total_handler_mono[OF blob_total]
    total_handler_mono[OF img_total]
    total_handler_mono[OF end_total[OF assms(1,2)]]
    total_handler_mono[OF cursor_total[OF assms(1)]]
    total_handler_mono[OF copy_total[OF assms(1)]]
    total_handler_mono[OF transfer_total]
    total_handler_mono[OF size_total[OF assms(1)]]
    total_handler_mono[OF rect_total[OF assms(1)]]
    total_handler_mono[OF cfill_total]
    total_handler_mono[OF move_total]
    total_handler_mono[OF shade_total]
    total_handler_mono[OF dispose_total]; simp add: modest_def del: cstr_simps)+

lemma handler_map_cases:
  assumes "libs_ok libs" "decodes_small libs" "map_of (guacenc_instruction_handler_map libs) name = Some h"
  shows "total_handler (modest name) h \<or> (name = cstr ''sync'' \<and> h = guacenc_handle_sync libs)
    \<or> (name = cstr ''mouse'' \<and> h = guacenc_handle_mouse libs)"
  using map_of_SomeD[OF assms(3)] unfolding guacenc_instruction_handler_map_def
  by (simp del: cstr_simps) (elim disjE conjE; simp add: modest_handlers[OF assms(1,2)] del: cstr_simps)

lemma handle_instruction_keeps:
  assumes "libs_ok libs" "decodes_small libs" "display_ok d" "modest name argv"
    and "guacenc_handle_instruction libs d name argv = Some (r, d')"
  shows "display_ok d'"
proof (cases "map_of (guacenc_instruction_handler_map libs) name")
  case None
  with assms show ?thesis by (simp add: guacenc_handle_instruction_def)
next
  case (Some h)
  have h: "h d argv = Some (r, d')" using assms(5) Some by (simp add: guacenc_handle_instruction_def)
  have mouse: "display_ok d'" if "guacenc_handle_mouse libs d argv = Some (r, d')"
  proof (cases "length argv < 2")
    case True
    with that assms show ?thesis by (simp add: guacenc_handle_mouse_def)
  next
    case False
    obtain c where c: "cursor d = Some c" using assms(3) by (auto simp: display_ok_def)
    let ?d = "d\<lparr>cursor := Some (c\<lparr>cx := atoi (argv ! 0), cy := atoi (argv ! 1)\<rparr>)\<rparr>"
    have ok: "display_ok ?d" using assms(3) c by (auto simp: display_ok_def)
    show ?thesis
      using that False c ok keeps_ok[OF sync_keeps[OF assms(1) ok]]
      by (auto simp: guacenc_handle_mouse_def Let_def split: if_splits)
  qed
  have sync: "display_ok d'" if "guacenc_handle_sync libs d argv = Some (r, d')"
    using that assms keeps_ok[OF sync_keeps[OF assms(1,3)]]
    by (auto simp: guacenc_handle_sync_def split: if_splits)
  have "display_ok d'" if "total_handler (modest name) h"
    using that h assms(3,4) unfolding total_handler_def by (metis option.inject prod.inject)
  with handler_map_cases[OF assms(1,2) Some] show ?thesis using h mouse sync by blast
qed


section \<open>Replaying a recording\<close>

text \<open>Handling a list of instructions, each an opcode followed by its arguments.\<close>

primrec handle_all :: "guacenc_libs \<Rightarrow> byte list list list \<Rightarrow> guacenc_display \<Rightarrow> guacenc_display option" where
  "handle_all libs [] d = Some d"
| "handle_all libs (es # ess) d =
     Option.bind (guacenc_handle_instruction libs d (hd es) (tl es)) (\<lambda>(r, d). handle_all libs ess d)"

context socket_file
begin

lemma replay:
  assumes "awaiting parser sk (concat (map encode_instruction iss))" "list_all sendable iss"
    and "handle_all libs iss d = Some d'"
  shows "\<exists>q sk'. read_instructions_loop libs parser sk d = Some (d', q, sk')"
  using assms
proof (induction iss arbitrary: parser sk d)
  case Nil
  then obtain q sk' where "guac_parser_read parser sk (- 1) = Some (- 1, q, sk')" using read_at_end[of parser sk "- 1"] by auto
  with Nil(3) show ?case by (simp add: read_instructions_loop.simps)
next
  case (Cons es iss)
  then obtain q1 sk1 where
    1: "guac_parser_read parser sk (- 1) = Some (0, q1, sk1)" "parser_elements q1 = es"
    "awaiting q1 sk1 (concat (map encode_instruction iss))"
    using read_next[of parser sk es "concat (map encode_instruction iss)" "- 1"] by auto
  moreover obtain r d1 where 2: "guacenc_handle_instruction libs d (hd es) (tl es) = Some (r, d1)" "handle_all libs iss d1 = Some d'"
    using Cons.prems(3) by (auto simp: Option.bind_eq_Some_conv)
  moreover obtain q2 sk2 where "read_instructions_loop libs q1 sk1 d1 = Some (d', q2, sk2)"
    using Cons.IH[OF 1(3) _ 2(2)] Cons.prems(2) by auto
  ultimately show ?case by (subst read_instructions_loop.simps) simp
qed

end


section \<open>A layer under itself\<close>

definition self_parent :: "guacenc_display \<Rightarrow> nat \<Rightarrow> bool" where
  "self_parent d i = (allocated d i \<and> parent_index (layer_at d i) = int i)"

lemma get_layer_slots:
  assumes "guacenc_display_get_layer d index = (r, d')" "dlayers d ! i \<noteq> None"
  shows "dlayers d' ! i = dlayers d ! i"
proof (cases "dlayers d ! nat index = None")
  case True
  with assms(2) have "nat index \<noteq> i" by auto
  with assms(1) True show ?thesis
    by (auto simp: guacenc_display_get_layer_def Let_def split: if_splits option.splits prod.splits)
next
  case False
  with assms(1) show ?thesis by (auto simp: guacenc_display_get_layer_def split: if_splits)
qed

lemma get_layer_self_parent:
  "self_parent d i \<Longrightarrow> guacenc_display_get_layer d index = (r, d') \<Longrightarrow> self_parent d' i"
  using get_layer_slots[of d index r d' i] by (simp add: self_parent_def allocated_def layer_at_def)

lemma get_depth_self_parent:
  assumes "guacenc_display_get_depth d x = Some r"
  shows "self_parent d i \<longrightarrow> self_parent (snd r) i"
proof (rule guacenc_display_get_depth.raw_induct[OF _ assms])
  fix f d x r
  assume IH: "\<And>d x r. f d x = Some r \<Longrightarrow> self_parent d i \<longrightarrow> self_parent (snd r) i"
    and body: "(case x of None \<Rightarrow> Some (0, d)
      | Some i \<Rightarrow>
          if parent_index (layer_at d i) = - 1 then Some (0, d)
          else
            (case guacenc_display_get_layer d (parent_index (layer_at d i)) of (parent, d) \<Rightarrow>
               Option.bind (f d parent) (\<lambda>(depth, d). Some (s32 (depth + 1), d)))) = Some r"
  show "self_parent d i \<longrightarrow> self_parent (snd r) i"
  proof (cases "x = None \<or> parent_index (layer_at d (the x)) = - 1")
    case True
    with body show ?thesis by (auto split: option.splits if_splits)
  next
    case False
    obtain p d1 where 1: "guacenc_display_get_layer d (parent_index (layer_at d (the x))) = (p, d1)" by fastforce
    with body False obtain r1 where "f d1 p = Some r1" "snd r = snd r1"
      by (auto simp: Option.bind_eq_Some_conv split: option.splits)
    with IH get_layer_self_parent[OF _ 1] show ?thesis by metis
  qed
qed

lemma comparator_stuck:
  assumes "self_parent d i"
  shows "guacenc_display_layer_comparator d (Some i) (Some j) = None"
    "guacenc_display_layer_comparator d (Some j) (Some i) = None"
proof -
  have none: "guacenc_display_get_depth e (Some i) = None" if "self_parent e i" for e
    using get_depth_self[of e "Some i"] that by (cases "guacenc_display_get_depth e (Some i)") (auto simp: self_parent_def)
  show "guacenc_display_layer_comparator d (Some i) (Some j) = None"
    using none[OF assms] by (simp add: guacenc_display_layer_comparator_def)
  show "guacenc_display_layer_comparator d (Some j) (Some i) = None"
    using get_depth_self_parent[of d "Some j" _ i] assms none
    by (cases "guacenc_display_get_depth d (Some j)") (auto simp: guacenc_display_layer_comparator_def)
qed

lemma comparator_self_parent:
  assumes "self_parent d i" "guacenc_display_layer_comparator d a b = Some (r, d')"
  shows "self_parent d' i"
  using assms get_depth_self_parent
  by (fastforce simp: guacenc_display_layer_comparator_def Option.bind_eq_Some_conv split: option.splits)

text \<open>The comparator puts the empty slots last.\<close>

lemma insert_layer_shape:
  assumes "insert_layer first x (map Some a @ replicate n None) d = Some (zs, d')" "self_parent d i"
  shows "self_parent d' i \<and> (\<exists>b. zs = map Some b @ replicate (n + (if x = None then 1 else 0)) None
    \<and> mset b = mset a + (case x of None \<Rightarrow> {#} | Some k \<Rightarrow> {#k#}))"
  using assms
proof (induction a arbitrary: d zs)
  case Nil
  show ?case
  proof (cases n)
    case 0
    with Nil show ?thesis by (cases x) (auto intro: exI[of _ "[]"] exI[of _ "[the x]"])
  next
    case (Suc m)
    have none: "insert_layer first None (replicate k None) d = Some (replicate (Suc k) None, d)" for k
      by (induction k) (simp_all add: guacenc_display_layer_comparator_def)
    show ?thesis
    proof (cases x)
      case None
      with Nil none[of n] show ?thesis by (auto intro: exI[of _ "[]"])
    next
      case (Some k)
      with Nil Suc show ?thesis by (auto simp: guacenc_display_layer_comparator_def intro: exI[of _ "[k]"])
    qed
  qed
next
  case (Cons y a)
  from Cons.prems(1) obtain r d1 where 1: "guacenc_display_layer_comparator d x (Some y) = Some (r, d1)"
    by (auto simp: Option.bind_eq_Some_conv)
  have s: "self_parent d1 i" by (rule comparator_self_parent[OF Cons.prems(2) 1])
  show ?case
  proof (cases "r < 0 \<or> (r = 0 \<and> first x (Some y))")
    case True
    with 1 obtain k where "x = Some k" by (cases x) (auto simp: guacenc_display_layer_comparator_def)
    with True 1 Cons.prems(1) s show ?thesis by (auto intro!: exI[of _ "k # y # a"])
  next
    case False
    with 1 Cons.prems(1) obtain ws where w: "insert_layer first x (map Some a @ replicate n None) d1 = Some (ws, d')" "zs = Some y # ws"
      by (auto simp: Option.bind_eq_Some_conv)
    from Cons.IH[OF w(1) s] obtain b where b: "self_parent d' i"
      "ws = map Some b @ replicate (n + (if x = None then 1 else 0)) None"
      "mset b = mset a + (case x of None \<Rightarrow> {#} | Some k \<Rightarrow> {#k#})" by blast
    with w(2) show ?thesis by (intro conjI exI[of _ "y # b"]) (auto split: option.split)
  qed
qed

lemma qsort_layers_stuck:
  assumes "qsort_layers first xs d = Some (ys, d')" "self_parent d i"
  shows "self_parent d' i \<and> (\<exists>b n. ys = map Some b @ replicate n None \<and> mset b = mset (somes xs))
    \<and> (Some i \<in> set xs \<longrightarrow> somes xs = [i])"
  using assms(1)
proof (induction xs arbitrary: ys d')
  case (Cons x xs)
  then obtain zs d1 where 1: "qsort_layers first xs d = Some (zs, d1)" "insert_layer first x zs d1 = Some (ys, d')"
    by (auto simp: Option.bind_eq_Some_conv)
  from Cons.IH[OF 1(1)] obtain a n where a: "self_parent d1 i" "zs = map Some a @ replicate n None" "mset a = mset (somes xs)"
    "Some i \<in> set xs \<longrightarrow> somes xs = [i]" by blast
  from insert_layer_shape[OF 1(2)[unfolded a(2)] a(1)] obtain b where b: "self_parent d' i"
    "ys = map Some b @ replicate (n + (if x = None then 1 else 0)) None"
    "mset b = mset a + (case x of None \<Rightarrow> {#} | Some k \<Rightarrow> {#k#})" by blast
  have shape: "\<exists>b n. ys = map Some b @ replicate n None \<and> mset b = mset (somes (x # xs))"
    using b(2,3) a(3) by (intro exI[of _ b] exI[of _ "n + (if x = None then 1 else 0)"]) (cases x; auto)
  have "somes (x # xs) = [i]" if i: "Some i \<in> set (x # xs)"
  proof (cases "x = Some i")
    case True
    have "a = []"
    proof (rule ccontr)
      assume "a \<noteq> []"
      then obtain y a' where "a = y # a'" by (cases a) auto
      with 1(2) a(2) True comparator_stuck(1)[OF a(1), of y] show False by simp
    qed
    then have "somes xs = []" using a(3) by simp
    with True show ?thesis by simp
  next
    case False
    then have xs: "somes xs = [i]" using i a(4) by auto
    show ?thesis
    proof (cases x)
      case None
      with xs show ?thesis by simp
    next
      case (Some k)
      have "a = [i]" using a(3) xs by simp
      with 1(2) a(2) Some comparator_stuck(2)[OF a(1), of k] show ?thesis by simp
    qed
  qed
  with b(1) shape show ?case by blast
qed (simp add: assms(2) exI[of _ "[]"])

lemma flatten_stuck:
  assumes "self_parent d i" "allocated d j" "i \<noteq> j"
  shows "guacenc_display_flatten libs d = None"
proof (cases "qsort_layers (sort_tie libs (last_sync d)) (render_order d) d")
  case None
  then show ?thesis by (simp add: guacenc_display_flatten_def)
next
  case (Some r)
  obtain ys d' where r: "qsort_layers (sort_tie libs (last_sync d)) (render_order d) d = Some (ys, d')" using Some by (cases r) simp
  have mem: "Some k \<in> set (render_order d)" if "allocated d k" for k
    using that by (auto simp: render_order_def allocated_def image_iff intro!: bexI[of _ k])
  have in_somes: "k \<in> set (somes xs)" if "Some k \<in> set xs" for k :: nat and xs
    using that by (force simp: somes_def)
  have "somes (render_order d) = [i]"
    using qsort_layers_stuck[OF r assms(1)] mem assms(1) by (auto simp: self_parent_def)
  with in_somes[OF mem[OF assms(2)]] assms(3) show ?thesis by simp
qed


section \<open>Properties\<close>

text \<open>The displays that appear while a recording of modest instructions is processed with enough memory.\<close>

inductive replaying :: "guacenc_libs \<Rightarrow> guacenc_display \<Rightarrow> bool" for libs where
  opened: "granted script \<Longrightarrow> guacenc_display_alloc (Some v) garbage script = Some (Some d) \<Longrightarrow> replaying libs d"
| handled: "replaying libs d \<Longrightarrow> modest name argv \<Longrightarrow>
    guacenc_handle_instruction libs d name argv = Some (r, d') \<Longrightarrow> replaying libs d'"

lemma alloc_ok:
  assumes "granted script" "guacenc_display_alloc (Some v) garbage script = Some (Some d)"
  shows "display_ok d"
proof -
  note n = next_alloc_granted[OF assms(1)] next_alloc_granted[of "tl script"] next_alloc_granted[of "tl (tl script)"]
  from assms(2) n show ?thesis
    by (auto simp: guacenc_display_alloc_def guacenc_cursor_alloc_def guacenc_buffer_alloc_def display_ok_def
        list_all_length buffer_ok_def size_ok_def split: prod.splits if_splits)
qed

lemma replaying_ok: "libs_ok libs \<Longrightarrow> decodes_small libs \<Longrightarrow> replaying libs d \<Longrightarrow> display_ok d"
  by (rotate_tac 2, induction rule: replaying.induct) (auto intro: alloc_ok handle_instruction_keeps)



text \<open>The number of arguments each handler asks for.\<close>

definition min_args :: "(byte list \<times> nat) list" where
  "min_args = [(cstr ''blob'', 2), (cstr ''img'', 6), (cstr ''end'', 1), (cstr ''mouse'', 2), (cstr ''sync'', 1),
     (cstr ''cursor'', 7), (cstr ''copy'', 9), (cstr ''transfer'', 9), (cstr ''size'', 3), (cstr ''rect'', 5),
     (cstr ''cfill'', 6), (cstr ''move'', 5), (cstr ''shade'', 2), (cstr ''dispose'', 1)]"

lemmas handler_defs = guacenc_handle_blob_def guacenc_handle_img_def guacenc_handle_end_def guacenc_handle_mouse_def
  guacenc_handle_sync_def guacenc_handle_cursor_def guacenc_handle_copy_def guacenc_handle_transfer_def
  guacenc_handle_size_def guacenc_handle_rect_def guacenc_handle_cfill_def guacenc_handle_move_def
  guacenc_handle_shade_def guacenc_handle_dispose_def

lemma map_of_related:
  assumes "list_all2 (\<lambda>(k, x) (k', y). k = k' \<and> R x y) xs ys"
  shows "rel_option R (map_of xs k) (map_of ys k)"
  using assms by (induction xs ys rule: list_all2_induct) auto

lemma handlers_ask:
  "list_all2 (\<lambda>(name, h) (name', n). name = name' \<and> (\<forall>d argv. length argv < n \<longrightarrow> h d argv = Some (1, d)))
     (guacenc_instruction_handler_map libs) min_args"
  by (simp add: guacenc_instruction_handler_map_def min_args_def handler_defs del: cstr_simps)

text \<open>
  Incomplete and unknown instructions do no harm: an instruction with fewer arguments than its handler
  needs fails with 1, an instruction with an unknown opcode is ignored with 0, and both leave the display
  exactly as it was.
\<close>

theorem incomplete_ignored:
  assumes "pred_option (\<lambda>n. length argv < n) (map_of min_args name)"
  shows "guacenc_handle_instruction libs d name argv = Some (if map_of min_args name = None then 0 else 1, d)"
  using map_of_related[OF handlers_ask, of libs name] assms
  by (cases "map_of min_args name"; cases "map_of (guacenc_instruction_handler_map libs) name")
    (simp_all add: guacenc_handle_instruction_def)

theorem incomplete_ignored_witness:
  "guacenc_handle_instruction example_libs (example_display []) (cstr ''shade'') [[48]] = Some (1, example_display [])
   \<and> guacenc_handle_instruction example_libs (example_display []) (cstr ''audio'') [[48]] = Some (0, example_display [])"
proof
  have "map_of min_args (cstr ''shade'') = Some 2" "map_of min_args (cstr ''audio'') = None"
    by (simp_all add: min_args_def)
  then show "guacenc_handle_instruction example_libs (example_display []) (cstr ''shade'') [[48]] = Some (1, example_display [])"
    "guacenc_handle_instruction example_libs (example_display []) (cstr ''audio'') [[48]] = Some (0, example_display [])"
    using incomplete_ignored[of "[[48]]" "cstr ''shade''" example_libs "example_display []"]
      incomplete_ignored[of "[[48]]" "cstr ''audio''" example_libs "example_display []"]
    by (simp_all del: cstr_simps)
qed

text \<open>
  C20. A recording is replayed completely: on a descriptor that delivers the encodings of instructions the
  parser accepts, cut into reads in any way, and then its end, the read loop of the encoder ends, and it has
  handled exactly these instructions, in order.
\<close>

theorem recording_replayed:
  assumes "guac_parser_alloc (Some block) = Some parser"
    and "length (instructionbuf block) = INSTRUCTIONBUF_SIZE" "length (elementv block) = GUAC_INSTRUCTION_MAX_ELEMENTS"
    and "fd_readable k" "incoming k = concat (map encode_instruction iss)" "list_all sendable iss"
    and "handle_all libs iss d = Some d'"
  shows "\<exists>q sk. read_instructions_loop libs parser (guac_socket_open f clock g k) d = Some (d', q, sk)"
  using fdf.replay[of parser _ iss libs d d'] fd_open_awaiting[OF assms(1-4)] assms(5-7) by simp

theorem recording_replayed_witness:
  "\<exists>q sk. read_instructions_loop example_libs
       (guac_parser_reset \<lparr>pstate = GUAC_PARSE_ERROR, opcode = None, argc = 7, elementc = 3,
         elementv = replicate 128 0, element_length = 5, unparsed_start = 0, unparsed_end = 0,
         instructionbuf = replicate 32768 0\<rparr>)
       (guac_socket_open 5 0 [0, 0, 0] \<lparr>fd = 0, written = 0, out_buf = [],
         socket_lock = False, buffer_lock = False, wire = [], write_script = [],
         incoming = concat (map encode_instruction [[cstr ''mouse'', cstr ''3'', cstr ''4''], [cstr ''nop'']]),
         read_script = [1, 2], select_script = [], fd_open = True\<rparr>) (example_display [])
     = Some ((example_display [])\<lparr>cursor := Some ((the (cursor (example_display [])))\<lparr>cx := 3, cy := 4\<rparr>)\<rparr>, q, sk)"
proof -
  let ?b = "\<lparr>pstate = GUAC_PARSE_ERROR, opcode = None, argc = 7, elementc = 3,
    elementv = replicate 128 0, element_length = 5, unparsed_start = 0, unparsed_end = 0,
    instructionbuf = replicate 32768 0\<rparr>"
  let ?iss = "[[cstr ''mouse'', cstr ''3'', cstr ''4''], [cstr ''nop'']]"
  let ?k = "\<lparr>fd = 0, written = 0, out_buf = [], socket_lock = False, buffer_lock = False, wire = [], write_script = [],
    incoming = concat (map encode_instruction ?iss), read_script = [1, 2], select_script = [], fd_open = True\<rparr>"
  have "list_all sendable ?iss"
    by (simp add: sendable_def acceptable_def encode_instruction_def element_def guac_utf8_strlen_step
        ascii_charsize dec_nat.simps utf8_complete.simps(2))
  moreover have a: "atoi [51] = 3" "atoi [52] = 4"
    using atoi_dec_int[of 3] atoi_dec_int[of 4] by (simp_all add: in_s32_def dec_int_def dec_nat.simps)
  have "handle_all example_libs ?iss (example_display []) = Some ((example_display [])
      \<lparr>cursor := Some ((the (cursor (example_display [])))\<lparr>cx := 3, cy := 4\<rparr>)\<rparr>)"
    by (simp add: guacenc_handle_instruction_def guacenc_instruction_handler_map_def guacenc_handle_mouse_def a
        example_display_def)
  ultimately show ?thesis
    using recording_replayed[of ?b "guac_parser_reset ?b" ?k ?iss example_libs "example_display []" _ 5 0 "[0, 0, 0]"]
    by (simp add: guac_parser_alloc_def fd_readable_def del: cstr_simps handle_all.simps)
qed

text \<open>
  C21. A layer moved under itself stops the encoder: once a \<open>move\<close> instruction has made an allocated layer its
  own parent, which the handler accepts, the next frame is never rendered as soon as there is another
  layer, because the comparator asks for the depth of the layer and that recursion does not end.
\<close>

theorem move_under_itself_hangs:
  assumes "length (dlayers d) = GUACENC_DISPLAY_MAX_LAYERS" "allocated d i" "allocated d j" "i \<noteq> j"
    and "5 \<le> length argv" "atoi (argv ! 0) = int i" "atoi (argv ! 1) = int i"
  shows "\<exists>d'. guacenc_handle_instruction libs d (cstr ''move'') argv = Some (0, d')
    \<and> guacenc_display_flatten libs d' = None"
proof -
  let ?l = "(layer_at d i)\<lparr>parent_index := int i, lx := atoi (argv ! 2), ly := atoi (argv ! 3), lz := atoi (argv ! 4)\<rparr>"
  have "guacenc_handle_instruction libs d (cstr ''move'') argv = guacenc_handle_move d argv"
    by (simp add: guacenc_handle_instruction_def guacenc_instruction_handler_map_def)
  also have "\<dots> = Some (0, set_layer i ?l d)"
    using assms(5-7) get_layer_allocated[OF assms(2)] by (simp add: guacenc_handle_move_def)
  moreover have "self_parent (set_layer i ?l d) i" "allocated (set_layer i ?l d) j"
    using assms(1-4) by (simp_all add: self_parent_def allocated_def layer_at_def set_layer_def)
  ultimately show ?thesis using flatten_stuck[OF _ _ assms(4)] by auto
qed

theorem move_under_itself_hangs_witness:
  "\<exists>d'. guacenc_handle_instruction example_libs
       (example_display [Some (example_layer (- 1) 0), Some (example_layer 0 5)]) (cstr ''move'')
       [[49], [49], [48], [48], [48]] = Some (0, d')
     \<and> guacenc_display_flatten example_libs d' = None"
proof -
  let ?d = "example_display [Some (example_layer (- 1) 0), Some (example_layer 0 5)]"
  have "length (dlayers ?d) = 64" "allocated ?d 0" "allocated ?d 1" by (simp_all add: example_display_def allocated_def)
  moreover have "atoi [49] = 1" using atoi_dec_int[of 1] by (simp add: in_s32_def dec_int_def dec_nat.simps)
  ultimately show ?thesis
    using move_under_itself_hangs[of ?d 1 0 "[[49], [49], [48], [48], [48]]" example_libs] by simp
qed

end
