(* ===== verification/Guacenc_Encode.thy ===== *)
theory Guacenc_Encode
  imports Guacenc_Instructions
begin

text \<open>
  The live conversion of the encoder (\<open>src/guacenc/encode.c\<close>, \<open>encode_video.h\<close>): bytes of a session are
  collected up to each semicolon and handed to a second reading loop over the parser of the library, which
  takes its input from memory and handles every complete instruction.

  An object \<open>InsTransVideo\<close> always has a display, because \<open>ins_transVideo_create\<close> gives no object without one.
  Functions return \<open>None\<close> where the code has undefined behaviour: a write behind the end of \<open>data\<close>, a pointer
  moved to before the start of the parser's buffer, or an undefined handler.
\<close>

section \<open>Definitions\<close>

record InsTransVideo =
  ins_display :: guacenc_display
  ins_parser :: "guac_parser option"
  ins_data :: "byte list"
  offsetLen :: int

abbreviation INS_DATA_SIZE :: nat where
  "INS_DATA_SIZE \<equiv> 32768"

text \<open>
  \<open>ins_transVideo_create\<close>: \<open>data\<close> is the array of the allocated object, if there is one; \<open>block\<close> the memory
  of the parser; \<open>disp\<close> the result of \<open>guacenc_display_alloc\<close>.
\<close>

definition ins_transVideo_create ::
    "byte list option \<Rightarrow> guac_parser option \<Rightarrow> guacenc_display option \<Rightarrow> InsTransVideo option" where
  "ins_transVideo_create data block disp =
     (case data of
        None \<Rightarrow> None
      | Some garbage \<Rightarrow>
          (case (disp, guac_parser_alloc block) of
             (Some d, Some p) \<Rightarrow> Some \<lparr>ins_display = d, ins_parser = Some p, ins_data = garbage, offsetLen = 0\<rparr>
           | _ \<Rightarrow> None))"

definition ins_transVideo_delete :: "InsTransVideo option \<Rightarrow> int \<times> guacenc_video option" where
  "ins_transVideo_delete ins =
     (case ins of None \<Rightarrow> (0, None) | Some ins \<Rightarrow> guacenc_display_free (Some (ins_display ins)))"

definition ins_parser_reset :: "guac_parser \<Rightarrow> guac_parser" where
  "ins_parser_reset parser =
     parser\<lparr>opcode := None, argc := 0, pstate := GUAC_PARSE_LENGTH, elementc := 0, element_length := 0\<rparr>"

definition ins_handle_complete_instruction ::
    "guacenc_libs \<Rightarrow> guacenc_display \<Rightarrow> guac_parser \<Rightarrow> guacenc_display option" where
  "ins_handle_complete_instruction libs display parser =
     map_option snd (guacenc_handle_instruction libs display (hd (parser_elements parser)) (tl (parser_elements parser)))"

text \<open>\<open>ins_read_instructions\<close>: the result, the bytes copied to \<open>dest\<close>, and the object.\<close>

definition ins_read_instructions :: "InsTransVideo \<Rightarrow> int \<Rightarrow> int \<times> byte list \<times> InsTransVideo" where
  "ins_read_instructions ins sz =
     (if offsetLen ins = 0 then (0, [], ins)
      else if sz \<ge> offsetLen ins then
        (offsetLen ins, take (nat (offsetLen ins)) (ins_data ins), ins\<lparr>offsetLen := 0\<rparr>)
      else
        (sz, take (nat sz) (ins_data ins),
         ins\<lparr>ins_data := mem_write (ins_data ins) 0 (drop (nat sz) (take (nat (offsetLen ins)) (ins_data ins))),
             offsetLen := offsetLen ins - sz\<rparr>))"

text \<open>
  The loop of \<open>ins_parser_read\<close>, with its local pointers as arguments; the pointers are stored in the parser
  only when the data is used up. An element that lies before \<open>instr_start\<close> cannot be moved by the shift.
\<close>

partial_function (option) ins_parser_read_loop ::
    "guacenc_libs \<Rightarrow> nat \<Rightarrow> nat \<Rightarrow> nat \<Rightarrow> guac_parser \<Rightarrow> guacenc_display \<Rightarrow> InsTransVideo \<Rightarrow>
     (int \<times> guac_parser \<times> guacenc_display \<times> InsTransVideo) option" where
  "ins_parser_read_loop libs instr_start u_start u_end parser display ins =
     Option.bind
       (if pstate parser = GUAC_PARSE_COMPLETE
        then map_option (\<lambda>d. (d, ins_parser_reset parser)) (ins_handle_complete_instruction libs display parser)
        else Some (display, parser))
       (\<lambda>(display, parser).
          case guac_parser_append parser (instructionbuf parser) u_start (int u_end - int u_start) of
            (cnt, parser, mem) \<Rightarrow>
              (let parser = parser\<lparr>instructionbuf := mem\<rparr> in
               if pstate parser = GUAC_PARSE_ERROR then Some (- 1, parser, display, ins)
               else if cnt = 0 then
                 if u_end = INSTRUCTIONBUF_SIZE \<and> instr_start = 0 then Some (- 1, parser, display, ins)
                 else
                   (let full = (u_end = INSTRUCTIONBUF_SIZE) in
                    Option.bind (if full then parser_shift_back instr_start u_end parser else Some parser) (\<lambda>parser.
                    let offset = (if full then instr_start else 0);
                        u_end = u_end - offset;
                        u_start = u_start - offset;
                        instr_start = instr_start - offset
                    in
                    case ins_read_instructions ins (int (INSTRUCTIONBUF_SIZE - u_end)) of
                      (retval, bytes, ins) \<Rightarrow>
                        (let parser = parser\<lparr>instructionbuf := mem_write (instructionbuf parser) u_end bytes\<rparr>;
                             u_end = u_end + nat retval
                         in if retval \<le> 0
                            then Some (0, parser\<lparr>unparsed_start := u_start, unparsed_end := u_end\<rparr>, display, ins)
                            else ins_parser_read_loop libs instr_start u_start u_end parser display ins)))
               else ins_parser_read_loop libs instr_start (u_start + nat cnt) u_end parser display ins))"

definition ins_parser_read :: "guacenc_libs \<Rightarrow> InsTransVideo option \<Rightarrow> (int \<times> InsTransVideo option) option" where
  "ins_parser_read libs ins =
     (case ins of
        None \<Rightarrow> Some (- 1, None)
      | Some i \<Rightarrow>
          (case ins_parser i of
             None \<Rightarrow> Some (- 1, Some i)
           | Some p \<Rightarrow>
               map_option (\<lambda>(r, p, d, i). (r, Some (i\<lparr>ins_parser := Some p, ins_display := d\<rparr>)))
                 (ins_parser_read_loop libs (unparsed_start p) (unparsed_start p) (unparsed_end p) p (ins_display i) i)))"

text \<open>One byte behind the collected data.\<close>

definition store_byte :: "byte \<Rightarrow> InsTransVideo \<Rightarrow> InsTransVideo" where
  "store_byte c ins = ins\<lparr>ins_data := (ins_data ins)[nat (offsetLen ins) := c], offsetLen := offsetLen ins + 1\<rparr>"

text \<open>The call of \<open>ins_parser_read\<close> on an object, after which the collected data is dropped.\<close>

definition parse_collected :: "guacenc_libs \<Rightarrow> InsTransVideo \<Rightarrow> (int \<times> InsTransVideo) option" where
  "parse_collected libs ins =
     Option.bind (ins_parser_read libs (Some ins)) (\<lambda>(r, i). map_option (\<lambda>i. (r, i\<lparr>offsetLen := 0\<rparr>)) i)"

text \<open>
  The loop of \<open>ins_convert_video\<close> over the bytes. Its guard lets \<open>offsetLen\<close> reach the size of the array,
  where the next byte is written behind it.
\<close>

primrec convert_loop :: "guacenc_libs \<Rightarrow> byte list \<Rightarrow> InsTransVideo \<Rightarrow> (int \<times> InsTransVideo) option" where
  "convert_loop libs [] ins = Some (0, ins)"
| "convert_loop libs (c # cs) ins =
     (if offsetLen ins > int INS_DATA_SIZE then Some (- 1, ins\<lparr>offsetLen := 0\<rparr>)
      else if offsetLen ins = int INS_DATA_SIZE then None
      else
        (let ins = store_byte c ins in
         if c = 59 then Option.bind (parse_collected libs ins) (\<lambda>(r, ins). convert_loop libs cs ins)
         else convert_loop libs cs ins))"

text \<open>\<open>ins_convert_video\<close> with the global object as state; \<open>created\<close> is the result of its creation.\<close>

definition ins_convert_video ::
    "guacenc_libs \<Rightarrow> InsTransVideo option \<Rightarrow> byte list \<Rightarrow> InsTransVideo option \<Rightarrow> (int \<times> InsTransVideo option) option" where
  "ins_convert_video libs created buf g =
     (case (case g of None \<Rightarrow> created | Some ins \<Rightarrow> Some ins) of
        None \<Rightarrow> Some (- 1, None)
      | Some ins \<Rightarrow> map_option (\<lambda>(r, ins). (r, Some ins)) (convert_loop libs buf ins))"

section \<open>Memory as the input of the parser\<close>

text \<open>The collected data is an input in the sense of the parser, with \<open>ins_read_instructions\<close> to read it.\<close>

definition collected :: "InsTransVideo \<Rightarrow> byte list" where
  "collected ins = take (nat (offsetLen ins)) (ins_data ins)"

definition ins_live :: "InsTransVideo \<Rightarrow> bool" where
  "ins_live ins = (0 \<le> offsetLen ins \<and> offsetLen ins \<le> int (length (ins_data ins)))"

definition ins_read_handler :: "InsTransVideo \<Rightarrow> nat \<Rightarrow> (int \<times> byte list \<times> InsTransVideo) option" where
  "ins_read_handler ins n = Some (ins_read_instructions ins (int n))"

definition ins_select_handler :: "InsTransVideo \<Rightarrow> int \<Rightarrow> (int \<times> InsTransVideo) option" where
  "ins_select_handler ins t = Some (1, ins)"

lemma ins_read_some:
  assumes "ins_live ins" "collected ins \<noteq> []" "0 < n"
  shows "\<exists>bs ins'. ins_read_instructions ins (int n) = (int (length bs), bs, ins') \<and> bs \<noteq> [] \<and> length bs \<le> n
    \<and> collected ins = bs @ collected ins' \<and> ins_live ins'"
proof -
  define k where "k = nat (offsetLen ins)"
  have k: "offsetLen ins = int k" "0 < k" "k \<le> length (ins_data ins)"
    using assms(1,2) by (auto simp: ins_live_def collected_def k_def)
  show ?thesis
  proof (cases "k \<le> n")
    case True
    with k have "ins_read_instructions ins (int n) = (int k, take k (ins_data ins), ins\<lparr>offsetLen := 0\<rparr>)"
      by (simp add: ins_read_instructions_def)
    with k True show ?thesis
      by (intro exI[of _ "take k (ins_data ins)"] exI[of _ "ins\<lparr>offsetLen := 0\<rparr>"]) (auto simp: collected_def ins_live_def)
  next
    case False
    let ?i = "ins\<lparr>ins_data := mem_write (ins_data ins) 0 (drop n (take k (ins_data ins))), offsetLen := int (k - n)\<rparr>"
    have "ins_read_instructions ins (int n) = (int n, take n (ins_data ins), ?i)"
      using False k by (simp add: ins_read_instructions_def)
    moreover have "collected ?i = drop n (take k (ins_data ins))" using False k by (simp add: collected_def mem_write_def)
    moreover have "collected ins = take k (ins_data ins)" using k by (simp add: collected_def)
    moreover have "take k (ins_data ins) = take n (ins_data ins) @ drop n (take k (ins_data ins))"
      using append_take_drop_id[of n "take k (ins_data ins)"] False by (simp add: min_def)
    moreover have "ins_live ?i" using False k by (simp add: ins_live_def)
    ultimately show ?thesis using k False assms(3)
      by (intro exI[of _ "take n (ins_data ins)"] exI[of _ ?i]) auto
  qed
qed

interpretation mem: socket_input ins_read_handler ins_select_handler collected ins_live
  using ins_read_some by unfold_locales (auto simp: ins_read_handler_def ins_select_handler_def)


definition mem_socket :: "InsTransVideo \<Rightarrow> InsTransVideo guac_socket" where
  "mem_socket ins = \<lparr>sdata = ins, read_handler = Some ins_read_handler, write_handler = None, flush_handler = None,
     lock_handler = None, unlock_handler = None, select_handler = Some ins_select_handler, free_handler = None,
     socket_state = GUAC_SOCKET_OPEN, last_write_timestamp = 0, ready = 0, ready_buf = [],
     keep_alive_enabled = False, now = 0\<rparr>"

lemma mem_socket_listening [simp]: "sdata (mem_socket ins) = ins" "mem.listening (mem_socket ins) \<longleftrightarrow> ins_live ins"
  by (simp_all add: mem_socket_def mem.listening_def)

text \<open>The loop makes room if it must and takes more of the collected data.\<close>

lemma ins_loop_refill:
  assumes "mem.reading es s u u_end q (mem_socket ins) rem []" "acceptable es" "u_end - u < length rem"
    and "guac_parser_append parser (instructionbuf parser) u (int u_end - int u) = (0, q', mem)"
    and "q = q'\<lparr>instructionbuf := mem\<rparr>"
    and "pstate parser \<noteq> GUAC_PARSE_ERROR" "pstate parser \<noteq> GUAC_PARSE_COMPLETE"
  shows "\<exists>s' u' e' q2 ins'. ins_parser_read_loop libs s u u_end parser d ins = ins_parser_read_loop libs s' u' e' q2 d ins'
    \<and> mem.reading es s' u' e' q2 (mem_socket ins') rem [] \<and> u' - s' = u - s
    \<and> length (collected ins') < length (collected ins) \<and> length (ins_data ins') = length (ins_data ins)"
proof -
  let ?full = "u_end = INSTRUCTIONBUF_SIZE"
  let ?o = "if ?full then s else 0"
  let ?q = "if ?full then parser_shifted s u_end q else q"
  let ?n = "INSTRUCTIONBUF_SIZE - (u_end - ?o)"
  have f: "mem.feeds q u u_end (mem_socket ins) rem" and l: "u - s + length rem \<le> INSTRUCTIONBUF_SIZE"
    and p: "parsing s es q (instructionbuf q) u rem"
    using assms(1) by (simp_all add: mem.reading_def)
  have b: "u \<le> u_end" "u_end \<le> INSTRUCTIONBUF_SIZE" "ins_live ins" "drop (u_end - u) rem = collected ins"
    using f by (simp_all only: mem.feeds_def mem_socket_listening)
  have su: "s \<le> u" using p by (rule parsing_le)
  have room: "\<not> (?full \<and> s = 0)" using l b(1) assms(3) by auto
  have r: "mem.reading es (s - ?o) (u - ?o) (u_end - ?o) ?q (mem_socket ins) rem []"
    using mem.reading_shift[OF assms(1,2)] assms(1) by (cases ?full) auto
  have pend: "collected ins \<noteq> []" using assms(3) by (simp flip: b(4))
  have "0 < ?n" using room b su by auto
  from ins_read_some[OF b(3) pend this] obtain bs ins' where
    io: "ins_read_instructions ins (int ?n) = (int (length bs), bs, ins')" "bs \<noteq> []" "length bs \<le> ?n"
      "collected ins = bs @ collected ins'" "ins_live ins'"
    by blast
  have "elements_from s q'" using parsing_elements[OF p] assms(5) by simp
  moreover have "pstate q' \<noteq> GUAC_PARSE_ERROR" using parsing_state[OF p] assms(5) by simp
  ultimately have "ins_parser_read_loop libs s u u_end parser d ins =
      ins_parser_read_loop libs (s - ?o) (u - ?o) (u_end - ?o + length bs)
        (?q\<lparr>instructionbuf := mem_write (instructionbuf ?q) (u_end - ?o) bs\<rparr>) d ins'"
    using assms(4-7) io(1,2) room
    by (subst ins_parser_read_loop.simps, cases ?full) (simp_all add: Let_def parser_shift_back_def)
  moreover have "mem.reading es (s - ?o) (u - ?o) (u_end - ?o + length bs)
      (?q\<lparr>instructionbuf := mem_write (instructionbuf ?q) (u_end - ?o) bs\<rparr>) (mem_socket ins') rem []"
    by (rule mem.reading_more[OF r]) (use io in simp_all)
  moreover have "length (collected ins') < length (collected ins)" using io(2,4) by simp
  moreover have "length (ins_data ins') = length (ins_data ins)"
    using io(1) b(3) by (auto simp: ins_read_instructions_def ins_live_def split: if_splits)
  moreover have "u - ?o - (s - ?o) = u - s" using su by auto
  ultimately show ?thesis by blast
qed

lemma ins_loop_complete:
  assumes "mem.reading es s u u_end parser (mem_socket ins) rem []" "acceptable es"
  shows "\<exists>s' u' q ins'. ins_parser_read_loop libs s u u_end parser d ins = ins_parser_read_loop libs s' u' u' q d ins'
    \<and> parsed s' es q (instructionbuf q) u' \<and> u' - s' = u - s + length rem \<and> u' \<le> INSTRUCTIONBUF_SIZE
    \<and> length (instructionbuf q) = INSTRUCTIONBUF_SIZE \<and> collected ins' = [] \<and> ins_live ins'
    \<and> length (ins_data ins') = length (ins_data ins)"
  using assms(1)
proof (induction "length rem + length (collected ins)" arbitrary: s u u_end parser ins rem rule: less_induct)
  case less
  have p: "parsing s es parser (instructionbuf parser) u rem" and f: "mem.feeds parser u u_end (mem_socket ins) rem"
    and l: "u - s + length rem \<le> INSTRUCTIONBUF_SIZE"
    using less.prems by (simp_all add: mem.reading_def)
  have b: "u \<le> u_end" "window (instructionbuf parser) u (u_end - u) (rem @ [])" "drop (u_end - u) rem = collected ins"
    "length (instructionbuf parser) = INSTRUCTIONBUF_SIZE" "u_end \<le> INSTRUCTIONBUF_SIZE" "ins_live ins"
    using f by (simp_all add: mem.feeds_def)
  note st = parsing_state[OF p]
  note su = parsing_le[OF p]
  obtain m q' mem where a: "guac_parser_append parser (instructionbuf parser) u (int u_end - int u) = (int m, q', mem)"
    and adv: "advanced s es (instructionbuf parser) u (u_end - u) rem m q' mem"
    using append_step[OF p assms(2) b(2)] b(1) by auto
  let ?q = "q'\<lparr>instructionbuf := mem\<rparr>"
  have m: "m \<le> u_end - u" "m \<le> length rem" "length mem = length (instructionbuf parser)"
    "\<forall>i. i < u \<or> u + m \<le> i \<longrightarrow> mem ! i = instructionbuf parser ! i" "m = 0 \<longrightarrow> u_end - u < length rem"
    using adv by (simp_all add: advanced_def)
  have "window mem (u + m) (u_end - u - m) (drop m (rem @ []))"
    using m by (intro window_cong[OF window_drop[OF b(2) m(1)]]) auto
  moreover have "drop (u_end - u - m) (drop m rem) = collected ins"
    using b(3) m(1) by (simp only: drop_drop le_add_diff_inverse2)
  ultimately have fq: "mem.feeds ?q (u + m) u_end (mem_socket ins) (drop m rem)"
    using f m b(1) by (auto simp: mem.feeds_def)
  consider (fin) "parsed s es q' mem (u + m)" "m = length rem" | (more) "parsing s es q' mem (u + m) (drop m rem)"
    using adv by (auto simp: advanced_def)
  then show ?case
  proof cases
    case fin
    then have "0 < m" "pstate ?q = GUAC_PARSE_COMPLETE" using m(5) by (auto simp: parsed_def)
    then have "ins_parser_read_loop libs s u u_end parser d ins = ins_parser_read_loop libs s (u + m) u_end ?q d ins"
      using a st by (subst ins_parser_read_loop.simps) simp
    moreover have "parsed s es ?q mem (u + m)" using fin(1) by (simp add: parsed_def before_def)
    moreover have "u_end = u + m" "collected ins = []"
      using fq fin(2) b(1) m(1) by (auto simp: mem.feeds_def window_def)
    ultimately show ?thesis using fin(2) su m(3) b by (intro exI[of _ s] exI[of _ "u + m"] exI[of _ ?q] exI[of _ ins]) auto
  next
    case more
    have pq: "parsing s es ?q mem (u + m) (drop m rem)" by (rule parsing_cong[OF more]) simp_all
    with fq l m(2) su have r: "mem.reading es s (u + m) u_end ?q (mem_socket ins) (drop m rem) []"
      by (simp add: mem.reading_def)
    show ?thesis
    proof (cases "m = 0")
      case True
      obtain s' u' e' q2 ins' where
        "ins_parser_read_loop libs s u u_end parser d ins = ins_parser_read_loop libs s' u' e' q2 d ins'"
        "mem.reading es s' u' e' q2 (mem_socket ins') rem []" "u' - s' = u - s"
        "length (collected ins') < length (collected ins)" "length (ins_data ins') = length (ins_data ins)"
        using ins_loop_refill[of es s u u_end ?q ins rem parser q' mem libs d] r assms(2) True m(5) a st by auto
      with less.hyps[of rem ins' s' u' e' q2] show ?thesis by simp
    next
      case False
      then have "ins_parser_read_loop libs s u u_end parser d ins = ins_parser_read_loop libs s (u + m) u_end ?q d ins"
        using a parsing_state[OF pq] st by (subst ins_parser_read_loop.simps) simp
      moreover have "length (drop m rem) < length rem" using False m(2) by simp
      moreover have "u + m - s + length (drop m rem) = u - s + length rem" using m(2) su by simp
      ultimately show ?thesis using less.hyps[of "drop m rem" ins s "u + m" u_end ?q] r by simp
    qed
  qed
qed

section \<open>One instruction at a time\<close>

text \<open>A parser between two instructions that has used up its buffer.\<close>

definition parser_idle :: "guac_parser \<Rightarrow> bool" where
  "parser_idle p = (p = guac_parser_reset p \<and> unparsed_start p = unparsed_end p \<and> unparsed_end p \<le> INSTRUCTIONBUF_SIZE
     \<and> length (instructionbuf p) = INSTRUCTIONBUF_SIZE \<and> length (elementv p) = GUAC_INSTRUCTION_MAX_ELEMENTS)"

definition ins_idle :: "InsTransVideo \<Rightarrow> bool" where
  "ins_idle ins = (pred_option parser_idle (ins_parser ins) \<and> ins_parser ins \<noteq> None \<and> length (ins_data ins) = INS_DATA_SIZE)"

text \<open>An instruction that the live conversion can find: no element contains the semicolon.\<close>

definition framed :: "byte list list \<Rightarrow> bool" where
  "framed es = (sendable es \<and> length (encode_instruction es) < INSTRUCTIONBUF_SIZE \<and> (\<forall>e \<in> set es. 59 \<notin> set e))"

lemma mem_write_Nil [simp]: "mem_write b k [] = b"
  by (simp add: mem_write_def)

lemma append_nothing:
  "pstate p = GUAC_PARSE_LENGTH \<Longrightarrow> elementc p = 0 \<Longrightarrow> element_length p = 0 \<Longrightarrow>
   guac_parser_append p mem u 0 = (0, p, mem)"
  by (simp add: guac_parser_append_def)

lemma ins_loop_finish:
  assumes "parsed s es q (instructionbuf q) u" "u \<le> INSTRUCTIONBUF_SIZE" "u - s < INSTRUCTIONBUF_SIZE"
    and "length (instructionbuf q) = INSTRUCTIONBUF_SIZE" "offsetLen ins = 0" "sendable es"
    and "guacenc_handle_instruction libs d (hd es) (tl es) = Some (r, d')"
  shows "\<exists>p. ins_parser_read_loop libs s u u q d ins = Some (0, p, d', ins) \<and> parser_idle p"
proof -
  have st: "pstate q = GUAC_PARSE_COMPLETE" "length (elementv q) = GUAC_INSTRUCTION_MAX_ELEMENTS" "s \<le> u"
    using assms(1) by (simp_all add: parsed_def before_def)
  have "parser_elements q = es"
    using parsed_elements[OF assms(1)] assms(6) by (simp add: sendable_def acceptable_def)
  then have h: "ins_handle_complete_instruction libs d q = Some d'"
    using assms(7) by (simp add: ins_handle_complete_instruction_def)
  let ?p = "ins_parser_reset q"
  have ap: "guac_parser_append ?p (instructionbuf ?p) v 0 = (0, ?p, instructionbuf ?p)" for v
    by (rule append_nothing) (simp_all add: ins_parser_reset_def)
  have rd: "ins_read_instructions ins n = (0, [], ins)" for n using assms(5) by (simp add: ins_read_instructions_def)
  have room: "\<not> (u = INSTRUCTIONBUF_SIZE \<and> s = 0)" using assms(3) by auto
  have p: "pstate ?p = GUAC_PARSE_LENGTH" "elementc ?p = 0" by (simp_all add: ins_parser_reset_def)
  show ?thesis
  proof (cases "u = INSTRUCTIONBUF_SIZE")
    case True
    let ?r = "(parser_shifted s u ?p)\<lparr>unparsed_start := u - s, unparsed_end := u - s\<rparr>"
    have "ins_parser_read_loop libs s u u q d ins = Some (0, ?r, d', ins)"
      using True room
      by (subst ins_parser_read_loop.simps) (simp add: st(1) h ap p rd Let_def parser_shift_back_def elements_from_def)
    moreover have "parser_idle ?r"
      using st(2) assms(2,4) by (simp add: parser_idle_def guac_parser_reset_def ins_parser_reset_def parser_shifted_def)
    ultimately show ?thesis by blast
  next
    case False
    let ?r = "?p\<lparr>unparsed_start := u, unparsed_end := u\<rparr>"
    have "ins_parser_read_loop libs s u u q d ins = Some (0, ?r, d', ins)"
      using False by (subst ins_parser_read_loop.simps) (simp add: st(1) h ap p rd Let_def)
    moreover have "parser_idle ?r"
      using st(2) assms(2,4) by (simp add: parser_idle_def guac_parser_reset_def ins_parser_reset_def)
    ultimately show ?thesis by blast
  qed
qed

lemma idle_parsing:
  assumes "parser_idle p" "acceptable es"
  shows "parsing (unparsed_start p) es p (instructionbuf p) (unparsed_start p) (encode_instruction es)"
proof -
  obtain e later where es: "es = e # later" using assms(2) by (cases es) (auto simp: acceptable_def)
  have i: "p = guac_parser_reset p" using assms(1) by (simp add: parser_idle_def)
  have r: "pstate p = GUAC_PARSE_LENGTH" "elementc p = 0" "element_length p = 0"
    using arg_cong[OF i, of pstate] arg_cong[OF i, of elementc] arg_cong[OF i, of element_length]
    by (simp_all add: guac_parser_reset_def)
  have "before (unparsed_start p) [] p (instructionbuf p) (unparsed_start p)"
    using assms(1) by (simp add: before_def parser_idle_def)
  moreover have "in_length [] e later p (unparsed_start p) (encode_instruction es)"
    unfolding in_length_def es
    by (intro conjI exI[of _ "dec_nat (guac_utf8_strlen e)"])
      (auto simp: r encode_instruction_rest element_def list_all_iff dec_nat_digits
        scan_digits_dec_nat[unfolded scan_digits_def])
  ultimately show ?thesis
    unfolding parsing_def es by - (rule exI[of _ "[]"], rule exI[of _ e], rule exI[of _ later], simp)
qed

lemma ins_parser_read_one:
  assumes "ins_idle ins" "ins_live ins" "collected ins = encode_instruction es" "framed es"
    and "guacenc_handle_instruction libs (ins_display ins) (hd es) (tl es) = Some (r, d')"
  shows "\<exists>ins'. ins_parser_read libs (Some ins) = Some (0, Some ins') \<and> ins_idle ins' \<and> ins_display ins' = d'"
proof -
  obtain p where p: "ins_parser ins = Some p" "parser_idle p" "length (ins_data ins) = INS_DATA_SIZE"
    using assms(1) by (auto simp: ins_idle_def)
  let ?u = "unparsed_start p"
  have ok: "sendable es" "acceptable es" "length (encode_instruction es) < INSTRUCTIONBUF_SIZE"
    using assms(4) by (simp_all add: framed_def sendable_def)
  have "mem.feeds p ?u ?u (mem_socket ins) (encode_instruction es)"
    using p(2) assms(2,3) by (simp add: mem.feeds_def parser_idle_def)
  then have "mem.reading es ?u ?u ?u p (mem_socket ins) (encode_instruction es) []"
    using idle_parsing[OF p(2) ok(2)] ok(3) by (simp add: mem.reading_def)
  from ins_loop_complete[OF this ok(2), of libs "ins_display ins"] obtain s u q ins1 where
    1: "ins_parser_read_loop libs ?u ?u ?u p (ins_display ins) ins = ins_parser_read_loop libs s u u q (ins_display ins) ins1"
    "parsed s es q (instructionbuf q) u" "u - s = length (encode_instruction es)" "u \<le> INSTRUCTIONBUF_SIZE"
    "length (instructionbuf q) = INSTRUCTIONBUF_SIZE" "collected ins1 = []" "ins_live ins1"
    "length (ins_data ins1) = length (ins_data ins)"
    by auto
  have "offsetLen ins1 = 0" using 1(6-8) p(3) by (auto simp: collected_def ins_live_def)
  from ins_loop_finish[OF 1(2,4) _ 1(5) this ok(1) assms(5)] 1(3) ok(3) obtain p' where
    "ins_parser_read_loop libs s u u q (ins_display ins) ins1 = Some (0, p', d', ins1)" "parser_idle p'" by auto
  with 1(1,8) p show ?thesis by (simp add: ins_parser_read_def ins_idle_def parser_idle_def)
qed

section \<open>Collecting up to the semicolon\<close>

lemma take_update_snoc: "n < length xs \<Longrightarrow> take (Suc n) (xs[n := x]) = take n xs @ [x]"
  by (simp add: take_Suc_conv_app_nth)

lemma store_byte_collects:
  assumes "ins_live ins" "offsetLen ins < int (length (ins_data ins))"
  shows "ins_live (store_byte c ins)" "collected (store_byte c ins) = collected ins @ [c]"
    "ins_idle (store_byte c ins) = ins_idle ins" "ins_display (store_byte c ins) = ins_display ins"
    "offsetLen (store_byte c ins) = offsetLen ins + 1" "length (ins_data (store_byte c ins)) = length (ins_data ins)"
    "ins_parser (store_byte c ins) = ins_parser ins"
  using assms take_update_snoc[of "nat (offsetLen ins)" "ins_data ins" c]
  by (auto simp: store_byte_def collected_def ins_live_def ins_idle_def nat_add_distrib)

lemma fold_store_collects:
  assumes "ins_live ins" "offsetLen ins + int (length bs) \<le> int (length (ins_data ins))"
  shows "ins_live (fold store_byte bs ins) \<and> collected (fold store_byte bs ins) = collected ins @ bs
    \<and> ins_idle (fold store_byte bs ins) = ins_idle ins \<and> ins_display (fold store_byte bs ins) = ins_display ins
    \<and> offsetLen (fold store_byte bs ins) = offsetLen ins + int (length bs)
    \<and> length (ins_data (fold store_byte bs ins)) = length (ins_data ins)
    \<and> ins_parser (fold store_byte bs ins) = ins_parser ins"
  using assms
proof (induction bs arbitrary: ins)
  case (Cons c bs)
  have c: "offsetLen ins < int (length (ins_data ins))" using Cons.prems(2) by simp
  note s = store_byte_collects[OF Cons.prems(1) c, of c]
  show ?case using Cons.IH[OF s(1)] s Cons.prems(2) by simp
qed simp

lemma encode_framed:
  assumes "framed es"
  shows "\<exists>bs. encode_instruction es = bs @ [59] \<and> 59 \<notin> set bs"
proof -
  have digits: "59 \<notin> set (dec_nat n)" for n
    using dec_nat_digits[of 59 n] by (auto simp: is_digit_def)
  have "\<exists>bs. rest_of later = bs @ [59] \<and> 59 \<notin> set bs" if "\<forall>e \<in> set later. 59 \<notin> set e" for later
    using that
  proof (induction later)
    case (Cons e later)
    then obtain bs where bs: "rest_of later = bs @ [59]" "59 \<notin> set bs" by auto
    have "rest_of (e # later) = (44 # element e @ bs) @ [59]" using bs by (simp add: encode_instruction_rest)
    moreover have "59 \<notin> set (44 # element e @ bs)" using bs Cons.prems digits by (simp add: element_def)
    ultimately show ?case by blast
  qed simp
  moreover obtain e later where es: "es = e # later"
    using assms by (cases es) (auto simp: framed_def sendable_def acceptable_def)
  ultimately obtain bs where bs: "rest_of later = bs @ [59]" "59 \<notin> set bs" using assms by (auto simp: framed_def)
  have "encode_instruction es = (element e @ bs) @ [59]" using bs es by (simp add: encode_instruction_rest)
  moreover have "59 \<notin> set (element e @ bs)" using bs assms es digits by (simp add: element_def framed_def)
  ultimately show ?thesis by blast
qed

lemma convert_collect:
  assumes "59 \<notin> set bs" "ins_live ins" "length (ins_data ins) = INS_DATA_SIZE" "offsetLen ins + int (length bs) \<le> int INS_DATA_SIZE"
  shows "convert_loop libs (bs @ cs) ins = convert_loop libs cs (fold store_byte bs ins)"
  using assms
proof (induction bs arbitrary: ins)
  case (Cons c bs)
  have c: "offsetLen ins < int (length (ins_data ins))" using Cons.prems(3,4) by simp
  note s = store_byte_collects[OF Cons.prems(2) c, of c]
  show ?case using Cons.IH[OF _ s(1)] s Cons.prems c by simp
qed simp

text \<open>What a client of the parser on collected data relies on: the state between two instructions.\<close>

definition ready_ins :: "InsTransVideo \<Rightarrow> bool" where
  "ready_ins ins = (ins_idle ins \<and> offsetLen ins = 0)"

lemma ready_live: "ready_ins ins \<Longrightarrow> ins_live ins \<and> collected ins = [] \<and> length (ins_data ins) = INS_DATA_SIZE"
  by (simp add: ready_ins_def ins_idle_def ins_live_def collected_def)

lemma parse_collected_one:
  assumes "ready_ins ins" "framed es" "encode_instruction es = bs @ [59]"
    and "guacenc_handle_instruction libs (ins_display ins) (hd es) (tl es) = Some (r, d')"
  shows "\<exists>ins'. parse_collected libs (store_byte 59 (fold store_byte bs ins)) = Some (0, ins') \<and> ready_ins ins'
    \<and> ins_display ins' = d'"
proof -
  have l: "length (bs @ [59]) < INS_DATA_SIZE" using assms(2,3) by (simp add: framed_def)
  then have f: "offsetLen ins + int (length (bs @ [59])) \<le> int (length (ins_data ins))"
    using ready_live[OF assms(1)] assms(1) by (simp add: ready_ins_def)
  have eq: "store_byte 59 (fold store_byte bs ins) = fold store_byte (bs @ [59]) ins" by simp
  have "ins_live ins" "collected ins = []" using ready_live[OF assms(1)] by auto
  note s = fold_store_collects[OF this(1) f, folded assms(3)]
  have "ins_idle (fold store_byte (encode_instruction es) ins)" "collected (fold store_byte (encode_instruction es) ins) = encode_instruction es"
    "ins_live (fold store_byte (encode_instruction es) ins)"
    using s assms(1) \<open>collected ins = []\<close> by (simp_all add: ready_ins_def)
  from ins_parser_read_one[OF this(1,3,2) assms(2), of libs r d'] s assms(4) obtain ins' where
    "ins_parser_read libs (Some (fold store_byte (encode_instruction es) ins)) = Some (0, Some ins')" "ins_idle ins'" "ins_display ins' = d'"
    by auto
  then show ?thesis unfolding eq assms(3)[symmetric] by (simp add: parse_collected_def ready_ins_def ins_idle_def)
qed

lemma convert_all:
  assumes "ready_ins ins" "list_all framed iss" "handle_all libs iss (ins_display ins) = Some d'"
  shows "\<exists>ins'. convert_loop libs (concat (map encode_instruction iss)) ins = Some (0, ins') \<and> ready_ins ins' \<and> ins_display ins' = d'"
  using assms
proof (induction iss arbitrary: ins)
  case (Cons es iss)
  obtain r d1 where h: "guacenc_handle_instruction libs (ins_display ins) (hd es) (tl es) = Some (r, d1)" "handle_all libs iss d1 = Some d'"
    using Cons.prems(3) by (auto simp: Option.bind_eq_Some_conv)
  have fr: "framed es" using Cons.prems(2) by simp
  obtain bs where bs: "encode_instruction es = bs @ [59]" "59 \<notin> set bs" using encode_framed[OF fr] by blast
  have l: "length bs < INS_DATA_SIZE" using fr bs(1) by (simp add: framed_def)
  note rl = ready_live[OF Cons.prems(1)]
  have z: "offsetLen ins = 0" using Cons.prems(1) by (simp add: ready_ins_def)
  obtain ins1 where i1: "parse_collected libs (store_byte 59 (fold store_byte bs ins)) = Some (0, ins1)" "ready_ins ins1" "ins_display ins1 = d1"
    using parse_collected_one[OF Cons.prems(1) fr bs(1) h(1)] by blast
  have off: "offsetLen (fold store_byte bs ins) = int (length bs)" using fold_store_collects[of ins bs] rl z l by simp
  have "convert_loop libs (concat (map encode_instruction (es # iss))) ins
      = convert_loop libs (59 # concat (map encode_instruction iss)) (fold store_byte bs ins)"
    using convert_collect[OF bs(2), of ins libs "59 # concat (map encode_instruction iss)"] rl z l bs(1) by simp
  also have "\<dots> = convert_loop libs (concat (map encode_instruction iss)) ins1" using i1(1) off l by simp
  finally show ?case using Cons.IH[OF i1(2)] Cons.prems(2) i1(3) h(2) by simp
qed simp

lemma convert_loop_append:
  "convert_loop libs (a @ b) ins =
     Option.bind (convert_loop libs a ins) (\<lambda>(r, ins). if r = 0 then convert_loop libs b ins else Some (r, ins))"
  by (induction a arbitrary: ins) (auto simp: Let_def split: prod.split intro!: Option.bind_cong)

text \<open>The session arrives in blocks, each of them converted by a call of \<open>ins_convert_video\<close>.\<close>

primrec convert_blocks ::
    "guacenc_libs \<Rightarrow> InsTransVideo option \<Rightarrow> byte list list \<Rightarrow> InsTransVideo option \<Rightarrow> (int list \<times> InsTransVideo option) option" where
  "convert_blocks libs created [] g = Some ([], g)"
| "convert_blocks libs created (b # bs) g =
     Option.bind (ins_convert_video libs created b g) (\<lambda>(r, g).
       map_option (\<lambda>(rs, g). (r # rs, g)) (convert_blocks libs created bs g))"

lemma convert_blocks_concat:
  assumes "convert_loop libs (concat bs) ins = Some (0, ins')"
  shows "convert_blocks libs created bs (Some ins) = Some (replicate (length bs) 0, Some ins')"
  using assms
proof (induction bs arbitrary: ins)
  case (Cons b bs)
  then obtain r ins1 where "convert_loop libs b ins = Some (r, ins1)"
    "(if r = 0 then convert_loop libs (concat bs) ins1 else Some (r, ins1)) = Some (0, ins')"
    by (auto simp: convert_loop_append Option.bind_eq_Some_conv)
  moreover from this have "r = 0" by (auto split: if_splits)
  ultimately show ?case using Cons.IH by (simp add: ins_convert_video_def)
qed simp

section \<open>An instruction cut at a semicolon\<close>

lemma append_keeps_elements:
  assumes "guac_parser_append parser mem u n = (m, parser', mem')" "j < elementc parser"
  shows "elementv parser' ! j = elementv parser ! j \<and> j < elementc parser'"
  using assms
  by (auto simp: guac_parser_append_def append_content_def Let_def split: if_splits prod.splits length_outcome.splits content_outcome.splits)

lemma ins_read_part:
  assumes "ins_live ins" "n < length (collected ins)"
  shows "\<exists>ins'. ins_read_instructions ins (int n) = (int n, take n (collected ins), ins')"
proof -
  have "int n < offsetLen ins" "n \<le> nat (offsetLen ins)" using assms by (auto simp: ins_live_def collected_def)
  then show ?thesis by (simp add: ins_read_instructions_def collected_def)
qed

text \<open>Once the buffer is full of an instruction that began before this call, the elements cannot be moved.\<close>

lemma ins_loop_stuck:
  assumes "parsing s es parser (instructionbuf parser) v rem" "acceptable es"
    and "window (instructionbuf parser) v (INSTRUCTIONBUF_SIZE - v) rem" "INSTRUCTIONBUF_SIZE - v < length rem"
    and "v \<le> INSTRUCTIONBUF_SIZE" "0 < elementc parser" "elementv parser ! 0 < i"
  shows "ins_parser_read_loop libs i v INSTRUCTIONBUF_SIZE parser d ins = None"
  using assms(1,3-7)
proof (induction "INSTRUCTIONBUF_SIZE - v" arbitrary: v parser rem rule: less_induct)
  case less
  note st = parsing_state[OF less.prems(1)]
  have n: "int INSTRUCTIONBUF_SIZE - int v = int (INSTRUCTIONBUF_SIZE - v)" using less.prems(4) by linarith
  have w: "window (instructionbuf parser) v (INSTRUCTIONBUF_SIZE - v) (rem @ [])" using less.prems(2) by simp
  obtain m q mem where a: "guac_parser_append parser (instructionbuf parser) v (int INSTRUCTIONBUF_SIZE - int v) = (int m, q, mem)"
    and adv: "advanced s es (instructionbuf parser) v (INSTRUCTIONBUF_SIZE - v) rem m q mem"
    using append_step[OF less.prems(1) assms(2) w] unfolding n by blast
  let ?q = "q\<lparr>instructionbuf := mem\<rparr>"
  have m: "m \<le> INSTRUCTIONBUF_SIZE - v" "length mem = length (instructionbuf parser)"
    "\<forall>i. i < v \<or> v + m \<le> i \<longrightarrow> mem ! i = instructionbuf parser ! i" "parsing s es q mem (v + m) (drop m rem)"
    using adv less.prems(3) by (auto simp: advanced_def)
  have e: "elementv q ! 0 < i" "0 < elementc q" using append_keeps_elements[OF a less.prems(5)] less.prems(6) by auto
  have pq: "parsing s es ?q mem (v + m) (drop m rem)" by (rule parsing_cong[OF m(4)]) simp_all
  have stq: "pstate q \<noteq> GUAC_PARSE_ERROR" using parsing_state[OF m(4)] by simp
  have le: "elementc q \<le> length (elementv q)"
    using m(4) assms(2) by (auto simp: parsing_def before_def in_length_def in_content_def acceptable_def)
  have "\<not> elements_from i q" using e le by (auto simp: elements_from_iff intro!: exI[of _ 0])
  moreover have "i \<noteq> 0" using e(1) by simp
  ultimately have stuck: "ins_parser_read_loop libs i v INSTRUCTIONBUF_SIZE parser d ins = None" if "m = 0"
    using a that stq st by (subst ins_parser_read_loop.simps) (simp add: Let_def parser_shift_back_def)
  have "window mem (v + m) (INSTRUCTIONBUF_SIZE - v - m) (drop m rem)"
    using m(2,3) by (intro window_cong[OF window_drop[OF less.prems(2) m(1)]]) auto
  then have "ins_parser_read_loop libs i (v + m) INSTRUCTIONBUF_SIZE ?q d ins = None" if "0 < m"
    using less.hyps[of "v + m" ?q "drop m rem"] that m(1) pq e less.prems(3,4) by simp
  moreover have "ins_parser_read_loop libs i v INSTRUCTIONBUF_SIZE parser d ins
      = ins_parser_read_loop libs i (v + m) INSTRUCTIONBUF_SIZE ?q d ins" if "0 < m"
    using a that stq st by (subst ins_parser_read_loop.simps) simp
  ultimately show ?case using stuck by (cases "m = 0") simp_all
qed

section \<open>Properties\<close>

text \<open>
  C22. The live conversion sees what was sent. Let a session arrive in blocks of any sizes whose
  concatenation encodes instructions, each shorter than the buffer and without a semicolon inside an
  element. On an object newly created by the first call, every call returns 0, and afterwards the display is
  the one that results from handling exactly these instructions in order, with nothing left in the object.
\<close>

theorem live_session_converted:
  assumes "ins_transVideo_create (Some garbage) (Some block) (Some d) = Some ins" "length garbage = INS_DATA_SIZE"
    and "length (instructionbuf block) = INSTRUCTIONBUF_SIZE" "length (elementv block) = GUAC_INSTRUCTION_MAX_ELEMENTS"
    and "bs \<noteq> []" "concat bs = concat (map encode_instruction iss)" "list_all framed iss" "handle_all libs iss d = Some d'"
  shows "\<exists>ins'. convert_blocks libs (Some ins) bs None = Some (replicate (length bs) 0, Some ins')
    \<and> ins_display ins' = d' \<and> offsetLen ins' = 0"
proof -
  have "ready_ins ins" "ins_display ins = d"
    using assms(1-4) by (auto simp: ins_transVideo_create_def guac_parser_alloc_def guac_parser_reset_def ready_ins_def
        ins_idle_def parser_idle_def)
  with convert_all[of ins iss libs d'] assms(6-8) obtain ins' where
    1: "convert_loop libs (concat bs) ins = Some (0, ins')" "ready_ins ins'" "ins_display ins' = d'"
    by auto
  have "convert_blocks libs (Some ins) bs None = convert_blocks libs (Some ins) bs (Some ins)"
    using assms(5) by (cases bs) (simp_all add: ins_convert_video_def)
  with convert_blocks_concat[OF 1(1)] 1(2,3) show ?thesis by (simp add: ready_ins_def)
qed

theorem live_session_converted_witness:
  "\<exists>ins ins'. ins_transVideo_create (Some (replicate 32768 0))
       (Some \<lparr>pstate = GUAC_PARSE_ERROR, opcode = None, argc = 7, elementc = 3, elementv = replicate 128 0,
              element_length = 5, unparsed_start = 9, unparsed_end = 9, instructionbuf = replicate 32768 0\<rparr>)
       (Some (example_display [])) = Some ins
     \<and> convert_blocks example_libs (Some ins) [cstr ''5.mous'', cstr ''e,1.3,1.4;3.'', cstr ''nop;''] None = Some ([0, 0, 0], Some ins')
     \<and> ins_display ins' = (example_display [])\<lparr>cursor := Some ((the (cursor (example_display [])))\<lparr>cx := 3, cy := 4\<rparr>)\<rparr>"
proof -
  let ?b = "\<lparr>pstate = GUAC_PARSE_ERROR, opcode = None, argc = 7, elementc = 3, elementv = replicate 128 0,
    element_length = 5, unparsed_start = 9, unparsed_end = 9, instructionbuf = replicate 32768 0\<rparr>"
  let ?iss = "[[cstr ''mouse'', cstr ''3'', cstr ''4''], [cstr ''nop'']]"
  let ?bs = "[cstr ''5.mous'', cstr ''e,1.3,1.4;3.'', cstr ''nop;'']"
  let ?d = "(example_display [])\<lparr>cursor := Some ((the (cursor (example_display [])))\<lparr>cx := 3, cy := 4\<rparr>)\<rparr>"
  have f: "list_all framed ?iss"
    by (simp add: framed_def sendable_def acceptable_def encode_instruction_def element_def guac_utf8_strlen_step
        ascii_charsize dec_nat.simps utf8_complete.simps(2))
  have c: "concat ?bs = concat (map encode_instruction ?iss)"
    by (simp add: encode_instruction_def element_def guac_utf8_strlen_step ascii_charsize dec_nat.simps)
  have a: "atoi [51] = 3" "atoi [52] = 4"
    using atoi_dec_int[of 3] atoi_dec_int[of 4] by (simp_all add: in_s32_def dec_int_def dec_nat.simps)
  have h: "handle_all example_libs ?iss (example_display []) = Some ?d"
    by (simp add: guacenc_handle_instruction_def guacenc_instruction_handler_map_def guacenc_handle_mouse_def a
        example_display_def)
  obtain ins where i: "ins_transVideo_create (Some (replicate 32768 0)) (Some ?b) (Some (example_display [])) = Some ins"
    by (simp add: ins_transVideo_create_def guac_parser_alloc_def)
  from live_session_converted[OF i _ _ _ _ c f h] obtain ins' where
    "convert_blocks example_libs (Some ins) ?bs None = Some (replicate (length ?bs) 0, Some ins')" "ins_display ins' = ?d"
    by auto
  moreover have "replicate (length ?bs) (0 :: int) = [0, 0, 0]" by (simp add: numeral_eq_Suc)
  ultimately show ?thesis using i by metis
qed

text \<open>
  The guard of the live conversion is one byte short: as soon as more than 32768 bytes without a
  semicolon have been collected, the next one is written behind the array, before the check notices it.
\<close>

theorem overlong_data_overruns:
  assumes "ins_live ins" "length (ins_data ins) = INS_DATA_SIZE" "59 \<notin> set bs"
    and "offsetLen ins + int (length bs) > int INS_DATA_SIZE"
  shows "convert_loop libs bs ins = None"
proof -
  define n where "n = nat (int INS_DATA_SIZE - offsetLen ins)"
  have n: "offsetLen ins + int n = int INS_DATA_SIZE" "n < length bs"
    using assms(1,2,4) by (auto simp: n_def ins_live_def)
  have "59 \<notin> set (take n bs)" using assms(3) by (meson in_set_takeD)
  from convert_collect[OF this assms(1,2), of libs "drop n bs"] n
  have "convert_loop libs bs ins = convert_loop libs (drop n bs) (fold store_byte (take n bs) ins)" by simp
  moreover have "offsetLen (fold store_byte (take n bs) ins) = int INS_DATA_SIZE"
    using fold_store_collects[OF assms(1), of "take n bs"] n assms(2) by simp
  moreover obtain c cs where "drop n bs = c # cs" using n(2) by (cases "drop n bs") auto
  ultimately show ?thesis by simp
qed

theorem overlong_data_overruns_witness:
  "convert_loop example_libs (replicate 32769 49)
     \<lparr>ins_display = example_display [], ins_parser = None, ins_data = replicate 32768 0, offsetLen = 0\<rparr> = None"
  using overlong_data_overruns[of "\<lparr>ins_display = example_display [], ins_parser = None, ins_data = replicate 32768 0, offsetLen = 0\<rparr>"
      "replicate 32769 49" example_libs]
  by (simp add: ins_live_def)

text \<open>
  An instruction cut at a semicolon inside one of its elements can destroy the buffer: when the parser is
  within an instruction begun in an earlier call and the rest does not fit behind it, the elements recorded
  earlier lie before the part that is kept, and the shift moves their pointers to before the buffer.
\<close>

theorem split_instruction_overruns:
  assumes "ins_parser ins = Some p" "parsing s es p (instructionbuf p) u rem" "acceptable es"
    and "unparsed_start p = u" "unparsed_end p = u" "u < INSTRUCTIONBUF_SIZE" "length (instructionbuf p) = INSTRUCTIONBUF_SIZE"
    and "0 < elementc p" "elementv p ! 0 < u"
    and "ins_live ins" "rem = collected ins @ t" "INSTRUCTIONBUF_SIZE - u < length (collected ins)"
  shows "ins_parser_read libs (Some ins) = None"
proof -
  let ?n = "INSTRUCTIONBUF_SIZE - u"
  let ?b = "take ?n (collected ins)"
  have "window (instructionbuf p) u 0 (rem @ [])" using assms(6,7) by simp
  from append_step[OF assms(2,3) this] obtain q mem where a: "guac_parser_append p (instructionbuf p) u 0 = (0, q, mem)"
    and adv: "advanced s es (instructionbuf p) u 0 rem 0 q mem"
    by (auto simp: advanced_def)
  have m: "mem = instructionbuf p" "parsing s es q mem u rem"
    using adv assms(11,12) by (auto simp: advanced_def intro!: nth_equalityI)
  have e: "elementv q ! 0 < u" "0 < elementc q" using append_keeps_elements[OF a assms(8)] assms(9) by auto
  obtain ins' where io: "ins_read_instructions ins (int ?n) = (int ?n, ?b, ins')"
    using ins_read_part[OF assms(10,12)] by auto
  have fill: "u + nat (32768 - int u) = INSTRUCTIONBUF_SIZE" using assms(6) by simp
  let ?q = "q\<lparr>instructionbuf := mem_write mem u ?b\<rparr>"
  have "ins_parser_read_loop libs u u u p (ins_display ins) ins
      = ins_parser_read_loop libs u u INSTRUCTIONBUF_SIZE ?q (ins_display ins) ins'"
    using io a assms(6) parsing_state[OF assms(2)] parsing_state[OF m(2)] fill
    by (subst ins_parser_read_loop.simps) (simp add: Let_def)
  moreover have lb: "length ?b = ?n" using assms(12) by simp
  have "parsing s es ?q (mem_write mem u ?b) u rem"
    using assms(6,7) m(1) lb by (intro parsing_cong[OF m(2)]) (auto simp: nth_mem_write)
  moreover have "window (mem_write mem u ?b) u ?n rem"
    using assms(6,7,11,12) m(1) lb by (auto simp: window_def nth_mem_write nth_append)
  ultimately have "ins_parser_read_loop libs u u u p (ins_display ins) ins = None"
    using ins_loop_stuck[of s es ?q u rem u libs "ins_display ins" ins'] assms(3,6,11,12) e by simp
  then show ?thesis using assms(1,4,5) by (simp add: ins_parser_read_def)
qed

theorem split_instruction_overruns_witness:
  "ins_parser_read example_libs (Some
     \<lparr>ins_display = example_display [],
      ins_parser = Some \<lparr>pstate = GUAC_PARSE_CONTENT, opcode = None, argc = 0, elementc = 1,
        elementv = (replicate 128 0)[0 := 32765], element_length = 2, unparsed_start = 32767, unparsed_end = 32767,
        instructionbuf = replicate 32763 0 @ cstr ''4.a;'' @ [0]\<rparr>,
      ins_data = cstr ''bc;'' @ replicate 32765 0, offsetLen = 3\<rparr>) = None"
proof -
  let ?p = "\<lparr>pstate = GUAC_PARSE_CONTENT, opcode = None, argc = 0, elementc = 1,
    elementv = (replicate 128 0)[0 := 32765], element_length = 2, unparsed_start = 32767, unparsed_end = 32767,
    instructionbuf = replicate 32763 0 @ cstr ''4.a;'' @ [0]\<rparr>"
  let ?ins = "\<lparr>ins_display = example_display [], ins_parser = Some ?p, ins_data = cstr ''bc;'' @ replicate 32765 0, offsetLen = 3\<rparr>"
  have u: "utf8_complete [98, 99]" "utf8_complete [97, 59, 98, 99]"
    by (simp_all add: utf8_complete.simps(2) ascii_charsize)
  have n: "guac_utf8_strlen [98, 99] = 2" "guac_utf8_strlen [97, 59, 98, 99] = 4"
    by (simp_all add: guac_utf8_strlen_step ascii_charsize)
  have "before 32763 [] ?p (instructionbuf ?p) 32767" by (simp add: before_def)
  moreover have "in_content 32763 [] [97, 59, 98, 99] [] ?p (instructionbuf ?p) 32767 [98, 99, 59]"
    unfolding in_content_def
    by (intro conjI exI[of _ "[97, 59]"] exI[of _ "[98, 99]"]) (auto simp: u n nth_append less_Suc_eq)
  ultimately have p: "parsing 32763 [[97, 59, 98, 99]] ?p (instructionbuf ?p) 32767 [98, 99, 59]"
    unfolding parsing_def by (intro exI[of _ "[]"] exI[of _ "[97, 59, 98, 99]"]) simp
  have a: "acceptable [[97, 59, 98, 99]]" using u n by (simp add: acceptable_def)
  have c: "collected ?ins = [98, 99, 59]" by (simp add: collected_def)
  show ?thesis
  proof (rule split_instruction_overruns[OF _ p a])
    show "[98, 99, 59] = collected ?ins @ []" "INSTRUCTIONBUF_SIZE - 32767 < length (collected ?ins)" unfolding c by simp_all
  qed (simp_all add: ins_live_def)
qed

end
