(* ===== verification/Guacenc_Jobs.thy ===== *)
theory Guacenc_Jobs
  imports Guacenc_Encode
begin

text \<open>
  The jobs of the encoder server (\<open>src/guacenc/jobs.c\<close>): a job reads the bytes of a session from a socket or
  from a recording that is still being written, converts them, and finally runs ffmpeg on the result.

  What the system calls answer is given as scripts: the results of \<open>read\<close> one by one, with what the clock and
  the \<open>terminate\<close> flag show at that moment; the file system is a map from names to sizes. Where \<open>read\<close>
  stores a byte behind the end of the array, and wherever the conversion is undefined, the result is
  \<open>None\<close>. The items of the JSON library are a function from names to values.
\<close>

section \<open>Definitions\<close>

subsection \<open>Reading a session from a socket\<close>

datatype read_result = Read_Byte byte | Read_Eof | Read_Again | Read_Error

text \<open>
  \<open>job_read_stream\<close>: the result, the object and the reads that are left; at the end of the script there is
  nothing to read (\<open>EAGAIN\<close>). The local variable \<open>rv\<close> is an argument.
\<close>

fun job_read_stream_loop ::
    "guacenc_libs \<Rightarrow> int \<Rightarrow> read_result list \<Rightarrow> InsTransVideo \<Rightarrow> (int \<times> InsTransVideo \<times> read_result list) option" where
  "job_read_stream_loop libs rv [] ins =
     Some (1, if offsetLen ins > int INS_DATA_SIZE then ins\<lparr>offsetLen := 0\<rparr> else ins, [])"
| "job_read_stream_loop libs rv (e # es) ins =
     (let ins = (if offsetLen ins > int INS_DATA_SIZE then ins\<lparr>offsetLen := 0\<rparr> else ins) in
      case e of
        Read_Error \<Rightarrow> Some (- 1, ins, es)
      | Read_Again \<Rightarrow> Some (1, ins, es)
      | Read_Eof \<Rightarrow> Some (0, ins, es)
      | Read_Byte c \<Rightarrow>
          if offsetLen ins \<ge> int INS_DATA_SIZE then None
          else
            (let ins = store_byte c ins in
             if c = 59 then
               if offsetLen ins \<ge> int INS_DATA_SIZE then None
               else
                 Option.bind (parse_collected libs (ins\<lparr>ins_data := (ins_data ins)[nat (offsetLen ins) := 0]\<rparr>))
                   (\<lambda>(r, ins). job_read_stream_loop libs (if r < 0 then - 1 else rv) es ins)
             else job_read_stream_loop libs rv es ins))"

definition job_read_stream ::
    "guacenc_libs \<Rightarrow> read_result list \<Rightarrow> InsTransVideo option \<Rightarrow> (int \<times> InsTransVideo option \<times> read_result list) option" where
  "job_read_stream libs es ins =
     (case ins of
        None \<Rightarrow> Some (- 1, None, es)
      | Some i \<Rightarrow> map_option (\<lambda>(r, i, es). (r, Some i, es)) (job_read_stream_loop libs 1 es i))"

subsection \<open>Reading a recording\<close>

datatype sem_op = Sem_Wait | Sem_Post

text \<open>What one round of the loop sees: whether five seconds have passed, the read, and \<open>terminate\<close>.\<close>

type_synonym round = "bool \<times> read_result \<times> bool"

datatype job_result = Job_Running | Job_Returned int

text \<open>
  The loop of \<open>job_loop_read_recodingfile\<close>, entered holding the semaphore. The result has the operations on the
  semaphore that it adds; the job is running when the script ends before it returns. \<open>EAGAIN\<close> is an error
  like any other here.
\<close>

fun recording_loop ::
    "guacenc_libs \<Rightarrow> bool \<Rightarrow> round list \<Rightarrow> InsTransVideo \<Rightarrow> (job_result \<times> sem_op list \<times> InsTransVideo) option" where
  "recording_loop libs sched_flag [] ins = Some (Job_Running, [], ins)"
| "recording_loop libs sched_flag ((expired, e, terminate) # rs) ins =
     map_option (\<lambda>(r, ops, ins). (r, (if sched_flag \<or> expired then [Sem_Post, Sem_Wait] else []) @ ops, ins))
       (case e of
          Read_Byte c \<Rightarrow>
            if offsetLen ins \<ge> int INS_DATA_SIZE then None
            else
              (let ins = store_byte c ins in
               if c = 59 then
                 Option.bind (ins_parser_read libs (Some ins)) (\<lambda>(r, i).
                   if r < 0 then map_option (\<lambda>i. (Job_Returned (- 1), [], i)) i
                   else Option.bind i (\<lambda>i. recording_loop libs False rs (i\<lparr>offsetLen := 0\<rparr>)))
               else recording_loop libs False rs ins)
        | Read_Eof \<Rightarrow> if terminate then Some (Job_Returned 0, [Sem_Post], ins) else recording_loop libs True rs ins
        | Read_Again \<Rightarrow> Some (Job_Returned 0, [Sem_Post], ins)
        | Read_Error \<Rightarrow> Some (Job_Returned 0, [Sem_Post], ins))"

definition job_loop_read_recodingfile ::
    "guacenc_libs \<Rightarrow> bool \<Rightarrow> round list \<Rightarrow> InsTransVideo \<Rightarrow> (job_result \<times> sem_op list \<times> InsTransVideo) option" where
  "job_loop_read_recodingfile libs opened rs ins =
     (if \<not> opened then Some (Job_Returned (- 1), [], ins)
      else map_option (\<lambda>(r, ops, ins). (r, Sem_Wait # ops, ins)) (recording_loop libs False rs ins))"

subsection \<open>The configuration of a job\<close>

record VideoConfig =
  cfg_width :: int
  cfg_height :: int
  cfg_bitrate :: int
  cfg_codec :: "byte list"
  cfg_sid :: "byte list"
  cfg_path :: "byte list"
  cfg_outfile :: "byte list"
  cfg_tmpfile :: "byte list"
  cfg_recordingfile :: "byte list"
  cfg_mode :: "byte list"

datatype cJSON = cJSON_String "byte list" | cJSON_Other

type_synonym json_object = "byte list \<Rightarrow> cJSON option"

definition json_string :: "json_object \<Rightarrow> byte list \<Rightarrow> byte list option" where
  "json_string root name =
     (case root name of Some (cJSON_String s) \<Rightarrow> Some s | _ \<Rightarrow> None)"

definition job_cjson_parse_root :: "VideoConfig \<Rightarrow> json_object \<Rightarrow> int \<times> VideoConfig" where
  "job_cjson_parse_root config root =
     (case json_string root (cstr ''width'') of
        None \<Rightarrow> (- 1, config)
      | Some s \<Rightarrow>
          (let config = config\<lparr>cfg_width := atoi s\<rparr> in
      case json_string root (cstr ''height'') of
        None \<Rightarrow> (- 1, config)
      | Some s \<Rightarrow>
          (let config = config\<lparr>cfg_height := atoi s\<rparr> in
      case json_string root (cstr ''bitrate'') of
        None \<Rightarrow> (- 1, config)
      | Some s \<Rightarrow>
          (let config = config\<lparr>cfg_bitrate := atoi s\<rparr> in
      case json_string root (cstr ''sid'') of
        None \<Rightarrow> (- 1, config)
      | Some s \<Rightarrow>
          (let config = config\<lparr>cfg_sid := snprintf 256 s\<rparr> in
      case json_string root (cstr ''path'') of
        None \<Rightarrow> (- 1, config)
      | Some s \<Rightarrow>
          (let config = config\<lparr>cfg_path := snprintf 256 s\<rparr> in
      case json_string root (cstr ''recordingfile'') of
        None \<Rightarrow> (- 1, config)
      | Some s \<Rightarrow> (0, config\<lparr>cfg_recordingfile := snprintf 256 s\<rparr>)))))))"

text \<open>
  \<open>job_recv_video_config\<close>: \<open>readable\<close> is whether \<open>job_can_recv\<close> saw data within five seconds, \<open>rv\<close> the
  result of \<open>read\<close>, \<open>parse\<close> that of \<open>cJSON_Parse\<close>.
\<close>

definition job_recv_video_config ::
    "bool \<Rightarrow> int \<Rightarrow> json_object option \<Rightarrow> VideoConfig \<Rightarrow> int \<times> VideoConfig" where
  "job_recv_video_config readable rv parse config =
     (if \<not> readable then (- 1, config)
      else
        (case (if rv > 0
               then (case parse of None \<Rightarrow> (- 1, config) | Some root \<Rightarrow> job_cjson_parse_root config root)
               else (0, config)) of
           (r, config) \<Rightarrow>
             if r < 0 then (- 1, config)
             else
               (let config = config\<lparr>cfg_codec := snprintf 20 (cstr ''mpeg4'')\<rparr>;
                    config = config\<lparr>cfg_tmpfile := snprintf 256 (cfg_path config @ cstr ''/'' @ cfg_sid config @ cstr ''.m4v'')\<rparr>;
                    config = config\<lparr>cfg_outfile := snprintf 256 (cfg_path config @ cstr ''/'' @ cfg_sid config @ cstr ''.mp4'')\<rparr>
                in (0, config))))"

subsection \<open>Running ffmpeg\<close>

type_synonym file_system = "byte list \<rightharpoonup> nat"

text \<open>The arguments \<open>job_exec\<close> finds with \<open>strtok\<close>: the maximal runs of bytes other than a space.\<close>

function strtok_words :: "byte list \<Rightarrow> byte list list" where
  "strtok_words [] = []"
| "strtok_words (c # cs) =
     (if c = 32 then strtok_words cs
      else (c # takeWhile (\<lambda>x. x \<noteq> 32) cs) # strtok_words (dropWhile (\<lambda>x. x \<noteq> 32) cs))"
  by pat_completeness auto
termination
  by (relation "measure length") (auto simp: le_imp_less_Suc length_dropWhile_le)

text \<open>\<open>job_exec\<close> with the effect \<open>run\<close> of the program; \<open>None\<close> when the words do not fit into \<open>argv\<close>.\<close>

definition job_exec :: "(byte list list \<Rightarrow> file_system \<Rightarrow> file_system) \<Rightarrow> byte list \<Rightarrow> file_system \<Rightarrow> file_system option" where
  "job_exec run command fs =
     (let argv = strtok_words command in if length argv \<ge> 64 then None else Some (run argv fs))"

definition ffmpeg_command :: "VideoConfig \<Rightarrow> byte list" where
  "ffmpeg_command config =
     snprintf 512 (cstr ''/usr/local/bin/ffmpeg -i '' @ cfg_tmpfile config @ cstr '' '' @ cfg_outfile config)"

definition job_call_ffmpeg_for_video ::
    "(byte list list \<Rightarrow> file_system \<Rightarrow> file_system) \<Rightarrow> VideoConfig \<Rightarrow> file_system \<Rightarrow> file_system option" where
  "job_call_ffmpeg_for_video run config fs =
     (case fs (cfg_tmpfile config) of
        None \<Rightarrow> Some fs
      | Some sz \<Rightarrow>
          map_option (\<lambda>fs. fs(cfg_tmpfile config := None))
            (if sz > 0
             then job_exec run (ffmpeg_command config) (fs(cfg_outfile config := None))
             else Some fs))"

section \<open>The semaphore\<close>

text \<open>A run of the operations of one thread: whether it holds the semaphore afterwards, if they are in order.\<close>

fun run_sem :: "bool \<Rightarrow> sem_op list \<Rightarrow> bool option" where
  "run_sem held [] = Some held"
| "run_sem held (Sem_Wait # ops) = (if held then None else run_sem True ops)"
| "run_sem held (Sem_Post # ops) = (if held then run_sem False ops else None)"

lemma recording_loop_sem:
  assumes "recording_loop libs flag rs ins = Some (r, ops, ins')"
  shows "run_sem True ops = Some (r \<noteq> Job_Returned 0)"
  using assms
proof (induction libs flag rs ins arbitrary: r ops ins' rule: recording_loop.induct)
  case (2 libs flag expired e t rs ins)
  from "2.prems" obtain ops1 where eq: "ops = (if flag \<or> expired then [Sem_Post, Sem_Wait] else []) @ ops1"
    and body: "(case e of
          Read_Byte c \<Rightarrow>
            if offsetLen ins \<ge> int INS_DATA_SIZE then None
            else
              (let ins = store_byte c ins in
               if c = 59 then
                 Option.bind (ins_parser_read libs (Some ins)) (\<lambda>(r, i).
                   if r < 0 then map_option (\<lambda>i. (Job_Returned (- 1), [], i)) i
                   else Option.bind i (\<lambda>i. recording_loop libs False rs (i\<lparr>offsetLen := 0\<rparr>)))
               else recording_loop libs False rs ins)
        | Read_Eof \<Rightarrow> if t then Some (Job_Returned 0, [Sem_Post], ins) else recording_loop libs True rs ins
        | Read_Again \<Rightarrow> Some (Job_Returned 0, [Sem_Post], ins)
        | Read_Error \<Rightarrow> Some (Job_Returned 0, [Sem_Post], ins)) = Some (r, ops1, ins')"
    unfolding recording_loop.simps by (auto simp del: recording_loop.simps)
  have "run_sem True ops1 = Some (r \<noteq> Job_Returned 0)"
    using body "2.IH"
    by (cases e) (auto simp: Let_def Option.bind_eq_Some_conv simp del: recording_loop.simps split: if_splits)
  then show ?case by (simp add: eq)
qed simp

section \<open>A recording that is being written\<close>

text \<open>Rounds that find a byte, or the end of a recording that will grow.\<close>

definition following :: "round \<Rightarrow> bool" where
  "following = (\<lambda>(expired, e, terminate). (\<exists>c. e = Read_Byte c) \<or> (e = Read_Eof \<and> \<not> terminate))"

definition found :: "round list \<Rightarrow> byte list" where
  "found rs = concat (map (\<lambda>(expired, e, terminate). case e of Read_Byte c \<Rightarrow> [c] | _ \<Rightarrow> []) rs)"

text \<open>The object has collected \<open>pre\<close>, the start of the first of the instructions \<open>iss\<close> to come.\<close>

definition collecting :: "byte list \<Rightarrow> byte list list list \<Rightarrow> InsTransVideo \<Rightarrow> InsTransVideo \<Rightarrow> bool" where
  "collecting pre iss ins0 ins = (ready_ins ins0 \<and> ins = fold store_byte pre ins0
     \<and> (if iss = [] then pre = [] else \<exists>post. post \<noteq> [] \<and> encode_instruction (hd iss) = pre @ post))"

lemma collecting_offset:
  assumes "collecting pre iss ins0 ins" "list_all framed iss"
  shows "offsetLen ins < int INS_DATA_SIZE" "ins_display ins = ins_display ins0"
proof -
  have l: "length pre < INS_DATA_SIZE"
    using assms by (cases iss) (auto simp: collecting_def framed_def)
  have r: "ready_ins ins0" and i: "ins = fold store_byte pre ins0" using assms(1) by (simp_all add: collecting_def)
  from fold_store_collects[of ins0 pre] ready_live[OF r] r l show "offsetLen ins < int INS_DATA_SIZE"
    "ins_display ins = ins_display ins0"
    unfolding i by (simp_all add: ready_ins_def)
qed

lemma parser_read_collected:
  assumes "ready_ins ins" "framed es" "encode_instruction es = bs @ [59]"
    and "guacenc_handle_instruction libs (ins_display ins) (hd es) (tl es) = Some (r, d')"
  shows "\<exists>i. ins_parser_read libs (Some (store_byte 59 (fold store_byte bs ins))) = Some (0, Some i)
    \<and> ready_ins (i\<lparr>offsetLen := 0\<rparr>) \<and> ins_display i = d'"
  using parse_collected_one[OF assms] by (auto simp: parse_collected_def Option.bind_eq_Some_conv)

lemma recording_follows:
  assumes "list_all following rs" "collecting pre iss ins0 ins" "list_all framed iss"
    and "handle_all libs iss (ins_display ins0) = Some d'" "pre @ found rs = concat (map encode_instruction iss)"
  shows "\<exists>ops ins'. recording_loop libs flag (rs @ [(expired, Read_Eof, True)]) ins = Some (Job_Returned 0, ops, ins')
    \<and> ready_ins ins' \<and> ins_display ins' = d'"
  using assms
proof (induction rs arbitrary: pre iss ins0 ins flag)
  case Nil
  then have "iss = []" by (cases iss) (auto simp: collecting_def found_def)
  with Nil show ?case by (simp add: collecting_def)
next
  case (Cons rd rs)
  note off = collecting_offset[OF Cons.prems(2,3)]
  obtain x e t where rd: "rd = (x, e, t)" by (cases rd) auto
  have fl: "list_all following rs" using Cons.prems(1) by simp
  show ?case
  proof (cases e)
    case (Read_Byte c)
    have f: "found (rd # rs) = c # found rs" by (simp add: rd Read_Byte found_def)
    obtain es iss' where iss: "iss = es # iss'" using Cons.prems(2,5) f by (cases iss) (auto simp: collecting_def)
    have fr: "framed es" using Cons.prems(3) iss by simp
    obtain bs where bs: "encode_instruction es = bs @ [59]" "59 \<notin> set bs" using encode_framed[OF fr] by blast
    have c0: "ready_ins ins0" "ins = fold store_byte pre ins0" using Cons.prems(2) by (simp_all add: collecting_def)
    obtain post where post: "post \<noteq> []" "encode_instruction es = pre @ post" using Cons.prems(2) iss by (auto simp: collecting_def)
    have split: "c # found rs = post @ concat (map encode_instruction iss')" using Cons.prems(5) f iss post(2) by simp
    then obtain post' where p': "post = c # post'" "found rs = post' @ concat (map encode_instruction iss')"
      using post(1) by (cases post) auto
    show ?thesis
    proof (cases "c = 59")
      case True
      then have e: "post' = []" "bs = pre"
        using bs post(2) p'(1) by (cases post' rule: rev_cases; auto simp: append_eq_append_conv2 Cons_eq_append_conv)+
      obtain r d1 where h: "guacenc_handle_instruction libs (ins_display ins0) (hd es) (tl es) = Some (r, d1)"
        "handle_all libs iss' d1 = Some d'"
        using Cons.prems(4) iss by (auto simp: Option.bind_eq_Some_conv)
      obtain i where i: "ins_parser_read libs (Some (store_byte 59 ins)) = Some (0, Some i)"
        "ready_ins (i\<lparr>offsetLen := 0\<rparr>)" "ins_display i = d1"
        using parser_read_collected[OF c0(1) fr bs(1) h(1)] c0(2) e(2) by auto
      have fr': "list_all framed iss'" using Cons.prems(3) iss by simp
      have "collecting [] iss' (i\<lparr>offsetLen := 0\<rparr>) (i\<lparr>offsetLen := 0\<rparr>)"
        using i(2) fr' by (cases iss') (auto simp: collecting_def encode_instruction_def)
      from Cons.IH[OF fl this fr', of False] h(2) i(3) p'(2) e(1) obtain ops ins' where
        "recording_loop libs False (rs @ [(expired, Read_Eof, True)]) (i\<lparr>offsetLen := 0\<rparr>) = Some (Job_Returned 0, ops, ins')"
        "ready_ins ins'" "ins_display ins' = d'" by auto
      with i(1) off(1) True show ?thesis by (simp add: rd Read_Byte Let_def)
    next
      case False
      then have "post' \<noteq> []" using bs post(2) p'(1) by auto
      then have "collecting (pre @ [c]) iss ins0 (store_byte c ins)"
        using c0 post(2) p'(1) iss by (auto simp: collecting_def)
      from Cons.IH[OF fl this Cons.prems(3,4), of False] Cons.prems(5) f obtain ops ins' where
        "recording_loop libs False (rs @ [(expired, Read_Eof, True)]) (store_byte c ins) = Some (Job_Returned 0, ops, ins')"
        "ready_ins ins'" "ins_display ins' = d'" by auto
      with off(1) False show ?thesis by (simp add: rd Read_Byte Let_def)
    qed
  next
    case Read_Eof
    have "\<not> t" using Cons.prems(1) by (simp add: rd Read_Eof following_def)
    moreover have "found (rd # rs) = found rs" by (simp add: rd Read_Eof found_def)
    ultimately show ?thesis using Cons.IH[OF fl Cons.prems(2-4), of True] Cons.prems(5) by (auto simp: rd Read_Eof)
  qed (use Cons.prems(1) in \<open>auto simp: rd following_def\<close>)
qed

section \<open>After a protocol error\<close>

lemma error_sticks:
  assumes "ins_parser ins = Some p" "pstate p = GUAC_PARSE_ERROR"
  shows "ins_parser_read libs (Some ins) = Some (- 1, Some ins)"
proof -
  have "guac_parser_append p (instructionbuf p) u n = (0, p, instructionbuf p)" for u n
    using assms(2) by (simp add: guac_parser_append_def)
  then have "ins_parser_read_loop libs a b c p (ins_display ins) ins = Some (- 1, p, ins_display ins, ins)" for a b c
    using assms(2) by (subst ins_parser_read_loop.simps) simp
  then show ?thesis using assms(1) by (simp add: ins_parser_read_def)
qed

lemma parse_collected_error:
  assumes "ins_parser ins = Some p" "pstate p = GUAC_PARSE_ERROR"
  shows "parse_collected libs ins = Some (- 1, ins\<lparr>offsetLen := 0\<rparr>)"
  by (simp add: parse_collected_def error_sticks[OF assms])

lemma stream_after_error:
  assumes "ins_parser ins = Some p" "pstate p = GUAC_PARSE_ERROR"
    and "0 \<le> offsetLen ins" "offsetLen ins + int (length bs) < int INS_DATA_SIZE - 1"
  shows "\<exists>ins'. job_read_stream_loop libs rv (map Read_Byte bs @ [Read_Again]) ins = Some (1, ins', [])
    \<and> ins_display ins' = ins_display ins \<and> ins_parser ins' = Some p"
  using assms
proof (induction bs arbitrary: ins rv)
  case (Cons c bs)
  have s: "ins_parser (store_byte c ins) = Some p" "ins_display (store_byte c ins) = ins_display ins"
    "offsetLen (store_byte c ins) = offsetLen ins + 1"
    using Cons.prems(1) by (simp_all add: store_byte_def)
  let ?i = "(store_byte c ins)\<lparr>ins_data := (ins_data (store_byte c ins))[nat (offsetLen ins + 1) := 0]\<rparr>"
  have "parse_collected libs ?i = Some (- 1, ?i\<lparr>offsetLen := 0\<rparr>)"
    using parse_collected_error[of ?i p] s Cons.prems(2) by simp
  with Cons.IH[of "?i\<lparr>offsetLen := 0\<rparr>"] Cons.IH[of "store_byte c ins"] s Cons.prems show ?case
    by (auto simp: Let_def)
qed simp

section \<open>File names\<close>

lemma strtok_word:
  assumes "w \<noteq> []" "32 \<notin> set w"
  shows "strtok_words w = [w]" "strtok_words (w @ 32 # rest) = w # strtok_words rest"
proof -
  obtain c cs where w: "w = c # cs" using assms(1) by (cases w) auto
  have cs: "takeWhile (\<lambda>x. x \<noteq> 32) cs = cs" "dropWhile (\<lambda>x. x \<noteq> 32) cs = []"
    "takeWhile (\<lambda>x. x \<noteq> 32) (cs @ 32 # rest) = cs" "dropWhile (\<lambda>x. x \<noteq> 32) (cs @ 32 # rest) = 32 # rest"
    using assms(2) w by (auto simp: takeWhile_tail dropWhile_append3)
  show "strtok_words w = [w]" "strtok_words (w @ 32 # rest) = w # strtok_words rest"
    using assms(2) by (simp_all add: w cs)
qed

lemma strtok_four:
  assumes "\<forall>w \<in> {a, b, c, d}. w \<noteq> [] \<and> 32 \<notin> set w"
  shows "strtok_words (a @ 32 # b @ 32 # c @ 32 # d) = [a, b, c, d]"
  using assms by (simp add: strtok_word)

text \<open>A request that carries everything a job needs.\<close>

definition complete_request :: "json_object \<Rightarrow> byte list \<Rightarrow> byte list \<Rightarrow> bool" where
  "complete_request root path sid = (json_string root (cstr ''path'') = Some path \<and> json_string root (cstr ''sid'') = Some sid
     \<and> (\<forall>name \<in> {''width'', ''height'', ''bitrate'', ''recordingfile''}. json_string root (cstr name) \<noteq> None))"

lemma recv_complete_request:
  assumes "complete_request root path sid" "0 < rv"
  shows "\<exists>c. job_recv_video_config True rv (Some root) config = (0, c)
    \<and> cfg_path c = snprintf 256 path \<and> cfg_sid c = snprintf 256 sid
    \<and> cfg_tmpfile c = snprintf 256 (cfg_path c @ cstr ''/'' @ cfg_sid c @ cstr ''.m4v'')
    \<and> cfg_outfile c = snprintf 256 (cfg_path c @ cstr ''/'' @ cfg_sid c @ cstr ''.mp4'')"
proof -
  obtain w h b f where j: "json_string root (cstr ''width'') = Some w" "json_string root (cstr ''height'') = Some h"
    "json_string root (cstr ''bitrate'') = Some b" "json_string root (cstr ''recordingfile'') = Some f"
    "json_string root (cstr ''path'') = Some path" "json_string root (cstr ''sid'') = Some sid"
    using assms(1) unfolding complete_request_def by (auto simp del: cstr_simps)
  show ?thesis
    using assms(2) by (simp add: job_recv_video_config_def job_cjson_parse_root_def j Let_def del: cstr_simps)
qed

lemma snprintf_short: "length t < n \<Longrightarrow> snprintf n t = t"
  by (simp add: snprintf_def)

section \<open>Properties\<close>

text \<open>
  C23. A job follows a growing recording to its end: whatever the moments at which the reader catches up with
  the writer or lets other jobs run, once the recording is complete and the client has gone, the job returns
  0 and its display is the one that results from handling exactly the recorded instructions, in order. As for
  the live conversion this is for recordings whose instructions are \<open>framed\<close>: each is shorter than the buffer of 32768
  bytes, and no element contains a semicolon, at which the reader would end the instruction. What happens to
  an instruction that is cut is shown by \<open>split_instruction_overruns\<close>.
\<close>

theorem recording_job_converts:
  assumes "ready_ins ins" "list_all following rs" "found rs = concat (map encode_instruction iss)" "list_all framed iss"
    and "handle_all libs iss (ins_display ins) = Some d'"
  shows "\<exists>ops ins'. job_loop_read_recodingfile libs True (rs @ [(expired, Read_Eof, True)]) ins = Some (Job_Returned 0, ops, ins')
    \<and> ins_display ins' = d' \<and> run_sem False ops = Some False"
proof -
  have "collecting [] iss ins ins"
    using assms(1) by (cases iss) (auto simp: collecting_def encode_instruction_def)
  from recording_follows[OF assms(2) this assms(4,5), of False expired] assms(3) obtain ops ins' where
    r: "recording_loop libs False (rs @ [(expired, Read_Eof, True)]) ins = Some (Job_Returned 0, ops, ins')" "ins_display ins' = d'"
    by auto
  with recording_loop_sem[OF r(1)] show ?thesis by (simp add: job_loop_read_recodingfile_def)
qed

theorem recording_job_converts_witness:
  "\<exists>ops ins'. job_loop_read_recodingfile example_libs True
       (map (\<lambda>c. (False, Read_Byte c, False)) (cstr ''5.mous'') @ [(True, Read_Eof, False)]
        @ map (\<lambda>c. (False, Read_Byte c, True)) (cstr ''e,1.3,1.4;3.nop;'') @ [(False, Read_Eof, True)])
       \<lparr>ins_display = example_display [],
        ins_parser = Some (guac_parser_reset \<lparr>pstate = GUAC_PARSE_ERROR, opcode = None, argc = 7, elementc = 3,
          elementv = replicate 128 0, element_length = 5, unparsed_start = 0, unparsed_end = 0,
          instructionbuf = replicate 32768 0\<rparr>),
        ins_data = replicate 32768 0, offsetLen = 0\<rparr>
     = Some (Job_Returned 0, ops, ins')
     \<and> ins_display ins' = (example_display [])\<lparr>cursor := Some ((the (cursor (example_display [])))\<lparr>cx := 3, cy := 4\<rparr>)\<rparr>
     \<and> run_sem False ops = Some False"
proof -
  let ?rs = "map (\<lambda>c. (False, Read_Byte c, False)) (cstr ''5.mous'') @ [(True, Read_Eof, False)]
    @ map (\<lambda>c. (False, Read_Byte c, True)) (cstr ''e,1.3,1.4;3.nop;'')"
  let ?i = "\<lparr>ins_display = example_display [],
    ins_parser = Some (guac_parser_reset \<lparr>pstate = GUAC_PARSE_ERROR, opcode = None, argc = 7, elementc = 3,
      elementv = replicate 128 0, element_length = 5, unparsed_start = 0, unparsed_end = 0,
      instructionbuf = replicate 32768 0\<rparr>),
    ins_data = replicate 32768 0, offsetLen = 0\<rparr>"
  let ?iss = "[[cstr ''mouse'', cstr ''3'', cstr ''4''], [cstr ''nop'']]"
  let ?d = "(example_display [])\<lparr>cursor := Some ((the (cursor (example_display [])))\<lparr>cx := 3, cy := 4\<rparr>)\<rparr>"
  have i: "ready_ins ?i" by (simp add: ready_ins_def ins_idle_def parser_idle_def guac_parser_reset_def)
  have "list_all following (map (\<lambda>c. (False, Read_Byte c, b)) bs)" for b bs by (simp add: list_all_iff following_def)
  then have fl: "list_all following ?rs" by (simp add: following_def del: cstr_simps)
  have fb: "found (map (\<lambda>c. (False, Read_Byte c, b)) bs) = bs" for b bs by (simp add: found_def comp_def)
  have fa: "found (xs @ ys) = found xs @ found ys" for xs ys by (simp add: found_def)
  have "found [(True, Read_Eof, False)] = []" by (simp add: found_def)
  then have fd: "found ?rs = concat (map encode_instruction ?iss)" unfolding fa fb
    by (simp add: encode_instruction_def element_def guac_utf8_strlen_step ascii_charsize dec_nat.simps)
  have f: "list_all framed ?iss"
    by (simp add: framed_def sendable_def acceptable_def encode_instruction_def element_def guac_utf8_strlen_step
        ascii_charsize dec_nat.simps utf8_complete.simps(2))
  have a: "atoi [51] = 3" "atoi [52] = 4"
    using atoi_dec_int[of 3] atoi_dec_int[of 4] by (simp_all add: in_s32_def dec_int_def dec_nat.simps)
  have h: "handle_all example_libs ?iss (ins_display ?i) = Some ?d"
    by (simp add: guacenc_handle_instruction_def guacenc_instruction_handler_map_def guacenc_handle_mouse_def a
        example_display_def)
  from recording_job_converts[OF i fl fd f h, of False] show ?thesis by (simp only: append.assoc)
qed

text \<open>
  C24. The semaphore between the jobs: whatever is read, a job waits and posts in turn; it gives the semaphore
  back exactly when it returns 0. When it returns \<open>-1\<close> because the recording cannot be parsed, it keeps the
  semaphore, and every other job waits for it forever.
\<close>

theorem recording_job_semaphore:
  assumes "job_loop_read_recodingfile libs opened rs ins = Some (r, ops, ins')"
  shows "run_sem False ops = Some (opened \<and> r \<noteq> Job_Returned 0)"
  using assms recording_loop_sem[of libs False rs ins]
  by (auto simp: job_loop_read_recodingfile_def split: if_splits)

theorem recording_job_semaphore_witness:
  "\<exists>r ops ins'. job_loop_read_recodingfile example_libs True [(True, Read_Byte 65, False), (False, Read_Again, False)]
       \<lparr>ins_display = example_display [], ins_parser = None, ins_data = [0, 0], offsetLen = 0\<rparr> = Some (r, ops, ins')
     \<and> ops = [Sem_Wait, Sem_Post, Sem_Wait, Sem_Post] \<and> run_sem False ops = Some False"
proof -
  have "job_loop_read_recodingfile example_libs True [(True, Read_Byte 65, False), (False, Read_Again, False)]
       \<lparr>ins_display = example_display [], ins_parser = None, ins_data = [0, 0], offsetLen = 0\<rparr>
     = Some (Job_Returned 0, [Sem_Wait, Sem_Post, Sem_Wait, Sem_Post],
        \<lparr>ins_display = example_display [], ins_parser = None, ins_data = [65, 0], offsetLen = 1\<rparr>)"
    by (simp add: job_loop_read_recodingfile_def store_byte_def)
  with recording_job_semaphore[OF this] show ?thesis by auto
qed

text \<open>
  Protocol errors on a socket are never reported: once the parser has failed, any further bytes (short of
  the size of the array) are consumed and dropped, the display stays as it was, and every call of
  \<open>job_read_stream\<close> still returns 1, as if the connection were healthy.
\<close>

theorem stream_errors_hidden:
  assumes "ins_parser ins = Some p" "pstate p = GUAC_PARSE_ERROR"
    and "0 \<le> offsetLen ins" "offsetLen ins + int (length bs) < int INS_DATA_SIZE - 1"
  shows "\<exists>ins'. job_read_stream libs (map Read_Byte bs @ [Read_Again]) (Some ins) = Some (1, Some ins', [])
    \<and> ins_display ins' = ins_display ins \<and> ins_parser ins' = Some p"
  using stream_after_error[OF assms, of libs 1] by (auto simp: job_read_stream_def)

theorem stream_errors_hidden_witness:
  "\<exists>ins'. job_read_stream example_libs (map Read_Byte (cstr ''3.nop;'') @ [Read_Again]) (Some
       \<lparr>ins_display = example_display [],
        ins_parser = Some \<lparr>pstate = GUAC_PARSE_ERROR, opcode = None, argc = 0, elementc = 0, elementv = replicate 128 0,
          element_length = 0, unparsed_start = 0, unparsed_end = 0, instructionbuf = replicate 32768 0\<rparr>,
        ins_data = replicate 32768 0, offsetLen = 0\<rparr>) = Some (1, Some ins', [])
     \<and> ins_display ins' = example_display []"
  using stream_errors_hidden[of "\<lparr>ins_display = example_display [],
        ins_parser = Some \<lparr>pstate = GUAC_PARSE_ERROR, opcode = None, argc = 0, elementc = 0, elementv = replicate 128 0,
          element_length = 0, unparsed_start = 0, unparsed_end = 0, instructionbuf = replicate 32768 0\<rparr>,
        ins_data = replicate 32768 0, offsetLen = 0\<rparr>" _ "cstr ''3.nop;''" example_libs]
  by auto

text \<open>
  The files of a job: for a complete request whose path and session name are short and without spaces,
  the video is written to \<open>path/sid.m4v\<close>, and ffmpeg is run with exactly this file and \<open>path/sid.mp4\<close>, after a file
  of that name has been removed; the intermediate video is removed afterwards.
\<close>

theorem job_runs_ffmpeg:
  assumes "complete_request root path sid" "0 < rv" "length path + length sid \<le> 237" "32 \<notin> set path" "32 \<notin> set sid"
    and "fs (path @ cstr ''/'' @ sid @ cstr ''.m4v'') = Some sz" "0 < sz"
  shows "\<exists>c. job_recv_video_config True rv (Some root) config = (0, c)
    \<and> cfg_tmpfile c = path @ cstr ''/'' @ sid @ cstr ''.m4v'' \<and> cfg_outfile c = path @ cstr ''/'' @ sid @ cstr ''.mp4''
    \<and> job_call_ffmpeg_for_video run c fs = Some ((run [cstr ''/usr/local/bin/ffmpeg'', cstr ''-i'', cfg_tmpfile c, cfg_outfile c]
          (fs(cfg_outfile c := None)))(cfg_tmpfile c := None))"
proof -
  let ?t = "path @ cstr ''/'' @ sid @ cstr ''.m4v''" and ?o = "path @ cstr ''/'' @ sid @ cstr ''.mp4''"
  obtain c where c: "job_recv_video_config True rv (Some root) config = (0, c)" "cfg_tmpfile c = ?t" "cfg_outfile c = ?o"
    using recv_complete_request[OF assms(1,2), of config] assms(3) by (auto simp: snprintf_short)
  have "ffmpeg_command c = cstr ''/usr/local/bin/ffmpeg'' @ 32 # cstr ''-i'' @ 32 # ?t @ 32 # ?o"
    using assms(3) by (simp add: ffmpeg_command_def c snprintf_short)
  moreover have "\<forall>w \<in> {cstr ''/usr/local/bin/ffmpeg'', cstr ''-i'', ?t, ?o}. w \<noteq> [] \<and> 32 \<notin> set w" using assms(4,5) by simp
  ultimately have "strtok_words (ffmpeg_command c) = [cstr ''/usr/local/bin/ffmpeg'', cstr ''-i'', ?t, ?o]"
    using strtok_four[of "cstr ''/usr/local/bin/ffmpeg''" "cstr ''-i''" ?t ?o] by (simp only: append.assoc)
  then have "job_call_ffmpeg_for_video run c fs = Some ((run [cstr ''/usr/local/bin/ffmpeg'', cstr ''-i'', ?t, ?o] (fs(?o := None)))(?t := None))"
    using assms(6,7) by (simp add: job_call_ffmpeg_for_video_def job_exec_def c del: cstr_simps)
  then have "job_call_ffmpeg_for_video run c fs = Some ((run [cstr ''/usr/local/bin/ffmpeg'', cstr ''-i'', cfg_tmpfile c, cfg_outfile c]
      (fs(cfg_outfile c := None)))(cfg_tmpfile c := None))" unfolding c(2,3) .
  with c show ?thesis by (intro exI[of _ c] conjI)
qed

theorem job_runs_ffmpeg_witness:
  "\<exists>c. job_recv_video_config True 10
       (Some (\<lambda>name. Some (cJSON_String (if name = cstr ''path'' then [47, 118] else if name = cstr ''sid'' then [55] else [57]))))
       \<lparr>cfg_width = 0, cfg_height = 0, cfg_bitrate = 0, cfg_codec = [], cfg_sid = [], cfg_path = [], cfg_outfile = [],
        cfg_tmpfile = [], cfg_recordingfile = [], cfg_mode = []\<rparr> = (0, c)
     \<and> cfg_tmpfile c = cstr ''/v/7.m4v''
     \<and> job_call_ffmpeg_for_video (\<lambda>argv fs. fs(argv ! 3 := Some 1)) c [cstr ''/v/7.m4v'' \<mapsto> 5]
       = Some ((Map.empty(cstr ''/v/7.m4v'' \<mapsto> 5, cstr ''/v/7.mp4'' \<mapsto> 1))(cstr ''/v/7.m4v'' := None))"
proof -
  let ?root = "\<lambda>name. Some (cJSON_String (if name = cstr ''path'' then [47, 118] else if name = cstr ''sid'' then [55] else [57 :: byte]))"
  let ?cfg = "\<lparr>cfg_width = 0, cfg_height = 0, cfg_bitrate = 0, cfg_codec = [], cfg_sid = [], cfg_path = [], cfg_outfile = [],
    cfg_tmpfile = [], cfg_recordingfile = [], cfg_mode = []\<rparr>"
  let ?run = "\<lambda>argv (fs :: file_system). fs(argv ! 3 := Some 1)"
  let ?fs = "[[47, 118] @ cstr ''/'' @ [55] @ cstr ''.m4v'' \<mapsto> 5 :: nat]"
  have "complete_request ?root [47, 118] [55]" by (simp add: complete_request_def json_string_def)
  then obtain c where c: "job_recv_video_config True 10 (Some ?root) ?cfg = (0, c)"
    "cfg_tmpfile c = [47, 118] @ cstr ''/'' @ [55] @ cstr ''.m4v''" "cfg_outfile c = [47, 118] @ cstr ''/'' @ [55] @ cstr ''.mp4''"
    "job_call_ffmpeg_for_video ?run c ?fs = Some ((?run [cstr ''/usr/local/bin/ffmpeg'', cstr ''-i'', cfg_tmpfile c, cfg_outfile c]
       (?fs(cfg_outfile c := None)))(cfg_tmpfile c := None))"
    using job_runs_ffmpeg[of ?root "[47, 118]" "[55]" 10 ?fs 5 ?cfg ?run] by (auto simp del: cstr_simps)
  have t: "[47, 118] @ cstr ''/'' @ [55] @ cstr ''.m4v'' = cstr ''/v/7.m4v''" "[47, 118] @ cstr ''/'' @ [55] @ cstr ''.mp4'' = cstr ''/v/7.mp4''"
    by simp_all
  have "?run [cstr ''/usr/local/bin/ffmpeg'', cstr ''-i'', x, y] f = f(y := Some 1)" for x y and f :: file_system
    by (simp add: numeral_eq_Suc)
  then have "job_call_ffmpeg_for_video ?run c ?fs
      = Some ((Map.empty(cstr ''/v/7.m4v'' \<mapsto> 5, cstr ''/v/7.mp4'' \<mapsto> 1))(cstr ''/v/7.m4v'' := None))"
    unfolding c(4) unfolding c(2,3) t by (simp del: cstr_simps)
  then show ?thesis using c(1,2) unfolding t by blast
qed

text \<open>
  Long names make a job destroy its video: when path and session name have together at least 252
  characters, the names of the intermediate and the final video are cut to the same name, so that the video is
  removed as an old result before ffmpeg is to read it, and nothing is left.
\<close>

theorem long_names_collide:
  assumes "complete_request root path sid" "0 < rv" "length path \<le> 255" "length sid \<le> 255" "252 \<le> length path + length sid"
  shows "\<exists>c. job_recv_video_config True rv (Some root) config = (0, c) \<and> cfg_tmpfile c = cfg_outfile c
    \<and> (\<forall>run fs sz fs'. fs (cfg_tmpfile c) = Some sz \<and> 0 < sz \<and> job_call_ffmpeg_for_video run c fs = Some fs' \<longrightarrow>
         (\<exists>argv. fs' = (run argv (fs(cfg_tmpfile c := None)))(cfg_tmpfile c := None)))"
proof -
  obtain c where c: "job_recv_video_config True rv (Some root) config = (0, c)"
    "cfg_tmpfile c = snprintf 256 (path @ cstr ''/'' @ sid @ cstr ''.m4v'')"
    "cfg_outfile c = snprintf 256 (path @ cstr ''/'' @ sid @ cstr ''.mp4'')"
    using recv_complete_request[OF assms(1,2), of config] assms(3,4) by (auto simp: snprintf_short)
  have "snprintf 256 (a @ x) = snprintf 256 (a @ y)" if "255 \<le> length a" for a x y
    using that by (simp add: snprintf_def)
  from this[of "path @ cstr ''/'' @ sid @ cstr ''.m''" "cstr ''4v''" "cstr ''p4''"] assms(5)
  have "cfg_tmpfile c = cfg_outfile c" by (simp add: c)
  with c(1) show ?thesis
    by (intro exI[of _ c]) (auto simp: job_call_ffmpeg_for_video_def job_exec_def Let_def split: if_splits)
qed

theorem long_names_collide_witness:
  "\<exists>c. job_recv_video_config True 10
       (Some (\<lambda>name. Some (cJSON_String (if name = cstr ''path'' then replicate 250 97 else if name = cstr ''sid'' then [55, 56] else [57]))))
       \<lparr>cfg_width = 0, cfg_height = 0, cfg_bitrate = 0, cfg_codec = [], cfg_sid = [], cfg_path = [], cfg_outfile = [],
        cfg_tmpfile = [], cfg_recordingfile = [], cfg_mode = []\<rparr> = (0, c)
     \<and> cfg_tmpfile c = cfg_outfile c"
proof -
  let ?root = "\<lambda>name. Some (cJSON_String (if name = cstr ''path'' then replicate 250 97 else if name = cstr ''sid'' then [55, 56] else [57 :: byte]))"
  have "complete_request ?root (replicate 250 97) [55, 56]" by (simp add: complete_request_def json_string_def)
  from long_names_collide[OF this, of 10 "\<lparr>cfg_width = 0, cfg_height = 0, cfg_bitrate = 0, cfg_codec = [], cfg_sid = [],
      cfg_path = [], cfg_outfile = [], cfg_tmpfile = [], cfg_recordingfile = [], cfg_mode = []\<rparr>"]
  show ?thesis by auto
qed

end
