(* ===== verification/Guac_Search.thy ===== *)
theory Guac_Search
  imports Guac_Prelude
begin

text \<open>
  The \<open>bsearch\<close> of the C library, which the tables of key names and of colours are searched with.
\<close>

text \<open>The binary search of the C library, between the indices \<open>l\<close> and \<open>u\<close>.\<close>

function bsearch :: "(nat \<Rightarrow> int) \<Rightarrow> nat \<Rightarrow> nat \<Rightarrow> nat option" where
  "bsearch cmp l u =
     (if l < u then
        (let idx = (l + u) div 2; c = cmp idx
         in if c < 0 then bsearch cmp l idx else if c > 0 then bsearch cmp (idx + 1) u else Some idx)
      else None)"
  by pat_completeness auto
termination
  by (relation "measure (\<lambda>(cmp, l, u). u - l)") auto

declare bsearch.simps [simp del]

lemma bsearch_zero: "bsearch cmp l u = Some i \<Longrightarrow> cmp i = 0 \<and> l \<le> i \<and> i < u"
proof (induction cmp l u rule: bsearch.induct)
  case (1 cmp l u)
  let ?m = "(l + u) div 2"
  have m: "l < u" using "1.prems" by (subst (asm) bsearch.simps) (auto split: if_splits)
  then have b: "l \<le> ?m" "?m < u" by auto
  have step: "bsearch cmp l u =
      (if cmp ?m < 0 then bsearch cmp l ?m else if cmp ?m > 0 then bsearch cmp (?m + 1) u else Some ?m)"
    using m by (subst bsearch.simps) (simp add: Let_def)
  consider "cmp ?m < 0" | "0 < cmp ?m" | "cmp ?m = 0" by linarith
  then show ?case
  proof cases
    case 1
    with "1.IH"(1)[OF m refl refl] "1.prems" step b show ?thesis by simp
  next
    case 2
    with "1.IH"(2)[OF m refl refl] "1.prems" step b show ?thesis by simp
  next
    case 3
    with "1.prems" step b show ?thesis by simp
  qed
qed

text \<open>On ascending keys with a comparator that orders them, the search finds what is there.\<close>

lemma bsearch_finds:
  assumes "\<And>i j. i < j \<Longrightarrow> j < u \<Longrightarrow> cmp j < cmp i" "l \<le> k" "k < u" "cmp k = 0"
  shows "bsearch cmp l u = Some k"
  using assms
proof (induction cmp l u rule: bsearch.induct)
  case (1 cmp l u)
  let ?m = "(l + u) div 2"
  have m: "l \<le> ?m" "?m < u" "l < u" using "1.prems"(2,3) by auto
  consider "k < ?m" | "k = ?m" | "?m < k" by linarith
  then show ?case
  proof cases
    case 1
    then have "cmp ?m < 0" using "1.prems"(1)[of k ?m] "1.prems"(4) m by simp
    with "1.IH"(1)[OF m(3) refl refl] "1.prems" 1 m show ?thesis by (subst bsearch.simps) (simp add: Let_def)
  next
    case 2
    with "1.prems"(4) m show ?thesis by (subst bsearch.simps) (simp add: Let_def)
  next
    case 3
    then have "0 < cmp ?m" using "1.prems"(1)[of ?m k] "1.prems"(3,4) by simp
    with "1.IH"(2)[OF m(3) refl refl] "1.prems" 3 m show ?thesis by (subst bsearch.simps) (simp add: Let_def)
  qed
qed

end
