(* ===== verification/Guaclog_State.thy ===== *)
theory Guaclog_State
  imports Guac_Search Guac_Parser Guac_Format
begin

text \<open>
  The input log interpreter (\<open>src/guaclog\<close>): definitions of keys (\<open>keydef.c\<close>), the keys held down and the text
  logged for every key pressed (\<open>state.c\<close>), the handler of the key instruction (\<open>instruction-key.c\<close>), the dispatch
  (\<open>instructions.c\<close>) and the loop over a recording (\<open>interpret.c\<close>).

  A pointer that may be null is an option. The output file is the list of the bytes written. Memory is
  always available, as the code assumes in \<open>guaclog_copy_key\<close>; the copy of a definition is the definition.
  The result of a step is \<open>None\<close> where a null string is passed to \<open>fprintf\<close>.
\<close>

section \<open>Definitions\<close>

subsection \<open>Keys\<close>

record guaclog_keydef =
  keysym :: int
  kname :: "byte list"
  kvalue :: "byte list option"
  modifier :: bool

definition known_key :: "int \<Rightarrow> string \<Rightarrow> byte list option \<Rightarrow> bool \<Rightarrow> guaclog_keydef" where
  "known_key ksym name val is_mod = \<lparr>keysym = ksym, kname = cstr name, kvalue = val, modifier = is_mod\<rparr>"

definition known_keys :: "guaclog_keydef list" where
  "known_keys =
     [known_key 0xFE03 ''AltGr'' (Some []) True,
      known_key 0xFF08 ''Backspace'' None False,
      known_key 0xFF09 ''Tab'' None False,
      known_key 0xFF0B ''Clear'' None False,
      known_key 0xFF0D ''Return'' (Some [10]) False,
      known_key 0xFF13 ''Pause'' None False,
      known_key 0xFF14 ''Scroll'' None False,
      known_key 0xFF15 ''SysReq'' None False,
      known_key 0xFF1B ''Escape'' None False,
      known_key 0xFF50 ''Home'' None False,
      known_key 0xFF51 ''Left'' None False,
      known_key 0xFF52 ''Up'' None False,
      known_key 0xFF53 ''Right'' None False,
      known_key 0xFF54 ''Down'' None False,
      known_key 0xFF55 ''Page Up'' None False,
      known_key 0xFF56 ''Page Down'' None False,
      known_key 0xFF57 ''End'' None False,
      known_key 0xFF63 ''Insert'' None False,
      known_key 0xFF65 ''Undo'' None False,
      known_key 0xFF6A ''Help'' None False,
      known_key 0xFF7F ''Num'' None False,
      known_key 0xFF80 ''Space'' (Some (cstr '' '')) False,
      known_key 0xFF8D ''Enter'' (Some [10]) False,
      known_key 0xFF95 ''Home'' None False,
      known_key 0xFF96 ''Left'' None False,
      known_key 0xFF97 ''Up'' None False,
      known_key 0xFF98 ''Right'' None False,
      known_key 0xFF99 ''Down'' None False,
      known_key 0xFF9A ''Page Up'' None False,
      known_key 0xFF9B ''Page Down'' None False,
      known_key 0xFF9C ''End'' None False,
      known_key 0xFF9E ''Insert'' None False,
      known_key 0xFFAA ''*'' (Some (cstr ''*'')) False,
      known_key 0xFFAB ''+'' (Some (cstr ''+'')) False,
      known_key 0xFFAD ''-'' (Some (cstr ''-'')) False,
      known_key 0xFFAE ''.'' (Some (cstr ''.'')) False,
      known_key 0xFFAF ''/'' (Some (cstr ''/'')) False,
      known_key 0xFFB0 ''0'' (Some (cstr ''0'')) False,
      known_key 0xFFB1 ''1'' (Some (cstr ''1'')) False,
      known_key 0xFFB2 ''2'' (Some (cstr ''2'')) False,
      known_key 0xFFB3 ''3'' (Some (cstr ''3'')) False,
      known_key 0xFFB4 ''4'' (Some (cstr ''4'')) False,
      known_key 0xFFB5 ''5'' (Some (cstr ''5'')) False,
      known_key 0xFFB6 ''6'' (Some (cstr ''6'')) False,
      known_key 0xFFB7 ''7'' (Some (cstr ''7'')) False,
      known_key 0xFFB8 ''8'' (Some (cstr ''8'')) False,
      known_key 0xFFB9 ''9'' (Some (cstr ''9'')) False,
      known_key 0xFFBE ''F1'' None False,
      known_key 0xFFBF ''F2'' None False,
      known_key 0xFFC0 ''F3'' None False,
      known_key 0xFFC1 ''F4'' None False,
      known_key 0xFFC2 ''F5'' None False,
      known_key 0xFFC3 ''F6'' None False,
      known_key 0xFFC4 ''F7'' None False,
      known_key 0xFFC5 ''F8'' None False,
      known_key 0xFFC6 ''F9'' None False,
      known_key 0xFFC7 ''F10'' None False,
      known_key 0xFFC8 ''F11'' None False,
      known_key 0xFFC9 ''F12'' None False,
      known_key 0xFFCA ''F13'' None False,
      known_key 0xFFCB ''F14'' None False,
      known_key 0xFFCC ''F15'' None False,
      known_key 0xFFCD ''F16'' None False,
      known_key 0xFFCE ''F17'' None False,
      known_key 0xFFCF ''F18'' None False,
      known_key 0xFFD0 ''F19'' None False,
      known_key 0xFFD1 ''F20'' None False,
      known_key 0xFFD2 ''F21'' None False,
      known_key 0xFFD3 ''F22'' None False,
      known_key 0xFFD4 ''F23'' None False,
      known_key 0xFFD5 ''F24'' None False,
      known_key 0xFFE1 ''Shift'' (Some []) True,
      known_key 0xFFE2 ''Shift'' (Some []) True,
      known_key 0xFFE3 ''Ctrl'' None True,
      known_key 0xFFE4 ''Ctrl'' None True,
      known_key 0xFFE5 ''Caps'' None False,
      known_key 0xFFE7 ''Meta'' None True,
      known_key 0xFFE8 ''Meta'' None True,
      known_key 0xFFE9 ''Alt'' None True,
      known_key 0xFFEA ''Alt'' None True,
      known_key 0xFFEB ''Super'' None True,
      known_key 0xFFEC ''Super'' None True,
      known_key 0xFFED ''Hyper'' None True,
      known_key 0xFFEE ''Hyper'' None True,
      known_key 0xFFFF ''Delete'' None False]"

definition guaclog_keydef_bsearch_compare :: "int \<Rightarrow> guaclog_keydef \<Rightarrow> int" where
  "guaclog_keydef_bsearch_compare key member = s32 (key - keysym member)"

definition guaclog_get_known_key :: "int \<Rightarrow> guaclog_keydef option" where
  "guaclog_get_known_key ksym =
     map_option (\<lambda>i. known_keys ! i)
       (bsearch (\<lambda>i. guaclog_keydef_bsearch_compare ksym (known_keys ! i)) 0 (length known_keys))"

text \<open>The text of \<open>%X\<close>.\<close>

definition hex_digit :: "nat \<Rightarrow> byte" where
  "hex_digit n = of_nat (if n < 10 then 48 + n else 55 + n)"

fun hex_nat :: "nat \<Rightarrow> byte list" where
  "hex_nat n = (if n < 16 then [hex_digit n] else hex_nat (n div 16) @ [hex_digit (n mod 16)])"

declare hex_nat.simps [simp del]

definition guaclog_get_unknown_key :: "int \<Rightarrow> guaclog_keydef" where
  "guaclog_get_unknown_key ksym =
     \<lparr>keysym = ksym, kname = snprintf 64 (cstr ''0x'' @ hex_nat (nat (ksym mod 2 ^ 32))), kvalue = None, modifier = False\<rparr>"

text \<open>
  \<open>guaclog_get_unicode_key\<close>: \<open>buf\<close> is the static array of 8 bytes; the trailing bytes are written by the loop
  that \<open>guac_utf8_write\<close> has, too.
\<close>

definition guaclog_get_unicode_key :: "byte list \<Rightarrow> int \<Rightarrow> guaclog_keydef option" where
  "guaclog_get_unicode_key buf ksym =
     (if ksym < 0 \<or> (ksym > 0xFF \<and> (ksym OR 0xFFFF) \<noteq> 0x0100FFFF) then None
      else
        (let codepoint = ksym AND 0xFFFF;
             (mask, bytes) =
               (if codepoint \<le> 0x007F then (0x00, 1)
                else if codepoint \<le> 0x7FF then (0xC0, 2)
                else (0xE0, 3 :: nat));
             buf = buf[bytes := 0];
             (cp, buf) = utf8_write_trailing (bytes - 1) codepoint buf;
             name = cstr_at (buf[0 := word_of_int (mask OR cp)]) 0
         in Some \<lparr>keysym = ksym, kname = name, kvalue = Some name, modifier = False\<rparr>))"

definition guaclog_copy_key :: "guaclog_keydef \<Rightarrow> guaclog_keydef" where
  "guaclog_copy_key keydef = \<lparr>keysym = keysym keydef, kname = kname keydef, kvalue = kvalue keydef, modifier = modifier keydef\<rparr>"

definition guaclog_keydef_alloc :: "byte list \<Rightarrow> int \<Rightarrow> guaclog_keydef" where
  "guaclog_keydef_alloc buf ksym =
     (case guaclog_get_known_key ksym of
        Some keydef \<Rightarrow> guaclog_copy_key keydef
      | None \<Rightarrow>
          (case guaclog_get_unicode_key buf ksym of
             Some keydef \<Rightarrow> guaclog_copy_key keydef
           | None \<Rightarrow> guaclog_copy_key (guaclog_get_unknown_key ksym)))"

subsection \<open>The keys held down\<close>

record guaclog_key_state =
  keydef :: "guaclog_keydef option"
  key_pressed :: bool

record guaclog_state =
  log_output :: "byte list"
  active_keys :: nat
  key_states :: "guaclog_key_state list"

abbreviation GUACLOG_MAX_KEYS :: nat where
  "GUACLOG_MAX_KEYS \<equiv> 256"

text \<open>\<open>guaclog_state_alloc\<close>; \<open>opened\<close>, \<open>stream\<close> and \<open>ok\<close> are whether the file, its stream and the memory are there.\<close>

definition guaclog_state_alloc :: "bool \<Rightarrow> bool \<Rightarrow> bool \<Rightarrow> guaclog_state option" where
  "guaclog_state_alloc opened stream ok =
     (if \<not> opened \<or> \<not> stream \<or> \<not> ok then None
      else Some \<lparr>log_output = [], active_keys = 0,
                 key_states = replicate GUACLOG_MAX_KEYS \<lparr>keydef = None, key_pressed = False\<rparr>\<rparr>)"

text \<open>The definition of a tracked key.\<close>

definition key_at :: "guaclog_state \<Rightarrow> nat \<Rightarrow> guaclog_keydef" where
  "key_at st i = the (keydef (key_states st ! i))"

definition guaclog_state_add_key :: "guaclog_state \<Rightarrow> guaclog_keydef \<Rightarrow> bool \<Rightarrow> int \<times> guaclog_state" where
  "guaclog_state_add_key st kd pressed =
     (case find (\<lambda>i. keysym (key_at st i) = keysym kd) [0..<active_keys st] of
        Some i \<Rightarrow> (0, st\<lparr>key_states := (key_states st)[i := \<lparr>keydef = Some kd, key_pressed = pressed\<rparr>]\<rparr>)
      | None \<Rightarrow>
          if active_keys st = GUACLOG_MAX_KEYS then (1, st)
          else (0, st\<lparr>active_keys := active_keys st + 1,
                     key_states := (key_states st)[active_keys st := \<lparr>keydef = Some kd, key_pressed = pressed\<rparr>]\<rparr>))"

primrec trim_loop :: "guaclog_key_state list \<Rightarrow> nat \<Rightarrow> nat" where
  "trim_loop ks 0 = 0"
| "trim_loop ks (Suc i) = (if key_pressed (ks ! i) then i + 1 else trim_loop ks i)"

definition guaclog_state_trim_keys :: "guaclog_state \<Rightarrow> guaclog_state" where
  "guaclog_state_trim_keys st = st\<lparr>active_keys := trim_loop (key_states st) (active_keys st)\<rparr>"

definition guaclog_state_is_shortcut :: "guaclog_state \<Rightarrow> bool" where
  "guaclog_state_is_shortcut st = list_ex (\<lambda>i. kvalue (key_at st i) = None) [0..<active_keys st]"

text \<open>What the loop over the tracked keys prints.\<close>

definition shortcut_names :: "guaclog_state \<Rightarrow> byte list" where
  "shortcut_names st =
     concat (map (\<lambda>i. if i = 0 then kname (key_at st i) else cstr ''+'' @ kname (key_at st i)) [0..<active_keys st])"

definition log_print :: "byte list \<Rightarrow> guaclog_state \<Rightarrow> guaclog_state" where
  "log_print text st = st\<lparr>log_output := log_output st @ text\<rparr>"

definition guaclog_state_update_key :: "byte list \<Rightarrow> guaclog_state \<Rightarrow> int \<Rightarrow> bool \<Rightarrow> (int \<times> guaclog_state) option" where
  "guaclog_state_update_key buf st ksym pressed =
     (let kd = guaclog_keydef_alloc buf ksym in
      if modifier kd then
        (case guaclog_state_add_key st kd pressed of (r, st) \<Rightarrow>
           Some (0, if r \<noteq> 0 then st else guaclog_state_trim_keys st))
      else if pressed then
        if guaclog_state_is_shortcut st then
          (case kvalue kd of
             None \<Rightarrow> None
           | Some v \<Rightarrow> Some (0, log_print (cstr ''<'' @ shortcut_names st @ v @ cstr ''>'') st))
        else
          (case kvalue kd of
             Some v \<Rightarrow> Some (0, log_print v st)
           | None \<Rightarrow> Some (0, log_print (cstr ''<'' @ kname kd @ cstr ''>'') st))
      else Some (0, st))"

subsection \<open>Instructions\<close>

definition guaclog_handle_key :: "byte list \<Rightarrow> guaclog_state \<Rightarrow> byte list list \<Rightarrow> (int \<times> guaclog_state) option" where
  "guaclog_handle_key buf st argv =
     (if length argv < 2 then Some (1, st)
      else guaclog_state_update_key buf st (atoi (argv ! 0)) (atoi (argv ! 1) \<noteq> 0))"

definition guaclog_instruction_handler_map ::
    "byte list \<Rightarrow> (byte list \<times> (guaclog_state \<Rightarrow> byte list list \<Rightarrow> (int \<times> guaclog_state) option)) list" where
  "guaclog_instruction_handler_map buf = [(cstr ''key'', guaclog_handle_key buf)]"

definition guaclog_handle_instruction ::
    "byte list \<Rightarrow> guaclog_state \<Rightarrow> byte list \<Rightarrow> byte list list \<Rightarrow> (int \<times> guaclog_state) option" where
  "guaclog_handle_instruction buf st name argv =
     (case map_of (guaclog_instruction_handler_map buf) name of
        None \<Rightarrow> Some (0, st)
      | Some handler \<Rightarrow> handler st argv)"

text \<open>The loop of \<open>guaclog_read_instructions\<close>.\<close>

partial_function (option) guaclog_read_loop ::
    "byte list \<Rightarrow> guac_parser \<Rightarrow> 's guac_socket \<Rightarrow> guaclog_state \<Rightarrow> (guaclog_state \<times> guac_parser \<times> 's guac_socket) option" where
  "guaclog_read_loop buf parser socket st =
     Option.bind (guac_parser_read parser socket (- 1)) (\<lambda>(r, parser, socket).
       if r \<noteq> 0 then Some (st, parser, socket)
       else
         Option.bind (guaclog_handle_instruction buf st (hd (parser_elements parser)) (tl (parser_elements parser)))
           (\<lambda>(r, st). guaclog_read_loop buf parser socket st))"

section \<open>Looking up a key\<close>

lemma known_keys_sorted: "sorted_wrt (<) (map keysym known_keys)"
proof -
  have "successively (<) (map keysym known_keys)" by (simp add: known_keys_def known_key_def)
  then show ?thesis by (simp add: successively_iff_sorted_wrt_strong)
qed

lemma known_keys_range: "list_all (\<lambda>d. 0xFE03 \<le> keysym d \<and> keysym d \<le> 0xFFFF) known_keys"
  by (simp add: known_keys_def known_key_def)

lemma get_known_key_find:
  assumes "in_s32 k"
  shows "guaclog_get_known_key k = find (\<lambda>d. keysym d = k) known_keys"
proof -
  define cmp where "cmp = (\<lambda>i. guaclog_keydef_bsearch_compare k (known_keys ! i))"
  define n where "n = length known_keys"
  have r: "0xFE03 \<le> keysym (known_keys ! i) \<and> keysym (known_keys ! i) \<le> 0xFFFF" if "i < n" for i
    using known_keys_range that by (simp add: list_all_length n_def)
  have lt: "keysym (known_keys ! i) < keysym (known_keys ! j)" if "i < j" "j < n" for i j
    using sorted_wrt_nth_less[OF known_keys_sorted that(1)] that by (simp add: n_def)
  have l: "guaclog_get_known_key k = map_option (\<lambda>i. known_keys ! i) (bsearch cmp 0 n)"
    by (simp add: guaclog_get_known_key_def cmp_def n_def)
  show ?thesis
  proof (cases "\<exists>i < n. keysym (known_keys ! i) = k")
    case True
    then obtain i where i: "i < n" "keysym (known_keys ! i) = k" by blast
    have c: "cmp j = k - keysym (known_keys ! j)" if "j < n" for j
      using r[OF that] r[OF i(1)] i(2) by (simp add: cmp_def guaclog_keydef_bsearch_compare_def)
    have "bsearch cmp 0 n = Some i"
    proof (rule bsearch_finds)
      fix a b assume "a < b" "b < n"
      then show "cmp b < cmp a" using lt[of a b] c by simp
    qed (use i c in simp_all)
    moreover have "keysym (known_keys ! j) \<noteq> k" if "j < i" for j using lt[OF that i(1)] i(2) by simp
    then have "find (\<lambda>d. keysym d = k) known_keys = Some (known_keys ! i)"
      using i by (auto simp: find_Some_iff n_def)
    ultimately show ?thesis by (simp add: l)
  next
    case False
    have "bsearch cmp 0 n = None"
    proof (rule ccontr)
      assume "bsearch cmp 0 n \<noteq> None"
      then obtain i where "bsearch cmp 0 n = Some i" by blast
      then have i: "cmp i = 0" "i < n" using bsearch_zero by blast+
      have "(k - keysym (known_keys ! i)) mod 4294967296 = 0"
        using s32_mod[of "k - keysym (known_keys ! i)"] i(1) by (simp add: cmp_def guaclog_keydef_bsearch_compare_def)
      moreover have "- 4294967296 < k - keysym (known_keys ! i)" "k - keysym (known_keys ! i) < 4294967296"
        using assms r[OF i(2)] by (auto simp: in_s32_def)
      ultimately have "k - keysym (known_keys ! i) = 0"
        using dvd_imp_le_int[of "k - keysym (known_keys ! i)" 4294967296] by (auto simp: dvd_eq_mod_eq_0)
      then have "k = keysym (known_keys ! i)" by simp
      with False i(2) show False by blast
    qed
    moreover have "find (\<lambda>d. keysym d = k) known_keys = None"
      using False by (auto simp: find_None_iff in_set_conv_nth n_def)
    ultimately show ?thesis by (simp add: l)
  qed
qed

lemma or_low16: "(k :: int) OR 65535 = k div 65536 * 65536 + 65535"
proof -
  have "k OR mask 16 = push_bit 16 (drop_bit 16 k) OR mask 16" by (rule bit_eqI) (auto simp: bit_simps)
  also have "\<dots> = drop_bit 16 k * 2 ^ 16 + mask 16" by (rule or_low_bits) (simp_all add: mask_eq_exp_minus_1)
  finally show ?thesis by (simp add: mask_eq_exp_minus_1 drop_bit_eq_div)
qed

lemma and_low16: "(k :: int) AND 65535 = k mod 65536"
  using take_bit_eq_mask[of 16 k] by (simp add: mask_eq_exp_minus_1 take_bit_eq_mod)

text \<open>The code points a keysym can stand for.\<close>

definition unicode_keysym :: "int \<Rightarrow> bool" where
  "unicode_keysym k = (0 \<le> k \<and> (k \<le> 0xFF \<or> k div 65536 = 0x0100))"

lemma unicode_keysym_test: "unicode_keysym k \<longleftrightarrow> \<not> (k < 0 \<or> (k > 0xFF \<and> (k OR 0xFFFF) \<noteq> 0x0100FFFF))"
  by (auto simp: unicode_keysym_def or_low16)

lemma utf8_ref_nonzero:
  assumes "0 < cp" "cp \<le> 0xFFFF"
  shows "0 \<notin> set (utf8_ref cp)" "length (utf8_ref cp) \<le> 3"
proof -
  have nz: "(word_of_int x :: byte) \<noteq> 0" if "0 < x" "x < 256" for x
    using uint_byte[of x] that by auto
  consider "cp \<le> 0x7F" | "0x7F < cp" "cp \<le> 0x7FF" | "0x7FF < cp" by linarith
  then show "0 \<notin> set (utf8_ref cp)"
  proof cases
    case 1
    with nz[of cp] assms show ?thesis by (simp add: utf8_ref_def)
  next
    case 2
    have "cp div 64 < 32" using 2 by linarith
    moreover have "0 \<le> cp div 64" using 2 by simp
    moreover have "0 \<le> cp mod 64" "cp mod 64 < 64" by simp_all
    ultimately show ?thesis using nz[of "192 + cp div 64"] nz[of "128 + cp mod 64"] 2 by (auto simp: utf8_ref_def)
  next
    case 3
    have "cp div 4096 < 16" using assms by linarith
    moreover have "0 \<le> cp div 4096" using 3 by simp
    moreover have "0 \<le> cp mod 64" "cp mod 64 < 64" "0 \<le> cp div 64 mod 64" "cp div 64 mod 64 < 64" by simp_all
    ultimately show ?thesis
      using nz[of "224 + cp div 4096"] nz[of "128 + cp div 64 mod 64"] nz[of "128 + cp mod 64"] 3 assms
      by (auto simp: utf8_ref_def)
  qed
  show "length (utf8_ref cp) \<le> 3" using assms by (simp add: utf8_ref_def)
qed

lemma get_unicode_key_utf8:
  assumes "unicode_keysym k" "k mod 65536 \<noteq> 0" "length buf = 8"
  defines "cp \<equiv> k mod 65536"
  shows "guaclog_get_unicode_key buf k = Some \<lparr>keysym = k, kname = utf8_ref cp, kvalue = Some (utf8_ref cp), modifier = False\<rparr>"
proof -
  have cp: "0 < cp" "cp \<le> 0xFFFF" "k AND 0xFFFF = cp"
    using assms(2) by (auto simp: cp_def and_low16 less_le)
  define n :: nat where "n = (if cp \<le> 0x007F then 1 else if cp \<le> 0x7FF then 2 else 3)"
  define b where "b = mem_write (buf[n := 0]) 0 (utf8_ref cp)"
  have n: "length (utf8_ref cp) = n" using cp by (simp add: utf8_ref_def n_def)
  have w: "guac_utf8_write cp (buf[n := 0]) 8 = (int n, b)"
    using guac_utf8_write_ref[of cp 8 "buf[n := 0]"] cp utf8_ref_nonzero(2)[OF cp(1,2)] assms(3) n by (simp add: b_def)
  have "cstr_at b 0 = utf8_ref cp"
    using utf8_ref_nonzero[OF cp(1,2)] assms(3) n by (intro cstr_at_prefix) (auto simp: b_def nth_mem_write)
  moreover have "guaclog_get_unicode_key buf k =
      Some \<lparr>keysym = k, kname = cstr_at b 0, kvalue = Some (cstr_at b 0), modifier = False\<rparr>"
    using w cp assms(1)[unfolded unicode_keysym_test]
    by (auto simp: guaclog_get_unicode_key_def guac_utf8_write_def n_def Let_def split: prod.splits if_splits)
  ultimately show ?thesis by simp
qed

section \<open>The keys held down, abstractly\<close>

text \<open>A list of keys with their states, oldest first, without released keys at its end.\<close>

type_synonym tracked_keys = "(guaclog_keydef \<times> bool) list"

definition trim :: "tracked_keys \<Rightarrow> tracked_keys" where
  "trim xs = rev (dropWhile (\<lambda>(k, p). \<not> p) (rev xs))"

definition track :: "guaclog_keydef \<Rightarrow> bool \<Rightarrow> tracked_keys \<Rightarrow> tracked_keys" where
  "track kd p xs =
     (if keysym kd \<in> keysym ` fst ` set xs
      then trim (map (\<lambda>(k, q). if keysym k = keysym kd then (kd, p) else (k, q)) xs)
      else if length xs = GUACLOG_MAX_KEYS then xs else trim (xs @ [(kd, p)]))"

definition joined_names :: "tracked_keys \<Rightarrow> byte list" where
  "joined_names xs = (case xs of [] \<Rightarrow> [] | (k, p) # xs \<Rightarrow> kname k @ concat (map (\<lambda>(k, p). 43 # kname k) xs))"

definition key_text :: "tracked_keys \<Rightarrow> guaclog_keydef \<Rightarrow> byte list option" where
  "key_text xs kd =
     (if \<exists>(k, p) \<in> set xs. kvalue k = None
      then map_option (\<lambda>v. cstr ''<'' @ joined_names xs @ v @ cstr ''>'') (kvalue kd)
      else Some (case kvalue kd of Some v \<Rightarrow> v | None \<Rightarrow> cstr ''<'' @ kname kd @ cstr ''>''))"

text \<open>What an event does: the keys tracked afterwards and the text logged.\<close>

definition key_event :: "tracked_keys \<Rightarrow> guaclog_keydef \<Rightarrow> bool \<Rightarrow> (tracked_keys \<times> byte list) option" where
  "key_event xs kd p =
     (if modifier kd then Some (track kd p xs, [])
      else if p then map_option (\<lambda>t. (xs, t)) (key_text xs kd)
      else Some (xs, []))"

definition key_pair :: "guaclog_key_state \<Rightarrow> guaclog_keydef \<times> bool" where
  "key_pair k = (the (keydef k), key_pressed k)"

definition tracked :: "guaclog_state \<Rightarrow> tracked_keys" where
  "tracked st = map key_pair (take (active_keys st) (key_states st))"

definition tracking_ok :: "guaclog_state \<Rightarrow> bool" where
  "tracking_ok st = (length (key_states st) = GUACLOG_MAX_KEYS \<and> active_keys st \<le> GUACLOG_MAX_KEYS
     \<and> (\<forall>i < active_keys st. keydef (key_states st ! i) \<noteq> None)
     \<and> distinct (map (keysym \<circ> fst) (tracked st)) \<and> list_all (modifier \<circ> fst) (tracked st)
     \<and> (tracked st \<noteq> [] \<longrightarrow> snd (last (tracked st))))"

lemma tracked_length: "tracking_ok st \<Longrightarrow> length (tracked st) = active_keys st"
  by (simp add: tracked_def tracking_ok_def)

lemma tracked_nth:
  assumes "tracking_ok st" "i < active_keys st"
  shows "tracked st ! i = (key_at st i, key_pressed (key_states st ! i))"
  using assms by (simp add: tracked_def tracking_ok_def key_at_def key_pair_def)

lemma trim_prefix: "\<exists>ys. xs = trim xs @ ys"
  unfolding trim_def by (metis rev_append rev_rev_ident takeWhile_dropWhile_id)

lemma trim_last: "trim xs \<noteq> [] \<Longrightarrow> snd (last (trim xs))"
  using hd_dropWhile[of "\<lambda>(k, p). \<not> p" "rev xs"] by (auto simp: trim_def last_rev case_prod_unfold)

lemma trim_loop_trim:
  assumes "n \<le> length ks"
  shows "map key_pair (take (trim_loop ks n) ks) = trim (map key_pair (take n ks)) \<and> trim_loop ks n \<le> n"
  using assms
proof (induction n)
  case (Suc n)
  then have t: "take (Suc n) ks = take n ks @ [ks ! n]" by (simp add: take_Suc_conv_app_nth)
  show ?case
  proof (cases "key_pressed (ks ! n)")
    case True
    then have "trim (map key_pair (take (Suc n) ks)) = map key_pair (take (Suc n) ks)" by (simp add: t trim_def key_pair_def)
    with True show ?thesis by simp
  next
    case False
    then have "trim (map key_pair (take (Suc n) ks)) = trim (map key_pair (take n ks))" by (simp add: t trim_def key_pair_def)
    with False Suc show ?thesis by simp
  qed
qed (simp add: trim_def)

lemma trim_keys_tracked:
  assumes "active_keys st \<le> length (key_states st)"
  shows "tracked (guaclog_state_trim_keys st) = trim (tracked st)"
    "active_keys (guaclog_state_trim_keys st) \<le> active_keys st"
    "key_states (guaclog_state_trim_keys st) = key_states st" "log_output (guaclog_state_trim_keys st) = log_output st"
  using trim_loop_trim[OF assms] by (simp_all add: guaclog_state_trim_keys_def tracked_def)

lemma trim_keys_ok:
  assumes "length (key_states st) = GUACLOG_MAX_KEYS" "active_keys st \<le> GUACLOG_MAX_KEYS"
    and "\<forall>i < active_keys st. keydef (key_states st ! i) \<noteq> None"
    and "distinct (map (keysym \<circ> fst) (tracked st))" "list_all (modifier \<circ> fst) (tracked st)"
  shows "tracking_ok (guaclog_state_trim_keys st)"
proof -
  obtain ys where ys: "tracked st = trim (tracked st) @ ys" using trim_prefix by blast
  have a: "active_keys st \<le> length (key_states st)" using assms(1,2) by simp
  define xs where "xs = trim (tracked st)"
  have "distinct (map (keysym \<circ> fst) xs)" "list_all (modifier \<circ> fst) xs"
    using assms(4,5) unfolding ys[folded xs_def] by simp_all
  then show ?thesis
    using assms(1-3) trim_keys_tracked[OF a] trim_last[of "tracked st"] unfolding tracking_ok_def xs_def by simp
qed

lemma update_unique:
  assumes "distinct (map (keysym \<circ> fst) xs)" "i < length xs" "keysym (fst (xs ! i)) = keysym kd"
  shows "xs[i := (kd, p)] = map (\<lambda>(k, q). if keysym k = keysym kd then (kd, p) else (k, q)) xs"
proof (rule nth_equalityI)
  fix j assume "j < length (xs[i := (kd, p)])"
  then have j: "j < length xs" by simp
  have "keysym (fst (xs ! j)) \<noteq> keysym kd" if "j \<noteq> i"
    using nth_eq_iff_index_eq[OF assms(1), of i j] assms(2,3) j that by auto
  then show "xs[i := (kd, p)] ! j = map (\<lambda>(k, q). if keysym k = keysym kd then (kd, p) else (k, q)) xs ! j"
    using j assms(2,3) by (cases "j = i") (auto simp: case_prod_unfold)
qed simp

lemma tracked_upt:
  "tracking_ok st \<Longrightarrow> tracked st = map (\<lambda>i. (key_at st i, key_pressed (key_states st ! i))) [0..<active_keys st]"
  using tracked_nth[of st] tracked_length[of st] by (intro nth_equalityI) auto

lemma keys_in_tracked:
  assumes "tracking_ok st"
  shows "keysym kd \<in> keysym ` fst ` set (tracked st) \<longleftrightarrow> (\<exists>i < active_keys st. keysym (key_at st i) = keysym kd)"
  by (force simp: tracked_upt[OF assms] image_iff)

lemma add_key_track:
  assumes ok: "tracking_ok st" and "modifier kd" "guaclog_state_add_key st kd p = (r, st')"
  shows "(if r \<noteq> 0 then st' = st \<and> track kd p (tracked st) = tracked st
     else tracking_ok (guaclog_state_trim_keys st') \<and> tracked (guaclog_state_trim_keys st') = track kd p (tracked st)
       \<and> log_output st' = log_output st)"
proof -
  let ?e = "\<lparr>keydef = Some kd, key_pressed = p\<rparr>"
  have b: "length (key_states st) = GUACLOG_MAX_KEYS" "active_keys st \<le> GUACLOG_MAX_KEYS"
    "\<forall>i < active_keys st. keydef (key_states st ! i) \<noteq> None"
    "distinct (map (keysym \<circ> fst) (tracked st))" "list_all (modifier \<circ> fst) (tracked st)"
    using ok by (simp_all add: tracking_ok_def)
  show ?thesis
  proof (cases "find (\<lambda>i. keysym (key_at st i) = keysym kd) [0..<active_keys st]")
    case (Some i)
    then have i: "i < active_keys st" "keysym (key_at st i) = keysym kd"
      by (auto simp: find_Some_iff)
    let ?st = "st\<lparr>key_states := (key_states st)[i := ?e]\<rparr>"
    have f: "fst (tracked st ! i) = key_at st i" using tracked_nth[OF ok i(1)] by simp
    have t: "tracked ?st = map (\<lambda>(k, q). if keysym k = keysym kd then (kd, p) else (k, q)) (tracked st)"
      using update_unique[OF b(4), of i kd p] i f tracked_length[OF ok]
      by (simp add: tracked_def take_update_swap map_update key_pair_def)
    have ks: "map (keysym \<circ> fst) (tracked ?st) = map (keysym \<circ> fst) (tracked st)" by (auto simp: t)
    have m: "list_all (modifier \<circ> fst) (tracked ?st)" using b(5) assms(2) by (auto simp: t list_all_iff)
    have d: "distinct (map (keysym \<circ> fst) (tracked ?st))" using b(4) by (simp only: ks)
    have "tracking_ok (guaclog_state_trim_keys ?st)"
      by (rule trim_keys_ok[OF _ _ _ d m]) (use b(1-3) i in \<open>auto simp: nth_list_update\<close>)
    moreover have "tracked (guaclog_state_trim_keys ?st) = track kd p (tracked st)"
      using trim_keys_tracked(1)[of ?st] b(1,2) keys_in_tracked[OF ok, of kd] i by (auto simp: t track_def)
    moreover have "(r, st') = (0, ?st)" using assms(3) Some by (simp add: guaclog_state_add_key_def)
    ultimately show ?thesis by simp
  next
    case None
    then have new: "keysym kd \<notin> keysym ` fst ` set (tracked st)"
      using keys_in_tracked[OF ok, of kd] by (auto simp: find_None_iff)
    show ?thesis
    proof (cases "active_keys st = GUACLOG_MAX_KEYS")
      case True
      then have "(r, st') = (1, st)" using assms(3) None by (simp add: guaclog_state_add_key_def)
      then show ?thesis using True new tracked_length[OF ok] by (simp add: track_def)
    next
      case False
      let ?a = "active_keys st"
      let ?st = "st\<lparr>active_keys := Suc ?a, key_states := (key_states st)[?a := ?e]\<rparr>"
      have a: "?a < GUACLOG_MAX_KEYS" using False b(2) by simp
      have t: "tracked ?st = tracked st @ [(kd, p)]"
        using a b(1) by (simp add: tracked_def take_Suc_conv_app_nth key_pair_def)
      have "tracking_ok (guaclog_state_trim_keys ?st)"
        using a b new assms(2) by (intro trim_keys_ok) (auto simp: t nth_list_update less_Suc_eq comp_def image_image)
      moreover have "tracked (guaclog_state_trim_keys ?st) = track kd p (tracked st)"
        using trim_keys_tracked(1)[of ?st] a b(1) new tracked_length[OF ok] by (simp add: t track_def)
      moreover have "(r, st') = (0, ?st)" using assms(3) None False by (simp add: guaclog_state_add_key_def)
      ultimately show ?thesis by simp
    qed
  qed
qed

lemma shortcut_tracked:
  assumes "tracking_ok st"
  shows "guaclog_state_is_shortcut st \<longleftrightarrow> (\<exists>(k, p) \<in> set (tracked st). kvalue k = None)"
    "shortcut_names st = joined_names (tracked st)"
proof -
  note t = tracked_upt[OF assms]
  show "guaclog_state_is_shortcut st \<longleftrightarrow> (\<exists>(k, p) \<in> set (tracked st). kvalue k = None)"
    by (auto simp: guaclog_state_is_shortcut_def list_ex_iff t)
  show "shortcut_names st = joined_names (tracked st)"
  proof (cases "active_keys st")
    case (Suc n)
    have u: "[0..<active_keys st] = 0 # [Suc 0..<Suc n]" using Suc by (simp add: upt_conv_Cons del: upt_Suc)
    have "map (\<lambda>i. if i = 0 then kname (key_at st i) else cstr ''+'' @ kname (key_at st i)) [Suc 0..<Suc n]
        = map (\<lambda>i. 43 # kname (key_at st i)) [Suc 0..<Suc n]"
      by (rule map_cong) auto
    then have m: "shortcut_names st = kname (key_at st 0) @ concat (map (\<lambda>i. 43 # kname (key_at st i)) [Suc 0..<Suc n])"
      unfolding shortcut_names_def u list.map concat.simps by (simp only: simp_thms if_True)
    show ?thesis unfolding m joined_names_def t u by (simp add: comp_def case_prod_unfold del: upt_Suc)
  qed (simp add: shortcut_names_def joined_names_def t)
qed

lemma update_key_event:
  assumes "tracking_ok st"
  shows "map_option (\<lambda>(r, st'). (tracked st', log_output st')) (guaclog_state_update_key buf st k p)
      = map_option (\<lambda>(xs, t). (xs, log_output st @ t)) (key_event (tracked st) (guaclog_keydef_alloc buf k) p)"
    "guaclog_state_update_key buf st k p = Some (r, st') \<Longrightarrow> r = 0 \<and> tracking_ok st'"
proof -
  let ?kd = "guaclog_keydef_alloc buf k"
  obtain q st1 where a: "guaclog_state_add_key st ?kd p = (q, st1)" by fastforce
  have l: "tracked (log_print t st) = tracked st" "tracking_ok (log_print t st)" "log_output (log_print t st) = log_output st @ t" for t
    using assms by (simp_all add: log_print_def tracked_def tracking_ok_def)
  have m: "q \<noteq> 0 \<Longrightarrow> st1 = st \<and> track ?kd p (tracked st) = tracked st"
    "q = 0 \<Longrightarrow> tracking_ok (guaclog_state_trim_keys st1) \<and> tracked (guaclog_state_trim_keys st1) = track ?kd p (tracked st)
      \<and> log_output (guaclog_state_trim_keys st1) = log_output st" if "modifier ?kd"
    using add_key_track[OF assms that a] by (auto simp: guaclog_state_trim_keys_def split: if_splits)
  show "map_option (\<lambda>(r, st'). (tracked st', log_output st')) (guaclog_state_update_key buf st k p)
      = map_option (\<lambda>(xs, t). (xs, log_output st @ t)) (key_event (tracked st) ?kd p)"
    using m by (auto simp: guaclog_state_update_key_def key_event_def key_text_def a l shortcut_tracked[OF assms] Let_def
        split: option.split)
  show "guaclog_state_update_key buf st k p = Some (r, st') \<Longrightarrow> r = 0 \<and> tracking_ok st'"
    using m assms l by (auto simp: guaclog_state_update_key_def a Let_def split: if_splits option.splits)
qed

section \<open>Replaying a recording\<close>

primrec log_all :: "byte list \<Rightarrow> byte list list list \<Rightarrow> guaclog_state \<Rightarrow> guaclog_state option" where
  "log_all buf [] st = Some st"
| "log_all buf (es # ess) st =
     Option.bind (guaclog_handle_instruction buf st (hd es) (tl es)) (\<lambda>(r, st). log_all buf ess st)"

context socket_file
begin

lemma log_replay:
  assumes "awaiting parser sk (concat (map encode_instruction iss))" "list_all sendable iss" "log_all buf iss st = Some st'"
  shows "\<exists>q sk'. guaclog_read_loop buf parser sk st = Some (st', q, sk')"
  using assms
proof (induction iss arbitrary: parser sk st)
  case Nil
  then obtain q sk' where "guac_parser_read parser sk (- 1) = Some (- 1, q, sk')" using read_at_end[of parser sk "- 1"] by auto
  with Nil(3) show ?case by (simp add: guaclog_read_loop.simps)
next
  case (Cons es iss)
  then obtain q1 sk1 where
    1: "guac_parser_read parser sk (- 1) = Some (0, q1, sk1)" "parser_elements q1 = es"
    "awaiting q1 sk1 (concat (map encode_instruction iss))"
    using read_next[of parser sk es "concat (map encode_instruction iss)" "- 1"] by auto
  moreover obtain r st1 where 2: "guaclog_handle_instruction buf st (hd es) (tl es) = Some (r, st1)" "log_all buf iss st1 = Some st'"
    using Cons.prems(3) by (auto simp: Option.bind_eq_Some_conv)
  moreover obtain q2 sk2 where "guaclog_read_loop buf q1 sk1 st1 = Some (st', q2, sk2)"
    using Cons.IH[OF 1(3) _ 2(2)] Cons.prems(2) by auto
  ultimately show ?case by (subst guaclog_read_loop.simps) simp
qed

end

lemma handle_key_cases:
  "guaclog_handle_instruction buf st name argv =
     (if name = cstr ''key'' \<and> 2 \<le> length argv
      then guaclog_state_update_key buf st (atoi (argv ! 0)) (atoi (argv ! 1) \<noteq> 0)
      else Some (if name = cstr ''key'' then 1 else 0, st))"
  by (auto simp: guaclog_handle_instruction_def guaclog_instruction_handler_map_def guaclog_handle_key_def simp del: cstr_simps)

text \<open>The instruction of a key event, with its timestamp, and the text a sequence of events types.\<close>

type_synonym key_press = "int \<times> bool \<times> int"

definition key_instruction :: "key_press \<Rightarrow> byte list list" where
  "key_instruction = (\<lambda>(k, p, ts). [cstr ''key'', num k, cstr (if p then ''1'' else ''0''), num ts])"

definition typed_text :: "byte list \<Rightarrow> key_press list \<Rightarrow> byte list" where
  "typed_text buf evs = concat (map (\<lambda>(k, p, ts).
     if p \<and> \<not> modifier (guaclog_keydef_alloc buf k) then the (kvalue (guaclog_keydef_alloc buf k)) else []) evs)"

text \<open>Events of keys that have a value: printable ones, and Shift and AltGr.\<close>

definition typing :: "byte list \<Rightarrow> key_press \<Rightarrow> bool" where
  "typing buf = (\<lambda>(k, p, ts). in_s32 k \<and> kvalue (guaclog_keydef_alloc buf k) \<noteq> None)"

lemma num_in_s32: "in_s32 k \<Longrightarrow> num k = dec_int k"
  by (simp add: num_def in_s32_def)

lemma key_instruction_sendable:
  assumes "in_s32 k"
  shows "sendable (key_instruction (k, p, ts))"
proof -
  have "length (num i) \<le> 100 \<and> list_all (\<lambda>c. 0 < c \<and> c < 128) (num i)" for i
    using length_dec_s64[of i] dec_int_ascii[of _ "s64 i"] byte_exhaust[of "\<lambda>c. is_digit c \<longrightarrow> 0 < c \<and> c < 128"]
    by (auto simp: num_def list_all_iff is_digit_def word_less_nat_alt word_le_nat_alt dest!: dec_int_ascii)
  then show ?thesis by (auto simp: key_instruction_def intro!: ascii_sendable)
qed

lemma trim_subset: "set (trim xs) \<subseteq> set xs"
proof -
  obtain ys where "xs = trim xs @ ys" using trim_prefix by blast
  then show ?thesis by (metis set_append Un_upper1)
qed

lemma track_values:
  assumes "\<forall>(k, q) \<in> set xs. kvalue k \<noteq> None" "kvalue kd \<noteq> None"
  shows "\<forall>(k, q) \<in> set (track kd p xs). kvalue k \<noteq> None"
proof -
  let ?P = "\<lambda>ys. \<forall>x \<in> set ys. kvalue (fst x) \<noteq> None"
  have t: "?P ys \<Longrightarrow> ?P (trim ys)" for ys using trim_subset[of ys] by blast
  have "?P (map (\<lambda>(k, q). if keysym k = keysym kd then (kd, p) else (k, q)) xs)" "?P (xs @ [(kd, p)])" "?P xs"
    using assms by auto
  from t[OF this(1)] t[OF this(2)] this(3) have "?P (track kd p xs)" by (simp only: track_def split: if_split) blast
  then show ?thesis by auto
qed

lemma typed_text_log:
  assumes "tracking_ok st" "\<forall>(k, q) \<in> set (tracked st). kvalue k \<noteq> None" "list_all (typing buf) evs"
  shows "\<exists>st'. log_all buf (map key_instruction evs) st = Some st' \<and> log_output st' = log_output st @ typed_text buf evs"
  using assms
proof (induction evs arbitrary: st)
  case (Cons ev evs)
  obtain k p ts where ev: "ev = (k, p, ts)" by (cases ev) auto
  let ?kd = "guaclog_keydef_alloc buf k"
  obtain v where k: "in_s32 k" "kvalue ?kd = Some v" using Cons.prems(3) by (auto simp: ev typing_def)
  have a: "atoi (num k) = k" using k(1) atoi_dec_int by (simp add: num_in_s32)
  have b: "atoi (cstr ''1'') = 1" "atoi (cstr ''0'') = 0"
    using atoi_dec_int[of 1] atoi_dec_int[of 0] by (simp_all add: in_s32_def dec_int_def dec_nat.simps)
  have h: "guaclog_handle_instruction buf st (hd (key_instruction ev)) (tl (key_instruction ev)) = guaclog_state_update_key buf st k p"
    by (simp add: ev key_instruction_def handle_key_cases a b del: cstr_simps)
  define xs where "xs = (if modifier ?kd then track ?kd p (tracked st) else tracked st)"
  define t where "t = (if p \<and> \<not> modifier ?kd then v else [])"
  have "key_event (tracked st) ?kd p = Some (xs, t)"
    using Cons.prems(2) k(2) by (auto simp: key_event_def key_text_def xs_def t_def)
  then obtain r st1 where 1: "guaclog_state_update_key buf st k p = Some (r, st1)" "tracked st1 = xs" "log_output st1 = log_output st @ t"
    using update_key_event(1)[OF Cons.prems(1), of buf k p] by auto
  have "\<forall>(k, q) \<in> set (tracked st1). kvalue k \<noteq> None"
    using track_values[OF Cons.prems(2), of ?kd p] Cons.prems(2) k(2) by (simp add: 1(2) xs_def)
  with Cons.IH[of st1] update_key_event(2)[OF Cons.prems(1) 1(1)] Cons.prems(3) obtain st' where
    "log_all buf (map key_instruction evs) st1 = Some st'" "log_output st' = log_output st1 @ typed_text buf evs" by auto
  moreover have "typed_text buf (ev # evs) = t @ typed_text buf evs" using k(2) by (simp add: typed_text_def ev t_def)
  ultimately show ?case using h 1 by simp
qed (simp add: typed_text_def)

section \<open>Properties\<close>

text \<open>
  C16. What a key is: for every \<open>int\<close> the binary search over the table of known keys finds exactly the entry
  a search from the start finds; and a key that is not in the table but stands for a code point other than
  zero is named by, and types, the UTF-8 encoding that \<open>guac_utf8_write\<close> gives of it.
\<close>

theorem keydef_lookup:
  assumes "in_s32 k" "length buf = 8"
  shows "guaclog_get_known_key k = find (\<lambda>d. keysym d = k) known_keys
    \<and> (guaclog_get_known_key k = None \<and> unicode_keysym k \<and> k mod 65536 \<noteq> 0 \<longrightarrow>
        kvalue (guaclog_keydef_alloc buf k) = Some (kname (guaclog_keydef_alloc buf k))
        \<and> guac_utf8_write (k mod 65536) (replicate 8 0) 8
          = (int (length (kname (guaclog_keydef_alloc buf k))),
             kname (guaclog_keydef_alloc buf k) @ replicate (8 - length (kname (guaclog_keydef_alloc buf k))) 0)
        \<and> \<not> modifier (guaclog_keydef_alloc buf k))"
proof (intro conjI impI)
  show "guaclog_get_known_key k = find (\<lambda>d. keysym d = k) known_keys" by (rule get_known_key_find[OF assms(1)])
next
  assume h: "guaclog_get_known_key k = None \<and> unicode_keysym k \<and> k mod 65536 \<noteq> 0"
  let ?cp = "k mod 65536"
  have cp: "0 < ?cp" "?cp \<le> 0xFFFF" using h by (auto simp: less_le)
  have "guaclog_keydef_alloc buf k = \<lparr>keysym = k, kname = utf8_ref ?cp, kvalue = Some (utf8_ref ?cp), modifier = False\<rparr>"
    using h get_unicode_key_utf8[of k buf] assms(2) by (simp add: guaclog_keydef_alloc_def guaclog_copy_key_def)
  moreover have "guac_utf8_write ?cp (replicate 8 0) 8 = (int (length (utf8_ref ?cp)), mem_write (replicate 8 0) 0 (utf8_ref ?cp))"
    using utf8_ref_nonzero(2)[OF cp] cp by (intro guac_utf8_write_ref) auto
  ultimately show "kvalue (guaclog_keydef_alloc buf k) = Some (kname (guaclog_keydef_alloc buf k))"
    "guac_utf8_write ?cp (replicate 8 0) 8
      = (int (length (kname (guaclog_keydef_alloc buf k))),
         kname (guaclog_keydef_alloc buf k) @ replicate (8 - length (kname (guaclog_keydef_alloc buf k))) 0)"
    "\<not> modifier (guaclog_keydef_alloc buf k)"
    by (simp_all add: mem_write_def)
qed

theorem keydef_lookup_witness:
  "guaclog_get_known_key 0xFF0D = Some (known_key 0xFF0D ''Return'' (Some [10]) False)
   \<and> guaclog_get_known_key 0x010020AC = None"
proof
  show "guaclog_get_known_key 0xFF0D = Some (known_key 0xFF0D ''Return'' (Some [10]) False)"
    using keydef_lookup[of "0xFF0D" "replicate 8 0"] by (simp add: in_s32_def known_keys_def known_key_def)
  show "guaclog_get_known_key 0x010020AC = None"
    using keydef_lookup[of "0x010020AC" "replicate 8 0"] by (simp add: in_s32_def known_keys_def known_key_def)
qed

text \<open>The states of an interpreter, from its creation on.\<close>

inductive logging :: "byte list \<Rightarrow> guaclog_state \<Rightarrow> bool" for buf where
  created: "guaclog_state_alloc opened stream ok = Some st \<Longrightarrow> logging buf st"
| handled: "logging buf st \<Longrightarrow> guaclog_handle_instruction buf st name argv = Some (r, st') \<Longrightarrow> logging buf st'"

lemma alloc_tracking:
  assumes "guaclog_state_alloc opened stream ok = Some st"
  shows "tracking_ok st" "tracked st = []" "log_output st = []"
  using assms by (auto simp: guaclog_state_alloc_def tracking_ok_def tracked_def split: if_splits)

lemma logging_ok: "logging buf st \<Longrightarrow> tracking_ok st"
proof (induction rule: logging.induct)
  case (handled st name argv r st')
  then show ?case using update_key_event(2)[of st] by (auto simp: handle_key_cases split: if_splits)
qed (simp add: alloc_tracking)

text \<open>The text of a shortcut: the value of the key, without a plus sign before it and not its name.\<close>

lemma shortcut_without_plus:
  "key_event [(known_key 0xFFE3 ''Ctrl'' None True, True)] (guaclog_keydef_alloc (replicate 8 0) 0x61) True
    = Some ([(known_key 0xFFE3 ''Ctrl'' None True, True)], cstr ''<Ctrla>'')"
  "key_event [(known_key 0xFFE3 ''Ctrl'' None True, True)] (guaclog_keydef_alloc (replicate 8 0) 0x20) True
    = Some ([(known_key 0xFFE3 ''Ctrl'' None True, True)], cstr ''<Ctrl >'')"
  "key_event [(known_key 0xFFE3 ''Ctrl'' None True, True)] (guaclog_keydef_alloc (replicate 8 0) 0xFF0D) True
    = Some ([(known_key 0xFFE3 ''Ctrl'' None True, True)], cstr ''<Ctrl'' @ 10 # cstr ''>'')"
proof -
  have "guaclog_get_known_key 0x61 = None" "guaclog_get_known_key 0x20 = None"
    "guaclog_get_known_key 0xFF0D = Some (known_key 0xFF0D ''Return'' (Some [10]) False)"
    using get_known_key_find[of "0x61"] get_known_key_find[of "0x20"] get_known_key_find[of "0xFF0D"]
    by (simp_all add: in_s32_def known_keys_def known_key_def)
  then have k: "guaclog_keydef_alloc (replicate 8 0) 0x61 = \<lparr>keysym = 0x61, kname = [97], kvalue = Some [97], modifier = False\<rparr>"
    "guaclog_keydef_alloc (replicate 8 0) 0x20 = \<lparr>keysym = 0x20, kname = [32], kvalue = Some [32], modifier = False\<rparr>"
    "guaclog_keydef_alloc (replicate 8 0) 0xFF0D = known_key 0xFF0D ''Return'' (Some [10]) False"
    using get_unicode_key_utf8[of "0x61" "replicate 8 0"] get_unicode_key_utf8[of "0x20" "replicate 8 0"]
    by (simp_all add: guaclog_keydef_alloc_def guaclog_copy_key_def utf8_ref_def known_key_def unicode_keysym_def)
  show "key_event [(known_key 0xFFE3 ''Ctrl'' None True, True)] (guaclog_keydef_alloc (replicate 8 0) 0x61) True
    = Some ([(known_key 0xFFE3 ''Ctrl'' None True, True)], cstr ''<Ctrla>'')"
  "key_event [(known_key 0xFFE3 ''Ctrl'' None True, True)] (guaclog_keydef_alloc (replicate 8 0) 0x20) True
    = Some ([(known_key 0xFFE3 ''Ctrl'' None True, True)], cstr ''<Ctrl >'')"
  "key_event [(known_key 0xFFE3 ''Ctrl'' None True, True)] (guaclog_keydef_alloc (replicate 8 0) 0xFF0D) True
    = Some ([(known_key 0xFFE3 ''Ctrl'' None True, True)], cstr ''<Ctrl'' @ 10 # cstr ''>'')"
    by (simp_all add: k key_event_def key_text_def joined_names_def known_key_def)
qed

text \<open>
  C15. The array of key states implements a list of held modifiers: in every state the interpreter can be in,
  the first \<open>active_keys\<close> entries are distinct modifiers, at most 256, the last one pressed; and a key event does
  to them, and appends to the log, exactly what the event does to that list: a modifier is updated or
  appended and released ones are dropped from the end, a printable key is logged by its value, or behind
  the names of the held keys when one of them is not printable. This is the text that the code writes, not the
  one the manual page of \<open>guaclog\<close> documents: the value of the key follows the names without a plus sign, so that
  Ctrl and \<open>a\<close> are logged as \<open><Ctrla>\<close> where the page shows \<open><Ctrl+a>\<close>, and a space or a new line within a
  shortcut is logged as that character where the page promises its name (\<open>shortcut_without_plus\<close>).
\<close>

theorem key_tracking_refines:
  assumes "logging buf st"
  shows "tracking_ok st
    \<and> map_option (\<lambda>(r, st'). (tracked st', log_output st')) (guaclog_state_update_key buf st k p)
      = map_option (\<lambda>(xs, t). (xs, log_output st @ t)) (key_event (tracked st) (guaclog_keydef_alloc buf k) p)"
  using logging_ok[OF assms] update_key_event(1) by blast

theorem key_tracking_refines_witness:
  "\<exists>st. guaclog_state_alloc True True True = Some st \<and> logging [] st
     \<and> map_option (\<lambda>(r, st'). (tracked st', log_output st')) (guaclog_state_update_key [] st 0xFFE3 True)
       = Some ([(guaclog_keydef_alloc [] 0xFFE3, True)], [])"
proof -
  obtain st where st: "guaclog_state_alloc True True True = Some st" by (simp add: guaclog_state_alloc_def)
  have "logging [] st" by (rule logging.created[OF st])
  moreover have "guaclog_get_known_key 0xFFE3 = Some (known_key 0xFFE3 ''Ctrl'' None True)"
    using get_known_key_find[of "0xFFE3"] by (simp add: in_s32_def known_keys_def known_key_def)
  then have "modifier (guaclog_keydef_alloc [] 0xFFE3)"
    by (simp add: guaclog_keydef_alloc_def guaclog_copy_key_def known_key_def)
  ultimately show ?thesis
    using key_tracking_refines[of "[]" st "0xFFE3" True] st alloc_tracking[OF st]
    by (simp add: key_event_def track_def trim_def)
qed

text \<open>
  A shortcut with a key that types nothing is undefined: while a key without a value (such as Ctrl) is
  held, pressing a key that is neither a modifier nor has a value (such as Home or F1) passes a null pointer
  to \<open>fprintf\<close>.
\<close>

theorem shortcut_without_value:
  assumes "logging buf st" "(m, q) \<in> set (tracked st)" "kvalue m = None"
    and "\<not> modifier (guaclog_keydef_alloc buf k)" "kvalue (guaclog_keydef_alloc buf k) = None"
  shows "guaclog_state_update_key buf st k True = None"
proof -
  have "key_event (tracked st) (guaclog_keydef_alloc buf k) True = None"
    using assms(2-5) by (auto simp: key_event_def key_text_def)
  then show ?thesis using update_key_event(1)[OF logging_ok[OF assms(1)], of buf k True] by simp
qed

theorem shortcut_without_value_witness:
  "\<exists>st. logging [] st \<and> guaclog_state_update_key [] st 0xFF50 True = None"
proof -
  obtain st where st: "guaclog_state_alloc True True True = Some st" by (simp add: guaclog_state_alloc_def)
  have l: "logging [] st" by (rule logging.created[OF st])
  have "guaclog_get_known_key 0xFFE3 = Some (known_key 0xFFE3 ''Ctrl'' None True)"
    "guaclog_get_known_key 0xFF50 = Some (known_key 0xFF50 ''Home'' None False)"
    using get_known_key_find[of "0xFFE3"] get_known_key_find[of "0xFF50"] by (simp_all add: in_s32_def known_keys_def known_key_def)
  then have kd: "guaclog_keydef_alloc [] 0xFFE3 = known_key 0xFFE3 ''Ctrl'' None True"
    "guaclog_keydef_alloc [] 0xFF50 = known_key 0xFF50 ''Home'' None False"
    by (simp_all add: guaclog_keydef_alloc_def guaclog_copy_key_def known_key_def)
  have a: "atoi (num 0xFFE3) = 0xFFE3" "atoi (cstr ''1'') = 1"
    using atoi_dec_int[of "0xFFE3"] atoi_dec_int[of 1] by (simp_all add: in_s32_def num_in_s32 dec_int_def dec_nat.simps)
  have "key_event (tracked st) (guaclog_keydef_alloc [] 0xFFE3) True = Some ([(known_key 0xFFE3 ''Ctrl'' None True, True)], [])"
    using alloc_tracking[OF st] by (simp add: kd known_key_def key_event_def track_def trim_def)
  then obtain r st1 where s1: "guaclog_state_update_key [] st 0xFFE3 True = Some (r, st1)"
    "tracked st1 = [(known_key 0xFFE3 ''Ctrl'' None True, True)]"
    using update_key_event(1)[OF logging_ok[OF l], of "[]" "0xFFE3" True] by auto
  have "guaclog_handle_instruction [] st (cstr ''key'') [num 0xFFE3, cstr ''1''] = Some (r, st1)"
    using s1(1) by (simp add: handle_key_cases a del: cstr_simps)
  then have "logging [] st1" by (rule logging.handled[OF l])
  then show ?thesis
    using shortcut_without_value[of "[]" st1 "known_key 0xFFE3 ''Ctrl'' None True" True "0xFF50"] s1(2) kd
    by (auto simp: known_key_def)
qed

end
