(* ===== verification/Term_Common.thy ===== *)
theory Term_Common
  imports Guac_Unicode "HOL-Library.Monad_Syntax"
begin

text \<open>
  The types and small helpers of the terminal emulator: colours, attributes and characters
  (\<open>src/terminal/terminal/types.h\<close>, \<open>palette.h\<close>), and \<open>src/terminal/common.c\<close>.

  The terminal's code works on arrays it has allocated itself. An array is a list of its cells,
  and a cell of freshly allocated memory is \<open>None\<close> until it is stored to. An operation returns
  an \<open>option\<close>: \<open>None\<close> says that the code reads or writes outside an array, or reads a cell nobody
  has stored to, so that what it does is undefined.
\<close>

section \<open>Arrays\<close>

definition cell_get :: "'a option list \<Rightarrow> int \<Rightarrow> 'a option" where
  "cell_get cells i = (if 0 \<le> i \<and> i < int (length cells) then cells ! nat i else None)"

text \<open>Consecutive stores of a block of values.\<close>

definition block_put :: "'a list \<Rightarrow> int \<Rightarrow> 'a list \<Rightarrow> 'a list option" where
  "block_put cells i vs =
     (if 0 \<le> i \<and> i + int (length vs) \<le> int (length cells)
      then Some (mem_write cells (nat i) vs) else None)"

text \<open>
  \<open>memmove\<close> of \<open>n\<close> cells; a negative number of cells becomes an enormous \<open>size_t\<close>, and a move of
  no cells touches nothing.
\<close>

definition mem_move :: "'a list \<Rightarrow> int \<Rightarrow> int \<Rightarrow> int \<Rightarrow> 'a list option" where
  "mem_move cells dst src n =
     (if n = 0 then Some cells
      else if 0 < n \<and> 0 \<le> src \<and> src + n \<le> int (length cells)
      then block_put cells dst (take (nat n) (drop (nat src) cells))
      else None)"

lemma block_put_length: "block_put cells i vs = Some cells' \<Longrightarrow> length cells' = length cells"
  by (auto simp: block_put_def split: if_splits)

lemma block_put_nth:
  assumes "block_put cells i vs = Some cells'" and "k < length cells"
  shows "cells' ! k =
    (if i \<le> int k \<and> int k < i + int (length vs) then vs ! nat (int k - i) else cells ! k)"
proof -
  have i: "0 \<le> i" "i + int (length vs) \<le> int (length cells)"
    and eq: "cells' = mem_write cells (nat i) vs"
    using assms(1) by (auto simp: block_put_def split: if_splits)
  have "k - nat i = nat (int k - i)" using i by linarith
  moreover have "k < nat i \<longleftrightarrow> int k < i" "k < nat i + length vs \<longleftrightarrow> int k < i + int (length vs)"
    using i by linarith+
  ultimately show ?thesis
    using assms(2) i unfolding eq by (subst nth_mem_write) auto
qed

lemma mem_move_length: "mem_move cells dst src n = Some cells' \<Longrightarrow> length cells' = length cells"
  by (auto simp: mem_move_def block_put_length split: if_splits)

lemma mem_move_nth:
  assumes "mem_move cells dst src n = Some cells'" and "k < length cells"
  shows "cells' ! k =
    (if dst \<le> int k \<and> int k < dst + n then cells ! nat (int k - dst + src) else cells ! k)"
proof (cases "n = 0")
  case True
  with assms show ?thesis by (auto simp: mem_move_def)
next
  case False
  with assms(1) have n: "0 < n" "0 \<le> src" "src + n \<le> int (length cells)"
    and put: "block_put cells dst (take (nat n) (drop (nat src) cells)) = Some cells'"
    by (auto simp: mem_move_def split: if_splits)
  have len: "int (length (take (nat n) (drop (nat src) cells))) = n"
    using n by auto
  have "take (nat n) (drop (nat src) cells) ! nat (int k - dst) = cells ! nat (int k - dst + src)"
    if "dst \<le> int k" "int k < dst + n"
  proof -
    have "nat (int k - dst) < nat n" "nat src + nat (int k - dst) = nat (int k - dst + src)"
      using that n by linarith+
    then show ?thesis using n by simp
  qed
  with block_put_nth[OF put assms(2), unfolded len] show ?thesis by presburger
qed

lemma mem_move_Some:
  "0 \<le> n \<Longrightarrow> 0 \<le> src \<Longrightarrow> src + n \<le> int (length cells) \<Longrightarrow> 0 \<le> dst \<Longrightarrow>
     dst + n \<le> int (length cells) \<Longrightarrow> \<exists>cells'. mem_move cells dst src n = Some cells'"
  by (auto simp: mem_move_def block_put_def)

section \<open>Colours, attributes and characters\<close>

record guac_terminal_color =
  palette_index :: int
  color_red :: byte
  color_green :: byte
  color_blue :: byte

record guac_terminal_attributes =
  at_bold :: bool
  at_half_bright :: bool
  at_reverse :: bool
  at_cursor :: bool
  at_underscore :: bool
  at_foreground :: guac_terminal_color
  at_background :: guac_terminal_color

record guac_terminal_char =
  ch_value :: int
  ch_attributes :: guac_terminal_attributes
  ch_width :: int

abbreviation (input) GUAC_CHAR_CONTINUATION :: int where
  "GUAC_CHAR_CONTINUATION \<equiv> - 1"

text \<open>
  \<open>guac_terminal_colorcmp\<close>: two colours of the palette differ by their indices, others by the first
  components that differ, the components being promoted to \<open>int\<close>.
\<close>

definition guac_terminal_colorcmp :: "guac_terminal_color \<Rightarrow> guac_terminal_color \<Rightarrow> int" where
  "guac_terminal_colorcmp a b =
     (if palette_index a \<noteq> - 1 \<and> palette_index b \<noteq> - 1 then palette_index a - palette_index b
      else if color_red a \<noteq> color_red b then uint (color_red a) - uint (color_red b)
      else if color_green a \<noteq> color_green b then uint (color_green a) - uint (color_green b)
      else if color_blue a \<noteq> color_blue b then uint (color_blue a) - uint (color_blue b)
      else 0)"

definition same_rgb :: "guac_terminal_color \<Rightarrow> guac_terminal_color \<Rightarrow> bool" where
  "same_rgb a b \<longleftrightarrow> color_red a = color_red b \<and> color_green a = color_green b \<and> color_blue a = color_blue b"

lemma colorcmp_zero:
  "guac_terminal_colorcmp a b = 0 \<longleftrightarrow>
     (if palette_index a \<noteq> - 1 \<and> palette_index b \<noteq> - 1 then palette_index a = palette_index b else same_rgb a b)"
  by (auto simp: guac_terminal_colorcmp_def same_rgb_def word_uint_eq_iff)

text \<open>A character without any attribute, black on black.\<close>

definition plain_char :: "int \<Rightarrow> int \<Rightarrow> guac_terminal_char" where
  "plain_char v w =
     \<lparr>ch_value = v,
      ch_attributes = \<lparr>at_bold = False, at_half_bright = False, at_reverse = False, at_cursor = False,
        at_underscore = False,
        at_foreground = \<lparr>palette_index = 0, color_red = 0, color_green = 0, color_blue = 0\<rparr>,
        at_background = \<lparr>palette_index = 0, color_red = 0, color_green = 0, color_blue = 0\<rparr>\<rparr>,
      ch_width = w\<rparr>"

section \<open>Helpers\<close>

definition guac_terminal_fit_to_range :: "int \<Rightarrow> int \<Rightarrow> int \<Rightarrow> int" where
  "guac_terminal_fit_to_range val lo hi = (if val < lo then lo else if val > hi then hi else val)"

text \<open>
  The four assignments with which the copy operations fit a range of columns or rows, and its
  destination at \<open>offset\<close>, within \<open>0 \<dots> hi\<close>.
\<close>

definition fit_copy_range :: "int \<Rightarrow> int \<Rightarrow> int \<Rightarrow> int \<Rightarrow> int \<times> int" where
  "fit_copy_range start stop offset hi =
     (let start = guac_terminal_fit_to_range start 0 hi;
          stop = guac_terminal_fit_to_range stop 0 hi;
          start = guac_terminal_fit_to_range (start + offset) 0 hi - offset;
          stop = guac_terminal_fit_to_range (stop + offset) 0 hi - offset
      in (start, stop))"

definition guac_terminal_encode_utf8 :: "int \<Rightarrow> byte list \<Rightarrow> int \<times> byte list" where
  "guac_terminal_encode_utf8 codepoint utf8 =
     (if codepoint > 0x1FFFFF then (1, utf8[0 := 63])
      else
        (let (mask, bytes) =
           (if codepoint \<le> 0x007F then (0x00, 1)
            else if codepoint \<le> 0x7FF then (0xC0, 2)
            else if codepoint \<le> 0xFFFF then (0xE0, 3)
            else (0xF0, 4 :: nat));
             (cp, buf) = utf8_write_trailing (bytes - 1) codepoint utf8
         in (int bytes, buf[0 := word_of_int (mask OR cp)])))"

definition guac_terminal_has_glyph :: "int \<Rightarrow> bool" where
  "guac_terminal_has_glyph codepoint \<longleftrightarrow>
     codepoint \<noteq> 0 \<and> codepoint \<noteq> 32 \<and> codepoint \<noteq> GUAC_CHAR_CONTINUATION"

text \<open>
  \<open>guac_terminal_write_all\<close> over a \<open>write\<close> that takes the data still unwritten and gives its
  return value. A call that claims more than it was given would move \<open>buffer\<close> past the data; the
  loop then ends, as \<open>remaining\<close> is no longer positive.
\<close>

function write_all_loop :: "('s \<Rightarrow> byte list \<Rightarrow> int \<times> 's) \<Rightarrow> 's \<Rightarrow> byte list \<Rightarrow> bool \<times> 's" where
  "write_all_loop write fd buf =
     (if buf = [] then (True, fd)
      else
        (let (ret_val, fd') = write fd buf
         in if ret_val \<le> 0 then (False, fd') else write_all_loop write fd' (drop (nat ret_val) buf)))"
  by pat_completeness auto
termination
  by (relation "measure (\<lambda>(write, fd, buf). length buf)") auto

definition guac_terminal_write_all ::
    "('s \<Rightarrow> byte list \<Rightarrow> int \<times> 's) \<Rightarrow> 's \<Rightarrow> byte list \<Rightarrow> int \<times> 's" where
  "guac_terminal_write_all write fd buf =
     (let (ok, fd') = write_all_loop write fd buf in (if ok then int (length buf) else - 1, fd'))"

declare write_all_loop.simps [simp del]

section \<open>Facts\<close>

lemma fit_to_range_bounds:
  "lo \<le> hi \<Longrightarrow> lo \<le> guac_terminal_fit_to_range val lo hi \<and> guac_terminal_fit_to_range val lo hi \<le> hi"
  by (auto simp: guac_terminal_fit_to_range_def)

lemma fit_to_range_id [simp]:
  "lo \<le> val \<Longrightarrow> val \<le> hi \<Longrightarrow> guac_terminal_fit_to_range val lo hi = val"
  by (simp add: guac_terminal_fit_to_range_def)

lemma fit_to_range_steps:
  assumes "0 \<le> hi" and "a \<le> b + 1"
  shows "guac_terminal_fit_to_range a 0 hi \<le> guac_terminal_fit_to_range b 0 hi + 1"
  using assms by (auto simp: guac_terminal_fit_to_range_def)

text \<open>
  A copy by no more than \<open>hi\<close> stays within \<open>0 \<dots> hi\<close>, whatever range it is asked for, and a
  copy that stays there anyway is not changed.
\<close>

lemma fit_copy_range_safe:
  assumes "fit_copy_range start stop offset hi = (s, e)"
    and "0 \<le> hi" and "\<bar>offset\<bar> \<le> hi" and "start \<le> stop + 1"
  shows "0 \<le> s" and "e \<le> hi" and "0 \<le> s + offset" and "e + offset \<le> hi" and "s \<le> e + 1"
proof -
  let ?fit = "\<lambda>v. guac_terminal_fit_to_range v 0 hi"
  have s: "s = ?fit (?fit start + offset) - offset" and e: "e = ?fit (?fit stop + offset) - offset"
    using assms(1) by (simp_all add: fit_copy_range_def Let_def)
  have "?fit start \<le> ?fit stop + 1" by (rule fit_to_range_steps[OF assms(2,4)])
  then have "?fit (?fit start + offset) \<le> ?fit (?fit stop + offset) + 1"
    by (intro fit_to_range_steps[OF assms(2)]) simp
  then show "s \<le> e + 1" by (simp add: s e)
  show "0 \<le> s + offset" "e + offset \<le> hi" using fit_to_range_bounds[OF assms(2)] by (auto simp: s e)
  show "0 \<le> s" "e \<le> hi"
    using assms(2,3) fit_to_range_bounds[OF assms(2), of start] fit_to_range_bounds[OF assms(2), of stop]
    by (auto simp: s e guac_terminal_fit_to_range_def[of "_ + offset"])
qed

lemma fit_copy_range_id:
  "0 \<le> start \<Longrightarrow> start \<le> hi \<Longrightarrow> 0 \<le> stop \<Longrightarrow> stop \<le> hi \<Longrightarrow> 0 \<le> start + offset \<Longrightarrow> start + offset \<le> hi \<Longrightarrow>
     0 \<le> stop + offset \<Longrightarrow> stop + offset \<le> hi \<Longrightarrow> fit_copy_range start stop offset hi = (start, stop)"
  by (simp add: fit_copy_range_def)

text \<open>
  The terminal's encoder and libguac's \<open>guac_utf8_write\<close> store the same bytes and return the same
  length, whatever the code point, provided the buffer is large enough.
\<close>

lemma encode_utf8_agrees:
  "4 \<le> len \<Longrightarrow> guac_terminal_encode_utf8 cp buf = guac_utf8_write cp buf len"
  by (auto simp: guac_terminal_encode_utf8_def guac_utf8_write_def Let_def split: prod.splits)

lemma write_all_prefix:
  assumes "\<And>fd bs. bs \<noteq> [] \<Longrightarrow> \<exists>n. 0 < n \<and> n \<le> length bs \<and> write fd bs = (int n, fd @ take n bs)"
  shows "write_all_loop write fd buf = (True, fd @ buf)"
proof (induction buf arbitrary: fd rule: length_induct)
  case (1 buf)
  show ?case
  proof (cases "buf = []")
    case True
    then show ?thesis by (simp add: write_all_loop.simps)
  next
    case False
    then obtain n where n: "0 < n" "n \<le> length buf" "write fd buf = (int n, fd @ take n buf)"
      using assms by blast
    have "length (drop n buf) < length buf" using n False by simp
    then have "write_all_loop write (fd @ take n buf) (drop n buf) = (True, fd @ buf)"
      using "1.IH" by simp
    with n False show ?thesis by (simp add: write_all_loop.simps)
  qed
qed

end
