(* ===== verification/Term_Display.thy ===== *)
theory Term_Display
  imports Term_Common
begin

text \<open>
  The display of the terminal (\<open>src/terminal/display.c\<close>): an array of the operations pending for
  the visible cells, which \<open>guac_terminal_display_flush\<close> turns into drawing calls. A pending
  operation keeps the cell, copies another cell as it was at the last flush, or sets a character.

  The drawing calls and the instructions for the selection layer are a list of \<open>display_call\<close>s,
  in pixels, as the code makes them. The width of a code point (\<open>wcwidth\<close> of the C library) is a
  parameter. Positions and their products are unbounded: a display has at most 1024 rows and columns, as the
  terminal ensures, so that they stay within an \<open>int\<close>. Memory for the operations is granted.
\<close>

section \<open>Definitions\<close>

datatype guac_terminal_operation =
    GUAC_CHAR_NOP
  | GUAC_CHAR_COPY int int
  | GUAC_CHAR_SET guac_terminal_char

datatype display_call =
    surface_copy int int int int int int
  | surface_set int int int int byte byte byte byte
  | surface_draw int int int int "byte list" guac_terminal_color guac_terminal_color
  | surface_resize int int
  | surface_flush
  | select_size int int
  | select_rect int int int int
  | select_cfill byte byte byte byte

record guac_terminal_display =
  disp_operations :: "guac_terminal_operation list"
  disp_width :: int
  disp_height :: int
  disp_char_width :: int
  disp_char_height :: int
  disp_palette :: "guac_terminal_color list"
  disp_default_palette :: "guac_terminal_color list option"
  disp_default_foreground :: guac_terminal_color
  disp_default_background :: guac_terminal_color
  disp_glyph_foreground :: guac_terminal_color
  disp_glyph_background :: guac_terminal_color
  disp_text_selected :: bool
  disp_selection_start_row :: int
  disp_selection_start_column :: int
  disp_selection_end_row :: int
  disp_selection_end_column :: int

abbreviation (input) GUAC_TERMINAL_COLOR_FOREGROUND :: int where
  "GUAC_TERMINAL_COLOR_FOREGROUND \<equiv> - 2"

abbreviation (input) GUAC_TERMINAL_COLOR_BACKGROUND :: int where
  "GUAC_TERMINAL_COLOR_BACKGROUND \<equiv> - 3"

subsection \<open>The palette\<close>

text \<open>The initial palette is a table of 256 colours (\<open>palette.c\<close>), a parameter here.\<close>

definition guac_terminal_display_reset_palette ::
    "guac_terminal_color list \<Rightarrow> guac_terminal_display \<Rightarrow> guac_terminal_display" where
  "guac_terminal_display_reset_palette initial_palette d =
     (case disp_default_palette d of
        Some p \<Rightarrow> d\<lparr>disp_palette := p\<rparr>
      | None \<Rightarrow> d\<lparr>disp_palette := initial_palette\<rparr>)"

definition guac_terminal_display_assign_color ::
    "int \<Rightarrow> guac_terminal_color \<Rightarrow> guac_terminal_display \<Rightarrow> int \<times> guac_terminal_display" where
  "guac_terminal_display_assign_color index c d =
     (if index < 0 \<or> index > 255 then (1, d)
      else (0, d\<lparr>disp_palette := (disp_palette d)[nat index :=
              (disp_palette d ! nat index)\<lparr>color_red := color_red c, color_green := color_green c,
                 color_blue := color_blue c\<rparr>]\<rparr>))"

text \<open>The result is what is stored through \<open>color\<close>, the old colour where the lookup fails.\<close>

definition guac_terminal_display_lookup_color ::
    "guac_terminal_display \<Rightarrow> int \<Rightarrow> guac_terminal_color \<Rightarrow> guac_terminal_color" where
  "guac_terminal_display_lookup_color d index c =
     (if index = GUAC_TERMINAL_COLOR_FOREGROUND then disp_default_foreground d
      else if index = GUAC_TERMINAL_COLOR_BACKGROUND then disp_default_background d
      else if index < 0 \<or> index > 255 then c
      else disp_palette d ! nat index)"

definition half_color :: "guac_terminal_color \<Rightarrow> guac_terminal_color" where
  "half_color c = c\<lparr>color_red := color_red c div 2, color_green := color_green c div 2,
     color_blue := color_blue c div 2\<rparr>"

definition guac_terminal_set_colors ::
    "guac_terminal_attributes \<Rightarrow> guac_terminal_display \<Rightarrow> guac_terminal_display" where
  "guac_terminal_set_colors a d =
     (let (background, foreground) =
        (if at_reverse a \<noteq> at_cursor a then (at_foreground a, at_background a)
         else (at_background a, at_foreground a));
          foreground =
        (if at_bold a \<and> \<not> at_half_bright a \<and> palette_index foreground \<ge> 0 \<and> palette_index foreground \<le> 7
         then disp_palette d ! nat (palette_index foreground + 8) else foreground);
          glyph_foreground = guac_terminal_display_lookup_color d (palette_index foreground) foreground;
          glyph_background = guac_terminal_display_lookup_color d (palette_index background) background
      in d\<lparr>disp_glyph_foreground :=
               (if at_half_bright a \<and> \<not> at_bold a then half_color glyph_foreground else glyph_foreground),
           disp_glyph_background := glyph_background\<rparr>)"

subsection \<open>Pending operations\<close>

text \<open>
  The loop that turns the \<open>NOP\<close>s among the \<open>n\<close> operations at \<open>pos\<close> into copies from \<open>row\<close>, the
  first from column \<open>col\<close>.
\<close>

definition mark_copies ::
    "int \<Rightarrow> int \<Rightarrow> int \<Rightarrow> int \<Rightarrow> guac_terminal_operation list \<Rightarrow> guac_terminal_operation list" where
  "mark_copies pos n row col ops =
     map (\<lambda>k. if pos \<le> int k \<and> int k < pos + n \<and> ops ! k = GUAC_CHAR_NOP
              then GUAC_CHAR_COPY row (col + (int k - pos)) else ops ! k) [0..<length ops]"

definition guac_terminal_display_copy_columns ::
    "guac_terminal_display \<Rightarrow> int \<Rightarrow> int \<Rightarrow> int \<Rightarrow> int \<Rightarrow> guac_terminal_display option" where
  "guac_terminal_display_copy_columns d row start_column end_column offset =
     (if row < 0 \<or> row \<ge> disp_height d then Some d
      else
        (let (start_column, end_column) = fit_copy_range start_column end_column offset (disp_width d - 1);
             src_current = row * disp_width d + start_column;
             current = row * disp_width d + start_column + offset;
             n = end_column - start_column + 1
         in do {
              ops \<leftarrow> mem_move (disp_operations d) current src_current n;
              Some (d\<lparr>disp_operations := mark_copies current n row start_column ops\<rparr>)
            }))"

primrec mark_copy_rows ::
    "nat \<Rightarrow> int \<Rightarrow> int \<Rightarrow> int \<Rightarrow> guac_terminal_operation list \<Rightarrow> guac_terminal_operation list" where
  "mark_copy_rows 0 current_row width row ops = ops"
| "mark_copy_rows (Suc n) current_row width row ops =
     mark_copy_rows n (current_row + width) width (row + 1) (mark_copies current_row width row 0 ops)"

definition guac_terminal_display_copy_rows ::
    "guac_terminal_display \<Rightarrow> int \<Rightarrow> int \<Rightarrow> int \<Rightarrow> guac_terminal_display option" where
  "guac_terminal_display_copy_rows d start_row end_row offset =
     (let (start_row, end_row) = fit_copy_range start_row end_row offset (disp_height d - 1);
          src_current_row = start_row * disp_width d;
          current_row = (start_row + offset) * disp_width d
      in do {
           ops \<leftarrow> mem_move (disp_operations d) current_row src_current_row
                    ((end_row - start_row + 1) * disp_width d);
           Some (d\<lparr>disp_operations :=
                  mark_copy_rows (nat (end_row - start_row + 1)) current_row (disp_width d) start_row ops\<rparr>)
         })"

function set_operations_loop ::
    "guac_terminal_operation list \<Rightarrow> int \<Rightarrow> int \<Rightarrow> int \<Rightarrow> guac_terminal_char
      \<Rightarrow> guac_terminal_operation list option" where
  "set_operations_loop ops current i end_column c =
     (if i > end_column then Some ops
      else if ch_width c \<le> 0 then None
      else do {
        ops \<leftarrow> block_put ops current [GUAC_CHAR_SET c];
        set_operations_loop ops (current + ch_width c) (i + ch_width c) end_column c
      })"
  by pat_completeness auto
termination
  by (relation "measure (\<lambda>(ops, current, i, end_column, c). nat (end_column - i + 1))") auto

declare set_operations_loop.simps [simp del]

definition guac_terminal_display_set_columns ::
    "guac_terminal_display \<Rightarrow> int \<Rightarrow> int \<Rightarrow> int \<Rightarrow> guac_terminal_char \<Rightarrow> guac_terminal_display option" where
  "guac_terminal_display_set_columns d row start_column end_column c =
     (if ch_width c = 0 then Some d
      else if row < 0 \<or> row \<ge> disp_height d then Some d
      else
        (let start_column = guac_terminal_fit_to_range start_column 0 (disp_width d - 1);
             end_column = guac_terminal_fit_to_range end_column 0 (disp_width d - 1)
         in do {
              ops \<leftarrow> set_operations_loop (disp_operations d) (row * disp_width d + start_column)
                       start_column end_column c;
              Some (d\<lparr>disp_operations := ops\<rparr>)
            }))"

definition fill_char :: "guac_terminal_color \<Rightarrow> guac_terminal_char" where
  "fill_char c =
     \<lparr>ch_value = 0,
      ch_attributes = \<lparr>at_bold = False, at_half_bright = False, at_reverse = False, at_cursor = False,
        at_underscore = False, at_foreground = c, at_background = c\<rparr>,
      ch_width = 1\<rparr>"

definition guac_terminal_display_resize ::
    "int \<Rightarrow> int \<Rightarrow> guac_terminal_display \<Rightarrow> display_call list \<times> guac_terminal_display" where
  "guac_terminal_display_resize width height d =
     ([surface_resize (disp_char_width d * width) (disp_char_height d * height),
       select_size (disp_char_width d * width) (disp_char_height d * height)],
      d\<lparr>disp_operations :=
           concat (map (\<lambda>y. map (\<lambda>x.
               if int x < disp_width d \<and> int y < disp_height d then GUAC_CHAR_NOP
               else GUAC_CHAR_SET (fill_char (disp_default_background d)))
             [0..<nat width]) [0..<nat height]),
         disp_width := width, disp_height := height\<rparr>)"

subsection \<open>Flushing\<close>

text \<open>
  Both \<open>flush_copy\<close> and \<open>flush_clear\<close> look for a rectangle of operations that continue the one at
  hand. \<open>joins i j\<close> tells whether an operation \<open>i\<close> rows below and \<open>j\<close> columns right of it does.
  \<open>rect_run\<close> is the loop over the columns of one row and gives the column where it stops;
  \<open>rect_bounds\<close> is the loop over the rows and gives \<open>detected_right\<close> and \<open>detected_bottom\<close>.
\<close>

type_synonym joins = "nat \<Rightarrow> nat \<Rightarrow> guac_terminal_operation \<Rightarrow> bool"

function rect_run :: "joins \<Rightarrow> guac_terminal_operation list \<Rightarrow> nat \<Rightarrow> nat \<Rightarrow> nat \<Rightarrow> nat \<Rightarrow> nat \<Rightarrow> nat" where
  "rect_run joins ops width i j rect_current rect_col =
     (if rect_col < width \<and> joins i j (ops ! rect_current)
      then rect_run joins ops width i (j + 1) (rect_current + 1) (rect_col + 1)
      else rect_col)"
  by pat_completeness auto
termination
  by (relation "measure (\<lambda>(joins, ops, width, i, j, rect_current, rect_col). width - rect_col)") auto

declare rect_run.simps [simp del]

function rect_bounds ::
    "joins \<Rightarrow> guac_terminal_operation list \<Rightarrow> nat \<Rightarrow> nat \<Rightarrow> nat \<Rightarrow> nat \<Rightarrow> nat \<Rightarrow> nat \<Rightarrow> int \<Rightarrow> int \<Rightarrow> int \<times> int" where
  "rect_bounds joins ops width height i rect_current_row rect_row col detected_right detected_bottom =
     (if rect_row < height
      then
        (let rect_col = rect_run joins ops width i 0 rect_current_row col
         in if int rect_col - 1 < detected_right then (detected_right, detected_bottom)
            else rect_bounds joins ops width height (i + 1) (rect_current_row + width) (rect_row + 1) col
                   (if detected_right = - 1 then int rect_col - 1 else detected_right) (int rect_row))
      else (detected_right, detected_bottom))"
  by pat_completeness auto
termination
  by (relation "measure (\<lambda>(joins, ops, width, height, i, rect_current_row, rect_row, col, r, b). height - rect_row)") auto

declare rect_bounds.simps [simp del]

text \<open>The dimensions of the rectangle that starts at \<open>row\<close> and \<open>col\<close>: its width and height.\<close>

definition rect_size ::
    "joins \<Rightarrow> guac_terminal_operation list \<Rightarrow> nat \<Rightarrow> nat \<Rightarrow> nat \<Rightarrow> nat \<Rightarrow> int \<times> int" where
  "rect_size joins ops width height row col =
     (let (detected_right, detected_bottom) =
        rect_bounds joins ops width height 0 (row * width + col) row col (- 1) (int row)
      in (detected_right - int col + 1, detected_bottom - int row + 1))"

text \<open>The loops that mark the operations of the rectangle as handled.\<close>

definition rect_mark ::
    "joins \<Rightarrow> nat \<Rightarrow> nat \<Rightarrow> nat \<Rightarrow> int \<Rightarrow> int \<Rightarrow> guac_terminal_operation list \<Rightarrow> guac_terminal_operation list" where
  "rect_mark joins width row col rect_width rect_height ops =
     map (\<lambda>k. let r = k div width; c = k mod width in
              if row \<le> r \<and> int r < int row + rect_height \<and> col \<le> c \<and> int c < int col + rect_width
                \<and> joins (r - row) (c - col) (ops ! k)
              then GUAC_CHAR_NOP else ops ! k) [0..<length ops]"

definition flush_copy_at ::
    "guac_terminal_display \<Rightarrow> nat \<Rightarrow> nat \<Rightarrow> guac_terminal_operation list
      \<Rightarrow> display_call list \<times> guac_terminal_operation list" where
  "flush_copy_at d row col ops =
     (let width = nat (disp_width d); height = nat (disp_height d) in
      case ops ! (row * width + col) of
        GUAC_CHAR_COPY src_row src_col \<Rightarrow>
          (let joins = (\<lambda>i j op. op = GUAC_CHAR_COPY (src_row + int i) (src_col + int j));
               (rect_width, rect_height) = rect_size joins ops width height row col
           in ([surface_copy (src_col * disp_char_width d) (src_row * disp_char_height d)
                  (rect_width * disp_char_width d) (rect_height * disp_char_height d)
                  (int col * disp_char_width d) (int row * disp_char_height d)],
               rect_mark joins width row col rect_width rect_height ops))
      | _ \<Rightarrow> ([], ops))"

text \<open>The colour that fills a cell without a glyph.\<close>

definition clear_color :: "guac_terminal_char \<Rightarrow> guac_terminal_color" where
  "clear_color c =
     (if at_reverse (ch_attributes c) \<noteq> at_cursor (ch_attributes c)
      then at_foreground (ch_attributes c) else at_background (ch_attributes c))"

definition joins_clear :: "guac_terminal_color \<Rightarrow> guac_terminal_operation \<Rightarrow> bool" where
  "joins_clear c op =
     (case op of
        GUAC_CHAR_SET ch \<Rightarrow> \<not> guac_terminal_has_glyph (ch_value ch)
          \<and> guac_terminal_colorcmp (clear_color ch) c = 0
      | _ \<Rightarrow> False)"

definition flush_clear_at ::
    "guac_terminal_display \<Rightarrow> nat \<Rightarrow> nat \<Rightarrow> guac_terminal_operation list
      \<Rightarrow> display_call list \<times> guac_terminal_operation list" where
  "flush_clear_at d row col ops =
     (let width = nat (disp_width d); height = nat (disp_height d) in
      case ops ! (row * width + col) of
        GUAC_CHAR_SET ch \<Rightarrow>
          (if guac_terminal_has_glyph (ch_value ch) then ([], ops)
           else
             (let c = guac_terminal_display_lookup_color d (palette_index (clear_color ch)) (clear_color ch);
                  joins = (\<lambda>i j. joins_clear c);
                  (rect_width, rect_height) = rect_size joins ops width height row col
              in ([surface_set (int col * disp_char_width d) (int row * disp_char_height d)
                     (rect_width * disp_char_width d) (rect_height * disp_char_height d)
                     (color_red c) (color_green c) (color_blue c) 0xFF],
                  rect_mark joins width row col rect_width rect_height ops)))
      | _ \<Rightarrow> ([], ops))"

text \<open>
  \<open>__guac_terminal_set\<close>: the glyph is drawn on a surface of its own, filled with the background,
  and that surface is drawn to the display. The bytes are those of the text to lay out.
\<close>

definition guac_terminal_set_glyph ::
    "(int \<Rightarrow> int) \<Rightarrow> guac_terminal_display \<Rightarrow> nat \<Rightarrow> nat \<Rightarrow> int \<Rightarrow> display_call list" where
  "guac_terminal_set_glyph wcwidth d row col codepoint =
     (let width = (if wcwidth codepoint < 0 then 1 else wcwidth codepoint)
      in if width = 0 then []
         else
           (let (bytes, utf8) = guac_terminal_encode_utf8 codepoint [0, 0, 0, 0]
            in [surface_draw (disp_char_width d * int col) (disp_char_height d * int row)
                  (width * disp_char_width d) (disp_char_height d)
                  (take (nat bytes) utf8) (disp_glyph_foreground d) (disp_glyph_background d)]))"

definition flush_set_at ::
    "(int \<Rightarrow> int) \<Rightarrow> nat \<Rightarrow> nat \<Rightarrow> guac_terminal_display \<Rightarrow> display_call list \<times> guac_terminal_display" where
  "flush_set_at wcwidth row col d =
     (case disp_operations d ! (row * nat (disp_width d) + col) of
        GUAC_CHAR_SET ch \<Rightarrow>
          (let codepoint = (if guac_terminal_has_glyph (ch_value ch) then ch_value ch else 32);
               d = guac_terminal_set_colors (ch_attributes ch) d
           in (guac_terminal_set_glyph wcwidth d row col codepoint,
               d\<lparr>disp_operations :=
                  (disp_operations d)[row * nat (disp_width d) + col := GUAC_CHAR_NOP]\<rparr>))
      | _ \<Rightarrow> ([], d))"

text \<open>The cells in the order in which the loops of the flush visit them.\<close>

definition raster :: "guac_terminal_display \<Rightarrow> (nat \<times> nat) list" where
  "raster d = List.product [0..<nat (disp_height d)] [0..<nat (disp_width d)]"

fun flush_loop :: "(nat \<Rightarrow> nat \<Rightarrow> 's \<Rightarrow> display_call list \<times> 's) \<Rightarrow> (nat \<times> nat) list \<Rightarrow> 's \<Rightarrow> display_call list \<times> 's" where
  "flush_loop f [] s = ([], s)"
| "flush_loop f ((row, col) # ps) s =
     (let (calls, s) = f row col s; (calls', s) = flush_loop f ps s in (calls @ calls', s))"

definition guac_terminal_display_flush_copy ::
    "guac_terminal_display \<Rightarrow> display_call list \<times> guac_terminal_display" where
  "guac_terminal_display_flush_copy d =
     (let (calls, ops) = flush_loop (flush_copy_at d) (raster d) (disp_operations d)
      in (calls, d\<lparr>disp_operations := ops\<rparr>))"

definition guac_terminal_display_flush_clear ::
    "guac_terminal_display \<Rightarrow> display_call list \<times> guac_terminal_display" where
  "guac_terminal_display_flush_clear d =
     (let (calls, ops) = flush_loop (flush_clear_at d) (raster d) (disp_operations d)
      in (calls, d\<lparr>disp_operations := ops\<rparr>))"

definition guac_terminal_display_flush_set ::
    "(int \<Rightarrow> int) \<Rightarrow> guac_terminal_display \<Rightarrow> display_call list \<times> guac_terminal_display" where
  "guac_terminal_display_flush_set wcwidth d = flush_loop (flush_set_at wcwidth) (raster d) d"

definition guac_terminal_display_flush ::
    "(int \<Rightarrow> int) \<Rightarrow> guac_terminal_display \<Rightarrow> display_call list \<times> guac_terminal_display" where
  "guac_terminal_display_flush wcwidth d =
     (let (copies, d) = guac_terminal_display_flush_copy d;
          (clears, d) = guac_terminal_display_flush_clear d;
          (sets, d) = guac_terminal_display_flush_set wcwidth d
      in (copies @ clears @ sets @ [surface_flush], d))"

subsection \<open>Selection\<close>

definition guac_terminal_display_select ::
    "int \<Rightarrow> int \<Rightarrow> int \<Rightarrow> int \<Rightarrow> guac_terminal_display \<Rightarrow> display_call list \<times> guac_terminal_display" where
  "guac_terminal_display_select start_row start_col end_row end_col d =
     (if disp_text_selected d \<and> disp_selection_start_row d = start_row
         \<and> disp_selection_start_column d = start_col \<and> disp_selection_end_row d = end_row
         \<and> disp_selection_end_column d = end_col
      then ([], d)
      else
        (let d' = d\<lparr>disp_text_selected := True, disp_selection_start_row := start_row,
               disp_selection_start_column := start_col, disp_selection_end_row := end_row,
               disp_selection_end_column := end_col\<rparr>;
             cw = disp_char_width d; ch = disp_char_height d;
             rects =
               (if start_row = end_row
                then
                  (let (start_col, end_col) = (if start_col > end_col then (end_col, start_col) else (start_col, end_col))
                   in [select_rect (start_col * cw) (start_row * ch) ((end_col - start_col + 1) * cw) ch])
                else
                  (let (start_row, start_col, end_row, end_col) =
                     (if start_row > end_row then (end_row, end_col, start_row, start_col)
                      else (start_row, start_col, end_row, end_col))
                   in [select_rect (start_col * cw) (start_row * ch) (disp_width d * cw) ch,
                       select_rect 0 ((start_row + 1) * ch) (disp_width d * cw) ((end_row - start_row - 1) * ch),
                       select_rect 0 (end_row * ch) ((end_col + 1) * cw) ch]))
         in (rects @ [select_cfill 0x00 0x80 0xFF 0x60], d')))"

definition guac_terminal_display_clear_select ::
    "guac_terminal_display \<Rightarrow> display_call list \<times> guac_terminal_display" where
  "guac_terminal_display_clear_select d =
     (if \<not> disp_text_selected d then ([], d)
      else ([select_rect 0 0 1 1, select_cfill 0 0 0 0], d\<lparr>disp_text_selected := False\<rparr>))"

section \<open>Pending operations as a screen\<close>

text \<open>
  A display is well formed when it has an operation for every cell. The operation of a cell and a
  screen as it was at the last flush determine what the cell shall show: \<open>ink\<close> is how a character
  looks.
\<close>

definition display_ok :: "guac_terminal_display \<Rightarrow> bool" where
  "display_ok d \<longleftrightarrow> 0 < disp_width d \<and> 0 < disp_height d
     \<and> int (length (disp_operations d)) = disp_height d * disp_width d"

definition on_display :: "guac_terminal_display \<Rightarrow> int \<Rightarrow> int \<Rightarrow> bool" where
  "on_display d r c \<longleftrightarrow> 0 \<le> r \<and> r < disp_height d \<and> 0 \<le> c \<and> c < disp_width d"

definition op_at :: "guac_terminal_display \<Rightarrow> int \<Rightarrow> int \<Rightarrow> guac_terminal_operation" where
  "op_at d r c = disp_operations d ! nat (r * disp_width d + c)"

definition op_shows ::
    "(guac_terminal_char \<Rightarrow> 'a) \<Rightarrow> (int \<Rightarrow> int \<Rightarrow> 'a) \<Rightarrow> int \<Rightarrow> int \<Rightarrow> guac_terminal_operation \<Rightarrow> 'a" where
  "op_shows ink scr r c op =
     (case op of GUAC_CHAR_NOP \<Rightarrow> scr r c | GUAC_CHAR_COPY r' c' \<Rightarrow> scr r' c' | GUAC_CHAR_SET ch \<Rightarrow> ink ch)"

definition shown ::
    "(guac_terminal_char \<Rightarrow> 'a) \<Rightarrow> (int \<Rightarrow> int \<Rightarrow> 'a) \<Rightarrow> guac_terminal_display \<Rightarrow> int \<Rightarrow> int \<Rightarrow> 'a" where
  "shown ink scr d r c = op_shows ink scr r c (op_at d r c)"

text \<open>A cell that is copied while nothing is pending for it becomes a copy.\<close>

definition as_copy :: "int \<Rightarrow> int \<Rightarrow> guac_terminal_operation \<Rightarrow> guac_terminal_operation" where
  "as_copy r c op = (if op = GUAC_CHAR_NOP then GUAC_CHAR_COPY r c else op)"

lemma as_copy_shows: "op_shows ink scr r c (as_copy r' c' op) = op_shows ink scr r' c' op"
  by (auto simp: as_copy_def op_shows_def split: guac_terminal_operation.splits)

lemma cell_index_bounds:
  fixes r :: int
  assumes "0 \<le> r" and "r < h" and "0 \<le> c" and "c < w"
  shows "0 \<le> r * w + c" and "r * w + c < h * w"
proof -
  show "0 \<le> r * w + c" using assms by simp
  have "r * w + c < (r + 1) * w" using assms by (simp add: algebra_simps)
  also have "\<dots> \<le> h * w" using assms by (intro mult_right_mono) auto
  finally show "r * w + c < h * w" .
qed

lemma cell_index_rows:
  fixes r :: int
  assumes "0 \<le> c" and "c < w"
  shows "a * w \<le> r * w + c \<longleftrightarrow> a \<le> r" and "r * w + c < a * w \<longleftrightarrow> r < a"
proof -
  have "r * w + c < a * w \<longleftrightarrow> r < a"
  proof
    assume "r * w + c < a * w"
    then have "r * w < a * w" using assms by linarith
    then show "r < a" using assms by (simp add: mult_less_cancel_right)
  next
    assume "r < a"
    then have "(r + 1) * w \<le> a * w" using assms by (intro mult_right_mono) auto
    then show "r * w + c < a * w" using assms by (simp add: algebra_simps)
  qed
  then show "r * w + c < a * w \<longleftrightarrow> r < a" "a * w \<le> r * w + c \<longleftrightarrow> a \<le> r" by linarith+
qed

lemma cell_index_columns:
  fixes r :: int
  assumes "0 \<le> c" and "c < w" and "0 \<le> x" and "x + n \<le> w"
  shows "a * w + x \<le> r * w + c \<and> r * w + c < a * w + x + n \<longleftrightarrow> r = a \<and> x \<le> c \<and> c < x + n"
proof
  assume *: "a * w + x \<le> r * w + c \<and> r * w + c < a * w + x + n"
  then have "a * w \<le> r * w + c" "r * w + c < (a + 1) * w" using assms by (simp_all add: algebra_simps)
  then have "r = a" using cell_index_rows[OF assms(1,2)] by force
  with * show "r = a \<and> x \<le> c \<and> c < x + n" by simp
qed auto

lemma op_index:
  assumes "display_ok d" and "on_display d r c"
  shows "nat (r * disp_width d + c) < length (disp_operations d)"
    and "int (nat (r * disp_width d + c)) = r * disp_width d + c"
  using assms cell_index_bounds[of r "disp_height d" c "disp_width d"]
  by (auto simp: display_ok_def on_display_def nat_less_iff)

lemma mark_copies_length [simp]: "length (mark_copies pos n row col ops) = length ops"
  by (simp add: mark_copies_def)

lemma mark_copies_nth:
  "k < length ops \<Longrightarrow> mark_copies pos n row col ops ! k =
     (if pos \<le> int k \<and> int k < pos + n then as_copy row (col + (int k - pos)) (ops ! k) else ops ! k)"
  by (auto simp: mark_copies_def as_copy_def)

text \<open>Copying columns moves what the cells shall show, and touches no other cell.\<close>

lemma display_copy_columns_ops:
  assumes "display_ok d" and "0 \<le> row" and "row < disp_height d"
    and "fit_copy_range a b offset (disp_width d - 1) = (s, e)"
    and "0 \<le> s" and "s \<le> e + 1" and "e < disp_width d" and "0 \<le> s + offset" and "e + offset < disp_width d"
  shows "\<exists>ops. guac_terminal_display_copy_columns d row a b offset = Some (d\<lparr>disp_operations := ops\<rparr>)
    \<and> length ops = length (disp_operations d)
    \<and> (\<forall>r c. on_display d r c \<longrightarrow> op_at (d\<lparr>disp_operations := ops\<rparr>) r c =
        (if r = row \<and> s \<le> c - offset \<and> c - offset \<le> e then as_copy row (c - offset) (op_at d row (c - offset))
         else op_at d r c))"
proof -
  let ?w = "disp_width d"
  define n where "n = e - s + 1"
  have w: "0 < ?w" "int (length (disp_operations d)) = disp_height d * ?w"
    using assms(1) by (auto simp: display_ok_def)
  have row: "0 \<le> row * ?w" "row * ?w + ?w \<le> disp_height d * ?w"
    using assms(2,3) w mult_right_mono[of "row + 1" "disp_height d" ?w] by (auto simp: algebra_simps)
  obtain moved where move: "mem_move (disp_operations d) (row * ?w + s + offset) (row * ?w + s) n = Some moved"
    using mem_move_Some[of n "row * ?w + s" "disp_operations d" "row * ?w + s + offset"] assms(5-9) row w
    by (auto simp: n_def)
  define ops where "ops = mark_copies (row * ?w + s + offset) n row s moved"
  have len: "length moved = length (disp_operations d)" using mem_move_length[OF move] .
  have at: "op_at (d\<lparr>disp_operations := ops\<rparr>) r c =
        (if r = row \<and> s \<le> c - offset \<and> c - offset \<le> e then as_copy row (c - offset) (op_at d row (c - offset))
         else op_at d r c)" if rc: "on_display d r c" for r c
  proof -
    let ?k = "nat (r * ?w + c)"
    note k = op_index[OF assms(1) rc]
    have c: "0 \<le> c" "c < ?w" using rc by (auto simp: on_display_def)
    have range: "row * ?w + s + offset \<le> int ?k \<and> int ?k < row * ?w + s + offset + n \<longleftrightarrow>
        r = row \<and> s \<le> c - offset \<and> c - offset \<le> e"
      using cell_index_columns[OF c, of "s + offset" n row r] assms(7-9) k(2) by (auto simp: n_def add.assoc)
    have "moved ! ?k = disp_operations d ! nat (row * ?w + (c - offset))"
      and "s + (int ?k - (row * ?w + s + offset)) = c - offset"
      if "r = row \<and> s \<le> c - offset \<and> c - offset \<le> e"
      using mem_move_nth[OF move k(1)] range that k(2) by (auto simp: algebra_simps)
    moreover have "moved ! ?k = disp_operations d ! ?k"
      if "\<not> (r = row \<and> s \<le> c - offset \<and> c - offset \<le> e)"
      using mem_move_nth[OF move k(1)] range that by auto
    ultimately show ?thesis
      using mark_copies_nth[of ?k moved "row * ?w + s + offset" n row s] k(1) len range
      by (auto simp: op_at_def ops_def)
  qed
  have "guac_terminal_display_copy_columns d row a b offset = Some (d\<lparr>disp_operations := ops\<rparr>)"
    using assms(2-4) move by (simp add: guac_terminal_display_copy_columns_def ops_def n_def)
  with at len show ?thesis by (intro exI[of _ ops]) (simp add: ops_def)
qed

lemma mark_copy_rows_length [simp]: "length (mark_copy_rows n pos w row ops) = length ops"
  by (induction n arbitrary: pos row ops) auto

lemma mark_copy_rows_nth:
  assumes "0 \<le> c" and "c < w" and "0 \<le> r" and "nat (r * w + c) < length ops"
  shows "mark_copy_rows n (a * w) w row ops ! nat (r * w + c) =
    (if a \<le> r \<and> r < a + int n then as_copy (row + (r - a)) c (ops ! nat (r * w + c)) else ops ! nat (r * w + c))"
  using assms(4)
proof (induction n arbitrary: a row ops)
  case (Suc n)
  have pos: "0 \<le> r * w + c" using assms by simp
  have next_row: "a * w + w = (a + 1) * w" by (simp add: algebra_simps)
  have first: "mark_copies (a * w) w row 0 ops ! nat (r * w + c) =
      (if r = a then as_copy row c (ops ! nat (r * w + c)) else ops ! nat (r * w + c))"
    using mark_copies_nth[OF Suc.prems, of "a * w" w row 0] cell_index_columns[OF assms(1,2), of 0 w a r] pos
    by (auto simp: assms)
  show ?case
    using Suc.IH[of "mark_copies (a * w) w row 0 ops" "a + 1" "row + 1"] Suc.prems first
    by (auto simp: next_row)
qed auto

lemma display_copy_rows_ops:
  assumes "display_ok d"
    and "fit_copy_range a b offset (disp_height d - 1) = (s, e)"
    and "0 \<le> s" and "s \<le> e + 1" and "e < disp_height d" and "0 \<le> s + offset" and "e + offset < disp_height d"
  shows "\<exists>ops. guac_terminal_display_copy_rows d a b offset = Some (d\<lparr>disp_operations := ops\<rparr>)
    \<and> length ops = length (disp_operations d)
    \<and> (\<forall>r c. on_display d r c \<longrightarrow> op_at (d\<lparr>disp_operations := ops\<rparr>) r c =
        (if s \<le> r - offset \<and> r - offset \<le> e then as_copy (r - offset) c (op_at d (r - offset) c)
         else op_at d r c))"
proof -
  let ?w = "disp_width d"
  have w: "0 < ?w" "int (length (disp_operations d)) = disp_height d * ?w"
    using assms(1) by (auto simp: display_ok_def)
  have "s * ?w + (e - s + 1) * ?w = (e + 1) * ?w" "(s + offset) * ?w + (e - s + 1) * ?w = (e + offset + 1) * ?w"
    by (simp_all add: algebra_simps)
  moreover have "(e + 1) * ?w \<le> disp_height d * ?w" "(e + offset + 1) * ?w \<le> disp_height d * ?w"
    using assms(5,7) w by (simp_all add: mult_right_mono)
  ultimately obtain moved where move:
    "mem_move (disp_operations d) ((s + offset) * ?w) (s * ?w) ((e - s + 1) * ?w) = Some moved"
    using mem_move_Some[of "(e - s + 1) * ?w" "s * ?w" "disp_operations d" "(s + offset) * ?w"] assms(3,4,6) w
    by auto
  define ops where "ops = mark_copy_rows (nat (e - s + 1)) ((s + offset) * ?w) ?w s moved"
  have len: "length moved = length (disp_operations d)" using mem_move_length[OF move] .
  have at: "op_at (d\<lparr>disp_operations := ops\<rparr>) r c =
        (if s \<le> r - offset \<and> r - offset \<le> e then as_copy (r - offset) c (op_at d (r - offset) c)
         else op_at d r c)" if rc: "on_display d r c" for r c
  proof -
    let ?k = "nat (r * ?w + c)"
    note k = op_index[OF assms(1) rc]
    have c: "0 \<le> c" "c < ?w" "0 \<le> r" using rc by (auto simp: on_display_def)
    have stop: "(s + offset) * ?w + (e - s + 1) * ?w = (e + offset + 1) * ?w" by (simp add: algebra_simps)
    have range: "(s + offset) * ?w \<le> int ?k \<and> int ?k < (s + offset) * ?w + (e - s + 1) * ?w \<longleftrightarrow>
        s \<le> r - offset \<and> r - offset \<le> e"
      unfolding stop k(2) cell_index_rows[OF c(1,2)] by auto
    have "int ?k - (s + offset) * ?w + s * ?w = (r - offset) * ?w + c"
      unfolding k(2) by (simp add: algebra_simps)
    then have moved: "moved ! ?k =
        (if s \<le> r - offset \<and> r - offset \<le> e then op_at d (r - offset) c else op_at d r c)"
      using mem_move_nth[OF move k(1)] range by (simp add: op_at_def)
    show ?thesis
      using mark_copy_rows_nth[OF c, of moved "nat (e - s + 1)" "s + offset" s] k(1) len moved assms(4)
      by (auto simp: op_at_def ops_def algebra_simps)
  qed
  have "guac_terminal_display_copy_rows d a b offset = Some (d\<lparr>disp_operations := ops\<rparr>)"
    using assms(2) move by (simp add: guac_terminal_display_copy_rows_def ops_def)
  with at len show ?thesis by (intro exI[of _ ops]) (simp add: ops_def)
qed

lemma set_operations_loop_spec:
  assumes "0 < ch_width c" and "0 \<le> cur" and "i \<le> e \<Longrightarrow> cur + (e - i) < int (length ops)"
  shows "\<exists>ops'. set_operations_loop ops cur i e c = Some ops' \<and> length ops' = length ops
    \<and> (\<forall>k < length ops. ops' ! k =
        (if cur \<le> int k \<and> int k - cur \<le> e - i \<and> (int k - cur) mod ch_width c = 0
         then GUAC_CHAR_SET c else ops ! k))"
  using assms
proof (induction ops cur i e c rule: set_operations_loop.induct)
  case (1 ops cur i e c)
  show ?case
  proof (cases "i > e")
    case True
    then show ?thesis by (subst set_operations_loop.simps) auto
  next
    case False
    let ?w = "ch_width c"
    obtain ops1 where put: "block_put ops cur [GUAC_CHAR_SET c] = Some ops1"
      using False "1.prems" by (auto simp: block_put_def)
    have len1: "length ops1 = length ops" using block_put_length[OF put] .
    have nth1: "ops1 ! k = (if int k = cur then GUAC_CHAR_SET c else ops ! k)" if "k < length ops" for k
      using block_put_nth[OF put that] by auto
    obtain ops' where ops': "set_operations_loop ops1 (cur + ?w) (i + ?w) e c = Some ops'"
      "length ops' = length ops1"
      and nth': "\<And>k. k < length ops1 \<Longrightarrow> ops' ! k =
        (if cur + ?w \<le> int k \<and> int k - (cur + ?w) \<le> e - (i + ?w) \<and> (int k - (cur + ?w)) mod ?w = 0
         then GUAC_CHAR_SET c else ops1 ! k)"
      using "1.IH"[OF False _ put] "1.prems" len1 False by auto
    have "ops' ! k = (if cur \<le> int k \<and> int k - cur \<le> e - i \<and> (int k - cur) mod ?w = 0
         then GUAC_CHAR_SET c else ops ! k)" if k: "k < length ops" for k
    proof -
      have "(int k - (cur + ?w)) mod ?w = (int k - cur) mod ?w"
        by (metis diff_diff_eq minus_mod_self2)
      moreover have "int k = cur" if "cur \<le> int k" "\<not> cur + ?w \<le> int k" "?w dvd int k - cur"
        using that zdvd_not_zless[of "int k - cur" ?w] by (cases "cur < int k") auto
      ultimately show ?thesis
        using nth'[of k] nth1[OF k] k len1 False "1.prems"(1) by auto
    qed
    moreover have "set_operations_loop ops cur i e c = Some ops'"
      using False "1.prems" put ops'(1) by (subst set_operations_loop.simps) simp
    ultimately show ?thesis using ops'(2) len1 by simp
  qed
qed

lemma display_set_columns_ops:
  assumes "display_ok d" and "0 < ch_width ch" and "0 \<le> row" and "row < disp_height d"
    and "s = guac_terminal_fit_to_range a 0 (disp_width d - 1)"
    and "e = guac_terminal_fit_to_range b 0 (disp_width d - 1)"
  shows "\<exists>ops. guac_terminal_display_set_columns d row a b ch = Some (d\<lparr>disp_operations := ops\<rparr>)
    \<and> length ops = length (disp_operations d)
    \<and> (\<forall>r c. on_display d r c \<longrightarrow> op_at (d\<lparr>disp_operations := ops\<rparr>) r c =
        (if r = row \<and> s \<le> c \<and> c \<le> e \<and> (c - s) mod ch_width ch = 0 then GUAC_CHAR_SET ch else op_at d r c))"
proof -
  let ?w = "disp_width d"
  have w: "0 < ?w" "int (length (disp_operations d)) = disp_height d * ?w"
    using assms(1) by (auto simp: display_ok_def)
  have se: "0 \<le> s" "s < ?w" "0 \<le> e" "e < ?w"
    using fit_to_range_bounds[of 0 "?w - 1" a] fit_to_range_bounds[of 0 "?w - 1" b] w(1) assms(5,6) by auto
  have pos: "0 \<le> row * ?w + s" "row * ?w + s + (e - s) < int (length (disp_operations d))"
    using cell_index_bounds[of row "disp_height d" s ?w] cell_index_bounds[of row "disp_height d" e ?w] assms(3,4) se w
    by auto
  obtain ops where ops: "set_operations_loop (disp_operations d) (row * ?w + s) s e ch = Some ops"
    "length ops = length (disp_operations d)"
    and nth: "\<And>k. k < length (disp_operations d) \<Longrightarrow> ops ! k =
        (if row * ?w + s \<le> int k \<and> int k - (row * ?w + s) \<le> e - s \<and> (int k - (row * ?w + s)) mod ch_width ch = 0
         then GUAC_CHAR_SET ch else disp_operations d ! k)"
    using set_operations_loop_spec[OF assms(2) pos(1), of s e "disp_operations d"] pos(2) by blast
  have "op_at (d\<lparr>disp_operations := ops\<rparr>) r c =
        (if r = row \<and> s \<le> c \<and> c \<le> e \<and> (c - s) mod ch_width ch = 0 then GUAC_CHAR_SET ch else op_at d r c)"
    if rc: "on_display d r c" for r c
  proof -
    let ?k = "nat (r * ?w + c)"
    note k = op_index[OF assms(1) rc]
    have c: "0 \<le> c" "c < ?w" using rc by (auto simp: on_display_def)
    have range: "row * ?w + s \<le> int ?k \<and> int ?k - (row * ?w + s) \<le> e - s \<longleftrightarrow> r = row \<and> s \<le> c \<and> c \<le> e"
    proof (cases "s \<le> e")
      case True
      then show ?thesis
        using cell_index_columns[OF c se(1), of "e - s + 1" row r] se k(2) by auto
    next
      case False
      then show ?thesis by auto
    qed
    have "int ?k - (row * ?w + s) = c - s" if "r = row" using k(2) that by simp
    then show ?thesis using nth[OF k(1)] range by (auto simp: op_at_def)
  qed
  moreover have "guac_terminal_display_set_columns d row a b ch = Some (d\<lparr>disp_operations := ops\<rparr>)"
    using assms(2-6) ops(1) by (simp add: guac_terminal_display_set_columns_def)
  ultimately show ?thesis using ops(2) by (intro exI[of _ ops]) simp
qed

lemma display_ops_simps [simp]:
  "length ops = length (disp_operations d) \<Longrightarrow> display_ok (d\<lparr>disp_operations := ops\<rparr>) = display_ok d"
  "on_display (d\<lparr>disp_operations := ops\<rparr>) r c = on_display d r c"
  by (simp_all add: display_ok_def on_display_def)

subsection \<open>Refinement\<close>

text \<open>
  The operations of the display as operations on a screen: what they promise, without pending
  operations. A program of such operations is within a display when its ranges are.
\<close>

datatype display_op =
    Copy_Columns int int int int
  | Copy_Rows int int int
  | Set_Columns int int int guac_terminal_char

fun display_step :: "display_op \<Rightarrow> guac_terminal_display \<Rightarrow> guac_terminal_display option" where
  "display_step (Copy_Columns row s e offset) d = guac_terminal_display_copy_columns d row s e offset"
| "display_step (Copy_Rows s e offset) d = guac_terminal_display_copy_rows d s e offset"
| "display_step (Set_Columns row s e ch) d = guac_terminal_display_set_columns d row s e ch"

primrec display_run :: "display_op list \<Rightarrow> guac_terminal_display \<Rightarrow> guac_terminal_display option" where
  "display_run [] d = Some d"
| "display_run (x # xs) d = do { d \<leftarrow> display_step x d; display_run xs d }"

fun screen_step :: "(guac_terminal_char \<Rightarrow> 'a) \<Rightarrow> display_op \<Rightarrow> (int \<Rightarrow> int \<Rightarrow> 'a) \<Rightarrow> int \<Rightarrow> int \<Rightarrow> 'a" where
  "screen_step ink (Copy_Columns row s e offset) scr =
     (\<lambda>r c. if r = row \<and> s \<le> c - offset \<and> c - offset \<le> e then scr r (c - offset) else scr r c)"
| "screen_step ink (Copy_Rows s e offset) scr =
     (\<lambda>r c. if s \<le> r - offset \<and> r - offset \<le> e then scr (r - offset) c else scr r c)"
| "screen_step ink (Set_Columns row s e ch) scr =
     (\<lambda>r c. if r = row \<and> s \<le> c \<and> c \<le> e \<and> (c - s) mod ch_width ch = 0 then ink ch else scr r c)"

primrec screen_run :: "(guac_terminal_char \<Rightarrow> 'a) \<Rightarrow> display_op list \<Rightarrow> (int \<Rightarrow> int \<Rightarrow> 'a) \<Rightarrow> int \<Rightarrow> int \<Rightarrow> 'a" where
  "screen_run ink [] scr = scr"
| "screen_run ink (x # xs) scr = screen_run ink xs (screen_step ink x scr)"

fun op_within :: "int \<Rightarrow> int \<Rightarrow> display_op \<Rightarrow> bool" where
  "op_within w h (Copy_Columns row s e offset) \<longleftrightarrow>
     0 \<le> row \<and> row < h \<and> 0 \<le> s \<and> s \<le> e \<and> e < w \<and> 0 \<le> s + offset \<and> e + offset < w"
| "op_within w h (Copy_Rows s e offset) \<longleftrightarrow>
     0 \<le> s \<and> s \<le> e \<and> e < h \<and> 0 \<le> s + offset \<and> e + offset < h"
| "op_within w h (Set_Columns row s e ch) \<longleftrightarrow>
     0 \<le> row \<and> row < h \<and> 0 \<le> s \<and> s \<le> e \<and> e < w \<and> 0 < ch_width ch"

lemma display_step_shows:
  assumes "display_ok d" and "op_within (disp_width d) (disp_height d) x"
  shows "\<exists>ops. display_step x d = Some (d\<lparr>disp_operations := ops\<rparr>)
    \<and> length ops = length (disp_operations d)
    \<and> (\<forall>r c. on_display d r c \<longrightarrow>
        shown ink scr (d\<lparr>disp_operations := ops\<rparr>) r c = screen_step ink x (shown ink scr d) r c)"
proof (cases x)
  case (Copy_Columns row s e offset)
  have fit: "fit_copy_range s e offset (disp_width d - 1) = (s, e)"
    using assms(2) by (intro fit_copy_range_id) (auto simp: Copy_Columns)
  show ?thesis
    using display_copy_columns_ops[OF assms(1) _ _ fit, of row] assms(2)
    by (fastforce simp: Copy_Columns shown_def as_copy_shows)
next
  case (Copy_Rows s e offset)
  have fit: "fit_copy_range s e offset (disp_height d - 1) = (s, e)"
    using assms(2) by (intro fit_copy_range_id) (auto simp: Copy_Rows)
  show ?thesis
    using display_copy_rows_ops[OF assms(1) fit] assms(2)
    by (fastforce simp: Copy_Rows shown_def as_copy_shows)
next
  case (Set_Columns row s e ch)
  then show ?thesis
    using display_set_columns_ops[OF assms(1), of ch row s s e e] assms(2)
    by (fastforce simp: shown_def op_shows_def)
qed

lemma screen_step_cong:
  assumes "op_within w h x" and "\<And>r c. 0 \<le> r \<and> r < h \<and> 0 \<le> c \<and> c < w \<Longrightarrow> f r c = g r c"
    and "0 \<le> r \<and> r < h \<and> 0 \<le> c \<and> c < w"
  shows "screen_step ink x f r c = screen_step ink x g r c"
  using assms(1,3) by (cases x) (auto intro!: assms(2))

lemma screen_run_cong:
  assumes "list_all (op_within w h) xs" and "\<And>r c. 0 \<le> r \<and> r < h \<and> 0 \<le> c \<and> c < w \<Longrightarrow> f r c = g r c"
    and "0 \<le> r \<and> r < h \<and> 0 \<le> c \<and> c < w"
  shows "screen_run ink xs f r c = screen_run ink xs g r c"
  using assms
proof (induction xs arbitrary: f g)
  case (Cons x xs)
  have x: "op_within w h x" "list_all (op_within w h) xs" using Cons.prems(1) by simp_all
  have "screen_run ink xs (screen_step ink x f) r c = screen_run ink xs (screen_step ink x g) r c"
    by (rule Cons.IH[OF x(2) screen_step_cong[OF x(1) Cons.prems(2)] Cons.prems(3)])
  then show ?case by simp
qed simp

lemma run_shows:
  assumes "display_ok d" and "list_all (op_within (disp_width d) (disp_height d)) xs"
  shows "\<exists>d'. display_run xs d = Some d' \<and> display_ok d'
    \<and> (\<forall>r c. on_display d r c \<longrightarrow> shown ink scr d' r c = screen_run ink xs (shown ink scr d) r c)"
  using assms
proof (induction xs arbitrary: d)
  case (Cons x xs)
  obtain ops where step: "display_step x d = Some (d\<lparr>disp_operations := ops\<rparr>)"
    "length ops = length (disp_operations d)"
    "\<And>r c. on_display d r c \<Longrightarrow>
        shown ink scr (d\<lparr>disp_operations := ops\<rparr>) r c = screen_step ink x (shown ink scr d) r c"
    using display_step_shows[OF Cons.prems(1), of x ink scr] Cons.prems(2) by auto
  let ?d1 = "d\<lparr>disp_operations := ops\<rparr>"
  obtain d' where d': "display_run xs ?d1 = Some d'" "display_ok d'"
    "\<And>r c. on_display d r c \<Longrightarrow> shown ink scr d' r c = screen_run ink xs (shown ink scr ?d1) r c"
    using Cons.IH[of ?d1] Cons.prems step(2) by auto
  have "shown ink scr d' r c = screen_run ink xs (screen_step ink x (shown ink scr d)) r c"
    if "on_display d r c" for r c
    using d'(3)[OF that] screen_run_cong[of "disp_width d" "disp_height d" xs "shown ink scr ?d1"
        "screen_step ink x (shown ink scr d)" r c ink] step(3) Cons.prems(2) that
    by (auto simp: on_display_def)
  with step(1) d' show ?case by simp
qed simp

text \<open>A blank display of 8 by 16 pixels per cell with nothing pending, and one colour.\<close>

definition black :: guac_terminal_color where
  "black = \<lparr>palette_index = 0, color_red = 0, color_green = 0, color_blue = 0\<rparr>"

definition demo_display :: "int \<Rightarrow> int \<Rightarrow> guac_terminal_display" where
  "demo_display w h =
     \<lparr>disp_operations = replicate (nat (w * h)) GUAC_CHAR_NOP, disp_width = w, disp_height = h,
      disp_char_width = 8, disp_char_height = 16, disp_palette = [black],
      disp_default_palette = None, disp_default_foreground = black, disp_default_background = black,
      disp_glyph_foreground = black, disp_glyph_background = black, disp_text_selected = False,
      disp_selection_start_row = 0, disp_selection_start_column = 0,
      disp_selection_end_row = 0, disp_selection_end_column = 0\<rparr>"

text \<open>
  C28. The pending operations refine the screen: whatever sequence of copies and characters the
  terminal asks for within its display, applying the pending operations to the screen of the last
  flush gives what carrying out the sequence on that screen step by step gives.
\<close>

theorem pending_operations_refine:
  assumes "display_ok d" and "list_all (op_within (disp_width d) (disp_height d)) xs"
  shows "\<exists>d'. display_run xs d = Some d' \<and> display_ok d'
    \<and> (\<forall>r c. on_display d r c \<longrightarrow> shown ink scr d' r c = screen_run ink xs (shown ink scr d) r c)"
  by (rule run_shows[OF assms])

theorem pending_operations_refine_witness:
  "\<exists>d'. display_run [Copy_Rows 1 2 (- 1), Set_Columns 2 0 1 (plain_char 65 1), Copy_Rows 0 1 1]
       (demo_display 2 3) = Some d'
     \<and> shown ch_value (\<lambda>r c. 100 * r + c) d' 0 1 = 101
     \<and> shown ch_value (\<lambda>r c. 100 * r + c) d' 2 1 = 201"
proof -
  have ok: "display_ok (demo_display 2 3)" by (simp add: display_ok_def demo_display_def)
  have dims: "disp_width (demo_display 2 3) = 2" "disp_height (demo_display 2 3) = 3"
    by (simp_all add: demo_display_def)
  have nop: "shown ink scr (demo_display 2 3) r c = scr r c" if "0 \<le> r" "r < 3" "0 \<le> c" "c < 2"
    for ink :: "guac_terminal_char \<Rightarrow> int" and scr r c
    using that by (simp add: shown_def op_at_def demo_display_def op_shows_def nat_less_iff)
  show ?thesis
    using pending_operations_refine[OF ok, of "[Copy_Rows 1 2 (- 1), Set_Columns 2 0 1 (plain_char 65 1), Copy_Rows 0 1 1]"
        ch_value "\<lambda>r c. 100 * r + c"]
    by (auto simp: dims on_display_def plain_char_def nop)
qed

end
