(* ===== verification/Term_Flush.thy ===== *)
theory Term_Flush
  imports Term_Display
begin

text \<open>
  What a flush of the display draws (\<open>guac_terminal_display_flush\<close> of
  \<open>src/terminal/display.c\<close>). The drawing calls are carried out on a screen, a function of the
  pixel coordinates; \<open>solid\<close> is a pixel of a colour, and \<open>glyph\<close> a pixel of the surface on which
  the text layout library has drawn a character.
\<close>

section \<open>Drawing calls\<close>

fun apply_call ::
    "(byte \<Rightarrow> byte \<Rightarrow> byte \<Rightarrow> 'p) \<Rightarrow> (byte list \<Rightarrow> guac_terminal_color \<Rightarrow> guac_terminal_color \<Rightarrow> int \<Rightarrow> int \<Rightarrow> 'p)
      \<Rightarrow> display_call \<Rightarrow> (int \<Rightarrow> int \<Rightarrow> 'p) \<Rightarrow> int \<Rightarrow> int \<Rightarrow> 'p" where
  "apply_call solid glyph (surface_copy sx sy w h dx dy) scr =
     (\<lambda>x y. if dx \<le> x \<and> x < dx + w \<and> dy \<le> y \<and> y < dy + h then scr (x - dx + sx) (y - dy + sy) else scr x y)"
| "apply_call solid glyph (surface_set x0 y0 w h r g b a) scr =
     (\<lambda>x y. if x0 \<le> x \<and> x < x0 + w \<and> y0 \<le> y \<and> y < y0 + h then solid r g b else scr x y)"
| "apply_call solid glyph (surface_draw x0 y0 w h utf8 fg bg) scr =
     (\<lambda>x y. if x0 \<le> x \<and> x < x0 + w \<and> y0 \<le> y \<and> y < y0 + h then glyph utf8 fg bg (x - x0) (y - y0) else scr x y)"
| "apply_call solid glyph _ scr = scr"

primrec paint ::
    "(byte \<Rightarrow> byte \<Rightarrow> byte \<Rightarrow> 'p) \<Rightarrow> (byte list \<Rightarrow> guac_terminal_color \<Rightarrow> guac_terminal_color \<Rightarrow> int \<Rightarrow> int \<Rightarrow> 'p)
      \<Rightarrow> display_call list \<Rightarrow> (int \<Rightarrow> int \<Rightarrow> 'p) \<Rightarrow> int \<Rightarrow> int \<Rightarrow> 'p" where
  "paint solid glyph [] scr = scr"
| "paint solid glyph (call # calls) scr = paint solid glyph calls (apply_call solid glyph call scr)"

lemma paint_append: "paint solid glyph (a @ b) scr = paint solid glyph b (paint solid glyph a scr)"
  by (induction a arbitrary: scr) auto

text \<open>The pixel \<open>(j, i)\<close> of every cell, as a function of the cell.\<close>

definition cell_pixel :: "int \<Rightarrow> int \<Rightarrow> int \<Rightarrow> int \<Rightarrow> (int \<Rightarrow> int \<Rightarrow> 'p) \<Rightarrow> int \<Rightarrow> int \<Rightarrow> 'p" where
  "cell_pixel cw ch i j scr r c = scr (c * cw + j) (r * ch + i)"

lemma cell_between:
  fixes c :: int
  assumes "0 \<le> j" and "j < cw"
  shows "a * cw \<le> c * cw + j \<and> c * cw + j < a * cw + n * cw \<longleftrightarrow> a \<le> c \<and> c < a + n"
  using cell_index_rows[OF assms, of a c] cell_index_rows[OF assms, of c "a + n"]
  by (simp add: algebra_simps)

lemma cell_pixel_copy:
  assumes "0 \<le> i" and "i < ch" and "0 \<le> j" and "j < cw"
  shows "cell_pixel cw ch i j
      (apply_call solid glyph (surface_copy (sc * cw) (sr * ch) (w * cw) (h * ch) (col * cw) (row * ch)) scr) r c =
    (if row \<le> r \<and> r < row + h \<and> col \<le> c \<and> c < col + w
     then cell_pixel cw ch i j scr (r - row + sr) (c - col + sc) else cell_pixel cw ch i j scr r c)"
proof -
  have e: "c * cw + j - col * cw + sc * cw = (c - col + sc) * cw + j"
    "r * ch + i - row * ch + sr * ch = (r - row + sr) * ch + i"
    by (simp_all add: algebra_simps)
  show ?thesis
    using cell_between[OF assms(3,4), of col c w] cell_between[OF assms(1,2), of row r h]
    unfolding cell_pixel_def apply_call.simps e by presburger
qed

lemma cell_pixel_set:
  assumes "0 \<le> i" and "i < ch" and "0 \<le> j" and "j < cw"
  shows "cell_pixel cw ch i j
      (apply_call solid glyph (surface_set (col * cw) (row * ch) (w * cw) (h * ch) red green blue a) scr) r c =
    (if row \<le> r \<and> r < row + h \<and> col \<le> c \<and> c < col + w
     then solid red green blue else cell_pixel cw ch i j scr r c)"
  using cell_between[OF assms(3,4), of col c w] cell_between[OF assms(1,2), of row r h]
  by (auto simp: cell_pixel_def)

section \<open>Rectangles of operations\<close>

text \<open>The operation of a cell, and the cells of a display.\<close>

abbreviation cell :: "'a list \<Rightarrow> nat \<Rightarrow> nat \<Rightarrow> nat \<Rightarrow> 'a" where
  "cell ops w r c \<equiv> ops ! (r * w + c)"

lemma cell_less: "r < h \<Longrightarrow> c < w \<Longrightarrow> r * w + c < h * (w :: nat)"
proof -
  assume "r < h" "c < w"
  then have "r * w + c < (r + 1) * w" by simp
  also have "\<dots> \<le> h * w" using \<open>r < h\<close> by (intro mult_le_mono1) simp
  finally show ?thesis .
qed

lemma rect_run_spec:
  "col \<le> rect_run joins ops w i j pos col
     \<and> (col \<le> w \<longrightarrow> rect_run joins ops w i j pos col \<le> w)
     \<and> (\<forall>k < rect_run joins ops w i j pos col - col. joins i (j + k) (ops ! (pos + k)))"
proof (induction joins ops w i j pos col rule: rect_run.induct)
  case (1 joins ops w i j pos col)
  show ?case
  proof (cases "col < w \<and> joins i j (ops ! pos)")
    case True
    let ?rc = "rect_run joins ops w i (j + 1) (pos + 1) (col + 1)"
    have eq: "rect_run joins ops w i j pos col = ?rc" using True by (subst rect_run.simps) simp
    have IH: "col + 1 \<le> ?rc" "col + 1 \<le> w \<longrightarrow> ?rc \<le> w"
      "\<And>k. k < ?rc - (col + 1) \<Longrightarrow> joins i (j + 1 + k) (ops ! (pos + 1 + k))"
      using 1[OF True] by auto
    have "joins i (j + k) (ops ! (pos + k))" if "k < ?rc - col" for k
      using that True IH(3)[of "k - 1"] by (cases k) auto
    with IH True eq show ?thesis by auto
  next
    case False
    then show ?thesis by (subst (1 2 3) rect_run.simps) auto
  qed
qed

lemma rect_run_step: "col < w \<Longrightarrow> joins i j (ops ! pos) \<Longrightarrow> col < rect_run joins ops w i j pos col"
  using rect_run_spec[of "col + 1" joins ops w i "j + 1" "pos + 1"] by (subst rect_run.simps) simp

text \<open>Once \<open>detected_right\<close> is known, further rows are taken that reach it.\<close>

lemma rect_bounds_rest:
  assumes "int col \<le> right" and "row + i = rect_row" and "pos = rect_row * w + col"
  shows "\<exists>bottom'. rect_bounds joins ops w h i pos rect_row col right bottom = (right, bottom')
    \<and> (bottom' = bottom \<or> int rect_row \<le> bottom' \<and> bottom' < int h)
    \<and> (\<forall>i' j'. i \<le> i' \<and> int (row + i') \<le> bottom' \<and> int (col + j') \<le> right \<longrightarrow>
         bottom' \<noteq> bottom \<longrightarrow> joins i' j' (cell ops w (row + i') (col + j')))"
  using assms
proof (induction joins ops w h i pos rect_row col right bottom rule: rect_bounds.induct)
  case (1 joins ops w h i pos rect_row col right bottom)
  let ?rc = "rect_run joins ops w i 0 pos col"
  show ?case
  proof (cases "rect_row < h \<and> right \<le> int ?rc - 1")
    case False
    then show ?thesis by (subst rect_bounds.simps) (auto simp: Let_def)
  next
    case True
    have right: "right \<noteq> - 1" using "1.prems"(1) by linarith
    have eq: "rect_bounds joins ops w h i pos rect_row col right bottom =
        rect_bounds joins ops w h (i + 1) (pos + w) (rect_row + 1) col right (int rect_row)"
      using True right by (subst rect_bounds.simps) (simp add: Let_def)
    obtain bottom' where IH: "rect_bounds joins ops w h (i + 1) (pos + w) (rect_row + 1) col right (int rect_row) =
        (right, bottom')" "bottom' = int rect_row \<or> int (rect_row + 1) \<le> bottom' \<and> bottom' < int h"
      and cells: "\<And>i' j'. i + 1 \<le> i' \<Longrightarrow> int (row + i') \<le> bottom' \<Longrightarrow> int (col + j') \<le> right \<Longrightarrow>
        bottom' \<noteq> int rect_row \<Longrightarrow> joins i' j' (cell ops w (row + i') (col + j'))"
      using "1.IH"[OF _ refl, of ] True right "1.prems" by (auto simp: algebra_simps)
    have "joins i' j' (cell ops w (row + i') (col + j'))"
      if "i \<le> i'" "int (row + i') \<le> bottom'" "int (col + j') \<le> right" for i' j'
    proof (cases "i' = i")
      case True
      have "j' < ?rc - col" using that(3) \<open>rect_row < h \<and> right \<le> int ?rc - 1\<close> by linarith
      then show ?thesis
        using rect_run_spec[of col joins ops w i 0 pos] "1.prems" True by (auto simp: algebra_simps)
    next
      case False
      then have "i + 1 \<le> i'" using that(1) by simp
      moreover from this have "bottom' \<noteq> int rect_row" using that(2) "1.prems"(2) by linarith
      ultimately show ?thesis using cells that by blast
    qed
    moreover have "int rect_row \<le> bottom' \<and> bottom' < int h" using IH(2) True by auto
    ultimately show ?thesis using eq IH(1) by auto
  qed
qed

lemma rect_size_spec:
  assumes "row < h" and "col < w" and "joins 0 0 (cell ops w row col)"
  obtains rw rh where "rect_size joins ops w h row col = (rw, rh)" and "1 \<le> rw" and "1 \<le> rh"
    and "int col + rw \<le> int w" and "int row + rh \<le> int h"
    and "\<And>i j. int i < rh \<Longrightarrow> int j < rw \<Longrightarrow> joins i j (cell ops w (row + i) (col + j))"
proof -
  let ?rc = "rect_run joins ops w 0 0 (row * w + col) col"
  have rc: "col < ?rc" "?rc \<le> w" "\<And>k. k < ?rc - col \<Longrightarrow> joins 0 k (ops ! (row * w + col + k))"
    using rect_run_step[of col w joins 0 0 ops "row * w + col"] rect_run_spec[of col joins ops w 0 0 "row * w + col"]
      assms by auto
  have eq: "rect_bounds joins ops w h 0 (row * w + col) row col (- 1) (int row) =
      rect_bounds joins ops w h 1 (row * w + col + w) (row + 1) col (int ?rc - 1) (int row)"
    using assms(1) by (subst rect_bounds.simps) (simp add: Let_def)
  obtain bottom where b: "rect_bounds joins ops w h 1 (row * w + col + w) (row + 1) col (int ?rc - 1) (int row) =
      (int ?rc - 1, bottom)" "bottom = int row \<or> int (row + 1) \<le> bottom \<and> bottom < int h"
    and cells: "\<And>i j. 1 \<le> i \<Longrightarrow> int (row + i) \<le> bottom \<Longrightarrow> int (col + j) \<le> int ?rc - 1 \<Longrightarrow>
      bottom \<noteq> int row \<Longrightarrow> joins i j (cell ops w (row + i) (col + j))"
    using rect_bounds_rest[of col "int ?rc - 1" row 1 "row + 1" "row * w + col + w" w joins ops h "int row"] rc(1)
    by (auto simp: algebra_simps)
  show ?thesis
  proof (rule that[of "int ?rc - int col" "bottom - int row + 1"])
    show "rect_size joins ops w h row col = (int ?rc - int col, bottom - int row + 1)"
      unfolding rect_size_def eq b(1) by simp
    fix i j assume ij: "int i < bottom - int row + 1" "int j < int ?rc - int col"
    show "joins i j (cell ops w (row + i) (col + j))"
    proof (cases "i = 0")
      case True
      with rc(3)[of j] ij(2) show ?thesis by (simp add: add.assoc)
    next
      case False
      then show ?thesis using cells[of i j] ij by auto
    qed
  qed (use rc b(2) assms(1) in auto)
qed

lemma rect_mark_length [simp]: "length (rect_mark joins w row col rw rh ops) = length ops"
  by (simp add: rect_mark_def)

lemma rect_mark_cell:
  assumes "length ops = h * w" and "r < h" and "c < w"
  shows "cell (rect_mark joins w row col rw rh ops) w r c =
    (if row \<le> r \<and> int r < int row + rh \<and> col \<le> c \<and> int c < int col + rw
       \<and> joins (r - row) (c - col) (cell ops w r c)
     then GUAC_CHAR_NOP else cell ops w r c)"
proof -
  have "(r * w + c) div w = r" "(r * w + c) mod w = c" using assms(3) by auto
  then show ?thesis
    using cell_less[OF assms(2,3)] assms(1) by (simp add: rect_mark_def Let_def)
qed

section \<open>The copies\<close>

text \<open>
  The loops of the flush keep an invariant that mentions the cells still to be visited, when every
  visit does. The cells are visited in the order of their rows.
\<close>

lemma flush_loop_inv:
  assumes step: "\<And>row col ps s scr calls s'. I ((row, col) # ps) s scr \<Longrightarrow> (row, col) \<in> G \<Longrightarrow>
      \<forall>(r, c) \<in> set ps. row \<le> r \<Longrightarrow> f row col s = (calls, s') \<Longrightarrow> I ps s' (paint solid glyph calls scr)"
    and "I ps s scr" and "sorted (map fst ps)" and "set ps \<subseteq> G" and "flush_loop f ps s = (calls, s')"
  shows "I [] s' (paint solid glyph calls scr)"
  using assms(2-5)
proof (induction ps arbitrary: s scr calls)
  case (Cons p ps)
  obtain row col where p: "p = (row, col)" by (cases p)
  obtain calls1 s1 where visit: "f row col s = (calls1, s1)" by fastforce
  obtain calls2 where rest: "flush_loop f ps s1 = (calls2, s')" "calls = calls1 @ calls2"
    using Cons.prems(4) visit by (auto simp: p split: prod.splits)
  have "I ps s1 (paint solid glyph calls1 scr)"
    by (rule step[OF Cons.prems(1)[unfolded p] _ _ visit]) (use Cons.prems(2,3) p in auto)
  from Cons.IH[OF this _ _ rest(1)] Cons.prems(2,3) show ?case
    by (simp add: rest(2) paint_append)
qed simp

lemma raster_sorted: "sorted (map fst (raster d))"
proof -
  have "sorted (map fst (List.product xs ys))" if "sorted xs" for xs :: "nat list" and ys :: "nat list"
    using that by (induction xs) (auto simp: sorted_append comp_def map_replicate_const)
  then show ?thesis by (simp add: raster_def)
qed

lemma raster_set: "set (raster d) = {(r, c). r < nat (disp_height d) \<and> c < nat (disp_width d)}"
  by (auto simp: raster_def)

text \<open>
  An operation copies straight up when its source is further down in the same column: that is
  what scrolling up makes of the operations.
\<close>

definition copies_up :: "guac_terminal_operation list \<Rightarrow> nat \<Rightarrow> nat \<Rightarrow> bool" where
  "copies_up ops w h \<longleftrightarrow> (\<forall>r < h. \<forall>c < w. \<forall>sr sc. cell ops w r c = GUAC_CHAR_COPY sr sc \<longrightarrow>
     sc = int c \<and> int r < sr)"

definition is_copy :: "guac_terminal_operation \<Rightarrow> bool" where
  "is_copy op \<longleftrightarrow> (\<exists>r c. op = GUAC_CHAR_COPY r c)"

text \<open>What a pixel of a cell is after the copies of some operations are done.\<close>

definition copied :: "(int \<Rightarrow> int \<Rightarrow> 'p) \<Rightarrow> int \<Rightarrow> int \<Rightarrow> guac_terminal_operation \<Rightarrow> 'p" where
  "copied S r c op = (case op of GUAC_CHAR_COPY sr sc \<Rightarrow> S sr sc | _ \<Rightarrow> S r c)"

text \<open>
  The state of the flush when the cells \<open>ps\<close> are still to be visited: \<open>S0\<close> and \<open>f\<close> are the screen
  and the operations at the start. A cell is handled once its copy is marked as done.
\<close>

definition copy_state ::
    "nat \<Rightarrow> nat \<Rightarrow> (int \<Rightarrow> int \<Rightarrow> 'p) \<Rightarrow> guac_terminal_operation list
      \<Rightarrow> guac_terminal_operation list \<Rightarrow> (int \<Rightarrow> int \<Rightarrow> 'p) \<Rightarrow> bool" where
  "copy_state w h S0 f ops S \<longleftrightarrow>
     length ops = h * w
     \<and> (\<forall>r < h. \<forall>c < w. cell ops w r c = cell f w r c
          \<or> is_copy (cell f w r c) \<and> cell ops w r c = GUAC_CHAR_NOP)
     \<and> (\<forall>r < h. \<forall>c < w. S (int r) (int c) =
          (if cell ops w r c = cell f w r c then S0 (int r) (int c)
           else copied S0 (int r) (int c) (cell f w r c)))
     \<and> (\<forall>r c. \<not> (0 \<le> r \<and> r < int h \<and> 0 \<le> c \<and> c < int w) \<longrightarrow> S r c = S0 r c)"

definition copy_inv ::
    "nat \<Rightarrow> nat \<Rightarrow> (int \<Rightarrow> int \<Rightarrow> 'p) \<Rightarrow> guac_terminal_operation list \<Rightarrow> (nat \<times> nat) list
      \<Rightarrow> guac_terminal_operation list \<Rightarrow> (int \<Rightarrow> int \<Rightarrow> 'p) \<Rightarrow> bool" where
  "copy_inv w h S0 f ps ops S \<longleftrightarrow>
     copy_state w h S0 f ops S
     \<and> (\<forall>r < h. \<forall>c < w. (r, c) \<notin> set ps \<longrightarrow> \<not> is_copy (cell ops w r c))
     \<and> (\<forall>r < h. \<forall>r' < r. \<forall>c < w. (r', c) \<in> set ps \<and> cell ops w r c \<noteq> cell f w r c \<longrightarrow>
          cell ops w r' c \<noteq> cell f w r' c)"

lemma copy_invD:
  assumes "copy_inv w h S0 f ps ops S"
  shows "length ops = h * w"
    and "r < h \<Longrightarrow> c < w \<Longrightarrow> cell ops w r c = cell f w r c
          \<or> is_copy (cell f w r c) \<and> cell ops w r c = GUAC_CHAR_NOP"
    and "r < h \<Longrightarrow> c < w \<Longrightarrow> S (int r) (int c) =
          (if cell ops w r c = cell f w r c then S0 (int r) (int c)
           else copied S0 (int r) (int c) (cell f w r c))"
    and "\<not> (0 \<le> ir \<and> ir < int h \<and> 0 \<le> ic \<and> ic < int w) \<Longrightarrow> S ir ic = S0 ir ic"
    and "r < h \<Longrightarrow> c < w \<Longrightarrow> (r, c) \<notin> set ps \<Longrightarrow> \<not> is_copy (cell ops w r c)"
    and "r < h \<Longrightarrow> r' < r \<Longrightarrow> c < w \<Longrightarrow> (r', c) \<in> set ps \<Longrightarrow> cell ops w r c \<noteq> cell f w r c \<Longrightarrow>
          cell ops w r' c \<noteq> cell f w r' c"
proof -
  have state: "copy_state w h S0 f ops S" using assms by (simp add: copy_inv_def)
  show "length ops = h * w" using state by (simp add: copy_state_def)
  show "r < h \<Longrightarrow> c < w \<Longrightarrow> cell ops w r c = cell f w r c
          \<or> is_copy (cell f w r c) \<and> cell ops w r c = GUAC_CHAR_NOP"
    using state unfolding copy_state_def by blast
  show "r < h \<Longrightarrow> c < w \<Longrightarrow> S (int r) (int c) =
          (if cell ops w r c = cell f w r c then S0 (int r) (int c)
           else copied S0 (int r) (int c) (cell f w r c))"
    using state[unfolded copy_state_def, THEN conjunct2, THEN conjunct2, THEN conjunct1] by blast
  show "\<not> (0 \<le> ir \<and> ir < int h \<and> 0 \<le> ic \<and> ic < int w) \<Longrightarrow> S ir ic = S0 ir ic"
    using state[unfolded copy_state_def, THEN conjunct2, THEN conjunct2, THEN conjunct2] by blast
  show "r < h \<Longrightarrow> c < w \<Longrightarrow> (r, c) \<notin> set ps \<Longrightarrow> \<not> is_copy (cell ops w r c)"
    using assms unfolding copy_inv_def by blast
  show "r < h \<Longrightarrow> r' < r \<Longrightarrow> c < w \<Longrightarrow> (r', c) \<in> set ps \<Longrightarrow> cell ops w r c \<noteq> cell f w r c \<Longrightarrow>
          cell ops w r' c \<noteq> cell f w r' c"
    using assms[unfolded copy_inv_def, THEN conjunct2, THEN conjunct2] by blast
qed

text \<open>A pending copy reads a cell that no copy has been drawn to yet.\<close>

lemma copy_source_fresh:
  assumes inv: "copy_inv w h S0 f ps ops S" and up: "copies_up f w h"
    and rc: "r < h" "c < w" and copy: "cell ops w r c = GUAC_CHAR_COPY sr sc"
  shows "S sr sc = S0 sr sc" and "cell f w r c = GUAC_CHAR_COPY sr sc" and "sc = int c"
proof -
  show f: "cell f w r c = GUAC_CHAR_COPY sr sc"
    using copy_invD(2)[OF inv rc] copy by auto
  then show sc: "sc = int c" and "S sr sc = S0 sr sc"
  proof -
    from f up rc have s: "sc = int c" "int r < sr" unfolding copies_up_def by blast+
    then show "sc = int c" by simp
    show "S sr sc = S0 sr sc"
    proof (cases "sr < int h")
      case False
      then show ?thesis using copy_invD(4)[OF inv] by blast
    next
      case True
      define r0 where "r0 = nat sr"
      have r0: "r0 < h" "r < r0" "sr = int r0" using s True by (auto simp: r0_def)
      have "(r, c) \<in> set ps" using copy_invD(5)[OF inv rc] copy by (auto simp: is_copy_def)
      moreover have "cell ops w r c = cell f w r c" using copy f by simp
      ultimately have "cell ops w r0 c = cell f w r0 c"
        using copy_invD(6)[OF inv r0(1,2) rc(2)] by blast
      then show ?thesis using copy_invD(3)[OF inv r0(1) rc(2)] s r0(3) by simp
    qed
  qed
qed

lemma copy_inv_skip:
  assumes inv: "copy_inv w h S0 f ((row, col) # ps) ops S" and "\<not> is_copy (cell ops w row col)"
  shows "copy_inv w h S0 f ps ops S"
  unfolding copy_inv_def
proof (intro conjI)
  show "\<forall>r < h. \<forall>c < w. (r, c) \<notin> set ps \<longrightarrow> \<not> is_copy (cell ops w r c)"
  proof (intro allI impI)
    fix r c assume "r < h" "c < w" "(r, c) \<notin> set ps"
    then show "\<not> is_copy (cell ops w r c)"
      using copy_invD(5)[OF inv, of r c] assms(2) by (cases "(r, c) = (row, col)") auto
  qed
  show "\<forall>r < h. \<forall>r' < r. \<forall>c < w. (r', c) \<in> set ps \<and> cell ops w r c \<noteq> cell f w r c \<longrightarrow>
          cell ops w r' c \<noteq> cell f w r' c"
    using copy_invD(6)[OF inv] by (metis list.set_intros(2))
  show "copy_state w h S0 f ops S" using inv by (simp add: copy_inv_def)
qed

lemma copy_inv_step:
  assumes inv: "copy_inv w h S0 f ((row, col) # ps) ops S" and up: "copies_up f w h"
    and rc: "row < h" "col < w" and later: "\<forall>(r, c) \<in> set ps. row \<le> r"
    and origin: "1 \<le> rw" "1 \<le> rh"
    and rect: "\<And>i j. int i < rh \<Longrightarrow> int j < rw \<Longrightarrow>
      cell ops w (row + i) (col + j) = GUAC_CHAR_COPY (sr + int i) (sc + int j)"
    and bounds: "int col + rw \<le> int w" "int row + rh \<le> int h"
    and ops': "length ops' = h * w" "\<And>r c. r < h \<Longrightarrow> c < w \<Longrightarrow> cell ops' w r c =
      (if row \<le> r \<and> int r < int row + rh \<and> col \<le> c \<and> int c < int col + rw then GUAC_CHAR_NOP
       else cell ops w r c)"
    and S': "\<And>r c. S' r c =
      (if int row \<le> r \<and> r < int row + rh \<and> int col \<le> c \<and> c < int col + rw
       then S (r - int row + sr) (c - int col + sc) else S r c)"
  shows "copy_inv w h S0 f ps ops' S'"
proof -
  define R where "R r c \<longleftrightarrow> row \<le> r \<and> int r < int row + rh \<and> col \<le> c \<and> int c < int col + rw" for r c
  have in_rect: "cell ops w r c = GUAC_CHAR_COPY (sr + int (r - row)) (sc + int (c - col))" if "R r c" for r c
    using rect[of "r - row" "c - col"] that by (auto simp: R_def)
  have Rb: "r < h \<and> c < w" if "R r c" for r c using that bounds by (auto simp: R_def)
  have cell': "cell ops' w r c = (if R r c then GUAC_CHAR_NOP else cell ops w r c)" if "r < h" "c < w" for r c
    using ops'(2)[OF that] by (simp add: R_def)
  have f_rect: "cell f w r c = cell ops w r c" "is_copy (cell f w r c)" if "R r c" for r c
    using copy_source_fresh(2)[OF inv up _ _ in_rect[OF that]] Rb[OF that] in_rect[OF that]
    by (auto simp: is_copy_def)
  have handled: "cell ops' w r c \<noteq> cell f w r c" if "R r c" for r c
    using f_rect(2)[OF that] cell'[of r c] Rb[OF that] that by (auto simp: is_copy_def)
  show ?thesis
    unfolding copy_inv_def copy_state_def
  proof (intro conjI allI impI)
    show "length ops' = h * w" by (rule ops'(1))
    fix r c assume rc': "r < h" "c < w"
    show "cell ops' w r c = cell f w r c \<or> is_copy (cell f w r c) \<and> cell ops' w r c = GUAC_CHAR_NOP"
      using copy_invD(2)[OF inv rc'] cell'[OF rc'] f_rect(2)[of r c] by auto
    show "S' (int r) (int c) =
        (if cell ops' w r c = cell f w r c then S0 (int r) (int c) else copied S0 (int r) (int c) (cell f w r c))"
    proof (cases "R r c")
      case True
      have src: "int r - int row + sr = sr + int (r - row)" "int c - int col + sc = sc + int (c - col)"
        using True by (auto simp: R_def)
      have "S' (int r) (int c) = S (sr + int (r - row)) (sc + int (c - col))"
        using True S'[of "int r" "int c"] unfolding src by (auto simp: R_def)
      also have "\<dots> = S0 (sr + int (r - row)) (sc + int (c - col))"
        using copy_source_fresh(1)[OF inv up rc' in_rect[OF True]] .
      also have "\<dots> = copied S0 (int r) (int c) (cell f w r c)"
        using f_rect(1)[OF True] in_rect[OF True] by (simp add: copied_def)
      finally show ?thesis using handled[OF True] by simp
    next
      case False
      then have "S' (int r) (int c) = S (int r) (int c)" using S'[of "int r" "int c"] by (auto simp: R_def)
      then show ?thesis using False cell'[OF rc'] copy_invD(3)[OF inv rc'] by simp
    qed
    show "\<not> is_copy (cell ops' w r c)" if "(r, c) \<notin> set ps"
    proof (cases "(r, c) = (row, col)")
      case True
      then have "R r c" using origin by (auto simp: R_def)
      then show ?thesis using cell'[OF rc'] by (auto simp: is_copy_def)
    next
      case False
      then have "\<not> is_copy (cell ops w r c)" using copy_invD(5)[OF inv rc'] that by auto
      then show ?thesis using cell'[OF rc'] by (auto simp: is_copy_def)
    qed
  next
    fix r c assume out: "\<not> (0 \<le> r \<and> r < int h \<and> 0 \<le> c \<and> c < int w)"
    then have "\<not> (int row \<le> r \<and> r < int row + rh \<and> int col \<le> c \<and> c < int col + rw)"
      using bounds by linarith
    then have "S' r c = S r c" unfolding S' by (rule if_not_P)
    also have "\<dots> = S0 r c" by (rule copy_invD(4)[OF inv out])
    finally show "S' r c = S0 r c" .
  next
    fix r r' c assume *: "r < h" "r' < r" "c < w" "(r', c) \<in> set ps \<and> cell ops' w r c \<noteq> cell f w r c"
    then have r': "r' < h" "row \<le> r'" using later by auto
    show "cell ops' w r' c \<noteq> cell f w r' c"
    proof (cases "R r c")
      case True
      then have "R r' c" using * r'(2) by (auto simp: R_def)
      then show ?thesis by (rule handled)
    next
      case False
      then have "cell ops w r' c \<noteq> cell f w r' c"
        using * copy_invD(6)[OF inv, of r r' c] cell'[of r c] by auto
      then show ?thesis using cell'[of r' c] r' * handled[of r' c] by auto
    qed
  qed
qed

text \<open>One visit of \<open>flush_copy\<close>.\<close>

lemma flush_copy_visit:
  assumes inv: "copy_inv (nat (disp_width d)) (nat (disp_height d)) S0 f ((row, col) # ps) ops
      (cell_pixel (disp_char_width d) (disp_char_height d) i j scr)"
    and up: "copies_up f (nat (disp_width d)) (nat (disp_height d))"
    and rc: "row < nat (disp_height d)" "col < nat (disp_width d)" and later: "\<forall>(r, c) \<in> set ps. row \<le> r"
    and ij: "0 \<le> i" "i < disp_char_height d" "0 \<le> j" "j < disp_char_width d"
    and visit: "flush_copy_at d row col ops = (calls, ops')"
  shows "copy_inv (nat (disp_width d)) (nat (disp_height d)) S0 f ps ops'
    (cell_pixel (disp_char_width d) (disp_char_height d) i j (paint solid glyph calls scr))"
proof -
  let ?w = "nat (disp_width d)" and ?h = "nat (disp_height d)"
  show ?thesis
  proof (cases "cell ops ?w row col")
    case (GUAC_CHAR_COPY sr sc)
    let ?joins = "\<lambda>i j op. op = GUAC_CHAR_COPY (sr + int i) (sc + int j)"
    obtain rw rh where size: "rect_size ?joins ops ?w ?h row col = (rw, rh)" "1 \<le> rw" "1 \<le> rh"
      and bounds: "int col + rw \<le> int ?w" "int row + rh \<le> int ?h"
      and rect: "\<And>i j. int i < rh \<Longrightarrow> int j < rw \<Longrightarrow>
        cell ops ?w (row + i) (col + j) = GUAC_CHAR_COPY (sr + int i) (sc + int j)"
      by (rule rect_size_spec[of row ?h col ?w ?joins ops]) (use rc GUAC_CHAR_COPY in auto)
    have calls: "calls = [surface_copy (sc * disp_char_width d) (sr * disp_char_height d)
        (rw * disp_char_width d) (rh * disp_char_height d) (int col * disp_char_width d)
        (int row * disp_char_height d)]" "ops' = rect_mark ?joins ?w row col rw rh ops"
      using visit GUAC_CHAR_COPY size(1) by (simp_all add: flush_copy_at_def Let_def)
    have len: "length ops = ?h * ?w" using copy_invD(1)[OF inv] .
    show ?thesis
    proof (rule copy_inv_step[OF inv up rc later size(2,3) rect bounds])
      show "length ops' = ?h * ?w" using len by (simp add: calls(2))
      fix r c assume rc': "r < ?h" "c < ?w"
      show "cell ops' ?w r c =
        (if row \<le> r \<and> int r < int row + rh \<and> col \<le> c \<and> int c < int col + rw then GUAC_CHAR_NOP
         else cell ops ?w r c)"
        using rect[of "r - row" "c - col"] rect_mark_cell[OF len rc', of ?joins row col rw rh]
        unfolding calls(2) by auto
    next
      fix r c :: int
      show "cell_pixel (disp_char_width d) (disp_char_height d) i j (paint solid glyph calls scr) r c =
        (if int row \<le> r \<and> r < int row + rh \<and> int col \<le> c \<and> c < int col + rw
         then cell_pixel (disp_char_width d) (disp_char_height d) i j scr (r - int row + sr) (c - int col + sc)
         else cell_pixel (disp_char_width d) (disp_char_height d) i j scr r c)"
        unfolding calls(1) paint.simps by (rule cell_pixel_copy[OF ij])
    qed
  qed (use visit inv in \<open>auto simp: flush_copy_at_def Let_def is_copy_def intro: copy_inv_skip\<close>)
qed

lemma display_cells:
  assumes "display_ok d"
  shows "length (disp_operations d) = nat (disp_height d) * nat (disp_width d)"
proof -
  have "int (length (disp_operations d)) = int (nat (disp_height d) * nat (disp_width d))"
    using assms by (simp add: display_ok_def)
  then show ?thesis by (simp only: of_nat_eq_iff)
qed

lemma on_display_cell:
  assumes "on_display d r c"
  obtains r0 c0 where "r0 < nat (disp_height d)" and "c0 < nat (disp_width d)" and "r = int r0" and "c = int c0"
    and "nat (r * disp_width d + c) = r0 * nat (disp_width d) + c0"
proof -
  have rc: "0 \<le> r" "r < disp_height d" "0 \<le> c" "c < disp_width d" using assms by (auto simp: on_display_def)
  then have "r * disp_width d + c = int (nat r * nat (disp_width d) + nat c)" by simp
  then have "nat (r * disp_width d + c) = nat r * nat (disp_width d) + nat c" by (simp only: nat_int)
  then show ?thesis using that[of "nat r" "nat c"] rc by simp
qed

text \<open>After all visits every copy is done.\<close>

lemma flush_copy_spec:
  assumes ok: "display_ok d" and up: "copies_up (disp_operations d) (nat (disp_width d)) (nat (disp_height d))"
    and ij: "0 \<le> i" "i < disp_char_height d" "0 \<le> j" "j < disp_char_width d"
    and flush: "guac_terminal_display_flush_copy d = (calls, d')"
  shows "\<exists>ops. d' = d\<lparr>disp_operations := ops\<rparr> \<and> length ops = length (disp_operations d)
    \<and> (\<forall>r c. on_display d r c \<longrightarrow>
        op_at d' r c = (if is_copy (op_at d r c) then GUAC_CHAR_NOP else op_at d r c)
        \<and> cell_pixel (disp_char_width d) (disp_char_height d) i j (paint solid glyph calls scr) r c =
          copied (cell_pixel (disp_char_width d) (disp_char_height d) i j scr) r c (op_at d r c))"
proof -
  let ?w = "nat (disp_width d)" and ?h = "nat (disp_height d)"
  let ?P = "cell_pixel (disp_char_width d) (disp_char_height d) i j"
  obtain ops where loop: "flush_loop (flush_copy_at d) (raster d) (disp_operations d) = (calls, ops)"
    and d': "d' = d\<lparr>disp_operations := ops\<rparr>"
    using flush by (auto simp: guac_terminal_display_flush_copy_def split: prod.splits)
  note len = display_cells[OF ok]
  have start: "copy_inv ?w ?h (?P scr) (disp_operations d) (raster d) (disp_operations d) (?P scr)"
    using len by (auto simp: copy_inv_def copy_state_def raster_set)
  have inv: "copy_inv ?w ?h (?P scr) (disp_operations d) [] ops (?P (paint solid glyph calls scr))"
  proof (rule flush_loop_inv[where I = "\<lambda>ps ops scr'. copy_inv ?w ?h (?P scr) (disp_operations d) ps ops (?P scr')",
        OF _ start raster_sorted order_refl loop])
    fix row col ps ops' scr' calls' s'
    assume v: "copy_inv ?w ?h (?P scr) (disp_operations d) ((row, col) # ps) ops' (?P scr')"
      "(row, col) \<in> set (raster d)" "\<forall>(r, c) \<in> set ps. row \<le> r" "flush_copy_at d row col ops' = (calls', s')"
    then show "copy_inv ?w ?h (?P scr) (disp_operations d) ps s' (?P (paint solid glyph calls' scr'))"
      using flush_copy_visit[OF v(1) up _ _ v(3) ij v(4)] by (simp add: raster_set)
  qed
  have "op_at d' r c = (if is_copy (op_at d r c) then GUAC_CHAR_NOP else op_at d r c)
      \<and> ?P (paint solid glyph calls scr) r c = copied (?P scr) r c (op_at d r c)" if rc: "on_display d r c" for r c
  proof -
    from rc obtain r0 c0 where b: "r0 < ?h" "c0 < ?w" "r = int r0" "c = int c0"
      and at: "nat (r * disp_width d + c) = r0 * ?w + c0"
      by (rule on_display_cell)
    have copy: "\<not> is_copy (cell ops ?w r0 c0)" using copy_invD(5)[OF inv b(1,2)] by simp
    have "op_at d' r c = cell ops ?w r0 c0" "op_at d r c = cell (disp_operations d) ?w r0 c0"
      by (simp_all add: op_at_def d' at)
    then show ?thesis
      using copy copy_invD(2)[OF inv b(1,2)] copy_invD(3)[OF inv b(1,2), folded b(3,4)]
      by (auto simp: copied_def is_copy_def split: guac_terminal_operation.splits)
  qed
  moreover have "length ops = length (disp_operations d)" using copy_invD(1)[OF inv] len by simp
  ultimately show ?thesis using d' by auto
qed

section \<open>The clears\<close>

definition is_clear :: "guac_terminal_operation \<Rightarrow> bool" where
  "is_clear op \<longleftrightarrow> (\<exists>ch. op = GUAC_CHAR_SET ch \<and> \<not> guac_terminal_has_glyph (ch_value ch))"

text \<open>
  The colour of every cell that is cleared is the one its palette index stands for now: the
  palette was not changed after the colour was chosen.
\<close>

definition color_current :: "guac_terminal_display \<Rightarrow> guac_terminal_color \<Rightarrow> bool" where
  "color_current d c \<longleftrightarrow> - 3 \<le> palette_index c \<and> palette_index c \<le> 255
     \<and> guac_terminal_display_lookup_color d (palette_index c) c = c"

definition palette_current :: "guac_terminal_display \<Rightarrow> guac_terminal_operation list \<Rightarrow> bool" where
  "palette_current d ops \<longleftrightarrow> (\<forall>ch. GUAC_CHAR_SET ch \<in> set ops \<longrightarrow> \<not> guac_terminal_has_glyph (ch_value ch) \<longrightarrow>
     color_current d (clear_color ch))"

lemma color_current_joins:
  assumes "color_current d a" and "color_current d b" and "guac_terminal_colorcmp a b = 0"
  shows "same_rgb a b"
  using assms
  by (auto simp: colorcmp_zero color_current_def guac_terminal_display_lookup_color_def same_rgb_def split: if_splits)

definition cleared :: "(byte \<Rightarrow> byte \<Rightarrow> byte \<Rightarrow> 'p) \<Rightarrow> guac_terminal_char \<Rightarrow> 'p" where
  "cleared solid ch =
     solid (color_red (clear_color ch)) (color_green (clear_color ch)) (color_blue (clear_color ch))"

definition clear_inv ::
    "(byte \<Rightarrow> byte \<Rightarrow> byte \<Rightarrow> 'p) \<Rightarrow> nat \<Rightarrow> nat \<Rightarrow> (int \<Rightarrow> int \<Rightarrow> 'p) \<Rightarrow> guac_terminal_operation list
      \<Rightarrow> (nat \<times> nat) list \<Rightarrow> guac_terminal_operation list \<Rightarrow> (int \<Rightarrow> int \<Rightarrow> 'p) \<Rightarrow> bool" where
  "clear_inv solid w h S0 f ps ops S \<longleftrightarrow>
     length ops = h * w
     \<and> (\<forall>r < h. \<forall>c < w.
          cell ops w r c = cell f w r c \<and> S (int r) (int c) = S0 (int r) (int c)
          \<or> (\<exists>ch. cell f w r c = GUAC_CHAR_SET ch \<and> \<not> guac_terminal_has_glyph (ch_value ch)
               \<and> cell ops w r c = GUAC_CHAR_NOP \<and> S (int r) (int c) = cleared solid ch))
     \<and> (\<forall>r < h. \<forall>c < w. (r, c) \<notin> set ps \<longrightarrow> \<not> is_clear (cell ops w r c))"

lemma clear_invD:
  assumes "clear_inv solid w h S0 f ps ops S"
  shows "length ops = h * w"
    and "r < h \<Longrightarrow> c < w \<Longrightarrow>
      cell ops w r c = cell f w r c \<and> S (int r) (int c) = S0 (int r) (int c)
      \<or> (\<exists>ch. cell f w r c = GUAC_CHAR_SET ch \<and> \<not> guac_terminal_has_glyph (ch_value ch)
           \<and> cell ops w r c = GUAC_CHAR_NOP \<and> S (int r) (int c) = cleared solid ch)"
    and "r < h \<Longrightarrow> c < w \<Longrightarrow> (r, c) \<notin> set ps \<Longrightarrow> \<not> is_clear (cell ops w r c)"
  using assms unfolding clear_inv_def by blast+

lemma flush_clear_visit:
  assumes inv: "clear_inv solid (nat (disp_width d)) (nat (disp_height d)) S0 f ((row, col) # ps) ops
      (cell_pixel (disp_char_width d) (disp_char_height d) i j scr)"
    and pal: "palette_current d f" and len: "length f = nat (disp_height d) * nat (disp_width d)"
    and rc: "row < nat (disp_height d)" "col < nat (disp_width d)"
    and ij: "0 \<le> i" "i < disp_char_height d" "0 \<le> j" "j < disp_char_width d"
    and visit: "flush_clear_at d row col ops = (calls, ops')"
  shows "clear_inv solid (nat (disp_width d)) (nat (disp_height d)) S0 f ps ops'
    (cell_pixel (disp_char_width d) (disp_char_height d) i j (paint solid glyph calls scr))"
proof (cases "is_clear (cell ops (nat (disp_width d)) row col)")
  case False
  then have eq: "calls = []" "ops' = ops"
    using visit by (auto simp: flush_clear_at_def is_clear_def Let_def split: guac_terminal_operation.splits if_splits)
  have "\<not> is_clear (cell ops (nat (disp_width d)) r c)"
    if "r < nat (disp_height d)" "c < nat (disp_width d)" "(r, c) \<notin> set ps" for r c
    using clear_invD(3)[OF inv that(1,2)] that(3) False by (cases "(r, c) = (row, col)") auto
  with inv show ?thesis unfolding eq clear_inv_def by simp
next
  case True
  let ?w = "nat (disp_width d)" and ?h = "nat (disp_height d)"
  obtain ch where ch: "cell ops ?w row col = GUAC_CHAR_SET ch" "\<not> guac_terminal_has_glyph (ch_value ch)"
    using True by (auto simp: is_clear_def)
  have f: "cell f ?w row col = GUAC_CHAR_SET ch" using clear_invD(2)[OF inv rc] ch(1) by auto
  define k where "k = guac_terminal_display_lookup_color d (palette_index (clear_color ch)) (clear_color ch)"
  have cur: "color_current d (clear_color ch')"
    if "cell f ?w r c = GUAC_CHAR_SET ch'" "\<not> guac_terminal_has_glyph (ch_value ch')" "r < ?h" "c < ?w" for ch' r c
    using pal that cell_less[OF that(3,4)] len unfolding palette_current_def by (metis nth_mem)
  have k: "k = clear_color ch" using cur[OF f ch(2) rc] by (simp add: k_def color_current_def)
  have "joins_clear k (cell ops ?w row col)"
    using ch by (simp add: joins_clear_def colorcmp_zero k same_rgb_def)
  then obtain rw rh where size: "rect_size (\<lambda>i j. joins_clear k) ops ?w ?h row col = (rw, rh)" "1 \<le> rw" "1 \<le> rh"
    and rect: "\<And>i j. int i < rh \<Longrightarrow> int j < rw \<Longrightarrow> joins_clear k (cell ops ?w (row + i) (col + j))"
    using rect_size_spec[of row ?h col ?w "\<lambda>i j. joins_clear k" ops] rc by metis
  have calls: "calls = [surface_set (int col * disp_char_width d) (int row * disp_char_height d)
      (rw * disp_char_width d) (rh * disp_char_height d) (color_red k) (color_green k) (color_blue k) 0xFF]"
    and ops': "ops' = rect_mark (\<lambda>i j. joins_clear k) ?w row col rw rh ops"
    using visit ch size(1) by (simp_all add: flush_clear_at_def Let_def k_def)
  have pix: "cell_pixel (disp_char_width d) (disp_char_height d) i j (paint solid glyph calls scr) r c =
      (if int row \<le> r \<and> r < int row + rh \<and> int col \<le> c \<and> c < int col + rw
       then solid (color_red k) (color_green k) (color_blue k)
       else cell_pixel (disp_char_width d) (disp_char_height d) i j scr r c)" for r c
    unfolding calls paint.simps by (rule cell_pixel_set[OF ij])
  define R where "R r c \<longleftrightarrow> row \<le> r \<and> int r < int row + rh \<and> col \<le> c \<and> int c < int col + rw" for r c
  have cell': "cell ops' ?w r c = (if R r c then GUAC_CHAR_NOP else cell ops ?w r c)" if "r < ?h" "c < ?w" for r c
    using rect[of "r - row" "c - col"] rect_mark_cell[OF clear_invD(1)[OF inv] that, of "\<lambda>i j. joins_clear k" row col rw rh]
    unfolding ops' R_def by auto
  show ?thesis
    unfolding clear_inv_def
  proof (intro conjI allI impI)
    show "length ops' = ?h * ?w" using clear_invD(1)[OF inv] by (simp add: ops')
    fix r c assume b: "r < ?h" "c < ?w"
    show "cell ops' ?w r c = cell f ?w r c
        \<and> cell_pixel (disp_char_width d) (disp_char_height d) i j (paint solid glyph calls scr) (int r) (int c)
          = S0 (int r) (int c)
      \<or> (\<exists>ch. cell f ?w r c = GUAC_CHAR_SET ch \<and> \<not> guac_terminal_has_glyph (ch_value ch)
           \<and> cell ops' ?w r c = GUAC_CHAR_NOP
           \<and> cell_pixel (disp_char_width d) (disp_char_height d) i j (paint solid glyph calls scr) (int r) (int c)
             = cleared solid ch)"
    proof (cases "R r c")
      case True
      then have "joins_clear k (cell ops ?w r c)" using rect[of "r - row" "c - col"] by (auto simp: R_def)
      then obtain ch' where ch': "cell ops ?w r c = GUAC_CHAR_SET ch'" "\<not> guac_terminal_has_glyph (ch_value ch')"
        "guac_terminal_colorcmp (clear_color ch') k = 0"
        by (auto simp: joins_clear_def split: guac_terminal_operation.splits)
      have f': "cell f ?w r c = GUAC_CHAR_SET ch'" using clear_invD(2)[OF inv b] ch'(1) by auto
      have "same_rgb (clear_color ch') k"
        by (rule color_current_joins[OF cur[OF f' ch'(2) b] _ ch'(3)]) (use cur[OF f ch(2) rc] k in simp)
      then have "solid (color_red k) (color_green k) (color_blue k) = cleared solid ch'"
        by (simp add: same_rgb_def cleared_def)
      then show ?thesis
        using True f' ch'(2) cell'[OF b] pix[of "int r" "int c"] by (auto simp: R_def)
    next
      case False
      then show ?thesis
        using clear_invD(2)[OF inv b] cell'[OF b] pix[of "int r" "int c"] by (auto simp: R_def)
    qed
    show "\<not> is_clear (cell ops' ?w r c)" if "(r, c) \<notin> set ps"
    proof (cases "(r, c) = (row, col)")
      case True
      then have "R r c" using size(2,3) by (auto simp: R_def)
      then show ?thesis using cell'[OF b] by (auto simp: is_clear_def)
    next
      case False
      then show ?thesis using clear_invD(3)[OF inv b] that cell'[OF b] by (auto simp: is_clear_def)
    qed
  qed
qed

lemma flush_clear_spec:
  assumes ok: "display_ok d" and pal: "palette_current d (disp_operations d)"
    and ij: "0 \<le> i" "i < disp_char_height d" "0 \<le> j" "j < disp_char_width d"
    and flush: "guac_terminal_display_flush_clear d = (calls, d')"
  shows "\<exists>ops. d' = d\<lparr>disp_operations := ops\<rparr> \<and> length ops = length (disp_operations d)
    \<and> (\<forall>r c. on_display d r c \<longrightarrow>
        op_at d' r c = (if is_clear (op_at d r c) then GUAC_CHAR_NOP else op_at d r c)
        \<and> cell_pixel (disp_char_width d) (disp_char_height d) i j (paint solid glyph calls scr) r c =
          (case op_at d r c of
             GUAC_CHAR_SET ch \<Rightarrow> if guac_terminal_has_glyph (ch_value ch)
               then cell_pixel (disp_char_width d) (disp_char_height d) i j scr r c else cleared solid ch
           | _ \<Rightarrow> cell_pixel (disp_char_width d) (disp_char_height d) i j scr r c))"
proof -
  let ?w = "nat (disp_width d)" and ?h = "nat (disp_height d)"
  let ?P = "cell_pixel (disp_char_width d) (disp_char_height d) i j"
  let ?inv = "\<lambda>ps ops scr'. clear_inv solid ?w ?h (?P scr) (disp_operations d) ps ops (?P scr')"
  obtain ops where loop: "flush_loop (flush_clear_at d) (raster d) (disp_operations d) = (calls, ops)"
    and d': "d' = d\<lparr>disp_operations := ops\<rparr>"
    using flush by (auto simp: guac_terminal_display_flush_clear_def split: prod.splits)
  note len = display_cells[OF ok]
  have start: "?inv (raster d) (disp_operations d) scr"
    using len by (auto simp: clear_inv_def raster_set)
  have inv: "?inv [] ops (paint solid glyph calls scr)"
  proof (rule flush_loop_inv[where I = ?inv, OF _ start raster_sorted order_refl loop])
    fix row col ps ops' scr' calls' s'
    assume v: "?inv ((row, col) # ps) ops' scr'" "(row, col) \<in> set (raster d)"
      "flush_clear_at d row col ops' = (calls', s')"
    then show "?inv ps s' (paint solid glyph calls' scr')"
      using flush_clear_visit[OF v(1) pal len _ _ ij v(3)] by (simp add: raster_set)
  qed
  have "op_at d' r c = (if is_clear (op_at d r c) then GUAC_CHAR_NOP else op_at d r c)
      \<and> ?P (paint solid glyph calls scr) r c =
          (case op_at d r c of
             GUAC_CHAR_SET ch \<Rightarrow> if guac_terminal_has_glyph (ch_value ch) then ?P scr r c else cleared solid ch
           | _ \<Rightarrow> ?P scr r c)" if rc: "on_display d r c" for r c
  proof -
    from rc obtain r0 c0 where b: "r0 < ?h" "c0 < ?w" "r = int r0" "c = int c0"
      and at: "nat (r * disp_width d + c) = r0 * ?w + c0"
      by (rule on_display_cell)
    have "op_at d' r c = cell ops ?w r0 c0" "op_at d r c = cell (disp_operations d) ?w r0 c0"
      by (simp_all add: op_at_def d' at)
    moreover have "\<not> is_clear (cell ops ?w r0 c0)" using clear_invD(3)[OF inv b(1,2)] by simp
    ultimately show ?thesis
      using clear_invD(2)[OF inv b(1,2), folded b(3,4)]
      by (auto simp: is_clear_def split: guac_terminal_operation.splits)
  qed
  moreover have "length ops = length (disp_operations d)" using clear_invD(1)[OF inv] len by simp
  ultimately show ?thesis using d' by auto
qed

section \<open>The glyphs\<close>

text \<open>The pixel that drawing a character leaves, and the pixel that any character shall leave.\<close>

definition inked ::
    "(byte list \<Rightarrow> guac_terminal_color \<Rightarrow> guac_terminal_color \<Rightarrow> int \<Rightarrow> int \<Rightarrow> 'p) \<Rightarrow> guac_terminal_display
      \<Rightarrow> int \<Rightarrow> int \<Rightarrow> guac_terminal_char \<Rightarrow> 'p" where
  "inked glyph d i j ch =
     (let (bytes, utf8) = guac_terminal_encode_utf8 (ch_value ch) [0, 0, 0, 0];
          d' = guac_terminal_set_colors (ch_attributes ch) d
      in glyph (take (nat bytes) utf8) (disp_glyph_foreground d') (disp_glyph_background d') j i)"

definition char_pixel ::
    "(byte \<Rightarrow> byte \<Rightarrow> byte \<Rightarrow> 'p) \<Rightarrow> (byte list \<Rightarrow> guac_terminal_color \<Rightarrow> guac_terminal_color \<Rightarrow> int \<Rightarrow> int \<Rightarrow> 'p)
      \<Rightarrow> guac_terminal_display \<Rightarrow> int \<Rightarrow> int \<Rightarrow> guac_terminal_char \<Rightarrow> 'p" where
  "char_pixel solid glyph d i j ch =
     (if guac_terminal_has_glyph (ch_value ch) then inked glyph d i j ch else cleared solid ch)"

definition same_palette :: "guac_terminal_display \<Rightarrow> guac_terminal_display \<Rightarrow> bool" where
  "same_palette d d' \<longleftrightarrow> disp_palette d' = disp_palette d
     \<and> disp_default_foreground d' = disp_default_foreground d
     \<and> disp_default_background d' = disp_default_background d
     \<and> disp_width d' = disp_width d \<and> disp_height d' = disp_height d
     \<and> disp_char_width d' = disp_char_width d \<and> disp_char_height d' = disp_char_height d"

lemma same_palette_set_colors: "same_palette d (guac_terminal_set_colors a d') = same_palette d d'"
  by (simp add: same_palette_def guac_terminal_set_colors_def Let_def split: prod.splits)

lemma same_palette_glyph:
  assumes "same_palette d d'"
  shows "disp_glyph_foreground (guac_terminal_set_colors a d') = disp_glyph_foreground (guac_terminal_set_colors a d)"
    and "disp_glyph_background (guac_terminal_set_colors a d') = disp_glyph_background (guac_terminal_set_colors a d)"
proof -
  have "guac_terminal_display_lookup_color d' = guac_terminal_display_lookup_color d"
    using assms by (intro ext) (simp add: guac_terminal_display_lookup_color_def same_palette_def)
  moreover have "disp_palette d' = disp_palette d" using assms by (simp add: same_palette_def)
  ultimately show
    "disp_glyph_foreground (guac_terminal_set_colors a d') = disp_glyph_foreground (guac_terminal_set_colors a d)"
    "disp_glyph_background (guac_terminal_set_colors a d') = disp_glyph_background (guac_terminal_set_colors a d)"
    by (simp_all add: guac_terminal_set_colors_def Let_def)
qed

lemma same_palette_inked: "same_palette d d' \<Longrightarrow> inked glyph d' i j ch = inked glyph d i j ch"
  by (simp add: inked_def same_palette_glyph Let_def)

text \<open>The characters to be drawn are one cell wide.\<close>

definition narrow_glyphs :: "(int \<Rightarrow> int) \<Rightarrow> guac_terminal_operation list \<Rightarrow> bool" where
  "narrow_glyphs wcwidth ops \<longleftrightarrow> (\<forall>ch. GUAC_CHAR_SET ch \<in> set ops \<longrightarrow> guac_terminal_has_glyph (ch_value ch) \<longrightarrow>
     wcwidth (ch_value ch) = 1 \<or> wcwidth (ch_value ch) < 0)"

definition is_set :: "guac_terminal_operation \<Rightarrow> bool" where
  "is_set op \<longleftrightarrow> (\<exists>ch. op = GUAC_CHAR_SET ch)"

definition set_inv ::
    "(byte list \<Rightarrow> guac_terminal_color \<Rightarrow> guac_terminal_color \<Rightarrow> int \<Rightarrow> int \<Rightarrow> 'p) \<Rightarrow> guac_terminal_display
      \<Rightarrow> int \<Rightarrow> int \<Rightarrow> (int \<Rightarrow> int \<Rightarrow> 'p) \<Rightarrow> (nat \<times> nat) list \<Rightarrow> guac_terminal_display \<Rightarrow> (int \<Rightarrow> int \<Rightarrow> 'p) \<Rightarrow> bool" where
  "set_inv glyph d0 i j S0 ps d S \<longleftrightarrow>
     same_palette d0 d \<and> length (disp_operations d) = length (disp_operations d0)
     \<and> (\<forall>r < nat (disp_height d0). \<forall>c < nat (disp_width d0).
          cell (disp_operations d) (nat (disp_width d0)) r c = cell (disp_operations d0) (nat (disp_width d0)) r c
            \<and> S (int r) (int c) = S0 (int r) (int c)
          \<or> (\<exists>ch. cell (disp_operations d0) (nat (disp_width d0)) r c = GUAC_CHAR_SET ch
               \<and> cell (disp_operations d) (nat (disp_width d0)) r c = GUAC_CHAR_NOP
               \<and> S (int r) (int c) = inked glyph d0 i j ch))
     \<and> (\<forall>r < nat (disp_height d0). \<forall>c < nat (disp_width d0). (r, c) \<notin> set ps \<longrightarrow>
          \<not> is_set (cell (disp_operations d) (nat (disp_width d0)) r c))"

lemma set_invD:
  assumes "set_inv glyph d0 i j S0 ps d S"
  shows "same_palette d0 d" and "length (disp_operations d) = length (disp_operations d0)"
    and "r < nat (disp_height d0) \<Longrightarrow> c < nat (disp_width d0) \<Longrightarrow>
      cell (disp_operations d) (nat (disp_width d0)) r c = cell (disp_operations d0) (nat (disp_width d0)) r c
        \<and> S (int r) (int c) = S0 (int r) (int c)
      \<or> (\<exists>ch. cell (disp_operations d0) (nat (disp_width d0)) r c = GUAC_CHAR_SET ch
           \<and> cell (disp_operations d) (nat (disp_width d0)) r c = GUAC_CHAR_NOP
           \<and> S (int r) (int c) = inked glyph d0 i j ch)"
    and "r < nat (disp_height d0) \<Longrightarrow> c < nat (disp_width d0) \<Longrightarrow> (r, c) \<notin> set ps \<Longrightarrow>
      \<not> is_set (cell (disp_operations d) (nat (disp_width d0)) r c)"
  subgoal using assms unfolding set_inv_def by (elim conjE)
  subgoal using assms unfolding set_inv_def by (elim conjE)
  subgoal using assms[unfolded set_inv_def, THEN conjunct2, THEN conjunct2, THEN conjunct1] by blast
  subgoal using assms[unfolded set_inv_def, THEN conjunct2, THEN conjunct2, THEN conjunct2] by blast
  done

lemma cell_pixel_draw:
  assumes "0 \<le> i" and "i < ch" and "0 \<le> j" and "j < cw"
  shows "cell_pixel cw ch i j
      (apply_call solid glyph (surface_draw (cw * col) (ch * row) cw ch utf8 fg bg) scr) r c =
    (if r = row \<and> c = col then glyph utf8 fg bg j i else cell_pixel cw ch i j scr r c)"
  using cell_between[OF assms(3,4), of col c 1] cell_between[OF assms(1,2), of row r 1]
  by (auto simp: cell_pixel_def mult.commute)

lemma cell_inj: "c < w \<Longrightarrow> c' < w \<Longrightarrow> r * w + c = r' * w + c' \<longleftrightarrow> r = r' \<and> c = (c' :: nat)"
proof
  assume c: "c < w" "c' < w" and eq: "r * w + c = r' * w + c'"
  have "(r * w + c) div w = r" "(r' * w + c') div w = r'" using c by auto
  with eq show "r = r' \<and> c = c'" by auto
qed auto

lemma flush_set_visit:
  assumes inv: "set_inv glyph d0 i j S0 ((row, col) # ps) d
      (cell_pixel (disp_char_width d0) (disp_char_height d0) i j scr)"
    and len: "length (disp_operations d0) = nat (disp_height d0) * nat (disp_width d0)"
    and narrow: "narrow_glyphs wcwidth (disp_operations d0)"
    and glyphs: "\<And>op. op \<in> set (disp_operations d0) \<Longrightarrow> \<not> is_clear op"
    and rc: "row < nat (disp_height d0)" "col < nat (disp_width d0)"
    and ij: "0 \<le> i" "i < disp_char_height d0" "0 \<le> j" "j < disp_char_width d0"
    and visit: "flush_set_at wcwidth row col d = (calls, d')"
  shows "set_inv glyph d0 i j S0 ps d'
    (cell_pixel (disp_char_width d0) (disp_char_height d0) i j (paint solid glyph calls scr))"
proof -
  let ?w = "nat (disp_width d0)" and ?h = "nat (disp_height d0)"
  note same = set_invD(1)[OF inv]
  have w: "disp_width d = disp_width d0" using same by (simp add: same_palette_def)
  show ?thesis
  proof (cases "is_set (cell (disp_operations d) ?w row col)")
    case False
    then have eq: "calls = []" "d' = d"
      using visit by (auto simp: flush_set_at_def is_set_def w split: guac_terminal_operation.splits)
    have "\<not> is_set (cell (disp_operations d) ?w r c)" if "r < ?h" "c < ?w" "(r, c) \<notin> set ps" for r c
      using set_invD(4)[OF inv that(1,2)] that(3) False by (cases "(r, c) = (row, col)") auto
    with inv show ?thesis unfolding eq set_inv_def by simp
  next
    case True
    then obtain ch where ch: "cell (disp_operations d) ?w row col = GUAC_CHAR_SET ch" by (auto simp: is_set_def)
    have f: "cell (disp_operations d0) ?w row col = GUAC_CHAR_SET ch"
      using set_invD(3)[OF inv rc] ch by auto
    have mem: "GUAC_CHAR_SET ch \<in> set (disp_operations d0)" using f cell_less[OF rc] len by (metis nth_mem)
    then have g: "guac_terminal_has_glyph (ch_value ch)" using glyphs by (auto simp: is_clear_def)
    define d1 where "d1 = guac_terminal_set_colors (ch_attributes ch) d"
    have d1: "same_palette d0 d1" "disp_operations d1 = disp_operations d"
      using same by (simp_all add: d1_def same_palette_set_colors)
        (simp add: guac_terminal_set_colors_def Let_def split: prod.splits)
    have dims: "disp_width d1 = disp_width d0" "disp_char_width d1 = disp_char_width d0"
      "disp_char_height d1 = disp_char_height d0" using d1(1) by (simp_all add: same_palette_def)
    obtain bytes utf8 where enc: "guac_terminal_encode_utf8 (ch_value ch) [0, 0, 0, 0] = (bytes, utf8)" by fastforce
    have width: "(if wcwidth (ch_value ch) < 0 then 1 else wcwidth (ch_value ch)) = 1"
      using narrow mem g by (auto simp: narrow_glyphs_def)
    have calls: "calls = [surface_draw (disp_char_width d0 * int col) (disp_char_height d0 * int row)
          (disp_char_width d0) (disp_char_height d0) (take (nat bytes) utf8)
          (disp_glyph_foreground d1) (disp_glyph_background d1)]"
      and d': "d' = d1\<lparr>disp_operations := (disp_operations d)[row * ?w + col := GUAC_CHAR_NOP]\<rparr>"
      using visit ch g width by (auto simp: flush_set_at_def guac_terminal_set_glyph_def w dims enc d1(2) d1_def[symmetric]
          simp del: mult_eq_1_iff split: if_splits)
    have ink: "glyph (take (nat bytes) utf8) (disp_glyph_foreground d1) (disp_glyph_background d1) j i = inked glyph d0 i j ch"
      using same_palette_inked[OF same, of glyph i j ch] by (simp add: inked_def enc d1_def Let_def)
    have pix: "cell_pixel (disp_char_width d0) (disp_char_height d0) i j (paint solid glyph calls scr) (int r) (int c) =
        (if r = row \<and> c = col then inked glyph d0 i j ch
         else cell_pixel (disp_char_width d0) (disp_char_height d0) i j scr (int r) (int c))" for r c
      unfolding calls paint.simps cell_pixel_draw[OF ij] ink by simp
    have cell': "cell (disp_operations d') ?w r c =
        (if r = row \<and> c = col then GUAC_CHAR_NOP else cell (disp_operations d) ?w r c)" if "c < ?w" for r c
      using cell_inj[OF that rc(2), of r row] cell_less[OF rc] len set_invD(2)[OF inv]
      by (auto simp: d' nth_list_update)
    show ?thesis
      unfolding set_inv_def
    proof (intro conjI allI impI)
      show "same_palette d0 d'" using d1(1) by (simp add: d' same_palette_def)
      show "length (disp_operations d') = length (disp_operations d0)" using set_invD(2)[OF inv] by (simp add: d')
      fix r c assume b: "r < ?h" "c < ?w"
      show "cell (disp_operations d') ?w r c = cell (disp_operations d0) ?w r c
            \<and> cell_pixel (disp_char_width d0) (disp_char_height d0) i j (paint solid glyph calls scr) (int r) (int c)
              = S0 (int r) (int c)
          \<or> (\<exists>ch. cell (disp_operations d0) ?w r c = GUAC_CHAR_SET ch
               \<and> cell (disp_operations d') ?w r c = GUAC_CHAR_NOP
               \<and> cell_pixel (disp_char_width d0) (disp_char_height d0) i j (paint solid glyph calls scr) (int r) (int c)
                 = inked glyph d0 i j ch)"
        using f set_invD(3)[OF inv b] cell'[OF b(2), of r] pix[of r c] by (cases "r = row \<and> c = col") auto
      show "\<not> is_set (cell (disp_operations d') ?w r c)" if "(r, c) \<notin> set ps"
        using that set_invD(4)[OF inv b] cell'[OF b(2), of r] by (auto simp: is_set_def)
    qed
  qed
qed

lemma flush_set_spec:
  assumes ok: "display_ok d" and narrow: "narrow_glyphs wcwidth (disp_operations d)"
    and glyphs: "\<And>op. op \<in> set (disp_operations d) \<Longrightarrow> \<not> is_clear op"
    and ij: "0 \<le> i" "i < disp_char_height d" "0 \<le> j" "j < disp_char_width d"
    and flush: "guac_terminal_display_flush_set wcwidth d = (calls, d')"
  shows "same_palette d d' \<and> length (disp_operations d') = length (disp_operations d)
    \<and> (\<forall>r c. on_display d r c \<longrightarrow>
        op_at d' r c = (if is_set (op_at d r c) then GUAC_CHAR_NOP else op_at d r c)
        \<and> cell_pixel (disp_char_width d) (disp_char_height d) i j (paint solid glyph calls scr) r c =
          (case op_at d r c of
             GUAC_CHAR_SET ch \<Rightarrow> inked glyph d i j ch
           | _ \<Rightarrow> cell_pixel (disp_char_width d) (disp_char_height d) i j scr r c))"
proof -
  let ?w = "nat (disp_width d)" and ?h = "nat (disp_height d)"
  let ?P = "cell_pixel (disp_char_width d) (disp_char_height d) i j"
  let ?inv = "\<lambda>ps d' scr'. set_inv glyph d i j (?P scr) ps d' (?P scr')"
  note len = display_cells[OF ok]
  have loop: "flush_loop (flush_set_at wcwidth) (raster d) d = (calls, d')"
    using flush by (simp add: guac_terminal_display_flush_set_def)
  have start: "?inv (raster d) d scr" by (auto simp: set_inv_def raster_set same_palette_def)
  have inv: "?inv [] d' (paint solid glyph calls scr)"
  proof (rule flush_loop_inv[where I = ?inv, OF _ start raster_sorted order_refl loop])
    fix row col ps s scr' calls' s'
    assume v: "?inv ((row, col) # ps) s scr'" "(row, col) \<in> set (raster d)"
      "flush_set_at wcwidth row col s = (calls', s')"
    then show "?inv ps s' (paint solid glyph calls' scr')"
      using flush_set_visit[OF v(1) len narrow glyphs _ _ ij v(3)] by (simp add: raster_set)
  qed
  have "op_at d' r c = (if is_set (op_at d r c) then GUAC_CHAR_NOP else op_at d r c)
      \<and> ?P (paint solid glyph calls scr) r c =
          (case op_at d r c of GUAC_CHAR_SET ch \<Rightarrow> inked glyph d i j ch | _ \<Rightarrow> ?P scr r c)"
    if rc: "on_display d r c" for r c
  proof -
    from rc obtain r0 c0 where b: "r0 < ?h" "c0 < ?w" "r = int r0" "c = int c0"
      and at: "nat (r * disp_width d + c) = r0 * ?w + c0"
      by (rule on_display_cell)
    have "disp_width d' = disp_width d" using set_invD(1)[OF inv] by (simp add: same_palette_def)
    then have "op_at d' r c = cell (disp_operations d') ?w r0 c0" "op_at d r c = cell (disp_operations d) ?w r0 c0"
      by (simp_all add: op_at_def at)
    moreover have "\<not> is_set (cell (disp_operations d') ?w r0 c0)" using set_invD(4)[OF inv b(1,2)] by simp
    ultimately show ?thesis
      using set_invD(3)[OF inv b(1,2), folded b(3,4)]
      by (auto simp: is_set_def split: guac_terminal_operation.splits)
  qed
  then show ?thesis using set_invD(1,2)[OF inv] by blast
qed

section \<open>The whole flush\<close>

lemma ops_on_display:
  assumes "display_ok d" and "op \<in> set (disp_operations d)"
  obtains r c where "on_display d r c" and "op_at d r c = op"
proof -
  obtain k where k: "k < length (disp_operations d)" "disp_operations d ! k = op"
    using assms(2) by (auto simp: in_set_conv_nth)
  let ?w = "nat (disp_width d)"
  have w: "0 < ?w" and len: "length (disp_operations d) = nat (disp_height d) * ?w"
    using assms(1) display_cells[OF assms(1)] by (auto simp: display_ok_def)
  have m: "k div ?w < nat (disp_height d)" "k mod ?w < ?w" using k(1) len w by (simp_all add: less_mult_imp_div_less)
  have "on_display d (int (k div ?w)) (int (k mod ?w))"
    unfolding on_display_def using m by (intro conjI) linarith+
  moreover have "int (k div ?w) * disp_width d + int (k mod ?w) = int k"
    using w by (metis div_mult_mod_eq int_nat_eq less_imp_le of_nat_add of_nat_mult zero_less_nat_eq)
  then have "op_at d (int (k div ?w)) (int (k mod ?w)) = op" by (simp add: op_at_def k(2))
  ultimately show ?thesis by (rule that)
qed

lemma ops_subset:
  assumes "display_ok d" and "display_ok d'" and "\<And>r c. on_display d' r c \<Longrightarrow> on_display d r c"
    and "\<And>r c. on_display d r c \<Longrightarrow> op_at d' r c = GUAC_CHAR_NOP \<or> op_at d' r c = op_at d r c"
    and "GUAC_CHAR_SET ch \<in> set (disp_operations d')"
  shows "GUAC_CHAR_SET ch \<in> set (disp_operations d)"
proof -
  obtain r c where rc: "on_display d' r c" "op_at d' r c = GUAC_CHAR_SET ch"
    using assms(2,5) by (rule ops_on_display)
  then have "on_display d r c" "op_at d r c = GUAC_CHAR_SET ch" using assms(3,4) by fastforce+
  then show ?thesis using op_index(1)[OF assms(1)] unfolding op_at_def by (metis nth_mem)
qed

lemma flush_draws:
  assumes ok: "display_ok d" and up: "copies_up (disp_operations d) (nat (disp_width d)) (nat (disp_height d))"
    and pal: "palette_current d (disp_operations d)" and narrow: "narrow_glyphs wcwidth (disp_operations d)"
    and ij: "0 \<le> i" "i < disp_char_height d" "0 \<le> j" "j < disp_char_width d"
    and flush: "guac_terminal_display_flush wcwidth d = (calls, d')"
    and rc: "on_display d r c"
  shows "display_ok d'" and "op_at d' r c = GUAC_CHAR_NOP"
    and "cell_pixel (disp_char_width d) (disp_char_height d) i j (paint solid glyph calls scr) r c =
      shown (char_pixel solid glyph d i j) (cell_pixel (disp_char_width d) (disp_char_height d) i j scr) d r c"
proof -
  let ?P = "cell_pixel (disp_char_width d) (disp_char_height d) i j"
  obtain copies d1 clears d2 sets where
    f1: "guac_terminal_display_flush_copy d = (copies, d1)" and
    f2: "guac_terminal_display_flush_clear d1 = (clears, d2)" and
    f3: "guac_terminal_display_flush_set wcwidth d2 = (sets, d')" and
    calls: "calls = copies @ clears @ sets @ [surface_flush]"
    using flush by (auto simp: guac_terminal_display_flush_def split: prod.splits)
  obtain ops1 where d1: "d1 = d\<lparr>disp_operations := ops1\<rparr>" "length ops1 = length (disp_operations d)"
    and at1: "\<And>r c. on_display d r c \<Longrightarrow>
        op_at d1 r c = (if is_copy (op_at d r c) then GUAC_CHAR_NOP else op_at d r c)"
    and pix1: "\<And>r c. on_display d r c \<Longrightarrow>
        ?P (paint solid glyph copies scr) r c = copied (?P scr) r c (op_at d r c)"
    using flush_copy_spec[OF ok up ij f1] by blast
  have ok1: "display_ok d1" and on1: "on_display d1 r c = on_display d r c" for r c
    using ok d1 by simp_all
  have sub1: "GUAC_CHAR_SET ch \<in> set (disp_operations d)" if "GUAC_CHAR_SET ch \<in> set (disp_operations d1)" for ch
    by (rule ops_subset[OF ok ok1 _ _ that]) (auto simp: on1 at1)
  have "guac_terminal_display_lookup_color d1 = guac_terminal_display_lookup_color d"
    by (intro ext) (simp add: guac_terminal_display_lookup_color_def d1(1))
  then have pal1: "palette_current d1 (disp_operations d1)"
    using pal sub1 unfolding palette_current_def color_current_def by auto
  have ij1: "0 \<le> i" "i < disp_char_height d1" "0 \<le> j" "j < disp_char_width d1" using ij by (simp_all add: d1(1))
  have cwh1: "disp_char_width d1 = disp_char_width d" "disp_char_height d1 = disp_char_height d"
    by (simp_all add: d1(1))
  obtain ops2 where d2: "d2 = d1\<lparr>disp_operations := ops2\<rparr>" "length ops2 = length (disp_operations d1)"
    and at2: "\<And>r c. on_display d r c \<Longrightarrow>
        op_at d2 r c = (if is_clear (op_at d1 r c) then GUAC_CHAR_NOP else op_at d1 r c)"
    and pix2: "\<And>r c. on_display d r c \<Longrightarrow>
        ?P (paint solid glyph clears (paint solid glyph copies scr)) r c =
          (case op_at d1 r c of
             GUAC_CHAR_SET ch \<Rightarrow> if guac_terminal_has_glyph (ch_value ch)
               then ?P (paint solid glyph copies scr) r c else cleared solid ch
           | _ \<Rightarrow> ?P (paint solid glyph copies scr) r c)"
    using flush_clear_spec[OF ok1 pal1 ij1 f2, of solid glyph "paint solid glyph copies scr"]
    unfolding on1 cwh1 by blast
  have ok2: "display_ok d2" and on2: "on_display d2 r c = on_display d r c" for r c
    using ok1 d2 by (simp_all add: on1)
  have sub2: "GUAC_CHAR_SET ch \<in> set (disp_operations d1)" if "GUAC_CHAR_SET ch \<in> set (disp_operations d2)" for ch
    by (rule ops_subset[OF ok1 ok2 _ _ that]) (auto simp: on1 on2 at2)
  have narrow2: "narrow_glyphs wcwidth (disp_operations d2)"
    using narrow sub1 sub2 unfolding narrow_glyphs_def by blast
  have glyphs2: "\<not> is_clear op" if op: "op \<in> set (disp_operations d2)" for op
  proof -
    obtain r c where "on_display d2 r c" "op_at d2 r c = op" by (rule ops_on_display[OF ok2 op])
    then show ?thesis using at2[of r c] on2 by (auto simp: is_clear_def split: if_splits)
  qed
  have ij2: "0 \<le> i" "i < disp_char_height d2" "0 \<le> j" "j < disp_char_width d2" using ij1 by (simp_all add: d2(1))
  have same: "same_palette d d2" by (simp add: d2 d1 same_palette_def)
  have cwh2: "disp_char_width d2 = disp_char_width d" "disp_char_height d2 = disp_char_height d"
    using same by (simp_all add: same_palette_def)
  have set3: "same_palette d2 d'" "length (disp_operations d') = length (disp_operations d2)"
    and at3: "\<And>r c. on_display d r c \<Longrightarrow>
        op_at d' r c = (if is_set (op_at d2 r c) then GUAC_CHAR_NOP else op_at d2 r c)"
    and pix3: "\<And>r c. on_display d r c \<Longrightarrow>
        ?P (paint solid glyph sets (paint solid glyph clears (paint solid glyph copies scr))) r c =
          (case op_at d2 r c of
             GUAC_CHAR_SET ch \<Rightarrow> inked glyph d i j ch
           | _ \<Rightarrow> ?P (paint solid glyph clears (paint solid glyph copies scr)) r c)"
    using flush_set_spec[OF ok2 narrow2 glyphs2 ij2 f3, of solid glyph
        "paint solid glyph clears (paint solid glyph copies scr)"]
    unfolding on2 cwh2 same_palette_inked[OF same] by blast+
  show "display_ok d'" using ok2 set3 by (simp add: display_ok_def same_palette_def)
  show "op_at d' r c = GUAC_CHAR_NOP"
    using at1[OF rc] at2[OF rc] at3[OF rc]
    by (auto simp: is_set_def is_clear_def is_copy_def split: if_splits)
      (metis guac_terminal_operation.exhaust)
  show "?P (paint solid glyph calls scr) r c = shown (char_pixel solid glyph d i j) (?P scr) d r c"
  proof -
    have "?P (paint solid glyph calls scr) r c =
        ?P (paint solid glyph sets (paint solid glyph clears (paint solid glyph copies scr))) r c"
      by (simp add: calls paint_append)
    also have "\<dots> = shown (char_pixel solid glyph d i j) (?P scr) d r c"
      using at1[OF rc] at2[OF rc] pix1[OF rc] pix2[OF rc] pix3[OF rc]
      by (cases "op_at d r c") (auto simp: shown_def op_shows_def copied_def char_pixel_def is_clear_def is_copy_def)
    finally show ?thesis .
  qed
qed

section \<open>A frame\<close>

text \<open>
  The operations that plain output makes in a frame: it stores narrow characters whose colours
  are those of the palette, and it scrolls rows up.
\<close>

fun char_current :: "(int \<Rightarrow> int) \<Rightarrow> guac_terminal_display \<Rightarrow> guac_terminal_char \<Rightarrow> bool" where
  "char_current wcwidth d ch \<longleftrightarrow>
     (if guac_terminal_has_glyph (ch_value ch)
      then wcwidth (ch_value ch) = 1 \<or> wcwidth (ch_value ch) < 0
      else color_current d (clear_color ch))"

fun output_op :: "(int \<Rightarrow> int) \<Rightarrow> guac_terminal_display \<Rightarrow> display_op \<Rightarrow> bool" where
  "output_op wcwidth d (Set_Columns row s e ch) \<longleftrightarrow> char_current wcwidth d ch"
| "output_op wcwidth d (Copy_Rows s e offset) \<longleftrightarrow> offset < 0"
| "output_op wcwidth d (Copy_Columns row s e offset) \<longleftrightarrow> False"

fun pending_ok :: "(int \<Rightarrow> int) \<Rightarrow> guac_terminal_display \<Rightarrow> int \<Rightarrow> int \<Rightarrow> guac_terminal_operation \<Rightarrow> bool" where
  "pending_ok wcwidth d r c GUAC_CHAR_NOP \<longleftrightarrow> True"
| "pending_ok wcwidth d r c (GUAC_CHAR_COPY sr sc) \<longleftrightarrow> sc = c \<and> r < sr"
| "pending_ok wcwidth d r c (GUAC_CHAR_SET ch) \<longleftrightarrow> char_current wcwidth d ch"

definition pending_output :: "(int \<Rightarrow> int) \<Rightarrow> guac_terminal_display \<Rightarrow> bool" where
  "pending_output wcwidth d \<longleftrightarrow> (\<forall>r c. on_display d r c \<longrightarrow> pending_ok wcwidth d r c (op_at d r c))"

lemma char_current_ops [simp]:
  "char_current wcwidth (d\<lparr>disp_operations := ops\<rparr>) ch = char_current wcwidth d ch"
  by (simp add: color_current_def guac_terminal_display_lookup_color_def)

declare char_current.simps [simp del]

lemma pending_ok_ops [simp]:
  "pending_ok wcwidth (d\<lparr>disp_operations := ops\<rparr>) r c op = pending_ok wcwidth d r c op"
  by (cases op) simp_all

lemma output_op_ops [simp]: "output_op wcwidth (d\<lparr>disp_operations := ops\<rparr>) x = output_op wcwidth d x"
  by (cases x) simp_all

lemma pending_ok_copy_up:
  "pending_ok wcwidth d (r - offset) c op \<Longrightarrow> offset < 0 \<Longrightarrow> pending_ok wcwidth d r c (as_copy (r - offset) c op)"
  by (cases op) (auto simp: as_copy_def)

lemma display_step_output:
  assumes "display_ok d" and "op_within (disp_width d) (disp_height d) x" and "output_op wcwidth d x"
    and "pending_output wcwidth d" and "display_step x d = Some d'"
  shows "pending_output wcwidth d'"
proof (cases x)
  case (Copy_Rows s e offset)
  have fit: "fit_copy_range s e offset (disp_height d - 1) = (s, e)"
    using assms(2) by (intro fit_copy_range_id) (auto simp: Copy_Rows)
  obtain ops where ops: "d' = d\<lparr>disp_operations := ops\<rparr>"
    and at: "\<And>r c. on_display d r c \<Longrightarrow> op_at d' r c =
        (if s \<le> r - offset \<and> r - offset \<le> e then as_copy (r - offset) c (op_at d (r - offset) c) else op_at d r c)"
    using display_copy_rows_ops[OF assms(1) fit] assms(2,5) by (auto simp: Copy_Rows)
  show ?thesis
    unfolding pending_output_def
  proof (intro allI impI)
    fix r c assume "on_display d' r c"
    then have rc: "on_display d r c" by (simp add: ops)
    have "on_display d (r - offset) c" if "s \<le> r - offset \<and> r - offset \<le> e"
      using that rc assms(2) by (auto simp: Copy_Rows on_display_def)
    then show "pending_ok wcwidth d' r c (op_at d' r c)"
      using at[OF rc] rc assms(3,4) by (auto simp: ops Copy_Rows pending_output_def intro: pending_ok_copy_up)
  qed
next
  case (Set_Columns row s e ch)
  obtain ops where ops: "d' = d\<lparr>disp_operations := ops\<rparr>"
    and at: "\<And>r c. on_display d r c \<Longrightarrow> op_at d' r c =
        (if r = row \<and> s \<le> c \<and> c \<le> e \<and> (c - s) mod ch_width ch = 0 then GUAC_CHAR_SET ch else op_at d r c)"
    using display_set_columns_ops[OF assms(1), of ch row s s e e] assms(2,5) by (auto simp: Set_Columns)
  show ?thesis
    unfolding pending_output_def
  proof (intro allI impI)
    fix r c assume "on_display d' r c"
    then have rc: "on_display d r c" by (simp add: ops)
    show "pending_ok wcwidth d' r c (op_at d' r c)"
      using at[OF rc] rc assms(3,4) by (auto simp: ops Set_Columns pending_output_def)
  qed
qed (use assms(3) in simp)

lemma display_run_output:
  assumes "display_ok d" and "list_all (\<lambda>x. op_within (disp_width d) (disp_height d) x \<and> output_op wcwidth d x) xs"
    and "pending_output wcwidth d" and "display_run xs d = Some d'"
  shows "pending_output wcwidth d' \<and> display_ok d' \<and> (\<exists>ops. d' = d\<lparr>disp_operations := ops\<rparr>)"
  using assms
proof (induction xs arbitrary: d)
  case Nil
  then show ?case by (auto intro!: exI[of _ "disp_operations d'"])
next
  case (Cons x xs)
  obtain ops where step: "display_step x d = Some (d\<lparr>disp_operations := ops\<rparr>)"
    "length ops = length (disp_operations d)"
    using display_step_shows[OF Cons.prems(1), of x "\<lambda>_. ()" "\<lambda>_ _. ()"] Cons.prems(2) by auto
  let ?d1 = "d\<lparr>disp_operations := ops\<rparr>"
  have "pending_output wcwidth ?d1"
    using display_step_output[OF Cons.prems(1) _ _ Cons.prems(3) step(1)] Cons.prems(2) by simp
  then have "pending_output wcwidth d' \<and> display_ok d' \<and> (\<exists>ops. d' = ?d1\<lparr>disp_operations := ops\<rparr>)"
    using Cons.IH[of ?d1] Cons.prems step by simp
  then show ?case by auto
qed

lemma pending_output_flush:
  assumes ok: "display_ok d" and pending: "pending_output wcwidth d"
  shows "copies_up (disp_operations d) (nat (disp_width d)) (nat (disp_height d))"
    and "palette_current d (disp_operations d)" and "narrow_glyphs wcwidth (disp_operations d)"
proof -
  show "copies_up (disp_operations d) (nat (disp_width d)) (nat (disp_height d))"
    unfolding copies_up_def
  proof (intro allI impI)
    fix r c sr sc
    assume rc: "r < nat (disp_height d)" "c < nat (disp_width d)"
      and op: "cell (disp_operations d) (nat (disp_width d)) r c = GUAC_CHAR_COPY sr sc"
    have "on_display d (int r) (int c)" using rc by (auto simp: on_display_def)
    moreover have "nat (int r * disp_width d + int c) = r * nat (disp_width d) + c"
      using rc by (simp add: nat_add_distrib nat_mult_distrib)
    then have "op_at d (int r) (int c) = GUAC_CHAR_COPY sr sc" using op by (simp add: op_at_def)
    ultimately show "sc = int c \<and> int r < sr" using pending by (force simp: pending_output_def)
  qed
  have "char_current wcwidth d ch" if op: "GUAC_CHAR_SET ch \<in> set (disp_operations d)" for ch
  proof -
    obtain r c where "on_display d r c" "op_at d r c = GUAC_CHAR_SET ch" by (rule ops_on_display[OF ok op])
    with pending show ?thesis by (force simp: pending_output_def)
  qed
  then show "palette_current d (disp_operations d)" "narrow_glyphs wcwidth (disp_operations d)"
    by (auto simp: palette_current_def narrow_glyphs_def char_current.simps)
qed

text \<open>
  C29. A frame of plain output is drawn right: after any sequence of scrolling up and storing
  narrow characters since the last flush, the drawing calls of the flush leave every pixel of
  every cell as carrying out the sequence directly on the screen would, and leave nothing
  pending.
\<close>

theorem output_frame_drawn:
  assumes "display_ok d" and "list_all (\<lambda>op. op = GUAC_CHAR_NOP) (disp_operations d)"
    and "list_all (\<lambda>x. op_within (disp_width d) (disp_height d) x \<and> output_op wcwidth d x) xs"
    and "display_run xs d = Some d'" and "guac_terminal_display_flush wcwidth d' = (calls, d'')"
    and "on_display d r c"
    and "0 \<le> i" and "i < disp_char_height d" and "0 \<le> j" and "j < disp_char_width d"
  shows "cell_pixel (disp_char_width d) (disp_char_height d) i j (paint solid glyph calls scr) r c =
      screen_run (char_pixel solid glyph d i j) xs
        (cell_pixel (disp_char_width d) (disp_char_height d) i j scr) r c
    \<and> op_at d'' r c = GUAC_CHAR_NOP"
proof -
  let ?P = "cell_pixel (disp_char_width d) (disp_char_height d) i j"
  have nop: "op_at d r c = GUAC_CHAR_NOP" if "on_display d r c" for r c
    using assms(2) op_index(1)[OF assms(1) that] by (simp add: op_at_def list_all_length)
  have "pending_output wcwidth d" by (simp add: pending_output_def nop)
  then obtain ops where pending: "pending_output wcwidth d'" and ok': "display_ok d'"
    and d': "d' = d\<lparr>disp_operations := ops\<rparr>"
    using display_run_output[OF assms(1,3) _ assms(4)] by blast
  have dims: "disp_char_width d' = disp_char_width d" "disp_char_height d' = disp_char_height d"
    "on_display d' r c" using assms(6) by (simp_all add: d')
  have ij': "0 \<le> i" "i < disp_char_height d'" "0 \<le> j" "j < disp_char_width d'" using assms(7-10) dims by simp_all
  note flush = flush_draws(2)[OF ok' pending_output_flush[OF ok' pending] ij' assms(5) dims(3)]
    flush_draws(3)[OF ok' pending_output_flush[OF ok' pending] ij' assms(5) dims(3), of solid glyph scr,
      unfolded dims(1,2)]
  have "same_palette d d'" by (simp add: d' same_palette_def)
  then have ink: "char_pixel solid glyph d' i j = char_pixel solid glyph d i j"
    by (intro ext) (simp add: char_pixel_def same_palette_inked)
  have within: "list_all (op_within (disp_width d) (disp_height d)) xs" using assms(3) by (simp add: list_all_iff)
  obtain d1 where "display_run xs d = Some d1"
    "\<And>r c. on_display d r c \<Longrightarrow> shown (char_pixel solid glyph d i j) (?P scr) d1 r c =
      screen_run (char_pixel solid glyph d i j) xs (shown (char_pixel solid glyph d i j) (?P scr) d) r c"
    using run_shows[OF assms(1) within, of "char_pixel solid glyph d i j" "?P scr"] by blast
  then have "shown (char_pixel solid glyph d i j) (?P scr) d' r c =
      screen_run (char_pixel solid glyph d i j) xs (shown (char_pixel solid glyph d i j) (?P scr) d) r c"
    using assms(4,6) by simp
  also have "\<dots> = screen_run (char_pixel solid glyph d i j) xs (?P scr) r c"
    by (rule screen_run_cong[OF within])
      (use assms(6) nop in \<open>auto simp: on_display_def shown_def op_shows_def\<close>)
  finally show ?thesis using flush ink by simp
qed

theorem output_frame_drawn_witness:
  "\<exists>calls d' d''. display_run [Set_Columns 2 0 1 (plain_char 65 1), Copy_Rows 1 2 (- 1)] (demo_display 2 3) = Some d'
     \<and> guac_terminal_display_flush (\<lambda>_. 1) d' = (calls, d'')
     \<and> cell_pixel 8 16 0 0 (paint (\<lambda>r g b. 7) (\<lambda>utf8 fg bg x y. 1000 + uint (hd utf8)) calls (\<lambda>x y. x + 100 * y)) 1 0 = 1065
     \<and> cell_pixel 8 16 0 0 (paint (\<lambda>r g b. 7) (\<lambda>utf8 fg bg x y. 1000 + uint (hd utf8)) calls (\<lambda>x y. x + 100 * y)) 0 1 = 1608"
proof -
  let ?xs = "[Set_Columns 2 0 1 (plain_char 65 1), Copy_Rows 1 2 (- 1)]"
  have ok: "display_ok (demo_display 2 3)" by (simp add: display_ok_def demo_display_def)
  have dims: "disp_width (demo_display 2 3) = 2" "disp_height (demo_display 2 3) = 3"
    "disp_char_width (demo_display 2 3) = 8" "disp_char_height (demo_display 2 3) = 16"
    by (simp_all add: demo_display_def)
  have nop: "list_all (\<lambda>op. op = GUAC_CHAR_NOP) (disp_operations (demo_display 2 3))"
    by (simp add: demo_display_def list_all_iff)
  have xs: "list_all (\<lambda>x. op_within (disp_width (demo_display 2 3)) (disp_height (demo_display 2 3)) x
      \<and> output_op (\<lambda>_. 1) (demo_display 2 3) x) ?xs"
    by (simp add: dims plain_char_def char_current.simps guac_terminal_has_glyph_def)
  obtain d' where run: "display_run ?xs (demo_display 2 3) = Some d'"
    using run_shows[OF ok, of ?xs "\<lambda>_. ()" "\<lambda>_ _. ()"] xs by auto
  obtain calls d'' where flush: "guac_terminal_display_flush (\<lambda>_. 1) d' = (calls, d'')" by fastforce
  have ink: "char_pixel (\<lambda>r g b. 7) (\<lambda>utf8 fg bg x y. 1000 + uint (hd utf8)) (demo_display 2 3) 0 0 (plain_char 65 1) = (1065 :: int)"
    by (simp add: char_pixel_def inked_def guac_terminal_has_glyph_def guac_terminal_encode_utf8_def plain_char_def)
  note frame = output_frame_drawn[OF ok nop xs run flush, unfolded dims, of _ _ 0 0
      "\<lambda>r g b. 7" "\<lambda>utf8 fg bg x y. 1000 + uint (hd utf8)" "\<lambda>x y. x + 100 * y"]
  have "cell_pixel 8 16 0 0 (paint (\<lambda>r g b. 7) (\<lambda>utf8 fg bg x y. 1000 + uint (hd utf8)) calls (\<lambda>x y. x + 100 * y)) 1 0 = (1065 :: int)"
    using frame[of 1 0] ink by (simp add: on_display_def dims plain_char_def)
  moreover have "cell_pixel 8 16 0 0 (paint (\<lambda>r g b. 7) (\<lambda>utf8 fg bg x y. 1000 + uint (hd utf8)) calls (\<lambda>x y. x + 100 * y)) 0 1 = (1608 :: int)"
    using frame[of 0 1] by (simp add: on_display_def dims cell_pixel_def)
  ultimately show ?thesis using run flush by blast
qed

text \<open>
  Scrolling down within a frame can be drawn wrong: a character stored below the scrolled
  rows splits the copies into two rectangles, the first of which overwrites the source of the
  second. Of the cell left of the character, the flush draws the row above the right one.
\<close>

theorem scroll_down_misdrawn:
  "\<exists>calls d' d''. display_run [Copy_Rows 0 1 1, Set_Columns 2 1 1 (plain_char 65 1)] (demo_display 2 3) = Some d'
     \<and> guac_terminal_display_flush (\<lambda>_. 1) d' = (calls, d'')
     \<and> cell_pixel 8 16 0 0 (paint solid glyph calls scr) 2 0 = cell_pixel 8 16 0 0 scr 0 0
     \<and> screen_run ink [Copy_Rows 0 1 1, Set_Columns 2 1 1 (plain_char 65 1)] (cell_pixel 8 16 0 0 scr) 2 0
       = cell_pixel 8 16 0 0 scr 1 0"
proof -
  let ?xs = "[Copy_Rows 0 1 1, Set_Columns 2 1 1 (plain_char 65 1)]"
  have "map_option (\<lambda>d. fst (guac_terminal_display_flush (\<lambda>_. 1) d)) (display_run ?xs (demo_display 2 3)) =
      Some [surface_copy 0 0 16 16 0 16, surface_copy 0 16 8 16 0 32, surface_draw 8 32 8 16 [65] black black,
        surface_flush]"
    by code_simp
  then obtain d' where run: "display_run ?xs (demo_display 2 3) = Some d'"
    and fst_flush: "fst (guac_terminal_display_flush (\<lambda>_. 1) d') =
      [surface_copy 0 0 16 16 0 16, surface_copy 0 16 8 16 0 32, surface_draw 8 32 8 16 [65] black black,
        surface_flush]"
    by (auto simp only: map_option_eq_Some)
  obtain d'' where flush: "guac_terminal_display_flush (\<lambda>_. 1) d' =
      ([surface_copy 0 0 16 16 0 16, surface_copy 0 16 8 16 0 32, surface_draw 8 32 8 16 [65] black black,
        surface_flush], d'')"
    using fst_flush by (cases "guac_terminal_display_flush (\<lambda>_. 1) d'") auto
  have "cell_pixel 8 16 0 0 (paint solid glyph
      [surface_copy 0 0 16 16 0 16, surface_copy 0 16 8 16 0 32, surface_draw 8 32 8 16 [65] black black,
        surface_flush] scr) 2 0 = cell_pixel 8 16 0 0 scr 0 0"
    by (simp add: cell_pixel_def)
  with run flush show ?thesis by (auto simp: cell_pixel_def)
qed

end
