(* ===== verification/Term_Buffer.thy ===== *)
theory Term_Buffer
  imports Term_Common
begin

text \<open>
  The scrollback buffer of the terminal (\<open>src/terminal/buffer.c\<close>): a ring of rows, each an array
  of characters of which the first \<open>row_length\<close> are initialised. Row 0 is the first row of the
  display, the rows of the scrollback have negative numbers, and a row number is reduced modulo
  the capacity of the ring, starting at \<open>buf_top\<close>.

  Allocation is assumed to succeed for a size that is not negative. The size \<open>width * 2\<close> of a row
  that grows is computed on 32 bits; when it has wrapped around no block that large exists, and
  the stores that follow are undefined. Row and column numbers are unbounded: terminals have at most 1024
  rows and columns (\<open>GUAC_TERMINAL_MAX_ROWS\<close>, \<open>GUAC_TERMINAL_MAX_COLUMNS\<close>), so that their sums stay within an
  \<open>int\<close>.
\<close>

section \<open>Definitions\<close>

record guac_terminal_buffer_row =
  row_characters :: "guac_terminal_char option list"
  row_length :: int
  row_available :: int

record guac_terminal_buffer =
  buf_default_character :: guac_terminal_char
  buf_rows :: "guac_terminal_buffer_row list"
  buf_top :: int
  buf_length :: int
  buf_available :: int

definition guac_terminal_buffer_alloc :: "int \<Rightarrow> guac_terminal_char \<Rightarrow> guac_terminal_buffer" where
  "guac_terminal_buffer_alloc rows default_character =
     \<lparr>buf_default_character = default_character,
      buf_rows = replicate (nat rows)
        \<lparr>row_characters = replicate 256 None, row_length = 0, row_available = 256\<rparr>,
      buf_top = 0, buf_length = 0, buf_available = rows\<rparr>"

definition buffer_index :: "guac_terminal_buffer \<Rightarrow> int \<Rightarrow> nat" where
  "buffer_index buf row =
     (let index = c_mod (buf_top buf + row) (buf_available buf)
      in nat (if index < 0 then index + buf_available buf else index))"

definition row_expand :: "int \<Rightarrow> guac_terminal_buffer_row \<Rightarrow> guac_terminal_buffer_row option" where
  "row_expand width r =
     (if width > row_available r
      then (let available = s32 (width * 2)
            in if available < width then None
               else Some (r\<lparr>row_available := available,
                     row_characters := row_characters r
                       @ replicate (nat available - length (row_characters r)) None\<rparr>))
      else Some r)"

definition row_initialise ::
    "guac_terminal_char \<Rightarrow> int \<Rightarrow> guac_terminal_buffer_row \<Rightarrow> guac_terminal_buffer_row option" where
  "row_initialise c width r =
     do {
       chars \<leftarrow> block_put (row_characters r) (row_length r)
                  (replicate (nat (width - row_length r)) (Some c));
       Some (r\<lparr>row_characters := chars, row_length := width\<rparr>)
     }"

definition row_resize ::
    "guac_terminal_char \<Rightarrow> int \<Rightarrow> guac_terminal_buffer_row \<Rightarrow> guac_terminal_buffer_row option" where
  "row_resize c width r =
     (if width \<ge> row_length r
      then do { r \<leftarrow> row_expand width r; row_initialise c width r }
      else Some r)"

definition buffer_put ::
    "nat \<Rightarrow> guac_terminal_buffer_row \<Rightarrow> guac_terminal_buffer \<Rightarrow> guac_terminal_buffer" where
  "buffer_put index r buf = buf\<lparr>buf_rows := (buf_rows buf)[index := r]\<rparr>"

text \<open>The pointer to a row that the code returns is the row's index.\<close>

definition guac_terminal_buffer_get_row ::
    "guac_terminal_buffer \<Rightarrow> int \<Rightarrow> int \<Rightarrow> (nat \<times> guac_terminal_buffer) option" where
  "guac_terminal_buffer_get_row buf row width =
     (let index = buffer_index buf row
      in do {
        resized \<leftarrow> row_resize (buf_default_character buf) width (buf_rows buf ! index);
        Some (index, buffer_put index resized buf)
      })"

definition guac_terminal_buffer_copy_columns ::
    "guac_terminal_buffer \<Rightarrow> int \<Rightarrow> int \<Rightarrow> int \<Rightarrow> int \<Rightarrow> guac_terminal_buffer option" where
  "guac_terminal_buffer_copy_columns buf row start_column end_column offset =
     do {
       (index, buf) \<leftarrow> guac_terminal_buffer_get_row buf row (end_column + offset + 1);
       let (start_column, end_column) =
         fit_copy_range start_column end_column offset (row_length (buf_rows buf ! index) - 1);
       chars \<leftarrow> mem_move (row_characters (buf_rows buf ! index))
                  (start_column + offset) start_column (end_column - start_column + 1);
       Some (buffer_put index ((buf_rows buf ! index)\<lparr>row_characters := chars\<rparr>) buf)
     }"

text \<open>One round of the loop of \<open>guac_terminal_buffer_copy_rows\<close>.\<close>

definition copy_row :: "guac_terminal_buffer \<Rightarrow> int \<Rightarrow> int \<Rightarrow> guac_terminal_buffer option" where
  "copy_row buf current_row offset =
     do {
       (src_row, buf) \<leftarrow> guac_terminal_buffer_get_row buf current_row 0;
       let src_length = row_length (buf_rows buf ! src_row);
       (dst_row, buf) \<leftarrow> guac_terminal_buffer_get_row buf (current_row + offset) src_length;
       chars \<leftarrow> block_put (row_characters (buf_rows buf ! dst_row)) 0
                  (take (nat src_length) (row_characters (buf_rows buf ! src_row)));
       Some (buffer_put dst_row
               ((buf_rows buf ! dst_row)\<lparr>row_characters := chars, row_length := src_length\<rparr>) buf)
     }"

primrec copy_rows_loop ::
    "nat \<Rightarrow> int \<Rightarrow> int \<Rightarrow> int \<Rightarrow> guac_terminal_buffer \<Rightarrow> guac_terminal_buffer option" where
  "copy_rows_loop 0 current_row step offset buf = Some buf"
| "copy_rows_loop (Suc n) current_row step offset buf =
     do {
       buf \<leftarrow> copy_row buf current_row offset;
       copy_rows_loop n (current_row + step) step offset buf
     }"

definition guac_terminal_buffer_copy_rows ::
    "guac_terminal_buffer \<Rightarrow> int \<Rightarrow> int \<Rightarrow> int \<Rightarrow> guac_terminal_buffer option" where
  "guac_terminal_buffer_copy_rows buf start_row end_row offset =
     (if offset > 0
      then copy_rows_loop (nat (end_row - start_row + 1)) end_row (- 1) offset buf
      else copy_rows_loop (nat (end_row - start_row + 1)) start_row 1 offset buf)"

text \<open>
  The loop of \<open>guac_terminal_buffer_set_columns\<close>: \<open>current\<close> points at column \<open>i\<close> at the start of
  every round. With a negative width \<open>i\<close> never passes \<open>end_column\<close> while \<open>current\<close> advances, and
  the loop runs out of the row.
\<close>

definition continuation_char :: "guac_terminal_char \<Rightarrow> guac_terminal_char" where
  "continuation_char c =
     \<lparr>ch_value = GUAC_CHAR_CONTINUATION, ch_attributes = ch_attributes c, ch_width = 0\<rparr>"

definition char_block :: "guac_terminal_char \<Rightarrow> guac_terminal_char option list" where
  "char_block c = Some c # replicate (nat (ch_width c - 1)) (Some (continuation_char c))"

function set_columns_loop ::
    "guac_terminal_char option list \<Rightarrow> int \<Rightarrow> int \<Rightarrow> guac_terminal_char
      \<Rightarrow> guac_terminal_char option list option" where
  "set_columns_loop chars i end_column c =
     (if i > end_column then Some chars
      else if ch_width c \<le> 0 then None
      else do {
        chars \<leftarrow> block_put chars i (char_block c);
        set_columns_loop chars (i + ch_width c) end_column c
      })"
  by pat_completeness auto
termination
  by (relation "measure (\<lambda>(chars, i, end_column, c). nat (end_column - i + 1))") auto

declare set_columns_loop.simps [simp del]

text \<open>The end of \<open>guac_terminal_buffer_set_columns\<close>, which counts the rows in use.\<close>

definition buffer_reach :: "int \<Rightarrow> guac_terminal_char \<Rightarrow> guac_terminal_buffer \<Rightarrow> guac_terminal_buffer" where
  "buffer_reach row c buf =
     (if ch_value c \<noteq> 0 \<and> row \<ge> buf_length buf then buf\<lparr>buf_length := row + 1\<rparr> else buf)"

definition guac_terminal_buffer_set_columns ::
    "guac_terminal_buffer \<Rightarrow> int \<Rightarrow> int \<Rightarrow> int \<Rightarrow> guac_terminal_char \<Rightarrow> guac_terminal_buffer option" where
  "guac_terminal_buffer_set_columns buf row start_column end_column c =
     (if ch_width c = 0 then Some buf
      else do {
        (index, buf) \<leftarrow> guac_terminal_buffer_get_row buf row (end_column + 1);
        chars \<leftarrow> set_columns_loop (row_characters (buf_rows buf ! index)) start_column end_column c;
        Some (buffer_reach row c
                (buffer_put index ((buf_rows buf ! index)\<lparr>row_characters := chars\<rparr>) buf))
      })"

section \<open>Rows of the ring\<close>

text \<open>
  A row is well formed when its array has the recorded size and its first \<open>row_length\<close> cells are
  initialised, fewer than \<open>2 ^ 30\<close>, the widths that can be doubled on 32 bits; a buffer is, when the ring has the recorded capacity and its rows are well formed.
\<close>

definition row_ok :: "guac_terminal_buffer_row \<Rightarrow> bool" where
  "row_ok r \<longleftrightarrow> int (length (row_characters r)) = row_available r
     \<and> 0 \<le> row_length r \<and> row_length r \<le> row_available r \<and> row_length r < 2 ^ 30
     \<and> (\<forall>i < nat (row_length r). row_characters r ! i \<noteq> None)"

definition buffer_ok :: "guac_terminal_buffer \<Rightarrow> bool" where
  "buffer_ok buf \<longleftrightarrow> 0 < buf_available buf \<and> int (length (buf_rows buf)) = buf_available buf
     \<and> (\<forall>r \<in> set (buf_rows buf). row_ok r)"

text \<open>What a row shows: its initialised cells.\<close>

definition row_text :: "guac_terminal_buffer_row \<Rightarrow> guac_terminal_char list" where
  "row_text r = map the (take (nat (row_length r)) (row_characters r))"

definition buffer_row :: "guac_terminal_buffer \<Rightarrow> int \<Rightarrow> guac_terminal_buffer_row" where
  "buffer_row buf row = buf_rows buf ! buffer_index buf row"

definition buffer_text :: "guac_terminal_buffer \<Rightarrow> int \<Rightarrow> guac_terminal_char list" where
  "buffer_text buf row = row_text (buffer_row buf row)"

text \<open>The row numbers that share a place of the ring are those congruent modulo its capacity.\<close>

lemma c_mod_adjust:
  assumes "0 < b"
  shows "(if c_mod a b < 0 then c_mod a b + b else c_mod a b) = a mod b"
proof (cases "0 \<le> a")
  case True
  with assms show ?thesis by (simp add: not_less)
next
  case False
  then have neg: "a < 0" by simp
  define m where "m = (- a) mod b"
  have c: "c_mod a b = - m"
    using neg assms by (simp add: c_mod_def c_div_def m_def minus_div_mult_eq_mod[symmetric])
  have m: "0 \<le> m" "m < b" using assms by (simp_all add: m_def)
  have "a mod b = (- m) mod b" by (simp add: m_def mod_minus_eq)
  also have "\<dots> = (if m = 0 then 0 else b - m)"
  proof (cases "m = 0")
    case False
    have "(- m) mod b = (b - m) mod b" by (metis diff_conv_add_uminus mod_add_self1)
    also have "\<dots> = b - m" using False m by (intro mod_pos_pos_trivial) auto
    finally show ?thesis using False by simp
  qed simp
  finally show ?thesis using m by (simp add: c)
qed

lemma buffer_index_mod:
  "0 < buf_available buf \<Longrightarrow>
     int (buffer_index buf row) = (buf_top buf + row) mod buf_available buf"
  unfolding buffer_index_def Let_def by (subst c_mod_adjust) simp_all

lemma buffer_index_less: "buffer_ok buf \<Longrightarrow> buffer_index buf row < length (buf_rows buf)"
  using buffer_index_mod[of buf row] unfolding buffer_ok_def
  by (metis of_nat_less_iff pos_mod_bound)

lemma buffer_index_eq_iff:
  assumes "0 < buf_available buf"
  shows "buffer_index buf r = buffer_index buf r' \<longleftrightarrow> (r - r') mod buf_available buf = 0"
proof -
  have "buffer_index buf r = buffer_index buf r' \<longleftrightarrow>
      (buf_top buf + r) mod buf_available buf = (buf_top buf + r') mod buf_available buf"
    using buffer_index_mod[OF assms, of r] buffer_index_mod[OF assms, of r'] by (metis of_nat_eq_iff)
  also have "\<dots> \<longleftrightarrow> buf_available buf dvd (r - r')"
    by (simp add: mod_eq_dvd_iff)
  finally show ?thesis by (simp add: mod_eq_0_iff_dvd)
qed

lemma buffer_index_near:
  assumes "0 < buf_available buf" and "\<bar>r - r'\<bar> < buf_available buf"
  shows "buffer_index buf r = buffer_index buf r' \<longleftrightarrow> r = r'"
proof
  assume "buffer_index buf r = buffer_index buf r'"
  then have "buf_available buf dvd r - r'"
    by (simp add: buffer_index_eq_iff[OF assms(1)] mod_eq_0_iff_dvd)
  with assms(2) show "r = r'" using dvd_imp_le_int[of "r - r'" "buf_available buf"] by force
qed simp

lemma buffer_put_simps [simp]:
  "buf_top (buffer_put i r buf) = buf_top buf"
  "buf_length (buffer_put i r buf) = buf_length buf"
  "buf_available (buffer_put i r buf) = buf_available buf"
  "buf_default_character (buffer_put i r buf) = buf_default_character buf"
  "length (buf_rows (buffer_put i r buf)) = length (buf_rows buf)"
  "buffer_index (buffer_put i r buf) row = buffer_index buf row"
  by (simp_all add: buffer_put_def buffer_index_def Let_def)

lemma buffer_put_ok [intro]: "buffer_ok buf \<Longrightarrow> row_ok r \<Longrightarrow> buffer_ok (buffer_put i r buf)"
  unfolding buffer_ok_def by (auto simp: buffer_put_def dest!: set_update_subset_insert[THEN subsetD])

lemma buffer_put_rows:
  assumes "buffer_ok buf"
  shows "buf_rows (buffer_put (buffer_index buf row) r buf) ! buffer_index buf row = r"
    and "buffer_row (buffer_put (buffer_index buf row) r buf) row' =
      (if buffer_index buf row' = buffer_index buf row then r else buffer_row buf row')"
proof -
  have "buf_rows (buffer_put (buffer_index buf row) r buf) = (buf_rows buf)[buffer_index buf row := r]"
    by (simp add: buffer_put_def)
  then show "buf_rows (buffer_put (buffer_index buf row) r buf) ! buffer_index buf row = r"
    and "buffer_row (buffer_put (buffer_index buf row) r buf) row' =
      (if buffer_index buf row' = buffer_index buf row then r else buffer_row buf row')"
    using buffer_index_less[OF assms, of row] by (simp_all add: buffer_row_def)
qed

lemma buffer_row_ok: "buffer_ok buf \<Longrightarrow> row_ok (buffer_row buf row)"
  using buffer_index_less[of buf row] by (auto simp: buffer_ok_def buffer_row_def)

lemma buffer_alloc_ok: "0 < rows \<Longrightarrow> buffer_ok (guac_terminal_buffer_alloc rows c)"
  by (simp add: buffer_ok_def guac_terminal_buffer_alloc_def row_ok_def)

section \<open>Getting a row\<close>

lemma row_text_length [simp]: "row_ok r \<Longrightarrow> length (row_text r) = nat (row_length r)"
  by (auto simp: row_ok_def row_text_def)

lemma row_text_nth: "row_ok r \<Longrightarrow> i < nat (row_length r) \<Longrightarrow> row_characters r ! i = Some (row_text r ! i)"
  by (auto simp: row_ok_def row_text_def)

lemma row_text_cells: "row_ok r \<Longrightarrow> take (nat (row_length r)) (row_characters r) = map Some (row_text r)"
  by (auto simp: row_text_nth intro!: nth_equalityI) (auto simp: row_ok_def)

lemma row_textI:
  assumes "row_ok r" and "length cs = nat (row_length r)"
    and "\<And>i. i < length cs \<Longrightarrow> row_characters r ! i = Some (cs ! i)"
  shows "row_text r = cs"
  using assms by (intro nth_equalityI) (auto simp: row_ok_def row_text_def)

text \<open>
  A row asked for at a width below \<open>2 ^ 30\<close> keeps its text, padded with the default character up
  to the width.
\<close>

lemma row_resize_spec:
  assumes "row_ok r" and "width < 2 ^ 30"
  obtains r' where "row_resize c width r = Some r'" and "row_ok r'"
    and "row_text r' = row_text r @ replicate (nat width - nat (row_length r)) c"
    and "row_length r' = max width (row_length r)"
    and "row_available r' = (if width > row_available r then 2 * width else row_available r)"
proof (cases "width \<ge> row_length r")
  case False
  with assms show ?thesis using that[of r] by (auto simp: row_resize_def row_ok_def max_def)
next
  case True
  have len: "int (length (row_characters r)) = row_available r" "0 \<le> row_length r"
    "row_length r \<le> row_available r"
    using assms(1) by (auto simp: row_ok_def)
  define e where "e = (if width > row_available r
     then r\<lparr>row_available := 2 * width,
            row_characters := row_characters r @ replicate (nat (2 * width) - length (row_characters r)) None\<rparr>
     else r)"
  have s: "s32 (width * 2) = width * 2" if "width > row_available r"
    using that assms(2) len by (intro s32_id) auto
  have expand: "row_expand width r = Some e"
    using len s by (auto simp: row_expand_def e_def Let_def mult.commute)
  have elen: "int (length (row_characters e)) = row_available e" "row_length e = row_length r"
    "width \<le> row_available e" "row_available e = (if width > row_available r then 2 * width else row_available r)"
    using len by (auto simp: e_def)
  have enth: "row_characters e ! i = row_characters r ! i" if "i < nat (row_length r)" for i
    using that len by (auto simp: e_def nth_append)
  obtain chars where put: "block_put (row_characters e) (row_length r)
      (replicate (nat (width - row_length r)) (Some c)) = Some chars"
    using elen len True by (auto simp: block_put_def)
  define r' where "r' = e\<lparr>row_characters := chars, row_length := width\<rparr>"
  have nth: "row_characters r' ! i =
      (if i < nat (row_length r) then row_characters r ! i else Some c)" if "i < nat width" for i
  proof -
    have i: "i < length (row_characters e)" using that elen(1,3) by linarith
    have "row_length r \<le> int i \<longleftrightarrow> \<not> i < nat (row_length r)"
      "int i < row_length r + int (nat (width - row_length r)) \<longleftrightarrow> int i < width"
      using len(2) True by linarith+
    moreover have "int i < width" using that by linarith
    moreover have "nat (int i - row_length r) < nat (width - row_length r)" if "\<not> i < nat (row_length r)"
      using that \<open>int i < width\<close> len(2) by linarith
    ultimately show ?thesis
      using block_put_nth[OF put i] enth by (simp add: r'_def)
  qed
  have ok: "row_ok r'"
    using assms block_put_length[OF put] elen len True nth
    unfolding row_ok_def r'_def by auto
  show ?thesis
  proof (rule that[of r'])
    show "row_resize c width r = Some r'"
      using True expand elen put by (simp add: row_resize_def row_initialise_def r'_def)
    show "row_ok r'" by (rule ok)
    show "row_text r' = row_text r @ replicate (nat width - nat (row_length r)) c"
    proof (rule row_textI[OF ok])
      show "length (row_text r @ replicate (nat width - nat (row_length r)) c) = nat (row_length r')"
        using assms(1) True len by (simp add: r'_def)
      fix i assume "i < length (row_text r @ replicate (nat width - nat (row_length r)) c)"
      then have "i < nat width" using assms(1) True len by simp
      then show "row_characters r' ! i = Some ((row_text r @ replicate (nat width - nat (row_length r)) c) ! i)"
        using nth row_text_nth[OF assms(1)] assms(1) by (auto simp: nth_append)
    qed
    show "row_length r' = max width (row_length r)" using True by (simp add: r'_def)
    show "row_available r' = (if width > row_available r then 2 * width else row_available r)"
      using elen by (simp add: r'_def)
  qed
qed

lemma get_row_spec:
  assumes "buffer_ok buf" and "width < 2 ^ 30"
  obtains r' where
    "guac_terminal_buffer_get_row buf row width = Some (buffer_index buf row, buffer_put (buffer_index buf row) r' buf)"
    and "row_ok r'"
    and "row_text r' = buffer_text buf row @
      replicate (nat width - nat (row_length (buffer_row buf row))) (buf_default_character buf)"
    and "row_length r' = max width (row_length (buffer_row buf row))"
    and "row_available r' = (if width > row_available (buffer_row buf row) then 2 * width
      else row_available (buffer_row buf row))"
proof -
  obtain r' where "row_resize (buf_default_character buf) width (buffer_row buf row) = Some r'" "row_ok r'"
    "row_text r' = row_text (buffer_row buf row) @
      replicate (nat width - nat (row_length (buffer_row buf row))) (buf_default_character buf)"
    "row_length r' = max width (row_length (buffer_row buf row))"
    "row_available r' = (if width > row_available (buffer_row buf row) then 2 * width
      else row_available (buffer_row buf row))"
    by (rule row_resize_spec[OF buffer_row_ok[OF assms(1)] assms(2)])
  then show ?thesis
    by (intro that[of r'])
      (simp_all add: guac_terminal_buffer_get_row_def buffer_text_def buffer_row_def Let_def)
qed

section \<open>Storing characters\<close>

lemma block_put_append:
  "block_put cells i (a @ b) =
     do { cells' \<leftarrow> block_put cells i a; block_put cells' (i + int (length a)) b }"
proof (cases "0 \<le> i \<and> i + int (length a) + int (length b) \<le> int (length cells)")
  case True
  then have ab: "block_put cells i (a @ b) = Some (mem_write cells (nat i) (a @ b))"
    and a: "block_put cells i a = Some (mem_write cells (nat i) a)"
    by (auto simp: block_put_def)
  have na: "nat i + length a \<le> length cells" using True by linarith
  have b: "block_put (mem_write cells (nat i) a) (i + int (length a)) b =
      Some (mem_write (mem_write cells (nat i) a) (nat (i + int (length a))) b)"
    using True na by (simp add: block_put_def)
  have "nat (i + int (length a)) = nat i + length a" using True by linarith
  then have "mem_write (mem_write cells (nat i) a) (nat (i + int (length a))) b =
      mem_write cells (nat i) (a @ b)"
    using na by (simp add: mem_write_def ac_simps)
  with ab a b show ?thesis by simp
next
  case False
  then have "block_put cells i (a @ b) = None" by (auto simp: block_put_def)
  moreover have "block_put cells' (i + int (length a)) b = None" if "block_put cells i a = Some cells'" for cells'
    using that False block_put_length[OF that] by (auto simp: block_put_def split: if_splits)
  ultimately show ?thesis by (cases "block_put cells i a") auto
qed

text \<open>
  The loop stores the character, followed by its continuation characters, as often as it takes to
  reach \<open>end_column\<close>: the block may end beyond it.
\<close>

definition char_rounds :: "int \<Rightarrow> int \<Rightarrow> int \<Rightarrow> nat" where
  "char_rounds start_column end_column width =
     (if start_column > end_column then 0 else nat ((end_column - start_column) div width + 1))"

definition char_blocks :: "nat \<Rightarrow> guac_terminal_char \<Rightarrow> guac_terminal_char option list" where
  "char_blocks k c = concat (replicate k (char_block c))"

lemma char_block_length [simp]: "0 < ch_width c \<Longrightarrow> int (length (char_block c)) = ch_width c"
  by (simp add: char_block_def)

lemma char_blocks_length: "0 < ch_width c \<Longrightarrow> int (length (char_blocks k c)) = int k * ch_width c"
  by (induction k) (auto simp: char_blocks_def algebra_simps)

lemma char_rounds_step:
  assumes "0 < w" and "i \<le> e"
  shows "char_rounds i e w = Suc (char_rounds (i + w) e w)"
proof (cases "i + w \<le> e")
  case True
  have "(e - i) div w = (e - (i + w)) div w + 1"
  proof -
    have "e - i = (e - (i + w)) + w" by simp
    then show ?thesis using assms(1) by (metis div_add_self2 less_irrefl)
  qed
  moreover have "0 \<le> (e - (i + w)) div w" using True assms(1) by (simp add: pos_imp_zdiv_nonneg_iff)
  ultimately show ?thesis using True assms by (simp add: char_rounds_def nat_add_distrib)
next
  case False
  then have "(e - i) div w = 0" using assms by simp
  with False assms show ?thesis by (simp add: char_rounds_def)
qed

lemma set_columns_loop_spec:
  assumes "0 < ch_width c" and "0 \<le> i"
  shows "set_columns_loop chars i e c =
    (if i > e then Some chars else block_put chars i (char_blocks (char_rounds i e (ch_width c)) c))"
  using assms
proof (induction chars i e c rule: set_columns_loop.induct)
  case (1 chars i e c)
  show ?case
  proof (cases "i > e")
    case True
    then show ?thesis by (simp add: set_columns_loop.simps)
  next
    case False
    have step: "char_blocks (char_rounds i e (ch_width c)) c =
        char_block c @ char_blocks (char_rounds (i + ch_width c) e (ch_width c)) c"
      using False "1.prems" by (simp add: char_rounds_step char_blocks_def)
    have IH: "set_columns_loop chars' (i + ch_width c) e c =
        block_put chars' (i + ch_width c) (char_blocks (char_rounds (i + ch_width c) e (ch_width c)) c)"
      if put: "block_put chars i (char_block c) = Some chars'" for chars'
    proof (cases "i + ch_width c > e")
      case True
      have "i + ch_width c \<le> int (length chars')"
        using put block_put_length[OF put] "1.prems" by (auto simp: block_put_def split: if_splits)
      with True "1.prems" show ?thesis
        by (simp add: set_columns_loop.simps char_rounds_def char_blocks_def block_put_def mem_write_def)
    next
      case le: False
      show ?thesis
        using "1.IH"[OF False _ put] le "1.prems" by simp
    qed
    show ?thesis
      using False "1.prems" IH by (subst set_columns_loop.simps)
        (auto simp: step block_put_append split: bind_splits)
  qed
qed

text \<open>The text that \<open>k\<close> characters take.\<close>

definition char_text :: "nat \<Rightarrow> guac_terminal_char \<Rightarrow> guac_terminal_char list" where
  "char_text k c = concat (replicate k (c # replicate (nat (ch_width c - 1)) (continuation_char c)))"

lemma char_blocks_text: "char_blocks k c = map Some (char_text k c)"
  by (simp add: char_blocks_def char_text_def char_block_def map_concat map_replicate_const)

lemma buffer_reach_simps [simp]:
  "buf_top (buffer_reach row c buf) = buf_top buf"
  "buf_rows (buffer_reach row c buf) = buf_rows buf"
  "buf_available (buffer_reach row c buf) = buf_available buf"
  "buf_default_character (buffer_reach row c buf) = buf_default_character buf"
  "buffer_index (buffer_reach row c buf) row' = buffer_index buf row'"
  "buffer_row (buffer_reach row c buf) row' = buffer_row buf row'"
  "buffer_text (buffer_reach row c buf) row' = buffer_text buf row'"
  "buffer_ok (buffer_reach row c buf) = buffer_ok buf"
  by (simp_all add: buffer_reach_def buffer_index_def buffer_row_def buffer_text_def buffer_ok_def Let_def)

lemma buffer_put_put [simp]: "buffer_put i r (buffer_put i r' buf) = buffer_put i r buf"
  by (simp add: buffer_put_def)

lemma set_columns_eq:
  assumes "buffer_ok buf" and "0 < ch_width c" and "end_column + 1 < 2 ^ 30"
  obtains r where "row_ok r"
    and "row_text r = buffer_text buf row @
      replicate (nat (end_column + 1) - nat (row_length (buffer_row buf row))) (buf_default_character buf)"
    and "row_length r = max (end_column + 1) (row_length (buffer_row buf row))"
    and "row_available r = (if end_column + 1 > row_available (buffer_row buf row) then 2 * (end_column + 1)
      else row_available (buffer_row buf row))"
    and "guac_terminal_buffer_set_columns buf row start_column end_column c =
      map_option (\<lambda>chars. buffer_reach row c
          (buffer_put (buffer_index buf row) (r\<lparr>row_characters := chars\<rparr>) buf))
        (set_columns_loop (row_characters r) start_column end_column c)"
proof -
  obtain r where r:
    "guac_terminal_buffer_get_row buf row (end_column + 1) =
      Some (buffer_index buf row, buffer_put (buffer_index buf row) r buf)" "row_ok r"
    "row_text r = buffer_text buf row @
      replicate (nat (end_column + 1) - nat (row_length (buffer_row buf row))) (buf_default_character buf)"
    "row_length r = max (end_column + 1) (row_length (buffer_row buf row))"
    "row_available r = (if end_column + 1 > row_available (buffer_row buf row) then 2 * (end_column + 1)
      else row_available (buffer_row buf row))"
    by (rule get_row_spec[OF assms(1,3)])
  show ?thesis
    using assms(1,2) r by (intro that[of r])
      (auto simp: guac_terminal_buffer_set_columns_def buffer_put_rows map_option_case
        split: option.splits bind_splits)
qed

text \<open>
  When the blocks stay within the row, the row shows the old text with the blocks stored over it,
  and no other row changes.
\<close>

lemma row_store_ok:
  assumes "row_ok r" and "block_put (row_characters r) i (map Some cs) = Some chars"
  shows "row_ok (r\<lparr>row_characters := chars\<rparr>)"
proof -
  have "chars ! k \<noteq> None" if "k < nat (row_length r)" for k
    using that assms(1) block_put_nth[OF assms(2), of k] by (auto simp: row_ok_def)
  then show ?thesis
    using assms(1) block_put_length[OF assms(2)] by (auto simp: row_ok_def)
qed

lemma row_store_text:
  assumes "row_ok r" and "block_put (row_characters r) i (map Some cs) = Some chars"
    and "i + int (length cs) \<le> row_length r"
  shows "row_text (r\<lparr>row_characters := chars\<rparr>) = mem_write (row_text r) (nat i) cs"
proof (rule row_textI[OF row_store_ok[OF assms(1,2)]])
  have i: "0 \<le> i" using assms(2) by (auto simp: block_put_def split: if_splits)
  then have le: "nat i + length cs \<le> length (row_text r)" using assms by simp
  then show "length (mem_write (row_text r) (nat i) cs) = nat (row_length (r\<lparr>row_characters := chars\<rparr>))"
    using assms(1) by simp
  fix k assume "k < length (mem_write (row_text r) (nat i) cs)"
  then have k: "k < nat (row_length r)" using le assms(1) by simp
  then have kc: "k < length (row_characters r)" using assms(1) by (auto simp: row_ok_def)
  have eq: "i \<le> int k \<longleftrightarrow> \<not> k < nat i" "int k < i + int (length cs) \<longleftrightarrow> k < nat i + length cs"
    "nat (int k - i) = k - nat i"
    using i by linarith+
  have "k - nat i < length cs" if "\<not> k < nat i" "k < nat i + length cs" using that by linarith
  then show "row_characters (r\<lparr>row_characters := chars\<rparr>) ! k = Some (mem_write (row_text r) (nat i) cs ! k)"
    using block_put_nth[OF assms(2) kc] row_text_nth[OF assms(1) k] le k assms(1)
    by (simp add: nth_mem_write eq)
qed

lemma set_columns_some:
  assumes "buffer_ok buf" and "0 < ch_width c" and "end_column + 1 < 2 ^ 30" and "0 \<le> start_column"
    and "start_column \<le> end_column + 1"
    and "start_column + int (char_rounds start_column end_column (ch_width c)) * ch_width c
      \<le> max (end_column + 1) (row_available (buffer_row buf row))"
  obtains r where
    "guac_terminal_buffer_set_columns buf row start_column end_column c =
       Some (buffer_reach row c (buffer_put (buffer_index buf row) r buf))"
    and "row_ok r" and "row_length r = max (end_column + 1) (row_length (buffer_row buf row))"
    and "start_column + int (char_rounds start_column end_column (ch_width c)) * ch_width c \<le> row_length r \<Longrightarrow>
      row_text r = mem_write (buffer_text buf row @
          replicate (nat (end_column + 1) - nat (row_length (buffer_row buf row))) (buf_default_character buf))
        (nat start_column) (char_text (char_rounds start_column end_column (ch_width c)) c)"
proof -
  let ?k = "char_rounds start_column end_column (ch_width c)"
  obtain r where r: "row_ok r"
    "row_text r = buffer_text buf row @
      replicate (nat (end_column + 1) - nat (row_length (buffer_row buf row))) (buf_default_character buf)"
    "row_length r = max (end_column + 1) (row_length (buffer_row buf row))"
    "row_available r = (if end_column + 1 > row_available (buffer_row buf row) then 2 * (end_column + 1)
      else row_available (buffer_row buf row))"
    "guac_terminal_buffer_set_columns buf row start_column end_column c =
      map_option (\<lambda>chars. buffer_reach row c
          (buffer_put (buffer_index buf row) (r\<lparr>row_characters := chars\<rparr>) buf))
        (set_columns_loop (row_characters r) start_column end_column c)"
    by (rule set_columns_eq[OF assms(1-3)])
  have loop: "set_columns_loop (row_characters r) start_column end_column c =
      block_put (row_characters r) start_column (char_blocks ?k c)"
  proof (cases "start_column > end_column")
    case True
    then have "start_column \<le> int (length (row_characters r))"
      using assms(5) r(1,3) by (auto simp: row_ok_def)
    with True assms show ?thesis
      by (simp add: set_columns_loop_spec char_rounds_def char_blocks_def block_put_def mem_write_def)
  qed (use assms in \<open>simp add: set_columns_loop_spec\<close>)
  have "start_column + int (length (char_blocks ?k c)) \<le> int (length (row_characters r))"
    using assms(6) r(1,4) assms(4,5) by (auto simp: char_blocks_length[OF assms(2)] row_ok_def max_def split: if_splits)
  then obtain chars where put: "block_put (row_characters r) start_column (char_blocks ?k c) = Some chars"
    using assms(4) by (auto simp: block_put_def)
  show ?thesis
  proof (rule that[of "r\<lparr>row_characters := chars\<rparr>"])
    show "guac_terminal_buffer_set_columns buf row start_column end_column c =
       Some (buffer_reach row c (buffer_put (buffer_index buf row) (r\<lparr>row_characters := chars\<rparr>) buf))"
      using r(5) loop put by simp
    show "row_ok (r\<lparr>row_characters := chars\<rparr>)"
      using row_store_ok[OF r(1) put[unfolded char_blocks_text]] .
    show "row_length (r\<lparr>row_characters := chars\<rparr>) = max (end_column + 1) (row_length (buffer_row buf row))"
      using r(3) by simp
    assume "start_column + int ?k * ch_width c \<le> row_length (r\<lparr>row_characters := chars\<rparr>)"
    then have "start_column + int (length (char_text ?k c)) \<le> row_length r"
      using char_blocks_length[OF assms(2), of ?k] by (simp add: char_blocks_text)
    from row_store_text[OF r(1) put[unfolded char_blocks_text] this] r(2)
    show "row_text (r\<lparr>row_characters := chars\<rparr>) = mem_write (buffer_text buf row @
          replicate (nat (end_column + 1) - nat (row_length (buffer_row buf row))) (buf_default_character buf))
        (nat start_column) (char_text ?k c)"
      by simp
  qed
qed

lemma set_columns_none:
  assumes "buffer_ok buf" and "0 < ch_width c" and "end_column + 1 < 2 ^ 30" and "start_column \<le> end_column"
    and "start_column < 0 \<or>
      start_column + int (char_rounds start_column end_column (ch_width c)) * ch_width c
        > (if end_column + 1 > row_available (buffer_row buf row) then 2 * (end_column + 1)
           else row_available (buffer_row buf row))"
  shows "guac_terminal_buffer_set_columns buf row start_column end_column c = None"
proof -
  let ?k = "char_rounds start_column end_column (ch_width c)"
  obtain r where r: "row_ok r"
    "row_available r = (if end_column + 1 > row_available (buffer_row buf row) then 2 * (end_column + 1)
      else row_available (buffer_row buf row))"
    "guac_terminal_buffer_set_columns buf row start_column end_column c =
      map_option (\<lambda>chars. buffer_reach row c
          (buffer_put (buffer_index buf row) (r\<lparr>row_characters := chars\<rparr>) buf))
        (set_columns_loop (row_characters r) start_column end_column c)"
    by (rule set_columns_eq[OF assms(1-3)])
  have "set_columns_loop (row_characters r) start_column end_column c = None"
  proof (cases "start_column < 0")
    case True
    then show ?thesis
      using assms(2,4) by (subst set_columns_loop.simps) (simp add: block_put_def)
  next
    case False
    then have "int (length (row_characters r)) < start_column + int (length (char_blocks ?k c))"
      using assms(5) r(1,2) by (simp add: char_blocks_length[OF assms(2)] row_ok_def)
    with False assms(2,4) show ?thesis
      by (simp add: set_columns_loop_spec block_put_def)
  qed
  with r(3) show ?thesis by simp
qed

lemma char_rounds_exact:
  assumes "0 < w" and "i \<le> e" and "w dvd e - i + 1"
  shows "int (char_rounds i e w) * w = e - i + 1"
proof -
  obtain q where q: "e - i + 1 = w * q" using assms(3) by (rule dvdE)
  have "0 < w * q" using q assms(2) by linarith
  then have "0 < q" using assms(1) by (simp add: zero_less_mult_iff)
  have "e - i = (q - 1) * w + (w - 1)" using q by (simp add: algebra_simps)
  then have "(e - i) div w = q - 1" using assms(1) by simp
  with assms \<open>0 < q\<close> q show ?thesis by (simp add: char_rounds_def mult.commute)
qed

section \<open>Copying rows\<close>

lemma copy_row_spec:
  assumes "buffer_ok buf"
  obtains buf' where "copy_row buf cur offset = Some buf'" and "buffer_ok buf'"
    and "\<And>r. buffer_text buf' r =
      (if buffer_index buf r = buffer_index buf (cur + offset) then buffer_text buf cur else buffer_text buf r)"
    and "\<And>r. buffer_index buf' r = buffer_index buf r"
    and "buf_top buf' = buf_top buf" and "buf_length buf' = buf_length buf"
    and "buf_available buf' = buf_available buf"
    and "buf_default_character buf' = buf_default_character buf"
proof -
  let ?i = "buffer_index buf cur" and ?j = "buffer_index buf (cur + offset)"
  obtain s where s: "guac_terminal_buffer_get_row buf cur 0 = Some (?i, buffer_put ?i s buf)" "row_ok s"
    "row_text s = buffer_text buf cur @ replicate (nat 0 - nat (row_length (buffer_row buf cur)))
      (buf_default_character buf)"
    by (rule get_row_spec[OF assms, of 0 cur]) simp
  have st: "row_text s = buffer_text buf cur" using s(3) by simp
  define b1 where "b1 = buffer_put ?i s buf"
  have b1: "buffer_ok b1" using assms s(2) by (auto simp: b1_def)
  have b1_row: "buffer_row b1 r = (if buffer_index buf r = ?i then s else buffer_row buf r)" for r
    unfolding b1_def by (rule buffer_put_rows(2)[OF assms])
  have b1_idx: "buffer_index b1 r = buffer_index buf r" for r by (simp add: b1_def)
  have b1_text: "buffer_text b1 r = buffer_text buf r" for r
    using st by (simp add: buffer_text_def b1_row) (simp add: buffer_row_def)
  have src: "buf_rows b1 ! ?i = s" unfolding b1_def by (rule buffer_put_rows(1)[OF assms])
  have slen: "row_length s < 2 ^ 30" "0 \<le> row_length s" using s(2) by (auto simp: row_ok_def)
  obtain d where d: "guac_terminal_buffer_get_row b1 (cur + offset) (row_length s) =
      Some (?j, buffer_put ?j d b1)" "row_ok d"
    "row_text d = buffer_text b1 (cur + offset) @
      replicate (nat (row_length s) - nat (row_length (buffer_row b1 (cur + offset)))) (buf_default_character b1)"
    "row_length d = max (row_length s) (row_length (buffer_row b1 (cur + offset)))"
    by (rule get_row_spec[OF b1 slen(1), of "cur + offset"]) (simp add: b1_idx)
  define b2 where "b2 = buffer_put ?j d b1"
  have b2: "buffer_ok b2" using b1 d(2) by (auto simp: b2_def)
  have dst: "buf_rows b2 ! ?j = d"
    using buffer_put_rows(1)[OF b1, of "cur + offset" d] by (simp add: b2_def b1_idx)
  have srcd: "take (nat (row_length s)) (row_characters (buf_rows b2 ! ?i)) = map Some (row_text s)"
  proof (cases "?i = ?j")
    case True
    then have "buffer_row b1 (cur + offset) = s" by (simp add: b1_row)
    then have "row_text d = row_text s" "row_length d = row_length s"
      using d(3,4) by (simp_all add: buffer_text_def)
    then show ?thesis using True dst row_text_cells[OF d(2)] by simp
  next
    case False
    then have "buf_rows b2 ! ?i = s"
      using src by (simp add: b2_def buffer_put_def)
    then show ?thesis using row_text_cells[OF s(2)] by simp
  qed
  obtain chars where put: "block_put (row_characters d) 0 (map Some (row_text s)) = Some chars"
    using d(2,4) s(2) slen by (auto simp: block_put_def row_ok_def row_text_length[OF s(2)])
  define r' where "r' = d\<lparr>row_characters := chars, row_length := row_length s\<rparr>"
  have ok: "row_ok r'"
    using row_store_ok[OF d(2) put] d(4) s(2) slen by (auto simp: row_ok_def r'_def)
  have same: "row_text r' = row_text s"
  proof (rule row_textI[OF ok])
    fix k assume "k < length (row_text s)"
    moreover from this have "k < length (row_characters d)" using d(2,4) s(2) by (auto simp: row_ok_def)
    ultimately show "row_characters r' ! k = Some (row_text s ! k)"
      using block_put_nth[OF put, of k] by (simp add: r'_def)
  qed (use s(2) in \<open>simp add: r'_def\<close>)
  have final: "copy_row buf cur offset = Some (buffer_put ?j r' b1)"
    using s(1) d(1) put dst srcd src
    by (simp add: copy_row_def Let_def b1_def[symmetric] b2_def[symmetric]) (simp add: b2_def r'_def)
  show ?thesis
  proof (rule that[OF final])
    show "buffer_ok (buffer_put ?j r' b1)" using b1 ok by auto
    show "buffer_text (buffer_put ?j r' b1) r =
        (if buffer_index buf r = ?j then buffer_text buf cur else buffer_text buf r)" for r
      using buffer_put_rows(2)[OF b1, of "cur + offset" r' r] same st b1_text[of r]
      by (simp add: b1_idx buffer_text_def)
  qed (simp_all add: b1_def)
qed

text \<open>
  The loop reads the rows \<open>cur\<close>, \<open>cur + step\<close>, \dots\ in turn. As it moves away from the rows it
  stores to, every row is read before it is overwritten, as long as the rows read and stored span
  no more than the ring.
\<close>

lemma copy_rows_loop_spec:
  assumes "buffer_ok buf" and "step = 1 \<or> step = - 1" and "step * offset \<le> 0"
    and "int n + \<bar>offset\<bar> \<le> buf_available buf"
  shows "\<exists>buf'. copy_rows_loop n cur step offset buf = Some buf' \<and> buffer_ok buf'
    \<and> (\<forall>j < n. buffer_text buf' (cur + step * int j + offset) = buffer_text buf (cur + step * int j))
    \<and> (\<forall>r. (\<forall>j < n. buffer_index buf r \<noteq> buffer_index buf (cur + step * int j + offset)) \<longrightarrow>
        buffer_text buf' r = buffer_text buf r)
    \<and> (\<forall>r. buffer_index buf' r = buffer_index buf r) \<and> buf_top buf' = buf_top buf
    \<and> buf_length buf' = buf_length buf \<and> buf_available buf' = buf_available buf
    \<and> buf_default_character buf' = buf_default_character buf"
  using assms
proof (induction n arbitrary: cur buf)
  case 0
  then show ?case by simp
next
  case (Suc n)
  obtain b1 where b1: "copy_row buf cur offset = Some b1" "buffer_ok b1"
    "\<And>r. buffer_text b1 r =
      (if buffer_index buf r = buffer_index buf (cur + offset) then buffer_text buf cur else buffer_text buf r)"
    "\<And>r. buffer_index b1 r = buffer_index buf r"
    "buf_top b1 = buf_top buf" "buf_length b1 = buf_length buf"
    "buf_available b1 = buf_available buf" "buf_default_character b1 = buf_default_character buf"
    by (rule copy_row_spec[OF Suc.prems(1)]) blast
  have "int n + \<bar>offset\<bar> \<le> buf_available b1" using Suc.prems(4) b1(7) by simp
  then obtain b2 where b2: "copy_rows_loop n (cur + step) step offset b1 = Some b2" "buffer_ok b2"
    and moved: "\<And>j. j < n \<Longrightarrow>
      buffer_text b2 (cur + step + step * int j + offset) = buffer_text b1 (cur + step + step * int j)"
    and kept: "\<And>r. (\<And>j. j < n \<Longrightarrow> buffer_index b1 r \<noteq> buffer_index b1 (cur + step + step * int j + offset)) \<Longrightarrow>
      buffer_text b2 r = buffer_text b1 r"
    and frame: "\<And>r. buffer_index b2 r = buffer_index b1 r" "buf_top b2 = buf_top b1"
      "buf_length b2 = buf_length b1" "buf_available b2 = buf_available b1"
      "buf_default_character b2 = buf_default_character b1"
    using Suc.IH[OF b1(2) Suc.prems(2,3), of "cur + step"] by auto
  have avail: "0 < buf_available buf" using Suc.prems(1) by (simp add: buffer_ok_def)
  have apart: "buffer_index buf (cur + step * int j) \<noteq> buffer_index buf (cur + offset)"
    if "0 < j" "j < Suc n" for j
  proof -
    have "\<bar>cur + step * int j - (cur + offset)\<bar> = int j + \<bar>offset\<bar>"
      using Suc.prems(2,3) that(1) by auto
    then have "\<bar>cur + step * int j - (cur + offset)\<bar> < buf_available buf" "cur + step * int j \<noteq> cur + offset"
      using Suc.prems(4) that by linarith+
    then show ?thesis using buffer_index_near[OF avail] by blast
  qed
  have apart': "buffer_index buf (cur + offset) \<noteq> buffer_index buf (cur + step * int j + offset)"
    if "0 < j" "j < Suc n" for j
  proof -
    have "\<bar>(cur + offset) - (cur + step * int j + offset)\<bar> = int j"
      using Suc.prems(2) that(1) by auto
    then have "\<bar>(cur + offset) - (cur + step * int j + offset)\<bar> < buf_available buf"
      "cur + offset \<noteq> cur + step * int j + offset"
      using Suc.prems(4) that by linarith+
    then show ?thesis using buffer_index_near[OF avail] by blast
  qed
  have shift: "cur + step + step * int j = cur + step * int (Suc j)" for j
    by (simp add: algebra_simps)
  have "buffer_text b2 (cur + step * int j + offset) = buffer_text buf (cur + step * int j)"
    if "j < Suc n" for j
  proof (cases j)
    case 0
    have "buffer_text b2 (cur + offset) = buffer_text b1 (cur + offset)"
    proof (rule kept)
      fix j assume "j < n"
      then show "buffer_index b1 (cur + offset) \<noteq> buffer_index b1 (cur + step + step * int j + offset)"
        using apart'[of "Suc j"] unfolding b1(4) shift by simp
    qed
    then show ?thesis using 0 b1(3) by simp
  next
    case (Suc i)
    then show ?thesis
      using moved[of i] that b1(3)[of "cur + step * int j"] apart[of j] by (simp add: shift)
  qed
  moreover have "buffer_text b2 r = buffer_text buf r"
    if "\<forall>j < Suc n. buffer_index buf r \<noteq> buffer_index buf (cur + step * int j + offset)" for r
  proof -
    have "buffer_text b2 r = buffer_text b1 r"
    proof (rule kept)
      fix j assume "j < n"
      then show "buffer_index b1 r \<noteq> buffer_index b1 (cur + step + step * int j + offset)"
        using that unfolding b1(4) shift by (metis Suc_less_eq)
    qed
    moreover have "buffer_index buf r \<noteq> buffer_index buf (cur + offset)"
      using that[rule_format, of 0] by simp
    ultimately show ?thesis using b1(3) by simp
  qed
  ultimately show ?case
    using b1 b2 frame by simp
qed

text \<open>
  C27. Copying a range of rows up or down leaves every row of the target range with the text that
  the corresponding row of the source range had before the copy, also where the two ranges
  overlap, and every other row as it was. This holds as long as both ranges together fit into the
  ring of rows.
\<close>

theorem buffer_copy_rows:
  assumes "buffer_ok buf" and "start_row \<le> end_row"
    and "end_row - start_row + 1 + \<bar>offset\<bar> \<le> buf_available buf"
  shows "\<exists>buf'. guac_terminal_buffer_copy_rows buf start_row end_row offset = Some buf'
    \<and> buffer_ok buf'
    \<and> (\<forall>r. start_row \<le> r \<and> r \<le> end_row \<longrightarrow> buffer_text buf' (r + offset) = buffer_text buf r)
    \<and> (\<forall>r. (\<forall>q. start_row \<le> q \<and> q \<le> end_row \<longrightarrow> (r - (q + offset)) mod buf_available buf \<noteq> 0) \<longrightarrow>
         buffer_text buf' r = buffer_text buf r)"
proof -
  define n where "n = nat (end_row - start_row + 1)"
  define step :: int where "step = (if offset > 0 then - 1 else 1)"
  define cur where "cur = (if offset > 0 then end_row else start_row)"
  have n: "int n + \<bar>offset\<bar> \<le> buf_available buf" using assms(2,3) by (simp add: n_def)
  have avail: "0 < buf_available buf" using assms(1) by (simp add: buffer_ok_def)
  have loop: "guac_terminal_buffer_copy_rows buf start_row end_row offset = copy_rows_loop n cur step offset buf"
    by (simp add: guac_terminal_buffer_copy_rows_def n_def step_def cur_def)
  have steps: "step = 1 \<or> step = - 1" "step * offset \<le> 0" by (auto simp: step_def)
  obtain buf' where b: "copy_rows_loop n cur step offset buf = Some buf'" "buffer_ok buf'"
    and moved: "\<And>j. j < n \<Longrightarrow> buffer_text buf' (cur + step * int j + offset) = buffer_text buf (cur + step * int j)"
    and kept: "\<And>r. (\<And>j. j < n \<Longrightarrow> buffer_index buf r \<noteq> buffer_index buf (cur + step * int j + offset)) \<Longrightarrow>
      buffer_text buf' r = buffer_text buf r"
    using copy_rows_loop_spec[OF assms(1) steps n, of cur] by auto
  have "buffer_text buf' (r + offset) = buffer_text buf r" if "start_row \<le> r" "r \<le> end_row" for r
  proof -
    define j where "j = nat (if offset > 0 then end_row - r else r - start_row)"
    have "j < n" "r = cur + step * int j" using that by (auto simp: j_def n_def cur_def step_def)
    then show ?thesis using moved by simp
  qed
  moreover have "buffer_text buf' r = buffer_text buf r"
    if r: "\<forall>q. start_row \<le> q \<and> q \<le> end_row \<longrightarrow> (r - (q + offset)) mod buf_available buf \<noteq> 0" for r
  proof (rule kept)
    fix j assume "j < n"
    then have "start_row \<le> cur + step * int j" "cur + step * int j \<le> end_row"
      by (auto simp: n_def cur_def step_def)
    with r show "buffer_index buf r \<noteq> buffer_index buf (cur + step * int j + offset)"
      by (simp add: buffer_index_eq_iff[OF avail])
  qed
  ultimately show ?thesis using loop b by auto
qed

theorem buffer_copy_rows_witness:
  "\<exists>buf'. guac_terminal_buffer_copy_rows (guac_terminal_buffer_alloc 4 (plain_char 0 1)) 0 2 1 = Some buf'
    \<and> buffer_ok buf'"
proof -
  have "buf_available (guac_terminal_buffer_alloc 4 (plain_char 0 1)) = 4"
    by (simp add: guac_terminal_buffer_alloc_def)
  with buffer_copy_rows[OF buffer_alloc_ok, of 4 0 2 1 "plain_char 0 1"] show ?thesis by auto
qed

text \<open>
  Storing a character of any width to a range of columns that it divides evenly gives a
  well-formed buffer whose row shows the old text, padded with the default character up to the
  range, with the character and its continuation cells stored over it; all other rows are kept.
\<close>

theorem buffer_set_columns_text:
  assumes "buffer_ok buf" and "0 < ch_width c" and "0 \<le> start_column" and "start_column \<le> end_column"
    and "end_column + 1 < 2 ^ 30" and "ch_width c dvd end_column - start_column + 1"
  shows "\<exists>buf'. guac_terminal_buffer_set_columns buf row start_column end_column c = Some buf'
    \<and> buffer_ok buf'
    \<and> (\<forall>r. buffer_text buf' r =
        (if (r - row) mod buf_available buf = 0
         then mem_write (buffer_text buf row @
                replicate (nat (end_column + 1) - length (buffer_text buf row)) (buf_default_character buf))
              (nat start_column) (char_text (char_rounds start_column end_column (ch_width c)) c)
         else buffer_text buf r))"
proof -
  have avail: "0 < buf_available buf" using assms(1) by (simp add: buffer_ok_def)
  have reach: "start_column + int (char_rounds start_column end_column (ch_width c)) * ch_width c = end_column + 1"
    using char_rounds_exact[OF assms(2,4,6)] by simp
  obtain r where r:
    "guac_terminal_buffer_set_columns buf row start_column end_column c =
       Some (buffer_reach row c (buffer_put (buffer_index buf row) r buf))"
    "row_ok r" "row_length r = max (end_column + 1) (row_length (buffer_row buf row))"
    "start_column + int (char_rounds start_column end_column (ch_width c)) * ch_width c \<le> row_length r \<Longrightarrow>
      row_text r = mem_write (buffer_text buf row @
          replicate (nat (end_column + 1) - nat (row_length (buffer_row buf row))) (buf_default_character buf))
        (nat start_column) (char_text (char_rounds start_column end_column (ch_width c)) c)"
    by (rule set_columns_some[OF assms(1,2,5,3), where row = row]) (use assms(4) reach in auto)
  have "length (buffer_text buf row) = nat (row_length (buffer_row buf row))"
    using buffer_row_ok[OF assms(1)] by (simp add: buffer_text_def)
  then have t: "row_text r = mem_write (buffer_text buf row @
          replicate (nat (end_column + 1) - length (buffer_text buf row)) (buf_default_character buf))
        (nat start_column) (char_text (char_rounds start_column end_column (ch_width c)) c)"
    using r(3,4) reach by simp
  show ?thesis
    unfolding r(1)
    using assms(1) r(2) t buffer_put_rows(2)[OF assms(1), of row r]
    by (auto simp: buffer_text_def[of "buffer_put _ _ _"] buffer_index_eq_iff[OF avail]
        buffer_text_def[of buf])
qed

theorem buffer_set_columns_text_witness:
  "\<exists>buf'. guac_terminal_buffer_set_columns (guac_terminal_buffer_alloc 4 (plain_char 0 1)) (- 1) 2 5
       (plain_char 28450 2) = Some buf' \<and> buffer_ok buf'"
  using buffer_set_columns_text[of "guac_terminal_buffer_alloc 4 (plain_char 0 1)" "plain_char 28450 2" 2 5 "- 1"]
  by (auto simp: buffer_alloc_ok plain_char_def)

text \<open>
  A wide character stored to a range that its width does not divide overruns the row when
  the last column of the range is the last one the row has room for: the continuation cell is
  stored behind the end of the array.
\<close>

theorem wide_character_overruns:
  assumes "buffer_ok buf" and "ch_width c = 2" and "0 \<le> column"
    and "column + 1 = row_available (buffer_row buf row)" and "column + 1 < 2 ^ 30"
  shows "guac_terminal_buffer_set_columns buf row column column c = None"
  using assms by (intro set_columns_none) (auto simp: char_rounds_def)

theorem wide_character_overruns_witness:
  "guac_terminal_buffer_set_columns (guac_terminal_buffer_alloc 1024 (plain_char 0 1)) 0 255 255
     (plain_char 28450 2) = None"
proof -
  have "buffer_row (guac_terminal_buffer_alloc 1024 (plain_char 0 1)) 0 =
      \<lparr>row_characters = replicate 256 None, row_length = 0, row_available = 256\<rparr>"
    using buffer_index_less[OF buffer_alloc_ok, of 1024 "plain_char 0 1" 0]
    by (simp add: buffer_row_def guac_terminal_buffer_alloc_def)
  then show ?thesis
    using wide_character_overruns[of "guac_terminal_buffer_alloc 1024 (plain_char 0 1)" "plain_char 28450 2" 255 0]
    by (simp add: buffer_alloc_ok plain_char_def)
qed

section \<open>Copying columns\<close>

text \<open>
  A copy of columns by no more than the length of the row stays within the row, whatever columns
  it is asked for.
\<close>

lemma copy_columns_some:
  assumes "buffer_ok buf" and "end_column + offset + 1 < 2 ^ 30" and "start_column \<le> end_column + 1"
    and "\<bar>offset\<bar> < max (end_column + offset + 1) (row_length (buffer_row buf row))"
  obtains r where
    "guac_terminal_buffer_copy_columns buf row start_column end_column offset =
       Some (buffer_put (buffer_index buf row) r buf)"
    and "row_ok r" and "row_length r = max (end_column + offset + 1) (row_length (buffer_row buf row))"
proof -
  obtain r where r:
    "guac_terminal_buffer_get_row buf row (end_column + offset + 1) =
      Some (buffer_index buf row, buffer_put (buffer_index buf row) r buf)" "row_ok r"
    "row_length r = max (end_column + offset + 1) (row_length (buffer_row buf row))"
    by (rule get_row_spec[OF assms(1,2), of row])
  obtain s e where fit: "fit_copy_range start_column end_column offset (row_length r - 1) = (s, e)"
    by (cases "fit_copy_range start_column end_column offset (row_length r - 1)")
  have "0 \<le> row_length r - 1" "\<bar>offset\<bar> \<le> row_length r - 1" using assms(4) r(3) by linarith+
  note range = fit_copy_range_safe[OF fit this assms(3)]
  have len: "int (length (row_characters r)) \<ge> row_length r" using r(2) by (auto simp: row_ok_def)
  obtain chars where move: "mem_move (row_characters r) (s + offset) s (e - s + 1) = Some chars"
    using mem_move_Some[of "e - s + 1" s "row_characters r" "s + offset"] range len by auto
  have eq: "guac_terminal_buffer_copy_columns buf row start_column end_column offset =
      Some (buffer_put (buffer_index buf row) (r\<lparr>row_characters := chars\<rparr>) buf)"
    using r(1) move
    by (simp add: guac_terminal_buffer_copy_columns_def buffer_put_rows[OF assms(1)] fit)
  have "chars ! k \<noteq> None" if "k < nat (row_length r)" for k
  proof -
    have k: "k < length (row_characters r)" using that len by linarith
    have "nat (int k - (s + offset) + s) < nat (row_length r)"
      if "s + offset \<le> int k" "int k < s + offset + (e - s + 1)"
      using that range by linarith
    then show ?thesis
      using mem_move_nth[OF move k] r(2) that by (auto simp: row_ok_def)
  qed
  then have "row_ok (r\<lparr>row_characters := chars\<rparr>)"
    using r(2) mem_move_length[OF move] by (auto simp: row_ok_def)
  with eq r(3) show ?thesis by (intro that[of "r\<lparr>row_characters := chars\<rparr>"]) auto
qed

end
