(* ===== verification/Term_Cells.thy ===== *)
theory Term_Cells
  imports Term_Buffer
begin

text \<open>
  Properties of all cells of the scrollback buffer: what holds of every character ever stored holds
  of every character the buffer's arrays contain, also behind the length of a row. The operations
  of the buffer succeed under conditions that do not mention the cells.
\<close>

section \<open>Cells of a row\<close>

text \<open>Every row has room for at least 256 characters, and its characters have the property \<open>P\<close>.\<close>

definition row_keeps :: "(guac_terminal_char \<Rightarrow> bool) \<Rightarrow> guac_terminal_buffer_row \<Rightarrow> bool" where
  "row_keeps P r \<longleftrightarrow> 256 \<le> row_available r \<and> (\<forall>c. Some c \<in> set (row_characters r) \<longrightarrow> P c)"

definition buffer_keeps :: "(guac_terminal_char \<Rightarrow> bool) \<Rightarrow> guac_terminal_buffer \<Rightarrow> bool" where
  "buffer_keeps P buf \<longleftrightarrow> P (buf_default_character buf) \<and> (\<forall>r \<in> set (buf_rows buf). row_keeps P r)"

lemma block_put_set: "block_put cells i vs = Some cells' \<Longrightarrow> set cells' \<subseteq> set cells \<union> set vs"
  by (auto simp: block_put_def mem_write_def dest: in_set_takeD in_set_dropD split: if_splits)

lemma mem_move_set: "mem_move cells dst src n = Some cells' \<Longrightarrow> set cells' \<subseteq> set cells"
  by (auto simp: mem_move_def dest!: block_put_set dest: in_set_takeD in_set_dropD split: if_splits)

lemma row_keeps_store:
  assumes "row_keeps P r" and "set cells \<subseteq> set (row_characters r) \<union> S" and "\<And>c. Some c \<in> S \<Longrightarrow> P c"
  shows "row_keeps P (r\<lparr>row_characters := cells\<rparr>)"
  using assms by (auto simp: row_keeps_def)

lemma row_resize_keeps:
  assumes "row_resize c width r = Some r'" and "row_keeps P r" and "P c"
  shows "row_keeps P r'"
proof (cases "width \<ge> row_length r")
  case False
  then show ?thesis using assms by (simp add: row_resize_def)
next
  case True
  then obtain r1 where r1: "row_expand width r = Some r1" "row_initialise c width r1 = Some r'"
    using assms(1) by (auto simp: row_resize_def bind_eq_Some_conv)
  have "row_keeps P r1"
    using r1(1) assms(2) by (auto simp: row_expand_def row_keeps_def Let_def split: if_splits)
  moreover obtain cells where put: "block_put (row_characters r1) (row_length r1)
        (replicate (nat (width - row_length r1)) (Some c)) = Some cells"
    and r': "r' = r1\<lparr>row_characters := cells, row_length := width\<rparr>"
    using r1(2) by (auto simp: row_initialise_def bind_eq_Some_conv)
  ultimately show ?thesis
    using block_put_set[OF put] assms(3) by (auto simp: row_keeps_def)
qed

lemma get_row_keeps:
  assumes "guac_terminal_buffer_get_row buf row width = Some (i, buf')" and "buffer_ok buf" and "buffer_keeps P buf"
  shows "buffer_keeps P buf'" and "row_keeps P (buf_rows buf' ! i)" and "i = buffer_index buf row"
proof -
  obtain r where r: "row_resize (buf_default_character buf) width (buf_rows buf ! buffer_index buf row) = Some r"
    and i: "i = buffer_index buf row" and buf': "buf' = buffer_put i r buf"
    using assms(1) by (auto simp: guac_terminal_buffer_get_row_def Let_def bind_eq_Some_conv)
  have "row_keeps P (buf_rows buf ! buffer_index buf row)"
    using assms(3) buffer_index_less[OF assms(2)] by (auto simp: buffer_keeps_def)
  then have rk: "row_keeps P r" using row_resize_keeps[OF r] assms(3) by (auto simp: buffer_keeps_def)
  then show "buffer_keeps P buf'"
    using assms(3) by (auto simp: buffer_keeps_def buf' buffer_put_def dest: set_update_subset_insert[THEN subsetD])
  show "row_keeps P (buf_rows buf' ! i)" using rk buffer_put_rows(1)[OF assms(2)] by (simp add: buf' i)
  show "i = buffer_index buf row" by (rule i)
qed

lemma buffer_put_keeps: "buffer_keeps P buf \<Longrightarrow> row_keeps P r \<Longrightarrow> buffer_keeps P (buffer_put i r buf)"
  by (auto simp: buffer_keeps_def buffer_put_def dest: set_update_subset_insert[THEN subsetD])

lemma buffer_reach_keeps [simp]: "buffer_keeps P (buffer_reach row c buf) = buffer_keeps P buf"
  by (simp add: buffer_keeps_def)

lemma buffer_row_keeps: "buffer_ok buf \<Longrightarrow> buffer_keeps P buf \<Longrightarrow> row_keeps P (buffer_row buf row)"
  using buffer_index_less[of buf row] by (auto simp: buffer_keeps_def buffer_row_def)

section \<open>The operations\<close>

lemma set_columns_loop_keeps:
  assumes "set_columns_loop cells i e c = Some cells'"
  shows "set cells' \<subseteq> set cells \<union> {Some c, Some (continuation_char c)}"
  using assms
proof (induction cells i e c arbitrary: cells' rule: set_columns_loop.induct)
  case (1 cells i e c)
  show ?case
  proof (cases "i > e")
    case True
    then show ?thesis using "1.prems" by (auto simp: set_columns_loop.simps)
  next
    case False
    then have w: "\<not> ch_width c \<le> 0"
      using "1.prems" by (subst (asm) set_columns_loop.simps) (auto split: if_splits)
    then obtain cells1 where put: "block_put cells i (char_block c) = Some cells1"
      and rec: "set_columns_loop cells1 (i + ch_width c) e c = Some cells'"
      using False "1.prems" by (subst (asm) set_columns_loop.simps) (auto simp: bind_eq_Some_conv)
    have "set (char_block c) \<subseteq> {Some c, Some (continuation_char c)}" by (auto simp: char_block_def)
    then show ?thesis using "1.IH"[OF False w put rec] block_put_set[OF put] by blast
  qed
qed

text \<open>What an operation on a row of the buffer leaves: the row replaced by one at least as long.\<close>

definition row_replaced ::
    "(guac_terminal_char \<Rightarrow> bool) \<Rightarrow> guac_terminal_buffer \<Rightarrow> int \<Rightarrow> int \<Rightarrow> guac_terminal_buffer \<Rightarrow> bool" where
  "row_replaced P buf row len buf' \<longleftrightarrow>
     buffer_ok buf' \<and> buffer_keeps P buf'
     \<and> buf_top buf' = buf_top buf \<and> buf_available buf' = buf_available buf
     \<and> buf_default_character buf' = buf_default_character buf
     \<and> (\<forall>r. buffer_index buf' r = buffer_index buf r)
     \<and> (\<forall>r. row_length (buffer_row buf' r) =
          (if buffer_index buf r = buffer_index buf row then max len (row_length (buffer_row buf r))
           else row_length (buffer_row buf r)))"

lemma row_replacedD:
  assumes "row_replaced P buf row len buf'"
  shows "buffer_ok buf'" "buffer_keeps P buf'" "buf_top buf' = buf_top buf" "buf_available buf' = buf_available buf"
    "buf_default_character buf' = buf_default_character buf" "buffer_index buf' r = buffer_index buf r"
    "row_length (buffer_row buf' r) =
      (if buffer_index buf r = buffer_index buf row then max len (row_length (buffer_row buf r))
       else row_length (buffer_row buf r))"
  using assms by (simp_all add: row_replaced_def)

lemma buffer_put_replaced:
  assumes "buffer_ok buf" and "buffer_keeps P buf" and "row_ok r" and "row_keeps P r"
    and "row_length r = max len (row_length (buffer_row buf row))"
  shows "row_replaced P buf row len (buffer_put (buffer_index buf row) r buf)"
  unfolding row_replaced_def
  using assms buffer_put_rows(2)[OF assms(1)] buffer_put_keeps[OF assms(2,4)]
  by (auto simp: buffer_row_def)

lemma get_row_replaced:
  assumes "buffer_ok buf" and "buffer_keeps P buf" and "width < 2 ^ 30"
  shows "\<exists>buf'. guac_terminal_buffer_get_row buf row width = Some (buffer_index buf row, buf')
    \<and> row_replaced P buf row width buf'"
proof -
  obtain r where r:
    "guac_terminal_buffer_get_row buf row width = Some (buffer_index buf row, buffer_put (buffer_index buf row) r buf)"
    "row_ok r" "row_length r = max width (row_length (buffer_row buf row))"
    by (rule get_row_spec[OF assms(1,3), of row])
  have "row_keeps P r"
    using get_row_keeps(2)[OF r(1) assms(1,2)] buffer_put_rows(1)[OF assms(1)] by simp
  with r buffer_put_replaced[OF assms(1,2) r(2) _ r(3)] show ?thesis by auto
qed

lemma set_columns_replaced:
  assumes "buffer_ok buf" and "buffer_keeps P buf" and "0 < ch_width c" and "end_column + 1 < 2 ^ 30"
    and "0 \<le> start_column"
    and "start_column \<le> end_column \<Longrightarrow>
      start_column + int (char_rounds start_column end_column (ch_width c)) * ch_width c \<le> max (end_column + 1) 256"
    and "P c" and "P (continuation_char c)"
  shows "\<exists>buf'. guac_terminal_buffer_set_columns buf row start_column end_column c = Some buf'
    \<and> row_replaced P buf row (end_column + 1) buf'"
proof -
  let ?k = "char_rounds start_column end_column (ch_width c)"
  obtain buf1 where get: "guac_terminal_buffer_get_row buf row (end_column + 1) = Some (buffer_index buf row, buf1)"
    and rep: "row_replaced P buf row (end_column + 1) buf1"
    using get_row_replaced[OF assms(1,2,4)] by blast
  obtain r where r: "row_ok r" "row_length r = max (end_column + 1) (row_length (buffer_row buf row))"
    "row_available r = (if end_column + 1 > row_available (buffer_row buf row) then 2 * (end_column + 1)
      else row_available (buffer_row buf row))"
    and buf1: "buf1 = buffer_put (buffer_index buf row) r buf"
    using get_row_spec[OF assms(1,4), of row] get by (metis Pair_inject option.inject)
  have av: "256 \<le> row_available (buffer_row buf row)"
    using buffer_row_keeps[OF assms(1,2)] by (simp add: row_keeps_def)
  have at: "buf_rows buf1 ! buffer_index buf row = r" using buffer_put_rows(1)[OF assms(1)] by (simp add: buf1)
  have "\<exists>cells. set_columns_loop (row_characters r) start_column end_column c = Some cells
    \<and> length cells = length (row_characters r)
    \<and> (\<forall>i < nat (row_length r). cells ! i \<noteq> None)"
  proof (cases "start_column > end_column")
    case True
    then show ?thesis using r(1) by (simp add: set_columns_loop.simps row_ok_def)
  next
    case False
    then have "start_column + int (length (char_blocks ?k c)) \<le> int (length (row_characters r))"
      using assms(6) r(1,3) av by (auto simp: char_blocks_length[OF assms(3)] row_ok_def max_def split: if_splits)
    then obtain cells where put: "block_put (row_characters r) start_column (char_blocks ?k c) = Some cells"
      using assms(5) by (auto simp: block_put_def)
    moreover have "row_ok (r\<lparr>row_characters := cells\<rparr>)"
      by (rule row_store_ok[OF r(1) put[unfolded char_blocks_text]])
    ultimately show ?thesis
      using False block_put_length[OF put] by (simp add: set_columns_loop_spec[OF assms(3,5)] row_ok_def)
  qed
  then obtain cells where cells: "set_columns_loop (row_characters r) start_column end_column c = Some cells"
    "length cells = length (row_characters r)" "\<forall>i < nat (row_length r). cells ! i \<noteq> None"
    by blast
  have ok: "row_ok (r\<lparr>row_characters := cells\<rparr>)" using r(1) cells(2,3) by (simp add: row_ok_def)
  have "row_keeps P r" using get_row_keeps(2)[OF get assms(1,2)] by (simp add: at)
  then have "row_keeps P (r\<lparr>row_characters := cells\<rparr>)"
    by (rule row_keeps_store[OF _ set_columns_loop_keeps[OF cells(1)]]) (use assms(7,8) in auto)
  then have "row_replaced P buf row (end_column + 1)
      (buffer_put (buffer_index buf row) (r\<lparr>row_characters := cells\<rparr>) buf)"
    using buffer_put_replaced[OF assms(1,2) ok] r(2) by simp
  then have "row_replaced P buf row (end_column + 1)
      (buffer_reach row c (buffer_put (buffer_index buf row) (r\<lparr>row_characters := cells\<rparr>) buf))"
    by (simp add: row_replaced_def)
  moreover have "guac_terminal_buffer_set_columns buf row start_column end_column c =
      Some (buffer_reach row c (buffer_put (buffer_index buf row) (r\<lparr>row_characters := cells\<rparr>) buf))"
    using assms(3) cells(1) get by (simp add: guac_terminal_buffer_set_columns_def at) (simp add: buf1)
  ultimately show ?thesis by blast
qed

lemma copy_columns_replaced:
  assumes "buffer_ok buf" and "buffer_keeps P buf" and "end_column + offset + 1 < 2 ^ 30"
    and "start_column \<le> end_column + 1"
    and "\<bar>offset\<bar> < max (end_column + offset + 1) (row_length (buffer_row buf row))"
  shows "\<exists>buf'. guac_terminal_buffer_copy_columns buf row start_column end_column offset = Some buf'
    \<and> row_replaced P buf row (end_column + offset + 1) buf'"
proof -
  obtain r where r: "guac_terminal_buffer_copy_columns buf row start_column end_column offset =
      Some (buffer_put (buffer_index buf row) r buf)" "row_ok r"
    "row_length r = max (end_column + offset + 1) (row_length (buffer_row buf row))"
    by (rule copy_columns_some[OF assms(1,3-5)])
  obtain buf1 where get: "guac_terminal_buffer_get_row buf row (end_column + offset + 1) = Some (buffer_index buf row, buf1)"
    and rep: "row_replaced P buf row (end_column + offset + 1) buf1"
    using get_row_replaced[OF assms(1,2,3)] by blast
  let ?r1 = "buf_rows buf1 ! buffer_index buf row"
  obtain s e cells where fit: "fit_copy_range start_column end_column offset (row_length ?r1 - 1) = (s, e)"
    and move: "mem_move (row_characters ?r1) (s + offset) s (e - s + 1) = Some cells"
    and eq: "buffer_put (buffer_index buf row) r buf = buffer_put (buffer_index buf row) (?r1\<lparr>row_characters := cells\<rparr>) buf1"
    using r(1) get by (auto simp: guac_terminal_buffer_copy_columns_def bind_eq_Some_conv split: prod.splits)
  have "r = ?r1\<lparr>row_characters := cells\<rparr>"
    using eq buffer_put_rows(1)[OF assms(1), of row r]
      buffer_put_rows(1)[OF row_replacedD(1)[OF rep], of row "?r1\<lparr>row_characters := cells\<rparr>"] row_replacedD(6)[OF rep, of row]
    by simp
  moreover have "row_keeps P ?r1" by (rule get_row_keeps(2)[OF get assms(1,2)])
  ultimately have "row_keeps P r"
    using row_keeps_store[of P ?r1 cells "{}"] mem_move_set[OF move] by auto
  with r buffer_put_replaced[OF assms(1,2) r(2) _ r(3)] show ?thesis by auto
qed


lemma copy_row_keeps:
  assumes "copy_row buf cur offset = Some buf'" and "buffer_ok buf" and "buffer_keeps P buf"
  shows "buffer_keeps P buf'"
proof -
  obtain i buf1 j buf2 cells where get1: "guac_terminal_buffer_get_row buf cur 0 = Some (i, buf1)"
    and get2: "guac_terminal_buffer_get_row buf1 (cur + offset) (row_length (buf_rows buf1 ! i)) = Some (j, buf2)"
    and put: "block_put (row_characters (buf_rows buf2 ! j)) 0
      (take (nat (row_length (buf_rows buf1 ! i))) (row_characters (buf_rows buf2 ! i))) = Some cells"
    and buf': "buf' = buffer_put j ((buf_rows buf2 ! j)\<lparr>row_characters := cells,
      row_length := row_length (buf_rows buf1 ! i)\<rparr>) buf2"
    using assms(1) by (auto simp: copy_row_def bind_eq_Some_conv Let_def)
  have rep1: "row_replaced P buf cur 0 buf1" and i: "i = buffer_index buf cur"
    using get_row_replaced[OF assms(2,3), of 0 cur] get1 by auto
  have "row_ok (buf_rows buf1 ! i)"
    using buffer_row_ok[OF row_replacedD(1)[OF rep1], of cur] row_replacedD(6)[OF rep1, of cur]
    by (simp add: buffer_row_def i)
  then have "row_length (buf_rows buf1 ! i) < 2 ^ 30" by (simp add: row_ok_def)
  with get_row_replaced[OF row_replacedD(1,2)[OF rep1], of "row_length (buf_rows buf1 ! i)" "cur + offset"] get2
  have rep2: "row_replaced P buf1 (cur + offset) (row_length (buf_rows buf1 ! i)) buf2" by auto
  have kj: "row_keeps P (buf_rows buf2 ! j)" by (rule get_row_keeps(2)[OF get2 row_replacedD(1,2)[OF rep1]])
  have ki: "row_keeps P (buf_rows buf2 ! i)"
    using buffer_row_keeps[OF row_replacedD(1,2)[OF rep2], of cur] row_replacedD(6)[OF rep1, of cur]
      row_replacedD(6)[OF rep2, of cur]
    by (simp add: buffer_row_def i)
  have "set cells \<subseteq> set (row_characters (buf_rows buf2 ! j)) \<union> set (row_characters (buf_rows buf2 ! i))"
    using block_put_set[OF put] by (auto dest: in_set_takeD)
  then have "row_keeps P ((buf_rows buf2 ! j)\<lparr>row_characters := cells, row_length := row_length (buf_rows buf1 ! i)\<rparr>)"
    using kj ki by (auto simp: row_keeps_def)
  then show ?thesis unfolding buf' by (rule buffer_put_keeps[OF row_replacedD(2)[OF rep2]])
qed

lemma copy_rows_loop_keeps:
  assumes "copy_rows_loop n cur step offset buf = Some buf'" and "buffer_ok buf" and "buffer_keeps P buf"
  shows "buffer_keeps P buf'"
  using assms
proof (induction n arbitrary: cur buf)
  case (Suc n)
  then obtain buf1 where b: "copy_row buf cur offset = Some buf1" "copy_rows_loop n (cur + step) step offset buf1 = Some buf'"
    by (auto simp: bind_eq_Some_conv)
  moreover have "buffer_ok buf1" using copy_row_spec[OF Suc.prems(2), of cur offset] b(1) by force
  ultimately show ?case using Suc.IH copy_row_keeps[OF b(1) Suc.prems(2,3)] by blast
qed simp

text \<open>The rows that a copy of rows changes get the length and the text of the rows they are copied from.\<close>

definition rows_copied :: "guac_terminal_buffer \<Rightarrow> int \<Rightarrow> int \<Rightarrow> int \<Rightarrow> guac_terminal_buffer \<Rightarrow> bool" where
  "rows_copied buf start_row end_row offset buf' \<longleftrightarrow>
     (\<forall>r. start_row \<le> r \<and> r \<le> end_row \<longrightarrow> buffer_text buf' (r + offset) = buffer_text buf r)
     \<and> (\<forall>r. (\<forall>q. start_row \<le> q \<and> q \<le> end_row \<longrightarrow> buffer_index buf r \<noteq> buffer_index buf (q + offset)) \<longrightarrow>
          buffer_text buf' r = buffer_text buf r)"

lemma copy_rows_copied:
  assumes "buffer_ok buf" and "buffer_keeps P buf" and "start_row \<le> end_row + 1"
    and "end_row - start_row + 1 + \<bar>offset\<bar> \<le> buf_available buf"
  shows "\<exists>buf'. guac_terminal_buffer_copy_rows buf start_row end_row offset = Some buf'
    \<and> buffer_ok buf' \<and> buffer_keeps P buf'
    \<and> buf_top buf' = buf_top buf \<and> buf_available buf' = buf_available buf \<and> buf_length buf' = buf_length buf
    \<and> buf_default_character buf' = buf_default_character buf
    \<and> (\<forall>r. buffer_index buf' r = buffer_index buf r)
    \<and> rows_copied buf start_row end_row offset buf'"
proof -
  let ?n = "nat (end_row - start_row + 1)"
  define cur step where "cur = (if offset > 0 then end_row else start_row)"
    and "step = (if offset > 0 then - 1 else 1 :: int)"
  have op: "guac_terminal_buffer_copy_rows buf start_row end_row offset = copy_rows_loop ?n cur step offset buf"
    by (simp add: guac_terminal_buffer_copy_rows_def cur_def step_def)
  have step: "step = 1 \<or> step = - 1" "step * offset \<le> 0" "int ?n + \<bar>offset\<bar> \<le> buf_available buf"
    using assms(3,4) by (auto simp: step_def)
  obtain buf' where run: "copy_rows_loop ?n cur step offset buf = Some buf'" and ok: "buffer_ok buf'"
    and dst: "\<And>j. j < ?n \<Longrightarrow> buffer_text buf' (cur + step * int j + offset) = buffer_text buf (cur + step * int j)"
    and rest: "\<And>r. (\<forall>j < ?n. buffer_index buf r \<noteq> buffer_index buf (cur + step * int j + offset)) \<Longrightarrow>
        buffer_text buf' r = buffer_text buf r"
    and same: "\<forall>r. buffer_index buf' r = buffer_index buf r" "buf_top buf' = buf_top buf"
      "buf_length buf' = buf_length buf" "buf_available buf' = buf_available buf"
      "buf_default_character buf' = buf_default_character buf"
    using copy_rows_loop_spec[OF assms(1) step, of cur] by blast
  have row: "\<exists>j < ?n. r = cur + step * int j" if "start_row \<le> r" "r \<le> end_row" for r
    using that by (intro exI[of _ "nat (if offset > 0 then end_row - r else r - start_row)"]) (auto simp: cur_def step_def)
  have row': "start_row \<le> cur + step * int j \<and> cur + step * int j \<le> end_row" if "j < ?n" for j
    using that by (auto simp: cur_def step_def)
  have "rows_copied buf start_row end_row offset buf'"
    unfolding rows_copied_def
  proof (intro conjI allI impI)
    fix r assume "start_row \<le> r \<and> r \<le> end_row"
    then show "buffer_text buf' (r + offset) = buffer_text buf r" using row[of r] dst by blast
  next
    fix r assume far: "\<forall>q. start_row \<le> q \<and> q \<le> end_row \<longrightarrow> buffer_index buf r \<noteq> buffer_index buf (q + offset)"
    show "buffer_text buf' r = buffer_text buf r" by (rule rest) (use far row' in blast)
  qed
  with op run ok same copy_rows_loop_keeps[OF run assms(1,2)] show ?thesis by auto
qed

lemma row_length_text: "buffer_ok buf \<Longrightarrow> row_length (buffer_row buf row) = int (length (buffer_text buf row))"
  using buffer_row_ok[of buf row] by (simp add: buffer_text_def row_ok_def)

end
