(* ===== verification/Guac_Loop.thy ===== *)
theory Guac_Loop
  imports Guac_Prelude "HOL-Library.Monad_Syntax"
begin

text \<open>
  Loops over a list of numbers or coordinates, with a step that can fail, and the rule for their
  invariants.
\<close>

primrec each :: "('a \<Rightarrow> 's \<Rightarrow> 's option) \<Rightarrow> 'a list \<Rightarrow> 's \<Rightarrow> 's option" where
  "each f [] s = Some s"
| "each f (x # xs) s = do { s \<leftarrow> f x s; each f xs s }"

lemma each_append: "each f (xs @ ys) s = do { s \<leftarrow> each f xs s; each f ys s }"
  by (induction xs arbitrary: s) (auto simp: bind_assoc split: bind_splits)

text \<open>The invariant mentions what is still to be visited.\<close>

lemma each_invariant:
  assumes "\<And>x xs s. I (x # xs) s \<Longrightarrow> \<exists>s'. f x s = Some s' \<and> I xs s'"
  shows "I xs s \<Longrightarrow> \<exists>s'. each f xs s = Some s' \<and> I [] s'"
proof (induction xs arbitrary: s)
  case (Cons x xs)
  obtain s1 where s1: "f x s = Some s1" "I xs s1" using assms[OF Cons.prems] by blast
  with Cons.IH[OF s1(2)] show ?case by simp
qed simp

text \<open>The invariant mentions what has been visited.\<close>

lemma each_done_invariant:
  assumes "I [] s"
    and "\<And>ys x zs s. xs = ys @ x # zs \<Longrightarrow> I ys s \<Longrightarrow> \<exists>s'. f x s = Some s' \<and> I (ys @ [x]) s'"
  shows "\<exists>s'. each f xs s = Some s' \<and> I xs s'"
proof -
  have "\<exists>s'. each f zs s = Some s' \<and> I (ys @ zs) s'" if "xs = ys @ zs" "I ys s" for ys zs s
    using that
  proof (induction zs arbitrary: ys s)
    case (Cons x zs)
    obtain s1 where s1: "f x s = Some s1" "I (ys @ [x]) s1" using assms(2)[OF Cons.prems] by blast
    have "\<exists>s'. each f zs s1 = Some s' \<and> I ((ys @ [x]) @ zs) s'"
      by (rule Cons.IH) (use Cons.prems s1 in auto)
    with s1 show ?case by simp
  qed simp
  from this[of "[]" xs s] assms(1) show ?thesis by simp
qed

end
