(* ===== verification/Term_Scrollbar.thy ===== *)
theory Term_Scrollbar
  imports Guac_Prelude
begin

text \<open>
  The scrollbar of the terminal (\<open>src/terminal/scrollbar.c\<close>): a range of values, the current
  value, and the geometry of the bar and of its handle, which the user can drag. The instructions
  that draw the bar and the handle are the \<open>scrollbar_call\<close>s of a flush.
\<close>

section \<open>Definitions\<close>

abbreviation (input) GUAC_TERMINAL_SCROLLBAR_WIDTH :: int where "GUAC_TERMINAL_SCROLLBAR_WIDTH \<equiv> 16"
abbreviation (input) GUAC_TERMINAL_SCROLLBAR_PADDING :: int where "GUAC_TERMINAL_SCROLLBAR_PADDING \<equiv> 2"
abbreviation (input) GUAC_TERMINAL_SCROLLBAR_MIN_HEIGHT :: int where "GUAC_TERMINAL_SCROLLBAR_MIN_HEIGHT \<equiv> 64"

record guac_terminal_scrollbar_render_state =
  handle_x :: int
  handle_y :: int
  handle_width :: int
  handle_height :: int
  container_x :: int
  container_y :: int
  container_width :: int
  container_height :: int

record guac_terminal_scrollbar =
  sb_parent_width :: int
  sb_parent_height :: int
  sb_min :: int
  sb_max :: int
  sb_visible_area :: int
  sb_value :: int
  sb_render_state :: guac_terminal_scrollbar_render_state
  sb_dragging_handle :: bool
  sb_drag_offset_y :: int
  sb_drag_current_y :: int

datatype scrollbar_call =
    move_container int int
  | draw_container int int
  | move_handle int int
  | draw_handle int int

definition guac_terminal_scrollbar_parent_resized ::
    "int \<Rightarrow> int \<Rightarrow> int \<Rightarrow> guac_terminal_scrollbar \<Rightarrow> guac_terminal_scrollbar" where
  "guac_terminal_scrollbar_parent_resized parent_width parent_height visible_area sb =
     sb\<lparr>sb_parent_width := parent_width, sb_parent_height := parent_height, sb_visible_area := visible_area\<rparr>"

text \<open>The coordinates of a drag are not initialised before a drag starts; here they are 0.\<close>

definition guac_terminal_scrollbar_alloc :: "int \<Rightarrow> int \<Rightarrow> int \<Rightarrow> guac_terminal_scrollbar" where
  "guac_terminal_scrollbar_alloc parent_width parent_height visible_area =
     guac_terminal_scrollbar_parent_resized parent_width parent_height visible_area
       \<lparr>sb_parent_width = 0, sb_parent_height = 0, sb_min = 0, sb_max = 0, sb_visible_area = 0, sb_value = 0,
        sb_render_state = \<lparr>handle_x = 0, handle_y = 0, handle_width = 0, handle_height = 0,
          container_x = 0, container_y = 0, container_width = 0, container_height = 0\<rparr>,
        sb_dragging_handle = False, sb_drag_offset_y = 0, sb_drag_current_y = 0\<rparr>"

definition sb_scroll_delta :: "guac_terminal_scrollbar \<Rightarrow> int" where
  "sb_scroll_delta sb = (if sb_max sb > sb_min sb then sb_max sb - sb_min sb else 0)"

text \<open>\<open>None\<close> when the scale of the handle is a division by zero.\<close>

definition calculate_state ::
    "guac_terminal_scrollbar \<Rightarrow> (guac_terminal_scrollbar_render_state \<times> int) option" where
  "calculate_state sb =
     (let scroll_delta = sb_scroll_delta sb;
          max_handle_height = sb_parent_height sb - GUAC_TERMINAL_SCROLLBAR_PADDING * 2
      in if scroll_delta + sb_visible_area sb = 0 then None
         else
           (let proportional_height =
              c_div (max_handle_height * sb_visible_area sb) (scroll_delta + sb_visible_area sb);
                wanted_height = (if proportional_height > GUAC_TERMINAL_SCROLLBAR_MIN_HEIGHT
                  then proportional_height else GUAC_TERMINAL_SCROLLBAR_MIN_HEIGHT);
                height = (if wanted_height > max_handle_height then max_handle_height else wanted_height);
                min_handle_y = GUAC_TERMINAL_SCROLLBAR_PADDING;
                max_handle_y = min_handle_y + max_handle_height - height;
                (y, new_value) =
                  (if sb_dragging_handle sb
                   then
                     (let dragged = sb_drag_current_y sb - sb_drag_offset_y sb;
                          dragged_handle_y = (if dragged < min_handle_y then min_handle_y
                            else if dragged > max_handle_y then max_handle_y else dragged)
                      in (dragged_handle_y,
                          if max_handle_y > min_handle_y
                          then sb_min sb + c_div ((dragged_handle_y - min_handle_y) * scroll_delta)
                                 (max_handle_y - min_handle_y)
                          else sb_value sb))
                   else if scroll_delta > 0
                   then (min_handle_y + c_div ((max_handle_y - min_handle_y) * (sb_value sb - sb_min sb)) scroll_delta,
                         sb_value sb)
                   else (GUAC_TERMINAL_SCROLLBAR_PADDING, sb_value sb))
            in Some (\<lparr>handle_x = GUAC_TERMINAL_SCROLLBAR_PADDING, handle_y = y,
                       handle_width = GUAC_TERMINAL_SCROLLBAR_WIDTH - GUAC_TERMINAL_SCROLLBAR_PADDING * 2,
                       handle_height = height,
                       container_x = sb_parent_width sb - GUAC_TERMINAL_SCROLLBAR_WIDTH, container_y = 0,
                       container_width = GUAC_TERMINAL_SCROLLBAR_WIDTH,
                       container_height = sb_parent_height sb\<rparr>, new_value)))"

text \<open>The instructions that turn the bar as it was drawn last into the bar as it is now.\<close>

definition scrollbar_calls ::
    "guac_terminal_scrollbar_render_state \<Rightarrow> guac_terminal_scrollbar_render_state \<Rightarrow> scrollbar_call list" where
  "scrollbar_calls old new =
     (if container_x old \<noteq> container_x new \<or> container_y old \<noteq> container_y new
      then [move_container (container_x new) (container_y new)] else []) @
     (if container_width old \<noteq> container_width new \<or> container_height old \<noteq> container_height new
      then [draw_container (container_width new) (container_height new)] else []) @
     (if handle_x old \<noteq> handle_x new \<or> handle_y old \<noteq> handle_y new
      then [move_handle (handle_x new) (handle_y new)] else []) @
     (if handle_width old \<noteq> handle_width new \<or> handle_height old \<noteq> handle_height new
      then [draw_handle (handle_width new) (handle_height new)] else [])"

text \<open>
  \<open>guac_terminal_scrollbar_flush\<close>: it calls the scroll handler when the value changes. The handler
  works on the object that owns the scrollbar; \<open>get\<close> and \<open>upd\<close> are the owner's access to its
  scrollbar.
\<close>

definition guac_terminal_scrollbar_flush ::
    "('o \<Rightarrow> guac_terminal_scrollbar)
      \<Rightarrow> ((guac_terminal_scrollbar \<Rightarrow> guac_terminal_scrollbar) \<Rightarrow> 'o \<Rightarrow> 'o)
      \<Rightarrow> (int \<Rightarrow> 'o \<Rightarrow> 'o option) \<Rightarrow> 'o \<Rightarrow> (scrollbar_call list \<times> 'o) option" where
  "guac_terminal_scrollbar_flush get upd scroll_handler owner =
     (case calculate_state (get owner) of
        None \<Rightarrow> None
      | Some (new, new_value) \<Rightarrow>
          (case (if new_value \<noteq> sb_value (get owner) then scroll_handler new_value owner else Some owner) of
             None \<Rightarrow> None
           | Some owner \<Rightarrow>
               Some (scrollbar_calls (sb_render_state (get owner)) new,
                     upd (\<lambda>sb. sb\<lparr>sb_render_state := new\<rparr>) owner)))"

definition guac_terminal_scrollbar_set_bounds ::
    "int \<Rightarrow> int \<Rightarrow> guac_terminal_scrollbar \<Rightarrow> guac_terminal_scrollbar" where
  "guac_terminal_scrollbar_set_bounds lo hi sb =
     sb\<lparr>sb_value := (if sb_value sb > hi then hi else if sb_value sb < lo then lo else sb_value sb),
        sb_min := lo, sb_max := hi\<rparr>"

definition guac_terminal_scrollbar_set_value ::
    "int \<Rightarrow> guac_terminal_scrollbar \<Rightarrow> guac_terminal_scrollbar" where
  "guac_terminal_scrollbar_set_value v sb =
     sb\<lparr>sb_value := (if v > sb_max sb then sb_max sb else if v < sb_min sb then sb_min sb else v)\<rparr>"

abbreviation (input) GUAC_CLIENT_MOUSE_LEFT :: int where "GUAC_CLIENT_MOUSE_LEFT \<equiv> 1"

definition guac_terminal_scrollbar_handle_mouse ::
    "int \<Rightarrow> int \<Rightarrow> int \<Rightarrow> guac_terminal_scrollbar \<Rightarrow> bool \<times> guac_terminal_scrollbar" where
  "guac_terminal_scrollbar_handle_mouse x y buttons sb =
     (let st = sb_render_state sb;
          parent_left = container_x st; parent_top = container_y st;
          parent_right = parent_left + container_width st;
          parent_bottom = parent_top + container_height st;
          handle_left = parent_left + handle_x st; handle_top = parent_top + handle_y st;
          handle_right = handle_left + handle_width st;
          handle_bottom = handle_top + handle_height st
      in if sb_dragging_handle sb
         then (True, if buttons AND GUAC_CLIENT_MOUSE_LEFT \<noteq> 0 then sb\<lparr>sb_drag_current_y := y\<rparr>
                     else sb\<lparr>sb_dragging_handle := False\<rparr>)
         else if buttons = GUAC_CLIENT_MOUSE_LEFT \<and> x \<ge> handle_left \<and> x < handle_right
                 \<and> y \<ge> handle_top \<and> y < handle_bottom
         then (True, sb\<lparr>sb_dragging_handle := True, sb_drag_offset_y := y - handle_top, sb_drag_current_y := y\<rparr>)
         else (x \<ge> parent_left \<and> x < parent_right \<and> y \<ge> parent_top \<and> y < parent_bottom, sb))"

section \<open>Properties\<close>

definition scrollbar_ok :: "guac_terminal_scrollbar \<Rightarrow> bool" where
  "scrollbar_ok sb \<longleftrightarrow> sb_min sb \<le> sb_value sb \<and> sb_value sb \<le> sb_max sb"

lemma scale_bounds:
  assumes "0 \<le> a" and "a \<le> (m :: int)" and "0 \<le> n" and "0 < m"
  shows "0 \<le> c_div (a * n) m" and "c_div (a * n) m \<le> n"
proof -
  have eq: "c_div (a * n) m = a * n div m" using assms by simp
  show "0 \<le> c_div (a * n) m" unfolding eq using assms by (simp add: pos_imp_zdiv_nonneg_iff)
  have "a * n div m \<le> m * n div m" using assms by (intro zdiv_mono1 mult_right_mono) auto
  also have "\<dots> = n" using assms by simp
  finally show "c_div (a * n) m \<le> n" unfolding eq .
qed

text \<open>
  For a visible area of at least one row and a bar higher than its padding, the geometry of
  the scrollbar is defined and consistent: the handle lies within the bar, between its paddings,
  and the value that dragging it gives lies between the bounds, wherever the mouse is.
\<close>

theorem scrollbar_geometry:
  assumes "scrollbar_ok sb" and "0 < sb_visible_area sb" and "4 < sb_parent_height sb"
  shows "\<exists>st v. calculate_state sb = Some (st, v)
    \<and> sb_min sb \<le> v \<and> v \<le> sb_max sb
    \<and> 0 < handle_height st \<and> 2 \<le> handle_y st \<and> handle_y st + handle_height st \<le> container_height st - 2
    \<and> handle_x st + handle_width st = container_width st - 2"
proof -
  define delta where "delta = sb_scroll_delta sb"
  define mh where "mh = sb_parent_height sb - 4"
  define ph where "ph = c_div (mh * sb_visible_area sb) (delta + sb_visible_area sb)"
  define h where "h = (if (if ph > 64 then ph else 64) > mh then mh else if ph > 64 then ph else 64)"
  define ymax where "ymax = 2 + mh - h"
  have delta: "0 \<le> delta" "sb_min sb + delta = sb_max sb"
    using assms(1) by (auto simp: delta_def sb_scroll_delta_def scrollbar_ok_def)
  have h: "0 < h" "h \<le> mh" using assms(3) by (auto simp: h_def mh_def)
  have ymax: "2 \<le> ymax" "h < mh \<longleftrightarrow> 2 < ymax" using h by (auto simp: ymax_def)
  show ?thesis
  proof (cases "sb_dragging_handle sb")
    case True
    define y where "y = (let dragged = sb_drag_current_y sb - sb_drag_offset_y sb in
        if dragged < 2 then 2 else if dragged > ymax then ymax else dragged)"
    have y: "2 \<le> y" "y \<le> ymax" using ymax by (auto simp: y_def Let_def)
    define v where "v = (if ymax > 2 then sb_min sb + c_div ((y - 2) * delta) (ymax - 2) else sb_value sb)"
    have "sb_min sb \<le> v \<and> v \<le> sb_max sb"
      using scale_bounds[of "y - 2" "ymax - 2" delta] y delta assms(1) by (auto simp: v_def scrollbar_ok_def)
    moreover have "calculate_state sb = Some (\<lparr>handle_x = 2, handle_y = y, handle_width = 12, handle_height = h,
        container_x = sb_parent_width sb - 16, container_y = 0, container_width = 16,
        container_height = sb_parent_height sb\<rparr>, v)"
      using True delta(1) assms(2)
      by (simp add: calculate_state_def Let_def delta_def[symmetric] mh_def[symmetric] ph_def[symmetric]
          h_def[symmetric] ymax_def[symmetric] ymax(2) y_def v_def)
    ultimately show ?thesis using h y by (simp add: ymax_def mh_def)
  next
    case False
    define y where "y = (if delta > 0 then 2 + c_div ((ymax - 2) * (sb_value sb - sb_min sb)) delta else 2)"
    have y: "2 \<le> y \<and> y \<le> ymax"
    proof (cases "delta > 0")
      case True
      have "0 \<le> c_div ((sb_value sb - sb_min sb) * (ymax - 2)) delta" "c_div ((sb_value sb - sb_min sb) * (ymax - 2)) delta \<le> ymax - 2"
        using scale_bounds[of "sb_value sb - sb_min sb" delta "ymax - 2"] assms(1) delta ymax True
        by (auto simp: scrollbar_ok_def)
      then show ?thesis using True by (simp add: y_def mult.commute)
    next
      case False
      then show ?thesis using ymax by (simp add: y_def)
    qed
    have "calculate_state sb = Some (\<lparr>handle_x = 2, handle_y = y, handle_width = 12, handle_height = h,
        container_x = sb_parent_width sb - 16, container_y = 0, container_width = 16,
        container_height = sb_parent_height sb\<rparr>, sb_value sb)"
      using False delta(1) assms(2)
      by (simp add: calculate_state_def Let_def delta_def[symmetric] mh_def[symmetric] ph_def[symmetric]
          h_def[symmetric] ymax_def[symmetric] y_def)
    then show ?thesis using h y assms(1) by (simp add: ymax_def mh_def scrollbar_ok_def)
  qed
qed

theorem scrollbar_geometry_witness:
  "\<exists>st v. calculate_state (guac_terminal_scrollbar_alloc 800 600 24) = Some (st, v) \<and> v = 0
     \<and> handle_y st + handle_height st \<le> 598"
  using scrollbar_geometry[of "guac_terminal_scrollbar_alloc 800 600 24"]
  by (auto simp: guac_terminal_scrollbar_alloc_def guac_terminal_scrollbar_parent_resized_def scrollbar_ok_def
      calculate_state_def sb_scroll_delta_def)

lemma set_bounds_ok: "lo \<le> hi \<Longrightarrow> scrollbar_ok (guac_terminal_scrollbar_set_bounds lo hi sb)"
  by (simp add: scrollbar_ok_def guac_terminal_scrollbar_set_bounds_def)

lemma set_value_ok: "scrollbar_ok sb \<Longrightarrow> scrollbar_ok (guac_terminal_scrollbar_set_value v sb)"
  by (auto simp: scrollbar_ok_def guac_terminal_scrollbar_set_value_def)

text \<open>
  A terminal that is too small for a single row has no visible area and nothing to scroll: the
  scale of the handle is a division by zero.
\<close>

theorem scrollbar_divides_by_zero:
  "calculate_state (guac_terminal_scrollbar_alloc parent_width parent_height 0) = None"
  by (simp add: calculate_state_def sb_scroll_delta_def guac_terminal_scrollbar_alloc_def
      guac_terminal_scrollbar_parent_resized_def)

end
