(* ===== verification/Term_Colors.thy ===== *)
theory Term_Colors
  imports Guac_Search Term_Common
begin

text \<open>
  The colours of the terminal: the palette of 256 colours (\<open>src/terminal/palette.c\<close>), the table of
  named colours (\<open>named-colors.c\<close>), the parser of X11 colour specifications (\<open>xparsecolor.c\<close>) and the
  parser of colour schemes (\<open>color-scheme.c\<close>).

  A C string is the list of its bytes. Conversions with \<open>sscanf\<close> are written out as the C library
  of the platform does them.
\<close>

section \<open>The palette\<close>

definition palette_color :: "int \<Rightarrow> byte \<Rightarrow> byte \<Rightarrow> byte \<Rightarrow> guac_terminal_color" where
  "palette_color i r g b = \<lparr>palette_index = i, color_red = r, color_green = g, color_blue = b\<rparr>"

definition GUAC_TERMINAL_INITIAL_PALETTE :: "guac_terminal_color list" where
  "GUAC_TERMINAL_INITIAL_PALETTE =
     [palette_color 0 0x00 0x00 0x00, palette_color 1 0x99 0x3E 0x3E, palette_color 2 0x3E 0x99 0x3E, palette_color 3 0x99 0x99 0x3E,
      palette_color 4 0x3E 0x3E 0x99, palette_color 5 0x99 0x3E 0x99, palette_color 6 0x3E 0x99 0x99, palette_color 7 0x99 0x99 0x99,
      palette_color 8 0x3E 0x3E 0x3E, palette_color 9 0xFF 0x67 0x67, palette_color 10 0x67 0xFF 0x67, palette_color 11 0xFF 0xFF 0x67,
      palette_color 12 0x67 0x67 0xFF, palette_color 13 0xFF 0x67 0xFF, palette_color 14 0x67 0xFF 0xFF, palette_color 15 0xFF 0xFF 0xFF,
      palette_color 16 0x00 0x00 0x00, palette_color 17 0x00 0x00 0x5F, palette_color 18 0x00 0x00 0x87, palette_color 19 0x00 0x00 0xAF,
      palette_color 20 0x00 0x00 0xD7, palette_color 21 0x00 0x00 0xFF, palette_color 22 0x00 0x5F 0x00, palette_color 23 0x00 0x5F 0x5F,
      palette_color 24 0x00 0x5F 0x87, palette_color 25 0x00 0x5F 0xAF, palette_color 26 0x00 0x5F 0xD7, palette_color 27 0x00 0x5F 0xFF,
      palette_color 28 0x00 0x87 0x00, palette_color 29 0x00 0x87 0x5F, palette_color 30 0x00 0x87 0x87, palette_color 31 0x00 0x87 0xAF,
      palette_color 32 0x00 0x87 0xD7, palette_color 33 0x00 0x87 0xFF, palette_color 34 0x00 0xAF 0x00, palette_color 35 0x00 0xAF 0x5F,
      palette_color 36 0x00 0xAF 0x87, palette_color 37 0x00 0xAF 0xAF, palette_color 38 0x00 0xAF 0xD7, palette_color 39 0x00 0xAF 0xFF,
      palette_color 40 0x00 0xD7 0x00, palette_color 41 0x00 0xD7 0x5F, palette_color 42 0x00 0xD7 0x87, palette_color 43 0x00 0xD7 0xAF,
      palette_color 44 0x00 0xD7 0xD7, palette_color 45 0x00 0xD7 0xFF, palette_color 46 0x00 0xFF 0x00, palette_color 47 0x00 0xFF 0x5F,
      palette_color 48 0x00 0xFF 0x87, palette_color 49 0x00 0xFF 0xAF, palette_color 50 0x00 0xFF 0xD7, palette_color 51 0x00 0xFF 0xFF,
      palette_color 52 0x5F 0x00 0x00, palette_color 53 0x5F 0x00 0x5F, palette_color 54 0x5F 0x00 0x87, palette_color 55 0x5F 0x00 0xAF,
      palette_color 56 0x5F 0x00 0xD7, palette_color 57 0x5F 0x00 0xFF, palette_color 58 0x5F 0x5F 0x00, palette_color 59 0x5F 0x5F 0x5F,
      palette_color 60 0x5F 0x5F 0x87, palette_color 61 0x5F 0x5F 0xAF, palette_color 62 0x5F 0x5F 0xD7, palette_color 63 0x5F 0x5F 0xFF,
      palette_color 64 0x5F 0x87 0x00, palette_color 65 0x5F 0x87 0x5F, palette_color 66 0x5F 0x87 0x87, palette_color 67 0x5F 0x87 0xAF,
      palette_color 68 0x5F 0x87 0xD7, palette_color 69 0x5F 0x87 0xFF, palette_color 70 0x5F 0xAF 0x00, palette_color 71 0x5F 0xAF 0x5F,
      palette_color 72 0x5F 0xAF 0x87, palette_color 73 0x5F 0xAF 0xAF, palette_color 74 0x5F 0xAF 0xD7, palette_color 75 0x5F 0xAF 0xFF,
      palette_color 76 0x5F 0xD7 0x00, palette_color 77 0x5F 0xD7 0x5F, palette_color 78 0x5F 0xD7 0x87, palette_color 79 0x5F 0xD7 0xAF,
      palette_color 80 0x5F 0xD7 0xD7, palette_color 81 0x5F 0xD7 0xFF, palette_color 82 0x5F 0xFF 0x00, palette_color 83 0x5F 0xFF 0x5F,
      palette_color 84 0x5F 0xFF 0x87, palette_color 85 0x5F 0xFF 0xAF, palette_color 86 0x5F 0xFF 0xD7, palette_color 87 0x5F 0xFF 0xFF,
      palette_color 88 0x87 0x00 0x00, palette_color 89 0x87 0x00 0x5F, palette_color 90 0x87 0x00 0x87, palette_color 91 0x87 0x00 0xAF,
      palette_color 92 0x87 0x00 0xD7, palette_color 93 0x87 0x00 0xFF, palette_color 94 0x87 0x5F 0x00, palette_color 95 0x87 0x5F 0x5F,
      palette_color 96 0x87 0x5F 0x87, palette_color 97 0x87 0x5F 0xAF, palette_color 98 0x87 0x5F 0xD7, palette_color 99 0x87 0x5F 0xFF,
      palette_color 100 0x87 0x87 0x00, palette_color 101 0x87 0x87 0x5F, palette_color 102 0x87 0x87 0x87, palette_color 103 0x87 0x87 0xAF,
      palette_color 104 0x87 0x87 0xD7, palette_color 105 0x87 0x87 0xFF, palette_color 106 0x87 0xAF 0x00, palette_color 107 0x87 0xAF 0x5F,
      palette_color 108 0x87 0xAF 0x87, palette_color 109 0x87 0xAF 0xAF, palette_color 110 0x87 0xAF 0xD7, palette_color 111 0x87 0xAF 0xFF,
      palette_color 112 0x87 0xD7 0x00, palette_color 113 0x87 0xD7 0x5F, palette_color 114 0x87 0xD7 0x87, palette_color 115 0x87 0xD7 0xAF,
      palette_color 116 0x87 0xD7 0xD7, palette_color 117 0x87 0xD7 0xFF, palette_color 118 0x87 0xFF 0x00, palette_color 119 0x87 0xFF 0x5F,
      palette_color 120 0x87 0xFF 0x87, palette_color 121 0x87 0xFF 0xAF, palette_color 122 0x87 0xFF 0xD7, palette_color 123 0x87 0xFF 0xFF,
      palette_color 124 0xAF 0x00 0x00, palette_color 125 0xAF 0x00 0x5F, palette_color 126 0xAF 0x00 0x87, palette_color 127 0xAF 0x00 0xAF,
      palette_color 128 0xAF 0x00 0xD7, palette_color 129 0xAF 0x00 0xFF, palette_color 130 0xAF 0x5F 0x00, palette_color 131 0xAF 0x5F 0x5F,
      palette_color 132 0xAF 0x5F 0x87, palette_color 133 0xAF 0x5F 0xAF, palette_color 134 0xAF 0x5F 0xD7, palette_color 135 0xAF 0x5F 0xFF,
      palette_color 136 0xAF 0x87 0x00, palette_color 137 0xAF 0x87 0x5F, palette_color 138 0xAF 0x87 0x87, palette_color 139 0xAF 0x87 0xAF,
      palette_color 140 0xAF 0x87 0xD7, palette_color 141 0xAF 0x87 0xFF, palette_color 142 0xAF 0xAF 0x00, palette_color 143 0xAF 0xAF 0x5F,
      palette_color 144 0xAF 0xAF 0x87, palette_color 145 0xAF 0xAF 0xAF, palette_color 146 0xAF 0xAF 0xD7, palette_color 147 0xAF 0xAF 0xFF,
      palette_color 148 0xAF 0xD7 0x00, palette_color 149 0xAF 0xD7 0x5F, palette_color 150 0xAF 0xD7 0x87, palette_color 151 0xAF 0xD7 0xAF,
      palette_color 152 0xAF 0xD7 0xD7, palette_color 153 0xAF 0xD7 0xFF, palette_color 154 0xAF 0xFF 0x00, palette_color 155 0xAF 0xFF 0x5F,
      palette_color 156 0xAF 0xFF 0x87, palette_color 157 0xAF 0xFF 0xAF, palette_color 158 0xAF 0xFF 0xD7, palette_color 159 0xAF 0xFF 0xFF,
      palette_color 160 0xD7 0x00 0x00, palette_color 161 0xD7 0x00 0x5F, palette_color 162 0xD7 0x00 0x87, palette_color 163 0xD7 0x00 0xAF,
      palette_color 164 0xD7 0x00 0xD7, palette_color 165 0xD7 0x00 0xFF, palette_color 166 0xD7 0x5F 0x00, palette_color 167 0xD7 0x5F 0x5F,
      palette_color 168 0xD7 0x5F 0x87, palette_color 169 0xD7 0x5F 0xAF, palette_color 170 0xD7 0x5F 0xD7, palette_color 171 0xD7 0x5F 0xFF,
      palette_color 172 0xD7 0x87 0x00, palette_color 173 0xD7 0x87 0x5F, palette_color 174 0xD7 0x87 0x87, palette_color 175 0xD7 0x87 0xAF,
      palette_color 176 0xD7 0x87 0xD7, palette_color 177 0xD7 0x87 0xFF, palette_color 178 0xD7 0xAF 0x00, palette_color 179 0xD7 0xAF 0x5F,
      palette_color 180 0xD7 0xAF 0x87, palette_color 181 0xD7 0xAF 0xAF, palette_color 182 0xD7 0xAF 0xD7, palette_color 183 0xD7 0xAF 0xFF,
      palette_color 184 0xD7 0xD7 0x00, palette_color 185 0xD7 0xD7 0x5F, palette_color 186 0xD7 0xD7 0x87, palette_color 187 0xD7 0xD7 0xAF,
      palette_color 188 0xD7 0xD7 0xD7, palette_color 189 0xD7 0xD7 0xFF, palette_color 190 0xD7 0xFF 0x00, palette_color 191 0xD7 0xFF 0x5F,
      palette_color 192 0xD7 0xFF 0x87, palette_color 193 0xD7 0xFF 0xAF, palette_color 194 0xD7 0xFF 0xD7, palette_color 195 0xD7 0xFF 0xFF,
      palette_color 196 0xFF 0x00 0x00, palette_color 197 0xFF 0x00 0x5F, palette_color 198 0xFF 0x00 0x87, palette_color 199 0xFF 0x00 0xAF,
      palette_color 200 0xFF 0x00 0xD7, palette_color 201 0xFF 0x00 0xFF, palette_color 202 0xFF 0x5F 0x00, palette_color 203 0xFF 0x5F 0x5F,
      palette_color 204 0xFF 0x5F 0x87, palette_color 205 0xFF 0x5F 0xAF, palette_color 206 0xFF 0x5F 0xD7, palette_color 207 0xFF 0x5F 0xFF,
      palette_color 208 0xFF 0x87 0x00, palette_color 209 0xFF 0x87 0x5F, palette_color 210 0xFF 0x87 0x87, palette_color 211 0xFF 0x87 0xAF,
      palette_color 212 0xFF 0x87 0xD7, palette_color 213 0xFF 0x87 0xFF, palette_color 214 0xFF 0xAF 0x00, palette_color 215 0xFF 0xAF 0x5F,
      palette_color 216 0xFF 0xAF 0x87, palette_color 217 0xFF 0xAF 0xAF, palette_color 218 0xFF 0xAF 0xD7, palette_color 219 0xFF 0xAF 0xFF,
      palette_color 220 0xFF 0xD7 0x00, palette_color 221 0xFF 0xD7 0x5F, palette_color 222 0xFF 0xD7 0x87, palette_color 223 0xFF 0xD7 0xAF,
      palette_color 224 0xFF 0xD7 0xD7, palette_color 225 0xFF 0xD7 0xFF, palette_color 226 0xFF 0xFF 0x00, palette_color 227 0xFF 0xFF 0x5F,
      palette_color 228 0xFF 0xFF 0x87, palette_color 229 0xFF 0xFF 0xAF, palette_color 230 0xFF 0xFF 0xD7, palette_color 231 0xFF 0xFF 0xFF,
      palette_color 232 0x08 0x08 0x08, palette_color 233 0x12 0x12 0x12, palette_color 234 0x1C 0x1C 0x1C, palette_color 235 0x26 0x26 0x26,
      palette_color 236 0x30 0x30 0x30, palette_color 237 0x3A 0x3A 0x3A, palette_color 238 0x44 0x44 0x44, palette_color 239 0x4E 0x4E 0x4E,
      palette_color 240 0x58 0x58 0x58, palette_color 241 0x62 0x62 0x62, palette_color 242 0x6C 0x6C 0x6C, palette_color 243 0x76 0x76 0x76,
      palette_color 244 0x80 0x80 0x80, palette_color 245 0x8A 0x8A 0x8A, palette_color 246 0x94 0x94 0x94, palette_color 247 0x9E 0x9E 0x9E,
      palette_color 248 0xA8 0xA8 0xA8, palette_color 249 0xB2 0xB2 0xB2, palette_color 250 0xBC 0xBC 0xBC, palette_color 251 0xC6 0xC6 0xC6,
      palette_color 252 0xD0 0xD0 0xD0, palette_color 253 0xDA 0xDA 0xDA, palette_color 254 0xE4 0xE4 0xE4, palette_color 255 0xEE 0xEE 0xEE]"

section \<open>Named colours\<close>

record guac_terminal_named_color =
  named_value :: guac_terminal_color
  named_name :: "byte list"

definition named_color :: "byte \<Rightarrow> byte \<Rightarrow> byte \<Rightarrow> string \<Rightarrow> guac_terminal_named_color" where
  "named_color r g b nm = \<lparr>named_value = palette_color (- 1) r g b, named_name = cstr nm\<rparr>"

text \<open>The table, in pieces.\<close>

definition named_colors_1 :: "guac_terminal_named_color list" where
  "named_colors_1 =
     [named_color 0xF0 0xF8 0xFF ''aliceblue'',
      named_color 0xFA 0xEB 0xD7 ''antiquewhite'',
      named_color 0xFF 0xEF 0xDB ''antiquewhite1'',
      named_color 0xEE 0xDF 0xCC ''antiquewhite2'',
      named_color 0xCD 0xC0 0xB0 ''antiquewhite3'',
      named_color 0x8B 0x83 0x78 ''antiquewhite4'',
      named_color 0x00 0xFF 0xFF ''aqua'',
      named_color 0x7F 0xFF 0xD4 ''aquamarine'',
      named_color 0x7F 0xFF 0xD4 ''aquamarine1'',
      named_color 0x76 0xEE 0xC6 ''aquamarine2'',
      named_color 0x66 0xCD 0xAA ''aquamarine3'',
      named_color 0x45 0x8B 0x74 ''aquamarine4'',
      named_color 0xF0 0xFF 0xFF ''azure'',
      named_color 0xF0 0xFF 0xFF ''azure1'',
      named_color 0xE0 0xEE 0xEE ''azure2'',
      named_color 0xC1 0xCD 0xCD ''azure3'',
      named_color 0x83 0x8B 0x8B ''azure4'',
      named_color 0xF5 0xF5 0xDC ''beige'',
      named_color 0xFF 0xE4 0xC4 ''bisque'',
      named_color 0xFF 0xE4 0xC4 ''bisque1'',
      named_color 0xEE 0xD5 0xB7 ''bisque2'',
      named_color 0xCD 0xB7 0x9E ''bisque3'',
      named_color 0x8B 0x7D 0x6B ''bisque4'',
      named_color 0x00 0x00 0x00 ''black'',
      named_color 0xFF 0xEB 0xCD ''blanchedalmond'',
      named_color 0x00 0x00 0xFF ''blue'',
      named_color 0x00 0x00 0xFF ''blue1'',
      named_color 0x00 0x00 0xEE ''blue2'',
      named_color 0x00 0x00 0xCD ''blue3'',
      named_color 0x00 0x00 0x8B ''blue4'',
      named_color 0x8A 0x2B 0xE2 ''blueviolet'',
      named_color 0xA5 0x2A 0x2A ''brown'',
      named_color 0xFF 0x40 0x40 ''brown1'',
      named_color 0xEE 0x3B 0x3B ''brown2'',
      named_color 0xCD 0x33 0x33 ''brown3'',
      named_color 0x8B 0x23 0x23 ''brown4'',
      named_color 0xDE 0xB8 0x87 ''burlywood'',
      named_color 0xFF 0xD3 0x9B ''burlywood1'',
      named_color 0xEE 0xC5 0x91 ''burlywood2'',
      named_color 0xCD 0xAA 0x7D ''burlywood3'',
      named_color 0x8B 0x73 0x55 ''burlywood4'',
      named_color 0x5F 0x9E 0xA0 ''cadetblue'',
      named_color 0x98 0xF5 0xFF ''cadetblue1'',
      named_color 0x8E 0xE5 0xEE ''cadetblue2'',
      named_color 0x7A 0xC5 0xCD ''cadetblue3'',
      named_color 0x53 0x86 0x8B ''cadetblue4'',
      named_color 0x7F 0xFF 0x00 ''chartreuse'',
      named_color 0x7F 0xFF 0x00 ''chartreuse1'',
      named_color 0x76 0xEE 0x00 ''chartreuse2'',
      named_color 0x66 0xCD 0x00 ''chartreuse3'',
      named_color 0x45 0x8B 0x00 ''chartreuse4'',
      named_color 0xD2 0x69 0x1E ''chocolate'',
      named_color 0xFF 0x7F 0x24 ''chocolate1'',
      named_color 0xEE 0x76 0x21 ''chocolate2'',
      named_color 0xCD 0x66 0x1D ''chocolate3'',
      named_color 0x8B 0x45 0x13 ''chocolate4'',
      named_color 0xFF 0x7F 0x50 ''coral'',
      named_color 0xFF 0x72 0x56 ''coral1'',
      named_color 0xEE 0x6A 0x50 ''coral2'',
      named_color 0xCD 0x5B 0x45 ''coral3'',
      named_color 0x8B 0x3E 0x2F ''coral4'',
      named_color 0x64 0x95 0xED ''cornflowerblue'',
      named_color 0xFF 0xF8 0xDC ''cornsilk'',
      named_color 0xFF 0xF8 0xDC ''cornsilk1'',
      named_color 0xEE 0xE8 0xCD ''cornsilk2'',
      named_color 0xCD 0xC8 0xB1 ''cornsilk3'',
      named_color 0x8B 0x88 0x78 ''cornsilk4'',
      named_color 0xDC 0x14 0x3C ''crimson'',
      named_color 0x00 0xFF 0xFF ''cyan'',
      named_color 0x00 0xFF 0xFF ''cyan1'',
      named_color 0x00 0xEE 0xEE ''cyan2'',
      named_color 0x00 0xCD 0xCD ''cyan3'',
      named_color 0x00 0x8B 0x8B ''cyan4'',
      named_color 0x00 0x00 0x8B ''darkblue'',
      named_color 0x00 0x8B 0x8B ''darkcyan'',
      named_color 0xB8 0x86 0x0B ''darkgoldenrod'',
      named_color 0xFF 0xB9 0x0F ''darkgoldenrod1'',
      named_color 0xEE 0xAD 0x0E ''darkgoldenrod2'',
      named_color 0xCD 0x95 0x0C ''darkgoldenrod3'',
      named_color 0x8B 0x65 0x08 ''darkgoldenrod4'',
      named_color 0xA9 0xA9 0xA9 ''darkgray'',
      named_color 0x00 0x64 0x00 ''darkgreen'',
      named_color 0xA9 0xA9 0xA9 ''darkgrey'',
      named_color 0xBD 0xB7 0x6B ''darkkhaki'',
      named_color 0x8B 0x00 0x8B ''darkmagenta'',
      named_color 0x55 0x6B 0x2F ''darkolivegreen'',
      named_color 0xCA 0xFF 0x70 ''darkolivegreen1'',
      named_color 0xBC 0xEE 0x68 ''darkolivegreen2'',
      named_color 0xA2 0xCD 0x5A ''darkolivegreen3'',
      named_color 0x6E 0x8B 0x3D ''darkolivegreen4'',
      named_color 0xFF 0x8C 0x00 ''darkorange'',
      named_color 0xFF 0x7F 0x00 ''darkorange1'',
      named_color 0xEE 0x76 0x00 ''darkorange2'',
      named_color 0xCD 0x66 0x00 ''darkorange3'',
      named_color 0x8B 0x45 0x00 ''darkorange4'',
      named_color 0x99 0x32 0xCC ''darkorchid'',
      named_color 0xBF 0x3E 0xFF ''darkorchid1'',
      named_color 0xB2 0x3A 0xEE ''darkorchid2'',
      named_color 0x9A 0x32 0xCD ''darkorchid3'',
      named_color 0x68 0x22 0x8B ''darkorchid4'',
      named_color 0x8B 0x00 0x00 ''darkred'',
      named_color 0xE9 0x96 0x7A ''darksalmon'',
      named_color 0x8F 0xBC 0x8F ''darkseagreen'',
      named_color 0xC1 0xFF 0xC1 ''darkseagreen1'',
      named_color 0xB4 0xEE 0xB4 ''darkseagreen2'',
      named_color 0x9B 0xCD 0x9B ''darkseagreen3'',
      named_color 0x69 0x8B 0x69 ''darkseagreen4'',
      named_color 0x48 0x3D 0x8B ''darkslateblue'',
      named_color 0x2F 0x4F 0x4F ''darkslategray'',
      named_color 0x97 0xFF 0xFF ''darkslategray1'',
      named_color 0x8D 0xEE 0xEE ''darkslategray2'',
      named_color 0x79 0xCD 0xCD ''darkslategray3'',
      named_color 0x52 0x8B 0x8B ''darkslategray4'',
      named_color 0x2F 0x4F 0x4F ''darkslategrey'',
      named_color 0x00 0xCE 0xD1 ''darkturquoise'',
      named_color 0x94 0x00 0xD3 ''darkviolet'',
      named_color 0xFF 0x14 0x93 ''deeppink'',
      named_color 0xFF 0x14 0x93 ''deeppink1'',
      named_color 0xEE 0x12 0x89 ''deeppink2'',
      named_color 0xCD 0x10 0x76 ''deeppink3'',
      named_color 0x8B 0x0A 0x50 ''deeppink4'',
      named_color 0x00 0xBF 0xFF ''deepskyblue'',
      named_color 0x00 0xBF 0xFF ''deepskyblue1'',
      named_color 0x00 0xB2 0xEE ''deepskyblue2'',
      named_color 0x00 0x9A 0xCD ''deepskyblue3'',
      named_color 0x00 0x68 0x8B ''deepskyblue4'',
      named_color 0x69 0x69 0x69 ''dimgray'',
      named_color 0x69 0x69 0x69 ''dimgrey'',
      named_color 0x1E 0x90 0xFF ''dodgerblue'',
      named_color 0x1E 0x90 0xFF ''dodgerblue1'',
      named_color 0x1C 0x86 0xEE ''dodgerblue2'',
      named_color 0x18 0x74 0xCD ''dodgerblue3'',
      named_color 0x10 0x4E 0x8B ''dodgerblue4'',
      named_color 0xB2 0x22 0x22 ''firebrick'',
      named_color 0xFF 0x30 0x30 ''firebrick1'',
      named_color 0xEE 0x2C 0x2C ''firebrick2'',
      named_color 0xCD 0x26 0x26 ''firebrick3'',
      named_color 0x8B 0x1A 0x1A ''firebrick4'',
      named_color 0xFF 0xFA 0xF0 ''floralwhite'',
      named_color 0x22 0x8B 0x22 ''forestgreen'']"

definition named_colors_2 :: "guac_terminal_named_color list" where
  "named_colors_2 =
     [named_color 0xFF 0x00 0xFF ''fuchsia'',
      named_color 0xDC 0xDC 0xDC ''gainsboro'',
      named_color 0xF8 0xF8 0xFF ''ghostwhite'',
      named_color 0xFF 0xD7 0x00 ''gold'',
      named_color 0xFF 0xD7 0x00 ''gold1'',
      named_color 0xEE 0xC9 0x00 ''gold2'',
      named_color 0xCD 0xAD 0x00 ''gold3'',
      named_color 0x8B 0x75 0x00 ''gold4'',
      named_color 0xDA 0xA5 0x20 ''goldenrod'',
      named_color 0xFF 0xC1 0x25 ''goldenrod1'',
      named_color 0xEE 0xB4 0x22 ''goldenrod2'',
      named_color 0xCD 0x9B 0x1D ''goldenrod3'',
      named_color 0x8B 0x69 0x14 ''goldenrod4'',
      named_color 0xBE 0xBE 0xBE ''gray'',
      named_color 0x00 0x00 0x00 ''gray0'',
      named_color 0x03 0x03 0x03 ''gray1'',
      named_color 0x1A 0x1A 0x1A ''gray10'',
      named_color 0xFF 0xFF 0xFF ''gray100'',
      named_color 0x1C 0x1C 0x1C ''gray11'',
      named_color 0x1F 0x1F 0x1F ''gray12'',
      named_color 0x21 0x21 0x21 ''gray13'',
      named_color 0x24 0x24 0x24 ''gray14'',
      named_color 0x26 0x26 0x26 ''gray15'',
      named_color 0x29 0x29 0x29 ''gray16'',
      named_color 0x2B 0x2B 0x2B ''gray17'',
      named_color 0x2E 0x2E 0x2E ''gray18'',
      named_color 0x30 0x30 0x30 ''gray19'',
      named_color 0x05 0x05 0x05 ''gray2'',
      named_color 0x33 0x33 0x33 ''gray20'',
      named_color 0x36 0x36 0x36 ''gray21'',
      named_color 0x38 0x38 0x38 ''gray22'',
      named_color 0x3B 0x3B 0x3B ''gray23'',
      named_color 0x3D 0x3D 0x3D ''gray24'',
      named_color 0x40 0x40 0x40 ''gray25'',
      named_color 0x42 0x42 0x42 ''gray26'',
      named_color 0x45 0x45 0x45 ''gray27'',
      named_color 0x47 0x47 0x47 ''gray28'',
      named_color 0x4A 0x4A 0x4A ''gray29'',
      named_color 0x08 0x08 0x08 ''gray3'',
      named_color 0x4D 0x4D 0x4D ''gray30'',
      named_color 0x4F 0x4F 0x4F ''gray31'',
      named_color 0x52 0x52 0x52 ''gray32'',
      named_color 0x54 0x54 0x54 ''gray33'',
      named_color 0x57 0x57 0x57 ''gray34'',
      named_color 0x59 0x59 0x59 ''gray35'',
      named_color 0x5C 0x5C 0x5C ''gray36'',
      named_color 0x5E 0x5E 0x5E ''gray37'',
      named_color 0x61 0x61 0x61 ''gray38'',
      named_color 0x63 0x63 0x63 ''gray39'',
      named_color 0x0A 0x0A 0x0A ''gray4'',
      named_color 0x66 0x66 0x66 ''gray40'',
      named_color 0x69 0x69 0x69 ''gray41'',
      named_color 0x6B 0x6B 0x6B ''gray42'',
      named_color 0x6E 0x6E 0x6E ''gray43'',
      named_color 0x70 0x70 0x70 ''gray44'',
      named_color 0x73 0x73 0x73 ''gray45'',
      named_color 0x75 0x75 0x75 ''gray46'',
      named_color 0x78 0x78 0x78 ''gray47'',
      named_color 0x7A 0x7A 0x7A ''gray48'',
      named_color 0x7D 0x7D 0x7D ''gray49'',
      named_color 0x0D 0x0D 0x0D ''gray5'',
      named_color 0x7F 0x7F 0x7F ''gray50'',
      named_color 0x82 0x82 0x82 ''gray51'',
      named_color 0x85 0x85 0x85 ''gray52'',
      named_color 0x87 0x87 0x87 ''gray53'',
      named_color 0x8A 0x8A 0x8A ''gray54'',
      named_color 0x8C 0x8C 0x8C ''gray55'',
      named_color 0x8F 0x8F 0x8F ''gray56'',
      named_color 0x91 0x91 0x91 ''gray57'',
      named_color 0x94 0x94 0x94 ''gray58'',
      named_color 0x96 0x96 0x96 ''gray59'',
      named_color 0x0F 0x0F 0x0F ''gray6'',
      named_color 0x99 0x99 0x99 ''gray60'',
      named_color 0x9C 0x9C 0x9C ''gray61'',
      named_color 0x9E 0x9E 0x9E ''gray62'',
      named_color 0xA1 0xA1 0xA1 ''gray63'',
      named_color 0xA3 0xA3 0xA3 ''gray64'',
      named_color 0xA6 0xA6 0xA6 ''gray65'',
      named_color 0xA8 0xA8 0xA8 ''gray66'',
      named_color 0xAB 0xAB 0xAB ''gray67'',
      named_color 0xAD 0xAD 0xAD ''gray68'',
      named_color 0xB0 0xB0 0xB0 ''gray69'',
      named_color 0x12 0x12 0x12 ''gray7'',
      named_color 0xB3 0xB3 0xB3 ''gray70'',
      named_color 0xB5 0xB5 0xB5 ''gray71'',
      named_color 0xB8 0xB8 0xB8 ''gray72'',
      named_color 0xBA 0xBA 0xBA ''gray73'',
      named_color 0xBD 0xBD 0xBD ''gray74'',
      named_color 0xBF 0xBF 0xBF ''gray75'',
      named_color 0xC2 0xC2 0xC2 ''gray76'',
      named_color 0xC4 0xC4 0xC4 ''gray77'',
      named_color 0xC7 0xC7 0xC7 ''gray78'',
      named_color 0xC9 0xC9 0xC9 ''gray79'',
      named_color 0x14 0x14 0x14 ''gray8'',
      named_color 0xCC 0xCC 0xCC ''gray80'',
      named_color 0xCF 0xCF 0xCF ''gray81'',
      named_color 0xD1 0xD1 0xD1 ''gray82'',
      named_color 0xD4 0xD4 0xD4 ''gray83'',
      named_color 0xD6 0xD6 0xD6 ''gray84'',
      named_color 0xD9 0xD9 0xD9 ''gray85'',
      named_color 0xDB 0xDB 0xDB ''gray86'',
      named_color 0xDE 0xDE 0xDE ''gray87'',
      named_color 0xE0 0xE0 0xE0 ''gray88'',
      named_color 0xE3 0xE3 0xE3 ''gray89'',
      named_color 0x17 0x17 0x17 ''gray9'',
      named_color 0xE5 0xE5 0xE5 ''gray90'',
      named_color 0xE8 0xE8 0xE8 ''gray91'',
      named_color 0xEB 0xEB 0xEB ''gray92'',
      named_color 0xED 0xED 0xED ''gray93'',
      named_color 0xF0 0xF0 0xF0 ''gray94'',
      named_color 0xF2 0xF2 0xF2 ''gray95'',
      named_color 0xF5 0xF5 0xF5 ''gray96'',
      named_color 0xF7 0xF7 0xF7 ''gray97'',
      named_color 0xFA 0xFA 0xFA ''gray98'',
      named_color 0xFC 0xFC 0xFC ''gray99'',
      named_color 0x00 0xFF 0x00 ''green'',
      named_color 0x00 0xFF 0x00 ''green1'',
      named_color 0x00 0xEE 0x00 ''green2'',
      named_color 0x00 0xCD 0x00 ''green3'',
      named_color 0x00 0x8B 0x00 ''green4'',
      named_color 0xAD 0xFF 0x2F ''greenyellow'',
      named_color 0xBE 0xBE 0xBE ''grey'',
      named_color 0x00 0x00 0x00 ''grey0'',
      named_color 0x03 0x03 0x03 ''grey1'',
      named_color 0x1A 0x1A 0x1A ''grey10'',
      named_color 0xFF 0xFF 0xFF ''grey100'',
      named_color 0x1C 0x1C 0x1C ''grey11'',
      named_color 0x1F 0x1F 0x1F ''grey12'',
      named_color 0x21 0x21 0x21 ''grey13'',
      named_color 0x24 0x24 0x24 ''grey14'',
      named_color 0x26 0x26 0x26 ''grey15'',
      named_color 0x29 0x29 0x29 ''grey16'',
      named_color 0x2B 0x2B 0x2B ''grey17'',
      named_color 0x2E 0x2E 0x2E ''grey18'',
      named_color 0x30 0x30 0x30 ''grey19'',
      named_color 0x05 0x05 0x05 ''grey2'',
      named_color 0x33 0x33 0x33 ''grey20'',
      named_color 0x36 0x36 0x36 ''grey21'',
      named_color 0x38 0x38 0x38 ''grey22'',
      named_color 0x3B 0x3B 0x3B ''grey23'']"

definition named_colors_3 :: "guac_terminal_named_color list" where
  "named_colors_3 =
     [named_color 0x3D 0x3D 0x3D ''grey24'',
      named_color 0x40 0x40 0x40 ''grey25'',
      named_color 0x42 0x42 0x42 ''grey26'',
      named_color 0x45 0x45 0x45 ''grey27'',
      named_color 0x47 0x47 0x47 ''grey28'',
      named_color 0x4A 0x4A 0x4A ''grey29'',
      named_color 0x08 0x08 0x08 ''grey3'',
      named_color 0x4D 0x4D 0x4D ''grey30'',
      named_color 0x4F 0x4F 0x4F ''grey31'',
      named_color 0x52 0x52 0x52 ''grey32'',
      named_color 0x54 0x54 0x54 ''grey33'',
      named_color 0x57 0x57 0x57 ''grey34'',
      named_color 0x59 0x59 0x59 ''grey35'',
      named_color 0x5C 0x5C 0x5C ''grey36'',
      named_color 0x5E 0x5E 0x5E ''grey37'',
      named_color 0x61 0x61 0x61 ''grey38'',
      named_color 0x63 0x63 0x63 ''grey39'',
      named_color 0x0A 0x0A 0x0A ''grey4'',
      named_color 0x66 0x66 0x66 ''grey40'',
      named_color 0x69 0x69 0x69 ''grey41'',
      named_color 0x6B 0x6B 0x6B ''grey42'',
      named_color 0x6E 0x6E 0x6E ''grey43'',
      named_color 0x70 0x70 0x70 ''grey44'',
      named_color 0x73 0x73 0x73 ''grey45'',
      named_color 0x75 0x75 0x75 ''grey46'',
      named_color 0x78 0x78 0x78 ''grey47'',
      named_color 0x7A 0x7A 0x7A ''grey48'',
      named_color 0x7D 0x7D 0x7D ''grey49'',
      named_color 0x0D 0x0D 0x0D ''grey5'',
      named_color 0x7F 0x7F 0x7F ''grey50'',
      named_color 0x82 0x82 0x82 ''grey51'',
      named_color 0x85 0x85 0x85 ''grey52'',
      named_color 0x87 0x87 0x87 ''grey53'',
      named_color 0x8A 0x8A 0x8A ''grey54'',
      named_color 0x8C 0x8C 0x8C ''grey55'',
      named_color 0x8F 0x8F 0x8F ''grey56'',
      named_color 0x91 0x91 0x91 ''grey57'',
      named_color 0x94 0x94 0x94 ''grey58'',
      named_color 0x96 0x96 0x96 ''grey59'',
      named_color 0x0F 0x0F 0x0F ''grey6'',
      named_color 0x99 0x99 0x99 ''grey60'',
      named_color 0x9C 0x9C 0x9C ''grey61'',
      named_color 0x9E 0x9E 0x9E ''grey62'',
      named_color 0xA1 0xA1 0xA1 ''grey63'',
      named_color 0xA3 0xA3 0xA3 ''grey64'',
      named_color 0xA6 0xA6 0xA6 ''grey65'',
      named_color 0xA8 0xA8 0xA8 ''grey66'',
      named_color 0xAB 0xAB 0xAB ''grey67'',
      named_color 0xAD 0xAD 0xAD ''grey68'',
      named_color 0xB0 0xB0 0xB0 ''grey69'',
      named_color 0x12 0x12 0x12 ''grey7'',
      named_color 0xB3 0xB3 0xB3 ''grey70'',
      named_color 0xB5 0xB5 0xB5 ''grey71'',
      named_color 0xB8 0xB8 0xB8 ''grey72'',
      named_color 0xBA 0xBA 0xBA ''grey73'',
      named_color 0xBD 0xBD 0xBD ''grey74'',
      named_color 0xBF 0xBF 0xBF ''grey75'',
      named_color 0xC2 0xC2 0xC2 ''grey76'',
      named_color 0xC4 0xC4 0xC4 ''grey77'',
      named_color 0xC7 0xC7 0xC7 ''grey78'',
      named_color 0xC9 0xC9 0xC9 ''grey79'',
      named_color 0x14 0x14 0x14 ''grey8'',
      named_color 0xCC 0xCC 0xCC ''grey80'',
      named_color 0xCF 0xCF 0xCF ''grey81'',
      named_color 0xD1 0xD1 0xD1 ''grey82'',
      named_color 0xD4 0xD4 0xD4 ''grey83'',
      named_color 0xD6 0xD6 0xD6 ''grey84'',
      named_color 0xD9 0xD9 0xD9 ''grey85'',
      named_color 0xDB 0xDB 0xDB ''grey86'',
      named_color 0xDE 0xDE 0xDE ''grey87'',
      named_color 0xE0 0xE0 0xE0 ''grey88'',
      named_color 0xE3 0xE3 0xE3 ''grey89'',
      named_color 0x17 0x17 0x17 ''grey9'',
      named_color 0xE5 0xE5 0xE5 ''grey90'',
      named_color 0xE8 0xE8 0xE8 ''grey91'',
      named_color 0xEB 0xEB 0xEB ''grey92'',
      named_color 0xED 0xED 0xED ''grey93'',
      named_color 0xF0 0xF0 0xF0 ''grey94'',
      named_color 0xF2 0xF2 0xF2 ''grey95'',
      named_color 0xF5 0xF5 0xF5 ''grey96'',
      named_color 0xF7 0xF7 0xF7 ''grey97'',
      named_color 0xFA 0xFA 0xFA ''grey98'',
      named_color 0xFC 0xFC 0xFC ''grey99'',
      named_color 0xF0 0xFF 0xF0 ''honeydew'',
      named_color 0xF0 0xFF 0xF0 ''honeydew1'',
      named_color 0xE0 0xEE 0xE0 ''honeydew2'',
      named_color 0xC1 0xCD 0xC1 ''honeydew3'',
      named_color 0x83 0x8B 0x83 ''honeydew4'',
      named_color 0xFF 0x69 0xB4 ''hotpink'',
      named_color 0xFF 0x6E 0xB4 ''hotpink1'',
      named_color 0xEE 0x6A 0xA7 ''hotpink2'',
      named_color 0xCD 0x60 0x90 ''hotpink3'',
      named_color 0x8B 0x3A 0x62 ''hotpink4'',
      named_color 0xCD 0x5C 0x5C ''indianred'',
      named_color 0xFF 0x6A 0x6A ''indianred1'',
      named_color 0xEE 0x63 0x63 ''indianred2'',
      named_color 0xCD 0x55 0x55 ''indianred3'',
      named_color 0x8B 0x3A 0x3A ''indianred4'',
      named_color 0x4B 0x00 0x82 ''indigo'',
      named_color 0xFF 0xFF 0xF0 ''ivory'',
      named_color 0xFF 0xFF 0xF0 ''ivory1'',
      named_color 0xEE 0xEE 0xE0 ''ivory2'',
      named_color 0xCD 0xCD 0xC1 ''ivory3'',
      named_color 0x8B 0x8B 0x83 ''ivory4'',
      named_color 0xF0 0xE6 0x8C ''khaki'',
      named_color 0xFF 0xF6 0x8F ''khaki1'',
      named_color 0xEE 0xE6 0x85 ''khaki2'',
      named_color 0xCD 0xC6 0x73 ''khaki3'',
      named_color 0x8B 0x86 0x4E ''khaki4'',
      named_color 0xE6 0xE6 0xFA ''lavender'',
      named_color 0xFF 0xF0 0xF5 ''lavenderblush'',
      named_color 0xFF 0xF0 0xF5 ''lavenderblush1'',
      named_color 0xEE 0xE0 0xE5 ''lavenderblush2'',
      named_color 0xCD 0xC1 0xC5 ''lavenderblush3'',
      named_color 0x8B 0x83 0x86 ''lavenderblush4'',
      named_color 0x7C 0xFC 0x00 ''lawngreen'',
      named_color 0xFF 0xFA 0xCD ''lemonchiffon'',
      named_color 0xFF 0xFA 0xCD ''lemonchiffon1'',
      named_color 0xEE 0xE9 0xBF ''lemonchiffon2'',
      named_color 0xCD 0xC9 0xA5 ''lemonchiffon3'',
      named_color 0x8B 0x89 0x70 ''lemonchiffon4'',
      named_color 0xAD 0xD8 0xE6 ''lightblue'',
      named_color 0xBF 0xEF 0xFF ''lightblue1'',
      named_color 0xB2 0xDF 0xEE ''lightblue2'',
      named_color 0x9A 0xC0 0xCD ''lightblue3'',
      named_color 0x68 0x83 0x8B ''lightblue4'',
      named_color 0xF0 0x80 0x80 ''lightcoral'',
      named_color 0xE0 0xFF 0xFF ''lightcyan'',
      named_color 0xE0 0xFF 0xFF ''lightcyan1'',
      named_color 0xD1 0xEE 0xEE ''lightcyan2'',
      named_color 0xB4 0xCD 0xCD ''lightcyan3'',
      named_color 0x7A 0x8B 0x8B ''lightcyan4'',
      named_color 0xEE 0xDD 0x82 ''lightgoldenrod'',
      named_color 0xFF 0xEC 0x8B ''lightgoldenrod1'',
      named_color 0xEE 0xDC 0x82 ''lightgoldenrod2'',
      named_color 0xCD 0xBE 0x70 ''lightgoldenrod3'',
      named_color 0x8B 0x81 0x4C ''lightgoldenrod4'',
      named_color 0xFA 0xFA 0xD2 ''lightgoldenrodyellow'',
      named_color 0xD3 0xD3 0xD3 ''lightgray'',
      named_color 0x90 0xEE 0x90 ''lightgreen'']"

definition named_colors_4 :: "guac_terminal_named_color list" where
  "named_colors_4 =
     [named_color 0xD3 0xD3 0xD3 ''lightgrey'',
      named_color 0xFF 0xB6 0xC1 ''lightpink'',
      named_color 0xFF 0xAE 0xB9 ''lightpink1'',
      named_color 0xEE 0xA2 0xAD ''lightpink2'',
      named_color 0xCD 0x8C 0x95 ''lightpink3'',
      named_color 0x8B 0x5F 0x65 ''lightpink4'',
      named_color 0xFF 0xA0 0x7A ''lightsalmon'',
      named_color 0xFF 0xA0 0x7A ''lightsalmon1'',
      named_color 0xEE 0x95 0x72 ''lightsalmon2'',
      named_color 0xCD 0x81 0x62 ''lightsalmon3'',
      named_color 0x8B 0x57 0x42 ''lightsalmon4'',
      named_color 0x20 0xB2 0xAA ''lightseagreen'',
      named_color 0x87 0xCE 0xFA ''lightskyblue'',
      named_color 0xB0 0xE2 0xFF ''lightskyblue1'',
      named_color 0xA4 0xD3 0xEE ''lightskyblue2'',
      named_color 0x8D 0xB6 0xCD ''lightskyblue3'',
      named_color 0x60 0x7B 0x8B ''lightskyblue4'',
      named_color 0x84 0x70 0xFF ''lightslateblue'',
      named_color 0x77 0x88 0x99 ''lightslategray'',
      named_color 0x77 0x88 0x99 ''lightslategrey'',
      named_color 0xB0 0xC4 0xDE ''lightsteelblue'',
      named_color 0xCA 0xE1 0xFF ''lightsteelblue1'',
      named_color 0xBC 0xD2 0xEE ''lightsteelblue2'',
      named_color 0xA2 0xB5 0xCD ''lightsteelblue3'',
      named_color 0x6E 0x7B 0x8B ''lightsteelblue4'',
      named_color 0xFF 0xFF 0xE0 ''lightyellow'',
      named_color 0xFF 0xFF 0xE0 ''lightyellow1'',
      named_color 0xEE 0xEE 0xD1 ''lightyellow2'',
      named_color 0xCD 0xCD 0xB4 ''lightyellow3'',
      named_color 0x8B 0x8B 0x7A ''lightyellow4'',
      named_color 0x00 0xFF 0x00 ''lime'',
      named_color 0x32 0xCD 0x32 ''limegreen'',
      named_color 0xFA 0xF0 0xE6 ''linen'',
      named_color 0xFF 0x00 0xFF ''magenta'',
      named_color 0xFF 0x00 0xFF ''magenta1'',
      named_color 0xEE 0x00 0xEE ''magenta2'',
      named_color 0xCD 0x00 0xCD ''magenta3'',
      named_color 0x8B 0x00 0x8B ''magenta4'',
      named_color 0xB0 0x30 0x60 ''maroon'',
      named_color 0xFF 0x34 0xB3 ''maroon1'',
      named_color 0xEE 0x30 0xA7 ''maroon2'',
      named_color 0xCD 0x29 0x90 ''maroon3'',
      named_color 0x8B 0x1C 0x62 ''maroon4'',
      named_color 0x66 0xCD 0xAA ''mediumaquamarine'',
      named_color 0x00 0x00 0xCD ''mediumblue'',
      named_color 0xBA 0x55 0xD3 ''mediumorchid'',
      named_color 0xE0 0x66 0xFF ''mediumorchid1'',
      named_color 0xD1 0x5F 0xEE ''mediumorchid2'',
      named_color 0xB4 0x52 0xCD ''mediumorchid3'',
      named_color 0x7A 0x37 0x8B ''mediumorchid4'',
      named_color 0x93 0x70 0xDB ''mediumpurple'',
      named_color 0xAB 0x82 0xFF ''mediumpurple1'',
      named_color 0x9F 0x79 0xEE ''mediumpurple2'',
      named_color 0x89 0x68 0xCD ''mediumpurple3'',
      named_color 0x5D 0x47 0x8B ''mediumpurple4'',
      named_color 0x3C 0xB3 0x71 ''mediumseagreen'',
      named_color 0x7B 0x68 0xEE ''mediumslateblue'',
      named_color 0x00 0xFA 0x9A ''mediumspringgreen'',
      named_color 0x48 0xD1 0xCC ''mediumturquoise'',
      named_color 0xC7 0x15 0x85 ''mediumvioletred'',
      named_color 0x19 0x19 0x70 ''midnightblue'',
      named_color 0xF5 0xFF 0xFA ''mintcream'',
      named_color 0xFF 0xE4 0xE1 ''mistyrose'',
      named_color 0xFF 0xE4 0xE1 ''mistyrose1'',
      named_color 0xEE 0xD5 0xD2 ''mistyrose2'',
      named_color 0xCD 0xB7 0xB5 ''mistyrose3'',
      named_color 0x8B 0x7D 0x7B ''mistyrose4'',
      named_color 0xFF 0xE4 0xB5 ''moccasin'',
      named_color 0xFF 0xDE 0xAD ''navajowhite'',
      named_color 0xFF 0xDE 0xAD ''navajowhite1'',
      named_color 0xEE 0xCF 0xA1 ''navajowhite2'',
      named_color 0xCD 0xB3 0x8B ''navajowhite3'',
      named_color 0x8B 0x79 0x5E ''navajowhite4'',
      named_color 0x00 0x00 0x80 ''navy'',
      named_color 0x00 0x00 0x80 ''navyblue'',
      named_color 0xFD 0xF5 0xE6 ''oldlace'',
      named_color 0x80 0x80 0x00 ''olive'',
      named_color 0x6B 0x8E 0x23 ''olivedrab'',
      named_color 0xC0 0xFF 0x3E ''olivedrab1'',
      named_color 0xB3 0xEE 0x3A ''olivedrab2'',
      named_color 0x9A 0xCD 0x32 ''olivedrab3'',
      named_color 0x69 0x8B 0x22 ''olivedrab4'',
      named_color 0xFF 0xA5 0x00 ''orange'',
      named_color 0xFF 0xA5 0x00 ''orange1'',
      named_color 0xEE 0x9A 0x00 ''orange2'',
      named_color 0xCD 0x85 0x00 ''orange3'',
      named_color 0x8B 0x5A 0x00 ''orange4'',
      named_color 0xFF 0x45 0x00 ''orangered'',
      named_color 0xFF 0x45 0x00 ''orangered1'',
      named_color 0xEE 0x40 0x00 ''orangered2'',
      named_color 0xCD 0x37 0x00 ''orangered3'',
      named_color 0x8B 0x25 0x00 ''orangered4'',
      named_color 0xDA 0x70 0xD6 ''orchid'',
      named_color 0xFF 0x83 0xFA ''orchid1'',
      named_color 0xEE 0x7A 0xE9 ''orchid2'',
      named_color 0xCD 0x69 0xC9 ''orchid3'',
      named_color 0x8B 0x47 0x89 ''orchid4'',
      named_color 0xEE 0xE8 0xAA ''palegoldenrod'',
      named_color 0x98 0xFB 0x98 ''palegreen'',
      named_color 0x9A 0xFF 0x9A ''palegreen1'',
      named_color 0x90 0xEE 0x90 ''palegreen2'',
      named_color 0x7C 0xCD 0x7C ''palegreen3'',
      named_color 0x54 0x8B 0x54 ''palegreen4'',
      named_color 0xAF 0xEE 0xEE ''paleturquoise'',
      named_color 0xBB 0xFF 0xFF ''paleturquoise1'',
      named_color 0xAE 0xEE 0xEE ''paleturquoise2'',
      named_color 0x96 0xCD 0xCD ''paleturquoise3'',
      named_color 0x66 0x8B 0x8B ''paleturquoise4'',
      named_color 0xDB 0x70 0x93 ''palevioletred'',
      named_color 0xFF 0x82 0xAB ''palevioletred1'',
      named_color 0xEE 0x79 0x9F ''palevioletred2'',
      named_color 0xCD 0x68 0x89 ''palevioletred3'',
      named_color 0x8B 0x47 0x5D ''palevioletred4'',
      named_color 0xFF 0xEF 0xD5 ''papayawhip'',
      named_color 0xFF 0xDA 0xB9 ''peachpuff'',
      named_color 0xFF 0xDA 0xB9 ''peachpuff1'',
      named_color 0xEE 0xCB 0xAD ''peachpuff2'',
      named_color 0xCD 0xAF 0x95 ''peachpuff3'',
      named_color 0x8B 0x77 0x65 ''peachpuff4'',
      named_color 0xCD 0x85 0x3F ''peru'',
      named_color 0xFF 0xC0 0xCB ''pink'',
      named_color 0xFF 0xB5 0xC5 ''pink1'',
      named_color 0xEE 0xA9 0xB8 ''pink2'',
      named_color 0xCD 0x91 0x9E ''pink3'',
      named_color 0x8B 0x63 0x6C ''pink4'',
      named_color 0xDD 0xA0 0xDD ''plum'',
      named_color 0xFF 0xBB 0xFF ''plum1'',
      named_color 0xEE 0xAE 0xEE ''plum2'',
      named_color 0xCD 0x96 0xCD ''plum3'',
      named_color 0x8B 0x66 0x8B ''plum4'',
      named_color 0xB0 0xE0 0xE6 ''powderblue'',
      named_color 0xA0 0x20 0xF0 ''purple'',
      named_color 0x9B 0x30 0xFF ''purple1'',
      named_color 0x91 0x2C 0xEE ''purple2'',
      named_color 0x7D 0x26 0xCD ''purple3'',
      named_color 0x55 0x1A 0x8B ''purple4'',
      named_color 0x66 0x33 0x99 ''rebeccapurple'',
      named_color 0xFF 0x00 0x00 ''red'',
      named_color 0xFF 0x00 0x00 ''red1'',
      named_color 0xEE 0x00 0x00 ''red2'']"

definition named_colors_5 :: "guac_terminal_named_color list" where
  "named_colors_5 =
     [named_color 0xCD 0x00 0x00 ''red3'',
      named_color 0x8B 0x00 0x00 ''red4'',
      named_color 0xBC 0x8F 0x8F ''rosybrown'',
      named_color 0xFF 0xC1 0xC1 ''rosybrown1'',
      named_color 0xEE 0xB4 0xB4 ''rosybrown2'',
      named_color 0xCD 0x9B 0x9B ''rosybrown3'',
      named_color 0x8B 0x69 0x69 ''rosybrown4'',
      named_color 0x41 0x69 0xE1 ''royalblue'',
      named_color 0x48 0x76 0xFF ''royalblue1'',
      named_color 0x43 0x6E 0xEE ''royalblue2'',
      named_color 0x3A 0x5F 0xCD ''royalblue3'',
      named_color 0x27 0x40 0x8B ''royalblue4'',
      named_color 0x8B 0x45 0x13 ''saddlebrown'',
      named_color 0xFA 0x80 0x72 ''salmon'',
      named_color 0xFF 0x8C 0x69 ''salmon1'',
      named_color 0xEE 0x82 0x62 ''salmon2'',
      named_color 0xCD 0x70 0x54 ''salmon3'',
      named_color 0x8B 0x4C 0x39 ''salmon4'',
      named_color 0xF4 0xA4 0x60 ''sandybrown'',
      named_color 0x2E 0x8B 0x57 ''seagreen'',
      named_color 0x54 0xFF 0x9F ''seagreen1'',
      named_color 0x4E 0xEE 0x94 ''seagreen2'',
      named_color 0x43 0xCD 0x80 ''seagreen3'',
      named_color 0x2E 0x8B 0x57 ''seagreen4'',
      named_color 0xFF 0xF5 0xEE ''seashell'',
      named_color 0xFF 0xF5 0xEE ''seashell1'',
      named_color 0xEE 0xE5 0xDE ''seashell2'',
      named_color 0xCD 0xC5 0xBF ''seashell3'',
      named_color 0x8B 0x86 0x82 ''seashell4'',
      named_color 0xA0 0x52 0x2D ''sienna'',
      named_color 0xFF 0x82 0x47 ''sienna1'',
      named_color 0xEE 0x79 0x42 ''sienna2'',
      named_color 0xCD 0x68 0x39 ''sienna3'',
      named_color 0x8B 0x47 0x26 ''sienna4'',
      named_color 0xC0 0xC0 0xC0 ''silver'',
      named_color 0x87 0xCE 0xEB ''skyblue'',
      named_color 0x87 0xCE 0xFF ''skyblue1'',
      named_color 0x7E 0xC0 0xEE ''skyblue2'',
      named_color 0x6C 0xA6 0xCD ''skyblue3'',
      named_color 0x4A 0x70 0x8B ''skyblue4'',
      named_color 0x6A 0x5A 0xCD ''slateblue'',
      named_color 0x83 0x6F 0xFF ''slateblue1'',
      named_color 0x7A 0x67 0xEE ''slateblue2'',
      named_color 0x69 0x59 0xCD ''slateblue3'',
      named_color 0x47 0x3C 0x8B ''slateblue4'',
      named_color 0x70 0x80 0x90 ''slategray'',
      named_color 0xC6 0xE2 0xFF ''slategray1'',
      named_color 0xB9 0xD3 0xEE ''slategray2'',
      named_color 0x9F 0xB6 0xCD ''slategray3'',
      named_color 0x6C 0x7B 0x8B ''slategray4'',
      named_color 0x70 0x80 0x90 ''slategrey'',
      named_color 0xFF 0xFA 0xFA ''snow'',
      named_color 0xFF 0xFA 0xFA ''snow1'',
      named_color 0xEE 0xE9 0xE9 ''snow2'',
      named_color 0xCD 0xC9 0xC9 ''snow3'',
      named_color 0x8B 0x89 0x89 ''snow4'',
      named_color 0x00 0xFF 0x7F ''springgreen'',
      named_color 0x00 0xFF 0x7F ''springgreen1'',
      named_color 0x00 0xEE 0x76 ''springgreen2'',
      named_color 0x00 0xCD 0x66 ''springgreen3'',
      named_color 0x00 0x8B 0x45 ''springgreen4'',
      named_color 0x46 0x82 0xB4 ''steelblue'',
      named_color 0x63 0xB8 0xFF ''steelblue1'',
      named_color 0x5C 0xAC 0xEE ''steelblue2'',
      named_color 0x4F 0x94 0xCD ''steelblue3'',
      named_color 0x36 0x64 0x8B ''steelblue4'',
      named_color 0xD2 0xB4 0x8C ''tan'',
      named_color 0xFF 0xA5 0x4F ''tan1'',
      named_color 0xEE 0x9A 0x49 ''tan2'',
      named_color 0xCD 0x85 0x3F ''tan3'',
      named_color 0x8B 0x5A 0x2B ''tan4'',
      named_color 0x00 0x80 0x80 ''teal'',
      named_color 0xD8 0xBF 0xD8 ''thistle'',
      named_color 0xFF 0xE1 0xFF ''thistle1'',
      named_color 0xEE 0xD2 0xEE ''thistle2'',
      named_color 0xCD 0xB5 0xCD ''thistle3'',
      named_color 0x8B 0x7B 0x8B ''thistle4'',
      named_color 0xFF 0x63 0x47 ''tomato'',
      named_color 0xFF 0x63 0x47 ''tomato1'',
      named_color 0xEE 0x5C 0x42 ''tomato2'',
      named_color 0xCD 0x4F 0x39 ''tomato3'',
      named_color 0x8B 0x36 0x26 ''tomato4'',
      named_color 0x40 0xE0 0xD0 ''turquoise'',
      named_color 0x00 0xF5 0xFF ''turquoise1'',
      named_color 0x00 0xE5 0xEE ''turquoise2'',
      named_color 0x00 0xC5 0xCD ''turquoise3'',
      named_color 0x00 0x86 0x8B ''turquoise4'',
      named_color 0xEE 0x82 0xEE ''violet'',
      named_color 0xD0 0x20 0x90 ''violetred'',
      named_color 0xFF 0x3E 0x96 ''violetred1'',
      named_color 0xEE 0x3A 0x8C ''violetred2'',
      named_color 0xCD 0x32 0x78 ''violetred3'',
      named_color 0x8B 0x22 0x52 ''violetred4'',
      named_color 0x80 0x80 0x80 ''webgray'',
      named_color 0x00 0x80 0x00 ''webgreen'',
      named_color 0x80 0x80 0x80 ''webgrey'',
      named_color 0x80 0x00 0x00 ''webmaroon'',
      named_color 0x80 0x00 0x80 ''webpurple'',
      named_color 0xF5 0xDE 0xB3 ''wheat'',
      named_color 0xFF 0xE7 0xBA ''wheat1'',
      named_color 0xEE 0xD8 0xAE ''wheat2'',
      named_color 0xCD 0xBA 0x96 ''wheat3'',
      named_color 0x8B 0x7E 0x66 ''wheat4'',
      named_color 0xFF 0xFF 0xFF ''white'',
      named_color 0xF5 0xF5 0xF5 ''whitesmoke'',
      named_color 0xBE 0xBE 0xBE ''x11gray'',
      named_color 0x00 0xFF 0x00 ''x11green'',
      named_color 0xBE 0xBE 0xBE ''x11grey'',
      named_color 0xB0 0x30 0x60 ''x11maroon'',
      named_color 0xA0 0x20 0xF0 ''x11purple'',
      named_color 0xFF 0xFF 0x00 ''yellow'',
      named_color 0xFF 0xFF 0x00 ''yellow1'',
      named_color 0xEE 0xEE 0x00 ''yellow2'',
      named_color 0xCD 0xCD 0x00 ''yellow3'',
      named_color 0x8B 0x8B 0x00 ''yellow4'',
      named_color 0x9A 0xCD 0x32 ''yellowgreen'']"

definition GUAC_TERMINAL_NAMED_COLORS :: "guac_terminal_named_color list" where
  "GUAC_TERMINAL_NAMED_COLORS =
     named_colors_1 @ named_colors_2 @ named_colors_3 @ named_colors_4 @ named_colors_5"

definition tolower :: "byte \<Rightarrow> byte" where
  "tolower c = (if 65 \<le> c \<and> c \<le> 90 then c + 32 else c)"

text \<open>
  The comparator of the search: the loop ends when either string does. A \<open>char\<close> is signed.
\<close>

fun guac_terminal_named_color_search :: "byte list \<Rightarrow> byte list \<Rightarrow> int" where
  "guac_terminal_named_color_search key [] = 0"
| "guac_terminal_named_color_search key (n # name) =
     (if key = [] then - 1
      else
        (let key = dropWhile is_space key;
             keyChar = (if key = [] \<or> hd key = 59 then 0 else sint (tolower (hd key)));
             difference = keyChar - sint n
         in if difference \<noteq> 0 then difference
            else guac_terminal_named_color_search (tl key) name))"

definition guac_terminal_find_color :: "byte list \<Rightarrow> guac_terminal_color option" where
  "guac_terminal_find_color name =
     map_option (\<lambda>i. named_value (GUAC_TERMINAL_NAMED_COLORS ! i))
       (bsearch (\<lambda>i. guac_terminal_named_color_search name (named_name (GUAC_TERMINAL_NAMED_COLORS ! i)))
          0 (length GUAC_TERMINAL_NAMED_COLORS))"

section \<open>Colour specifications\<close>

definition hex_digit_val :: "byte \<Rightarrow> int option" where
  "hex_digit_val c =
     (if 48 \<le> c \<and> c \<le> 57 then Some (uint c - 48)
      else if 97 \<le> c \<and> c \<le> 102 then Some (uint c - 87)
      else if 65 \<le> c \<and> c \<le> 70 then Some (uint c - 55)
      else None)"

text \<open>
  The conversion \<open>%Nx\<close> of \<open>sscanf\<close>: white space, then at most \<open>N\<close> characters made of a sign, a
  prefix \<open>0x\<close> and digits.
\<close>

definition scan_hex :: "nat \<Rightarrow> byte list \<Rightarrow> (int \<times> byte list) option" where
  "scan_hex width str =
     (let s = dropWhile is_space str;
          sign = (s \<noteq> [] \<and> (hd s = 43 \<or> hd s = 45));
          neg = (sign \<and> hd s = 45);
          (w, s) = (if sign then (width - 1, tl s) else (width, s));
          zero = (0 < w \<and> s \<noteq> [] \<and> hd s = 48);
          (w, s) = (if zero then (w - 1, tl s) else (w, s));
          (w, s) = (if zero \<and> 0 < w \<and> s \<noteq> [] \<and> (hd s = 120 \<or> hd s = 88) then (w - 1, tl s) else (w, s));
          ds = takeWhile (\<lambda>c. hex_digit_val c \<noteq> None) (take w s);
          v = foldl (\<lambda>v c. 16 * v + the (hex_digit_val c)) 0 ds
      in if \<not> zero \<and> ds = [] then None else Some (if neg then - v else v, drop (length ds) s))"

definition expect :: "byte list \<Rightarrow> byte list \<Rightarrow> byte list option" where
  "expect lit s = (if take (length lit) s = lit then Some (drop (length lit) s) else None)"

text \<open>\<open>sscanf (spec, "rgb:%Nx/%Nx/%Nx", \<dots>) == 3\<close>\<close>

definition scan_rgb :: "nat \<Rightarrow> byte list \<Rightarrow> (int \<times> int \<times> int) option" where
  "scan_rgb width spec =
     do {
       s \<leftarrow> expect (cstr ''rgb:'') spec;
       (red, s) \<leftarrow> scan_hex width s;
       s \<leftarrow> expect (cstr ''/'') s;
       (green, s) \<leftarrow> scan_hex width s;
       s \<leftarrow> expect (cstr ''/'') s;
       (blue, s) \<leftarrow> scan_hex width s;
       Some (red, green, blue)
     }"

definition rgb_color :: "(int \<Rightarrow> int) \<Rightarrow> int \<times> int \<times> int \<Rightarrow> guac_terminal_color" where
  "rgb_color f c =
     (case c of (red, green, blue) \<Rightarrow>
        palette_color (- 1) (word_of_int (f red)) (word_of_int (f green)) (word_of_int (f blue)))"

text \<open>\<open>None\<close> is a result other than 0; the colour is then left as it is.\<close>

definition guac_terminal_xparsecolor :: "byte list \<Rightarrow> guac_terminal_color option" where
  "guac_terminal_xparsecolor spec =
     (case scan_rgb 1 spec of
        Some c \<Rightarrow> Some (rgb_color (\<lambda>v. v * 16) c)
      | None \<Rightarrow>
          (case scan_rgb 2 spec of
             Some c \<Rightarrow> Some (rgb_color (\<lambda>v. v) c)
           | None \<Rightarrow>
               (case scan_rgb 3 spec of
                  Some c \<Rightarrow> Some (rgb_color (\<lambda>v. v div 16) c)
                | None \<Rightarrow>
                    (case scan_rgb 4 spec of
                       Some c \<Rightarrow> Some (rgb_color (\<lambda>v. v div 256) c)
                     | None \<Rightarrow> guac_terminal_find_color spec))))"

section \<open>Colour schemes\<close>

text \<open>
  A bounded string is the text from its start to the end of the whole string, and its length. The
  functions that read a number or a colour read from the start, past the end of the bounded string.
\<close>

type_synonym bounded_string = "byte list \<times> nat"

definition guac_terminal_color_scheme_compare_token :: "bounded_string \<Rightarrow> byte list \<Rightarrow> bool" where
  "guac_terminal_color_scheme_compare_token str literal \<longleftrightarrow>
     take (snd str) (fst str) = take (snd str) literal \<and> length literal = snd str"

definition guac_terminal_color_scheme_strip_spaces :: "bounded_string \<Rightarrow> bounded_string" where
  "guac_terminal_color_scheme_strip_spaces str =
     (let leading = length (takeWhile is_space (take (snd str) (fst str)));
          s = drop leading (fst str); n = snd str - leading;
          trailing = length (takeWhile is_space (rev (take n s)))
      in (s, n - trailing))"

text \<open>The result of \<open>sscanf (str, "color%d", &index)\<close>: \<open>index\<close> stays \<open>- 1\<close> when nothing is read.\<close>

definition scan_color_index :: "byte list \<Rightarrow> int" where
  "scan_color_index str =
     (case expect (cstr ''color'') str of
        None \<Rightarrow> - 1
      | Some t \<Rightarrow> (case strtol10 t of (v, rest) \<Rightarrow> if rest = t then - 1 else s32 (clamp64 v)))"

datatype color_target = Target_Foreground | Target_Background | Target_Palette nat

record color_scheme =
  scheme_foreground :: guac_terminal_color
  scheme_background :: guac_terminal_color
  scheme_palette :: "guac_terminal_color list"

definition guac_terminal_parse_color_scheme_name :: "bounded_string \<Rightarrow> color_target option" where
  "guac_terminal_parse_color_scheme_name name =
     (let name = guac_terminal_color_scheme_strip_spaces name
      in if guac_terminal_color_scheme_compare_token name (cstr ''foreground'') then Some Target_Foreground
         else if guac_terminal_color_scheme_compare_token name (cstr ''background'') then Some Target_Background
         else
           (let index = scan_color_index (fst name)
            in if index \<ge> 0 \<and> index \<le> 255 then Some (Target_Palette (nat index)) else None))"

definition guac_terminal_parse_color_scheme_value ::
    "guac_terminal_color list \<Rightarrow> bounded_string \<Rightarrow> guac_terminal_color option" where
  "guac_terminal_parse_color_scheme_value palette str =
     (let str = guac_terminal_color_scheme_strip_spaces str;
          index = scan_color_index (fst str)
      in if index \<ge> 0 \<and> index \<le> 255 then Some (palette ! nat index)
         else guac_terminal_xparsecolor (fst str))"

definition scheme_store :: "color_target \<Rightarrow> guac_terminal_color \<Rightarrow> color_scheme \<Rightarrow> color_scheme" where
  "scheme_store target c st =
     (case target of
        Target_Foreground \<Rightarrow> st\<lparr>scheme_foreground := c\<rparr>
      | Target_Background \<Rightarrow> st\<lparr>scheme_background := c\<rparr>
      | Target_Palette i \<Rightarrow> st\<lparr>scheme_palette := (scheme_palette st)[i := c]\<rparr>)"

text \<open>
  One pair of a scheme: \<open>None\<close> when the parsing fails, and the function returns at once. \<open>pair\<close> is
  the text of the pair before its spaces are stripped.
\<close>

definition scheme_pair :: "bounded_string \<Rightarrow> color_scheme \<Rightarrow> color_scheme option" where
  "scheme_pair pair st =
     (let (p, m) = guac_terminal_color_scheme_strip_spaces pair;
          k = length (takeWhile (\<lambda>c. c \<noteq> 58) (take m p))
      in if m = 0 then Some st
         else if k = m then None
         else do {
           target \<leftarrow> guac_terminal_parse_color_scheme_name (p, k);
           c \<leftarrow> guac_terminal_parse_color_scheme_value (scheme_palette st) (drop (k + 1) p, m - k - 1);
           Some (scheme_store target c st)
         })"

function scheme_loop :: "byte list \<Rightarrow> color_scheme \<Rightarrow> bool \<times> color_scheme" where
  "scheme_loop cursor st =
     (let n = length (takeWhile (\<lambda>c. c \<noteq> 59) cursor)
      in case scheme_pair (cursor, n) st of
           None \<Rightarrow> (False, st)
         | Some st \<Rightarrow> if n < length cursor then scheme_loop (drop (n + 1) cursor) st else (True, st))"
  by pat_completeness auto
termination
  by (relation "measure (\<lambda>(cursor, st). length cursor)") auto

declare scheme_loop.simps [simp del]

definition guac_terminal_parse_color_scheme :: "byte list \<Rightarrow> color_scheme" where
  "guac_terminal_parse_color_scheme color_scheme =
     (let color_scheme =
        (if color_scheme = [] then []
         else if color_scheme = cstr ''gray-black'' then cstr ''foreground:color7;background:color0''
         else if color_scheme = cstr ''black-white'' then cstr ''foreground:color0;background:color15''
         else if color_scheme = cstr ''green-black'' then cstr ''foreground:color2;background:color0''
         else if color_scheme = cstr ''white-black'' then cstr ''foreground:color15;background:color0''
         else color_scheme);
          (parsed, st) = scheme_loop color_scheme
            \<lparr>scheme_foreground = GUAC_TERMINAL_INITIAL_PALETTE ! 7,
             scheme_background = GUAC_TERMINAL_INITIAL_PALETTE ! 0,
             scheme_palette = GUAC_TERMINAL_INITIAL_PALETTE\<rparr>
      in if parsed
         then st\<lparr>scheme_foreground := (scheme_foreground st)\<lparr>palette_index := - 2\<rparr>,
                 scheme_background := (scheme_background st)\<lparr>palette_index := - 3\<rparr>\<rparr>
         else st)"

section \<open>Numeric specifications\<close>

definition xdigit :: "nat \<Rightarrow> byte" where
  "xdigit n = of_nat (if n < 10 then 48 + n else 87 + n)"

definition hex2 :: "byte \<Rightarrow> byte list" where
  "hex2 b = [xdigit (unat b div 16), xdigit (unat b mod 16)]"

lemma xdigit_facts:
  assumes "n < 16"
  shows "hex_digit_val (xdigit n) = Some (int n)" "\<not> is_space (xdigit n)"
    "xdigit n \<noteq> 43" "xdigit n \<noteq> 45" "xdigit n \<noteq> 47" "xdigit n \<noteq> 120" "xdigit n \<noteq> 88" "xdigit n = 48 \<longleftrightarrow> n = 0"
proof -
  have "\<forall>k \<in> set [0..<16]. hex_digit_val (xdigit k) = Some (int k) \<and> \<not> is_space (xdigit k)
      \<and> xdigit k \<noteq> 43 \<and> xdigit k \<noteq> 45 \<and> xdigit k \<noteq> 47 \<and> xdigit k \<noteq> 120 \<and> xdigit k \<noteq> 88
      \<and> (xdigit k = 48 \<longleftrightarrow> k = 0)"
    by code_simp
  moreover have "n \<in> set [0..<16]" using assms by simp
  ultimately have "hex_digit_val (xdigit n) = Some (int n) \<and> \<not> is_space (xdigit n)
      \<and> xdigit n \<noteq> 43 \<and> xdigit n \<noteq> 45 \<and> xdigit n \<noteq> 47 \<and> xdigit n \<noteq> 120 \<and> xdigit n \<noteq> 88
      \<and> (xdigit n = 48 \<longleftrightarrow> n = 0)"
    by blast
  then show "hex_digit_val (xdigit n) = Some (int n)" "\<not> is_space (xdigit n)"
    "xdigit n \<noteq> 43" "xdigit n \<noteq> 45" "xdigit n \<noteq> 47" "xdigit n \<noteq> 120" "xdigit n \<noteq> 88" "xdigit n = 48 \<longleftrightarrow> n = 0"
    by simp_all
qed

lemma scan_hex_1:
  assumes "a < 16"
  shows "scan_hex 1 (xdigit a # rest) = Some (int a, rest)"
  using xdigit_facts[OF assms] by (simp add: scan_hex_def Let_def)

lemma scan_hex_pair:
  assumes "hex_digit_val c = Some x" "hex_digit_val d = Some y" "\<not> is_space c" "c \<noteq> 43" "c \<noteq> 45"
    "d \<noteq> 120" "d \<noteq> 88" "c = 48 \<Longrightarrow> x = 0"
  shows "scan_hex (Suc (Suc 0)) (c # d # rest) = Some (16 * x + y, rest)"
proof (cases "c = 48")
  case True
  then show ?thesis using assms by (simp add: scan_hex_def)
next
  case False
  then show ?thesis using assms by (simp add: scan_hex_def)
qed

lemma scan_hex_2:
  assumes "a < 16" and "b < 16"
  shows "scan_hex 2 (xdigit a # xdigit b # rest) = Some (16 * int a + int b, rest)"
  unfolding numeral_2_eq_2
  by (rule scan_hex_pair) (use xdigit_facts[OF assms(1)] xdigit_facts[OF assms(2)] in auto)

lemma unat_lt_byte: "unat (b :: byte) < 256"
  using unsigned_less[of b] by simp

lemma hex2_nibbles: "unat (b :: byte) div 16 < 16" "unat b mod 16 < 16"
  "16 * int (unat b div 16) + int (unat b mod 16) = uint b"
proof -
  have "unat b < 256" using unat_lt_byte[of b] by simp
  then show "unat b div 16 < 16" "unat b mod 16 < 16" by auto
  show "16 * int (unat b div 16) + int (unat b mod 16) = uint b"
    using div_mult_mod_eq[of "uint b" 16] by (simp add: zdiv_int zmod_int mult.commute)
qed

text \<open>
  A colour printed as \<open>rgb:hh/hh/hh\<close> is read back as that colour, for all of its 24 bits.
\<close>

theorem rgb_specification_roundtrip:
  "guac_terminal_xparsecolor (cstr ''rgb:'' @ hex2 r @ cstr ''/'' @ hex2 g @ cstr ''/'' @ hex2 b)
     = Some (palette_color (- 1) r g b)"
proof -
  have "scan_rgb 1 (cstr ''rgb:'' @ hex2 r @ cstr ''/'' @ hex2 g @ cstr ''/'' @ hex2 b) = None"
    using xdigit_facts(5)[OF hex2_nibbles(2)[of r]]
    by (simp add: scan_rgb_def expect_def hex2_def scan_hex_1[unfolded One_nat_def] hex2_nibbles)
  moreover have "scan_rgb 2 (cstr ''rgb:'' @ hex2 r @ cstr ''/'' @ hex2 g @ cstr ''/'' @ hex2 b)
      = Some (uint r, uint g, uint b)"
    by (simp add: scan_rgb_def expect_def hex2_def scan_hex_2 hex2_nibbles)
  ultimately show ?thesis by (simp add: guac_terminal_xparsecolor_def rgb_color_def)
qed

section \<open>Names\<close>

lemma named_search_prefix:
  assumes "guac_terminal_named_color_search key name = 0" and "0 \<notin> set name"
  shows "\<exists>rest. map tolower (filter (\<lambda>c. \<not> is_space c) key) = name @ rest"
  using assms
proof (induction key name rule: guac_terminal_named_color_search.induct)
  case (2 key n name)
  let ?k = "dropWhile is_space key"
  have key: "key \<noteq> []" using "2.prems"(1) by auto
  have "?k \<noteq> [] \<and> hd ?k \<noteq> 59"
  proof (rule ccontr)
    assume "\<not> (?k \<noteq> [] \<and> hd ?k \<noteq> 59)"
    then have "sint n = 0" using "2.prems"(1) key by (auto simp: Let_def split: if_splits)
    then show False using "2.prems"(2) signed_eq_0_iff[where 'a = int, of n] by simp
  qed
  then obtain c cs where k: "?k = c # cs" "c \<noteq> 59" by (cases ?k) auto
  then have n: "tolower c = n" and rec: "guac_terminal_named_color_search cs name = 0"
    using "2.prems"(1) key by (auto simp: Let_def signed_word_eqI split: if_splits)
  obtain rest where rest: "map tolower (filter (\<lambda>c. \<not> is_space c) cs) = name @ rest"
    using "2.IH"[OF key refl refl refl] "2.prems" k rec key by (auto simp: Let_def split: if_splits)
  have "filter (\<lambda>c. \<not> is_space c) key = filter (\<lambda>c. \<not> is_space c) ?k"
    by (induction key) auto
  moreover have "\<not> is_space c" using k(1) hd_dropWhile[of is_space key] by force
  ultimately show ?case using k(1) rest n by simp
qed simp

lemma named_colors_sound:
  assumes "guac_terminal_find_color key = Some c"
  shows "\<exists>e \<in> set GUAC_TERMINAL_NAMED_COLORS. named_value e = c
    \<and> guac_terminal_named_color_search key (named_name e) = 0"
proof -
  let ?cmp = "\<lambda>i. guac_terminal_named_color_search key (named_name (GUAC_TERMINAL_NAMED_COLORS ! i))"
  obtain i where i: "bsearch ?cmp 0 (length GUAC_TERMINAL_NAMED_COLORS) = Some i"
    "c = named_value (GUAC_TERMINAL_NAMED_COLORS ! i)"
    using assms by (auto simp: guac_terminal_find_color_def)
  with bsearch_zero[OF i(1)] show ?thesis by (metis nth_mem)
qed

lemma named_colors_no_null: "list_all (\<lambda>e. 0 \<notin> set (named_name e)) GUAC_TERMINAL_NAMED_COLORS"
  by (simp add: GUAC_TERMINAL_NAMED_COLORS_def named_colors_1_def named_colors_2_def named_colors_3_def
      named_colors_4_def named_colors_5_def named_color_def)

lemma named_colors_probed:
  "GUAC_TERMINAL_NAMED_COLORS ! 338 = named_color 0xC4 0xC4 0xC4 ''grey77''"
  "GUAC_TERMINAL_NAMED_COLORS ! 169 = named_color 0x36 0x36 0x36 ''gray21''"
  "GUAC_TERMINAL_NAMED_COLORS ! 84 = named_color 0x8B 0x00 0x8B ''darkmagenta''"
  "GUAC_TERMINAL_NAMED_COLORS ! 42 = named_color 0x98 0xF5 0xFF ''cadetblue1''"
  "GUAC_TERMINAL_NAMED_COLORS ! 63 = named_color 0xFF 0xF8 0xDC ''cornsilk1''"
  "GUAC_TERMINAL_NAMED_COLORS ! 53 = named_color 0xEE 0x76 0x21 ''chocolate2''"
  "GUAC_TERMINAL_NAMED_COLORS ! 48 = named_color 0x76 0xEE 0x00 ''chartreuse2''"
  "GUAC_TERMINAL_NAMED_COLORS ! 51 = named_color 0xD2 0x69 0x1E ''chocolate''"
  "length GUAC_TERMINAL_NAMED_COLORS = 676"
  by (simp_all add: GUAC_TERMINAL_NAMED_COLORS_def named_colors_1_def named_colors_2_def named_colors_3_def
      named_colors_4_def named_colors_5_def nth_append)

text \<open>
  A colour found by name has a name that the name looked for, without its spaces and in lower
  case, begins with. It need not be equal: the comparator takes a name of the table for equal as
  soon as it is used up, and so ''chocolate1'' is found as ''chocolate'', and not as the colour
  of its own entry in the table.
\<close>

theorem named_colors_by_prefix:
  "guac_terminal_find_color key = Some c \<Longrightarrow>
     \<exists>e \<in> set GUAC_TERMINAL_NAMED_COLORS. \<exists>rest. named_value e = c
       \<and> map tolower (filter (\<lambda>ch. \<not> is_space ch) key) = named_name e @ rest"
  using named_colors_sound[of key c] named_colors_no_null
  by (auto simp: list_all_iff dest!: named_search_prefix)

theorem chocolate1_is_chocolate:
  "guac_terminal_find_color (cstr ''chocolate1'') = Some (palette_color (- 1) 0xD2 0x69 0x1E)
   \<and> named_color 0xFF 0x7F 0x24 ''chocolate1'' \<in> set GUAC_TERMINAL_NAMED_COLORS"
proof
  show "guac_terminal_find_color (cstr ''chocolate1'') = Some (palette_color (- 1) 0xD2 0x69 0x1E)"
    by (simp add: guac_terminal_find_color_def bsearch.simps named_colors_probed named_color_def tolower_def
        is_space_def)
  show "named_color 0xFF 0x7F 0x24 ''chocolate1'' \<in> set GUAC_TERMINAL_NAMED_COLORS"
    by (simp add: GUAC_TERMINAL_NAMED_COLORS_def named_colors_1_def)
qed

section \<open>Schemes\<close>

lemma strtol10_dec_int_rest:
  assumes "rest = [] \<or> \<not> is_digit (hd rest)" and "0 \<le> i"
  shows "strtol10 (dec_int i @ rest) = (i, rest)"
proof -
  have hd: "is_digit (hd (dec_nat (nat i)))"
    by (rule dec_nat_digits[of _ "nat i"]) simp
  have "dropWhile is_space (dec_nat (nat i) @ rest) = dec_nat (nat i) @ rest"
    using digit_not_special[OF hd] by (cases "dec_nat (nat i)") auto
  moreover have "takeWhile is_digit (dec_nat (nat i) @ rest) = dec_nat (nat i)"
    "dropWhile is_digit (dec_nat (nat i) @ rest) = rest"
    using assms(1) dec_nat_digits[of _ "nat i"]
    by (cases rest; force simp: takeWhile_append dropWhile_append)+
  ultimately show ?thesis
    using assms(2) digit_not_special[OF hd] by (simp add: strtol10_def dec_int_def scan_digits_dec_nat Let_def)
qed

lemma scan_color_index_dec:
  assumes "rest = [] \<or> \<not> is_digit (hd rest)" and "0 \<le> i" and "i \<le> 255"
  shows "scan_color_index (cstr ''color'' @ dec_int i @ rest) = i"
  using strtol10_dec_int_rest[OF assms(1,2)] assms(2,3)
  by (auto simp: scan_color_index_def expect_def clamp64_def s32_def dec_int_def)

lemma strip_spaces_id:
  assumes "tx \<noteq> []" and "\<not> is_space (hd tx)" and "\<not> is_space (last tx)" and "n = length tx"
  shows "guac_terminal_color_scheme_strip_spaces (tx @ rest, n) = (tx @ rest, n)"
proof -
  have "takeWhile is_space tx = []" using assms(1,2) by (cases tx) auto
  moreover have "takeWhile is_space (rev tx) = []" using assms(1,3) by (cases tx rule: rev_cases) auto
  ultimately show ?thesis by (simp add: guac_terminal_color_scheme_strip_spaces_def assms(4))
qed

lemma dec_int_last: "0 \<le> i \<Longrightarrow> dec_int i \<noteq> [] \<and> is_digit (last (dec_int i)) \<and> \<not> is_space (last (dec_int i))"
  using dec_nat_digits[of "last (dec_nat (nat i))" "nat i"] last_in_set[of "dec_nat (nat i)"] digit_not_special
  by (simp add: dec_int_def)

lemma scheme_value_color:
  assumes "rest = [] \<or> hd rest = 59" and "0 \<le> i" and "i \<le> 255" and "n = length (cstr ''color'' @ dec_int i)"
  shows "guac_terminal_parse_color_scheme_value palette (cstr ''color'' @ dec_int i @ rest, n) = Some (palette ! nat i)"
proof -
  have r: "rest = [] \<or> \<not> is_digit (hd rest)" using assms(1) digit_not_special[of 59] by auto
  have "guac_terminal_color_scheme_strip_spaces ((cstr ''color'' @ dec_int i) @ rest, n)
      = ((cstr ''color'' @ dec_int i) @ rest, n)"
    using dec_int_last[OF assms(2)] by (intro strip_spaces_id) (auto simp: is_space_def assms(4))
  then show ?thesis
    using scan_color_index_dec[OF r assms(2,3)] assms(2,3)
    by (simp add: guac_terminal_parse_color_scheme_value_def Let_def)
qed

lemma scheme_pair_color:
  assumes "nm = cstr ''foreground'' \<and> target = Target_Foreground \<or> nm = cstr ''background'' \<and> target = Target_Background"
    and "rest = [] \<or> hd rest = 59" and "0 \<le> i" and "i \<le> 255" and "n = length (nm @ 58 # cstr ''color'' @ dec_int i)"
  shows "scheme_pair ((nm @ 58 # cstr ''color'' @ dec_int i) @ rest, n) st
    = Some (scheme_store target (scheme_palette st ! nat i) st)"
proof -
  define v where "v = cstr ''color'' @ dec_int i"
  have vlast: "v \<noteq> []" "last v = last (dec_int i)" using dec_int_last[OF assms(3)] by (auto simp: v_def)
  have n: "n = 11 + length v" using assms(1,5) by (auto simp: v_def)
  have nm: "length nm = 10" "58 \<notin> set nm" "\<not> is_space (hd nm)" "\<not> is_space (last nm)" "nm \<noteq> []"
    using assms(1) by (auto simp: is_space_def)
  have strip: "guac_terminal_color_scheme_strip_spaces ((nm @ 58 # v) @ rest, n) = ((nm @ 58 # v) @ rest, n)"
    by (rule strip_spaces_id) (use dec_int_last[OF assms(3)] vlast nm n in auto)
  have k: "takeWhile (\<lambda>c. c \<noteq> 58) (nm @ 58 # v) = nm"
    using nm(2) by (subst takeWhile_append2) auto
  have "guac_terminal_color_scheme_strip_spaces (nm @ 58 # v @ rest, 10) = (nm @ 58 # v @ rest, 10)"
    by (rule strip_spaces_id) (use nm in auto)
  then have target: "guac_terminal_parse_color_scheme_name ((nm @ 58 # v) @ rest, 10) = Some target"
    using assms(1)
    by (auto simp: guac_terminal_parse_color_scheme_name_def Let_def guac_terminal_color_scheme_compare_token_def)
  have t: "take n ((nm @ 58 # v) @ rest) = nm @ 58 # v" using n nm(1) by simp
  have "guac_terminal_parse_color_scheme_value (scheme_palette st) (v @ rest, n - 10 - 1) = Some (scheme_palette st ! nat i)"
    using scheme_value_color[OF assms(2-4), of "n - 10 - 1"] n by (simp add: v_def)
  moreover have "drop (10 + 1) ((nm @ 58 # v) @ rest) = v @ rest" using nm(1) by simp
  ultimately show ?thesis
    unfolding v_def[symmetric] scheme_pair_def strip Let_def prod.case t k nm(1)
    using target n by (simp del: append_assoc append_Cons)
qed

lemma scheme_loop_step:
  assumes "takeWhile (\<lambda>c. c \<noteq> 59) cursor = p" and "scheme_pair (cursor, length p) st = Some st'"
  shows "scheme_loop cursor st =
    (if length p < length cursor then scheme_loop (drop (length p + 1) cursor) st' else (True, st'))"
  using assms by (subst scheme_loop.simps) simp

text \<open>
  A scheme that names two colours of the palette gives the foreground and the background of
  the terminal these colours, marked as its defaults, and leaves the palette as it is.
\<close>

theorem scheme_names_palette_colors:
  assumes "0 \<le> f" and "f \<le> 255" and "0 \<le> b" and "b \<le> 255"
  shows "guac_terminal_parse_color_scheme
      (cstr ''foreground:color'' @ dec_int f @ cstr '';background:color'' @ dec_int b)
    = \<lparr>scheme_foreground = (GUAC_TERMINAL_INITIAL_PALETTE ! nat f)\<lparr>palette_index := - 2\<rparr>,
       scheme_background = (GUAC_TERMINAL_INITIAL_PALETTE ! nat b)\<lparr>palette_index := - 3\<rparr>,
       scheme_palette = GUAC_TERMINAL_INITIAL_PALETTE\<rparr>"
proof -
  let ?fg = "cstr ''foreground'' @ 58 # cstr ''color'' @ dec_int f"
  let ?bg = "cstr ''background'' @ 58 # cstr ''color'' @ dec_int b"
  have no59: "59 \<notin> set (dec_int i)" for i using dec_int_ascii[of 59 i] digit_not_special[of 59] by auto
  have fg: "takeWhile (\<lambda>c. c \<noteq> 59) (?fg @ 59 # ?bg) = ?fg"
    using no59[of f] by (subst takeWhile_append2) auto
  have bg: "takeWhile (\<lambda>c. c \<noteq> 59) ?bg = ?bg"
    using no59[of b] by (intro takeWhile_eq_all_conv[THEN iffD2]) auto
  have bgp: "scheme_pair (?bg, length ?bg) st = Some (scheme_store Target_Background (scheme_palette st ! nat b) st)" for st
    using scheme_pair_color[of "cstr ''background''" Target_Background "[]" b _ st, OF _ _ _ _ refl] assms(3,4)
    by (simp del: cstr_simps)
  have fgp: "scheme_pair (?fg @ 59 # ?bg, length ?fg) st
      = Some (scheme_store Target_Foreground (scheme_palette st ! nat f) st)" for st
    using scheme_pair_color[of "cstr ''foreground''" Target_Foreground "59 # ?bg" f _ st, OF _ _ _ _ refl] assms(1,2)
    by (simp del: cstr_simps)
  have "scheme_loop ?bg st = (True, scheme_store Target_Background (scheme_palette st ! nat b) st)" for st
    using scheme_loop_step[OF bg bgp] by simp
  moreover have "scheme_loop (?fg @ 59 # ?bg) st =
      scheme_loop ?bg (scheme_store Target_Foreground (scheme_palette st ! nat f) st)" for st
    using scheme_loop_step[OF fg fgp] by (simp del: cstr_simps)
  ultimately have loop: "scheme_loop (?fg @ 59 # ?bg) st = (True,
      scheme_store Target_Background (scheme_palette st ! nat b) (scheme_store Target_Foreground (scheme_palette st ! nat f) st))" for st
    by (simp add: scheme_store_def)
  have "cstr ''foreground:color'' @ dec_int f @ cstr '';background:color'' @ dec_int b = ?fg @ 59 # ?bg" by simp
  then show ?thesis using loop by (simp add: guac_terminal_parse_color_scheme_def Let_def scheme_store_def)
qed

theorem scheme_names_palette_colors_witness:
  "scheme_foreground (guac_terminal_parse_color_scheme
      (cstr ''foreground:color'' @ dec_int 15 @ cstr '';background:color'' @ dec_int 0))
    = palette_color (- 2) 0xFF 0xFF 0xFF"
  by (subst scheme_names_palette_colors) (simp_all add: GUAC_TERMINAL_INITIAL_PALETTE_def palette_color_def)

text \<open>
  A palette entry that a scheme sets to another entry keeps the index of that entry, and the
  display looks its colours up by their index: when the other entry is changed afterwards, text
  in the first colour is drawn in the changed colour.
\<close>

theorem aliased_color_keeps_index:
  "scheme_palette (guac_terminal_parse_color_scheme (cstr ''color5:color3;color3:rgb:ff/00/00'')) ! 5
     = GUAC_TERMINAL_INITIAL_PALETTE ! 3
   \<and> palette_index (GUAC_TERMINAL_INITIAL_PALETTE ! 3) = 3
   \<and> scheme_palette (guac_terminal_parse_color_scheme (cstr ''color5:color3;color3:rgb:ff/00/00'')) ! 3
     = palette_color (- 1) 0xFF 0 0"
  by code_simp

end
