(* ===== verification/Term_Typescript.thy ===== *)
theory Term_Typescript
  imports Guac_Format
begin

text \<open>
  The typescript of a terminal session (\<open>src/terminal/typescript.c\<close>): the output of the session goes
  to a data file in blocks, and the timing file gets a line with the delay and the size of every
  block.

  Opening the files is not modelled: a typescript starts from open files. The files are the bytes
  written to them, and writing succeeds. The clock answers with the times in \<open>ts_clock\<close>, in
  milliseconds, and stands still when they are used up.
\<close>

section \<open>Definitions\<close>

record guac_terminal_typescript =
  ts_buffer :: "byte list"
  ts_last_flush :: int
  ts_data_file :: "byte list"
  ts_timing_file :: "byte list"
  ts_clock :: "int list"

abbreviation (input) TYPESCRIPT_BUFFER_SIZE :: nat where "TYPESCRIPT_BUFFER_SIZE \<equiv> 4096"
abbreviation (input) GUAC_TERMINAL_TYPESCRIPT_MAX_DELAY :: int where "GUAC_TERMINAL_TYPESCRIPT_MAX_DELAY \<equiv> 86400000"

definition ts_now :: "guac_terminal_typescript \<Rightarrow> int \<times> guac_terminal_typescript" where
  "ts_now ts = (case ts_clock ts of [] \<Rightarrow> (ts_last_flush ts, ts) | t # clk \<Rightarrow> (t, ts\<lparr>ts_clock := clk\<rparr>))"

text \<open>The end of \<open>guac_terminal_typescript_alloc\<close>, once the files are open.\<close>

definition GUAC_TERMINAL_TYPESCRIPT_HEADER :: "byte list" where
  "GUAC_TERMINAL_TYPESCRIPT_HEADER = cstr ''[BEGIN TYPESCRIPT]'' @ [10]"

definition GUAC_TERMINAL_TYPESCRIPT_FOOTER :: "byte list" where
  "GUAC_TERMINAL_TYPESCRIPT_FOOTER = 10 # cstr ''[END TYPESCRIPT]'' @ [10]"

definition guac_terminal_typescript_alloc :: "int \<Rightarrow> int list \<Rightarrow> guac_terminal_typescript" where
  "guac_terminal_typescript_alloc now clk =
     \<lparr>ts_buffer = [], ts_last_flush = now, ts_data_file = GUAC_TERMINAL_TYPESCRIPT_HEADER,
      ts_timing_file = [], ts_clock = clk\<rparr>"

text \<open>
  \<open>printf\<close> with \<open>%0.6f\<close> of \<open>millis / 1000.0\<close>. The quotient is off from the exact one by far less than
  a millionth, so that six decimals show it exactly.
\<close>

definition printf_seconds :: "int \<Rightarrow> byte list" where
  "printf_seconds millis =
     (let m = nat \<bar>millis\<bar>;
          thousandths = dec_nat (m mod 1000 + 1000)
      in (if millis < 0 then [45] else []) @ dec_nat (m div 1000) @ [46] @ tl thousandths @ cstr ''000'')"

definition guac_terminal_typescript_flush :: "guac_terminal_typescript \<Rightarrow> guac_terminal_typescript" where
  "guac_terminal_typescript_flush ts =
     (if ts_buffer ts = [] then ts
      else
        (let (this_flush, ts) = ts_now ts;
             elapsed = s32 (this_flush - ts_last_flush ts);
             elapsed_time = (if elapsed > GUAC_TERMINAL_TYPESCRIPT_MAX_DELAY
               then GUAC_TERMINAL_TYPESCRIPT_MAX_DELAY else elapsed);
             line = snprintf 32
               (printf_seconds elapsed_time @ [32] @ dec_int (int (length (ts_buffer ts))) @ [10])
         in ts\<lparr>ts_timing_file := ts_timing_file ts @ line,
               ts_data_file := ts_data_file ts @ ts_buffer ts,
               ts_buffer := [], ts_last_flush := this_flush\<rparr>))"

definition guac_terminal_typescript_write :: "guac_terminal_typescript \<Rightarrow> byte \<Rightarrow> guac_terminal_typescript" where
  "guac_terminal_typescript_write ts c =
     (let ts = (if length (ts_buffer ts) = TYPESCRIPT_BUFFER_SIZE then guac_terminal_typescript_flush ts else ts)
      in ts\<lparr>ts_buffer := ts_buffer ts @ [c]\<rparr>)"

definition guac_terminal_typescript_free :: "guac_terminal_typescript \<Rightarrow> guac_terminal_typescript" where
  "guac_terminal_typescript_free ts =
     (let ts = guac_terminal_typescript_flush ts
      in ts\<lparr>ts_data_file := ts_data_file ts @ GUAC_TERMINAL_TYPESCRIPT_FOOTER\<rparr>)"

section \<open>What the files hold\<close>

text \<open>What a session does to its typescript: a byte of output, or the flush at the end of a frame.\<close>

datatype ts_step = Output byte | Flush

fun ts_do :: "ts_step \<Rightarrow> guac_terminal_typescript \<Rightarrow> guac_terminal_typescript" where
  "ts_do (Output c) ts = guac_terminal_typescript_write ts c"
| "ts_do Flush ts = guac_terminal_typescript_flush ts"

definition ts_session :: "ts_step list \<Rightarrow> guac_terminal_typescript \<Rightarrow> guac_terminal_typescript" where
  "ts_session steps ts = foldl (\<lambda>ts x. ts_do x ts) ts steps"

definition ts_output :: "ts_step list \<Rightarrow> byte list" where
  "ts_output steps = concat (map (\<lambda>x. case x of Output c \<Rightarrow> [c] | Flush \<Rightarrow> []) steps)"

text \<open>The line of a block: its delay in milliseconds and its size.\<close>

definition timing_line :: "int \<times> nat \<Rightarrow> byte list" where
  "timing_line b = printf_seconds (fst b) @ [32] @ dec_int (int (snd b)) @ [10]"

definition block_ok :: "int \<times> nat \<Rightarrow> bool" where
  "block_ok b \<longleftrightarrow> 0 < snd b \<and> snd b \<le> TYPESCRIPT_BUFFER_SIZE \<and> fst b \<le> GUAC_TERMINAL_TYPESCRIPT_MAX_DELAY"

definition ts_inv :: "byte list \<Rightarrow> (int \<times> nat) list \<Rightarrow> guac_terminal_typescript \<Rightarrow> bool" where
  "ts_inv out blocks ts \<longleftrightarrow>
     length (ts_buffer ts) \<le> TYPESCRIPT_BUFFER_SIZE
     \<and> ts_data_file ts @ ts_buffer ts = GUAC_TERMINAL_TYPESCRIPT_HEADER @ out
     \<and> ts_timing_file ts = concat (map timing_line blocks)
     \<and> sum_list (map snd blocks) + length (ts_buffer ts) = length out
     \<and> list_all block_ok blocks"

lemma timing_line_fits:
  assumes "in_s32 d" and "0 < n" and "n \<le> TYPESCRIPT_BUFFER_SIZE"
  shows "snprintf 32 (timing_line (d, n)) = timing_line (d, n)"
proof -
  let ?m = "nat \<bar>d\<bar>"
  have "?m < 10 ^ Suc 6 * 1000" using assms(1) by (simp add: in_s32_def nat_less_iff) linarith
  then have "?m div 1000 < 10 ^ Suc 6" by (rule less_mult_imp_div_less)
  then have "length (dec_nat (?m div 1000)) \<le> 7" using length_dec_nat by fastforce
  moreover have "?m mod 1000 + 1000 < 10 ^ Suc 3" using mod_less_divisor[of 1000 ?m] by simp
  then have "length (dec_nat (?m mod 1000 + 1000)) \<le> 4" using length_dec_nat by fastforce
  moreover have "n < 10 ^ Suc 3" using assms(3) by simp
  then have "length (dec_nat n) \<le> 4" using length_dec_nat by fastforce
  ultimately have "length (timing_line (d, n)) \<le> 31"
    by (cases "d < 0") (simp_all add: timing_line_def printf_seconds_def dec_int_def Let_def)
  then show ?thesis by (simp add: snprintf_def)
qed

lemma ts_flush_inv:
  assumes "ts_inv out blocks ts"
  shows "\<exists>blocks. ts_inv out blocks (guac_terminal_typescript_flush ts)
    \<and> ts_buffer (guac_terminal_typescript_flush ts) = []"
proof (cases "ts_buffer ts = []")
  case True
  with assms show ?thesis by (auto simp: guac_terminal_typescript_flush_def)
next
  case False
  obtain now ts1 where now: "ts_now ts = (now, ts1)" by fastforce
  then have ts1: "ts_buffer ts1 = ts_buffer ts" "ts_last_flush ts1 = ts_last_flush ts"
    "ts_data_file ts1 = ts_data_file ts" "ts_timing_file ts1 = ts_timing_file ts"
    by (auto simp: ts_now_def split: list.splits)
  let ?e = "s32 (now - ts_last_flush ts)"
  let ?b = "(if ?e > GUAC_TERMINAL_TYPESCRIPT_MAX_DELAY then GUAC_TERMINAL_TYPESCRIPT_MAX_DELAY else ?e,
    length (ts_buffer ts))"
  have "snprintf 32 (timing_line ?b) = timing_line ?b"
    using s32_range[of "now - ts_last_flush ts"] assms False
    by (intro timing_line_fits) (auto simp: in_s32_def ts_inv_def)
  moreover have "block_ok ?b" using assms False by (auto simp: block_ok_def ts_inv_def)
  ultimately have "ts_inv out (blocks @ [?b]) (guac_terminal_typescript_flush ts)"
    using assms False
    by (auto simp: ts_inv_def guac_terminal_typescript_flush_def now ts1 timing_line_def Let_def)
  moreover have "ts_buffer (guac_terminal_typescript_flush ts) = []"
    using False by (simp add: guac_terminal_typescript_flush_def now Let_def)
  ultimately show ?thesis by blast
qed

lemma ts_do_inv:
  assumes "ts_inv out blocks ts"
  shows "\<exists>blocks. ts_inv (out @ ts_output [x]) blocks (ts_do x ts)"
proof (cases x)
  case Flush
  then show ?thesis using ts_flush_inv[OF assms] by (auto simp: ts_output_def)
next
  case (Output c)
  let ?ts = "if length (ts_buffer ts) = TYPESCRIPT_BUFFER_SIZE then guac_terminal_typescript_flush ts else ts"
  obtain bs where bs: "ts_inv out bs ?ts" "length (ts_buffer ?ts) < TYPESCRIPT_BUFFER_SIZE"
  proof (cases "length (ts_buffer ts) = TYPESCRIPT_BUFFER_SIZE")
    case True
    then show thesis using ts_flush_inv[OF assms] that by auto
  next
    case False
    then show thesis using assms that[of blocks] by (auto simp: ts_inv_def)
  qed
  have "ts_inv (out @ [c]) bs (?ts\<lparr>ts_buffer := ts_buffer ?ts @ [c]\<rparr>)"
    using bs by (simp add: ts_inv_def)
  then show ?thesis
    by (auto simp: Output ts_output_def guac_terminal_typescript_write_def Let_def)
qed

lemma ts_session_inv:
  assumes "ts_inv out blocks ts"
  shows "\<exists>blocks. ts_inv (out @ ts_output steps) blocks (ts_session steps ts)"
  using assms
proof (induction steps arbitrary: out blocks ts)
  case Nil
  then show ?case by (auto simp: ts_output_def ts_session_def)
next
  case (Cons x steps)
  obtain bs where "ts_inv (out @ ts_output [x]) bs (ts_do x ts)" using ts_do_inv[OF Cons.prems] by blast
  from Cons.IH[OF this] show ?case by (simp add: ts_session_def ts_output_def)
qed

text \<open>
  C30. When a typescript is closed its data file holds the whole output of the session, in order,
  between header and footer, however the output was cut into blocks; the timing file has a line
  for every block, of at most 4096 bytes and a delay of at most a day, and the sizes of the blocks
  add up to the length of the output.
\<close>

theorem typescript_complete:
  "\<exists>blocks.
     ts_data_file (guac_terminal_typescript_free (ts_session steps (guac_terminal_typescript_alloc now clk)))
       = GUAC_TERMINAL_TYPESCRIPT_HEADER @ ts_output steps @ GUAC_TERMINAL_TYPESCRIPT_FOOTER
     \<and> ts_timing_file (guac_terminal_typescript_free (ts_session steps (guac_terminal_typescript_alloc now clk)))
       = concat (map timing_line blocks)
     \<and> sum_list (map snd blocks) = length (ts_output steps) \<and> list_all block_ok blocks"
proof -
  let ?ts = "ts_session steps (guac_terminal_typescript_alloc now clk)"
  have "ts_inv [] [] (guac_terminal_typescript_alloc now clk)"
    by (simp add: ts_inv_def guac_terminal_typescript_alloc_def)
  from ts_session_inv[OF this, of steps] obtain bs where "ts_inv (ts_output steps) bs ?ts" by auto
  from ts_flush_inv[OF this] obtain bs' where "ts_inv (ts_output steps) bs' (guac_terminal_typescript_flush ?ts)"
    "ts_buffer (guac_terminal_typescript_flush ?ts) = []"
    by blast
  then show ?thesis
    by (intro exI[of _ bs']) (simp add: guac_terminal_typescript_free_def ts_inv_def Let_def)
qed

end
