(* ===== verification/Guac_String.thy ===== *)
theory Guac_String
  imports Guac_Prelude
begin

text \<open>
  Bounded copying and joining of strings (\<open>src/libguac/string.c\<close>, the fallback for systems without
  \<open>strlcpy\<close>) and splitting of strings (\<open>src/common/string.c\<close>). A destination is the string it holds, the
  bytes before its terminator. The functions on a part \<open>dest + k\<close> of a destination take and return the string from there.
\<close>

section \<open>Definitions\<close>

text \<open>The string stored in a destination of \<open>n\<close> bytes, and the length of the whole string.\<close>

definition guac_strlcpy :: "byte list \<Rightarrow> nat \<Rightarrow> byte list \<times> int" where
  "guac_strlcpy src n = (take (n - 1) src, int (length src))"

text \<open>\<open>REMAINING\<close>: without negative values this is subtraction of natural numbers.\<close>

definition guac_strlcat :: "byte list \<Rightarrow> byte list \<Rightarrow> nat \<Rightarrow> byte list \<times> int" where
  "guac_strlcat dest src n =
     (let len = min (length dest) n;
          (tail, k) = guac_strlcpy src (n - len)
      in (take len dest @ tail, int len + k))"

primrec strljoin_loop :: "byte list \<Rightarrow> nat \<Rightarrow> byte list list \<Rightarrow> byte list \<times> int \<Rightarrow> byte list \<times> int" where
  "strljoin_loop delim n [] st = st"
| "strljoin_loop delim n (e # es) st =
     (let (dest, len) = st;
          (tail, k) = guac_strlcat (drop (nat len) dest) delim (n - nat len);
          dest = take (nat len) dest @ tail; len = len + k;
          (tail, k) = guac_strlcat (drop (nat len) dest) e (n - nat len);
          dest = take (nat len) dest @ tail; len = len + k
      in strljoin_loop delim n es (dest, len))"

definition guac_strljoin :: "byte list list \<Rightarrow> byte list \<Rightarrow> nat \<Rightarrow> byte list \<times> int" where
  "guac_strljoin elements delim n =
     (case elements of
        [] \<Rightarrow> guac_strlcpy [] n
      | e # es \<Rightarrow> strljoin_loop delim n es (guac_strlcpy e n))"

primrec guac_count_occurrences :: "byte list \<Rightarrow> byte \<Rightarrow> int" where
  "guac_count_occurrences [] c = 0"
| "guac_count_occurrences (b # bs) c = (if b = c then 1 else 0) + guac_count_occurrences bs c"

text \<open>
  The tokens, as the loop of \<open>guac_split\<close> finds them. The array has one place more than there are
  delimiters, and one for the terminator; a token that had no place would have the result \<open>None\<close>.
\<close>

function split_loop :: "byte \<Rightarrow> nat \<Rightarrow> byte list \<Rightarrow> byte list list" where
  "split_loop delim places string =
     (let token = takeWhile (\<lambda>b. b \<noteq> delim) string; rest = dropWhile (\<lambda>b. b \<noteq> delim) string
      in token # (if rest = [] then [] else if places \<le> 1 then [] else split_loop delim (places - 1) (tl rest)))"
  by pat_completeness auto
termination by (relation "measure (\<lambda>(delim, places, string). places)") auto

declare split_loop.simps [simp del]

definition guac_split :: "byte list \<Rightarrow> byte \<Rightarrow> byte list list" where
  "guac_split string delim = split_loop delim (nat (guac_count_occurrences string delim + 1)) string"

section \<open>Joining\<close>

fun join_strings :: "byte list \<Rightarrow> byte list list \<Rightarrow> byte list" where
  "join_strings delim [] = []"
| "join_strings delim [e] = e"
| "join_strings delim (e # es) = e @ delim @ join_strings delim es"

lemma join_strings_Cons:
  "join_strings delim (e # es) = e @ concat (map (\<lambda>x. delim @ x) es)"
  by (induction es arbitrary: e) auto

lemma strlcat_at:
  assumes "0 < n" and "dest = take (n - 1) s"
  shows "(case guac_strlcat (drop (length s) dest) src (n - length s) of (tail, k) \<Rightarrow>
      (take (length s) dest @ tail, int (length s) + k)) = (take (n - 1) (s @ src), int (length (s @ src)))"
proof -
  have d: "drop (length s) dest = []" "take (length s) dest = dest"
    using assms(2) by (simp_all add: min_def)
  have e: "n - length s - 1 = n - 1 - length s" by simp
  have m: "take (min (length s) (n - Suc 0)) s = take (n - Suc 0) s" by (auto simp: min_def)
  show ?thesis by (simp only: d guac_strlcat_def guac_strlcpy_def) (simp add: assms(2) e m)
qed

lemma strljoin_loop_spec:
  assumes "0 < n"
  shows "strljoin_loop delim n es (take (n - 1) s, int (length s)) =
    (take (n - 1) (s @ concat (map (\<lambda>x. delim @ x) es)), int (length (s @ concat (map (\<lambda>x. delim @ x) es))))"
proof (induction es arbitrary: s)
  case (Cons e es)
  obtain t1 k1 where 1: "guac_strlcat (drop (length s) (take (n - 1) s)) delim (n - length s) = (t1, k1)" by fastforce
  have d1: "take (length s) (take (n - 1) s) @ t1 = take (n - 1) (s @ delim)" "int (length s) + k1 = int (length (s @ delim))"
    using strlcat_at[OF assms refl, of s delim] unfolding 1 by simp_all
  let ?s = "s @ delim"
  obtain t2 k2 where 2: "guac_strlcat (drop (length ?s) (take (n - 1) ?s)) e (n - length ?s) = (t2, k2)" by fastforce
  have d2: "take (length ?s) (take (n - 1) ?s) @ t2 = take (n - 1) (?s @ e)" "int (length ?s) + k2 = int (length (?s @ e))"
    using strlcat_at[OF assms refl, of ?s e] unfolding 2 by simp_all
  have "strljoin_loop delim n (e # es) (take (n - 1) s, int (length s))
      = strljoin_loop delim n es (take (n - 1) (?s @ e), int (length (?s @ e)))"
    unfolding strljoin_loop.simps Let_def prod.case nat_int 1 d1 2 d2 ..
  with Cons.IH[of "?s @ e"] show ?case by simp
qed simp

text \<open>Joining never writes more than fits, and returns the length of the whole string.\<close>

lemma strljoin_spec:
  assumes "0 < n"
  shows "guac_strljoin es delim n = (take (n - 1) (join_strings delim es), int (length (join_strings delim es)))"
proof (cases es)
  case Nil
  then show ?thesis by (simp add: guac_strljoin_def guac_strlcpy_def)
next
  case (Cons e es')
  then show ?thesis
    using strljoin_loop_spec[OF assms, of delim es' e]
    by (simp only: guac_strljoin_def list.case join_strings_Cons guac_strlcpy_def Cons)
qed

section \<open>Splitting\<close>

lemma occurrences_filter: "guac_count_occurrences s c = int (length (filter (\<lambda>b. b = c) s))"
  by (induction s) auto

lemma split_loop_spec:
  assumes "places = length (filter (\<lambda>b. b = delim) s) + 1"
  shows "join_strings [delim] (split_loop delim places s) = s \<and> length (split_loop delim places s) = places
    \<and> (\<forall>t \<in> set (split_loop delim places s). delim \<notin> set t)"
  using assms
proof (induction delim places s rule: split_loop.induct)
  case (1 delim places s)
  let ?t = "takeWhile (\<lambda>b. b \<noteq> delim) s" and ?r = "dropWhile (\<lambda>b. b \<noteq> delim) s"
  have t: "delim \<notin> set ?t" by (auto dest: set_takeWhileD)
  show ?case
  proof (cases ?r)
    case Nil
    then have s: "?t = s" and none: "delim \<notin> set s" by (auto simp: dropWhile_eq_Nil_conv takeWhile_eq_all_conv)
    then have "filter (\<lambda>b. b = delim) s = []" by (auto simp: filter_empty_conv)
    with "1.prems" Nil t show ?thesis by (subst (1 2 3) split_loop.simps) (simp add: Let_def s)
  next
    case (Cons d r)
    then have d: "d = delim" using hd_dropWhile[of "\<lambda>b. b \<noteq> delim" s] by simp
    have s: "s = ?t @ delim # r" using takeWhile_dropWhile_id[of "\<lambda>b. b \<noteq> delim" s] Cons d by simp
    have "filter (\<lambda>b. b = delim) ?t = []" using t by (auto simp: filter_empty_conv)
    then have "length (filter (\<lambda>b. b = delim) s) = length (filter (\<lambda>b. b = delim) r) + 1"
      by (subst s) simp
    then have places: "places - 1 = length (filter (\<lambda>b. b = delim) r) + 1" "\<not> places \<le> 1" using "1.prems" by simp_all
    have IH: "join_strings [delim] (split_loop delim (places - 1) r) = r \<and> length (split_loop delim (places - 1) r) = places - 1
        \<and> (\<forall>t \<in> set (split_loop delim (places - 1) r). delim \<notin> set t)"
      using "1.IH"[OF refl refl _ places(2)] places(1) Cons by simp
    have eq: "split_loop delim places s = ?t # split_loop delim (places - 1) r"
      using Cons places(2) by (subst split_loop.simps) (simp add: Let_def)
    have ne: "split_loop delim (places - 1) r \<noteq> []" by (subst split_loop.simps) (simp add: Let_def)
    then obtain x xs where x: "split_loop delim (places - 1) r = x # xs" by (cases "split_loop delim (places - 1) r") auto
    then have "join_strings [delim] (split_loop delim places s) = ?t @ delim # r"
      using IH by (simp add: eq)
    with IH s t places(2) show ?thesis by (simp add: eq)
  qed
qed

text \<open>
  Splitting a string at a delimiter gives one token more than there are delimiters, none of them
  with a delimiter, and joining them again with it gives the string, of which as much is stored as fits.
\<close>

theorem split_then_join:
  assumes "0 < n"
  shows "guac_strljoin (guac_split s delim) [delim] n = (take (n - 1) s, int (length s))
    \<and> int (length (guac_split s delim)) = guac_count_occurrences s delim + 1
    \<and> (\<forall>t \<in> set (guac_split s delim). delim \<notin> set t)"
proof -
  have "nat (guac_count_occurrences s delim + 1) = length (filter (\<lambda>b. b = delim) s) + 1"
    by (simp add: occurrences_filter)
  from split_loop_spec[OF this] strljoin_spec[OF assms] show ?thesis
    by (simp add: guac_split_def occurrences_filter)
qed

theorem split_then_join_witness:
  "guac_strljoin (guac_split (cstr ''a,bc,'') 44) [44] 5 = (cstr ''a,bc'', 5)"
  using split_then_join[of 5 "cstr ''a,bc,''" 44] by (simp add: cstr_def)

end
