(* ===== verification/Common_Clipboard.thy ===== *)
theory Common_Clipboard
  imports Guac_Client Guac_String
begin

text \<open>
  The clipboard that the protocol plugins share (\<open>src/common/clipboard.c\<close>): a buffer of fixed size.
  Its content is the list of the \<open>length\<close> bytes in use. The lock is free between the calls and is
  not part of the state. Memory for a clipboard is granted: the code does not check it.
\<close>

section \<open>Definitions\<close>

record guac_common_clipboard =
  clip_mimetype :: "byte list"
  clip_buffer :: "byte list"
  clip_available :: int

abbreviation (input) CLIPBOARD_MIMETYPE_SIZE :: nat where "CLIPBOARD_MIMETYPE_SIZE \<equiv> 256"
abbreviation (input) GUAC_COMMON_CLIPBOARD_BLOCK_SIZE :: nat where "GUAC_COMMON_CLIPBOARD_BLOCK_SIZE \<equiv> 4096"

definition guac_common_clipboard_alloc :: "int \<Rightarrow> guac_common_clipboard" where
  "guac_common_clipboard_alloc sz = \<lparr>clip_mimetype = [], clip_buffer = [], clip_available = sz\<rparr>"

definition guac_common_clipboard_reset :: "byte list \<Rightarrow> guac_common_clipboard \<Rightarrow> guac_common_clipboard" where
  "guac_common_clipboard_reset mimetype clip =
     clip\<lparr>clip_buffer := [], clip_mimetype := fst (guac_strlcpy mimetype CLIPBOARD_MIMETYPE_SIZE)\<rparr>"

definition guac_common_clipboard_append :: "byte list \<Rightarrow> guac_common_clipboard \<Rightarrow> guac_common_clipboard" where
  "guac_common_clipboard_append data clip =
     (let remaining = clip_available clip - int (length (clip_buffer clip));
          len = (if remaining < int (length data) then remaining else int (length data))
      in clip\<lparr>clip_buffer := clip_buffer clip @ take (nat len) data\<rparr>)"

text \<open>What is sent to one user: the stream is opened, the content follows in blocks, the stream ends.\<close>

datatype clipboard_call =
    clipboard_begin int "byte list"
  | clipboard_blob int "byte list"
  | clipboard_end int

function clipboard_blocks :: "int \<Rightarrow> byte list \<Rightarrow> clipboard_call list" where
  "clipboard_blocks stream remaining =
     (if remaining = [] then []
      else
        (let block_size = (if length remaining < GUAC_COMMON_CLIPBOARD_BLOCK_SIZE then length remaining
                           else GUAC_COMMON_CLIPBOARD_BLOCK_SIZE)
         in clipboard_blob stream (take block_size remaining)
              # clipboard_blocks stream (drop block_size remaining)))"
  by pat_completeness auto
termination
  by (relation "measure (\<lambda>(stream, remaining). length remaining)") auto

declare clipboard_blocks.simps [simp del]

text \<open>\<open>None\<close> when the user has no free stream: the null pointer is used without a check.\<close>

definition send_user_clipboard ::
    "guac_common_clipboard \<Rightarrow> guac_user_indices \<Rightarrow> (clipboard_call list \<times> guac_user_indices) option" where
  "send_user_clipboard clip user =
     (case guac_user_alloc_stream user of
        (None, user) \<Rightarrow> None
      | (Some stream, user) \<Rightarrow>
          Some ([clipboard_begin stream (clip_mimetype clip)] @ clipboard_blocks stream (clip_buffer clip)
                  @ [clipboard_end stream],
                guac_user_free_stream stream user))"

section \<open>Properties\<close>

definition clipboard_ok :: "guac_common_clipboard \<Rightarrow> bool" where
  "clipboard_ok clip \<longleftrightarrow> int (length (clip_buffer clip)) \<le> clip_available clip"

lemma clipboard_append_ok:
  assumes "clipboard_ok clip"
  shows "clipboard_ok (guac_common_clipboard_append data clip)"
    and "clip_available (guac_common_clipboard_append data clip) = clip_available clip"
    and "clip_buffer (guac_common_clipboard_append data clip)
      = take (nat (clip_available clip)) (clip_buffer clip @ data)"
  using assms by (auto simp: clipboard_ok_def guac_common_clipboard_append_def Let_def nat_diff_distrib)

lemma clipboard_appends:
  assumes "clipboard_ok clip"
  shows "clipboard_ok (fold guac_common_clipboard_append blocks clip)
    \<and> clip_available (fold guac_common_clipboard_append blocks clip) = clip_available clip
    \<and> clip_buffer (fold guac_common_clipboard_append blocks clip)
      = take (nat (clip_available clip)) (clip_buffer clip @ concat blocks)"
  using assms
proof (induction blocks arbitrary: clip)
  case Nil
  then show ?case by (simp add: clipboard_ok_def)
next
  case (Cons b blocks)
  note step = clipboard_append_ok[OF Cons.prems, of b]
  have len: "length (clip_buffer clip) \<le> nat (clip_available clip)"
    using Cons.prems by (simp add: clipboard_ok_def)
  show ?case
    using Cons.IH[OF step(1)] step len by (auto simp: min_def)
qed

lemma clipboard_blocks_spec:
  "\<exists>blocks. clipboard_blocks stream d = map (clipboard_blob stream) blocks \<and> concat blocks = d
     \<and> (\<forall>b \<in> set blocks. 0 < length b \<and> length b \<le> GUAC_COMMON_CLIPBOARD_BLOCK_SIZE)"
proof (induction stream d rule: clipboard_blocks.induct)
  case (1 stream d)
  show ?case
  proof (cases "d = []")
    case True
    then show ?thesis by (intro exI[of _ "[]"]) (simp add: clipboard_blocks.simps)
  next
    case False
    let ?n = "if length d < GUAC_COMMON_CLIPBOARD_BLOCK_SIZE then length d else GUAC_COMMON_CLIPBOARD_BLOCK_SIZE"
    obtain bs where bs: "clipboard_blocks stream (drop ?n d) = map (clipboard_blob stream) bs"
      "concat bs = drop ?n d" "\<forall>b \<in> set bs. 0 < length b \<and> length b \<le> GUAC_COMMON_CLIPBOARD_BLOCK_SIZE"
      using "1.IH"[OF False refl] by blast
    have "clipboard_blocks stream d = map (clipboard_blob stream) (take ?n d # bs)"
      using False bs(1) by (subst clipboard_blocks.simps) (simp add: Let_def)
    moreover have "concat (take ?n d # bs) = d" using bs(2) by simp
    moreover have "0 < length (take ?n d)" "length (take ?n d) \<le> GUAC_COMMON_CLIPBOARD_BLOCK_SIZE"
      using False by auto
    ultimately show ?thesis using bs(3) by (intro exI[of _ "take ?n d # bs"]) auto
  qed
qed

text \<open>
  C32. Whatever is appended to a clipboard after it was reset, it holds as much of the beginning as
  its size allows; and what a user is sent is that content, in blobs of 1 to 4096 bytes in one
  stream.
\<close>

theorem clipboard_carries_text:
  assumes "clipboard_ok clip" and "send_user_clipboard
      (fold guac_common_clipboard_append blocks (guac_common_clipboard_reset mimetype clip)) user = Some (calls, user')"
  shows "\<exists>stream blobs. calls = [clipboard_begin stream (take 255 mimetype)] @ map (clipboard_blob stream) blobs
      @ [clipboard_end stream]
    \<and> concat blobs = take (nat (clip_available clip)) (concat blocks)
    \<and> (\<forall>b \<in> set blobs. 0 < length b \<and> length b \<le> 4096)"
proof -
  let ?c = "guac_common_clipboard_reset mimetype clip"
  let ?f = "fold guac_common_clipboard_append blocks ?c"
  have ok: "clipboard_ok ?c" using assms(1) by (simp add: clipboard_ok_def guac_common_clipboard_reset_def)
  have mt: "clip_mimetype (fold guac_common_clipboard_append bs c) = clip_mimetype c" for bs c
    by (induction bs arbitrary: c) (simp_all add: guac_common_clipboard_append_def Let_def)
  obtain stream where stream: "calls = [clipboard_begin stream (clip_mimetype ?f)]
      @ clipboard_blocks stream (clip_buffer ?f) @ [clipboard_end stream]"
    using assms(2) by (auto simp: send_user_clipboard_def split: prod.splits option.splits)
  obtain blobs where "clipboard_blocks stream (clip_buffer ?f) = map (clipboard_blob stream) blobs"
    "concat blobs = clip_buffer ?f" "\<forall>b \<in> set blobs. 0 < length b \<and> length b \<le> 4096"
    using clipboard_blocks_spec[of stream "clip_buffer ?f"] by blast
  moreover have "clip_buffer ?f = take (nat (clip_available clip)) (concat blocks)"
    using clipboard_appends[OF ok, of blocks] by (simp add: guac_common_clipboard_reset_def)
  ultimately show ?thesis
    by (intro exI[of _ stream] exI[of _ blobs])
      (simp add: stream mt, simp add: guac_common_clipboard_reset_def guac_strlcpy_def)
qed

theorem clipboard_carries_text_witness:
  "\<exists>stream blobs user'. send_user_clipboard
      (fold guac_common_clipboard_append [[104], [105, 106]]
        (guac_common_clipboard_reset (cstr ''text/plain'') (guac_common_clipboard_alloc 2))) guac_user_alloc_indices
      = Some ([clipboard_begin stream (cstr ''text/plain'')] @ map (clipboard_blob stream) blobs
          @ [clipboard_end stream], user')
    \<and> concat blobs = ([104, 105] :: byte list)"
proof -
  let ?f = "fold guac_common_clipboard_append [[104], [105, 106]]
    (guac_common_clipboard_reset (cstr ''text/plain'') (guac_common_clipboard_alloc 2))"
  have ok: "clipboard_ok (guac_common_clipboard_alloc 2)"
    by (simp add: clipboard_ok_def guac_common_clipboard_alloc_def)
  obtain calls user' where sent: "send_user_clipboard ?f guac_user_alloc_indices = Some (calls, user')"
    by (simp add: send_user_clipboard_def guac_user_alloc_stream_def guac_user_alloc_indices_def guac_pool_alloc_def
        guac_pool_next_int_def)
  obtain stream blobs where "calls = [clipboard_begin stream (take 255 (cstr ''text/plain''))]
      @ map (clipboard_blob stream) blobs @ [clipboard_end stream]"
    and "concat blobs = take (nat (clip_available (guac_common_clipboard_alloc 2))) (concat [[104], [105, 106]])"
    using clipboard_carries_text[OF ok sent] by blast
  with sent show ?thesis
    by (intro exI[of _ stream] exI[of _ blobs] exI[of _ user']) (simp add: guac_common_clipboard_alloc_def)
qed

end
