(* ===== verification/Term_Screen.thy ===== *)
theory Term_Screen
  imports Guac_Loop Term_Buffer Term_Display Term_Scrollbar Term_Colors Term_Typescript Common_Clipboard
begin

text \<open>
  The terminal (\<open>src/terminal/terminal.c\<close>): its state, and the operations on the screen that the
  handlers of the output call. Every change goes to the scrollback buffer, which is the content,
  and to the pending operations of the display, which shows \<open>term_height\<close> rows of it, \<open>t_scroll_offset\<close>
  rows above its end.

  The state is the record \<open>guac_terminal\<close>. The terminal has a lock, which is taken by every entry
  point and not part of the state. The modification flag \<open>t_modified\<close> wakes the rendering thread.
  Instructions and what else leaves the terminal are the list \<open>t_calls\<close>, in the order in which the
  code makes them. The pipe to the standard input of the session answers each \<open>write\<close> with the
  next result of \<open>t_stdin_results\<close>, and takes everything when these are used up.

  As in the other theories of the terminal, the result \<open>None\<close> stands for undefined behaviour.
\<close>

section \<open>State\<close>

text \<open>The functions that \<open>char_handler\<close> points to.\<close>

datatype char_handler =
    handler_echo | handler_escape | handler_g0_charset | handler_g1_charset | handler_csi
  | handler_osc | handler_download | handler_set_directory | handler_open_pipe_stream
  | handler_close_pipe_stream | handler_set_scrollback | handler_window_title
  | handler_xterm_palette | handler_ctrl_func | handler_apc

datatype guac_terminal_cursor_type =
    GUAC_TERMINAL_CURSOR_BLANK | GUAC_TERMINAL_CURSOR_IBAR | GUAC_TERMINAL_CURSOR_POINTER

datatype terminal_call =
    Display_Call display_call
  | Scrollbar_Call scrollbar_call
  | Repaint int int guac_terminal_color
  | Pipe_Open int "byte list"
  | Pipe_Blob int "byte list"
  | Pipe_End int
  | Connection_Name "byte list"
  | Upload_Path "byte list"
  | Download_File "byte list"
  | Clipboard_Broadcast
  | Mouse_Cursor guac_terminal_cursor_type
  | Mouse_Moved int int int

record guac_terminal_selection =
  sel_text_selected :: bool
  sel_committed :: bool
  sel_start_row :: int
  sel_start_column :: int
  sel_start_width :: int
  sel_end_row :: int
  sel_end_column :: int
  sel_end_width :: int

text \<open>
  The static variables of the handlers, one set for the process: a process of \<open>guacd\<close> serves one
  connection and so one terminal.
\<close>

record handler_statics =
  echo_bytes_remaining :: int
  echo_codepoint :: int
  csi_argc :: nat
  csi_argv :: "int list"
  csi_private_mode :: byte
  csi_argv_buffer :: "byte list"
  directory_filename :: "byte list"
  download_filename :: "byte list"
  pipe_param :: "byte list"
  pipe_flags :: int
  scrollback_param :: "byte list"
  title_text :: "byte list"
  palette_read_spec :: bool
  palette_color_index :: int
  palette_spec :: "byte list"
  osc_operation :: int
  apc_escaping :: bool

definition handler_statics_init :: handler_statics where
  "handler_statics_init =
     \<lparr>echo_bytes_remaining = 0, echo_codepoint = 0, csi_argc = 0, csi_argv = replicate 16 0,
      csi_private_mode = 0, csi_argv_buffer = [], directory_filename = [], download_filename = [],
      pipe_param = [], pipe_flags = 0, scrollback_param = [], title_text = [],
      palette_read_spec = False, palette_color_index = 0, palette_spec = [], osc_operation = 0,
      apc_escaping = False\<rparr>"

record guac_terminal_input =
  in_started :: bool
  in_stream_open :: bool
  in_mod_alt :: bool
  in_mod_ctrl :: bool
  in_mod_shift :: bool
  in_mouse_mask :: int
  in_cursor :: guac_terminal_cursor_type
  in_backspace :: byte

record guac_terminal =
  t_calls :: "terminal_call list"
  t_modified :: bool
  t_stdin :: "byte list"
  t_stdin_results :: "int list"
  t_client :: guac_client_indices
  t_pipe_stream :: "int option"
  t_pipe_stream_flags :: int
  t_pipe_buffer :: "byte list"
  t_typescript :: "guac_terminal_typescript option"
  t_scroll_offset :: int
  t_max_scrollback :: int
  t_requested_scrollback :: int
  t_outer_width :: int
  t_outer_height :: int
  t_pixel_width :: int
  t_pixel_height :: int
  term_width :: int
  term_height :: int
  t_scroll_start :: int
  t_scroll_end :: int
  t_cursor_row :: int
  t_cursor_col :: int
  t_visible_cursor_row :: int
  t_visible_cursor_col :: int
  t_saved_cursor_row :: int
  t_saved_cursor_col :: int
  t_current_attributes :: guac_terminal_attributes
  t_default_char :: guac_terminal_char
  t_buffer :: guac_terminal_buffer
  t_display :: guac_terminal_display
  t_scrollbar :: guac_terminal_scrollbar
  t_tab_interval :: int
  t_custom_tabs :: "int list"
  t_char_mapping :: "int list option list"
  t_active_char_set :: nat
  t_char_handler :: char_handler
  t_statics :: handler_statics
  t_selection :: guac_terminal_selection
  t_application_cursor_keys :: bool
  t_automatic_carriage_return :: bool
  t_insert_mode :: bool
  t_clipboard :: guac_common_clipboard
  t_input :: guac_terminal_input

abbreviation (input) GUAC_TERMINAL_MAX_ROWS :: int where "GUAC_TERMINAL_MAX_ROWS \<equiv> 1024"
abbreviation (input) GUAC_TERMINAL_MAX_COLUMNS :: int where "GUAC_TERMINAL_MAX_COLUMNS \<equiv> 1024"
abbreviation (input) GUAC_TERMINAL_MAX_TABS :: nat where "GUAC_TERMINAL_MAX_TABS \<equiv> 16"

definition emit :: "terminal_call list \<Rightarrow> guac_terminal \<Rightarrow> guac_terminal" where
  "emit calls term = term\<lparr>t_calls := t_calls term @ calls\<rparr>"

definition guac_terminal_notify :: "guac_terminal \<Rightarrow> guac_terminal" where
  "guac_terminal_notify term = term\<lparr>t_modified := True\<rparr>"

text \<open>Running an operation of the display or of the buffer on the terminal's.\<close>

definition on_disp ::
    "(guac_terminal_display \<Rightarrow> guac_terminal_display option) \<Rightarrow> guac_terminal \<Rightarrow> guac_terminal option" where
  "on_disp f term = do { d \<leftarrow> f (t_display term); Some (term\<lparr>t_display := d\<rparr>) }"

definition on_buf ::
    "(guac_terminal_buffer \<Rightarrow> guac_terminal_buffer option) \<Rightarrow> guac_terminal \<Rightarrow> guac_terminal option" where
  "on_buf f term = do { buf \<leftarrow> f (t_buffer term); Some (term\<lparr>t_buffer := buf\<rparr>) }"

definition term_get_row :: "int \<Rightarrow> int \<Rightarrow> guac_terminal \<Rightarrow> (nat \<times> guac_terminal) option" where
  "term_get_row row width term =
     do {
       (index, buf) \<leftarrow> guac_terminal_buffer_get_row (t_buffer term) row width;
       Some (index, term\<lparr>t_buffer := buf\<rparr>)
     }"

abbreviation row_at :: "nat \<Rightarrow> guac_terminal \<Rightarrow> guac_terminal_buffer_row" where
  "row_at index term \<equiv> buf_rows (t_buffer term) ! index"

section \<open>The selection as far as output changes it\<close>

text \<open>\<open>src/terminal/select.c\<close>\<close>

definition guac_terminal_select_normalized_range :: "guac_terminal_selection \<Rightarrow> int \<times> int \<times> int \<times> int" where
  "guac_terminal_select_normalized_range s =
     (if sel_start_row s < sel_end_row s
         \<or> (sel_start_row s = sel_end_row s \<and> sel_start_column s < sel_end_column s)
      then (sel_start_row s, sel_start_column s, sel_end_row s, sel_end_column s + sel_end_width s - 1)
      else (sel_end_row s, sel_end_column s, sel_start_row s, sel_start_column s + sel_start_width s - 1))"

definition guac_terminal_select_contains ::
    "guac_terminal_selection \<Rightarrow> int \<Rightarrow> int \<Rightarrow> int \<Rightarrow> int \<Rightarrow> bool" where
  "guac_terminal_select_contains s start_row start_column end_row end_column =
     (if \<not> sel_text_selected s then False
      else
        (case guac_terminal_select_normalized_range s of (s_row, s_column, e_row, e_column) \<Rightarrow>
           if start_row > e_row then False
           else if start_row = e_row \<and> start_column > e_column then False
           else if end_row < s_row then False
           else if end_row = s_row \<and> end_column < s_column then False
           else True))"

definition guac_terminal_select_touch :: "int \<Rightarrow> int \<Rightarrow> int \<Rightarrow> int \<Rightarrow> guac_terminal \<Rightarrow> guac_terminal" where
  "guac_terminal_select_touch start_row start_column end_row end_column term =
     (if \<not> sel_committed (t_selection term) then term
      else if guac_terminal_select_contains (t_selection term) start_row start_column end_row end_column
      then guac_terminal_notify
             (term\<lparr>t_selection := (t_selection term)\<lparr>sel_text_selected := False, sel_committed := False\<rparr>\<rparr>)
      else term)"

section \<open>Characters and ranges of columns\<close>

text \<open>\<open>__guac_terminal_set_columns\<close>\<close>

definition internal_set_columns ::
    "int \<Rightarrow> int \<Rightarrow> int \<Rightarrow> guac_terminal_char \<Rightarrow> guac_terminal \<Rightarrow> guac_terminal option" where
  "internal_set_columns row start_column end_column c term =
     do {
       term \<leftarrow> on_disp (\<lambda>d. guac_terminal_display_set_columns d (row + t_scroll_offset term)
                            start_column end_column c) term;
       term \<leftarrow> on_buf (\<lambda>buf. guac_terminal_buffer_set_columns buf row start_column end_column c) term;
       Some (guac_terminal_select_touch row start_column row end_column term)
     }"

text \<open>
  The loops that look for the first column of the character at a column, and for the last.
\<close>

function char_start :: "guac_terminal_char option list \<Rightarrow> int \<Rightarrow> int option" where
  "char_start cells column =
     do {
       c \<leftarrow> cell_get cells column;
       if column > 0 \<and> ch_value c = GUAC_CHAR_CONTINUATION then char_start cells (column - 1) else Some column
     }"
  by pat_completeness auto
termination
  by (relation "measure (\<lambda>(cells, column). nat column)") auto

declare char_start.simps [simp del]

function char_end :: "guac_terminal_char option list \<Rightarrow> int \<Rightarrow> int \<Rightarrow> int option" where
  "char_end cells len column =
     (if column + 1 < len
      then do {
        c \<leftarrow> cell_get cells (column + 1);
        if ch_value c = GUAC_CHAR_CONTINUATION then char_end cells len (column + 1) else Some column
      }
      else Some column)"
  by pat_completeness auto
termination
  by (relation "measure (\<lambda>(cells, len, column). nat (len - column))") auto

declare char_end.simps [simp del]

text \<open>
  The common end of both halves of \<open>__guac_terminal_force_break\<close>: a character broken by the edge is
  replaced by blanks from \<open>start_column\<close> to \<open>end_column\<close>.
\<close>

definition clear_if_broken :: "int \<Rightarrow> nat \<Rightarrow> int \<Rightarrow> int \<Rightarrow> guac_terminal \<Rightarrow> guac_terminal option" where
  "clear_if_broken row index start_column end_column term =
     (let cells = row_characters (row_at index term)
      in do {
        c \<leftarrow> cell_get cells start_column;
        let start_column =
          (if ch_value c \<noteq> GUAC_CHAR_CONTINUATION \<and> ch_width c < end_column - start_column + 1
           then start_column + ch_width c else start_column);
        c \<leftarrow> cell_get cells start_column;
        if ch_value c = GUAC_CHAR_CONTINUATION \<or> ch_width c \<noteq> end_column - start_column + 1
        then internal_set_columns row start_column end_column
               \<lparr>ch_value = 32, ch_attributes = ch_attributes c, ch_width = 1\<rparr> term
        else Some term
      })"

text \<open>\<open>__guac_terminal_force_break\<close>\<close>

definition force_break :: "int \<Rightarrow> int \<Rightarrow> guac_terminal \<Rightarrow> guac_terminal option" where
  "force_break row edge term =
     do {
       (index, term) \<leftarrow> term_get_row row 0 term;
       term \<leftarrow>
         (if edge > 0
          then do {
            start_column \<leftarrow> char_start (row_characters (row_at index term)) (edge - 1);
            clear_if_broken row index start_column (edge - 1) term
          }
          else Some term);
       (if edge \<ge> 0 \<and> edge < row_length (row_at index term)
        then do {
          end_column \<leftarrow> char_end (row_characters (row_at index term)) (row_length (row_at index term)) edge;
          clear_if_broken row index edge end_column term
        }
        else Some term)
     }"

definition guac_terminal_set_columns ::
    "int \<Rightarrow> int \<Rightarrow> int \<Rightarrow> guac_terminal_char \<Rightarrow> guac_terminal \<Rightarrow> guac_terminal option" where
  "guac_terminal_set_columns row start_column end_column c term =
     do {
       term \<leftarrow> internal_set_columns row start_column end_column c term;
       term \<leftarrow>
         (if row = t_visible_cursor_row term \<and> t_visible_cursor_col term \<ge> start_column
             \<and> t_visible_cursor_col term \<le> end_column
          then internal_set_columns row (t_visible_cursor_col term) (t_visible_cursor_col term)
                 (c\<lparr>ch_attributes := (ch_attributes c)\<lparr>at_cursor := True\<rparr>\<rparr>) term
          else Some term);
       term \<leftarrow> force_break row start_column term;
       force_break row (end_column + 1) term
     }"

text \<open>The width of a code point is \<open>wcwidth\<close> of the C library, a parameter.\<close>

definition guac_terminal_set :: "(int \<Rightarrow> int) \<Rightarrow> int \<Rightarrow> int \<Rightarrow> int \<Rightarrow> guac_terminal \<Rightarrow> guac_terminal option" where
  "guac_terminal_set wcwidth row col codepoint term =
     (let width = (if wcwidth codepoint < 0 then 1 else wcwidth codepoint)
      in if width = 0 then Some term
         else guac_terminal_set_columns row col (col + width - 1)
                \<lparr>ch_value = codepoint, ch_attributes = t_current_attributes term, ch_width = width\<rparr> term)"

definition guac_terminal_clear_columns :: "int \<Rightarrow> int \<Rightarrow> int \<Rightarrow> guac_terminal \<Rightarrow> guac_terminal option" where
  "guac_terminal_clear_columns row start_col end_col term =
     guac_terminal_set_columns row start_col end_col
       \<lparr>ch_value = 0, ch_attributes = t_current_attributes term, ch_width = 1\<rparr> term"

definition guac_terminal_clear_range ::
    "int \<Rightarrow> int \<Rightarrow> int \<Rightarrow> int \<Rightarrow> guac_terminal \<Rightarrow> guac_terminal option" where
  "guac_terminal_clear_range start_row start_col end_row end_col term =
     do {
       (start_row, term) \<leftarrow>
         (if start_col > 0
          then do {
            term \<leftarrow> guac_terminal_clear_columns start_row start_col (term_width term - 1) term;
            Some (start_row + 1, term)
          }
          else Some (start_row, term));
       (end_row, term) \<leftarrow>
         (if end_col < term_width term - 1
          then do {
            term \<leftarrow> guac_terminal_clear_columns end_row 0 end_col term;
            Some (end_row - 1, term)
          }
          else Some (end_row, term));
       each (\<lambda>row term. guac_terminal_clear_columns row 0 (term_width term - 1) term) [start_row..end_row] term
     }"

section \<open>Copying\<close>

definition guac_terminal_copy_columns :: "int \<Rightarrow> int \<Rightarrow> int \<Rightarrow> int \<Rightarrow> guac_terminal \<Rightarrow> guac_terminal option" where
  "guac_terminal_copy_columns row start_column end_column offset term =
     do {
       term \<leftarrow> on_disp (\<lambda>d. guac_terminal_display_copy_columns d (row + t_scroll_offset term)
                            start_column end_column offset) term;
       term \<leftarrow> on_buf (\<lambda>buf. guac_terminal_buffer_copy_columns buf row start_column end_column offset) term;
       let term = guac_terminal_select_touch row start_column row end_column term;
       let term =
         (if row = t_visible_cursor_row term \<and> t_visible_cursor_col term \<ge> start_column
             \<and> t_visible_cursor_col term \<le> end_column
          then term\<lparr>t_visible_cursor_col := t_visible_cursor_col term + offset\<rparr> else term);
       term \<leftarrow> force_break row (start_column + offset) term;
       force_break row (end_column + offset + 1) term
     }"

definition guac_terminal_copy_rows :: "int \<Rightarrow> int \<Rightarrow> int \<Rightarrow> guac_terminal \<Rightarrow> guac_terminal option" where
  "guac_terminal_copy_rows start_row end_row offset term =
     do {
       term \<leftarrow> on_disp (\<lambda>d. guac_terminal_display_copy_rows d (start_row + t_scroll_offset term)
                            (end_row + t_scroll_offset term) offset) term;
       term \<leftarrow> on_buf (\<lambda>buf. guac_terminal_buffer_copy_rows buf start_row end_row offset) term;
       let term = guac_terminal_select_touch start_row 0 end_row (term_width term) term;
       Some (if t_visible_cursor_row term \<ge> start_row \<and> t_visible_cursor_row term \<le> end_row
             then term\<lparr>t_visible_cursor_row := t_visible_cursor_row term + offset\<rparr> else term)
     }"

section \<open>Scrolling\<close>

definition guac_terminal_effective_buffer_length :: "guac_terminal \<Rightarrow> int" where
  "guac_terminal_effective_buffer_length term =
     (let requested = t_requested_scrollback term;
          scrollback = (if requested > t_max_scrollback term then t_max_scrollback term
                        else if requested < term_height term then term_height term else requested)
      in if buf_length (t_buffer term) > scrollback then scrollback else buf_length (t_buffer term))"

definition guac_terminal_available_scroll :: "guac_terminal \<Rightarrow> int" where
  "guac_terminal_available_scroll term = guac_terminal_effective_buffer_length term - term_height term"

definition scrollbar_refit :: "guac_terminal \<Rightarrow> guac_terminal" where
  "scrollbar_refit term =
     term\<lparr>t_scrollbar := guac_terminal_scrollbar_set_bounds (- guac_terminal_available_scroll term) 0
            (t_scrollbar term)\<rparr>"

definition scrollbar_follow :: "guac_terminal \<Rightarrow> guac_terminal" where
  "scrollbar_follow term =
     term\<lparr>t_scrollbar := guac_terminal_scrollbar_set_value (- t_scroll_offset term) (t_scrollbar term)\<rparr>"

text \<open>The ring of the buffer advances when the whole screen scrolls up.\<close>

definition buffer_advance :: "int \<Rightarrow> guac_terminal_buffer \<Rightarrow> guac_terminal_buffer" where
  "buffer_advance amount buf =
     (let top = buf_top buf + amount; len = buf_length buf + amount
      in buf\<lparr>buf_top := (if top \<ge> buf_available buf then top - buf_available buf else top),
             buf_length := (if len > buf_available buf then buf_available buf else len)\<rparr>)"

definition guac_terminal_scroll_up :: "int \<Rightarrow> int \<Rightarrow> int \<Rightarrow> guac_terminal \<Rightarrow> guac_terminal option" where
  "guac_terminal_scroll_up start_row end_row amount term =
     do {
       term \<leftarrow>
         (if start_row = 0 \<and> end_row = term_height term - 1
          then do {
            term \<leftarrow> on_disp (\<lambda>d. guac_terminal_display_copy_rows d (start_row + amount) end_row (- amount)) term;
            let term = scrollbar_refit (term\<lparr>t_buffer := buffer_advance amount (t_buffer term)\<rparr>);
            let term =
              (if t_visible_cursor_row term \<ge> start_row \<and> t_visible_cursor_row term \<le> end_row
               then term\<lparr>t_visible_cursor_row := t_visible_cursor_row term - amount\<rparr> else term);
            Some (if sel_text_selected (t_selection term)
                  then term\<lparr>t_selection := (t_selection term)
                         \<lparr>sel_start_row := sel_start_row (t_selection term) - amount,
                          sel_end_row := sel_end_row (t_selection term) - amount\<rparr>\<rparr>
                  else term)
          }
          else guac_terminal_copy_rows (start_row + amount) end_row (- amount) term);
       guac_terminal_clear_range (end_row - amount + 1) 0 end_row (term_width term - 1) term
     }"

definition guac_terminal_scroll_down :: "int \<Rightarrow> int \<Rightarrow> int \<Rightarrow> guac_terminal \<Rightarrow> guac_terminal option" where
  "guac_terminal_scroll_down start_row end_row amount term =
     do {
       term \<leftarrow> guac_terminal_copy_rows start_row (end_row - amount) amount term;
       guac_terminal_clear_range start_row 0 (start_row + amount - 1) (term_width term - 1) term
     }"

section \<open>Creation and reset\<close>

text \<open>
  The metrics of a font, its width and height in pixels, are the answer of the font library:
  \<open>None\<close> when it has no such font.
\<close>

definition guac_terminal_display_set_font ::
    "(int \<times> int) option \<Rightarrow> guac_terminal_display \<Rightarrow> int \<times> display_call list \<times> guac_terminal_display" where
  "guac_terminal_display_set_font metrics d =
     (case metrics of
        None \<Rightarrow> (1, [], d)
      | Some (cw, ch) \<Rightarrow>
          (let pixel_width = disp_width d * disp_char_width d;
               pixel_height = disp_height d * disp_char_height d;
               d = d\<lparr>disp_char_width := cw, disp_char_height := ch\<rparr>;
               new_width = c_div pixel_width cw; new_height = c_div pixel_height ch;
               (calls, d) = (if new_width \<noteq> disp_width d \<or> new_height \<noteq> disp_height d
                  then guac_terminal_display_resize new_width new_height d else ([], d))
           in (0, calls, d)))"

text \<open>The palette of a new display is not initialised; here it is the default palette.\<close>

definition guac_terminal_display_alloc ::
    "(int \<times> int) option \<Rightarrow> guac_terminal_color \<Rightarrow> guac_terminal_color \<Rightarrow> guac_terminal_color list
      \<Rightarrow> guac_terminal_display option" where
  "guac_terminal_display_alloc metrics foreground background palette =
     (let d = \<lparr>disp_operations = [], disp_width = 0, disp_height = 0, disp_char_width = 0,
          disp_char_height = 0, disp_palette = palette, disp_default_palette = Some palette,
          disp_default_foreground = foreground, disp_default_background = background,
          disp_glyph_foreground = foreground, disp_glyph_background = background,
          disp_text_selected = False, disp_selection_start_row = 0, disp_selection_start_column = 0,
          disp_selection_end_row = 0, disp_selection_end_column = 0\<rparr>
      in case guac_terminal_display_set_font metrics d of
           (r, calls, d) \<Rightarrow> if r \<noteq> 0 then None else Some d)"

definition guac_terminal_reset :: "guac_terminal \<Rightarrow> guac_terminal option" where
  "guac_terminal_reset term =
     (let term = term\<lparr>t_char_handler := handler_echo, t_active_char_set := 0,
            t_char_mapping := [None, None],
            t_cursor_row := 0, t_visible_cursor_row := 0, t_saved_cursor_row := 0,
            t_cursor_col := 0, t_visible_cursor_col := 0, t_saved_cursor_col := 0,
            t_buffer := (t_buffer term)\<lparr>buf_top := 0, buf_length := 0\<rparr>,
            t_scroll_start := 0, t_scroll_end := term_height term - 1, t_scroll_offset := 0\<rparr>;
          term = scrollbar_follow
            (term\<lparr>t_scrollbar := guac_terminal_scrollbar_set_bounds 0 0 (t_scrollbar term)\<rparr>);
          term = term\<lparr>
            t_selection := (t_selection term)\<lparr>sel_text_selected := False, sel_committed := False\<rparr>,
            t_application_cursor_keys := False, t_automatic_carriage_return := False,
            t_insert_mode := False, t_tab_interval := 8,
            t_custom_tabs := replicate GUAC_TERMINAL_MAX_TABS 0,
            t_current_attributes := ch_attributes (t_default_char term),
            t_display := guac_terminal_display_reset_palette GUAC_TERMINAL_INITIAL_PALETTE (t_display term)\<rparr>
      in each (\<lambda>row term. guac_terminal_set_columns row 0 (term_width term) (t_default_char term) term)
           [0..term_height term - 1] term)"

text \<open>\<open>guac_terminal_repaint_default_layer\<close>: the size and the colour of the default layer.\<close>

definition guac_terminal_repaint_default_layer :: "guac_terminal \<Rightarrow> guac_terminal" where
  "guac_terminal_repaint_default_layer term =
     emit [Repaint (t_pixel_width term) (t_pixel_height term) (disp_default_background (t_display term))] term"

text \<open>The rows and columns of an area in pixels, and the pixels they use.\<close>

definition fit_dimensions :: "guac_terminal_display \<Rightarrow> int \<Rightarrow> int \<Rightarrow> int \<times> int \<times> int \<times> int" where
  "fit_dimensions d width height =
     (let available_width = (if width - GUAC_TERMINAL_SCROLLBAR_WIDTH < 0 then 0
                             else width - GUAC_TERMINAL_SCROLLBAR_WIDTH);
          rows = c_div height (disp_char_height d);
          columns = c_div available_width (disp_char_width d);
          (rows, height) = (if rows > GUAC_TERMINAL_MAX_ROWS
             then (GUAC_TERMINAL_MAX_ROWS, GUAC_TERMINAL_MAX_ROWS * disp_char_height d) else (rows, height));
          (columns, width) = (if columns > GUAC_TERMINAL_MAX_COLUMNS
             then (GUAC_TERMINAL_MAX_COLUMNS,
                   GUAC_TERMINAL_MAX_COLUMNS * disp_char_width d + GUAC_TERMINAL_SCROLLBAR_WIDTH)
             else (columns, width))
      in (rows, columns, width, height))"

text \<open>
  \<open>guac_terminal_create\<close>, for a clipboard and the indices of a client; the pipe to the standard input
  can be opened, and starting the rendering thread succeeds. \<open>mouse_mask\<close> and the flags of the pipe
  stream are not initialised; here they are 0. The inner \<open>None\<close> is a failure the code reports.
\<close>

definition default_attributes :: "color_scheme \<Rightarrow> guac_terminal_attributes" where
  "default_attributes colors =
     \<lparr>at_bold = False, at_half_bright = False, at_reverse = False, at_cursor = False, at_underscore = False,
      at_foreground = scheme_foreground colors, at_background = scheme_background colors\<rparr>"

definition guac_terminal_create ::
    "guac_client_indices \<Rightarrow> guac_common_clipboard \<Rightarrow> int \<Rightarrow> (int \<times> int) option \<Rightarrow> int \<Rightarrow> int
      \<Rightarrow> byte list \<Rightarrow> byte \<Rightarrow> guac_terminal option option" where
  "guac_terminal_create client clipboard max_scrollback metrics width height color_scheme backspace =
     (let colors = guac_terminal_parse_color_scheme color_scheme;
          default_char = \<lparr>ch_value = 0, ch_attributes = default_attributes colors, ch_width = 1\<rparr>;
          initial_scrollback = (if max_scrollback < GUAC_TERMINAL_MAX_ROWS then GUAC_TERMINAL_MAX_ROWS
            else max_scrollback)
      in case guac_terminal_display_alloc metrics (scheme_foreground colors) (scheme_background colors)
                (scheme_palette colors) of
           None \<Rightarrow> Some None
         | Some display \<Rightarrow>
             (if disp_char_height display = 0 \<or> disp_char_width display = 0 then None
              else
                (let (rows, columns, px_width, px_height) = fit_dimensions display width height;
                     (calls, display) = guac_terminal_display_resize columns rows display;
                     term = \<lparr>t_calls = [], t_modified = False, t_stdin = [], t_stdin_results = [],
                       t_client = client, t_pipe_stream = None, t_pipe_stream_flags = 0, t_pipe_buffer = [],
                       t_typescript = None, t_scroll_offset = 0, t_max_scrollback = max_scrollback,
                       t_requested_scrollback = max_scrollback, t_outer_width = width,
                       t_outer_height = height, t_pixel_width = px_width, t_pixel_height = px_height,
                       term_width = columns, term_height = rows, t_scroll_start = 0,
                       t_scroll_end = rows - 1, t_cursor_row = 0, t_cursor_col = 0,
                       t_visible_cursor_row = 0, t_visible_cursor_col = 0, t_saved_cursor_row = 0,
                       t_saved_cursor_col = 0, t_current_attributes = default_attributes colors,
                       t_default_char = default_char,
                       t_buffer = guac_terminal_buffer_alloc initial_scrollback default_char,
                       t_display = display,
                       t_scrollbar = guac_terminal_scrollbar_alloc px_width px_height rows,
                       t_tab_interval = 8, t_custom_tabs = replicate GUAC_TERMINAL_MAX_TABS 0,
                       t_char_mapping = [None, None], t_active_char_set = 0,
                       t_char_handler = handler_echo, t_statics = handler_statics_init,
                       t_selection = \<lparr>sel_text_selected = False, sel_committed = False, sel_start_row = 0,
                         sel_start_column = 0, sel_start_width = 0, sel_end_row = 0, sel_end_column = 0,
                         sel_end_width = 0\<rparr>,
                       t_application_cursor_keys = False, t_automatic_carriage_return = False,
                       t_insert_mode = False, t_clipboard = clipboard,
                       t_input = \<lparr>in_started = False, in_stream_open = False, in_mod_alt = False,
                         in_mod_ctrl = False, in_mod_shift = False, in_mouse_mask = 0,
                         in_cursor = GUAC_TERMINAL_CURSOR_BLANK, in_backspace = backspace\<rparr>\<rparr>
                 in map_option (\<lambda>term. Some (emit [Mouse_Cursor GUAC_TERMINAL_CURSOR_BLANK] term))
                      (guac_terminal_reset
                        (emit (map Display_Call calls) (guac_terminal_repaint_default_layer term))))))"

section \<open>The cursor\<close>

definition set_cursor_flag :: "nat \<Rightarrow> int \<Rightarrow> int \<Rightarrow> bool \<Rightarrow> guac_terminal \<Rightarrow> guac_terminal option" where
  "set_cursor_flag index row col flag term =
     do {
       c \<leftarrow> cell_get (row_characters (row_at index term)) col;
       let c = c\<lparr>ch_attributes := (ch_attributes c)\<lparr>at_cursor := flag\<rparr>\<rparr>;
       cells \<leftarrow> block_put (row_characters (row_at index term)) col [Some c];
       let term = term\<lparr>t_buffer := buffer_put index ((row_at index term)\<lparr>row_characters := cells\<rparr>)
                         (t_buffer term)\<rparr>;
       on_disp (\<lambda>d. guac_terminal_display_set_columns d (row + t_scroll_offset term) col col c) term
     }"

definition guac_terminal_commit_cursor :: "guac_terminal \<Rightarrow> guac_terminal option" where
  "guac_terminal_commit_cursor term =
     (if t_visible_cursor_row term = t_cursor_row term \<and> t_visible_cursor_col term = t_cursor_col term
      then Some term
      else do {
        (new_row, term) \<leftarrow> term_get_row (t_cursor_row term) (t_cursor_col term + 1) term;
        (old_row, term) \<leftarrow> term_get_row (t_visible_cursor_row term) (t_visible_cursor_col term + 1) term;
        term \<leftarrow> set_cursor_flag old_row (t_visible_cursor_row term) (t_visible_cursor_col term) False term;
        term \<leftarrow> set_cursor_flag new_row (t_cursor_row term) (t_cursor_col term) True term;
        Some (term\<lparr>t_visible_cursor_row := t_cursor_row term, t_visible_cursor_col := t_cursor_col term\<rparr>)
      })"

section \<open>Scrolling the display\<close>

definition guac_terminal_is_visible :: "guac_terminal \<Rightarrow> guac_terminal_char \<Rightarrow> bool" where
  "guac_terminal_is_visible term c =
     (if ch_value c = GUAC_CHAR_CONTINUATION then False
      else if guac_terminal_has_glyph (ch_value c) then True
      else guac_terminal_colorcmp (clear_color c) (at_background (ch_attributes (t_default_char term))) \<noteq> 0)"

text \<open>The loop that draws the cells of a row that show something.\<close>

definition draw_cells :: "nat \<Rightarrow> int \<Rightarrow> int list \<Rightarrow> guac_terminal \<Rightarrow> guac_terminal option" where
  "draw_cells index dest_row cols term =
     each (\<lambda>column term. do {
             c \<leftarrow> cell_get (row_characters (row_at index term)) column;
             if guac_terminal_is_visible term c
             then on_disp (\<lambda>d. guac_terminal_display_set_columns d dest_row column column c) term
             else Some term
           }) cols term"

text \<open>One round of the loops that draw rows of the scrollback: the row \<open>row\<close> on \<open>dest_row\<close>.\<close>

definition draw_scrollback_row :: "int \<Rightarrow> int \<Rightarrow> guac_terminal \<Rightarrow> guac_terminal option" where
  "draw_scrollback_row row dest_row term =
     do {
       (index, term) \<leftarrow> term_get_row row 0 term;
       term \<leftarrow> on_disp (\<lambda>d. guac_terminal_display_set_columns d dest_row 0 (disp_width (t_display term))
                            (t_default_char term)) term;
       draw_cells index dest_row [0..row_length (row_at index term) - 1] term
     }"

definition guac_terminal_scroll_display_down :: "int \<Rightarrow> guac_terminal \<Rightarrow> guac_terminal option" where
  "guac_terminal_scroll_display_down amount term =
     (let scroll_amount = (if amount > t_scroll_offset term then t_scroll_offset term else amount)
      in if scroll_amount \<le> 0 then Some term
         else do {
           term \<leftarrow>
             (if term_height term > scroll_amount
              then on_disp (\<lambda>d. guac_terminal_display_copy_rows d scroll_amount (term_height term - 1)
                                  (- scroll_amount)) term
              else Some term);
           let term = scrollbar_follow (term\<lparr>t_scroll_offset := t_scroll_offset term - scroll_amount\<rparr>);
           let end_row = term_height term - t_scroll_offset term - 1;
           let start_row = end_row - scroll_amount + 1;
           let dest_row = term_height term - scroll_amount;
           term \<leftarrow> each (\<lambda>row. draw_scrollback_row row (dest_row + (row - start_row))) [start_row..end_row] term;
           Some (guac_terminal_notify term)
         })"

definition guac_terminal_scroll_display_up :: "int \<Rightarrow> guac_terminal \<Rightarrow> guac_terminal option" where
  "guac_terminal_scroll_display_up amount term =
     (let available_scroll = guac_terminal_available_scroll term;
          scroll_amount = (if t_scroll_offset term + amount > available_scroll
            then available_scroll - t_scroll_offset term else amount)
      in if scroll_amount \<le> 0 then Some term
         else do {
           term \<leftarrow>
             (if term_height term > scroll_amount
              then on_disp (\<lambda>d. guac_terminal_display_copy_rows d 0 (term_height term - scroll_amount - 1)
                                  scroll_amount) term
              else Some term);
           let term = scrollbar_follow (term\<lparr>t_scroll_offset := t_scroll_offset term + scroll_amount\<rparr>);
           let start_row = - t_scroll_offset term;
           let end_row = start_row + scroll_amount - 1;
           term \<leftarrow> each (\<lambda>row. draw_scrollback_row row (row - start_row)) [start_row..end_row] term;
           Some (guac_terminal_notify term)
         })"

definition guac_terminal_scroll_handler :: "int \<Rightarrow> guac_terminal \<Rightarrow> guac_terminal option" where
  "guac_terminal_scroll_handler v term =
     (let delta = - v - t_scroll_offset term
      in do {
        term \<leftarrow>
          (if delta < 0 then guac_terminal_scroll_display_down (- delta) term
           else if delta > 0 then guac_terminal_scroll_display_up delta term
           else Some term);
        Some (term\<lparr>t_scrollbar := guac_terminal_scrollbar_set_value v (t_scrollbar term)\<rparr>)
      })"

end
