(* ===== verification/Term_Output.thy ===== *)
theory Term_Output
  imports Term_Screen
begin

text \<open>
  The rest of the terminal that its output handlers and its rendering thread use
  (\<open>src/terminal/terminal.c\<close>): resizing, tabs, the pipe stream that output can be redirected to, and
  the flush at the end of a frame.
\<close>

section \<open>Resizing\<close>

text \<open>\<open>__guac_terminal_redraw_rect\<close>\<close>

definition redraw_rect :: "int \<Rightarrow> int \<Rightarrow> int \<Rightarrow> int \<Rightarrow> guac_terminal \<Rightarrow> guac_terminal option" where
  "redraw_rect start_row start_col end_row end_col term =
     each (\<lambda>row term. do {
         (index, term) \<leftarrow> term_get_row (row - t_scroll_offset term) 0 term;
         term \<leftarrow> on_disp (\<lambda>d. guac_terminal_display_set_columns d row start_col end_col (t_default_char term)) term;
         draw_cells index row [start_col..min end_col (row_length (row_at index term) - 1)] term
       }) [start_row..end_row] term"

definition buffer_shift :: "int \<Rightarrow> guac_terminal \<Rightarrow> guac_terminal" where
  "buffer_shift amount term =
     term\<lparr>t_buffer := (t_buffer term)\<lparr>buf_top := buf_top (t_buffer term) + amount\<rparr>,
          t_cursor_row := t_cursor_row term - amount,
          t_visible_cursor_row := t_visible_cursor_row term - amount\<rparr>"

text \<open>\<open>__guac_terminal_resize\<close>: the part for a smaller height, and the part for a larger one.\<close>

definition resize_shrink :: "int \<Rightarrow> int \<Rightarrow> guac_terminal \<Rightarrow> guac_terminal option" where
  "resize_shrink width height term =
     (let used_height = (if guac_terminal_effective_buffer_length term > term_height term then term_height term
                         else guac_terminal_effective_buffer_length term);
          shift_amount = used_height - height
      in if shift_amount > 0
         then do {
           term \<leftarrow> on_disp (\<lambda>d. guac_terminal_display_copy_rows d shift_amount (disp_height d - 1)
                                (- shift_amount)) term;
           redraw_rect (height - shift_amount) 0 (height - 1) (width - 1) (buffer_shift shift_amount term)
         }
         else Some term)"

definition resize_grow :: "int \<Rightarrow> int \<Rightarrow> guac_terminal \<Rightarrow> guac_terminal option" where
  "resize_grow width height term =
     (let available_scroll = guac_terminal_available_scroll term
      in if available_scroll > 0
         then
           (let wanted = height - term_height term;
                shift_amount = (if wanted > available_scroll then available_scroll else wanted);
                term = buffer_shift (- shift_amount) term
            in if t_scroll_offset term \<ge> shift_amount
               then
                 (let term = scrollbar_follow (term\<lparr>t_scroll_offset := t_scroll_offset term - shift_amount\<rparr>)
                  in redraw_rect (term_height term) 0 (term_height term + shift_amount - 1) (width - 1) term)
               else do {
                 term \<leftarrow> redraw_rect (term_height term) 0 (term_height term + t_scroll_offset term - 1)
                          (width - 1) term;
                 let shift_amount = shift_amount - t_scroll_offset term;
                 let term = scrollbar_follow (term\<lparr>t_scroll_offset := 0\<rparr>);
                 (if shift_amount > 0
                  then do {
                    term \<leftarrow> on_disp (\<lambda>d. guac_terminal_display_copy_rows d 0
                                         (disp_height d - shift_amount - 1) shift_amount) term;
                    redraw_rect 0 0 (shift_amount - 1) (width - 1) term
                  }
                  else Some term)
               })
         else Some term)"

definition display_flush :: "(int \<Rightarrow> int) \<Rightarrow> guac_terminal \<Rightarrow> guac_terminal" where
  "display_flush wcwidth term =
     (case guac_terminal_display_flush wcwidth (t_display term) of
        (calls, d) \<Rightarrow> emit (map Display_Call calls) (term\<lparr>t_display := d\<rparr>))"

definition display_resize :: "int \<Rightarrow> int \<Rightarrow> guac_terminal \<Rightarrow> guac_terminal" where
  "display_resize width height term =
     (case guac_terminal_display_resize width height (t_display term) of
        (calls, d) \<Rightarrow> emit (map Display_Call calls) (term\<lparr>t_display := d\<rparr>))"

definition internal_resize :: "(int \<Rightarrow> int) \<Rightarrow> int \<Rightarrow> int \<Rightarrow> guac_terminal \<Rightarrow> guac_terminal option" where
  "internal_resize wcwidth width height term =
     do {
       term \<leftarrow> (if height < term_height term then resize_shrink width height term else Some term);
       let term = display_resize width height (display_flush wcwidth term);
       term \<leftarrow> (if width > term_width term
                then redraw_rect 0 (term_width term - 1) (height - 1) (width - 1) term else Some term);
       term \<leftarrow> (if height > term_height term then resize_grow width height term else Some term);
       let r = (if t_cursor_row term < 0 then 0 else t_cursor_row term);
       let c = (if t_cursor_col term < 0 then 0 else t_cursor_col term);
       Some (term\<lparr>t_cursor_row := (if r \<ge> height then height - 1 else r),
                  t_cursor_col := (if c \<ge> width then width - 1 else c),
                  term_width := width, term_height := height\<rparr>)
     }"

text \<open>\<open>None\<close> also when the metrics of the font are zero.\<close>

definition guac_terminal_resize :: "(int \<Rightarrow> int) \<Rightarrow> int \<Rightarrow> int \<Rightarrow> guac_terminal \<Rightarrow> guac_terminal option" where
  "guac_terminal_resize wcwidth width height term =
     (if disp_char_height (t_display term) = 0 \<or> disp_char_width (t_display term) = 0 then None
      else
        (let term = term\<lparr>t_outer_width := width, t_outer_height := height\<rparr>;
             (rows, columns, width, height) = fit_dimensions (t_display term) width height;
             term = guac_terminal_repaint_default_layer (term\<lparr>t_pixel_width := width, t_pixel_height := height\<rparr>)
         in do {
              term \<leftarrow>
                (if columns \<noteq> term_width term \<or> rows \<noteq> term_height term
                 then do {
                   term \<leftarrow> internal_resize wcwidth columns rows term;
                   Some (term\<lparr>t_scroll_end := rows - 1\<rparr>)
                 }
                 else Some term);
              let term = term\<lparr>t_scrollbar :=
                guac_terminal_scrollbar_parent_resized width height rows (t_scrollbar term)\<rparr>;
              Some (guac_terminal_notify (scrollbar_refit term))
            }))"

definition guac_terminal_apply_color_scheme :: "byte list \<Rightarrow> guac_terminal \<Rightarrow> guac_terminal option" where
  "guac_terminal_apply_color_scheme color_scheme term =
     (let colors = guac_terminal_parse_color_scheme color_scheme;
          term = term\<lparr>t_default_char := (t_default_char term)\<lparr>ch_attributes :=
            (ch_attributes (t_default_char term))\<lparr>at_foreground := scheme_foreground colors,
               at_background := scheme_background colors\<rparr>\<rparr>,
            t_display := (guac_terminal_display_reset_palette GUAC_TERMINAL_INITIAL_PALETTE
                (t_display term)\<lparr>disp_default_palette := Some (scheme_palette colors)\<rparr>)
              \<lparr>disp_default_foreground := scheme_foreground colors,
               disp_default_background := scheme_background colors\<rparr>\<rparr>;
          term = guac_terminal_repaint_default_layer term
      in do {
           term \<leftarrow> redraw_rect 0 0 (term_height term - 1) (term_width term - 1) term;
           Some (guac_terminal_notify term)
         })"

definition guac_terminal_apply_font ::
    "(int \<Rightarrow> int) \<Rightarrow> (int \<times> int) option \<Rightarrow> guac_terminal \<Rightarrow> guac_terminal option" where
  "guac_terminal_apply_font wcwidth metrics term =
     (case metrics of
        Some (cw, ch) \<Rightarrow>
          (if cw = 0 \<or> ch = 0 then None
           else
             (case guac_terminal_display_set_font metrics (t_display term) of
                (r, calls, d) \<Rightarrow>
                  do {
                    term \<leftarrow> guac_terminal_resize wcwidth (t_outer_width term) (t_outer_height term)
                             (emit (map Display_Call calls) (term\<lparr>t_display := d\<rparr>));
                    term \<leftarrow> redraw_rect 0 0 (term_height term - 1) (term_width term - 1)
                             (guac_terminal_repaint_default_layer term);
                    Some (guac_terminal_notify term)
                  }))
      | None \<Rightarrow> Some term)"

section \<open>Tabs\<close>

definition guac_terminal_set_tab :: "int \<Rightarrow> guac_terminal \<Rightarrow> guac_terminal" where
  "guac_terminal_set_tab column term =
     (case find (\<lambda>i. t_custom_tabs term ! i = 0) [0..<GUAC_TERMINAL_MAX_TABS] of
        None \<Rightarrow> term
      | Some i \<Rightarrow> term\<lparr>t_custom_tabs := (t_custom_tabs term)[i := column + 1]\<rparr>)"

definition guac_terminal_unset_tab :: "int \<Rightarrow> guac_terminal \<Rightarrow> guac_terminal" where
  "guac_terminal_unset_tab column term =
     (case find (\<lambda>i. t_custom_tabs term ! i = column + 1) [0..<GUAC_TERMINAL_MAX_TABS] of
        None \<Rightarrow> term
      | Some i \<Rightarrow> term\<lparr>t_custom_tabs := (t_custom_tabs term)[i := 0]\<rparr>)"

definition guac_terminal_clear_tabs :: "guac_terminal \<Rightarrow> guac_terminal" where
  "guac_terminal_clear_tabs term =
     term\<lparr>t_tab_interval := 0, t_custom_tabs := replicate GUAC_TERMINAL_MAX_TABS 0\<rparr>"

definition guac_terminal_next_tab :: "int \<Rightarrow> guac_terminal \<Rightarrow> int" where
  "guac_terminal_next_tab column term =
     fold (\<lambda>tab tabstop. let custom_tabstop = tab - 1
             in if custom_tabstop \<noteq> - 1 \<and> custom_tabstop > column \<and> custom_tabstop < tabstop
                then custom_tabstop else tabstop)
       (t_custom_tabs term)
       (if t_tab_interval term \<noteq> 0
        then (c_div column (t_tab_interval term) + 1) * t_tab_interval term
        else term_width term - 1)"

section \<open>The pipe stream\<close>

abbreviation (input) PIPE_BUFFER_SIZE :: nat where "PIPE_BUFFER_SIZE \<equiv> 6048"
abbreviation (input) GUAC_TERMINAL_PIPE_INTERPRET_OUTPUT :: int where "GUAC_TERMINAL_PIPE_INTERPRET_OUTPUT \<equiv> 1"
abbreviation (input) GUAC_TERMINAL_PIPE_AUTOFLUSH :: int where "GUAC_TERMINAL_PIPE_AUTOFLUSH \<equiv> 2"

definition guac_terminal_pipe_stream_flush :: "guac_terminal \<Rightarrow> guac_terminal" where
  "guac_terminal_pipe_stream_flush term =
     (case t_pipe_stream term of
        None \<Rightarrow> term
      | Some stream \<Rightarrow>
          (if t_pipe_buffer term \<noteq> []
           then (emit [Pipe_Blob stream (t_pipe_buffer term)] term)\<lparr>t_pipe_buffer := []\<rparr>
           else term))"

definition guac_terminal_pipe_stream_write :: "byte \<Rightarrow> guac_terminal \<Rightarrow> guac_terminal" where
  "guac_terminal_pipe_stream_write c term =
     (if t_pipe_stream term = None then term
      else
        (let term = (if length (t_pipe_buffer term) = PIPE_BUFFER_SIZE
               then guac_terminal_pipe_stream_flush term else term)
         in term\<lparr>t_pipe_buffer := t_pipe_buffer term @ [c]\<rparr>))"

definition guac_terminal_pipe_stream_close :: "guac_terminal \<Rightarrow> guac_terminal" where
  "guac_terminal_pipe_stream_close term =
     (case t_pipe_stream term of
        None \<Rightarrow> term
      | Some stream \<Rightarrow>
          (let term = emit [Pipe_End stream] (guac_terminal_pipe_stream_flush term)
           in term\<lparr>t_client := guac_client_free_stream stream (t_client term), t_pipe_stream := None\<rparr>))"

text \<open>\<open>None\<close> when the client has no stream left: the null pointer is used without a check.\<close>

definition guac_terminal_pipe_stream_open :: "byte list \<Rightarrow> int \<Rightarrow> guac_terminal \<Rightarrow> guac_terminal option" where
  "guac_terminal_pipe_stream_open name flags term =
     (let term = guac_terminal_pipe_stream_close term
      in case guac_client_alloc_stream (t_client term) of
           (None, client) \<Rightarrow> None
         | (Some stream, client) \<Rightarrow>
             Some (emit [Pipe_Open stream name]
                     (term\<lparr>t_client := client, t_pipe_stream := Some stream, t_pipe_buffer := [],
                           t_pipe_stream_flags := flags\<rparr>)))"

section \<open>The end of a frame\<close>

text \<open>\<open>guac_terminal_select_redraw\<close> of \<open>src/terminal/select.c\<close>\<close>

definition guac_terminal_select_redraw :: "guac_terminal \<Rightarrow> guac_terminal" where
  "guac_terminal_select_redraw term =
     (let s = t_selection term;
          (calls, d) =
            (if sel_text_selected s
             then
               (let start_row = sel_start_row s + t_scroll_offset term;
                    start_column = sel_start_column s;
                    end_row = sel_end_row s + t_scroll_offset term;
                    end_column = sel_end_column s;
                    backwards = (start_row > end_row \<or> (start_row = end_row \<and> start_column > end_column))
                in guac_terminal_display_select start_row
                     (if backwards then start_column + (sel_start_width s - 1) else start_column)
                     end_row (if backwards then end_column else end_column + (sel_end_width s - 1))
                     (t_display term))
             else guac_terminal_display_clear_select (t_display term))
      in emit (map Display_Call calls) (term\<lparr>t_display := d\<rparr>))"

definition guac_terminal_flush :: "(int \<Rightarrow> int) \<Rightarrow> guac_terminal \<Rightarrow> guac_terminal option" where
  "guac_terminal_flush wcwidth term =
     (let term = term\<lparr>t_typescript := map_option guac_terminal_typescript_flush (t_typescript term)\<rparr>;
          term = (if t_pipe_stream_flags term AND GUAC_TERMINAL_PIPE_AUTOFLUSH \<noteq> 0
                  then guac_terminal_pipe_stream_flush term else term)
      in do {
           term \<leftarrow> guac_terminal_commit_cursor (guac_terminal_select_redraw term);
           let term = display_flush wcwidth term;
           (calls, term) \<leftarrow> guac_terminal_scrollbar_flush t_scrollbar t_scrollbar_update
                             guac_terminal_scroll_handler term;
           Some (emit (map Scrollbar_Call calls) term)
         })"

end
