(* ===== verification/Term_Handlers.thy ===== *)
theory Term_Handlers
  imports Term_Output
begin

text \<open>
  The interpreter of terminal output (\<open>src/terminal/terminal_handlers.c\<close>, \<open>char_mappings.c\<close>): a state
  machine whose state is the function that handles the next byte. The static variables of the
  functions are \<open>t_statics\<close>; an array with a length is the list of its bytes in use.

  The environment \<open>terminal_env\<close> is what the functions use from outside: \<open>wcwidth\<close> of the C library,
  and whether a protocol plugin has installed its handlers for uploads and downloads.

  Arithmetic on numbers that come from the output is done modulo \<open>2 ^ 32\<close>, as the compiled code does
  it, where the C standard leaves the overflow undefined.
\<close>

section \<open>Definitions\<close>

record terminal_env =
  env_wcwidth :: "int \<Rightarrow> int"
  env_upload_path_handler :: bool
  env_file_download_handler :: bool

subsection \<open>Character mappings\<close>

definition vt100_map :: "int list" where
  "vt100_map =
     [32, 33, 34, 35, 36, 37, 38, 39, 40, 41, 42, 43, 44, 45, 46, 47,
      48, 49, 50, 51, 52, 53, 54, 55, 56, 57, 58, 59, 60, 61, 62, 63,
      64, 65, 66, 67, 68, 69, 70, 71, 72, 73, 74, 75, 76, 77, 78, 79,
      80, 81, 82, 83, 84, 85, 86, 87, 88, 89, 90, 91, 92, 93, 94, 95,
      0x25C6, 0x2592, 0x2409, 0x240C, 0x240D, 0x240A, 0x00B0, 0x00B1, 0x2424, 0x240B, 0x2518, 0x2510, 0x250C, 0x2514, 0x253C, 0x23BA,
      0x23BB, 0x2500, 0x23BC, 0x23BD, 0x251C, 0x2524, 0x2534, 0x252C, 0x2502, 0x2264, 0x2265, 0x03C0, 0x2260, 0x00A3, 0x00B7, 0x007F,
      0x0080, 0x0081, 0x0082, 0x0083, 0x0084, 0x0085, 0x0086, 0x0087, 0x0088, 0x0089, 0x008A, 0x008B, 0x008C, 0x008D, 0x008E, 0x008F,
      0x0090, 0x0091, 0x0092, 0x0093, 0x0094, 0x0095, 0x0096, 0x0097, 0x0098, 0x0099, 0x009A, 0x009B, 0x009C, 0x009D, 0x009E, 0x009F,
      0x00A0, 0x00A1, 0x00A2, 0x00A3, 0x00A4, 0x00A5, 0x00A6, 0x00A7, 0x00A8, 0x00A9, 0x00AA, 0x00AB, 0x00AC, 0x00AD, 0x00AE, 0x00AF,
      0x00B0, 0x00B1, 0x00B2, 0x00B3, 0x00B4, 0x00B5, 0x00B6, 0x00B7, 0x00B8, 0x00B9, 0x00BA, 0x00BB, 0x00BC, 0x00BD, 0x00BE, 0x00BF,
      0x00C0, 0x00C1, 0x00C2, 0x00C3, 0x00C4, 0x00C5, 0x00C6, 0x00C7, 0x00C8, 0x00C9, 0x00CA, 0x00CB, 0x00CC, 0x00CD, 0x00CE, 0x00CF,
      0x00D0, 0x00D1, 0x00D2, 0x00D3, 0x00D4, 0x00D5, 0x00D6, 0x00D7, 0x00D8, 0x00D9, 0x00DA, 0x00DB, 0x00DC, 0x00DD, 0x00DE, 0x00DF,
      0x00E0, 0x00E1, 0x00E2, 0x00E3, 0x00E4, 0x00E5, 0x00E6, 0x00E7, 0x00E8, 0x00E9, 0x00EA, 0x00EB, 0x00EC, 0x00ED, 0x00EE, 0x00EF,
      0x00F0, 0x00F1, 0x00F2, 0x00F3, 0x00F4, 0x00F5, 0x00F6, 0x00F7, 0x00F8, 0x00F9, 0x00FA, 0x00FB, 0x00FC, 0x00FD, 0x00FE, 0x00FF]"

definition null_map :: "int list" where
  "null_map =
     [32, 33, 34, 35, 36, 37, 38, 39, 40, 41, 42, 43, 44, 45, 46, 47,
      48, 49, 50, 51, 52, 53, 54, 55, 56, 57, 58, 59, 60, 61, 62, 63,
      64, 65, 66, 67, 68, 69, 70, 71, 72, 73, 74, 75, 76, 77, 78, 79,
      80, 81, 82, 83, 84, 85, 86, 87, 88, 89, 90, 91, 92, 93, 94, 95,
      96, 97, 98, 99, 100, 101, 102, 103, 104, 105, 106, 107, 108, 109, 110, 111,
      112, 113, 114, 115, 116, 117, 118, 119, 120, 121, 122, 123, 124, 125, 126, 0x007F,
      0x00C7, 0x00FC, 0x00E9, 0x00E2, 0x00E4, 0x00E0, 0x00E5, 0x00E7, 0x00EA, 0x00EB, 0x00E8, 0x00EF, 0x00EE, 0x00EC, 0x00C4, 0x00C5,
      0x00C9, 0x00E6, 0x00C6, 0x00F4, 0x00F6, 0x00F2, 0x00FB, 0x00F9, 0x00FF, 0x00D6, 0x00DC, 0x00A2, 0x00A3, 0x00A5, 0x20A7, 0x0192,
      0x00E1, 0x00ED, 0x00F3, 0x00FA, 0x00F1, 0x00D1, 0x00AA, 0x00BA, 0x00BF, 0x2310, 0x00AC, 0x00BD, 0x00BC, 0x00A1, 0x00AB, 0x00BB,
      0x2591, 0x2592, 0x2593, 0x2502, 0x2524, 0x2561, 0x2562, 0x2556, 0x2555, 0x2563, 0x2551, 0x2557, 0x255D, 0x255C, 0x255B, 0x2510,
      0x2514, 0x2534, 0x252C, 0x251C, 0x2500, 0x253C, 0x255E, 0x255F, 0x255A, 0x2554, 0x2569, 0x2566, 0x2560, 0x2550, 0x256C, 0x2567,
      0x2568, 0x2564, 0x2565, 0x2559, 0x2558, 0x2552, 0x2553, 0x256B, 0x256A, 0x2518, 0x250C, 0x2588, 0x2584, 0x258C, 0x2590, 0x2580,
      0x03B1, 0x00DF, 0x0393, 0x03C0, 0x03A3, 0x03C3, 0x00B5, 0x03C4, 0x03A6, 0x0398, 0x03A9, 0x03B4, 0x221E, 0x03C6, 0x03B5, 0x2229,
      0x2261, 0x00B1, 0x2265, 0x2264, 0x2320, 0x2321, 0x00F7, 0x2248, 0x00B0, 0x2219, 0x00B7, 0x221A, 0x207F, 0x00B2, 0x25A0, 0x000A]"

definition user_map :: "int list" where
  "user_map =
     [32, 33, 34, 35, 36, 37, 38, 39, 40, 41, 42, 43, 44, 45, 46, 47,
      48, 49, 50, 51, 52, 53, 54, 55, 56, 57, 58, 59, 60, 61, 62, 63,
      0x00A7, 65, 66, 67, 68, 69, 70, 71, 72, 73, 74, 75, 76, 77, 78, 79,
      80, 81, 82, 83, 84, 85, 86, 87, 88, 89, 90, 0x00C4, 0x00D6, 0x00DC, 94, 95,
      96, 97, 98, 99, 100, 101, 102, 103, 104, 105, 106, 107, 108, 109, 110, 111,
      112, 113, 114, 115, 116, 117, 118, 119, 120, 121, 122, 0x00E4, 0x00F6, 0x00FC, 0x00DF, 0x007F,
      0x0080, 0x0081, 0x0082, 0x0083, 0x0084, 0x0085, 0x0086, 0x0087, 0x0088, 0x0089, 0x008A, 0x008B, 0x008C, 0x008D, 0x008E, 0x008F,
      0x0090, 0x0091, 0x0092, 0x0093, 0x0094, 0x0095, 0x0096, 0x0097, 0x0098, 0x0099, 0x009A, 0x009B, 0x009C, 0x009D, 0x009E, 0x009F,
      0x00A0, 0x00A1, 0x00A2, 0x00A3, 0x00A4, 0x00A5, 0x00A6, 0x00A7, 0x00A8, 0x00A9, 0x00AA, 0x00AB, 0x00AC, 0x00AD, 0x00AE, 0x00AF,
      0x00B0, 0x00B1, 0x00B2, 0x00B3, 0x00B4, 0x00B5, 0x00B6, 0x00B7, 0x00B8, 0x00B9, 0x00BA, 0x00BB, 0x00BC, 0x00BD, 0x00BE, 0x00BF,
      0x00C0, 0x00C1, 0x00C2, 0x00C3, 0x00C4, 0x00C5, 0x00C6, 0x00C7, 0x00C8, 0x00C9, 0x00CA, 0x00CB, 0x00CC, 0x00CD, 0x00CE, 0x00CF,
      0x00D0, 0x00D1, 0x00D2, 0x00D3, 0x00D4, 0x00D5, 0x00D6, 0x00D7, 0x00D8, 0x00D9, 0x00DA, 0x00DB, 0x00DC, 0x00DD, 0x00DE, 0x00DF,
      0x00E0, 0x00E1, 0x00E2, 0x00E3, 0x00E4, 0x00E5, 0x00E6, 0x00E7, 0x00E8, 0x00E9, 0x00EA, 0x00EB, 0x00EC, 0x00ED, 0x00EE, 0x00EF,
      0x00F0, 0x00F1, 0x00F2, 0x00F3, 0x00F4, 0x00F5, 0x00F6, 0x00F7, 0x00F8, 0x00F9, 0x00FA, 0x00FB, 0x00FC, 0x00FD, 0x00FE, 0x00FF]"

definition get_char_mapping :: "byte \<Rightarrow> int list option" where
  "get_char_mapping c =
     (if c = 66 then None
      else if c = 48 then Some vt100_map
      else if c = 85 then Some null_map
      else if c = 75 then Some user_map
      else None)"

subsection \<open>Input of the session\<close>

definition stdin_write :: "byte list \<times> int list \<Rightarrow> byte list \<Rightarrow> int \<times> byte list \<times> int list" where
  "stdin_write fd data =
     (case snd fd of
        [] \<Rightarrow> (int (length data), fst fd @ data, [])
      | r # rs \<Rightarrow>
          (if r \<le> 0 then (r, fst fd, rs)
           else (let n = min (nat r) (length data) in (int n, fst fd @ take n data, rs))))"

text \<open>\<open>guac_terminal_send_data\<close>; \<open>guac_terminal_send_string\<close> is the same for a string without null bytes.\<close>

definition guac_terminal_send_data :: "byte list \<Rightarrow> guac_terminal \<Rightarrow> int \<times> guac_terminal" where
  "guac_terminal_send_data data term =
     (if in_stream_open (t_input term) then (0, term)
      else
        (case guac_terminal_write_all stdin_write (t_stdin term, t_stdin_results term) data of
           (r, recv, results) \<Rightarrow> (r, term\<lparr>t_stdin := recv, t_stdin_results := results\<rparr>)))"

definition guac_terminal_send_string :: "byte list \<Rightarrow> guac_terminal \<Rightarrow> int \<times> guac_terminal" where
  "guac_terminal_send_string data term =
     (if in_stream_open (t_input term) then (0, term)
      else
        (case guac_terminal_write_all stdin_write (t_stdin term, t_stdin_results term) (takeWhile (\<lambda>c. c \<noteq> 0) data) of
           (r, recv, results) \<Rightarrow> (r, term\<lparr>t_stdin := recv, t_stdin_results := results\<rparr>)))"

definition ESC_str :: "string \<Rightarrow> byte list" where "ESC_str s = 0x1B # cstr s"

definition GUAC_TERMINAL_VT102_ID :: "byte list" where "GUAC_TERMINAL_VT102_ID = ESC_str ''[?6c''"
definition GUAC_TERMINAL_ANSWERBACK :: "byte list" where "GUAC_TERMINAL_ANSWERBACK = cstr ''GUACAMOLE''"
definition GUAC_TERMINAL_OK :: "byte list" where "GUAC_TERMINAL_OK = ESC_str ''[0n''"

subsection \<open>The cursor\<close>

definition guac_terminal_linefeed :: "guac_terminal \<Rightarrow> guac_terminal option" where
  "guac_terminal_linefeed term =
     (if t_cursor_row term = t_scroll_end term
      then guac_terminal_scroll_up (t_scroll_start term) (t_scroll_end term) 1 term
      else if t_cursor_row term < term_height term - 1
      then Some (term\<lparr>t_cursor_row := t_cursor_row term + 1\<rparr>)
      else Some term)"

definition guac_terminal_reverse_linefeed :: "guac_terminal \<Rightarrow> guac_terminal option" where
  "guac_terminal_reverse_linefeed term =
     (if t_cursor_row term = t_scroll_start term
      then guac_terminal_scroll_down (t_scroll_start term) (t_scroll_end term) 1 term
      else if t_cursor_row term > 0
      then Some (term\<lparr>t_cursor_row := t_cursor_row term - 1\<rparr>)
      else Some term)"

definition guac_terminal_move_cursor :: "int \<Rightarrow> int \<Rightarrow> guac_terminal \<Rightarrow> guac_terminal" where
  "guac_terminal_move_cursor row col term =
     term\<lparr>t_cursor_row := (if row \<ge> term_height term then term_height term - 1 else if row < 0 then 0 else row),
          t_cursor_col := (if col \<ge> term_width term then term_width term - 1 else if col < 0 then 0 else col)\<rparr>"

subsection \<open>Text\<close>

text \<open>One byte of UTF-8, or of the active mapping: the code point and the bytes still missing.\<close>

definition echo_decode :: "int list option \<Rightarrow> byte \<Rightarrow> int \<Rightarrow> int \<Rightarrow> int \<times> int" where
  "echo_decode char_mapping c codepoint bytes_remaining =
     (if char_mapping \<noteq> None then (uint c, 0)
      else if c AND 0x80 = 0x00 then (uint (c AND 0x7F), 0)
      else if c AND 0xE0 = 0xC0 then (uint (c AND 0x1F), 1)
      else if c AND 0xF0 = 0xE0 then (uint (c AND 0x0F), 2)
      else if c AND 0xF8 = 0xF0 then (uint (c AND 0x07), 3)
      else if c AND 0xC0 = 0x80 then (s32 (push_bit 6 codepoint OR uint (c AND 0x3F)), s32 (bytes_remaining - 1))
      else (63, 0))"

text \<open>The width the cursor advances by.\<close>

definition env_width :: "terminal_env \<Rightarrow> int \<Rightarrow> int" where
  "env_width env codepoint = (if env_wcwidth env codepoint < 0 then 1 else env_wcwidth env codepoint)"

definition echo_display :: "terminal_env \<Rightarrow> int list option \<Rightarrow> int \<Rightarrow> guac_terminal \<Rightarrow> guac_terminal option" where
  "echo_display env char_mapping codepoint term =
     (if codepoint < 0x20 then Some term
      else
        (let codepoint = (case char_mapping of
                            Some m \<Rightarrow> if codepoint \<le> 0xFF then m ! nat (codepoint - 0x20) else codepoint
                          | None \<Rightarrow> codepoint);
             term = term\<lparr>t_statics := (t_statics term)\<lparr>echo_codepoint := codepoint\<rparr>\<rparr>
         in do {
              term \<leftarrow> (if t_cursor_col term \<ge> term_width term
                       then guac_terminal_linefeed (term\<lparr>t_cursor_col := 0\<rparr>) else Some term);
              term \<leftarrow> (if t_insert_mode term
                       then guac_terminal_copy_columns (t_cursor_row term) (t_cursor_col term)
                              (term_width term - 2) 1 term
                       else Some term);
              term \<leftarrow> guac_terminal_set (env_wcwidth env) (t_cursor_row term) (t_cursor_col term) codepoint term;
              Some (term\<lparr>t_cursor_col := t_cursor_col term + env_width env codepoint\<rparr>)
            }))"

definition echo_codepoint_action ::
    "terminal_env \<Rightarrow> int list option \<Rightarrow> int \<Rightarrow> guac_terminal \<Rightarrow> guac_terminal option" where
  "echo_codepoint_action env char_mapping codepoint term =
     (if codepoint = 0x05 then Some (snd (guac_terminal_send_string GUAC_TERMINAL_ANSWERBACK term))
      else if codepoint = 0x07 then Some term
      else if codepoint = 0x08
      then Some (guac_terminal_move_cursor (t_cursor_row term) (t_cursor_col term - 1) term)
      else if codepoint = 0x09
      then Some (guac_terminal_move_cursor (t_cursor_row term) (guac_terminal_next_tab (t_cursor_col term) term) term)
      else if codepoint = 0x0A \<or> codepoint = 0x0B \<or> codepoint = 0x0C
      then do {
        term \<leftarrow> guac_terminal_linefeed term;
        Some (if t_automatic_carriage_return term
              then guac_terminal_move_cursor (t_cursor_row term) 0 term else term)
      }
      else if codepoint = 0x0D then Some (guac_terminal_move_cursor (t_cursor_row term) 0 term)
      else if codepoint = 0x0E then Some (term\<lparr>t_active_char_set := 1\<rparr>)
      else if codepoint = 0x0F then Some (term\<lparr>t_active_char_set := 0\<rparr>)
      else if codepoint = 0x1B then Some (term\<lparr>t_char_handler := handler_escape\<rparr>)
      else if codepoint = 0x9B then Some (term\<lparr>t_char_handler := handler_csi\<rparr>)
      else if codepoint = 0x7F then Some term
      else echo_display env char_mapping codepoint term)"

definition guac_terminal_echo :: "terminal_env \<Rightarrow> byte \<Rightarrow> guac_terminal \<Rightarrow> guac_terminal option" where
  "guac_terminal_echo env c term =
     (let char_mapping = t_char_mapping term ! t_active_char_set term;
          piped = (t_pipe_stream term \<noteq> None \<and> c \<noteq> 0x1B);
          term = (if piped then guac_terminal_pipe_stream_write c term else term)
      in if piped \<and> t_pipe_stream_flags term AND GUAC_TERMINAL_PIPE_INTERPRET_OUTPUT = 0 then Some term
         else
           (case echo_decode char_mapping c (echo_codepoint (t_statics term)) (echo_bytes_remaining (t_statics term)) of
              (codepoint, bytes_remaining) \<Rightarrow>
                (let term = term\<lparr>t_statics := (t_statics term)\<lparr>echo_codepoint := codepoint,
                        echo_bytes_remaining := bytes_remaining\<rparr>\<rparr>
                 in if bytes_remaining \<noteq> 0 then Some term
                    else echo_codepoint_action env char_mapping codepoint term)))"

subsection \<open>Escape sequences\<close>

definition to_echo :: "guac_terminal \<Rightarrow> guac_terminal" where
  "to_echo term = term\<lparr>t_char_handler := handler_echo\<rparr>"

definition guac_terminal_escape :: "byte \<Rightarrow> guac_terminal \<Rightarrow> guac_terminal option" where
  "guac_terminal_escape c term =
     (if c = 40 then Some (term\<lparr>t_char_handler := handler_g0_charset\<rparr>)
      else if c = 41 then Some (term\<lparr>t_char_handler := handler_g1_charset\<rparr>)
      else if c = 93 then Some (term\<lparr>t_char_handler := handler_osc\<rparr>)
      else if c = 91 then Some (term\<lparr>t_char_handler := handler_csi\<rparr>)
      else if c = 35 then Some (term\<lparr>t_char_handler := handler_ctrl_func\<rparr>)
      else if c = 55
      then Some (to_echo (term\<lparr>t_saved_cursor_row := t_cursor_row term, t_saved_cursor_col := t_cursor_col term\<rparr>))
      else if c = 56
      then Some (to_echo (guac_terminal_move_cursor (t_saved_cursor_row term) (t_saved_cursor_col term) term))
      else if c = 68 then map_option to_echo (guac_terminal_linefeed term)
      else if c = 69
      then map_option to_echo (guac_terminal_linefeed (guac_terminal_move_cursor (t_cursor_row term) 0 term))
      else if c = 72 then Some (to_echo (guac_terminal_set_tab (t_cursor_col term) term))
      else if c = 77 then map_option to_echo (guac_terminal_reverse_linefeed term)
      else if c = 90 then Some (to_echo (snd (guac_terminal_send_string GUAC_TERMINAL_VT102_ID term)))
      else if c = 99 then guac_terminal_reset term
      else if c = 95 then Some (term\<lparr>t_char_handler := handler_apc\<rparr>)
      else Some (to_echo term))"

definition guac_terminal_g0_charset :: "byte \<Rightarrow> guac_terminal \<Rightarrow> guac_terminal option" where
  "guac_terminal_g0_charset c term =
     Some (to_echo (term\<lparr>t_char_mapping := (t_char_mapping term)[0 := get_char_mapping c]\<rparr>))"

definition guac_terminal_g1_charset :: "byte \<Rightarrow> guac_terminal \<Rightarrow> guac_terminal option" where
  "guac_terminal_g1_charset c term =
     Some (to_echo (term\<lparr>t_char_mapping := (t_char_mapping term)[1 := get_char_mapping c]\<rparr>))"

subsection \<open>Graphics rendition\<close>

text \<open>Each of these gives the number of arguments parsed, and the colour.\<close>

definition guac_terminal_parse_xterm256_rgb :: "int list \<Rightarrow> guac_terminal_color \<Rightarrow> nat \<times> guac_terminal_color" where
  "guac_terminal_parse_xterm256_rgb argv c =
     (if length argv < 3 then (0, c)
      else
        (let red = argv ! 0; green = argv ! 1; blue = argv ! 2
         in if red < 0 \<or> red > 255 \<or> green < 0 \<or> green > 255 \<or> blue < 0 \<or> blue > 255 then (3, c)
            else (3, palette_color (- 1) (word_of_int red) (word_of_int green) (word_of_int blue))))"

definition guac_terminal_parse_xterm256_index ::
    "guac_terminal_display \<Rightarrow> int list \<Rightarrow> guac_terminal_color \<Rightarrow> nat \<times> guac_terminal_color" where
  "guac_terminal_parse_xterm256_index d argv c =
     (if argv = [] then (0, c) else (1, guac_terminal_display_lookup_color d (argv ! 0) c))"

definition guac_terminal_parse_xterm256 ::
    "guac_terminal_display \<Rightarrow> int list \<Rightarrow> guac_terminal_color \<Rightarrow> nat \<times> guac_terminal_color" where
  "guac_terminal_parse_xterm256 d argv c =
     (if argv = [] then (0, c)
      else if argv ! 0 = 2
      then (case guac_terminal_parse_xterm256_rgb (tl argv) c of (n, c) \<Rightarrow> (n + 1, c))
      else if argv ! 0 = 5
      then (case guac_terminal_parse_xterm256_index d (tl argv) c of (n, c) \<Rightarrow> (n + 1, c))
      else (0, c))"

text \<open>The loop over the arguments of \<open>CSI m\<close>: \<open>argv\<close> are those from the current one on.\<close>

function sgr_loop ::
    "guac_terminal_display \<Rightarrow> guac_terminal_attributes \<Rightarrow> int list \<Rightarrow> guac_terminal_attributes
      \<Rightarrow> guac_terminal_attributes" where
  "sgr_loop d da [] a = a"
| "sgr_loop d da (v # argv) a =
     (if v = 0 then sgr_loop d da argv da
      else if v = 1 then sgr_loop d da argv (a\<lparr>at_bold := True\<rparr>)
      else if v = 2 then sgr_loop d da argv (a\<lparr>at_half_bright := True\<rparr>)
      else if v = 4 then sgr_loop d da argv (a\<lparr>at_underscore := True\<rparr>)
      else if v = 7 then sgr_loop d da argv (a\<lparr>at_reverse := True\<rparr>)
      else if v = 21 \<or> v = 22 then sgr_loop d da argv (a\<lparr>at_bold := False, at_half_bright := False\<rparr>)
      else if v = 24 then sgr_loop d da argv (a\<lparr>at_underscore := False\<rparr>)
      else if v = 27 then sgr_loop d da argv (a\<lparr>at_reverse := False\<rparr>)
      else if v \<ge> 30 \<and> v \<le> 37
      then sgr_loop d da argv
             (a\<lparr>at_foreground := guac_terminal_display_lookup_color d (v - 30) (at_foreground a)\<rparr>)
      else if v = 38
      then (case guac_terminal_parse_xterm256 d argv (at_foreground a) of
              (n, c) \<Rightarrow>
                if n > 0 then sgr_loop d da (drop n argv) (a\<lparr>at_foreground := c\<rparr>)
                else sgr_loop d da argv
                       (a\<lparr>at_underscore := True, at_foreground := at_foreground da\<rparr>))
      else if v = 39
      then sgr_loop d da argv
             (a\<lparr>at_underscore := False, at_foreground := at_foreground da\<rparr>)
      else if v \<ge> 40 \<and> v \<le> 47
      then sgr_loop d da argv
             (a\<lparr>at_background := guac_terminal_display_lookup_color d (v - 40) (at_background a)\<rparr>)
      else if v = 48
      then (case guac_terminal_parse_xterm256 d argv (at_background a) of
              (n, c) \<Rightarrow> sgr_loop d da (drop n argv) (a\<lparr>at_background := c\<rparr>))
      else if v = 49
      then sgr_loop d da argv (a\<lparr>at_background := at_background da\<rparr>)
      else if v \<ge> 90 \<and> v \<le> 97
      then sgr_loop d da argv
             (a\<lparr>at_foreground := guac_terminal_display_lookup_color d (v - 90 + 8) (at_foreground a)\<rparr>)
      else if v \<ge> 100 \<and> v \<le> 107
      then sgr_loop d da argv
             (a\<lparr>at_background := guac_terminal_display_lookup_color d (v - 100 + 8) (at_background a)\<rparr>)
      else sgr_loop d da argv a)"
  by pat_completeness auto
termination
  by (relation "measure (\<lambda>(d, da, argv, a). length argv)") auto


subsection \<open>Control sequences\<close>

definition set_flag :: "int \<Rightarrow> byte \<Rightarrow> bool \<Rightarrow> guac_terminal \<Rightarrow> guac_terminal" where
  "set_flag num private_mode v term =
     (if private_mode = 63
      then (if num = 1 then term\<lparr>t_application_cursor_keys := v\<rparr> else term)
      else if private_mode = 0
      then (if num = 4 then term\<lparr>t_insert_mode := v\<rparr>
            else if num = 20 then term\<lparr>t_automatic_carriage_return := v\<rparr> else term)
      else term)"

text \<open>The cases of the switch that move the cursor; \<open>amount\<close> is the first argument, at least 1.\<close>

definition csi_move :: "byte \<Rightarrow> int list \<Rightarrow> int \<Rightarrow> guac_terminal \<Rightarrow> guac_terminal" where
  "csi_move c argv amount term =
     (let row = t_cursor_row term; col = t_cursor_col term;
          position = (\<lambda>v. if v \<noteq> 0 then s32 (v - 1) else v)
      in if c = 65 then guac_terminal_move_cursor (s32 (row - amount)) col term
         else if c = 66 \<or> c = 101 then guac_terminal_move_cursor (s32 (row + amount)) col term
         else if c = 67 \<or> c = 97 then guac_terminal_move_cursor row (s32 (col + amount)) term
         else if c = 68 then guac_terminal_move_cursor row (s32 (col - amount)) term
         else if c = 69 then guac_terminal_move_cursor (s32 (row + amount)) 0 term
         else if c = 70 then guac_terminal_move_cursor (s32 (row - amount)) 0 term
         else if c = 71 \<or> c = 96 then guac_terminal_move_cursor row (position (argv ! 0)) term
         else if c = 72 \<or> c = 102
         then guac_terminal_move_cursor (position (argv ! 0)) (position (argv ! 1)) term
         else if c = 100 then guac_terminal_move_cursor (position (argv ! 0)) col term
         else term)"

definition csi_insert_characters :: "int \<Rightarrow> guac_terminal \<Rightarrow> guac_terminal option" where
  "csi_insert_characters amount term =
     do {
       term \<leftarrow>
         (if s32 (t_cursor_col term + amount) < term_width term
          then guac_terminal_copy_columns (t_cursor_row term) (t_cursor_col term)
                 (s32 (term_width term - amount - 1)) amount term
          else Some term);
       guac_terminal_clear_columns (t_cursor_row term) (t_cursor_col term)
         (s32 (t_cursor_col term + amount - 1)) term
     }"

definition csi_delete_characters :: "int \<Rightarrow> guac_terminal \<Rightarrow> guac_terminal option" where
  "csi_delete_characters amount term =
     do {
       term \<leftarrow>
         (if s32 (t_cursor_col term + amount) < term_width term
          then guac_terminal_copy_columns (t_cursor_row term) (s32 (t_cursor_col term + amount))
                 (term_width term - 1) (s32 (- amount)) term
          else Some term);
       guac_terminal_clear_columns (t_cursor_row term) (s32 (term_width term - amount)) (term_width term - 1) term
     }"

definition csi_erase_display :: "int \<Rightarrow> guac_terminal \<Rightarrow> guac_terminal option" where
  "csi_erase_display v term =
     (if v = 0
      then guac_terminal_clear_range (t_cursor_row term) (t_cursor_col term) (term_height term - 1)
             (term_width term - 1) term
      else if v = 1 then guac_terminal_clear_range 0 0 (t_cursor_row term) (t_cursor_col term) term
      else if v = 2 \<or> v = 3 then guac_terminal_clear_range 0 0 (term_height term - 1) (term_width term - 1) term
      else Some term)"

definition csi_erase_line :: "int \<Rightarrow> guac_terminal \<Rightarrow> guac_terminal option" where
  "csi_erase_line v term =
     (if v = 0
      then guac_terminal_clear_columns (t_cursor_row term) (t_cursor_col term) (term_width term - 1) term
      else if v = 1 then guac_terminal_clear_columns (t_cursor_row term) 0 (t_cursor_col term) term
      else if v = 2 then guac_terminal_clear_columns (t_cursor_row term) 0 (term_width term - 1) term
      else Some term)"

definition csi_report :: "int \<Rightarrow> byte \<Rightarrow> guac_terminal \<Rightarrow> guac_terminal" where
  "csi_report v private_mode term =
     (if v = 5 \<and> private_mode = 0 then snd (guac_terminal_send_string GUAC_TERMINAL_OK term)
      else if v = 6 \<and> private_mode = 0
      then snd (guac_terminal_send_data
             (ESC_str ''['' @ dec_int (t_cursor_row term + 1) @ [59] @ dec_int (t_cursor_col term + 1) @ [82]) term)
      else term)"

definition csi_scroll_region :: "nat \<Rightarrow> int list \<Rightarrow> guac_terminal \<Rightarrow> guac_terminal" where
  "csi_scroll_region argc argv term =
     (if argc = 2 then term\<lparr>t_scroll_start := s32 (argv ! 0 - 1), t_scroll_end := s32 (argv ! 1 - 1)\<rparr>
      else term\<lparr>t_scroll_start := 0, t_scroll_end := term_height term - 1\<rparr>)"

text \<open>The switch of \<open>guac_terminal_csi\<close>.\<close>

definition csi_function :: "byte \<Rightarrow> nat \<Rightarrow> int list \<Rightarrow> byte \<Rightarrow> guac_terminal \<Rightarrow> guac_terminal option" where
  "csi_function c argc argv private_mode term =
     (let amount = (if argv ! 0 = 0 then 1 else argv ! 0)
      in if c = 64 then csi_insert_characters amount term
         else if c = 74 then csi_erase_display (argv ! 0) term
         else if c = 75 then csi_erase_line (argv ! 0) term
         else if c = 76 then guac_terminal_scroll_down (t_cursor_row term) (t_scroll_end term) amount term
         else if c = 77 then guac_terminal_scroll_up (t_cursor_row term) (t_scroll_end term) amount term
         else if c = 80 then csi_delete_characters amount term
         else if c = 88
         then guac_terminal_clear_columns (t_cursor_row term) (t_cursor_col term)
                (s32 (t_cursor_col term + amount - 1)) term
         else if c = 99
         then Some (if argv ! 0 = 0 \<and> private_mode = 0
                    then snd (guac_terminal_send_string GUAC_TERMINAL_VT102_ID term) else term)
         else if c = 103
         then Some (if argv ! 0 = 0 then guac_terminal_unset_tab (t_cursor_col term) term
                    else if argv ! 0 = 3 then guac_terminal_clear_tabs term else term)
         else if c = 104 then Some (set_flag (argv ! 0) private_mode True term)
         else if c = 108 then Some (set_flag (argv ! 0) private_mode False term)
         else if c = 109
         then Some (term\<lparr>t_current_attributes := sgr_loop (t_display term) (ch_attributes (t_default_char term))
                (take argc argv) (t_current_attributes term)\<rparr>)
         else if c = 110 then Some (csi_report (argv ! 0) private_mode term)
         else if c = 114 then Some (csi_scroll_region argc argv term)
         else if c = 115
         then Some (term\<lparr>t_saved_cursor_row := t_cursor_row term, t_saved_cursor_col := t_cursor_col term\<rparr>)
         else if c = 117
         then Some (guac_terminal_move_cursor (t_saved_cursor_row term) (t_saved_cursor_col term) term)
         else Some (csi_move c argv amount term))"

definition csi_finish :: "byte \<Rightarrow> guac_terminal \<Rightarrow> guac_terminal" where
  "csi_finish c term =
     (if c = 59 then term
      else
        (let s = t_statics term
         in to_echo (term\<lparr>t_statics := s\<lparr>csi_argv := replicate (csi_argc s) 0 @ drop (csi_argc s) (csi_argv s),
                csi_private_mode := 0, csi_argc := 0, csi_argv_buffer := []\<rparr>\<rparr>)))"

text \<open>The end of a parameter; at most 16 are kept.\<close>

definition csi_parameter :: "handler_statics \<Rightarrow> handler_statics" where
  "csi_parameter s =
     (if csi_argc s < 16
      then s\<lparr>csi_argv := (csi_argv s)[csi_argc s := atoi (csi_argv_buffer s)], csi_argc := csi_argc s + 1,
             csi_argv_buffer := []\<rparr>
      else s)"

definition guac_terminal_csi :: "byte \<Rightarrow> guac_terminal \<Rightarrow> guac_terminal option" where
  "guac_terminal_csi c term =
     (let s = t_statics term
      in if 48 \<le> c \<and> c \<le> 57
         then Some (if length (csi_argv_buffer s) < 255
                    then term\<lparr>t_statics := s\<lparr>csi_argv_buffer := csi_argv_buffer s @ [c]\<rparr>\<rparr> else term)
         else if (0x40 \<le> c \<and> c \<le> 0x7E) \<or> c = 59
         then
           (let s = csi_parameter s
            in map_option (csi_finish c)
                 (csi_function c (csi_argc s) (csi_argv s) (csi_private_mode s) (term\<lparr>t_statics := s\<rparr>)))
         else if 0x3A \<le> c \<and> c \<le> 0x3F \<and> csi_private_mode s = 0
         then Some (term\<lparr>t_statics := s\<lparr>csi_private_mode := c\<rparr>\<rparr>)
         else Some term)"

subsection \<open>Operating system commands\<close>

definition string_terminator :: "byte \<Rightarrow> bool" where
  "string_terminator c \<longleftrightarrow> c = 0x9C \<or> c = 0x5C \<or> c = 0x07"

text \<open>The text collected so far is cut at its first null byte when it is used as a string.\<close>

definition c_text :: "byte list \<Rightarrow> byte list" where
  "c_text s = takeWhile (\<lambda>c. c \<noteq> 0) s"

definition guac_terminal_set_directory :: "terminal_env \<Rightarrow> byte \<Rightarrow> guac_terminal \<Rightarrow> guac_terminal option" where
  "guac_terminal_set_directory env c term =
     (let s = t_statics term
      in if string_terminator c
         then Some ((if env_upload_path_handler env
                     then emit [Upload_Path (c_text (directory_filename s))] (to_echo term) else to_echo term)
                    \<lparr>t_statics := s\<lparr>directory_filename := []\<rparr>\<rparr>)
         else Some (if length (directory_filename s) < 2047
                    then term\<lparr>t_statics := s\<lparr>directory_filename := directory_filename s @ [c]\<rparr>\<rparr> else term))"

definition guac_terminal_download :: "terminal_env \<Rightarrow> byte \<Rightarrow> guac_terminal \<Rightarrow> guac_terminal option" where
  "guac_terminal_download env c term =
     (let s = t_statics term
      in if string_terminator c
         then Some ((if env_file_download_handler env
                     then emit [Download_File (c_text (download_filename s))] (to_echo term) else to_echo term)
                    \<lparr>t_statics := s\<lparr>download_filename := []\<rparr>\<rparr>)
         else Some (if length (download_filename s) < 2047
                    then term\<lparr>t_statics := s\<lparr>download_filename := download_filename s @ [c]\<rparr>\<rparr> else term))"

definition guac_terminal_open_pipe_stream :: "byte \<Rightarrow> guac_terminal \<Rightarrow> guac_terminal option" where
  "guac_terminal_open_pipe_stream c term =
     (let s = t_statics term
      in if string_terminator c
         then do {
           term \<leftarrow> guac_terminal_pipe_stream_open (c_text (pipe_param s)) (pipe_flags s)
                    (term\<lparr>t_statics := s\<lparr>pipe_param := []\<rparr>\<rparr>);
           Some (to_echo (term\<lparr>t_statics := (t_statics term)\<lparr>pipe_flags := 0\<rparr>\<rparr>))
         }
         else if c = 59
         then Some (term\<lparr>t_statics := s\<lparr>pipe_param := [], pipe_flags := pipe_flags s OR atoi (c_text (pipe_param s))\<rparr>\<rparr>)
         else Some (if length (pipe_param s) < 2047
                    then term\<lparr>t_statics := s\<lparr>pipe_param := pipe_param s @ [c]\<rparr>\<rparr> else term))"

definition guac_terminal_close_pipe_stream :: "byte \<Rightarrow> guac_terminal \<Rightarrow> guac_terminal option" where
  "guac_terminal_close_pipe_stream c term =
     Some (if string_terminator c then to_echo (guac_terminal_pipe_stream_close term) else term)"

definition guac_terminal_set_scrollback :: "byte \<Rightarrow> guac_terminal \<Rightarrow> guac_terminal option" where
  "guac_terminal_set_scrollback c term =
     (let s = t_statics term
      in if string_terminator c
         then Some (to_echo (scrollbar_refit
                (term\<lparr>t_statics := s\<lparr>scrollback_param := []\<rparr>,
                      t_requested_scrollback := atoi (c_text (scrollback_param s))\<rparr>)))
         else Some (if length (scrollback_param s) < 15
                    then term\<lparr>t_statics := s\<lparr>scrollback_param := scrollback_param s @ [c]\<rparr>\<rparr> else term))"

definition guac_terminal_window_title :: "byte \<Rightarrow> guac_terminal \<Rightarrow> guac_terminal option" where
  "guac_terminal_window_title c term =
     (let s = t_statics term
      in if string_terminator c
         then Some (to_echo (emit [Connection_Name (c_text (title_text s))]
                (term\<lparr>t_statics := s\<lparr>title_text := []\<rparr>\<rparr>)))
         else Some (if length (title_text s) < 4095
                    then term\<lparr>t_statics := s\<lparr>title_text := title_text s @ [c]\<rparr>\<rparr> else term))"

definition guac_terminal_xterm_palette :: "byte \<Rightarrow> guac_terminal \<Rightarrow> guac_terminal option" where
  "guac_terminal_xterm_palette c term =
     (let s = t_statics term;
          term =
            (if \<not> palette_read_spec s
             then
               (if 48 \<le> c \<and> c \<le> 57
                then term\<lparr>t_statics := s\<lparr>palette_color_index := s32 (palette_color_index s * 10 + uint c - 48)\<rparr>\<rparr>
                else if c = 59 then term\<lparr>t_statics := s\<lparr>palette_read_spec := True, palette_spec := []\<rparr>\<rparr>
                else term)
             else
               (if c = 59 \<or> string_terminator c
                then
                  (case guac_terminal_xparsecolor (c_text (palette_spec s)) of
                     Some color \<Rightarrow> term\<lparr>t_display :=
                       snd (guac_terminal_display_assign_color (palette_color_index s) color (t_display term))\<rparr>
                   | None \<Rightarrow> term)\<lparr>t_statics := s\<lparr>palette_read_spec := False, palette_color_index := 0\<rparr>\<rparr>
                else if length (palette_spec s) < 255
                then term\<lparr>t_statics := s\<lparr>palette_spec := palette_spec s @ [c]\<rparr>\<rparr>
                else term))
      in Some (if string_terminator c then to_echo term else term))"

definition osc_handler :: "int \<Rightarrow> char_handler option" where
  "osc_handler operation =
     (if operation = 482200 then Some handler_download
      else if operation = 482201 then Some handler_set_directory
      else if operation = 482202 then Some handler_open_pipe_stream
      else if operation = 482203 then Some handler_close_pipe_stream
      else if operation = 482204 then Some handler_set_scrollback
      else if operation = 0 \<or> operation = 2 then Some handler_window_title
      else if operation = 4 then Some handler_xterm_palette
      else None)"

definition guac_terminal_osc :: "byte \<Rightarrow> guac_terminal \<Rightarrow> guac_terminal option" where
  "guac_terminal_osc c term =
     (let s = t_statics term
      in Some
        (if 48 \<le> c \<and> c \<le> 57
         then term\<lparr>t_statics := s\<lparr>osc_operation := s32 (osc_operation s * 10 + uint c - 48)\<rparr>\<rparr>
         else if c = 59
         then (case osc_handler (osc_operation s) of
                 Some h \<Rightarrow> term\<lparr>t_char_handler := h\<rparr>
               | None \<Rightarrow> term)\<lparr>t_statics := s\<lparr>osc_operation := 0\<rparr>\<rparr>
         else to_echo term))"

text \<open>
  The alignment test fills the screen with a character whose width is never set: undefined, when
  the terminal has a row.
\<close>

definition guac_terminal_ctrl_func :: "byte \<Rightarrow> guac_terminal \<Rightarrow> guac_terminal option" where
  "guac_terminal_ctrl_func c term =
     (if c = 56 \<and> term_height term > 0 then None else Some (to_echo term))"

definition guac_terminal_apc :: "byte \<Rightarrow> guac_terminal \<Rightarrow> guac_terminal option" where
  "guac_terminal_apc c term =
     (let escaping = apc_escaping (t_statics term);
          term = (if escaping \<and> c = 92 then to_echo term else term)
      in Some (term\<lparr>t_statics := (t_statics term)\<lparr>apc_escaping := (c = 0x1B)\<rparr>\<rparr>))"

section \<open>The state machine\<close>

definition handle_char :: "terminal_env \<Rightarrow> byte \<Rightarrow> guac_terminal \<Rightarrow> guac_terminal option" where
  "handle_char env c term =
     (case t_char_handler term of
        handler_echo \<Rightarrow> guac_terminal_echo env c term
      | handler_escape \<Rightarrow> guac_terminal_escape c term
      | handler_g0_charset \<Rightarrow> guac_terminal_g0_charset c term
      | handler_g1_charset \<Rightarrow> guac_terminal_g1_charset c term
      | handler_csi \<Rightarrow> guac_terminal_csi c term
      | handler_osc \<Rightarrow> guac_terminal_osc c term
      | handler_download \<Rightarrow> guac_terminal_download env c term
      | handler_set_directory \<Rightarrow> guac_terminal_set_directory env c term
      | handler_open_pipe_stream \<Rightarrow> guac_terminal_open_pipe_stream c term
      | handler_close_pipe_stream \<Rightarrow> guac_terminal_close_pipe_stream c term
      | handler_set_scrollback \<Rightarrow> guac_terminal_set_scrollback c term
      | handler_window_title \<Rightarrow> guac_terminal_window_title c term
      | handler_xterm_palette \<Rightarrow> guac_terminal_xterm_palette c term
      | handler_ctrl_func \<Rightarrow> guac_terminal_ctrl_func c term
      | handler_apc \<Rightarrow> guac_terminal_apc c term)"

text \<open>One round of the loop of \<open>guac_terminal_write\<close>.\<close>

definition write_byte :: "terminal_env \<Rightarrow> byte \<Rightarrow> guac_terminal \<Rightarrow> guac_terminal option" where
  "write_byte env c term =
     handle_char env c
       (term\<lparr>t_typescript := map_option (\<lambda>ts. guac_terminal_typescript_write ts c) (t_typescript term)\<rparr>)"

definition guac_terminal_write :: "terminal_env \<Rightarrow> byte list \<Rightarrow> guac_terminal \<Rightarrow> guac_terminal option" where
  "guac_terminal_write env data term =
     map_option guac_terminal_notify (each (write_byte env) data term)"

end
