(* ===== verification/Term_Safe.thy ===== *)
theory Term_Safe
  imports Term_Cells Term_Handlers
begin

text \<open>
  Memory safety of the terminal: an invariant of its screen that every operation keeps, with the
  conditions under which the operation stays within the arrays of the buffer and of the display.
\<close>

section \<open>The screen\<close>

text \<open>
  The widths of the characters in the buffer. A continuation cell has width 0.
\<close>

definition width_ok :: "guac_terminal_char \<Rightarrow> bool" where
  "width_ok c \<longleftrightarrow> 0 \<le> ch_width c \<and> ch_width c \<le> 2"

definition screen_ok :: "guac_terminal \<Rightarrow> bool" where
  "screen_ok term \<longleftrightarrow>
     2 \<le> term_width term \<and> term_width term \<le> GUAC_TERMINAL_MAX_COLUMNS
     \<and> 2 \<le> term_height term \<and> term_height term \<le> GUAC_TERMINAL_MAX_ROWS
     \<and> display_ok (t_display term)
     \<and> disp_width (t_display term) = term_width term \<and> disp_height (t_display term) = term_height term
     \<and> buffer_ok (t_buffer term) \<and> buffer_keeps width_ok (t_buffer term)
     \<and> GUAC_TERMINAL_MAX_ROWS \<le> buf_available (t_buffer term)
     \<and> ch_width (t_default_char term) = 1"

text \<open>The length of a row of the screen or of the scrollback.\<close>

definition row_len :: "guac_terminal \<Rightarrow> int \<Rightarrow> int" where
  "row_len term row = row_length (buffer_row (t_buffer term) row)"

text \<open>The rows of the screen up to \<open>k\<close> are as long as the screen is wide.\<close>

definition rows_wide :: "int \<Rightarrow> guac_terminal \<Rightarrow> bool" where
  "rows_wide k term \<longleftrightarrow> (\<forall>r. 0 \<le> r \<and> r < k \<longrightarrow> term_width term \<le> row_len term r)"

text \<open>
  What the operations on the screen leave alone: \<open>core\<close> is the terminal with everything they
  change replaced by fixed values.
\<close>

definition core :: "guac_terminal \<Rightarrow> guac_terminal" where
  "core term = term\<lparr>t_modified := False, t_buffer := guac_terminal_buffer_alloc 0 (plain_char 0 1),
     t_display := demo_display 0 0,
     t_selection := \<lparr>sel_text_selected = False, sel_committed = False, sel_start_row = 0,
       sel_start_column = 0, sel_start_width = 0, sel_end_row = 0, sel_end_column = 0, sel_end_width = 0\<rparr>\<rparr>"

lemma core_fields:
  assumes "core a = core b"
  shows "term_width a = term_width b" "term_height a = term_height b" "t_scroll_offset a = t_scroll_offset b"
    "t_scroll_start a = t_scroll_start b" "t_scroll_end a = t_scroll_end b"
    "t_cursor_row a = t_cursor_row b" "t_cursor_col a = t_cursor_col b"
    "t_visible_cursor_row a = t_visible_cursor_row b" "t_visible_cursor_col a = t_visible_cursor_col b"
    "t_default_char a = t_default_char b" "t_current_attributes a = t_current_attributes b"
  using assms[THEN arg_cong, of term_width] assms[THEN arg_cong, of term_height]
    assms[THEN arg_cong, of t_scroll_offset] assms[THEN arg_cong, of t_scroll_start]
    assms[THEN arg_cong, of t_scroll_end] assms[THEN arg_cong, of t_cursor_row]
    assms[THEN arg_cong, of t_cursor_col] assms[THEN arg_cong, of t_visible_cursor_row]
    assms[THEN arg_cong, of t_visible_cursor_col] assms[THEN arg_cong, of t_default_char]
    assms[THEN arg_cong, of t_current_attributes]
  by (simp_all add: core_def)

lemma core_upd [simp]:
  "core (term\<lparr>t_modified := m\<rparr>) = core term"
  "core (term\<lparr>t_buffer := buf\<rparr>) = core term"
  "core (term\<lparr>t_display := d\<rparr>) = core term"
  "core (term\<lparr>t_selection := sel\<rparr>) = core term"
  by (simp_all add: core_def)

lemma core_notify [simp]: "core (guac_terminal_notify term) = core term"
  by (simp add: guac_terminal_notify_def)

lemma core_touch [simp]: "core (guac_terminal_select_touch a b c d term) = core term"
  by (simp add: guac_terminal_select_touch_def)

lemma touch_simps [simp]:
  "t_buffer (guac_terminal_select_touch a b c d term) = t_buffer term"
  "t_display (guac_terminal_select_touch a b c d term) = t_display term"
  "term_width (guac_terminal_select_touch a b c d term) = term_width term"
  "term_height (guac_terminal_select_touch a b c d term) = term_height term"
  "t_default_char (guac_terminal_select_touch a b c d term) = t_default_char term"
  by (simp_all add: guac_terminal_select_touch_def guac_terminal_notify_def)

text \<open>
  What a change of characters leaves: the same terminal with rows at least as long.
\<close>

definition advances :: "guac_terminal \<Rightarrow> guac_terminal \<Rightarrow> bool" where
  "advances term term' \<longleftrightarrow>
     screen_ok term' \<and> core term' = core term
     \<and> (\<forall>r. buffer_index (t_buffer term') r = buffer_index (t_buffer term) r)
     \<and> (\<forall>r. row_len term r \<le> row_len term' r)"

lemma advancesD:
  assumes "advances term term'"
  shows "screen_ok term'" "core term' = core term"
    "buffer_index (t_buffer term') r = buffer_index (t_buffer term) r"
    "row_len term r \<le> row_len term' r"
  using assms by (simp_all add: advances_def)

lemma advances_refl: "screen_ok term \<Longrightarrow> advances term term"
  by (simp add: advances_def)

lemma advances_trans: "advances a b \<Longrightarrow> advances b c \<Longrightarrow> advances a c"
  unfolding advances_def by (metis order_trans)

lemma advances_wide: "advances a b \<Longrightarrow> rows_wide k a \<Longrightarrow> rows_wide k b"
  using core_fields(1)[OF advancesD(2)[of a b]] unfolding rows_wide_def by (metis advancesD(4) order_trans)

section \<open>Characters\<close>

lemma display_set_columns_safe:
  assumes "display_ok d" and "0 < ch_width c"
  shows "\<exists>d'. guac_terminal_display_set_columns d row s e c = Some d' \<and> display_ok d'
    \<and> disp_width d' = disp_width d \<and> disp_height d' = disp_height d"
proof (cases "row < 0 \<or> row \<ge> disp_height d")
  case True
  then show ?thesis using assms by (auto simp: guac_terminal_display_set_columns_def)
next
  case False
  then show ?thesis using display_set_columns_ops[OF assms, of row _ s _ e] assms(1) by fastforce
qed

lemma internal_set_columns_safe:
  assumes "screen_ok term" and "0 < ch_width c" and "ch_width c \<le> 2" and "0 \<le> s" and "e + 1 < 2 ^ 30"
    and "s \<le> e \<Longrightarrow> s + int (char_rounds s e (ch_width c)) * ch_width c \<le> max (e + 1) 256"
  shows "\<exists>term'. internal_set_columns row s e c term = Some term' \<and> advances term term' \<and> e + 1 \<le> row_len term' row"
proof -
  obtain d where d: "guac_terminal_display_set_columns (t_display term) (row + t_scroll_offset term) s e c = Some d"
    "display_ok d" "disp_width d = disp_width (t_display term)" "disp_height d = disp_height (t_display term)"
    using display_set_columns_safe assms(1,2) by (metis screen_ok_def)
  have "width_ok c" "width_ok (continuation_char c)" using assms(2,3) by (auto simp: width_ok_def continuation_char_def)
  then obtain buf where buf: "guac_terminal_buffer_set_columns (t_buffer term) row s e c = Some buf"
    and rep: "row_replaced width_ok (t_buffer term) row (e + 1) buf"
    using set_columns_replaced[of "t_buffer term" width_ok c e s row] assms by (auto simp: screen_ok_def)
  let ?t = "guac_terminal_select_touch row s row e (term\<lparr>t_display := d, t_buffer := buf\<rparr>)"
  have "internal_set_columns row s e c term = Some ?t"
    using d(1) buf by (simp add: internal_set_columns_def on_disp_def on_buf_def)
  moreover have "advances term ?t"
    using assms(1) d(2-) row_replacedD[OF rep] by (auto simp: advances_def screen_ok_def row_len_def)
  moreover have "e + 1 \<le> row_len ?t row" using row_replacedD(7)[OF rep, of row] by (simp add: row_len_def)
  ultimately show ?thesis by blast
qed

lemma char_rounds_one: "s \<le> e \<Longrightarrow> s + int (char_rounds s e 1) * 1 = e + 1"
  by (simp add: char_rounds_def)

lemma internal_set_narrow:
  assumes "screen_ok term" and "ch_width c = 1" and "0 \<le> s" and "e + 1 < 2 ^ 30"
  shows "\<exists>term'. internal_set_columns row s e c term = Some term' \<and> advances term term' \<and> e + 1 \<le> row_len term' row"
  by (rule internal_set_columns_safe) (use assms char_rounds_one[of s e] in auto)

section \<open>Breaking characters\<close>

lemma cell_get_row:
  assumes "row_ok r" and "0 \<le> i" and "i < row_length r"
  shows "\<exists>c. cell_get (row_characters r) i = Some c \<and> Some c \<in> set (row_characters r)"
proof -
  have i: "nat i < nat (row_length r)" "nat i < length (row_characters r)" using assms by (auto simp: row_ok_def)
  then have "row_characters r ! nat i \<noteq> None" using assms(1) unfolding row_ok_def by blast
  then obtain c where c: "row_characters r ! nat i = Some c" by blast
  then have "cell_get (row_characters r) i = Some c" using i assms(2) by (auto simp: cell_get_def)
  with c i show ?thesis by (metis nth_mem)
qed

lemma char_start_safe:
  assumes "row_ok r" and "0 \<le> i" and "i < row_length r"
  shows "\<exists>k. char_start (row_characters r) i = Some k \<and> 0 \<le> k \<and> k \<le> i"
  using assms(2,3)
proof (induction "nat i" arbitrary: i)
  case 0
  then have "i = 0" by simp
  with cell_get_row[OF assms(1) 0(2,3)] show ?case by (subst char_start.simps) auto
next
  case (Suc n)
  obtain c where c: "cell_get (row_characters r) i = Some c" using cell_get_row[OF assms(1) Suc.prems] by blast
  show ?case
  proof (cases "i > 0 \<and> ch_value c = GUAC_CHAR_CONTINUATION")
    case True
    have "\<exists>k. char_start (row_characters r) (i - 1) = Some k \<and> 0 \<le> k \<and> k \<le> i - 1"
      by (rule Suc.hyps) (use Suc True in auto)
    then show ?thesis using True c by (subst char_start.simps) auto
  next
    case False
    then show ?thesis using c Suc.prems by (subst char_start.simps) auto
  qed
qed

lemma char_end_safe:
  assumes "row_ok r" and "0 \<le> i" and "i < row_length r"
  shows "\<exists>k. char_end (row_characters r) (row_length r) i = Some k \<and> i \<le> k \<and> k < row_length r"
  using assms(2,3)
proof (induction "nat (row_length r - i)" arbitrary: i rule: less_induct)
  case less
  show ?case
  proof (cases "i + 1 < row_length r")
    case False
    then show ?thesis using less.prems by (subst char_end.simps) auto
  next
    case True
    obtain c where c: "cell_get (row_characters r) (i + 1) = Some c"
      using cell_get_row[OF assms(1), of "i + 1"] True less.prems by auto
    have "\<exists>k. char_end (row_characters r) (row_length r) (i + 1) = Some k \<and> i + 1 \<le> k \<and> k < row_length r"
      by (rule less.hyps) (use True less.prems in auto)
    then show ?thesis using True c less.prems by (subst char_end.simps) auto
  qed
qed

lemma row_at_index: "row_at (buffer_index (t_buffer term) row) term = buffer_row (t_buffer term) row"
  by (simp add: buffer_row_def)

lemma screen_row:
  assumes "screen_ok term"
  shows "row_ok (buffer_row (t_buffer term) row)" "row_keeps width_ok (buffer_row (t_buffer term) row)"
    "0 \<le> row_len term row" "row_len term row < 2 ^ 30"
  using buffer_row_ok[of "t_buffer term" row] buffer_row_keeps[of "t_buffer term" width_ok row] assms
  by (simp_all add: screen_ok_def row_len_def row_ok_def)

lemma clear_if_broken_safe:
  assumes "screen_ok term" and "0 \<le> s" and "s \<le> e" and "e < row_len term row"
    and "index = buffer_index (t_buffer term) row"
  shows "\<exists>term'. clear_if_broken row index s e term = Some term' \<and> advances term term'"
proof -
  note row = screen_row[OF assms(1), of row]
  have at: "row_at index term = buffer_row (t_buffer term) row" by (simp add: assms(5) row_at_index)
  obtain c where c: "cell_get (row_characters (buffer_row (t_buffer term) row)) s = Some c"
    "Some c \<in> set (row_characters (buffer_row (t_buffer term) row))"
    using cell_get_row[OF row(1), of s] assms(2-4) by (auto simp: row_len_def)
  have w: "0 \<le> ch_width c" using row(2) c(2) by (auto simp: row_keeps_def width_ok_def)
  define s' where "s' = (if ch_value c \<noteq> GUAC_CHAR_CONTINUATION \<and> ch_width c < e - s + 1 then s + ch_width c else s)"
  have s': "0 \<le> s'" "s' \<le> e" using w assms(2,3) by (auto simp: s'_def)
  obtain c' where c': "cell_get (row_characters (buffer_row (t_buffer term) row)) s' = Some c'"
    using cell_get_row[OF row(1), of s'] s' assms(4) by (auto simp: row_len_def)
  define b where "b = \<lparr>ch_value = 32, ch_attributes = ch_attributes c', ch_width = 1\<rparr>"
  have "\<exists>t. internal_set_columns row s' e b term = Some t \<and> advances term t \<and> e + 1 \<le> row_len t row"
    by (rule internal_set_narrow) (use assms(1,4) s'(1) row(4) in \<open>auto simp: b_def\<close>)
  then obtain t where t: "internal_set_columns row s' e b term = Some t" "advances term t" by blast
  have "clear_if_broken row index s e term =
      (if ch_value c' = GUAC_CHAR_CONTINUATION \<or> ch_width c' \<noteq> e - s' + 1 then internal_set_columns row s' e b term
       else Some term)"
    by (simp only: clear_if_broken_def at Let_def c(1) bind.bind_lunit s'_def[symmetric] c' b_def)
  with t advances_refl[OF assms(1)] show ?thesis by auto
qed

lemma term_get_row_safe:
  assumes "screen_ok term" and "width < 2 ^ 30"
  shows "\<exists>term'. term_get_row row width term = Some (buffer_index (t_buffer term) row, term')
    \<and> advances term term' \<and> width \<le> row_len term' row"
proof -
  obtain buf where buf: "guac_terminal_buffer_get_row (t_buffer term) row width = Some (buffer_index (t_buffer term) row, buf)"
    and rep: "row_replaced width_ok (t_buffer term) row width buf"
    using get_row_replaced[of "t_buffer term" width_ok width row] assms by (auto simp: screen_ok_def)
  have "advances term (term\<lparr>t_buffer := buf\<rparr>)"
    using assms(1) row_replacedD[OF rep] by (auto simp: advances_def screen_ok_def row_len_def)
  moreover have "width \<le> row_len (term\<lparr>t_buffer := buf\<rparr>) row"
    using row_replacedD(7)[OF rep, of row] by (simp add: row_len_def)
  ultimately show ?thesis using buf by (simp add: term_get_row_def)
qed

lemma force_break_safe:
  assumes "screen_ok term" and "edge \<le> row_len term row"
  shows "\<exists>term'. force_break row edge term = Some term' \<and> advances term term'"
proof -
  let ?i = "buffer_index (t_buffer term) row"
  obtain t1 where t1: "term_get_row row 0 term = Some (?i, t1)" "advances term t1"
    using term_get_row_safe[OF assms(1), of 0 row] by auto
  note ok1 = advancesD(1)[OF t1(2)]
  have i1: "?i = buffer_index (t_buffer t1) row" using advancesD(3)[OF t1(2)] by simp
  have "\<exists>t2. (if edge > 0
          then do {
            start_column \<leftarrow> char_start (row_characters (row_at ?i t1)) (edge - 1);
            clear_if_broken row ?i start_column (edge - 1) t1
          }
          else Some t1) = Some t2 \<and> advances t1 t2"
  proof (cases "edge > 0")
    case True
    have e: "0 \<le> edge - 1" "edge - 1 < row_len t1 row"
      using True assms(2) advancesD(4)[OF t1(2), of row] by linarith+
    obtain k where k: "char_start (row_characters (buffer_row (t_buffer t1) row)) (edge - 1) = Some k"
      "0 \<le> k" "k \<le> edge - 1"
      using char_start_safe[OF screen_row(1)[OF ok1] e(1), of row] e(2) by (auto simp: row_len_def)
    then show ?thesis
      using True clear_if_broken_safe[OF ok1 k(2,3) e(2) i1] by (simp add: i1 row_at_index)
  qed (use advances_refl[OF ok1] in simp)
  then obtain t2 where t2: "(if edge > 0
          then do {
            start_column \<leftarrow> char_start (row_characters (row_at ?i t1)) (edge - 1);
            clear_if_broken row ?i start_column (edge - 1) t1
          }
          else Some t1) = Some t2" "advances t1 t2"
    by blast
  note ok2 = advancesD(1)[OF t2(2)]
  have i2: "?i = buffer_index (t_buffer t2) row" using advancesD(3)[OF t2(2)] i1 by simp
  have "\<exists>t3. (if edge \<ge> 0 \<and> edge < row_length (row_at ?i t2)
        then do {
          end_column \<leftarrow> char_end (row_characters (row_at ?i t2)) (row_length (row_at ?i t2)) edge;
          clear_if_broken row ?i edge end_column t2
        }
        else Some t2) = Some t3 \<and> advances t2 t3"
  proof (cases "edge \<ge> 0 \<and> edge < row_length (row_at ?i t2)")
    case True
    obtain k where k: "char_end (row_characters (buffer_row (t_buffer t2) row)) (row_length (buffer_row (t_buffer t2) row)) edge = Some k"
      "edge \<le> k" "k < row_len t2 row"
      using char_end_safe[OF screen_row(1)[OF ok2], of edge row] True by (auto simp: i2 row_at_index row_len_def)
    then show ?thesis
      using True clear_if_broken_safe[OF ok2 _ k(2,3) i2] by (simp add: i2 row_at_index)
  next
    case False
    then show ?thesis using advances_refl[OF ok2] by (subst if_not_P) auto
  qed
  then obtain t3 where t3: "(if edge \<ge> 0 \<and> edge < row_length (row_at ?i t2)
        then do {
          end_column \<leftarrow> char_end (row_characters (row_at ?i t2)) (row_length (row_at ?i t2)) edge;
          clear_if_broken row ?i edge end_column t2
        }
        else Some t2) = Some t3" "advances t2 t3"
    by blast
  have "force_break row edge term = Some t3"
    unfolding force_break_def t1(1) using t2(1) t3(1) by simp
  with advances_trans[OF t1(2) advances_trans[OF t2(2) t3(2)]] show ?thesis by blast
qed

section \<open>Ranges\<close>

lemma set_columns_safe:
  assumes "screen_ok term" and "0 < ch_width c" and "0 \<le> s" and "e + 1 < 2 ^ 30"
    and "ch_width c = 1 \<or> ch_width c = 2 \<and> e = s + 1 \<and> e + 2 \<le> 256"
    and "s \<le> max (e + 1) (row_len term row)"
  shows "\<exists>term'. guac_terminal_set_columns row s e c term = Some term' \<and> advances term term' \<and> e + 1 \<le> row_len term' row"
proof -
  have rounds: "x + int (char_rounds x y (ch_width c)) * ch_width c \<le> max (y + 1) 256"
    if "x \<le> y" "ch_width c = 1 \<or> y \<le> x + 1 \<and> x + 2 \<le> 256 \<and> ch_width c = 2" for x y
    using that by (auto simp: char_rounds_def)
  have "\<exists>t1. internal_set_columns row s e c term = Some t1 \<and> advances term t1 \<and> e + 1 \<le> row_len t1 row"
    by (rule internal_set_columns_safe[OF assms(1,2) _ assms(3,4)]) (use assms(5) rounds[of s e] in auto)
  then obtain t1 where t1: "internal_set_columns row s e c term = Some t1" "advances term t1" "e + 1 \<le> row_len t1 row"
    by blast
  note ok1 = advancesD(1)[OF t1(2)]
  let ?v = "t_visible_cursor_col t1"
  let ?c = "c\<lparr>ch_attributes := (ch_attributes c)\<lparr>at_cursor := True\<rparr>\<rparr>"
  let ?cond = "row = t_visible_cursor_row t1 \<and> ?v \<ge> s \<and> ?v \<le> e"
  have "\<exists>t2. (if ?cond then internal_set_columns row ?v ?v ?c t1 else Some t1) = Some t2 \<and> advances t1 t2"
  proof (cases ?cond)
    case True
    have "\<exists>t2. internal_set_columns row ?v ?v ?c t1 = Some t2 \<and> advances t1 t2 \<and> ?v + 1 \<le> row_len t2 row"
      by (rule internal_set_columns_safe[OF ok1]) (use assms(2-5) True rounds[of ?v ?v] in auto)
    with True show ?thesis by auto
  next
    case False
    then show ?thesis using advances_refl[OF ok1] by (subst if_not_P) auto
  qed
  then obtain t2 where t2: "(if ?cond then internal_set_columns row ?v ?v ?c t1 else Some t1) = Some t2" "advances t1 t2"
    by blast
  have "s \<le> row_len t2 row"
    using assms(6) t1(3) advancesD(4)[OF t1(2), of row] advancesD(4)[OF t2(2), of row] by linarith
  then obtain t3 where t3: "force_break row s t2 = Some t3" "advances t2 t3"
    using force_break_safe[OF advancesD(1)[OF t2(2)]] by blast
  have e3: "e + 1 \<le> row_len t3 row"
    using t1(3) advancesD(4)[OF t2(2), of row] advancesD(4)[OF t3(2), of row] by linarith
  then obtain t4 where t4: "force_break row (e + 1) t3 = Some t4" "advances t3 t4"
    using force_break_safe[OF advancesD(1)[OF t3(2)]] by blast
  have "guac_terminal_set_columns row s e c term = Some t4"
    unfolding guac_terminal_set_columns_def t1(1) bind.bind_lunit t2(1) t3(1) by (rule t4(1))
  moreover have "advances term t4"
    by (rule advances_trans[OF t1(2) advances_trans[OF t2(2) advances_trans[OF t3(2) t4(2)]]])
  moreover have "e + 1 \<le> row_len t4 row" using e3 advancesD(4)[OF t4(2), of row] by linarith
  ultimately show ?thesis by blast
qed

lemma clear_columns_safe:
  assumes "screen_ok term" and "0 \<le> s" and "e + 1 < 2 ^ 30" and "s \<le> max (e + 1) (row_len term row)"
  shows "\<exists>term'. guac_terminal_clear_columns row s e term = Some term' \<and> advances term term' \<and> e + 1 \<le> row_len term' row"
  unfolding guac_terminal_clear_columns_def by (rule set_columns_safe) (use assms in auto)

lemma screen_dims:
  assumes "screen_ok term"
  shows "2 \<le> term_width term" "term_width term \<le> 1024" "2 \<le> term_height term" "term_height term \<le> 1024"
  using assms by (simp_all add: screen_ok_def)

lemma clear_rows_safe:
  assumes "screen_ok term"
  shows "\<exists>term'. each (\<lambda>row term. guac_terminal_clear_columns row 0 (term_width term - 1) term) [a..b] term = Some term'
    \<and> advances term term' \<and> (\<forall>r. a \<le> r \<and> r \<le> b \<longrightarrow> term_width term \<le> row_len term' r)"
proof -
  let ?I = "\<lambda>xs t. advances term t \<and> (\<forall>r. a \<le> r \<and> r \<le> b \<and> r \<notin> set xs \<longrightarrow> term_width term \<le> row_len t r)"
  have step: "\<exists>t'. guac_terminal_clear_columns x 0 (term_width t - 1) t = Some t' \<and> ?I xs t'" if I: "?I (x # xs) t" for x xs t
  proof -
    have adv: "advances term t" using I by blast
    note ok = advancesD(1)[OF adv]
    have w: "term_width t = term_width term" by (rule core_fields(1)[OF advancesD(2)[OF adv]])
    have "\<exists>t'. guac_terminal_clear_columns x 0 (term_width t - 1) t = Some t' \<and> advances t t'
        \<and> term_width t - 1 + 1 \<le> row_len t' x"
      by (rule clear_columns_safe[OF ok]) (use screen_dims[OF ok] in auto)
    then obtain t' where t': "guac_terminal_clear_columns x 0 (term_width t - 1) t = Some t'" "advances t t'"
      "term_width term \<le> row_len t' x"
      using w by auto
    have "term_width term \<le> row_len t' r" if "a \<le> r \<and> r \<le> b \<and> r \<notin> set xs" for r
      using t'(3) I that advancesD(4)[OF t'(2), of r] by (cases "r = x") fastforce+
    with t' advances_trans[OF adv t'(2)] show ?thesis by blast
  qed
  have "?I [a..b] term" using advances_refl[OF assms] by auto
  from each_invariant[where I = ?I, OF step this] show ?thesis by auto
qed

lemma clear_range_safe:
  assumes "screen_ok term" and "0 \<le> start_col" and "start_col \<le> term_width term" and "0 \<le> end_col" and "end_col < 2 ^ 29"
  shows "\<exists>term'. guac_terminal_clear_range start_row start_col end_row end_col term = Some term' \<and> advances term term'
    \<and> (start_col = 0 \<and> end_col = term_width term - 1 \<longrightarrow>
        (\<forall>r. start_row \<le> r \<and> r \<le> end_row \<longrightarrow> term_width term \<le> row_len term' r))"
proof -
  note dims = screen_dims[OF assms(1)]
  obtain sr t1 where t1: "(if start_col > 0
          then do {
            term \<leftarrow> guac_terminal_clear_columns start_row start_col (term_width term - 1) term;
            Some (start_row + 1, term)
          }
          else Some (start_row, term)) = Some (sr, t1)" "advances term t1" "start_col = 0 \<longrightarrow> sr = start_row"
    using clear_columns_safe[OF assms(1,2), of "term_width term - 1" start_row] assms(3) dims advances_refl[OF assms(1)]
    by (cases "start_col > 0") fastforce+
  note ok1 = advancesD(1)[OF t1(2)]
  have w1: "term_width t1 = term_width term" by (rule core_fields(1)[OF advancesD(2)[OF t1(2)]])
  obtain er t2 where t2: "(if end_col < term_width t1 - 1
          then do {
            term \<leftarrow> guac_terminal_clear_columns end_row 0 end_col t1;
            Some (end_row - 1, term)
          }
          else Some (end_row, t1)) = Some (er, t2)" "advances t1 t2" "end_col = term_width term - 1 \<longrightarrow> er = end_row"
    using clear_columns_safe[OF ok1 order_refl, of end_col end_row] assms(4,5) w1 advances_refl[OF ok1]
    by (cases "end_col < term_width t1 - 1") fastforce+
  note ok2 = advancesD(1)[OF t2(2)]
  have w2: "term_width t2 = term_width term" using core_fields(1)[OF advancesD(2)[OF t2(2)]] w1 by simp
  obtain t3 where t3: "each (\<lambda>row term. guac_terminal_clear_columns row 0 (term_width term - 1) term) [sr..er] t2 = Some t3"
    "advances t2 t3" "\<forall>r. sr \<le> r \<and> r \<le> er \<longrightarrow> term_width term \<le> row_len t3 r"
    using clear_rows_safe[OF ok2, of sr er] w2 by auto
  have "guac_terminal_clear_range start_row start_col end_row end_col term = Some t3"
    unfolding guac_terminal_clear_range_def t1(1) bind.bind_lunit prod.case t2(1) by (rule t3(1))
  moreover have "advances term t3" by (rule advances_trans[OF t1(2) advances_trans[OF t2(2) t3(2)]])
  ultimately show ?thesis using t1(3) t2(3) t3(3) by blast
qed

section \<open>Copies\<close>

text \<open>
  Copies also move the visible cursor, and scrolling moves the selection and the bounds of the
  scrollbar. \<open>frame\<close> is what these leave alone.
\<close>

definition frame :: "guac_terminal \<Rightarrow> guac_terminal" where
  "frame term = (core term)\<lparr>t_visible_cursor_row := 0, t_visible_cursor_col := 0,
     t_scrollbar := guac_terminal_scrollbar_alloc 0 0 0\<rparr>"

lemma frame_core: "core a = core b \<Longrightarrow> frame a = frame b"
  by (simp add: frame_def)

lemma frame_upd [simp]:
  "frame (term\<lparr>t_visible_cursor_row := r\<rparr>) = frame term"
  "frame (term\<lparr>t_visible_cursor_col := c\<rparr>) = frame term"
  "frame (term\<lparr>t_scrollbar := sb\<rparr>) = frame term"
  by (simp_all add: frame_def core_def)

lemma frame_fields:
  assumes "frame a = frame b"
  shows "term_width a = term_width b" "term_height a = term_height b" "t_scroll_offset a = t_scroll_offset b"
    "t_scroll_start a = t_scroll_start b" "t_scroll_end a = t_scroll_end b"
    "t_cursor_row a = t_cursor_row b" "t_cursor_col a = t_cursor_col b"
    "t_default_char a = t_default_char b" "t_current_attributes a = t_current_attributes b"
  using assms[THEN arg_cong, of term_width] assms[THEN arg_cong, of term_height]
    assms[THEN arg_cong, of t_scroll_offset] assms[THEN arg_cong, of t_scroll_start]
    assms[THEN arg_cong, of t_scroll_end] assms[THEN arg_cong, of t_cursor_row]
    assms[THEN arg_cong, of t_cursor_col] assms[THEN arg_cong, of t_default_char]
    assms[THEN arg_cong, of t_current_attributes]
  by (simp_all add: frame_def core_def)

text \<open>The visible cursor may be anywhere above the screen, but not far to the right.\<close>

definition visible_ok :: "guac_terminal \<Rightarrow> bool" where
  "visible_ok term \<longleftrightarrow> 0 \<le> t_visible_cursor_col term \<and> t_visible_cursor_col term \<le> term_width term + 1"

definition screen_kept :: "guac_terminal \<Rightarrow> guac_terminal \<Rightarrow> bool" where
  "screen_kept term term' \<longleftrightarrow> screen_ok term' \<and> frame term' = frame term \<and> visible_ok term'"

lemma screen_keptD:
  assumes "screen_kept term term'"
  shows "screen_ok term'" "frame term' = frame term" "visible_ok term'"
  using assms by (simp_all add: screen_kept_def)

lemma screen_kept_trans: "screen_kept a b \<Longrightarrow> screen_kept b c \<Longrightarrow> screen_kept a c"
  by (simp add: screen_kept_def)

lemma advances_step: "advances a b \<Longrightarrow> visible_ok a \<Longrightarrow> screen_kept a b"
  using frame_core[of b a] core_fields[of b a] by (auto simp: screen_kept_def advances_def visible_ok_def)

lemma copy_columns_safe:
  assumes "screen_ok term" and "visible_ok term" and "s \<le> e + 1" and "0 \<le> s + offset" and "e + offset < term_width term"
    and "\<bar>offset\<bar> < term_width term" and "term_width term \<le> row_len term row" and "s + offset \<le> term_width term"
  shows "\<exists>term'. guac_terminal_copy_columns row s e offset term = Some term' \<and> screen_kept term term'
    \<and> (\<forall>r. row_len term r \<le> row_len term' r)"
proof -
  note dims = screen_dims[OF assms(1)]
  have d: "\<exists>d. guac_terminal_display_copy_columns (t_display term) (row + t_scroll_offset term) s e offset = Some d
      \<and> display_ok d \<and> disp_width d = disp_width (t_display term) \<and> disp_height d = disp_height (t_display term)"
  proof (cases "row + t_scroll_offset term < 0 \<or> row + t_scroll_offset term \<ge> disp_height (t_display term)")
    case True
    then show ?thesis using assms(1) by (auto simp: guac_terminal_display_copy_columns_def screen_ok_def)
  next
    case False
    have ok: "display_ok (t_display term)" "disp_width (t_display term) = term_width term"
      using assms(1) by (simp_all add: screen_ok_def)
    obtain s' e' where fit: "fit_copy_range s e offset (disp_width (t_display term) - 1) = (s', e')" by fastforce
    have "0 \<le> disp_width (t_display term) - 1" "\<bar>offset\<bar> \<le> disp_width (t_display term) - 1"
      using assms(6) dims ok(2) by linarith+
    note safe = fit_copy_range_safe[OF fit this assms(3)]
    show ?thesis
      using display_copy_columns_ops[OF ok(1) _ _ fit safe(1) safe(5) _ safe(3), of "row + t_scroll_offset term"]
        False safe(2,4) ok(1)
      by fastforce
  qed
  then obtain d where d: "guac_terminal_display_copy_columns (t_display term) (row + t_scroll_offset term) s e offset = Some d"
    "display_ok d" "disp_width d = disp_width (t_display term)" "disp_height d = disp_height (t_display term)"
    by blast
  have b: "buffer_ok (t_buffer term)" "buffer_keeps width_ok (t_buffer term)" using assms(1) by (simp_all add: screen_ok_def)
  obtain buf where buf: "guac_terminal_buffer_copy_columns (t_buffer term) row s e offset = Some buf"
    and rep: "row_replaced width_ok (t_buffer term) row (e + offset + 1) buf"
    using copy_columns_replaced[OF b, of e offset s row] assms(3,5-7) dims by (auto simp: row_len_def max_def)
  let ?t1 = "guac_terminal_select_touch row s row e (term\<lparr>t_display := d, t_buffer := buf\<rparr>)"
  let ?cond = "row = t_visible_cursor_row ?t1 \<and> t_visible_cursor_col ?t1 \<ge> s \<and> t_visible_cursor_col ?t1 \<le> e"
  define t2 where "t2 = (if ?cond then ?t1\<lparr>t_visible_cursor_col := t_visible_cursor_col ?t1 + offset\<rparr> else ?t1)"
  have v1: "t_visible_cursor_col ?t1 = t_visible_cursor_col term"
    using core_fields(9)[of ?t1 "term"] by simp
  have ok2: "screen_ok t2" using assms(1) d(2-) row_replacedD[OF rep] by (auto simp: t2_def screen_ok_def)
  have len2: "row_len term r \<le> row_len t2 r" for r using row_replacedD[OF rep] by (auto simp: t2_def row_len_def)
  have frame2: "frame t2 = frame term"
  proof -
    have "frame t2 = frame ?t1" by (simp add: t2_def)
    also have "\<dots> = frame term" by (rule frame_core) simp
    finally show ?thesis .
  qed
  have w2: "term_width t2 = term_width term" by (rule frame_fields(1)[OF frame2])
  have vis2: "visible_ok t2"
    using assms(2,4,5) v1 w2 by (auto simp: visible_ok_def t2_def split: if_splits)
  have row2: "term_width term \<le> row_len t2 row" using assms(7) len2[of row] by linarith
  obtain t3 where t3: "force_break row (s + offset) t2 = Some t3" "advances t2 t3"
    using force_break_safe[OF ok2, of "s + offset" row] row2 assms(8) by auto
  have "e + offset + 1 \<le> row_len t3 row" using advancesD(4)[OF t3(2), of row] row2 assms(5) by linarith
  then obtain t4 where t4: "force_break row (e + offset + 1) t3 = Some t4" "advances t3 t4"
    using force_break_safe[OF advancesD(1)[OF t3(2)]] by blast
  have buf': "guac_terminal_buffer_copy_columns (t_buffer (term\<lparr>t_display := d\<rparr>)) row s e offset = Some buf"
    using buf by simp
  have "guac_terminal_copy_columns row s e offset term = Some t4"
    by (simp only: guac_terminal_copy_columns_def on_disp_def on_buf_def bind.bind_lunit d(1) buf' t3(1) t4(1)
        Let_def t2_def[symmetric])
  moreover have adv: "advances t2 t4" by (rule advances_trans[OF t3(2) t4(2)])
  moreover have "screen_kept term t4"
    using screen_keptD[OF advances_step[OF adv vis2]] frame2 by (simp add: screen_kept_def)
  moreover have "row_len term r \<le> row_len t4 r" for r using len2[of r] advancesD(4)[OF adv, of r] by linarith
  ultimately show ?thesis by blast
qed

end
