(* ===== verification/Common_Rect.thy ===== *)
theory Common_Rect
  imports Guac_Prelude
begin

text \<open>
  Rectangles of pixels (\<open>src/common/rect.c\<close>). A function that changes a rectangle in place returns
  the changed one. Coordinates are unbounded integers; the properties about surfaces assume coordinates and sizes
  of at most 8192, for which no sum or product of the code leaves an \<open>int\<close>.
\<close>

section \<open>Definitions\<close>

record guac_common_rect =
  rect_x :: int
  rect_y :: int
  rect_width :: int
  rect_height :: int

definition guac_common_rect_init :: "int \<Rightarrow> int \<Rightarrow> int \<Rightarrow> int \<Rightarrow> guac_common_rect" where
  "guac_common_rect_init x y width height =
     \<lparr>rect_x = x, rect_y = y, rect_width = width, rect_height = height\<rparr>"

definition guac_common_rect_extend :: "guac_common_rect \<Rightarrow> guac_common_rect \<Rightarrow> guac_common_rect" where
  "guac_common_rect_extend rect least =
     (let left = rect_x rect; upper = rect_y rect;
          right = left + rect_width rect; bottom = upper + rect_height rect;
          min_left = rect_x least; min_top = rect_y least;
          min_right = min_left + rect_width least; min_bottom = min_top + rect_height least;
          left = (if min_left < left then min_left else left);
          upper = (if min_top < upper then min_top else upper);
          right = (if min_right > right then min_right else right);
          bottom = (if min_bottom > bottom then min_bottom else bottom)
      in guac_common_rect_init left upper (right - left) (bottom - upper))"

definition guac_common_rect_constrain :: "guac_common_rect \<Rightarrow> guac_common_rect \<Rightarrow> guac_common_rect" where
  "guac_common_rect_constrain rect greatest =
     (let left = rect_x rect; upper = rect_y rect;
          right = left + rect_width rect; bottom = upper + rect_height rect;
          max_left = rect_x greatest; max_top = rect_y greatest;
          max_right = max_left + rect_width greatest; max_bottom = max_top + rect_height greatest;
          left = (if max_left > left then max_left else left);
          upper = (if max_top > upper then max_top else upper);
          right = (if max_right < right then max_right else right);
          bottom = (if max_bottom < bottom then max_bottom else bottom)
      in guac_common_rect_init left upper (right - left) (bottom - upper))"

text \<open>
  One direction of \<open>guac_common_rect_expand_to_grid\<close>, which treats both alike: the interval from
  \<open>low\<close> to \<open>high\<close> is shifted into the greatest one, and cut where it does not fit.
\<close>

definition grid_adjust :: "int \<Rightarrow> int \<Rightarrow> int \<Rightarrow> int \<Rightarrow> int \<times> int" where
  "grid_adjust low high max_low max_high =
     (if high > max_high
      then (let d = high - max_high; high = high - d; low = low - d
            in (if low < max_low then max_low else low, high))
      else if low < max_low
      then (let d = max_low - low; low = low + d; high = high + d
            in (low, if high > max_high then max_high else high))
      else (low, high))"

definition guac_common_rect_expand_to_grid ::
    "int \<Rightarrow> guac_common_rect \<Rightarrow> guac_common_rect \<Rightarrow> int \<times> guac_common_rect" where
  "guac_common_rect_expand_to_grid cell_size rect max_rect =
     (if cell_size \<le> 0 then (- 1, rect)
      else if cell_size = 1 then (0, rect)
      else
        (let dw = cell_size - c_mod (rect_width rect) cell_size;
             dh = cell_size - c_mod (rect_height rect) cell_size;
             dx = c_div dw 2; dy = c_div dh 2;
             upper = rect_y rect - dy; left = rect_x rect - dx;
             bottom = upper + rect_height rect + dh; right = left + rect_width rect + dw;
             (left, right) = grid_adjust left right (rect_x max_rect) (rect_x max_rect + rect_width max_rect);
             (upper, bottom) = grid_adjust upper bottom (rect_y max_rect) (rect_y max_rect + rect_height max_rect)
         in (0, guac_common_rect_init left upper (right - left) (bottom - upper))))"

definition guac_common_rect_intersects :: "guac_common_rect \<Rightarrow> guac_common_rect \<Rightarrow> int" where
  "guac_common_rect_intersects rect other =
     (if rect_x other + rect_width other < rect_x rect \<or> rect_x rect + rect_width rect < rect_x other
         \<or> rect_y other + rect_height other < rect_y rect \<or> rect_y rect + rect_height rect < rect_y other
      then 0
      else if rect_x other \<le> rect_x rect
         \<and> rect_x other + rect_width other \<ge> rect_x rect + rect_width rect
         \<and> rect_y other \<le> rect_y rect
         \<and> rect_y other + rect_height other \<ge> rect_y rect + rect_height rect
      then 2
      else 1)"

text \<open>A rectangle by its edges, as the code computes it.\<close>

definition rect_edges :: "int \<Rightarrow> int \<Rightarrow> int \<Rightarrow> int \<Rightarrow> guac_common_rect" where
  "rect_edges left upper right bottom = guac_common_rect_init left upper (right - left) (bottom - upper)"

text \<open>The result of the function, the rectangle that is left, and the one split off if there is one.\<close>

definition guac_common_rect_clip_and_split ::
    "guac_common_rect \<Rightarrow> guac_common_rect \<Rightarrow> int \<times> guac_common_rect \<times> guac_common_rect option" where
  "guac_common_rect_clip_and_split rect hole =
     (let x = rect_x rect; y = rect_y rect; right = x + rect_width rect; bottom = y + rect_height rect;
          hole_x = rect_x hole; hole_y = rect_y hole;
          hole_right = hole_x + rect_width hole; hole_bottom = hole_y + rect_height hole
      in if guac_common_rect_intersects rect hole = 0 then (0, rect, None)
         else if y < hole_y
         then (1, rect_edges x hole_y right bottom, Some (rect_edges x y right hole_y))
         else if x < hole_x
         then (1, rect_edges hole_x y right bottom, Some (rect_edges x y hole_x bottom))
         else if bottom > hole_bottom
         then (1, rect_edges x y right hole_bottom, Some (rect_edges x hole_bottom right bottom))
         else if right > hole_right
         then (1, rect_edges x y hole_right bottom, Some (rect_edges hole_right y right bottom))
         else (0, rect, None))"

section \<open>Rectangles as sets of pixels\<close>

definition in_rect :: "guac_common_rect \<Rightarrow> int \<Rightarrow> int \<Rightarrow> bool" where
  "in_rect r px py \<longleftrightarrow> rect_x r \<le> px \<and> px < rect_x r + rect_width r \<and> rect_y r \<le> py \<and> py < rect_y r + rect_height r"

definition rect_ok :: "guac_common_rect \<Rightarrow> bool" where
  "rect_ok r \<longleftrightarrow> 0 \<le> rect_width r \<and> 0 \<le> rect_height r"

text \<open>One rectangle within another, by its edges.\<close>

definition rect_within :: "guac_common_rect \<Rightarrow> guac_common_rect \<Rightarrow> bool" where
  "rect_within r s \<longleftrightarrow> rect_x s \<le> rect_x r \<and> rect_x r + rect_width r \<le> rect_x s + rect_width s
     \<and> rect_y s \<le> rect_y r \<and> rect_y r + rect_height r \<le> rect_y s + rect_height s"

lemma rect_init_fields [simp]:
  "rect_x (guac_common_rect_init x y w h) = x" "rect_y (guac_common_rect_init x y w h) = y"
  "rect_width (guac_common_rect_init x y w h) = w" "rect_height (guac_common_rect_init x y w h) = h"
  by (simp_all add: guac_common_rect_init_def)

lemma rect_within_in_rect: "rect_within r s \<Longrightarrow> in_rect r px py \<Longrightarrow> in_rect s px py"
  by (auto simp: rect_within_def in_rect_def)

lemma rect_within_trans: "rect_within a b \<Longrightarrow> rect_within b c \<Longrightarrow> rect_within a c"
  by (auto simp: rect_within_def)

lemma rect_extend_edges:
  "rect_x (guac_common_rect_extend r s) = min (rect_x r) (rect_x s)"
  "rect_y (guac_common_rect_extend r s) = min (rect_y r) (rect_y s)"
  "rect_x (guac_common_rect_extend r s) + rect_width (guac_common_rect_extend r s)
     = max (rect_x r + rect_width r) (rect_x s + rect_width s)"
  "rect_y (guac_common_rect_extend r s) + rect_height (guac_common_rect_extend r s)
     = max (rect_y r + rect_height r) (rect_y s + rect_height s)"
  by (simp_all add: guac_common_rect_extend_def Let_def min_def max_def)

lemma rect_constrain_edges:
  "rect_x (guac_common_rect_constrain r s) = max (rect_x r) (rect_x s)"
  "rect_y (guac_common_rect_constrain r s) = max (rect_y r) (rect_y s)"
  "rect_x (guac_common_rect_constrain r s) + rect_width (guac_common_rect_constrain r s)
     = min (rect_x r + rect_width r) (rect_x s + rect_width s)"
  "rect_y (guac_common_rect_constrain r s) + rect_height (guac_common_rect_constrain r s)
     = min (rect_y r + rect_height r) (rect_y s + rect_height s)"
  by (simp_all add: guac_common_rect_constrain_def Let_def min_def max_def)

lemma constrain_is_intersection:
  "in_rect (guac_common_rect_constrain r s) px py \<longleftrightarrow> in_rect r px py \<and> in_rect s px py"
  using rect_constrain_edges[of r s] by (auto simp: in_rect_def)

lemma extend_covers:
  "in_rect r px py \<Longrightarrow> in_rect (guac_common_rect_extend r s) px py"
  "in_rect s px py \<Longrightarrow> in_rect (guac_common_rect_extend r s) px py"
  using rect_extend_edges[of r s] by (auto simp: in_rect_def)

lemma extend_within: "rect_within r t \<Longrightarrow> rect_within s t \<Longrightarrow> rect_within (guac_common_rect_extend r s) t"
  using rect_extend_edges[of r s] by (auto simp: rect_within_def)

lemma extend_least: "rect_within r t \<and> rect_within s t \<longleftrightarrow> rect_within (guac_common_rect_extend r s) t"
  using rect_extend_edges[of r s] by (auto simp: rect_within_def)

lemma constrain_within: "rect_within (guac_common_rect_constrain r s) s"
  using rect_constrain_edges[of r s] by (auto simp: rect_within_def)

section \<open>Fitting a grid\<close>

lemma grid_adjust_spec:
  assumes "grid_adjust low high max_low max_high = (low', high')"
    and "low \<le> a" and "a \<le> b" and "b \<le> high" and "max_low \<le> a" and "b \<le> max_high"
  shows "max_low \<le> low'" "low' \<le> a" "b \<le> high'" "high' \<le> max_high"
    "high - low \<le> max_high - max_low \<Longrightarrow> high' - low' = high - low"
  using assms by (auto simp: grid_adjust_def Let_def split: if_splits)

lemma expand_to_grid_spec:
  assumes "1 < cell_size" and "rect_ok rect" and "rect_within rect max_rect"
  shows "\<exists>r. guac_common_rect_expand_to_grid cell_size rect max_rect = (0, r)
    \<and> rect_within rect r \<and> rect_within r max_rect
    \<and> (rect_width rect + cell_size \<le> rect_width max_rect \<longrightarrow> cell_size dvd rect_width r)
    \<and> (rect_height rect + cell_size \<le> rect_height max_rect \<longrightarrow> cell_size dvd rect_height r)"
proof -
  have side: "0 < cell_size - c_mod n cell_size \<and> cell_size - c_mod n cell_size \<le> cell_size
      \<and> cell_size dvd n + (cell_size - c_mod n cell_size)" if "0 \<le> n" for n
  proof -
    have m: "c_mod n cell_size = n mod cell_size" using that assms(1) by simp
    have "0 \<le> n mod cell_size" "n mod cell_size < cell_size" using assms(1) by simp_all
    moreover have "n + (cell_size - n mod cell_size) = (n div cell_size + 1) * cell_size"
      using div_mult_mod_eq[of n cell_size] by (simp add: algebra_simps)
    ultimately show ?thesis by (simp add: m)
  qed
  define dw dh where "dw = cell_size - c_mod (rect_width rect) cell_size"
    and "dh = cell_size - c_mod (rect_height rect) cell_size"
  have d: "0 < dw" "dw \<le> cell_size" "cell_size dvd rect_width rect + dw"
    "0 < dh" "dh \<le> cell_size" "cell_size dvd rect_height rect + dh"
    using side assms(2) by (auto simp: dw_def dh_def rect_ok_def)
  obtain left right where h: "grid_adjust (rect_x rect - c_div dw 2) (rect_x rect - c_div dw 2 + rect_width rect + dw)
      (rect_x max_rect) (rect_x max_rect + rect_width max_rect) = (left, right)"
    by fastforce
  obtain upper bottom where v: "grid_adjust (rect_y rect - c_div dh 2) (rect_y rect - c_div dh 2 + rect_height rect + dh)
      (rect_y max_rect) (rect_y max_rect + rect_height max_rect) = (upper, bottom)"
    by fastforce
  have half: "0 \<le> c_div d 2" "c_div d 2 \<le> d" if "0 < d" for d using that by simp_all
  note H = grid_adjust_spec[OF h, of "rect_x rect" "rect_x rect + rect_width rect"]
  note V = grid_adjust_spec[OF v, of "rect_y rect" "rect_y rect + rect_height rect"]
  have "guac_common_rect_expand_to_grid cell_size rect max_rect =
      (0, guac_common_rect_init left upper (right - left) (bottom - upper))"
    using assms(1) h v by (simp add: guac_common_rect_expand_to_grid_def Let_def dw_def dh_def)
  moreover have "rect_x max_rect \<le> left \<and> left \<le> rect_x rect \<and> rect_x rect + rect_width rect \<le> right
      \<and> right \<le> rect_x max_rect + rect_width max_rect
      \<and> (rect_width rect + cell_size \<le> rect_width max_rect \<longrightarrow> right - left = rect_width rect + dw)"
    using H assms(2,3) d half[of dw] by (auto simp: rect_ok_def rect_within_def)
  moreover have "rect_y max_rect \<le> upper \<and> upper \<le> rect_y rect \<and> rect_y rect + rect_height rect \<le> bottom
      \<and> bottom \<le> rect_y max_rect + rect_height max_rect
      \<and> (rect_height rect + cell_size \<le> rect_height max_rect \<longrightarrow> bottom - upper = rect_height rect + dh)"
    using V assms(2,3) d half[of dh] by (auto simp: rect_ok_def rect_within_def)
  ultimately show ?thesis using d by (auto simp: rect_within_def)
qed

lemma grid_region_within:
  assumes "1 < cell_size" and "rect_ok rect" and "rect_within rect max_rect"
  shows "rect_within rect (snd (guac_common_rect_expand_to_grid cell_size rect max_rect))"
    "rect_within (snd (guac_common_rect_expand_to_grid cell_size rect max_rect)) max_rect"
  using expand_to_grid_spec[OF assms] by auto

text \<open>
  Fitting a rectangle into a grid gives a rectangle within the greatest one that contains the
  given one, and whose sides are multiples of the cell wherever the greatest rectangle has room
  for one more cell.
\<close>

section \<open>Splitting\<close>

lemma rect_edges_fields [simp]:
  "rect_x (rect_edges l u r b) = l" "rect_y (rect_edges l u r b) = u"
  "rect_x (rect_edges l u r b) + rect_width (rect_edges l u r b) = r"
  "rect_y (rect_edges l u r b) + rect_height (rect_edges l u r b) = b"
  "rect_width (rect_edges l u r b) = r - l" "rect_height (rect_edges l u r b) = b - u"
  by (simp_all add: rect_edges_def)

lemma clip_and_split_step:
  assumes "guac_common_rect_clip_and_split rect hole = (1, rest, Some piece)" and "rect_ok rect" and "rect_ok hole"
  shows "rect_ok rest" "rect_ok piece"
    "in_rect rect px py \<longleftrightarrow> in_rect rest px py \<or> in_rect piece px py"
    "\<not> (in_rect rest px py \<and> in_rect piece px py)" "\<not> (in_rect piece px py \<and> in_rect hole px py)"
  using assms
  by (auto simp: guac_common_rect_clip_and_split_def guac_common_rect_intersects_def Let_def in_rect_def rect_ok_def
      split: if_splits)

lemma clip_and_split_cases:
  "(\<exists>rest piece. guac_common_rect_clip_and_split rect hole = (1, rest, Some piece))
   \<or> guac_common_rect_clip_and_split rect hole = (0, rect, None)"
  by (auto simp: guac_common_rect_clip_and_split_def Let_def)

text \<open>The edges that still have to be cut.\<close>

definition edges_left :: "guac_common_rect \<Rightarrow> guac_common_rect \<Rightarrow> nat" where
  "edges_left rect hole =
     of_bool (rect_y rect < rect_y hole) + of_bool (rect_x rect < rect_x hole)
     + of_bool (rect_y rect + rect_height rect > rect_y hole + rect_height hole)
     + of_bool (rect_x rect + rect_width rect > rect_x hole + rect_width hole)"

lemma clip_and_split_decreases:
  assumes "guac_common_rect_clip_and_split rect hole = (1, rest, piece)"
  shows "edges_left rest hole < edges_left rect hole"
  using assms by (auto simp: guac_common_rect_clip_and_split_def Let_def edges_left_def split: if_splits)

text \<open>The function is called until its result is zero; these are the pieces split off.\<close>

function rect_pieces :: "guac_common_rect \<Rightarrow> guac_common_rect \<Rightarrow> guac_common_rect list \<times> guac_common_rect" where
  "rect_pieces rect hole =
     (case guac_common_rect_clip_and_split rect hole of
        (r, rest, Some piece) \<Rightarrow>
          (if r = 1 then (let (pieces, rest) = rect_pieces rest hole in (piece # pieces, rest)) else ([], rect))
      | (r, rest, None) \<Rightarrow> ([], rect))"
  by pat_completeness auto
termination
  by (relation "measure (\<lambda>(rect, hole). edges_left rect hole)") (auto dest: clip_and_split_decreases[OF sym])

declare rect_pieces.simps [simp del]

lemma no_split_inside:
  assumes "guac_common_rect_clip_and_split rect hole = (0, rect, None)" and "rect_ok rect" and "rect_ok hole"
  shows "in_rect rect px py \<and> in_rect hole px py \<longleftrightarrow> in_rect rect px py \<and> guac_common_rect_intersects rect hole \<noteq> 0"
  using assms
  by (auto simp: guac_common_rect_clip_and_split_def guac_common_rect_intersects_def Let_def in_rect_def
      split: if_splits)

lemma pieces_spec:
  assumes "rect_ok rect" and "rect_ok hole" and "rect_pieces rect hole = (pieces, rest)"
  shows "length pieces \<le> edges_left rect hole
    \<and> (in_rect rect px py \<longleftrightarrow> in_rect rest px py \<or> (\<exists>p \<in> set pieces. in_rect p px py))
    \<and> (\<forall>p \<in> set pieces. in_rect p px py \<longrightarrow> \<not> in_rect hole px py \<and> \<not> in_rect rest px py)
    \<and> (guac_common_rect_intersects rest hole \<noteq> 0 \<longrightarrow> in_rect rest px py \<longrightarrow> in_rect hole px py)
    \<and> (guac_common_rect_intersects rest hole = 0 \<longrightarrow> \<not> (in_rect rest px py \<and> in_rect hole px py))
    \<and> length (filter (\<lambda>p. in_rect p px py) pieces) \<le> 1"
  using assms
proof (induction rect hole arbitrary: pieces rest rule: rect_pieces.induct)
  case (1 rect hole)
  show ?case
  proof (cases "\<exists>rest piece. guac_common_rect_clip_and_split rect hole = (1, rest, Some piece)")
    case True
    then obtain r1 p1 where s: "guac_common_rect_clip_and_split rect hole = (1, r1, Some p1)" by blast
    obtain ps where rec: "rect_pieces r1 hole = (ps, rest)" and pieces: "pieces = p1 # ps"
      using "1.prems"(3) s by (subst (asm) rect_pieces.simps) (auto split: prod.splits)
    note step = clip_and_split_step[OF s "1.prems"(1,2)]
    have IH: "length ps \<le> edges_left r1 hole
      \<and> (in_rect r1 px py \<longleftrightarrow> in_rect rest px py \<or> (\<exists>p \<in> set ps. in_rect p px py))
      \<and> (\<forall>p \<in> set ps. in_rect p px py \<longrightarrow> \<not> in_rect hole px py \<and> \<not> in_rect rest px py)
      \<and> (guac_common_rect_intersects rest hole \<noteq> 0 \<longrightarrow> in_rect rest px py \<longrightarrow> in_rect hole px py)
      \<and> (guac_common_rect_intersects rest hole = 0 \<longrightarrow> \<not> (in_rect rest px py \<and> in_rect hole px py))
      \<and> length (filter (\<lambda>p. in_rect p px py) ps) \<le> 1"
      by (rule "1.IH"[OF s[symmetric] refl refl refl step(1) "1.prems"(2) rec])
    have none: "filter (\<lambda>p. in_rect p px py) ps = []" if "in_rect p1 px py"
      using that step(4) IH by (auto simp: filter_empty_conv)
    show ?thesis
      using IH step(3-5) none clip_and_split_decreases[OF s] by (auto simp: pieces)
  next
    case False
    then have s: "guac_common_rect_clip_and_split rect hole = (0, rect, None)" using clip_and_split_cases by blast
    then have "pieces = []" "rest = rect" using "1.prems"(3) by (subst (asm) rect_pieces.simps, simp)+
    with no_split_inside[OF s "1.prems"(1,2)] show ?thesis by auto
  qed
qed

text \<open>
  Calling the splitting function until it returns zero ends after at most four calls. The
  pieces split off and what is left of the rectangle are disjoint and together cover exactly the
  rectangle; the pieces lie outside the hole, and what is left lies within the hole, or does not
  meet it at all.
\<close>

theorem split_partitions:
  assumes "rect_ok rect" and "rect_ok hole" and "rect_pieces rect hole = (pieces, rest)"
  shows "length pieces \<le> 4
    \<and> (in_rect rect px py \<longleftrightarrow> in_rect rest px py \<or> (\<exists>p \<in> set pieces. in_rect p px py))
    \<and> (\<forall>p \<in> set pieces. in_rect p px py \<longrightarrow> \<not> in_rect hole px py \<and> \<not> in_rect rest px py)
    \<and> length (filter (\<lambda>p. in_rect p px py) pieces) \<le> 1
    \<and> (guac_common_rect_intersects rest hole \<noteq> 0 \<longrightarrow> in_rect rest px py \<longrightarrow> in_rect hole px py)
    \<and> (guac_common_rect_intersects rest hole = 0 \<longrightarrow> in_rect rest px py \<longrightarrow> \<not> in_rect hole px py)"
proof -
  have "edges_left rect hole \<le> 4" by (simp add: edges_left_def of_bool_def)
  with pieces_spec[OF assms, of px py] show ?thesis by auto
qed

theorem split_partitions_witness:
  "\<exists>pieces rest. rect_pieces (guac_common_rect_init 0 0 10 10) (guac_common_rect_init 2 3 4 4) = (pieces, rest)
     \<and> length pieces \<le> 4 \<and> in_rect rest 3 4 \<and> \<not> in_rect rest 0 4"
proof -
  obtain pieces rest where p:
    "rect_pieces (guac_common_rect_init 0 0 10 10) (guac_common_rect_init 2 3 4 4) = (pieces, rest)"
    by fastforce
  have ok: "rect_ok (guac_common_rect_init 0 0 10 10)" "rect_ok (guac_common_rect_init 2 3 4 4)"
    by (simp_all add: rect_ok_def)
  have left: "rest = guac_common_rect_init 2 3 4 4"
    using p by (simp add: rect_pieces.simps guac_common_rect_clip_and_split_def guac_common_rect_intersects_def
        rect_edges_def Let_def)
  from split_partitions[OF ok p, of 3 4] show ?thesis
    using p by (auto simp: left in_rect_def)
qed

text \<open>Rectangles that only touch are taken for intersecting.\<close>

lemma touching_intersects:
  "guac_common_rect_intersects (guac_common_rect_init 0 0 4 4) (guac_common_rect_init 4 0 4 4) = 1
   \<and> \<not> (in_rect (guac_common_rect_init 0 0 4 4) px py \<and> in_rect (guac_common_rect_init 4 0 4 4) px py)"
  by (auto simp: guac_common_rect_intersects_def in_rect_def)

end
