(* ===== verification/Common_Surface.thy ===== *)
theory Common_Surface
  imports Guac_Loop Common_Rect
begin

text \<open>
  Drawing surfaces (\<open>src/common/surface.c\<close>, \<open>surface.h\<close>). A surface keeps the pixels of a layer on
  the server and turns changes of them into instructions to the client, putting off what can be
  combined: the dirty rectangle is the area changed since the last update, and the bitmap queue
  holds areas whose update is deferred.

  The buffer of a surface is the list of its pixels, row by row; a row takes 4 bytes for each
  column. Images drawn have a stride in pixels. The result \<open>None\<close> stands for a read or a write outside a
  buffer, the heat map or the queue. What is sent is a list of \<open>surface_call\<close>; for an image it has
  the pixels that are handed to the encoder. The lock is taken by every function of the interface
  and not part of the state. The clock and the lag of the client are arguments. Memory for the buffer and the heat
  map is granted: the code does not check it.
\<close>

section \<open>Pixels\<close>

type_synonym pixel = "32 word"

definition argb :: "int \<Rightarrow> int \<Rightarrow> int \<Rightarrow> int \<Rightarrow> pixel" where
  "argb alpha red green blue =
     word_of_int (push_bit 24 alpha OR push_bit 16 red OR push_bit 8 green OR blue)"

definition pixel_get :: "pixel list \<Rightarrow> int \<Rightarrow> pixel option" where
  "pixel_get buf i = (if 0 \<le> i \<and> i < int (length buf) then Some (buf ! nat i) else None)"

definition pixel_put :: "int \<Rightarrow> pixel \<Rightarrow> pixel list \<Rightarrow> pixel list option" where
  "pixel_put i c buf = (if 0 \<le> i \<and> i < int (length buf) then Some (buf[nat i := c]) else None)"

definition opaque_pixel :: "pixel \<Rightarrow> bool" where
  "opaque_pixel c \<longleftrightarrow> c AND 0xFF000000 = 0xFF000000"

text \<open>The columns and rows of a rectangle, in the order of the loops.\<close>

definition coords :: "int \<Rightarrow> int \<Rightarrow> (int \<times> int) list" where
  "coords w h = concat (map (\<lambda>y. map (\<lambda>x. (x, y)) [0..w - 1]) [0..h - 1])"

section \<open>State\<close>

abbreviation (input) GUAC_COMMON_SURFACE_QUEUE_SIZE :: nat where "GUAC_COMMON_SURFACE_QUEUE_SIZE \<equiv> 256"
abbreviation (input) GUAC_COMMON_SURFACE_HEAT_CELL_SIZE :: int where "GUAC_COMMON_SURFACE_HEAT_CELL_SIZE \<equiv> 64"
abbreviation (input) GUAC_COMMON_SURFACE_HEAT_CELL_HISTORY_SIZE :: nat where
  "GUAC_COMMON_SURFACE_HEAT_CELL_HISTORY_SIZE \<equiv> 5"

definition GUAC_COMMON_SURFACE_HEAT_DIMENSION :: "int \<Rightarrow> int" where
  "GUAC_COMMON_SURFACE_HEAT_DIMENSION x =
     c_div (x + GUAC_COMMON_SURFACE_HEAT_CELL_SIZE - 1) GUAC_COMMON_SURFACE_HEAT_CELL_SIZE"

record guac_common_surface_heat_cell =
  heat_history :: "int list"
  heat_oldest :: nat

record guac_common_surface_bitmap_rect =
  bitmap_flushed :: bool
  bitmap_rect :: guac_common_rect

record guac_common_surface =
  sf_layer :: int
  sf_x :: int
  sf_y :: int
  sf_z :: int
  sf_opacity :: int
  sf_parent :: int
  sf_width :: int
  sf_height :: int
  sf_buffer :: "pixel list"
  sf_location_dirty :: bool
  sf_opacity_dirty :: bool
  sf_dirty :: bool
  sf_dirty_rect :: guac_common_rect
  sf_realized :: bool
  sf_clipped :: bool
  sf_clip_rect :: guac_common_rect
  sf_queue :: "guac_common_surface_bitmap_rect list"
  sf_heat_map :: "guac_common_surface_heat_cell list"

datatype image_codec = codec_png | codec_jpeg int | codec_webp int

datatype composite_mode = GUAC_COMP_OVER | GUAC_COMP_ROUT

text \<open>
  An image is sent with its codec, whether it has an alpha channel, its rectangle and its pixels.
\<close>

datatype surface_call =
    call_size int int int
  | call_dispose int
  | call_shade int int
  | call_move int int int int int
  | call_rect int int int int int
  | call_cfill composite_mode int int int int int
  | call_image image_codec bool int guac_common_rect "pixel list"
  | call_copy int int int int int int int int
  | call_transfer int int int int int int int int int

text \<open>What a surface asks of its client.\<close>

record surface_env =
  env_supports_webp :: bool
  env_processing_lag :: int

section \<open>Properties of the layer\<close>

definition guac_common_surface_move :: "int \<Rightarrow> int \<Rightarrow> guac_common_surface \<Rightarrow> guac_common_surface" where
  "guac_common_surface_move x y s = s\<lparr>sf_x := x, sf_y := y, sf_location_dirty := True\<rparr>"

definition guac_common_surface_stack :: "int \<Rightarrow> guac_common_surface \<Rightarrow> guac_common_surface" where
  "guac_common_surface_stack z s = s\<lparr>sf_z := z, sf_location_dirty := True\<rparr>"

definition guac_common_surface_set_parent :: "int \<Rightarrow> guac_common_surface \<Rightarrow> guac_common_surface" where
  "guac_common_surface_set_parent p s = s\<lparr>sf_parent := p, sf_location_dirty := True\<rparr>"

definition guac_common_surface_set_opacity :: "int \<Rightarrow> guac_common_surface \<Rightarrow> guac_common_surface" where
  "guac_common_surface_set_opacity opacity s = s\<lparr>sf_opacity := opacity, sf_opacity_dirty := True\<rparr>"

section \<open>Rectangles of a surface\<close>

definition surface_bounds :: "guac_common_surface \<Rightarrow> guac_common_rect" where
  "surface_bounds s = guac_common_rect_init 0 0 (sf_width s) (sf_height s)"

text \<open>The rectangle with the source coordinates that are shifted with it.\<close>

definition bound_rect ::
    "guac_common_surface \<Rightarrow> guac_common_rect \<Rightarrow> int \<times> int \<Rightarrow> guac_common_rect \<times> int \<times> int" where
  "bound_rect s rect src =
     (let rect' = guac_common_rect_constrain rect (surface_bounds s)
      in (rect', fst src + (rect_x rect' - rect_x rect), snd src + (rect_y rect' - rect_y rect)))"

definition clip_rect ::
    "guac_common_surface \<Rightarrow> guac_common_rect \<Rightarrow> int \<times> int \<Rightarrow> guac_common_rect \<times> int \<times> int" where
  "clip_rect s rect src =
     (if \<not> sf_clipped s then bound_rect s rect src
      else
        (let rect' = guac_common_rect_constrain rect (sf_clip_rect s)
         in (rect', fst src + (rect_x rect' - rect_x rect), snd src + (rect_y rect' - rect_y rect))))"

definition rect_empty :: "guac_common_rect \<Rightarrow> bool" where
  "rect_empty r \<longleftrightarrow> rect_width r \<le> 0 \<or> rect_height r \<le> 0"

text \<open>The index of a pixel in the buffer, for coordinates relative to a rectangle.\<close>

definition pixel_index :: "guac_common_surface \<Rightarrow> guac_common_rect \<Rightarrow> int \<times> int \<Rightarrow> int" where
  "pixel_index s rect p = sf_width s * (rect_y rect + snd p) + (rect_x rect + fst p)"

primrec opaque_scan :: "pixel list \<Rightarrow> int list \<Rightarrow> bool option" where
  "opaque_scan buf [] = Some True"
| "opaque_scan buf (i # indices) =
     do {
       c \<leftarrow> pixel_get buf i;
       if \<not> opaque_pixel c then Some False else opaque_scan buf indices
     }"

definition is_opaque :: "guac_common_surface \<Rightarrow> guac_common_rect \<Rightarrow> bool option" where
  "is_opaque s rect =
     opaque_scan (sf_buffer s) (map (pixel_index s rect) (coords (rect_width rect) (rect_height rect)))"

definition should_combine :: "guac_common_surface \<Rightarrow> guac_common_rect \<Rightarrow> bool \<Rightarrow> bool" where
  "should_combine s rect rect_only =
     (if \<not> sf_realized s then True
      else if sf_dirty s
      then
        (let combined = guac_common_rect_extend (sf_dirty_rect s) rect;
             combined_cost = 4096 + rect_width combined * rect_height combined;
             dirty_cost = 4096 + rect_width (sf_dirty_rect s) * rect_height (sf_dirty_rect s);
             update_cost = 4096 + rect_width rect * rect_height rect;
             update_cost = (if rect_only then c_div update_cost 16 else update_cost)
         in if rect_width combined \<le> 64 \<and> rect_height combined \<le> 64 then True
            else if combined_cost \<le> update_cost + dirty_cost then True
            else if combined_cost - dirty_cost \<le> c_div dirty_cost 4 then True
            else if combined_cost - update_cost \<le> c_div update_cost 4 then True
            else if rect_x rect = rect_x (sf_dirty_rect s)
                 \<and> rect_y rect = rect_y (sf_dirty_rect s) + rect_height (sf_dirty_rect s)
            then combined_cost \<le> (dirty_cost + update_cost) * 3
            else False)
      else False)"

definition mark_dirty :: "guac_common_rect \<Rightarrow> guac_common_surface \<Rightarrow> guac_common_surface" where
  "mark_dirty rect s =
     (if rect_empty rect then s
      else if sf_dirty s then s\<lparr>sf_dirty_rect := guac_common_rect_extend (sf_dirty_rect s) rect\<rparr>
      else s\<lparr>sf_dirty_rect := rect, sf_dirty := True\<rparr>)"

section \<open>The heat map\<close>

definition heat_get :: "guac_common_surface \<Rightarrow> int \<Rightarrow> guac_common_surface_heat_cell option" where
  "heat_get s i = (if 0 \<le> i \<and> i < int (length (sf_heat_map s)) then Some (sf_heat_map s ! nat i) else None)"

definition calculate_framerate :: "guac_common_surface \<Rightarrow> guac_common_rect \<Rightarrow> 32 word option" where
  "calculate_framerate s rect =
     (let heat_width = GUAC_COMMON_SURFACE_HEAT_DIMENSION (sf_width s);
          min_x = c_div (rect_x rect) GUAC_COMMON_SURFACE_HEAT_CELL_SIZE;
          min_y = c_div (rect_y rect) GUAC_COMMON_SURFACE_HEAT_CELL_SIZE;
          max_x = min_x + c_div (rect_width rect - 1) GUAC_COMMON_SURFACE_HEAT_CELL_SIZE;
          max_y = min_y + c_div (rect_height rect - 1) GUAC_COMMON_SURFACE_HEAT_CELL_SIZE
      in do {
           (sum_framerate, n) \<leftarrow>
             each (\<lambda>(x, y) (sum_framerate, n). do {
                 cell \<leftarrow> heat_get s (heat_width * (min_y + y) + (min_x + x));
                 let latest_entry = (if heat_oldest cell = 0 then GUAC_COMMON_SURFACE_HEAT_CELL_HISTORY_SIZE - 1
                                     else heat_oldest cell - 1);
                 let elapsed_time = s32 (heat_history cell ! latest_entry - heat_history cell ! heat_oldest cell);
                 Some (if elapsed_time \<noteq> 0 then sum_framerate + word_of_int (c_div (5 * 1000) elapsed_time)
                       else sum_framerate, n + 1)
               }) (coords (max_x - min_x) (max_y - min_y)) (0 :: 32 word, 0 :: 32 word);
           Some (if n \<noteq> 0 then sum_framerate div n else 0)
         })"

definition touch_rect :: "guac_common_rect \<Rightarrow> int \<Rightarrow> guac_common_surface \<Rightarrow> guac_common_surface option" where
  "touch_rect rect time s =
     (let heat_width = GUAC_COMMON_SURFACE_HEAT_DIMENSION (sf_width s);
          min_x = c_div (rect_x rect) GUAC_COMMON_SURFACE_HEAT_CELL_SIZE;
          min_y = c_div (rect_y rect) GUAC_COMMON_SURFACE_HEAT_CELL_SIZE;
          max_x = min_x + c_div (rect_width rect - 1) GUAC_COMMON_SURFACE_HEAT_CELL_SIZE;
          max_y = min_y + c_div (rect_height rect - 1) GUAC_COMMON_SURFACE_HEAT_CELL_SIZE
      in each (\<lambda>(x, y) s. do {
             let i = heat_width * (min_y + y) + (min_x + x);
             cell \<leftarrow> heat_get s i;
             let oldest = heat_oldest cell + 1;
             Some (s\<lparr>sf_heat_map := (sf_heat_map s)[nat i :=
               cell\<lparr>heat_history := (heat_history cell)[heat_oldest cell := time],
                    heat_oldest := (if oldest \<ge> GUAC_COMMON_SURFACE_HEAT_CELL_HISTORY_SIZE then 0 else oldest)\<rparr>]\<rparr>)
           }) (coords (max_x - min_x + 1) (max_y - min_y + 1)) s)"

section \<open>The choice of an encoder\<close>

text \<open>The loop over one row counts pixels equal to their left neighbour, and others.\<close>

definition png_row :: "guac_common_surface \<Rightarrow> guac_common_rect \<Rightarrow> int \<Rightarrow> int \<times> int \<Rightarrow> (int \<times> int) option" where
  "png_row s rect y counts =
     do {
       c \<leftarrow> pixel_get (sf_buffer s) (pixel_index s rect (0, y));
       (last_pixel, counts) \<leftarrow>
         each (\<lambda>x (last_pixel, num_same, num_different). do {
             c \<leftarrow> pixel_get (sf_buffer s) (pixel_index s rect (x, y));
             let current_pixel = c OR 0xFF000000;
             Some (current_pixel,
               if current_pixel = last_pixel then (num_same + 1, num_different)
               else (num_same, num_different + 1))
           }) [1..rect_width rect - 1] (c OR 0xFF000000, counts);
       Some counts
     }"

definition png_optimality :: "guac_common_surface \<Rightarrow> guac_common_rect \<Rightarrow> int option" where
  "png_optimality s rect =
     (if rect_width rect < 1 \<or> rect_height rect < 1 then Some 0
      else do {
        (num_same, num_different) \<leftarrow> each (png_row s rect) [0..rect_height rect - 1] (0, 1);
        Some (c_div (s32 (0x100 * num_same)) num_different - 0x400)
      })"

definition should_use_jpeg :: "guac_common_surface \<Rightarrow> guac_common_rect \<Rightarrow> bool option" where
  "should_use_jpeg s rect =
     do {
       framerate \<leftarrow> calculate_framerate s rect;
       if sint framerate \<ge> 3 \<and> rect_width rect * rect_height rect > 4096
       then map_option (\<lambda>v. v < 0) (png_optimality s rect) else Some False
     }"

definition should_use_webp :: "surface_env \<Rightarrow> guac_common_surface \<Rightarrow> guac_common_rect \<Rightarrow> bool option" where
  "should_use_webp env s rect =
     (if \<not> env_supports_webp env then Some False
      else do {
        framerate \<leftarrow> calculate_framerate s rect;
        if sint framerate \<ge> 3 then map_option (\<lambda>v. v < 0) (png_optimality s rect) else Some False
      })"

definition guac_common_surface_suggest_quality :: "surface_env \<Rightarrow> int" where
  "guac_common_surface_suggest_quality env =
     (let quality = 90 - (env_processing_lag env - 20)
      in if quality > 90 then 90 else if quality < 30 then 30 else quality)"

section \<open>Flushing\<close>

text \<open>There must be space in the queue.\<close>

definition flush_to_queue :: "guac_common_surface \<Rightarrow> guac_common_surface option" where
  "flush_to_queue s =
     (if \<not> sf_dirty s then Some s
      else if length (sf_queue s) < GUAC_COMMON_SURFACE_QUEUE_SIZE
      then Some (s\<lparr>sf_queue := sf_queue s @ [\<lparr>bitmap_flushed = False, bitmap_rect = sf_dirty_rect s\<rparr>],
                   sf_dirty := False\<rparr>)
      else None)"

text \<open>The pixels of a rectangle, as the encoders read them.\<close>

definition read_region :: "guac_common_surface \<Rightarrow> guac_common_rect \<Rightarrow> pixel list option" where
  "read_region s rect =
     those (map (\<lambda>p. pixel_get (sf_buffer s) (pixel_index s rect p)) (coords (rect_width rect) (rect_height rect)))"

definition flush_to_png :: "guac_common_surface \<Rightarrow> bool \<Rightarrow> (surface_call list \<times> guac_common_surface) option" where
  "flush_to_png s solid =
     (if sf_dirty s
      then
        (let rect = sf_dirty_rect s
         in do {
              pixels \<leftarrow> read_region s rect;
              Some ((if solid then []
                     else [call_rect (sf_layer s) (rect_x rect) (rect_y rect) (rect_width rect) (rect_height rect),
                           call_cfill GUAC_COMP_ROUT (sf_layer s) 0 0 0 0xFF]) @
                    [call_image codec_png (\<not> solid) (sf_layer s) rect pixels],
                    s\<lparr>sf_realized := True, sf_dirty := False\<rparr>)
            })
      else Some ([], s))"

definition flush_to_jpeg ::
    "surface_env \<Rightarrow> guac_common_surface \<Rightarrow> (surface_call list \<times> guac_common_surface) option" where
  "flush_to_jpeg env s =
     (if sf_dirty s
      then
        (let rect = snd (guac_common_rect_expand_to_grid 16 (sf_dirty_rect s) (surface_bounds s))
         in do {
              pixels \<leftarrow> read_region s rect;
              Some ([call_image (codec_jpeg (guac_common_surface_suggest_quality env)) False (sf_layer s) rect pixels],
                    s\<lparr>sf_dirty_rect := rect, sf_realized := True, sf_dirty := False\<rparr>)
            })
      else Some ([], s))"

definition flush_to_webp ::
    "surface_env \<Rightarrow> guac_common_surface \<Rightarrow> bool \<Rightarrow> (surface_call list \<times> guac_common_surface) option" where
  "flush_to_webp env s solid =
     (if sf_dirty s
      then
        (let rect = snd (guac_common_rect_expand_to_grid 8 (sf_dirty_rect s) (surface_bounds s))
         in do {
              pixels \<leftarrow> read_region s rect;
              Some ([call_image (codec_webp (guac_common_surface_suggest_quality env)) (\<not> solid)
                       (sf_layer s) rect pixels],
                    s\<lparr>sf_dirty_rect := rect, sf_realized := True, sf_dirty := False\<rparr>)
            })
      else Some ([], s))"

definition bitmap_rect_compare :: "guac_common_surface_bitmap_rect \<Rightarrow> guac_common_surface_bitmap_rect \<Rightarrow> int" where
  "bitmap_rect_compare ra rb =
     (let a = bitmap_rect ra; b = bitmap_rect rb
      in if rect_y a \<noteq> rect_y b then rect_y a - rect_y b
         else if rect_x a \<noteq> rect_x b then rect_x a - rect_x b
         else if rect_width a \<noteq> rect_width b then rect_width b - rect_width a
         else rect_height a - rect_height b)"

text \<open>
  \<open>qsort\<close> with this comparator. It gives 0 for equal rectangles only, so that the order of the
  rectangles does not depend on how the library sorts.
\<close>

fun insert_bitmap_rect ::
    "guac_common_surface_bitmap_rect \<Rightarrow> guac_common_surface_bitmap_rect list
      \<Rightarrow> guac_common_surface_bitmap_rect list" where
  "insert_bitmap_rect r [] = [r]"
| "insert_bitmap_rect r (q # qs) =
     (if bitmap_rect_compare r q \<le> 0 then r # q # qs else q # insert_bitmap_rect r qs)"

definition sort_bitmap_rects :: "guac_common_surface_bitmap_rect list \<Rightarrow> guac_common_surface_bitmap_rect list" where
  "sort_bitmap_rects qs = foldr insert_bitmap_rect qs []"

definition flush_properties :: "guac_common_surface \<Rightarrow> surface_call list \<times> guac_common_surface" where
  "flush_properties s =
     (if sf_layer s \<le> 0 then ([], s)
      else
        ((if sf_opacity_dirty s then [call_shade (sf_layer s) (sf_opacity s)] else []) @
         (if sf_location_dirty s then [call_move (sf_layer s) (sf_parent s) (sf_x s) (sf_y s) (sf_z s)] else []),
         s\<lparr>sf_opacity_dirty := False, sf_location_dirty := False\<rparr>))"

text \<open>One round of the loop that builds up the dirty rectangle from the queue.\<close>

definition combine_candidate :: "nat \<Rightarrow> nat \<times> guac_common_surface \<Rightarrow> nat \<times> guac_common_surface" where
  "combine_candidate j st =
     (let (combined, s) = st; candidate = sf_queue s ! j
      in if bitmap_flushed candidate then (combined, s)
         else
           (let rect = fst (bound_rect s (bitmap_rect candidate) (0, 0));
                store = (\<lambda>f s. s\<lparr>sf_queue := (sf_queue s)[j := \<lparr>bitmap_flushed = f, bitmap_rect = rect\<rparr>]\<rparr>)
            in if rect_empty rect then (combined, store True s)
               else if should_combine s rect False \<or> \<not> sf_dirty s
               then (combined + 1, store True (mark_dirty rect s))
               else (combined, store False s)))"

text \<open>What the loop over the queue does with an entry that has not been flushed.\<close>

definition flush_candidate ::
    "surface_env \<Rightarrow> nat \<Rightarrow> nat \<Rightarrow> guac_common_surface \<Rightarrow> (surface_call list \<times> guac_common_surface) option" where
  "flush_candidate env i original_queue_length s =
     (let (combined, s) = fold combine_candidate [i..<length (sf_queue s)] (0, s)
      in if (combined > 1 \<or> i < original_queue_length) \<and> length (sf_queue s) < GUAC_COMMON_SURFACE_QUEUE_SIZE
         then map_option (\<lambda>s. ([], s)) (flush_to_queue s)
         else if sf_dirty s
         then do {
           solid \<leftarrow> is_opaque s (sf_dirty_rect s);
           webp \<leftarrow> should_use_webp env s (sf_dirty_rect s);
           if webp then flush_to_webp env s solid
           else do {
             jpeg \<leftarrow> (if solid then should_use_jpeg s (sf_dirty_rect s) else Some False);
             if jpeg then flush_to_jpeg env s else flush_to_png s solid
           }
         }
         else Some ([], s))"

definition flush_step ::
    "surface_env \<Rightarrow> nat \<Rightarrow> nat \<Rightarrow> guac_common_surface \<Rightarrow> (surface_call list \<times> guac_common_surface) option" where
  "flush_step env i original_queue_length s =
     (if \<not> bitmap_flushed (sf_queue s ! i) then flush_candidate env i original_queue_length s else Some ([], s))"

lemma combine_candidate_queue:
  "length (sf_queue (snd (combine_candidate j st))) = length (sf_queue (snd st))"
  by (auto simp: combine_candidate_def mark_dirty_def Let_def split: prod.splits)

lemma combine_candidates_queue:
  "length (sf_queue (snd (fold combine_candidate js st))) = length (sf_queue (snd st))"
  by (induction js arbitrary: st) (simp_all add: combine_candidate_queue)

text \<open>The queue grows only up to its capacity, so that the loop over it ends.\<close>

lemma flush_step_queue:
  assumes "flush_step env i n s = Some (calls, s')"
  shows "max (length (sf_queue s')) GUAC_COMMON_SURFACE_QUEUE_SIZE = max (length (sf_queue s)) GUAC_COMMON_SURFACE_QUEUE_SIZE"
proof (cases "bitmap_flushed (sf_queue s ! i)")
  case True
  then show ?thesis using assms by (simp add: flush_step_def)
next
  case False
  obtain k s1 where f: "fold combine_candidate [i..<length (sf_queue s)] (0, s) = (k, s1)" by fastforce
  then have "length (sf_queue s1) = length (sf_queue s)"
    using combine_candidates_queue[of "[i..<length (sf_queue s)]" "(0, s)"] by simp
  then show ?thesis
    using assms False
    by (auto simp: flush_step_def flush_candidate_def f flush_to_queue_def flush_to_png_def flush_to_jpeg_def
        flush_to_webp_def Let_def bind_eq_Some_conv split: if_splits)
qed

function flush_loop ::
    "surface_env \<Rightarrow> nat \<Rightarrow> nat \<Rightarrow> guac_common_surface \<Rightarrow> (surface_call list \<times> guac_common_surface) option" where
  "flush_loop env i original_queue_length s =
     (if i < length (sf_queue s)
      then
        (case flush_step env i original_queue_length s of
           None \<Rightarrow> None
         | Some (calls, s) \<Rightarrow>
             (case flush_loop env (i + 1) original_queue_length s of
                None \<Rightarrow> None
              | Some (calls', s) \<Rightarrow> Some (calls @ calls', s)))
      else Some ([], s))"
  by pat_completeness auto
termination
  by (relation "measure (\<lambda>(env, i, n, s). max (length (sf_queue s)) GUAC_COMMON_SURFACE_QUEUE_SIZE - i)")
    (auto dest!: flush_step_queue)

declare flush_loop.simps [simp del]

text \<open>\<open>__guac_common_surface_flush\<close>\<close>

definition internal_flush ::
    "surface_env \<Rightarrow> guac_common_surface \<Rightarrow> (surface_call list \<times> guac_common_surface) option" where
  "internal_flush env s =
     do {
       s \<leftarrow> flush_to_queue s;
       let s = s\<lparr>sf_queue := sort_bitmap_rects (sf_queue s)\<rparr>;
       (calls, s) \<leftarrow> flush_loop env 0 (length (sf_queue s)) s;
       Some (calls, s\<lparr>sf_queue := []\<rparr>)
     }"

definition flush_deferred ::
    "surface_env \<Rightarrow> guac_common_surface \<Rightarrow> (surface_call list \<times> guac_common_surface) option" where
  "flush_deferred env s =
     (if \<not> sf_dirty s then Some ([], s)
      else do {
        (calls, s) \<leftarrow>
          (if length (sf_queue s) = GUAC_COMMON_SURFACE_QUEUE_SIZE - 1 then internal_flush env s else Some ([], s));
        s \<leftarrow> flush_to_queue s;
        Some (calls, s)
      })"

definition guac_common_surface_flush ::
    "surface_env \<Rightarrow> guac_common_surface \<Rightarrow> (surface_call list \<times> guac_common_surface) option" where
  "guac_common_surface_flush env s =
     do {
       let (properties, s) = flush_properties s;
       (calls, s) \<leftarrow> internal_flush env s;
       Some (properties @ calls, s)
     }"

section \<open>Changing pixels\<close>

text \<open>
  The loops that change pixels keep the least and the greatest column and row of the pixels that
  have changed, in the order \<open>min_x\<close>, \<open>min_y\<close>, \<open>max_x\<close>, \<open>max_y\<close>. The step of a loop says whether it
  changed the pixel.
\<close>

type_synonym extents = "int \<times> int \<times> int \<times> int"

fun note_pixel :: "int \<times> int \<Rightarrow> extents \<Rightarrow> extents" where
  "note_pixel (x, y) (min_x, min_y, max_x, max_y) =
     (if x < min_x then x else min_x, if y < min_y then y else min_y,
      if x > max_x then x else max_x, if y > max_y then y else max_y)"

definition pixel_loop ::
    "(int \<times> int \<Rightarrow> pixel list \<Rightarrow> (bool \<times> pixel list) option) \<Rightarrow> int \<Rightarrow> int
      \<Rightarrow> extents \<times> pixel list \<Rightarrow> (extents \<times> pixel list) option" where
  "pixel_loop f w h =
     each (\<lambda>p (e, buf). do {
         (changed, buf) \<leftarrow> f p buf;
         Some (if changed then note_pixel p e else e, buf)
       }) (coords w h)"

text \<open>The rectangle restricted to the pixels that have changed.\<close>

definition restrict_rect :: "extents \<Rightarrow> guac_common_rect \<Rightarrow> guac_common_rect" where
  "restrict_rect e rect =
     (case e of (min_x, min_y, max_x, max_y) \<Rightarrow>
        if max_x \<ge> min_x \<and> max_y \<ge> min_y
        then guac_common_rect_init (rect_x rect + min_x) (rect_y rect + min_y) (max_x - min_x + 1) (max_y - min_y + 1)
        else rect\<lparr>rect_width := 0, rect_height := 0\<rparr>)"

text \<open>The sixteen functions of \<open>guac_transfer_function\<close>, by their numbers.\<close>

definition transfer_int :: "int \<Rightarrow> pixel \<Rightarrow> pixel \<Rightarrow> pixel" where
  "transfer_int op src dst =
     (if op = 0x0 then 0xFF000000
      else if op = 0xF then 0xFFFFFFFF
      else if op = 0x3 then src
      else if op = 0x5 then dst
      else if op = 0xC then src XOR 0x00FFFFFF
      else if op = 0xA then dst XOR 0x00FFFFFF
      else if op = 0x1 then dst AND (0xFF000000 OR src)
      else if op = 0xE then (dst AND (0xFF000000 OR src)) XOR 0x00FFFFFF
      else if op = 0x7 then dst OR (0x00FFFFFF AND src)
      else if op = 0x8 then (dst OR (0x00FFFFFF AND src)) XOR 0x00FFFFFF
      else if op = 0x6 then dst XOR (0x00FFFFFF AND src)
      else if op = 0x9 then (dst XOR (0x00FFFFFF AND src)) XOR 0x00FFFFFF
      else if op = 0x4 then dst AND (0xFF000000 OR (src XOR 0x00FFFFFF))
      else if op = 0xB then (dst AND (0xFF000000 OR (src XOR 0x00FFFFFF))) XOR 0x00FFFFFF
      else if op = 0xD then dst OR (0x00FFFFFF AND (src XOR 0x00FFFFFF))
      else if op = 0x2 then (dst OR (0x00FFFFFF AND (src XOR 0x00FFFFFF))) XOR 0x00FFFFFF
      else dst)"

definition guac_common_surface_blend_component :: "int \<Rightarrow> int \<Rightarrow> int \<Rightarrow> int" where
  "guac_common_surface_blend_component dst src alpha =
     (let blended = src + dst * (0xFF - alpha) in if blended > 0xFF then 0xFF else blended)"

definition channel :: "nat \<Rightarrow> pixel \<Rightarrow> int" where
  "channel n c = uint (drop_bit n c AND 0xFF)"

definition guac_common_surface_argb_blend :: "pixel \<Rightarrow> pixel \<Rightarrow> pixel" where
  "guac_common_surface_argb_blend dst src =
     (let dst_a = channel 24 dst; dst_r = channel 16 dst; dst_g = channel 8 dst; dst_b = channel 0 dst;
          src_a = channel 24 src; src_r = channel 16 src; src_g = channel 8 src; src_b = channel 0 src
      in if src_a = 0xFF \<or> dst_a = 0x00 then src
         else if src_a = 0x00 then dst
         else argb (guac_common_surface_blend_component dst_a src_a src_a)
                (guac_common_surface_blend_component dst_r src_r src_a)
                (guac_common_surface_blend_component dst_g src_g src_a)
                (guac_common_surface_blend_component dst_b src_b src_a))"

text \<open>Storing a new colour to a pixel if it differs.\<close>

definition store_pixel :: "int \<Rightarrow> (pixel \<Rightarrow> pixel) \<Rightarrow> pixel list \<Rightarrow> (bool \<times> pixel list) option" where
  "store_pixel i f buf =
     do {
       old \<leftarrow> pixel_get buf i;
       if old \<noteq> f old then do { buf \<leftarrow> pixel_put i (f old) buf; Some (True, buf) } else Some (False, buf)
     }"

text \<open>\<open>__guac_common_surface_set\<close>\<close>

definition surface_fill ::
    "guac_common_surface \<Rightarrow> guac_common_rect \<Rightarrow> pixel \<Rightarrow> (guac_common_surface \<times> guac_common_rect) option" where
  "surface_fill s rect c =
     do {
       (e, buf) \<leftarrow> pixel_loop (\<lambda>p. store_pixel (pixel_index s rect p) (\<lambda>_. c)) (rect_width rect) (rect_height rect)
                    ((rect_width rect - 1, rect_height rect - 1, 0, 0), sf_buffer s);
       Some (s\<lparr>sf_buffer := buf\<rparr>, restrict_rect e rect)
     }"

text \<open>An image that is drawn, and the loop of \<open>__guac_common_surface_put\<close>.\<close>

record cairo_image =
  img_alpha :: bool
  img_width :: int
  img_height :: int
  img_stride :: int
  img_data :: "pixel list"

definition surface_put ::
    "pixel list \<Rightarrow> int \<Rightarrow> int \<times> int \<Rightarrow> guac_common_surface \<Rightarrow> guac_common_rect \<Rightarrow> bool
      \<Rightarrow> (guac_common_surface \<times> guac_common_rect) option" where
  "surface_put src src_stride src_pos s rect solid =
     do {
       (e, buf) \<leftarrow> pixel_loop (\<lambda>p buf. do {
           c \<leftarrow> pixel_get src (src_stride * (snd src_pos + snd p) + (fst src_pos + fst p));
           store_pixel (pixel_index s rect p)
             (\<lambda>dst_color. if solid then c OR 0xFF000000 else guac_common_surface_argb_blend dst_color c) buf
         }) (rect_width rect) (rect_height rect) ((rect_width rect, rect_height rect, 0, 0), sf_buffer s);
       Some (s\<lparr>sf_buffer := buf\<rparr>, restrict_rect e rect)
     }"

text \<open>\<open>__guac_common_surface_fill_mask\<close>\<close>

definition surface_fill_mask ::
    "pixel list \<Rightarrow> int \<Rightarrow> int \<times> int \<Rightarrow> guac_common_surface \<Rightarrow> guac_common_rect \<Rightarrow> pixel
      \<Rightarrow> guac_common_surface option" where
  "surface_fill_mask src src_stride src_pos s rect c =
     do {
       (_, buf) \<leftarrow> pixel_loop (\<lambda>p buf. do {
           m \<leftarrow> pixel_get src (src_stride * (snd src_pos + snd p) + (fst src_pos + fst p));
           if m AND 0xFF000000 \<noteq> 0
           then do { buf \<leftarrow> pixel_put (pixel_index s rect p) c buf; Some (True, buf) }
           else Some (False, buf)
         }) (rect_width rect) (rect_height rect) ((0, 0, 0, 0), sf_buffer s);
       Some (s\<lparr>sf_buffer := buf\<rparr>)
     }"

text \<open>
  \<open>__guac_common_surface_transfer\<close>. When the source is the same surface its pixels are read from the
  buffer as it is being changed; the loop goes backwards where this would otherwise read pixels
  that have been changed already.
\<close>

definition surface_transfer ::
    "guac_common_surface \<Rightarrow> bool \<Rightarrow> int \<times> int \<Rightarrow> int \<Rightarrow> guac_common_surface \<Rightarrow> guac_common_rect
      \<Rightarrow> (guac_common_surface \<times> (int \<times> int) \<times> guac_common_rect) option" where
  "surface_transfer src same src_pos op s rect =
     (let w = rect_width rect; h = rect_height rect; sx = fst src_pos; sy = snd src_pos;
          forwards = (\<not> same \<or> rect_y rect < sy \<or> (rect_y rect = sy \<and> rect_x rect < sx));
          turn = (\<lambda>(x, y). if forwards then (x, y) else (w - 1 - x, h - 1 - y))
      in do {
           ((min_x, min_y, max_x, max_y), buf) \<leftarrow> pixel_loop (\<lambda>p buf. do {
               c \<leftarrow> pixel_get (if same then buf else sf_buffer src)
                      (sf_width src * (sy + snd (turn p)) + (sx + fst (turn p)));
               store_pixel (pixel_index s rect (turn p)) (transfer_int op c) buf
             }) w h ((w - 1, h - 1, 0, 0), sf_buffer s);
           let (min_x, max_x) = (if \<not> forwards then (w - 1 - max_x, w - 1 - min_x) else (min_x, max_x));
           let (min_y, max_y) = (if \<not> forwards \<and> - sf_width s < 0 then (h - 1 - max_y, h - 1 - min_y)
                                 else (min_y, max_y));
           let rect' = restrict_rect (min_x, min_y, max_x, max_y) rect;
           Some (s\<lparr>sf_buffer := buf\<rparr>,
             (sx + (rect_x rect' - rect_x rect), sy + (rect_y rect' - rect_y rect)), rect')
         })"

section \<open>Operations\<close>

definition guac_common_surface_alloc :: "int \<Rightarrow> int \<Rightarrow> int \<Rightarrow> surface_call list \<times> guac_common_surface" where
  "guac_common_surface_alloc layer w h =
     (if layer \<ge> 0 then [call_size layer w h] else [],
      \<lparr>sf_layer = layer, sf_x = 0, sf_y = 0, sf_z = 0, sf_opacity = 0xFF, sf_parent = 0,
       sf_width = w, sf_height = h, sf_buffer = replicate (nat (h * w)) 0,
       sf_location_dirty = False, sf_opacity_dirty = False, sf_dirty = False,
       sf_dirty_rect = guac_common_rect_init 0 0 0 0, sf_realized = (layer \<ge> 0),
       sf_clipped = False, sf_clip_rect = guac_common_rect_init 0 0 0 0, sf_queue = [],
       sf_heat_map = replicate
         (nat (GUAC_COMMON_SURFACE_HEAT_DIMENSION w * GUAC_COMMON_SURFACE_HEAT_DIMENSION h))
         \<lparr>heat_history = replicate GUAC_COMMON_SURFACE_HEAT_CELL_HISTORY_SIZE 0, heat_oldest = 0\<rparr>\<rparr>)"

definition guac_common_surface_free :: "guac_common_surface \<Rightarrow> surface_call list" where
  "guac_common_surface_free s = (if sf_realized s then [call_dispose (sf_layer s)] else [])"

definition guac_common_surface_resize ::
    "int \<Rightarrow> int \<Rightarrow> guac_common_surface \<Rightarrow> (surface_call list \<times> guac_common_surface) option" where
  "guac_common_surface_resize w h s =
     (if w = sf_width s \<and> h = sf_height s then Some ([], s)
      else
        (let old_buffer = sf_buffer s; old_stride = sf_width s; old_rect = surface_bounds s;
             s = s\<lparr>sf_width := w, sf_height := h, sf_buffer := replicate (nat (h * w)) 0\<rparr>;
             s = s\<lparr>sf_clip_rect := fst (bound_rect s (sf_clip_rect s) (0, 0))\<rparr>;
             old_rect = fst (bound_rect s old_rect (0, 0))
         in do {
              (s, _) \<leftarrow> surface_put old_buffer old_stride (0, 0) s old_rect True;
              let s = s\<lparr>sf_heat_map := replicate
                (nat (GUAC_COMMON_SURFACE_HEAT_DIMENSION w * GUAC_COMMON_SURFACE_HEAT_DIMENSION h))
                \<lparr>heat_history = replicate GUAC_COMMON_SURFACE_HEAT_CELL_HISTORY_SIZE 0, heat_oldest = 0\<rparr>\<rparr>;
              let s = (if sf_dirty s
                then (let rect = fst (bound_rect s (sf_dirty_rect s) (0, 0))
                      in s\<lparr>sf_dirty_rect := rect, sf_dirty := \<not> rect_empty rect\<rparr>)
                else s);
              Some (if sf_realized s then [call_size (sf_layer s) w h] else [], s)
            }))"

text \<open>The end of every draw: the update is deferred.\<close>

definition defer_update ::
    "surface_env \<Rightarrow> guac_common_rect \<Rightarrow> guac_common_surface \<Rightarrow> (surface_call list \<times> guac_common_surface) option" where
  "defer_update env rect s =
     do {
       (calls, s) \<leftarrow> (if \<not> should_combine s rect False then flush_deferred env s else Some ([], s));
       Some (calls, mark_dirty rect s)
     }"

definition guac_common_surface_draw ::
    "surface_env \<Rightarrow> int \<Rightarrow> int \<Rightarrow> int \<Rightarrow> cairo_image \<Rightarrow> guac_common_surface
      \<Rightarrow> (surface_call list \<times> guac_common_surface) option" where
  "guac_common_surface_draw env time x y img s =
     (let (rect, src_pos) = clip_rect s (guac_common_rect_init x y (img_width img) (img_height img)) (0, 0)
      in if rect_empty rect then Some ([], s)
         else do {
           (s, rect) \<leftarrow> surface_put (img_data img) (img_stride img) src_pos s rect (\<not> img_alpha img);
           if rect_empty rect then Some ([], s)
           else do {
             s \<leftarrow> touch_rect rect time s;
             defer_update env rect s
           }
         })"

definition guac_common_surface_paint ::
    "surface_env \<Rightarrow> int \<Rightarrow> int \<Rightarrow> cairo_image \<Rightarrow> int \<Rightarrow> int \<Rightarrow> int \<Rightarrow> guac_common_surface
      \<Rightarrow> (surface_call list \<times> guac_common_surface) option" where
  "guac_common_surface_paint env x y img red green blue s =
     (let (rect, src_pos) = clip_rect s (guac_common_rect_init x y (img_width img) (img_height img)) (0, 0)
      in if rect_empty rect then Some ([], s)
         else do {
           s \<leftarrow> surface_fill_mask (img_data img) (img_stride img) src_pos s rect (argb 0xFF red green blue);
           defer_update env rect s
         })"

text \<open>
  A copy within a surface, and one between two surfaces of a store. \<open>draw\<close> is the instruction that does
  it on the client. The two functions of the interface differ only in the operation and in this
  instruction.
\<close>

definition surface_copy_or_transfer ::
    "surface_env \<Rightarrow> (int \<Rightarrow> int \<Rightarrow> int \<Rightarrow> int \<Rightarrow> int \<Rightarrow> int \<Rightarrow> int \<Rightarrow> int \<Rightarrow> surface_call) \<Rightarrow> int \<Rightarrow> nat \<Rightarrow> int \<Rightarrow> int
      \<Rightarrow> int \<Rightarrow> int \<Rightarrow> nat \<Rightarrow> int \<Rightarrow> int \<Rightarrow> (nat \<Rightarrow> guac_common_surface)
      \<Rightarrow> (surface_call list \<times> (nat \<Rightarrow> guac_common_surface)) option" where
  "surface_copy_or_transfer env draw op src sx sy w h dst dx dy st =
     (let (srect, dx, dy) = bound_rect (st src) (guac_common_rect_init sx sy w h) (dx, dy)
      in if rect_empty srect then Some ([], st)
         else
           (let (drect, src_pos) = clip_rect (st dst)
                  (guac_common_rect_init dx dy (rect_width srect) (rect_height srect)) (rect_x srect, rect_y srect)
            in if rect_empty drect then Some ([], st)
               else do {
                 (st, src_pos, drect) \<leftarrow>
                   (if src \<noteq> dst
                    then map_option (\<lambda>(s, src_pos, drect). (st(dst := s), src_pos, drect))
                           (surface_transfer (st src) False src_pos op (st dst) drect)
                    else Some (st, src_pos, drect));
                 if src \<noteq> dst \<and> rect_empty drect then Some ([], st)
                 else do {
                   (calls, st) \<leftarrow>
                     (if should_combine (st dst) drect True
                      then Some ([], st(dst := mark_dirty drect (st dst)))
                      else do {
                        (calls, s) \<leftarrow> internal_flush env (st dst);
                        let st = st(dst := s);
                        (calls', s) \<leftarrow> internal_flush env (st src);
                        let st = st(src := s);
                        Some (calls @ calls' @
                              [draw (sf_layer (st src)) (fst src_pos) (snd src_pos) (rect_width drect)
                                 (rect_height drect) (sf_layer (st dst)) (rect_x drect) (rect_y drect)],
                              st(dst := (st dst)\<lparr>sf_realized := True\<rparr>))
                      });
                   if src = dst
                   then map_option (\<lambda>(s, _). (calls, st(dst := s)))
                          (surface_transfer (st src) True src_pos op (st dst) drect)
                   else Some (calls, st)
                 }
               }))"

definition guac_common_surface_copy ::
    "surface_env \<Rightarrow> nat \<Rightarrow> int \<Rightarrow> int \<Rightarrow> int \<Rightarrow> int \<Rightarrow> nat \<Rightarrow> int \<Rightarrow> int \<Rightarrow> (nat \<Rightarrow> guac_common_surface)
      \<Rightarrow> (surface_call list \<times> (nat \<Rightarrow> guac_common_surface)) option" where
  "guac_common_surface_copy env = surface_copy_or_transfer env call_copy 0x3"

definition guac_common_surface_transfer ::
    "surface_env \<Rightarrow> nat \<Rightarrow> int \<Rightarrow> int \<Rightarrow> int \<Rightarrow> int \<Rightarrow> int \<Rightarrow> nat \<Rightarrow> int \<Rightarrow> int \<Rightarrow> (nat \<Rightarrow> guac_common_surface)
      \<Rightarrow> (surface_call list \<times> (nat \<Rightarrow> guac_common_surface)) option" where
  "guac_common_surface_transfer env src sx sy w h op =
     surface_copy_or_transfer env
       (\<lambda>layer sx sy w h. call_transfer layer sx sy w h op) op src sx sy w h"

definition guac_common_surface_set ::
    "surface_env \<Rightarrow> int \<Rightarrow> int \<Rightarrow> int \<Rightarrow> int \<Rightarrow> int \<Rightarrow> int \<Rightarrow> int \<Rightarrow> int \<Rightarrow> guac_common_surface
      \<Rightarrow> (surface_call list \<times> guac_common_surface) option" where
  "guac_common_surface_set env x y w h red green blue alpha s =
     (let (rect, _) = clip_rect s (guac_common_rect_init x y w h) (0, 0)
      in if rect_empty rect then Some ([], s)
         else do {
           (s, rect) \<leftarrow> surface_fill s rect (argb alpha red green blue);
           if rect_empty rect then Some ([], s)
           else if alpha \<noteq> 0xFF then defer_update env rect s
           else if should_combine s rect True then Some ([], mark_dirty rect s)
           else do {
             (calls, s) \<leftarrow> internal_flush env s;
             Some (calls @ [call_rect (sf_layer s) (rect_x rect) (rect_y rect) (rect_width rect) (rect_height rect),
                            call_cfill GUAC_COMP_OVER (sf_layer s) red green blue alpha],
                   s\<lparr>sf_realized := True\<rparr>)
           }
         })"

definition guac_common_surface_clip :: "int \<Rightarrow> int \<Rightarrow> int \<Rightarrow> int \<Rightarrow> guac_common_surface \<Rightarrow> guac_common_surface" where
  "guac_common_surface_clip x y w h s =
     (let s = (if \<not> sf_clipped s then s\<lparr>sf_clip_rect := surface_bounds s, sf_clipped := True\<rparr> else s)
      in s\<lparr>sf_clip_rect := guac_common_rect_constrain (sf_clip_rect s) (guac_common_rect_init x y w h)\<rparr>)"

definition guac_common_surface_reset_clip :: "guac_common_surface \<Rightarrow> guac_common_surface" where
  "guac_common_surface_reset_clip s = s\<lparr>sf_clipped := False\<rparr>"

text \<open>The whole surface for a user who joins.\<close>

definition guac_common_surface_dup :: "guac_common_surface \<Rightarrow> surface_call list option" where
  "guac_common_surface_dup s =
     (if \<not> sf_realized s then Some []
      else do {
        image \<leftarrow>
          (if sf_width s > 0 \<and> sf_height s > 0
           then do {
             pixels \<leftarrow> read_region s (surface_bounds s);
             Some [call_image codec_png True (sf_layer s) (surface_bounds s) pixels]
           }
           else Some []);
        Some ((if sf_layer s > 0
               then [call_shade (sf_layer s) (sf_opacity s),
                     call_move (sf_layer s) (sf_parent s) (sf_x s) (sf_y s) (sf_z s)]
               else []) @
              [call_size (sf_layer s) (sf_width s) (sf_height s)] @ image)
      })"

end
