(* ===== verification/Common_Surface_Pixels.thy ===== *)
theory Common_Surface_Pixels
  imports Common_Surface
begin

text \<open>
  The loops of the surfaces, as changes of pixels: which pixels an operation changes, to what, and
  that the rectangle it reports covers every change.
\<close>

section \<open>Coordinates\<close>

lemma coords_set: "(x, y) \<in> set (coords w h) \<longleftrightarrow> 0 \<le> x \<and> x < w \<and> 0 \<le> y \<and> y < h"
  by (auto simp: coords_def image_iff)

text \<open>The coordinates come row by row.\<close>

fun before :: "int \<times> int \<Rightarrow> int \<times> int \<Rightarrow> bool" where
  "before (x, y) (x', y') \<longleftrightarrow> y < y' \<or> (y = y' \<and> x < x')"

lemma coords_sorted: "sorted_wrt before (coords w h)"
proof -
  have row: "sorted_wrt before (map (\<lambda>x. (x, y)) [0..w - 1])" for y
    by (simp add: sorted_wrt_map)
  have "sorted_wrt before (concat (map (\<lambda>y. map (\<lambda>x. (x, y)) [0..w - 1]) ys))" if "sorted_wrt (<) ys" for ys
    using that
  proof (induction ys)
    case (Cons y ys)
    then show ?case using row[of y] by (auto simp: sorted_wrt_append)
  qed simp
  then show ?thesis unfolding coords_def by simp
qed

lemma before_distinct: "sorted_wrt before ps \<Longrightarrow> distinct ps"
  by (induction ps) auto

lemma coords_distinct: "distinct (coords w h)"
  by (rule before_distinct[OF coords_sorted])

lemma coords_split:
  assumes "coords w h = ys @ p # zs"
  shows "p \<in> set (coords w h)" "q \<in> set ys \<Longrightarrow> before q p" "p \<notin> set ys"
proof -
  show "p \<in> set (coords w h)" using assms by simp
  show "before q p" if "q \<in> set ys" using coords_sorted[of w h] that by (simp add: assms sorted_wrt_append)
  show "p \<notin> set ys" using coords_distinct[of w h] by (simp add: assms)
qed

section \<open>Loops over pixels\<close>

lemma note_pixels:
  assumes "fold note_pixel ps (a, b, c, d) = (a', b', c', d')"
  shows "a' \<le> a \<and> b' \<le> b \<and> c \<le> c' \<and> d \<le> d'
    \<and> (\<forall>(x, y) \<in> set ps. a' \<le> x \<and> x \<le> c' \<and> b' \<le> y \<and> y \<le> d')
    \<and> (a' = a \<or> a' \<in> fst ` set ps) \<and> (b' = b \<or> b' \<in> snd ` set ps)
    \<and> (c' = c \<or> c' \<in> fst ` set ps) \<and> (d' = d \<or> d' \<in> snd ` set ps)"
  using assms
proof (induction ps arbitrary: a b c d)
  case (Cons p ps)
  obtain x y where p: "p = (x, y)" by fastforce
  obtain a1 b1 c1 d1 where n: "note_pixel p (a, b, c, d) = (a1, b1, c1, d1)" by (cases "note_pixel p (a, b, c, d)")
  have 1: "a1 \<le> a" "b1 \<le> b" "c \<le> c1" "d \<le> d1" "a1 \<le> x" "b1 \<le> y" "x \<le> c1" "y \<le> d1"
    "a1 = a \<or> a1 = x" "b1 = b \<or> b1 = y" "c1 = c \<or> c1 = x" "d1 = d \<or> d1 = y"
    using n by (auto simp: p split: if_splits)
  have "fold note_pixel ps (a1, b1, c1, d1) = (a', b', c', d')" using Cons.prems n by simp
  note IH = Cons.IH[OF this]
  have "\<forall>(x, y) \<in> set ps. a' \<le> x \<and> x \<le> c' \<and> b' \<le> y \<and> y \<le> d'" using IH by blast
  moreover have "a' \<le> a1" "b' \<le> b1" "c1 \<le> c'" "d1 \<le> d'" using IH by blast+
  moreover have "a' = a \<or> a' \<in> fst ` set (p # ps)" using IH 1(9) by (auto simp: p)
  moreover have "b' = b \<or> b' \<in> snd ` set (p # ps)" using IH 1(10) by (auto simp: p)
  moreover have "c' = c \<or> c' \<in> fst ` set (p # ps)" using IH 1(11) by (auto simp: p)
  moreover have "d' = d \<or> d' \<in> snd ` set (p # ps)" using IH 1(12) by (auto simp: p)
  ultimately show ?case using 1(1-8) by (simp add: p)
qed simp

text \<open>
  A loop whose step stores \<open>new\<close> to the pixel of its coordinates, provided that only earlier pixels
  have been stored to.
\<close>

lemma pixel_loop_spec:
  assumes inj: "inj_on ix (set (coords w h))"
    and range: "\<And>p. p \<in> set (coords w h) \<Longrightarrow> ix p < length buf"
    and step: "\<And>ys p zs b. coords w h = ys @ p # zs \<Longrightarrow> length b = length buf
      \<Longrightarrow> (\<And>q. q \<in> set ys \<Longrightarrow> b ! ix q = new q)
      \<Longrightarrow> (\<And>i. i < length buf \<Longrightarrow> (\<forall>q \<in> set ys. i \<noteq> ix q) \<Longrightarrow> b ! i = buf ! i)
      \<Longrightarrow> f p b = Some (changed p, b[ix p := new p])"
  shows "\<exists>b. pixel_loop f w h (e, buf) = Some (fold note_pixel (filter changed (coords w h)) e, b)
    \<and> length b = length buf \<and> (\<forall>q \<in> set (coords w h). b ! ix q = new q)
    \<and> (\<forall>i < length buf. (\<forall>q \<in> set (coords w h). i \<noteq> ix q) \<longrightarrow> b ! i = buf ! i)"
proof -
  let ?I = "\<lambda>ys (e', b). e' = fold note_pixel (filter changed ys) e \<and> length b = length buf
    \<and> (\<forall>q \<in> set ys. b ! ix q = new q) \<and> (\<forall>i < length buf. (\<forall>q \<in> set ys. i \<noteq> ix q) \<longrightarrow> b ! i = buf ! i)"
  have "\<exists>s'. pixel_loop f w h (e, buf) = Some s' \<and> ?I (coords w h) s'"
    unfolding pixel_loop_def
  proof (rule each_done_invariant[where I = ?I])
    fix ys p zs s
    assume xs: "coords w h = ys @ p # zs" and I: "?I ys s"
    obtain e' b where s: "s = (e', b)" by fastforce
    have fp: "f p b = Some (changed p, b[ix p := new p])" by (rule step[OF xs]) (use I s in auto)
    have p: "p \<in> set (coords w h)" "ix p < length b" using range[of p] I by (auto simp: xs s)
    have other: "ix q \<noteq> ix p" "ix p \<noteq> ix q" if "q \<in> set ys" for q
      using inj_onD[OF inj, of q p] that coords_split(3)[OF xs] by (auto simp: xs)
    show "\<exists>s'. (case s of (e, buf) \<Rightarrow> f p buf \<bind> (\<lambda>(ch, buf). Some (if ch then note_pixel p e else e, buf))) = Some s'
        \<and> ?I (ys @ [p]) s'"
      using I p other by (auto simp: s fp nth_list_update)
  qed simp
  then show ?thesis by (auto split: prod.splits)
qed

section \<open>Pixels of a surface\<close>

definition on_surface :: "guac_common_surface \<Rightarrow> int \<Rightarrow> int \<Rightarrow> bool" where
  "on_surface s x y \<longleftrightarrow> 0 \<le> x \<and> x < sf_width s \<and> 0 \<le> y \<and> y < sf_height s"

definition px :: "guac_common_surface \<Rightarrow> int \<Rightarrow> int \<Rightarrow> pixel" where
  "px s x y = sf_buffer s ! nat (sf_width s * y + x)"

definition buffer_ok :: "guac_common_surface \<Rightarrow> bool" where
  "buffer_ok s \<longleftrightarrow> 0 \<le> sf_width s \<and> 0 \<le> sf_height s \<and> int (length (sf_buffer s)) = sf_width s * sf_height s"

lemma bounds_on_surface: "in_rect (surface_bounds s) x y \<longleftrightarrow> on_surface s x y"
  by (auto simp: in_rect_def surface_bounds_def on_surface_def)

lemma surface_index:
  assumes "buffer_ok s" and "on_surface s x y"
  shows "0 \<le> sf_width s * y + x" "sf_width s * y + x < int (length (sf_buffer s))"
proof -
  show "0 \<le> sf_width s * y + x" using assms by (simp add: on_surface_def)
  have "sf_width s * y + x < sf_width s * (y + 1)" using assms by (simp add: on_surface_def algebra_simps)
  also have "\<dots> \<le> sf_width s * sf_height s" using assms by (intro mult_left_mono) (auto simp: on_surface_def)
  finally show "sf_width s * y + x < int (length (sf_buffer s))" using assms(1) by (simp add: buffer_ok_def)
qed

lemma surface_index_inj:
  assumes "on_surface s x y" and "on_surface s x' y'" and "sf_width s * y + x = sf_width s * y' + x'"
  shows "x = x' \<and> y = y'"
proof -
  have w: "0 < sf_width s" using assms(1) by (simp add: on_surface_def)
  have "(sf_width s * y + x) div sf_width s = y" "(sf_width s * y' + x') div sf_width s = y'"
    using assms(1,2) w by (auto simp: on_surface_def)
  with assms(3) show ?thesis by auto
qed

lemma surface_nat_index_inj:
  assumes "buffer_ok s" and "on_surface s x y" and "on_surface s x' y'"
    and "nat (sf_width s * y + x) = nat (sf_width s * y' + x')"
  shows "x = x' \<and> y = y'"
  using surface_index(1)[OF assms(1,2)] surface_index(1)[OF assms(1,3)] assms(4)
  by (intro surface_index_inj[OF assms(2,3)]) linarith

text \<open>A rectangle of the surface.\<close>

definition rect_on :: "guac_common_surface \<Rightarrow> guac_common_rect \<Rightarrow> bool" where
  "rect_on s r \<longleftrightarrow> rect_within r (surface_bounds s)"

lemma rect_on_pixel:
  assumes "rect_on s r" and "(x, y) \<in> set (coords (rect_width r) (rect_height r))"
  shows "on_surface s (rect_x r + x) (rect_y r + y)" "in_rect r (rect_x r + x) (rect_y r + y)"
  using assms by (auto simp: rect_on_def rect_within_def surface_bounds_def on_surface_def coords_set in_rect_def)

lemma in_rect_coords:
  "in_rect r x y \<longleftrightarrow> (x - rect_x r, y - rect_y r) \<in> set (coords (rect_width r) (rect_height r))"
  by (auto simp: in_rect_def coords_set)

lemma pixel_get_surface:
  assumes "buffer_ok s" and "rect_on s r" and "p \<in> set (coords (rect_width r) (rect_height r))"
  shows "pixel_get (sf_buffer s) (pixel_index s r p) = Some (px s (rect_x r + fst p) (rect_y r + snd p))"
proof -
  obtain x y where p: "p = (x, y)" by fastforce
  from surface_index[OF assms(1) rect_on_pixel(1)[OF assms(2), of x y]] assms(3) show ?thesis
    by (simp add: pixel_get_def pixel_index_def p px_def)
qed

text \<open>A change of the pixels of a rectangle, and of nothing else.\<close>

definition repainted ::
    "guac_common_surface \<Rightarrow> guac_common_rect \<Rightarrow> (int \<Rightarrow> int \<Rightarrow> pixel) \<Rightarrow> guac_common_surface \<Rightarrow> bool" where
  "repainted s r new s' \<longleftrightarrow> (\<exists>buf. s' = s\<lparr>sf_buffer := buf\<rparr> \<and> length buf = length (sf_buffer s))
     \<and> (\<forall>x y. on_surface s x y \<longrightarrow> px s' x y = (if in_rect r x y then new x y else px s x y))"

text \<open>
  The general form of the loops: each pixel of the rectangle gets a new value, in an order given by
  \<open>turn\<close>; the rectangle restricted to the changed pixels covers every change.
\<close>

lemma repaint_loop:
  assumes ok: "buffer_ok s" and on: "rect_on s r" and w: "w = rect_width r" and h: "h = rect_height r"
    and turn: "bij_betw turn (set (coords w h)) (set (coords w h))"
    and step: "\<And>ys p zs b. coords w h = ys @ p # zs \<Longrightarrow> length b = length (sf_buffer s)
      \<Longrightarrow> (\<And>q. q \<in> set ys \<Longrightarrow> b ! nat (pixel_index s r (turn q)) =
            new (rect_x r + fst (turn q)) (rect_y r + snd (turn q)))
      \<Longrightarrow> (\<And>x y. on_surface s x y \<Longrightarrow> (\<forall>q \<in> set ys. (x, y) \<noteq> (rect_x r + fst (turn q), rect_y r + snd (turn q)))
            \<Longrightarrow> b ! nat (sf_width s * y + x) = px s x y)
      \<Longrightarrow> f p b = Some (changed p, b[nat (pixel_index s r (turn p)) :=
            new (rect_x r + fst (turn p)) (rect_y r + snd (turn p))])"
  shows "\<exists>b. pixel_loop f w h (e, sf_buffer s) = Some (fold note_pixel (filter changed (coords w h)) e, b)
    \<and> repainted s r new (s\<lparr>sf_buffer := b\<rparr>)"
proof -
  let ?ix = "\<lambda>p. nat (pixel_index s r (turn p))"
  let ?at = "\<lambda>p. (rect_x r + fst (turn p), rect_y r + snd (turn p))"
  have t: "turn p \<in> set (coords w h)" if "p \<in> set (coords w h)" for p using bij_betw_apply[OF turn that] .
  have at: "on_surface s (fst (?at p)) (snd (?at p))" if "p \<in> set (coords w h)" for p
    using rect_on_pixel(1)[OF on, of "fst (turn p)" "snd (turn p)"] t[OF that] by (simp add: w h)
  have ix: "?ix p = nat (sf_width s * snd (?at p) + fst (?at p))" for p by (simp add: pixel_index_def)
  have inj: "inj_on ?ix (set (coords w h))"
  proof (rule inj_onI)
    fix p q assume p: "p \<in> set (coords w h)" and q: "q \<in> set (coords w h)" and eq: "?ix p = ?ix q"
    have "fst (?at p) = fst (?at q) \<and> snd (?at p) = snd (?at q)"
      by (rule surface_nat_index_inj[OF ok at[OF p] at[OF q]]) (use eq in \<open>simp add: pixel_index_def\<close>)
    then have "turn p = turn q" by (simp add: prod_eq_iff)
    then show "p = q" using turn p q by (auto simp: bij_betw_def inj_on_def)
  qed
  have range: "?ix p < length (sf_buffer s)" if "p \<in> set (coords w h)" for p
    using surface_index[OF ok at[OF that]] by (simp add: pixel_index_def)
  have "\<exists>b. pixel_loop f w h (e, sf_buffer s) = Some (fold note_pixel (filter changed (coords w h)) e, b)
    \<and> length b = length (sf_buffer s)
    \<and> (\<forall>q \<in> set (coords w h). b ! ?ix q = new (fst (?at q)) (snd (?at q)))
    \<and> (\<forall>i < length (sf_buffer s). (\<forall>q \<in> set (coords w h). i \<noteq> ?ix q) \<longrightarrow> b ! i = sf_buffer s ! i)"
  proof (rule pixel_loop_spec[OF inj range])
    fix ys p zs b
    assume xs: "coords w h = ys @ p # zs" and len: "length b = length (sf_buffer s)"
      and stored: "\<And>q. q \<in> set ys \<Longrightarrow> b ! ?ix q = new (fst (?at q)) (snd (?at q))"
      and rest: "\<And>i. i < length (sf_buffer s) \<Longrightarrow> (\<forall>q \<in> set ys. i \<noteq> ?ix q) \<Longrightarrow> b ! i = sf_buffer s ! i"
    have "b ! nat (sf_width s * y + x) = px s x y"
      if xy: "on_surface s x y" and far: "\<forall>q \<in> set ys. (x, y) \<noteq> ?at q" for x y
    proof -
      have "nat (sf_width s * y + x) \<noteq> ?ix q" if q: "q \<in> set ys" for q
      proof
        assume "nat (sf_width s * y + x) = ?ix q"
        then have "x = fst (?at q) \<and> y = snd (?at q)"
          using surface_nat_index_inj[OF ok xy at[of q]] q by (simp add: xs pixel_index_def)
        then show False using far q by auto
      qed
      then show ?thesis
        using rest[of "nat (sf_width s * y + x)"] surface_index[OF ok xy] by (auto simp: px_def)
    qed
    then show "f p b = Some (changed p, b[?ix p := new (fst (?at p)) (snd (?at p))])"
      using step[OF xs len] stored by auto
  qed
  then obtain b where b: "pixel_loop f w h (e, sf_buffer s) = Some (fold note_pixel (filter changed (coords w h)) e, b)"
    "length b = length (sf_buffer s)"
    "\<forall>q \<in> set (coords w h). b ! ?ix q = new (fst (?at q)) (snd (?at q))"
    "\<forall>i < length (sf_buffer s). (\<forall>q \<in> set (coords w h). i \<noteq> ?ix q) \<longrightarrow> b ! i = sf_buffer s ! i"
    by blast
  have "px (s\<lparr>sf_buffer := b\<rparr>) x y = (if in_rect r x y then new x y else px s x y)" if xy: "on_surface s x y" for x y
  proof (cases "in_rect r x y")
    case True
    then have "(x - rect_x r, y - rect_y r) \<in> turn ` set (coords w h)"
      using turn by (simp add: in_rect_coords w h bij_betw_def)
    then obtain q where q: "q \<in> set (coords w h)" "turn q = (x - rect_x r, y - rect_y r)"
      by (metis imageE)
    then have "?at q = (x, y)" by simp
    moreover have "?ix q = nat (sf_width s * y + x)" using q(2) by (simp add: pixel_index_def)
    ultimately show ?thesis using b(3) q(1) True by (auto simp: px_def)
  next
    case False
    have "nat (sf_width s * y + x) \<noteq> ?ix q" if q: "q \<in> set (coords w h)" for q
    proof
      assume "nat (sf_width s * y + x) = ?ix q"
      then have "x = fst (?at q) \<and> y = snd (?at q)"
        using surface_nat_index_inj[OF ok xy at[OF q]] by (simp add: pixel_index_def)
      then show False using False rect_on_pixel(2)[OF on, of "fst (turn q)" "snd (turn q)"] t[OF q] by (simp add: w h)
    qed
    then show ?thesis
      using b(4) surface_index[OF ok xy] False by (auto simp: px_def)
  qed
  with b(1,2) show ?thesis by (auto simp: repainted_def)
qed

section \<open>The extents of a change\<close>

fun extents_in :: "int \<Rightarrow> int \<Rightarrow> extents \<Rightarrow> bool" where
  "extents_in w h (a, b, c, d) \<longleftrightarrow> 0 \<le> a \<and> 0 \<le> b \<and> c < w \<and> d < h"

fun extents_cover :: "extents \<Rightarrow> int \<times> int \<Rightarrow> bool" where
  "extents_cover (a, b, c, d) (x, y) \<longleftrightarrow> a \<le> x \<and> x \<le> c \<and> b \<le> y \<and> y \<le> d"

lemma note_extents:
  assumes "set ps \<subseteq> set (coords w h)" and "0 < w" and "0 < h" and "0 \<le> a" and "0 \<le> b"
    and "e = fold note_pixel ps (a, b, 0, 0)"
  shows "extents_in w h e" "p \<in> set ps \<Longrightarrow> extents_cover e p"
proof -
  obtain a' b' c' d' where e: "e = (a', b', c', d')" by (cases e)
  have n: "fold note_pixel ps (a, b, 0, 0) = (a', b', c', d')" using assms(6) e by simp
  have f: "fst ` set ps \<subseteq> {0..<w}" "snd ` set ps \<subseteq> {0..<h}" using assms(1) by (auto simp: coords_set)
  have "0 \<le> a'"
  proof -
    have "a' = a \<or> a' \<in> fst ` set ps" using note_pixels[OF n] by blast
    then show ?thesis using f(1) assms(4) by force
  qed
  moreover have "0 \<le> b'"
  proof -
    have "b' = b \<or> b' \<in> snd ` set ps" using note_pixels[OF n] by blast
    then show ?thesis using f(2) assms(5) by force
  qed
  moreover have "c' < w"
  proof -
    have "c' = 0 \<or> c' \<in> fst ` set ps" using note_pixels[OF n] by blast
    then show ?thesis using f(1) assms(2) by force
  qed
  moreover have "d' < h"
  proof -
    have "d' = 0 \<or> d' \<in> snd ` set ps" using note_pixels[OF n] by blast
    then show ?thesis using f(2) assms(3) by force
  qed
  ultimately show "extents_in w h e" by (simp add: e)
  have "\<forall>(x, y) \<in> set ps. a' \<le> x \<and> x \<le> c' \<and> b' \<le> y \<and> y \<le> d'" using note_pixels[OF n] by blast
  then show "p \<in> set ps \<Longrightarrow> extents_cover e p" unfolding e by (cases p) auto
qed

lemma restrict_rect_spec:
  assumes "extents_in (rect_width r) (rect_height r) e" and "\<not> rect_empty r"
  shows "rect_within (restrict_rect e r) r"
    "extents_cover e (x - rect_x r, y - rect_y r) \<Longrightarrow> in_rect (restrict_rect e r) x y"
  using assms by (cases e; auto simp: restrict_rect_def rect_within_def rect_empty_def in_rect_def)+

section \<open>Storing pixels\<close>

lemma store_pixel_some:
  assumes "0 \<le> i" and "i < int (length b)"
  shows "store_pixel i f b = Some (f (b ! nat i) \<noteq> b ! nat i, b[nat i := f (b ! nat i)])"
  using assms list_update_id[of b "nat i"]
  by (auto simp: store_pixel_def pixel_get_def pixel_put_def)

text \<open>What the operations on pixels promise.\<close>

definition painted ::
    "guac_common_surface \<Rightarrow> guac_common_rect \<Rightarrow> (int \<Rightarrow> int \<Rightarrow> pixel) \<Rightarrow> guac_common_surface \<Rightarrow> guac_common_rect \<Rightarrow> bool" where
  "painted s r new s' r' \<longleftrightarrow> repainted s r new s' \<and> rect_within r' r
     \<and> (\<forall>x y. on_surface s x y \<and> px s' x y \<noteq> px s x y \<longrightarrow> in_rect r' x y)"

lemma rect_on_nonneg: "rect_on s r \<Longrightarrow> \<not> rect_empty r \<Longrightarrow> 0 < rect_width r \<and> 0 < rect_height r"
  by (simp add: rect_empty_def)

lemma repainted_changes:
  assumes "repainted s r new s'" and "on_surface s x y" and "px s' x y \<noteq> px s x y"
  shows "in_rect r x y" "new x y \<noteq> px s x y"
  using assms by (auto simp: repainted_def split: if_splits)

lemma turn_id: "bij_betw (\<lambda>p. p) A A"
  by (simp add: bij_betw_def)

text \<open>The common form of the operations: the loop, and the rectangle restricted to its changes.\<close>

lemma paint_loop:
  assumes ok: "buffer_ok s" and on: "rect_on s r" and ne: "\<not> rect_empty r"
    and ab: "0 \<le> a" "0 \<le> b"
    and step: "\<And>p buf. p \<in> set (coords (rect_width r) (rect_height r)) \<Longrightarrow> length buf = length (sf_buffer s)
      \<Longrightarrow> buf ! nat (pixel_index s r p) = px s (rect_x r + fst p) (rect_y r + snd p)
      \<Longrightarrow> f p buf = Some (new (rect_x r + fst p) (rect_y r + snd p) \<noteq> px s (rect_x r + fst p) (rect_y r + snd p),
            buf[nat (pixel_index s r p) := new (rect_x r + fst p) (rect_y r + snd p)])"
  shows "\<exists>e buf. pixel_loop f (rect_width r) (rect_height r) ((a, b, 0, 0), sf_buffer s) = Some (e, buf)
    \<and> painted s r new (s\<lparr>sf_buffer := buf\<rparr>) (restrict_rect e r)"
proof -
  let ?w = "rect_width r" and ?h = "rect_height r"
  let ?at = "\<lambda>p. (rect_x r + fst p, rect_y r + snd p)"
  let ?ch = "\<lambda>p. new (rect_x r + fst p) (rect_y r + snd p) \<noteq> px s (rect_x r + fst p) (rect_y r + snd p)"
  let ?e = "fold note_pixel (filter ?ch (coords ?w ?h)) (a, b, 0, 0)"
  have "\<exists>buf. pixel_loop f ?w ?h ((a, b, 0, 0), sf_buffer s) = Some (?e, buf)
      \<and> repainted s r new (s\<lparr>sf_buffer := buf\<rparr>)"
  proof (rule repaint_loop[OF ok on refl refl turn_id])
    fix ys p zs buf
    assume xs: "coords ?w ?h = ys @ p # zs" and len: "length buf = length (sf_buffer s)"
      and rest: "\<And>x y. on_surface s x y \<Longrightarrow> (\<forall>q \<in> set ys. (x, y) \<noteq> ?at q) \<Longrightarrow> buf ! nat (sf_width s * y + x) = px s x y"
    have p: "p \<in> set (coords ?w ?h)" by (simp add: xs)
    have "on_surface s (rect_x r + fst p) (rect_y r + snd p)"
      using rect_on_pixel(1)[OF on, of "fst p" "snd p"] p by simp
    moreover have "\<forall>q \<in> set ys. ?at p \<noteq> ?at q" using coords_split(3)[OF xs] by (auto simp: prod_eq_iff)
    ultimately have "buf ! nat (pixel_index s r p) = px s (rect_x r + fst p) (rect_y r + snd p)"
      using rest by (simp add: pixel_index_def)
    from step[OF p len this]
    show "f p buf = Some (?ch p, buf[nat (pixel_index s r p) := new (rect_x r + fst p) (rect_y r + snd p)])" .
  qed
  then obtain buf where buf: "pixel_loop f ?w ?h ((a, b, 0, 0), sf_buffer s) = Some (?e, buf)"
    "repainted s r new (s\<lparr>sf_buffer := buf\<rparr>)"
    by blast
  have ps: "set (filter ?ch (coords ?w ?h)) \<subseteq> set (coords ?w ?h)" by auto
  note ext = note_extents[OF ps _ _ ab refl] rect_on_nonneg[OF on ne]
  have "in_rect (restrict_rect ?e r) x y"
    if "on_surface s x y" "px (s\<lparr>sf_buffer := buf\<rparr>) x y \<noteq> px s x y" for x y
  proof -
    note c = repainted_changes[OF buf(2) that]
    have "(x - rect_x r, y - rect_y r) \<in> set (filter ?ch (coords ?w ?h))"
      using c by (simp add: in_rect_coords)
    then have "extents_cover ?e (x - rect_x r, y - rect_y r)" using ext by blast
    with restrict_rect_spec(2)[OF ext(1) ne] ext(3) show ?thesis by blast
  qed
  moreover have "rect_within (restrict_rect ?e r) r" using restrict_rect_spec(1)[OF ext(1) ne] ext(3) by blast
  ultimately show ?thesis using buf by (auto simp: painted_def)
qed

lemma store_surface:
  assumes "buffer_ok s" and "rect_on s r" and "p \<in> set (coords (rect_width r) (rect_height r))"
    and "length buf = length (sf_buffer s)"
    and "buf ! nat (pixel_index s r p) = px s (rect_x r + fst p) (rect_y r + snd p)"
  shows "store_pixel (pixel_index s r p) f buf =
    Some (f (px s (rect_x r + fst p) (rect_y r + snd p)) \<noteq> px s (rect_x r + fst p) (rect_y r + snd p),
      buf[nat (pixel_index s r p) := f (px s (rect_x r + fst p) (rect_y r + snd p))])"
proof -
  have "on_surface s (rect_x r + fst p) (rect_y r + snd p)"
    using rect_on_pixel(1)[OF assms(2), of "fst p" "snd p"] assms(3) by simp
  from surface_index[OF assms(1) this] show ?thesis
    using store_pixel_some[of "pixel_index s r p" buf f] assms(4,5) by (simp add: pixel_index_def)
qed

lemma surface_fill_spec:
  assumes "buffer_ok s" and "rect_on s r" and "\<not> rect_empty r"
  shows "\<exists>s' r'. surface_fill s r c = Some (s', r') \<and> painted s r (\<lambda>_ _. c) s' r'"
proof -
  have "\<exists>e buf. pixel_loop (\<lambda>p. store_pixel (pixel_index s r p) (\<lambda>_. c)) (rect_width r) (rect_height r)
      ((rect_width r - 1, rect_height r - 1, 0, 0), sf_buffer s) = Some (e, buf)
      \<and> painted s r (\<lambda>_ _. c) (s\<lparr>sf_buffer := buf\<rparr>) (restrict_rect e r)"
    by (rule paint_loop[OF assms]) (use rect_on_nonneg[OF assms(2,3)] store_surface[OF assms(1,2)] in auto)
  then show ?thesis by (auto simp: surface_fill_def)
qed

text \<open>A source image that has a pixel for every pixel of a rectangle drawn from a position in it.\<close>

definition source_ok :: "pixel list \<Rightarrow> int \<Rightarrow> int \<times> int \<Rightarrow> guac_common_rect \<Rightarrow> bool" where
  "source_ok src stride pos r \<longleftrightarrow>
     (\<forall>(x, y) \<in> set (coords (rect_width r) (rect_height r)).
        0 \<le> stride * (snd pos + y) + (fst pos + x) \<and> stride * (snd pos + y) + (fst pos + x) < int (length src))"

definition source_px :: "pixel list \<Rightarrow> int \<Rightarrow> int \<times> int \<Rightarrow> guac_common_rect \<Rightarrow> int \<Rightarrow> int \<Rightarrow> pixel" where
  "source_px src stride pos r x y =
     src ! nat (stride * (snd pos + (y - rect_y r)) + (fst pos + (x - rect_x r)))"

lemma source_get:
  assumes "source_ok src stride pos r" and "p \<in> set (coords (rect_width r) (rect_height r))"
  shows "pixel_get src (stride * (snd pos + snd p) + (fst pos + fst p)) =
    Some (source_px src stride pos r (rect_x r + fst p) (rect_y r + snd p))"
  using assms by (cases p) (force simp: source_ok_def source_px_def pixel_get_def)

lemma surface_put_spec:
  assumes "buffer_ok s" and "rect_on s r" and "\<not> rect_empty r" and "source_ok src stride pos r"
  shows "\<exists>s' r'. surface_put src stride pos s r solid = Some (s', r')
    \<and> painted s r (\<lambda>x y. if solid then source_px src stride pos r x y OR 0xFF000000
        else guac_common_surface_argb_blend (px s x y) (source_px src stride pos r x y)) s' r'"
proof -
  let ?new = "\<lambda>x y. if solid then source_px src stride pos r x y OR 0xFF000000
        else guac_common_surface_argb_blend (px s x y) (source_px src stride pos r x y)"
  let ?f = "\<lambda>p buf. do {
           c \<leftarrow> pixel_get src (stride * (snd pos + snd p) + (fst pos + fst p));
           store_pixel (pixel_index s r p)
             (\<lambda>dst_color. if solid then c OR 0xFF000000 else guac_common_surface_argb_blend dst_color c) buf
         }"
  have "\<exists>e buf. pixel_loop ?f (rect_width r) (rect_height r)
      ((rect_width r, rect_height r, 0, 0), sf_buffer s) = Some (e, buf)
      \<and> painted s r ?new (s\<lparr>sf_buffer := buf\<rparr>) (restrict_rect e r)"
    by (rule paint_loop[OF assms(1-3)])
      (use rect_on_nonneg[OF assms(2,3)] store_surface[OF assms(1,2)] source_get[OF assms(4)] in auto)
  then show ?thesis by (auto simp: surface_put_def)
qed

lemma surface_fill_mask_spec:
  assumes "buffer_ok s" and "rect_on s r" and "source_ok src stride pos r"
  shows "\<exists>s'. surface_fill_mask src stride pos s r c = Some s'
    \<and> repainted s r (\<lambda>x y. if source_px src stride pos r x y AND 0xFF000000 \<noteq> 0 then c else px s x y) s'"
proof -
  let ?new = "\<lambda>x y. if source_px src stride pos r x y AND 0xFF000000 \<noteq> 0 then c else px s x y"
  let ?f = "\<lambda>p buf. do {
           m \<leftarrow> pixel_get src (stride * (snd pos + snd p) + (fst pos + fst p));
           if m AND 0xFF000000 \<noteq> 0
           then do { buf \<leftarrow> pixel_put (pixel_index s r p) c buf; Some (True, buf) }
           else Some (False, buf)
         }"
  let ?at = "\<lambda>p. (rect_x r + fst p, rect_y r + snd p)"
  let ?ch = "\<lambda>p. source_px src stride pos r (rect_x r + fst p) (rect_y r + snd p) AND 0xFF000000 \<noteq> 0"
  have "\<exists>buf. pixel_loop ?f (rect_width r) (rect_height r) ((0, 0, 0, 0), sf_buffer s) =
        Some (fold note_pixel (filter ?ch (coords (rect_width r) (rect_height r))) (0, 0, 0, 0), buf)
      \<and> repainted s r ?new (s\<lparr>sf_buffer := buf\<rparr>)"
  proof (rule repaint_loop[OF assms(1,2) refl refl turn_id])
    fix ys p zs buf
    assume xs: "coords (rect_width r) (rect_height r) = ys @ p # zs" and len: "length buf = length (sf_buffer s)"
      and rest: "\<And>x y. on_surface s x y \<Longrightarrow> (\<forall>q \<in> set ys. (x, y) \<noteq> ?at q) \<Longrightarrow> buf ! nat (sf_width s * y + x) = px s x y"
    have p: "p \<in> set (coords (rect_width r) (rect_height r))" by (simp add: xs)
    have on: "on_surface s (rect_x r + fst p) (rect_y r + snd p)"
      using rect_on_pixel(1)[OF assms(2), of "fst p" "snd p"] p by simp
    moreover have "\<forall>q \<in> set ys. ?at p \<noteq> ?at q" using coords_split(3)[OF xs] by (auto simp: prod_eq_iff)
    ultimately have old: "buf ! nat (pixel_index s r p) = px s (rect_x r + fst p) (rect_y r + snd p)"
      using rest by (simp add: pixel_index_def)
    have put: "pixel_put (pixel_index s r p) c buf = Some (buf[nat (pixel_index s r p) := c])"
      using surface_index[OF assms(1) on] len by (simp add: pixel_put_def pixel_index_def)
    show "?f p buf = Some (?ch p, buf[nat (pixel_index s r p) := ?new (rect_x r + fst p) (rect_y r + snd p)])"
      using source_get[OF assms(3) p] put list_update_id[of buf "nat (pixel_index s r p)"] old
      by auto
  qed
  then show ?thesis by (auto simp: surface_fill_mask_def)
qed

section \<open>Copies within a surface\<close>

definition flip :: "bool \<Rightarrow> int \<Rightarrow> int \<Rightarrow> int \<times> int \<Rightarrow> int \<times> int" where
  "flip forwards w h = (\<lambda>(x, y). if forwards then (x, y) else (w - 1 - x, h - 1 - y))"

lemma flip_flip [simp]: "flip f w h (flip f w h p) = p"
  by (simp add: flip_def split: prod.splits)

lemma flip_coords: "p \<in> set (coords w h) \<Longrightarrow> flip f w h p \<in> set (coords w h)"
  by (cases p) (auto simp: flip_def coords_set)

lemma flip_bij: "bij_betw (flip f w h) (set (coords w h)) (set (coords w h))"
  by (rule bij_betw_byWitness[where f' = "flip f w h"]) (auto intro: flip_coords)

text \<open>The order of the loop is such that a pixel is read before it is overwritten.\<close>

lemma flip_unread:
  assumes "before q p"
    and "f \<longleftrightarrow> ry < sy \<or> (ry = sy \<and> rx < sx)"
  shows "(sx + fst (flip f w h p), sy + snd (flip f w h p)) \<noteq> (rx + fst (flip f w h q), ry + snd (flip f w h q))"
  using assms by (cases p; cases q; cases f) (auto simp: flip_def)

lemma surface_transfer_spec:
  assumes ok: "buffer_ok s" and on: "rect_on s r"
    and src: "rect_on s (guac_common_rect_init sx sy (rect_width r) (rect_height r))"
  shows "\<exists>s' pos r'. surface_transfer s True (sx, sy) op s r = Some (s', pos, r')
    \<and> repainted s r (\<lambda>x y. transfer_int op (px s (sx + (x - rect_x r)) (sy + (y - rect_y r))) (px s x y)) s'"
proof -
  let ?w = "rect_width r" and ?h = "rect_height r"
  define f where "f = (rect_y r < sy \<or> (rect_y r = sy \<and> rect_x r < sx))"
  let ?t = "flip f ?w ?h"
  let ?new = "\<lambda>x y. transfer_int op (px s (sx + (x - rect_x r)) (sy + (y - rect_y r))) (px s x y)"
  let ?at = "\<lambda>p. (rect_x r + fst (?t p), rect_y r + snd (?t p))"
  let ?step = "\<lambda>p buf. do {
      c \<leftarrow> pixel_get buf (sf_width s * (sy + snd (?t p)) + (sx + fst (?t p)));
      store_pixel (pixel_index s r (?t p)) (transfer_int op c) buf
    }"
  let ?ch = "\<lambda>p. ?new (fst (?at p)) (snd (?at p)) \<noteq> px s (fst (?at p)) (snd (?at p))"
  have "\<exists>b. pixel_loop ?step ?w ?h ((?w - 1, ?h - 1, 0, 0), sf_buffer s) =
        Some (fold note_pixel (filter ?ch (coords ?w ?h)) (?w - 1, ?h - 1, 0, 0), b)
      \<and> repainted s r ?new (s\<lparr>sf_buffer := b\<rparr>)"
  proof (rule repaint_loop[OF ok on refl refl flip_bij[of f]])
    fix ys p zs b
    assume xs: "coords ?w ?h = ys @ p # zs" and len: "length b = length (sf_buffer s)"
      and rest: "\<And>x y. on_surface s x y \<Longrightarrow> (\<forall>q \<in> set ys. (x, y) \<noteq> ?at q) \<Longrightarrow> b ! nat (sf_width s * y + x) = px s x y"
    have p: "p \<in> set (coords ?w ?h)" and t: "?t p \<in> set (coords ?w ?h)"
      using flip_coords[of p ?w ?h f] by (simp_all add: xs)
    have dst: "on_surface s (fst (?at p)) (snd (?at p))"
      using rect_on_pixel(1)[OF on, of "fst (?t p)" "snd (?t p)"] t by simp
    have rd: "on_surface s (sx + fst (?t p)) (sy + snd (?t p))"
      using rect_on_pixel(1)[OF src, of "fst (?t p)" "snd (?t p)"] t by simp
    have "\<forall>q \<in> set ys. ?at p \<noteq> ?at q"
    proof
      fix q assume q: "q \<in> set ys"
      have "?t p \<noteq> ?t q" using coords_split(3)[OF xs] q flip_flip[of f ?w ?h] by metis
      then show "?at p \<noteq> ?at q" by (auto simp: prod_eq_iff)
    qed
    then have old: "b ! nat (pixel_index s r (?t p)) = px s (fst (?at p)) (snd (?at p))"
      using rest[OF dst] by (simp add: pixel_index_def)
    have "\<forall>q \<in> set ys. (sx + fst (?t p), sy + snd (?t p)) \<noteq> ?at q"
      using flip_unread[OF coords_split(2)[OF xs] f_def] by blast
    then have "pixel_get b (sf_width s * (sy + snd (?t p)) + (sx + fst (?t p))) =
        Some (px s (sx + fst (?t p)) (sy + snd (?t p)))"
      using rest[OF rd] surface_index[OF ok rd] len by (simp add: pixel_get_def)
    moreover have "store_pixel (pixel_index s r (?t p)) g b =
        Some (g (px s (fst (?at p)) (snd (?at p))) \<noteq> px s (fst (?at p)) (snd (?at p)),
          b[nat (pixel_index s r (?t p)) := g (px s (fst (?at p)) (snd (?at p)))])" for g
      using store_surface[OF ok on t len old[unfolded fst_conv snd_conv]] by simp
    ultimately show "?step p b = Some (?ch p, b[nat (pixel_index s r (?t p)) := ?new (rect_x r + fst (?t p)) (rect_y r + snd (?t p))])"
      by simp
  qed
  then obtain b where b: "pixel_loop ?step ?w ?h ((?w - 1, ?h - 1, 0, 0), sf_buffer s) =
        Some (fold note_pixel (filter ?ch (coords ?w ?h)) (?w - 1, ?h - 1, 0, 0), b)"
    "repainted s r ?new (s\<lparr>sf_buffer := b\<rparr>)"
    by blast
  have t: "(\<lambda>(x, y). if f then (x, y) else (?w - 1 - x, ?h - 1 - y)) = ?t" by (simp add: flip_def)
  show ?thesis
    using b by (cases "fold note_pixel (filter ?ch (coords ?w ?h)) (?w - 1, ?h - 1, 0, 0)")
      (simp add: surface_transfer_def Let_def f_def[symmetric] t split: prod.splits)
qed

section \<open>Reading\<close>

lemma read_region_spec:
  assumes "buffer_ok s" and "rect_on s r"
  shows "read_region s r =
    Some (map (\<lambda>p. px s (rect_x r + fst p) (rect_y r + snd p)) (coords (rect_width r) (rect_height r)))"
proof -
  have those: "those (map f ps) = Some (map g ps)" if "\<forall>p \<in> set ps. f p = Some (g p)" for f :: "int \<times> int \<Rightarrow> pixel option" and g ps
    using that by (induction ps) auto
  show ?thesis unfolding read_region_def
    by (rule those) (simp add: pixel_get_surface[OF assms])
qed

lemma is_opaque_spec:
  assumes "buffer_ok s" and "rect_on s r" and "\<And>x y. on_surface s x y \<Longrightarrow> opaque_pixel (px s x y)"
  shows "is_opaque s r = Some True"
proof -
  have "opaque_scan (sf_buffer s) (map (pixel_index s r) ps) = Some True"
    if "set ps \<subseteq> set (coords (rect_width r) (rect_height r))" for ps
    using that
  proof (induction ps)
    case (Cons p ps)
    then show ?case
      using pixel_get_surface[OF assms(1,2), of p] assms(3)[OF rect_on_pixel(1)[OF assms(2), of "fst p" "snd p"]]
      by simp
  qed simp
  then show ?thesis by (simp add: is_opaque_def)
qed

end
