(* ===== verification/Common_Surface_Sync.thy ===== *)
theory Common_Surface_Sync
  imports Common_Surface_Pixels
begin

text \<open>
  What a client shows. The instructions of a surface are carried out on a picture of the client, and
  the server's pixels are compared with it: a pixel of the surface is either like the one of the
  client or lies in an area whose update is pending.
\<close>

section \<open>The client\<close>

text \<open>
  The client decodes images and composites colours, which is not part of the server. \<open>decode\<close> gives
  the pixels a client gets from the image that an encoder makes of the given ones, \<open>composite\<close> the new
  colour for the one at the destination and the one that is drawn.
\<close>

record client =
  cl_path :: "int \<Rightarrow> guac_common_rect list"
  cl_pixel :: "int \<Rightarrow> int \<Rightarrow> int \<Rightarrow> pixel"

definition client_draw :: "int \<Rightarrow> (int \<Rightarrow> int \<Rightarrow> pixel \<Rightarrow> pixel) \<Rightarrow> client \<Rightarrow> client" where
  "client_draw layer f c = c\<lparr>cl_pixel := (cl_pixel c)(layer := \<lambda>x y. f x y (cl_pixel c layer x y))\<rparr>"

fun client_call ::
    "(image_codec \<Rightarrow> pixel list \<Rightarrow> pixel list) \<Rightarrow> (composite_mode \<Rightarrow> pixel \<Rightarrow> pixel \<Rightarrow> pixel)
      \<Rightarrow> surface_call \<Rightarrow> client \<Rightarrow> client" where
  "client_call decode composite (call_size layer w h) c =
     client_draw layer (\<lambda>x y p. if 0 \<le> x \<and> x < w \<and> 0 \<le> y \<and> y < h then p else 0) c"
| "client_call decode composite (call_dispose layer) c = client_draw layer (\<lambda>_ _ _. 0) c"
| "client_call decode composite (call_shade layer opacity) c = c"
| "client_call decode composite (call_move layer parent x y z) c = c"
| "client_call decode composite (call_rect layer x y w h) c =
     c\<lparr>cl_path := (cl_path c)(layer := guac_common_rect_init x y w h # cl_path c layer)\<rparr>"
| "client_call decode composite (call_cfill mode layer red green blue alpha) c =
     (client_draw layer
        (\<lambda>x y p. if \<exists>r \<in> set (cl_path c layer). in_rect r x y then composite mode p (argb alpha red green blue) else p) c)
     \<lparr>cl_path := (cl_path c)(layer := [])\<rparr>"
| "client_call decode composite (call_image codec alpha layer r pixels) c =
     client_draw layer
       (\<lambda>x y p. case map_of (zip (coords (rect_width r) (rect_height r)) (decode codec pixels)) (x - rect_x r, y - rect_y r)
          of Some q \<Rightarrow> composite GUAC_COMP_OVER p q | None \<Rightarrow> p) c"
| "client_call decode composite (call_copy src sx sy w h dst dx dy) c =
     client_draw dst
       (\<lambda>x y p. if in_rect (guac_common_rect_init dx dy w h) x y
          then composite GUAC_COMP_OVER p (cl_pixel c src (sx + (x - dx)) (sy + (y - dy))) else p) c"
| "client_call decode composite (call_transfer src sx sy w h op dst dx dy) c =
     client_draw dst
       (\<lambda>x y p. if in_rect (guac_common_rect_init dx dy w h) x y
          then transfer_int op (cl_pixel c src (sx + (x - dx)) (sy + (y - dy))) p else p) c"

definition client_calls ::
    "(image_codec \<Rightarrow> pixel list \<Rightarrow> pixel list) \<Rightarrow> (composite_mode \<Rightarrow> pixel \<Rightarrow> pixel \<Rightarrow> pixel)
      \<Rightarrow> surface_call list \<Rightarrow> client \<Rightarrow> client" where
  "client_calls decode composite calls c = fold (client_call decode composite) calls c"

lemma client_calls_append [simp]:
  "client_calls d m (xs @ ys) c = client_calls d m ys (client_calls d m xs c)"
  "client_calls d m [] c = c" "client_calls d m (x # xs) c = client_calls d m xs (client_call d m x c)"
  by (simp_all add: client_calls_def)

text \<open>
  What is relied on: drawing an opaque colour over another one replaces it, and an image of opaque
  pixels comes out with as many pixels, opaque ones and each like the one that went in. For a codec
  without loss, and with equality as likeness, this is that decoding undoes encoding.
\<close>

definition faithful_client ::
    "(image_codec \<Rightarrow> pixel list \<Rightarrow> pixel list) \<Rightarrow> (composite_mode \<Rightarrow> pixel \<Rightarrow> pixel \<Rightarrow> pixel)
      \<Rightarrow> (pixel \<Rightarrow> pixel \<Rightarrow> bool) \<Rightarrow> bool" where
  "faithful_client decode composite like \<longleftrightarrow>
     (\<forall>c. like c c) \<and> (\<forall>a b. like a b \<longrightarrow> opaque_pixel b \<longrightarrow> opaque_pixel a)
     \<and> (\<forall>d s. opaque_pixel s \<longrightarrow> composite GUAC_COMP_OVER d s = s)
     \<and> (\<forall>codec ps. list_all opaque_pixel ps \<longrightarrow> list_all2 like (decode codec ps) ps)"

section \<open>The invariant\<close>

definition rect_full :: "guac_common_rect \<Rightarrow> bool" where
  "rect_full r \<longleftrightarrow> \<not> rect_empty r"

definition surface_ok :: "guac_common_surface \<Rightarrow> bool" where
  "surface_ok s \<longleftrightarrow> buffer_ok s
     \<and> int (length (sf_heat_map s)) =
         GUAC_COMMON_SURFACE_HEAT_DIMENSION (sf_width s) * GUAC_COMMON_SURFACE_HEAT_DIMENSION (sf_height s)
     \<and> (\<forall>x y. on_surface s x y \<longrightarrow> opaque_pixel (px s x y))
     \<and> (sf_dirty s \<longrightarrow> rect_on s (sf_dirty_rect s) \<and> rect_full (sf_dirty_rect s))
     \<and> (\<forall>q \<in> set (sf_queue s). rect_on s (bitmap_rect q))
     \<and> (sf_clipped s \<longrightarrow> rect_on s (sf_clip_rect s))"

text \<open>Whether an area that is to be updated contains a pixel.\<close>

definition pending :: "guac_common_surface \<Rightarrow> int \<Rightarrow> int \<Rightarrow> bool" where
  "pending s x y \<longleftrightarrow> (sf_dirty s \<and> in_rect (sf_dirty_rect s) x y)
     \<or> (\<exists>q \<in> set (sf_queue s). \<not> bitmap_flushed q \<and> in_rect (bitmap_rect q) x y)"

text \<open>Every pixel, but those of \<open>R\<close>, is on the client or pending.\<close>

definition in_sync ::
    "(pixel \<Rightarrow> pixel \<Rightarrow> bool) \<Rightarrow> (int \<Rightarrow> int \<Rightarrow> bool) \<Rightarrow> client \<Rightarrow> guac_common_surface \<Rightarrow> bool" where
  "in_sync like R c s \<longleftrightarrow>
     (\<forall>x y. on_surface s x y \<longrightarrow> pending s x y \<or> like (cl_pixel c (sf_layer s) x y) (px s x y) \<or> R x y)"

text \<open>What flushing leaves as it is.\<close>

definition same_surface :: "guac_common_surface \<Rightarrow> guac_common_surface \<Rightarrow> bool" where
  "same_surface s s' \<longleftrightarrow> sf_layer s' = sf_layer s \<and> sf_width s' = sf_width s \<and> sf_height s' = sf_height s
     \<and> sf_buffer s' = sf_buffer s \<and> sf_heat_map s' = sf_heat_map s \<and> sf_clipped s' = sf_clipped s
     \<and> sf_clip_rect s' = sf_clip_rect s"

lemma same_surface_refl [simp]: "same_surface s s"
  by (simp add: same_surface_def)

lemma same_surface_trans: "same_surface a b \<Longrightarrow> same_surface b c \<Longrightarrow> same_surface a c"
  by (simp add: same_surface_def)

lemma same_surface_facts:
  assumes "same_surface s s'"
  shows "px s' x y = px s x y" "on_surface s' x y = on_surface s x y" "rect_on s' r = rect_on s r"
    "sf_layer s' = sf_layer s" "buffer_ok s' = buffer_ok s" "surface_bounds s' = surface_bounds s"
  using assms by (simp_all add: same_surface_def px_def on_surface_def rect_on_def surface_bounds_def buffer_ok_def)

lemma surface_ok_same:
  assumes "surface_ok s" and "same_surface s s'"
    and "sf_dirty s' \<Longrightarrow> rect_on s (sf_dirty_rect s') \<and> rect_full (sf_dirty_rect s')"
    and "\<And>q. q \<in> set (sf_queue s') \<Longrightarrow> rect_on s (bitmap_rect q)"
  shows "surface_ok s'"
proof -
  note f = same_surface_facts[OF assms(2)]
  have "sf_heat_map s' = sf_heat_map s" "sf_width s' = sf_width s" "sf_height s' = sf_height s"
    "sf_clipped s' = sf_clipped s" "sf_clip_rect s' = sf_clip_rect s"
    using assms(2) by (simp_all add: same_surface_def)
  with assms(1,3,4) show ?thesis by (simp add: surface_ok_def f)
qed

lemma in_sync_same:
  assumes "in_sync like R c s" and "same_surface s s'"
    and "\<And>x y. on_surface s x y \<Longrightarrow> pending s x y \<Longrightarrow> pending s' x y"
  shows "in_sync like R c s'"
  using assms same_surface_facts[OF assms(2)] by (auto simp: in_sync_def)

lemma surface_okD:
  assumes "surface_ok s"
  shows "buffer_ok s" "on_surface s x y \<Longrightarrow> opaque_pixel (px s x y)"
    "sf_dirty s \<Longrightarrow> rect_on s (sf_dirty_rect s)" "sf_dirty s \<Longrightarrow> rect_full (sf_dirty_rect s)"
    "q \<in> set (sf_queue s) \<Longrightarrow> rect_on s (bitmap_rect q)"
    "sf_clipped s \<Longrightarrow> rect_on s (sf_clip_rect s)"
  using assms by (auto simp: surface_ok_def)

section \<open>The heat map\<close>

lemma each_some:
  assumes "\<And>x s. x \<in> set xs \<Longrightarrow> \<exists>s'. f x s = Some s'"
  shows "\<exists>s'. each f xs s = Some s'"
  using assms
proof (induction xs arbitrary: s)
  case (Cons x xs)
  from Cons.prems[of x s] obtain s1 where "f x s = Some s1" by auto
  moreover from Cons.IH[of s1] Cons.prems obtain s2 where "each f xs s1 = Some s2" by auto
  ultimately show ?case by simp
qed simp

lemma heat_cells:
  fixes r :: guac_common_rect
  assumes "rect_on s r" and "rect_full r"
    and "(x, y) \<in> set (coords (c_div (rect_width r - 1) 64 + 1) (c_div (rect_height r - 1) 64 + 1))"
  defines "W \<equiv> GUAC_COMMON_SURFACE_HEAT_DIMENSION (sf_width s)"
    and "H \<equiv> GUAC_COMMON_SURFACE_HEAT_DIMENSION (sf_height s)"
  defines "i \<equiv> W * (c_div (rect_y r) 64 + y) + (c_div (rect_x r) 64 + x)"
  shows "0 \<le> i" "i < W * H"
proof -
  have r: "0 \<le> rect_x r" "0 \<le> rect_y r" "0 < rect_width r" "0 < rect_height r"
    "rect_x r + rect_width r \<le> sf_width s" "rect_y r + rect_height r \<le> sf_height s"
    using assms(1,2) by (auto simp: rect_on_def rect_within_def surface_bounds_def rect_full_def rect_empty_def)
  have W: "W = (sf_width s + 63) div 64" and H: "H = (sf_height s + 63) div 64"
    using r by (simp_all add: W_def H_def GUAC_COMMON_SURFACE_HEAT_DIMENSION_def)
  have xy: "0 \<le> x" "x \<le> (rect_width r - 1) div 64" "0 \<le> y" "y \<le> (rect_height r - 1) div 64"
    using assms(3) r by (auto simp: coords_set)
  have X: "0 \<le> rect_x r div 64 + x" "rect_x r div 64 + x < W" using xy r unfolding W by linarith+
  have Y: "0 \<le> rect_y r div 64 + y" "rect_y r div 64 + y < H" using xy r unfolding H by linarith+
  have i: "i = W * (rect_y r div 64 + y) + (rect_x r div 64 + x)" using r by (simp add: i_def)
  show "0 \<le> i" using X Y unfolding i by simp
  have "i < W * (rect_y r div 64 + y + 1)" using X unfolding i by (simp add: algebra_simps)
  also have "\<dots> \<le> W * H" using X Y by (intro mult_left_mono) auto
  finally show "i < W * H" .
qed

lemma coords_mono: "p \<in> set (coords w h) \<Longrightarrow> w \<le> w' \<Longrightarrow> h \<le> h' \<Longrightarrow> p \<in> set (coords w' h')"
  by (cases p) (auto simp: coords_set)

lemma bind_some:
  assumes "\<exists>a. m = Some a" and "\<And>a. \<exists>b. f a = Some b"
  shows "\<exists>b. (m \<bind> f) = Some b"
  using assms by auto

lemma framerate_some:
  assumes "surface_ok s" and "rect_on s r" and "rect_full r"
  shows "\<exists>n. calculate_framerate s r = Some n"
  unfolding calculate_framerate_def Let_def
proof (rule bind_some, rule each_some, goal_cases)
  case (1 p st)
  obtain x y a b where xy: "p = (x, y)" "st = (a, b)" by fastforce
  have "p \<in> set (coords (c_div (rect_width r - 1) 64 + 1) (c_div (rect_height r - 1) 64 + 1))"
    by (rule coords_mono[OF 1]) auto
  from heat_cells[OF assms(2,3) this[unfolded xy]] assms(1)
  have "\<exists>cell. heat_get s (GUAC_COMMON_SURFACE_HEAT_DIMENSION (sf_width s) * (c_div (rect_y r) 64 + y)
      + (c_div (rect_x r) 64 + x)) = Some cell"
    by (simp add: heat_get_def surface_ok_def)
  then show ?case by (auto simp: xy)
qed (simp split: prod.splits)

lemma touch_rect_some:
  assumes "surface_ok s" and "rect_on s r" and "rect_full r"
  shows "\<exists>m. touch_rect r time s = Some (s\<lparr>sf_heat_map := m\<rparr>) \<and> length m = length (sf_heat_map s)"
proof -
  have heat: "int (length (sf_heat_map s)) =
      GUAC_COMMON_SURFACE_HEAT_DIMENSION (sf_width s) * GUAC_COMMON_SURFACE_HEAT_DIMENSION (sf_height s)"
    using assms(1) by (simp add: surface_ok_def)
  let ?f = "\<lambda>(s0 :: guac_common_surface) (x, y) (s :: guac_common_surface). do {
      let i = GUAC_COMMON_SURFACE_HEAT_DIMENSION (sf_width s0) * (c_div (rect_y r) 64 + y) + (c_div (rect_x r) 64 + x);
      cell \<leftarrow> heat_get s i;
      let oldest = heat_oldest cell + 1;
      Some (s\<lparr>sf_heat_map := (sf_heat_map s)[nat i :=
        cell\<lparr>heat_history := (heat_history cell)[heat_oldest cell := time],
             heat_oldest := (if oldest \<ge> GUAC_COMMON_SURFACE_HEAT_CELL_HISTORY_SIZE then 0 else oldest)\<rparr>]\<rparr>)
    }"
  let ?I = "\<lambda>s'. s' = s\<lparr>sf_heat_map := sf_heat_map s'\<rparr> \<and> length (sf_heat_map s') = length (sf_heat_map s)"
  have "\<exists>s'. each (?f s) (coords (c_div (rect_width r - 1) 64 + 1) (c_div (rect_height r - 1) 64 + 1)) s = Some s' \<and> ?I s'"
  proof (rule each_done_invariant[where I = "\<lambda>_. ?I"])
    fix ys p zs s'
    assume xs: "coords (c_div (rect_width r - 1) 64 + 1) (c_div (rect_height r - 1) 64 + 1) = ys @ p # zs"
      and "?I s'"
    then obtain m where m: "s' = s\<lparr>sf_heat_map := m\<rparr>" "length m = length (sf_heat_map s)" by metis
    obtain x y where xy: "p = (x, y)" by fastforce
    have "p \<in> set (coords (c_div (rect_width r - 1) 64 + 1) (c_div (rect_height r - 1) 64 + 1))" by (simp add: xs)
    from heat_cells[OF assms(2,3) this[unfolded xy]] m
    have "\<exists>cell. heat_get s' (GUAC_COMMON_SURFACE_HEAT_DIMENSION (sf_width s) * (c_div (rect_y r) 64 + y)
        + (c_div (rect_x r) 64 + x)) = Some cell"
      using heat by (simp add: heat_get_def)
    then show "\<exists>s''. ?f s p s' = Some s'' \<and> ?I s''"
      by (auto simp: xy m Let_def)
  qed simp
  then obtain s' where s': "each (?f s) (coords (c_div (rect_width r - 1) 64 + 1) (c_div (rect_height r - 1) 64 + 1)) s = Some s'"
    "?I s'"
    by blast
  have "touch_rect r time s = Some s'" using s'(1) by (simp add: touch_rect_def Let_def)
  with s'(2) show ?thesis by metis
qed

lemma png_optimality_some:
  assumes "buffer_ok s" and "rect_on s r"
  shows "\<exists>n. png_optimality s r = Some n"
proof (cases "rect_width r < 1 \<or> rect_height r < 1")
  case False
  have get: "pixel_get (sf_buffer s) (pixel_index s r (x, y)) = Some (px s (rect_x r + x) (rect_y r + y))"
    if "0 \<le> x" "x < rect_width r" "0 \<le> y" "y < rect_height r" for x y
    using pixel_get_surface[OF assms, of "(x, y)"] that by (simp add: coords_set)
  have "\<exists>st. each (png_row s r) [0..rect_height r - 1] (0, 1) = Some st"
  proof (rule each_some)
    fix y and st :: "int \<times> int"
    assume y: "y \<in> set [0..rect_height r - 1]"
    show "\<exists>st'. png_row s r y st = Some st'"
      unfolding png_row_def
    proof (rule bind_some, goal_cases)
      case 1
      show ?case using get[of 0 y] y False by simp
    next
      case (2 c)
      show ?case
      proof (rule bind_some, rule each_some, goal_cases)
        case (1 x st)
        then show ?case using get[of x y] y by (cases st) (auto simp: Let_def)
      qed (simp split: prod.splits)
    qed
  qed
  with False show ?thesis by (auto simp: png_optimality_def)
qed (auto simp: png_optimality_def)

lemma encoder_some:
  assumes "surface_ok s" and "rect_on s r" and "rect_full r"
  shows "\<exists>b. should_use_webp env s r = Some b" "\<exists>b. should_use_jpeg s r = Some b"
  using framerate_some[OF assms] png_optimality_some[OF surface_okD(1)[OF assms(1)] assms(2)]
  by (auto simp: should_use_webp_def should_use_jpeg_def)

section \<open>Sending an area\<close>

lemma client_image:
  assumes F: "faithful_client decode composite like" and ok: "surface_ok s" and on: "rect_on s r"
    and pixels: "read_region s r = Some pixels"
    and c': "c' = client_call decode composite (call_image codec alpha (sf_layer s) r pixels) c"
  shows "in_rect r x y \<Longrightarrow> like (cl_pixel c' (sf_layer s) x y) (px s x y)"
    "\<not> in_rect r x y \<Longrightarrow> cl_pixel c' l x y = cl_pixel c l x y"
proof -
  let ?cs = "coords (rect_width r) (rect_height r)"
  let ?at = "\<lambda>p. px s (rect_x r + fst p) (rect_y r + snd p)"
  have ps: "pixels = map ?at ?cs" using read_region_spec[OF surface_okD(1)[OF ok] on] pixels by simp
  have opq: "opaque_pixel (?at p)" if "p \<in> set ?cs" for p
    using surface_okD(2)[OF ok rect_on_pixel(1)[OF on, of "fst p" "snd p"]] that by simp
  then have "list_all2 like (decode codec pixels) pixels"
    using F by (simp add: faithful_client_def ps list_all_iff)
  then have len: "length (decode codec pixels) = length ?cs"
    and like: "like (decode codec pixels ! i) (?at (?cs ! i))" if "i < length ?cs" for i
    using that by (auto simp: list_all2_conv_all_nth ps)
  have find: "\<exists>q. map_of (zip ?cs (decode codec pixels)) p = Some q \<and> like q (?at p)" if p: "p \<in> set ?cs" for p
  proof -
    obtain i where i: "i < length ?cs" "?cs ! i = p" using p by (auto simp: in_set_conv_nth)
    have "length (decode codec pixels) = length ?cs"
      using \<open>list_all2 like (decode codec pixels) pixels\<close> by (simp add: list_all2_lengthD ps)
    then have "map_of (zip ?cs (decode codec pixels)) p = Some (decode codec pixels ! i)"
      using map_of_zip_nth[of ?cs "decode codec pixels" i] coords_distinct i by simp
    with like[OF i(1)] i(2) show ?thesis by auto
  qed
  show "like (cl_pixel c' (sf_layer s) x y) (px s x y)" if "in_rect r x y"
  proof -
    have p: "(x - rect_x r, y - rect_y r) \<in> set ?cs" using that by (simp add: in_rect_coords)
    from find[OF p] obtain q where q: "map_of (zip ?cs (decode codec pixels)) (x - rect_x r, y - rect_y r) = Some q"
      "like q (px s x y)"
      by auto
    have "opaque_pixel (px s x y)" using opq[OF p] by simp
    with q(2) F have "opaque_pixel q" by (auto simp: faithful_client_def)
    then show ?thesis using q F by (simp add: c' client_draw_def faithful_client_def)
  qed
  show "cl_pixel c' l x y = cl_pixel c l x y" if "\<not> in_rect r x y"
  proof -
    have "(x - rect_x r, y - rect_y r) \<notin> set ?cs" using that by (simp add: in_rect_coords)
    then have "map_of (zip ?cs (decode codec pixels)) (x - rect_x r, y - rect_y r) = None"
      by (metis map_of_SomeD not_None_eq set_zip_leftD)
    then show ?thesis by (simp add: c' client_draw_def)
  qed
qed

lemma send_image:
  assumes F: "faithful_client decode composite like" and ok: "surface_ok s" and on: "rect_on s r"
    and inside: "rect_within (sf_dirty_rect s) r"
    and same: "same_surface s s'" and clean: "\<not> sf_dirty s'" "sf_queue s' = sf_queue s"
    and sync: "in_sync like R c s"
  shows "\<exists>pixels. read_region s r = Some pixels \<and> surface_ok s'
    \<and> in_sync like R (client_call decode composite (call_image codec alpha (sf_layer s) r pixels) c) s'"
proof -
  obtain pixels where ps: "read_region s r = Some pixels"
    using read_region_spec[OF surface_okD(1)[OF ok] on] by blast
  let ?c = "client_call decode composite (call_image codec alpha (sf_layer s) r pixels) c"
  note img = client_image[OF F ok on ps refl, of x y for x y]
  have "surface_ok s'" by (rule surface_ok_same[OF ok same]) (use clean surface_okD(5)[OF ok] in auto)
  moreover have "in_sync like R ?c s'"
    unfolding in_sync_def same_surface_facts[OF same]
  proof (intro allI impI)
    fix x y assume xy: "on_surface s x y"
    show "pending s' x y \<or> like (cl_pixel ?c (sf_layer s) x y) (px s x y) \<or> R x y"
    proof (cases "in_rect r x y")
      case True
      from img(1)[OF True] show ?thesis by simp
    next
      case False
      then have "\<not> in_rect (sf_dirty_rect s) x y" using rect_within_in_rect[OF inside] by blast
      then have "pending s x y \<longrightarrow> pending s' x y" using clean by (auto simp: pending_def)
      moreover from img(2)[OF False] have "cl_pixel ?c (sf_layer s) x y = cl_pixel c (sf_layer s) x y" .
      ultimately show ?thesis using sync xy by (auto simp: in_sync_def)
    qed
  qed
  ultimately show ?thesis using ps by blast
qed

lemma grid_region:
  assumes "rect_on s r" and "rect_full r" and "1 < cell"
  shows "rect_within r (snd (guac_common_rect_expand_to_grid cell r (surface_bounds s)))"
    "rect_on s (snd (guac_common_rect_expand_to_grid cell r (surface_bounds s)))"
proof -
  have "rect_ok r" using assms(2) by (simp add: rect_full_def rect_empty_def rect_ok_def)
  from grid_region_within[OF assms(3) this] assms(1)
  show "rect_within r (snd (guac_common_rect_expand_to_grid cell r (surface_bounds s)))"
    "rect_on s (snd (guac_common_rect_expand_to_grid cell r (surface_bounds s)))"
    by (auto simp: rect_on_def)
qed

text \<open>What flushing promises for each part of it.\<close>

lemma client_draw_path [simp]: "cl_path (client_draw layer f c) = cl_path c"
  by (simp add: client_draw_def)

definition flushes ::
    "(image_codec \<Rightarrow> pixel list \<Rightarrow> pixel list) \<Rightarrow> (composite_mode \<Rightarrow> pixel \<Rightarrow> pixel \<Rightarrow> pixel)
      \<Rightarrow> (pixel \<Rightarrow> pixel \<Rightarrow> bool) \<Rightarrow> (int \<Rightarrow> int \<Rightarrow> bool) \<Rightarrow> client \<Rightarrow> guac_common_surface
      \<Rightarrow> surface_call list \<Rightarrow> guac_common_surface \<Rightarrow> bool" where
  "flushes decode composite like R c s calls s' \<longleftrightarrow> same_surface s s' \<and> surface_ok s'
     \<and> in_sync like R (client_calls decode composite calls c) s'
     \<and> cl_path (client_calls decode composite calls c) = cl_path c"

lemma flush_dirty:
  assumes F: "faithful_client decode composite like" and ok: "surface_ok s" and sync: "in_sync like R c s"
    and dirty: "sf_dirty s"
  shows "\<exists>calls s'. (do {
           solid \<leftarrow> is_opaque s (sf_dirty_rect s);
           webp \<leftarrow> should_use_webp env s (sf_dirty_rect s);
           if webp then flush_to_webp env s solid
           else do {
             jpeg \<leftarrow> (if solid then should_use_jpeg s (sf_dirty_rect s) else Some False);
             if jpeg then flush_to_jpeg env s else flush_to_png s solid
           }
         }) = Some (calls, s') \<and> flushes decode composite like R c s calls s' \<and> \<not> sf_dirty s' \<and> sf_queue s' = sf_queue s"
proof -
  let ?r = "sf_dirty_rect s"
  have r: "rect_on s ?r" "rect_full ?r" using surface_okD[OF ok] dirty by auto
  obtain webp jpeg where codec: "should_use_webp env s ?r = Some webp" "should_use_jpeg s ?r = Some jpeg"
    using encoder_some[OF ok r] by blast
  have solid: "is_opaque s ?r = Some True"
    by (rule is_opaque_spec[OF surface_okD(1)[OF ok] r(1) surface_okD(2)[OF ok]])
  let ?j = "snd (guac_common_rect_expand_to_grid 16 ?r (surface_bounds s))"
  let ?w = "snd (guac_common_rect_expand_to_grid 8 ?r (surface_bounds s))"
  note send = send_image[OF F ok _ _ _ _ _ sync]
  have png: "\<exists>calls s'. flush_to_png s True = Some (calls, s') \<and> flushes decode composite like R c s calls s'
      \<and> \<not> sf_dirty s' \<and> sf_queue s' = sf_queue s"
    using send[OF r(1), of "s\<lparr>sf_realized := True, sf_dirty := False\<rparr>" codec_png False] dirty
    by (auto simp: flush_to_png_def flushes_def same_surface_def rect_within_def)
  have jpg: "\<exists>calls s'. flush_to_jpeg env s = Some (calls, s') \<and> flushes decode composite like R c s calls s'
      \<and> \<not> sf_dirty s' \<and> sf_queue s' = sf_queue s"
    using send[OF grid_region(2,1)[OF r, of 16], of "s\<lparr>sf_dirty_rect := ?j, sf_realized := True, sf_dirty := False\<rparr>"
        "codec_jpeg (guac_common_surface_suggest_quality env)" False] dirty
    by (auto simp: flush_to_jpeg_def flushes_def same_surface_def Let_def)
  have wbp: "\<exists>calls s'. flush_to_webp env s True = Some (calls, s') \<and> flushes decode composite like R c s calls s'
      \<and> \<not> sf_dirty s' \<and> sf_queue s' = sf_queue s"
    using send[OF grid_region(2,1)[OF r, of 8], of "s\<lparr>sf_dirty_rect := ?w, sf_realized := True, sf_dirty := False\<rparr>"
        "codec_webp (guac_common_surface_suggest_quality env)" False] dirty
    by (auto simp: flush_to_webp_def flushes_def same_surface_def Let_def)
  show ?thesis
    using png jpg wbp by (cases webp; cases jpeg) (simp_all add: solid codec)
qed

end
