(* ===== verification/Common_Surface_Flush.thy ===== *)
theory Common_Surface_Flush
  imports Common_Surface_Sync
begin

text \<open>
  Working off the queue of deferred updates, and the operations of a surface: after any sequence of
  them a flush makes the client show what the surface holds.
\<close>

section \<open>Working off the queue\<close>

lemma bound_rect_spec:
  shows "rect_on s (fst (bound_rect s r p))"
    "on_surface s x y \<Longrightarrow> in_rect (fst (bound_rect s r p)) x y \<longleftrightarrow> in_rect r x y"
  using bounds_on_surface[of s x y]
  by (auto simp: bound_rect_def Let_def rect_on_def constrain_within constrain_is_intersection)

lemma rect_empty_none: "rect_empty r \<Longrightarrow> \<not> in_rect r x y"
  by (auto simp: rect_empty_def in_rect_def)

lemma full_extend: "rect_full r \<Longrightarrow> rect_full (guac_common_rect_extend r t)"
  using rect_extend_edges[of r t] by (auto simp: rect_full_def rect_empty_def)

lemma mark_dirty_spec:
  assumes ok: "surface_ok s" and on: "rect_on s r"
  shows "surface_ok (mark_dirty r s)" "same_surface s (mark_dirty r s)" "sf_queue (mark_dirty r s) = sf_queue s"
    "pending s x y \<or> in_rect r x y \<Longrightarrow> pending (mark_dirty r s) x y"
proof -
  show same: "same_surface s (mark_dirty r s)" and q: "sf_queue (mark_dirty r s) = sf_queue s"
    by (auto simp: mark_dirty_def same_surface_def)
  show "pending (mark_dirty r s) x y" if "pending s x y \<or> in_rect r x y"
    using that extend_covers rect_empty_none by (auto simp: mark_dirty_def pending_def)
  show "surface_ok (mark_dirty r s)"
  proof (rule surface_ok_same[OF ok same])
    show "rect_on s (sf_dirty_rect (mark_dirty r s)) \<and> rect_full (sf_dirty_rect (mark_dirty r s))"
      if "sf_dirty (mark_dirty r s)"
      using that on surface_okD(3,4)[OF ok] full_extend
      by (auto simp: mark_dirty_def rect_on_def rect_full_def extend_within split: if_splits)
    show "rect_on s (bitmap_rect q')" if "q' \<in> set (sf_queue (mark_dirty r s))" for q'
      using that surface_okD(5)[OF ok] by (simp add: q)
  qed
qed

definition combines :: "guac_common_surface \<Rightarrow> guac_common_surface \<Rightarrow> bool" where
  "combines s s' \<longleftrightarrow> same_surface s s' \<and> surface_ok s' \<and> length (sf_queue s') = length (sf_queue s)
     \<and> (\<forall>x y. on_surface s x y \<longrightarrow> pending s x y \<longrightarrow> pending s' x y)
     \<and> (\<forall>i < length (sf_queue s). bitmap_flushed (sf_queue s ! i) \<longrightarrow> bitmap_flushed (sf_queue s' ! i))"

lemma combines_trans:
  assumes "combines a b" and "combines b c"
  shows "combines a c"
proof -
  have "same_surface a b" "same_surface b c" using assms by (auto simp: combines_def)
  then have "same_surface a c" by (rule same_surface_trans)
  moreover have "\<And>x y. on_surface b x y = on_surface a x y"
    by (rule same_surface_facts(2)) (rule \<open>same_surface a b\<close>)
  ultimately show ?thesis using assms by (simp add: combines_def)
qed

text \<open>An entry of the queue is replaced; the dirty rectangle takes over what it no longer holds.\<close>

lemma replace_entry:
  assumes ok: "surface_ok s" and j: "j < length (sf_queue s)" and r: "rect_on s r" "rect_empty r \<or> \<not> f \<or> b"
    and eq: "\<And>x y. on_surface s x y \<Longrightarrow> in_rect r x y \<longleftrightarrow> in_rect (bitmap_rect (sf_queue s ! j)) x y"
    and old: "\<not> bitmap_flushed (sf_queue s ! j)"
    and s': "s' = (if b then mark_dirty r s else s)\<lparr>sf_queue := (sf_queue s)[j := \<lparr>bitmap_flushed = f, bitmap_rect = r\<rparr>]\<rparr>"
  shows "combines s s'"
proof -
  let ?m = "if b then mark_dirty r s else s"
  have m: "same_surface s ?m" "surface_ok ?m" "sf_queue ?m = sf_queue s"
    using mark_dirty_spec[OF ok r(1)] ok by auto
  have mm: "same_surface ?m s'" by (simp add: s' same_surface_def)
  have same: "same_surface s s'" using m(1) mm by (rule same_surface_trans)
  have s'q: "sf_queue s' = (sf_queue s)[j := \<lparr>bitmap_flushed = f, bitmap_rect = r\<rparr>]"
    and s'd: "sf_dirty s' = sf_dirty ?m" "sf_dirty_rect s' = sf_dirty_rect ?m"
    by (simp_all add: s')
  have "surface_ok s'"
  proof (rule surface_ok_same[OF m(2)])
    show "same_surface ?m s'" by (rule mm)
    show "rect_on ?m (sf_dirty_rect s') \<and> rect_full (sf_dirty_rect s')" if "sf_dirty s'"
      using that surface_okD(3,4)[OF m(2)] unfolding s'd by blast
    show "rect_on ?m (bitmap_rect q)" if "q \<in> set (sf_queue s')" for q
    proof -
      have "q \<in> insert \<lparr>bitmap_flushed = f, bitmap_rect = r\<rparr> (set (sf_queue s))"
        using that set_update_subset_insert[of "sf_queue s"] unfolding s'q by blast
      then show ?thesis
        using r(1) surface_okD(5)[OF ok] same_surface_facts(3)[OF m(1)] by auto
    qed
  qed
  moreover have "pending s' x y" if xy: "on_surface s x y" and p: "pending s x y" for x y
  proof (cases "in_rect r x y")
    case True
    show ?thesis
    proof (cases "b")
      case True
      then have "sf_dirty s' \<and> in_rect (sf_dirty_rect s') x y"
        using \<open>in_rect r x y\<close> extend_covers rect_empty_none by (auto simp: s'd mark_dirty_def)
      then show ?thesis by (simp add: pending_def)
    next
      case False
      then have "\<not> f" using r(2) True rect_empty_none by blast
      then have "sf_queue s' ! j = \<lparr>bitmap_flushed = False, bitmap_rect = r\<rparr>" "j < length (sf_queue s')"
        using j by (simp_all add: s'q)
      then have "\<lparr>bitmap_flushed = False, bitmap_rect = r\<rparr> \<in> set (sf_queue s')" by (metis nth_mem)
      then show ?thesis using True unfolding pending_def by (intro disjI2 bexI) auto
    qed
  next
    case False
    then have nj: "\<not> in_rect (bitmap_rect (sf_queue s ! j)) x y" using eq[OF xy] by blast
    from p consider "sf_dirty s" "in_rect (sf_dirty_rect s) x y"
      | i where "i < length (sf_queue s)" "\<not> bitmap_flushed (sf_queue s ! i)" "in_rect (bitmap_rect (sf_queue s ! i)) x y"
      by (auto simp: pending_def in_set_conv_nth)
    then show ?thesis
    proof cases
      case 1
      then have "sf_dirty s' \<and> in_rect (sf_dirty_rect s') x y"
        using extend_covers by (auto simp: s'd mark_dirty_def)
      then show ?thesis by (simp add: pending_def)
    next
      case (2 i)
      then have "i \<noteq> j" using nj by auto
      then have "sf_queue s' ! i = sf_queue s ! i" "i < length (sf_queue s')" using 2(1) by (simp_all add: s'q)
      then have "sf_queue s ! i \<in> set (sf_queue s')" by (metis nth_mem)
      then show ?thesis using 2(2,3) unfolding pending_def by blast
    qed
  qed
  moreover have "bitmap_flushed (sf_queue s' ! i)" if "i < length (sf_queue s)" "bitmap_flushed (sf_queue s ! i)" for i
    using that old by (cases "i = j") (auto simp: s'q)
  ultimately show ?thesis using same by (simp add: combines_def s'q)
qed

lemma combine_candidate_spec:
  assumes ok: "surface_ok s" and j: "j < length (sf_queue s)" and c: "combine_candidate j (n, s) = (n', s')"
  shows "combines s s'" "\<not> sf_dirty s \<Longrightarrow> bitmap_flushed (sf_queue s' ! j)"
proof -
  let ?q = "sf_queue s ! j" let ?r = "fst (bound_rect s (bitmap_rect ?q) (0, 0))"
  note b = bound_rect_spec[where s = s and r = "bitmap_rect ?q" and p = "(0, 0)"]
  have "combines s s' \<and> (\<not> sf_dirty s \<longrightarrow> bitmap_flushed (sf_queue s' ! j))"
  proof (cases "bitmap_flushed ?q")
    case True
    then show ?thesis using c ok by (auto simp: combine_candidate_def combines_def)
  next
    case new: False
    note entry = replace_entry[OF ok j b(1) _ b(2) new]
    consider "rect_empty ?r" | "\<not> rect_empty ?r" "should_combine s ?r False \<or> \<not> sf_dirty s"
      | "\<not> rect_empty ?r" "\<not> (should_combine s ?r False \<or> \<not> sf_dirty s)"
      by blast
    then show ?thesis
    proof cases
      case 1
      then have "s' = s\<lparr>sf_queue := (sf_queue s)[j := \<lparr>bitmap_flushed = True, bitmap_rect = ?r\<rparr>]\<rparr>"
        using c new by (simp add: combine_candidate_def Let_def)
      then show ?thesis using entry[of True False s'] 1 j by simp
    next
      case 2
      then have "s' = (mark_dirty ?r s)\<lparr>sf_queue := (sf_queue s)[j := \<lparr>bitmap_flushed = True, bitmap_rect = ?r\<rparr>]\<rparr>"
        using c new mark_dirty_spec(3)[OF ok b(1)] by (auto simp: combine_candidate_def Let_def)
      then show ?thesis using entry[of True True s'] j by simp
    next
      case 3
      then have "s' = s\<lparr>sf_queue := (sf_queue s)[j := \<lparr>bitmap_flushed = False, bitmap_rect = ?r\<rparr>]\<rparr>"
        using c new by (simp add: combine_candidate_def Let_def)
      then show ?thesis using entry[of False False s'] 3 by simp
    qed
  qed
  then show "combines s s'" "\<not> sf_dirty s \<Longrightarrow> bitmap_flushed (sf_queue s' ! j)" by blast+
qed

lemma combines_refl: "surface_ok s \<Longrightarrow> combines s s"
  by (simp add: combines_def)

lemma combine_candidates_spec:
  assumes "surface_ok s" and "set js \<subseteq> {..<length (sf_queue s)}" and "fold combine_candidate js (n, s) = (n', s')"
  shows "combines s s'"
  using assms
proof (induction js arbitrary: n s)
  case (Cons j js)
  obtain n1 s1 where c: "combine_candidate j (n, s) = (n1, s1)" by fastforce
  have 1: "combines s s1" using combine_candidate_spec(1)[OF Cons.prems(1) _ c] Cons.prems(2) by simp
  then have "surface_ok s1" "length (sf_queue s1) = length (sf_queue s)" by (auto simp: combines_def)
  then have "combines s1 s'" using Cons.IH[of s1 n1] Cons.prems(2,3) c by simp
  with 1 show ?case by (rule combines_trans)
qed (simp add: combines_refl)

lemma combine_from:
  assumes ok: "surface_ok s" and i: "i < length (sf_queue s)" and clean: "\<not> sf_dirty s"
    and f: "fold combine_candidate [i..<length (sf_queue s)] (0, s) = (n, s')"
  shows "combines s s'" "bitmap_flushed (sf_queue s' ! i)"
proof -
  show "combines s s'" by (rule combine_candidates_spec[OF ok _ f]) auto
  obtain n1 s1 where c: "combine_candidate i (0, s) = (n1, s1)" by fastforce
  note 1 = combine_candidate_spec[OF ok i c]
  have s1: "surface_ok s1" "length (sf_queue s1) = length (sf_queue s)" using 1(1) by (auto simp: combines_def)
  have "fold combine_candidate [Suc i..<length (sf_queue s)] (n1, s1) = (n, s')"
    using f c i by (simp add: upt_conv_Cons)
  moreover have "set [Suc i..<length (sf_queue s)] \<subseteq> {..<length (sf_queue s1)}" using s1(2) by auto
  ultimately have "combines s1 s'" using combine_candidates_spec[OF s1(1)] by blast
  then show "bitmap_flushed (sf_queue s' ! i)" using 1(2)[OF clean] s1(2) i by (auto simp: combines_def)
qed

text \<open>One round of the loop over the queue: the dirty rectangle is worked off, and so is the entry.\<close>

lemma flush_to_queue_spec:
  assumes ok: "surface_ok s" and room: "sf_dirty s \<Longrightarrow> length (sf_queue s) < 256"
  shows "\<exists>s'. flush_to_queue s = Some s' \<and> same_surface s s' \<and> surface_ok s' \<and> \<not> sf_dirty s'
    \<and> (\<exists>tail. sf_queue s' = sf_queue s @ tail \<and> length tail = (if sf_dirty s then 1 else 0))
    \<and> (\<forall>x y. pending s x y \<longrightarrow> pending s' x y)"
proof (cases "sf_dirty s")
  case True
  let ?s = "s\<lparr>sf_queue := sf_queue s @ [\<lparr>bitmap_flushed = False, bitmap_rect = sf_dirty_rect s\<rparr>], sf_dirty := False\<rparr>"
  have same: "same_surface s ?s" by (simp add: same_surface_def)
  have "surface_ok ?s" by (rule surface_ok_same[OF ok same]) (use True surface_okD(3,5)[OF ok] in auto)
  then show ?thesis using same room True by (auto simp: flush_to_queue_def pending_def)
next
  case False
  then show ?thesis using ok by (simp add: flush_to_queue_def)
qed

definition flushed_below :: "nat \<Rightarrow> guac_common_surface \<Rightarrow> bool" where
  "flushed_below i s \<longleftrightarrow> i \<le> length (sf_queue s) \<and> (\<forall>j < i. bitmap_flushed (sf_queue s ! j))"

lemma flush_step_spec:
  assumes F: "faithful_client decode composite like"
    and ok: "surface_ok s" and clean: "\<not> sf_dirty s" and i: "i < length (sf_queue s)"
    and below: "flushed_below i s" and sync: "in_sync like R c s"
  shows "\<exists>calls s'. flush_step env i n s = Some (calls, s') \<and> flushes decode composite like R c s calls s'
    \<and> \<not> sf_dirty s' \<and> flushed_below (Suc i) s'"
proof (cases "bitmap_flushed (sf_queue s ! i)")
  case True
  then show ?thesis using ok sync clean i below
    by (auto simp: flush_step_def flushes_def flushed_below_def less_Suc_eq)
next
  case False
  obtain k s1 where f: "fold combine_candidate [i..<length (sf_queue s)] (0, s) = (k, s1)" by fastforce
  note 1 = combine_from[OF ok i clean f]
  have s1: "same_surface s s1" "surface_ok s1" "length (sf_queue s1) = length (sf_queue s)"
    using 1(1) by (auto simp: combines_def)
  have sync1: "in_sync like R c s1"
    by (rule in_sync_same[OF sync s1(1)]) (use 1(1) in \<open>simp add: combines_def\<close>)
  have below1: "flushed_below (Suc i) s1"
    using 1 below i by (auto simp: flushed_below_def combines_def less_Suc_eq)
  have grow: "flushed_below (Suc i) s2" if "sf_queue s2 = sf_queue s1 @ t" for s2 t
    using that below1 by (auto simp: flushed_below_def nth_append)
  show ?thesis
  proof (cases "(k > 1 \<or> i < n) \<and> length (sf_queue s1) < 256")
    case True
    from flush_to_queue_spec[OF s1(2)] True obtain s2 t where s2: "flush_to_queue s1 = Some s2" "same_surface s1 s2"
      "surface_ok s2" "\<not> sf_dirty s2" "sf_queue s2 = sf_queue s1 @ t" "\<And>x y. pending s1 x y \<Longrightarrow> pending s2 x y"
      by blast
    have "in_sync like R c s2" by (rule in_sync_same[OF sync1 s2(2)]) (rule s2(6))
    then show ?thesis
      using s2 True grow[OF s2(5)] False same_surface_trans[OF s1(1) s2(2)]
      by (auto simp: flush_step_def flush_candidate_def f flushes_def)
  next
    case no_queue: False
    show ?thesis
    proof (cases "sf_dirty s1")
      case True
      from flush_dirty[OF F s1(2) sync1 True, of env] obtain calls s2 where
        s2: "(do {
           solid \<leftarrow> is_opaque s1 (sf_dirty_rect s1);
           webp \<leftarrow> should_use_webp env s1 (sf_dirty_rect s1);
           if webp then flush_to_webp env s1 solid
           else do {
             jpeg \<leftarrow> (if solid then should_use_jpeg s1 (sf_dirty_rect s1) else Some False);
             if jpeg then flush_to_jpeg env s1 else flush_to_png s1 solid
           }
         }) = Some (calls, s2)" "flushes decode composite like R c s1 calls s2" "\<not> sf_dirty s2" "sf_queue s2 = sf_queue s1"
        by blast
      have step: "flush_step env i n s = Some (calls, s2)"
        unfolding flush_step_def flush_candidate_def f Let_def prod.case if_not_P[OF no_queue] if_P[OF True] if_P[OF False]
        by (rule s2(1))
      then show ?thesis
        using s2 grow[of s2 "[]"] same_surface_trans[OF s1(1)] by (auto simp: flushes_def)
    next
      case clean1: False
      have "flush_step env i n s = Some ([], s1)"
        unfolding flush_step_def flush_candidate_def f Let_def prod.case if_not_P[OF no_queue] if_not_P[OF clean1] if_P[OF False]
        by (rule refl)
      then show ?thesis using s1 sync1 clean1 below1 by (simp add: flushes_def)
    qed
  qed
qed

lemma flushes_trans:
  "flushes d m like R c s calls s' \<Longrightarrow> flushes d m like R (client_calls d m calls c) s' calls' s''
   \<Longrightarrow> flushes d m like R c s (calls @ calls') s''"
  by (auto simp: flushes_def intro: same_surface_trans)

lemma flush_loop_spec:
  assumes F: "faithful_client decode composite like"
  shows "surface_ok s \<Longrightarrow> \<not> sf_dirty s \<Longrightarrow> flushed_below i s \<Longrightarrow> in_sync like R c s
    \<Longrightarrow> \<exists>calls s'. flush_loop env i n s = Some (calls, s') \<and> flushes decode composite like R c s calls s'
      \<and> \<not> sf_dirty s' \<and> flushed_below (length (sf_queue s')) s'"
proof (induction env i n s arbitrary: c rule: flush_loop.induct)
  case (1 env i n s)
  show ?case
  proof (cases "i < length (sf_queue s)")
    case True
    from flush_step_spec[OF F "1.prems"(1,2) True "1.prems"(3,4)] obtain calls s1 where
      s1: "flush_step env i n s = Some (calls, s1)" "flushes decode composite like R c s calls s1"
        "\<not> sf_dirty s1" "flushed_below (Suc i) s1"
      by blast
    have "\<exists>calls' s'. flush_loop env (i + 1) n s1 = Some (calls', s')
        \<and> flushes decode composite like R (client_calls decode composite calls c) s1 calls' s'
        \<and> \<not> sf_dirty s' \<and> flushed_below (length (sf_queue s')) s'"
      by (rule "1.IH"[OF True s1(1) refl]) (use s1 in \<open>auto simp: flushes_def\<close>)
    then show ?thesis
      using flushes_trans[OF s1(2)] True s1(1) by (subst flush_loop.simps) auto
  next
    case False
    then have "length (sf_queue s) = i" using "1.prems"(3) by (simp add: flushed_below_def)
    then show ?thesis using "1.prems" by (subst flush_loop.simps) (auto simp: flushes_def)
  qed
qed

lemma set_insert_bitmap_rect: "set (insert_bitmap_rect r qs) = insert r (set qs)"
  by (induction qs) auto

lemma set_sort_bitmap_rects [simp]: "set (sort_bitmap_rects qs) = set qs"
  unfolding sort_bitmap_rects_def by (induction qs) (auto simp: set_insert_bitmap_rect)

lemma internal_flush_spec:
  assumes F: "faithful_client decode composite like"
    and ok: "surface_ok s" and room: "length (sf_queue s) < 256" and sync: "in_sync like R c s"
  shows "\<exists>calls s'. internal_flush env s = Some (calls, s') \<and> flushes decode composite like R c s calls s'
    \<and> \<not> sf_dirty s' \<and> sf_queue s' = []"
proof -
  from flush_to_queue_spec[OF ok] room obtain s1 where
    s1: "flush_to_queue s = Some s1" "same_surface s s1" "surface_ok s1" "\<not> sf_dirty s1"
      "\<And>x y. pending s x y \<Longrightarrow> pending s1 x y"
    by blast
  define s2 where "s2 = s1\<lparr>sf_queue := sort_bitmap_rects (sf_queue s1)\<rparr>"
  have same2: "same_surface s1 s2" by (simp add: s2_def same_surface_def)
  have ok2: "surface_ok s2"
    by (rule surface_ok_same[OF s1(3) same2]) (use s1(4) surface_okD(5)[OF s1(3)] in \<open>auto simp: s2_def\<close>)
  have sync1: "in_sync like R c s1" by (rule in_sync_same[OF sync s1(2)]) (rule s1(5))
  have sync2: "in_sync like R c s2"
    by (rule in_sync_same[OF sync1 same2]) (auto simp: pending_def s2_def)
  have clean2: "\<not> sf_dirty s2" "flushed_below 0 s2" using s1(4) by (simp_all add: s2_def flushed_below_def)
  from flush_loop_spec[OF F ok2 clean2 sync2] obtain calls s3 where
    s3: "flush_loop env 0 (length (sf_queue s2)) s2 = Some (calls, s3)" "flushes decode composite like R c s2 calls s3"
      "\<not> sf_dirty s3" "flushed_below (length (sf_queue s3)) s3"
    by blast
  let ?s = "s3\<lparr>sf_queue := []\<rparr>"
  have same: "same_surface s3 ?s" "same_surface s2 s3" using s3(2) by (auto simp: same_surface_def flushes_def)
  have ok3: "surface_ok ?s" by (rule surface_ok_same[OF _ same(1)]) (use s3(2,3) in \<open>auto simp: flushes_def\<close>)
  have sync3: "in_sync like R (client_calls decode composite calls c) ?s"
    by (rule in_sync_same[OF _ same(1)]) (use s3 in \<open>auto simp: flushes_def pending_def flushed_below_def in_set_conv_nth\<close>)
  have "same_surface s ?s"
    using s1(2) same2 same(2,1) by (blast intro: same_surface_trans)
  moreover have "internal_flush env s = Some (calls, ?s)"
    using s1(1) s3(1) by (simp add: internal_flush_def s2_def Let_def)
  ultimately show ?thesis using ok3 sync3 s3(2,3) by (simp add: flushes_def)
qed

lemma flush_deferred_spec:
  assumes F: "faithful_client decode composite like"
    and ok: "surface_ok s" and room: "length (sf_queue s) < 256" and sync: "in_sync like R c s"
  shows "\<exists>calls s'. flush_deferred env s = Some (calls, s') \<and> flushes decode composite like R c s calls s'
    \<and> length (sf_queue s') < 256"
proof (cases "sf_dirty s")
  case False
  then show ?thesis using ok room sync by (simp add: flush_deferred_def flushes_def)
next
  case True
  obtain calls s1 where s1: "(if length (sf_queue s) = 255 then internal_flush env s else Some ([], s)) = Some (calls, s1)"
    "flushes decode composite like R c s calls s1" "length (sf_queue s1) < 255"
    using internal_flush_spec[OF F ok room sync, of env] room ok sync
    by (cases "length (sf_queue s) = 255") (auto simp: flushes_def)
  have ok1: "surface_ok s1" and room1: "length (sf_queue s1) < 256" using s1(2,3) by (simp_all add: flushes_def)
  obtain s2 t where s2: "flush_to_queue s1 = Some s2" "same_surface s1 s2" "surface_ok s2"
      "sf_queue s2 = sf_queue s1 @ t" "length t = (if sf_dirty s1 then 1 else 0)"
      "\<And>x y. pending s1 x y \<Longrightarrow> pending s2 x y"
    using flush_to_queue_spec[OF ok1 room1] by blast
  have "in_sync like R (client_calls decode composite calls c) s2"
    by (rule in_sync_same[OF _ s2(2)]) (use s1(2) s2(6) in \<open>auto simp: flushes_def\<close>)
  then have "flushes decode composite like R c s calls s2"
    using s1(2) s2(2,3) by (auto simp: flushes_def intro: same_surface_trans)
  moreover have "length (sf_queue s2) < 256" using s1(3) s2(4,5) by simp
  ultimately show ?thesis using True s1(1) s2(1) by (simp add: flush_deferred_def)
qed

section \<open>Opaque colours\<close>

lemma alpha_bit: "bit (0xFF000000 :: pixel) n \<longleftrightarrow> 24 \<le> n \<and> n < 32"
proof -
  have eq: "(0xFF000000 :: pixel) = push_bit 24 (mask 8)" by (simp add: mask_numeral push_bit_eq_mult)
  have "bit (push_bit 24 (mask 8) :: pixel) n \<longleftrightarrow> 24 \<le> n \<and> n < 32" by (auto simp: bit_push_bit_iff bit_mask_iff)
  then show ?thesis unfolding eq .
qed

lemma opaque_bits: "opaque_pixel c \<longleftrightarrow> (\<forall>n. 24 \<le> n \<longrightarrow> n < 32 \<longrightarrow> bit c n)"
proof -
  define A where "A = (0xFF000000 :: pixel)"
  have A: "bit A n \<longleftrightarrow> 24 \<le> n \<and> n < 32" for n unfolding A_def by (rule alpha_bit)
  have "c AND A = A \<longleftrightarrow> (\<forall>n. 24 \<le> n \<longrightarrow> n < 32 \<longrightarrow> bit c n)"
    unfolding bit_eq_iff by (auto simp: bit_and_iff A)
  then show ?thesis by (simp only: opaque_pixel_def A_def)
qed

lemma opaque_or [simp]: "opaque_pixel (c OR 0xFF000000)"
proof -
  define A where "A = (0xFF000000 :: pixel)"
  have A: "bit A n \<longleftrightarrow> 24 \<le> n \<and> n < 32" for n unfolding A_def by (rule alpha_bit)
  have "opaque_pixel (c OR A)" unfolding opaque_bits by (auto simp: bit_or_iff A)
  then show ?thesis unfolding A_def .
qed

lemma opaque_argb [simp]: "opaque_pixel (argb 255 r g b)"
proof -
  have m: "(255 :: int) = mask 8" by (simp add: mask_numeral)
  have "bit (argb (mask 8) r g b) n" if "24 \<le> n" "n < 32" for n
    using that by (auto simp: argb_def bit_word_of_int_iff bit_or_iff bit_push_bit_iff bit_mask_iff)
  then show ?thesis by (simp only: m opaque_bits) blast
qed

lemma channel_opaque: "opaque_pixel c \<longleftrightarrow> channel 24 c = 255"
proof -
  have m: "(255 :: pixel) = mask 8" by (simp add: mask_numeral)
  have m8: "bit (255 :: pixel) n \<longleftrightarrow> n < 8" for n by (simp only: m) (auto simp: bit_mask_iff)
  have "channel 24 c = 255 \<longleftrightarrow> uint (drop_bit 24 c AND 255) = uint (255 :: pixel)" by (simp add: channel_def)
  also have "\<dots> \<longleftrightarrow> drop_bit 24 c AND 255 = 255" by (rule word_uint_eq_iff[symmetric])
  also have "\<dots> \<longleftrightarrow> (\<forall>n. 24 \<le> n \<longrightarrow> n < 32 \<longrightarrow> bit c n)"
  proof -
    define A where "A = (255 :: pixel)"
    have A: "bit A n \<longleftrightarrow> n < 8" for n unfolding A_def by (rule m8)
    have "drop_bit 24 c AND A = A \<longleftrightarrow> (\<forall>n < 8. bit c (24 + n))"
    proof
      assume e: "drop_bit 24 c AND A = A"
      show "\<forall>n < 8. bit c (24 + n)"
      proof (intro allI impI)
        fix n :: nat assume n: "n < 8"
        have "bit (drop_bit 24 c AND A) n = bit A n" by (simp only: e)
        then show "bit c (24 + n)" using n by (simp add: bit_and_iff bit_drop_bit_eq A)
      qed
    next
      assume "\<forall>n < 8. bit c (24 + n)"
      then show "drop_bit 24 c AND A = A" unfolding bit_eq_iff by (auto simp: bit_and_iff bit_drop_bit_eq A)
    qed
    also have "\<dots> \<longleftrightarrow> (\<forall>n. 24 \<le> n \<longrightarrow> n < 32 \<longrightarrow> bit c n)"
    proof (intro iffI allI impI)
      fix n :: nat assume low: "\<forall>n < 8. bit c (24 + n)" and n: "24 \<le> n" "n < 32"
      have "n - 24 < 8" "24 + (n - 24) = n" using n by simp_all
      with low show "bit c n" by metis
    qed auto
    finally show ?thesis by (simp only: A_def)
  qed
  finally show ?thesis by (simp add: opaque_bits)
qed

text \<open>Blending onto an opaque pixel gives an opaque one.\<close>

lemma blend_opaque:
  assumes "opaque_pixel dst"
  shows "opaque_pixel (guac_common_surface_argb_blend dst src)"
proof -
  have d: "channel 24 dst = 255" using assms channel_opaque by simp
  have "0 \<le> channel 24 src" "channel 24 src \<le> 255"
    unfolding channel_def by (simp_all add: uint_and AND_upper2)
  then have "guac_common_surface_blend_component 255 (channel 24 src) (channel 24 src) = 255" if "channel 24 src \<noteq> 255"
    using that by (simp add: guac_common_surface_blend_component_def Let_def)
  then show ?thesis
    using assms by (auto simp: guac_common_surface_argb_blend_def Let_def d channel_opaque[symmetric])
qed

end
