(* ===== verification/Common_Surface_Ops.thy ===== *)
theory Common_Surface_Ops
  imports Common_Surface_Flush
begin

text \<open>
  The operations of a surface keep every pixel either pending or as the client shows it; after any
  sequence of them a flush makes the client show the surface.
\<close>

section \<open>Keeping in sync\<close>

text \<open>The state of a surface between two operations.\<close>

definition synced :: "(pixel \<Rightarrow> pixel \<Rightarrow> bool) \<Rightarrow> client \<Rightarrow> guac_common_surface \<Rightarrow> bool" where
  "synced like c s \<longleftrightarrow> surface_ok s \<and> length (sf_queue s) < 256 \<and> in_sync like (\<lambda>_ _. False) c s
     \<and> cl_path c (sf_layer s) = []"

text \<open>What an operation promises: its instructions bring the client along.\<close>

definition keeps_sync ::
    "(image_codec \<Rightarrow> pixel list \<Rightarrow> pixel list) \<Rightarrow> (composite_mode \<Rightarrow> pixel \<Rightarrow> pixel \<Rightarrow> pixel)
      \<Rightarrow> (pixel \<Rightarrow> pixel \<Rightarrow> bool) \<Rightarrow> client \<Rightarrow> guac_common_surface
      \<Rightarrow> (surface_call list \<times> guac_common_surface) option \<Rightarrow> bool" where
  "keeps_sync decode composite like c s result \<longleftrightarrow>
     (\<exists>calls s'. result = Some (calls, s') \<and> synced like (client_calls decode composite calls c) s'
        \<and> sf_layer s' = sf_layer s \<and> sf_width s' = sf_width s \<and> sf_height s' = sf_height s)"

lemma repaintedD:
  assumes "repainted s r new s'"
  shows "sf_layer s' = sf_layer s" "sf_width s' = sf_width s" "sf_height s' = sf_height s"
    "sf_heat_map s' = sf_heat_map s" "sf_clipped s' = sf_clipped s" "sf_clip_rect s' = sf_clip_rect s"
    "sf_queue s' = sf_queue s" "sf_dirty s' = sf_dirty s" "sf_dirty_rect s' = sf_dirty_rect s"
    "length (sf_buffer s') = length (sf_buffer s)" "pending s' x y = pending s x y"
    "on_surface s' x y = on_surface s x y" "rect_on s' q = rect_on s q" "sf_realized s' = sf_realized s"
    "buffer_ok s' = buffer_ok s"
  using assms
  by (auto simp: repainted_def pending_def on_surface_def rect_on_def surface_bounds_def buffer_ok_def)

lemma repainted_ok:
  assumes ok: "surface_ok s" and p: "repainted s r new s'"
    and new: "\<And>x y. on_surface s x y \<Longrightarrow> in_rect r x y \<Longrightarrow> opaque_pixel (new x y)"
  shows "surface_ok s'"
proof -
  note d = repaintedD[OF p]
  have "opaque_pixel (px s' x y)" if "on_surface s x y" for x y
    using that p new surface_okD(2)[OF ok] by (auto simp: repainted_def)
  with ok show ?thesis by (simp add: surface_ok_def d)
qed

lemma repainted_sync:
  assumes p: "repainted s r new s'" and sync: "in_sync like Q c s"
    and covered: "\<And>x y. on_surface s x y \<Longrightarrow> px s' x y \<noteq> px s x y \<or> Q x y \<Longrightarrow> pending s x y \<or> R x y"
  shows "in_sync like R c s'"
  unfolding in_sync_def repaintedD[OF p]
proof (intro allI impI)
  fix x y assume xy: "on_surface s x y"
  have "pending s x y \<or> like (cl_pixel c (sf_layer s) x y) (px s x y) \<or> Q x y" using sync xy by (auto simp: in_sync_def)
  then show "pending s x y \<or> like (cl_pixel c (sf_layer s) x y) (px s' x y) \<or> R x y"
    using covered[OF xy] by (cases "px s' x y = px s x y") auto
qed

lemma in_sync_weaken: "in_sync like Q c s \<Longrightarrow> (\<And>x y. Q x y \<Longrightarrow> R x y) \<Longrightarrow> in_sync like R c s"
  by (auto simp: in_sync_def)

lemma mark_dirty_sync:
  assumes ok: "surface_ok s" and on: "rect_on s r" and sync: "in_sync like (in_rect r) c s"
  shows "in_sync like (\<lambda>_ _. False) c (mark_dirty r s)"
proof -
  note m = mark_dirty_spec[OF ok on]
  show ?thesis
    using sync m(4) unfolding in_sync_def same_surface_facts[OF m(2)] by blast
qed

lemma defer_update_spec:
  assumes F: "faithful_client decode composite like"
    and ok: "surface_ok s" and room: "length (sf_queue s) < 256" and on: "rect_on s r"
    and sync: "in_sync like (in_rect r) c s" and path: "cl_path c (sf_layer s) = []"
  shows "keeps_sync decode composite like c s (defer_update env r s)"
proof -
  obtain calls s1 where s1: "(if \<not> should_combine s r False then flush_deferred env s else Some ([], s)) = Some (calls, s1)"
    "flushes decode composite like (in_rect r) c s calls s1" "length (sf_queue s1) < 256"
    using flush_deferred_spec[OF F ok room sync, of env] ok room sync
    by (cases "should_combine s r False") (auto simp: flushes_def)
  have same: "same_surface s s1" and ok1: "surface_ok s1" using s1(2) by (simp_all add: flushes_def)
  have on1: "rect_on s1 r" using on same_surface_facts(3)[OF same] by simp
  note m = mark_dirty_spec[OF ok1 on1]
  have "in_sync like (\<lambda>_ _. False) (client_calls decode composite calls c) (mark_dirty r s1)"
    by (rule mark_dirty_sync[OF ok1 on1]) (use s1(2) in \<open>simp add: flushes_def\<close>)
  moreover have "same_surface s (mark_dirty r s1)" using same m(2) by (rule same_surface_trans)
  ultimately show ?thesis
    using s1 m(1,3) path by (simp add: keeps_sync_def synced_def defer_update_def same_surface_def flushes_def)
qed

section \<open>Rectangles that are drawn to\<close>

lemma clip_rect_spec:
  assumes ok: "surface_ok s" and c: "clip_rect s r p = (r', p')"
  shows "rect_on s r'" "rect_within r' r" "p' = (fst p + (rect_x r' - rect_x r), snd p + (rect_y r' - rect_y r))"
proof -
  have "\<exists>q. r' = guac_common_rect_constrain r q \<and> rect_on s q"
    using c surface_okD(6)[OF ok]
    by (auto simp: clip_rect_def bound_rect_def Let_def rect_on_def rect_within_def split: if_splits)
  then obtain q where q: "r' = guac_common_rect_constrain r q" "rect_on s q" by blast
  show "rect_on s r'" unfolding q(1) rect_on_def
    by (rule rect_within_trans[OF constrain_within]) (use q(2) in \<open>simp add: rect_on_def\<close>)
  show "rect_within r' r" unfolding q(1) using rect_constrain_edges[of r q] by (auto simp: rect_within_def)
  show "p' = (fst p + (rect_x r' - rect_x r), snd p + (rect_y r' - rect_y r))"
    using c by (auto simp: clip_rect_def bound_rect_def Let_def split: if_splits)
qed

text \<open>An image whose data has a row of pixels for each of its rows.\<close>

definition image_ok :: "cairo_image \<Rightarrow> bool" where
  "image_ok img \<longleftrightarrow> img_width img \<le> img_stride img \<and> 0 \<le> img_stride img
     \<and> img_stride img * img_height img \<le> int (length (img_data img))"

lemma image_source_ok:
  assumes img: "image_ok img" and r: "rect_within r (guac_common_rect_init x y (img_width img) (img_height img))"
    and pos: "pos = (rect_x r - x, rect_y r - y)"
  shows "source_ok (img_data img) (img_stride img) pos r"
  unfolding source_ok_def
proof (clarify)
  fix a b assume ab: "(a, b) \<in> set (coords (rect_width r) (rect_height r))"
  have col: "0 \<le> fst pos + a" "fst pos + a < img_stride img"
    and row: "0 \<le> snd pos + b" "snd pos + b < img_height img"
    using ab r img by (auto simp: coords_set rect_within_def pos image_ok_def)
  have "0 \<le> img_stride img * (snd pos + b)" using row img by (simp add: image_ok_def)
  then have "0 \<le> img_stride img * (snd pos + b) + (fst pos + a)" using col(1) by simp
  moreover have "img_stride img * (snd pos + b) + (fst pos + a) < int (length (img_data img))"
  proof -
    have "img_stride img * (snd pos + b) + (fst pos + a) < img_stride img * (snd pos + b + 1)"
      using col by (simp add: algebra_simps)
    also have "\<dots> \<le> img_stride img * img_height img"
      using row img by (intro mult_left_mono) (auto simp: image_ok_def)
    also have "\<dots> \<le> int (length (img_data img))" using img by (simp add: image_ok_def)
    finally show ?thesis .
  qed
  ultimately show "0 \<le> img_stride img * (snd pos + b) + (fst pos + a)
      \<and> img_stride img * (snd pos + b) + (fst pos + a) < int (length (img_data img))"
    by (rule conjI)
qed

section \<open>Drawing\<close>

text \<open>A result of painting that is empty has changed nothing.\<close>

lemma painted_empty:
  assumes "painted s r new s' r'" and "rect_empty r'" and "on_surface s x y"
  shows "px s' x y = px s x y"
  using assms rect_empty_none by (auto simp: painted_def)

lemma painted_sync:
  assumes s: "synced like c s" and p: "painted s r new s' r'" and on: "rect_on s r"
    and new: "\<And>x y. on_surface s x y \<Longrightarrow> in_rect r x y \<Longrightarrow> opaque_pixel (new x y)"
  shows "surface_ok s'" "in_sync like (in_rect r') c s'" "rect_on s' r'"
    "rect_empty r' \<Longrightarrow> synced like c s'"
proof -
  have rp: "repainted s r new s'" and w: "rect_within r' r" using p by (simp_all add: painted_def)
  have ok: "surface_ok s" and sync: "in_sync like (\<lambda>_ _. False) c s" using s by (simp_all add: synced_def)
  show ok': "surface_ok s'" by (rule repainted_ok[OF ok rp new])
  show "in_sync like (in_rect r') c s'"
    by (rule repainted_sync[OF rp sync]) (use p in \<open>auto simp: painted_def\<close>)
  show "rect_on s' r'" unfolding repaintedD(13)[OF rp] using w on rect_within_trans unfolding rect_on_def by blast
  show "synced like c s'" if "rect_empty r'"
  proof -
    have "in_sync like (\<lambda>_ _. False) c s'"
      by (rule repainted_sync[OF rp sync]) (use painted_empty[OF p that] in auto)
    then show ?thesis using ok' s by (simp add: synced_def repaintedD[OF rp])
  qed
qed

lemma keeps_sync_from:
  assumes "keeps_sync decode composite like c s1 result"
    and "sf_layer s1 = sf_layer s" "sf_width s1 = sf_width s" "sf_height s1 = sf_height s"
  shows "keeps_sync decode composite like c s result"
  using assms by (auto simp: keeps_sync_def)

lemma heat_map_sync:
  assumes "length m = length (sf_heat_map s)"
  shows "surface_ok (s\<lparr>sf_heat_map := m\<rparr>) = surface_ok s"
    "in_sync like R c (s\<lparr>sf_heat_map := m\<rparr>) = in_sync like R c s"
    "rect_on (s\<lparr>sf_heat_map := m\<rparr>) r = rect_on s r"
  using assms by (simp_all add: surface_ok_def in_sync_def pending_def buffer_ok_def on_surface_def px_def
      rect_on_def surface_bounds_def)

lemma draw_sync:
  assumes F: "faithful_client decode composite like" and s: "synced like c s" and img: "image_ok img"
  shows "keeps_sync decode composite like c s (guac_common_surface_draw env time x y img s)"
proof -
  have ok: "surface_ok s" using s by (simp add: synced_def)
  obtain r p where cl: "clip_rect s (guac_common_rect_init x y (img_width img) (img_height img)) (0, 0) = (r, p)"
    by (meson surj_pair)
  note r = clip_rect_spec[OF ok cl]
  show ?thesis
  proof (cases "rect_empty r")
    case True
    then show ?thesis using s by (simp add: guac_common_surface_draw_def cl keeps_sync_def)
  next
    case False
    have src: "source_ok (img_data img) (img_stride img) p r"
      by (rule image_source_ok[OF img r(2)]) (use r(3) in simp)
    obtain s1 r1 where put: "surface_put (img_data img) (img_stride img) p s r (\<not> img_alpha img) = Some (s1, r1)"
      and p1: "painted s r (\<lambda>x y. if \<not> img_alpha img then source_px (img_data img) (img_stride img) p r x y OR 0xFF000000
        else guac_common_surface_argb_blend (px s x y) (source_px (img_data img) (img_stride img) p r x y)) s1 r1"
      using surface_put_spec[OF surface_okD(1)[OF ok] r(1) False src] by blast
    have new: "opaque_pixel (if \<not> img_alpha img then source_px (img_data img) (img_stride img) p r x y OR 0xFF000000
        else guac_common_surface_argb_blend (px s x y) (source_px (img_data img) (img_stride img) p r x y))"
      if "on_surface s x y" for x y
      using that surface_okD(2)[OF ok] blend_opaque by simp
    note q = painted_sync[OF s p1 r(1) new]
    have rp: "repainted s r (\<lambda>x y. if \<not> img_alpha img then source_px (img_data img) (img_stride img) p r x y OR 0xFF000000
        else guac_common_surface_argb_blend (px s x y) (source_px (img_data img) (img_stride img) p r x y)) s1"
      using p1 by (simp add: painted_def)
    note d = repaintedD[OF rp]
    show ?thesis
    proof (cases "rect_empty r1")
      case True
      then show ?thesis
        using q(4) False by (simp add: guac_common_surface_draw_def cl put keeps_sync_def d)
    next
      case full: False
      obtain m where m: "touch_rect r1 time s1 = Some (s1\<lparr>sf_heat_map := m\<rparr>)" "length m = length (sf_heat_map s1)"
        using touch_rect_some[OF q(1,3), of time] full by (auto simp: rect_full_def)
      have "keeps_sync decode composite like c (s1\<lparr>sf_heat_map := m\<rparr>) (defer_update env r1 (s1\<lparr>sf_heat_map := m\<rparr>))"
        by (rule defer_update_spec[OF F]) (use q heat_map_sync[OF m(2)] s d in \<open>simp_all add: synced_def\<close>)
      then have "keeps_sync decode composite like c s (defer_update env r1 (s1\<lparr>sf_heat_map := m\<rparr>))"
        by (rule keeps_sync_from) (simp_all add: d)
      then show ?thesis using False full m(1) by (simp add: guac_common_surface_draw_def cl put)
    qed
  qed
qed

lemma paint_sync:
  assumes F: "faithful_client decode composite like" and s: "synced like c s" and img: "image_ok img"
  shows "keeps_sync decode composite like c s (guac_common_surface_paint env x y img red green blue s)"
proof -
  have ok: "surface_ok s" and sync: "in_sync like (\<lambda>_ _. False) c s" using s by (simp_all add: synced_def)
  obtain r p where cl: "clip_rect s (guac_common_rect_init x y (img_width img) (img_height img)) (0, 0) = (r, p)"
    by (meson surj_pair)
  note r = clip_rect_spec[OF ok cl]
  show ?thesis
  proof (cases "rect_empty r")
    case True
    then show ?thesis using s by (simp add: guac_common_surface_paint_def cl keeps_sync_def)
  next
    case False
    have src: "source_ok (img_data img) (img_stride img) p r"
      by (rule image_source_ok[OF img r(2)]) (use r(3) in simp)
    obtain s1 where fill: "surface_fill_mask (img_data img) (img_stride img) p s r (argb 255 red green blue) = Some s1"
      and rp: "repainted s r (\<lambda>x y. if source_px (img_data img) (img_stride img) p r x y AND 0xFF000000 \<noteq> 0
        then argb 255 red green blue else px s x y) s1"
      using surface_fill_mask_spec[OF surface_okD(1)[OF ok] r(1) src] by blast
    note d = repaintedD[OF rp]
    have ok1: "surface_ok s1"
      by (rule repainted_ok[OF ok rp]) (use surface_okD(2)[OF ok] in simp)
    have "in_sync like (in_rect r) c s1"
      by (rule repainted_sync[OF rp sync]) (use repainted_changes(1)[OF rp] in blast)
    then have "keeps_sync decode composite like c s1 (defer_update env r s1)"
      by (intro defer_update_spec[OF F ok1]) (use s r(1) in \<open>simp_all add: synced_def d\<close>)
    then have "keeps_sync decode composite like c s (defer_update env r s1)"
      by (rule keeps_sync_from) (simp_all add: d)
    then show ?thesis using False fill by (simp add: guac_common_surface_paint_def cl)
  qed
qed

text \<open>
  The end of setting an area to an opaque colour: what has not been put off is sent before the colour,
  which then fills the area on the client.
\<close>

lemma set_end_sync:
  assumes F: "faithful_client decode composite like"
    and ok: "surface_ok s" and room: "length (sf_queue s) < 256" and on: "rect_on s r"
    and sync: "in_sync like (in_rect r) c s" and path: "cl_path c (sf_layer s) = []"
    and colour: "\<And>x y. on_surface s x y \<Longrightarrow> in_rect r x y \<Longrightarrow> px s x y = argb 255 red green blue"
  shows "keeps_sync decode composite like c s
    (if should_combine s r True then Some ([], mark_dirty r s)
     else do {
       (calls, s) \<leftarrow> internal_flush env s;
       Some (calls @ [call_rect (sf_layer s) (rect_x r) (rect_y r) (rect_width r) (rect_height r),
                      call_cfill GUAC_COMP_OVER (sf_layer s) red green blue 0xFF],
             s\<lparr>sf_realized := True\<rparr>)
     })"
proof (cases "should_combine s r True")
  case True
  note m = mark_dirty_spec[OF ok on]
  have "in_sync like (\<lambda>_ _. False) c (mark_dirty r s)" by (rule mark_dirty_sync[OF ok on sync])
  then show ?thesis using True m(1-3) room path by (simp add: keeps_sync_def synced_def same_surface_def)
next
  case False
  from internal_flush_spec[OF F ok room sync, of env] obtain calls s1 where
    s1: "internal_flush env s = Some (calls, s1)" "flushes decode composite like (in_rect r) c s calls s1"
      "\<not> sf_dirty s1" "sf_queue s1 = []"
    by blast
  have same: "same_surface s s1" and ok1: "surface_ok s1"
    and sync1: "in_sync like (in_rect r) (client_calls decode composite calls c) s1"
    and path1: "cl_path (client_calls decode composite calls c) = cl_path c"
    using s1(2) by (simp_all add: flushes_def)
  note f = same_surface_facts[OF same]
  let ?s = "s1\<lparr>sf_realized := True\<rparr>"
  let ?calls = "[call_rect (sf_layer s1) (rect_x r) (rect_y r) (rect_width r) (rect_height r),
    call_cfill GUAC_COMP_OVER (sf_layer s1) red green blue 0xFF]"
  define c1 where "c1 = client_calls decode composite calls c"
  define c2 where "c2 = client_calls decode composite (calls @ ?calls) c"
  have same2: "same_surface s1 ?s" by (simp add: same_surface_def)
  have ok2: "surface_ok ?s" by (rule surface_ok_same[OF ok1 same2]) (use s1(3,4) in auto)
  have r: "guac_common_rect_init (rect_x r) (rect_y r) (rect_width r) (rect_height r) = r"
    by (simp add: guac_common_rect_init_def)
  have pixel: "cl_pixel c2 (sf_layer s) x y =
      (if in_rect r x y then argb 255 red green blue else cl_pixel c1 (sf_layer s) x y)" for x y
    using F path path1 by (simp add: c1_def c2_def client_draw_def f r faithful_client_def)
  have "in_sync like (\<lambda>_ _. False) c2 ?s"
    unfolding in_sync_def same_surface_facts[OF same2] f
  proof (intro allI impI)
    fix x y assume xy: "on_surface s x y"
    have "like (cl_pixel c1 (sf_layer s) x y) (px s x y) \<or> in_rect r x y"
      using sync1 xy s1(3,4) unfolding in_sync_def f c1_def[symmetric] by (auto simp: pending_def)
    then have "like (cl_pixel c2 (sf_layer s) x y) (px s x y)"
      using pixel colour[OF xy] F by (auto simp: faithful_client_def)
    then show "pending ?s x y \<or> like (cl_pixel c2 (sf_layer s) x y) (px s x y) \<or> False" by simp
  qed
  moreover have "cl_path c2 (sf_layer s) = []" by (simp add: c2_def f)
  moreover have "(do {
       (calls, s) \<leftarrow> internal_flush env s;
       Some (calls @ [call_rect (sf_layer s) (rect_x r) (rect_y r) (rect_width r) (rect_height r),
                      call_cfill GUAC_COMP_OVER (sf_layer s) red green blue 0xFF],
             s\<lparr>sf_realized := True\<rparr>)
     }) = Some (calls @ ?calls, ?s)"
    by (simp add: s1(1))
  ultimately show ?thesis
    unfolding if_not_P[OF False] keeps_sync_def synced_def c2_def
    using s1(4) ok2 f(4) same by (auto simp: same_surface_def simp del: client_calls_append)
qed

lemma set_sync:
  assumes F: "faithful_client decode composite like" and s: "synced like c s"
  shows "keeps_sync decode composite like c s (guac_common_surface_set env x y w h red green blue 0xFF s)"
proof -
  have ok: "surface_ok s" using s by (simp add: synced_def)
  obtain r p where cl: "clip_rect s (guac_common_rect_init x y w h) (0, 0) = (r, p)"
    by (meson surj_pair)
  note r = clip_rect_spec[OF ok cl]
  show ?thesis
  proof (cases "rect_empty r")
    case True
    then show ?thesis using s by (simp add: guac_common_surface_set_def cl keeps_sync_def)
  next
    case False
    let ?col = "argb 255 red green blue"
    obtain s1 r1 where fill: "surface_fill s r ?col = Some (s1, r1)" and p1: "painted s r (\<lambda>_ _. ?col) s1 r1"
      using surface_fill_spec[OF surface_okD(1)[OF ok] r(1) False] by blast
    have rp: "repainted s r (\<lambda>_ _. ?col) s1" and w: "rect_within r1 r" using p1 by (simp_all add: painted_def)
    note q = painted_sync[OF s p1 r(1) opaque_argb]
    note d = repaintedD[OF rp]
    show ?thesis
    proof (cases "rect_empty r1")
      case True
      then show ?thesis using q(4) False by (simp add: guac_common_surface_set_def cl fill keeps_sync_def d)
    next
      case full: False
      have colour: "px s1 x y = ?col" if "on_surface s1 x y" "in_rect r1 x y" for x y
        using that rect_within_in_rect[OF w] rp by (auto simp: repainted_def d)
      have "keeps_sync decode composite like c s1 (if should_combine s1 r1 True then Some ([], mark_dirty r1 s1)
         else do {
           (calls, s) \<leftarrow> internal_flush env s1;
           Some (calls @ [call_rect (sf_layer s) (rect_x r1) (rect_y r1) (rect_width r1) (rect_height r1),
                          call_cfill GUAC_COMP_OVER (sf_layer s) red green blue 0xFF],
                 s\<lparr>sf_realized := True\<rparr>)
         })"
        by (rule set_end_sync[OF F q(1) _ q(3,2) _ colour]) (use s in \<open>simp_all add: synced_def d\<close>)
      from keeps_sync_from[OF this d(1-3)] False full show ?thesis
        by (simp add: guac_common_surface_set_def cl fill)
    qed
  qed
qed

section \<open>Copies within a surface\<close>

definition copy_within ::
    "surface_env \<Rightarrow> int \<Rightarrow> int \<Rightarrow> int \<Rightarrow> int \<Rightarrow> int \<Rightarrow> int \<Rightarrow> guac_common_surface
      \<Rightarrow> (surface_call list \<times> guac_common_surface) option" where
  "copy_within env sx sy w h dx dy s =
     map_option (\<lambda>(calls, st). (calls, st 0)) (guac_common_surface_copy env 0 sx sy w h 0 dx dy (\<lambda>_. s))"

lemma copied_ok:
  assumes ok: "surface_ok s" and on: "rect_on s r" "rect_on s (guac_common_rect_init sx sy (rect_width r) (rect_height r))"
    and p: "repainted s r (\<lambda>x y. px s (sx + (x - rect_x r)) (sy + (y - rect_y r))) s'"
  shows "surface_ok s'" "on_surface s x y \<Longrightarrow> in_rect r x y \<Longrightarrow> on_surface s (sx + (x - rect_x r)) (sy + (y - rect_y r))"
proof -
  show in_src: "on_surface s (sx + (x - rect_x r)) (sy + (y - rect_y r))" if "in_rect r x y" for x y
    using rect_on_pixel(1)[OF on(2), of "x - rect_x r" "y - rect_y r"] that by (simp add: in_rect_coords)
  show "surface_ok s'"
    by (rule repainted_ok[OF ok p]) (use in_src surface_okD(2)[OF ok] in blast)
qed

lemma copy_end_combined:
  assumes s: "synced like c s" and on: "rect_on s r" "rect_on s (guac_common_rect_init sx sy (rect_width r) (rect_height r))"
  shows "\<exists>s' q r'. surface_transfer (mark_dirty r s) True (sx, sy) 3 (mark_dirty r s) r = Some (s', q, r')
    \<and> synced like c s' \<and> sf_layer s' = sf_layer s \<and> sf_width s' = sf_width s \<and> sf_height s' = sf_height s"
proof -
  have ok: "surface_ok s" and sync: "in_sync like (\<lambda>_ _. False) c s" using s by (simp_all add: synced_def)
  let ?m = "mark_dirty r s"
  note m = mark_dirty_spec[OF ok on(1)]
  note f = same_surface_facts[OF m(2)]
  have onm: "rect_on ?m r" "rect_on ?m (guac_common_rect_init sx sy (rect_width r) (rect_height r))" using on f(3) by simp_all
  obtain s' q r' where t: "surface_transfer ?m True (sx, sy) 3 ?m r = Some (s', q, r')"
    and rp: "repainted ?m r (\<lambda>x y. px ?m (sx + (x - rect_x r)) (sy + (y - rect_y r))) s'"
    using surface_transfer_spec[OF surface_okD(1)[OF m(1)] onm, of 3] by (auto simp: transfer_int_def)
  have "in_sync like (\<lambda>_ _. False) c ?m"
    by (rule in_sync_same[OF sync m(2)]) (use m(4) in blast)
  then have "in_sync like (\<lambda>_ _. False) c s'"
    by (rule repainted_sync[OF rp]) (use repainted_changes(1)[OF rp] m(4) in blast)
  then show ?thesis
    using t s copied_ok(1)[OF m(1) onm rp] m(2,3) by (simp add: synced_def repaintedD[OF rp] same_surface_def)
qed

lemma copy_end_sent:
  assumes F: "faithful_client decode composite like"
    and s: "synced like c s" and clean: "\<not> sf_dirty s" "sf_queue s = []"
    and on: "rect_on s r" "rect_on s (guac_common_rect_init sx sy (rect_width r) (rect_height r))"
  shows "\<exists>s' q r'. surface_transfer (s\<lparr>sf_realized := True\<rparr>) True (sx, sy) 3 (s\<lparr>sf_realized := True\<rparr>) r = Some (s', q, r')
    \<and> synced like (client_call decode composite
         (call_copy (sf_layer s) sx sy (rect_width r) (rect_height r) (sf_layer s) (rect_x r) (rect_y r)) c) s'
    \<and> sf_layer s' = sf_layer s \<and> sf_width s' = sf_width s \<and> sf_height s' = sf_height s"
proof -
  have ok: "surface_ok s" and sync: "in_sync like (\<lambda>_ _. False) c s" using s by (simp_all add: synced_def)
  let ?m = "s\<lparr>sf_realized := True\<rparr>"
  have same: "same_surface s ?m" by (simp add: same_surface_def)
  note f = same_surface_facts[OF same]
  have okm: "surface_ok ?m" by (rule surface_ok_same[OF ok same]) (use clean in auto)
  have onm: "rect_on ?m r" "rect_on ?m (guac_common_rect_init sx sy (rect_width r) (rect_height r))" using on f(3) by simp_all
  obtain s' q r' where t: "surface_transfer ?m True (sx, sy) 3 ?m r = Some (s', q, r')"
    and rp: "repainted ?m r (\<lambda>x y. px ?m (sx + (x - rect_x r)) (sy + (y - rect_y r))) s'"
    using surface_transfer_spec[OF surface_okD(1)[OF okm] onm, of 3] by (auto simp: transfer_int_def)
  define c' where "c' = client_call decode composite
    (call_copy (sf_layer s) sx sy (rect_width r) (rect_height r) (sf_layer s) (rect_x r) (rect_y r)) c"
  have r: "guac_common_rect_init (rect_x r) (rect_y r) (rect_width r) (rect_height r) = r"
    by (simp add: guac_common_rect_init_def)
  have shown: "like (cl_pixel c (sf_layer s) x y) (px s x y)" if "on_surface s x y" for x y
    using sync clean that by (auto simp: in_sync_def pending_def)
  have "like (cl_pixel c' (sf_layer s) x y) (px s' x y)" if xy: "on_surface s x y" for x y
  proof (cases "in_rect r x y")
    case True
    let ?x = "sx + (x - rect_x r)" and ?y = "sy + (y - rect_y r)"
    have src: "on_surface s ?x ?y" using copied_ok(2)[OF okm onm rp] xy True f(2) by simp
    have "opaque_pixel (cl_pixel c (sf_layer s) ?x ?y)"
      using shown[OF src] surface_okD(2)[OF ok src] F by (auto simp: faithful_client_def)
    then have "cl_pixel c' (sf_layer s) x y = cl_pixel c (sf_layer s) ?x ?y"
      using True F by (simp add: c'_def client_draw_def r faithful_client_def)
    moreover have "px s' x y = px s ?x ?y" using rp xy True f(1,2) by (simp add: repainted_def)
    ultimately show ?thesis using shown[OF src] by simp
  next
    case False
    then have "cl_pixel c' (sf_layer s) x y = cl_pixel c (sf_layer s) x y" by (simp add: c'_def client_draw_def r)
    moreover have "px s' x y = px s x y" using rp xy False f(1,2) by (simp add: repainted_def)
    ultimately show ?thesis using shown[OF xy] by simp
  qed
  then have "in_sync like (\<lambda>_ _. False) c' s'" unfolding in_sync_def repaintedD[OF rp] f by simp
  moreover have "cl_path c' = cl_path c" by (simp add: c'_def)
  ultimately show ?thesis
    using t s copied_ok(1)[OF okm onm rp] unfolding c'_def[symmetric] by (simp add: synced_def repaintedD[OF rp])
qed

lemma flushes_synced:
  assumes "synced like c s" and "flushes decode composite like (\<lambda>_ _. False) c s calls s'" and "length (sf_queue s') < 256"
  shows "synced like (client_calls decode composite calls c) s'"
  using assms by (simp add: synced_def flushes_def same_surface_def)

lemma copy_sync:
  assumes F: "faithful_client decode composite like" and s: "synced like c s"
  shows "keeps_sync decode composite like c s (copy_within env sx sy w h dx dy s)"
proof -
  have ok: "surface_ok s" and room: "length (sf_queue s) < 256" and sync: "in_sync like (\<lambda>_ _. False) c s"
    using s by (simp_all add: synced_def)
  obtain srect dx' dy' where b: "bound_rect s (guac_common_rect_init sx sy w h) (dx, dy) = (srect, dx', dy')"
    by (rule prod_cases3)
  have sr: "rect_on s srect" using bound_rect_spec(1)[of s "guac_common_rect_init sx sy w h" "(dx, dy)"] b by simp
  obtain r px0 py0 where cl: "clip_rect s (guac_common_rect_init dx' dy' (rect_width srect) (rect_height srect))
      (rect_x srect, rect_y srect) = (r, px0, py0)"
    by (rule prod_cases3)
  note r = clip_rect_spec[OF ok cl]
  have src: "rect_on s (guac_common_rect_init px0 py0 (rect_width r) (rect_height r))"
    using sr r(2,3) by (auto simp: rect_on_def rect_within_def)
  consider "rect_empty srect \<or> rect_empty r" | "\<not> rect_empty srect" "\<not> rect_empty r" "should_combine s r True"
    | "\<not> rect_empty srect" "\<not> rect_empty r" "\<not> should_combine s r True"
    by blast
  then show ?thesis
  proof cases
    case 1
    then have "copy_within env sx sy w h dx dy s = Some ([], s)"
      by (auto simp: copy_within_def guac_common_surface_copy_def surface_copy_or_transfer_def b cl)
    then show ?thesis using s by (simp add: keeps_sync_def)
  next
    case 2
    from copy_end_combined[OF s r(1) src] obtain s' q r' where
      t: "surface_transfer (mark_dirty r s) True (px0, py0) 3 (mark_dirty r s) r = Some (s', q, r')"
      "synced like c s'" "sf_layer s' = sf_layer s" "sf_width s' = sf_width s" "sf_height s' = sf_height s"
      by blast
    have "copy_within env sx sy w h dx dy s = Some ([], s')"
      using 2 t(1) by (simp add: copy_within_def guac_common_surface_copy_def surface_copy_or_transfer_def b cl)
    then show ?thesis using t by (simp add: keeps_sync_def)
  next
    case 3
    from internal_flush_spec[OF F ok room sync, of env] obtain calls s1 where
      s1: "internal_flush env s = Some (calls, s1)" "flushes decode composite like (\<lambda>_ _. False) c s calls s1"
        "\<not> sf_dirty s1" "sf_queue s1 = []"
      by blast
    have sy1: "synced like (client_calls decode composite calls c) s1"
      by (rule flushes_synced[OF s s1(2)]) (simp add: s1(4))
    from internal_flush_spec[OF F, of s1 "\<lambda>_ _. False" "client_calls decode composite calls c" env] sy1
    obtain calls' s2 where
      s2: "internal_flush env s1 = Some (calls', s2)"
        "flushes decode composite like (\<lambda>_ _. False) (client_calls decode composite calls c) s1 calls' s2"
        "\<not> sf_dirty s2" "sf_queue s2 = []"
      unfolding synced_def by blast
    have sy2: "synced like (client_calls decode composite (calls @ calls') c) s2"
      using flushes_synced[OF sy1 s2(2)] s2(4) by simp
    have same: "same_surface s s2" using s1(2) s2(2) by (auto simp: flushes_def intro: same_surface_trans)
    note f = same_surface_facts[OF same]
    from copy_end_sent[OF F sy2 s2(3,4), of r px0 py0] r(1) src obtain s' q r' where
      t: "surface_transfer (s2\<lparr>sf_realized := True\<rparr>) True (px0, py0) 3 (s2\<lparr>sf_realized := True\<rparr>) r = Some (s', q, r')"
      "synced like (client_call decode composite
         (call_copy (sf_layer s2) px0 py0 (rect_width r) (rect_height r) (sf_layer s2) (rect_x r) (rect_y r))
         (client_calls decode composite (calls @ calls') c)) s'"
      "sf_layer s' = sf_layer s2" "sf_width s' = sf_width s2" "sf_height s' = sf_height s2"
      unfolding f by blast
    have "copy_within env sx sy w h dx dy s =
        Some (calls @ calls' @ [call_copy (sf_layer s2) px0 py0 (rect_width r) (rect_height r) (sf_layer s2)
          (rect_x r) (rect_y r)], s')"
      using 3 s1(1) s2(1) t(1)
      by (simp add: copy_within_def guac_common_surface_copy_def surface_copy_or_transfer_def b cl)
    moreover have "sf_width s' = sf_width s \<and> sf_height s' = sf_height s \<and> sf_layer s' = sf_layer s"
      using t(3-5) same by (simp add: same_surface_def)
    ultimately show ?thesis using t(2) by (simp add: keeps_sync_def f(4))
  qed
qed

section \<open>Sequences of operations\<close>

datatype surface_op =
    op_draw surface_env int int int cairo_image
  | op_paint surface_env int int cairo_image int int int
  | op_fill surface_env int int int int int int int
  | op_copy surface_env int int int int int int
  | op_clip int int int int
  | op_reset_clip
  | op_move int int
  | op_stack int
  | op_set_parent int
  | op_set_opacity int
  | op_flush surface_env

fun surface_apply :: "surface_op \<Rightarrow> guac_common_surface \<Rightarrow> (surface_call list \<times> guac_common_surface) option" where
  "surface_apply (op_draw env time x y img) s = guac_common_surface_draw env time x y img s"
| "surface_apply (op_paint env x y img red green blue) s = guac_common_surface_paint env x y img red green blue s"
| "surface_apply (op_fill env x y w h red green blue) s = guac_common_surface_set env x y w h red green blue 0xFF s"
| "surface_apply (op_copy env sx sy w h dx dy) s = copy_within env sx sy w h dx dy s"
| "surface_apply (op_clip x y w h) s = Some ([], guac_common_surface_clip x y w h s)"
| "surface_apply op_reset_clip s = Some ([], guac_common_surface_reset_clip s)"
| "surface_apply (op_move x y) s = Some ([], guac_common_surface_move x y s)"
| "surface_apply (op_stack z) s = Some ([], guac_common_surface_stack z s)"
| "surface_apply (op_set_parent p) s = Some ([], guac_common_surface_set_parent p s)"
| "surface_apply (op_set_opacity opacity) s = Some ([], guac_common_surface_set_opacity opacity s)"
| "surface_apply (op_flush env) s = guac_common_surface_flush env s"

primrec surface_run :: "surface_op list \<Rightarrow> guac_common_surface \<Rightarrow> (surface_call list \<times> guac_common_surface) option" where
  "surface_run [] s = Some ([], s)"
| "surface_run (p # ps) s =
     do {
       (calls, s) \<leftarrow> surface_apply p s;
       (calls', s) \<leftarrow> surface_run ps s;
       Some (calls @ calls', s)
     }"

text \<open>Coordinates and sizes with which no sum or product of the code leaves an \<open>int\<close>.\<close>

definition near :: "int \<Rightarrow> bool" where
  "near v \<longleftrightarrow> \<bar>v\<bar> \<le> 8192"

definition image_near :: "cairo_image \<Rightarrow> bool" where
  "image_near img \<longleftrightarrow> image_ok img \<and> list_all near [img_width img, img_height img, img_stride img]"

fun op_ok :: "surface_op \<Rightarrow> bool" where
  "op_ok (op_draw env time x y img) \<longleftrightarrow> image_near img \<and> near x \<and> near y"
| "op_ok (op_paint env x y img red green blue) \<longleftrightarrow> image_near img \<and> near x \<and> near y"
| "op_ok (op_fill env x y w h red green blue) \<longleftrightarrow> list_all near [x, y, w, h]"
| "op_ok (op_copy env sx sy w h dx dy) \<longleftrightarrow> list_all near [sx, sy, w, h, dx, dy]"
| "op_ok (op_clip x y w h) \<longleftrightarrow> list_all near [x, y, w, h]"
| "op_ok _ \<longleftrightarrow> True"

lemma synced_same:
  assumes s: "synced like c s" and same: "same_surface s s'"
    and q: "sf_queue s' = sf_queue s" "sf_dirty s' = sf_dirty s" "sf_dirty_rect s' = sf_dirty_rect s"
  shows "synced like c s'"
proof -
  have ok: "surface_ok s" using s by (simp add: synced_def)
  have "surface_ok s'" by (rule surface_ok_same[OF ok same]) (use q surface_okD[OF ok] in auto)
  moreover have "in_sync like (\<lambda>_ _. False) c s'"
    by (rule in_sync_same[OF _ same]) (use s q in \<open>auto simp: synced_def pending_def\<close>)
  ultimately show ?thesis using s q(1) same by (simp add: synced_def same_surface_def)
qed

lemma flush_spec:
  assumes F: "faithful_client decode composite like" and s: "synced like c s"
  shows "\<exists>calls s'. guac_common_surface_flush env s = Some (calls, s') \<and> synced like (client_calls decode composite calls c) s'
    \<and> same_surface s s' \<and> \<not> sf_dirty s' \<and> sf_queue s' = []"
proof -
  obtain ps s1 where f: "flush_properties s = (ps, s1)" by fastforce
  have same: "same_surface s s1" "sf_queue s1 = sf_queue s" "sf_dirty s1 = sf_dirty s" "sf_dirty_rect s1 = sf_dirty_rect s"
    using f by (auto simp: flush_properties_def same_surface_def split: if_splits)
  have ps: "client_calls decode composite ps c = c"
    using f by (auto simp: flush_properties_def split: if_splits)
  have s1: "synced like c s1" by (rule synced_same[OF s same])
  from internal_flush_spec[OF F, of s1 "\<lambda>_ _. False" c env] s1 obtain calls s2 where
    s2: "internal_flush env s1 = Some (calls, s2)" "flushes decode composite like (\<lambda>_ _. False) c s1 calls s2"
      "\<not> sf_dirty s2" "sf_queue s2 = []"
    unfolding synced_def by blast
  have "synced like (client_calls decode composite (ps @ calls) c) s2"
    using flushes_synced[OF s1 s2(2)] s2(4) by (simp add: ps)
  moreover have "same_surface s s2" using same(1) s2(2) by (auto simp: flushes_def intro: same_surface_trans)
  moreover have "guac_common_surface_flush env s = Some (ps @ calls, s2)"
    using s2(1) by (simp add: guac_common_surface_flush_def f)
  ultimately show ?thesis using s2(3,4) by blast
qed

lemma constrain_still_within: "rect_within r t \<Longrightarrow> rect_within (guac_common_rect_constrain r s) t"
  using rect_constrain_edges[of r s] by (auto simp: rect_within_def)

lemma clip_sync:
  assumes s: "synced like c s"
  shows "synced like c (guac_common_surface_clip x y w h s)"
proof -
  let ?s = "guac_common_surface_clip x y w h s"
  have ok: "surface_ok s" using s by (simp add: synced_def)
  let ?q = "if sf_clipped s then sf_clip_rect s else surface_bounds s"
  have "rect_on s ?q" using surface_okD(6)[OF ok] by (auto simp: rect_on_def rect_within_def)
  moreover have "sf_clip_rect ?s = guac_common_rect_constrain ?q (guac_common_rect_init x y w h)"
    by (simp add: guac_common_surface_clip_def Let_def)
  ultimately have "rect_on s (sf_clip_rect ?s)" by (simp add: rect_on_def constrain_still_within)
  then have "surface_ok ?s"
    using ok by (auto simp: surface_ok_def guac_common_surface_clip_def Let_def buffer_ok_def on_surface_def px_def
        rect_on_def surface_bounds_def)
  then show ?thesis
    using s by (auto simp: synced_def guac_common_surface_clip_def Let_def in_sync_def pending_def on_surface_def px_def)
qed

lemma reset_clip_sync: "synced like c s \<Longrightarrow> synced like c (guac_common_surface_reset_clip s)"
  by (auto simp: guac_common_surface_reset_clip_def synced_def surface_ok_def buffer_ok_def on_surface_def px_def
      rect_on_def surface_bounds_def in_sync_def pending_def)

lemma apply_sync:
  assumes F: "faithful_client decode composite like" and s: "synced like c s" and p: "op_ok p"
  shows "keeps_sync decode composite like c s (surface_apply p s)"
proof (cases p)
  case (op_draw env time x y img)
  then show ?thesis using draw_sync[OF F s] p by (simp add: image_near_def)
next
  case (op_paint env x y img red green blue)
  then show ?thesis using paint_sync[OF F s] p by (simp add: image_near_def)
next
  case (op_fill env x y w h red green blue)
  then show ?thesis using set_sync[OF F s] by simp
next
  case (op_copy env sx sy w h dx dy)
  then show ?thesis using copy_sync[OF F s] by simp
next
  case (op_clip x y w h)
  then show ?thesis using clip_sync[OF s] by (simp add: keeps_sync_def guac_common_surface_clip_def Let_def)
next
  case op_reset_clip
  then show ?thesis using reset_clip_sync[OF s] by (simp add: keeps_sync_def guac_common_surface_reset_clip_def)
next
  case (op_move x y)
  then show ?thesis using synced_same[OF s, of "guac_common_surface_move x y s"]
    by (simp add: keeps_sync_def guac_common_surface_move_def same_surface_def)
next
  case (op_stack z)
  then show ?thesis using synced_same[OF s, of "guac_common_surface_stack z s"]
    by (simp add: keeps_sync_def guac_common_surface_stack_def same_surface_def)
next
  case (op_set_parent q)
  then show ?thesis using synced_same[OF s, of "guac_common_surface_set_parent q s"]
    by (simp add: keeps_sync_def guac_common_surface_set_parent_def same_surface_def)
next
  case (op_set_opacity opacity)
  then show ?thesis using synced_same[OF s, of "guac_common_surface_set_opacity opacity s"]
    by (simp add: keeps_sync_def guac_common_surface_set_opacity_def same_surface_def)
next
  case (op_flush env)
  from flush_spec[OF F s, of env] obtain calls s' where
    "guac_common_surface_flush env s = Some (calls, s')" "synced like (client_calls decode composite calls c) s'"
    "same_surface s s'"
    by blast
  then show ?thesis using op_flush by (simp add: keeps_sync_def same_surface_def)
qed

lemma keeps_sync_trans:
  assumes "keeps_sync decode composite like c s (Some (calls, s1))"
    and "keeps_sync decode composite like (client_calls decode composite calls c) s1 (Some (calls', s2))"
  shows "keeps_sync decode composite like c s (Some (calls @ calls', s2))"
  using assms by (auto simp: keeps_sync_def)

lemma run_sync:
  assumes F: "faithful_client decode composite like"
  shows "synced like c s \<Longrightarrow> list_all op_ok ps \<Longrightarrow> keeps_sync decode composite like c s (surface_run ps s)"
proof (induction ps arbitrary: c s)
  case Nil
  then show ?case by (simp add: keeps_sync_def)
next
  case (Cons p ps)
  from apply_sync[OF F Cons.prems(1), of p] Cons.prems(2) obtain calls s1 where
    1: "surface_apply p s = Some (calls, s1)" "keeps_sync decode composite like c s (Some (calls, s1))"
      "synced like (client_calls decode composite calls c) s1"
    by (auto simp: keeps_sync_def)
  from Cons.IH[OF 1(3)] Cons.prems(2) obtain calls' s2 where
    2: "surface_run ps s1 = Some (calls', s2)"
      "keeps_sync decode composite like (client_calls decode composite calls c) s1 (Some (calls', s2))"
    by (auto simp: keeps_sync_def)
  show ?case using keeps_sync_trans[OF 1(2) 2(2)] 1(1) 2(1) by simp
qed

end
