(* ===== verification/Common_Surface_Shown.thy ===== *)
theory Common_Surface_Shown
  imports Common_Surface_Ops
begin

text \<open>
  What the surfaces promise as a whole: the client comes to show them, and the transfer functions
  compute what their numbers say; and where the code falls short of this.
\<close>

section \<open>A surface from its beginning\<close>

lemma start_sync:
  assumes F: "faithful_client decode composite like" and wh: "0 < w" "0 < h"
    and alloc: "guac_common_surface_alloc layer w h = (calls, s)" and path: "cl_path c layer = []"
  shows "keeps_sync decode composite like c s (guac_common_surface_set env 0 0 w h red green blue 0xFF s)"
    "sf_layer s = layer" "sf_width s = w" "sf_height s = h"
proof -
  note s = alloc[unfolded guac_common_surface_alloc_def prod.inject, THEN conjunct2, symmetric]
  show f: "sf_layer s = layer" "sf_width s = w" "sf_height s = h" by (simp_all add: s)
  have f2: "\<not> sf_clipped s" "sf_queue s = []" "\<not> sf_dirty s" "sf_buffer s = replicate (nat (h * w)) 0"
    "int (length (sf_heat_map s)) = GUAC_COMMON_SURFACE_HEAT_DIMENSION w * GUAC_COMMON_SURFACE_HEAT_DIMENSION h"
    using wh by (simp_all add: s GUAC_COMMON_SURFACE_HEAT_DIMENSION_def)
  have buf: "buffer_ok s" using wh by (simp add: buffer_ok_def f f2 algebra_simps)
  have black: "px s x y = 0" if "on_surface s x y" for x y
  proof -
    have "nat (w * y + x) < nat (h * w)" using surface_index[OF buf that] by (simp add: f f2 nat_less_iff split: if_splits)
    then show ?thesis by (simp add: px_def f f2)
  qed
  obtain r p where cl: "clip_rect s (guac_common_rect_init 0 0 w h) (0, 0) = (r, p)" by (meson surj_pair)
  then have r: "r = fst (bound_rect s (guac_common_rect_init 0 0 w h) (0, 0))" using f2(1) by (simp add: clip_rect_def)
  have on: "rect_on s r" unfolding r by (rule bound_rect_spec(1))
  have all: "in_rect r x y" if "on_surface s x y" for x y
    using bound_rect_spec(2)[OF that] that unfolding r by (simp add: in_rect_def on_surface_def f)
  have full: "\<not> rect_empty r"
    using all[of 0 0] wh rect_empty_none by (auto simp: on_surface_def f)
  let ?col = "argb 255 red green blue"
  obtain s1 r1 where fill: "surface_fill s r ?col = Some (s1, r1)" and p1: "painted s r (\<lambda>_ _. ?col) s1 r1"
    using surface_fill_spec[OF buf on full] by blast
  have rp: "repainted s r (\<lambda>_ _. ?col) s1" and w1: "rect_within r1 r" using p1 by (simp_all add: painted_def)
  note d = repaintedD[OF rp]
  have px1: "px s1 x y = ?col" if "on_surface s x y" for x y using rp that all by (simp add: repainted_def)
  have "?col \<noteq> 0" using opaque_argb[of red green blue] by (auto simp: opaque_pixel_def)
  then have all1: "in_rect r1 x y" if "on_surface s x y" for x y
    using p1 that px1 black by (auto simp: painted_def)
  have full1: "\<not> rect_empty r1" using all1[of 0 0] wh rect_empty_none by (auto simp: on_surface_def f)
  have ok1: "surface_ok s1"
    using buf f2 px1 by (simp add: surface_ok_def d f)
  have "rect_on s r1" using rect_within_trans[OF w1] on by (simp add: rect_on_def)
  then have on1: "rect_on s1 r1" by (simp add: d)
  have sync1: "in_sync like (in_rect r1) c s1" using all1 by (simp add: in_sync_def d)
  have colour: "px s1 x y = ?col" if "on_surface s1 x y" "in_rect r1 x y" for x y using that px1 by (simp add: d)
  have "keeps_sync decode composite like c s1 (if should_combine s1 r1 True then Some ([], mark_dirty r1 s1)
     else do {
       (calls, s) \<leftarrow> internal_flush env s1;
       Some (calls @ [call_rect (sf_layer s) (rect_x r1) (rect_y r1) (rect_width r1) (rect_height r1),
                      call_cfill GUAC_COMP_OVER (sf_layer s) red green blue 0xFF],
             s\<lparr>sf_realized := True\<rparr>)
     })"
    by (rule set_end_sync[OF F ok1 _ on1 sync1 _ colour]) (use path in \<open>simp_all add: d f f2\<close>)
  from keeps_sync_from[OF this d(1-3)] full full1
  show "keeps_sync decode composite like c s (guac_common_surface_set env 0 0 w h red green blue 0xFF s)"
    by (simp add: guac_common_surface_set_def cl fill)
qed

lemma alloc_path [simp]:
  "cl_path (client_calls decode composite (fst (guac_common_surface_alloc layer w h)) c) = cl_path c"
  by (simp add: guac_common_surface_alloc_def)

text \<open>
  C31. A surface that is filled with a colour and then drawn to, painted, filled, copied within itself,
  clipped, moved and flushed in any order never reads or writes outside its buffers, and after a last
  flush each of its pixels is shown by the client, up to what the image codecs lose. This is for surfaces
  of less than \<open>2 ^ 23\<close> pixels (beyond, the estimate for PNG overflows an \<open>int\<close>) whose memory was granted,
  and for coordinates and sizes of at most 8192.
\<close>

theorem client_shows_surface:
  assumes "faithful_client decode composite like" and "0 < w" and "0 < h"
    and "w \<le> 8192" and "h \<le> 8192" and "w * h < 2 ^ 23" and "cl_path c layer = []"
    and "list_all op_ok ops" and "guac_common_surface_alloc layer w h = (created, s0)"
  shows "\<exists>calls s. surface_run ([op_fill env 0 0 w h red green blue] @ ops @ [op_flush env']) s0 = Some (calls, s)
    \<and> sf_width s = w \<and> sf_height s = h
    \<and> (\<forall>x y. on_surface s x y \<longrightarrow>
         like (cl_pixel (client_calls decode composite (created @ calls) c) layer x y) (px s x y))"
proof -
  let ?c = "client_calls decode composite created c"
  have path: "cl_path ?c layer = []"
    using alloc_path[of decode composite layer w h c] assms(7,9) by simp
  note start = start_sync[OF assms(1-3,9) path]
  from start(1)[of env red green blue] obtain calls1 s1 where
    1: "guac_common_surface_set env 0 0 w h red green blue 0xFF s0 = Some (calls1, s1)"
      "synced like (client_calls decode composite calls1 ?c) s1" "sf_layer s1 = layer" "sf_width s1 = w" "sf_height s1 = h"
    unfolding keeps_sync_def start(2-4) by blast
  from run_sync[OF assms(1) 1(2) assms(8)] obtain calls2 s2 where
    2: "surface_run ops s1 = Some (calls2, s2)"
      "synced like (client_calls decode composite (calls1 @ calls2) ?c) s2" "sf_layer s2 = layer" "sf_width s2 = w" "sf_height s2 = h"
    unfolding keeps_sync_def 1(3-5) by auto
  from flush_spec[OF assms(1) 2(2), of env'] obtain calls3 s3 where
    3: "guac_common_surface_flush env' s2 = Some (calls3, s3)"
      "synced like (client_calls decode composite (calls1 @ calls2 @ calls3) ?c) s3" "same_surface s2 s3"
      "\<not> sf_dirty s3" "sf_queue s3 = []"
    by auto
  have split: "surface_run (ops @ ps) s = do {
      (calls, s) \<leftarrow> surface_run ops s; (calls', s) \<leftarrow> surface_run ps s; Some (calls @ calls', s) }" for ps s
    by (induction ops arbitrary: s) (auto simp: bind_assoc split: bind_splits)
  have "surface_run ([op_fill env 0 0 w h red green blue] @ ops @ [op_flush env']) s0 = Some (calls1 @ calls2 @ calls3, s3)"
    using 1(1) 2(1) 3(1) by (simp add: split)
  moreover have "like (cl_pixel (client_calls decode composite (created @ calls1 @ calls2 @ calls3) c) layer x y) (px s3 x y)"
    if "on_surface s3 x y" for x y
    using 3(2,3,4,5) 2(3) that by (auto simp: synced_def in_sync_def pending_def same_surface_def)
  moreover have "sf_width s3 = w" "sf_height s3 = h" using 2(4,5) 3(3) by (simp_all add: same_surface_def)
  ultimately show ?thesis by blast
qed

lemma perfect_client: "faithful_client (\<lambda>_ ps. ps) (\<lambda>_ d s. if opaque_pixel s then s else d) (=)"
  by (simp add: faithful_client_def list.rel_refl)

theorem client_shows_surface_witness:
  "\<exists>calls s. surface_run ([op_fill \<lparr>env_supports_webp = False, env_processing_lag = 0\<rparr> 0 0 2 1 10 20 30]
      @ [op_draw \<lparr>env_supports_webp = False, env_processing_lag = 0\<rparr> 7 1 0
           \<lparr>img_alpha = False, img_width = 1, img_height = 1, img_stride = 1, img_data = [0x00123456]\<rparr>,
         op_copy \<lparr>env_supports_webp = False, env_processing_lag = 0\<rparr> 1 0 1 1 0 0]
      @ [op_flush \<lparr>env_supports_webp = False, env_processing_lag = 0\<rparr>]) (snd (guac_common_surface_alloc 1 2 1))
      = Some (calls, s)
    \<and> cl_pixel (client_calls (\<lambda>_ ps. ps) (\<lambda>_ d s. if opaque_pixel s then s else d)
        (fst (guac_common_surface_alloc 1 2 1) @ calls) \<lparr>cl_path = \<lambda>_. [], cl_pixel = \<lambda>_ _ _. 0\<rparr>) 1 0 0 = px s 0 0"
proof -
  let ?e = "\<lparr>env_supports_webp = False, env_processing_lag = 0\<rparr>"
  let ?ops = "[op_draw ?e 7 1 0 \<lparr>img_alpha = False, img_width = 1, img_height = 1, img_stride = 1, img_data = [0x00123456]\<rparr>,
    op_copy ?e 1 0 1 1 0 0]"
  have a: "guac_common_surface_alloc 1 2 1 = (fst (guac_common_surface_alloc 1 2 1), snd (guac_common_surface_alloc 1 2 1))"
    by simp
  have ok: "list_all op_ok ?ops" by (simp add: image_near_def near_def image_ok_def)
  from client_shows_surface[OF perfect_client _ _ _ _ _ _ ok a, of "\<lparr>cl_path = \<lambda>_. [], cl_pixel = \<lambda>_ _ _. 0\<rparr>" ?e 10 20 30 ?e]
  show ?thesis by (auto simp: on_surface_def)
qed

section \<open>The transfer functions\<close>

text \<open>
  The number of a transfer function is its truth table: of the colour bits of source and
  destination it gives the bit of the number that the table has for them, the first entry being the
  highest bit; and opaque pixels give an opaque one.
\<close>

theorem transfer_truth_table:
  assumes "0 \<le> op" and "op < 16"
  shows "(\<forall>n < 24. bit (transfer_int op src dst) n \<longleftrightarrow> bit op (3 - (2 * of_bool (bit src n) + of_bool (bit dst n))))
    \<and> (opaque_pixel src \<and> opaque_pixel dst \<longrightarrow> opaque_pixel (transfer_int op src dst))"
proof -
  define A B C where "A = (0xFF000000 :: pixel)" and "B = (0x00FFFFFF :: pixel)" and "C = (0xFFFFFFFF :: pixel)"
  have A: "bit A n \<longleftrightarrow> 24 \<le> n \<and> n < 32" for n unfolding A_def by (rule alpha_bit)
  have B: "bit B n \<longleftrightarrow> n < 24" for n
  proof -
    have eq: "B = mask 24" by (simp add: B_def mask_numeral)
    show ?thesis unfolding eq by (auto simp: bit_mask_iff)
  qed
  have C: "bit C n \<longleftrightarrow> n < 32" for n
  proof -
    have eq: "C = mask 32" by (simp add: C_def mask_numeral)
    show ?thesis unfolding eq by (auto simp: bit_mask_iff)
  qed
  note t = transfer_int_def[of _ src dst, folded A_def B_def C_def]
  have "op \<in> set [0..15]" using assms by simp
  then have "op \<in> {0, 1, 2, 3, 4, 5, 6, 7, 8, 9, 10, 11, 12, 13, 14, 15}" by (simp add: upto_rec1)
  then show ?thesis
    unfolding opaque_bits
    by (elim insertE emptyE; hypsubst)
      (auto simp: t bit_and_iff bit_or_iff bit_xor_iff A B C of_bool_def)
qed

theorem transfer_truth_table_witness:
  "bit (transfer_int 0x6 0xFF0000F0 0xFF0000CC) 2 \<longleftrightarrow> bit (0x6 :: int) (3 - (2 * of_bool (bit (0xFF0000F0 :: pixel) 2) + of_bool (bit (0xFF0000CC :: pixel) 2)))"
  using transfer_truth_table[of "0x6" "0xFF0000F0" "0xFF0000CC"] by simp

section \<open>Where the code falls short\<close>

text \<open>
  The component of the destination is multiplied by a number up to 255 and not divided again, so
  that a half transparent black over a dark grey gives white.
\<close>

lemma blend_saturates: "guac_common_surface_blend_component 3 0 0x80 = 0xFF"
  by (simp add: guac_common_surface_blend_component_def)

text \<open>
  Resizing copies the pixels with full opacity, also those that are transparent, on the client too;
  no update is pending that would tell the client.
\<close>

lemma resize_blackens:
  "\<exists>calls s. guac_common_surface_resize 2 1 (snd (guac_common_surface_alloc 0 1 1)) = Some (calls, s)
     \<and> px (snd (guac_common_surface_alloc 0 1 1)) 0 0 = 0 \<and> px s 0 0 = 0xFF000000 \<and> \<not> pending s 0 0"
proof -
  have "map_option (\<lambda>(calls, s). (px s 0 0, sf_dirty s, sf_queue s))
      (guac_common_surface_resize 2 1 (snd (guac_common_surface_alloc 0 1 1))) = Some (0xFF000000, False, [])"
    by code_simp
  moreover have "px (snd (guac_common_surface_alloc 0 1 1)) 0 0 = 0" by code_simp
  ultimately show ?thesis by (auto simp: pending_def)
qed

text \<open>The framerate of an area at most a cell high or wide is always zero, however often it is drawn to.\<close>

lemma small_framerate:
  assumes "0 < rect_width r" "rect_width r \<le> 64 \<or> rect_height r \<le> 64" "0 < rect_height r"
  shows "calculate_framerate s r = Some 0"
proof -
  have "coords (c_div (rect_width r - 1) 64) (c_div (rect_height r - 1) 64) = []"
    using assms by (auto simp: coords_def)
  then show ?thesis by (simp add: calculate_framerate_def Let_def)
qed

end
