(* ===== verification/Drive_Path.thy ===== *)
theory Drive_Path
  imports Guac_String
begin

text \<open>
  Paths of the shared drive (\<open>src/protocols/rdp/fs.c\<close>) and of SFTP (\<open>src/common-ssh/sftp.c\<close>). A path is the
  list of the bytes before its terminator; a buffer that receives a path is the result.
\<close>

section \<open>Definitions\<close>

abbreviation (input) GUAC_RDP_FS_MAX_PATH :: nat where "GUAC_RDP_FS_MAX_PATH \<equiv> 4096"
abbreviation (input) GUAC_RDP_MAX_PATH_DEPTH :: nat where "GUAC_RDP_MAX_PATH_DEPTH \<equiv> 64"
abbreviation (input) GUAC_COMMON_SSH_SFTP_MAX_PATH :: nat where "GUAC_COMMON_SSH_SFTP_MAX_PATH \<equiv> 2048"
abbreviation (input) GUAC_COMMON_SSH_SFTP_MAX_DEPTH :: nat where "GUAC_COMMON_SSH_SFTP_MAX_DEPTH \<equiv> 1024"

abbreviation (input) slash :: byte where "slash \<equiv> 47"
abbreviation (input) backslash :: byte where "backslash \<equiv> 92"
abbreviation (input) dot :: byte where "dot \<equiv> 46"
abbreviation (input) colon :: byte where "colon \<equiv> 58"

definition is_separator :: "byte \<Rightarrow> bool" where
  "is_separator c \<longleftrightarrow> c = slash \<or> c = backslash"

text \<open>
  A component that ends at a separator. The components are pointers into the copy of the path, where
  their separators have been replaced by terminators.
\<close>

definition path_component :: "nat \<Rightarrow> byte list \<Rightarrow> byte list list \<Rightarrow> byte list list option" where
  "path_component max_depth component components =
     (if component = [dot, dot] then Some (butlast components)
      else if component \<noteq> [dot] \<and> component \<noteq> []
      then (if length components \<ge> max_depth then None else Some (components @ [component]))
      else Some components)"

text \<open>The loop over the characters, the last being the terminator of the string.\<close>

primrec path_loop ::
    "nat \<Rightarrow> (byte \<Rightarrow> bool) \<Rightarrow> byte list \<Rightarrow> byte list \<Rightarrow> byte list list \<Rightarrow> byte list list option" where
  "path_loop max_depth illegal [] component components = path_component max_depth component components"
| "path_loop max_depth illegal (c # cs) component components =
     (if is_separator c
      then (case path_component max_depth component components of
              None \<Rightarrow> None
            | Some components \<Rightarrow> path_loop max_depth illegal cs [] components)
      else if illegal c then None
      else path_loop max_depth illegal cs (component @ [c]) components)"

definition path_components ::
    "nat \<Rightarrow> nat \<Rightarrow> (byte \<Rightarrow> bool) \<Rightarrow> byte list \<Rightarrow> byte list list option" where
  "path_components max_path max_depth illegal path =
     (case path of
        [] \<Rightarrow> None
      | c # cs \<Rightarrow>
          if \<not> is_separator c then None
          else if snd (guac_strlcpy cs (max_path - 1)) \<ge> int (max_path - 1) then None
          else path_loop max_depth illegal (fst (guac_strlcpy cs (max_path - 1))) [] [])"

text \<open>The results are the codes of the functions with the buffers they fill.\<close>

definition guac_rdp_fs_normalize_path :: "byte list \<Rightarrow> byte list option" where
  "guac_rdp_fs_normalize_path path =
     map_option (\<lambda>cs. backslash # fst (guac_strljoin cs [backslash] (GUAC_RDP_FS_MAX_PATH - 1)))
       (path_components GUAC_RDP_FS_MAX_PATH GUAC_RDP_MAX_PATH_DEPTH (\<lambda>c. c = colon) path)"

definition guac_common_ssh_sftp_normalize_path :: "byte list \<Rightarrow> byte list option" where
  "guac_common_ssh_sftp_normalize_path path =
     map_option (\<lambda>cs. slash # fst (guac_strljoin cs [slash] (GUAC_COMMON_SSH_SFTP_MAX_PATH - 1)))
       (path_components GUAC_COMMON_SSH_SFTP_MAX_PATH GUAC_COMMON_SSH_SFTP_MAX_DEPTH (\<lambda>c. False) path)"

definition guac_rdp_fs_basename :: "byte list \<Rightarrow> byte list" where
  "guac_rdp_fs_basename path = fold (\<lambda>c base. if is_separator c then [] else base @ [c]) path []"

text \<open>Copying the next string to the end of one that may have been cut off.\<close>

definition strlcpy_at :: "byte list \<times> nat \<Rightarrow> byte list \<Rightarrow> nat \<Rightarrow> byte list \<times> nat" where
  "strlcpy_at st src n =
     (let (dest, len) = st; (tail, k) = guac_strlcpy src (n - len) in (take len dest @ tail, len + nat k))"

text \<open>
  The lengths given to \<open>guac_strlcpy\<close> are those left in the buffer; if a first part has been cut off
  already they are negative, that is, huge as an unsigned number, and the copy goes out of the buffer: \<open>None\<close>.
\<close>

definition strlcpy_next :: "byte list \<times> nat \<Rightarrow> byte list \<Rightarrow> nat \<Rightarrow> (byte list \<times> nat) option" where
  "strlcpy_next st src n = (if snd st > n then None else Some (strlcpy_at st src n))"

definition guac_rdp_fs_convert_path :: "byte list \<Rightarrow> byte list \<Rightarrow> byte list option option" where
  "guac_rdp_fs_convert_path parent rel_path =
     (case strlcpy_next (strlcpy_at ([], 0) parent GUAC_RDP_FS_MAX_PATH) [backslash] GUAC_RDP_FS_MAX_PATH of
        None \<Rightarrow> None
      | Some st \<Rightarrow>
          (case strlcpy_next st rel_path GUAC_RDP_FS_MAX_PATH of
             None \<Rightarrow> None
           | Some (combined, _) \<Rightarrow> Some (guac_rdp_fs_normalize_path combined)))"

definition translate_path :: "byte list \<Rightarrow> byte list \<Rightarrow> byte list" where
  "translate_path drive_path virtual_path =
     (let start = take (GUAC_RDP_FS_MAX_PATH - 1) drive_path
      in start @ map (\<lambda>c. if c = backslash then slash else c)
           (take (GUAC_RDP_FS_MAX_PATH - 1 - length start) virtual_path))"

text \<open>\<open>None\<close> is the result zero. A path that fills the buffer has no place for the slash.\<close>

definition guac_rdp_fs_append_filename :: "byte list \<Rightarrow> byte list \<Rightarrow> byte list option" where
  "guac_rdp_fs_append_filename path filename =
     (if filename = [dot] \<or> filename = [dot, dot] then None
      else
        (let fullpath = take GUAC_RDP_FS_MAX_PATH path;
             fullpath = (if length path < GUAC_RDP_FS_MAX_PATH \<and> path \<noteq> [] \<and> \<not> is_separator (last path)
                         then fullpath @ [slash] else fullpath);
             room = GUAC_RDP_FS_MAX_PATH - length fullpath;
             name = take room filename
         in if \<exists>c \<in> set name. is_separator c then None
            else if length filename \<ge> room then None
            else Some (fullpath @ filename)))"

text \<open>
  \<open>guac_ssh_append_filename\<close> and \<open>guac_ssh_append_path\<close>: the outer \<open>None\<close> is a copy out of the buffer.
\<close>

definition guac_ssh_append_filename :: "byte list \<Rightarrow> byte list \<Rightarrow> byte list option option" where
  "guac_ssh_append_filename path filename =
     (if filename = [dot] \<or> filename = [dot, dot] \<or> slash \<in> set filename then Some None
      else
        (let n = GUAC_COMMON_SSH_SFTP_MAX_PATH; st = strlcpy_at ([], 0) path n
         in if snd st > n then None
            else
              (case (if snd st > 0 \<and> (snd st > length (fst st) \<or> last (fst st) \<noteq> slash)
                     then strlcpy_next st [slash] n else Some st) of
                 None \<Rightarrow> None
               | Some st \<Rightarrow>
                   (case strlcpy_next st filename n of
                      None \<Rightarrow> None
                    | Some (fullpath, len) \<Rightarrow> Some (if len \<ge> n then None else Some fullpath)))))"

definition guac_ssh_append_path :: "byte list \<Rightarrow> byte list \<Rightarrow> byte list option option" where
  "guac_ssh_append_path path_a path_b =
     (let n = GUAC_COMMON_SSH_SFTP_MAX_PATH; st = strlcpy_at ([], 0) path_a n
      in if snd st \<ge> n then Some None
         else
           (case (if snd st = 0 \<or> last (fst st) \<noteq> slash then strlcpy_next st [slash] n else Some st) of
              None \<Rightarrow> None
            | Some st \<Rightarrow>
                (case strlcpy_next st (dropWhile (\<lambda>c. c = slash) path_b) n of
                   None \<Rightarrow> None
                 | Some (fullpath, len) \<Rightarrow> Some (if len \<ge> n then None else Some fullpath))))"

section \<open>What normalization means\<close>

text \<open>The components of a path, and the walk along them from the root.\<close>

primrec split_path :: "(byte \<Rightarrow> bool) \<Rightarrow> byte list \<Rightarrow> byte list \<Rightarrow> byte list list" where
  "split_path sep [] component = [component]"
| "split_path sep (c # cs) component =
     (if sep c then component # split_path sep cs [] else split_path sep cs (component @ [c]))"

definition enter :: "byte list \<Rightarrow> byte list list \<Rightarrow> byte list list" where
  "enter component place =
     (if component = [dot, dot] then butlast place
      else if component = [dot] \<or> component = [] then place
      else place @ [component])"

definition resolve_path :: "byte list \<Rightarrow> byte list list" where
  "resolve_path path = fold enter (split_path is_separator path []) []"

definition safe_component :: "(byte \<Rightarrow> bool) \<Rightarrow> byte list \<Rightarrow> bool" where
  "safe_component illegal c \<longleftrightarrow> c \<noteq> [] \<and> c \<noteq> [dot] \<and> c \<noteq> [dot, dot]
     \<and> (\<forall>b \<in> set c. \<not> is_separator b \<and> \<not> illegal b)"

definition path_size :: "byte list list \<Rightarrow> nat" where
  "path_size cs = sum_list (map (\<lambda>c. Suc (length c)) cs)"

lemma path_component_enter:
  "path_component d c cs = Some cs' \<Longrightarrow> cs' = enter c cs \<and> (length cs \<le> d \<longrightarrow> length cs' \<le> d)"
  by (auto simp: path_component_def enter_def split: if_splits)

lemma path_size_butlast: "path_size (butlast cs) \<le> path_size cs"
  by (induction cs) (auto simp: path_size_def)

lemma enter_size: "path_size (enter c cs) \<le> path_size cs + Suc (length c)"
  using path_size_butlast[of cs] by (auto simp: enter_def path_size_def)

lemma enter_safe:
  assumes "\<forall>b \<in> set c. \<not> is_separator b \<and> \<not> illegal b" and "list_all (safe_component illegal) cs"
  shows "list_all (safe_component illegal) (enter c cs)"
  using assms by (auto simp: enter_def list_all_iff safe_component_def dest: in_set_butlastD)

lemma path_loop_spec:
  assumes "path_loop d illegal cs c comps = Some r"
    and "\<forall>b \<in> set c. \<not> is_separator b \<and> \<not> illegal b" and "list_all (safe_component illegal) comps" and "length comps \<le> d"
  shows "r = fold enter (split_path is_separator cs c) comps \<and> list_all (safe_component illegal) r \<and> length r \<le> d
    \<and> path_size r \<le> path_size comps + length c + length cs + 1"
  using assms
proof (induction cs arbitrary: c comps)
  case Nil
  then show ?case
    using path_component_enter[of d c comps r] enter_safe[of c illegal comps] enter_size[of c comps] by auto
next
  case (Cons b cs)
  show ?case
  proof (cases "is_separator b")
    case True
    then obtain comps' where c': "path_component d c comps = Some comps'" "path_loop d illegal cs [] comps' = Some r"
      using Cons.prems(1) by (auto split: option.splits)
    have e: "comps' = enter c comps" "length comps' \<le> d"
      using path_component_enter[OF c'(1)] Cons.prems(4) by auto
    from Cons.IH[OF c'(2)] enter_safe[OF Cons.prems(2,3)] e enter_size[of c comps] True show ?thesis by auto
  next
    case False
    then have "\<not> illegal b" "path_loop d illegal cs (c @ [b]) comps = Some r"
      using Cons.prems(1) by (auto split: if_splits)
    with Cons.IH[of "c @ [b]" comps] Cons.prems(2-4) False show ?thesis by auto
  qed
qed

lemma join_size: "length (join_strings [b] cs) = path_size cs - 1"
  by (cases cs) (auto simp: join_strings_Cons path_size_def length_concat comp_def)

lemma path_components_spec:
  assumes "path_components n d illegal path = Some r"
  shows "\<exists>b cs. path = b # cs \<and> is_separator b \<and> length cs < n - 1 \<and> r = resolve_path cs
    \<and> list_all (safe_component illegal) r \<and> length r \<le> d \<and> length (join_strings [x] r) \<le> length cs"
proof -
  obtain b cs where p: "path = b # cs" "is_separator b" "length cs < n - 1"
    "path_loop d illegal (take (n - 1 - 1) cs) [] [] = Some r"
    using assms by (auto simp: path_components_def guac_strlcpy_def split: list.splits if_splits)
  then have "path_loop d illegal cs [] [] = Some r" by simp
  from path_loop_spec[OF this] have "r = resolve_path cs \<and> list_all (safe_component illegal) r \<and> length r \<le> d
      \<and> path_size r \<le> length cs + 1"
    unfolding resolve_path_def by (auto simp: path_size_def)
  with p show ?thesis by (auto simp: join_size)
qed

text \<open>A path that is made of safe components is found again.\<close>

lemma path_loop_component:
  assumes "\<forall>b \<in> set c. \<not> is_separator b \<and> \<not> illegal b"
  shows "path_loop d illegal (c @ cs) x comps = path_loop d illegal cs (x @ c) comps"
  using assms by (induction c arbitrary: x) auto

lemma path_loop_join:
  assumes "list_all (safe_component illegal) cs" and "length comps + length cs \<le> d" and "is_separator s"
  shows "path_loop d illegal (join_strings [s] cs) [] comps = Some (comps @ cs)"
  using assms
proof (induction cs arbitrary: comps)
  case (Cons c cs)
  have c: "safe_component illegal c" and plain: "\<forall>b \<in> set c. \<not> is_separator b \<and> \<not> illegal b"
    using Cons.prems(1) by (auto simp: safe_component_def)
  have comp: "path_component d c comps = Some (comps @ [c])"
    using c Cons.prems(2) by (auto simp: path_component_def safe_component_def)
  show ?case
  proof (cases cs)
    case Nil
    then show ?thesis using path_loop_component[OF plain, of d "[]" "[]" comps] comp by simp
  next
    case (Cons c' cs')
    then have j: "join_strings [s] (c # cs) = c @ s # join_strings [s] cs" by simp
    have "path_loop d illegal (join_strings [s] cs) [] (comps @ [c]) = Some ((comps @ [c]) @ cs)"
      using Cons.IH[of "comps @ [c]"] Cons.prems by simp
    then show ?thesis
      unfolding j using path_loop_component[OF plain, of d "s # join_strings [s] cs" "[]" comps] comp Cons.prems(3) by simp
  qed
qed (simp add: path_component_def)

text \<open>
  A path of the shared drive that can be normalized becomes the list of the components that
  following it from the root leads to, each after a backslash. No component of it is empty or refers to
  a directory by dots, none has a separator or a colon, there are at most 64, and the result is at most as
  long as the path and is normalized to itself.
\<close>

theorem normalized_path:
  assumes "guac_rdp_fs_normalize_path path = Some abs_path"
  shows "abs_path = backslash # join_strings [backslash] (resolve_path (tl path))
    \<and> list_all (safe_component (\<lambda>c. c = colon)) (resolve_path (tl path)) \<and> length (resolve_path (tl path)) \<le> 64
    \<and> length abs_path \<le> length path \<and> length path < 4096 \<and> guac_rdp_fs_normalize_path abs_path = Some abs_path"
proof -
  obtain r where r: "path_components 4096 64 (\<lambda>c. c = colon) path = Some r"
    and abs_path: "abs_path = backslash # fst (guac_strljoin r [backslash] 4095)"
    using assms by (auto simp: guac_rdp_fs_normalize_path_def)
  from path_components_spec[OF r, of backslash] obtain b cs where
    p: "path = b # cs" "length cs < 4095" "r = resolve_path cs" "list_all (safe_component (\<lambda>c. c = colon)) r" "length r \<le> 64"
      "length (join_strings [backslash] r) \<le> length cs"
    by auto
  have abs_path: "abs_path = backslash # join_strings [backslash] r"
    unfolding abs_path using strljoin_spec[of 4095 r "[backslash]"] p(2,6) by simp
  have "path_loop 64 (\<lambda>c. c = colon) (join_strings [backslash] r) [] [] = Some r"
    using path_loop_join[OF p(4), of "[]" 64 backslash] p(5) by (simp add: is_separator_def)
  then have "path_components 4096 64 (\<lambda>c. c = colon) abs_path = Some r"
    using p(2,6) by (simp add: path_components_def abs_path is_separator_def guac_strlcpy_def)
  then have "guac_rdp_fs_normalize_path abs_path = Some abs_path"
    using strljoin_spec[of 4095 r "[backslash]"] p(2,6) by (simp add: guac_rdp_fs_normalize_path_def abs_path)
  with abs_path p show ?thesis by simp
qed

theorem normalized_path_witness:
  "guac_rdp_fs_normalize_path (backslash # cstr ''a/../..//b/./c'') = Some (backslash # cstr ''b'' @ backslash # cstr ''c'')
   \<and> guac_rdp_fs_normalize_path (backslash # cstr ''b'' @ backslash # cstr ''c'') = Some (backslash # cstr ''b'' @ backslash # cstr ''c'')"
proof -
  have n: "guac_rdp_fs_normalize_path (backslash # cstr ''a/../..//b/./c'') = Some (backslash # cstr ''b'' @ backslash # cstr ''c'')"
    by (simp add: guac_rdp_fs_normalize_path_def path_components_def is_separator_def guac_strlcpy_def path_component_def guac_strljoin_def guac_strlcat_def cstr_def)
  from conjunct2[OF conjunct2[OF conjunct2[OF conjunct2[OF conjunct2[OF normalized_path[OF this]]]]]] n
  show ?thesis by (rule conjI[rotated])
qed

section \<open>Staying within a directory\<close>

text \<open>
  Where a path of the operating system leads, without symbolic links: the number of directories it
  is below the one it started in, \<open>None\<close> when it leaves that one.
\<close>

fun walk :: "nat \<Rightarrow> byte list list \<Rightarrow> nat option" where
  "walk depth [] = Some depth"
| "walk depth (c # cs) =
     (if c = [dot, dot] then (if depth = 0 then None else walk (depth - 1) cs)
      else if c = [dot] \<or> c = [] then walk depth cs
      else walk (depth + 1) cs)"

definition within_directory :: "byte list \<Rightarrow> byte list \<Rightarrow> bool" where
  "within_directory dir path \<longleftrightarrow>
     (\<exists>rest. path = dir @ slash # rest \<and> walk 0 (split_path (\<lambda>c. c = slash) rest []) \<noteq> None)"

lemma split_component:
  assumes "slash \<notin> set c"
  shows "split_path (\<lambda>c. c = slash) (c @ cs) x = split_path (\<lambda>c. c = slash) cs (x @ c)"
  using assms by (induction c arbitrary: x) auto

lemma walk_more: "walk d cs \<noteq> None \<Longrightarrow> walk (Suc d) cs \<noteq> None"
proof (induction cs arbitrary: d)
  case (Cons c cs)
  show ?case
  proof (cases "c = [dot, dot]")
    case True
    then obtain d' where d': "d = Suc d'" "walk d' cs \<noteq> None" using Cons.prems by (cases d) auto
    then show ?thesis using Cons.IH[OF d'(2)] True by simp
  next
    case False
    then show ?thesis using Cons.prems Cons.IH[of d] Cons.IH[of "Suc d"] by (auto split: if_splits)
  qed
qed simp

text \<open>A path of safe components that is cut off somewhere stays below; only its last component can become dots.\<close>

lemma cut_path_stays:
  assumes "list_all (safe_component illegal) cs" and "0 < d \<or> 3 \<le> m"
  shows "walk d (split_path (\<lambda>c. c = slash) (take m (join_strings [slash] cs)) []) \<noteq> None"
  using assms
proof (induction cs arbitrary: d m)
  case (Cons c cs)
  have c: "safe_component illegal c" "slash \<notin> set c" "slash \<notin> set (take m c)"
    using Cons.prems(1) by (auto simp: safe_component_def is_separator_def dest: in_set_takeD)
  have step: "walk d [take m c] \<noteq> None" if "m \<le> length c"
    using that Cons.prems(2) by (cases d) (auto dest: arg_cong[where f = length])
  show ?case
  proof (cases "m \<le> length c")
    case True
    then have "take m (join_strings [slash] (c # cs)) = take m c" by (simp add: join_strings_Cons)
    then show ?thesis using split_component[OF c(3), of "[]" "[]"] step[OF True] by simp
  next
    case False
    show ?thesis
    proof (cases cs)
      case Nil
      then show ?thesis using split_component[OF c(2), of "[]" "[]"] False c(1) by (simp add: safe_component_def)
    next
      case (Cons c' cs')
      then have j: "join_strings [slash] (c # cs) = c @ slash # join_strings [slash] cs" by simp
      obtain k where k: "m - length c = Suc k" using False by (cases "m - length c") auto
      have t: "take m (join_strings [slash] (c # cs)) = c @ slash # take k (join_strings [slash] cs)"
        unfolding j using False k by simp
      have "walk (Suc d) (split_path (\<lambda>c. c = slash) (take k (join_strings [slash] cs)) []) \<noteq> None"
        using Cons.IH[of "Suc d" k] Cons.prems(1) by simp
      then show ?thesis unfolding t split_component[OF c(2)] using c(1) by (simp add: safe_component_def)
    qed
  qed
qed simp

lemma translated_join:
  assumes "list_all (safe_component illegal) cs"
  shows "map (\<lambda>c. if c = backslash then slash else c) (join_strings [backslash] cs) = join_strings [slash] cs"
proof -
  have "map (\<lambda>c. if c = backslash then slash else c) c = c" if "safe_component illegal c" for c
    using that by (intro map_idI) (auto simp: safe_component_def is_separator_def)
  with assms show ?thesis by (induction cs rule: induct_list012) auto
qed

lemma translated_within:
  assumes "guac_rdp_fs_normalize_path path = Some abs_path" and "length drive_path < 4092"
  shows "within_directory drive_path (translate_path drive_path abs_path)"
proof -
  obtain r where r: "path_components 4096 64 (\<lambda>c. c = colon) path = Some r"
    and abs_path: "abs_path = backslash # fst (guac_strljoin r [backslash] 4095)"
    using assms(1) by (auto simp: guac_rdp_fs_normalize_path_def)
  from path_components_spec[OF r, of backslash] have
    safe: "list_all (safe_component (\<lambda>c. c = colon)) r" and "length (join_strings [backslash] r) < 4095"
    by auto
  then have abs_path: "abs_path = backslash # join_strings [backslash] r"
    unfolding abs_path using strljoin_spec[of 4095 r "[backslash]"] by simp
  obtain m where m: "4095 - length drive_path = Suc m" "3 \<le> m"
    using assms(2) by (intro that[of "4094 - length drive_path"]) auto
  have "translate_path drive_path abs_path = drive_path @ slash # take m (join_strings [slash] r)"
    using assms(2) by (simp add: translate_path_def abs_path Let_def m(1) take_map[symmetric] translated_join[OF safe])
  then show ?thesis
    unfolding within_directory_def using cut_path_stays[OF safe, of 0 m] m(2) by blast
qed

text \<open>
  Whatever path is asked for, its translation lies within the directory of the drive, also when
  it has to be cut off, provided that the name of that directory leaves room for a component of three
  bytes.
\<close>

theorem drive_confines_paths:
  assumes "guac_rdp_fs_normalize_path path = Some abs_path" and "length drive_path < 4092"
  shows "within_directory drive_path (translate_path drive_path abs_path)"
  using assms by (rule translated_within)

theorem drive_confines_paths_witness:
  "within_directory (cstr ''/drive'') (translate_path (cstr ''/drive'') (backslash # cstr ''etc'' @ backslash # cstr ''passwd''))"
proof -
  have "guac_rdp_fs_normalize_path (cstr ''/../etc/../../etc/passwd'') = Some (backslash # cstr ''etc'' @ backslash # cstr ''passwd'')"
    by (simp add: guac_rdp_fs_normalize_path_def path_components_def is_separator_def guac_strlcpy_def path_component_def guac_strljoin_def guac_strlcat_def cstr_def)
  from drive_confines_paths[OF this, of "cstr ''/drive''"] show ?thesis by (simp add: cstr_def)
qed

text \<open>A directory whose name leaves room for two bytes is left by cutting off.\<close>

lemma cut_path_escapes:
  assumes "length drive_path = 4092"
  shows "guac_rdp_fs_normalize_path (cstr ''/..x'') = Some (backslash # cstr ''..x'')
    \<and> translate_path drive_path (backslash # cstr ''..x'') = drive_path @ cstr ''/..''"
proof
  show "guac_rdp_fs_normalize_path (cstr ''/..x'') = Some (backslash # cstr ''..x'')" by (simp add: guac_rdp_fs_normalize_path_def path_components_def is_separator_def guac_strlcpy_def path_component_def guac_strljoin_def guac_strlcat_def cstr_def)
  show "translate_path drive_path (backslash # cstr ''..x'') = drive_path @ cstr ''/..''"
    using assms by (simp add: translate_path_def cstr_def)
qed

section \<open>SFTP\<close>

text \<open>The path of a file of an SFTP filesystem for the name of a stream, \<open>guac_common_ssh_sftp_translate_name\<close>.\<close>

definition guac_common_ssh_sftp_translate_name :: "byte list \<Rightarrow> byte list \<Rightarrow> byte list option option" where
  "guac_common_ssh_sftp_translate_name root_path name =
     (case guac_common_ssh_sftp_normalize_path name of
        None \<Rightarrow> Some None
      | Some normalized_name \<Rightarrow> guac_ssh_append_path root_path normalized_name)"

lemma sftp_normalized:
  assumes "guac_common_ssh_sftp_normalize_path path = Some abs_path"
  shows "\<exists>cs. abs_path = slash # join_strings [slash] cs \<and> list_all (safe_component (\<lambda>_. False)) cs \<and> length abs_path < 2048"
proof -
  obtain r where r: "path_components 2048 1024 (\<lambda>_. False) path = Some r"
    and a: "abs_path = slash # fst (guac_strljoin r [slash] 2047)"
    using assms by (auto simp: guac_common_ssh_sftp_normalize_path_def)
  from path_components_spec[OF r, of slash] have
    safe: "list_all (safe_component (\<lambda>_. False)) r" and "length (join_strings [slash] r) < 2047"
    by auto
  then have "abs_path = slash # join_strings [slash] r"
    unfolding a using strljoin_spec[of 2047 r "[slash]"] by simp
  with safe \<open>length (join_strings [slash] r) < 2047\<close> show ?thesis by auto
qed

lemma safe_join_start:
  assumes "list_all (safe_component illegal) cs"
  shows "dropWhile (\<lambda>c. c = slash) (join_strings [slash] cs) = join_strings [slash] cs"
proof (cases cs)
  case (Cons c cs')
  then have "c \<noteq> []" "hd c \<noteq> slash" using assms hd_in_set[of c] by (auto simp: safe_component_def is_separator_def)
  then show ?thesis using Cons by (cases c) (simp_all add: join_strings_Cons)
qed simp

lemma safe_join_end:
  assumes "list_all (safe_component illegal) cs" and "cs \<noteq> []"
  shows "join_strings [slash] cs \<noteq> [] \<and> last (join_strings [slash] cs) \<noteq> slash"
  using assms
proof (induction cs rule: induct_list012)
  case (2 c)
  then show ?case using last_in_set[of c] by (auto simp: safe_component_def is_separator_def)
next
  case (3 c c' cs)
  then show ?case by simp
qed simp

lemma join_append:
  "cs \<noteq> [] \<Longrightarrow> ds \<noteq> [] \<Longrightarrow> join_strings [s] (cs @ ds) = join_strings [s] cs @ s # join_strings [s] ds"
  by (induction cs rule: induct_list012) (auto simp: neq_Nil_conv join_strings_Cons)

text \<open>
  C35. For any stream name the translation stays within its buffer, and the path it gives, if any, is
  that of the root of the filesystem followed by components none of which is empty, refers to a
  directory by dots or has a separator.
\<close>

theorem sftp_confines_paths:
  assumes "guac_common_ssh_sftp_normalize_path root = Some root_path"
  shows "\<exists>result. guac_common_ssh_sftp_translate_name root_path name = Some result
    \<and> (\<forall>path. result = Some path \<longrightarrow> length path < 2048 \<and>
         (\<exists>rs cs. root_path = slash # join_strings [slash] rs \<and> list_all (safe_component (\<lambda>_. False)) cs
           \<and> (if cs = [] \<and> rs \<noteq> [] then path = root_path @ [slash] else path = slash # join_strings [slash] (rs @ cs))))"
proof (cases "guac_common_ssh_sftp_normalize_path name")
  case None
  then show ?thesis by (simp add: guac_common_ssh_sftp_translate_name_def)
next
  case (Some n)
  from sftp_normalized[OF assms] obtain rs where rs: "root_path = slash # join_strings [slash] rs"
    "list_all (safe_component (\<lambda>_. False)) rs" "length root_path < 2048"
    by blast
  from sftp_normalized[OF Some] obtain cs where cs: "n = slash # join_strings [slash] cs"
    "list_all (safe_component (\<lambda>_. False)) cs"
    by blast
  have skip: "dropWhile (\<lambda>c. c = slash) n = join_strings [slash] cs"
    using safe_join_start[OF cs(2)] by (simp add: cs(1))
  define base where "base = (if rs = [] then root_path else root_path @ [slash])"
  have ends: "last root_path \<noteq> slash \<longleftrightarrow> rs \<noteq> []"
    using safe_join_end[OF rs(2)] by (auto simp: rs(1))
  have start: "strlcpy_at ([], 0) root_path 2048 = (root_path, length root_path)"
    using rs(3) by (simp add: strlcpy_at_def guac_strlcpy_def)
  have sep: "(if length root_path = 0 \<or> last root_path \<noteq> slash then strlcpy_next (root_path, length root_path) [slash] 2048
      else Some (root_path, length root_path)) = Some (take 2047 base, length base)"
    using ends rs(1,3) by (auto simp: strlcpy_next_def strlcpy_at_def guac_strlcpy_def base_def)
  have lim: "length base \<le> 2048" using rs(3) by (simp add: base_def)
  let ?path = "base @ join_strings [slash] cs"
  have fits: "\<not> 2048 \<le> length root_path" using rs(3) by simp
  have rest: "strlcpy_next (take 2047 base, length base) (join_strings [slash] cs) 2048 =
      Some (take (length base) (take 2047 base) @ take (2048 - length base - 1) (join_strings [slash] cs), length ?path)"
    using lim by (simp add: strlcpy_next_def strlcpy_at_def guac_strlcpy_def)
  have "guac_ssh_append_path root_path n = Some (if length ?path \<ge> 2048 then None else Some ?path)"
    unfolding guac_ssh_append_path_def Let_def start fst_conv snd_conv if_not_P[OF fits] sep skip option.case rest prod.case
    by simp
  then have tr: "guac_common_ssh_sftp_translate_name root_path name = Some (if length ?path \<ge> 2048 then None else Some ?path)"
    by (simp add: guac_common_ssh_sftp_translate_name_def Some)
  have "if cs = [] \<and> rs \<noteq> [] then ?path = root_path @ [slash] else ?path = slash # join_strings [slash] (rs @ cs)"
    using join_append[of rs cs slash] by (auto simp: base_def rs(1))
  then have path: "\<exists>rs cs. root_path = slash # join_strings [slash] rs \<and> list_all (safe_component (\<lambda>_. False)) cs
      \<and> (if cs = [] \<and> rs \<noteq> [] then ?path = root_path @ [slash] else ?path = slash # join_strings [slash] (rs @ cs))"
    using rs(1) cs(2) by blast
  show ?thesis
  proof (rule exI, rule conjI[OF tr], intro allI impI)
    fix path assume "(if length ?path \<ge> 2048 then None else Some ?path) = Some path"
    then have p: "path = ?path" "length path < 2048" by (auto split: if_splits)
    show "length path < 2048 \<and> (\<exists>rs cs. root_path = slash # join_strings [slash] rs \<and> list_all (safe_component (\<lambda>_. False)) cs
        \<and> (if cs = [] \<and> rs \<noteq> [] then path = root_path @ [slash] else path = slash # join_strings [slash] (rs @ cs)))"
      using p(2) path unfolding p(1) by (rule conjI)
  qed
qed

theorem sftp_confines_paths_witness:
  "\<exists>rs cs. cstr ''/home'' = slash # join_strings [slash] rs
     \<and> (if cs = [] \<and> rs \<noteq> [] then cstr ''/home/a'' = cstr ''/home'' @ [slash] else cstr ''/home/a'' = slash # join_strings [slash] (rs @ cs))"
proof -
  have "guac_common_ssh_sftp_normalize_path (cstr ''/home'') = Some (cstr ''/home'')"
    "guac_common_ssh_sftp_translate_name (cstr ''/home'') (cstr ''/../a'') = Some (Some (cstr ''/home/a''))"
    by (simp_all add: guac_common_ssh_sftp_translate_name_def guac_ssh_append_path_def Let_def
        guac_common_ssh_sftp_normalize_path_def path_components_def is_separator_def guac_strlcpy_def path_component_def
        guac_strljoin_def guac_strlcat_def strlcpy_next_def strlcpy_at_def cstr_def)
  note n = this
  obtain result where r: "guac_common_ssh_sftp_translate_name (cstr ''/home'') (cstr ''/../a'') = Some result"
    "\<forall>path. result = Some path \<longrightarrow> length path < 2048 \<and>
         (\<exists>rs cs. cstr ''/home'' = slash # join_strings [slash] rs \<and> list_all (safe_component (\<lambda>_. False)) cs
           \<and> (if cs = [] \<and> rs \<noteq> [] then path = cstr ''/home'' @ [slash] else path = slash # join_strings [slash] (rs @ cs)))"
    using sftp_confines_paths[OF n(1), of "cstr ''/../a''"] by blast
  from r(1) n(2) have "result = Some (cstr ''/home/a'')" by simp
  with r(2) show ?thesis by blast
qed

end
