(* ===== verification/Common_Json.thy ===== *)
theory Common_Json
  imports Guac_Prelude
begin

text \<open>
  The JSON objects that directory listings are sent as (\<open>src/common/json.c\<close>). The buffer is the list of
  its \<open>size\<close> bytes in use; \<open>sent\<close> is the list of the blobs that have been sent on the stream.
\<close>

section \<open>Definitions\<close>

abbreviation (input) JSON_BUFFER_SIZE :: nat where "JSON_BUFFER_SIZE \<equiv> 4096"

record guac_common_json_state =
  json_buffer :: "byte list"
  json_properties_written :: int

type_synonym json = "byte list list \<times> guac_common_json_state"

definition guac_common_json_flush :: "json \<Rightarrow> json" where
  "guac_common_json_flush j =
     (case j of (sent, st) \<Rightarrow>
        if json_buffer st \<noteq> [] then (sent @ [json_buffer st], st\<lparr>json_buffer := []\<rparr>) else (sent, st))"

text \<open>The operations say whether a blob was sent.\<close>

function json_write_loop :: "bool \<Rightarrow> byte list \<Rightarrow> json \<Rightarrow> bool \<times> json" where
  "json_write_loop blob_written buf j =
     (if buf = [] then (blob_written, j)
      else
        (let blob = take JSON_BUFFER_SIZE buf;
             full = length (json_buffer (snd j)) + length blob > JSON_BUFFER_SIZE;
             j = (if full then guac_common_json_flush j else j);
             j = (fst j, (snd j)\<lparr>json_buffer := json_buffer (snd j) @ blob\<rparr>)
         in json_write_loop (blob_written \<or> full) (drop JSON_BUFFER_SIZE buf) j))"
  by pat_completeness auto
termination by (relation "measure (\<lambda>(b, buf, j). length buf)") auto

declare json_write_loop.simps [simp del]

definition guac_common_json_write :: "byte list \<Rightarrow> json \<Rightarrow> bool \<times> json" where
  "guac_common_json_write buf j = json_write_loop False buf j"

text \<open>One write after another; the results are combined with \<open>|=\<close>.\<close>

definition and_write :: "byte list \<Rightarrow> bool \<times> json \<Rightarrow> bool \<times> json" where
  "and_write buf st =
     (case guac_common_json_write buf (snd st) of (written, j) \<Rightarrow> (fst st \<or> written, j))"

text \<open>The loop of \<open>guac_common_json_write_string\<close>; \<open>str\<close> holds the characters from \<open>str\<close> up to the current one.\<close>

primrec json_string_loop :: "byte list \<Rightarrow> byte list \<Rightarrow> bool \<times> json \<Rightarrow> bool \<times> json" where
  "json_string_loop [] str st = (if str \<noteq> [] then and_write str st else st)"
| "json_string_loop (c # cs) str st =
     (if c = 34
      then json_string_loop cs [c] (and_write [92] (if str \<noteq> [] then and_write str st else st))
      else json_string_loop cs (str @ [c]) st)"

definition guac_common_json_write_string :: "byte list \<Rightarrow> json \<Rightarrow> bool \<times> json" where
  "guac_common_json_write_string str j = and_write [34] (json_string_loop str [] (and_write [34] (False, j)))"

definition and_string :: "byte list \<Rightarrow> bool \<times> json \<Rightarrow> bool \<times> json" where
  "and_string str st =
     (case guac_common_json_write_string str (snd st) of (written, j) \<Rightarrow> (fst st \<or> written, j))"

definition guac_common_json_write_property :: "byte list \<Rightarrow> byte list \<Rightarrow> json \<Rightarrow> bool \<times> json" where
  "guac_common_json_write_property name v j =
     (let st = (if json_properties_written (snd j) \<noteq> 0 then and_write [44] (False, j) else (False, j));
          (written, j) = and_string v (and_write [58] (and_string name st))
      in (written, (fst j, (snd j)\<lparr>json_properties_written := json_properties_written (snd j) + 1\<rparr>)))"

definition guac_common_json_begin_object :: "byte list list \<Rightarrow> json" where
  "guac_common_json_begin_object sent =
     snd (guac_common_json_write [123] (sent, \<lparr>json_buffer = [], json_properties_written = 0\<rparr>))"

definition guac_common_json_end_object :: "json \<Rightarrow> bool \<times> json" where
  "guac_common_json_end_object j = guac_common_json_write [125] j"

section \<open>What is written\<close>

text \<open>The bytes of the object so far, and the sizes of the blobs.\<close>

definition json_bytes :: "json \<Rightarrow> byte list" where
  "json_bytes j = concat (fst j) @ json_buffer (snd j)"

definition json_ok :: "json \<Rightarrow> bool" where
  "json_ok j \<longleftrightarrow> length (json_buffer (snd j)) \<le> 4096 \<and> (\<forall>b \<in> set (fst j). b \<noteq> [] \<and> length b \<le> 4096)"

lemma json_write_loop_spec:
  assumes "json_ok j"
  shows "json_ok (snd (json_write_loop w buf j))
    \<and> json_bytes (snd (json_write_loop w buf j)) = json_bytes j @ buf
    \<and> json_properties_written (snd (snd (json_write_loop w buf j))) = json_properties_written (snd j)
    \<and> (\<not> fst (json_write_loop w buf j) \<longrightarrow> \<not> w \<and> fst (snd (json_write_loop w buf j)) = fst j)"
  using assms
proof (induction w buf j rule: json_write_loop.induct)
  case (1 w buf j)
  show ?case
  proof (cases "buf = []")
    case True
    then show ?thesis using "1.prems" by (subst (1 2 3 4 5) json_write_loop.simps) simp
  next
    case False
    let ?blob = "take 4096 buf"
    let ?full = "length (json_buffer (snd j)) + length ?blob > 4096"
    let ?j1 = "if ?full then guac_common_json_flush j else j"
    let ?j2 = "(fst ?j1, (snd ?j1)\<lparr>json_buffer := json_buffer (snd ?j1) @ ?blob\<rparr>)"
    have ok: "json_ok ?j2" using "1.prems"
      by (cases j) (auto simp: json_ok_def guac_common_json_flush_def)
    have bytes: "json_bytes ?j2 = json_bytes j @ ?blob"
      by (cases j) (auto simp: json_bytes_def guac_common_json_flush_def)
    have props: "json_properties_written (snd ?j2) = json_properties_written (snd j)"
      by (cases j) (auto simp: guac_common_json_flush_def)
    have eq: "json_write_loop w buf j = json_write_loop (w \<or> ?full) (drop 4096 buf) ?j2"
      using False by (subst json_write_loop.simps) (simp add: Let_def)
    note IH = "1.IH"[OF False refl refl refl refl ok]
    show ?thesis unfolding eq using IH bytes props by auto
  qed
qed

text \<open>A step of the writing that has written some bytes.\<close>

definition wrote :: "byte list \<Rightarrow> bool \<times> json \<Rightarrow> bool \<times> json \<Rightarrow> bool" where
  "wrote bytes st st' \<longleftrightarrow> json_ok (snd st') \<and> json_bytes (snd st') = json_bytes (snd st) @ bytes
     \<and> json_properties_written (snd (snd st')) = json_properties_written (snd (snd st))
     \<and> (\<not> fst st' \<longrightarrow> \<not> fst st \<and> fst (snd st') = fst (snd st))"

lemma wrote_trans: "wrote a s t \<Longrightarrow> wrote b t u \<Longrightarrow> wrote (a @ b) s u"
  by (auto simp: wrote_def)

lemma and_write_wrote: "json_ok (snd st) \<Longrightarrow> wrote buf st (and_write buf st)"
  using json_write_loop_spec[of "snd st" False buf]
  by (cases st) (auto simp: wrote_def and_write_def guac_common_json_write_def split: prod.splits)

text \<open>Quotes are escaped, and nothing else.\<close>

definition json_escape :: "byte list \<Rightarrow> byte list" where
  "json_escape s = concat (map (\<lambda>c. if c = 34 then [92, 34] else [c]) s)"

lemma wrote_ok: "wrote b s t \<Longrightarrow> json_ok (snd t)"
  by (simp add: wrote_def)

lemma wrote_same: "wrote a s t \<Longrightarrow> a = b \<Longrightarrow> wrote b s t"
  by simp

lemma json_string_loop_wrote:
  assumes "json_ok (snd st)"
  shows "wrote (str @ json_escape cs) st (json_string_loop cs str st)"
  using assms
proof (induction cs arbitrary: str st)
  case Nil
  then show ?case using and_write_wrote[of st str] by (auto simp: json_escape_def wrote_def)
next
  case (Cons c cs)
  show ?case
  proof (cases "c = 34")
    case True
    have 1: "wrote str st (if str \<noteq> [] then and_write str st else st)"
      using and_write_wrote[OF Cons.prems, of str] Cons.prems by (auto simp: wrote_def)
    note 2 = and_write_wrote[OF wrote_ok[OF 1], of "[92]"]
    note 3 = Cons.IH[OF wrote_ok[OF 2], of "[c]"]
    show ?thesis
      using wrote_trans[OF 1 wrote_trans[OF 2 3]] True by (simp add: json_escape_def)
  next
    case False
    then show ?thesis using Cons.IH[OF Cons.prems, of "str @ [c]"] by (simp add: json_escape_def)
  qed
qed

definition json_string :: "byte list \<Rightarrow> byte list" where
  "json_string s = [34] @ json_escape s @ [34]"

lemma and_string_wrote:
  assumes "json_ok (snd st)"
  shows "wrote (json_string s) st (and_string s st)"
proof -
  note 1 = and_write_wrote[of "(False, snd st)" "[34]", unfolded snd_conv, OF assms]
  note 2 = json_string_loop_wrote[OF wrote_ok[OF 1], of "[]" s]
  note 3 = and_write_wrote[OF wrote_ok[OF 2], of "[34]"]
  have "wrote (json_string s) (False, snd st) (guac_common_json_write_string s (snd st))"
    using wrote_trans[OF wrote_trans[OF 1 2] 3] by (simp add: json_string_def guac_common_json_write_string_def)
  then show ?thesis
    by (cases "guac_common_json_write_string s (snd st)") (auto simp: wrote_def and_string_def)
qed

definition json_member :: "byte list \<times> byte list \<Rightarrow> byte list" where
  "json_member p = json_string (fst p) @ [58] @ json_string (snd p)"

lemma json_property_wrote:
  assumes "json_ok j"
  shows "\<exists>w j'. guac_common_json_write_property name v j = (w, j') \<and> json_ok j'
    \<and> json_bytes j' = json_bytes j @ (if json_properties_written (snd j) \<noteq> 0 then [44] else []) @ json_member (name, v)
    \<and> json_properties_written (snd j') = json_properties_written (snd j) + 1
    \<and> (\<not> w \<longrightarrow> fst j' = fst j)"
proof -
  let ?c = "if json_properties_written (snd j) \<noteq> 0 then [44 :: byte] else []"
  let ?s0 = "if json_properties_written (snd j) \<noteq> 0 then and_write [44] (False, j) else (False, j)"
  have 0: "wrote ?c (False, j) ?s0" using and_write_wrote[of "(False, j)" "[44]"] assms by (auto simp: wrote_def)
  note 1 = and_string_wrote[OF wrote_ok[OF 0], of name]
  note 2 = and_write_wrote[OF wrote_ok[OF 1], of "[58]"]
  note 3 = and_string_wrote[OF wrote_ok[OF 2], of v]
  obtain w j1 where r: "and_string v (and_write [58] (and_string name ?s0)) = (w, j1)" by (meson surj_pair)
  have "wrote (?c @ json_member (name, v)) (False, j) (w, j1)"
    using wrote_trans[OF wrote_trans[OF wrote_trans[OF 0 1] 2] 3] by (simp add: r json_member_def)
  then have all: "json_ok j1" "json_bytes j1 = json_bytes j @ ?c @ json_member (name, v)"
    "json_properties_written (snd j1) = json_properties_written (snd j)" "\<not> w \<longrightarrow> fst j1 = fst j"
    by (auto simp: wrote_def)
  have "guac_common_json_write_property name v j =
      (w, (fst j1, (snd j1)\<lparr>json_properties_written := json_properties_written (snd j1) + 1\<rparr>))"
    unfolding guac_common_json_write_property_def Let_def r by simp
  with all show ?thesis by (simp add: json_ok_def json_bytes_def)
qed

section \<open>Whole objects\<close>

text \<open>An object with the given properties, and the blobs it is sent in.\<close>

definition json_properties :: "(byte list \<times> byte list) list \<Rightarrow> json \<Rightarrow> json" where
  "json_properties ps j = fold (\<lambda>(name, v) j. snd (guac_common_json_write_property name v j)) ps j"

definition json_object :: "(byte list \<times> byte list) list \<Rightarrow> byte list list" where
  "json_object ps =
     fst (guac_common_json_flush (snd (guac_common_json_end_object
       (json_properties ps (guac_common_json_begin_object [])))))"

fun json_members :: "(byte list \<times> byte list) list \<Rightarrow> byte list" where
  "json_members [] = []"
| "json_members [p] = json_member p"
| "json_members (p # ps) = json_member p @ [44] @ json_members ps"

lemma json_members_Cons: "json_members (p # ps) = json_member p @ concat (map (\<lambda>q. [44] @ json_member q) ps)"
  by (induction ps arbitrary: p) auto

lemma json_properties_spec:
  assumes "json_ok j" and "0 \<le> json_properties_written (snd j)"
  shows "json_ok (json_properties ps j) \<and> json_bytes (json_properties ps j) = json_bytes j @
    (if json_properties_written (snd j) \<noteq> 0 then concat (map (\<lambda>q. [44] @ json_member q) ps) else json_members ps)"
  using assms
proof (induction ps arbitrary: j)
  case (Cons p ps)
  obtain name v where p: "p = (name, v)" by fastforce
  obtain w j1 where j1: "guac_common_json_write_property name v j = (w, j1)" "json_ok j1"
    "json_bytes j1 = json_bytes j @ (if json_properties_written (snd j) \<noteq> 0 then [44] else []) @ json_member (name, v)"
    "json_properties_written (snd j1) = json_properties_written (snd j) + 1"
    using json_property_wrote[OF Cons.prems(1), of name v] by blast
  from Cons.IH[of j1] j1 Cons.prems(2)
  show ?case by (simp add: json_properties_def p json_members_Cons del: json_members.simps)
qed (simp add: json_properties_def)

lemma json_object_bytes:
  "concat (json_object ps) = [123] @ json_members ps @ [125] \<and> (\<forall>b \<in> set (json_object ps). b \<noteq> [] \<and> length b \<le> 4096)"
proof -
  have start: "wrote [123] (False, ([], \<lparr>json_buffer = [], json_properties_written = 0\<rparr>))
      (and_write [123] (False, ([], \<lparr>json_buffer = [], json_properties_written = 0\<rparr>)))"
    by (rule and_write_wrote) (simp add: json_ok_def)
  let ?b = "guac_common_json_begin_object []"
  have b: "json_ok ?b" "json_bytes ?b = [123]" "json_properties_written (snd ?b) = 0"
    using start by (auto simp: wrote_def guac_common_json_begin_object_def and_write_def json_bytes_def split: prod.splits)
  let ?p = "json_properties ps ?b"
  have p: "json_ok ?p" "json_bytes ?p = [123] @ json_members ps"
    using json_properties_spec[OF b(1), of ps] b(2,3) by simp_all
  let ?e = "snd (guac_common_json_end_object ?p)"
  have e: "json_ok ?e" "json_bytes ?e = [123] @ json_members ps @ [125]"
    using and_write_wrote[of "(False, ?p)" "[125]"] p
    by (auto simp: wrote_def guac_common_json_end_object_def and_write_def split: prod.splits)
  then show ?thesis
    by (cases ?e) (auto simp: json_object_def guac_common_json_flush_def json_bytes_def json_ok_def)
qed

section \<open>Reading it again\<close>

text \<open>A reader of objects whose values are strings, with the escapes of a quote and a backslash.\<close>

fun read_string :: "byte list \<Rightarrow> (byte list \<times> byte list) option" where
  "read_string [] = None"
| "read_string (c # cs) =
     (if c = 34 then Some ([], cs)
      else if c = 92
      then (case cs of
              d # ds \<Rightarrow> if d = 34 \<or> d = 92 then map_option (\<lambda>(s, rest). (d # s, rest)) (read_string ds) else None
            | [] \<Rightarrow> None)
      else map_option (\<lambda>(s, rest). (c # s, rest)) (read_string cs))"

fun read_quoted :: "byte list \<Rightarrow> (byte list \<times> byte list) option" where
  "read_quoted (c # cs) = (if c = 34 then read_string cs else None)"
| "read_quoted [] = None"

primrec read_members :: "nat \<Rightarrow> byte list \<Rightarrow> (byte list \<times> byte list) list option" where
  "read_members 0 s = None"
| "read_members (Suc n) s =
     (case read_quoted s of
        Some (name, c # s) \<Rightarrow>
          (if c \<noteq> 58 then None
           else
             (case read_quoted s of
                Some (v, d # s) \<Rightarrow>
                  (if d = 44 then map_option (\<lambda>ps. (name, v) # ps) (read_members n s)
                   else if d = 125 \<and> s = [] then Some [(name, v)] else None)
              | _ \<Rightarrow> None))
      | _ \<Rightarrow> None)"

definition read_object :: "byte list \<Rightarrow> (byte list \<times> byte list) list option" where
  "read_object s = (if s = [123, 125] then Some [] else if s = [] \<or> hd s \<noteq> 123 then None else read_members (length s) (tl s))"

lemma read_escaped: "92 \<notin> set s \<Longrightarrow> read_string (json_escape s @ 34 # rest) = Some (s, rest)"
  by (induction s) (auto simp: json_escape_def)

lemma read_quoted_string: "92 \<notin> set s \<Longrightarrow> read_quoted (json_string s @ rest) = Some (s, rest)"
  using read_escaped[of s rest] by (simp add: json_string_def)

lemma read_members_spec:
  assumes "ps \<noteq> []" and "\<forall>(name, v) \<in> set ps. 92 \<notin> set name \<and> 92 \<notin> set v" and "length ps \<le> n"
  shows "read_members n (json_members ps @ [125]) = Some ps"
  using assms
proof (induction ps arbitrary: n rule: json_members.induct)
  case (2 p)
  then obtain m where "n = Suc m" by (cases n) auto
  with 2 show ?case
    by (cases p) (simp add: json_member_def read_quoted_string)
next
  case (3 p p' ps)
  then obtain m where m: "n = Suc m" by (cases n) auto
  have "read_members m (json_members (p' # ps) @ [125]) = Some (p' # ps)"
    by (rule "3.IH") (use "3.prems" m in auto)
  with 3 m show ?case by (cases p) (simp add: json_member_def read_quoted_string)
qed simp

lemma json_members_length: "length ps \<le> length (json_members ps)"
  by (induction ps rule: json_members.induct) (auto simp: json_member_def json_string_def)

text \<open>
  C39. However an object is cut into blobs, each has between one and 4096 bytes, and together they are read
  back as the properties that were written, provided that no name and no value has a backslash.
\<close>

theorem json_object_read_back:
  assumes "\<forall>(name, v) \<in> set ps. 92 \<notin> set name \<and> 92 \<notin> set v"
  shows "read_object (concat (json_object ps)) = Some ps \<and> (\<forall>b \<in> set (json_object ps). b \<noteq> [] \<and> length b \<le> 4096)"
proof (cases "ps = []")
  case True
  then show ?thesis using json_object_bytes[of ps] by (simp add: read_object_def)
next
  case False
  have "length ps \<le> length (concat (json_object ps))"
    using json_object_bytes[of ps] json_members_length[of ps] by simp
  moreover have "json_members ps \<noteq> []" using False by (cases ps) (auto simp: json_members_Cons json_member_def json_string_def)
  ultimately show ?thesis
    using json_object_bytes[of ps] read_members_spec[OF False assms, of "length (concat (json_object ps))"]
    by (simp add: read_object_def)
qed

theorem json_object_read_back_witness:
  "read_object (concat (json_object [(cstr ''/a'', [34, 98]), ([], cstr ''x'')])) = Some [(cstr ''/a'', [34, 98]), ([], cstr ''x'')]"
  using json_object_read_back[of "[(cstr ''/a'', [34, 98]), ([], cstr ''x'')]"] by (simp add: cstr_def)

text \<open>A backslash is not escaped, so that it swallows the quote behind it.\<close>

lemma json_backslash_breaks: "read_object (concat (json_object [([92], [])])) = None"
proof -
  have "concat (json_object [([92], [])]) = [123, 34, 92, 34, 58, 34, 34, 125]"
    using json_object_bytes[of "[([92], [])]"] by (simp add: json_member_def json_string_def json_escape_def)
  then show ?thesis by (simp add: read_object_def)
qed

end
