(* ===== verification/Common_List.thy ===== *)
theory Common_List
  imports Guac_Prelude
begin

text \<open>
  Linked lists whose elements point back at the pointer that leads to them (\<open>src/common/list.c\<close>). The
  elements are objects of a store, named by their addresses; an element also holds the place of the pointer to it, which
  is the head of the list or the field \<open>next\<close> of another element. The lock is not part of the state.
  Memory for elements is granted: the code does not check it.
\<close>

section \<open>Definitions\<close>

datatype pointer_place = at_head | at_next nat

record 'd guac_common_list_element =
  element_data :: 'd
  element_next :: "nat option"
  element_ptr :: pointer_place

record 'd guac_common_list =
  list_head :: "nat option"
  list_elements :: "nat \<Rightarrow> 'd guac_common_list_element option"

definition guac_common_list_alloc :: "'d guac_common_list" where
  "guac_common_list_alloc = \<lparr>list_head = None, list_elements = \<lambda>_. None\<rparr>"

text \<open>A change of an element; using one that does not exist is undefined.\<close>

definition update_element ::
    "nat \<Rightarrow> ('d guac_common_list_element \<Rightarrow> 'd guac_common_list_element) \<Rightarrow> 'd guac_common_list \<Rightarrow> 'd guac_common_list option" where
  "update_element a f l =
     map_option (\<lambda>e. l\<lparr>list_elements := (list_elements l)(a := Some (f e))\<rparr>) (list_elements l a)"

definition store_pointer :: "pointer_place \<Rightarrow> nat option \<Rightarrow> 'd guac_common_list \<Rightarrow> 'd guac_common_list option" where
  "store_pointer p a l =
     (case p of
        at_head \<Rightarrow> Some (l\<lparr>list_head := a\<rparr>)
      | at_next b \<Rightarrow> update_element b (\<lambda>e. e\<lparr>element_next := a\<rparr>) l)"

definition set_back :: "nat option \<Rightarrow> pointer_place \<Rightarrow> 'd guac_common_list \<Rightarrow> 'd guac_common_list option" where
  "set_back a p l = (case a of None \<Rightarrow> Some l | Some b \<Rightarrow> update_element b (\<lambda>e. e\<lparr>element_ptr := p\<rparr>) l)"

text \<open>\<open>a\<close> is the address that \<open>malloc\<close> gives.\<close>

definition guac_common_list_add :: "nat \<Rightarrow> 'd \<Rightarrow> 'd guac_common_list \<Rightarrow> 'd guac_common_list option" where
  "guac_common_list_add a d l =
     (let e = \<lparr>element_data = d, element_next = list_head l, element_ptr = at_head\<rparr>;
          l1 = l\<lparr>list_elements := (list_elements l)(a := Some e)\<rparr>
      in map_option (\<lambda>l. l\<lparr>list_head := Some a\<rparr>) (set_back (list_head l1) (at_next a) l1))"

definition guac_common_list_remove :: "nat \<Rightarrow> 'd guac_common_list \<Rightarrow> 'd guac_common_list option" where
  "guac_common_list_remove a l =
     (case list_elements l a of
        None \<Rightarrow> None
      | Some e \<Rightarrow>
          (case store_pointer (element_ptr e) (element_next e) l of
             None \<Rightarrow> None
           | Some l \<Rightarrow>
               (case set_back (element_next e) (element_ptr e) l of
                  None \<Rightarrow> None
                | Some l \<Rightarrow> Some (l\<lparr>list_elements := (list_elements l)(a := None)\<rparr>))))"

text \<open>The data that following the pointers gives, up to a number of elements.\<close>

primrec list_walk :: "nat \<Rightarrow> nat option \<Rightarrow> 'd guac_common_list \<Rightarrow> (nat \<times> 'd) list" where
  "list_walk 0 p l = []"
| "list_walk (Suc n) p l =
     (case p of
        None \<Rightarrow> []
      | Some a \<Rightarrow>
          (case list_elements l a of
             None \<Rightarrow> []
           | Some e \<Rightarrow> (a, element_data e) # list_walk n (element_next e) l))"

section \<open>Lists of addresses\<close>

text \<open>The pointer \<open>p\<close>, which is stored at \<open>place\<close>, leads along the elements \<open>xs\<close>.\<close>

primrec linked ::
    "(nat \<Rightarrow> 'd guac_common_list_element option) \<Rightarrow> pointer_place \<Rightarrow> nat option \<Rightarrow> (nat \<times> 'd) list \<Rightarrow> bool" where
  "linked st place p [] \<longleftrightarrow> p = None"
| "linked st place p (x # xs) \<longleftrightarrow> p = Some (fst x) \<and>
     (\<exists>n. st (fst x) = Some \<lparr>element_data = snd x, element_next = n, element_ptr = place\<rparr> \<and> linked st (at_next (fst x)) n xs)"

definition represents :: "'d guac_common_list \<Rightarrow> (nat \<times> 'd) list \<Rightarrow> bool" where
  "represents l xs \<longleftrightarrow> linked (list_elements l) at_head (list_head l) xs \<and> distinct (map fst xs)
     \<and> dom (list_elements l) = fst ` set xs"

lemma linked_other:
  "a \<notin> fst ` set xs \<Longrightarrow> linked (st(a := e)) place p xs = linked st place p xs"
  by (induction xs arbitrary: place p) auto

lemma linked_walk: "linked (list_elements l) place p xs \<Longrightarrow> list_walk (length xs) p l = xs"
  by (induction xs arbitrary: place p) auto

lemma linked_place:
  assumes "linked st place p xs" and "distinct (map fst xs)"
  shows "case xs of [] \<Rightarrow> True | x # _ \<Rightarrow> \<exists>e. st (fst x) = Some e \<and> element_ptr e = place
    \<and> linked (st(fst x := Some (e\<lparr>element_ptr := place'\<rparr>))) place' p xs"
  using assms by (cases xs) (auto simp: linked_other)

lemma add_represents:
  assumes "represents l xs" and "list_elements l a = None"
  shows "\<exists>l'. guac_common_list_add a d l = Some l' \<and> represents l' ((a, d) # xs)"
proof -
  let ?e = "\<lparr>element_data = d, element_next = list_head l, element_ptr = at_head\<rparr>"
  let ?st = "(list_elements l)(a := Some ?e)"
  have fresh: "a \<notin> fst ` set xs" using assms unfolding represents_def by (metis domIff)
  have l: "linked ?st at_head (list_head l) xs" using assms(1) fresh by (simp add: represents_def linked_other)
  have dist: "distinct (map fst xs)" and dom: "dom (list_elements l) = fst ` set xs" using assms(1) by (simp_all add: represents_def)
  show ?thesis
  proof (cases xs)
    case Nil
    then show ?thesis using l dom by (auto simp: guac_common_list_add_def set_back_def Let_def represents_def)
  next
    case (Cons x ys)
    from linked_place[OF l dist, of "at_next a"] Cons obtain e where
      e: "?st (fst x) = Some e" "linked (?st(fst x := Some (e\<lparr>element_ptr := at_next a\<rparr>))) (at_next a) (list_head l) xs"
      by auto
    have h: "list_head l = Some (fst x)" using l Cons by simp
    have ne: "fst x \<noteq> a" using fresh Cons by auto
    let ?l' = "l\<lparr>list_elements := ?st(fst x := Some (e\<lparr>element_ptr := at_next a\<rparr>)), list_head := Some a\<rparr>"
    have "guac_common_list_add a d l = Some ?l'"
      using e(1) ne by (simp add: guac_common_list_add_def set_back_def update_element_def Let_def h)
    moreover have "represents ?l' ((a, d) # xs)"
      using e fresh dist dom ne Cons by (auto simp: represents_def)
    ultimately show ?thesis by blast
  qed
qed

text \<open>A part of a list, from one pointer to another.\<close>

primrec segment ::
    "(nat \<Rightarrow> 'd guac_common_list_element option) \<Rightarrow> pointer_place \<Rightarrow> nat option \<Rightarrow> (nat \<times> 'd) list
      \<Rightarrow> pointer_place \<Rightarrow> nat option \<Rightarrow> bool" where
  "segment st place p [] place' p' \<longleftrightarrow> place' = place \<and> p' = p"
| "segment st place p (x # xs) place' p' \<longleftrightarrow> p = Some (fst x) \<and>
     (\<exists>n. st (fst x) = Some \<lparr>element_data = snd x, element_next = n, element_ptr = place\<rparr>
        \<and> segment st (at_next (fst x)) n xs place' p')"

lemma linked_append:
  "linked st place p (ys @ zs) \<longleftrightarrow> (\<exists>place' p'. segment st place p ys place' p' \<and> linked st place' p' zs)"
  by (induction ys arbitrary: place p) auto

lemma segment_append:
  "segment st place p (ys @ zs) place' p' \<longleftrightarrow> (\<exists>q q'. segment st place p ys q q' \<and> segment st q q' zs place' p')"
  by (induction ys arbitrary: place p) auto

lemma segment_other:
  "a \<notin> fst ` set xs \<Longrightarrow> segment (st(a := e)) place p xs place' p' = segment st place p xs place' p'"
  by (induction xs arbitrary: place p) auto

text \<open>Storing to the pointer behind a part of a list.\<close>

lemma store_behind:
  assumes "segment (list_elements l) at_head (list_head l) ys place p" and "distinct (map fst ys)"
  shows "\<exists>l1. store_pointer place n l = Some l1 \<and> segment (list_elements l1) at_head (list_head l1) ys place n
    \<and> dom (list_elements l1) = dom (list_elements l) \<and> (\<forall>b. b \<notin> fst ` set ys \<longrightarrow> list_elements l1 b = list_elements l b)"
proof (cases ys rule: rev_cases)
  case Nil
  then show ?thesis using assms(1) by (simp add: store_pointer_def)
next
  case (snoc xs x)
  then obtain q q' m where q: "segment (list_elements l) at_head (list_head l) xs q q'" "q' = Some (fst x)"
    "list_elements l (fst x) = Some \<lparr>element_data = snd x, element_next = m, element_ptr = q\<rparr>" "place = at_next (fst x)"
    using assms(1) by (auto simp: segment_append)
  have "fst x \<notin> fst ` set xs" using assms(2) snoc by auto
  with q snoc show ?thesis
    by (auto simp: store_pointer_def update_element_def segment_append segment_other)
qed

lemma set_back_linked:
  assumes "linked (list_elements l) place n zs" and "distinct (map fst zs)"
  shows "\<exists>l1. set_back n place' l = Some l1 \<and> linked (list_elements l1) place' n zs \<and> list_head l1 = list_head l
    \<and> dom (list_elements l1) = dom (list_elements l) \<and> (\<forall>b. b \<notin> fst ` set zs \<longrightarrow> list_elements l1 b = list_elements l b)"
proof (cases zs)
  case Nil
  then show ?thesis using assms(1) by (simp add: set_back_def)
next
  case (Cons x xs)
  from linked_place[OF assms, of place'] Cons obtain e where
    "list_elements l (fst x) = Some e" "linked ((list_elements l)(fst x := Some (e\<lparr>element_ptr := place'\<rparr>))) place' n zs"
    by auto
  moreover have "n = Some (fst x)" using assms(1) Cons by simp
  ultimately show ?thesis using Cons by (auto simp: set_back_def update_element_def)
qed

lemma segment_same:
  "(\<And>b. b \<in> fst ` set ys \<Longrightarrow> st' b = st b) \<Longrightarrow> segment st' place p ys place' p' = segment st place p ys place' p'"
  by (induction ys arbitrary: place p) auto

lemma linked_same: "(\<And>b. b \<in> fst ` set zs \<Longrightarrow> st' b = st b) \<Longrightarrow> linked st' place p zs = linked st place p zs"
  by (induction zs arbitrary: place p) auto

lemma remove_represents:
  assumes r: "represents l (ys @ (a, d) # zs)"
  shows "\<exists>l'. guac_common_list_remove a l = Some l' \<and> represents l' (ys @ zs)"
proof -
  have dist: "distinct (map fst (ys @ (a, d) # zs))" and dom: "dom (list_elements l) = fst ` set (ys @ (a, d) # zs)"
    using r by (simp_all add: represents_def)
  obtain place p where seg: "segment (list_elements l) at_head (list_head l) ys place p"
    and lnk: "linked (list_elements l) place p ((a, d) # zs)"
    using r by (auto simp: represents_def linked_append)
  then obtain n where e: "list_elements l a = Some \<lparr>element_data = d, element_next = n, element_ptr = place\<rparr>"
    and tail: "linked (list_elements l) (at_next a) n zs"
    by auto
  from store_behind[OF seg, of n] dist obtain l1 where l1: "store_pointer place n l = Some l1"
    "segment (list_elements l1) at_head (list_head l1) ys place n" "dom (list_elements l1) = dom (list_elements l)"
    "\<And>b. b \<notin> fst ` set ys \<Longrightarrow> list_elements l1 b = list_elements l b"
    by auto
  have apart: "b \<notin> fst ` set ys" if "b \<in> fst ` set zs" for b using dist that by auto
  have tail1: "linked (list_elements l1) (at_next a) n zs"
    using tail l1(4) apart linked_same[of zs "list_elements l1" "list_elements l"] by simp
  from set_back_linked[OF tail1, of place] dist obtain l2 where l2: "set_back n place l1 = Some l2"
    "linked (list_elements l2) place n zs" "list_head l2 = list_head l1" "dom (list_elements l2) = dom (list_elements l1)"
    "\<And>b. b \<notin> fst ` set zs \<Longrightarrow> list_elements l2 b = list_elements l1 b"
    by auto
  let ?l = "l2\<lparr>list_elements := (list_elements l2)(a := None)\<rparr>"
  have out: "a \<notin> fst ` set ys" "a \<notin> fst ` set zs" using dist by auto
  have "segment (list_elements l2) at_head (list_head l2) ys place n"
    using l1(2) l2(3,5) apart segment_same[of ys "list_elements l2" "list_elements l1"] by metis
  then have "represents ?l (ys @ zs)"
    using l2(2) out dist dom l1(3) l2(4) by (auto simp: represents_def linked_append segment_other linked_other)
  moreover have "guac_common_list_remove a l = Some ?l" using e l1(1) l2(1) by (simp add: guac_common_list_remove_def)
  ultimately show ?thesis by blast
qed

section \<open>Sequences of operations\<close>

text \<open>An operation adds a value at a fresh address or removes the element at an address.\<close>

datatype 'd list_op = list_op_add nat 'd | list_op_remove nat

fun list_apply :: "'d list_op \<Rightarrow> 'd guac_common_list \<Rightarrow> 'd guac_common_list option" where
  "list_apply (list_op_add a d) l = guac_common_list_add a d l"
| "list_apply (list_op_remove a) l = guac_common_list_remove a l"

fun abstract_apply :: "'d list_op \<Rightarrow> (nat \<times> 'd) list \<Rightarrow> (nat \<times> 'd) list" where
  "abstract_apply (list_op_add a d) xs = (a, d) # xs"
| "abstract_apply (list_op_remove a) xs = filter (\<lambda>x. fst x \<noteq> a) xs"

fun list_op_ok :: "'d list_op \<Rightarrow> (nat \<times> 'd) list \<Rightarrow> bool" where
  "list_op_ok (list_op_add a d) xs \<longleftrightarrow> a \<notin> fst ` set xs"
| "list_op_ok (list_op_remove a) xs \<longleftrightarrow> a \<in> fst ` set xs"

primrec list_ops_ok :: "'d list_op list \<Rightarrow> (nat \<times> 'd) list \<Rightarrow> bool" where
  "list_ops_ok [] xs \<longleftrightarrow> True"
| "list_ops_ok (p # ps) xs \<longleftrightarrow> list_op_ok p xs \<and> list_ops_ok ps (abstract_apply p xs)"

primrec list_run :: "'d list_op list \<Rightarrow> 'd guac_common_list \<Rightarrow> 'd guac_common_list option" where
  "list_run [] l = Some l"
| "list_run (p # ps) l = (case list_apply p l of None \<Rightarrow> None | Some l \<Rightarrow> list_run ps l)"

lemma apply_represents:
  assumes r: "represents l xs" and ok: "list_op_ok p xs"
  shows "\<exists>l'. list_apply p l = Some l' \<and> represents l' (abstract_apply p xs)"
proof (cases p)
  case (list_op_add a d)
  then have "list_elements l a = None" using r ok by (auto simp: represents_def)
  from add_represents[OF r this, of d] list_op_add show ?thesis by simp
next
  case (list_op_remove a)
  then obtain d where "(a, d) \<in> set xs" using ok by auto
  then obtain ys zs where xs: "xs = ys @ (a, d) # zs" by (meson split_list)
  then have "a \<notin> fst ` set ys" "a \<notin> fst ` set zs" using r by (auto simp: represents_def)
  then have "filter (\<lambda>x. fst x \<noteq> a) ys = ys" "filter (\<lambda>x. fst x \<noteq> a) zs = zs" by (auto simp: filter_id_conv)
  then have "abstract_apply p xs = ys @ zs" using list_op_remove xs by simp
  with remove_represents[of l ys a d zs] r xs list_op_remove show ?thesis by simp
qed

lemma run_represents:
  "represents l xs \<Longrightarrow> list_ops_ok ps xs \<Longrightarrow> \<exists>l'. list_run ps l = Some l' \<and> represents l' (fold abstract_apply ps xs)"
proof (induction ps arbitrary: l xs)
  case (Cons p ps)
  then obtain l1 where "list_apply p l = Some l1" "represents l1 (abstract_apply p xs)"
    using apply_represents[of l xs p] by auto
  with Cons.IH[of l1 "abstract_apply p xs"] Cons.prems(2) show ?case by simp
qed simp

text \<open>
  C38. After any sequence of additions at fresh addresses and removals of elements of the list,
  following the pointers from the head gives exactly the elements that were added and not removed,
  the latest first, and no other element exists.
\<close>

theorem list_refines:
  assumes "list_ops_ok ps []"
  shows "\<exists>l. list_run ps guac_common_list_alloc = Some l
    \<and> (\<forall>n \<ge> length (fold abstract_apply ps []). list_walk n (list_head l) l = fold abstract_apply ps [])
    \<and> dom (list_elements l) = fst ` set (fold abstract_apply ps [])"
proof -
  have "represents (guac_common_list_alloc :: 'a guac_common_list) []"
    by (simp add: represents_def guac_common_list_alloc_def)
  from run_represents[OF this assms] obtain l where
    l: "list_run ps guac_common_list_alloc = Some l" "represents l (fold abstract_apply ps [])"
    by blast
  have more: "list_walk n p l = xs" if "linked (list_elements l) place p xs" "length xs \<le> n" for n place p xs
    using that
  proof (induction xs arbitrary: n place p)
    case Nil
    then show ?case by (cases n) auto
  next
    case (Cons x xs)
    then show ?case by (cases n) auto
  qed
  from l show ?thesis using more by (auto simp: represents_def)
qed

theorem list_refines_witness:
  "\<exists>l. list_run [list_op_add 7 ''a'', list_op_add 3 ''b'', list_op_add 5 ''c'', list_op_remove 3] guac_common_list_alloc = Some l
    \<and> list_walk 2 (list_head l) l = [(5, ''c''), (7, ''a'')]"
  using list_refines[of "[list_op_add 7 ''a'', list_op_add 3 ''b'', list_op_add 5 ''c'', list_op_remove 3]"] by auto

end
