(* ===== verification/Common_Iconv.thy ===== *)
theory Common_Iconv
  imports Guac_Unicode
begin

text \<open>
  Conversion between encodings of text (\<open>src/common/iconv.c\<close>). The function pointers to readers and
  writers are one of the four encodings. A reader takes the bytes that remain and gives the value with the number
  of bytes it moves the input forward; it has no result where the code uses a value that was never
  stored. A writer gives the bytes it stores. 16 bit numbers are stored with the low byte first.
\<close>

section \<open>Definitions\<close>

datatype iconv_encoding = UTF8 | UTF16 | CP1252 | ISO8859_1

definition CP1252_CODEPOINT :: "int list" where
  "CP1252_CODEPOINT =
     [0x20AC, 0xFFFD, 0x201A, 0x0192, 0x201E, 0x2026, 0x2020, 0x2021,
      0x02C6, 0x2030, 0x0160, 0x2039, 0x0152, 0xFFFD, 0x017D, 0xFFFD,
      0xFFFD, 0x2018, 0x2019, 0x201C, 0x201D, 0x2022, 0x2013, 0x2014,
      0x02DC, 0x2122, 0x0161, 0x203A, 0x0153, 0xFFFD, 0x017E, 0x0178]"

definition GUAC_READ_UTF8 :: "byte list \<Rightarrow> (int \<times> nat) option" where
  "GUAC_READ_UTF8 input =
     (case guac_utf8_read input (int (length input)) of
        (n, Some v) \<Rightarrow> Some (v, nat n)
      | (n, None) \<Rightarrow> None)"

definition GUAC_READ_UTF16 :: "byte list \<Rightarrow> (int \<times> nat) option" where
  "GUAC_READ_UTF16 input =
     (if length input < 2 then Some (0, 0)
      else Some (uint (input ! 0) + 256 * uint (input ! 1), 2))"

definition GUAC_READ_CP1252 :: "byte list \<Rightarrow> (int \<times> nat) option" where
  "GUAC_READ_CP1252 input =
     (let v = uint (hd input)
      in Some (if v \<ge> 0x80 \<and> v \<le> 0x9F then CP1252_CODEPOINT ! nat (v - 0x80) else v, 1))"

definition GUAC_READ_ISO8859_1 :: "byte list \<Rightarrow> (int \<times> nat) option" where
  "GUAC_READ_ISO8859_1 input = Some (uint (hd input), 1)"

fun iconv_read :: "iconv_encoding \<Rightarrow> byte list \<Rightarrow> (int \<times> nat) option" where
  "iconv_read UTF8 = GUAC_READ_UTF8"
| "iconv_read UTF16 = GUAC_READ_UTF16"
| "iconv_read CP1252 = GUAC_READ_CP1252"
| "iconv_read ISO8859_1 = GUAC_READ_ISO8859_1"

definition GUAC_WRITE_UTF8 :: "int \<Rightarrow> int \<Rightarrow> byte list" where
  "GUAC_WRITE_UTF8 room v =
     (case guac_utf8_write v (replicate (nat room) 0) room of (n, buf) \<Rightarrow> take (nat n) buf)"

definition GUAC_WRITE_UTF16 :: "int \<Rightarrow> int \<Rightarrow> byte list" where
  "GUAC_WRITE_UTF16 room v = (if room < 2 then [] else [word_of_int v, word_of_int (v div 256)])"

text \<open>The search for the value ends at the first place that has it.\<close>

primrec cp1252_find :: "int list \<Rightarrow> int \<Rightarrow> int \<Rightarrow> int" where
  "cp1252_find [] i v = 63"
| "cp1252_find (c # cs) i v = (if c = v then i else cp1252_find cs (i + 1) v)"

definition GUAC_WRITE_CP1252 :: "int \<Rightarrow> int \<Rightarrow> byte list" where
  "GUAC_WRITE_CP1252 room v =
     [word_of_int (if (v \<ge> 0x80 \<and> v \<le> 0x9F) \<or> v > 0xFF then cp1252_find CP1252_CODEPOINT 0x80 v else v)]"

definition GUAC_WRITE_ISO8859_1 :: "int \<Rightarrow> int \<Rightarrow> byte list" where
  "GUAC_WRITE_ISO8859_1 room v = [word_of_int (if v > 0xFF then 63 else v)]"

fun iconv_write :: "iconv_encoding \<Rightarrow> int \<Rightarrow> int \<Rightarrow> byte list" where
  "iconv_write UTF8 = GUAC_WRITE_UTF8"
| "iconv_write UTF16 = GUAC_WRITE_UTF16"
| "iconv_write CP1252 = GUAC_WRITE_CP1252"
| "iconv_write ISO8859_1 = GUAC_WRITE_ISO8859_1"

lemma iconv_read_progress:
  assumes "iconv_read e input = Some (v, n)" and "v \<noteq> 0" and "input \<noteq> []"
  shows "0 < n"
  using assms
  by (cases e) (auto simp: GUAC_READ_UTF8_def GUAC_READ_UTF16_def GUAC_READ_CP1252_def GUAC_READ_ISO8859_1_def
      guac_utf8_read_def Let_def split: prod.splits option.splits if_splits)

text \<open>
  \<open>input\<close> is what remains of the \<open>in_remaining\<close> bytes, \<open>out\<close> what has been stored. The result is that of
  the function, the rest of the input, and the output.
\<close>

function guac_iconv ::
    "iconv_encoding \<Rightarrow> byte list \<Rightarrow> iconv_encoding \<Rightarrow> int \<Rightarrow> byte list \<Rightarrow> (int \<times> byte list \<times> byte list) option" where
  "guac_iconv reader input writer room out =
     (if input \<noteq> [] \<and> room > 0
      then
        (case iconv_read reader input of
           None \<Rightarrow> None
         | Some (v, n) \<Rightarrow>
             (let bytes = iconv_write writer room v
              in if v = 0 then Some (1, drop n input, out @ bytes)
                 else guac_iconv reader (drop n input) writer (room - int (length bytes)) (out @ bytes)))
      else Some (0, input, out))"
  by pat_completeness auto
termination
  by (relation "measure (\<lambda>(reader, input, writer, room, out). length input)") (auto dest: iconv_read_progress)

declare guac_iconv.simps [simp del]

section \<open>What the encodings can represent\<close>

fun representable :: "iconv_encoding \<Rightarrow> int \<Rightarrow> bool" where
  "representable UTF8 v \<longleftrightarrow> 0 \<le> v \<and> v \<le> 0x1FFFFF"
| "representable UTF16 v \<longleftrightarrow> 0 \<le> v \<and> v \<le> 0xFFFF"
| "representable CP1252 v \<longleftrightarrow> (0 \<le> v \<and> v < 0x80) \<or> (0xA0 \<le> v \<and> v \<le> 0xFF)
     \<or> (v \<noteq> 0xFFFD \<and> v \<in> set CP1252_CODEPOINT)"
| "representable ISO8859_1 v \<longleftrightarrow> 0 \<le> v \<and> v \<le> 0xFF"

text \<open>A character in an encoding, and a text with its terminator.\<close>

definition encoded :: "iconv_encoding \<Rightarrow> int \<Rightarrow> byte list" where
  "encoded e v = iconv_write e 4 v"

definition encoded_text :: "iconv_encoding \<Rightarrow> int list \<Rightarrow> byte list" where
  "encoded_text e vs = concat (map (encoded e) (vs @ [0]))"

lemma utf8_encoded:
  assumes "0 \<le> v" and "v \<le> 0x1FFFFF" and "int (length (utf8_ref v)) \<le> room"
  shows "GUAC_WRITE_UTF8 room v = utf8_ref v"
proof -
  have "guac_utf8_write v (replicate (nat room) 0) room = (int (length (utf8_ref v)), mem_write (replicate (nat room) 0) 0 (utf8_ref v))"
    using assms by (intro guac_utf8_write_ref) auto
  then show ?thesis by (simp add: GUAC_WRITE_UTF8_def mem_write_def)
qed

lemma utf8_ref_size: "1 \<le> length (utf8_ref v)" "length (utf8_ref v) \<le> 4"
  by (simp_all add: utf8_ref_def)

lemma cp1252_table:
  assumes "v \<noteq> 0xFFFD" and "v \<in> set CP1252_CODEPOINT"
  shows "0x80 \<le> cp1252_find CP1252_CODEPOINT 0x80 v \<and> cp1252_find CP1252_CODEPOINT 0x80 v \<le> 0x9F
    \<and> CP1252_CODEPOINT ! nat (cp1252_find CP1252_CODEPOINT 0x80 v - 0x80) = v \<and> v > 0xFF"
proof -
  have "\<forall>v \<in> set CP1252_CODEPOINT. v \<noteq> 0xFFFD \<longrightarrow> 0x80 \<le> cp1252_find CP1252_CODEPOINT 0x80 v
    \<and> cp1252_find CP1252_CODEPOINT 0x80 v \<le> 0x9F
    \<and> CP1252_CODEPOINT ! nat (cp1252_find CP1252_CODEPOINT 0x80 v - 0x80) = v \<and> v > 0xFF"
    by code_simp
  with assms show ?thesis by blast
qed

lemma read_encoded:
  assumes "representable e v"
  shows "iconv_read e (encoded e v @ rest) = Some (v, length (encoded e v))" "encoded e v \<noteq> []"
proof -
  have "iconv_read e (encoded e v @ rest) = Some (v, length (encoded e v)) \<and> encoded e v \<noteq> []"
  proof (cases e)
    case UTF8
    then have v: "0 \<le> v" "v \<le> 0x1FFFFF" using assms by simp_all
    have enc: "encoded e v = utf8_ref v" using UTF8 utf8_encoded[OF v, of 4] utf8_ref_size[of v] by (simp add: encoded_def)
    have "guac_utf8_read (utf8_ref v @ rest) (int (length (utf8_ref v @ rest))) = (int (length (utf8_ref v)), Some v)"
      by (rule guac_utf8_read_ref[OF v]) simp
    then show ?thesis using UTF8 enc utf8_ref_size[of v] by (auto simp: GUAC_READ_UTF8_def)
  next
    case UTF16
    have d: "0 \<le> v div 256" "v div 256 < 256" using assms UTF16 by auto
    have "uint (word_of_int v :: byte) = v mod 256" "uint (word_of_int (v div 256) :: byte) = v div 256"
      using uint_byte[OF d] by (simp_all add: unsigned_of_int take_bit_eq_mod)
    then show ?thesis using UTF16 by (simp add: encoded_def GUAC_READ_UTF16_def GUAC_WRITE_UTF16_def)
  next
    case CP1252
    show ?thesis
    proof (cases "v \<noteq> 0xFFFD \<and> v \<in> set CP1252_CODEPOINT")
      case True
      then show ?thesis using cp1252_table[of v] CP1252 uint_byte
        by (simp add: encoded_def GUAC_READ_CP1252_def GUAC_WRITE_CP1252_def)
    next
      case False
      then show ?thesis using assms CP1252 uint_byte[of v]
        by (auto simp: encoded_def GUAC_READ_CP1252_def GUAC_WRITE_CP1252_def)
    qed
  next
    case ISO8859_1
    then show ?thesis using assms uint_byte[of v]
      by (simp add: encoded_def GUAC_READ_ISO8859_1_def GUAC_WRITE_ISO8859_1_def)
  qed
  then show "iconv_read e (encoded e v @ rest) = Some (v, length (encoded e v))" "encoded e v \<noteq> []" by blast+
qed

lemma write_encoded:
  assumes "0 \<le> v" and "v \<le> 0x1FFFFF" and "int (length (encoded e v)) \<le> room"
  shows "iconv_write e room v = encoded e v"
proof (cases e)
  case UTF8
  then have "encoded e v = utf8_ref v" using utf8_encoded[OF assms(1,2), of 4] utf8_ref_size[of v] by (simp add: encoded_def)
  then show ?thesis using UTF8 utf8_encoded[OF assms(1,2), of room] assms(3) by simp
next
  case UTF16
  then show ?thesis using assms(3) by (simp add: encoded_def GUAC_WRITE_UTF16_def)
qed (simp_all add: encoded_def GUAC_WRITE_CP1252_def GUAC_WRITE_ISO8859_1_def)

lemma representable_range:
  assumes "representable e v"
  shows "0 \<le> v" "v \<le> 0x1FFFFF"
proof -
  have "\<forall>v \<in> set CP1252_CODEPOINT. 0 \<le> v \<and> v \<le> 0x1FFFFF" by code_simp
  with assms show "0 \<le> v" "v \<le> 0x1FFFFF" by (cases e; auto)+
qed

lemma encoded_text_Cons: "encoded_text e (v # vs) = encoded e v @ encoded_text e vs"
  by (simp add: encoded_text_def)

lemma encoded_size: "0 \<le> v \<Longrightarrow> v \<le> 0x1FFFFF \<Longrightarrow> 0 < length (encoded e v)"
  using utf8_encoded[of v 4] utf8_ref_size[of v]
  by (cases e) (auto simp: encoded_def GUAC_WRITE_UTF16_def GUAC_WRITE_CP1252_def GUAC_WRITE_ISO8859_1_def)

text \<open>
  C40. A terminated text in any of the encodings is converted to any other one completely: each character
  becomes what the writer makes of it, the terminator is converted and reported, and the input is left
  behind it, provided the output has room for all of it.
\<close>

theorem iconv_converts:
  assumes "\<forall>v \<in> set vs. representable from_e v \<and> v \<noteq> 0"
    and "int (length (encoded_text to_e vs)) \<le> room"
  shows "guac_iconv from_e (encoded_text from_e vs @ rest) to_e room out = Some (1, rest, out @ encoded_text to_e vs)"
  using assms
proof (induction vs arbitrary: room out)
  case Nil
  have z: "representable from_e 0" by (cases from_e) auto
  note r = read_encoded(1)[OF z, of rest]
  have sz: "0 < length (encoded to_e 0)" by (rule encoded_size) auto
  have w: "iconv_write to_e room 0 = encoded to_e 0"
    by (rule write_encoded) (use Nil in \<open>simp_all add: encoded_text_def\<close>)
  have "int (length (encoded to_e 0)) \<le> room" using Nil(2) by (simp add: encoded_text_def)
  then have pos: "0 < room" using sz by linarith
  show ?case
    using r w pos read_encoded(2)[OF z] by (subst guac_iconv.simps) (simp add: encoded_text_def Let_def)
next
  case (Cons v vs)
  have v: "representable from_e v" "v \<noteq> 0" using Cons.prems(1) by simp_all
  note b = representable_range[OF v(1)]
  note r = read_encoded(1)[OF v(1), of "encoded_text from_e vs @ rest"]
  have room: "int (length (encoded to_e v)) + int (length (encoded_text to_e vs)) \<le> room"
    using Cons.prems(2) by (simp add: encoded_text_Cons)
  have w: "iconv_write to_e room v = encoded to_e v" by (rule write_encoded[OF b]) (use room in simp)
  have pos: "0 < room" using room encoded_size[OF b, of to_e] by linarith
  have "guac_iconv from_e (encoded_text from_e vs @ rest) to_e (room - int (length (encoded to_e v))) (out @ encoded to_e v)
      = Some (1, rest, (out @ encoded to_e v) @ encoded_text to_e vs)"
    by (rule Cons.IH) (use Cons.prems(1) room in auto)
  then show ?case
    using r w pos v(2) read_encoded(2)[OF v(1)] by (subst guac_iconv.simps) (simp add: encoded_text_Cons Let_def)
qed

theorem iconv_converts_witness:
  "guac_iconv UTF8 [0xE2, 0x82, 0xAC, 65, 0, 7] CP1252 3 [] = Some (1, [7], [0x80, 65, 0])
   \<and> guac_iconv CP1252 [0x80, 65, 0] UTF16 6 [] = Some (1, [], [0xAC, 0x20, 65, 0, 0, 0])"
proof -
  have e: "encoded_text UTF8 [0x20AC, 65] = [0xE2, 0x82, 0xAC, 65, 0]" "encoded_text CP1252 [0x20AC, 65] = [0x80, 65, 0]"
    "encoded_text UTF16 [0x20AC, 65] = [0xAC, 0x20, 65, 0, 0, 0]"
    by code_simp+
  have r: "\<forall>v \<in> set [0x20AC, 65]. representable UTF8 v \<and> v \<noteq> 0" "\<forall>v \<in> set [0x20AC, 65]. representable CP1252 v \<and> v \<noteq> 0"
    by (simp_all add: CP1252_CODEPOINT_def)
  show ?thesis
    using iconv_converts[OF r(1), of CP1252 3 "[7]" "[]"] iconv_converts[OF r(2), of UTF16 6 "[]" "[]"] by (simp add: e)
qed

text \<open>
  Where the code falls short: a UTF-16 input of odd length is reported as terminated, and a
  character for which there is no room is left out, while a shorter one behind it is still written.
\<close>

lemma iconv_odd_input: "guac_iconv UTF16 [65] UTF8 4 [] = Some (1, [65], [0])"
  by code_simp

lemma iconv_skips: "guac_iconv UTF16 [0xAC, 0x20, 65, 0] UTF8 2 [] = Some (0, [], [65])"
  by code_simp

end
