(* ===== verification/Guacd_Conf.thy ===== *)
theory Guacd_Conf
  imports Guac_Prelude
begin

text \<open>
  The configuration of guacd (\<open>src/guacd/conf-parse.c\<close>, \<open>conf-file.c\<close>, \<open>conf-args.c\<close>). A parser takes the
  bytes from its position to the end of the buffer; a failure carries its message and how many bytes
  lie behind its place. The section and the data of the callback are passed through.
\<close>

section \<open>The parser\<close>

type_synonym conf_error = "string \<times> nat"
type_synonym 'd conf_callback = "byte list \<Rightarrow> byte list \<Rightarrow> byte list \<Rightarrow> 'd \<Rightarrow> 'd \<times> string option"

abbreviation (input) GUACD_CONF_MAX_NAME_LENGTH :: nat where "GUACD_CONF_MAX_NAME_LENGTH \<equiv> 255"
abbreviation (input) GUACD_CONF_MAX_VALUE_LENGTH :: nat where "GUACD_CONF_MAX_VALUE_LENGTH \<equiv> 8191"

abbreviation (input) tab :: byte where "tab \<equiv> 9"
abbreviation (input) newline :: byte where "newline \<equiv> 10"
abbreviation (input) carriage :: byte where "carriage \<equiv> 13"
abbreviation (input) space :: byte where "space \<equiv> 32"
abbreviation (input) quotation :: byte where "quotation \<equiv> 34"
abbreviation (input) hash :: byte where "hash \<equiv> 35"
abbreviation (input) equals :: byte where "equals \<equiv> 61"
abbreviation (input) bracket :: byte where "bracket \<equiv> 91"
abbreviation (input) backslash :: byte where "backslash \<equiv> 92"
abbreviation (input) end_bracket :: byte where "end_bracket \<equiv> 93"
abbreviation (input) underscore :: byte where "underscore \<equiv> 95"

text \<open>The messages that name a character between quotation marks.\<close>

definition quoted_message :: "char \<Rightarrow> string" where
  "quoted_message c = [CHR 0x27, c, CHR 0x27] @ '' expected''"

definition isalnum :: "byte \<Rightarrow> bool" where
  "isalnum c \<longleftrightarrow> (48 \<le> c \<and> c \<le> 57) \<or> (65 \<le> c \<and> c \<le> 90) \<or> (97 \<le> c \<and> c \<le> 122)"

primrec guacd_parse_whitespace :: "byte list \<Rightarrow> nat" where
  "guacd_parse_whitespace [] = 0"
| "guacd_parse_whitespace (c # cs) =
     (if c \<noteq> space \<and> c \<noteq> tab then 0 else Suc (guacd_parse_whitespace cs))"

primrec name_loop :: "byte list \<Rightarrow> nat \<Rightarrow> conf_error + nat" where
  "name_loop [] n = Inr n"
| "name_loop (c # cs) n =
     (if \<not> isalnum c \<and> c \<noteq> underscore then Inr n
      else if Suc n > GUACD_CONF_MAX_NAME_LENGTH
      then Inl (''Names can be no more than 255 characters long'', length cs)
      else name_loop cs (Suc n))"

text \<open>The name found; an empty one is the return of zero, with which nothing is stored.\<close>

definition guacd_parse_name :: "byte list \<Rightarrow> conf_error + byte list" where
  "guacd_parse_name buffer =
     (case name_loop buffer 0 of Inl e \<Rightarrow> Inl e | Inr n \<Rightarrow> Inr (take n buffer))"

definition ends_value :: "byte \<Rightarrow> bool" where
  "ends_value c \<longleftrightarrow> c = hash \<or> c = quotation \<or> c = carriage \<or> c = newline \<or> c = space \<or> c = tab"

primrec value_loop :: "byte list \<Rightarrow> nat \<Rightarrow> conf_error + nat" where
  "value_loop [] n = Inr n"
| "value_loop (c # cs) n =
     (if ends_value c then Inr n
      else if Suc n > GUACD_CONF_MAX_VALUE_LENGTH
      then Inl (''Values can be no more than 8191 characters long'', length cs)
      else value_loop cs (Suc n))"

definition guacd_parse_value :: "byte list \<Rightarrow> conf_error + byte list" where
  "guacd_parse_value buffer =
     (case value_loop buffer 0 of
        Inl e \<Rightarrow> Inl e
      | Inr n \<Rightarrow> if n = 0 then Inl (''Unquoted values must contain at least one character'', length buffer)
                else Inr (take n buffer))"

text \<open>The loop behind the quotation mark, with the counter that starts at one there.\<close>

primrec quoted_loop ::
    "nat \<Rightarrow> byte list \<Rightarrow> nat \<Rightarrow> bool \<Rightarrow> byte list \<Rightarrow> conf_error + nat \<times> byte list \<times> byte list" where
  "quoted_loop len [] n escaped v = Inr (n, [], v)"
| "quoted_loop len (c # cs) n escaped v =
     (if n \<ge> len then Inr (n, c # cs, v)
      else if \<not> escaped \<and> (c = quotation \<or> c = carriage \<or> c = newline) then Inr (n, c # cs, v)
      else if Suc n > GUACD_CONF_MAX_VALUE_LENGTH
      then Inl (''Values can be no more than 8191 characters long'', length cs)
      else if \<not> escaped \<and> c = backslash then quoted_loop len cs (Suc n) True v
      else quoted_loop len cs (Suc n) False (v @ [c]))"

definition guacd_parse_quoted_value :: "byte list \<Rightarrow> conf_error + (nat \<times> byte list) option" where
  "guacd_parse_quoted_value buffer =
     (case buffer of
        [] \<Rightarrow> Inr None
      | c # cs \<Rightarrow>
          if c \<noteq> quotation then Inr None
          else
            (case quoted_loop (length cs) cs 1 False [] of
               Inl e \<Rightarrow> Inl e
             | Inr (n, rest, v) \<Rightarrow>
                 if cs = [] \<or> hd rest \<noteq> quotation then Inl (quoted_message (CHR 0x22), length rest)
                 else Inr (Some (Suc n, v))))"

text \<open>A parameter up to its callback: the name, the value and the number of characters.\<close>

definition parameter_parts ::
    "byte list \<Rightarrow> byte list \<Rightarrow> conf_error + (byte list \<times> byte list \<times> nat) option" where
  "parameter_parts current buffer =
     (case guacd_parse_name buffer of
        Inl e \<Rightarrow> Inl e
      | Inr name \<Rightarrow>
          if name = [] then Inr None
          else if current = [] then Inl (''Parameters must have a corresponding section'', length buffer)
          else
            (let b1 = drop (length name) buffer; n1 = guacd_parse_whitespace b1; b2 = drop n1 b1
             in if b2 = [] \<or> hd b2 \<noteq> equals then Inl (quoted_message (CHR 0x3D), length b2)
                else
                  (let b3 = tl b2; n3 = guacd_parse_whitespace b3; b4 = drop n3 b3;
                       n = length name + n1 + 1 + n3
                   in case guacd_parse_quoted_value b4 of
                        Inl e \<Rightarrow> Inl e
                      | Inr (Some (k, v)) \<Rightarrow> Inr (Some (name, v, n + k))
                      | Inr None \<Rightarrow>
                          (case guacd_parse_value b4 of
                             Inl e \<Rightarrow> Inl e
                           | Inr v \<Rightarrow> Inr (Some (name, v, n + length v))))))"

text \<open>The callback is given C strings: a value ends at a null byte within it.\<close>

definition guacd_parse_parameter ::
    "'d conf_callback \<Rightarrow> byte list \<times> 'd \<Rightarrow> byte list \<Rightarrow> (byte list \<times> 'd) \<times> (conf_error + nat)" where
  "guacd_parse_parameter callback st buffer =
     (case parameter_parts (fst st) buffer of
        Inl e \<Rightarrow> (st, Inl e)
      | Inr None \<Rightarrow> (st, Inr 0)
      | Inr (Some (name, v, n)) \<Rightarrow>
          (case callback (fst st) name (cstr_at v 0) (snd st) of
             (d, Some message) \<Rightarrow> ((fst st, d), Inl (message, length buffer))
           | (d, None) \<Rightarrow> ((fst st, d), Inr n)))"

definition guacd_parse_section ::
    "byte list \<times> 'd \<Rightarrow> byte list \<Rightarrow> (byte list \<times> 'd) \<times> (conf_error + nat)" where
  "guacd_parse_section st buffer =
     (case buffer of
        [] \<Rightarrow> (st, Inr 0)
      | c # cs \<Rightarrow>
          if c \<noteq> bracket then (st, Inr 0)
          else
            (case guacd_parse_name cs of
               Inl e \<Rightarrow> (st, Inl e)
             | Inr name \<Rightarrow>
                 if name = [] then (st, Inl (''Section names must contain at least one character'', length cs))
                 else
                   (let b = drop (length name) cs
                    in ((name, snd st),
                        if b = [] \<or> hd b \<noteq> end_bracket then Inl (quoted_message (CHR 0x5D), length b)
                        else Inr (Suc (length name) + 1)))))"

definition guacd_parse_declaration ::
    "'d conf_callback \<Rightarrow> byte list \<times> 'd \<Rightarrow> byte list \<Rightarrow> (byte list \<times> 'd) \<times> (conf_error + nat)" where
  "guacd_parse_declaration callback st buffer =
     (case guacd_parse_section st buffer of
        (st, Inl e) \<Rightarrow> (st, Inl e)
      | (st, Inr n) \<Rightarrow> if n \<noteq> 0 then (st, Inr n) else guacd_parse_parameter callback st buffer)"

primrec comment_loop :: "byte list \<Rightarrow> nat \<Rightarrow> conf_error + nat" where
  "comment_loop [] n = Inl (''expected end-of-line'', 0)"
| "comment_loop (c # cs) n = (if c = newline \<or> c = carriage then Inr n else comment_loop cs (Suc n))"

definition guacd_parse_comment :: "byte list \<Rightarrow> conf_error + nat" where
  "guacd_parse_comment buffer =
     (case buffer of [] \<Rightarrow> Inr 0 | c # cs \<Rightarrow> if c \<noteq> hash then Inr 0 else comment_loop cs 1)"

definition guacd_parse_line_end :: "byte list \<Rightarrow> conf_error + nat" where
  "guacd_parse_line_end buffer =
     (let n = guacd_parse_whitespace buffer; b = drop n buffer
      in case guacd_parse_comment b of
           Inl e \<Rightarrow> Inl e
         | Inr k \<Rightarrow>
             (let b = drop k b
              in if b = [] \<or> hd b \<noteq> carriage \<and> hd b \<noteq> newline
                 then Inl (''expected end-of-line'', length b) else Inr (n + k + 1)))"

definition guacd_parse_line ::
    "'d conf_callback \<Rightarrow> byte list \<times> 'd \<Rightarrow> byte list \<Rightarrow> (byte list \<times> 'd) \<times> (conf_error + nat)" where
  "guacd_parse_line callback st buffer =
     (let n = guacd_parse_whitespace buffer; b = drop n buffer
      in case guacd_parse_declaration callback st b of
           (st, Inl e) \<Rightarrow> (st, Inl e)
         | (st, Inr k) \<Rightarrow>
             (case guacd_parse_line_end (drop k b) of
                Inl e \<Rightarrow> (st, Inl e)
              | Inr l \<Rightarrow> (st, Inr (n + k + l))))"

definition guacd_parse_conf ::
    "'d conf_callback \<Rightarrow> byte list \<times> 'd \<Rightarrow> byte list \<Rightarrow> (byte list \<times> 'd) \<times> (conf_error + nat)" where
  "guacd_parse_conf callback st buffer =
     (if buffer = [] then (st, Inr 0) else guacd_parse_line callback st buffer)"

definition guacd_parse_log_level :: "byte list \<Rightarrow> int" where
  "guacd_parse_log_level name =
     (if name = cstr ''info'' then 6 else if name = cstr ''error'' then 3
      else if name = cstr ''warning'' then 4 else if name = cstr ''debug'' then 7
      else if name = cstr ''trace'' then 8 else - 1)"

section \<open>The configuration\<close>

text \<open>A null pointer is \<open>None\<close>. The two paths for SSL are there only where SSL is compiled in.\<close>

record guacd_config =
  bind_host :: "byte list option"
  bind_port :: "byte list option"
  pidfile :: "byte list option"
  foreground :: int
  print_version :: int
  cert_file :: "byte list option"
  key_file :: "byte list option"
  max_log_level :: int

definition invalid_log_level :: string where
  "invalid_log_level =
      ''Invalid log level. Valid levels are: '' @
      [CHR 0x22] @ ''trace'' @ [CHR 0x22] @ '', '' @ [CHR 0x22] @ ''debug'' @ [CHR 0x22] @ '', '' @
      [CHR 0x22] @ ''info'' @ [CHR 0x22] @ '', '' @ [CHR 0x22] @ ''warning'' @ [CHR 0x22] @ '', and '' @
      [CHR 0x22] @ ''error'' @ [CHR 0x22] @ ''.''"

definition guacd_conf_callback :: "bool \<Rightarrow> guacd_config conf_callback" where
  "guacd_conf_callback ENABLE_SSL sect param v config =
     (let invalid = (config, Some ''Invalid parameter or section name'')
      in if sect = cstr ''server''
         then (if param = cstr ''bind_host'' then (config\<lparr>bind_host := Some v\<rparr>, None)
               else if param = cstr ''bind_port'' then (config\<lparr>bind_port := Some v\<rparr>, None)
               else invalid)
         else if sect = cstr ''daemon''
         then (if param = cstr ''pid_file'' then (config\<lparr>pidfile := Some v\<rparr>, None)
               else if param = cstr ''log_level''
               then (let level = guacd_parse_log_level v
                     in if level < 0
                        then (config, Some invalid_log_level)
                        else (config\<lparr>max_log_level := level\<rparr>, None))
               else invalid)
         else if sect = cstr ''ssl''
         then (if ENABLE_SSL
               then (if param = cstr ''server_certificate'' then (config\<lparr>cert_file := Some v\<rparr>, None)
                     else if param = cstr ''server_key'' then (config\<lparr>key_file := Some v\<rparr>, None)
                     else invalid)
               else (config, Some ''SSL support not compiled in''))
         else invalid)"

lemma parse_conf_progress:
  assumes "guacd_parse_conf callback st buffer = (st', Inr n)" and "0 < n"
  shows "buffer \<noteq> []"
  using assms by (auto simp: guacd_parse_conf_def split: if_splits)

text \<open>Lines are parsed off the buffer until there is none or one cannot be parsed.\<close>

function conf_lines_loop ::
    "'d conf_callback \<Rightarrow> byte list \<times> 'd \<Rightarrow> byte list \<Rightarrow> nat \<Rightarrow> (byte list \<times> 'd) \<times> byte list \<times> nat \<times> conf_error option" where
  "conf_lines_loop callback st buffer line =
     (case guacd_parse_conf callback st buffer of
        (st, Inl e) \<Rightarrow> (st, buffer, line, Some e)
      | (st, Inr n) \<Rightarrow>
          if n > 0 then conf_lines_loop callback st (drop n buffer) (Suc line) else (st, buffer, line, None))"
  by pat_completeness auto
termination
  by (relation "measure (\<lambda>(callback, st, buffer, line). length buffer)") (auto dest!: parse_conf_progress[OF sym])

declare conf_lines_loop.simps [simp del]

text \<open>
  The schedule says of each \<open>read\<close> how many bytes it is ready to give, or that it fails; behind it a
  read gives all it is asked for. No read gives none while there is something to read and space for it.
\<close>

type_synonym read_schedule = "nat option list"

definition scheduled :: "read_schedule \<Rightarrow> nat option" where
  "scheduled sched = (case sched of [] \<Rightarrow> Some 8192 | r # _ \<Rightarrow> r)"

datatype conf_failure = ParseError nat nat string | ReadError

function conf_file_loop ::
    "'d conf_callback \<Rightarrow> byte list \<times> 'd \<Rightarrow> read_schedule \<Rightarrow> byte list \<Rightarrow> byte list \<Rightarrow> nat \<Rightarrow> conf_error option
     \<Rightarrow> 'd \<times> conf_failure option" where
  "conf_file_loop callback st sched contents buffer line parsed =
     (let error = (case parsed of
                     Some (message, behind) \<Rightarrow> Some (ParseError line (length buffer - behind + 1) message)
                   | None \<Rightarrow> None)
      in case scheduled sched of
           None \<Rightarrow> (snd st, Some (case error of Some e \<Rightarrow> e | None \<Rightarrow> ReadError))
         | Some ready \<Rightarrow>
             (let n = min (8192 - length buffer) (max 1 ready)
              in if n = 0 \<or> contents = [] then (snd st, error)
                 else
                   (case conf_lines_loop callback st (buffer @ take n contents) line of
                      (st, buffer, line, parsed) \<Rightarrow>
                        conf_file_loop callback st (tl sched) (drop n contents) buffer line parsed)))"
  by pat_completeness auto
termination
  by (relation "measure (\<lambda>(callback, st, sched, contents, buffer, line, parsed). length contents)") auto

declare conf_file_loop.simps [simp del]

definition guacd_conf_parse_file ::
    "bool \<Rightarrow> guacd_config \<Rightarrow> read_schedule \<Rightarrow> byte list \<Rightarrow> guacd_config \<times> conf_failure option" where
  "guacd_conf_parse_file ENABLE_SSL conf sched contents =
     conf_file_loop (guacd_conf_callback ENABLE_SSL) ([], conf) sched contents [] 1 None"

text \<open>What \<open>open\<close> may say of the file: its contents, that there is none, or another error.\<close>

datatype conf_open = Opened "byte list" | Missing | Unreadable

definition guacd_conf_load :: "bool \<Rightarrow> conf_open \<Rightarrow> read_schedule \<Rightarrow> guacd_config option" where
  "guacd_conf_load ENABLE_SSL file sched =
     (let conf = \<lparr>bind_host = None, bind_port = Some (cstr ''4822''), pidfile = None, foreground = 0,
                  print_version = 0, cert_file = None, key_file = None, max_log_level = 6\<rparr>
      in case file of
           Opened contents \<Rightarrow>
             (case guacd_conf_parse_file ENABLE_SSL conf sched contents of
                (conf, None) \<Rightarrow> Some conf
              | (conf, Some _) \<Rightarrow> None)
         | Missing \<Rightarrow> Some conf
         | Unreadable \<Rightarrow> None)"

text \<open>The options of the command line, as \<open>getopt\<close> gives them.\<close>

fun guacd_conf_parse_args :: "bool \<Rightarrow> guacd_config \<Rightarrow> (char \<times> byte list) list \<Rightarrow> guacd_config \<times> int" where
  "guacd_conf_parse_args ENABLE_SSL config [] = (config, 0)"
| "guacd_conf_parse_args ENABLE_SSL config ((opt, arg) # opts) =
     (if opt = CHR ''l'' then guacd_conf_parse_args ENABLE_SSL (config\<lparr>bind_port := Some arg\<rparr>) opts
      else if opt = CHR ''b'' then guacd_conf_parse_args ENABLE_SSL (config\<lparr>bind_host := Some arg\<rparr>) opts
      else if opt = CHR ''f'' then guacd_conf_parse_args ENABLE_SSL (config\<lparr>foreground := 1\<rparr>) opts
      else if opt = CHR ''v'' then guacd_conf_parse_args ENABLE_SSL (config\<lparr>print_version := 1\<rparr>) opts
      else if opt = CHR ''p'' then guacd_conf_parse_args ENABLE_SSL (config\<lparr>pidfile := Some arg\<rparr>) opts
      else if opt = CHR ''L''
      then (let level = guacd_parse_log_level arg
            in if level = - 1 then (config, 1)
               else guacd_conf_parse_args ENABLE_SSL (config\<lparr>max_log_level := level\<rparr>) opts)
      else if ENABLE_SSL \<and> opt = CHR ''C''
      then guacd_conf_parse_args ENABLE_SSL (config\<lparr>cert_file := Some arg\<rparr>) opts
      else if ENABLE_SSL \<and> opt = CHR ''K''
      then guacd_conf_parse_args ENABLE_SSL (config\<lparr>key_file := Some arg\<rparr>) opts
      else (config, 1))"

section \<open>Parsers and what follows in the file\<close>

text \<open>What a parser has accepted strictly before the end of its buffer it accepts with more behind it.\<close>

lemma whitespace_bound: "guacd_parse_whitespace a \<le> length a"
  by (induction a) auto

lemma whitespace_extend: "guacd_parse_whitespace a < length a \<Longrightarrow> guacd_parse_whitespace (a @ b) = guacd_parse_whitespace a"
  by (induction a) auto

lemma name_loop_bound: "name_loop a n = Inr m \<Longrightarrow> n \<le> m \<and> m \<le> n + length a"
  by (induction a arbitrary: n) (fastforce split: if_splits)+

lemma name_loop_extend: "name_loop a n = Inr m \<Longrightarrow> m < n + length a \<Longrightarrow> name_loop (a @ b) n = Inr m"
  by (induction a arbitrary: n) (auto split: if_splits)

lemma parse_name_extend:
  "guacd_parse_name a = Inr name \<Longrightarrow> length name < length a \<Longrightarrow> guacd_parse_name (a @ b) = Inr name"
  using name_loop_extend[of a 0] name_loop_bound[of a 0]
  by (auto simp: guacd_parse_name_def split: sum.splits)

lemma parse_name_bound: "guacd_parse_name a = Inr name \<Longrightarrow> length name \<le> length a \<and> take (length name) a = name"
  using name_loop_bound[of a 0] by (auto simp: guacd_parse_name_def split: sum.splits)

lemma value_loop_bound: "value_loop a n = Inr m \<Longrightarrow> n \<le> m \<and> m \<le> n + length a"
  by (induction a arbitrary: n) (fastforce split: if_splits)+

lemma value_loop_extend: "value_loop a n = Inr m \<Longrightarrow> m < n + length a \<Longrightarrow> value_loop (a @ b) n = Inr m"
  by (induction a arbitrary: n) (auto split: if_splits)

lemma parse_value_extend:
  "guacd_parse_value a = Inr v \<Longrightarrow> length v < length a \<Longrightarrow> guacd_parse_value (a @ b) = Inr v"
  using value_loop_extend[of a 0] value_loop_bound[of a 0]
  by (auto simp: guacd_parse_value_def split: sum.splits if_splits)

lemma parse_value_bound: "guacd_parse_value a = Inr v \<Longrightarrow> 0 < length v \<and> length v \<le> length a"
  using value_loop_bound[of a 0] by (auto simp: guacd_parse_value_def split: sum.splits if_splits)

lemma quoted_loop_bound:
  "quoted_loop len a n esc v = Inr (m, rest, w) \<Longrightarrow> length a + n = length rest + m \<and> n \<le> m \<and> (len < n + length a \<longrightarrow> m \<le> max n len)"
  by (induction a arbitrary: n esc v) (fastforce split: if_splits)+

lemma quoted_loop_extend:
  assumes "quoted_loop len a n esc v = Inr (m, rest, w)" and "m < len" and "len \<le> len'" and "rest \<noteq> []"
  shows "quoted_loop len' (a @ b) n esc v = Inr (m, rest @ b, w)"
  using assms(1,2,3,4) by (induction a arbitrary: n esc v) (auto split: if_splits)

lemma quoted_value_cases:
  assumes "guacd_parse_quoted_value a = Inr (Some (n, v))"
  obtains cs m rest where "a = quotation # cs" and "quoted_loop (length cs) cs 1 False [] = Inr (m, rest, v)"
    and "cs \<noteq> []" "hd rest = quotation" "n = Suc m"
  using assms by (auto simp: guacd_parse_quoted_value_def split: list.splits if_splits sum.splits prod.splits)

lemma quoted_value_extend:
  assumes "guacd_parse_quoted_value a = Inr (Some (n, v))" and "n < length a"
  shows "guacd_parse_quoted_value (a @ b) = Inr (Some (n, v))"
proof (rule quoted_value_cases[OF assms(1)])
  fix cs m rest
  assume a: "a = quotation # cs" and q: "quoted_loop (length cs) cs 1 False [] = Inr (m, rest, v)"
    and h: "cs \<noteq> []" "hd rest = quotation" "n = Suc m"
  have m: "m < length cs" using h(3) assms(2) a by simp
  have r: "rest \<noteq> []" using quoted_loop_bound[OF q] m by auto
  show ?thesis
    using quoted_loop_extend[OF q m _ r, of "length (cs @ b)" b] a h r by (simp add: guacd_parse_quoted_value_def)
qed

lemma quoted_value_bound:
  assumes "guacd_parse_quoted_value a = Inr (Some (n, v))"
  shows "1 < n \<and> n \<le> length a"
proof (rule quoted_value_cases[OF assms])
  fix cs m rest
  assume a: "a = quotation # cs" and q: "quoted_loop (length cs) cs 1 False [] = Inr (m, rest, v)"
    and h: "cs \<noteq> []" "n = Suc m"
  have "1 \<le> length cs" using h(1) by (cases cs) auto
  then show ?thesis using quoted_loop_bound[OF q] a h(2) by auto
qed

lemma quoted_value_none: "guacd_parse_quoted_value a = Inr None \<longleftrightarrow> a = [] \<or> hd a \<noteq> quotation"
  by (cases a) (auto simp: guacd_parse_quoted_value_def split: sum.splits prod.splits)

lemma comment_loop_extend: "comment_loop a n = Inr m \<Longrightarrow> comment_loop (a @ b) n = Inr m \<and> n \<le> m \<and> m < n + length a"
  by (induction a arbitrary: n) (fastforce split: if_splits)+

text \<open>A parameter once its equals sign is there: only the value can still change.\<close>

lemma parameter_parts_shape:
  assumes "parameter_parts current a = Inr (Some (name, v, n))"
  obtains n1 n3 b2 b4 where
    "guacd_parse_name a = Inr name" "name \<noteq> []" "current \<noteq> []"
    "n1 = guacd_parse_whitespace (drop (length name) a)" "b2 = drop n1 (drop (length name) a)"
    "b2 \<noteq> []" "hd b2 = equals" "n3 = guacd_parse_whitespace (tl b2)" "b4 = drop n3 (tl b2)"
    "(\<exists>k. guacd_parse_quoted_value b4 = Inr (Some (k, v)) \<and> n = length name + n1 + 1 + n3 + k)
     \<or> (guacd_parse_quoted_value b4 = Inr None \<and> guacd_parse_value b4 = Inr v \<and> n = length name + n1 + 1 + n3 + length v)"
proof (cases "guacd_parse_name a")
  case (Inl e)
  then show thesis using assms by (simp add: parameter_parts_def)
next
  case (Inr nm)
  define n1 where "n1 = guacd_parse_whitespace (drop (length nm) a)"
  define b2 where "b2 = drop n1 (drop (length nm) a)"
  define n3 where "n3 = guacd_parse_whitespace (tl b2)"
  define b4 where "b4 = drop n3 (tl b2)"
  note p = assms[unfolded parameter_parts_def Inr sum.case Let_def, folded n1_def, folded b2_def, folded n3_def, folded b4_def]
  have c: "nm \<noteq> []" "current \<noteq> []" "b2 \<noteq> []" "hd b2 = equals" using p by (simp_all split: if_splits)
  have v: "(case guacd_parse_quoted_value b4 of
        Inl e \<Rightarrow> Inl e
      | Inr (Some (k, v)) \<Rightarrow> Inr (Some (nm, v, length nm + n1 + 1 + n3 + k))
      | Inr None \<Rightarrow> (case guacd_parse_value b4 of
          Inl e \<Rightarrow> Inl e | Inr v \<Rightarrow> Inr (Some (nm, v, length nm + n1 + 1 + n3 + length v))))
      = Inr (Some (name, v, n))"
    using p c by simp
  then have nm: "nm = name" by (simp split: sum.splits option.splits prod.splits)
  from v[unfolded nm] have "(\<exists>k. guacd_parse_quoted_value b4 = Inr (Some (k, v)) \<and> n = length name + n1 + 1 + n3 + k)
     \<or> (guacd_parse_quoted_value b4 = Inr None \<and> guacd_parse_value b4 = Inr v \<and> n = length name + n1 + 1 + n3 + length v)"
    by (simp split: sum.splits option.splits prod.splits)
  with c Inr n1_def b2_def n3_def b4_def show thesis unfolding nm by (intro that)
qed

lemma parameter_parts_none:
  assumes "parameter_parts current a = Inr None"
  shows "guacd_parse_name a = Inr []"
proof (cases "guacd_parse_name a")
  case (Inr nm)
  define n1 where "n1 = guacd_parse_whitespace (drop (length nm) a)"
  define b2 where "b2 = drop n1 (drop (length nm) a)"
  define n3 where "n3 = guacd_parse_whitespace (tl b2)"
  define b4 where "b4 = drop n3 (tl b2)"
  note p = assms[unfolded parameter_parts_def Inr sum.case Let_def, folded n1_def, folded b2_def, folded n3_def, folded b4_def]
  have "nm = []" using p by (simp split: if_splits sum.splits option.splits prod.splits)
  then show ?thesis using Inr by simp
qed (use assms in \<open>simp add: parameter_parts_def\<close>)

lemma parameter_parts_prefix:
  assumes "parameter_parts current a = Inr (Some (name, v, n))"
  shows "guacd_parse_name (a @ b) = Inr name"
    and "parameter_parts current (a @ b) = Inr (Some (name', v', n')) \<Longrightarrow> name' = name"
    and "parameter_parts current (a @ b) \<noteq> Inr None"
proof -
  show n: "guacd_parse_name (a @ b) = Inr name"
  proof (rule parameter_parts_shape[OF assms])
    fix n1 n3 b2 b4
    assume *: "guacd_parse_name a = Inr name" "b2 = drop n1 (drop (length name) a)" "b2 \<noteq> []"
    then show ?thesis by (intro parse_name_extend) auto
  qed
  show "name' = name" if "parameter_parts current (a @ b) = Inr (Some (name', v', n'))"
  proof (rule parameter_parts_shape[OF that])
    assume "guacd_parse_name (a @ b) = Inr name'"
    then show ?thesis using n by simp
  qed
  have "name \<noteq> []" by (rule parameter_parts_shape[OF assms])
  then show "parameter_parts current (a @ b) \<noteq> Inr None"
    using n parameter_parts_none[of current "a @ b"] by auto
qed

lemma parameter_parts_bound:
  assumes "parameter_parts current a = Inr (Some (name, v, n))"
  shows "0 < n \<and> n \<le> length a"
proof (rule parameter_parts_shape[OF assms])
  fix n1 n3 b2 b4
  assume *: "guacd_parse_name a = Inr name" "name \<noteq> []" "n1 = guacd_parse_whitespace (drop (length name) a)"
    "b2 = drop n1 (drop (length name) a)" "b2 \<noteq> []" "n3 = guacd_parse_whitespace (tl b2)" "b4 = drop n3 (tl b2)"
    "(\<exists>k. guacd_parse_quoted_value b4 = Inr (Some (k, v)) \<and> n = length name + n1 + 1 + n3 + k)
     \<or> (guacd_parse_quoted_value b4 = Inr None \<and> guacd_parse_value b4 = Inr v \<and> n = length name + n1 + 1 + n3 + length v)"
  have len: "length b4 = length a - length name - n1 - 1 - n3" "length b2 = length a - length name - n1" using * by auto
  have "0 < length b2" "n3 \<le> length b2 - 1" using *(5,6) whitespace_bound[of "tl b2"] by auto
  moreover have "n \<le> length name + n1 + 1 + n3 + length b4"
    using *(8) quoted_value_bound[of b4] parse_value_bound[of b4 v] by auto
  ultimately show ?thesis using *(2,8) len by auto
qed

lemma parameter_parts_extend:
  assumes "parameter_parts current a = Inr (Some (name, v, n))" and "n < length a"
  shows "parameter_parts current (a @ b) = Inr (Some (name, v, n))"
proof (rule parameter_parts_shape[OF assms(1)])
  fix n1 n3 b2 b4
  assume *: "guacd_parse_name a = Inr name" "name \<noteq> []" "current \<noteq> []" "n1 = guacd_parse_whitespace (drop (length name) a)"
    "b2 = drop n1 (drop (length name) a)" "b2 \<noteq> []" "hd b2 = equals" "n3 = guacd_parse_whitespace (tl b2)" "b4 = drop n3 (tl b2)"
    "(\<exists>k. guacd_parse_quoted_value b4 = Inr (Some (k, v)) \<and> n = length name + n1 + 1 + n3 + k)
     \<or> (guacd_parse_quoted_value b4 = Inr None \<and> guacd_parse_value b4 = Inr v \<and> n = length name + n1 + 1 + n3 + length v)"
  note nm = parameter_parts_prefix(1)[OF assms(1), of b]
  have l: "length name + n1 < length a" using *(5,6) by auto
  have d1: "drop (length name) (a @ b) = drop (length name) a @ b" using l by simp
  have w1: "guacd_parse_whitespace (drop (length name) a @ b) = n1"
    using *(4) l by (simp add: whitespace_extend)
  have d2: "drop n1 (drop (length name) a @ b) = b2 @ b" using *(5) l by simp
  have n3: "n3 < length (tl b2)" using *(10) assms(2) *(5,6) by auto
  have w3: "guacd_parse_whitespace (tl b2 @ b) = n3" using *(8) n3 by (simp add: whitespace_extend)
  have d3: "tl (b2 @ b) = tl b2 @ b" "drop n3 (tl b2 @ b) = b4 @ b" using *(6,9) n3 by auto
  have b4: "b4 \<noteq> []" "length b4 = length a - length name - n1 - 1 - n3" using n3 *(5,9) by auto
  have "(case guacd_parse_quoted_value (b4 @ b) of
            Inl e \<Rightarrow> Inl e
          | Inr (Some (k, v)) \<Rightarrow> Inr (Some (name, v, length name + n1 + 1 + n3 + k))
          | Inr None \<Rightarrow> (case guacd_parse_value (b4 @ b) of
                Inl e \<Rightarrow> Inl e | Inr v \<Rightarrow> Inr (Some (name, v, length name + n1 + 1 + n3 + length v))))
        = Inr (Some (name, v, n))"
    using *(10)
  proof (elim disjE exE conjE)
    fix k assume k: "guacd_parse_quoted_value b4 = Inr (Some (k, v))" "n = length name + n1 + 1 + n3 + k"
    show ?thesis using quoted_value_extend[OF k(1)] k(2) assms(2) b4 by simp
  next
    assume k: "guacd_parse_quoted_value b4 = Inr None" "guacd_parse_value b4 = Inr v" "n = length name + n1 + 1 + n3 + length v"
    have "guacd_parse_quoted_value (b4 @ b) = Inr None" using k(1) b4(1) by (simp add: quoted_value_none)
    then show ?thesis using parse_value_extend[OF k(2)] k(3) assms(2) b4 by simp
  qed
  then show ?thesis using *(2,3,6,7)
    unfolding parameter_parts_def nm sum.case d1 Let_def w1 d2 d3 w3 by simp
qed

section \<open>Lines that come in pieces\<close>

text \<open>A section is found in the text alone, and leaves the data alone.\<close>

lemma section_extend:
  assumes "guacd_parse_section st a = (st', Inr n)" and "a \<noteq> []"
  shows "guacd_parse_section st (a @ b) = (st', Inr n) \<and> n \<le> length a"
proof (cases "hd a = bracket")
  case False
  then show ?thesis using assms by (cases a) (auto simp: guacd_parse_section_def)
next
  case True
  then obtain cs where a: "a = bracket # cs" using assms(2) by (cases a) auto
  then obtain name where n: "guacd_parse_name cs = Inr name" "name \<noteq> []"
    and d: "drop (length name) cs \<noteq> []" "hd (drop (length name) cs) = end_bracket"
    and st: "st' = (name, snd st)" "n = Suc (length name) + 1"
    using assms(1) by (auto simp: guacd_parse_section_def Let_def split: sum.splits if_splits)
  have "length name < length cs" using d(1) by simp
  then show ?thesis using a n d st parse_name_extend[OF n(1)] by (simp add: guacd_parse_section_def)
qed

lemma section_hd: "a \<noteq> [] \<Longrightarrow> hd a \<noteq> bracket \<Longrightarrow> guacd_parse_section st a = (st, Inr 0)"
  by (cases a) (auto simp: guacd_parse_section_def)

lemma section_result: "snd (guacd_parse_section (s, d) a) = snd (guacd_parse_section (s', d') a)"
  by (auto simp: guacd_parse_section_def Let_def split: list.splits sum.splits)

lemma section_data: "snd (fst (guacd_parse_section st a)) = snd st"
  by (auto simp: guacd_parse_section_def Let_def split: list.splits sum.splits)

lemma section_bracket:
  "hd a = bracket \<Longrightarrow> a \<noteq> [] \<Longrightarrow> snd (guacd_parse_section st a) = Inr n \<Longrightarrow>
   0 < n \<and> fst (guacd_parse_section st a) = (take (n - 2) (tl a), snd st)"
  by (cases a) (auto simp: guacd_parse_section_def Let_def split: sum.splits if_splits dest: parse_name_bound)

lemma declaration_bracket:
  "a \<noteq> [] \<Longrightarrow> hd a = bracket \<Longrightarrow> guacd_parse_declaration callback st a = guacd_parse_section st a"
  using section_bracket[of a st]
  by (cases "guacd_parse_section st a") (fastforce simp: guacd_parse_declaration_def split: sum.splits)

lemma declaration_parameter:
  "a \<noteq> [] \<Longrightarrow> hd a \<noteq> bracket \<Longrightarrow> guacd_parse_declaration callback st a = guacd_parse_parameter callback st a"
  by (simp add: guacd_parse_declaration_def section_hd)

lemma parameter_extend:
  assumes "guacd_parse_parameter callback st a = (st', Inr n)" and "n < length a"
  shows "guacd_parse_parameter callback st (a @ b) = (st', Inr n)"
proof (cases "parameter_parts (fst st) a")
  case (Inr p)
  show ?thesis
  proof (cases p)
    case None
    have n: "guacd_parse_name a = Inr []" using Inr None by (intro parameter_parts_none) simp
    then have "guacd_parse_name (a @ b) = Inr []" using assms(2) by (intro parse_name_extend) auto
    then show ?thesis using Inr None assms(1) by (simp add: guacd_parse_parameter_def parameter_parts_def)
  next
    case (Some q)
    obtain name v m where q: "q = (name, v, m)" by (cases q)
    have "m = n" using assms(1) Inr Some q by (auto simp: guacd_parse_parameter_def split: prod.splits option.splits)
    then show ?thesis
      using parameter_parts_extend[of "fst st" a name v m b] assms Inr Some q
      by (auto simp: guacd_parse_parameter_def split: prod.splits option.splits)
  qed
qed (use assms in \<open>auto simp: guacd_parse_parameter_def\<close>)

lemma declaration_extend:
  assumes "guacd_parse_declaration callback st a = (st', Inr n)" and "n < length a"
  shows "guacd_parse_declaration callback st (a @ b) = (st', Inr n)"
proof (cases "hd a = bracket")
  case True
  then show ?thesis using assms section_extend[of st a st' n b] by (cases a) (auto simp: declaration_bracket)
next
  case False
  then show ?thesis using assms parameter_extend[of callback st a st' n b] by (cases a) (auto simp: declaration_parameter)
qed

lemma line_end_extend:
  assumes "guacd_parse_line_end a = Inr n"
  shows "guacd_parse_line_end (a @ b) = Inr n \<and> 0 < n \<and> n \<le> length a"
proof -
  define w where "w = guacd_parse_whitespace a"
  obtain k where c: "guacd_parse_comment (drop w a) = Inr k" and d: "drop k (drop w a) \<noteq> []"
    "hd (drop k (drop w a)) = carriage \<or> hd (drop k (drop w a)) = newline" and n: "n = w + k + 1"
    using assms unfolding guacd_parse_line_end_def Let_def w_def[symmetric] by (auto split: sum.splits if_splits)
  have l: "w + k < length a" using d(1) by simp
  have w: "guacd_parse_whitespace (a @ b) = w" using l w_def by (simp add: whitespace_extend)
  have "drop w a \<noteq> []" using l by simp
  then have "guacd_parse_comment (drop w a @ b) = Inr k"
    using c comment_loop_extend by (cases "drop w a") (auto simp: guacd_parse_comment_def split: if_splits)
  moreover have "drop w (a @ b) = drop w a @ b" "drop k (drop w a @ b) = drop k (drop w a) @ b" using l by simp_all
  ultimately show ?thesis
    using w d n l unfolding guacd_parse_line_end_def Let_def by simp
qed

lemma parameter_bound: "guacd_parse_parameter callback st a = (st', Inr n) \<Longrightarrow> n \<le> length a"
  using parameter_parts_bound[of "fst st" a]
  by (auto simp: guacd_parse_parameter_def split: sum.splits option.splits prod.splits)

lemma line_extend:
  assumes "guacd_parse_line callback st a = (st', Inr n)"
  shows "guacd_parse_line callback st (a @ b) = (st', Inr n) \<and> 0 < n \<and> n \<le> length a"
proof -
  define w where "w = guacd_parse_whitespace a"
  obtain k l where d: "guacd_parse_declaration callback st (drop w a) = (st', Inr k)"
    and e: "guacd_parse_line_end (drop k (drop w a)) = Inr l" and n: "n = w + k + l"
    using assms unfolding guacd_parse_line_def Let_def w_def[symmetric] by (auto split: prod.splits sum.splits)
  note e' = line_end_extend[OF e, of b]
  have l: "w + k + l \<le> length a" "w + k < length a" using e' by auto
  have w: "guacd_parse_whitespace (a @ b) = w" using l(2) w_def by (simp add: whitespace_extend)
  have "guacd_parse_declaration callback st (drop w a @ b) = (st', Inr k)" using declaration_extend[OF d] l(2) by simp
  then show ?thesis using w e' n l unfolding guacd_parse_line_def Let_def by simp
qed

text \<open>
  A line of which only a part has been read fails, but may have set the section or called the
  callback. Two outcomes are the same where the results are and, of a success, the states.
\<close>

definition same_outcome :: "'s \<times> (conf_error + nat) \<Rightarrow> 's \<times> (conf_error + nat) \<Rightarrow> bool" where
  "same_outcome r r' \<longleftrightarrow> snd r = snd r' \<and> (\<forall>n. snd r = Inr n \<longrightarrow> fst r = fst r')"

definition agree ::
    "'d conf_callback \<Rightarrow> byte list \<Rightarrow> byte list \<times> 'd \<Rightarrow> byte list \<times> 'd \<Rightarrow> bool" where
  "agree callback a st st' \<longleftrightarrow>
     (\<forall>b. same_outcome (guacd_parse_line callback st (a @ b)) (guacd_parse_line callback st' (a @ b)))"

lemma same_outcome_refl [simp]: "same_outcome r r"
  by (simp add: same_outcome_def)

lemma agree_refl [simp]: "agree callback a st st"
  by (simp add: agree_def)

lemma agree_trans: "agree callback a st st' \<Longrightarrow> agree callback (a @ c) st' st'' \<Longrightarrow> agree callback (a @ c) st st''"
  unfolding agree_def same_outcome_def by (metis append.assoc)

text \<open>
  What the callback promises: a call for a parameter leaves what a later call for the same parameter does as it
  was, and the later call replaces what the earlier one has stored.
\<close>

locale steady_callback =
  fixes callback :: "'d conf_callback"
  assumes call_result: "snd (callback s p v (fst (callback s p u d))) = snd (callback s p v d)"
    and call_replaces:
      "snd (callback s p v d) = None \<Longrightarrow> fst (callback s p v (fst (callback s p u d))) = fst (callback s p v d)"
begin

lemma parameter_retry:
  "same_outcome (guacd_parse_parameter callback st (a @ b))
     (guacd_parse_parameter callback (fst (guacd_parse_parameter callback st a)) (a @ b))"
proof (cases "\<exists>name v n. parameter_parts (fst st) a = Inr (Some (name, v, n))")
  case False
  then have "fst (guacd_parse_parameter callback st a) = st"
    by (auto simp: guacd_parse_parameter_def split: sum.splits option.splits)
  then show ?thesis by simp
next
  case True
  then obtain name v n where p: "parameter_parts (fst st) a = Inr (Some (name, v, n))" by blast
  have st': "fst (guacd_parse_parameter callback st a) = (fst st, fst (callback (fst st) name (cstr_at v 0) (snd st)))"
    using p by (simp add: guacd_parse_parameter_def split: prod.splits option.splits)
  show ?thesis
  proof (cases "parameter_parts (fst st) (a @ b)")
    case (Inl e)
    then show ?thesis unfolding st' by (simp add: guacd_parse_parameter_def same_outcome_def)
  next
    case (Inr q)
    then obtain v' n' where q: "parameter_parts (fst st) (a @ b) = Inr (Some (name, v', n'))"
      using parameter_parts_prefix(2,3)[OF p, of b] by (cases q) auto
    define d where "d = fst (callback (fst st) name (cstr_at v 0) (snd st))"
    obtain d1 r1 where 1: "callback (fst st) name (cstr_at v' 0) (snd st) = (d1, r1)" by (meson surj_pair)
    obtain d2 r2 where 2: "callback (fst st) name (cstr_at v' 0) d = (d2, r2)" by (meson surj_pair)
    have "r2 = r1" "r1 = None \<Longrightarrow> d2 = d1"
      using call_result[of "fst st" name "cstr_at v' 0" "cstr_at v 0" "snd st"]
        call_replaces[of "fst st" name "cstr_at v' 0" "snd st" "cstr_at v 0"] 1 2 by (simp_all add: d_def)
    then show ?thesis
      unfolding st' d_def[symmetric] using 1 2 q
      by (cases r1) (simp_all add: guacd_parse_parameter_def same_outcome_def)
  qed
qed

lemma declaration_retry:
  assumes "a \<noteq> []"
  shows "same_outcome (guacd_parse_declaration callback st (a @ b))
     (guacd_parse_declaration callback (fst (guacd_parse_declaration callback st a)) (a @ b))"
proof (cases "hd a = bracket")
  case True
  define st' where "st' = fst (guacd_parse_section st a)"
  have "snd st' = snd st" unfolding st'_def by (rule section_data)
  moreover have "snd (guacd_parse_section st (a @ b)) = snd (guacd_parse_section st' (a @ b))"
    using section_result[of "fst st" "snd st" "a @ b" "fst st'" "snd st'"] by simp
  ultimately have "same_outcome (guacd_parse_section st (a @ b)) (guacd_parse_section st' (a @ b))"
    using True assms section_bracket[of "a @ b" st] section_bracket[of "a @ b" st']
    unfolding same_outcome_def by (metis Nil_is_append_conv hd_append2)
  then show ?thesis using True assms by (simp add: declaration_bracket st'_def)
next
  case False
  then show ?thesis using assms parameter_retry by (simp add: declaration_parameter)
qed

lemma line_retry: "agree callback a st (fst (guacd_parse_line callback st a))"
proof -
  define w where "w = guacd_parse_whitespace a"
  define st' where "st' = fst (guacd_parse_declaration callback st (drop w a))"
  have st': "fst (guacd_parse_line callback st a) = st'"
    unfolding guacd_parse_line_def Let_def w_def[symmetric] st'_def by (simp split: prod.splits sum.splits)
  show ?thesis
  proof (cases "drop w a = []")
    case True
    have "fst (guacd_parse_declaration callback st []) = st"
      by (auto simp: guacd_parse_declaration_def guacd_parse_section_def guacd_parse_parameter_def
          parameter_parts_def guacd_parse_name_def)
    then show ?thesis using True st' st'_def by simp
  next
    case False
    show ?thesis
      unfolding agree_def st'
    proof
      fix b
      have w: "guacd_parse_whitespace (a @ b) = w" "drop w (a @ b) = drop w a @ b"
        using False w_def by (simp_all add: whitespace_extend)
      show "same_outcome (guacd_parse_line callback st (a @ b)) (guacd_parse_line callback st' (a @ b))"
        using declaration_retry[OF False, of st b] unfolding st'_def[symmetric]
        unfolding guacd_parse_line_def w Let_def
        by (auto simp: same_outcome_def split: prod.splits sum.splits)
    qed
  qed
qed

end

lemma conf_callback_steady:
  "snd (guacd_conf_callback ssl s p v (fst (guacd_conf_callback ssl s p u d))) = snd (guacd_conf_callback ssl s p v d)
   \<and> (snd (guacd_conf_callback ssl s p v d) = None \<longrightarrow>
      fst (guacd_conf_callback ssl s p v (fst (guacd_conf_callback ssl s p u d))) = fst (guacd_conf_callback ssl s p v d))"
proof -
  consider "s = cstr ''server''" | "s = cstr ''daemon''" | "s = cstr ''ssl''"
    | "s \<noteq> cstr ''server''" "s \<noteq> cstr ''daemon''" "s \<noteq> cstr ''ssl''" by blast
  then show ?thesis
  proof cases
    case 1
    then show ?thesis
      by (cases "p = cstr ''bind_host''"; cases "p = cstr ''bind_port''") (simp_all add: guacd_conf_callback_def)
  next
    case 2
    consider "p = cstr ''pid_file''" | "p = cstr ''log_level''" | "p \<noteq> cstr ''pid_file''" "p \<noteq> cstr ''log_level''" by blast
    then show ?thesis
    proof cases
      case 2
      then have "guacd_conf_callback ssl s p w c =
          (if guacd_parse_log_level w < 0 then (c, Some invalid_log_level)
           else (c\<lparr>max_log_level := guacd_parse_log_level w\<rparr>, None))" for w c
        using \<open>s = cstr ''daemon''\<close> by (simp add: guacd_conf_callback_def Let_def)
      then show ?thesis by simp
    qed (simp_all add: \<open>s = cstr ''daemon''\<close> guacd_conf_callback_def Let_def)
  next
    case 3
    then show ?thesis
      by (cases ssl; cases "p = cstr ''server_certificate''"; cases "p = cstr ''server_key''")
        (simp_all add: guacd_conf_callback_def)
  next
    case 4
    then show ?thesis unfolding guacd_conf_callback_def Let_def by (simp del: cstr_simps)
  qed
qed

interpretation conf: steady_callback "guacd_conf_callback ENABLE_SSL" for ENABLE_SSL
  by unfold_locales (simp_all add: conf_callback_steady)

section \<open>The file as a whole\<close>

text \<open>The file read line by line, each line seen together with what follows it in a full buffer.\<close>

function conf_lines :: "'d conf_callback \<Rightarrow> byte list \<times> 'd \<Rightarrow> byte list \<Rightarrow> 'd option" where
  "conf_lines callback st contents =
     (if contents = [] then Some (snd st)
      else
        (case guacd_parse_line callback st (take 8192 contents) of
           (st, Inl e) \<Rightarrow> None
         | (st, Inr n) \<Rightarrow> conf_lines callback st (drop n contents)))"
  by pat_completeness auto
termination
  by (relation "measure (\<lambda>(callback, st, contents). length contents)")
     (auto dest!: line_extend[OF sym, where b = "[]"])

declare conf_lines.simps [simp del]

text \<open>A state and buffer of the reading loop, against the state at the beginning of the line in the buffer.\<close>

definition pending ::
    "'d conf_callback \<Rightarrow> byte list \<times> 'd \<Rightarrow> byte list \<times> 'd \<Rightarrow> byte list \<Rightarrow> conf_error option \<Rightarrow> bool" where
  "pending callback st st' buffer parsed \<longleftrightarrow>
     length buffer \<le> 8192 \<and> agree callback buffer st st' \<and> (parsed = None \<longleftrightarrow> buffer = [])
     \<and> (buffer = [] \<longrightarrow> st' = st)
     \<and> (buffer \<noteq> [] \<longrightarrow> (\<exists>e. snd (guacd_parse_line callback st buffer) = Inl e))"

lemma conf_lines_step:
  assumes "guacd_parse_line callback st a = (st', Inr n)" and "length a \<le> 8192"
  shows "conf_lines callback st (a @ b) = conf_lines callback st' (drop n a @ b)"
proof -
  note e = line_extend[OF assms(1), of "take (8192 - length a) b"]
  have "a \<noteq> []" using e by auto
  then show ?thesis using e assms(2) by (subst conf_lines.simps) simp
qed

lemma conf_lines_fail:
  "snd (guacd_parse_line callback st (take 8192 a)) = Inl e \<Longrightarrow> a \<noteq> [] \<Longrightarrow> conf_lines callback st a = None"
  by (subst conf_lines.simps) (auto split: prod.splits)

context steady_callback
begin

lemma lines_loop:
  assumes "conf_lines_loop callback st a line = (st', buffer, line', parsed)" and "length a \<le> 8192"
  shows "\<exists>st0. pending callback st0 st' buffer parsed \<and> conf_lines callback st (a @ b) = conf_lines callback st0 (buffer @ b)"
  using assms
proof (induction a arbitrary: st line rule: length_induct)
  case (1 a)
  show ?case
  proof (cases "a = []")
    case True
    then have "st' = st \<and> buffer = [] \<and> parsed = None" using "1.prems"(1)
      by (subst (asm) conf_lines_loop.simps) (auto simp: guacd_parse_conf_def)
    then show ?thesis using True by (intro exI[of _ st]) (simp add: pending_def)
  next
    case False
    obtain st2 r where l: "guacd_parse_line callback st a = (st2, r)" by (meson surj_pair)
    show ?thesis
    proof (cases r)
      case (Inl e)
      then have "st' = st2" "buffer = a" "parsed = Some e"
        using "1.prems"(1) l False by (subst (asm) conf_lines_loop.simps, simp add: guacd_parse_conf_def)+
      then have "pending callback st st' buffer parsed"
        using False l Inl "1.prems"(2) line_retry[of a st] by (simp add: pending_def)
      then show ?thesis using \<open>buffer = a\<close> by blast
    next
      case (Inr n)
      have n: "0 < n" "n \<le> length a" using line_extend[of callback st a st2 n "[]"] l Inr by simp_all
      have "conf_lines_loop callback st2 (drop n a) (Suc line) = (st', buffer, line', parsed)"
        using "1.prems"(1) l Inr n False by (subst (asm) conf_lines_loop.simps) (simp add: guacd_parse_conf_def)
      moreover have "length (drop n a) < length a" using n by simp
      ultimately show ?thesis
        using "1.IH" "1.prems"(2) conf_lines_step[of callback st a st2 n b] l Inr by fastforce
    qed
  qed
qed

lemma lines_loop_pending:
  assumes "conf_lines_loop callback st2 (a @ c) line = (st', buffer, line', parsed)" and "length (a @ c) \<le> 8192"
    and "pending callback st st2 a p" and "c \<noteq> []"
  shows "\<exists>st0. pending callback st0 st' buffer parsed
    \<and> conf_lines callback st (a @ c @ b) = conf_lines callback st0 (buffer @ b)"
proof -
  have ag: "same_outcome (guacd_parse_line callback st (a @ c)) (guacd_parse_line callback st2 (a @ c))"
    using assms(3) by (simp add: pending_def agree_def)
  obtain st3 r where l: "guacd_parse_line callback st2 (a @ c) = (st3, r)" by (meson surj_pair)
  show ?thesis
  proof (cases r)
    case (Inl e)
    have *: "st' = st3" "buffer = a @ c" "parsed = Some e"
      using assms(1,4) l Inl by (subst (asm) conf_lines_loop.simps, simp add: guacd_parse_conf_def)+
    have "agree callback (a @ c) st st'"
      using agree_trans[of callback a st st2 c st3] assms(3) line_retry[of "a @ c" st2] l * by (simp add: pending_def)
    moreover have "snd (guacd_parse_line callback st (a @ c)) = Inl e" using ag l Inl by (simp add: same_outcome_def)
    ultimately have "pending callback st st' buffer parsed" using assms(2,4) * by (simp add: pending_def)
    then show ?thesis using *(2) by (intro exI[of _ st]) simp
  next
    case (Inr n)
    then have l0: "guacd_parse_line callback st (a @ c) = (st3, Inr n)"
      using ag l by (cases "guacd_parse_line callback st (a @ c)") (simp add: same_outcome_def)
    have n: "0 < n" using line_extend[OF l0, of "[]"] by simp
    have "conf_lines_loop callback st3 (drop n (a @ c)) (Suc line) = (st', buffer, line', parsed)"
      using assms(1,4) l Inr n by (subst (asm) conf_lines_loop.simps) (simp add: guacd_parse_conf_def)
    moreover have "length (drop n (a @ c)) \<le> 8192" using assms(2) by simp
    ultimately have "\<exists>st0. pending callback st0 st' buffer parsed
        \<and> conf_lines callback st3 (drop n (a @ c) @ b) = conf_lines callback st0 (buffer @ b)"
      by (rule lines_loop)
    then show ?thesis using conf_lines_step[OF l0 assms(2), of b] by simp
  qed
qed

lemma file_loop:
  assumes "pending callback st st' buffer parsed" and "None \<notin> set sched"
  shows "(case conf_file_loop callback st' sched contents buffer line parsed of
            (d, None) \<Rightarrow> Some d | (d, Some e) \<Rightarrow> None) = conf_lines callback st (buffer @ contents)"
  using assms
proof (induction contents arbitrary: st st' sched buffer line parsed rule: length_induct)
  case (1 contents)
  note P = "1.prems"(1)[unfolded pending_def]
  obtain ready where r: "scheduled sched = Some ready"
    using "1.prems"(2) by (cases "scheduled sched") (auto simp: scheduled_def split: list.splits)
  define n where "n = min (8192 - length buffer) (max 1 ready)"
  show ?case
  proof (cases "n = 0 \<or> contents = []")
    case True
    then have u: "conf_file_loop callback st' sched contents buffer line parsed =
        (snd st', case parsed of Some (m, k) \<Rightarrow> Some (ParseError line (length buffer - k + 1) m) | None \<Rightarrow> None)"
      using r by (subst conf_file_loop.simps) (simp add: Let_def n_def)
    show ?thesis
    proof (cases "buffer = []")
      case True
      then have "contents = []" using \<open>n = 0 \<or> contents = []\<close> by (auto simp: n_def)
      then show ?thesis using u P True by (subst conf_lines.simps) simp
    next
      case False
      have "take 8192 (buffer @ contents) = buffer" using True P by (auto simp: n_def)
      then have "conf_lines callback st (buffer @ contents) = None"
        using P False by (auto intro: conf_lines_fail)
      moreover obtain m k where "parsed = Some (m, k)" using P False by (cases parsed) auto
      ultimately show ?thesis using u by simp
    qed
  next
    case False
    obtain st2 buf2 line2 parsed2
      where l: "conf_lines_loop callback st' (buffer @ take n contents) line = (st2, buf2, line2, parsed2)"
      by (rule prod_cases4)
    have u: "conf_file_loop callback st' sched contents buffer line parsed =
        conf_file_loop callback st2 (tl sched) (drop n contents) buf2 line2 parsed2"
      using r False l by (subst conf_file_loop.simps) (simp add: Let_def del: One_nat_def flip: n_def)
    have "n \<le> 8192 - length buffer" by (simp add: n_def)
    then have "length (buffer @ take n contents) \<le> 8192" using P by auto
    moreover have "take n contents \<noteq> []" using False by simp
    ultimately obtain st0 where st0: "pending callback st0 st2 buf2 parsed2"
      "conf_lines callback st (buffer @ take n contents @ drop n contents) = conf_lines callback st0 (buf2 @ drop n contents)"
      using lines_loop_pending[OF l _ "1.prems"(1)] by blast
    have t: "None \<notin> set (tl sched)" using "1.prems"(2) by (cases sched) auto
    have "length (drop n contents) < length contents" using False by simp
    from "1.IH"[rule_format, OF this st0(1) t] show ?thesis using st0(2) u by simp
  qed
qed

lemma file_lines:
  assumes "None \<notin> set sched"
  shows "(case conf_file_loop callback st sched contents [] line None of
            (d, None) \<Rightarrow> Some d | (d, Some e) \<Rightarrow> None) = conf_lines callback st contents"
  using file_loop[of st st "[]" None sched contents line] assms by (simp add: pending_def)

end

text \<open>
  C36. What guacd reads from its configuration file does not depend on how the file comes in: whatever the
  number of bytes of each read, the file is accepted exactly if its lines are, taken one after
  the other, and the configuration is the one they give, although lines that are not yet complete have been
  parsed, and have called the callback, any number of times.
\<close>

theorem conf_file_any_reads:
  assumes "None \<notin> set sched"
  shows "(case guacd_conf_parse_file ssl config sched contents of (c, None) \<Rightarrow> Some c | (c, Some e) \<Rightarrow> None)
    = conf_lines (guacd_conf_callback ssl) ([], config) contents"
  unfolding guacd_conf_parse_file_def by (rule conf.file_lines[OF assms])

section \<open>Files written by the grammar\<close>

datatype conf_item =
    ConfSection "byte list"
  | ConfPlain "byte list" "byte list"
  | ConfQuoted "byte list" "byte list"
  | ConfBlank

text \<open>Within quotation marks a backslash stands before the characters that would end the value.\<close>

definition quote_char :: "byte \<Rightarrow> byte list" where
  "quote_char c = (if c = quotation \<or> c = backslash \<or> c = carriage \<or> c = newline then [backslash, c] else [c])"

fun item_text :: "conf_item \<Rightarrow> byte list" where
  "item_text (ConfSection name) = bracket # name @ [end_bracket]"
| "item_text (ConfPlain name v) = name @ equals # v"
| "item_text (ConfQuoted name v) = name @ equals # quotation # concat (map quote_char v) @ [quotation]"
| "item_text ConfBlank = []"

definition line_text :: "conf_item \<times> byte list option \<Rightarrow> byte list" where
  "line_text l = item_text (fst l) @ (case snd l of None \<Rightarrow> [] | Some comment \<Rightarrow> hash # comment) @ [newline]"

definition legal_name :: "byte list \<Rightarrow> bool" where
  "legal_name name \<longleftrightarrow> name \<noteq> [] \<and> length name \<le> 255 \<and> (\<forall>c \<in> set name. isalnum c \<or> c = underscore)"

fun legal_item :: "conf_item \<Rightarrow> bool" where
  "legal_item (ConfSection name) \<longleftrightarrow> legal_name name"
| "legal_item (ConfPlain name v) \<longleftrightarrow> legal_name name \<and> v \<noteq> [] \<and> (\<forall>c \<in> set v. \<not> ends_value c \<and> c \<noteq> 0)"
| "legal_item (ConfQuoted name v) \<longleftrightarrow> legal_name name \<and> 0 \<notin> set v"
| "legal_item ConfBlank \<longleftrightarrow> True"

definition legal_line :: "conf_item \<times> byte list option \<Rightarrow> bool" where
  "legal_line l \<longleftrightarrow> legal_item (fst l) \<and> length (line_text l) \<le> 8192
     \<and> (\<forall>comment. snd l = Some comment \<longrightarrow> newline \<notin> set comment \<and> carriage \<notin> set comment)"

text \<open>What the items of a file mean.\<close>

definition set_parameter :: "'d conf_callback \<Rightarrow> byte list \<times> 'd \<Rightarrow> byte list \<Rightarrow> byte list \<Rightarrow> (byte list \<times> 'd) option" where
  "set_parameter callback st name v =
     (if fst st = [] then None
      else (case callback (fst st) name v (snd st) of (d, None) \<Rightarrow> Some (fst st, d) | (d, Some _) \<Rightarrow> None))"

fun apply_item :: "'d conf_callback \<Rightarrow> byte list \<times> 'd \<Rightarrow> conf_item \<Rightarrow> (byte list \<times> 'd) option" where
  "apply_item callback st (ConfSection name) = Some (name, snd st)"
| "apply_item callback st (ConfPlain name v) = set_parameter callback st name v"
| "apply_item callback st (ConfQuoted name v) = set_parameter callback st name v"
| "apply_item callback st ConfBlank = Some st"

primrec apply_items :: "'d conf_callback \<Rightarrow> byte list \<times> 'd \<Rightarrow> conf_item list \<Rightarrow> 'd option" where
  "apply_items callback st [] = Some (snd st)"
| "apply_items callback st (i # is) =
     (case apply_item callback st i of None \<Rightarrow> None | Some st \<Rightarrow> apply_items callback st is)"

lemma name_loop_legal:
  assumes "\<forall>c \<in> set name. isalnum c \<or> c = underscore" and "n + length name \<le> 255"
    and "rest \<noteq> [] \<longrightarrow> \<not> isalnum (hd rest) \<and> hd rest \<noteq> underscore"
  shows "name_loop (name @ rest) n = Inr (n + length name)"
  using assms by (induction name arbitrary: n) (cases rest; auto)+

lemma parse_legal_name:
  "legal_name name \<Longrightarrow> \<not> isalnum c \<Longrightarrow> c \<noteq> underscore \<Longrightarrow> guacd_parse_name (name @ c # rest) = Inr name"
  using name_loop_legal[of name 0 "c # rest"] by (simp add: guacd_parse_name_def legal_name_def)

lemma value_loop_legal:
  assumes "\<forall>c \<in> set v. \<not> ends_value c" and "n + length v \<le> 8191" and "ends_value c"
  shows "value_loop (v @ c # rest) n = Inr (n + length v)"
  using assms by (induction v arbitrary: n) auto

lemma quoted_loop_legal:
  assumes "n + length (concat (map quote_char v)) \<le> 8191" and "n + length (concat (map quote_char v)) \<le> len"
  shows "quoted_loop len (concat (map quote_char v) @ quotation # rest) n False w
    = Inr (n + length (concat (map quote_char v)), quotation # rest, w @ v)"
  using assms by (induction v arbitrary: n w) (auto simp: quote_char_def split: if_splits)

lemma not_name_chars [simp]:
  "\<not> isalnum 9" "\<not> isalnum 10" "\<not> isalnum 13" "\<not> isalnum 32" "\<not> isalnum 34" "\<not> isalnum 35" "\<not> isalnum 61"
  "\<not> isalnum 91" "\<not> isalnum 93"
  by (simp_all add: isalnum_def)

lemma cstr_at_value: "0 \<notin> set v \<Longrightarrow> cstr_at v 0 = v"
  by (auto simp: cstr_at_def)

lemma line_end_text:
  assumes "\<forall>comment. k = Some comment \<longrightarrow> newline \<notin> set comment \<and> carriage \<notin> set comment"
  shows "guacd_parse_line_end ((case k of None \<Rightarrow> [] | Some comment \<Rightarrow> hash # comment) @ newline # rest)
    = Inr (length (case k of None \<Rightarrow> [] | Some comment \<Rightarrow> hash # comment) + 1)"
proof (cases k)
  case None
  then show ?thesis by (simp add: guacd_parse_line_end_def guacd_parse_comment_def Let_def)
next
  case (Some comment)
  have "newline \<notin> set c \<Longrightarrow> carriage \<notin> set c \<Longrightarrow> comment_loop (c @ newline # rest) n = Inr (n + length c)" for c n
    by (induction c arbitrary: n) auto
  then show ?thesis using assms Some by (simp add: guacd_parse_line_end_def guacd_parse_comment_def Let_def)
qed

text \<open>Each item is parsed as itself when a line end or a comment follows.\<close>

lemma whitespace_none: "a = [] \<or> hd a \<noteq> space \<and> hd a \<noteq> tab \<Longrightarrow> guacd_parse_whitespace a = 0"
  by (cases a) auto

lemma parameter_plain:
  assumes "legal_item (ConfPlain name v)" and "length v \<le> 8191" and "ends_value c"
  shows "guacd_parse_parameter callback st (item_text (ConfPlain name v) @ c # rest) =
    (if fst st = [] then (st, Inl (''Parameters must have a corresponding section'', length (item_text (ConfPlain name v) @ c # rest)))
     else (case callback (fst st) name v (snd st) of
             (d, Some m) \<Rightarrow> ((fst st, d), Inl (m, length (item_text (ConfPlain name v) @ c # rest)))
           | (d, None) \<Rightarrow> ((fst st, d), Inr (length (item_text (ConfPlain name v))))))"
proof -
  have n: "guacd_parse_name (name @ equals # v @ c # rest) = Inr name" "name \<noteq> []"
    using assms(1) parse_legal_name[of name equals "v @ c # rest"] by (auto simp: legal_name_def)
  have v: "hd (v @ c # rest) \<in> set v" "\<forall>c \<in> set v. \<not> ends_value c" "v \<noteq> []" "0 \<notin> set v" using assms(1) by auto
  then have h: "hd (v @ c # rest) \<noteq> space" "hd (v @ c # rest) \<noteq> tab" "hd (v @ c # rest) \<noteq> quotation"
    by (auto simp: ends_value_def)
  have w: "guacd_parse_whitespace (v @ c # rest) = 0" using h by (intro whitespace_none) simp
  have q: "guacd_parse_quoted_value (v @ c # rest) = Inr None" using h by (simp add: quoted_value_none)
  have "guacd_parse_value (v @ c # rest) = Inr v"
    using value_loop_legal[of v 0 c rest] assms v by (simp add: guacd_parse_value_def)
  then have "parameter_parts (fst st) (name @ equals # v @ c # rest) =
      (if fst st = [] then Inl (''Parameters must have a corresponding section'', length (name @ equals # v @ c # rest))
       else Inr (Some (name, v, length name + 1 + length v)))"
    unfolding parameter_parts_def using n w q by (simp add: Let_def)
  then show ?thesis using v(4)
    by (simp add: guacd_parse_parameter_def cstr_at_value split: prod.splits option.splits)
qed

lemma parameter_quoted:
  assumes "legal_item (ConfQuoted name v)" and "length (concat (map quote_char v)) \<le> 8189"
  shows "guacd_parse_parameter callback st (item_text (ConfQuoted name v) @ c # rest) =
    (if fst st = [] then (st, Inl (''Parameters must have a corresponding section'', length (item_text (ConfQuoted name v) @ c # rest)))
     else (case callback (fst st) name v (snd st) of
             (d, Some m) \<Rightarrow> ((fst st, d), Inl (m, length (item_text (ConfQuoted name v) @ c # rest)))
           | (d, None) \<Rightarrow> ((fst st, d), Inr (length (item_text (ConfQuoted name v))))))"
proof -
  let ?v = "concat (map quote_char v)"
  have n: "guacd_parse_name (name @ equals # quotation # ?v @ quotation # c # rest) = Inr name" "name \<noteq> []"
    using assms(1) parse_legal_name[of name equals "quotation # ?v @ quotation # c # rest"] by (auto simp: legal_name_def)
  have "guacd_parse_quoted_value (quotation # ?v @ quotation # c # rest) = Inr (Some (length ?v + 2, v))"
    using quoted_loop_legal[of 1 v "length (?v @ quotation # c # rest)" "c # rest" "[]"] assms(2)
    by (simp add: guacd_parse_quoted_value_def)
  then have "parameter_parts (fst st) (name @ equals # quotation # ?v @ quotation # c # rest) =
      (if fst st = [] then Inl (''Parameters must have a corresponding section'',
                                length (name @ equals # quotation # ?v @ quotation # c # rest))
       else Inr (Some (name, v, length name + 1 + (length ?v + 2))))"
    unfolding parameter_parts_def using n by (simp add: Let_def)
  then show ?thesis using assms(1)
    by (simp add: guacd_parse_parameter_def cstr_at_value split: prod.splits option.splits)
qed

lemma line_read_back:
  assumes "legal_line l"
  shows "case apply_item callback st (fst l) of
           Some st' \<Rightarrow> guacd_parse_line callback st (line_text l @ behind) = (st', Inr (length (line_text l)))
         | None \<Rightarrow> (\<exists>e. snd (guacd_parse_line callback st (line_text l @ behind)) = Inl e)"
proof -
  let ?k = "case snd l of None \<Rightarrow> [] | Some comment \<Rightarrow> hash # comment"
  obtain c rest where cr: "?k @ [newline] = c # rest" "ends_value c" "c \<noteq> space" "c \<noteq> tab" "c \<noteq> bracket"
    "\<not> isalnum c" "c \<noteq> underscore"
    by (cases "snd l") (auto simp: ends_value_def)
  have e: "guacd_parse_line_end (c # rest @ behind) = Inr (length (c # rest))"
    using line_end_text[of "snd l" behind] assms cr(1) by (cases "snd l") (auto simp: legal_line_def)
  define t where "t = item_text (fst l)"
  have lt: "line_text l = t @ c # rest" using cr(1) by (simp add: line_text_def t_def)
  have len: "length t < 8192" using assms unfolding legal_line_def lt by simp
  have hd: "t \<noteq> [] \<Longrightarrow> hd t \<noteq> space \<and> hd t \<noteq> tab \<and> (hd t = bracket \<longrightarrow> (\<exists>name. fst l = ConfSection name))"
    using assms by (cases "fst l") (auto simp: t_def legal_line_def legal_name_def neq_Nil_conv)
  have w: "guacd_parse_whitespace (t @ c # rest @ behind) = 0"
    using cr(3,4) hd by (intro whitespace_none) (cases t, auto)
  have decl: "case apply_item callback st (fst l) of
      Some st' \<Rightarrow> guacd_parse_declaration callback st (t @ c # rest @ behind) = (st', Inr (length t))
    | None \<Rightarrow> (\<exists>e. snd (guacd_parse_declaration callback st (t @ c # rest @ behind)) = Inl e)"
  proof (cases "fst l")
    case (ConfSection name)
    then have "guacd_parse_name (name @ end_bracket # c # rest @ behind) = Inr name" "name \<noteq> []"
      using assms parse_legal_name[of name end_bracket "c # rest @ behind"] by (auto simp: legal_line_def legal_name_def)
    then have "guacd_parse_section st (t @ c # rest @ behind) = ((name, snd st), Inr (length t))"
      using ConfSection by (simp add: t_def guacd_parse_section_def Let_def)
    then show ?thesis using ConfSection by (simp add: declaration_bracket t_def)
  next
    case (ConfPlain name v)
    have "hd (t @ c # rest @ behind) \<noteq> bracket" using hd ConfPlain by (auto simp: t_def hd_append split: if_splits)
    then show ?thesis
      using parameter_plain[of name v c callback st "rest @ behind"] ConfPlain assms cr(2) len
      by (auto simp: declaration_parameter t_def legal_line_def set_parameter_def split: prod.splits option.splits)
  next
    case (ConfQuoted name v)
    have "hd (t @ c # rest @ behind) \<noteq> bracket" using hd ConfQuoted by (auto simp: t_def hd_append split: if_splits)
    then show ?thesis
      using parameter_quoted[of name v callback st c "rest @ behind"] ConfQuoted assms len
      by (auto simp: declaration_parameter t_def legal_line_def set_parameter_def split: prod.splits option.splits)
  next
    case ConfBlank
    have "guacd_parse_name (c # rest @ behind) = Inr []" using cr(6,7) by (simp add: guacd_parse_name_def)
    then show ?thesis using ConfBlank cr(5)
      by (simp add: declaration_parameter t_def guacd_parse_parameter_def parameter_parts_def)
  qed
  have "line_text l @ behind = t @ c # rest @ behind" by (simp add: lt)
  moreover have "length (line_text l) = length t + length (c # rest)" by (simp add: lt)
  ultimately show ?thesis
    using decl e w unfolding guacd_parse_line_def Let_def
    by (auto split: option.splits prod.splits sum.splits)
qed

lemma lines_read_back:
  assumes "list_all legal_line ls"
  shows "conf_lines callback st (concat (map line_text ls)) = apply_items callback st (map fst ls)"
  using assms
proof (induction ls arbitrary: st)
  case Nil
  then show ?case by (subst conf_lines.simps) simp
next
  case (Cons l ls)
  have l: "legal_line l" "length (line_text l) \<le> 8192" "line_text l \<noteq> []"
    using Cons.prems by (auto simp: legal_line_def line_text_def)
  show ?case
  proof (cases "apply_item callback st (fst l)")
    case None
    let ?r = "concat (map line_text ls)"
    have "take 8192 (line_text l @ ?r) = line_text l @ take (8192 - length (line_text l)) ?r" using l(2) by simp
    then obtain e where "snd (guacd_parse_line callback st (take 8192 (line_text l @ ?r))) = Inl e"
      using line_read_back[OF l(1), of callback st "take (8192 - length (line_text l)) ?r"] None by auto
    then show ?thesis using None l(3) by (simp add: conf_lines_fail)
  next
    case (Some st')
    then have "guacd_parse_line callback st (line_text l) = (st', Inr (length (line_text l)))"
      using line_read_back[OF l(1), of callback st "[]"] by simp
    then show ?thesis using Some Cons conf_lines_step[of callback st "line_text l" st' _ "concat (map line_text ls)"] l
      by simp
  qed
qed

theorem conf_file_any_reads_witness:
  "(case guacd_conf_parse_file False
       \<lparr>bind_host = None, bind_port = None, pidfile = None, foreground = 0, print_version = 0, cert_file = None,
        key_file = None, max_log_level = 6\<rparr> [Some 9, Some 1, Some 12] (cstr ''[daemon]'' @ [10] @ cstr ''log_level=trace'' @ [10])
     of (c, None) \<Rightarrow> Some (max_log_level c) | (c, Some e) \<Rightarrow> None) = Some 8"
proof -
  let ?c = "\<lparr>bind_host = None, bind_port = None, pidfile = None, foreground = 0, print_version = 0, cert_file = None,
        key_file = None, max_log_level = 6\<rparr>"
  let ?f = "cstr ''[daemon]'' @ [10] @ cstr ''log_level=trace'' @ [10]"
  have "map_option max_log_level (conf_lines (guacd_conf_callback False) ([], ?c) ?f) = Some 8"
  proof -
    let ?l = "[(ConfSection (cstr ''daemon''), None), (ConfPlain (cstr ''log_level'') (cstr ''trace''), None)]"
    have l: "list_all legal_line ?l"
      by (simp add: legal_line_def legal_name_def isalnum_def line_text_def ends_value_def)
    have "concat (map line_text ?l) = ?f" by (simp add: line_text_def)
    with lines_read_back[OF l, of "guacd_conf_callback False" "([], ?c)"] show ?thesis
      by (simp add: set_parameter_def guacd_conf_callback_def guacd_parse_log_level_def Let_def)
  qed
  moreover have s: "None \<notin> set [Some 9, Some 1, Some (12::nat)]" by simp
  ultimately have "map_option max_log_level (case guacd_conf_parse_file False ?c [Some 9, Some 1, Some 12] ?f of
      (c, None) \<Rightarrow> Some c | (c, Some e) \<Rightarrow> None) = Some 8"
    by (simp only: conf_file_any_reads[OF s])
  then show ?thesis by (simp split: prod.splits option.splits)
qed



end
