(* ===== verification/Rdp_Keyboard.thy ===== *)
theory Rdp_Keyboard
  imports Guac_Prelude
begin

text \<open>
  The keyboard of an RDP session (\<open>src/protocols/rdp/keyboard.c\<close>, \<open>keymap.h\<close>, \<open>decompose.c\<close>): key events of the user as
  keysyms become events of a remote keyboard as scancodes. The events sent are collected in a list; an event
  of a key says whether it is pressed, the flag that the code adds for it.
\<close>

unbundle bit_operations_syntax

section \<open>Keymaps and keyboards\<close>

record guac_rdp_keysym_desc =
  desc_keysym :: int
  desc_scancode :: int
  desc_flags :: int
  set_keysyms :: "int list"
  clear_keysyms :: "int list"
  set_locks :: int
  clear_locks :: int

text \<open>A keymap is its parent, its name and its mapping.\<close>

datatype guac_rdp_keymap = Keymap "guac_rdp_keymap option" string "guac_rdp_keysym_desc list"

datatype guac_rdp_key_state = GUAC_RDP_KEY_RELEASED | GUAC_RDP_KEY_PRESSED

record guac_rdp_key =
  key_definition :: "guac_rdp_keysym_desc option"
  key_state :: guac_rdp_key_state

datatype rdp_event = KeyboardEvent int int bool | UnicodeKeyboardEvent int | SynchronizeEvent int

text \<open>The events sent stand for the input of the connection, which may not be there yet.\<close>

record guac_rdp_keyboard =
  lock_flags :: int
  synchronized :: bool
  rdp_keys :: "nat \<Rightarrow> guac_rdp_key"
  rdp_connected :: bool
  rdp_sent :: "rdp_event list"

abbreviation (input) KBD_SYNC_SCROLL_LOCK :: int where "KBD_SYNC_SCROLL_LOCK \<equiv> 1"
abbreviation (input) KBD_SYNC_NUM_LOCK :: int where "KBD_SYNC_NUM_LOCK \<equiv> 2"
abbreviation (input) KBD_SYNC_CAPS_LOCK :: int where "KBD_SYNC_CAPS_LOCK \<equiv> 4"
abbreviation (input) KBD_SYNC_KANA_LOCK :: int where "KBD_SYNC_KANA_LOCK \<equiv> 8"

definition guac_rdp_keyboard_lock_flag :: "int \<Rightarrow> int" where
  "guac_rdp_keyboard_lock_flag keysym =
     (if keysym = 0xFF14 then KBD_SYNC_SCROLL_LOCK
      else if keysym = 0xFF2D then KBD_SYNC_KANA_LOCK
      else if keysym = 0xFF7F then KBD_SYNC_NUM_LOCK
      else if keysym = 0xFFE5 then KBD_SYNC_CAPS_LOCK
      else 0)"

definition rdp_send :: "rdp_event \<Rightarrow> guac_rdp_keyboard \<Rightarrow> guac_rdp_keyboard" where
  "rdp_send e kb = (if rdp_connected kb then kb\<lparr>rdp_sent := rdp_sent kb @ [e]\<rparr> else kb)"

definition guac_rdp_send_key_event :: "int \<Rightarrow> int \<Rightarrow> bool \<Rightarrow> guac_rdp_keyboard \<Rightarrow> guac_rdp_keyboard" where
  "guac_rdp_send_key_event scancode flags pressed = rdp_send (KeyboardEvent flags scancode pressed)"

definition guac_rdp_send_unicode_event :: "int \<Rightarrow> guac_rdp_keyboard \<Rightarrow> guac_rdp_keyboard" where
  "guac_rdp_send_unicode_event codepoint = rdp_send (UnicodeKeyboardEvent codepoint)"

definition guac_rdp_send_synchronize_event :: "int \<Rightarrow> guac_rdp_keyboard \<Rightarrow> guac_rdp_keyboard" where
  "guac_rdp_send_synchronize_event flags = rdp_send (SynchronizeEvent flags)"

text \<open>Pointers to keys are indices of \<open>keys\<close>.\<close>

definition guac_rdp_keyboard_map_key :: "int \<Rightarrow> nat option" where
  "guac_rdp_keyboard_map_key keysym =
     (if keysym \<ge> 0x0000 \<and> keysym \<le> 0xFFFF then Some (nat keysym)
      else if keysym \<ge> 0x1000000 \<and> keysym \<le> 0x100FFFF then Some (0x10000 + nat (keysym AND 0xFFFF))
      else None)"

definition guac_rdp_keyboard_get_key :: "guac_rdp_keyboard \<Rightarrow> int \<Rightarrow> nat option" where
  "guac_rdp_keyboard_get_key kb keysym =
     (case guac_rdp_keyboard_map_key keysym of
        None \<Rightarrow> None
      | Some i \<Rightarrow> if key_definition (rdp_keys kb i) = None then None else Some i)"

text \<open>A mapping ends at an entry without a keysym.\<close>

primrec load_mapping :: "guac_rdp_keysym_desc list \<Rightarrow> guac_rdp_keyboard \<Rightarrow> guac_rdp_keyboard" where
  "load_mapping [] kb = kb"
| "load_mapping (d # ds) kb =
     (if desc_keysym d = 0 then kb
      else load_mapping ds
        (case guac_rdp_keyboard_map_key (desc_keysym d) of
           None \<Rightarrow> kb
         | Some i \<Rightarrow> kb\<lparr>rdp_keys := (rdp_keys kb)(i := (rdp_keys kb i)\<lparr>key_definition := Some d\<rparr>)\<rparr>))"

fun guac_rdp_keyboard_load_keymap :: "guac_rdp_keymap \<Rightarrow> guac_rdp_keyboard \<Rightarrow> guac_rdp_keyboard" where
  "guac_rdp_keyboard_load_keymap (Keymap parent name mapping) kb =
     load_mapping mapping (case parent of None \<Rightarrow> kb | Some p \<Rightarrow> guac_rdp_keyboard_load_keymap p kb)"

definition guac_rdp_keyboard_alloc :: "bool \<Rightarrow> guac_rdp_keymap \<Rightarrow> guac_rdp_keyboard" where
  "guac_rdp_keyboard_alloc connected keymap =
     guac_rdp_keyboard_load_keymap keymap
       \<lparr>lock_flags = 0, synchronized = False,
        rdp_keys = \<lambda>_. \<lparr>key_definition = None, key_state = GUAC_RDP_KEY_RELEASED\<rparr>,
        rdp_connected = connected, rdp_sent = []\<rparr>"

definition guac_rdp_keyboard_is_defined :: "guac_rdp_keyboard \<Rightarrow> int \<Rightarrow> bool" where
  "guac_rdp_keyboard_is_defined kb keysym \<longleftrightarrow> guac_rdp_keyboard_get_key kb keysym \<noteq> None"

primrec guac_rdp_keymap_find :: "guac_rdp_keymap list \<Rightarrow> string \<Rightarrow> guac_rdp_keymap option" where
  "guac_rdp_keymap_find [] name = None"
| "guac_rdp_keymap_find (m # ms) name =
     (case m of Keymap parent n mapping \<Rightarrow> if n = name then Some m else guac_rdp_keymap_find ms name)"

definition guac_rdp_keyboard_update_locks :: "int \<Rightarrow> int \<Rightarrow> guac_rdp_keyboard \<Rightarrow> guac_rdp_keyboard" where
  "guac_rdp_keyboard_update_locks set_flags clear_flags kb =
     (let flags = (lock_flags kb OR set_flags) AND NOT clear_flags
      in if flags \<noteq> lock_flags kb then (guac_rdp_send_synchronize_event flags kb)\<lparr>lock_flags := flags\<rparr> else kb)"

section \<open>Key events\<close>

abbreviation (input) DEAD_GRAVE :: int where "DEAD_GRAVE \<equiv> 0xFE50"
abbreviation (input) DEAD_ACUTE :: int where "DEAD_ACUTE \<equiv> 0xFE51"
abbreviation (input) DEAD_CIRCUMFLEX :: int where "DEAD_CIRCUMFLEX \<equiv> 0xFE52"
abbreviation (input) DEAD_TILDE :: int where "DEAD_TILDE \<equiv> 0xFE53"
abbreviation (input) DEAD_DIERESIS :: int where "DEAD_DIERESIS \<equiv> 0xFE57"
abbreviation (input) DEAD_ABOVERING :: int where "DEAD_ABOVERING \<equiv> 0xFE58"

text \<open>The table by keysym, with the dead key and the base key of each entry.\<close>

definition guac_rdp_decomposed_keys :: "(int \<times> int \<times> int) list" where
  "guac_rdp_decomposed_keys =
     [(0x5E, DEAD_CIRCUMFLEX, 32), (0x60, DEAD_GRAVE, 32), (0x7E, DEAD_TILDE, 32), (0xA8, DEAD_DIERESIS, 32),
      (0xB4, DEAD_ACUTE, 32), (0xC0, DEAD_GRAVE, 65), (0xC1, DEAD_ACUTE, 65), (0xC2, DEAD_CIRCUMFLEX, 65),
      (0xC3, DEAD_TILDE, 65), (0xC4, DEAD_DIERESIS, 65), (0xC5, DEAD_ABOVERING, 65), (0xC8, DEAD_GRAVE, 69),
      (0xC9, DEAD_ACUTE, 69), (0xCA, DEAD_CIRCUMFLEX, 69), (0xCB, DEAD_DIERESIS, 69), (0xCC, DEAD_GRAVE, 73),
      (0xCD, DEAD_ACUTE, 73), (0xCE, DEAD_CIRCUMFLEX, 73), (0xCF, DEAD_DIERESIS, 73), (0xD1, DEAD_TILDE, 78),
      (0xD2, DEAD_GRAVE, 79), (0xD3, DEAD_ACUTE, 79), (0xD4, DEAD_CIRCUMFLEX, 79), (0xD5, DEAD_TILDE, 79),
      (0xD6, DEAD_DIERESIS, 79), (0xD9, DEAD_GRAVE, 85), (0xDA, DEAD_ACUTE, 85), (0xDB, DEAD_CIRCUMFLEX, 85),
      (0xDC, DEAD_DIERESIS, 85), (0xDD, DEAD_ACUTE, 89), (0xE0, DEAD_GRAVE, 97), (0xE1, DEAD_ACUTE, 97),
      (0xE2, DEAD_CIRCUMFLEX, 97), (0xE3, DEAD_TILDE, 97), (0xE4, DEAD_DIERESIS, 97), (0xE5, DEAD_ABOVERING, 97),
      (0xE8, DEAD_GRAVE, 101), (0xE9, DEAD_ACUTE, 101), (0xEA, DEAD_CIRCUMFLEX, 101), (0xEB, DEAD_DIERESIS, 101),
      (0xEC, DEAD_GRAVE, 105), (0xED, DEAD_ACUTE, 105), (0xEE, DEAD_CIRCUMFLEX, 105), (0xEF, DEAD_DIERESIS, 105),
      (0xF1, DEAD_TILDE, 110), (0xF2, DEAD_GRAVE, 111), (0xF3, DEAD_ACUTE, 111), (0xF4, DEAD_CIRCUMFLEX, 111),
      (0xF5, DEAD_TILDE, 111), (0xF6, DEAD_DIERESIS, 111), (0xF9, DEAD_GRAVE, 117), (0xFA, DEAD_ACUTE, 117),
      (0xFB, DEAD_CIRCUMFLEX, 117), (0xFC, DEAD_DIERESIS, 117), (0xFD, DEAD_ACUTE, 121), (0xFF, DEAD_DIERESIS, 121)]"

text \<open>The definition that a keysym is sent with, if it has a scancode.\<close>

definition sendable_key :: "guac_rdp_keyboard \<Rightarrow> int \<Rightarrow> guac_rdp_keysym_desc option" where
  "sendable_key kb keysym =
     (case guac_rdp_keyboard_get_key kb keysym of
        None \<Rightarrow> None
      | Some i \<Rightarrow>
          (case key_definition (rdp_keys kb i) of
             None \<Rightarrow> None
           | Some d \<Rightarrow> if desc_scancode d \<noteq> 0 then Some d else None))"

text \<open>What is left for a key that can neither be sent nor decomposed.\<close>

definition send_as_unicode :: "int \<Rightarrow> guac_rdp_keyboard \<Rightarrow> guac_rdp_keyboard" where
  "send_as_unicode keysym kb =
     (if keysym \<le> 0xFF then guac_rdp_send_unicode_event keysym kb
      else if keysym \<ge> 0x1000000 then guac_rdp_send_unicode_event (keysym AND 0xFFFFFF) kb
      else kb)"

text \<open>
  Sending a key, sending the keys that must be pressed or released for it, and decomposing a key call each
  other. The first argument bounds the depth of calls; the null pointer of a list of keysyms is the empty list.
\<close>

fun guac_rdp_keyboard_send_event :: "nat \<Rightarrow> int \<Rightarrow> bool \<Rightarrow> guac_rdp_keyboard \<Rightarrow> guac_rdp_keyboard option"
  and guac_rdp_keyboard_send_events ::
    "nat \<Rightarrow> int list \<Rightarrow> guac_rdp_key_state \<Rightarrow> guac_rdp_key_state \<Rightarrow> guac_rdp_keyboard \<Rightarrow> guac_rdp_keyboard option"
  and guac_rdp_decompose_keysym :: "nat \<Rightarrow> int \<Rightarrow> guac_rdp_keyboard \<Rightarrow> (int \<times> guac_rdp_keyboard) option"
where
  "guac_rdp_keyboard_send_event 0 keysym pressed kb = None"
| "guac_rdp_keyboard_send_event (Suc depth) keysym pressed kb =
     (case sendable_key kb keysym of
        Some d \<Rightarrow>
          Option.bind
            (guac_rdp_keyboard_send_events depth (set_keysyms d) GUAC_RDP_KEY_RELEASED GUAC_RDP_KEY_PRESSED
              (guac_rdp_keyboard_update_locks (set_locks d) (clear_locks d) kb)) (\<lambda>kb.
          Option.bind
            (guac_rdp_keyboard_send_events depth (clear_keysyms d) GUAC_RDP_KEY_PRESSED GUAC_RDP_KEY_RELEASED kb) (\<lambda>kb.
          Option.bind
            (guac_rdp_keyboard_send_events depth (set_keysyms d) GUAC_RDP_KEY_RELEASED GUAC_RDP_KEY_RELEASED
              (guac_rdp_send_key_event (desc_scancode d) (desc_flags d) pressed kb)) (\<lambda>kb.
          guac_rdp_keyboard_send_events depth (clear_keysyms d) GUAC_RDP_KEY_PRESSED GUAC_RDP_KEY_PRESSED kb)))
      | None \<Rightarrow>
          if pressed
          then
            (case guac_rdp_decompose_keysym depth keysym kb of
               None \<Rightarrow> None
             | Some (failed, kb) \<Rightarrow> Some (if failed = 0 then kb else send_as_unicode keysym kb))
          else Some kb)"
| "guac_rdp_keyboard_send_events depth [] old new kb = Some kb"
| "guac_rdp_keyboard_send_events depth (keysym # keysyms) old new kb =
     (if keysym = 0 then Some kb
      else
        (case guac_rdp_keyboard_get_key kb keysym of
           None \<Rightarrow> guac_rdp_keyboard_send_events depth keysyms old new kb
         | Some i \<Rightarrow>
             if key_state (rdp_keys kb i) = old
             then Option.bind (guac_rdp_keyboard_send_event depth keysym (new = GUAC_RDP_KEY_PRESSED) kb)
               (guac_rdp_keyboard_send_events depth keysyms old new)
             else guac_rdp_keyboard_send_events depth keysyms old new kb))"
| "guac_rdp_decompose_keysym depth keysym kb =
     (if keysym < 0x00 \<or> keysym > 0xFF then Some (1, kb)
      else
        (case map_of guac_rdp_decomposed_keys keysym of
           None \<Rightarrow> Some (1, kb)
         | Some (dead, base) \<Rightarrow>
             if \<not> guac_rdp_keyboard_is_defined kb dead \<or> \<not> guac_rdp_keyboard_is_defined kb base then Some (1, kb)
             else
               Option.bind (guac_rdp_keyboard_send_event depth dead True kb) (\<lambda>kb.
               Option.bind (guac_rdp_keyboard_send_event depth dead False kb) (\<lambda>kb.
               Option.bind (guac_rdp_keyboard_send_event depth base True kb) (\<lambda>kb.
               Option.bind (guac_rdp_keyboard_send_event depth base False kb) (\<lambda>kb. Some (0, kb)))))))"

definition guac_rdp_keyboard_update_keysym ::
    "nat \<Rightarrow> int \<Rightarrow> bool \<Rightarrow> guac_rdp_keyboard \<Rightarrow> guac_rdp_keyboard option" where
  "guac_rdp_keyboard_update_keysym depth keysym pressed kb =
     (let kb = (if synchronized kb then kb
                else (guac_rdp_send_synchronize_event (lock_flags kb) kb)\<lparr>synchronized := True\<rparr>);
          kb = (if pressed then kb\<lparr>lock_flags := lock_flags kb XOR guac_rdp_keyboard_lock_flag keysym\<rparr> else kb);
          kb = (case guac_rdp_keyboard_get_key kb keysym of
                  None \<Rightarrow> kb
                | Some i \<Rightarrow>
                    kb\<lparr>rdp_keys := (rdp_keys kb)(i := (rdp_keys kb i)\<lparr>key_state :=
                      (if pressed then GUAC_RDP_KEY_PRESSED else GUAC_RDP_KEY_RELEASED)\<rparr>)\<rparr>)
      in guac_rdp_keyboard_send_event depth keysym pressed kb)"

section \<open>The remote keyboard\<close>

definition GUAC_KEYSYMS_ALL_MODIFIERS :: "int list" where
  "GUAC_KEYSYMS_ALL_MODIFIERS = [0xFFE1, 0xFFE2, 0xFFE3, 0xFFE4, 0xFFE9, 0xFFEA]"

text \<open>The keys that are held down at the other end, by their flags and scancodes.\<close>

fun remote_step :: "rdp_event \<Rightarrow> (int \<times> int) set \<Rightarrow> (int \<times> int) set" where
  "remote_step (KeyboardEvent flags scancode pressed) held =
     (if pressed then insert (flags, scancode) held else held - {(flags, scancode)})"
| "remote_step (UnicodeKeyboardEvent codepoint) held = held"
| "remote_step (SynchronizeEvent flags) held = held"

definition remote_keys :: "rdp_event list \<Rightarrow> (int \<times> int) set" where
  "remote_keys es = fold remote_step es {}"

definition key_code :: "guac_rdp_keysym_desc \<Rightarrow> int \<times> int" where
  "key_code d = (desc_flags d, desc_scancode d)"

text \<open>
  What the keymaps of the program have in common: every key has a scancode; a modifier needs no other key
  and has a scancode of its own; other keys need modifiers only, and none both pressed and released.
\<close>

primrec keymap_entries :: "guac_rdp_keysym_desc list \<Rightarrow> guac_rdp_keysym_desc list" where
  "keymap_entries [] = []"
| "keymap_entries (d # ds) = (if desc_keysym d = 0 then [] else d # keymap_entries ds)"

fun all_entries :: "guac_rdp_keymap \<Rightarrow> guac_rdp_keysym_desc list" where
  "all_entries (Keymap parent name mapping) =
     (case parent of None \<Rightarrow> [] | Some p \<Rightarrow> all_entries p) @ keymap_entries mapping"

definition is_modifier :: "int \<Rightarrow> bool" where
  "is_modifier k \<longleftrightarrow> k \<in> set GUAC_KEYSYMS_ALL_MODIFIERS"

definition legal_entry :: "guac_rdp_keysym_desc list \<Rightarrow> guac_rdp_keysym_desc \<Rightarrow> bool" where
  "legal_entry ds d \<longleftrightarrow> desc_scancode d \<noteq> 0
     \<and> (if is_modifier (desc_keysym d)
        then set_keysyms d = [] \<and> clear_keysyms d = [] \<and> set_locks d = 0 \<and> clear_locks d = 0
          \<and> list_all (\<lambda>e. key_code e = key_code d \<longrightarrow> desc_keysym e = desc_keysym d) ds
        else list_all is_modifier (set_keysyms d) \<and> list_all is_modifier (clear_keysyms d)
          \<and> list_all (\<lambda>k. k \<notin> set (clear_keysyms d)) (set_keysyms d))"

definition legal_keymap :: "guac_rdp_keymap \<Rightarrow> bool" where
  "legal_keymap m \<longleftrightarrow> list_all (legal_entry (all_entries m)) (all_entries m)"

definition definition_of :: "guac_rdp_keyboard \<Rightarrow> int \<Rightarrow> guac_rdp_keysym_desc option" where
  "definition_of kb k =
     (case guac_rdp_keyboard_map_key k of None \<Rightarrow> None | Some i \<Rightarrow> key_definition (rdp_keys kb i))"

definition pressed_key :: "guac_rdp_keyboard \<Rightarrow> int \<Rightarrow> bool" where
  "pressed_key kb k \<longleftrightarrow>
     (case guac_rdp_keyboard_map_key k of None \<Rightarrow> False | Some i \<Rightarrow> key_state (rdp_keys kb i) = GUAC_RDP_KEY_PRESSED)"

text \<open>A keyboard whose definitions are legal entries, each at the place of its keysym.\<close>

definition legal_keyboard :: "guac_rdp_keysym_desc list \<Rightarrow> guac_rdp_keyboard \<Rightarrow> bool" where
  "legal_keyboard ds kb \<longleftrightarrow> list_all (legal_entry ds) ds \<and> rdp_connected kb
     \<and> (\<forall>k d. definition_of kb k = Some d \<longrightarrow> d \<in> set ds \<and> desc_keysym d = k)"

definition modifiers_agree :: "guac_rdp_keyboard \<Rightarrow> bool" where
  "modifiers_agree kb \<longleftrightarrow>
     (\<forall>m d. is_modifier m \<longrightarrow> definition_of kb m = Some d \<longrightarrow>
        (key_code d \<in> remote_keys (rdp_sent kb) \<longleftrightarrow> pressed_key kb m))"

lemma map_key_eq:
  assumes "guac_rdp_keyboard_map_key k = Some i" and "guac_rdp_keyboard_map_key k' = Some i"
  shows "k = k'"
proof -
  have and_mod: "x AND 0xFFFF = x mod 0x10000" for x :: int
    using take_bit_eq_mask[of 16 x] by (simp add: take_bit_eq_mod mask_eq_exp_minus_1 and.commute)
  have sub: "x mod 0x10000 = x - 0x1000000" if "0x1000000 \<le> x" "x \<le> 0x100FFFF" for x :: int
  proof -
    have "x mod 0x10000 = (x - 0x1000000 + 256 * 0x10000) mod 0x10000" by simp
    also have "\<dots> = (x - 0x1000000) mod 0x10000" by (rule mod_mult_self1)
    also have "\<dots> = x - 0x1000000" using that by (intro mod_pos_pos_trivial) auto
    finally show ?thesis .
  qed
  show ?thesis
    using assms by (auto simp: guac_rdp_keyboard_map_key_def and_mod sub split: if_splits)
qed

lemma modifier_index: "is_modifier m \<Longrightarrow> guac_rdp_keyboard_map_key m = Some (nat m) \<and> m \<noteq> 0"
  by (auto simp: is_modifier_def GUAC_KEYSYMS_ALL_MODIFIERS_def guac_rdp_keyboard_map_key_def)

lemma sendable_key_definition:
  "sendable_key kb k = (case definition_of kb k of None \<Rightarrow> None | Some d \<Rightarrow> if desc_scancode d \<noteq> 0 then Some d else None)"
  by (simp add: sendable_key_def definition_of_def guac_rdp_keyboard_get_key_def split: option.splits)

lemma get_key_definition:
  "guac_rdp_keyboard_get_key kb k = (if definition_of kb k = None then None else guac_rdp_keyboard_map_key k)"
  by (simp add: guac_rdp_keyboard_get_key_def definition_of_def split: option.splits)

lemma legal_sendable:
  assumes "legal_keyboard ds kb"
  shows "sendable_key kb k = definition_of kb k"
  using assms by (auto simp: sendable_key_definition legal_keyboard_def legal_entry_def list_all_iff split: option.splits)

text \<open>Everything but the events and the lock flags stays as it is.\<close>

definition same_keys :: "guac_rdp_keyboard \<Rightarrow> guac_rdp_keyboard \<Rightarrow> bool" where
  "same_keys kb kb' \<longleftrightarrow> rdp_keys kb' = rdp_keys kb \<and> rdp_connected kb' = rdp_connected kb"

lemma same_keys_facts:
  assumes "same_keys kb kb'"
  shows "definition_of kb' = definition_of kb" "pressed_key kb' = pressed_key kb"
    "legal_keyboard ds kb' = legal_keyboard ds kb"
proof -
  show d: "definition_of kb' = definition_of kb" "pressed_key kb' = pressed_key kb"
    using assms by (simp_all add: same_keys_def definition_of_def[abs_def] pressed_key_def[abs_def] cong: option.case_cong)
  show "legal_keyboard ds kb' = legal_keyboard ds kb"
    using assms d by (simp add: legal_keyboard_def same_keys_def)
qed

lemma update_locks_none [simp]: "guac_rdp_keyboard_update_locks 0 0 kb = kb"
  by (simp add: guac_rdp_keyboard_update_locks_def)

lemma legal_modifier:
  assumes "legal_keyboard ds kb" and "is_modifier m" and "definition_of kb m = Some d"
  shows "guac_rdp_keyboard_send_event (Suc n) m p kb = Some (kb\<lparr>rdp_sent := rdp_sent kb @ [KeyboardEvent (desc_flags d) (desc_scancode d) p]\<rparr>)"
proof -
  have d: "d \<in> set ds" "desc_keysym d = m" "rdp_connected kb" "list_all (legal_entry ds) ds"
    using assms by (auto simp: legal_keyboard_def)
  then have "set_keysyms d = []" "clear_keysyms d = []" "set_locks d = 0" "clear_locks d = 0"
    using assms(2) by (auto simp: list_all_iff legal_entry_def)
  then show ?thesis
    using legal_sendable[OF assms(1), of m] assms(3) d(3)
    by (simp add: guac_rdp_send_key_event_def rdp_send_def)
qed

text \<open>The events of a list of modifiers.\<close>

definition modifier_events ::
    "guac_rdp_keyboard \<Rightarrow> int list \<Rightarrow> guac_rdp_key_state \<Rightarrow> guac_rdp_key_state \<Rightarrow> rdp_event list" where
  "modifier_events kb ms old new =
     concat (map (\<lambda>m. case definition_of kb m of
        None \<Rightarrow> []
      | Some d \<Rightarrow>
          if pressed_key kb m = (old = GUAC_RDP_KEY_PRESSED)
          then [KeyboardEvent (desc_flags d) (desc_scancode d) (new = GUAC_RDP_KEY_PRESSED)] else []) ms)"

lemma modifier_events_same:
  assumes "same_keys kb kb'"
  shows "modifier_events kb' = modifier_events kb"
  unfolding modifier_events_def[abs_def] same_keys_facts(1,2)[OF assms] ..

lemma key_state_pressed: "(s = old) = ((s = GUAC_RDP_KEY_PRESSED) = (old = GUAC_RDP_KEY_PRESSED))"
  by (cases s; cases old) auto

lemma send_modifiers:
  assumes "legal_keyboard ds kb" and "list_all is_modifier ms"
  shows "guac_rdp_keyboard_send_events (Suc n) ms old new kb
    = Some (kb\<lparr>rdp_sent := rdp_sent kb @ modifier_events kb ms old new\<rparr>)"
  using assms
proof (induction ms arbitrary: kb)
  case Nil
  then show ?case by (simp add: modifier_events_def)
next
  case (Cons m ms)
  have m: "is_modifier m" "guac_rdp_keyboard_map_key m = Some (nat m)" "m \<noteq> 0"
    using Cons.prems(2) modifier_index[of m] by auto
  show ?case
  proof (cases "definition_of kb m")
    case None
    then show ?thesis using m Cons by (simp add: get_key_definition modifier_events_def)
  next
    case (Some d)
    note send = legal_modifier[OF Cons.prems(1) m(1) Some, of n "new = GUAC_RDP_KEY_PRESSED"]
    let ?kb = "kb\<lparr>rdp_sent := rdp_sent kb @ [KeyboardEvent (desc_flags d) (desc_scancode d) (new = GUAC_RDP_KEY_PRESSED)]\<rparr>"
    have same: "same_keys kb ?kb" by (simp add: same_keys_def)
    have "modifier_events ?kb ms old new = modifier_events kb ms old new"
      by (simp add: modifier_events_same[OF same])
    then have IH: "guac_rdp_keyboard_send_events (Suc n) ms old new ?kb
        = Some (?kb\<lparr>rdp_sent := rdp_sent ?kb @ modifier_events kb ms old new\<rparr>)"
      using Cons.IH[of ?kb] Cons.prems same_keys_facts(3)[OF same] by simp
    have "(key_state (rdp_keys kb (nat m)) = old) = (pressed_key kb m = (old = GUAC_RDP_KEY_PRESSED))"
      using m(2) key_state_pressed[of "key_state (rdp_keys kb (nat m))" old] by (simp add: pressed_key_def)
    then show ?thesis
      using m Some send IH Cons.IH[OF Cons.prems(1)] Cons.prems(2)
      by (simp add: get_key_definition modifier_events_def del: guac_rdp_keyboard_send_event.simps)
  qed
qed

lemma modifier_events_remote:
  assumes "legal_keyboard ds kb" and "list_all is_modifier ms" and "is_modifier m" and "definition_of kb m = Some d"
  shows "key_code d \<in> fold remote_step (modifier_events kb ms old new) held \<longleftrightarrow>
    (if m \<in> set ms \<and> pressed_key kb m = (old = GUAC_RDP_KEY_PRESSED) then new = GUAC_RDP_KEY_PRESSED
     else key_code d \<in> held)"
  using assms(2)
proof (induction ms arbitrary: held)
  case Nil
  then show ?case by (simp add: modifier_events_def)
next
  case (Cons k ms)
  have ev: "modifier_events kb (k # ms) old new = modifier_events kb [k] old new @ modifier_events kb ms old new"
    by (simp add: modifier_events_def)
  have one: "key_code d \<in> fold remote_step (modifier_events kb [k] old new) held \<longleftrightarrow>
    (if m = k \<and> pressed_key kb m = (old = GUAC_RDP_KEY_PRESSED) then new = GUAC_RDP_KEY_PRESSED else key_code d \<in> held)"
  proof (cases "definition_of kb k")
    case None
    then show ?thesis using assms(4) by (auto simp: modifier_events_def)
  next
    case (Some e)
    have "key_code e = key_code d \<longleftrightarrow> k = m"
    proof
      assume c: "key_code e = key_code d"
      have *: "d \<in> set ds" "desc_keysym d = m" "e \<in> set ds" "desc_keysym e = k" "list_all (legal_entry ds) ds"
        using assms(1,4) Some by (auto simp: legal_keyboard_def)
      have "legal_entry ds d" using *(1,5) by (simp add: list_all_iff)
      then have "list_all (\<lambda>e. key_code e = key_code d \<longrightarrow> desc_keysym e = desc_keysym d) ds"
        using *(2) assms(3) by (simp add: legal_entry_def)
      then show "k = m" using c *(2,3,4) by (simp add: list_all_iff)
    qed (use assms(4) Some in simp)
    moreover have "key_code d \<in> fold remote_step (modifier_events kb [k] old new) held \<longleftrightarrow>
      (if key_code e = key_code d \<and> pressed_key kb k = (old = GUAC_RDP_KEY_PRESSED) then new = GUAC_RDP_KEY_PRESSED
       else key_code d \<in> held)"
      using Some by (simp add: modifier_events_def key_code_def[of e])
    ultimately show ?thesis by auto
  qed
  define held' where "held' = fold remote_step (modifier_events kb [k] old new) held"
  have "list_all is_modifier ms" using Cons.prems by simp
  note IH = Cons.IH[OF this, of held']
  have "fold remote_step (modifier_events kb (k # ms) old new) held = fold remote_step (modifier_events kb ms old new) held'"
    by (simp add: ev held'_def)
  then show ?case using IH one[folded held'_def] by auto
qed

lemma remote_append: "remote_keys (es @ fs) = fold remote_step fs (remote_keys es)"
  by (simp add: remote_keys_def)

lemma modifier_code_unique:
  assumes "legal_keyboard ds kb" and "is_modifier m" and "definition_of kb m = Some e" and "definition_of kb k = Some d"
    and "k \<noteq> m"
  shows "key_code d \<noteq> key_code e"
proof
  assume c: "key_code d = key_code e"
  have *: "e \<in> set ds" "desc_keysym e = m" "d \<in> set ds" "desc_keysym d = k" "list_all (legal_entry ds) ds"
    using assms(1,3,4) by (auto simp: legal_keyboard_def)
  have "legal_entry ds e" using *(1,5) by (simp add: list_all_iff)
  then have "list_all (\<lambda>f. key_code f = key_code e \<longrightarrow> desc_keysym f = desc_keysym e) ds"
    using *(2) assms(2) by (simp add: legal_entry_def)
  then show False using c *(2,3,4) assms(5) by (simp add: list_all_iff)
qed

lemma update_locks_result:
  assumes "rdp_connected kb"
  shows "\<exists>flags sync. guac_rdp_keyboard_update_locks s c kb = kb\<lparr>lock_flags := flags, rdp_sent := rdp_sent kb @ sync\<rparr>
    \<and> (sync = [] \<or> sync = [SynchronizeEvent flags])"
proof (cases "(lock_flags kb OR s) AND NOT c = lock_flags kb")
  case True
  then show ?thesis
    by (intro exI[of _ "lock_flags kb"] exI[of _ "[]"]) (simp add: guac_rdp_keyboard_update_locks_def)
next
  case False
  then show ?thesis using assms
    by (intro exI[of _ "(lock_flags kb OR s) AND NOT c"] exI[of _ "[SynchronizeEvent ((lock_flags kb OR s) AND NOT c)]"])
      (simp add: guac_rdp_keyboard_update_locks_def Let_def guac_rdp_send_synchronize_event_def rdp_send_def)
qed

text \<open>A key is sent while exactly the modifiers are held that it needs, and those that the user holds and it allows.\<close>

definition key_typed :: "guac_rdp_keyboard \<Rightarrow> guac_rdp_keysym_desc \<Rightarrow> bool \<Rightarrow> guac_rdp_keyboard \<Rightarrow> bool" where
  "key_typed kb d p kb' \<longleftrightarrow>
     (\<exists>pre post. rdp_sent kb' = rdp_sent kb @ pre @ KeyboardEvent (desc_flags d) (desc_scancode d) p # post
       \<and> (\<forall>m e. is_modifier m \<longrightarrow> definition_of kb m = Some e \<longrightarrow>
            (key_code e \<in> remote_keys (rdp_sent kb @ pre) \<longleftrightarrow>
             m \<in> set (set_keysyms d) \<or> pressed_key kb m \<and> m \<notin> set (clear_keysyms d))))"

lemma send_key:
  assumes "legal_keyboard ds kb" and "\<not> is_modifier k" and "definition_of kb k = Some d" and "modifiers_agree kb"
  shows "\<exists>kb'. guac_rdp_keyboard_send_event (Suc (Suc n)) k p kb = Some kb' \<and> same_keys kb kb'
    \<and> modifiers_agree kb' \<and> key_typed kb d p kb'"
proof -
  have "legal_entry ds d" "desc_keysym d = k" "rdp_connected kb"
    using assms(1,3) by (auto simp: legal_keyboard_def list_all_iff)
  then have S: "list_all is_modifier (set_keysyms d)" and C: "list_all is_modifier (clear_keysyms d)"
    and SC: "\<And>m. m \<in> set (set_keysyms d) \<Longrightarrow> m \<notin> set (clear_keysyms d)" and conn: "rdp_connected kb"
    using assms(2) by (auto simp: legal_entry_def list_all_iff)
  obtain flags sync where l: "guac_rdp_keyboard_update_locks (set_locks d) (clear_locks d) kb
      = kb\<lparr>lock_flags := flags, rdp_sent := rdp_sent kb @ sync\<rparr>" "sync = [] \<or> sync = [SynchronizeEvent flags]"
    using update_locks_result[OF conn] by blast
  let ?R = GUAC_RDP_KEY_RELEASED and ?P = GUAC_RDP_KEY_PRESSED
  define key where "key = KeyboardEvent (desc_flags d) (desc_scancode d) p"
  define ev where "ev ms old new = modifier_events kb ms old new" for ms old new
  have upd: "guac_rdp_keyboard_send_events (Suc n) ms old new (kb\<lparr>lock_flags := flags, rdp_sent := es\<rparr>)
      = Some (kb\<lparr>lock_flags := flags, rdp_sent := es @ ev ms old new\<rparr>)"
    if "list_all is_modifier ms" for ms old new es
  proof -
    have same: "same_keys kb (kb\<lparr>lock_flags := flags, rdp_sent := es\<rparr>)" by (simp add: same_keys_def)
    show ?thesis
      using send_modifiers[of ds "kb\<lparr>lock_flags := flags, rdp_sent := es\<rparr>" ms n old new] that assms(1)
        same_keys_facts(3)[OF same] modifier_events_same[OF same] by (simp add: ev_def)
  qed
  define pre where "pre = sync @ ev (set_keysyms d) ?R ?P @ ev (clear_keysyms d) ?P ?R"
  define post where "post = ev (set_keysyms d) ?R ?R @ ev (clear_keysyms d) ?P ?P"
  define kb' where "kb' = kb\<lparr>lock_flags := flags, rdp_sent := rdp_sent kb @ pre @ key # post\<rparr>"
  have send: "guac_rdp_keyboard_send_event (Suc (Suc n)) k p kb = Some kb'"
    using legal_sendable[OF assms(1), of k] assms(3) conn upd[OF S] upd[OF C] l(1)
    by (simp add: guac_rdp_send_key_event_def rdp_send_def kb'_def pre_def post_def key_def)
  have same: "same_keys kb kb'" by (simp add: same_keys_def kb'_def)
  have held: "key_code e \<in> remote_keys (rdp_sent kb @ pre) \<longleftrightarrow>
      m \<in> set (set_keysyms d) \<or> pressed_key kb m \<and> m \<notin> set (clear_keysyms d)"
    "key_code e \<in> remote_keys (rdp_sent kb') \<longleftrightarrow> pressed_key kb m"
    if m: "is_modifier m" "definition_of kb m = Some e" for m e
  proof -
    have a: "key_code e \<in> remote_keys (rdp_sent kb) \<longleftrightarrow> pressed_key kb m" using assms(4) m by (simp add: modifiers_agree_def)
    have sync: "fold remote_step sync H = H" for H using l(2) by auto
    note me = modifier_events_remote[OF assms(1) _ m, folded ev_def]
    show h1: "key_code e \<in> remote_keys (rdp_sent kb @ pre) \<longleftrightarrow>
      m \<in> set (set_keysyms d) \<or> pressed_key kb m \<and> m \<notin> set (clear_keysyms d)"
      unfolding remote_append pre_def by (auto simp: sync me[OF S] me[OF C] a dest: SC)
    have "k \<noteq> m" using m(1) assms(2) by auto
    then have ne: "(desc_flags d, desc_scancode d) \<noteq> key_code e"
      using modifier_code_unique[OF assms(1) m assms(3)] by (simp add: key_code_def)
    have "key_code e \<in> remote_step key (remote_keys (rdp_sent kb @ pre)) \<longleftrightarrow> key_code e \<in> remote_keys (rdp_sent kb @ pre)"
      using ne by (cases p) (auto simp: key_def)
    moreover have "remote_keys (rdp_sent kb') = fold remote_step post (remote_step key (remote_keys (rdp_sent kb @ pre)))"
      using remote_append[of "rdp_sent kb @ pre" "key # post"] by (simp add: kb'_def)
    ultimately show "key_code e \<in> remote_keys (rdp_sent kb') \<longleftrightarrow> pressed_key kb m"
      using h1 by (auto simp: post_def me[OF S] me[OF C] dest: SC)
  qed
  have "modifiers_agree kb'"
    using held(2) by (simp add: modifiers_agree_def same_keys_facts[OF same])
  moreover have "key_typed kb d p kb'"
    unfolding key_typed_def using held(1) by (intro exI[of _ pre] exI[of _ post]) (simp add: kb'_def key_def)
  ultimately show ?thesis using send same by blast
qed

section \<open>Sessions\<close>

lemma table_keys: "\<forall>(k, dead, base) \<in> set guac_rdp_decomposed_keys. \<not> is_modifier dead \<and> \<not> is_modifier base"
  by (simp add: guac_rdp_decomposed_keys_def is_modifier_def GUAC_KEYSYMS_ALL_MODIFIERS_def)

lemma unicode_agree:
  "same_keys kb (send_as_unicode k kb)" "modifiers_agree kb \<Longrightarrow> modifiers_agree (send_as_unicode k kb)"
proof -
  show same: "same_keys kb (send_as_unicode k kb)"
    by (simp add: send_as_unicode_def guac_rdp_send_unicode_event_def rdp_send_def same_keys_def)
  have "remote_keys (rdp_sent (send_as_unicode k kb)) = remote_keys (rdp_sent kb)"
    by (simp add: send_as_unicode_def guac_rdp_send_unicode_event_def rdp_send_def remote_append)
  then show "modifiers_agree kb \<Longrightarrow> modifiers_agree (send_as_unicode k kb)"
    using same_keys_facts[OF same] by (simp add: modifiers_agree_def)
qed

lemma same_keys_trans: "same_keys a b \<Longrightarrow> same_keys b c \<Longrightarrow> same_keys a c"
  by (simp add: same_keys_def)

lemma is_defined_definition: "guac_rdp_keyboard_is_defined kb k \<longleftrightarrow> definition_of kb k \<noteq> None"
  by (auto simp: guac_rdp_keyboard_is_defined_def get_key_definition definition_of_def split: option.splits)

lemma decompose_agree:
  assumes "legal_keyboard ds kb" and "modifiers_agree kb"
  shows "\<exists>r kb'. guac_rdp_decompose_keysym (Suc (Suc n)) k kb = Some (r, kb') \<and> same_keys kb kb' \<and> modifiers_agree kb'"
proof (cases "0 \<le> k \<and> k \<le> 0xFF")
  case False
  then show ?thesis using assms(2) by (auto simp: same_keys_def)
next
  case range: True
  show ?thesis
  proof (cases "map_of guac_rdp_decomposed_keys k")
    case None
    then show ?thesis using assms(2) range by (auto simp: same_keys_def)
  next
    case (Some db)
    obtain dead base where db: "db = (dead, base)" by (cases db)
    have m: "\<not> is_modifier dead" "\<not> is_modifier base"
      using map_of_SomeD[OF Some] db table_keys by auto
    show ?thesis
    proof (cases "definition_of kb dead = None \<or> definition_of kb base = None")
      case True
      then show ?thesis using Some db assms(2) range by (auto simp: is_defined_definition same_keys_def)
    next
      case False
      then obtain d e where d: "definition_of kb dead = Some d" and e: "definition_of kb base = Some e" by auto
      obtain k1 where k1: "guac_rdp_keyboard_send_event (Suc (Suc n)) dead True kb = Some k1" "same_keys kb k1" "modifiers_agree k1"
        using send_key[OF assms(1) m(1) d assms(2), of n True] by blast
      note f1 = same_keys_facts[OF k1(2)]
      obtain k2 where k2: "guac_rdp_keyboard_send_event (Suc (Suc n)) dead False k1 = Some k2" "same_keys k1 k2" "modifiers_agree k2"
        using send_key[of ds k1 dead d n False] assms(1) m(1) d k1(3) f1 by auto
      note f2 = same_keys_facts[OF k2(2)]
      obtain k3 where k3: "guac_rdp_keyboard_send_event (Suc (Suc n)) base True k2 = Some k3" "same_keys k2 k3" "modifiers_agree k3"
        using send_key[of ds k2 base e n True] assms(1) m(2) e k2(3) f1 f2 by auto
      note f3 = same_keys_facts[OF k3(2)]
      obtain k4 where k4: "guac_rdp_keyboard_send_event (Suc (Suc n)) base False k3 = Some k4" "same_keys k3 k4" "modifiers_agree k4"
        using send_key[of ds k3 base e n False] assms(1) m(2) e k3(3) f1 f2 f3 by auto
      have "same_keys kb k4" using k1(2) k2(2) k3(2) k4(2) by (simp add: same_keys_def)
      moreover have "guac_rdp_decompose_keysym (Suc (Suc n)) k kb = Some (0, k4)"
        using Some db d e k1(1) k2(1) k3(1) k4(1) range
        by (simp add: is_defined_definition del: guac_rdp_keyboard_send_event.simps)
      ultimately show ?thesis using k4(3) by blast
    qed
  qed
qed

lemma send_undefined_agree:
  assumes "legal_keyboard ds kb" and "modifiers_agree kb" and "definition_of kb k = None"
  shows "\<exists>kb'. guac_rdp_keyboard_send_event (Suc (Suc (Suc n))) k p kb = Some kb' \<and> same_keys kb kb' \<and> modifiers_agree kb'"
proof -
  have s: "sendable_key kb k = None" using legal_sendable[OF assms(1)] assms(3) by simp
  obtain r kb' where d: "guac_rdp_decompose_keysym (Suc (Suc n)) k kb = Some (r, kb')" "same_keys kb kb'" "modifiers_agree kb'"
    using decompose_agree[OF assms(1,2)] by blast
  have "same_keys kb (send_as_unicode k kb')" using d(2) unicode_agree(1) by (rule same_keys_trans)
  then show ?thesis
    using s d assms(2) unicode_agree(2)[OF d(3)]
    by (cases p) (auto simp: same_keys_def simp del: guac_rdp_decompose_keysym.simps)
qed

text \<open>A key event of the user.\<close>

lemma update_keysym_agree:
  assumes "legal_keyboard ds kb" and "modifiers_agree kb"
  shows "\<exists>kb'. guac_rdp_keyboard_update_keysym (Suc (Suc (Suc n))) k p kb = Some kb'
    \<and> legal_keyboard ds kb' \<and> modifiers_agree kb' \<and> definition_of kb' = definition_of kb
    \<and> pressed_key kb' = (\<lambda>m. if m = k \<and> definition_of kb k \<noteq> None then p else pressed_key kb m)
    \<and> (\<forall>d. \<not> is_modifier k \<longrightarrow> definition_of kb k = Some d \<longrightarrow> key_typed kb d p kb')"
proof -
  define sync where "sync = (if synchronized kb then [] else [SynchronizeEvent (lock_flags kb)])"
  define flags where "flags = (if p then lock_flags kb XOR guac_rdp_keyboard_lock_flag k else lock_flags kb)"
  define kb1 where "kb1 = kb\<lparr>synchronized := True, lock_flags := flags, rdp_sent := rdp_sent kb @ sync\<rparr>"
  define kb2 where "kb2 = (case guac_rdp_keyboard_get_key kb1 k of None \<Rightarrow> kb1
    | Some i \<Rightarrow> kb1\<lparr>rdp_keys := (rdp_keys kb1)(i := (rdp_keys kb1 i)\<lparr>key_state :=
        (if p then GUAC_RDP_KEY_PRESSED else GUAC_RDP_KEY_RELEASED)\<rparr>)\<rparr>)"
  have conn: "rdp_connected kb" using assms(1) by (simp add: legal_keyboard_def)
  have upd: "guac_rdp_keyboard_update_keysym (Suc (Suc (Suc n))) k p kb = guac_rdp_keyboard_send_event (Suc (Suc (Suc n))) k p kb2"
  proof -
    define a where "a = (if synchronized kb then kb
      else (guac_rdp_send_synchronize_event (lock_flags kb) kb)\<lparr>synchronized := True\<rparr>)"
    have a: "a = kb\<lparr>synchronized := True, rdp_sent := rdp_sent kb @ sync\<rparr>"
      using conn by (cases kb) (simp add: a_def sync_def guac_rdp_send_synchronize_event_def rdp_send_def)
    have "(if p then a\<lparr>lock_flags := lock_flags a XOR guac_rdp_keyboard_lock_flag k\<rparr> else a) = kb1"
      by (cases kb) (simp add: a kb1_def flags_def)
    then show ?thesis
      unfolding guac_rdp_keyboard_update_keysym_def Let_def a_def[symmetric] kb2_def by (simp only:)
  qed
  have same: "same_keys kb kb1" by (simp add: same_keys_def kb1_def)
  note f = same_keys_facts[OF same]
  have sent: "rdp_sent kb2 = rdp_sent kb @ sync" by (simp add: kb2_def kb1_def split: option.splits)
  have remote: "remote_keys (rdp_sent kb2) = remote_keys (rdp_sent kb)" by (simp add: sent remote_append sync_def)
  have def2: "definition_of kb2 = definition_of kb"
    unfolding f(1)[symmetric] by (rule ext) (auto simp: definition_of_def kb2_def split: option.splits)
  have press2': "pressed_key kb2 m = (if m = k \<and> definition_of kb k \<noteq> None then p else pressed_key kb m)" for m
    unfolding f(1,2)[symmetric] using map_key_eq[of m _ k]
    by (auto simp: pressed_key_def kb2_def get_key_definition definition_of_def split: option.splits)
  then have press2: "pressed_key kb2 = (\<lambda>m. if m = k \<and> definition_of kb k \<noteq> None then p else pressed_key kb m)" by (intro ext)
  have legal2: "legal_keyboard ds kb2"
    using assms(1) def2 by (simp add: legal_keyboard_def kb2_def kb1_def split: option.splits)
  show ?thesis
  proof (cases "definition_of kb k")
    case None
    have "modifiers_agree kb2" using assms(2) None by (simp add: modifiers_agree_def def2 press2 remote)
    then obtain kb' where "guac_rdp_keyboard_send_event (Suc (Suc (Suc n))) k p kb2 = Some kb'" "same_keys kb2 kb'" "modifiers_agree kb'"
      using send_undefined_agree[OF legal2, of k n p] None def2 by auto
    then show ?thesis using upd None legal2 same_keys_facts[of kb2 kb'] def2 press2 by simp
  next
    case (Some d)
    show ?thesis
    proof (cases "is_modifier k")
      case True
      have d2: "definition_of kb2 k = Some d" using Some def2 by simp
      define kb' where "kb' = kb2\<lparr>rdp_sent := rdp_sent kb2 @ [KeyboardEvent (desc_flags d) (desc_scancode d) p]\<rparr>"
      have s: "guac_rdp_keyboard_send_event (Suc (Suc (Suc n))) k p kb2 = Some kb'"
        unfolding kb'_def by (rule legal_modifier[OF legal2 True d2])
      have same': "same_keys kb2 kb'" by (simp add: same_keys_def kb'_def)
      note f' = same_keys_facts[OF same']
      have rem: "remote_keys (rdp_sent kb') = remote_step (KeyboardEvent (desc_flags d) (desc_scancode d) p) (remote_keys (rdp_sent kb))"
        by (simp add: kb'_def remote_append remote flip: remote)
      have "key_code e \<in> remote_keys (rdp_sent kb') \<longleftrightarrow> pressed_key kb' m"
        if m: "is_modifier m" "definition_of kb m = Some e" for m e
      proof (cases "m = k")
        case True
        then show ?thesis using m Some by (simp add: rem f' press2 key_code_def)
      next
        case False
        then have "key_code d \<noteq> key_code e" using modifier_code_unique[OF assms(1) m Some] by simp
        then show ?thesis using False m assms(2) by (auto simp: rem f' press2 key_code_def modifiers_agree_def)
      qed
      then have "modifiers_agree kb'" by (simp add: modifiers_agree_def f' def2)
      then show ?thesis using upd s legal2 f' def2 press2 True by simp
    next
      case False
      have a2: "modifiers_agree kb2"
        using assms(2) False by (auto simp: modifiers_agree_def def2 press2 remote)
      obtain kb' where kb': "guac_rdp_keyboard_send_event (Suc (Suc (Suc n))) k p kb2 = Some kb'" "same_keys kb2 kb'"
        "modifiers_agree kb'" "key_typed kb2 d p kb'"
        using send_key[OF legal2 False _ a2, of d "Suc n" p] Some def2 by auto
      have "key_typed kb d p kb'"
      proof -
        obtain pre post where "rdp_sent kb' = rdp_sent kb2 @ pre @ KeyboardEvent (desc_flags d) (desc_scancode d) p # post"
          and h: "\<And>m e. is_modifier m \<Longrightarrow> definition_of kb2 m = Some e \<Longrightarrow>
            (key_code e \<in> remote_keys (rdp_sent kb2 @ pre) \<longleftrightarrow>
             m \<in> set (set_keysyms d) \<or> pressed_key kb2 m \<and> m \<notin> set (clear_keysyms d))"
          using kb'(4) unfolding key_typed_def by blast
        moreover have "pressed_key kb2 m = pressed_key kb m" if "is_modifier m" for m
          using that False press2 by auto
        ultimately show ?thesis
          unfolding key_typed_def by (intro exI[of _ "sync @ pre"] exI[of _ post]) (auto simp: sent def2)
      qed
      then show ?thesis using upd kb' legal2 same_keys_facts[OF kb'(2)] def2 press2 Some by simp
    qed
  qed
qed

primrec press_keys :: "nat \<Rightarrow> (int \<times> bool) list \<Rightarrow> guac_rdp_keyboard \<Rightarrow> guac_rdp_keyboard option" where
  "press_keys depth [] kb = Some kb"
| "press_keys depth (e # es) kb =
     Option.bind (guac_rdp_keyboard_update_keysym depth (fst e) (snd e) kb) (press_keys depth es)"

text \<open>The keys that the user holds after a sequence of events.\<close>

definition user_holds :: "(int \<times> bool) list \<Rightarrow> int \<Rightarrow> bool" where
  "user_holds es m = fold (\<lambda>e held. if fst e = m then snd e else held) es False"

lemma press_keys_agree:
  assumes "legal_keyboard ds kb" and "modifiers_agree kb" and "3 \<le> depth"
  shows "\<exists>kb'. press_keys depth es kb = Some kb' \<and> legal_keyboard ds kb' \<and> modifiers_agree kb'
    \<and> definition_of kb' = definition_of kb
    \<and> (\<forall>m. definition_of kb m \<noteq> None \<longrightarrow>
         pressed_key kb' m = fold (\<lambda>e held. if fst e = m then snd e else held) es (pressed_key kb m))"
  using assms(1,2)
proof (induction es arbitrary: kb)
  case (Cons e es)
  have n: "depth = Suc (Suc (Suc (depth - 3)))" using assms(3) by simp
  obtain kb1 where kb1: "guac_rdp_keyboard_update_keysym depth (fst e) (snd e) kb = Some kb1" "legal_keyboard ds kb1"
    "modifiers_agree kb1" "definition_of kb1 = definition_of kb"
    "pressed_key kb1 = (\<lambda>m. if m = fst e \<and> definition_of kb (fst e) \<noteq> None then snd e else pressed_key kb m)"
    using update_keysym_agree[OF Cons.prems, of "depth - 3" "fst e" "snd e"] n by auto
  obtain kb' where kb': "press_keys depth es kb1 = Some kb'" "legal_keyboard ds kb'" "modifiers_agree kb'"
    "definition_of kb' = definition_of kb1"
    "\<forall>m. definition_of kb1 m \<noteq> None \<longrightarrow>
       pressed_key kb' m = fold (\<lambda>e held. if fst e = m then snd e else held) es (pressed_key kb1 m)"
    using Cons.IH[OF kb1(2,3)] by blast
  have "pressed_key kb1 m = (if fst e = m then snd e else pressed_key kb m)" if "definition_of kb m \<noteq> None" for m
    using kb1(5) that by auto
  then show ?case using kb1(1,4) kb' by (intro exI[of _ kb']) simp
qed simp

lemma load_mapping_facts:
  "definition_of (load_mapping ds kb) k = Some d \<Longrightarrow>
     (d \<in> set (keymap_entries ds) \<and> desc_keysym d = k) \<or> definition_of kb k = Some d"
  "rdp_connected (load_mapping ds kb) = rdp_connected kb" "rdp_sent (load_mapping ds kb) = rdp_sent kb"
  "pressed_key (load_mapping ds kb) = pressed_key kb"
proof -
  define put where "put e kb = (case guac_rdp_keyboard_map_key (desc_keysym e) of
      None \<Rightarrow> kb
    | Some i \<Rightarrow> kb\<lparr>rdp_keys := (rdp_keys kb)(i := (rdp_keys kb i)\<lparr>key_definition := Some e\<rparr>)\<rparr>)" for e and kb :: guac_rdp_keyboard
  have put: "definition_of (put e kb) k = Some d \<Longrightarrow> (d = e \<and> desc_keysym d = k) \<or> definition_of kb k = Some d"
    "rdp_connected (put e kb) = rdp_connected kb" "rdp_sent (put e kb) = rdp_sent kb" "pressed_key (put e kb) m = pressed_key kb m"
    for e kb k d m
    using map_key_eq[of "desc_keysym e" _ k]
    by (auto simp: put_def definition_of_def pressed_key_def split: option.splits if_splits)
  show "definition_of (load_mapping ds kb) k = Some d \<Longrightarrow>
     (d \<in> set (keymap_entries ds) \<and> desc_keysym d = k) \<or> definition_of kb k = Some d"
    by (induction ds arbitrary: kb) (auto simp flip: put_def split: if_splits dest: put(1))
  show "rdp_connected (load_mapping ds kb) = rdp_connected kb" "rdp_sent (load_mapping ds kb) = rdp_sent kb"
    by (induction ds arbitrary: kb) (auto simp: put simp flip: put_def)
  show "pressed_key (load_mapping ds kb) = pressed_key kb"
    by (rule ext, induction ds arbitrary: kb) (auto simp: put simp flip: put_def)
qed

lemma load_keymap_facts:
  "(definition_of (guac_rdp_keyboard_load_keymap m kb) k = Some d \<longrightarrow>
     (d \<in> set (all_entries m) \<and> desc_keysym d = k) \<or> definition_of kb k = Some d)
   \<and> rdp_connected (guac_rdp_keyboard_load_keymap m kb) = rdp_connected kb
   \<and> rdp_sent (guac_rdp_keyboard_load_keymap m kb) = rdp_sent kb
   \<and> pressed_key (guac_rdp_keyboard_load_keymap m kb) = pressed_key kb"
proof (induction m kb rule: guac_rdp_keyboard_load_keymap.induct)
  case (1 parent name mapping kb)
  then show ?case
    using load_mapping_facts[of mapping "case parent of None \<Rightarrow> kb | Some p \<Rightarrow> guac_rdp_keyboard_load_keymap p kb"]
    by (cases parent) auto
qed

lemma alloc_legal:
  assumes "legal_keymap m"
  shows "legal_keyboard (all_entries m) (guac_rdp_keyboard_alloc True m)"
    and "modifiers_agree (guac_rdp_keyboard_alloc True m)"
    and "\<not> pressed_key (guac_rdp_keyboard_alloc True m) k"
proof -
  let ?kb = "\<lparr>lock_flags = 0, synchronized = False,
        rdp_keys = \<lambda>_. \<lparr>key_definition = None, key_state = GUAC_RDP_KEY_RELEASED\<rparr>, rdp_connected = True, rdp_sent = []\<rparr>"
  have init: "definition_of ?kb k = None" "\<not> pressed_key ?kb k" for k
    by (simp_all add: definition_of_def pressed_key_def split: option.splits)
  note f = load_keymap_facts[of m ?kb, folded guac_rdp_keyboard_alloc_def]
  show "legal_keyboard (all_entries m) (guac_rdp_keyboard_alloc True m)"
    using f init(1) assms by (auto simp: legal_keyboard_def legal_keymap_def)
  show p: "\<not> pressed_key (guac_rdp_keyboard_alloc True m) k" for k using f init(2) by simp
  show "modifiers_agree (guac_rdp_keyboard_alloc True m)"
    using f p by (simp add: modifiers_agree_def remote_keys_def)
qed


text \<open>A keymap with a parent, in which both cases of a letter share a key.\<close>

definition shift_entry :: guac_rdp_keysym_desc where
  "shift_entry = \<lparr>desc_keysym = 0xFFE1, desc_scancode = 0x2A, desc_flags = 0, set_keysyms = [], clear_keysyms = [],
     set_locks = 0, clear_locks = 0\<rparr>"

definition lower_entry :: guac_rdp_keysym_desc where
  "lower_entry = \<lparr>desc_keysym = 0x61, desc_scancode = 0x1E, desc_flags = 0, set_keysyms = [], clear_keysyms = [0xFFE1],
     set_locks = 0, clear_locks = 0\<rparr>"

definition upper_entry :: guac_rdp_keysym_desc where
  "upper_entry = \<lparr>desc_keysym = 0x41, desc_scancode = 0x1E, desc_flags = 0, set_keysyms = [0xFFE1], clear_keysyms = [],
     set_locks = 0, clear_locks = 0\<rparr>"

definition sample_keymap :: guac_rdp_keymap where
  "sample_keymap = Keymap (Some (Keymap None ''base'' [shift_entry])) ''sample'' [lower_entry, upper_entry]"

lemma sample_facts:
  "legal_keymap sample_keymap" "is_modifier 0xFFE1" "\<not> is_modifier 0x41"
  "definition_of (guac_rdp_keyboard_alloc True sample_keymap) 0xFFE1 = Some shift_entry"
  "definition_of (guac_rdp_keyboard_alloc True sample_keymap) 0x41 = Some upper_entry"
  by (simp_all add: legal_keymap_def sample_keymap_def legal_entry_def is_modifier_def GUAC_KEYSYMS_ALL_MODIFIERS_def
      key_code_def shift_entry_def lower_entry_def upper_entry_def definition_of_def guac_rdp_keyboard_alloc_def
      guac_rdp_keyboard_map_key_def)


text \<open>
  Whatever the user has done before, a key of the keymap that is pressed or released is sent exactly when the
  modifiers held at the other end are those the key needs together with those that the user holds and the key allows.
\<close>

theorem keys_typed_with_modifiers:
  assumes "legal_keymap m" and "3 \<le> depth" and "press_keys depth es (guac_rdp_keyboard_alloc True m) = Some kb"
    and "\<not> is_modifier k" and "definition_of kb k = Some d"
  shows "\<exists>kb' pre post. guac_rdp_keyboard_update_keysym depth k p kb = Some kb'
    \<and> rdp_sent kb' = rdp_sent kb @ pre @ KeyboardEvent (desc_flags d) (desc_scancode d) p # post
    \<and> (\<forall>q e. is_modifier q \<longrightarrow> definition_of kb q = Some e \<longrightarrow>
         (key_code e \<in> remote_keys (rdp_sent kb @ pre) \<longleftrightarrow>
          q \<in> set (set_keysyms d) \<or> user_holds es q \<and> q \<notin> set (clear_keysyms d)))"
proof -
  note a = alloc_legal[OF assms(1)]
  have kb: "legal_keyboard (all_entries m) kb" "modifiers_agree kb"
    and h: "\<And>q. definition_of kb q \<noteq> None \<Longrightarrow> pressed_key kb q = user_holds es q"
    using press_keys_agree[OF a(1,2) assms(2), of es] assms(3) a(3) by (auto simp: user_holds_def)
  have n: "depth = Suc (Suc (Suc (depth - 3)))" using assms(2) by simp
  obtain kb' where kb': "guac_rdp_keyboard_update_keysym depth k p kb = Some kb'" "key_typed kb d p kb'"
    using update_keysym_agree[OF kb, of "depth - 3" k p] n assms(4,5) by auto
  then show ?thesis unfolding key_typed_def using h by (metis option.discI)
qed

theorem keys_typed_with_modifiers_witness:
  "\<exists>kb pre post. guac_rdp_keyboard_update_keysym 3 0x41 True (guac_rdp_keyboard_alloc True sample_keymap) = Some kb
    \<and> rdp_sent kb = pre @ KeyboardEvent 0 0x1E True # post \<and> (0, 0x2A) \<in> remote_keys pre"
proof -
  let ?kb = "guac_rdp_keyboard_alloc True sample_keymap"
  have d: "(3 :: nat) \<le> 3" and p: "press_keys 3 [] ?kb = Some ?kb" by simp_all
  have s: "rdp_sent ?kb = []" using load_keymap_facts by (simp add: guac_rdp_keyboard_alloc_def)
  obtain kb' pre post where k: "guac_rdp_keyboard_update_keysym 3 0x41 True ?kb = Some kb'"
    "rdp_sent kb' = rdp_sent ?kb @ pre @ KeyboardEvent (desc_flags upper_entry) (desc_scancode upper_entry) True # post"
    and m: "\<And>q e. is_modifier q \<Longrightarrow> definition_of ?kb q = Some e \<Longrightarrow>
      (key_code e \<in> remote_keys (rdp_sent ?kb @ pre) \<longleftrightarrow>
       q \<in> set (set_keysyms upper_entry) \<or> user_holds [] q \<and> q \<notin> set (clear_keysyms upper_entry))"
    using keys_typed_with_modifiers[OF sample_facts(1) d p sample_facts(3,5), of True] by blast
  have "(0, 0x2A) \<in> remote_keys pre"
    using m[OF sample_facts(2,4)] by (simp add: s key_code_def shift_entry_def upper_entry_def)
  then show ?thesis using k by (auto simp: s upper_entry_def)
qed

end
