(* ===== verification/Rdp_Fs.thy ===== *)
theory Rdp_Fs
  imports Drive_Path Guac_Pool
begin

text \<open>
  The shared drive of an RDP session (\<open>src/protocols/rdp/fs.c\<close>). System calls are collected in the state, and what
  each of them returns is given by a function of all calls so far. A pointer to a name is \<open>None\<close> once the name
  has been freed; the result \<open>None\<close> of an operation stands for the use of a file that was never opened or of
  a freed name. The bytes that are read and written go between the caller and the kernel.
\<close>

unbundle bit_operations_syntax

section \<open>Definitions\<close>

datatype fs_call =
    call_mkdir "byte list"
  | call_unlink "byte list"
  | call_rmdir "byte list"
  | call_open "byte list" int
  | call_rename "byte list" "byte list"
  | call_fstat int
  | call_lseek int int
  | call_read int int
  | call_write int int
  | call_ftruncate int int
  | call_fdopendir int
  | call_readdir int
  | call_closedir int
  | call_close int
  | call_statvfs "byte list"

record fs_stat =
  st_size :: "64 word"
  st_ctime :: "64 word"
  st_mtime :: "64 word"
  st_atime :: "64 word"
  st_is_dir :: bool

text \<open>The answers of the kernel: the value returned with \<open>errno\<close>, the data of \<open>fstat\<close>, the name found by \<open>readdir\<close>.\<close>

record fs_kernel =
  kernel_result :: "fs_call list \<Rightarrow> int \<times> int"
  kernel_stat :: "fs_call list \<Rightarrow> fs_stat"
  kernel_entry :: "fs_call list \<Rightarrow> byte list option"

record guac_rdp_fs_file =
  file_id :: int
  absolute_path :: "byte list option"
  real_path :: "byte list option"
  file_fd :: int
  file_dir :: bool
  dir_pattern :: "byte list"
  file_attributes :: int
  file_size :: "64 word"
  file_ctime :: "64 word"
  file_mtime :: "64 word"
  file_atime :: "64 word"
  bytes_written :: "64 word"

record guac_rdp_fs =
  fs_drive_path :: "byte list"
  fs_open_files :: int
  file_id_pool :: guac_pool
  fs_files :: "int \<Rightarrow> guac_rdp_fs_file option"
  fs_calls :: "fs_call list"

abbreviation (input) GUAC_RDP_FS_MAX_FILES :: int where "GUAC_RDP_FS_MAX_FILES \<equiv> 128"
abbreviation (input) GUAC_RDP_FS_ENFILE :: int where "GUAC_RDP_FS_ENFILE \<equiv> - 1"
abbreviation (input) GUAC_RDP_FS_ENOENT :: int where "GUAC_RDP_FS_ENOENT \<equiv> - 2"
abbreviation (input) GUAC_RDP_FS_ENOTDIR :: int where "GUAC_RDP_FS_ENOTDIR \<equiv> - 3"
abbreviation (input) GUAC_RDP_FS_ENOSPC :: int where "GUAC_RDP_FS_ENOSPC \<equiv> - 4"
abbreviation (input) GUAC_RDP_FS_EISDIR :: int where "GUAC_RDP_FS_EISDIR \<equiv> - 5"
abbreviation (input) GUAC_RDP_FS_EACCES :: int where "GUAC_RDP_FS_EACCES \<equiv> - 6"
abbreviation (input) GUAC_RDP_FS_EEXIST :: int where "GUAC_RDP_FS_EEXIST \<equiv> - 7"
abbreviation (input) GUAC_RDP_FS_EINVAL :: int where "GUAC_RDP_FS_EINVAL \<equiv> - 8"
abbreviation (input) GUAC_RDP_FS_ENOSYS :: int where "GUAC_RDP_FS_ENOSYS \<equiv> - 9"
abbreviation (input) GUAC_RDP_FS_ENOTSUP :: int where "GUAC_RDP_FS_ENOTSUP \<equiv> - 10"

text \<open>The constants of the C library and of the RDP protocol.\<close>

abbreviation (input) ENOENT :: int where "ENOENT \<equiv> 2"
abbreviation (input) EACCES :: int where "EACCES \<equiv> 13"
abbreviation (input) EEXIST :: int where "EEXIST \<equiv> 17"
abbreviation (input) ENOTDIR :: int where "ENOTDIR \<equiv> 20"
abbreviation (input) EISDIR :: int where "EISDIR \<equiv> 21"
abbreviation (input) EINVAL :: int where "EINVAL \<equiv> 22"
abbreviation (input) ENFILE :: int where "ENFILE \<equiv> 23"
abbreviation (input) ENOSPC :: int where "ENOSPC \<equiv> 28"
abbreviation (input) ENOSYS :: int where "ENOSYS \<equiv> 38"
abbreviation (input) ENOTSUP :: int where "ENOTSUP \<equiv> 95"

abbreviation (input) O_RDONLY :: int where "O_RDONLY \<equiv> 0"
abbreviation (input) O_WRONLY :: int where "O_WRONLY \<equiv> 1"
abbreviation (input) O_RDWR :: int where "O_RDWR \<equiv> 2"
abbreviation (input) O_CREAT :: int where "O_CREAT \<equiv> 0x40"
abbreviation (input) O_EXCL :: int where "O_EXCL \<equiv> 0x80"
abbreviation (input) O_TRUNC :: int where "O_TRUNC \<equiv> 0x200"

abbreviation (input) GENERIC_ALL :: int where "GENERIC_ALL \<equiv> 0x10000000"
abbreviation (input) GENERIC_WRITE :: int where "GENERIC_WRITE \<equiv> 0x40000000"
abbreviation (input) GENERIC_READ :: int where "GENERIC_READ \<equiv> 0x80000000"
abbreviation (input) FILE_READ_DATA :: int where "FILE_READ_DATA \<equiv> 1"
abbreviation (input) FILE_WRITE_DATA :: int where "FILE_WRITE_DATA \<equiv> 2"
abbreviation (input) FILE_APPEND_DATA :: int where "FILE_APPEND_DATA \<equiv> 4"
abbreviation (input) FILE_DIRECTORY_FILE :: int where "FILE_DIRECTORY_FILE \<equiv> 1"
abbreviation (input) FILE_ATTRIBUTE_DIRECTORY :: int where "FILE_ATTRIBUTE_DIRECTORY \<equiv> 0x10"
abbreviation (input) FILE_ATTRIBUTE_NORMAL :: int where "FILE_ATTRIBUTE_NORMAL \<equiv> 0x80"

definition fs_call_kernel :: "fs_kernel \<Rightarrow> fs_call \<Rightarrow> guac_rdp_fs \<Rightarrow> (int \<times> int) \<times> guac_rdp_fs" where
  "fs_call_kernel os c fs =
     (let calls = fs_calls fs @ [c] in (kernel_result os calls, fs\<lparr>fs_calls := calls\<rparr>))"

definition guac_rdp_fs_alloc :: "fs_kernel \<Rightarrow> byte list \<Rightarrow> bool \<Rightarrow> guac_rdp_fs" where
  "guac_rdp_fs_alloc os drive_path create_drive_path =
     \<lparr>fs_drive_path = drive_path, fs_open_files = 0, file_id_pool = the (guac_pool_alloc True 0),
      fs_files = \<lambda>_. None, fs_calls = (if create_drive_path then [call_mkdir drive_path] else [])\<rparr>"

definition guac_rdp_fs_get_errorcode :: "int \<Rightarrow> int" where
  "guac_rdp_fs_get_errorcode err =
     (if err = ENFILE then GUAC_RDP_FS_ENFILE else if err = ENOENT then GUAC_RDP_FS_ENOENT
      else if err = ENOTDIR then GUAC_RDP_FS_ENOTDIR else if err = ENOSPC then GUAC_RDP_FS_ENOSPC
      else if err = EISDIR then GUAC_RDP_FS_EISDIR else if err = EACCES then GUAC_RDP_FS_EACCES
      else if err = EEXIST then GUAC_RDP_FS_EEXIST else if err = EINVAL then GUAC_RDP_FS_EINVAL
      else if err = ENOSYS then GUAC_RDP_FS_ENOSYS else if err = ENOTSUP then GUAC_RDP_FS_ENOTSUP
      else GUAC_RDP_FS_EINVAL)"

datatype nt_status =
    STATUS_NO_MORE_FILES | STATUS_NO_SUCH_FILE | STATUS_NOT_A_DIRECTORY | STATUS_DISK_FULL
  | STATUS_FILE_IS_A_DIRECTORY | STATUS_ACCESS_DENIED | STATUS_OBJECT_NAME_COLLISION
  | STATUS_INVALID_PARAMETER | STATUS_NOT_IMPLEMENTED | STATUS_NOT_SUPPORTED

definition guac_rdp_fs_get_status :: "int \<Rightarrow> nt_status" where
  "guac_rdp_fs_get_status err =
     (if err = GUAC_RDP_FS_ENFILE then STATUS_NO_MORE_FILES else if err = GUAC_RDP_FS_ENOENT then STATUS_NO_SUCH_FILE
      else if err = GUAC_RDP_FS_ENOTDIR then STATUS_NOT_A_DIRECTORY else if err = GUAC_RDP_FS_ENOSPC then STATUS_DISK_FULL
      else if err = GUAC_RDP_FS_EISDIR then STATUS_FILE_IS_A_DIRECTORY
      else if err = GUAC_RDP_FS_EACCES then STATUS_ACCESS_DENIED
      else if err = GUAC_RDP_FS_EEXIST then STATUS_OBJECT_NAME_COLLISION
      else if err = GUAC_RDP_FS_EINVAL then STATUS_INVALID_PARAMETER
      else if err = GUAC_RDP_FS_ENOSYS then STATUS_NOT_IMPLEMENTED
      else if err = GUAC_RDP_FS_ENOTSUP then STATUS_NOT_SUPPORTED
      else STATUS_INVALID_PARAMETER)"

definition WINDOWS_TIME :: "64 word \<Rightarrow> 64 word" where
  "WINDOWS_TIME t = (t - 11644473600) * 10000000"

definition UNIX_TIME :: "64 word \<Rightarrow> 64 word" where
  "UNIX_TIME t = t div 10000000 + 11644473600"

subsection \<open>Opening\<close>

definition access_flags :: "int \<Rightarrow> int" where
  "access_flags access =
     (if access AND GENERIC_ALL \<noteq> 0 then O_RDWR
      else if access AND (GENERIC_WRITE OR FILE_WRITE_DATA OR FILE_APPEND_DATA) \<noteq> 0
        \<and> access AND (GENERIC_READ OR FILE_READ_DATA) \<noteq> 0 then O_RDWR
      else if access AND (GENERIC_WRITE OR FILE_WRITE_DATA OR FILE_APPEND_DATA) \<noteq> 0 then O_WRONLY
      else O_RDONLY)"

text \<open>The dispositions by their numbers: supersede, open, create, open or create, overwrite, overwrite or create.\<close>

definition disposition_flags :: "fs_kernel \<Rightarrow> int \<Rightarrow> byte list \<Rightarrow> int \<Rightarrow> guac_rdp_fs \<Rightarrow> (int \<times> guac_rdp_fs) option" where
  "disposition_flags os disposition path flags fs =
     (if disposition = 2 then Some (flags OR O_CREAT OR O_EXCL, fs)
      else if disposition = 1 then Some (flags, fs)
      else if disposition = 3 then Some (flags OR O_CREAT, fs)
      else if disposition = 4 then Some (flags OR O_TRUNC, fs)
      else if disposition = 5 then Some (flags OR O_CREAT OR O_TRUNC, fs)
      else if disposition = 0 then Some (flags OR O_CREAT OR O_TRUNC, snd (fs_call_kernel os (call_unlink path) fs))
      else None)"

text \<open>The directory that is created first; the result is the error of \<open>mkdir\<close> or the flags that are left.\<close>

definition create_directory :: "fs_kernel \<Rightarrow> int \<Rightarrow> byte list \<Rightarrow> int \<Rightarrow> guac_rdp_fs \<Rightarrow> (int + int) \<times> guac_rdp_fs" where
  "create_directory os options path flags fs =
     (if options AND FILE_DIRECTORY_FILE \<noteq> 0 \<and> flags AND O_CREAT \<noteq> 0
      then
        (case fs_call_kernel os (call_mkdir path) fs of
           ((r, errno), fs) \<Rightarrow>
             if r \<noteq> 0 \<and> (errno \<noteq> EEXIST \<or> flags AND O_EXCL \<noteq> 0)
             then (Inl (guac_rdp_fs_get_errorcode errno), fs)
             else (Inr (flags AND NOT (O_CREAT OR O_EXCL)), fs))
      else (Inr flags, fs))"

definition open_native :: "fs_kernel \<Rightarrow> byte list \<Rightarrow> int \<Rightarrow> guac_rdp_fs \<Rightarrow> (int \<times> int) \<times> guac_rdp_fs" where
  "open_native os path flags fs =
     (case fs_call_kernel os (call_open path flags) fs of
        ((fd, errno), fs) \<Rightarrow>
          if fd = - 1 \<and> errno = EISDIR
          then fs_call_kernel os (call_open path ((flags AND NOT (O_WRONLY OR O_RDWR)) OR O_RDONLY)) fs
          else ((fd, errno), fs))"

text \<open>Giving an open descriptor a number; the array has \<open>GUAC_RDP_FS_MAX_FILES\<close> places.\<close>

definition register_file ::
    "fs_kernel \<Rightarrow> byte list \<Rightarrow> byte list \<Rightarrow> int \<Rightarrow> guac_rdp_fs \<Rightarrow> (int \<times> guac_rdp_fs) option" where
  "register_file os normalized path fd fs =
     (case guac_pool_next_int (file_id_pool fs) of
        (i, pool) \<Rightarrow>
          if i < 0 \<or> i \<ge> GUAC_RDP_FS_MAX_FILES then None
          else
            (case fs_call_kernel os (call_fstat fd) (fs\<lparr>file_id_pool := pool\<rparr>) of
               ((r, errno), fs) \<Rightarrow>
                 (let st = kernel_stat os (fs_calls fs);
                      f = \<lparr>file_id = i, absolute_path = Some normalized, real_path = Some path, file_fd = fd,
                           file_dir = False, dir_pattern = [],
                           file_attributes = (if r = 0 \<and> st_is_dir st then FILE_ATTRIBUTE_DIRECTORY else FILE_ATTRIBUTE_NORMAL),
                           file_size = (if r = 0 then st_size st else 0),
                           file_ctime = (if r = 0 then WINDOWS_TIME (st_ctime st) else 0),
                           file_mtime = (if r = 0 then WINDOWS_TIME (st_mtime st) else 0),
                           file_atime = (if r = 0 then WINDOWS_TIME (st_atime st) else 0),
                           bytes_written = 0\<rparr>
                  in Some (i, fs\<lparr>fs_files := (fs_files fs)(i := Some f), fs_open_files := fs_open_files fs + 1\<rparr>))))"

definition guac_rdp_fs_open ::
    "fs_kernel \<Rightarrow> byte list \<Rightarrow> int \<Rightarrow> int \<Rightarrow> int \<Rightarrow> guac_rdp_fs \<Rightarrow> (int \<times> guac_rdp_fs) option" where
  "guac_rdp_fs_open os path access disposition options fs =
     (if fs_open_files fs \<ge> GUAC_RDP_FS_MAX_FILES then Some (GUAC_RDP_FS_ENFILE, fs)
      else if path \<noteq> [] \<and> hd path \<noteq> backslash \<and> hd path \<noteq> slash then Some (GUAC_RDP_FS_ENOENT, fs)
      else
        (case guac_rdp_fs_normalize_path (if path = [] then [backslash] else path) of
           None \<Rightarrow> Some (GUAC_RDP_FS_ENOENT, fs)
         | Some normalized \<Rightarrow>
             (let path = translate_path (fs_drive_path fs) normalized
              in case disposition_flags os disposition path (access_flags access) fs of
                   None \<Rightarrow> Some (GUAC_RDP_FS_ENOSYS, fs)
                 | Some (flags, fs) \<Rightarrow>
                     (case create_directory os options path flags fs of
                        (Inl e, fs) \<Rightarrow> Some (e, fs)
                      | (Inr flags, fs) \<Rightarrow>
                          (case open_native os path flags fs of
                             ((fd, errno), fs) \<Rightarrow>
                               if fd = - 1 then Some (guac_rdp_fs_get_errorcode errno, fs)
                               else register_file os normalized path fd fs)))))"

subsection \<open>Operations on open files\<close>

text \<open>The address of a file is its number; a number outside of the array has none.\<close>

definition guac_rdp_fs_get_file :: "int \<Rightarrow> bool" where
  "guac_rdp_fs_get_file i \<longleftrightarrow> \<not> (i < 0 \<or> i \<ge> GUAC_RDP_FS_MAX_FILES)"

definition guac_rdp_fs_read :: "fs_kernel \<Rightarrow> int \<Rightarrow> int \<Rightarrow> int \<Rightarrow> guac_rdp_fs \<Rightarrow> (int \<times> guac_rdp_fs) option" where
  "guac_rdp_fs_read os i offset len fs =
     (if \<not> guac_rdp_fs_get_file i then Some (GUAC_RDP_FS_EINVAL, fs)
      else
        (case fs_files fs i of
           None \<Rightarrow> None
         | Some f \<Rightarrow>
             (case fs_call_kernel os (call_read (file_fd f) len) (snd (fs_call_kernel os (call_lseek (file_fd f) offset) fs)) of
                ((r, errno), fs) \<Rightarrow> Some (if r < 0 then guac_rdp_fs_get_errorcode errno else r, fs))))"

definition guac_rdp_fs_write :: "fs_kernel \<Rightarrow> int \<Rightarrow> int \<Rightarrow> int \<Rightarrow> guac_rdp_fs \<Rightarrow> (int \<times> guac_rdp_fs) option" where
  "guac_rdp_fs_write os i offset len fs =
     (if \<not> guac_rdp_fs_get_file i then Some (GUAC_RDP_FS_EINVAL, fs)
      else
        (case fs_files fs i of
           None \<Rightarrow> None
         | Some f \<Rightarrow>
             (case fs_call_kernel os (call_write (file_fd f) len) (snd (fs_call_kernel os (call_lseek (file_fd f) offset) fs)) of
                ((r, errno), fs) \<Rightarrow>
                  if r < 0 then Some (guac_rdp_fs_get_errorcode errno, fs)
                  else Some (r, fs\<lparr>fs_files := (fs_files fs)(i := Some (f\<lparr>bytes_written := bytes_written f + word_of_int r\<rparr>))\<rparr>))))"

definition guac_rdp_fs_rename :: "fs_kernel \<Rightarrow> int \<Rightarrow> byte list \<Rightarrow> guac_rdp_fs \<Rightarrow> (int \<times> guac_rdp_fs) option" where
  "guac_rdp_fs_rename os i new_path fs =
     (if \<not> guac_rdp_fs_get_file i then Some (GUAC_RDP_FS_EINVAL, fs)
      else
        (case guac_rdp_fs_normalize_path new_path of
           None \<Rightarrow> Some (GUAC_RDP_FS_ENOENT, fs)
         | Some normalized \<Rightarrow>
             (case Option.bind (fs_files fs i) real_path of
                None \<Rightarrow> None
              | Some path \<Rightarrow>
                  (case fs_call_kernel os (call_rename path (translate_path (fs_drive_path fs) normalized)) fs of
                     ((r, errno), fs) \<Rightarrow> Some (if r \<noteq> 0 then guac_rdp_fs_get_errorcode errno else 0, fs)))))"

definition guac_rdp_fs_delete :: "fs_kernel \<Rightarrow> int \<Rightarrow> guac_rdp_fs \<Rightarrow> (int \<times> guac_rdp_fs) option" where
  "guac_rdp_fs_delete os i fs =
     (if \<not> guac_rdp_fs_get_file i then Some (GUAC_RDP_FS_EINVAL, fs)
      else
        (case fs_files fs i of
           None \<Rightarrow> None
         | Some f \<Rightarrow>
             (case real_path f of
                None \<Rightarrow> None
              | Some path \<Rightarrow>
                  (case fs_call_kernel os
                     (if file_attributes f AND FILE_ATTRIBUTE_DIRECTORY \<noteq> 0 then call_rmdir path else call_unlink path) fs of
                     ((r, errno), fs) \<Rightarrow> Some (if r \<noteq> 0 then guac_rdp_fs_get_errorcode errno else 0, fs)))))"

definition guac_rdp_fs_truncate :: "fs_kernel \<Rightarrow> int \<Rightarrow> int \<Rightarrow> guac_rdp_fs \<Rightarrow> (int \<times> guac_rdp_fs) option" where
  "guac_rdp_fs_truncate os i len fs =
     (if \<not> guac_rdp_fs_get_file i then Some (GUAC_RDP_FS_EINVAL, fs)
      else
        (case fs_files fs i of
           None \<Rightarrow> None
         | Some f \<Rightarrow>
             (case fs_call_kernel os (call_ftruncate (file_fd f) len) fs of
                ((r, errno), fs) \<Rightarrow> Some (if r \<noteq> 0 then guac_rdp_fs_get_errorcode errno else 0, fs))))"

text \<open>Both names are freed, and freeing one of them twice is undefined.\<close>

definition guac_rdp_fs_close :: "fs_kernel \<Rightarrow> int \<Rightarrow> guac_rdp_fs \<Rightarrow> guac_rdp_fs option" where
  "guac_rdp_fs_close os i fs =
     (if \<not> guac_rdp_fs_get_file i then Some fs
      else
        (case fs_files fs i of
           None \<Rightarrow> None
         | Some f \<Rightarrow>
             (let fs = (if file_dir f then snd (fs_call_kernel os (call_closedir (file_fd f)) fs) else fs);
                  fs = snd (fs_call_kernel os (call_close (file_fd f)) fs)
              in if absolute_path f = None \<or> real_path f = None then None
                 else Some (fs\<lparr>fs_files := (fs_files fs)(i := Some (f\<lparr>absolute_path := None, real_path := None\<rparr>)),
                               file_id_pool := guac_pool_free_int i (file_id_pool fs),
                               fs_open_files := fs_open_files fs - 1\<rparr>))))"

text \<open>A directory stream is opened with the first entry; the kernel answers 0 to \<open>fdopendir\<close> if it cannot be.\<close>

definition guac_rdp_fs_read_dir :: "fs_kernel \<Rightarrow> int \<Rightarrow> guac_rdp_fs \<Rightarrow> (byte list option \<times> guac_rdp_fs) option" where
  "guac_rdp_fs_read_dir os i fs =
     (if i < 0 \<or> i \<ge> GUAC_RDP_FS_MAX_FILES then Some (None, fs)
      else
        (case fs_files fs i of
           None \<Rightarrow> None
         | Some f \<Rightarrow>
             (let (ok, fs) =
                (if file_dir f then (True, fs)
                 else (case fs_call_kernel os (call_fdopendir (file_fd f)) fs of
                         ((r, errno), fs) \<Rightarrow>
                           (r \<noteq> 0, fs\<lparr>fs_files := (fs_files fs)(i := Some (f\<lparr>file_dir := r \<noteq> 0\<rparr>))\<rparr>)))
              in if \<not> ok then Some (None, fs)
                 else (let fs = snd (fs_call_kernel os (call_readdir (file_fd f)) fs)
                       in Some (kernel_entry os (fs_calls fs), fs)))))"

definition guac_rdp_fs_get_info :: "fs_kernel \<Rightarrow> guac_rdp_fs \<Rightarrow> int \<times> guac_rdp_fs" where
  "guac_rdp_fs_get_info os fs =
     (case fs_call_kernel os (call_statvfs (fs_drive_path fs)) fs of
        ((r, errno), fs) \<Rightarrow> (if r \<noteq> 0 then guac_rdp_fs_get_errorcode errno else 0, fs))"

section \<open>Sessions\<close>

datatype fs_op =
    op_open "byte list" int int int
  | op_read int int int
  | op_write int int int
  | op_rename int "byte list"
  | op_delete int
  | op_truncate int int
  | op_close int
  | op_read_dir int
  | op_get_info

fun fs_step :: "fs_kernel \<Rightarrow> fs_op \<Rightarrow> guac_rdp_fs \<Rightarrow> guac_rdp_fs option" where
  "fs_step os (op_open path access disposition options) fs = map_option snd (guac_rdp_fs_open os path access disposition options fs)"
| "fs_step os (op_read i offset len) fs = map_option snd (guac_rdp_fs_read os i offset len fs)"
| "fs_step os (op_write i offset len) fs = map_option snd (guac_rdp_fs_write os i offset len fs)"
| "fs_step os (op_rename i path) fs = map_option snd (guac_rdp_fs_rename os i path fs)"
| "fs_step os (op_delete i) fs = map_option snd (guac_rdp_fs_delete os i fs)"
| "fs_step os (op_truncate i len) fs = map_option snd (guac_rdp_fs_truncate os i len fs)"
| "fs_step os (op_close i) fs = guac_rdp_fs_close os i fs"
| "fs_step os (op_read_dir i) fs = map_option snd (guac_rdp_fs_read_dir os i fs)"
| "fs_step os op_get_info fs = Some (snd (guac_rdp_fs_get_info os fs))"

fun op_target :: "fs_op \<Rightarrow> int option" where
  "op_target (op_open path access disposition options) = None"
| "op_target (op_read i offset len) = Some i"
| "op_target (op_write i offset len) = Some i"
| "op_target (op_rename i path) = Some i"
| "op_target (op_delete i) = Some i"
| "op_target (op_truncate i len) = Some i"
| "op_target (op_close i) = Some i"
| "op_target (op_read_dir i) = Some i"
| "op_target op_get_info = None"

text \<open>The files that are open, and operations that name one of them or a number outside of the array.\<close>

definition fs_open_ids :: "guac_rdp_fs \<Rightarrow> int set" where
  "fs_open_ids fs = pool_in_use (file_id_pool fs)"

definition op_ok :: "fs_op \<Rightarrow> guac_rdp_fs \<Rightarrow> bool" where
  "op_ok op fs \<longleftrightarrow> (case op_target op of None \<Rightarrow> True | Some i \<Rightarrow> \<not> guac_rdp_fs_get_file i \<or> i \<in> fs_open_ids fs)"

primrec fs_run :: "fs_kernel \<Rightarrow> fs_op list \<Rightarrow> guac_rdp_fs \<Rightarrow> guac_rdp_fs option" where
  "fs_run os [] fs = Some fs"
| "fs_run os (op # ops) fs = Option.bind (fs_step os op fs) (fs_run os ops)"

primrec fs_legal :: "fs_kernel \<Rightarrow> fs_op list \<Rightarrow> guac_rdp_fs \<Rightarrow> bool" where
  "fs_legal os [] fs \<longleftrightarrow> True"
| "fs_legal os (op # ops) fs \<longleftrightarrow> op_ok op fs \<and> (case fs_step os op fs of None \<Rightarrow> True | Some fs \<Rightarrow> fs_legal os ops fs)"

fun call_paths :: "fs_call \<Rightarrow> byte list list" where
  "call_paths (call_mkdir path) = [path]"
| "call_paths (call_unlink path) = [path]"
| "call_paths (call_rmdir path) = [path]"
| "call_paths (call_open path flags) = [path]"
| "call_paths (call_rename old new) = [old, new]"
| "call_paths (call_statvfs path) = [path]"
| "call_paths _ = []"

definition call_confined :: "byte list \<Rightarrow> fs_call \<Rightarrow> bool" where
  "call_confined drive c \<longleftrightarrow> list_all (\<lambda>path. path = drive \<or> within_directory drive path) (call_paths c)"

definition file_ok :: "byte list \<Rightarrow> int \<Rightarrow> guac_rdp_fs_file \<Rightarrow> bool" where
  "file_ok drive i f \<longleftrightarrow> file_id f = i \<and> absolute_path f \<noteq> None
     \<and> (\<exists>path. real_path f = Some path \<and> (length drive < 4092 \<longrightarrow> within_directory drive path))"

definition calls_confined :: "guac_rdp_fs \<Rightarrow> bool" where
  "calls_confined fs \<longleftrightarrow> (length (fs_drive_path fs) < 4092 \<longrightarrow> list_all (call_confined (fs_drive_path fs)) (fs_calls fs))"

definition fs_inv :: "guac_rdp_fs \<Rightarrow> bool" where
  "fs_inv fs \<longleftrightarrow> pool_compact 128 (file_id_pool fs) \<and> fs_open_files fs = active (file_id_pool fs)
     \<and> (\<forall>i \<in> fs_open_ids fs. \<exists>f. fs_files fs i = Some f \<and> file_ok (fs_drive_path fs) i f) \<and> calls_confined fs"

text \<open>A system call changes the list of calls only.\<close>

lemma kernel_call:
  assumes "fs_inv fs" and "length (fs_drive_path fs) < 4092 \<Longrightarrow> call_confined (fs_drive_path fs) c"
  shows "fs_inv (snd (fs_call_kernel os c fs))"
  using assms by (simp add: fs_inv_def calls_confined_def fs_call_kernel_def fs_open_ids_def Let_def)

lemma kernel_call_fields [simp]:
  "fs_drive_path (snd (fs_call_kernel os c fs)) = fs_drive_path fs"
  "fs_open_files (snd (fs_call_kernel os c fs)) = fs_open_files fs"
  "file_id_pool (snd (fs_call_kernel os c fs)) = file_id_pool fs"
  "fs_files (snd (fs_call_kernel os c fs)) = fs_files fs"
  "fs_open_ids (snd (fs_call_kernel os c fs)) = fs_open_ids fs"
  by (simp_all add: fs_call_kernel_def Let_def fs_open_ids_def)

lemma no_paths: "call_paths c = [] \<Longrightarrow> call_confined drive c"
  by (simp add: call_confined_def)

lemma open_id_range: "fs_inv fs \<Longrightarrow> i \<in> fs_open_ids fs \<Longrightarrow> 0 \<le> i \<and> i < 128"
  by (auto simp: fs_inv_def pool_compact_def pool_in_use_def fs_open_ids_def)

lemma open_file:
  assumes "fs_inv fs" and "op_ok op fs" and "op_target op = Some i" and "guac_rdp_fs_get_file i"
  obtains f path where "fs_files fs i = Some f" "file_ok (fs_drive_path fs) i f" "real_path f = Some path" "i \<in> fs_open_ids fs"
    "length (fs_drive_path fs) < 4092 \<Longrightarrow> within_directory (fs_drive_path fs) path"
  using assms by (auto simp: fs_inv_def op_ok_def file_ok_def)

text \<open>A change of a file that keeps its names.\<close>

lemma file_update:
  assumes "fs_inv fs" and "file_ok (fs_drive_path fs) i f"
  shows "fs_inv (fs\<lparr>fs_files := (fs_files fs)(i := Some f)\<rparr>)"
  using assms by (simp add: fs_inv_def calls_confined_def fs_open_ids_def)

lemma fs_file_step:
  assumes "fs_inv fs" and "op_ok op fs" and "op_target op = Some i" and "\<And>i. op \<noteq> op_close i"
  shows "\<exists>fs'. fs_step os op fs = Some fs' \<and> fs_inv fs' \<and> fs_drive_path fs' = fs_drive_path fs \<and> fs_open_ids fs' = fs_open_ids fs"
proof (cases "guac_rdp_fs_get_file i")
  case False
  then show ?thesis using assms
    by (cases op) (auto simp: guac_rdp_fs_read_def guac_rdp_fs_write_def guac_rdp_fs_rename_def guac_rdp_fs_delete_def
        guac_rdp_fs_truncate_def guac_rdp_fs_read_dir_def guac_rdp_fs_get_file_def)
next
  case True
  obtain f path where f: "fs_files fs i = Some f" "file_ok (fs_drive_path fs) i f" "real_path f = Some path"
    "length (fs_drive_path fs) < 4092 \<Longrightarrow> within_directory (fs_drive_path fs) path"
    using open_file[OF assms(1-3) True] by metis
  have in_range: "\<not> (i < 0 \<or> i \<ge> 128)" using True by (simp add: guac_rdp_fs_get_file_def)
  have add: "fs_inv g' \<and> fs_drive_path g' = fs_drive_path fs \<and> fs_open_ids g' = fs_open_ids fs \<and> fs_files g' = fs_files g"
    if "fs_call_kernel os c g = (r, g')" "fs_inv g" "fs_drive_path g = fs_drive_path fs" "fs_open_ids g = fs_open_ids fs"
      "length (fs_drive_path fs) < 4092 \<Longrightarrow> call_confined (fs_drive_path fs) c" for c g r g'
    using kernel_call[of g c os] kernel_call_fields[of os c g] that by auto
  have quiet: "call_confined d c" if "call_paths c = []" for c d using no_paths[OF that] .
  have upd: "fs_inv (g\<lparr>fs_files := (fs_files g)(i := Some f')\<rparr>)"
    if "fs_inv g" "fs_drive_path g = fs_drive_path fs" "file_ok (fs_drive_path fs) i f'" for g f'
    using file_update[OF that(1), of i f'] that(2,3) by simp
  define g1 where "g1 n = snd (fs_call_kernel os (call_lseek (file_fd f) n) fs)" for n
  have lseek: "fs_call_kernel os (call_lseek (file_fd f) n) fs = (fst (fs_call_kernel os (call_lseek (file_fd f) n) fs), g1 n)" for n
    by (simp add: g1_def)
  have g1: "fs_inv (g1 n)" "fs_drive_path (g1 n) = fs_drive_path fs" "fs_open_ids (g1 n) = fs_open_ids fs" "fs_files (g1 n) = fs_files fs" for n
    using add[OF lseek assms(1)] quiet by auto
  show ?thesis
  proof (cases op)
    case (op_read j offset len)
    obtain r e g2 where "fs_call_kernel os (call_read (file_fd f) len) (g1 offset) = ((r, e), g2)" by (metis surj_pair)
    then show ?thesis using op_read assms(3) True f(1) g1_def[of offset, symmetric] add[of "call_read (file_fd f) len" "g1 offset" "(r, e)" g2] g1 quiet
      by (simp add: guac_rdp_fs_read_def)
  next
    case (op_write j offset len)
    obtain r e g2 where g2: "fs_call_kernel os (call_write (file_fd f) len) (g1 offset) = ((r, e), g2)" by (metis surj_pair)
    have "fs_inv g2" "fs_drive_path g2 = fs_drive_path fs" "fs_open_ids g2 = fs_open_ids fs"
      using add[OF g2] g1 quiet by auto
    moreover have "file_ok (fs_drive_path fs) i (f\<lparr>bytes_written := bytes_written f + word_of_int r\<rparr>)"
      using f(2) by (simp add: file_ok_def)
    ultimately show ?thesis using op_write assms(3) True f(1) g1_def[of offset, symmetric] g2 upd[of g2]
      by (simp add: guac_rdp_fs_write_def) (simp add: fs_open_ids_def)
  next
    case (op_rename j new_path)
    show ?thesis
    proof (cases "guac_rdp_fs_normalize_path new_path")
      case None
      then show ?thesis using op_rename assms(1,3) True by (simp add: guac_rdp_fs_rename_def)
    next
      case (Some norm)
      let ?c = "call_rename path (translate_path (fs_drive_path fs) norm)"
      obtain r e g where g: "fs_call_kernel os ?c fs = ((r, e), g)" by (metis surj_pair)
      have "call_confined (fs_drive_path fs) ?c" if "length (fs_drive_path fs) < 4092"
        using f(4)[OF that] translated_within[OF Some that] by (simp add: call_confined_def)
      then show ?thesis using op_rename assms(1,3) True f(1,3) g add[OF g] Some by (simp add: guac_rdp_fs_rename_def)
    qed
  next
    case (op_delete j)
    let ?c = "if file_attributes f AND FILE_ATTRIBUTE_DIRECTORY \<noteq> 0 then call_rmdir path else call_unlink path"
    obtain r e g where g: "fs_call_kernel os ?c fs = ((r, e), g)" by (metis surj_pair)
    have "call_confined (fs_drive_path fs) ?c" if "length (fs_drive_path fs) < 4092"
      using f(4)[OF that] by (simp add: call_confined_def)
    then have "fs_inv g \<and> fs_drive_path g = fs_drive_path fs \<and> fs_open_ids g = fs_open_ids fs"
      using add[OF g assms(1)] by blast
    moreover have "guac_rdp_fs_delete os i fs = Some (if r \<noteq> 0 then guac_rdp_fs_get_errorcode e else 0, g)"
      using True unfolding guac_rdp_fs_delete_def f(1) option.case f(3) g prod.case by simp
    ultimately show ?thesis using op_delete assms(3) by simp
  next
    case (op_truncate j len)
    obtain r e g where g: "fs_call_kernel os (call_ftruncate (file_fd f) len) fs = ((r, e), g)" by (metis surj_pair)
    then show ?thesis using op_truncate assms(1,3) True f(1) add[OF g] quiet by (simp add: guac_rdp_fs_truncate_def)
  next
    case (op_read_dir j)
    define opened where "opened = (if file_dir f then (True, fs)
       else (case fs_call_kernel os (call_fdopendir (file_fd f)) fs of
               ((r, errno), fs) \<Rightarrow> (r \<noteq> 0, fs\<lparr>fs_files := (fs_files fs)(i := Some (f\<lparr>file_dir := r \<noteq> 0\<rparr>))\<rparr>)))"
    obtain ok g where o: "opened = (ok, g)" by (metis surj_pair)
    have g: "fs_inv g \<and> fs_drive_path g = fs_drive_path fs \<and> fs_open_ids g = fs_open_ids fs"
    proof (cases "file_dir f")
      case True
      then show ?thesis using o assms(1) by (simp add: opened_def)
    next
      case False
      obtain r e h where h: "fs_call_kernel os (call_fdopendir (file_fd f)) fs = ((r, e), h)" by (metis surj_pair)
      have "fs_inv h" "fs_drive_path h = fs_drive_path fs" "fs_open_ids h = fs_open_ids fs"
        using add[OF h assms(1)] quiet by auto
      moreover have "file_ok (fs_drive_path fs) i (f\<lparr>file_dir := r \<noteq> 0\<rparr>)" using f(2) by (simp add: file_ok_def)
      moreover have "g = h\<lparr>fs_files := (fs_files h)(i := Some (f\<lparr>file_dir := r \<noteq> 0\<rparr>))\<rparr>"
        using o unfolding opened_def h prod.case using False by auto
      ultimately show ?thesis using upd[of h] by (simp add: fs_open_ids_def)
    qed
    obtain r h where h: "fs_call_kernel os (call_readdir (file_fd f)) g = (r, h)" by (metis surj_pair)
    have "guac_rdp_fs_read_dir os i fs = (if \<not> ok then Some (None, g) else Some (kernel_entry os (fs_calls h), h))"
      using f(1) in_range h unfolding guac_rdp_fs_read_dir_def
      by (simp add: opened_def[symmetric] o Let_def)
    then show ?thesis using op_read_dir assms(3) g add[OF h] quiet by (cases ok) auto
  qed (use assms(3,4) in auto)
qed

text \<open>Closing gives the number back, and opening takes one that is not in use.\<close>

lemma fs_close_step:
  assumes "fs_inv fs" and "op_ok (op_close i) fs"
  shows "\<exists>fs'. guac_rdp_fs_close os i fs = Some fs' \<and> fs_inv fs' \<and> fs_drive_path fs' = fs_drive_path fs
    \<and> fs_open_ids fs' = fs_open_ids fs - {i}"
proof (cases "guac_rdp_fs_get_file i")
  case False
  then have "i \<notin> fs_open_ids fs" using open_id_range[OF assms(1), of i] by (auto simp: guac_rdp_fs_get_file_def)
  then show ?thesis using False assms(1) by (simp add: guac_rdp_fs_close_def)
next
  case True
  obtain f path where f: "fs_files fs i = Some f" "file_ok (fs_drive_path fs) i f" "real_path f = Some path" "i \<in> fs_open_ids fs"
    using open_file[OF assms, of i] True by (metis op_target.simps(7))
  define g where "g = (if file_dir f then snd (fs_call_kernel os (call_closedir (file_fd f)) fs) else fs)"
  define h where "h = snd (fs_call_kernel os (call_close (file_fd f)) g)"
  have g: "fs_inv g" "fs_drive_path g = fs_drive_path fs" "file_id_pool g = file_id_pool fs" "fs_files g = fs_files fs"
    "fs_open_files g = fs_open_files fs"
    using kernel_call[OF assms(1) no_paths, of "call_closedir (file_fd f)"] assms(1) by (simp_all add: g_def)
  have h: "fs_inv h" "fs_drive_path h = fs_drive_path fs" "file_id_pool h = file_id_pool fs" "fs_files h = fs_files fs"
    "fs_open_files h = fs_open_files fs"
    using kernel_call[OF g(1) no_paths, of "call_close (file_fd f)"] g by (simp_all add: h_def)
  let ?f = "f\<lparr>absolute_path := None, real_path := None\<rparr>"
  define k where "k = h\<lparr>fs_files := (fs_files h)(i := Some ?f), file_id_pool := guac_pool_free_int i (file_id_pool h),
      fs_open_files := fs_open_files h - 1\<rparr>"
  have close: "guac_rdp_fs_close os i fs = Some k"
    using f(2,3) True unfolding guac_rdp_fs_close_def f(1) option.case Let_def g_def[symmetric] h_def[symmetric] k_def
    by (simp add: file_ok_def)
  have pool: "pool_compact 128 (file_id_pool fs)" "i \<in> pool_in_use (file_id_pool fs)"
    using assms(1) f(4) by (auto simp: fs_inv_def fs_open_ids_def)
  then have ids: "fs_open_ids k = fs_open_ids fs - {i}"
    using gp.rel_in_use[of "file_id_pool fs" i] by (simp add: k_def h fs_open_ids_def pool_compact_def)
  have "pool_compact 128 (file_id_pool k)" using pool_compact_free[OF pool] by (simp add: k_def h)
  moreover have "fs_open_files k = active (file_id_pool k)"
    using assms(1) by (simp add: k_def h fs_inv_def guac_pool_free_int_def)
  moreover have "\<exists>f. fs_files k j = Some f \<and> file_ok (fs_drive_path k) j f" if "j \<in> fs_open_ids k" for j
    using that ids assms(1) by (auto simp: k_def h fs_inv_def)
  moreover have "calls_confined k" using h(1) by (simp add: k_def fs_inv_def calls_confined_def)
  ultimately have "fs_inv k" by (simp add: fs_inv_def)
  then show ?thesis using close ids h(2) by (simp add: k_def)
qed

lemma register_step:
  assumes "fs_inv fs" and "fs_open_files fs < 128"
    and "length (fs_drive_path fs) < 4092 \<Longrightarrow> within_directory (fs_drive_path fs) path"
  shows "\<exists>i fs'. register_file os norm path fd fs = Some (i, fs') \<and> fs_inv fs' \<and> fs_drive_path fs' = fs_drive_path fs
    \<and> 0 \<le> i \<and> i < 128 \<and> i \<notin> fs_open_ids fs \<and> fs_open_ids fs' = insert i (fs_open_ids fs)"
proof -
  obtain i pool where n: "guac_pool_next_int (file_id_pool fs) = (i, pool)" by (metis surj_pair)
  have c: "pool_compact 128 (file_id_pool fs)" "fs_open_files fs = active (file_id_pool fs)" using assms(1) by (auto simp: fs_inv_def)
  then have inv: "pool_inv (file_id_pool fs)" by (simp add: pool_compact_def)
  have act: "active pool = active (file_id_pool fs) + 1"
    using n by (simp add: guac_pool_next_int_def Let_def split: if_splits) auto
  have i: "0 \<le> i" "i < 128" "i \<notin> fs_open_ids fs" "pool_compact 128 pool" "pool_in_use pool = insert i (fs_open_ids fs)"
    using pool_compact_next[OF c(1)] gp.nxt_fresh[OF inv] gp.nxt_nonneg[OF inv] gp.nxt_in_use[OF inv] n assms(2) c(2)
    by (simp_all add: fs_open_ids_def)
  obtain r e g where g: "fs_call_kernel os (call_fstat fd) (fs\<lparr>file_id_pool := pool\<rparr>) = ((r, e), g)" by (metis surj_pair)
  have gf: "fs_drive_path g = fs_drive_path fs" "fs_files g = fs_files fs" "file_id_pool g = pool" "fs_open_files g = fs_open_files fs"
    "fs_calls g = fs_calls fs @ [call_fstat fd]"
    using g by (auto simp: fs_call_kernel_def Let_def)
  define st where "st = kernel_stat os (fs_calls g)"
  define f where "f = \<lparr>file_id = i, absolute_path = Some norm, real_path = Some path, file_fd = fd, file_dir = False, dir_pattern = [],
     file_attributes = (if r = 0 \<and> st_is_dir st then FILE_ATTRIBUTE_DIRECTORY else FILE_ATTRIBUTE_NORMAL),
     file_size = (if r = 0 then st_size st else 0), file_ctime = (if r = 0 then WINDOWS_TIME (st_ctime st) else 0),
     file_mtime = (if r = 0 then WINDOWS_TIME (st_mtime st) else 0), file_atime = (if r = 0 then WINDOWS_TIME (st_atime st) else 0),
     bytes_written = 0\<rparr>"
  define k where "k = g\<lparr>fs_files := (fs_files g)(i := Some f), fs_open_files := fs_open_files g + 1\<rparr>"
  have reg: "register_file os norm path fd fs = Some (i, k)"
    using i(1,2) unfolding register_file_def n prod.case g Let_def st_def[symmetric] f_def[symmetric] k_def by simp
  have ok: "file_ok (fs_drive_path fs) i f" using assms(3) by (simp add: file_ok_def f_def)
  have ids: "fs_open_ids k = insert i (fs_open_ids fs)" using i(5) by (simp add: fs_open_ids_def k_def gf)
  have "pool_compact 128 (file_id_pool k)" "fs_open_files k = active (file_id_pool k)"
    using i(4) act c(2) by (simp_all add: k_def gf)
  moreover have "\<exists>f. fs_files k j = Some f \<and> file_ok (fs_drive_path k) j f" if "j \<in> fs_open_ids k" for j
    using that ids assms(1) ok by (auto simp: k_def gf fs_inv_def)
  moreover have "calls_confined k" using assms(1) no_paths[of "call_fstat fd"]
    by (simp add: k_def gf fs_inv_def calls_confined_def)
  ultimately have "fs_inv k" by (simp add: fs_inv_def)
  then show ?thesis using reg ids i(1-3) by (auto simp: k_def gf)
qed

text \<open>The result of opening is an error, or the number of a file that was not open.\<close>

definition open_result :: "int \<Rightarrow> guac_rdp_fs \<Rightarrow> guac_rdp_fs \<Rightarrow> bool" where
  "open_result r fs fs' \<longleftrightarrow>
     (r < 0 \<and> fs_open_ids fs' = fs_open_ids fs)
     \<or> (0 \<le> r \<and> r < 128 \<and> r \<notin> fs_open_ids fs \<and> fs_open_ids fs' = insert r (fs_open_ids fs))"

lemma errorcode_negative: "guac_rdp_fs_get_errorcode e < 0"
  by (simp add: guac_rdp_fs_get_errorcode_def)

lemma fs_open_step:
  assumes "fs_inv fs"
  shows "\<exists>r fs'. guac_rdp_fs_open os path access disposition options fs = Some (r, fs') \<and> fs_inv fs'
    \<and> fs_drive_path fs' = fs_drive_path fs \<and> open_result r fs fs'"
proof (cases "fs_open_files fs \<ge> 128 \<or> (path \<noteq> [] \<and> hd path \<noteq> backslash \<and> hd path \<noteq> slash)
    \<or> guac_rdp_fs_normalize_path (if path = [] then [backslash] else path) = None")
  case True
  then show ?thesis using assms by (auto simp: guac_rdp_fs_open_def open_result_def)
next
  case False
  then obtain norm where norm: "guac_rdp_fs_normalize_path (if path = [] then [backslash] else path) = Some norm" by blast
  define drive where "drive = fs_drive_path fs"
  define p where "p = translate_path drive norm"
  have within: "within_directory drive p" if "length drive < 4092" unfolding p_def by (rule translated_within[OF norm that])
  have conf: "call_confined drive c" if "call_paths c = [p]" "length drive < 4092" for c
    using that within by (simp add: call_confined_def)
  define good where "good g \<longleftrightarrow> fs_inv g \<and> fs_drive_path g = drive \<and> fs_open_ids g = fs_open_ids fs
    \<and> fs_open_files g = fs_open_files fs" for g
  have call: "good (snd (fs_call_kernel os c g))" if "good g" "call_paths c = [p]" for c g
    using that kernel_call[of g c os] conf[OF that(2)] by (simp add: good_def)
  have call': "good g'" if "fs_call_kernel os c g = (x, g')" "good g" "call_paths c = [p]" for c g x g'
    using call[OF that(2,3)] that(1) by simp
  have good0: "good fs" using assms by (simp add: good_def drive_def)
  have open_eq: "guac_rdp_fs_open os path access disposition options fs =
     (case disposition_flags os disposition p (access_flags access) fs of
        None \<Rightarrow> Some (GUAC_RDP_FS_ENOSYS, fs)
      | Some (flags, fs) \<Rightarrow>
          (case create_directory os options p flags fs of
             (Inl e, fs) \<Rightarrow> Some (e, fs)
           | (Inr flags, fs) \<Rightarrow>
               (case open_native os p flags fs of
                  ((fd, errno), fs) \<Rightarrow>
                    if fd = - 1 then Some (guac_rdp_fs_get_errorcode errno, fs) else register_file os norm p fd fs)))"
  proof -
    have "\<not> fs_open_files fs \<ge> 128" "\<not> (path \<noteq> [] \<and> hd path \<noteq> backslash \<and> hd path \<noteq> slash)" using False by auto
    then show ?thesis
      unfolding guac_rdp_fs_open_def norm option.case Let_def p_def drive_def by (simp only: if_False)
  qed
  have result: "\<exists>r fs'. x = Some (r, fs') \<and> fs_inv fs' \<and> fs_drive_path fs' = fs_drive_path fs \<and> open_result r fs fs'"
    if "x = Some (e, g)" "e < 0" "good g" for x e g
    using that by (simp add: good_def drive_def open_result_def)
  show ?thesis
  proof (cases "disposition_flags os disposition p (access_flags access) fs")
    case None
    then show ?thesis using good0 by (intro result[where e = GUAC_RDP_FS_ENOSYS]) (simp_all add: open_eq)
  next
    case (Some fg)
    obtain flags g where fg: "fg = (flags, g)" by (metis surj_pair)
    have g: "good g"
      using Some fg good0 call[OF good0, of "call_unlink p"] by (auto simp: disposition_flags_def split: if_splits)
    obtain x h where x: "create_directory os options p flags g = (x, h)" by (metis surj_pair)
    obtain r e h' where m: "fs_call_kernel os (call_mkdir p) g = ((r, e), h')" by (metis surj_pair)
    have "good h'" using call'[OF m g] by simp
    then have h: "good h" using x g m by (auto simp: create_directory_def split: if_splits)
    show ?thesis
    proof (cases x)
      case (Inl err)
      then have "err < 0" using x m errorcode_negative by (auto simp: create_directory_def split: if_splits)
      then show ?thesis using Some fg x Inl h by (intro result[where e = err and g = h]) (simp_all add: open_eq)
    next
      case (Inr flags')
      obtain fd errno k where k: "open_native os p flags' h = ((fd, errno), k)" by (metis surj_pair)
      obtain y k1 where k1: "fs_call_kernel os (call_open p flags') h = (y, k1)" by (metis surj_pair)
      have gk1: "good k1" using call'[OF k1 h] by simp
      have gk: "good k"
        using k k1 gk1 call'[OF _ gk1] by (auto simp: open_native_def split: prod.splits if_splits)
      show ?thesis
      proof (cases "fd = - 1")
        case True
        then show ?thesis using Some fg x Inr k gk errorcode_negative
          by (intro result[where e = "guac_rdp_fs_get_errorcode errno" and g = k]) (simp_all add: open_eq)
      next
        case fd: False
        have "fs_open_files k < 128" "fs_inv k" using gk False by (simp_all add: good_def)
        then obtain i k' where "register_file os norm p fd k = Some (i, k')" "fs_inv k'" "fs_drive_path k' = fs_drive_path k"
          "0 \<le> i" "i < 128" "i \<notin> fs_open_ids k" "fs_open_ids k' = insert i (fs_open_ids k)"
          using register_step[of k p os norm fd] within gk by (auto simp: good_def)
        then show ?thesis using Some fg x Inr k gk fd by (simp add: open_eq good_def drive_def open_result_def)
      qed
    qed
  qed
qed

lemma fs_step_inv:
  assumes "fs_inv fs" and "op_ok op fs"
  shows "\<exists>fs'. fs_step os op fs = Some fs' \<and> fs_inv fs' \<and> fs_drive_path fs' = fs_drive_path fs"
proof (cases op)
  case (op_open path access disposition options)
  then show ?thesis using fs_open_step[OF assms(1), of os path access disposition options] by auto
next
  case (op_close i)
  then show ?thesis using fs_close_step[of fs i os] assms by auto
next
  case op_get_info
  have "call_confined (fs_drive_path fs) (call_statvfs (fs_drive_path fs))" by (simp add: call_confined_def)
  moreover have "snd (guac_rdp_fs_get_info os fs) = snd (fs_call_kernel os (call_statvfs (fs_drive_path fs)) fs)"
    by (simp add: guac_rdp_fs_get_info_def split: prod.splits)
  ultimately show ?thesis using op_get_info kernel_call[OF assms(1), of "call_statvfs (fs_drive_path fs)" os] by simp
next
  case (op_read i offset len)
  then show ?thesis using fs_file_step[OF assms, of i os] by auto
next
  case (op_write i offset len)
  then show ?thesis using fs_file_step[OF assms, of i os] by auto
next
  case (op_rename i path)
  then show ?thesis using fs_file_step[OF assms, of i os] by auto
next
  case (op_delete i)
  then show ?thesis using fs_file_step[OF assms, of i os] by auto
next
  case (op_truncate i len)
  then show ?thesis using fs_file_step[OF assms, of i os] by auto
next
  case (op_read_dir i)
  then show ?thesis using fs_file_step[OF assms, of i os] by auto
qed

lemma fs_run_inv:
  "fs_inv fs \<Longrightarrow> fs_legal os ops fs \<Longrightarrow> \<exists>fs'. fs_run os ops fs = Some fs' \<and> fs_inv fs' \<and> fs_drive_path fs' = fs_drive_path fs"
proof (induction ops arbitrary: fs)
  case (Cons op ops)
  obtain fs1 where "fs_step os op fs = Some fs1" "fs_inv fs1" "fs_drive_path fs1 = fs_drive_path fs"
    using fs_step_inv[OF Cons.prems(1), of op os] Cons.prems(2) by auto
  then show ?case using Cons.IH[of fs1] Cons.prems(2) by simp
qed simp

lemma alloc_inv: "fs_inv (guac_rdp_fs_alloc os drive create) \<and> fs_drive_path (guac_rdp_fs_alloc os drive create) = drive"
  by (simp add: guac_rdp_fs_alloc_def fs_inv_def calls_confined_def call_confined_def fs_open_ids_def guac_pool_alloc_def
      pool_compact_def pool_inv_def pool_in_use_def)


text \<open>A kernel that succeeds with the descriptor 3.\<close>

definition sample_kernel :: fs_kernel where
  "sample_kernel = \<lparr>kernel_result = \<lambda>_. (3, 0),
     kernel_stat = \<lambda>_. \<lparr>st_size = 0, st_ctime = 0, st_mtime = 0, st_atime = 0, st_is_dir = False\<rparr>, kernel_entry = \<lambda>_. None\<rparr>"


text \<open>
  After any such sequence opening a file either fails and leaves the open files as they are, or returns a number
  between 0 and 127 that no open file has, and the counter of open files is their number.
\<close>

theorem drive_file_ids:
  assumes "fs_legal os ops (guac_rdp_fs_alloc os drive create)"
  shows "\<exists>fs r fs'. fs_run os ops (guac_rdp_fs_alloc os drive create) = Some fs
    \<and> guac_rdp_fs_open os path access disposition options fs = Some (r, fs')
    \<and> (r < 0 \<and> fs_open_ids fs' = fs_open_ids fs
       \<or> 0 \<le> r \<and> r < 128 \<and> r \<notin> fs_open_ids fs \<and> fs_open_ids fs' = insert r (fs_open_ids fs))
    \<and> fs_open_files fs' = int (card (fs_open_ids fs')) \<and> card (fs_open_ids fs') \<le> 128"
proof -
  obtain fs where fs: "fs_run os ops (guac_rdp_fs_alloc os drive create) = Some fs" "fs_inv fs"
    using fs_run_inv[OF _ assms] alloc_inv[of os drive create] by auto
  obtain r fs' where r: "guac_rdp_fs_open os path access disposition options fs = Some (r, fs')" "fs_inv fs'" "open_result r fs fs'"
    using fs_open_step[OF fs(2)] by blast
  have "fs_open_files fs' = int (card (fs_open_ids fs'))"
    using r(2) pool_active_card[of "file_id_pool fs'"] by (simp add: fs_inv_def pool_compact_def fs_open_ids_def)
  moreover have "card (fs_open_ids fs') \<le> card {0..<128 :: int}"
    using open_id_range[OF r(2)] by (intro card_mono) auto
  ultimately show ?thesis using fs r unfolding open_result_def by auto
qed

theorem drive_file_ids_witness:
  "\<exists>r fs. guac_rdp_fs_open sample_kernel (cstr ''/a'') FILE_READ_DATA 1 0 (guac_rdp_fs_alloc sample_kernel (cstr ''/drive'') False)
      = Some (r, fs) \<and> fs_open_files fs = int (card (fs_open_ids fs))"
proof -
  have "fs_legal sample_kernel [] (guac_rdp_fs_alloc sample_kernel (cstr ''/drive'') False)" by simp
  from drive_file_ids[OF this, of "cstr ''/a''" FILE_READ_DATA 1 0] show ?thesis by auto
qed

text \<open>
  Where the code falls short. The time of Windows counts from 1601, so that the difference has to be added to a
  time of UNIX; the code subtracts it, and adds it the other way round. A directory that has been read is closed
  twice, the second time under a descriptor that another file may have by then.
\<close>

lemma windows_time_wraps: "WINDOWS_TIME 0 = - 116444736000000000" "UNIX_TIME 116444736000000000 = 23288947200"
  by (simp_all add: WINDOWS_TIME_def UNIX_TIME_def)

lemma directory_closed_twice:
  assumes "guac_rdp_fs_get_file i" and "fs_files fs i = Some f" and "file_dir f"
    and "absolute_path f \<noteq> None" and "real_path f \<noteq> None"
  shows "\<exists>fs'. guac_rdp_fs_close os i fs = Some fs' \<and> fs_calls fs' = fs_calls fs @ [call_closedir (file_fd f), call_close (file_fd f)]"
  using assms by (auto simp: guac_rdp_fs_close_def fs_call_kernel_def Let_def)

end
