(* ===== verification/Spec2Isabelle.thy ===== *)
theory Spec2Isabelle
  imports Guac_Unicode Guac_Pool Guac_Client Guac_Parser Guac_Protocol Guacenc_Jobs Guaclog_State
    Term_Flush Term_Safe Common_Surface_Shown Drive_Path Common_Json Common_List Common_Iconv Guacd_Conf
    Rdp_Keyboard Rdp_Fs
begin

text \<open>
  A verification development for guacenc, the video encoder built on the Guacamole server. Paths below
  are relative to \<open>src/guacamole-server-1.1.0/src\<close>.

  \<^bold>\<open>The program.\<close> \<open>libguac\<close> carries the Guacamole protocol: a server writes instructions (an opcode and
  arguments, each prefixed with its length in characters) to a socket, and a parser reads them on the other
  side. A recording of a session is a file of such instructions. \<open>guacenc\<close> replays a recording, or a session
  while it is going on, onto a display of layers and buffers and encodes the display as a video; its server
  runs one job per session. \<open>guaclog\<close> turns the key events of a recording into text.

  \<^bold>\<open>The theories\<close>, in the order in which they build on each other:

  \<^item> \<open>Guac_Prelude\<close>: bytes (8-bit words), C strings, \<open>int\<close> and \<open>int64_t\<close> with their wrap-around, decimal printing
    and scanning, memory blocks.
  \<^item> \<open>Guac_Unicode\<close> (\<open>libguac/unicode.c\<close>): reading and writing UTF-8; the two are inverse for every code point.
  \<^item> \<open>Guac_Pool\<close>, \<open>Guac_Client\<close> (\<open>libguac/pool.c\<close>, parts of \<open>client.c\<close> and \<open>user.c\<close>): the integer pool, and the
    indices of layers, buffers, streams and objects. The pool is an interface (a locale) that the index
    tables use; no index is handed out twice, except for layers, where the code frees the wrong index.
  \<^item> \<open>Guac_Format\<close>, \<open>Guac_Instruction\<close>: \<open>snprintf\<close> as the code uses it, and the wire format of instructions.
  \<^item> \<open>Guac_Socket\<close>, \<open>Guac_Socket_Fd\<close> (\<open>libguac/socket.c\<close>, \<open>socket-fd.c\<close>): the socket with its handlers as a record of
    functions, and the buffered socket over a file descriptor. The contract of the handlers is a locale,
    interpreted on the file descriptor socket: what is written arrives in order after a flush.
  \<^item> \<open>Guac_Parser\<close> (\<open>libguac/parser.c\<close>): the parser on its fixed buffer, with element pointers as offsets. The input is
    a locale (\<open>socket_input\<close>, and \<open>socket_file\<close> for input that ends), interpreted on the descriptor socket and,
    in \<open>Guacenc_Encode\<close>, on bytes in memory: a stream of instructions is read back element by element however
    it is cut, and on arbitrary bytes the parser stays within its buffer and returns.
  \<^item> \<open>Guac_Base64\<close>, \<open>Guac_Protocol\<close> (\<open>libguac/protocol.c\<close>): base64, and all send functions; each appends exactly the
    encoding of its instruction, and releases the instruction lock whatever the kernel answers.
  \<^item> \<open>Guacenc_Parse\<close> (\<open>guacenc/parse.c\<close>): numbers, dimensions and timestamps.
  \<^item> \<open>Guacenc_Buffer\<close> (\<open>guacenc/buffer.c\<close>, \<open>layer.c\<close>, \<open>cursor.c\<close>, \<open>image-stream.c\<close>): image buffers and image streams. A cairo
    surface is its size with the list of the calls made on it, and whether it can be drawn to.
  \<^item> \<open>Guacenc_Video\<close> (\<open>guacenc/video.c\<close>, \<open>ffmpeg-compat.c\<close>): the timeline of the video, the copying of a buffer into a
    frame with margins, and the loop around the encoder.
  \<^item> \<open>Guacenc_Display\<close> (\<open>guacenc/display.c\<close> and \<open>display-*.c\<close>): the tables of layers, buffers and streams, and the flattening
    of the tree of layers.
  \<^item> \<open>Guacenc_Instructions\<close> (\<open>guacenc/instruction-*.c\<close>, \<open>instructions.c\<close>, the read loop of \<open>encode.c\<close>): the fourteen handlers;
    an invariant of the display that every handler keeps; the replay of a recording.
  \<^item> \<open>Guacenc_Encode\<close> (\<open>guacenc/encode.c\<close>): the live conversion with its own reading loop over bytes in memory.
  \<^item> \<open>Guacenc_Jobs\<close> (\<open>guacenc/jobs.c\<close>): the jobs of the server, their semaphore, their configuration and the call of
    ffmpeg.
  \<^item> \<open>Guaclog_State\<close> (\<open>guaclog/keydef.c\<close>, \<open>state.c\<close>, \<open>instruction-key.c\<close>, \<open>instructions.c\<close>, the read loop of \<open>interpret.c\<close>): the
    table of keys, the keys held down and the text logged, refined from an abstract list of held keys.
  \<^item> \<open>Term_Common\<close>, \<open>Term_Buffer\<close>, \<open>Term_Cells\<close> (\<open>terminal/common.c\<close>, \<open>buffer.c\<close>): characters, and the ring of rows that is the
    scrollback of the terminal; rows are copied as a whole, and what holds of every character stored holds of
    every character of the buffer.
  \<^item> \<open>Term_Display\<close>, \<open>Term_Flush\<close> (\<open>terminal/display.c\<close>): the pending operations of the terminal's display, refined from
    changes of the screen, and the drawing calls of a flush, interpreted on pixels.
  \<^item> \<open>Term_Scrollbar\<close>, \<open>Term_Colors\<close>, \<open>Term_Typescript\<close>, \<open>Common_Clipboard\<close> (\<open>terminal/scrollbar.c\<close>, \<open>palette.c\<close>, \<open>named-colors.c\<close>,
    \<open>xparsecolor.c\<close>, \<open>color-scheme.c\<close>, \<open>typescript.c\<close>, \<open>common/clipboard.c\<close>): the other parts a terminal owns.
    \<open>Guac_Search\<close> is \<open>bsearch\<close> of the C library, for the tables of colours and of keys.
  \<^item> \<open>Term_Screen\<close>, \<open>Term_Output\<close>, \<open>Term_Handlers\<close> (\<open>terminal/terminal.c\<close>, \<open>select.c\<close>, \<open>terminal_handlers.c\<close>, \<open>char_mappings.c\<close>): the
    state of the terminal with its operations, and the state machine that interprets output byte by byte.
  \<^item> \<open>Term_Safe\<close>: the invariant of the screen that the operations of the terminal keep.
  \<^item> \<open>Common_Rect\<close> (\<open>common/rect.c\<close>): rectangles, as sets of pixels.
  \<^item> \<open>Common_Surface\<close> (\<open>common/surface.c\<close>): the drawing surfaces, their pixels, dirty rectangle, queue of deferred updates and
    heat map. \<open>Common_Surface_Pixels\<close> shows which pixels each loop changes, \<open>Common_Surface_Sync\<close> has the client that carries out the
    instructions and the invariant that a pixel is pending or shown, \<open>Common_Surface_Flush\<close> that the work off of the
    queue keeps it, \<open>Common_Surface_Ops\<close> that every operation does, \<open>Common_Surface_Shown\<close> what follows for sequences of them.
  \<^item> \<open>Guac_String\<close>, \<open>Common_List\<close>, \<open>Common_Iconv\<close>, \<open>Common_Json\<close> (\<open>libguac/string.c\<close>, \<open>common/string.c\<close>, \<open>list.c\<close>, \<open>iconv.c\<close>, \<open>json.c\<close>): strings with
    bounded copies, the doubly linked list over a store of elements, conversion between encodings, and objects streamed in blobs.
  \<^item> \<open>Drive_Path\<close> (\<open>protocols/rdp/fs.c\<close>, \<open>common-ssh/sftp.c\<close>): paths of the shared drive and of SFTP; what is opened lies
    within the directory that is shared.
  \<^item> \<open>Rdp_Fs\<close> (\<open>protocols/rdp/fs.c\<close>): the shared drive with its table of files, over a kernel that answers as it likes; every
    path of a system call lies within the drive, and the numbers of open files are not handed out again.
  \<^item> \<open>Rdp_Keyboard\<close> (\<open>protocols/rdp/keyboard.c\<close>, \<open>keymap.h\<close>, \<open>decompose.c\<close>): keysyms become scancodes of a remote keyboard; the
    modifiers that other keys need are pressed and released around them, and those of the user stay in step.
  \<^item> \<open>Guacd_Conf\<close> (\<open>guacd/conf-parse.c\<close>, \<open>conf-file.c\<close>, \<open>conf-args.c\<close>): the configuration of the proxy. That a parameter may be set again
    by the rest of its line is the contract of the callback (a locale), interpreted on the callback of guacd.
  \<^item> \<open>Guac_Loop\<close>: loops over lists whose steps can fail, and the rule for their invariants.
  \<^item> this theory: the composition of senders, sockets and parser, and from the keyboard to the log.

  \<^bold>\<open>State and effects.\<close> A C struct is a record, a pointer to one of several objects the index of its slot, a
  pointer into a buffer an offset, a null pointer \<open>None\<close>. An operation takes the state and returns the result
  of the C function with the new state. The outer \<open>None\<close> of an option stands for what the code leaves
  undefined: a failed assertion, a null pointer dereferenced, a write outside an array, an element pointer that
  is moved to before its buffer, or (for the functions defined with \<open>partial_function\<close>) a call that does not
  return. In the display of \<open>guacenc\<close>, where a recording chooses the numbers, this includes sums and products that
  leave an \<open>int\<close> (\<open>c_int\<close>) and images whose memory is not granted; which surfaces cairo creates, which memory is
  granted and in which order \<open>qsort\<close> leaves equal elements are parameters. Elsewhere numbers wrap around (\<open>s32\<close>, \<open>s64\<close>),
  or are unbounded where the text of the theory says which bound keeps them in range. What the kernel, the memory allocator, the clock
  and the encoder answer is given as scripts, lists of results that are used up call by call; a script that
  is used up stands for success. Locks are booleans in the state; taking a lock that is held has no result.

  \<^bold>\<open>Termination.\<close> Loops over data are structural or have a measure. The loops that read from a socket are partial
  functions, and their theorems state that they return: the parser on every behaviour of a descriptor, the
  read loops of \<open>guacenc\<close> and \<open>guaclog\<close> and the live conversion on the encodings of instructions. The flattening of a
  display returns when the parents of layers form a forest, and does not when a layer is its own parent. Fuel
  is used in one place: the functions of the RDP keyboard that call each other take the depth of calls, and
  a depth of three is shown to be enough for keymaps whose keys need modifiers only.

  \<^bold>\<open>What is not modelled.\<close> Threads other than as scripts of what they see (the keep-alive thread of the socket, the
  mutex of the pool, epoll); SSL, Winsock, nested, tee and broadcast sockets; \<open>guac_error\<close> and logging; pixels (an
  image is the term of its drawing calls) and the image, audio and video codecs, which are parameters;
  file locks; the handshake and the input handlers of users; the processes and connections of \<open>guacd\<close>, the keyboard and mouse of the
  terminal and the glyphs of its font, and the protocol plugins, which are process management, rendering and glue to
  third-party libraries.
\<close>

section \<open>From the sender to the receiver\<close>

lemma fd_sends_all:
  assumes "list_all (\<lambda>(act, es). fds.sends act (encode_instruction es)) ops"
    and "fds.quiet sk" "\<not> socket_lock (sdata sk)"
  shows "\<exists>sk'. c_any (map fst ops) sk = Some (0, sk') \<and> fds.quiet sk' \<and> \<not> socket_lock (sdata sk')
    \<and> fd_out (sdata sk') = fd_out (sdata sk) @ concat (map (\<lambda>(act, es). encode_instruction es) ops)"
  using assms
proof (induction ops arbitrary: sk)
  case (Cons p ops)
  obtain act es where p: "p = (act, es)" by fastforce
  have "fds.sends act (encode_instruction es)" using Cons.prems(1) p by simp
  from this Cons.prems(2,3) obtain sk1 where 1: "act sk = Some (0, sk1)" "fds.quiet sk1"
    "\<not> socket_lock (sdata sk1)" "fd_out (sdata sk1) = fd_out (sdata sk) @ encode_instruction es"
    by (rule fds.sendsE)
  from Cons.IH[OF _ 1(2,3)] Cons.prems(1) obtain sk2 where
    "c_any (map fst ops) sk1 = Some (0, sk2)" "fds.quiet sk2" "\<not> socket_lock (sdata sk2)"
    "fd_out (sdata sk2) = fd_out (sdata sk1) @ concat (map (\<lambda>(act, es). encode_instruction es) ops)"
    by auto
  with 1 p show ?case by simp
qed simp

lemma fd_sent_wire:
  assumes "length (out_buf k) = GUAC_SOCKET_OUTPUT_BUFFER_SIZE" "length g = 3" "fd_reliable k" "wire k = []"
    and "list_all (\<lambda>(act, es). fds.sends act (encode_instruction es)) ops"
  shows "\<exists>sk. c_any (map fst ops @ [guac_socket_flush]) (guac_socket_open f t g k) = Some (0, sk)
    \<and> \<not> socket_lock (sdata sk) \<and> wire (sdata sk) = concat (map encode_instruction (map snd ops))"
proof -
  note o = fd_open_quiet[OF assms(1-4), of f t]
  obtain sk1 where 1: "c_any (map fst ops) (guac_socket_open f t g k) = Some (0, sk1)" "fds.quiet sk1"
    "\<not> socket_lock (sdata sk1)" "fd_out (sdata sk1) = concat (map encode_instruction (map snd ops))"
    using fd_sends_all[OF assms(5) o(1,3)] o(2) by (auto simp: case_prod_unfold comp_def)
  obtain sk2 where "guac_socket_flush sk1 = Some (0, sk2)" "wire (sdata sk2) = fd_out (sdata sk1)"
    "\<not> socket_lock (sdata sk2)"
    using fd_flush_wire[OF 1(2)] 1(3) by auto
  with 1 show ?thesis by (auto simp: c_any_append)
qed

lemma fd_received_awaiting:
  assumes "guac_parser_alloc (Some block) = Some parser" "length (instructionbuf block) = INSTRUCTIONBUF_SIZE"
    and "length (elementv block) = GUAC_INSTRUCTION_MAX_ELEMENTS" "fd_readable d"
  shows "fdi.awaiting parser (guac_socket_open f t g (d\<lparr>incoming := bs\<rparr>)) bs"
  using fd_open_awaiting[OF assms(1-3), of "d\<lparr>incoming := bs\<rparr>" f t g] assms(4) by (simp add: fd_readable_def)

text \<open>
  C1. What is sent is what is read. Take any sequence of calls of the send functions, each of which
  encodes an instruction the parser accepts, on a newly opened socket, and flush it; let the other
  end of the connection deliver the bytes the kernel accepted. However the kernel cuts the bytes on
  either side (as long as it does not fail), every call succeeds, and a newly allocated parser reads,
  instruction by instruction, exactly the opcodes and arguments of the calls, with nothing left over.
\<close>

theorem sent_is_read:
  assumes "length (out_buf k) = GUAC_SOCKET_OUTPUT_BUFFER_SIZE" "length g = 3" "fd_reliable k" "wire k = []"
    and "list_all (\<lambda>(act, es). fds.sends act (encode_instruction es) \<and> sendable es) ops"
    and "guac_parser_alloc (Some block) = Some parser" "length (instructionbuf block) = INSTRUCTIONBUF_SIZE"
    and "length (elementv block) = GUAC_INSTRUCTION_MAX_ELEMENTS" "fd_readable d"
  shows "\<exists>sk. c_any (map fst ops @ [guac_socket_flush]) (guac_socket_open f t g k) = Some (0, sk)
    \<and> \<not> socket_lock (sdata sk)
    \<and> (\<exists>q sk'. read_instructions (length ops) parser
           (guac_socket_open f' t' g' (d\<lparr>incoming := wire (sdata sk)\<rparr>)) usec = Some (map snd ops, q, sk')
         \<and> guac_parser_length q = 0 \<and> incoming (sdata sk') = [])"
proof -
  have s: "list_all (\<lambda>(act, es). fds.sends act (encode_instruction es)) ops"
    and m: "list_all sendable (map snd ops)"
    using assms(5) by (auto simp: list_all_iff)
  obtain sk where 1: "c_any (map fst ops @ [guac_socket_flush]) (guac_socket_open f t g k) = Some (0, sk)"
    "\<not> socket_lock (sdata sk)" "wire (sdata sk) = concat (map encode_instruction (map snd ops)) @ []"
    using fd_sent_wire[OF assms(1-4) s, of f t] by auto
  let ?r = "guac_socket_open f' t' g' (d\<lparr>incoming := wire (sdata sk)\<rparr>)"
  have "fdi.awaiting parser ?r (concat (map encode_instruction (map snd ops)) @ [])"
    unfolding 1(3) by (rule fd_received_awaiting[OF assms(6-9)])
  from fdi.read_instructions_all[OF this m, of usec] obtain q sk' where
    3: "read_instructions (length ops) parser ?r usec = Some (map snd ops, q, sk')" "fdi.awaiting q sk' []"
    by auto
  from 3(2) have "guac_parser_length q = 0" "incoming (sdata sk') = []"
    by (auto simp: fdi.awaiting_def fdi.feeds_def guac_parser_length_def window_def)
  with 1(1,2) 3(1) show ?thesis by blast
qed

theorem sent_is_read_witness:
  "\<exists>sk. c_any (map fst [(guac_protocol_send_sync 5, [cstr ''sync'', num 5]), (guac_protocol_send_nop, [cstr ''nop''])]
       @ [guac_socket_flush])
      (guac_socket_open 4 0 [0, 0, 0] \<lparr>fd = 0, written = 0, out_buf = replicate 8192 0,
         socket_lock = False, buffer_lock = False, wire = [], write_script = [3], incoming = [],
         read_script = [], select_script = [], fd_open = True\<rparr>) = Some (0, sk)
    \<and> (\<exists>q sk'. read_instructions 2
         (guac_parser_reset \<lparr>pstate = GUAC_PARSE_ERROR, opcode = None, argc = 7, elementc = 3,
            elementv = replicate 128 0, element_length = 5, unparsed_start = 0, unparsed_end = 0,
            instructionbuf = replicate 32768 0\<rparr>)
         (guac_socket_open 5 0 [0, 0, 0] \<lparr>fd = 0, written = 0, out_buf = [], socket_lock = False,
            buffer_lock = False, wire = [], write_script = [], incoming = wire (sdata sk), read_script = [2, 7],
            select_script = [], fd_open = True\<rparr>) 1000 = Some ([[cstr ''sync'', num 5], [cstr ''nop'']], q, sk'))"
proof -
  let ?ops = "[(guac_protocol_send_sync 5, [cstr ''sync'', num 5]), (guac_protocol_send_nop, [cstr ''nop''])]"
  let ?k = "\<lparr>fd = 0, written = 0, out_buf = replicate 8192 0, socket_lock = False, buffer_lock = False,
    wire = [], write_script = [3], incoming = [], read_script = [], select_script = [], fd_open = True\<rparr>"
  let ?d = "\<lparr>fd = 0, written = 0, out_buf = [], socket_lock = False, buffer_lock = False, wire = [],
    write_script = [], incoming = [], read_script = [2, 7], select_script = [], fd_open = True\<rparr>"
  let ?b = "\<lparr>pstate = GUAC_PARSE_ERROR, opcode = None, argc = 7, elementc = 3,
    elementv = replicate 128 0, element_length = 5, unparsed_start = 0, unparsed_end = 0,
    instructionbuf = replicate 32768 0\<rparr>"
  have "sendable [cstr ''sync'', num 5]" "sendable [cstr ''nop'']"
    by (simp_all add: ascii_sendable num_def dec_int_def dec_nat.simps)
  then have ops: "list_all (\<lambda>(act, es). fds.sends act (encode_instruction es) \<and> sendable es) ?ops"
    by (simp add: fds.sends_control del: cstr_simps)
  have "guac_parser_alloc (Some ?b) = Some (guac_parser_reset ?b)" by (simp add: guac_parser_alloc_def)
  from sent_is_read[of ?k "[0, 0, 0]" ?ops ?b "guac_parser_reset ?b" ?d 4 0 5 0 "[0, 0, 0]" 1000, OF _ _ _ _ ops this]
  show ?thesis by (auto simp: fd_reliable_def fd_readable_def numeral_2_eq_2
      simp del: cstr_simps c_any.simps read_instructions.simps)
qed

section \<open>From the keyboard to the log\<close>

text \<open>
  C14. What is typed is what is logged. Let any sequence of key events of printable keys, Shift and AltGr be
  sent with \<open>guac_protocol_send_key\<close> on a newly opened socket, and the socket be flushed; let the interpreter of
  input logs read the bytes, however they are cut. Every call succeeds, the interpreter reaches the
  end of its input, and its output is exactly the text of the keys pressed, in order.
\<close>

theorem typed_text_logged:
  assumes "length (out_buf k) = GUAC_SOCKET_OUTPUT_BUFFER_SIZE" "length g = 3" "fd_reliable k" "wire k = []"
    and "list_all (typing buf) evs" "guaclog_state_alloc True True True = Some st"
    and "guac_parser_alloc (Some block) = Some parser" "length (instructionbuf block) = INSTRUCTIONBUF_SIZE"
    and "length (elementv block) = GUAC_INSTRUCTION_MAX_ELEMENTS" "fd_readable d"
  shows "\<exists>sk. c_any (map (\<lambda>(k, p, ts). guac_protocol_send_key k p ts) evs @ [guac_socket_flush]) (guac_socket_open f t g k) = Some (0, sk)
    \<and> (\<exists>st' q sk'. guaclog_read_loop buf parser (guac_socket_open f' t' g' (d\<lparr>incoming := wire (sdata sk)\<rparr>)) st = Some (st', q, sk')
         \<and> log_output st' = typed_text buf evs)"
proof -
  let ?ops = "map (\<lambda>ev. (case ev of (k, p, ts) \<Rightarrow> guac_protocol_send_key k p ts, key_instruction ev)) evs"
  have s: "list_all (\<lambda>(act, es). fds.sends act (encode_instruction es)) ?ops"
    by (auto simp: list_all_iff key_instruction_def fds.sends_control simp del: cstr_simps)
  have f: "map fst ?ops = map (\<lambda>(k, p, ts). guac_protocol_send_key k p ts) evs" "map snd ?ops = map key_instruction evs"
    by simp_all
  obtain sk where 1: "c_any (map fst ?ops @ [guac_socket_flush]) (guac_socket_open f t g k) = Some (0, sk)"
    "wire (sdata sk) = concat (map encode_instruction (map key_instruction evs))"
    using fd_sent_wire[OF assms(1-4) s, of f t] unfolding f(2) by blast
  have m: "list_all sendable (map key_instruction evs)"
    using assms(5) key_instruction_sendable by (auto simp: list_all_iff typing_def)
  obtain st' where 2: "log_all buf (map key_instruction evs) st = Some st'" "log_output st' = typed_text buf evs"
    using typed_text_log[of st buf evs] alloc_tracking[OF assms(6)] assms(5) by auto
  let ?r = "guac_socket_open f' t' g' (d\<lparr>incoming := wire (sdata sk)\<rparr>)"
  have "fdi.awaiting parser ?r (concat (map encode_instruction (map key_instruction evs)))"
    unfolding 1(2) by (rule fd_received_awaiting[OF assms(7-10)])
  from fdf.log_replay[OF this m 2(1)] 1(1) 2(2) show ?thesis unfolding f(1) by blast
qed

theorem typed_text_logged_witness:
  "\<exists>sk st st' q sk'. guaclog_state_alloc True True True = Some st
    \<and> c_any (map (\<lambda>(k, p, ts). guac_protocol_send_key k p ts) [(0xFFE1, True, 7), (65, True, 8), (65, False, 9)] @ [guac_socket_flush])
      (guac_socket_open 4 0 [0, 0, 0] \<lparr>fd = 0, written = 0, out_buf = replicate 8192 0,
         socket_lock = False, buffer_lock = False, wire = [], write_script = [3], incoming = [],
         read_script = [], select_script = [], fd_open = True\<rparr>) = Some (0, sk)
    \<and> guaclog_read_loop (replicate 8 0)
         (guac_parser_reset \<lparr>pstate = GUAC_PARSE_ERROR, opcode = None, argc = 7, elementc = 3,
            elementv = replicate 128 0, element_length = 5, unparsed_start = 0, unparsed_end = 0,
            instructionbuf = replicate 32768 0\<rparr>)
         (guac_socket_open 5 0 [0, 0, 0] \<lparr>fd = 0, written = 0, out_buf = [], socket_lock = False,
            buffer_lock = False, wire = [], write_script = [], incoming = wire (sdata sk), read_script = [2, 7],
            select_script = [], fd_open = True\<rparr>) st = Some (st', q, sk')
    \<and> log_output st' = [65]"
proof -
  let ?evs = "[(0xFFE1, True, 7), (65, True, 8), (65, False, 9)] :: key_press list"
  let ?buf = "replicate 8 0 :: byte list"
  let ?k = "\<lparr>fd = 0, written = 0, out_buf = replicate 8192 0, socket_lock = False, buffer_lock = False,
    wire = [], write_script = [3], incoming = [], read_script = [], select_script = [], fd_open = True\<rparr>"
  let ?d = "\<lparr>fd = 0, written = 0, out_buf = [], socket_lock = False, buffer_lock = False, wire = [],
    write_script = [], incoming = [], read_script = [2, 7], select_script = [], fd_open = True\<rparr>"
  let ?b = "\<lparr>pstate = GUAC_PARSE_ERROR, opcode = None, argc = 7, elementc = 3,
    elementv = replicate 128 0, element_length = 5, unparsed_start = 0, unparsed_end = 0,
    instructionbuf = replicate 32768 0\<rparr>"
  have "guaclog_get_known_key 0xFFE1 = Some (known_key 0xFFE1 ''Shift'' (Some []) True)" "guaclog_get_known_key 65 = None"
    using get_known_key_find[of "0xFFE1"] get_known_key_find[of 65] by (simp_all add: in_s32_def known_keys_def known_key_def)
  then have kd: "guaclog_keydef_alloc ?buf 0xFFE1 = known_key 0xFFE1 ''Shift'' (Some []) True"
    "guaclog_keydef_alloc ?buf 65 = \<lparr>keysym = 65, kname = [65], kvalue = Some [65], modifier = False\<rparr>"
    using get_unicode_key_utf8[of 65 ?buf]
    by (simp_all add: guaclog_keydef_alloc_def guaclog_copy_key_def known_key_def unicode_keysym_def utf8_ref_def)
  have ty: "list_all (typing ?buf) ?evs" "typed_text ?buf ?evs = [65]"
    by (simp_all add: typing_def typed_text_def kd known_key_def in_s32_def)
  obtain st where st: "guaclog_state_alloc True True True = Some st" by (simp add: guaclog_state_alloc_def)
  have p: "guac_parser_alloc (Some ?b) = Some (guac_parser_reset ?b)" by (simp add: guac_parser_alloc_def)
  have fr: "fd_reliable ?k" "fd_readable ?d" by (simp_all add: fd_reliable_def fd_readable_def)
  from typed_text_logged[OF _ _ fr(1) _ ty(1) st p _ _ fr(2), of "[0, 0, 0]" 4 0 5 0 "[0, 0, 0]"] ty(2) st show ?thesis
    by (auto simp del: c_any.simps list.map)
qed

end
